(* ===== verification/Prelude.thy ===== *)
theory Prelude
  imports Complex_Main "HOL-Library.Word" "HOL-Library.Multiset"
begin

text \<open>
  Shared vocabulary of the development: the machine types of the Rust code, the part of the
  Rust standard library the components call (iterator adaptors, \<open>Vec\<close> operations,
  \<open>sort_by\<close>, comparison of floating point numbers) and the lemmas on them that the component
  theories use.
\<close>

named_theorems conserve_simps \<open>facts on the multiset of a list that an operation keeps\<close>

section \<open>Types\<close>

type_synonym u64 = "64 word"
type_synonym i64 = "64 word"
type_synonym i32 = "32 word"
type_synonym 'a result = "string + 'a"

abbreviation Ok :: "'a \<Rightarrow> 'a result" where "Ok \<equiv> Inr"
abbreviation Err :: "string \<Rightarrow> 'a result" where "Err \<equiv> Inl"

text \<open>\<open>x as usize\<close> for a 32-bit signed \<open>x\<close>: sign extension to 64 bits.\<close>

definition i32_as_usize :: "i32 \<Rightarrow> nat" where
  "i32_as_usize x = unat (scast x :: 64 word)"

text \<open>\<open>x.max(0) as usize\<close> for a 32-bit signed \<open>x\<close>.\<close>

definition i32_max0 :: "i32 \<Rightarrow> nat" where
  "i32_max0 x = nat (max 0 (sint x))"

text \<open>A number written in decimal, as \<open>format!\<close> prints a \<open>usize\<close>.\<close>

fun show_nat :: "nat \<Rightarrow> string" where
  "show_nat n =
     (if n < 10 then [char_of (48 + n)] else show_nat (n div 10) @ [char_of (48 + n mod 10)])"

declare show_nat.simps [simp del]

section \<open>Options and iterators\<close>

definition or_else :: "'a option \<Rightarrow> 'a option \<Rightarrow> 'a option" where
  "or_else a b = (case a of Some x \<Rightarrow> Some x | None \<Rightarrow> b)"

definition unwrap_or :: "'a \<Rightarrow> 'a option \<Rightarrow> 'a" where
  "unwrap_or d a = (case a of Some x \<Rightarrow> x | None \<Rightarrow> d)"

definition is_some_and :: "('a \<Rightarrow> bool) \<Rightarrow> 'a option \<Rightarrow> bool" where
  "is_some_and p a = (case a of Some x \<Rightarrow> p x | None \<Rightarrow> False)"

definition is_none_or :: "('a \<Rightarrow> bool) \<Rightarrow> 'a option \<Rightarrow> bool" where
  "is_none_or p a = (case a of Some x \<Rightarrow> p x | None \<Rightarrow> True)"

lemma or_else_simps [simp]:
  "or_else (Some x) b = Some x" "or_else None b = b" "or_else a None = a"
  by (simp_all add: or_else_def split: option.split)

lemma or_else_eq_None [simp]: "or_else a b = None \<longleftrightarrow> a = None \<and> b = None"
  by (simp add: or_else_def split: option.split)

lemma option_pred_simps [simp]:
  "unwrap_or d (Some x) = x" "unwrap_or d None = d"
  "is_some_and p (Some x) = p x" "is_some_and p None = False"
  "is_none_or p (Some x) = p x" "is_none_or p None = True"
  by (simp_all add: unwrap_or_def is_some_and_def is_none_or_def)

lemma is_some_and_iff: "is_some_and p a \<longleftrightarrow> (\<exists>x. a = Some x \<and> p x)"
  by (cases a) auto

fun find_map :: "('a \<Rightarrow> 'b option) \<Rightarrow> 'a list \<Rightarrow> 'b option" where
  "find_map f [] = None"
| "find_map f (x # xs) = (case f x of Some y \<Rightarrow> Some y | None \<Rightarrow> find_map f xs)"

lemma find_map_None [simp]: "find_map f xs = None \<longleftrightarrow> (\<forall>x \<in> set xs. f x = None)"
  by (induction xs) (auto split: option.split)

lemma find_map_SomeD: "find_map f xs = Some y \<Longrightarrow> \<exists>x \<in> set xs. f x = Some y"
  by (induction xs) (auto split: option.splits)

fun position :: "('a \<Rightarrow> bool) \<Rightarrow> 'a list \<Rightarrow> nat option" where
  "position p [] = None"
| "position p (x # xs) = (if p x then Some 0 else map_option Suc (position p xs))"

lemma position_Some:
  "position p xs = Some i \<Longrightarrow> i < length xs \<and> p (xs ! i) \<and> (\<forall>j < i. \<not> p (xs ! j))"
proof (induction xs arbitrary: i)
  case (Cons x xs)
  show ?case
  proof (cases "p x")
    case False
    with Cons.prems obtain k where "position p xs = Some k" "i = Suc k" by auto
    with Cons.IH [of k] False show ?thesis by (auto simp: less_Suc_eq_0_disj)
  qed (use Cons.prems in auto)
qed simp

lemma position_None [simp]: "position p xs = None \<longleftrightarrow> (\<forall>x \<in> set xs. \<not> p x)"
  by (induction xs) auto

lemma find_None_iff_set: "List.find p xs = None \<longleftrightarrow> (\<forall>x \<in> set xs. \<not> p x)"
  by (induction xs) auto

lemma find_SomeD: "List.find p xs = Some x \<Longrightarrow> x \<in> set xs \<and> p x"
  by (induction xs) (auto split: if_splits)

section \<open>Vectors\<close>

text \<open>\<open>Vec::insert\<close> and \<open>Vec::remove\<close> at an index in range.\<close>

definition insert_at :: "nat \<Rightarrow> 'a \<Rightarrow> 'a list \<Rightarrow> 'a list" where
  "insert_at i x xs = take i xs @ x # drop i xs"

definition remove_at :: "nat \<Rightarrow> 'a list \<Rightarrow> 'a list" where
  "remove_at i xs = take i xs @ drop (Suc i) xs"

lemma length_insert_at [simp]: "length (insert_at i x xs) = Suc (length xs)"
  by (simp add: insert_at_def)

lemma set_insert_at [simp]: "set (insert_at i x xs) = insert x (set xs)"
proof -
  have "set (take i xs) \<union> set (drop i xs) = set xs"
    by (metis append_take_drop_id set_append)
  then show ?thesis by (auto simp: insert_at_def)
qed

lemma mset_insert_at [simp, conserve_simps]: "mset (insert_at i x xs) = add_mset x (mset xs)"
proof -
  have "mset (take i xs) + mset (drop i xs) = mset xs"
    by (metis append_take_drop_id mset_append)
  then show ?thesis by (simp add: insert_at_def)
qed

lemma filter_insert_at_not [simp]: "\<not> p x \<Longrightarrow> filter p (insert_at i x xs) = filter p xs"
  by (metis append_take_drop_id filter.simps(2) filter_append insert_at_def)

lemma length_remove_at: "i < length xs \<Longrightarrow> length (remove_at i xs) = length xs - 1"
  by (simp add: remove_at_def)

lemma remove_at_split: "i < length xs \<Longrightarrow> xs = take i xs @ xs ! i # drop (Suc i) xs"
  by (simp add: id_take_nth_drop)

lemma mset_remove_at [conserve_simps]:
  assumes "i < length xs"
  shows "add_mset (xs ! i) (mset (remove_at i xs)) = mset xs"
proof -
  have "mset xs = mset (take i xs @ xs ! i # drop (Suc i) xs)"
    using remove_at_split [OF assms] by simp
  then show ?thesis by (simp add: remove_at_def)
qed

lemma set_remove_at_subset: "set (remove_at i xs) \<subseteq> set xs"
  by (auto simp: remove_at_def dest: in_set_takeD in_set_dropD)

text \<open>
  \<open>slice::partition_point\<close>: the number of leading elements with the property. The binary search
  of the library returns it for every slice that has the elements with the property first.
\<close>

definition partition_point :: "('a \<Rightarrow> bool) \<Rightarrow> 'a list \<Rightarrow> nat" where
  "partition_point p xs = length (takeWhile p xs)"

lemma partition_point_le [simp]: "partition_point p xs \<le> length xs"
  by (simp add: partition_point_def length_takeWhile_le)

lemma partition_point_nth: "partition_point p xs < length xs \<Longrightarrow> \<not> p (xs ! partition_point p xs)"
  by (simp add: partition_point_def nth_length_takeWhile)

lemma partition_point_before: "i < partition_point p xs \<Longrightarrow> p (xs ! i)"
  by (metis nth_mem partition_point_def set_takeWhileD takeWhile_nth)

lemma mset_filter_split [conserve_simps]:
  "mset (filter p xs) + mset (filter (\<lambda>x. \<not> p x) xs) = mset xs"
  by (induction xs) auto

lemma mset_take_drop [conserve_simps]: "mset (take n xs) + mset (drop n xs) = mset xs"
  by (metis append_take_drop_id mset_append)

lemma subseteq_add_mset: "A \<subseteq># B \<Longrightarrow> A \<subseteq># add_mset x B"
  by (metis add_mset_add_single mset_subset_eq_add_left subset_mset.order_trans)

section \<open>Comparison and sorting\<close>

datatype ordering = Less | Equal | Greater

text \<open>
  An \<open>f64\<close> as far as comparison can see it: not a number, an infinity or a finite number (every
  finite double is rational; the two zeros compare equal).
\<close>

datatype f64 = F_NaN | F_NegInf | F_Fin rat | F_PosInf

fun partial_cmp :: "f64 \<Rightarrow> f64 \<Rightarrow> ordering option" where
  "partial_cmp F_NaN b = None"
| "partial_cmp a F_NaN = None"
| "partial_cmp F_NegInf F_NegInf = Some Equal"
| "partial_cmp F_NegInf b = Some Less"
| "partial_cmp a F_NegInf = Some Greater"
| "partial_cmp F_PosInf F_PosInf = Some Equal"
| "partial_cmp F_PosInf b = Some Greater"
| "partial_cmp a F_PosInf = Some Less"
| "partial_cmp (F_Fin a) (F_Fin b) = Some (if a < b then Less else if a = b then Equal else Greater)"

text \<open>The operators \<open>a > b\<close> and \<open>a >= b\<close> on \<open>f64\<close>: false when either is not a number.\<close>

definition f64_gt :: "f64 \<Rightarrow> f64 \<Rightarrow> bool" where
  "f64_gt a b \<longleftrightarrow> partial_cmp a b = Some Greater"

definition f64_ge :: "f64 \<Rightarrow> f64 \<Rightarrow> bool" where
  "f64_ge a b \<longleftrightarrow> partial_cmp a b = Some Greater \<or> partial_cmp a b = Some Equal"

text \<open>
  The double nearest to a rational number, with ties to the even significand: 53 significant bits,
  a least exponent of -1074 and an overflow to infinity. It is what a conversion of an integer
  (\<open>n as f64\<close>) and a division of finite doubles return. A quotient by zero is not a number or an
  infinity; zeros are not signed here, and no code below divides by a negative zero.
\<close>

fun bit_length :: "int \<Rightarrow> int" where
  "bit_length n = (if n \<le> 0 then 0 else 1 + bit_length (n div 2))"

declare bit_length.simps [simp del]

definition floor_log2 :: "rat \<Rightarrow> int" where
  "floor_log2 x =
     (let (n, d) = quotient_of x;
          e = bit_length n - bit_length d
      in if power_int 2 e \<le> x then e else e - 1)"

definition round_even :: "rat \<Rightarrow> int" where
  "round_even r =
     (let k = \<lfloor>r\<rfloor>; frac = r - of_int k
      in if frac < 1 / 2 \<or> (frac = 1 / 2 \<and> even k) then k else k + 1)"

definition f64_round :: "rat \<Rightarrow> f64" where
  "f64_round x =
     (if x = 0 then F_Fin 0
      else let e = max (floor_log2 \<bar>x\<bar>) (-1022);
               unit = power_int 2 (e - 52);
               v = of_int (round_even (\<bar>x\<bar> / unit)) * unit
           in if 2 ^ 1024 \<le> v then (if 0 < x then F_PosInf else F_NegInf) else F_Fin (sgn x * v))"

definition f64_of_int :: "int \<Rightarrow> f64" where
  "f64_of_int n = f64_round (of_int n)"

fun f64_div :: "f64 \<Rightarrow> f64 \<Rightarrow> f64" where
  "f64_div (F_Fin a) (F_Fin b) =
     (if b = 0 then (if a = 0 then F_NaN else if 0 < a then F_PosInf else F_NegInf) else f64_round (a / b))"
| "f64_div (F_Fin a) F_PosInf = F_Fin 0"
| "f64_div (F_Fin a) F_NegInf = F_Fin 0"
| "f64_div F_PosInf (F_Fin b) = (if 0 \<le> b then F_PosInf else F_NegInf)"
| "f64_div F_NegInf (F_Fin b) = (if 0 \<le> b then F_NegInf else F_PosInf)"
| "f64_div a b = F_NaN"

text \<open>\<open>b.partial_cmp(&a).unwrap_or(Equal)\<close>, the comparator of a descending sort by score.\<close>

definition score_desc :: "('a \<Rightarrow> f64) \<Rightarrow> 'a \<Rightarrow> 'a \<Rightarrow> ordering" where
  "score_desc score a b = unwrap_or Equal (partial_cmp (score b) (score a))"

text \<open>
  \<open>slice::sort_by\<close>, the stable sort, as insertion sort: for a comparator that is a total preorder
  on the elements the stable result is unique. Where the comparator is none (a score that is not
  a number) the library leaves the order of the result open; only that it is a permutation is
  proved for that case.
\<close>

fun insert_by :: "('a \<Rightarrow> 'a \<Rightarrow> ordering) \<Rightarrow> 'a \<Rightarrow> 'a list \<Rightarrow> 'a list" where
  "insert_by cmp x [] = [x]"
| "insert_by cmp x (y # ys) =
     (if cmp x y = Greater then y # insert_by cmp x ys else x # y # ys)"

definition sort_by :: "('a \<Rightarrow> 'a \<Rightarrow> ordering) \<Rightarrow> 'a list \<Rightarrow> 'a list" where
  "sort_by cmp xs = foldr (insert_by cmp) xs []"

lemma distinct_sub_mset: "mset xs \<subseteq># mset ys \<Longrightarrow> distinct ys \<Longrightarrow> distinct xs"
  by (metis distinct_append ex_mset mset_append mset_eq_imp_distinct_iff mset_subset_eq_exists_conv)

lemma mset_insert_by [simp]: "mset (insert_by cmp x xs) = add_mset x (mset xs)"
  by (induction xs) auto

lemma mset_sort_by [simp, conserve_simps]: "mset (sort_by cmp xs) = mset xs"
  by (induction xs) (auto simp: sort_by_def)

lemma set_sort_by [simp]: "set (sort_by cmp xs) = set xs"
  by (metis mset_sort_by set_mset_mset)

lemma length_sort_by [simp]: "length (sort_by cmp xs) = length xs"
  by (metis mset_sort_by size_mset)

lemma set_insert_by [simp]: "set (insert_by cmp x xs) = insert x (set xs)"
  by (metis mset_insert_by set_mset_add_mset_insert set_mset_mset)

text \<open>A comparator that is a total preorder on the elements with property \<open>A\<close>.\<close>

locale comparator_on =
  fixes A :: "'a set" and cmp :: "'a \<Rightarrow> 'a \<Rightarrow> ordering"
  assumes cmp_total: "x \<in> A \<Longrightarrow> y \<in> A \<Longrightarrow> cmp x y = Greater \<Longrightarrow> cmp y x \<noteq> Greater"
    and cmp_trans: "x \<in> A \<Longrightarrow> y \<in> A \<Longrightarrow> z \<in> A \<Longrightarrow>
      cmp x y \<noteq> Greater \<Longrightarrow> cmp y z \<noteq> Greater \<Longrightarrow> cmp x z \<noteq> Greater"
begin

lemma sorted_insert_by:
  "insert x (set xs) \<subseteq> A \<Longrightarrow> sorted_wrt (\<lambda>a b. cmp a b \<noteq> Greater) xs \<Longrightarrow>
    sorted_wrt (\<lambda>a b. cmp a b \<noteq> Greater) (insert_by cmp x xs)"
proof (induction xs)
  case (Cons y ys)
  show ?case
  proof (cases "cmp x y = Greater")
    case True
    with Cons cmp_total show ?thesis by auto
  next
    case False
    have "cmp x z \<noteq> Greater" if "z \<in> set ys" for z
      by (rule cmp_trans [of x y z]) (use Cons.prems False that in auto)
    with False Cons.prems show ?thesis by auto
  qed
qed simp

lemma sorted_sort_by: "set xs \<subseteq> A \<Longrightarrow> sorted_wrt (\<lambda>a b. cmp a b \<noteq> Greater) (sort_by cmp xs)"
proof (induction xs)
  case (Cons x xs)
  then show ?case
    using sorted_insert_by [of x "sort_by cmp xs"] by (simp add: sort_by_def [of cmp "x # xs"]
      flip: sort_by_def [of cmp xs])
qed (simp add: sort_by_def)

lemma sort_by_id: "sorted_wrt (\<lambda>a b. cmp a b \<noteq> Greater) xs \<Longrightarrow> sort_by cmp xs = xs"
proof (induction xs)
  case (Cons x xs)
  then show ?case by (cases xs) (auto simp: sort_by_def)
qed (simp add: sort_by_def)

end

lemma score_desc_not_Greater:
  "score a \<noteq> F_NaN \<Longrightarrow> score b \<noteq> F_NaN \<Longrightarrow>
     score_desc score a b \<noteq> Greater \<longleftrightarrow> f64_ge (score a) (score b)"
  by (cases "score a"; cases "score b") (auto simp: score_desc_def f64_ge_def)

lemma f64_ge_trans: "f64_ge a b \<Longrightarrow> f64_ge b c \<Longrightarrow> f64_ge a c"
  by (cases a; cases b; cases c) (auto simp: f64_ge_def split: if_splits)

lemma f64_ge_linear: "a \<noteq> F_NaN \<Longrightarrow> b \<noteq> F_NaN \<Longrightarrow> f64_ge a b \<or> f64_ge b a"
  by (cases a; cases b) (auto simp: f64_ge_def)

interpretation sd: comparator_on "{x. score x \<noteq> F_NaN}" "score_desc score" for score :: "'a \<Rightarrow> f64"
proof unfold_locales
  fix x y :: 'a
  assume "x \<in> {x. score x \<noteq> F_NaN}" "y \<in> {x. score x \<noteq> F_NaN}" "score_desc score x y = Greater"
  then show "score_desc score y x \<noteq> Greater"
    using f64_ge_linear [of "score x" "score y"] score_desc_not_Greater [of score] by auto
next
  fix x y z :: 'a
  assume "x \<in> {x. score x \<noteq> F_NaN}" "y \<in> {x. score x \<noteq> F_NaN}" "z \<in> {x. score x \<noteq> F_NaN}"
    "score_desc score x y \<noteq> Greater" "score_desc score y z \<noteq> Greater"
  then show "score_desc score x z \<noteq> Greater"
    by (auto simp: score_desc_not_Greater intro: f64_ge_trans)
qed

end
