(* ===== verification/Candidate_Pipeline.thy ===== *)
theory Candidate_Pipeline
  imports Prelude
begin

text \<open>
  The framework of \<open>candidate-pipeline/\<close>: the stage traits (\<open>QueryHydrator\<close>, \<open>Source\<close>,
  \<open>Hydrator\<close>, \<open>Filter\<close>, \<open>Scorer\<close>, \<open>Selector\<close>, \<open>SideEffect\<close>) as records of
  the operations a trait object carries, their provided methods, and the runner
  \<open>CandidatePipeline::execute_stages\<close>. A call to a remote service is a function of its
  arguments; \<open>join_all\<close> runs its futures on the same arguments, so its result is the list
  of their results. Metrics, tracing spans and log lines are not modelled.
\<close>

section \<open>Stages and components\<close>

datatype pipeline_stage =
    QueryHydrator | DependentQueryHydrator | Source | Hydrator | PostSelectionHydrator
  | Filter | PostSelectionFilter | Scorer | Selector | SideEffect

record 'q query_hydrator =
  qh_name :: string
  qh_enable :: "'q \<Rightarrow> bool"
  qh_hydrate :: "'q \<Rightarrow> 'q result"
  qh_update :: "'q \<Rightarrow> 'q \<Rightarrow> 'q"

record ('q, 'c) source =
  so_name :: string
  so_enable :: "'q \<Rightarrow> bool"
  so_source :: "'q \<Rightarrow> 'c list result"

record ('q, 'c) hydrator =
  hy_name :: string
  hy_enable :: "'q \<Rightarrow> bool"
  hy_hydrate_for_stage :: "'q \<Rightarrow> 'c list \<Rightarrow> pipeline_stage \<Rightarrow> 'c result list"
  hy_update :: "'c \<Rightarrow> 'c \<Rightarrow> 'c"

record 'c filter_result =
  kept :: "'c list"
  removed :: "'c list"

record ('q, 'c) filter =
  fl_name :: string
  fl_enable :: "'q \<Rightarrow> bool"
  fl_filter :: "'q \<Rightarrow> 'c list \<Rightarrow> 'c filter_result"

record ('q, 'c) scorer =
  sc_name :: string
  sc_enable :: "'q \<Rightarrow> bool"
  sc_score :: "'q \<Rightarrow> 'c list \<Rightarrow> 'c result list"
  sc_update :: "'c \<Rightarrow> 'c \<Rightarrow> 'c"

record 'c select_result =
  selected :: "'c list"
  non_selected :: "'c list"

record ('q, 'c) selector =
  se_name :: string
  se_enable :: "'q \<Rightarrow> bool"
  se_select :: "'q \<Rightarrow> 'c list \<Rightarrow> 'c select_result"

record ('q, 'c) side_effect_input =
  si_query :: 'q
  si_selected_candidates :: "'c list"
  si_non_selected_candidates :: "'c list"

record ('q, 'c) side_effect =
  sf_name :: string
  sf_enable :: "'q \<Rightarrow> bool"
  sf_side_effect :: "('q, 'c) side_effect_input \<Rightarrow> unit result"

record ('q, 'c) candidate_pipeline =
  query_hydrators :: "'q query_hydrator list"
  dependent_query_hydrators :: "'q query_hydrator list"
  sources :: "('q, 'c) source list"
  hydrators :: "('q, 'c) hydrator list"
  filters :: "('q, 'c) filter list"
  scorers :: "('q, 'c) scorer list"
  the_selector :: "('q, 'c) selector"
  post_selection_hydrators :: "('q, 'c) hydrator list"
  post_selection_filters :: "('q, 'c) filter list"
  side_effects :: "('q, 'c) side_effect list"
  result_size_for :: "'q \<Rightarrow> nat"
  finalize :: "'q \<Rightarrow> 'c list \<Rightarrow> 'c list"

record ('q, 'c) pipeline_result =
  retrieved_candidates :: "'c list"
  filtered_candidates :: "'c list"
  selected_candidates :: "'c list"
  result_query :: 'q

section \<open>Provided trait methods\<close>

definition filter_partition :: "'c list \<Rightarrow> ('c \<Rightarrow> bool) \<Rightarrow> 'c filter_result" where
  "filter_partition cs keep =
     \<lparr>kept = List.filter keep cs, removed = List.filter (\<lambda>c. \<not> keep c) cs\<rparr>"

definition query_hydrator_run :: "'q query_hydrator \<Rightarrow> 'q \<Rightarrow> 'q result" where
  "query_hydrator_run h q = (case qh_hydrate h q of Inr hydrated \<Rightarrow> Ok hydrated | Inl e \<Rightarrow> Err e)"

definition source_run :: "('q, 'c) source \<Rightarrow> 'q \<Rightarrow> 'c list result" where
  "source_run s q = (case so_source s q of Inr cs \<Rightarrow> Ok cs | Inl e \<Rightarrow> Err e)"

definition length_mismatch :: "string \<Rightarrow> nat \<Rightarrow> nat \<Rightarrow> string" where
  "length_mismatch who expected got =
     who @ '' length_mismatch expected='' @ show_nat expected @ '' got='' @ show_nat got"

definition hydrator_run ::
  "('q, 'c) hydrator \<Rightarrow> 'q \<Rightarrow> 'c list \<Rightarrow> pipeline_stage \<Rightarrow> 'c result list" where
  "hydrator_run h q cs stage =
     (let hydrated = hy_hydrate_for_stage h q cs stage; expected = length cs
      in if length hydrated = expected then hydrated
         else replicate expected (Err (length_mismatch ''Hydrator'' expected (length hydrated))))"

definition scorer_run :: "('q, 'c) scorer \<Rightarrow> 'q \<Rightarrow> 'c list \<Rightarrow> 'c result list" where
  "scorer_run s q cs =
     (let scored = sc_score s q cs; expected = length cs
      in if length scored = expected then scored
         else replicate expected (Err (length_mismatch ''Scorer'' expected (length scored))))"

text \<open>\<open>update_all\<close> of hydrators and scorers: \<open>iter_mut().zip(..)\<close>, an \<open>Err\<close> leaves the
  candidate as it is.\<close>

fun update_all :: "('c \<Rightarrow> 'c \<Rightarrow> 'c) \<Rightarrow> 'c list \<Rightarrow> 'c result list \<Rightarrow> 'c list" where
  "update_all update [] rs = []"
| "update_all update cs [] = cs"
| "update_all update (c # cs) (r # rs) =
     (case r of Inr v \<Rightarrow> update c v | Inl e \<Rightarrow> c) # update_all update cs rs"

definition selector_sort :: "('c \<Rightarrow> f64) \<Rightarrow> 'c list \<Rightarrow> 'c list" where
  "selector_sort score cs = sort_by (score_desc score) cs"

definition selector_select :: "('c \<Rightarrow> f64) \<Rightarrow> nat option \<Rightarrow> 'c list \<Rightarrow> 'c select_result" where
  "selector_select score sz cs =
     (let sorted = selector_sort score cs
      in case sz of
           Some limit \<Rightarrow>
             \<lparr>selected = take (min limit (length sorted)) sorted,
              non_selected = drop (min limit (length sorted)) sorted\<rparr>
         | None \<Rightarrow> \<lparr>selected = sorted, non_selected = []\<rparr>)"

section \<open>The runner\<close>

definition apply_query_results :: "('q query_hydrator \<times> 'q result) list \<Rightarrow> 'q \<Rightarrow> 'q" where
  "apply_query_results hrs q =
     fold (\<lambda>(h, r) acc. case r of Inr hydrated \<Rightarrow> qh_update h acc hydrated | Inl e \<Rightarrow> acc) hrs q"

definition hydrate_query :: "('q, 'c) candidate_pipeline \<Rightarrow> 'q \<Rightarrow> 'q" where
  "hydrate_query p q =
     (let hs = List.filter (\<lambda>h. qh_enable h q) (query_hydrators p);
          results = map (\<lambda>h. query_hydrator_run h q) hs
      in apply_query_results (zip hs results) q)"

definition hydrate_dependent_query :: "('q, 'c) candidate_pipeline \<Rightarrow> 'q \<Rightarrow> 'q" where
  "hydrate_dependent_query p q =
     (if dependent_query_hydrators p = [] then q
      else let hs = List.filter (\<lambda>h. qh_enable h q) (dependent_query_hydrators p);
               results = map (\<lambda>h. query_hydrator_run h q) hs
           in apply_query_results (zip hs results) q)"

definition fetch_candidates :: "('q, 'c) candidate_pipeline \<Rightarrow> 'q \<Rightarrow> 'c list" where
  "fetch_candidates p q =
     (let ss = List.filter (\<lambda>s. so_enable s q) (sources p);
          results = map (\<lambda>s. source_run s q) ss
      in concat (map (\<lambda>r. case r of Inr cs \<Rightarrow> cs | Inl e \<Rightarrow> []) results))"

definition run_hydrators ::
  "'q \<Rightarrow> 'c list \<Rightarrow> ('q, 'c) hydrator list \<Rightarrow> pipeline_stage \<Rightarrow> 'c list" where
  "run_hydrators q cs hs stage =
     (let enabled = List.filter (\<lambda>h. hy_enable h q) hs;
          results = map (\<lambda>h. hydrator_run h q cs stage) enabled
      in fold (\<lambda>(h, r) acc. update_all (hy_update h) acc r) (zip enabled results) cs)"

definition hydrate :: "('q, 'c) candidate_pipeline \<Rightarrow> 'q \<Rightarrow> 'c list \<Rightarrow> 'c list" where
  "hydrate p q cs = run_hydrators q cs (hydrators p) Hydrator"

definition hydrate_post_selection :: "('q, 'c) candidate_pipeline \<Rightarrow> 'q \<Rightarrow> 'c list \<Rightarrow> 'c list" where
  "hydrate_post_selection p q cs =
     run_hydrators q cs (post_selection_hydrators p) PostSelectionHydrator"

definition filter_run :: "('q, 'c) filter \<Rightarrow> 'q \<Rightarrow> 'c list \<Rightarrow> 'c filter_result" where
  "filter_run f q cs = fl_filter f q cs"

definition filter_step :: "'q \<Rightarrow> ('q, 'c) filter \<Rightarrow> 'c list \<times> 'c list \<Rightarrow> 'c list \<times> 'c list" where
  "filter_step q f st =
     (let r = filter_run f q (fst st) in (kept r, snd st @ removed r))"

definition run_filters :: "'q \<Rightarrow> 'c list \<Rightarrow> ('q, 'c) filter list \<Rightarrow> 'c list \<times> 'c list" where
  "run_filters q cs fs =
     (let enabled = List.filter (\<lambda>f. fl_enable f q) fs
      in fold (filter_step q) enabled (cs, []))"

definition pipeline_filter :: "('q, 'c) candidate_pipeline \<Rightarrow> 'q \<Rightarrow> 'c list \<Rightarrow> 'c list \<times> 'c list" where
  "pipeline_filter p q cs = run_filters q cs (filters p)"

definition filter_post_selection ::
  "('q, 'c) candidate_pipeline \<Rightarrow> 'q \<Rightarrow> 'c list \<Rightarrow> 'c list \<times> 'c list" where
  "filter_post_selection p q cs = run_filters q cs (post_selection_filters p)"

definition pipeline_score :: "('q, 'c) candidate_pipeline \<Rightarrow> 'q \<Rightarrow> 'c list \<Rightarrow> 'c list" where
  "pipeline_score p q cs =
     fold (\<lambda>s acc. update_all (sc_update s) acc (scorer_run s q acc))
          (List.filter (\<lambda>s. sc_enable s q) (scorers p)) cs"

definition pipeline_select :: "('q, 'c) candidate_pipeline \<Rightarrow> 'q \<Rightarrow> 'c list \<Rightarrow> 'c select_result" where
  "pipeline_select p q cs =
     (if se_enable (the_selector p) q then se_select (the_selector p) q cs
      else \<lparr>selected = cs, non_selected = []\<rparr>)"

definition run_side_effects ::
  "('q, 'c) candidate_pipeline \<Rightarrow> ('q, 'c) side_effect_input \<Rightarrow> unit result list" where
  "run_side_effects p inp =
     map (\<lambda>se. sf_side_effect se inp) (List.filter (\<lambda>se. sf_enable se (si_query inp)) (side_effects p))"

text \<open>
  The result handed to the caller and the input handed to the side effects, which are spawned
  and whose results are discarded.
\<close>

definition execute_stages ::
  "('q, 'c) candidate_pipeline \<Rightarrow> 'q \<Rightarrow> ('q, 'c) pipeline_result \<times> ('q, 'c) side_effect_input" where
  "execute_stages p query =
     (let hydrated_query = hydrate_dependent_query p (hydrate_query p query);
          candidates = fetch_candidates p hydrated_query;
          hydrated_candidates = hydrate p hydrated_query candidates;
          (kept_candidates, filtered) = pipeline_filter p hydrated_query hydrated_candidates;
          scored_candidates = pipeline_score p hydrated_query kept_candidates;
          sel = pipeline_select p hydrated_query scored_candidates;
          post_hydrated = hydrate_post_selection p hydrated_query (selected sel);
          (final, post_filtered) = filter_post_selection p hydrated_query post_hydrated;
          cut = min (result_size_for p hydrated_query) (length final);
          truncated = drop cut final;
          final_candidates = finalize p hydrated_query (take cut final)
      in (\<lparr>retrieved_candidates = hydrated_candidates,
           filtered_candidates = filtered @ post_filtered,
           selected_candidates = final_candidates,
           result_query = hydrated_query\<rparr>,
          \<lparr>si_query = hydrated_query,
           si_selected_candidates = final_candidates,
           si_non_selected_candidates = non_selected sel @ truncated\<rparr>))"

definition execute :: "('q, 'c) candidate_pipeline \<Rightarrow> 'q \<Rightarrow> ('q, 'c) pipeline_result" where
  "execute p query = fst (execute_stages p query)"

definition components :: "('q, 'c) candidate_pipeline \<Rightarrow> (pipeline_stage \<times> string list) list" where
  "components p =
     [(QueryHydrator, map qh_name (query_hydrators p)),
      (DependentQueryHydrator, map qh_name (dependent_query_hydrators p)),
      (Source, map so_name (sources p)),
      (Hydrator, map hy_name (hydrators p)),
      (Filter, map fl_name (filters p)),
      (Scorer, map sc_name (scorers p)),
      (Selector, [se_name (the_selector p)]),
      (PostSelectionHydrator, map hy_name (post_selection_hydrators p)),
      (PostSelectionFilter, map fl_name (post_selection_filters p)),
      (SideEffect, map sf_name (side_effects p))]"

text \<open>\<open>util::short_type_name\<close>: what follows the last \<open>::\<close>, or the whole name.\<close>

fun after_last_sep :: "string \<Rightarrow> string option" where
  "after_last_sep [] = None"
| "after_last_sep (c # cs) =
     (case after_last_sep cs of
        Some t \<Rightarrow> Some t
      | None \<Rightarrow> (case cs of
                  [] \<Rightarrow> None
                | d # ds \<Rightarrow> if c = CHR '':'' \<and> d = CHR '':'' then Some ds else None))"

definition short_type_name :: "string \<Rightarrow> string" where
  "short_type_name full = unwrap_or full (after_last_sep full)"


section \<open>Facts on the provided methods\<close>

lemma filter_partition_simps [simp]:
  "kept (filter_partition cs keep) = List.filter keep cs"
  "removed (filter_partition cs keep) = List.filter (\<lambda>c. \<not> keep c) cs"
  by (simp_all add: filter_partition_def)

lemma length_update_all [simp]: "length (update_all u cs rs) = length cs"
  by (induction u cs rs rule: update_all.induct) auto

lemma update_all_Err [simp]: "update_all u cs (replicate n (Err e)) = cs"
proof (induction cs arbitrary: n)
  case (Cons c cs)
  then show ?case by (cases n) auto
qed simp

lemma map_update_all:
  "(\<And>c v. cid (u c v) = cid c) \<Longrightarrow> map cid (update_all u cs rs) = map cid cs"
  by (induction u cs rs rule: update_all.induct) (auto split: sum.split)

lemma length_hydrator_run [simp]: "length (hydrator_run h q cs stage) = length cs"
  by (simp add: hydrator_run_def Let_def)

lemma length_scorer_run [simp]: "length (scorer_run s q cs) = length cs"
  by (simp add: scorer_run_def Let_def)

lemma run_filters_Nil [simp]: "run_filters q cs [] = (cs, [])"
  by (simp add: run_filters_def)

lemma filter_step_fold:
  "fold (filter_step q) fs (cs, rem) =
     (fst (fold (filter_step q) fs (cs, [])), rem @ snd (fold (filter_step q) fs (cs, [])))"
proof (induction fs arbitrary: cs rem)
  case (Cons f fs)
  show ?case
    using Cons.IH [of "kept (filter_run f q cs)" "rem @ removed (filter_run f q cs)"]
      Cons.IH [of "kept (filter_run f q cs)" "removed (filter_run f q cs)"]
    by (simp add: filter_step_def Let_def)
qed simp

lemma run_filters_Cons:
  "run_filters q cs (f # fs) =
     (if fl_enable f q
      then let r = fl_filter f q cs
           in (fst (run_filters q (kept r) fs), removed r @ snd (run_filters q (kept r) fs))
      else run_filters q cs fs)"
  using filter_step_fold [of q "List.filter (\<lambda>f. fl_enable f q) fs" "kept (fl_filter f q cs)"
      "removed (fl_filter f q cs)"]
  by (simp add: run_filters_def filter_step_def Let_def filter_run_def)

lemma run_filters_append:
  "run_filters q cs (fs @ gs) =
     (let st = run_filters q cs fs; st' = run_filters q (fst st) gs
      in (fst st', snd st @ snd st'))"
  by (induction fs arbitrary: cs) (simp_all add: run_filters_Cons Let_def)

section \<open>Contracts of the components\<close>

text \<open>
  What the runner's clients rely on: a filter splits its input into kept and removed candidates,
  a selector into selected and the rest, and an update keeps the identity \<open>cid\<close> of a candidate.
\<close>

locale conserving_filter =
  fixes flt :: "'q \<Rightarrow> 'c list \<Rightarrow> 'c filter_result" and cid :: "'c \<Rightarrow> 'k"
  assumes conserves:
    "mset (map cid (kept (flt q cs))) + mset (map cid (removed (flt q cs))) = mset (map cid cs)"
begin

lemma kept_length: "length (kept (flt q cs)) + length (removed (flt q cs)) = length cs"
  using arg_cong [OF conserves, of size q cs] by simp

lemma kept_ids: "cid ` set (kept (flt q cs)) \<subseteq> cid ` set cs"
  using arg_cong [OF conserves, of set_mset q cs] by auto

end

locale conserving_selector =
  fixes sel :: "'q \<Rightarrow> 'c list \<Rightarrow> 'c select_result" and cid :: "'c \<Rightarrow> 'k"
  assumes conserves:
    "mset (map cid (selected (sel q cs))) + mset (map cid (non_selected (sel q cs))) = mset (map cid cs)"

locale identity_update =
  fixes upd :: "'c \<Rightarrow> 'c \<Rightarrow> 'c" and cid :: "'c \<Rightarrow> 'k"
  assumes keeps_id: "cid (upd c v) = cid c"
begin

lemma update_all_ids: "map cid (update_all upd cs rs) = map cid cs"
  by (simp add: map_update_all keeps_id)

end

lemma hydrator_fold_keep:
  "\<forall>h \<in> fst ` set hrs. identity_update (hy_update h) cid \<Longrightarrow>
   map cid (fold (\<lambda>(h, r) acc. update_all (hy_update h) acc r) hrs cs) = map cid cs"
proof (induction hrs arbitrary: cs)
  case (Cons hr hrs)
  obtain h r where hr: "hr = (h, r)" by (cases hr)
  have "map cid (update_all (hy_update h) cs r) = map cid cs"
    by (rule identity_update.update_all_ids) (use Cons.prems hr in auto)
  with Cons hr show ?case by simp
qed simp

lemma run_hydrators_keep:
  assumes "\<And>h. h \<in> set hs \<Longrightarrow> identity_update (hy_update h) cid"
  shows "map cid (run_hydrators q cs hs stage) = map cid cs"
  unfolding run_hydrators_def Let_def
  by (rule hydrator_fold_keep) (use assms in \<open>auto dest!: set_zip_leftD\<close>)

lemma conserving_coarser:
  assumes "conserving_filter flt cid" "\<And>c. key c = g (cid c)"
  shows "conserving_filter flt key"
proof
  fix q cs
  have "image_mset g (mset (map cid xs)) = mset (map key xs)" for xs by (induction xs) (simp_all add: assms(2))
  then show "mset (map key (kept (flt q cs))) + mset (map key (removed (flt q cs))) = mset (map key cs)"
    using arg_cong [OF conserving_filter.conserves [OF assms(1), of q cs], of "image_mset g"] by simp
qed

lemma run_filters_conserve_all:
  "(\<And>f. f \<in> set fs \<Longrightarrow> conserving_filter (fl_filter f) cid) \<Longrightarrow>
   mset (map cid (fst (run_filters q cs fs))) + mset (map cid (snd (run_filters q cs fs))) = mset (map cid cs)"
proof (induction fs arbitrary: cs)
  case (Cons f fs)
  have "mset (map cid (kept (fl_filter f q cs))) + mset (map cid (removed (fl_filter f q cs))) = mset (map cid cs)"
    by (rule conserving_filter.conserves) (simp add: Cons.prems)
  then show ?case
    using Cons.IH [of "kept (fl_filter f q cs)"] Cons.IH [of cs] Cons.prems
    by (auto simp: run_filters_Cons Let_def ac_simps)
qed simp

lemma run_filters_sub:
  assumes "\<And>f. f \<in> set fs \<Longrightarrow> conserving_filter (fl_filter f) cid"
  shows "mset (map cid (fst (run_filters q cs fs))) \<subseteq># mset (map cid cs)"
  using run_filters_conserve_all [OF assms, of fs q cs] by (metis mset_subset_eq_add_left)

text \<open>What an enabled filter establishes of the identities it keeps, the filters after it keep.\<close>

lemma run_filters_through:
  assumes "f \<in> set fs" "fl_enable f q" "\<And>f. f \<in> set fs \<Longrightarrow> conserving_filter (fl_filter f) cid"
  obtains mid where "mset (map cid (fst (run_filters q cs fs))) \<subseteq># mset (map cid (kept (fl_filter f q mid)))"
proof -
  obtain gs hs where fs: "fs = gs @ f # hs" using assms(1) by (meson split_list)
  let ?mid = "fst (run_filters q cs gs)"
  have "fst (run_filters q cs fs) = fst (run_filters q (kept (fl_filter f q ?mid)) hs)"
    by (simp add: fs run_filters_append run_filters_Cons [of q _ f] assms(2) Let_def)
  moreover have "mset (map cid (fst (run_filters q (kept (fl_filter f q ?mid)) hs))) \<subseteq># mset (map cid (kept (fl_filter f q ?mid)))"
    by (rule run_filters_sub) (simp add: assms(3) fs)
  ultimately show ?thesis using that by (simp only:)
qed

lemma run_filters_establish:
  assumes "f \<in> set fs" "fl_enable f q" "\<And>f. f \<in> set fs \<Longrightarrow> conserving_filter (fl_filter f) cid"
    and est: "\<And>cs. list_all P (map cid (kept (fl_filter f q cs)))"
  shows "list_all P (map cid (fst (run_filters q cs fs)))"
proof -
  obtain mid where "mset (map cid (fst (run_filters q cs fs))) \<subseteq># mset (map cid (kept (fl_filter f q mid)))"
    by (rule run_filters_through [OF assms(1-3)])
  then have "set (map cid (fst (run_filters q cs fs))) \<subseteq> set (map cid (kept (fl_filter f q mid)))"
    by (metis set_mset_mono set_mset_mset)
  then show ?thesis using est [of mid] by (auto simp: list_all_iff)
qed

lemma run_filters_distinct:
  assumes "f \<in> set fs" "fl_enable f q" "\<And>f. f \<in> set fs \<Longrightarrow> conserving_filter (fl_filter f) cid"
    and est: "\<And>cs. distinct (map cid (kept (fl_filter f q cs)))"
  shows "distinct (map cid (fst (run_filters q cs fs)))"
proof -
  obtain mid where "mset (map cid (fst (run_filters q cs fs))) \<subseteq># mset (map cid (kept (fl_filter f q mid)))"
    by (rule run_filters_through [OF assms(1-3)])
  then show ?thesis by (rule distinct_sub_mset) (rule est)
qed

interpretation sel: conserving_selector "\<lambda>q. selector_select score sz" id
  for score :: "'c \<Rightarrow> f64" and sz
  by unfold_locales
     (simp add: selector_select_def selector_sort_def Let_def mset_take_drop split: option.split)

locale lawful_pipeline =
  fixes p :: "('q, 'c) candidate_pipeline" and cid :: "'c \<Rightarrow> 'k"
  assumes lawful_filters:
      "f \<in> set (filters p) \<union> set (post_selection_filters p) \<Longrightarrow> conserving_filter (fl_filter f) cid"
    and lawful_selector: "conserving_selector (se_select (the_selector p)) cid"
    and lawful_hydrators:
      "h \<in> set (hydrators p) \<union> set (post_selection_hydrators p) \<Longrightarrow> identity_update (hy_update h) cid"
    and lawful_scorers: "s \<in> set (scorers p) \<Longrightarrow> identity_update (sc_update s) cid"
    and lawful_finalize: "mset (map cid (finalize p q cs)) = mset (map cid cs)"
begin

lemma run_filters_conserves:
  "set fs \<subseteq> set (filters p) \<union> set (post_selection_filters p) \<Longrightarrow>
   mset (map cid (fst (run_filters q cs fs))) + mset (map cid (snd (run_filters q cs fs))) =
   mset (map cid cs)"
  by (rule run_filters_conserve_all) (use lawful_filters in auto)

lemma run_hydrators_ids:
  "set hs \<subseteq> set (hydrators p) \<union> set (post_selection_hydrators p) \<Longrightarrow> map cid (run_hydrators q cs hs stage) = map cid cs"
  by (rule run_hydrators_keep) (use lawful_hydrators in auto)

lemma score_ids: "map cid (pipeline_score p q cs) = map cid cs"
proof -
  have "map cid (fold (\<lambda>s acc. update_all (sc_update s) acc (scorer_run s q acc)) ss cs) = map cid cs"
    if "set ss \<subseteq> set (scorers p)" for ss
    using that
  proof (induction ss arbitrary: cs)
    case (Cons s ss)
    then show ?case using identity_update.update_all_ids [OF lawful_scorers] by simp
  qed simp
  then show ?thesis by (simp add: pipeline_score_def)
qed

lemma select_conserves:
  "mset (map cid (selected (pipeline_select p q cs))) + mset (map cid (non_selected (pipeline_select p q cs))) =
   mset (map cid cs)"
  using conserving_selector.conserves [OF lawful_selector] by (simp add: pipeline_select_def)

lemma execute_conserves:
  assumes "execute_stages p q0 = (r, inp)"
  shows "mset (map cid (selected_candidates r)) + mset (map cid (filtered_candidates r)) +
           mset (map cid (si_non_selected_candidates inp)) =
         mset (map cid (retrieved_candidates r))"
proof -
  define q where "q = hydrate_dependent_query p (hydrate_query p q0)"
  define cs where "cs = hydrate p q (fetch_candidates p q)"
  obtain k f where kf: "run_filters q cs (filters p) = (k, f)" by fastforce
  define s where "s = pipeline_select p q (pipeline_score p q k)"
  define ph where "ph = hydrate_post_selection p q (selected s)"
  obtain fin pf where fin: "run_filters q ph (post_selection_filters p) = (fin, pf)" by fastforce
  define cut where "cut = min (result_size_for p q) (length fin)"
  have 1: "mset (map cid k) + mset (map cid f) = mset (map cid cs)"
    using run_filters_conserves [of "filters p" q cs] kf by simp
  have 2: "mset (map cid (selected s)) + mset (map cid (non_selected s)) = mset (map cid k)"
    unfolding s_def select_conserves score_ids ..
  have 3: "map cid ph = map cid (selected s)"
    unfolding ph_def hydrate_post_selection_def by (rule run_hydrators_ids) simp
  have 4: "mset (map cid fin) + mset (map cid pf) = mset (map cid ph)"
    using run_filters_conserves [of "post_selection_filters p" q ph] fin by simp
  have 5: "mset (map cid (finalize p q (take cut fin))) + mset (map cid (drop cut fin)) =
           mset (map cid fin)"
    unfolding lawful_finalize by (simp flip: take_map drop_map add: mset_take_drop)
  have "r = \<lparr>retrieved_candidates = cs, filtered_candidates = f @ pf,
             selected_candidates = finalize p q (take cut fin), result_query = q\<rparr>"
    and "inp = \<lparr>si_query = q, si_selected_candidates = finalize p q (take cut fin),
             si_non_selected_candidates = non_selected s @ drop cut fin\<rparr>"
    using assms kf fin
    by (simp_all add: execute_stages_def Let_def pipeline_filter_def filter_post_selection_def
          cut_def flip: q_def cs_def s_def ph_def)
  then show ?thesis
    using 1 2 3 4 5 by (simp add: ac_simps) (metis add.assoc add.commute)
qed

end


section \<open>Properties of the runner\<close>

text \<open>
  A small pipeline over numbers, used below to instantiate the properties: two sources, one of
  which fails, a filter that removes odd candidates, a selector of the two largest and one
  place in the result.
\<close>

definition sample_pipeline :: "(unit, nat) candidate_pipeline" where
  "sample_pipeline =
     \<lparr>query_hydrators = [], dependent_query_hydrators = [],
      sources = [\<lparr>so_name = ''A'', so_enable = (\<lambda>_. True), so_source = (\<lambda>_. Ok [1, 2, 4, 8])\<rparr>,
                 \<lparr>so_name = ''B'', so_enable = (\<lambda>_. True), so_source = (\<lambda>_. Err ''down'')\<rparr>],
      hydrators = [\<lparr>hy_name = ''H'', hy_enable = (\<lambda>_. True),
                    hy_hydrate_for_stage = (\<lambda>_ _ _. [Ok 7]), hy_update = (\<lambda>c v. c)\<rparr>],
      filters = [\<lparr>fl_name = ''F'', fl_enable = (\<lambda>_. True),
                  fl_filter = (\<lambda>_ cs. filter_partition cs even)\<rparr>],
      scorers = [],
      the_selector = \<lparr>se_name = ''S'', se_enable = (\<lambda>_. True),
                      se_select = (\<lambda>_. selector_select (\<lambda>c. F_Fin (of_nat c)) (Some 2))\<rparr>,
      post_selection_hydrators = [], post_selection_filters = [], side_effects = [],
      result_size_for = (\<lambda>_. 1), finalize = (\<lambda>_ cs. cs)\<rparr>"

interpretation parity: conserving_filter "\<lambda>q cs. filter_partition cs keep" id
  for keep :: "'c \<Rightarrow> bool"
  by unfold_locales (simp add: mset_filter_split)

interpretation sample: lawful_pipeline sample_pipeline id
proof (rule lawful_pipeline.intro)
  fix f assume "f \<in> set (filters sample_pipeline) \<union> set (post_selection_filters sample_pipeline)"
  then show "conserving_filter (fl_filter f) id"
    by (auto simp: sample_pipeline_def intro: parity.conserving_filter_axioms)
next
  show "conserving_selector (se_select (the_selector sample_pipeline)) id"
    using sel.conserving_selector_axioms [of "\<lambda>c. F_Fin (of_nat c)" "Some 2"]
    by (simp add: sample_pipeline_def)
qed (auto simp: sample_pipeline_def identity_update_def)

text \<open>
  C1. When every filter and the selector split their input, every update keeps the identity of a
  candidate and \<open>finalize\<close> permutes the page, no candidate is lost or invented by a run: the
  identities returned to the caller, the identities reported as filtered and the identities
  handed to the side effects as not selected are together, with multiplicity, the identities the
  sources returned.
\<close>

theorem execute_stages_conserves:
  assumes "lawful_pipeline p cid" and "execute_stages p query = (r, inp)"
  shows "mset (map cid (selected_candidates r)) + mset (map cid (filtered_candidates r)) +
           mset (map cid (si_non_selected_candidates inp)) =
         mset (map cid (fetch_candidates p (result_query r)))"
proof -
  have "retrieved_candidates r = hydrate p (result_query r) (fetch_candidates p (result_query r))"
    using assms(2) by (auto simp: execute_stages_def Let_def split: prod.splits)
  then have "map cid (retrieved_candidates r) = map cid (fetch_candidates p (result_query r))"
    using lawful_pipeline.run_hydrators_ids [OF assms(1)] by (simp add: hydrate_def)
  with lawful_pipeline.execute_conserves [OF assms] show ?thesis by (simp flip: mset_map)
qed

lemma execute_stages_conserves_witness:
  "lawful_pipeline sample_pipeline id \<and>
   mset (map id (selected_candidates (fst (execute_stages sample_pipeline ())))) +
     mset (map id (filtered_candidates (fst (execute_stages sample_pipeline ())))) +
     mset (map id (si_non_selected_candidates (snd (execute_stages sample_pipeline ())))) =
   mset (map id (fetch_candidates sample_pipeline
     (result_query (fst (execute_stages sample_pipeline ())))))"
  using execute_stages_conserves [OF sample.lawful_pipeline_axioms surjective_pairing]
    sample.lawful_pipeline_axioms by blast

text \<open>
  A run returns at most \<open>result_size_for\<close> candidates, provided \<open>finalize\<close> does not add any.
\<close>

lemma execute_result_size:
  assumes "\<And>q cs. length (finalize p q cs) \<le> length cs"
  shows "length (selected_candidates (execute p query)) \<le>
         result_size_for p (result_query (execute p query))"
  using order_trans [OF assms]
  by (auto simp: execute_def execute_stages_def Let_def split: prod.split)

text \<open>
  A source that is disabled or fails contributes nothing and does not disturb the others: the
  candidates are the concatenation, in order, of what the enabled sources returned successfully.
\<close>

definition source_ok :: "'q \<Rightarrow> ('q, 'c) source \<Rightarrow> bool" where
  "source_ok q s \<longleftrightarrow> so_enable s q \<and> (\<exists>cs. so_source s q = Ok cs)"

lemma fetch_candidates_isolates_failures:
  "fetch_candidates p q =
   concat (map (\<lambda>s. projr (so_source s q)) (List.filter (source_ok q) (sources p)))"
proof -
  have "concat (map (\<lambda>s. case source_run s q of Inr cs \<Rightarrow> cs | Inl e \<Rightarrow> [])
          (List.filter (\<lambda>s. so_enable s q) ss)) =
        concat (map (\<lambda>s. projr (so_source s q)) (List.filter (source_ok q) ss))" for ss
    by (induction ss) (auto simp: source_run_def source_ok_def split: sum.splits)
  then show ?thesis by (simp add: fetch_candidates_def Let_def comp_def)
qed

text \<open>
  A hydrator whose answer has the wrong length is skipped: the run has the result it would
  have without that hydrator.
\<close>

lemma run_hydrators_skips_mismatched:
  "run_hydrators q cs hs stage =
   run_hydrators q cs
     (List.filter (\<lambda>h. length (hy_hydrate_for_stage h q cs stage) = length cs) hs) stage"
proof -
  have "fold (\<lambda>(h, r) acc. update_all (hy_update h) acc r)
          (map (\<lambda>h. (h, hydrator_run h q cs stage)) (List.filter (\<lambda>h. hy_enable h q) hs)) acc =
        fold (\<lambda>(h, r) acc. update_all (hy_update h) acc r)
          (map (\<lambda>h. (h, hydrator_run h q cs stage)) (List.filter (\<lambda>h. hy_enable h q)
            (List.filter (\<lambda>h. length (hy_hydrate_for_stage h q cs stage) = length cs) hs))) acc" for acc
    by (induction hs arbitrary: acc) (auto simp: hydrator_run_def Let_def)
  then show ?thesis by (simp add: run_hydrators_def Let_def zip_map2 zip_same_conv_map split_def comp_def)
qed

text \<open>
  The default selector returns the best candidates: the result is sorted by falling score, no
  candidate left out has a higher score than a selected one, at most \<open>limit\<close> are selected and
  fewer only when there are fewer candidates. Scores that are not numbers are excluded.
\<close>

lemma selector_select_top_k:
  assumes "\<forall>c \<in> set cs. score c \<noteq> F_NaN"
  shows "let r = selector_select score (Some limit) cs
         in sorted_wrt (\<lambda>a b. f64_ge (score a) (score b)) (selected r) \<and>
            (\<forall>a \<in> set (selected r). \<forall>b \<in> set (non_selected r). f64_ge (score a) (score b)) \<and>
            length (selected r) = min limit (length cs) \<and>
            mset (selected r) + mset (non_selected r) = mset cs"
proof -
  let ?s = "sort_by (score_desc score) cs"
  define r where "r = selector_select score (Some limit) cs"
  have "sorted_wrt (\<lambda>a b. score_desc score a b \<noteq> Greater) ?s"
    by (rule sd.sorted_sort_by) (use assms in auto)
  then have sorted: "sorted_wrt (\<lambda>a b. f64_ge (score a) (score b)) ?s"
    by (rule sorted_wrt_mono_rel [rotated]) (use assms in \<open>simp add: score_desc_not_Greater\<close>)
  have split: "?s = selected r @ non_selected r"
    by (simp add: r_def selector_select_def selector_sort_def Let_def)
  have "sorted_wrt (\<lambda>a b. f64_ge (score a) (score b)) (selected r) \<and>
        (\<forall>a \<in> set (selected r). \<forall>b \<in> set (non_selected r). f64_ge (score a) (score b))"
    using sorted unfolding split sorted_wrt_append by auto
  moreover have "length (selected r) = min limit (length cs)"
    by (simp add: r_def selector_select_def selector_sort_def Let_def)
  moreover have "mset (selected r) + mset (non_selected r) = mset cs"
    by (metis mset_append mset_sort_by split)
  ultimately show ?thesis by (simp add: Let_def flip: r_def)
qed

lemma selector_select_top_k_witness:
  "length (selected (selector_select F_Fin (Some 2) [3, 9, 5])) = 2 \<and>
   mset (selected (selector_select F_Fin (Some 2) [3, 9, 5])) +
     mset (non_selected (selector_select F_Fin (Some 2) [3, 9, 5])) = mset [3, 9, 5]"
  using selector_select_top_k [of "[3, 9, 5]" F_Fin 2] by (simp add: Let_def)

end
