(* ===== verification/Post_Store.thy ===== *)
theory Post_Store
  imports Prelude "HOL-Library.AList"
begin

text \<open>
  The in-memory post store of Thunder (\<open>thunder/posts/post_store.rs\<close>): a map of posts by id, three
  posting lists per author (originals, replies and reposts, videos), oldest post first, and the
  ids of deleted posts. A \<open>DashMap\<close> is an association list with distinct keys, whose order is
  the order an iteration visits the entries. The wall clock and the time elapsed since a request
  began are arguments. Ids and times are 64-bit words; \<open>created_at\<close> is read signed (\<open>i64\<close>) where
  the code does and as \<open>u64\<close> in the retention test, whose subtraction wraps as in a release build.
\<close>

section \<open>Configuration\<close>

definition MAX_VIDEO_POSTS_PER_AUTHOR :: nat where "MAX_VIDEO_POSTS_PER_AUTHOR = 100"
definition MAX_TINY_POSTS_PER_USER_SCAN :: nat where "MAX_TINY_POSTS_PER_USER_SCAN = 500"
definition DELETE_EVENT_KEY :: i64 where "DELETE_EVENT_KEY = 0"
definition MAX_POSTING_LIST_SIZE :: nat where "MAX_POSTING_LIST_SIZE = 5000"
definition TRIM_FRACTION :: nat where "TRIM_FRACTION = 5"

section \<open>State\<close>

type_synonym ('k, 'v) dashmap = "('k \<times> 'v) list"

record tiny_post =
  tp_post_id :: i64
  tp_created_at :: i64

record compact_post =
  cp_post_id :: i64
  cp_author_id :: i64
  cp_created_at :: i64
  cp_in_reply_to_post_id :: i64
  cp_in_reply_to_user_id :: i64
  cp_source_post_id :: i64
  cp_source_user_id :: i64
  cp_conversation_id :: i64
  cp_is_retweet :: bool
  cp_is_reply :: bool
  cp_has_video :: bool

record light_post =
  lp_post_id :: i64
  lp_author_id :: i64
  lp_created_at :: i64
  lp_in_reply_to_post_id :: "i64 option"
  lp_in_reply_to_user_id :: "i64 option"
  lp_source_post_id :: "i64 option"
  lp_source_user_id :: "i64 option"
  lp_conversation_id :: "i64 option"
  lp_is_retweet :: bool
  lp_is_reply :: bool
  lp_has_video :: bool

record tweet_delete_event =
  de_post_id :: i64
  de_deleted_at :: i64

type_synonym posting_lists = "(i64, tiny_post list) dashmap"

record post_store =
  posts :: "(i64, compact_post) dashmap"
  original_posts_by_user :: posting_lists
  secondary_posts_by_user :: posting_lists
  video_posts_by_user :: posting_lists
  deleted_posts :: "(i64, bool) dashmap"
  retention_seconds :: u64
  request_timeout_ms :: nat

definition post_store_new :: "u64 \<Rightarrow> nat \<Rightarrow> post_store" where
  "post_store_new retention timeout =
     \<lparr>posts = [], original_posts_by_user = [], secondary_posts_by_user = [],
      video_posts_by_user = [], deleted_posts = [], retention_seconds = retention,
      request_timeout_ms = timeout\<rparr>"

definition compact_of_light :: "light_post \<Rightarrow> compact_post" where
  "compact_of_light p =
     \<lparr>cp_post_id = lp_post_id p, cp_author_id = lp_author_id p, cp_created_at = lp_created_at p,
      cp_in_reply_to_post_id = unwrap_or 0 (lp_in_reply_to_post_id p),
      cp_in_reply_to_user_id = unwrap_or 0 (lp_in_reply_to_user_id p),
      cp_source_post_id = unwrap_or 0 (lp_source_post_id p),
      cp_source_user_id = unwrap_or 0 (lp_source_user_id p),
      cp_conversation_id = unwrap_or 0 (lp_conversation_id p),
      cp_is_retweet = lp_is_retweet p, cp_is_reply = lp_is_reply p, cp_has_video = lp_has_video p\<rparr>"

definition to_opt :: "i64 \<Rightarrow> i64 option" where
  "to_opt v = (if v \<noteq> 0 then Some v else None)"

definition light_of_compact :: "compact_post \<Rightarrow> light_post" where
  "light_of_compact p =
     \<lparr>lp_post_id = cp_post_id p, lp_author_id = cp_author_id p, lp_created_at = cp_created_at p,
      lp_in_reply_to_post_id = to_opt (cp_in_reply_to_post_id p),
      lp_in_reply_to_user_id = to_opt (cp_in_reply_to_user_id p),
      lp_source_post_id = to_opt (cp_source_post_id p),
      lp_source_user_id = to_opt (cp_source_user_id p),
      lp_conversation_id = to_opt (cp_conversation_id p),
      lp_is_retweet = cp_is_retweet p, lp_is_reply = cp_is_reply p, lp_has_video = cp_has_video p\<rparr>"

section \<open>Deletion and insertion\<close>

definition entry_or_default :: "i64 \<Rightarrow> posting_lists \<Rightarrow> tiny_post list" where
  "entry_or_default k m = unwrap_or [] (map_of m k)"

definition mark_one :: "tweet_delete_event \<Rightarrow> post_store \<Rightarrow> post_store" where
  "mark_one e s = s\<lparr>posts := AList.delete (de_post_id e) (posts s),
     deleted_posts := AList.update (de_post_id e) True (deleted_posts s),
     original_posts_by_user := AList.update DELETE_EVENT_KEY
       (entry_or_default DELETE_EVENT_KEY (original_posts_by_user s) @
         [\<lparr>tp_post_id = de_post_id e, tp_created_at = de_deleted_at e\<rparr>])
       (original_posts_by_user s)\<rparr>"

definition mark_as_deleted :: "tweet_delete_event list \<Rightarrow> post_store \<Rightarrow> post_store" where
  "mark_as_deleted es s = fold mark_one es s"

text \<open>\<open>while user_posts_entry.len() >= MAX_POSTING_LIST_SIZE { pop_front }\<close>, with the popped ids.\<close>

fun pop_while_full :: "tiny_post list \<Rightarrow> i64 list \<Rightarrow> tiny_post list \<times> i64 list" where
  "pop_while_full [] removed = ([], removed)"
| "pop_while_full (t # ts) removed =
     (if MAX_POSTING_LIST_SIZE \<le> length (t # ts) then pop_while_full ts (removed @ [tp_post_id t])
      else (t # ts, removed))"

definition push_bounded :: "i64 \<Rightarrow> tiny_post \<Rightarrow> posting_lists \<Rightarrow> posting_lists \<times> i64 list" where
  "push_bounded author t m =
     (let (ts, popped) = pop_while_full (entry_or_default author m) []
      in (AList.update author (ts @ [t]) m, popped))"

definition video_eligible :: "(i64, compact_post) dashmap \<Rightarrow> light_post \<Rightarrow> bool" where
  "video_eligible ps p =
     (let via_source = is_some_and (\<lambda>src. is_some_and (\<lambda>sp. \<not> cp_is_reply sp \<and> cp_has_video sp)
                         (map_of ps src)) (lp_source_post_id p);
          eligible = (if \<not> lp_has_video p \<and> lp_is_retweet p then via_source else lp_has_video p)
      in if lp_is_reply p then False else eligible)"

definition remove_posts :: "i64 list \<Rightarrow> (i64, 'v) dashmap \<Rightarrow> (i64, 'v) dashmap" where
  "remove_posts ids m = fold AList.delete ids m"

text \<open>The entry of the author's original or secondary list, and that of the video list.\<close>

definition push_by_kind :: "light_post \<Rightarrow> tiny_post \<Rightarrow> post_store \<Rightarrow> post_store \<times> i64 list" where
  "push_by_kind p tiny s =
     (if \<not> lp_is_reply p \<and> \<not> lp_is_retweet p
      then let (m, popped) = push_bounded (lp_author_id p) tiny (original_posts_by_user s)
           in (s\<lparr>original_posts_by_user := m\<rparr>, popped)
      else let (m, popped) = push_bounded (lp_author_id p) tiny (secondary_posts_by_user s)
           in (s\<lparr>secondary_posts_by_user := m\<rparr>, popped))"

definition push_video :: "light_post \<Rightarrow> tiny_post \<Rightarrow> post_store \<Rightarrow> post_store \<times> i64 list" where
  "push_video p tiny s =
     (if video_eligible (posts s) p
      then let (m, popped) = push_bounded (lp_author_id p) tiny (video_posts_by_user s)
           in (s\<lparr>video_posts_by_user := m\<rparr>, popped)
      else (s, []))"

definition insert_one :: "light_post \<Rightarrow> post_store \<Rightarrow> post_store" where
  "insert_one p s =
     (let id = lp_post_id p;
          tiny = \<lparr>tp_post_id = id, tp_created_at = lp_created_at p\<rparr>
      in if map_of (deleted_posts s) id \<noteq> None then s
         else let old = map_of (posts s) id;
                  s1 = s\<lparr>posts := AList.update id (compact_of_light p) (posts s)\<rparr>
              in if old \<noteq> None then s1
                 else let (s2, popped1) = push_by_kind p tiny s1;
                          (s3, popped2) = push_video p tiny s2
                      in s3\<lparr>posts := remove_posts (popped1 @ popped2) (posts s3)\<rparr>)"

definition insert_posts_internal :: "light_post list \<Rightarrow> post_store \<Rightarrow> post_store" where
  "insert_posts_internal ps s = fold insert_one ps s"

definition insertable :: "i64 \<Rightarrow> u64 \<Rightarrow> light_post \<Rightarrow> bool" where
  "insertable now retention p \<longleftrightarrow>
     sint (lp_created_at p) < sint now \<and> sint (now - lp_created_at p) \<le> sint retention"

definition insert_posts :: "i64 \<Rightarrow> light_post list \<Rightarrow> post_store \<Rightarrow> post_store" where
  "insert_posts now ps s =
     insert_posts_internal
       (sort_key (\<lambda>p. sint (lp_created_at p)) (filter (insertable now (retention_seconds s)) ps)) s"

section \<open>Retrieval\<close>

definition reply_shown :: "(i64, compact_post) dashmap \<Rightarrow> i64 list \<Rightarrow> light_post \<Rightarrow> bool" where
  "reply_shown ps following p =
     (if following = [] then True
      else is_none_or (\<lambda>reply_to.
             case map_of ps reply_to of
               Some replied_to \<Rightarrow>
                 if \<not> cp_is_retweet replied_to \<and> \<not> cp_is_reply replied_to then True
                 else is_some_and (\<lambda>convo.
                        cp_in_reply_to_post_id replied_to = convo \<and>
                        unwrap_or False (map_option (\<lambda>uid. uid \<in> set following)
                          (lp_in_reply_to_user_id p)))
                      (lp_conversation_id p)
             | None \<Rightarrow> False)
           (lp_in_reply_to_post_id p))"

definition posts_of_user ::
  "(i64, compact_post) dashmap \<Rightarrow> posting_lists \<Rightarrow> nat \<Rightarrow> i64 list \<Rightarrow> i64 list \<Rightarrow> i64 \<Rightarrow> i64 \<Rightarrow> light_post list" where
  "posts_of_user ps m max_per_user exclude following request_user uid =
     (case map_of m uid of
        None \<Rightarrow> []
      | Some user_posts \<Rightarrow>
          let tiny = take MAX_TINY_POSTS_PER_USER_SCAN
                       (filter (\<lambda>t. tp_post_id t \<notin> set exclude) (rev user_posts));
              light = List.map_filter (\<lambda>t. map_option light_of_compact (map_of ps (tp_post_id t))) tiny;
              light1 = filter (\<lambda>p. \<not> (lp_is_retweet p \<and> lp_source_user_id p = Some request_user)) light;
              light2 = filter (reply_shown ps following) light1
          in take max_per_user light2)"

text \<open>
  The loop over the followed users stops when the request has run out of time; \<open>elapsed i\<close> is
  the time in nanoseconds since \<open>start_time\<close> when the \<open>i\<close>-th user is reached.
\<close>

fun collect_posts ::
  "(nat \<Rightarrow> nat) \<Rightarrow> nat \<Rightarrow> (i64 \<Rightarrow> light_post list) \<Rightarrow> nat \<Rightarrow> i64 list \<Rightarrow> light_post list" where
  "collect_posts elapsed timeout_ms f i [] = []"
| "collect_posts elapsed timeout_ms f i (u # us) =
     (if timeout_ms \<noteq> 0 \<and> timeout_ms * 1000000 \<le> elapsed i then []
      else f u @ collect_posts elapsed timeout_ms f (Suc i) us)"

definition get_posts_from_map ::
  "(nat \<Rightarrow> nat) \<Rightarrow> posting_lists \<Rightarrow> i64 list \<Rightarrow> nat \<Rightarrow> i64 list \<Rightarrow> i64 list \<Rightarrow> i64 \<Rightarrow> post_store \<Rightarrow> light_post list" where
  "get_posts_from_map elapsed m user_ids max_per_user exclude following request_user s =
     collect_posts elapsed (request_timeout_ms s)
       (posts_of_user (posts s) m max_per_user exclude following request_user) 0 user_ids"

definition get_videos_by_users ::
  "(nat \<Rightarrow> nat) \<Rightarrow> i64 list \<Rightarrow> i64 list \<Rightarrow> i64 \<Rightarrow> post_store \<Rightarrow> light_post list" where
  "get_videos_by_users elapsed user_ids exclude request_user s =
     get_posts_from_map elapsed (video_posts_by_user s) user_ids MAX_VIDEO_POSTS_PER_AUTHOR
       exclude [] request_user s"

definition get_all_posts_by_users ::
  "(nat \<Rightarrow> nat) \<Rightarrow> (nat \<Rightarrow> nat) \<Rightarrow> i64 list \<Rightarrow> i64 list \<Rightarrow> i64 \<Rightarrow> nat \<Rightarrow> nat \<Rightarrow> post_store \<Rightarrow> light_post list" where
  "get_all_posts_by_users elapsed1 elapsed2 user_ids exclude request_user max_original max_secondary s =
     (let all_posts = get_posts_from_map elapsed1 (original_posts_by_user s) user_ids max_original
                        exclude [] request_user s
      in if max_secondary > 0
         then all_posts @ get_posts_from_map elapsed2 (secondary_posts_by_user s) user_ids
                max_secondary exclude user_ids request_user s
         else all_posts)"

section \<open>Trimming and start-up\<close>

definition too_old :: "u64 \<Rightarrow> u64 \<Rightarrow> tiny_post \<Rightarrow> bool" where
  "too_old now retention t \<longleftrightarrow> retention < now - tp_created_at t"

text \<open>The pop loop of the delete-event entry and of a user's entry, with the popped posts.\<close>

fun pop_old :: "(nat \<Rightarrow> tiny_post \<Rightarrow> bool) \<Rightarrow> tiny_post list \<Rightarrow> tiny_post list \<times> i64 list" where
  "pop_old p [] = ([], [])"
| "pop_old p (t # ts) =
     (if p (length (t # ts)) t
      then let (rest, popped) = pop_old p ts in (rest, tp_post_id t # popped)
      else (t # ts, []))"

definition trim_visits :: "nat \<Rightarrow> i64 \<Rightarrow> bool" where
  "trim_visits trim_iter uid \<longleftrightarrow>
     uid \<noteq> DELETE_EVENT_KEY \<and> unat uid mod TRIM_FRACTION = trim_iter mod TRIM_FRACTION"

definition trim_user :: "u64 \<Rightarrow> u64 \<Rightarrow> tiny_post list \<Rightarrow> tiny_post list \<times> i64 list" where
  "trim_user now retention ts =
     pop_old (\<lambda>len t. MAX_POSTING_LIST_SIZE < len \<or> too_old now retention t) ts"

definition trim_entry ::
  "u64 \<Rightarrow> u64 \<Rightarrow> nat \<Rightarrow> i64 \<times> tiny_post list \<Rightarrow> (i64 \<times> tiny_post list) \<times> i64 list" where
  "trim_entry now retention trim_iter e =
     (if trim_visits trim_iter (fst e)
      then let (ts, popped) = trim_user now retention (snd e) in ((fst e, ts), popped)
      else (e, []))"

text \<open>
  One call of the closure \<open>trim_map\<close>: the number of trimmed posts, the new posting lists, and the
  ids to remove from the posts and from the deleted posts.
\<close>

definition trim_map ::
  "u64 \<Rightarrow> u64 \<Rightarrow> nat \<Rightarrow> posting_lists \<Rightarrow> nat \<times> posting_lists \<times> i64 list \<times> i64 list" where
  "trim_map now retention trim_iter m =
     (let (m1, deleted_popped) =
            (case map_of m DELETE_EVENT_KEY of
               Some ts \<Rightarrow> let (ts', popped) = pop_old (\<lambda>len t. too_old now retention t) ts
                         in (AList.update DELETE_EVENT_KEY ts' m, popped)
             | None \<Rightarrow> (m, []));
          trimmed = map (trim_entry now retention trim_iter) m1;
          m2 = map fst trimmed;
          popped = concat (map snd trimmed);
          m3 = filter (\<lambda>e. \<not> (trim_visits trim_iter (fst e) \<and> snd e = [])) m2
      in (length deleted_popped + length popped, m3, deleted_popped @ popped, deleted_popped))"

definition trim_old_posts :: "u64 \<Rightarrow> nat \<Rightarrow> post_store \<Rightarrow> nat \<times> post_store" where
  "trim_old_posts now trim_iter s =
     (let (n1, m1, p1, d1) = trim_map now (retention_seconds s) trim_iter (original_posts_by_user s);
          (n2, m2, p2, d2) = trim_map now (retention_seconds s) trim_iter (secondary_posts_by_user s);
          (n3, m3, p3, d3) = trim_map now (retention_seconds s) trim_iter (video_posts_by_user s)
      in (n1 + n2,
          s\<lparr>original_posts_by_user := m1, secondary_posts_by_user := m2, video_posts_by_user := m3,
            posts := remove_posts (p1 @ p2 @ p3) (posts s),
            deleted_posts := remove_posts (d1 @ d2 @ d3) (deleted_posts s)\<rparr>))"

definition sort_lists :: "posting_lists \<Rightarrow> posting_lists" where
  "sort_lists m = map (\<lambda>(k, ts). (k, sort_key (\<lambda>t. sint (tp_created_at t)) ts)) m"

definition sort_all_user_posts :: "post_store \<Rightarrow> post_store" where
  "sort_all_user_posts s =
     s\<lparr>original_posts_by_user := sort_lists (original_posts_by_user s),
       secondary_posts_by_user := sort_lists (secondary_posts_by_user s),
       video_posts_by_user := sort_lists (video_posts_by_user s)\<rparr>"

text \<open>\<open>now i\<close> is the wall clock at the \<open>i\<close>-th of the trims that end the start-up.\<close>

definition finalize_init :: "(nat \<Rightarrow> u64) \<Rightarrow> post_store \<Rightarrow> post_store" where
  "finalize_init now s =
     (let s1 = fold (\<lambda>i st. snd (trim_old_posts (now i) i st)) [0..<TRIM_FRACTION] (sort_all_user_posts s)
      in s1\<lparr>posts := remove_posts (map fst (deleted_posts s1)) (posts s1)\<rparr>)"

definition post_store_clear :: "post_store \<Rightarrow> post_store" where
  "post_store_clear s =
     s\<lparr>posts := [], original_posts_by_user := [], secondary_posts_by_user := [], video_posts_by_user := []\<rparr>"


section \<open>Facts on maps and posting lists\<close>

lemma set_update_subset: "set (AList.update k v m) \<subseteq> insert (k, v) (set m)"
  by (induction m) auto

lemma map_of_remove_posts: "map_of (remove_posts ids m) k = (if k \<in> set ids then None else map_of m k)"
  unfolding remove_posts_def
  by (induction ids arbitrary: m) (auto simp: AList.delete_conv')

lemma distinct_remove_posts: "distinct (map fst m) \<Longrightarrow> distinct (map fst (remove_posts ids m))"
  unfolding remove_posts_def
  by (induction ids arbitrary: m) (auto simp: distinct_delete)

lemma pop_while_full_length:
  "length (fst (pop_while_full ts r)) < MAX_POSTING_LIST_SIZE \<or> ts = []"
  by (induction ts r rule: pop_while_full.induct)
     (auto simp: MAX_POSTING_LIST_SIZE_def split: if_splits dest!: sym [of "[]"])

lemma pop_while_full_split:
  "\<exists>old. ts = old @ fst (pop_while_full ts r) \<and> snd (pop_while_full ts r) = r @ map tp_post_id old"
proof (induction ts r rule: pop_while_full.induct)
  case (2 t ts removed)
  show ?case
  proof (cases "MAX_POSTING_LIST_SIZE \<le> length (t # ts)")
    case True
    with 2 obtain old where
      "ts = old @ fst (pop_while_full ts (removed @ [tp_post_id t]))"
      "snd (pop_while_full ts (removed @ [tp_post_id t])) = (removed @ [tp_post_id t]) @ map tp_post_id old"
      by auto
    with True show ?thesis by (intro exI [of _ "t # old"]) simp
  qed auto
qed simp

lemma pop_old_split:
  "\<exists>old. ts = old @ fst (pop_old p ts) \<and> snd (pop_old p ts) = map tp_post_id old"
proof (induction ts)
  case (Cons t ts)
  show ?case
  proof (cases "p (length (t # ts)) t")
    case True
    from Cons obtain old where "ts = old @ fst (pop_old p ts)" "snd (pop_old p ts) = map tp_post_id old"
      by blast
    with True show ?thesis by (intro exI [of _ "t # old"]) (simp add: split_def)
  qed auto
qed simp

lemma pop_old_stops:
  "fst (pop_old p ts) = [] \<or>
   \<not> p (length (fst (pop_old p ts))) (hd (fst (pop_old p ts)))"
  by (induction ts) (auto simp: split_def Let_def)

lemma length_pop_old: "length (fst (pop_old p ts)) \<le> length ts"
proof -
  obtain old where "ts = old @ fst (pop_old p ts)" using pop_old_split by blast
  then have "length ts = length old + length (fst (pop_old p ts))" by (metis length_append)
  then show ?thesis by simp
qed

section \<open>The invariant of the store\<close>

definition bounded_lists :: "posting_lists \<Rightarrow> bool" where
  "bounded_lists m \<longleftrightarrow>
     (\<forall>(k, ts) \<in> set m. k \<noteq> DELETE_EVENT_KEY \<longrightarrow> length ts \<le> MAX_POSTING_LIST_SIZE)"

definition lists_inv :: "posting_lists \<Rightarrow> bool" where
  "lists_inv m \<longleftrightarrow> distinct (map fst m) \<and> bounded_lists m"

definition store_inv :: "post_store \<Rightarrow> bool" where
  "store_inv s \<longleftrightarrow>
     lists_inv (original_posts_by_user s) \<and> lists_inv (secondary_posts_by_user s) \<and>
     lists_inv (video_posts_by_user s) \<and>
     distinct (map fst (posts s)) \<and> distinct (map fst (deleted_posts s)) \<and>
     (\<forall>k v. map_of (posts s) k = Some v \<longrightarrow> cp_post_id v = k) \<and>
     (\<forall>k. map_of (deleted_posts s) k \<noteq> None \<longrightarrow> map_of (posts s) k = None)"

lemma lists_inv_update:
  "lists_inv m \<Longrightarrow> (k \<noteq> DELETE_EVENT_KEY \<Longrightarrow> length ts \<le> MAX_POSTING_LIST_SIZE) \<Longrightarrow>
   lists_inv (AList.update k ts m)"
  using set_update_subset [of k ts m]
  by (fastforce simp: lists_inv_def bounded_lists_def distinct_update)

lemma lists_inv_push: "lists_inv m \<Longrightarrow> lists_inv (fst (push_bounded a t m))"
  using pop_while_full_length [of "entry_or_default a m" "[]"]
  by (auto simp: push_bounded_def split_def Let_def MAX_POSTING_LIST_SIZE_def intro!: lists_inv_update)

lemma fst_trim_entry [simp]: "fst (fst (trim_entry now r i e)) = fst e"
  by (simp add: trim_entry_def split_def Let_def)

lemma length_trim_entry: "length (snd (fst (trim_entry now r i e))) \<le> length (snd e)"
  using length_pop_old by (simp add: trim_entry_def trim_user_def split_def Let_def)

lemma lists_inv_trim: "lists_inv m \<Longrightarrow> lists_inv (fst (snd (trim_map now r i m)))"
proof -
  assume inv: "lists_inv m"
  define m1 where "m1 = (case map_of m DELETE_EVENT_KEY of
      Some ts \<Rightarrow> AList.update DELETE_EVENT_KEY (fst (pop_old (\<lambda>len t. too_old now r t) ts)) m
    | None \<Rightarrow> m)"
  have m1: "lists_inv m1"
    using inv by (auto simp: m1_def intro: lists_inv_update split: option.split)
  have "fst (snd (trim_map now r i m)) =
        filter (\<lambda>e. \<not> (trim_visits i (fst e) \<and> snd e = [])) (map (fst \<circ> trim_entry now r i) m1)"
    by (simp add: trim_map_def m1_def Let_def split_def comp_def split: option.split)
  moreover have "bounded_lists (map (fst \<circ> trim_entry now r i) m1)"
    unfolding bounded_lists_def
  proof clarify
    fix k ts
    assume "(k, ts) \<in> set (map (fst \<circ> trim_entry now r i) m1)" and k: "k \<noteq> DELETE_EVENT_KEY"
    then obtain e where e: "e \<in> set m1" "fst (trim_entry now r i e) = (k, ts)" by auto
    then have "fst e = k" "length ts \<le> length (snd e)"
      using fst_trim_entry [of now r i e] length_trim_entry [of now r i e] by simp_all
    moreover have "length (snd e) \<le> MAX_POSTING_LIST_SIZE"
      using m1 e(1) k \<open>fst e = k\<close> by (auto simp: lists_inv_def bounded_lists_def)
    ultimately show "length ts \<le> MAX_POSTING_LIST_SIZE" by simp
  qed
  moreover have "distinct (map fst (map (fst \<circ> trim_entry now r i) m1))"
    using m1 by (simp add: lists_inv_def comp_def)
  ultimately show ?thesis
    by (auto simp: lists_inv_def bounded_lists_def distinct_map_filter)
qed

lemma lists_inv_sort: "lists_inv m \<Longrightarrow> lists_inv (sort_lists m)"
  by (fastforce simp: lists_inv_def bounded_lists_def sort_lists_def comp_def split_def)


subsection \<open>Every operation keeps the invariant\<close>

lemmas store_simps = store_inv_def map_of_remove_posts distinct_remove_posts
  AList.update_conv' AList.delete_conv' distinct_update distinct_delete

lemma store_inv_new: "store_inv (post_store_new r t)"
  by (simp add: store_inv_def post_store_new_def lists_inv_def bounded_lists_def)

lemma store_inv_mark_one: "store_inv s \<Longrightarrow> store_inv (mark_one e s)"
  by (auto simp: mark_one_def store_simps intro: lists_inv_update)

lemma store_inv_mark: "store_inv s \<Longrightarrow> store_inv (mark_as_deleted es s)"
  unfolding mark_as_deleted_def by (induction es arbitrary: s) (auto simp: store_inv_mark_one)

lemma store_inv_posts_update:
  "store_inv s \<Longrightarrow> map_of (deleted_posts s) (lp_post_id p) = None \<Longrightarrow>
   store_inv (s\<lparr>posts := AList.update (lp_post_id p) (compact_of_light p) (posts s)\<rparr>)"
  by (auto simp: store_simps compact_of_light_def)

lemma store_inv_remove:
  "store_inv s \<Longrightarrow> store_inv (s\<lparr>posts := remove_posts ids (posts s)\<rparr>)"
  by (auto simp: store_simps split: if_splits)

lemma store_inv_lists:
  "store_inv s \<Longrightarrow> lists_inv m \<Longrightarrow> store_inv (s\<lparr>original_posts_by_user := m\<rparr>)"
  "store_inv s \<Longrightarrow> lists_inv m \<Longrightarrow> store_inv (s\<lparr>secondary_posts_by_user := m\<rparr>)"
  "store_inv s \<Longrightarrow> lists_inv m \<Longrightarrow> store_inv (s\<lparr>video_posts_by_user := m\<rparr>)"
  by (auto simp: store_inv_def)

lemma store_inv_listsD:
  "store_inv s \<Longrightarrow> lists_inv (original_posts_by_user s)"
  "store_inv s \<Longrightarrow> lists_inv (secondary_posts_by_user s)"
  "store_inv s \<Longrightarrow> lists_inv (video_posts_by_user s)"
  by (auto simp: store_inv_def)

lemma store_inv_push:
  "store_inv s \<Longrightarrow> store_inv (fst (push_by_kind p t s))"
  "store_inv s \<Longrightarrow> store_inv (fst (push_video p t s))"
  by (simp_all add: push_by_kind_def push_video_def split_def Let_def store_inv_lists
      lists_inv_push store_inv_listsD)

lemma store_inv_insert_one: "store_inv s \<Longrightarrow> store_inv (insert_one p s)"
  by (simp add: insert_one_def Let_def split_def store_inv_posts_update store_inv_push
      store_inv_remove)

lemma store_inv_insert_internal: "store_inv s \<Longrightarrow> store_inv (insert_posts_internal ps s)"
  unfolding insert_posts_internal_def by (induction ps arbitrary: s) (auto simp: store_inv_insert_one)

lemma store_inv_insert: "store_inv s \<Longrightarrow> store_inv (insert_posts now ps s)"
  by (simp add: insert_posts_def store_inv_insert_internal)

lemma trim_map_deleted_subset:
  "set (snd (snd (snd (trim_map now r i m)))) \<subseteq> set (fst (snd (snd (trim_map now r i m))))"
  by (auto simp: trim_map_def Let_def split_def split: option.splits)

lemma store_inv_trim: "store_inv s \<Longrightarrow> store_inv (snd (trim_old_posts now i s))"
  by (auto simp: trim_old_posts_def Let_def split_def store_simps lists_inv_trim split: if_splits)

lemma store_inv_sort: "store_inv s \<Longrightarrow> store_inv (sort_all_user_posts s)"
  by (auto simp: sort_all_user_posts_def store_inv_def lists_inv_sort)

lemma store_inv_clear: "store_inv s \<Longrightarrow> store_inv (post_store_clear s)"
  by (auto simp: post_store_clear_def store_inv_def lists_inv_def bounded_lists_def)

lemma store_inv_finalize: "store_inv s \<Longrightarrow> store_inv (finalize_init now s)"
proof -
  have "store_inv (fold (\<lambda>i st. snd (trim_old_posts (now i) i st)) is t)" if "store_inv t" for "is" t
    using that by (induction "is" arbitrary: t) (auto simp: store_inv_trim)
  then show "store_inv s \<Longrightarrow> ?thesis"
    by (simp add: finalize_init_def Let_def store_inv_sort store_inv_remove)
qed

subsection \<open>Reachable stores\<close>

text \<open>
  The store is shared by the event listeners, the periodic trimmer and the request handlers; a
  reachable store is the result of any sequence of their operations, at any clock values.
\<close>

inductive store_step :: "post_store \<Rightarrow> post_store \<Rightarrow> bool" where
  delete: "store_step s (mark_as_deleted es s)"
| insert: "store_step s (insert_posts now ps s)"
| trim: "store_step s (snd (trim_old_posts now i s))"
| sort: "store_step s (sort_all_user_posts s)"
| finalize: "store_step s (finalize_init clock s)"
| clear: "store_step s (post_store_clear s)"

inductive reachable_store :: "post_store \<Rightarrow> bool" where
  new: "reachable_store (post_store_new r t)"
| step: "reachable_store s \<Longrightarrow> store_step s s' \<Longrightarrow> reachable_store s'"

lemma store_step_inv: "store_step s s' \<Longrightarrow> store_inv s \<Longrightarrow> store_inv s'"
  by (induction rule: store_step.induct)
     (auto simp: store_inv_mark store_inv_insert store_inv_trim store_inv_sort store_inv_finalize
        store_inv_clear)

lemma reachable_store_inv: "reachable_store s \<Longrightarrow> store_inv s"
  by (induction rule: reachable_store.induct) (auto simp: store_inv_new intro: store_step_inv)

section \<open>What a retrieval returns\<close>

lemma in_map_filter: "y \<in> set (List.map_filter f xs) \<longleftrightarrow> (\<exists>x \<in> set xs. f x = Some y)"
  by (induction xs) (auto simp: List.map_filter_simps split: option.split)

lemma posts_of_user_props:
  assumes "p \<in> set (posts_of_user ps m n ex fol ru uid)"
    and ids: "\<And>k c. map_of ps k = Some c \<Longrightarrow> cp_post_id c = k"
  shows "map_of ps (lp_post_id p) \<noteq> None" and "lp_post_id p \<notin> set ex"
    and "\<not> (lp_is_retweet p \<and> lp_source_user_id p = Some ru)" and "reply_shown ps fol p"
proof -
  from assms(1) obtain ts where ts: "map_of m uid = Some ts"
    by (cases "map_of m uid") (simp_all add: posts_of_user_def)
  with assms(1) have "p \<in> set (List.map_filter
      (\<lambda>t. map_option light_of_compact (map_of ps (tp_post_id t)))
      (take MAX_TINY_POSTS_PER_USER_SCAN (filter (\<lambda>t. tp_post_id t \<notin> set ex) (rev ts))))"
    and r: "\<not> (lp_is_retweet p \<and> lp_source_user_id p = Some ru)" "reply_shown ps fol p"
    by (auto simp: posts_of_user_def Let_def dest!: in_set_takeD)
  then obtain t where "t \<in> set (filter (\<lambda>t. tp_post_id t \<notin> set ex) (rev ts))"
    and "map_option light_of_compact (map_of ps (tp_post_id t)) = Some p"
    unfolding in_map_filter by (blast dest: in_set_takeD)
  then obtain c where c: "map_of ps (tp_post_id t) = Some c" "p = light_of_compact c"
    and "tp_post_id t \<notin> set ex" by auto
  moreover have "lp_post_id p = tp_post_id t"
    using c ids [OF c(1)] by (simp add: light_of_compact_def)
  ultimately show "map_of ps (lp_post_id p) \<noteq> None" "lp_post_id p \<notin> set ex"
    "\<not> (lp_is_retweet p \<and> lp_source_user_id p = Some ru)" "reply_shown ps fol p"
    using r c by simp_all
qed

lemma set_collect_posts: "p \<in> set (collect_posts el to f i us) \<Longrightarrow> \<exists>u \<in> set us. p \<in> set (f u)"
  by (induction el to f i us rule: collect_posts.induct) (auto split: if_splits)

lemma length_collect_posts:
  "(\<And>u. length (f u) \<le> n) \<Longrightarrow> length (collect_posts el to f i us) \<le> n * length us"
proof (induction us arbitrary: i)
  case (Cons u us)
  have "length (f u) + length (collect_posts el to f (Suc i) us) \<le> n + n * length us"
    using Cons.prems Cons.IH [of "Suc i"] by (simp add: add_mono)
  then show ?case by simp
qed simp

lemma collect_posts_prefix:
  "\<exists>k. collect_posts el to f i us = concat (map f (take k us))"
proof (induction us arbitrary: i)
  case (Cons u us)
  from Cons obtain k where k: "collect_posts el to f (Suc i) us = concat (map f (take k us))" by blast
  show ?case
  proof (cases "to \<noteq> 0 \<and> to * 1000000 \<le> el i")
    case True
    then show ?thesis by (intro exI [of _ 0]) simp
  next
    case False
    with k show ?thesis by (intro exI [of _ "Suc k"]) auto
  qed
qed simp

lemma collect_posts_no_timeout: "collect_posts el 0 f i us = concat (map f us)"
  by (induction us arbitrary: i) auto

lemma length_posts_of_user: "length (posts_of_user ps m n ex fol ru uid) \<le> n"
  by (simp add: posts_of_user_def Let_def split: option.split)


lemma get_posts_from_map_props:
  assumes "store_inv s" and "p \<in> set (get_posts_from_map el m us n ex fol ru s)"
  shows "map_of (posts s) (lp_post_id p) \<noteq> None" and "map_of (deleted_posts s) (lp_post_id p) = None"
    and "lp_post_id p \<notin> set ex" and "\<not> (lp_is_retweet p \<and> lp_source_user_id p = Some ru)"
    and "reply_shown (posts s) fol p"
proof -
  have ids: "\<And>k c. map_of (posts s) k = Some c \<Longrightarrow> cp_post_id c = k"
    using assms(1) by (simp add: store_inv_def)
  obtain u where u: "p \<in> set (posts_of_user (posts s) m n ex fol ru u)"
    using set_collect_posts assms(2) unfolding get_posts_from_map_def by blast
  note props = posts_of_user_props [OF u ids]
  show stored: "map_of (posts s) (lp_post_id p) \<noteq> None" and "lp_post_id p \<notin> set ex"
    and "\<not> (lp_is_retweet p \<and> lp_source_user_id p = Some ru)" and "reply_shown (posts s) fol p"
    using props by simp_all
  show "map_of (deleted_posts s) (lp_post_id p) = None"
    using assms(1) stored unfolding store_inv_def by metis
qed

lemma length_get_posts_from_map: "length (get_posts_from_map el m us n ex fol ru s) \<le> n * length us"
  unfolding get_posts_from_map_def by (rule length_collect_posts) (rule length_posts_of_user)

subsection \<open>Ageing\<close>

definition aged_ok :: "u64 \<Rightarrow> posting_lists \<Rightarrow> bool" where
  "aged_ok now m \<longleftrightarrow>
     (\<forall>(k, ts) \<in> set m. k \<noteq> DELETE_EVENT_KEY \<longrightarrow> sorted (map (\<lambda>t. sint (tp_created_at t)) ts) \<and>
        (\<forall>t \<in> set ts. 0 \<le> sint (tp_created_at t) \<and> sint (tp_created_at t) \<le> sint now))"

definition dated_until :: "u64 \<Rightarrow> posting_lists \<Rightarrow> bool" where
  "dated_until now m \<longleftrightarrow>
     (\<forall>(k, ts) \<in> set m. k \<noteq> DELETE_EVENT_KEY \<longrightarrow>
        (\<forall>t \<in> set ts. 0 \<le> sint (tp_created_at t) \<and> sint (tp_created_at t) \<le> sint now))"

definition fresh_for :: "u64 \<Rightarrow> u64 \<Rightarrow> nat set \<Rightarrow> posting_lists \<Rightarrow> bool" where
  "fresh_for now r is m \<longleftrightarrow>
     (\<forall>(k, ts) \<in> set m. k \<noteq> DELETE_EVENT_KEY \<longrightarrow> unat k mod TRIM_FRACTION \<in> is \<longrightarrow>
        (\<forall>t \<in> set ts. \<not> too_old now r t))"

lemma too_old_mono:
  assumes "0 \<le> sint (tp_created_at a)" "sint (tp_created_at a) \<le> sint (tp_created_at b)"
    and "sint (tp_created_at b) \<le> sint now" and "too_old now r b"
  shows "too_old now r a"
proof -
  have nn: "uint x = sint x" if "0 \<le> sint x" for x :: i64
  proof -
    have "sint x < 2 ^ 63" using sint_lt [of x] by simp
    then have "sint x mod 2 ^ 64 = sint x" using that by simp
    then show ?thesis by (simp add: uint_sint take_bit_eq_mod)
  qed
  have sub: "uint (now - tp_created_at x) = sint now - sint (tp_created_at x)"
    if "0 \<le> sint (tp_created_at x)" "sint (tp_created_at x) \<le> sint now" for x
    using that nn [of now] nn [of "tp_created_at x"] by (simp add: uint_sub_if_size)
  show ?thesis
    using assms sub [of a] sub [of b] by (simp add: too_old_def word_less_alt)
qed

lemma suffix_aged:
  "ts = old @ rest \<Longrightarrow> sorted (map f ts) \<Longrightarrow> sorted (map f rest)"
  by (simp add: sorted_append)

lemma trim_user_fresh:
  assumes "sorted (map (\<lambda>t. sint (tp_created_at t)) ts)"
    and "\<forall>t \<in> set ts. 0 \<le> sint (tp_created_at t) \<and> sint (tp_created_at t) \<le> sint now"
  shows "\<forall>t \<in> set (fst (trim_user now r ts)). \<not> too_old now r t"
proof
  fix t assume t: "t \<in> set (fst (trim_user now r ts))"
  let ?rest = "fst (trim_user now r ts)"
  from t have ne: "?rest \<noteq> []" by auto
  then have hd: "\<not> too_old now r (hd ?rest)"
    using pop_old_stops [of "\<lambda>len t. MAX_POSTING_LIST_SIZE < len \<or> too_old now r t" ts]
    by (simp add: trim_user_def)
  obtain old where old: "ts = old @ ?rest" using pop_old_split unfolding trim_user_def by blast
  have sub: "set ?rest \<subseteq> set ts" by (subst (2) old) simp
  have "sorted (map (\<lambda>t. sint (tp_created_at t)) ?rest)" using suffix_aged [OF old assms(1)] .
  then have "sint (tp_created_at (hd ?rest)) \<le> sint (tp_created_at t)"
    using t by (cases ?rest) auto
  moreover have "hd ?rest \<in> set ts" "t \<in> set ts" using sub t hd_in_set [OF ne] by blast+
  then have "0 \<le> sint (tp_created_at (hd ?rest))" "sint (tp_created_at t) \<le> sint now"
    using assms(2) by blast+
  ultimately show "\<not> too_old now r t" using too_old_mono [of "hd ?rest" t now r] hd by blast
qed

lemma trim_map_lists:
  assumes "(k, ts) \<in> set (fst (snd (trim_map now r i m)))" and "k \<noteq> DELETE_EVENT_KEY"
  shows "\<exists>ts0. (k, ts0) \<in> set m \<and>
     ts = (if trim_visits i k then fst (trim_user now r ts0) else ts0)"
proof -
  define m1 where "m1 = (case map_of m DELETE_EVENT_KEY of
      Some ts \<Rightarrow> AList.update DELETE_EVENT_KEY (fst (pop_old (\<lambda>len t. too_old now r t) ts)) m
    | None \<Rightarrow> m)"
  have "(k, ts) \<in> set (map (fst \<circ> trim_entry now r i) m1)"
    using assms(1) by (auto simp: trim_map_def m1_def Let_def split_def split: option.splits)
  then obtain ts0 where ts0: "(k, ts0) \<in> set m1" "(k, ts) = fst (trim_entry now r i (k, ts0))"
    by (auto simp: trim_entry_def split_def Let_def split: if_splits)
  have "(k, ts0) \<in> set m"
  proof (cases "map_of m DELETE_EVENT_KEY")
    case (Some a)
    then have "set m1 \<subseteq> insert (DELETE_EVENT_KEY, fst (pop_old (\<lambda>len t. too_old now r t) a)) (set m)"
      unfolding m1_def using set_update_subset by (simp only: option.case)
    then show ?thesis using ts0(1) assms(2) by blast
  qed (use ts0(1) in \<open>simp add: m1_def\<close>)
  then show ?thesis using ts0(2) by (auto simp: trim_entry_def split_def Let_def)
qed

lemma set_trim_user: "set (fst (trim_user now r ts)) \<subseteq> set ts"
proof -
  obtain old where old: "ts = old @ fst (trim_user now r ts)"
    using pop_old_split unfolding trim_user_def by blast
  show ?thesis by (subst (2) old) simp
qed

lemma sorted_trim_user:
  "sorted (map f ts) \<Longrightarrow> sorted (map f (fst (trim_user now r ts)))"
proof -
  assume s: "sorted (map f ts)"
  obtain old where old: "ts = old @ fst (trim_user now r ts)"
    using pop_old_split unfolding trim_user_def by blast
  from suffix_aged [OF old s] show ?thesis .
qed

lemma aged_trim: "aged_ok now m \<Longrightarrow> aged_ok now (fst (snd (trim_map now' r i m)))"
  unfolding aged_ok_def
proof (clarify, rule conjI)
  fix k ts
  assume m: "\<forall>(k, ts) \<in> set m. k \<noteq> DELETE_EVENT_KEY \<longrightarrow> sorted (map (\<lambda>t. sint (tp_created_at t)) ts) \<and>
        (\<forall>t \<in> set ts. 0 \<le> sint (tp_created_at t) \<and> sint (tp_created_at t) \<le> sint now)"
    and e: "(k, ts) \<in> set (fst (snd (trim_map now' r i m)))" and k: "k \<noteq> DELETE_EVENT_KEY"
  from trim_map_lists [OF e k] obtain ts0 where ts0: "(k, ts0) \<in> set m"
    "ts = (if trim_visits i k then fst (trim_user now' r ts0) else ts0)" by blast
  with m k have "sorted (map (\<lambda>t. sint (tp_created_at t)) ts0)" and
    a: "\<forall>t \<in> set ts0. 0 \<le> sint (tp_created_at t) \<and> sint (tp_created_at t) \<le> sint now" by auto
  then show "sorted (map (\<lambda>t. sint (tp_created_at t)) ts)" using ts0(2) by (simp add: sorted_trim_user)
  show "\<forall>t \<in> set ts. 0 \<le> sint (tp_created_at t) \<and> sint (tp_created_at t) \<le> sint now"
    using a ts0(2) set_trim_user [of now' r ts0] by (auto split: if_splits)
qed

lemma fresh_trim:
  assumes "aged_ok now m" and "fresh_for now r S m"
  shows "fresh_for now r (insert (i mod TRIM_FRACTION) S) (fst (snd (trim_map now r i m)))"
  unfolding fresh_for_def
proof clarify
  fix k ts t
  assume e: "(k, ts) \<in> set (fst (snd (trim_map now r i m)))" and k: "k \<noteq> DELETE_EVENT_KEY"
    and S: "unat k mod TRIM_FRACTION \<in> insert (i mod TRIM_FRACTION) S"
    and t: "t \<in> set ts" "too_old now r t"
  from trim_map_lists [OF e k] obtain ts0 where ts0: "(k, ts0) \<in> set m"
    "ts = (if trim_visits i k then fst (trim_user now r ts0) else ts0)" by blast
  show False
  proof (cases "trim_visits i k")
    case True
    have "sorted (map (\<lambda>t. sint (tp_created_at t)) ts0)" and
      "\<forall>t \<in> set ts0. 0 \<le> sint (tp_created_at t) \<and> sint (tp_created_at t) \<le> sint now"
      using assms(1) ts0(1) k by (auto simp: aged_ok_def)
    from trim_user_fresh [OF this, of r] True ts0(2) t show False by auto
  next
    case False
    then have "unat k mod TRIM_FRACTION \<in> S" using S k by (auto simp: trim_visits_def)
    with False assms(2) ts0 k t show False by (auto simp: fresh_for_def)
  qed
qed

lemma aged_sort: "dated_until now m \<Longrightarrow> aged_ok now (sort_lists m)"
  by (fastforce simp: aged_ok_def dated_until_def sort_lists_def)

lemma trim_old_posts_sel:
  "original_posts_by_user (snd (trim_old_posts now i s)) =
     fst (snd (trim_map now (retention_seconds s) i (original_posts_by_user s)))"
  "secondary_posts_by_user (snd (trim_old_posts now i s)) =
     fst (snd (trim_map now (retention_seconds s) i (secondary_posts_by_user s)))"
  "video_posts_by_user (snd (trim_old_posts now i s)) =
     fst (snd (trim_map now (retention_seconds s) i (video_posts_by_user s)))"
  "retention_seconds (snd (trim_old_posts now i s)) = retention_seconds s"
  by (simp_all add: trim_old_posts_def split_def Let_def)

definition lists_of :: "post_store \<Rightarrow> posting_lists list" where
  "lists_of s = [original_posts_by_user s, secondary_posts_by_user s, video_posts_by_user s]"

lemma lists_of_trim:
  "lists_of (snd (trim_old_posts now i s)) =
   map (\<lambda>m. fst (snd (trim_map now (retention_seconds s) i m))) (lists_of s)"
  by (simp add: lists_of_def trim_old_posts_sel)

lemma trims_fresh:
  assumes "\<forall>m \<in> set (lists_of s). aged_ok now m \<and> fresh_for now (retention_seconds s) S m"
  shows "(\<forall>m \<in> set (lists_of (fold (\<lambda>i st. snd (trim_old_posts now i st)) is s)).
           fresh_for now (retention_seconds s) (S \<union> (\<lambda>i. i mod TRIM_FRACTION) ` set is) m)"
  using assms
proof (induction "is" arbitrary: s S)
  case (Cons i "is")
  have "\<forall>m \<in> set (lists_of (snd (trim_old_posts now i s))).
      aged_ok now m \<and> fresh_for now (retention_seconds s) (insert (i mod TRIM_FRACTION) S) m"
    using Cons.prems by (auto simp: lists_of_trim aged_trim fresh_trim)
  from Cons.IH [where s = "snd (trim_old_posts now i s)", unfolded trim_old_posts_sel(4), OF this]
  show ?case by simp
qed simp

definition none_expired :: "u64 \<Rightarrow> u64 \<Rightarrow> posting_lists \<Rightarrow> bool" where
  "none_expired now r m \<longleftrightarrow>
     list_all (\<lambda>(k, ts). k = DELETE_EVENT_KEY \<or> list_all (\<lambda>t. \<not> too_old now r t) ts) m"

lemma fresh_for_all: "fresh_for now r {0..<TRIM_FRACTION} m \<longleftrightarrow> none_expired now r m"
  by (auto simp: fresh_for_def none_expired_def TRIM_FRACTION_def list_all_iff)

section \<open>Serving a fresh post\<close>

lemma popped_from_entry:
  "set (snd (push_bounded a t m)) \<subseteq> tp_post_id ` set (entry_or_default a m)"
proof -
  obtain old where old: "entry_or_default a m = old @ fst (pop_while_full (entry_or_default a m) [])"
    "snd (pop_while_full (entry_or_default a m) []) = [] @ map tp_post_id old"
    using pop_while_full_split [of "entry_or_default a m" "[]"] by blast
  then have "set old \<subseteq> set (entry_or_default a m)" by (metis set_append sup_ge1)
  with old(2) show ?thesis by (auto simp: push_bounded_def split_def Let_def)
qed

lemma lookup_push_bounded:
  "\<exists>ts. map_of (fst (push_bounded a t m)) a = Some (ts @ [t])"
  by (simp add: push_bounded_def split_def Let_def AList.update_conv')

definition option_fields_nonzero :: "light_post \<Rightarrow> bool" where
  "option_fields_nonzero p \<longleftrightarrow>
     lp_in_reply_to_post_id p \<noteq> Some 0 \<and> lp_in_reply_to_user_id p \<noteq> Some 0 \<and>
     lp_source_post_id p \<noteq> Some 0 \<and> lp_source_user_id p \<noteq> Some 0 \<and> lp_conversation_id p \<noteq> Some 0"

lemma to_opt_unwrap: "to_opt (unwrap_or 0 x) = x \<longleftrightarrow> x \<noteq> Some 0"
  by (cases x) (auto simp: to_opt_def)

lemma unwrap_to_opt [simp]: "unwrap_or 0 (to_opt x) = x"
  by (simp add: to_opt_def)

lemma light_compact: "light_of_compact (compact_of_light p) = p \<longleftrightarrow> option_fields_nonzero p"
  by (cases p) (auto simp: light_of_compact_def compact_of_light_def option_fields_nonzero_def to_opt_unwrap)

definition id_unlisted :: "i64 \<Rightarrow> i64 \<Rightarrow> post_store \<Rightarrow> bool" where
  "id_unlisted a i s \<longleftrightarrow>
     list_all (\<lambda>t. tp_post_id t \<noteq> i) (entry_or_default a (original_posts_by_user s)) \<and>
     list_all (\<lambda>t. tp_post_id t \<noteq> i) (entry_or_default a (video_posts_by_user s))"

lemma insert_one_original:
  assumes "\<not> lp_is_reply p" "\<not> lp_is_retweet p"
    and "map_of (deleted_posts s) (lp_post_id p) = None" "map_of (posts s) (lp_post_id p) = None"
    and "id_unlisted (lp_author_id p) (lp_post_id p) s"
  shows "map_of (posts (insert_one p s)) (lp_post_id p) = Some (compact_of_light p)"
    and "\<exists>ts. map_of (original_posts_by_user (insert_one p s)) (lp_author_id p) =
           Some (ts @ [\<lparr>tp_post_id = lp_post_id p, tp_created_at = lp_created_at p\<rparr>])"
proof -
  let ?a = "lp_author_id p" and ?t = "\<lparr>tp_post_id = lp_post_id p, tp_created_at = lp_created_at p\<rparr>"
  have "lp_post_id p \<notin> set (snd (push_bounded ?a ?t (original_posts_by_user s)))"
    "lp_post_id p \<notin> set (snd (push_bounded ?a ?t (video_posts_by_user s)))"
    using popped_from_entry assms(5) by (fastforce simp: id_unlisted_def list_all_iff)+
  then show "map_of (posts (insert_one p s)) (lp_post_id p) = Some (compact_of_light p)"
    using assms by (simp add: insert_one_def push_by_kind_def push_video_def Let_def split_def
        map_of_remove_posts AList.update_conv')
  show "\<exists>ts. map_of (original_posts_by_user (insert_one p s)) ?a = Some (ts @ [?t])"
    using assms lookup_push_bounded [of ?a ?t "original_posts_by_user s"]
    by (simp add: insert_one_def push_by_kind_def push_video_def Let_def split_def)
qed

section \<open>Properties\<close>

text \<open>A store with one post, used by the witnesses.\<close>

definition sample_post :: light_post where
  "sample_post = \<lparr>lp_post_id = 11, lp_author_id = 7, lp_created_at = 90, lp_in_reply_to_post_id = None,
     lp_in_reply_to_user_id = None, lp_source_post_id = None, lp_source_user_id = None,
     lp_conversation_id = Some 11, lp_is_retweet = False, lp_is_reply = False, lp_has_video = True\<rparr>"

definition sample_store :: post_store where
  "sample_store = insert_posts 100 [sample_post] (post_store_new 1000 50)"

lemma reachable_sample: "reachable_store sample_store"
  unfolding sample_store_def
  by (rule reachable_store.step [OF reachable_store.new]) (rule store_step.insert)

lemma sample_store_eq:
  "sample_store = (post_store_new 1000 50)\<lparr>posts := [(11, compact_of_light sample_post)],
     original_posts_by_user := [(7, [\<lparr>tp_post_id = 11, tp_created_at = 90\<rparr>])],
     video_posts_by_user := [(7, [\<lparr>tp_post_id = 11, tp_created_at = 90\<rparr>])]\<rparr>"
  by (simp add: sample_store_def sample_post_def insert_posts_def insert_posts_internal_def insertable_def
      post_store_new_def insert_one_def push_by_kind_def push_video_def push_bounded_def
      entry_or_default_def video_eligible_def remove_posts_def Let_def)

lemma sample_retrieved:
  "get_all_posts_by_users (\<lambda>_. 0) (\<lambda>_. 0) [7] [] 3 10 10 sample_store = [sample_post]"
  by (simp add: sample_store_eq sample_post_def get_all_posts_by_users_def get_posts_from_map_def posts_of_user_def
      light_of_compact_def compact_of_light_def to_opt_def List.map_filter_simps Let_def
      MAX_TINY_POSTS_PER_USER_SCAN_def reply_shown_def post_store_new_def)

text \<open>
  C23. In every store the service can reach, a post that \<open>get_all_posts_by_users\<close> returns is
  stored under its own id, is not marked deleted, is not one of the excluded ids and is not a
  repost of the requesting user's own post; and a request returns at most
  \<open>max_original + max_secondary\<close> posts for each requested user.
\<close>

theorem get_all_posts_by_users_sound:
  assumes "reachable_store s"
    and "p \<in> set (get_all_posts_by_users e1 e2 us ex ru mo ms s)"
  shows "map_of (posts s) (lp_post_id p) \<noteq> None \<and> map_of (deleted_posts s) (lp_post_id p) = None \<and>
    lp_post_id p \<notin> set ex \<and> \<not> (lp_is_retweet p \<and> lp_source_user_id p = Some ru) \<and>
    length (get_all_posts_by_users e1 e2 us ex ru mo ms s) \<le> (mo + ms) * length us"
proof -
  have inv: "store_inv s" using assms(1) by (rule reachable_store_inv)
  have "length (get_all_posts_by_users e1 e2 us ex ru mo ms s) \<le> mo * length us + ms * length us"
    using length_get_posts_from_map [of e1 "original_posts_by_user s" us mo ex "[]" ru s]
      length_get_posts_from_map [of e2 "secondary_posts_by_user s" us ms ex us ru s]
    by (auto simp: get_all_posts_by_users_def Let_def)
  moreover obtain el m n fol where "p \<in> set (get_posts_from_map el m us n ex fol ru s)"
    using assms(2) by (auto simp: get_all_posts_by_users_def Let_def split: if_splits)
  ultimately show ?thesis
    using get_posts_from_map_props [OF inv] by (simp add: add_mult_distrib)
qed

theorem get_all_posts_by_users_sound_witness:
  "map_of (posts sample_store) 11 \<noteq> None \<and> map_of (deleted_posts sample_store) 11 = None"
proof -
  have "sample_post \<in> set (get_all_posts_by_users (\<lambda>_. 0) (\<lambda>_. 0) [7] [] 3 10 10 sample_store)"
    by (simp add: sample_retrieved)
  from get_all_posts_by_users_sound [OF reachable_sample this] show ?thesis
    by (simp add: sample_post_def)
qed

lemma insert_one_deleted: "deleted_posts (insert_one p s) = deleted_posts s"
  by (simp add: insert_one_def push_by_kind_def push_video_def Let_def split_def)

lemma insert_posts_deleted: "deleted_posts (insert_posts now ps s) = deleted_posts s"
proof -
  have "deleted_posts (fold insert_one qs t) = deleted_posts t" for qs t
    by (induction qs arbitrary: t) (auto simp: insert_one_deleted)
  then show ?thesis by (simp add: insert_posts_def insert_posts_internal_def)
qed

lemma mark_as_deleted_marks:
  "e \<in> set es \<Longrightarrow> map_of (deleted_posts (mark_as_deleted es s)) (de_post_id e) = Some True"
proof -
  have keep: "map_of (deleted_posts (fold mark_one es s)) k = Some True"
    if "map_of (deleted_posts s) k = Some True" for k s es
    using that by (induction es arbitrary: s) (auto simp: mark_one_def AList.update_conv')
  have here: "map_of (deleted_posts (mark_one e s)) (de_post_id e) = Some True" for s
    by (simp add: mark_one_def AList.update_conv')
  show "e \<in> set es \<Longrightarrow> ?thesis" unfolding mark_as_deleted_def
    by (induction es arbitrary: s) (auto intro: keep [OF here])
qed

lemma sorted_deleted [simp]: "deleted_posts (sort_all_user_posts s) = deleted_posts s"
  by (simp add: sort_all_user_posts_def)

lemma cleared_deleted [simp]: "deleted_posts (post_store_clear s) = deleted_posts s"
  by (simp add: post_store_clear_def)

lemma mark_as_deleted_keeps:
  "map_of (deleted_posts s) k = Some True \<Longrightarrow> map_of (deleted_posts (mark_as_deleted es s)) k = Some True"
  unfolding mark_as_deleted_def by (induction es arbitrary: s) (auto simp: mark_one_def AList.update_conv')

text \<open>No delete event of the id is past the retention period at this clock.\<close>

definition deletion_live :: "i64 \<Rightarrow> u64 \<Rightarrow> post_store \<Rightarrow> bool" where
  "deletion_live x now s \<longleftrightarrow>
     list_all (\<lambda>m. list_all (\<lambda>t. tp_post_id t = x \<longrightarrow> \<not> too_old now (retention_seconds s) t) (entry_or_default DELETE_EVENT_KEY m))
       (lists_of s)"

lemma pop_old_popped: "x \<in> set (snd (pop_old p ts)) \<Longrightarrow> \<exists>t \<in> set ts. tp_post_id t = x \<and> (\<exists>n. p n t)"
  by (induction ts) (auto simp: split_def Let_def split: if_splits)

lemma trim_map_keeps_live:
  assumes "list_all (\<lambda>t. tp_post_id t = x \<longrightarrow> \<not> too_old now r t) (entry_or_default DELETE_EVENT_KEY m)"
  shows "x \<notin> set (snd (snd (snd (trim_map now r i m))))"
proof (cases "map_of m DELETE_EVENT_KEY")
  case (Some ts)
  with assms pop_old_popped [of x "\<lambda>len t. too_old now r t" ts] show ?thesis
    by (auto simp: trim_map_def Let_def split_def entry_or_default_def list_all_iff)
qed (simp add: trim_map_def Let_def)

lemma trim_keeps_live:
  "map_of (deleted_posts s) x = Some True \<Longrightarrow> deletion_live x now s \<Longrightarrow>
   map_of (deleted_posts (snd (trim_old_posts now i s))) x = Some True"
  using trim_map_keeps_live [of x now "retention_seconds s" _ i]
  by (simp add: trim_old_posts_def Let_def split_def map_of_remove_posts deletion_live_def lists_of_def)

text \<open>Runs of the store in which no trim finds a delete event of the id expired.\<close>

inductive live_run :: "i64 \<Rightarrow> post_store \<Rightarrow> post_store \<Rightarrow> bool" for x s where
  live_refl: "live_run x s s"
| live_delete: "live_run x s s' \<Longrightarrow> live_run x s (mark_as_deleted es s')"
| live_insert: "live_run x s s' \<Longrightarrow> live_run x s (insert_posts now ps s')"
| live_sort: "live_run x s s' \<Longrightarrow> live_run x s (sort_all_user_posts s')"
| live_clear: "live_run x s s' \<Longrightarrow> live_run x s (post_store_clear s')"
| live_trim: "live_run x s s' \<Longrightarrow> deletion_live x now s' \<Longrightarrow> live_run x s (snd (trim_old_posts now i s'))"

lemma live_run_marked:
  "live_run x s s' \<Longrightarrow> store_inv s \<Longrightarrow> map_of (deleted_posts s) x = Some True \<Longrightarrow>
   store_inv s' \<and> map_of (deleted_posts s') x = Some True"
  by (induction rule: live_run.induct)
    (simp_all add: store_inv_mark store_inv_insert store_inv_sort store_inv_clear store_inv_trim insert_posts_deleted
      mark_as_deleted_keeps trim_keeps_live)

text \<open>
  C24. A deletion wins over the insertions that arrive after it. Once an id is marked deleted in a reachable store,
  it is not stored after any sequence of deletions, insertions, sorts, clears and trims, in any order and at any
  clock values, as long as no trim of the sequence finds a delete event of the id past the retention period; and no
  retrieval returns it.
\<close>

theorem deletion_wins_over_insert:
  assumes "reachable_store s" and "e \<in> set es" and "live_run (de_post_id e) (mark_as_deleted es s) s'"
  shows "map_of (posts s') (de_post_id e) = None \<and>
    de_post_id e \<notin> lp_post_id ` set (get_all_posts_by_users e1 e2 us ex ru mo ms s')"
proof -
  have inv: "store_inv s'" "map_of (deleted_posts s') (de_post_id e) = Some True"
    using live_run_marked [OF assms(3)] assms(1,2)
    by (simp_all add: mark_as_deleted_marks reachable_store_inv store_inv_mark)
  then have none: "map_of (posts s') (de_post_id e) = None" unfolding store_inv_def by (metis option.distinct(1))
  have "map_of (posts s') (lp_post_id p) \<noteq> None"
    if "p \<in> set (get_all_posts_by_users e1 e2 us ex ru mo ms s')" for p
    using that get_posts_from_map_props [OF inv(1)] by (auto simp: get_all_posts_by_users_def Let_def split: if_splits)
  with none show ?thesis by (metis (no_types, lifting) imageE)
qed

theorem deletion_wins_over_insert_witness:
  "map_of (posts (insert_posts 100 [sample_post] (snd (trim_old_posts 100 0
     (mark_as_deleted [\<lparr>de_post_id = 11, de_deleted_at = 95\<rparr>] sample_store))))) 11 = None"
proof -
  let ?s = "mark_as_deleted [\<lparr>de_post_id = 11, de_deleted_at = 95\<rparr>] sample_store"
  have "deletion_live 11 100 ?s"
    by (simp add: deletion_live_def lists_of_def sample_store_eq post_store_new_def mark_as_deleted_def mark_one_def
        entry_or_default_def too_old_def DELETE_EVENT_KEY_def)
  then have "live_run 11 ?s (insert_posts 100 [sample_post] (snd (trim_old_posts 100 0 ?s)))"
    by (intro live_insert live_trim live_refl)
  with deletion_wins_over_insert [OF reachable_sample, of "\<lparr>de_post_id = 11, de_deleted_at = 95\<rparr>"
      "[\<lparr>de_post_id = 11, de_deleted_at = 95\<rparr>]"]
  show ?thesis by simp
qed

text \<open>
  An original post that passes the retention test is served by the very next request for its
  author: it is the first of the author's originals, exactly as it was inserted. The hypotheses
  are that its id is neither deleted nor stored nor listed for the author, that it is not
  excluded, and that no optional id is \<open>Some(0)\<close>, which the compact form cannot tell from \<open>None\<close>.
\<close>

lemma inserted_original_is_served:
  assumes "insertable now (retention_seconds s) p" and "\<not> lp_is_reply p" "\<not> lp_is_retweet p"
    and "map_of (deleted_posts s) (lp_post_id p) = None" "map_of (posts s) (lp_post_id p) = None"
    and "id_unlisted (lp_author_id p) (lp_post_id p) s"
    and "option_fields_nonzero p" and "lp_post_id p \<notin> set ex" and "0 < n"
  shows "\<exists>rest. posts_of_user (posts (insert_posts now [p] s)) (original_posts_by_user (insert_posts now [p] s))
           n ex [] ru (lp_author_id p) = p # rest"
proof -
  let ?s = "insert_one p s" and ?t = "\<lparr>tp_post_id = lp_post_id p, tp_created_at = lp_created_at p\<rparr>"
  note ins = insert_one_original [OF assms(2-6)]
  from ins(2) obtain ts where ts: "map_of (original_posts_by_user ?s) (lp_author_id p) = Some (ts @ [?t])" ..
  have p: "light_of_compact (compact_of_light p) = p" using assms(7) by (simp add: light_compact)
  obtain k where k: "MAX_TINY_POSTS_PER_USER_SCAN = Suc k" by (simp add: MAX_TINY_POSTS_PER_USER_SCAN_def)
  obtain j where j: "n = Suc j" using assms(9) by (cases n) auto
  have "insert_posts now [p] s = ?s"
    using assms(1) by (simp add: insert_posts_def insert_posts_internal_def)
  then show ?thesis
    using ts p ins(1) assms(3,8) by (simp add: posts_of_user_def Let_def k j List.map_filter_simps reply_shown_def)
qed

lemma inserted_original_is_served_witness:
  "\<exists>rest. posts_of_user (posts (insert_posts 100 [sample_post] (post_store_new 1000 50)))
      (original_posts_by_user (insert_posts 100 [sample_post] (post_store_new 1000 50))) 5 [12] [] 3 7
      = sample_post # rest"
  using inserted_original_is_served [of 100 "post_store_new 1000 50" sample_post "[12]" 5 3]
  by (simp add: sample_post_def insertable_def post_store_new_def id_unlisted_def entry_or_default_def
      option_fields_nonzero_def)

text \<open>
  The compact form of a post loses nothing but the difference between an absent id and the id
  0: reading it back is the identity exactly on the posts without an optional id \<open>Some(0)\<close>, and
  the compact form of what is read back is always the stored one.
\<close>

lemma compact_post_roundtrip:
  "(light_of_compact (compact_of_light p) = p \<longleftrightarrow> option_fields_nonzero p) \<and>
   compact_of_light (light_of_compact c) = c"
  by (simp add: light_compact) (simp add: light_of_compact_def compact_of_light_def)

text \<open>
  The start-up of the service (sort every list, then one trim pass for each residue of the
  user ids) leaves no post past the retention period in any posting list, provided the stored
  creation times lie between the epoch and the clock.
\<close>

lemma finalize_init_drops_expired:
  assumes "list_all (dated_until now) (lists_of s)"
  shows "list_all (none_expired now (retention_seconds s)) (lists_of (finalize_init (\<lambda>_. now) s))"
proof -
  have "\<forall>m \<in> set (lists_of (sort_all_user_posts s)).
      aged_ok now m \<and> fresh_for now (retention_seconds (sort_all_user_posts s)) {} m"
    using assms by (auto simp: lists_of_def sort_all_user_posts_def aged_sort fresh_for_def)
  from trims_fresh [OF this, of "[0..<TRIM_FRACTION]"]
  have "\<forall>m \<in> set (lists_of (finalize_init (\<lambda>_. now) s)).
      fresh_for now (retention_seconds s) {0..<TRIM_FRACTION} m"
    by (simp add: finalize_init_def Let_def lists_of_def sort_all_user_posts_def TRIM_FRACTION_def)
  then show ?thesis by (simp only: fresh_for_all list_all_iff)
qed

lemma finalize_init_drops_expired_witness:
  "list_all (none_expired 5000 (retention_seconds sample_store))
     (lists_of (finalize_init (\<lambda>_. 5000) sample_store))"
  by (rule finalize_init_drops_expired)
     (simp add: sample_store_eq post_store_new_def lists_of_def dated_until_def)

text \<open>
  C32. In every reachable store each map has distinct keys, no author's posting list (the
  delete-event list apart) exceeds 5000 entries, each post is stored under its own id, and no
  stored post is marked deleted.
\<close>

theorem reachable_store_bounded:
  assumes "reachable_store s" and "m \<in> set (lists_of s)" and "(k, ts) \<in> set m" and "k \<noteq> DELETE_EVENT_KEY"
  shows "length ts \<le> MAX_POSTING_LIST_SIZE \<and> distinct (map fst m) \<and>
    (\<forall>i c. map_of (posts s) i = Some c \<longrightarrow> cp_post_id c = i \<and> map_of (deleted_posts s) i = None)"
proof -
  have inv: "store_inv s" using assms(1) by (rule reachable_store_inv)
  then have "lists_inv m" using assms(2) by (auto simp: lists_of_def store_inv_def)
  then have "length ts \<le> MAX_POSTING_LIST_SIZE \<and> distinct (map fst m)"
    using assms(3,4) by (auto simp: lists_inv_def bounded_lists_def)
  moreover have "cp_post_id c = i \<and> map_of (deleted_posts s) i = None" if "map_of (posts s) i = Some c" for i c
    using inv that unfolding store_inv_def by (metis option.distinct(1))
  ultimately show ?thesis by blast
qed

theorem reachable_store_bounded_witness:
  "length [\<lparr>tp_post_id = 11, tp_created_at = (90 :: i64)\<rparr>] \<le> MAX_POSTING_LIST_SIZE"
proof -
  have "original_posts_by_user sample_store \<in> set (lists_of sample_store)" by (simp add: lists_of_def)
  moreover have "(7, [\<lparr>tp_post_id = 11, tp_created_at = 90\<rparr>]) \<in> set (original_posts_by_user sample_store)"
    by (simp add: sample_store_eq)
  ultimately show ?thesis
    using reachable_store_bounded [OF reachable_sample, of "original_posts_by_user sample_store" 7
      "[\<lparr>tp_post_id = 11, tp_created_at = 90\<rparr>]"] by (simp add: DELETE_EVENT_KEY_def)
qed

text \<open>
  The age of an entry is computed as \<open>current_time - created_at as u64\<close>. For a deletion
  dated after the clock (by up to half the range of \<open>u64\<close>) the subtraction wraps to an age above
  every sensible retention, and the next trim, whatever its round, forgets the deletion, if the delete events
  queued before it are expired (or dated after the clock) too.
\<close>

lemma age_wraps:
  assumes "0 < d" "d \<le> 2 ^ 63" "r < 2 ^ 63"
  shows "r < now - (now + d :: u64)"
proof -
  have "uint (0 - d) = 2 ^ 64 - uint d"
    using assms(1) by (simp add: uint_sub_if_size word_size word_less_alt del: diff_0)
  moreover have "uint d \<le> 2 ^ 63" using assms(2) by (simp add: word_le_def)
  moreover have "uint r < 2 ^ 63" using assms(3) by (simp add: word_less_alt)
  ultimately have "r < 0 - d" by (simp add: word_less_alt del: diff_0)
  then show ?thesis by simp
qed

lemma pop_old_prefix:
  "\<forall>t \<in> set us. q t \<Longrightarrow> q e \<Longrightarrow> tp_post_id e \<in> set (snd (pop_old (\<lambda>_. q) (us @ e # vs)))"
  by (induction us) (auto simp: split_def Let_def)

lemma future_deletion_is_forgotten:
  assumes "map_of (original_posts_by_user s) DELETE_EVENT_KEY = Some (us @ e # vs)"
    and "\<forall>t \<in> set us. too_old now (retention_seconds s) t"
    and "tp_created_at e = now + d" "0 < d" "d \<le> 2 ^ 63" "retention_seconds s < 2 ^ 63"
  shows "map_of (deleted_posts (snd (trim_old_posts now i s))) (tp_post_id e) = None"
proof -
  have "too_old now (retention_seconds s) e" using age_wraps [OF assms(4-6)] assms(3) by (simp add: too_old_def)
  then have "tp_post_id e \<in> set (snd (pop_old (\<lambda>len t. too_old now (retention_seconds s) t) (us @ e # vs)))"
    using assms(2) by (intro pop_old_prefix)
  then have "tp_post_id e \<in> set (snd (snd (snd (trim_map now (retention_seconds s) i (original_posts_by_user s)))))"
    using assms(1) by (simp add: trim_map_def Let_def split_def)
  then show ?thesis by (simp add: trim_old_posts_def Let_def split_def map_of_remove_posts)
qed

end
