(* ===== verification/Thunder_Service.thy ===== *)
theory Thunder_Service
  imports Post_Store
begin

text \<open>
  The request handler of Thunder (\<open>thunder/thunder_service.rs\<close>): rate limiting, the list of
  followed users, the limits, the retrieval from the post store and the final order by recency.
  The rate limiter and the Strato client are outside the sources and are arguments of the model,
  as are the times the post store reads from the clock.
\<close>

section \<open>Configuration and types\<close>

definition MAX_POSTS_TO_RETURN :: nat where "MAX_POSTS_TO_RETURN = 1200"
definition MAX_VIDEOS_TO_RETURN :: nat where "MAX_VIDEOS_TO_RETURN = 600"
definition MAX_INPUT_LIST_SIZE :: nat where "MAX_INPUT_LIST_SIZE = 10000"
definition MAX_REPLY_POSTS_PER_AUTHOR :: nat where "MAX_REPLY_POSTS_PER_AUTHOR = 30"
definition MAX_ORIGINAL_POSTS_PER_AUTHOR :: nat where "MAX_ORIGINAL_POSTS_PER_AUTHOR = 50"

definition BLACKLISTED_USER_IDS :: "i64 list" where
  "BLACKLISTED_USER_IDS = [1720665183188922368, 1909390269533011968, 1999031187604717568]"

record per_author_limits =
  max_posts_per_author :: "32 word option"
  max_replies_reposts_per_author :: "32 word option"

record in_network_request =
  rq_user_id :: u64
  rq_following_user_ids :: "u64 list"
  rq_exclude_tweet_ids :: "u64 list"
  rq_max_results :: "32 word"
  rq_is_video_request :: bool
  rq_debug :: bool
  rq_algorithm :: string
  rq_per_author_limits :: "per_author_limits option"

datatype status = ResourceExhausted string | Internal string

text \<open>
  What one request meets of the code outside the sources: the answer of the rate limiter, the
  Strato lookup of the followed users, and the clock readings of the two retrieval loops.
\<close>

record thunder_env =
  rate_limiter_ok :: bool
  fetch_following_list :: "i64 \<Rightarrow> i32 \<Rightarrow> (string + i64 list)"
  elapsed_first :: "nat \<Rightarrow> nat"
  elapsed_second :: "nat \<Rightarrow> nat"

section \<open>The handler\<close>

definition score_recent :: "light_post list \<Rightarrow> nat \<Rightarrow> light_post list" where
  "score_recent ps max_results = take max_results (sort_key (\<lambda>p. - sint (lp_created_at p)) ps)"

definition resolve_following :: "thunder_env \<Rightarrow> in_network_request \<Rightarrow> status + u64 list" where
  "resolve_following env rq =
     (if rq_following_user_ids rq = [] \<and> rq_debug rq
      then case fetch_following_list env (rq_user_id rq) (of_nat MAX_INPUT_LIST_SIZE) of
             Inr following_list \<Rightarrow> Inr following_list
           | Inl e \<Rightarrow> Inl (Internal (''Failed to fetch following list: '' @ e))
      else Inr (rq_following_user_ids rq))"

definition request_max_results :: "in_network_request \<Rightarrow> nat" where
  "request_max_results rq =
     (if 0 < rq_max_results rq then unat (rq_max_results rq)
      else if rq_is_video_request rq then MAX_VIDEOS_TO_RETURN else MAX_POSTS_TO_RETURN)"

definition author_limit :: "nat \<Rightarrow> 32 word option \<Rightarrow> nat" where
  "author_limit cap l = (case l of None \<Rightarrow> cap | Some n \<Rightarrow> min (unat n) cap)"

definition retrieve_posts ::
  "thunder_env \<Rightarrow> in_network_request \<Rightarrow> i64 list \<Rightarrow> i64 list \<Rightarrow> post_store \<Rightarrow> light_post list" where
  "retrieve_posts env rq following exclude s =
     (let limits = unwrap_or \<lparr>max_posts_per_author = None, max_replies_reposts_per_author = None\<rparr>
                     (rq_per_author_limits rq)
      in if rq_is_video_request rq
         then get_videos_by_users (elapsed_first env) following exclude (rq_user_id rq) s
         else get_all_posts_by_users (elapsed_first env) (elapsed_second env) following exclude
                (rq_user_id rq)
                (author_limit MAX_ORIGINAL_POSTS_PER_AUTHOR (max_posts_per_author limits))
                (author_limit MAX_REPLY_POSTS_PER_AUTHOR (max_replies_reposts_per_author limits)) s)"

definition allowed_following :: "u64 list \<Rightarrow> i64 list" where
  "allowed_following us =
     filter (\<lambda>u. u \<notin> set BLACKLISTED_USER_IDS) (take MAX_INPUT_LIST_SIZE us)"

definition get_in_network_posts ::
  "thunder_env \<Rightarrow> in_network_request \<Rightarrow> post_store \<Rightarrow> status + light_post list" where
  "get_in_network_posts env rq s =
     (if \<not> rate_limiter_ok env
      then Inl (ResourceExhausted ''QPS rate limit exceeded, please retry'')
      else case resolve_following env rq of
             Inl e \<Rightarrow> Inl e
           | Inr following_user_ids \<Rightarrow>
               Inr (score_recent
                 (retrieve_posts env rq (allowed_following following_user_ids)
                   (take MAX_INPUT_LIST_SIZE (rq_exclude_tweet_ids rq)) s)
                 (request_max_results rq)))"

section \<open>The interface to the post store\<close>

definition listed_for :: "post_store \<Rightarrow> i64 list \<Rightarrow> light_post \<Rightarrow> bool" where
  "listed_for s us p \<longleftrightarrow>
     list_ex (\<lambda>u. list_ex (\<lambda>m. list_ex (\<lambda>t. tp_post_id t = lp_post_id p) (entry_or_default u m)) (lists_of s)) us"

definition retrievable :: "post_store \<Rightarrow> i64 list \<Rightarrow> i64 \<Rightarrow> light_post \<Rightarrow> bool" where
  "retrievable s ex ru p \<longleftrightarrow>
     map_of (posts s) (lp_post_id p) \<noteq> None \<and> map_of (deleted_posts s) (lp_post_id p) = None \<and>
     lp_post_id p \<notin> set ex \<and> \<not> (lp_is_retweet p \<and> lp_source_user_id p = Some ru)"

text \<open>
  The handler relies on the store for one thing: whatever a retrieval returns may be shown to
  the requester, and comes from the posting lists of the users asked for.
\<close>

locale in_network_source =
  fixes retrieve :: "i64 list \<Rightarrow> i64 list \<Rightarrow> i64 \<Rightarrow> post_store \<Rightarrow> light_post list"
  assumes retrieve_retrievable:
      "store_inv s \<Longrightarrow> p \<in> set (retrieve us ex ru s) \<Longrightarrow> retrievable s ex ru p"
    and retrieve_listed:
      "store_inv s \<Longrightarrow> p \<in> set (retrieve us ex ru s) \<Longrightarrow> listed_for s us p"
begin

lemma scored_sound:
  assumes "store_inv s" and "p \<in> set (score_recent (retrieve us ex ru s) n)"
  shows "retrievable s ex ru p \<and> listed_for s us p"
proof -
  have "p \<in> set (retrieve us ex ru s)"
    using assms(2) by (auto simp: score_recent_def dest: in_set_takeD)
  then show ?thesis using retrieve_retrievable retrieve_listed assms(1) by blast
qed

end

lemma posts_of_user_listed:
  assumes "p \<in> set (posts_of_user ps m n ex fol ru u)"
    and "\<And>k c. map_of ps k = Some c \<Longrightarrow> cp_post_id c = k"
  shows "list_ex (\<lambda>t. tp_post_id t = lp_post_id p) (entry_or_default u m)"
proof -
  from assms(1) obtain ts where ts: "map_of m u = Some ts"
    by (cases "map_of m u") (simp_all add: posts_of_user_def)
  with assms(1) obtain t where t: "t \<in> set ts" "map_option light_of_compact (map_of ps (tp_post_id t)) = Some p"
    by (auto simp: posts_of_user_def Let_def in_map_filter dest!: in_set_takeD)
  then have "lp_post_id p = tp_post_id t" using assms(2) by (auto simp: light_of_compact_def)
  with t(1) ts show ?thesis by (auto simp: entry_or_default_def list_ex_iff)
qed

lemma get_posts_from_map_listed:
  assumes "store_inv s" and "p \<in> set (get_posts_from_map el m us n ex fol ru s)" and "m \<in> set (lists_of s)"
  shows "listed_for s us p"
proof -
  obtain u where u: "u \<in> set us" "p \<in> set (posts_of_user (posts s) m n ex fol ru u)"
    using set_collect_posts assms(2) unfolding get_posts_from_map_def by blast
  have "\<And>k c. map_of (posts s) k = Some c \<Longrightarrow> cp_post_id c = k"
    using assms(1) by (simp add: store_inv_def)
  from posts_of_user_listed [OF u(2) this] u(1) assms(3) show ?thesis
    unfolding listed_for_def list_ex_iff by blast
qed

lemma get_posts_from_map_retrievable:
  "store_inv s \<Longrightarrow> p \<in> set (get_posts_from_map el m us n ex fol ru s) \<Longrightarrow> retrievable s ex ru p"
  unfolding retrievable_def by (intro conjI) (erule (1) get_posts_from_map_props)+

lemma get_all_from_map:
  "p \<in> set (get_all_posts_by_users e1 e2 us ex ru mo ms s) \<Longrightarrow>
   \<exists>el m n fol. m \<in> set (lists_of s) \<and> p \<in> set (get_posts_from_map el m us n ex fol ru s)"
  by (auto simp: get_all_posts_by_users_def lists_of_def Let_def split: if_splits)

lemma get_videos_from_map:
  "p \<in> set (get_videos_by_users e1 us ex ru s) \<Longrightarrow>
   \<exists>el m n fol. m \<in> set (lists_of s) \<and> p \<in> set (get_posts_from_map el m us n ex fol ru s)"
  by (auto simp: get_videos_by_users_def lists_of_def)

interpretation all_posts: in_network_source "\<lambda>us ex ru s. get_all_posts_by_users e1 e2 us ex ru mo ms s"
  for e1 e2 mo ms
  by unfold_locales
     (blast dest: get_all_from_map intro: get_posts_from_map_retrievable get_posts_from_map_listed)+

interpretation videos: in_network_source "\<lambda>us ex ru s. get_videos_by_users e1 us ex ru s" for e1
  by unfold_locales
     (blast dest: get_videos_from_map intro: get_posts_from_map_retrievable get_posts_from_map_listed)+

lemma retrieve_scored_sound:
  "store_inv s \<Longrightarrow> p \<in> set (score_recent (retrieve_posts env rq us ex s) n) \<Longrightarrow>
   retrievable s ex (rq_user_id rq) p \<and> listed_for s us p"
  unfolding retrieve_posts_def Let_def
  by (cases "rq_is_video_request rq") (simp_all add: videos.scored_sound all_posts.scored_sound)

lemma score_recent_newest:
  "\<exists>older. mset ps = mset (score_recent ps n) + mset older \<and>
     (\<forall>p \<in> set (score_recent ps n). \<forall>q \<in> set older. sint (lp_created_at q) \<le> sint (lp_created_at p)) \<and>
     (older \<noteq> [] \<longrightarrow> length (score_recent ps n) = n)"
proof -
  let ?s = "sort_key (\<lambda>p. - sint (lp_created_at p)) ps"
  have eq: "?s = take n ?s @ drop n ?s" by simp
  have "sorted (map (\<lambda>p. - sint (lp_created_at p)) (take n ?s @ drop n ?s))"
    unfolding append_take_drop_id by (rule sorted_sort_key)
  then have "\<forall>p \<in> set (take n ?s). \<forall>q \<in> set (drop n ?s). sint (lp_created_at q) \<le> sint (lp_created_at p)"
    by (auto simp: sorted_append simp del: append_take_drop_id)
  moreover have "mset ps = mset (take n ?s) + mset (drop n ?s)" by (simp add: mset_take_drop)
  ultimately show ?thesis unfolding score_recent_def by (intro exI [of _ "drop n ?s"]) auto
qed

lemma sorted_score_recent:
  "sorted_wrt (\<lambda>p q. sint (lp_created_at q) \<le> sint (lp_created_at p)) (score_recent ps n)"
proof -
  have "sorted (map (\<lambda>p. - sint (lp_created_at p)) (sort_key (\<lambda>p. - sint (lp_created_at p)) ps))"
    by (rule sorted_sort_key)
  then have "sorted_wrt (\<lambda>p q. - sint (lp_created_at p) \<le> - sint (lp_created_at q))
      (sort_key (\<lambda>p. - sint (lp_created_at p)) ps)" by (simp add: sorted_wrt_map)
  then show ?thesis unfolding score_recent_def by (simp add: sorted_wrt_take)
qed

section \<open>Properties\<close>

text \<open>
  C25. An answered request returns only posts that are stored, not deleted, not excluded (up to
  the cap of 10000 exclusions) and not reposts of the requester, each from a posting list of a
  followed user that is not blacklisted; newest first; and no more than the limit of the request.
\<close>

theorem get_in_network_posts_sound:
  assumes "reachable_store s" and "get_in_network_posts env rq s = Inr ps"
    and "resolve_following env rq = Inr us" and "p \<in> set ps"
  shows "retrievable s (take MAX_INPUT_LIST_SIZE (rq_exclude_tweet_ids rq)) (rq_user_id rq) p \<and>
    listed_for s (allowed_following us) p \<and>
    sorted_wrt (\<lambda>p q. sint (lp_created_at q) \<le> sint (lp_created_at p)) ps \<and>
    length ps \<le> request_max_results rq"
proof -
  have ps: "ps = score_recent (retrieve_posts env rq (allowed_following us)
        (take MAX_INPUT_LIST_SIZE (rq_exclude_tweet_ids rq)) s) (request_max_results rq)"
    using assms(2,3) by (simp add: get_in_network_posts_def split: if_splits)
  then show ?thesis
    using retrieve_scored_sound [OF reachable_store_inv [OF assms(1)]] assms(4) sorted_score_recent
    by (simp add: score_recent_def)
qed

definition sample_env :: thunder_env where
  "sample_env = \<lparr>rate_limiter_ok = True, fetch_following_list = (\<lambda>u n. Inr [7]),
     elapsed_first = (\<lambda>_. 0), elapsed_second = (\<lambda>_. 0)\<rparr>"

definition sample_request :: in_network_request where
  "sample_request = \<lparr>rq_user_id = 3, rq_following_user_ids = [7], rq_exclude_tweet_ids = [],
     rq_max_results = 0, rq_is_video_request = True, rq_debug = False, rq_algorithm = [],
     rq_per_author_limits = None\<rparr>"

lemma sample_response: "get_in_network_posts sample_env sample_request sample_store = Inr [sample_post]"
  by (simp add: get_in_network_posts_def sample_env_def sample_request_def resolve_following_def
      retrieve_posts_def get_videos_by_users_def allowed_following_def MAX_INPUT_LIST_SIZE_def
      BLACKLISTED_USER_IDS_def request_max_results_def MAX_VIDEOS_TO_RETURN_def score_recent_def
      sample_store_eq sample_post_def get_posts_from_map_def posts_of_user_def
      light_of_compact_def compact_of_light_def to_opt_def List.map_filter_simps
      MAX_TINY_POSTS_PER_USER_SCAN_def MAX_VIDEO_POSTS_PER_AUTHOR_def reply_shown_def post_store_new_def)

theorem get_in_network_posts_sound_witness:
  "retrievable sample_store [] 3 sample_post \<and> listed_for sample_store [7] sample_post"
  using get_in_network_posts_sound [OF reachable_sample sample_response, of "[7]" sample_post]
  by (simp add: sample_request_def resolve_following_def allowed_following_def MAX_INPUT_LIST_SIZE_def
      BLACKLISTED_USER_IDS_def)

text \<open>
  The answer keeps the newest of the retrieved posts: the posts left out are none newer than
  any post returned, and posts are left out only when the limit of the request is reached.
\<close>

lemma get_in_network_posts_newest:
  assumes "get_in_network_posts env rq s = Inr ps" and "resolve_following env rq = Inr us"
  shows "\<exists>older. mset (retrieve_posts env rq (allowed_following us)
             (take MAX_INPUT_LIST_SIZE (rq_exclude_tweet_ids rq)) s) = mset ps + mset older \<and>
     (\<forall>p \<in> set ps. \<forall>q \<in> set older. sint (lp_created_at q) \<le> sint (lp_created_at p)) \<and>
     (older \<noteq> [] \<longrightarrow> length ps = request_max_results rq)"
  using score_recent_newest assms by (auto simp: get_in_network_posts_def split: if_splits)

lemma get_in_network_posts_newest_witness:
  "\<exists>older. mset (retrieve_posts sample_env sample_request (allowed_following [7]) [] sample_store) =
     mset [sample_post] + mset older"
  using get_in_network_posts_newest [OF sample_response, of "[7]"]
  by (auto simp: sample_request_def resolve_following_def)

text \<open>
  A request fails in exactly two ways: it is turned away by the rate limiter, or it is a
  debug request with an empty following list whose Strato lookup fails; every other request is
  answered.
\<close>

lemma get_in_network_posts_errors:
  "(get_in_network_posts env rq s = Inl e) \<longleftrightarrow>
   (if rate_limiter_ok env
    then rq_following_user_ids rq = [] \<and> rq_debug rq \<and>
      (\<exists>msg. fetch_following_list env (rq_user_id rq) 10000 = Inl msg \<and>
         e = Internal (''Failed to fetch following list: '' @ msg))
    else e = ResourceExhausted ''QPS rate limit exceeded, please retry'')"
  by (auto simp: get_in_network_posts_def resolve_following_def MAX_INPUT_LIST_SIZE_def split: sum.splits)

end
