(* ===== verification/Feed_Types.thy ===== *)
theory Feed_Types
  imports Prelude
begin

text \<open>
  The items of a feed page: scored posts, ads, and the modules inserted between them, with the
  brand safety classes that govern the neighbourhood of an ad. The types are generated from the
  service's protocol buffers; each record has the fields that the code of the page assembly
  reads or writes. Matching keywords in the text of a post is done by an external tokenizer,
  a parameter of the development (record \<open>post_text\<close>).
\<close>

section \<open>Posts and ads\<close>

datatype brand_safety_verdict = VerdictUnspecified | Safe | LowRisk | MediumRisk | HighRisk

datatype brand_safety_risk_level = BsrUnknown | BsrLow | BsrIas | BsrNormal | BsrNoRisk | BsrHigh

record scored_post =
  sp_tweet_id :: u64
  sp_author_id :: u64
  sp_retweeted_tweet_id :: u64
  sp_retweeted_user_id :: u64
  sp_quoted_user_id :: u64
  sp_in_reply_to_tweet_id :: u64
  sp_ancestors :: "u64 list"
  sp_ancestor_users :: "u64 list"
  sp_tweet_text :: string
  sp_score :: f64
  sp_brand_safety_verdict :: brand_safety_verdict

record ad_adjacency_control =
  ac_brand_safety_risk :: brand_safety_risk_level
  ac_handles :: "i64 list"
  ac_keywords :: "string list"

record ad_index_info =
  ad_post_id :: i64
  ad_impression_id :: i64
  ad_account_id :: i64
  ad_line_item_id :: i64
  ad_campaign_id :: i64
  ad_line_item_objective :: i32
  ad_insert_position :: i32
  ad_funnel_traced :: bool
  ad_ad_adjacency_control :: "ad_adjacency_control option"

definition default_post :: scored_post where
  "default_post = \<lparr>sp_tweet_id = 0, sp_author_id = 0, sp_retweeted_tweet_id = 0, sp_retweeted_user_id = 0,
     sp_quoted_user_id = 0, sp_in_reply_to_tweet_id = 0, sp_ancestors = [], sp_ancestor_users = [],
     sp_tweet_text = [], sp_score = F_Fin 0, sp_brand_safety_verdict = VerdictUnspecified\<rparr>"

definition default_ad :: ad_index_info where
  "default_ad = \<lparr>ad_post_id = 0, ad_impression_id = 0, ad_account_id = 0, ad_line_item_id = 0,
     ad_campaign_id = 0, ad_line_item_objective = 0, ad_insert_position = 0, ad_funnel_traced = False,
     ad_ad_adjacency_control = None\<rparr>"

section \<open>Feed items\<close>

record frame =
  fr_route :: string
  fr_occurrence :: "32 word"

text \<open>The payload of the other modules plays no role in the assembly; an id stands for it.\<close>

record feed_module = md_id :: u64

datatype item =
    Post scored_post
  | Ad ad_index_info
  | WhoToFollow feed_module
  | Prompt feed_module
  | PushToHome feed_module
  | Frame frame
  | FeedSurvey feed_module
  | VideoCarousel feed_module

record feed_item =
  position :: i32
  item :: "item option"

fun is_ad :: "feed_item \<Rightarrow> bool" where
  "is_ad i = (case item i of Some (Ad ad) \<Rightarrow> True | _ \<Rightarrow> False)"

declare is_ad.simps [simp del]

definition as_ad :: "feed_item \<Rightarrow> ad_index_info option" where
  "as_ad i = (case item i of Some (Ad ad) \<Rightarrow> Some ad | _ \<Rightarrow> None)"

definition as_post :: "feed_item \<Rightarrow> scored_post option" where
  "as_post i = (case item i of Some (Post p) \<Rightarrow> Some p | _ \<Rightarrow> None)"

definition post_item :: "scored_post \<Rightarrow> feed_item" where
  "post_item p = \<lparr>position = 0, item = Some (Post p)\<rparr>"

definition ad_item :: "ad_index_info \<Rightarrow> feed_item" where
  "ad_item a = \<lparr>position = 0, item = Some (Ad a)\<rparr>"

text \<open>\<open>for (i, item) in items.iter_mut().enumerate() { item.position = i as i32 }\<close>\<close>

definition renumber :: "feed_item list \<Rightarrow> feed_item list" where
  "renumber items = map (\<lambda>(i, it). it\<lparr>position := of_nat i\<rparr>) (enumerate 0 items)"

definition posts_of :: "feed_item list \<Rightarrow> scored_post list" where
  "posts_of items = List.map_filter as_post items"

definition ads_of :: "feed_item list \<Rightarrow> ad_index_info list" where
  "ads_of items = List.map_filter as_ad items"

lemma item_simps [simp]:
  "as_post (post_item p) = Some p" "as_ad (post_item p) = None" "is_ad (post_item p) = False"
  "as_post (ad_item a) = None" "as_ad (ad_item a) = Some a" "is_ad (ad_item a) = True"
  "item (post_item p) = Some (Post p)" "item (ad_item a) = Some (Ad a)"
  by (simp_all add: as_post_def as_ad_def is_ad.simps post_item_def ad_item_def)

lemma is_ad_iff: "is_ad i \<longleftrightarrow> (\<exists>a. item i = Some (Ad a))"
  by (auto simp: is_ad.simps split: option.splits item.splits)

lemma as_ad_Some: "as_ad i = Some a \<longleftrightarrow> item i = Some (Ad a)"
  by (auto simp: as_ad_def split: option.splits item.splits)

lemma as_post_Some: "as_post i = Some p \<longleftrightarrow> item i = Some (Post p)"
  by (auto simp: as_post_def split: option.splits item.splits)

lemma as_ad_is_ad: "is_ad i \<longleftrightarrow> as_ad i \<noteq> None"
  by (auto simp: as_ad_def is_ad.simps split: option.splits item.splits)

lemma as_post_not_ad: "as_post i = Some p \<Longrightarrow> \<not> is_ad i"
  by (auto simp: is_ad.simps as_post_Some)

lemma posts_of_simps [simp]:
  "posts_of [] = []"
  "posts_of (i # is) = (case as_post i of Some p \<Rightarrow> p # posts_of is | None \<Rightarrow> posts_of is)"
  "posts_of (xs @ ys) = posts_of xs @ posts_of ys"
  by (simp_all add: posts_of_def List.map_filter_def split: option.split)

lemma ads_of_simps [simp]:
  "ads_of [] = []"
  "ads_of (i # is) = (case as_ad i of Some a \<Rightarrow> a # ads_of is | None \<Rightarrow> ads_of is)"
  "ads_of (xs @ ys) = ads_of xs @ ads_of ys"
  by (simp_all add: ads_of_def List.map_filter_def split: option.split)

lemma items_of_posts [simp]:
  "posts_of (map post_item ps) = ps" "ads_of (map post_item ps) = []"
  by (induction ps) simp_all

lemma position_update [simp]:
  "as_post (it\<lparr>position := n\<rparr>) = as_post it" "as_ad (it\<lparr>position := n\<rparr>) = as_ad it"
  "is_ad (it\<lparr>position := n\<rparr>) = is_ad it"
  by (simp_all add: as_post_def as_ad_def is_ad.simps)

lemma map_filter_id: "List.map_filter f xs = List.map_filter id (map f xs)"
  by (simp add: List.map_filter_def filter_map comp_def)

lemma map_filter_cong: "map f xs = map g ys \<Longrightarrow> List.map_filter f xs = List.map_filter g ys"
  using map_filter_id [of f xs] map_filter_id [of g ys] by simp

lemma map_item_renumber [simp]: "map item (renumber is) = map item is"
proof -
  have "map item (map (\<lambda>(i, it). it\<lparr>position := of_nat i\<rparr>) (enumerate n is)) = map item is" for n
    by (induction "is" arbitrary: n) auto
  then show ?thesis by (simp add: renumber_def)
qed

lemma map_as_renumber:
  "map as_post (renumber is) = map as_post is" "map as_ad (renumber is) = map as_ad is"
  "map is_ad (renumber is) = map is_ad is"
proof -
  have *: "map f (renumber is) = map f is" if "\<And>it n. f (it\<lparr>position := n\<rparr>) = f it"
    for f :: "feed_item \<Rightarrow> 'b"
  proof -
    have "map f (map (\<lambda>(i, it). it\<lparr>position := of_nat i\<rparr>) (enumerate n is)) = map f is" for n
      using that by (induction "is" arbitrary: n) auto
    then show ?thesis by (simp add: renumber_def)
  qed
  show "map as_post (renumber is) = map as_post is" "map as_ad (renumber is) = map as_ad is"
    "map is_ad (renumber is) = map is_ad is"
    by (rule *, simp)+
qed

lemma renumber_simps [simp]:
  "posts_of (renumber is) = posts_of is" "ads_of (renumber is) = ads_of is"
  "length (renumber is) = length is"
  by (simp_all add: posts_of_def ads_of_def map_filter_cong [OF map_as_renumber(1)]
      map_filter_cong [OF map_as_renumber(2)]) (simp add: renumber_def)

lemma position_renumber: "i < length is \<Longrightarrow> position (renumber is ! i) = of_nat i"
  by (simp add: renumber_def nth_enumerate_eq)

section \<open>The neighbourhood of an ad\<close>

text \<open>
  \<open>ad_neighbours ok prev items\<close>: every ad of \<open>items\<close> stands directly between two posts that
  are acceptable to it; \<open>prev\<close> is the post just above the list, if any.
\<close>

definition cell_post :: "item option \<Rightarrow> scored_post option" where
  "cell_post x = (case x of Some (Post p) \<Rightarrow> Some p | _ \<Rightarrow> None)"

definition ad_between :: "(ad_index_info \<Rightarrow> scored_post \<Rightarrow> scored_post \<Rightarrow> bool) \<Rightarrow> scored_post option \<Rightarrow>
    item option \<Rightarrow> item option list \<Rightarrow> bool" where
  "ad_between ok prev x rest =
     (case x of
        Some (Ad a) \<Rightarrow> (case (prev, rest) of
            (Some p, y # _) \<Rightarrow> is_some_and (ok a p) (cell_post y)
          | _ \<Rightarrow> False)
      | _ \<Rightarrow> True)"

fun ad_neighbours :: "(ad_index_info \<Rightarrow> scored_post \<Rightarrow> scored_post \<Rightarrow> bool) \<Rightarrow> scored_post option \<Rightarrow>
    item option list \<Rightarrow> bool" where
  "ad_neighbours ok prev [] = True"
| "ad_neighbours ok prev (x # rest) =
     (ad_between ok prev x rest \<and> ad_neighbours ok (cell_post x) rest)"

lemma cell_post_simps [simp]:
  "cell_post (Some (Post p)) = Some p" "cell_post (Some (Ad a)) = None" "cell_post None = None"
  by (simp_all add: cell_post_def)

lemma cell_post_Some: "cell_post x = Some p \<longleftrightarrow> x = Some (Post p)"
  by (auto simp: cell_post_def split: option.splits item.splits)

lemma ad_between_simps [simp]:
  "ad_between ok prev (Some (Post p)) rest"
  "ad_between ok prev (Some (Ad a)) [] = False"
  "ad_between ok None (Some (Ad a)) rest = False"
  "ad_between ok (Some p) (Some (Ad a)) (y # rest) = is_some_and (ok a p) (cell_post y)"
  by (simp_all add: ad_between_def split: option.split)

lemma ad_between_other: "(\<And>a. x \<noteq> Some (Ad a)) \<Longrightarrow> ad_between ok prev x rest"
  by (auto simp: ad_between_def split: option.splits item.splits)

lemma ad_between_AdD: "ad_between ok prev (Some (Ad a)) rest \<Longrightarrow>
  \<exists>p q zs. prev = Some p \<and> rest = Some (Post q) # zs \<and> ok a p q"
  by (auto simp: ad_between_def is_some_and_iff cell_post_Some split: option.splits list.splits)

lemma ad_between_append: "rest \<noteq> [] \<Longrightarrow> ad_between ok prev x (rest @ ys) = ad_between ok prev x rest"
  by (cases rest) (auto simp: ad_between_def split: option.splits item.splits)

definition last_post :: "scored_post option \<Rightarrow> item option list \<Rightarrow> scored_post option" where
  "last_post prev xs = (if xs = [] then prev else cell_post (last xs))"

lemma last_post_Cons [simp]: "last_post prev (x # xs) = last_post (cell_post x) xs" "last_post prev [] = prev"
  by (simp_all add: last_post_def)

lemma ad_neighbours_suffix: "ad_neighbours ok prev (xs @ ys) \<Longrightarrow> ad_neighbours ok (last_post prev xs) ys"
  by (induction xs arbitrary: prev) auto

lemma ad_neighbours_prefix:
  "ad_neighbours ok prev (xs @ ys) \<Longrightarrow> xs = [] \<or> (\<forall>a. last xs \<noteq> Some (Ad a)) \<Longrightarrow> ad_neighbours ok prev xs"
proof (induction xs arbitrary: prev)
  case (Cons x xs)
  then show ?case
    by (cases "xs = []") (auto simp: ad_between_append ad_between_other)
qed simp

lemma ad_neighbours_join:
  "ad_neighbours ok prev xs \<Longrightarrow> ad_neighbours ok (last_post prev xs) ys \<Longrightarrow> ad_neighbours ok prev (xs @ ys)"
proof (induction xs arbitrary: prev)
  case (Cons x xs)
  show ?case
  proof (cases "xs = []")
    case True
    with Cons.prems have "\<And>a. x \<noteq> Some (Ad a)" by auto
    with Cons True show ?thesis by (simp add: ad_between_other)
  next
    case False
    with Cons show ?thesis by (simp add: ad_between_append)
  qed
qed simp

lemma ad_neighbours_before_ad:
  "ad_neighbours ok prev (xs @ Some (Ad a) # ys) \<Longrightarrow> \<exists>p. last_post prev xs = Some p"
  by (drule ad_neighbours_suffix) (auto dest: ad_between_AdD)

lemma ad_neighbours_posts [simp]: "ad_neighbours ok prev (map (\<lambda>p. Some (Post p)) ps)"
  by (induction ps arbitrary: prev) auto

lemma ad_neighbours_last: "ad_neighbours ok prev xs \<Longrightarrow> xs \<noteq> [] \<Longrightarrow> last xs \<noteq> Some (Ad a)"
  by (metis ad_between_simps(2) ad_neighbours.simps(2) ad_neighbours_suffix append_butlast_last_id)

lemma ad_neighbours_mono:
  "ad_neighbours ok prev xs \<Longrightarrow> (\<And>a p q. ok a p q \<Longrightarrow> ok' a p q) \<Longrightarrow> ad_neighbours ok' prev xs"
proof (induction xs arbitrary: prev)
  case (Cons x xs)
  then have "ad_between ok' prev x xs"
    by (auto simp: ad_between_def is_some_and_iff split: option.splits item.splits list.splits)
  with Cons show ?case by simp
qed simp

definition ads_well_placed :: "(ad_index_info \<Rightarrow> scored_post \<Rightarrow> scored_post \<Rightarrow> bool) \<Rightarrow> feed_item list \<Rightarrow> bool" where
  "ads_well_placed ok items = ad_neighbours ok None (map item items)"

section \<open>The tokenizer\<close>

text \<open>The context of a request as its parser classifies it; the contexts the code does not name are one value.\<close>

datatype request_context = PullToRefresh | Launch | Signup | ForegroundTruncate | Gap | OtherContext

text \<open>
  The interface of the text library: a token sequence is a list of tokens; \<open>token_hash\<close> is the
  hash of a token that the keyword index uses.
\<close>

record post_text =
  tokenize :: "string \<Rightarrow> string list"
  contains_keyword_sequence :: "string list \<Rightarrow> string list \<Rightarrow> bool"
  token_matches :: "string \<Rightarrow> string \<Rightarrow> bool"
  token_hash :: "string \<Rightarrow> u64"

end
