(* ===== verification/Frames.thy ===== *)
theory Frames
  imports Feed_Types "HOL-Library.Product_Lexorder" "HOL-Library.List_Lexorder" "HOL-Library.Char_ord"
begin

text \<open>
  The frames of a topic timeline (\<open>home-mixer/frames\<close>): the catalog of frames with their placement
  and cadence, which frames a request is eligible for, and the plan that gives each fetched frame a
  slot of the page. The feature switches that the catalog reads are the fields of \<open>frame_query\<close>; a
  \<open>BTreeMap\<close> is an association list that is iterated in the order of its keys.
\<close>

section \<open>Placement\<close>

datatype placement = Pinned (rank: nat) | EveryNItems (first_slot: nat) (interval: nat) (rotating: bool)

definition recurring_slots :: "placement \<Rightarrow> nat \<Rightarrow> nat list" where
  "recurring_slots p feed_len =
     (case p of
        Pinned _ \<Rightarrow> []
      | EveryNItems first k _ \<Rightarrow>
          if k = 0 \<or> feed_len < first then []
          else map (\<lambda>i. first + i * k) [0..<Suc ((feed_len - first) div k)])"

definition occurrences :: "placement \<Rightarrow> nat \<Rightarrow> nat" where
  "occurrences p feed_len = (case p of Pinned _ \<Rightarrow> 1 | EveryNItems _ _ _ \<Rightarrow> length (recurring_slots p feed_len))"

section \<open>The catalog\<close>

record frame_query =
  enable_jetfuel_frames :: bool
  enable_soccer :: bool
  enable_nfl :: bool
  enable_nfl_pinned :: bool
  enable_nfl_rotation :: bool
  enable_mlb_carousel :: bool
  fq_topic_ids :: "i64 list"
  is_bottom_request :: bool

datatype cadence = FirstResponseOnly | EveryResponse

definition should_emit :: "cadence \<Rightarrow> frame_query \<Rightarrow> bool" where
  "should_emit c q = (case c of FirstResponseOnly \<Rightarrow> \<not> is_bottom_request q | EveryResponse \<Rightarrow> True)"

record frame_def =
  fd_route :: string
  fd_is_dismissible :: bool
  fd_placement_id :: i64
  fd_placement :: placement
  fd_cadence :: cadence
  fd_enabled :: "frame_query \<Rightarrow> bool"

record topic_timeline =
  tt_topic_id :: i64
  tt_enabled :: "frame_query \<Rightarrow> bool"
  tt_frames :: "frame_def list"

definition SOCCER_TOPIC_ID :: i64 where "SOCCER_TOPIC_ID = 1925950498420469760"
definition NFL_TOPIC_ID :: i64 where "NFL_TOPIC_ID = 1925951614067650560"
definition MLB_TOPIC_ID :: i64 where "MLB_TOPIC_ID = 1925951672561319936"
definition BASEBALL_TOPIC_ID :: i64 where "BASEBALL_TOPIC_ID = 1925950576740675584"
definition NFL_ROTATION_INTERVAL :: nat where "NFL_ROTATION_INTERVAL = 7"
definition MAX_JETFUEL_FRAMES_PER_RESPONSE :: nat where "MAX_JETFUEL_FRAMES_PER_RESPONSE = 8"

text \<open>A frame that is pinned at rank 0 of the first response.\<close>

definition pinned_def :: "string \<Rightarrow> (frame_query \<Rightarrow> bool) \<Rightarrow> frame_def" where
  "pinned_def route enabled =
     \<lparr>fd_route = route, fd_is_dismissible = False, fd_placement_id = 0, fd_placement = Pinned 0,
      fd_cadence = FirstResponseOnly, fd_enabled = enabled\<rparr>"

definition TIMELINES :: "topic_timeline list" where
  "TIMELINES =
    [\<lparr>tt_topic_id = SOCCER_TOPIC_ID, tt_enabled = enable_soccer,
      tt_frames = [pinned_def ''/cards/soccer/timelineCarousel'' (\<lambda>_. True)]\<rparr>,
     \<lparr>tt_topic_id = NFL_TOPIC_ID, tt_enabled = enable_nfl,
      tt_frames =
        [pinned_def ''/cards/nfl/timeline/pinned'' enable_nfl_pinned,
         \<lparr>fd_route = ''/cards/nfl/timeline/card'', fd_is_dismissible = False, fd_placement_id = 0,
          fd_placement = EveryNItems NFL_ROTATION_INTERVAL NFL_ROTATION_INTERVAL True,
          fd_cadence = EveryResponse, fd_enabled = enable_nfl_rotation\<rparr>]\<rparr>,
     \<lparr>tt_topic_id = MLB_TOPIC_ID, tt_enabled = (\<lambda>_. True),
      tt_frames = [pinned_def ''/cards/mlb/timelineCarousel'' enable_mlb_carousel]\<rparr>,
     \<lparr>tt_topic_id = BASEBALL_TOPIC_ID, tt_enabled = (\<lambda>_. True),
      tt_frames = [pinned_def ''/cards/mlb/timelineCarousel'' enable_mlb_carousel]\<rparr>]"

definition eligible_in :: "topic_timeline list \<Rightarrow> frame_query \<Rightarrow> frame_def list" where
  "eligible_in timelines q =
     filter (\<lambda>f. should_emit (fd_cadence f) q \<and> fd_enabled f q)
       (concat (map tt_frames
         (filter (\<lambda>t. enable_jetfuel_frames q \<and> tt_topic_id t \<in> set (fq_topic_ids q) \<and> tt_enabled t q) timelines)))"

definition eligible :: "frame_query \<Rightarrow> frame_def list" where
  "eligible = eligible_in TIMELINES"

definition placement_in :: "topic_timeline list \<Rightarrow> string \<Rightarrow> placement option" where
  "placement_in timelines route =
     map_option fd_placement (List.find (\<lambda>f. fd_route f = route) (concat (map tt_frames timelines)))"

definition placement_for_route :: "string \<Rightarrow> placement option" where
  "placement_for_route = placement_in TIMELINES"

section \<open>The plan\<close>

text \<open>\<open>entry(key).or_default().push(x)\<close>\<close>

fun push_entry :: "string \<Rightarrow> frame \<Rightarrow> (string \<times> frame list) list \<Rightarrow> (string \<times> frame list) list" where
  "push_entry k x [] = [(k, [x])]"
| "push_entry k x ((k', xs) # m) = (if k' = k then (k, xs @ [x]) # m else (k', xs) # push_entry k x m)"

record frame_groups =
  fg_seen :: "(string \<times> 32 word) list"
  fg_pinned :: "(nat \<times> frame) list"
  fg_recurring :: "(string \<times> frame list) list"

definition group_frame :: "topic_timeline list \<Rightarrow> frame \<Rightarrow> frame_groups \<Rightarrow> frame_groups" where
  "group_frame timelines f g =
     (if (fr_route f, fr_occurrence f) \<in> set (fg_seen g) then g
      else let g1 = g\<lparr>fg_seen := (fr_route f, fr_occurrence f) # fg_seen g\<rparr>
           in case placement_in timelines (fr_route f) of
                None \<Rightarrow> g1
              | Some (Pinned r) \<Rightarrow> g1\<lparr>fg_pinned := fg_pinned g1 @ [(r, f)]\<rparr>
              | Some (EveryNItems _ _ _) \<Rightarrow> g1\<lparr>fg_recurring := push_entry (fr_route f) f (fg_recurring g1)\<rparr>)"

definition group_frames :: "topic_timeline list \<Rightarrow> frame list \<Rightarrow> frame_groups" where
  "group_frames timelines frames =
     fold (group_frame timelines) frames \<lparr>fg_seen = [], fg_pinned = [], fg_recurring = []\<rparr>"

text \<open>The slots of one recurring route: the occurrences that arrived, in order, on its first slots.\<close>

definition route_slots :: "topic_timeline list \<Rightarrow> nat \<Rightarrow> string \<times> frame list \<Rightarrow> (nat \<times> frame) list" where
  "route_slots timelines feed_len entry =
     (case placement_in timelines (fst entry) of
        None \<Rightarrow> []
      | Some p \<Rightarrow> zip (recurring_slots p feed_len) (sort_key fr_occurrence (snd entry)))"

definition plan_in :: "topic_timeline list \<Rightarrow> frame list \<Rightarrow> nat \<Rightarrow> (nat \<times> frame) list" where
  "plan_in timelines frames feed_len =
     (let g = group_frames timelines frames;
          pinned = map (\<lambda>(_, f). (0, f)) (sort_key fst (fg_pinned g));
          planned = pinned @ concat (map (route_slots timelines feed_len) (sort_key fst (fg_recurring g)))
      in take MAX_JETFUEL_FRAMES_PER_RESPONSE (sort_key (\<lambda>(slot, f). (slot, fr_occurrence f)) planned))"

definition plan :: "frame list \<Rightarrow> nat \<Rightarrow> (nat \<times> frame) list" where
  "plan = plan_in TIMELINES"

section \<open>Grouping\<close>

definition frame_id :: "frame \<Rightarrow> string \<times> 32 word" where
  "frame_id f = (fr_route f, fr_occurrence f)"

definition grouped :: "frame_groups \<Rightarrow> frame list" where
  "grouped g = map snd (fg_pinned g) @ concat (map snd (fg_recurring g))"

lemma mset_push_entry:
  "mset (concat (map snd (push_entry k x m))) = add_mset x (mset (concat (map snd m)))"
  by (induction k x m rule: push_entry.induct) auto

lemma push_entry_keys:
  "list_all (\<lambda>(k, xs). \<forall>f \<in> set xs. fr_route f = k) m \<Longrightarrow> fr_route x = k \<Longrightarrow>
   list_all (\<lambda>(k, xs). \<forall>f \<in> set xs. fr_route f = k) (push_entry k x m)"
  by (induction k x m rule: push_entry.induct) auto

lemma keys_push_entry: "fst ` set (push_entry k x m) = insert k (fst ` set m)"
  by (induction k x m rule: push_entry.induct) auto

lemma distinct_push_entry: "distinct (map fst m) \<Longrightarrow> distinct (map fst (push_entry k x m))"
  by (induction k x m rule: push_entry.induct) (auto simp: keys_push_entry)

lemma push_entry_placed:
  "list_all (\<lambda>(k, _). P k) m \<Longrightarrow> P k \<Longrightarrow> list_all (\<lambda>(k, _). P k) (push_entry k x m)"
  by (induction k x m rule: push_entry.induct) auto

text \<open>What the groups hold after the frames \<open>fs\<close> have been read.\<close>

definition groups_ok :: "topic_timeline list \<Rightarrow> frame list \<Rightarrow> frame_groups \<Rightarrow> bool" where
  "groups_ok tls fs g \<longleftrightarrow>
     set (fg_seen g) = frame_id ` set fs \<and>
     distinct (map frame_id (grouped g)) \<and> set (grouped g) \<subseteq> set fs \<and>
     (\<forall>f \<in> set fs. placement_in tls (fr_route f) \<noteq> None \<longrightarrow> frame_id f \<in> frame_id ` set (grouped g)) \<and>
     list_all (\<lambda>(r, f). placement_in tls (fr_route f) = Some (Pinned r)) (fg_pinned g) \<and>
     list_all (\<lambda>(k, xs). \<forall>f \<in> set xs. fr_route f = k) (fg_recurring g) \<and>
     list_all (\<lambda>(k, _). \<exists>a b c. placement_in tls k = Some (EveryNItems a b c)) (fg_recurring g) \<and>
     distinct (map fst (fg_recurring g))"

lemma grouped_add:
  assumes "mset (grouped g') = add_mset f (mset (grouped g))"
  shows "set (grouped g') = insert f (set (grouped g))"
    and "distinct (map frame_id (grouped g')) \<longleftrightarrow>
      frame_id f \<notin> frame_id ` set (grouped g) \<and> distinct (map frame_id (grouped g))"
proof -
  have "mset (grouped g') = mset (f # grouped g)" using assms by simp
  from mset_eq_setD [OF this] show "set (grouped g') = insert f (set (grouped g))" by simp
  have "mset (map frame_id (grouped g')) = mset (map frame_id (f # grouped g))" using assms by simp
  from mset_eq_imp_distinct_iff [OF this] show "distinct (map frame_id (grouped g')) \<longleftrightarrow>
      frame_id f \<notin> frame_id ` set (grouped g) \<and> distinct (map frame_id (grouped g))" by simp
qed

lemma group_frame_ok:
  assumes g: "groups_ok tls fs g"
  shows "groups_ok tls (fs @ [f]) (group_frame tls f g)"
proof (cases "frame_id f \<in> frame_id ` set fs")
  case True
  then have "(fr_route f, fr_occurrence f) \<in> set (fg_seen g)" using g by (simp add: groups_ok_def frame_id_def)
  moreover have "frame_id f \<in> frame_id ` set (grouped g)" if "placement_in tls (fr_route f) \<noteq> None"
  proof -
    obtain h where h: "h \<in> set fs" "frame_id f = frame_id h" using True by auto
    then have "fr_route f = fr_route h" by (simp add: frame_id_def)
    with h g that show ?thesis by (auto simp: groups_ok_def)
  qed
  ultimately show ?thesis using g True by (auto simp: group_frame_def groups_ok_def)
next
  case False
  then have new: "(fr_route f, fr_occurrence f) \<notin> set (fg_seen g)"
    "frame_id f \<notin> frame_id ` set (grouped g)" using g by (auto simp: groups_ok_def frame_id_def)
  let ?g = "group_frame tls f g"
  have seen: "set (fg_seen ?g) = insert (frame_id f) (set (fg_seen g))"
    using new(1) by (auto simp: group_frame_def Let_def frame_id_def split: option.split placement.split)
  show ?thesis
  proof (cases "placement_in tls (fr_route f)")
    case None
    then have "grouped ?g = grouped g" "fg_pinned ?g = fg_pinned g" "fg_recurring ?g = fg_recurring g"
      using new(1) by (simp_all add: group_frame_def Let_def grouped_def)
    then show ?thesis using g seen None by (auto simp: groups_ok_def)
  next
    case (Some p)
    have add: "mset (grouped ?g) = add_mset f (mset (grouped g))"
      using new(1) Some by (cases p) (simp_all add: group_frame_def Let_def grouped_def mset_push_entry)
    have "list_all (\<lambda>(r, f). placement_in tls (fr_route f) = Some (Pinned r)) (fg_pinned ?g) \<and>
      list_all (\<lambda>(k, xs). \<forall>f \<in> set xs. fr_route f = k) (fg_recurring ?g) \<and>
      list_all (\<lambda>(k, _). \<exists>a b c. placement_in tls k = Some (EveryNItems a b c)) (fg_recurring ?g) \<and>
      distinct (map fst (fg_recurring ?g))"
      using g new(1) Some unfolding groups_ok_def
      by (cases p) (simp_all add: group_frame_def Let_def push_entry_keys distinct_push_entry push_entry_placed)
    then show ?thesis using g seen new(2) grouped_add [OF add] unfolding groups_ok_def by auto
  qed
qed

lemma group_frames_ok: "groups_ok tls frames (group_frames tls frames)"
proof -
  have "groups_ok tls (pre @ fs) (fold (group_frame tls) fs g)" if "groups_ok tls pre g" for pre fs g
    using that
  proof (induction fs arbitrary: pre g)
    case (Cons f fs)
    from Cons.IH [OF group_frame_ok [OF Cons.prems, of f]] show ?case by simp
  qed simp
  from this [of "[]" "\<lparr>fg_seen = [], fg_pinned = [], fg_recurring = []\<rparr>" frames] show ?thesis
    by (simp add: group_frames_def groups_ok_def grouped_def)
qed

section \<open>What is planned\<close>

lemma recurring_slots_bounds:
  "sorted_wrt (<) (recurring_slots p n)" "s \<in> set (recurring_slots p n) \<Longrightarrow> s \<le> n"
proof -
  show "sorted_wrt (<) (recurring_slots p n)"
    by (auto simp: recurring_slots_def sorted_wrt_map sorted_wrt_iff_nth_less simp del: upt_Suc split: placement.split)
  show "s \<le> n" if s: "s \<in> set (recurring_slots p n)"
  proof -
    obtain a k c i where p: "p = EveryNItems a k c" "a \<le> n" "s = a + i * k" "i \<le> (n - a) div k"
      using s by (auto simp: recurring_slots_def less_Suc_eq_le split: placement.splits if_splits)
    have "i * k \<le> (n - a) div k * k" using p(4) by (rule mult_le_mono1)
    also have "\<dots> \<le> n - a" by (rule div_times_less_eq_dividend)
    finally show ?thesis using p(2,3) by linarith
  qed
qed

lemma concat_map_key:
  "distinct (map fst es) \<Longrightarrow> (\<And>k xs. (k, xs) \<in> set es \<Longrightarrow> k \<noteq> r \<Longrightarrow> h (k, xs) = []) \<Longrightarrow>
   concat (map h es) = (case map_of es r of None \<Rightarrow> [] | Some xs \<Rightarrow> h (r, xs))"
proof (induction es)
  case (Cons e es)
  obtain k xs where e: "e = (k, xs)" by (cases e)
  have IH: "concat (map h es) = (case map_of es r of None \<Rightarrow> [] | Some xs \<Rightarrow> h (r, xs))"
    by (rule Cons.IH) (use Cons.prems in auto)
  show ?case
  proof (cases "k = r")
    case True
    then have "map_of es r = None" using Cons.prems(1) e by (auto simp: map_of_eq_None_iff)
    then show ?thesis using IH True e by simp
  next
    case False
    then have "h e = []" using Cons.prems(2) e by auto
    then show ?thesis using IH False e by simp
  qed
qed simp

text \<open>The frames with their slots, before the page takes the first eight.\<close>

definition all_planned :: "topic_timeline list \<Rightarrow> frame list \<Rightarrow> nat \<Rightarrow> (nat \<times> frame) list" where
  "all_planned tls frames n =
     map (\<lambda>(_, f). (0, f)) (sort_key fst (fg_pinned (group_frames tls frames))) @
     concat (map (route_slots tls n) (sort_key fst (fg_recurring (group_frames tls frames))))"

lemma plan_in_all: "plan_in tls frames n =
  take MAX_JETFUEL_FRAMES_PER_RESPONSE (sort_key (\<lambda>(slot, f). (slot, fr_occurrence f)) (all_planned tls frames n))"
  by (simp add: plan_in_def all_planned_def Let_def)

definition slot_allowed :: "topic_timeline list \<Rightarrow> nat \<Rightarrow> nat \<times> frame \<Rightarrow> bool" where
  "slot_allowed tls n sf =
     (case placement_in tls (fr_route (snd sf)) of
        None \<Rightarrow> False
      | Some (Pinned _) \<Rightarrow> fst sf = 0
      | Some p \<Rightarrow> fst sf \<in> set (recurring_slots p n))"

lemma route_slots_parts:
  assumes "placement_in tls k = Some p"
  shows "mset (map snd (route_slots tls n (k, xs))) \<subseteq># mset xs"
    and "length (route_slots tls n (k, xs)) = min (length (recurring_slots p n)) (length xs)"
    and "distinct (map fst (route_slots tls n (k, xs)))"
    and "sf \<in> set (route_slots tls n (k, xs)) \<Longrightarrow> fst sf \<in> set (recurring_slots p n) \<and> snd sf \<in> set xs"
proof -
  let ?s = "recurring_slots p n" and ?f = "sort_key fr_occurrence xs"
  have eq: "route_slots tls n (k, xs) = zip ?s ?f" using assms by (simp add: route_slots_def)
  have "mset (map snd (zip ?s ?f)) = mset (take (min (length ?s) (length ?f)) ?f)" by (simp add: map_snd_zip_take)
  also have "\<dots> \<subseteq># mset ?f" by (metis append_take_drop_id mset_append mset_subset_eq_add_left)
  finally show "mset (map snd (route_slots tls n (k, xs))) \<subseteq># mset xs" using eq by simp
  show "length (route_slots tls n (k, xs)) = min (length ?s) (length xs)" using eq by simp
  have "distinct ?s" using recurring_slots_bounds(1) [of p n] by (simp add: strict_sorted_iff)
  then show "distinct (map fst (route_slots tls n (k, xs)))" using eq by (simp add: map_fst_zip_take)
  show "fst sf \<in> set ?s \<and> snd sf \<in> set xs" if "sf \<in> set (route_slots tls n (k, xs))"
  proof -
    have "(fst sf, snd sf) \<in> set (zip ?s ?f)" using that eq by simp
    from set_zip_leftD [OF this] set_zip_rightD [OF this] show ?thesis by simp
  qed
qed

lemma concat_mset_mono:
  "(\<And>e. e \<in> set es \<Longrightarrow> mset (map snd (h e)) \<subseteq># mset (snd e)) \<Longrightarrow>
   mset (map snd (concat (map h es))) \<subseteq># mset (concat (map snd es))"
  by (induction es) (auto intro!: subset_mset.add_mono)

lemma all_planned_parts:
  fixes frames :: "frame list" and tls :: "topic_timeline list"
  defines "g \<equiv> group_frames tls frames"
  shows "mset (map snd (all_planned tls frames n)) \<subseteq># mset (grouped g)"
    and "list_all (slot_allowed tls n) (all_planned tls frames n)"
proof -
  have g: "groups_ok tls frames g" unfolding g_def by (rule group_frames_ok)
  let ?es = "sort_key fst (fg_recurring g)"
  have es: "mset ?es = mset (fg_recurring g)" "set ?es = set (fg_recurring g)" by simp_all
  have pl: "\<exists>a b c. placement_in tls (fst e) = Some (EveryNItems a b c)" if "e \<in> set ?es" for e
    using that g by (auto simp: groups_ok_def list_all_iff)
  have "mset (map snd (concat (map (route_slots tls n) ?es))) \<subseteq># mset (concat (map snd ?es))"
  proof (rule concat_mset_mono)
    fix e assume "e \<in> set ?es"
    then obtain p where "placement_in tls (fst e) = Some p" using pl by blast
    from route_slots_parts(1) [OF this, of n "snd e"]
    show "mset (map snd (route_slots tls n e)) \<subseteq># mset (snd e)" by simp
  qed
  also have "mset (concat (map snd ?es)) = mset (concat (map snd (fg_recurring g)))"
    by (simp add: mset_concat sum_mset_sum_list [symmetric] comp_def)
  finally show "mset (map snd (all_planned tls frames n)) \<subseteq># mset (grouped g)"
    by (simp add: all_planned_def grouped_def g_def [symmetric] split_def comp_def)
  have "slot_allowed tls n sf" if sf: "sf \<in> set (route_slots tls n e)" "e \<in> set ?es" for sf e
  proof -
    obtain a b c where p: "placement_in tls (fst e) = Some (EveryNItems a b c)" using pl sf(2) by blast
    have s: "fst sf \<in> set (recurring_slots (EveryNItems a b c) n)" "snd sf \<in> set (snd e)"
      using route_slots_parts(4) [OF p, of sf n "snd e"] sf(1) by simp_all
    moreover have "fr_route (snd sf) = fst e"
      using g s(2) sf(2) unfolding es(2) by (auto simp: groups_ok_def list_all_iff)
    ultimately show ?thesis using p by (simp add: slot_allowed_def)
  qed
  moreover have "slot_allowed tls n (0, f)" if "(r, f) \<in> set (fg_pinned g)" for r f
  proof -
    have "placement_in tls (fr_route f) = Some (Pinned r)" using g that by (auto simp: groups_ok_def list_all_iff)
    then show ?thesis by (simp add: slot_allowed_def)
  qed
  ultimately show "list_all (slot_allowed tls n) (all_planned tls frames n)"
    by (auto simp: all_planned_def g_def [symmetric] list_all_iff)
qed

section \<open>How many frames of a route are planned\<close>

definition of_route :: "string \<Rightarrow> nat \<times> frame \<Rightarrow> bool" where
  "of_route r sf \<longleftrightarrow> fr_route (snd sf) = r"

text \<open>The number of different occurrences of a route among the frames.\<close>

definition arrived :: "frame list \<Rightarrow> string \<Rightarrow> nat" where
  "arrived frames r = card (frame_id ` {f \<in> set frames. fr_route f = r})"

lemma grouped_of_route:
  assumes "groups_ok tls frames g" and "placement_in tls r \<noteq> None"
  shows "length (filter (\<lambda>f. fr_route f = r) (grouped g)) = arrived frames r"
proof -
  let ?xs = "filter (\<lambda>f. fr_route f = r) (grouped g)"
  have "distinct (map frame_id ?xs)" using assms(1) by (simp add: groups_ok_def distinct_map_filter)
  then have "length ?xs = card (frame_id ` set ?xs)" by (metis distinct_card length_map set_map)
  also have "frame_id ` set ?xs = frame_id ` {f \<in> set frames. fr_route f = r}"
  proof
    show "frame_id ` set ?xs \<subseteq> frame_id ` {f \<in> set frames. fr_route f = r}"
      using assms(1) by (auto simp: groups_ok_def)
    show "frame_id ` {f \<in> set frames. fr_route f = r} \<subseteq> frame_id ` set ?xs"
    proof
      fix i assume "i \<in> frame_id ` {f \<in> set frames. fr_route f = r}"
      then obtain f where f: "f \<in> set frames" "fr_route f = r" "i = frame_id f" by auto
      then obtain h where "h \<in> set (grouped g)" "frame_id f = frame_id h"
        using assms unfolding groups_ok_def by blast
      with f show "i \<in> frame_id ` set ?xs" by (auto simp: frame_id_def image_iff)
    qed
  qed
  finally show ?thesis by (simp add: arrived_def)
qed

lemma filter_concat_key:
  assumes "distinct (map fst es)" and "\<And>k xs y. (k, xs) \<in> set es \<Longrightarrow> y \<in> set (h (k, xs)) \<Longrightarrow> P y \<longleftrightarrow> k = r"
  shows "filter P (concat (map h es)) = (case map_of es r of None \<Rightarrow> [] | Some xs \<Rightarrow> h (r, xs))"
proof -
  have "filter P (concat (map h es)) = concat (map (\<lambda>e. filter P (h e)) es)"
    by (simp add: filter_concat comp_def)
  also have "\<dots> = (case map_of es r of None \<Rightarrow> [] | Some xs \<Rightarrow> filter P (h (r, xs)))"
    by (rule concat_map_key [OF assms(1), where h = "\<lambda>e. filter P (h e)"]) (use assms(2) in \<open>auto simp: filter_empty_conv\<close>)
  also have "\<dots> = (case map_of es r of None \<Rightarrow> [] | Some xs \<Rightarrow> h (r, xs))"
  proof (cases "map_of es r")
    case (Some xs)
    then have "filter P (h (r, xs)) = h (r, xs)"
      using assms(2) [of r xs] map_of_SomeD by (fastforce simp: filter_id_conv)
    with Some show ?thesis by simp
  qed simp
  finally show ?thesis .
qed

lemma all_planned_count:
  fixes frames :: "frame list" and tls :: "topic_timeline list"
  shows "length (filter (of_route r) (all_planned tls frames n)) =
    (case placement_in tls r of
       None \<Rightarrow> 0
     | Some (Pinned _) \<Rightarrow> arrived frames r
     | Some p \<Rightarrow> min (length (recurring_slots p n)) (arrived frames r))"
proof -
  define g where "g = group_frames tls frames"
  define es where "es = sort_key fst (fg_recurring g)"
  have g: "groups_ok tls frames g" unfolding g_def by (rule group_frames_ok)
  have "distinct (map fst (fg_recurring g))" using g by (simp add: groups_ok_def)
  moreover have "mset (map fst es) = mset (map fst (fg_recurring g))" by (simp add: es_def)
  ultimately have des: "distinct (map fst es)" by (metis mset_eq_imp_distinct_iff)
  have ses: "set es = set (fg_recurring g)" by (simp add: es_def)
  have keys: "fr_route f = k" if "(k, xs) \<in> set es" "f \<in> set xs" for k xs f
    using g that unfolding ses by (auto simp: groups_ok_def list_all_iff)
  have pl: "\<exists>a b c. placement_in tls k = Some (EveryNItems a b c)" if "(k, xs) \<in> set es" for k xs
    using g that unfolding ses by (auto simp: groups_ok_def list_all_iff)
  let ?pin = "filter (\<lambda>f. fr_route f = r) (map snd (fg_pinned g))"
  have pinned: "length (filter (of_route r) (map (\<lambda>(_, f). (0, f)) (sort_key fst (fg_pinned g)))) = length ?pin"
  proof -
    have "mset (filter (of_route r) (map (\<lambda>(_, f). (0 :: nat, f)) (sort_key fst (fg_pinned g)))) =
        mset (filter (of_route r) (map (\<lambda>(_, f). (0 :: nat, f)) (fg_pinned g)))" by (simp add: mset_filter)
    from mset_eq_length [OF this] show ?thesis by (simp add: filter_map comp_def split_def of_route_def)
  qed
  have rec: "filter (of_route r) (concat (map (route_slots tls n) es)) =
      (case map_of es r of None \<Rightarrow> [] | Some xs \<Rightarrow> route_slots tls n (r, xs))"
  proof (rule filter_concat_key [OF des])
    fix k xs y assume e: "(k, xs) \<in> set es" "y \<in> set (route_slots tls n (k, xs))"
    then obtain p where "placement_in tls k = Some p" using pl by blast
    from route_slots_parts(4) [OF this e(2)] show "of_route r y \<longleftrightarrow> k = r" using keys [OF e(1)] by (auto simp: of_route_def)
  qed
  have all: "mset (concat (map snd (fg_recurring g))) = mset (concat (map snd es))"
    by (simp add: es_def mset_concat sum_mset_sum_list [symmetric] comp_def)
  have "filter (\<lambda>f. fr_route f = r) (concat (map snd es)) = (case map_of es r of None \<Rightarrow> [] | Some xs \<Rightarrow> snd (r, xs))"
    by (rule filter_concat_key [OF des]) (use keys in auto)
  then have grp: "length (filter (\<lambda>f. fr_route f = r) (grouped g)) =
      length ?pin + length (case map_of es r of None \<Rightarrow> [] | Some xs \<Rightarrow> xs)"
    using mset_eq_length [OF arg_cong [OF all, of "filter_mset (\<lambda>f. fr_route f = r)", unfolded mset_filter [symmetric]]]
    by (simp add: grouped_def cong: option.case_cong)
  have total: "length (filter (of_route r) (all_planned tls frames n)) =
      length ?pin + length (case map_of es r of None \<Rightarrow> [] | Some xs \<Rightarrow> route_slots tls n (r, xs))"
    using pinned rec by (simp add: all_planned_def g_def [symmetric] es_def [symmetric])
  have none: "map_of es r = None" if "\<nexists>a b c. placement_in tls r = Some (EveryNItems a b c)"
    using pl that by (meson map_of_SomeD not_None_eq)
  have pin0: "?pin = []" if "\<nexists>k. placement_in tls r = Some (Pinned k)"
    using g that by (fastforce simp: filter_empty_conv groups_ok_def list_all_iff)
  show ?thesis
  proof (cases "placement_in tls r")
    case None
    then show ?thesis using total none pin0 by simp
  next
    case (Some p)
    have cnt: "arrived frames r = length ?pin + length (case map_of es r of None \<Rightarrow> [] | Some xs \<Rightarrow> xs)"
      using grouped_of_route [OF g, of r] Some grp by simp
    show ?thesis
    proof (cases p)
      case (Pinned k)
      then show ?thesis using Some total cnt none by simp
    next
      case (EveryNItems a b c)
      then show ?thesis using Some total cnt pin0 route_slots_parts(2) [OF Some]
        by (simp split: option.split)
    qed
  qed
qed

section \<open>Slots of recurring frames\<close>

definition recurs :: "topic_timeline list \<Rightarrow> nat \<times> frame \<Rightarrow> bool" where
  "recurs tls sf = (case placement_in tls (fr_route (snd sf)) of Some (EveryNItems _ _ _) \<Rightarrow> True | _ \<Rightarrow> False)"

lemma distinct_concat_keys:
  "distinct (map fst es) \<Longrightarrow>
   (\<And>k xs. (k, xs) \<in> set es \<Longrightarrow> distinct (map f (h (k, xs))) \<and> (\<forall>y \<in> set (h (k, xs)). snd (f y) = k)) \<Longrightarrow>
   distinct (map f (concat (map h es)))"
proof (induction es)
  case (Cons e es)
  obtain k xs where e: "e = (k, xs)" by (cases e)
  have other: "k \<noteq> snd (f y)" if "y \<in> set (h e')" "e' \<in> set es" for y e'
  proof -
    have "(fst e', snd e') \<in> set (e # es)" using that(2) by simp
    from Cons.prems(2) [OF this] have "snd (f y) = fst e'" using that(1) by simp
    moreover have "fst e' \<noteq> k" using Cons.prems(1) e that(2) by auto
    ultimately show ?thesis by simp
  qed
  have own: "\<forall>y \<in> set (h e). snd (f y) = k" using Cons.prems(2) [of k xs] e by simp
  have "f y \<noteq> f y'" if "y \<in> set (h e)" "y' \<in> set (h e')" "e' \<in> set es" for y y' e'
    using own other [OF that(2,3)] that(1) by metis
  then have "f ` set (h e) \<inter> f ` (\<Union>x\<in>set es. set (h x)) = {}" by blast
  moreover have "distinct (map f (concat (map h es)))" by (rule Cons.IH) (use Cons.prems in auto)
  ultimately show ?case using Cons.prems(2) [of k xs] e by simp
qed simp

lemma all_planned_slots:
  "distinct (map (\<lambda>(s, f). (s, fr_route f)) (filter (recurs tls) (all_planned tls frames n)))"
proof -
  define g where "g = group_frames tls frames"
  define es where "es = sort_key fst (fg_recurring g)"
  have g: "groups_ok tls frames g" unfolding g_def by (rule group_frames_ok)
  have "distinct (map fst (fg_recurring g))" using g by (simp add: groups_ok_def)
  moreover have "mset (map fst es) = mset (map fst (fg_recurring g))" by (simp add: es_def)
  ultimately have des: "distinct (map fst es)" by (metis mset_eq_imp_distinct_iff)
  have ses: "set es = set (fg_recurring g)" by (simp add: es_def)
  have "distinct (map (\<lambda>(s, f). (s, fr_route f)) (concat (map (route_slots tls n) es)))"
  proof (rule distinct_concat_keys [OF des], intro conjI ballI)
    fix k xs assume e: "(k, xs) \<in> set es"
    then obtain p where p: "placement_in tls k = Some p"
      using g unfolding ses groups_ok_def list_all_iff by blast
    have routes: "fr_route (snd y) = k" if "y \<in> set (route_slots tls n (k, xs))" for y
      using route_slots_parts(4) [OF p that] g e unfolding ses by (auto simp: groups_ok_def list_all_iff)
    then show "snd ((\<lambda>(s, f). (s, fr_route f)) y) = k" if "y \<in> set (route_slots tls n (k, xs))" for y
      using that by (simp add: split_def)
    show "distinct (map (\<lambda>(s, f). (s, fr_route f)) (route_slots tls n (k, xs)))"
      using route_slots_parts(3) [OF p, of n xs] by (auto simp: distinct_map inj_on_def split_def)
  qed
  moreover have "filter (recurs tls) (map (\<lambda>(_, f). (0, f)) (sort_key fst (fg_pinned g))) = []"
    using g by (auto simp: filter_empty_conv recurs_def groups_ok_def list_all_iff)
  ultimately show ?thesis
    by (simp add: all_planned_def g_def [symmetric] es_def [symmetric] distinct_map_filter)
qed

text \<open>The plan is sorted by slot, and each of its frames is one of the frames before the cut.\<close>

lemma plan_sorted: "sorted (map fst (plan frames n))"
proof -
  have "sorted_wrt (\<lambda>x y. fst x \<le> fst y) (sort_key (\<lambda>(slot, f). (slot, fr_occurrence f)) (all_planned TIMELINES frames n))"
    using sorted_sort_key [of "\<lambda>(slot, f). (slot, fr_occurrence f)" "all_planned TIMELINES frames n"] unfolding sorted_map
    by (rule sorted_wrt_mono_rel [rotated]) (auto simp: split_def)
  then show ?thesis by (simp add: plan_def plan_in_all sorted_map sorted_wrt_take)
qed

lemma plan_allowed:
  "sf \<in> set (plan frames n) \<Longrightarrow> snd sf \<in> set frames \<and> slot_allowed TIMELINES n sf"
proof -
  assume "sf \<in> set (plan frames n)"
  then have sf: "sf \<in> set (all_planned TIMELINES frames n)"
    by (auto simp: plan_def plan_in_all dest: in_set_takeD)
  have "snd sf \<in># mset (map snd (all_planned TIMELINES frames n))" using sf by simp
  from mset_subset_eqD [OF all_planned_parts(1) this] have "snd sf \<in> set frames"
    using group_frames_ok [of TIMELINES frames] by (auto simp: groups_ok_def)
  moreover have "slot_allowed TIMELINES n sf"
    using all_planned_parts(2) [of TIMELINES n frames] sf by (simp add: list_all_iff)
  ultimately show ?thesis ..
qed

lemma plan_slot_le: "sf \<in> set (plan frames n) \<Longrightarrow> fst sf \<le> n"
  using plan_allowed [of sf frames n] recurring_slots_bounds(2)
  by (auto simp: slot_allowed_def split: option.splits placement.splits)

lemma mset_plan: "mset (plan frames n) \<subseteq># mset (all_planned TIMELINES frames n)"
proof -
  let ?s = "sort_key (\<lambda>(slot, f). (slot, fr_occurrence f)) (all_planned TIMELINES frames n)"
  have "mset (take k ?s) + mset (drop k ?s) = mset ?s" for k by (rule mset_take_drop)
  then have "mset (take k ?s) \<subseteq># mset ?s" for k by (metis mset_subset_eq_add_left)
  then show ?thesis by (simp add: plan_def plan_in_all)
qed

lemma plan_distinct:
  "distinct (map (\<lambda>(_, f). frame_id f) (plan frames n))"
  "distinct (map (\<lambda>(s, f). (s, fr_route f)) (filter (recurs TIMELINES) (plan frames n)))"
proof -
  let ?all = "all_planned TIMELINES frames n"
  have "mset (map snd (plan frames n)) \<subseteq># mset (grouped (group_frames TIMELINES frames))"
    using image_mset_subseteq_mono [OF mset_plan, of snd] all_planned_parts(1)
    by (metis mset_map subset_mset.order_trans)
  from image_mset_subseteq_mono [OF this, of frame_id]
  have "mset (map frame_id (map snd (plan frames n))) \<subseteq># mset (map frame_id (grouped (group_frames TIMELINES frames)))"
    by (simp only: mset_map)
  moreover have "distinct (map frame_id (grouped (group_frames TIMELINES frames)))"
    using group_frames_ok [of TIMELINES frames] by (simp add: groups_ok_def)
  ultimately have "distinct (map frame_id (map snd (plan frames n)))" by (rule distinct_sub_mset)
  then show "distinct (map (\<lambda>(_, f). frame_id f) (plan frames n))" by (simp add: split_def comp_def)
  have "mset (map (\<lambda>(s, f). (s, fr_route f)) (filter (recurs TIMELINES) (plan frames n))) \<subseteq>#
      mset (map (\<lambda>(s, f). (s, fr_route f)) (filter (recurs TIMELINES) ?all))"
    unfolding mset_map mset_filter by (intro image_mset_subseteq_mono multiset_filter_mono mset_plan)
  then show "distinct (map (\<lambda>(s, f). (s, fr_route f)) (filter (recurs TIMELINES) (plan frames n)))"
    using all_planned_slots by (rule distinct_sub_mset)
qed

lemma plan_count:
  assumes "length (plan frames n) \<noteq> MAX_JETFUEL_FRAMES_PER_RESPONSE"
  shows "length (filter (of_route r) (plan frames n)) =
    (case placement_for_route r of None \<Rightarrow> 0 | Some (Pinned _) \<Rightarrow> arrived frames r
     | Some p \<Rightarrow> min (length (recurring_slots p n)) (arrived frames r))"
proof -
  let ?all = "all_planned TIMELINES frames n"
  have "plan frames n = sort_key (\<lambda>(slot, f). (slot, fr_occurrence f)) ?all"
    using assms by (simp add: plan_def plan_in_all min_def split: if_splits)
  then have "mset (filter (of_route r) (plan frames n)) = mset (filter (of_route r) ?all)" by simp
  from mset_eq_length [OF this] show ?thesis by (simp only: all_planned_count placement_for_route_def)
qed

section \<open>Properties\<close>

text \<open>
  C31. The plan of a page gives slots to given frames only, no frame twice, at most eight, in the
  order of their slots; pinned frames are at slot 0, recurring ones at slots of their own cadence,
  no two frames of a route at one slot; and unless the limit of eight is reached all occurrences of
  a pinned route that arrived are planned, and of a recurring route as many as it has slots.
\<close>

theorem plan_sound_and_complete:
  "length (plan frames n) \<le> MAX_JETFUEL_FRAMES_PER_RESPONSE \<and> sorted (map fst (plan frames n)) \<and>
   distinct (map (\<lambda>(_, f). frame_id f) (plan frames n)) \<and>
   list_all (\<lambda>(s, f). f \<in> set frames \<and> slot_allowed TIMELINES n (s, f)) (plan frames n) \<and>
   distinct (map (\<lambda>(s, f). (s, fr_route f)) (filter (recurs TIMELINES) (plan frames n))) \<and>
   (length (plan frames n) = MAX_JETFUEL_FRAMES_PER_RESPONSE \<or>
    (\<forall>r. length (filter (of_route r) (plan frames n)) =
       (case placement_for_route r of
          None \<Rightarrow> 0
        | Some (Pinned _) \<Rightarrow> arrived frames r
        | Some p \<Rightarrow> min (length (recurring_slots p n)) (arrived frames r))))"
  using plan_sorted plan_distinct plan_allowed plan_count
  by (auto simp: list_all_iff) (simp_all add: plan_def plan_in_all)

end
