(* ===== verification/Ads_Util.thy ===== *)
theory Ads_Util
  imports Feed_Types
begin

text \<open>
  What the ad blenders share (\<open>home-mixer/ads/util.rs\<close> and \<open>home-mixer/ads/drops.rs\<close>): brand
  safety tests, the rules that keep an ad away from a post, the spacing of ads, the assembly of a
  page from posts and ads, the record of dropped ads, and the interface of a blender as a locale.
  A \<open>usize\<close> is a natural number; where a sum could exceed 64 bits for extreme insert positions it
  wraps (\<open>usize_add\<close>). A panic is the value \<open>None\<close>.
\<close>

section \<open>Constants and spacing\<close>

definition usize_add :: "nat \<Rightarrow> nat \<Rightarrow> nat" where
  "usize_add a b = (a + b) mod 2 ^ 64"

definition MIN_POSTS_FOR_ADS :: nat where "MIN_POSTS_FOR_ADS = 5"
definition MIN_REQUESTED_GAP :: nat where "MIN_REQUESTED_GAP = 3"
definition RESULT_SIZE :: nat where "RESULT_SIZE = 35"

record ad_spacing =
  requested :: nat
  min_gap :: nat

definition DEFAULT_SPACING :: ad_spacing where
  "DEFAULT_SPACING = \<lparr>requested = 3, min_gap = 2\<rparr>"

definition has_avoid :: "scored_post \<Rightarrow> bool" where
  "has_avoid p \<longleftrightarrow> sp_brand_safety_verdict p = MediumRisk \<or> sp_brand_safety_verdict p = HighRisk"

definition is_high_risk :: "scored_post \<Rightarrow> bool" where
  "is_high_risk p \<longleftrightarrow> sp_brand_safety_verdict p = HighRisk"

definition is_medium_risk :: "scored_post \<Rightarrow> bool" where
  "is_medium_risk p \<longleftrightarrow> sp_brand_safety_verdict p = MediumRisk"

definition find_safe_gaps :: "scored_post list \<Rightarrow> nat list" where
  "find_safe_gaps posts =
     (let n = length posts
      in filter (\<lambda>g. \<not> has_avoid (posts ! (g - 1)) \<and> \<not> (g < n \<and> has_avoid (posts ! g))) [1..<n])"

fun iter_min :: "nat list \<Rightarrow> nat option" where
  "iter_min [] = None"
| "iter_min (x # xs) = Some (fold min xs x)"

definition windows2 :: "'a list \<Rightarrow> ('a \<times> 'a) list" where
  "windows2 xs = zip xs (tl xs)"

text \<open>The smallest positive difference of the first insert positions; the subtraction is in \<open>i32\<close>.\<close>

definition min_position_diff :: "ad_index_info list \<Rightarrow> nat option" where
  "min_position_diff ads =
     (let positions = sort_key sint (map ad_insert_position (take 4 ads))
      in iter_min (filter (\<lambda>d. 0 < d) (map (\<lambda>(a, b). i32_as_usize (b - a)) (windows2 positions))))"

definition compute_spacing :: "ad_index_info list \<Rightarrow> ad_spacing" where
  "compute_spacing ads =
     (if length ads < 2 then DEFAULT_SPACING
      else case min_position_diff ads of
             Some r \<Rightarrow> if MIN_REQUESTED_GAP \<le> r then \<lparr>requested = r, min_gap = (r + 1) div 2\<rparr>
                       else DEFAULT_SPACING
           | None \<Rightarrow> DEFAULT_SPACING)"

section \<open>Which posts an ad may stand next to\<close>

definition brand_safety_risk :: "ad_index_info \<Rightarrow> brand_safety_risk_level" where
  "brand_safety_risk ad = unwrap_or BsrUnknown (map_option ac_brand_safety_risk (ad_ad_adjacency_control ad))"

definition is_bsr_low_ad :: "ad_index_info \<Rightarrow> bool" where
  "is_bsr_low_ad ad \<longleftrightarrow> brand_safety_risk ad = BsrLow \<or> brand_safety_risk ad = BsrIas"

definition is_bsr_high_ad :: "ad_index_info \<Rightarrow> bool" where
  "is_bsr_high_ad ad \<longleftrightarrow> brand_safety_risk ad = BsrHigh"

datatype block_reason = LowRiskNeighbour | ExcludedHandle u64 | ExcludedKeyword string

record block =
  bl_tweet_id :: u64
  bl_reason :: block_reason

type_synonym slot_tokens = "(string list option \<times> string list option) option"

definition flatten2 :: "'a option \<Rightarrow> 'a option \<Rightarrow> 'a list" where
  "flatten2 a b = List.map_filter id [a, b]"

definition low_risk_block :: "ad_index_info \<Rightarrow> scored_post option \<Rightarrow> scored_post option \<Rightarrow> block option" where
  "low_risk_block ad p q =
     (if \<not> is_bsr_low_ad ad then None
      else map_option (\<lambda>post. \<lparr>bl_tweet_id = sp_tweet_id post, bl_reason = LowRiskNeighbour\<rparr>)
             (List.find (\<lambda>x. sp_brand_safety_verdict x = LowRisk) (flatten2 p q)))"

definition post_users :: "scored_post \<Rightarrow> u64 list" where
  "post_users p = [sp_author_id p, sp_retweeted_user_id p, sp_quoted_user_id p] @ sp_ancestor_users p"

definition handle_block :: "ad_index_info \<Rightarrow> scored_post option \<Rightarrow> scored_post option \<Rightarrow> block option" where
  "handle_block ad p q =
     (case ad_ad_adjacency_control ad of
        Some ctrl \<Rightarrow>
          if ac_handles ctrl = [] then None
          else find_map (\<lambda>post.
                 map_option (\<lambda>i. \<lparr>bl_tweet_id = sp_tweet_id post, bl_reason = ExcludedHandle i\<rparr>)
                   (List.find (\<lambda>i. i \<noteq> 0 \<and> i \<in> set (ac_handles ctrl)) (post_users post)))
               (flatten2 p q)
      | None \<Rightarrow> None)"

definition ad_keywords :: "post_text \<Rightarrow> ad_index_info \<Rightarrow> (string \<times> string list) list option" where
  "ad_keywords lib ad =
     (case ad_ad_adjacency_control ad of
        None \<Rightarrow> None
      | Some ctrl \<Rightarrow>
          let kws = filter (\<lambda>(_, tokens). tokens \<noteq> []) (map (\<lambda>kw. (kw, tokenize lib kw)) (ac_keywords ctrl))
          in if kws = [] then None else Some kws)"

definition tokenize_ad_keywords :: "post_text \<Rightarrow> ad_index_info \<Rightarrow> string list list option" where
  "tokenize_ad_keywords lib ad = map_option (map snd) (ad_keywords lib ad)"

definition tokenize_tweet_text :: "post_text \<Rightarrow> scored_post \<Rightarrow> string list" where
  "tokenize_tweet_text lib p = tokenize lib (sp_tweet_text p)"

definition get_or_insert_tokens ::
  "post_text \<Rightarrow> scored_post option \<Rightarrow> scored_post option \<Rightarrow> slot_tokens \<Rightarrow> string list option \<times> string list option" where
  "get_or_insert_tokens lib p q cache =
     (case cache of
        Some tokens \<Rightarrow> tokens
      | None \<Rightarrow> (map_option (tokenize_tweet_text lib) p, map_option (tokenize_tweet_text lib) q))"

definition keyword_hit ::
  "post_text \<Rightarrow> (string \<times> string list) list \<Rightarrow> scored_post option \<times> string list option \<Rightarrow> block option" where
  "keyword_hit lib kws pt =
     (case pt of
        (Some post, Some tokens) \<Rightarrow>
          map_option (\<lambda>(kw, _). \<lparr>bl_tweet_id = sp_tweet_id post, bl_reason = ExcludedKeyword kw\<rparr>)
            (List.find (\<lambda>(_, kw). contains_keyword_sequence lib tokens kw) kws)
      | _ \<Rightarrow> None)"

definition keyword_block :: "post_text \<Rightarrow> ad_index_info \<Rightarrow> scored_post option \<Rightarrow> scored_post option \<Rightarrow>
    slot_tokens \<Rightarrow> block option \<times> slot_tokens" where
  "keyword_block lib ad p q cache =
     (case ad_keywords lib ad of
        None \<Rightarrow> (None, cache)
      | Some kws \<Rightarrow>
          let tokens = get_or_insert_tokens lib p q cache
          in (find_map (keyword_hit lib kws) [(p, fst tokens), (q, snd tokens)], Some tokens))"

definition should_drop_bsr_low :: "ad_index_info \<Rightarrow> scored_post option \<Rightarrow> scored_post option \<Rightarrow> bool" where
  "should_drop_bsr_low ad p q \<longleftrightarrow> low_risk_block ad p q \<noteq> None"

definition should_drop_handle :: "ad_index_info \<Rightarrow> scored_post option \<Rightarrow> scored_post option \<Rightarrow> bool" where
  "should_drop_handle ad p q \<longleftrightarrow> handle_block ad p q \<noteq> None"

definition should_drop_keyword ::
  "post_text \<Rightarrow> ad_index_info \<Rightarrow> scored_post option \<Rightarrow> scored_post option \<Rightarrow> bool" where
  "should_drop_keyword lib ad p q \<longleftrightarrow> fst (keyword_block lib ad p q None) \<noteq> None"

definition tokens_match_any_keyword :: "post_text \<Rightarrow> string list \<Rightarrow> string list list \<Rightarrow> bool" where
  "tokens_match_any_keyword lib tokens kws =
     (if tokens = [] then False else list_ex (contains_keyword_sequence lib tokens) kws)"

section \<open>The record of dropped ads\<close>

datatype ad_drop_reason = TooFewPosts | SpacingCap | NoEligibleNeighbours | DropLowRiskNeighbour
  | DropExcludedHandle | DropExcludedKeyword | Truncated | ServedNeighbour

record dropped_ad =
  da_tweet_id :: u64
  da_impression_id :: u64
  da_drop_reason :: ad_drop_reason
  da_ad_info :: "ad_index_info option"
  da_blocking_tweet_id :: u64
  da_matched_user_id :: u64
  da_matched_keyword :: string

definition logged_ad_info :: "ad_index_info \<Rightarrow> ad_index_info" where
  "logged_ad_info ad = default_ad\<lparr>ad_account_id := ad_account_id ad, ad_line_item_id := ad_line_item_id ad,
     ad_campaign_id := ad_campaign_id ad, ad_line_item_objective := ad_line_item_objective ad,
     ad_insert_position := ad_insert_position ad,
     ad_ad_adjacency_control := map_option (\<lambda>c.
       \<lparr>ac_brand_safety_risk = ac_brand_safety_risk c, ac_handles = [], ac_keywords = []\<rparr>)
       (ad_ad_adjacency_control ad)\<rparr>"

definition drop_ad :: "ad_index_info \<Rightarrow> ad_drop_reason \<Rightarrow> dropped_ad" where
  "drop_ad ad reason = \<lparr>da_tweet_id = ad_post_id ad, da_impression_id = ad_impression_id ad,
     da_drop_reason = reason,
     da_ad_info = Some ((logged_ad_info ad)\<lparr>ad_funnel_traced := ad_funnel_traced ad\<rparr>),
     da_blocking_tweet_id = 0, da_matched_user_id = 0, da_matched_keyword = []\<rparr>"

definition blocked_ad :: "ad_index_info \<Rightarrow> ad_drop_reason \<Rightarrow> u64 \<Rightarrow> dropped_ad" where
  "blocked_ad ad reason tweet = (drop_ad ad reason)\<lparr>da_blocking_tweet_id := tweet\<rparr>"

definition adjacency_drop :: "ad_index_info \<Rightarrow> block \<Rightarrow> dropped_ad" where
  "adjacency_drop ad b =
     (case bl_reason b of
        LowRiskNeighbour \<Rightarrow> blocked_ad ad DropLowRiskNeighbour (bl_tweet_id b)
      | ExcludedHandle u \<Rightarrow>
          (blocked_ad ad DropExcludedHandle (bl_tweet_id b))\<lparr>da_matched_user_id := u\<rparr>
      | ExcludedKeyword kw \<Rightarrow>
          (blocked_ad ad DropExcludedKeyword (bl_tweet_id b))\<lparr>da_matched_keyword := kw\<rparr>)"

definition pop_trailing_ad :: "feed_item list \<Rightarrow> feed_item list \<times> feed_item list" where
  "pop_trailing_ad items =
     (if items \<noteq> [] \<and> is_ad (last items) then (butlast items, [last items]) else (items, []))"

definition truncate_recording_drops ::
  "feed_item list \<Rightarrow> nat \<Rightarrow> dropped_ad list \<Rightarrow> feed_item list \<times> dropped_ad list" where
  "truncate_recording_drops items len drops =
     (let cut = drop (min len (length items)) items;
          (items1, popped) = pop_trailing_ad (take (min len (length items)) items)
      in (items1, drops @ map (\<lambda>ad. drop_ad ad Truncated) (ads_of (cut @ popped))))"

section \<open>Assembling a page\<close>

definition posts_to_feed_items :: "scored_post list \<Rightarrow> feed_item list" where
  "posts_to_feed_items posts = renumber (map post_item posts)"

text \<open>
  The loop of \<open>interleave_and_finalize\<close> from post \<open>i\<close> on; \<open>None\<close> when \<open>ads_iter.next().unwrap()\<close>
  finds no ad.
\<close>

fun interleave :: "nat \<Rightarrow> scored_post list \<Rightarrow> ad_index_info list \<Rightarrow> nat list \<Rightarrow> feed_item list option" where
  "interleave i [] ads placements = Some []"
| "interleave i (p # posts) ads placements =
     (if placements \<noteq> [] \<and> hd placements = i
      then case ads of
             [] \<Rightarrow> None
           | a # ads' \<Rightarrow> map_option (\<lambda>is. ad_item a # post_item p # is)
                         (interleave (Suc i) posts ads' (tl placements))
      else map_option (\<lambda>is. post_item p # is) (interleave (Suc i) posts ads placements))"

definition interleave_and_finalize ::
  "scored_post list \<Rightarrow> ad_index_info list \<Rightarrow> nat list \<Rightarrow> nat \<Rightarrow> feed_item list option" where
  "interleave_and_finalize posts ads placements result_size =
     map_option (\<lambda>items. renumber (fst (pop_trailing_ad (take result_size items))))
       (interleave 0 posts ads placements)"

section \<open>What the rules say\<close>

text \<open>
  The neighbourhood rule of one ad and one post, stated on its own: a brand-sensitive ad accepts
  no low-risk post, no ad accepts a post of or about an excluded user, nor a post whose text
  contains one of the ad's keywords.
\<close>

definition keyword_allowed :: "post_text \<Rightarrow> ad_index_info \<Rightarrow> scored_post \<Rightarrow> bool" where
  "keyword_allowed lib ad p \<longleftrightarrow>
     list_all (\<lambda>kw. tokenize lib kw = [] \<or>
         \<not> contains_keyword_sequence lib (tokenize lib (sp_tweet_text p)) (tokenize lib kw))
       (case ad_ad_adjacency_control ad of None \<Rightarrow> [] | Some c \<Rightarrow> ac_keywords c)"

definition handle_allowed :: "ad_index_info \<Rightarrow> scored_post \<Rightarrow> bool" where
  "handle_allowed ad p \<longleftrightarrow>
     list_all (\<lambda>u. u = 0 \<or> u \<notin> set (case ad_ad_adjacency_control ad of None \<Rightarrow> [] | Some c \<Rightarrow> ac_handles c))
       (post_users p)"

definition low_risk_allowed :: "ad_index_info \<Rightarrow> scored_post \<Rightarrow> bool" where
  "low_risk_allowed ad p \<longleftrightarrow> \<not> (is_bsr_low_ad ad \<and> sp_brand_safety_verdict p = LowRisk)"

definition neighbour_allowed :: "post_text \<Rightarrow> ad_index_info \<Rightarrow> scored_post \<Rightarrow> bool" where
  "neighbour_allowed lib ad p \<longleftrightarrow>
     low_risk_allowed ad p \<and> handle_allowed ad p \<and> keyword_allowed lib ad p"

lemma flatten2_simps [simp]:
  "flatten2 (Some p) (Some q) = [p, q]" "flatten2 (Some p) None = [p]"
  "flatten2 None (Some q) = [q]" "flatten2 None None = []"
  by (simp_all add: flatten2_def List.map_filter_def)

lemma low_risk_block_None:
  "low_risk_block ad p q = None \<longleftrightarrow> list_all (low_risk_allowed ad) (flatten2 p q)"
  by (auto simp: low_risk_block_def low_risk_allowed_def find_None_iff_set list_all_iff)

lemma handle_block_None:
  "handle_block ad p q = None \<longleftrightarrow> list_all (handle_allowed ad) (flatten2 p q)"
  by (auto simp: handle_block_def handle_allowed_def find_None_iff_set list_all_iff split: option.split)

definition slot_cache_ok :: "post_text \<Rightarrow> scored_post option \<Rightarrow> scored_post option \<Rightarrow> slot_tokens \<Rightarrow> bool" where
  "slot_cache_ok lib p q cache \<longleftrightarrow>
     is_none_or (\<lambda>t. t = (map_option (tokenize_tweet_text lib) p, map_option (tokenize_tweet_text lib) q)) cache"

lemma slot_cache_None [simp]: "slot_cache_ok lib p q None"
  by (simp add: slot_cache_ok_def)

lemma get_or_insert_tokens_ok:
  "slot_cache_ok lib p q cache \<Longrightarrow> get_or_insert_tokens lib p q cache =
     (map_option (tokenize_tweet_text lib) p, map_option (tokenize_tweet_text lib) q)"
  by (auto simp: slot_cache_ok_def get_or_insert_tokens_def split: option.split)

lemma keyword_block_cache:
  assumes "slot_cache_ok lib p q cache"
  shows "fst (keyword_block lib ad p q cache) = fst (keyword_block lib ad p q None)"
    and "slot_cache_ok lib p q (snd (keyword_block lib ad p q cache))"
  using get_or_insert_tokens_ok [OF assms] get_or_insert_tokens_ok [OF slot_cache_None] assms
  by (auto simp: keyword_block_def Let_def slot_cache_ok_def split: option.split)

lemma keyword_hit_None:
  "ad_keywords lib ad = Some kws \<Longrightarrow>
   keyword_hit lib kws (Some p, Some (tokenize_tweet_text lib p)) = None \<longleftrightarrow> keyword_allowed lib ad p"
  by (auto simp: ad_keywords_def keyword_hit_def keyword_allowed_def find_None_iff_set list_all_iff
      tokenize_tweet_text_def Let_def image_iff split: option.splits if_splits)

lemma ad_keywords_None: "ad_keywords lib ad = None \<Longrightarrow> keyword_allowed lib ad p"
  by (auto simp: ad_keywords_def keyword_allowed_def Let_def list_all_iff filter_empty_conv
      split: option.splits if_splits)

lemma keyword_block_None:
  "slot_cache_ok lib p q cache \<Longrightarrow>
   fst (keyword_block lib ad p q cache) = None \<longleftrightarrow> list_all (keyword_allowed lib ad) (flatten2 p q)"
proof (cases "ad_keywords lib ad")
  case None
  then show ?thesis by (simp add: keyword_block_def ad_keywords_None list_all_iff)
next
  case (Some kws)
  assume "slot_cache_ok lib p q cache"
  with Some have "fst (keyword_block lib ad p q cache) = None \<longleftrightarrow>
      keyword_hit lib kws (p, map_option (tokenize_tweet_text lib) p) = None \<and>
      keyword_hit lib kws (q, map_option (tokenize_tweet_text lib) q) = None"
    by (simp add: keyword_block_def Let_def get_or_insert_tokens_ok split: option.split)
  then show ?thesis
    by (cases p; cases q) (simp_all add: keyword_hit_None [OF Some], simp_all add: keyword_hit_def)
qed

lemma blocks_None_iff:
  assumes "slot_cache_ok lib (Some p) (Some q) cache"
  shows "low_risk_block ad (Some p) (Some q) = None \<and> handle_block ad (Some p) (Some q) = None \<and>
     fst (keyword_block lib ad (Some p) (Some q) cache) = None \<longleftrightarrow>
     neighbour_allowed lib ad p \<and> neighbour_allowed lib ad q"
  using keyword_block_None [OF assms]
  by (auto simp: low_risk_block_None handle_block_None neighbour_allowed_def)

section \<open>What truncation keeps\<close>

lemma pop_trailing_ad_append: "fst (pop_trailing_ad items) @ snd (pop_trailing_ad items) = items"
  by (simp add: pop_trailing_ad_def)

lemma truncate_parts:
  "truncate_recording_drops items len drops =
     (fst (pop_trailing_ad (take len items)),
      drops @ map (\<lambda>ad. drop_ad ad Truncated) (ads_of (drop len items @ snd (pop_trailing_ad (take len items)))))"
  by (cases "len \<le> length items") (simp_all add: truncate_recording_drops_def split_def Let_def)

lemma take_split: "items = fst (pop_trailing_ad (take len items)) @ snd (pop_trailing_ad (take len items)) @ drop len items"
  using pop_trailing_ad_append [of "take len items"] by (metis append.assoc append_take_drop_id)

lemma posts_of_pop_trailing [simp]: "posts_of (fst (pop_trailing_ad items)) = posts_of items"
proof -
  have "posts_of (snd (pop_trailing_ad items)) = []"
    by (auto simp: pop_trailing_ad_def as_post_def is_ad_iff)
  then show ?thesis using pop_trailing_ad_append [of items] posts_of_simps(3) by (metis append_Nil2)
qed

lemma mset_ads_of_truncate:
  "mset (ads_of items) = mset (ads_of (fst (pop_trailing_ad (take len items)))) +
     mset (ads_of (drop len items @ snd (pop_trailing_ad (take len items))))"
proof -
  have "ads_of items = ads_of (fst (pop_trailing_ad (take len items))) @
      ads_of (snd (pop_trailing_ad (take len items))) @ ads_of (drop len items)"
    by (subst take_split [of items len]) simp
  then show ?thesis by simp
qed

lemma posts_of_take: "posts_of (take n xs) = take (length (posts_of (take n xs))) (posts_of xs)"
proof -
  have "posts_of xs = posts_of (take n xs) @ posts_of (drop n xs)"
    by (metis append_take_drop_id posts_of_simps(3))
  then show ?thesis by simp
qed

lemma pop_trailing_cells:
  assumes "ads_well_placed ok items"
  shows "ads_well_placed ok (fst (pop_trailing_ad (take n items)))"
proof -
  let ?t = "take n items"
  have all: "ad_neighbours ok None (map item ?t @ map item (drop n items))"
    using assms unfolding ads_well_placed_def by (metis append_take_drop_id map_append)
  show ?thesis
  proof (cases "?t \<noteq> [] \<and> is_ad (last ?t)")
    case True
    then obtain a where "item (last ?t) = Some (Ad a)" by (auto simp: is_ad_iff)
    then have split: "map item ?t = map item (butlast ?t) @ [Some (Ad a)]"
      using True by (metis append_butlast_last_id list.simps(8) list.simps(9) map_append)
    with all have "ad_neighbours ok None (map item (butlast ?t) @ Some (Ad a) # map item (drop n items))"
      by simp
    moreover from ad_neighbours_before_ad [OF this]
    have "map item (butlast ?t) = [] \<or> (\<forall>b. last (map item (butlast ?t)) \<noteq> Some (Ad b))"
      by (auto simp: last_post_def)
    ultimately have "ad_neighbours ok None (map item (butlast ?t))" by (rule ad_neighbours_prefix)
    with True show ?thesis by (simp add: pop_trailing_ad_def ads_well_placed_def)
  next
    case False
    then have "map item ?t = [] \<or> (\<forall>b. last (map item ?t) \<noteq> Some (Ad b))"
      by (auto simp: is_ad_iff last_map)
    from ad_neighbours_prefix [OF all this] False show ?thesis
      by (auto simp: pop_trailing_ad_def ads_well_placed_def)
  qed
qed

lemma ads_well_placed_renumber [simp]: "ads_well_placed ok (renumber items) = ads_well_placed ok items"
  by (simp add: ads_well_placed_def)

lemma ads_well_placed_posts [simp]: "ads_well_placed ok (map post_item ps)"
  by (simp add: ads_well_placed_def comp_def)

section \<open>The interface of a blender\<close>

type_synonym blender =
  "scored_post list \<Rightarrow> ad_index_info list \<Rightarrow> dropped_ad list \<Rightarrow> (feed_item list \<times> dropped_ad list) option"

text \<open>
  What the page assembly expects of every blender, for posts and ads that are \<open>admissible\<close>: it returns a
  page (no index is out of range, no \<open>unwrap\<close> fails), the page holds nothing but given posts and
  given ads, none of them twice, and each ad stands between two posts that \<open>ok\<close> accepts.
\<close>

locale ads_blender =
  fixes blend :: blender and ok :: "ad_index_info \<Rightarrow> scored_post \<Rightarrow> scored_post \<Rightarrow> bool"
    and admissible :: "scored_post list \<Rightarrow> ad_index_info list \<Rightarrow> bool"
  assumes returns: "admissible ps ads \<Longrightarrow> blend ps ads ds \<noteq> None"
    and posts_given: "admissible ps ads \<Longrightarrow> blend ps ads ds = Some (items, ds') \<Longrightarrow> mset (posts_of items) \<subseteq># mset ps"
    and ads_given: "admissible ps ads \<Longrightarrow> blend ps ads ds = Some (items, ds') \<Longrightarrow> mset (ads_of items) \<subseteq># mset ads"
    and nothing_else: "admissible ps ads \<Longrightarrow> blend ps ads ds = Some (items, ds') \<Longrightarrow>
      length items = length (posts_of items) + length (ads_of items)"
    and well_placed: "admissible ps ads \<Longrightarrow> blend ps ads ds = Some (items, ds') \<Longrightarrow> ads_well_placed ok items"
begin

lemma page_size:
  "admissible ps ads \<Longrightarrow> blend ps ads ds = Some (items, ds') \<Longrightarrow> length items \<le> length ps + length ads"
  using nothing_else posts_given ads_given by (metis add_mono size_mset size_mset_mono)

lemma ads_below_posts:
  assumes "admissible ps ads" and "blend ps ads ds = Some (items, ds')"
  shows "items = [] \<or> \<not> is_ad (last items)"
proof (rule ccontr)
  assume "\<not> ?thesis"
  then have "map item items \<noteq> []" "\<exists>a. last (map item items) = Some (Ad a)"
    by (auto simp: is_ad_iff last_map)
  then show False
    using well_placed [OF assms] ad_neighbours_last unfolding ads_well_placed_def by blast
qed

lemma impressions_given:
  "admissible ps ads \<Longrightarrow> blend ps ads ds = Some (items, ds') \<Longrightarrow>
   mset (map ad_impression_id (ads_of items)) \<subseteq># mset (map ad_impression_id ads)"
  using ads_given by (simp add: image_mset_subseteq_mono)

end

text \<open>A blender that also records a reason for every ad it does not show.\<close>

locale recording_blender = ads_blender +
  assumes drops_recorded: "admissible ps ads \<Longrightarrow> blend ps ads ds = Some (items, ds') \<Longrightarrow>
    mset (map ad_impression_id (ads_of items)) + mset (map da_impression_id ds') =
    mset (map ad_impression_id ads) + mset (map da_impression_id ds)"
begin

lemma none_unrecorded:
  assumes "admissible ps ads" and "blend ps ads [] = Some (items, ds')" and "a \<in> set ads"
    and "ad_impression_id a \<notin> ad_impression_id ` set (ads_of items)"
  shows "ad_impression_id a \<in> da_impression_id ` set ds'"
proof -
  have "ad_impression_id a \<in># mset (map ad_impression_id (ads_of items)) + mset (map da_impression_id ds')"
    using drops_recorded [OF assms(1,2)] assms(3) by simp
  with assms(4) show ?thesis by auto
qed

end

lemma da_impression_id_simps [simp]:
  "da_impression_id (drop_ad ad r) = ad_impression_id ad"
  "da_impression_id (blocked_ad ad r t) = ad_impression_id ad"
  "da_impression_id (adjacency_drop ad b) = ad_impression_id ad"
  by (simp_all add: drop_ad_def blocked_ad_def adjacency_drop_def split: block_reason.split)

lemma map_drop_ad [simp]: "map da_impression_id (map (\<lambda>ad. drop_ad ad r) ads) = map ad_impression_id ads"
  by simp

definition only_posts_and_ads :: "feed_item list \<Rightarrow> bool" where
  "only_posts_and_ads items \<longleftrightarrow> list_all (\<lambda>i. as_post i \<noteq> None \<or> as_ad i \<noteq> None) items"

lemma only_posts_and_ads_length:
  "only_posts_and_ads items \<Longrightarrow> length items = length (posts_of items) + length (ads_of items)"
proof (induction items)
  case (Cons i items)
  then show ?case
    by (auto simp: only_posts_and_ads_def as_post_def as_ad_def split: option.splits item.splits)
qed (simp add: only_posts_and_ads_def)

lemma only_posts_and_ads_simps [simp]:
  "only_posts_and_ads []" "only_posts_and_ads (post_item p # is) = only_posts_and_ads is"
  "only_posts_and_ads (ad_item a # is) = only_posts_and_ads is"
  "only_posts_and_ads (xs @ ys) \<longleftrightarrow> only_posts_and_ads xs \<and> only_posts_and_ads ys"
  "only_posts_and_ads (map post_item ps)"
  by (simp_all add: only_posts_and_ads_def list_all_iff) blast

lemma only_posts_and_ads_renumber [simp]: "only_posts_and_ads (renumber is) = only_posts_and_ads is"
proof -
  have "only_posts_and_ads xs \<longleftrightarrow> list_all (\<lambda>c. \<exists>x. c = Some (Post x) \<or> (\<exists>a. c = Some (Ad a))) (map item xs)" for xs
    by (auto simp: only_posts_and_ads_def list_all_iff as_post_Some as_ad_Some)
  then show ?thesis by simp
qed

lemma only_posts_and_ads_truncate:
  assumes "only_posts_and_ads items"
  shows "only_posts_and_ads (fst (pop_trailing_ad (take n items)))"
  using assms take_split [of items n] by (metis only_posts_and_ads_simps(4))

lemma mset_truncate_sub:
  "mset (posts_of (fst (pop_trailing_ad (take n items)))) \<subseteq># mset (posts_of items)"
  "mset (ads_of (fst (pop_trailing_ad (take n items)))) \<subseteq># mset (ads_of items)"
proof -
  have "posts_of items = posts_of (take n items) @ posts_of (drop n items)"
    by (metis append_take_drop_id posts_of_simps(3))
  then show "mset (posts_of (fst (pop_trailing_ad (take n items)))) \<subseteq># mset (posts_of items)" by simp
  show "mset (ads_of (fst (pop_trailing_ad (take n items)))) \<subseteq># mset (ads_of items)"
    using mset_ads_of_truncate [of items n] by simp
qed

lemma truncate_drops_recorded:
  "mset (map ad_impression_id (ads_of (fst (truncate_recording_drops items n ds)))) +
   mset (map da_impression_id (snd (truncate_recording_drops items n ds))) =
   mset (map ad_impression_id (ads_of items)) + mset (map da_impression_id ds)"
proof -
  have "image_mset ad_impression_id (mset (ads_of items)) =
      image_mset ad_impression_id (mset (ads_of (fst (pop_trailing_ad (take n items)))) +
        mset (ads_of (drop n items @ snd (pop_trailing_ad (take n items)))))"
    using mset_ads_of_truncate [of items n] by (rule arg_cong)
  then show ?thesis by (simp add: truncate_parts comp_def)
qed

text \<open>What a returned page satisfies; shared by all exits of the function.\<close>

definition recorded_page :: "(ad_index_info \<Rightarrow> scored_post \<Rightarrow> scored_post \<Rightarrow> bool) \<Rightarrow> scored_post list \<Rightarrow>
    ad_index_info list \<Rightarrow> dropped_ad list \<Rightarrow> feed_item list \<times> dropped_ad list \<Rightarrow> bool" where
  "recorded_page ok posts ads ds r \<longleftrightarrow>
     mset (posts_of (fst r)) \<subseteq># mset posts \<and> mset (ads_of (fst r)) \<subseteq># mset ads \<and>
     only_posts_and_ads (fst r) \<and> ads_well_placed ok (fst r) \<and>
     mset (map ad_impression_id (ads_of (fst r))) + mset (map da_impression_id (snd r)) =
       mset (map ad_impression_id ads) + mset (map da_impression_id ds)"

lemma recorded_page_no_ads:
  "mset ps \<subseteq># mset posts \<Longrightarrow>
   mset (map da_impression_id ds') = mset (map ad_impression_id ads) + mset (map da_impression_id ds) \<Longrightarrow>
   recorded_page ok posts ads ds (posts_to_feed_items ps, ds')"
  by (simp add: recorded_page_def posts_to_feed_items_def)

lemma recorded_page_truncate:
  assumes "mset (posts_of raw) \<subseteq># mset posts" "mset (ads_of raw) \<subseteq># mset ads" "only_posts_and_ads raw"
    "ads_well_placed ok raw"
    "mset (map ad_impression_id (ads_of raw)) + mset (map da_impression_id ds1) =
       mset (map ad_impression_id ads) + mset (map da_impression_id ds)"
  shows "recorded_page ok posts ads ds
    (renumber (fst (truncate_recording_drops raw n ds1)), snd (truncate_recording_drops raw n ds1))"
proof -
  have "fst (truncate_recording_drops raw n ds1) = fst (pop_trailing_ad (take n raw))"
    by (simp add: truncate_parts)
  then show ?thesis
    using assms mset_truncate_sub [of n raw] truncate_drops_recorded [of raw n ds1]
    by (auto simp: recorded_page_def only_posts_and_ads_truncate pop_trailing_cells
        intro: subset_mset.order_trans)
qed

lemma recording_blenderI:
  assumes "\<And>ps ads ds. admissible ps ads \<Longrightarrow> \<exists>r. blend ps ads ds = Some r \<and> recorded_page ok ps ads ds r"
  shows "recording_blender blend ok admissible"
proof unfold_locales
  fix ps ads ds items ds'
  assume "admissible ps ads"
  then obtain r where r: "blend ps ads ds = Some r" "recorded_page ok ps ads ds r" using assms by blast
  show "blend ps ads ds \<noteq> None" using r(1) by simp
  assume "blend ps ads ds = Some (items, ds')"
  with r have "recorded_page ok ps ads ds (items, ds')" by simp
  then show "mset (posts_of items) \<subseteq># mset ps" "mset (ads_of items) \<subseteq># mset ads"
    "length items = length (posts_of items) + length (ads_of items)" "ads_well_placed ok items"
    "mset (map ad_impression_id (ads_of items)) + mset (map da_impression_id ds') =
     mset (map ad_impression_id ads) + mset (map da_impression_id ds)"
    by (auto simp: recorded_page_def only_posts_and_ads_length)
qed

end
