(* ===== verification/Safe_Gap_Blender.thy ===== *)
theory Safe_Gap_Blender
  imports Ads_Util
begin

text \<open>
  The safe-gap blender (\<open>home-mixer/ads/safe_gap_blender.rs\<close>): the order of the posts is kept
  and the ads go, in order, to gaps between two posts that carry no brand safety risk, near the
  requested positions.
\<close>

section \<open>Definitions\<close>

definition find_best_gap :: "nat list \<Rightarrow> nat \<Rightarrow> nat \<Rightarrow> (nat \<times> nat) option" where
  "find_best_gap gaps ideal lo =
     (let min_offset = partition_point (\<lambda>g. g < lo) gaps
      in if length gaps \<le> min_offset then None
         else let candidates = drop min_offset gaps;
                  ideal_pos = partition_point (\<lambda>g. g < ideal) candidates;
                  chosen =
                    (if length candidates \<le> ideal_pos then length candidates - 1
                     else if ideal_pos = 0 then 0
                     else if ideal - candidates ! (ideal_pos - 1) \<le> candidates ! ideal_pos - ideal
                          then ideal_pos - 1 else ideal_pos)
              in Some (min_offset + chosen, candidates ! chosen))"

text \<open>The bounds of the next placement: the ideal position and the least admissible one.\<close>

definition next_target :: "ad_spacing \<Rightarrow> nat \<Rightarrow> nat list \<Rightarrow> nat \<Rightarrow> nat \<times> nat" where
  "next_target spacing first_ideal placements prev_ideal =
     (if placements = [] then (first_ideal, 1)
      else (usize_add prev_ideal (requested spacing),
            max (usize_add prev_ideal (min_gap spacing)) (usize_add (last placements) (min_gap DEFAULT_SPACING))))"

fun assign_loop :: "nat list \<Rightarrow> ad_spacing \<Rightarrow> nat \<Rightarrow> nat \<Rightarrow> nat list \<Rightarrow> nat \<Rightarrow> nat \<Rightarrow> nat list" where
  "assign_loop gaps spacing first_ideal 0 placements search_from prev_ideal = placements"
| "assign_loop gaps spacing first_ideal (Suc k) placements search_from prev_ideal =
     (if length gaps \<le> search_from then placements
      else let (ideal, lo) = next_target spacing first_ideal placements prev_ideal
           in case find_best_gap (drop search_from gaps) ideal lo of
                Some (offset, g) \<Rightarrow>
                  assign_loop gaps spacing first_ideal k (placements @ [g]) (search_from + offset + 1) ideal
              | None \<Rightarrow> placements)"

definition assign_ads_to_gaps :: "nat list \<Rightarrow> nat \<Rightarrow> ad_spacing \<Rightarrow> nat \<Rightarrow> nat list" where
  "assign_ads_to_gaps safe_gaps num_ads spacing first_ideal =
     assign_loop safe_gaps spacing first_ideal num_ads [] 0 first_ideal"

definition safe_gap_blend_impl ::
  "scored_post list \<Rightarrow> ad_index_info list \<Rightarrow> nat \<Rightarrow> nat \<Rightarrow> feed_item list option" where
  "safe_gap_blend_impl posts ads min_posts result_size =
     (if ads = [] \<or> length posts < min_posts then Some (posts_to_feed_items posts)
      else let safe_gaps = find_safe_gaps posts;
               spacing = compute_spacing ads;
               first_ideal = i32_max0 (ad_insert_position (hd ads));
               placements = assign_ads_to_gaps safe_gaps (length ads) spacing first_ideal
           in interleave_and_finalize posts ads placements result_size)"

text \<open>\<open>SafeGapAdsBlender::blend\<close>: the default \<open>blend_inner_with_drops\<close> records no drops.\<close>

definition safe_gap_blend :: blender where
  "safe_gap_blend posts ads drops =
     map_option (\<lambda>items. (items, drops)) (safe_gap_blend_impl posts ads MIN_POSTS_FOR_ADS RESULT_SIZE)"

section \<open>Placements\<close>

lemma find_best_gap_Some:
  assumes "find_best_gap gaps ideal lo = Some (off, g)"
  shows "off < length gaps \<and> g = gaps ! off \<and> partition_point (\<lambda>x. x < lo) gaps \<le> off"
proof -
  let ?m = "partition_point (\<lambda>x. x < lo) gaps" and ?c = "drop (partition_point (\<lambda>x. x < lo) gaps) gaps"
  let ?i = "partition_point (\<lambda>x. x < ideal) ?c"
  define chosen where "chosen = (if length ?c \<le> ?i then length ?c - 1 else if ?i = 0 then 0
      else if ideal - ?c ! (?i - 1) \<le> ?c ! ?i - ideal then ?i - 1 else ?i)"
  have m: "?m < length gaps" and r: "off = ?m + chosen" "g = ?c ! chosen"
    using assms by (auto simp: find_best_gap_def Let_def chosen_def split: if_splits)
  have "chosen < length ?c" using m by (auto simp: chosen_def)
  then show ?thesis using r by (simp add: less_diff_conv add.commute)
qed

lemma find_best_gap_ge:
  assumes "find_best_gap gaps ideal lo = Some (off, g)" and "sorted_wrt (<) gaps"
  shows "lo \<le> g"
proof -
  let ?m = "partition_point (\<lambda>x. x < lo) gaps"
  note s = find_best_gap_Some [OF assms(1)]
  then have "\<not> gaps ! ?m < lo" using partition_point_nth [of "\<lambda>x. x < lo" gaps] by simp
  moreover have "gaps ! ?m \<le> gaps ! off"
    using s assms(2) by (metis le_less order.strict_implies_order sorted_wrt_nth_less)
  ultimately show ?thesis using s by simp
qed

text \<open>
  The loop invariant: the placements are gaps, taken from the gaps before \<open>search_from\<close>, in
  increasing order and, when the gaps are so small that no sum wraps, at least two apart.
\<close>

definition placed_before :: "nat list \<Rightarrow> nat \<Rightarrow> nat list \<Rightarrow> bool" where
  "placed_before gaps n placements \<longleftrightarrow>
     set placements \<subseteq> set (take n gaps) \<and> sorted_wrt (<) placements \<and>
     ((\<forall>g \<in> set gaps. g + 2 < 2 ^ 64) \<longrightarrow> sorted_wrt (\<lambda>a b. a + 2 \<le> b) placements)"

lemma nth_in_take: "i < n \<Longrightarrow> i < length xs \<Longrightarrow> xs ! i \<in> set (take n xs)"
  by (metis in_set_conv_nth length_take min_less_iff_conj nth_take)

lemma sorted_wrt_snoc:
  "transp R \<Longrightarrow> sorted_wrt R xs \<Longrightarrow> (xs \<noteq> [] \<Longrightarrow> R (last xs) g) \<Longrightarrow> sorted_wrt R (xs @ [g])"
proof (induction xs rule: rev_induct)
  case (snoc x xs)
  have "R y g" if "y \<in> set xs" for y
    using that snoc.prems by (auto simp: sorted_wrt_append dest: transpD)
  with snoc.prems show ?case by (auto simp: sorted_wrt_append)
qed simp

lemma take_less_nth:
  "sorted_wrt (<) xs \<Longrightarrow> y \<in> set (take n xs) \<Longrightarrow> n \<le> i \<Longrightarrow> i < length xs \<Longrightarrow> y < (xs ! i :: nat)"
  by (fastforce simp: in_set_conv_nth sorted_wrt_nth_less)

lemma placed_before_snoc:
  assumes gaps: "sorted_wrt (<) gaps" and inv: "placed_before gaps n placements"
    and off: "n \<le> i" "i < length gaps"
    and lo: "placements \<noteq> [] \<Longrightarrow> usize_add (last placements) (min_gap DEFAULT_SPACING) \<le> gaps ! i"
  shows "placed_before gaps (Suc i) (placements @ [gaps ! i])"
proof -
  have sub: "set placements \<subseteq> set (take (Suc i) gaps)"
    using inv off(1) set_take_subset_set_take [of n "Suc i" gaps] by (auto simp: placed_before_def)
  have mem: "last placements \<in> set (take n gaps)" if "placements \<noteq> []"
    using inv last_in_set [OF that] unfolding placed_before_def by blast
  have "sorted_wrt (<) (placements @ [gaps ! i])"
    using inv take_less_nth [OF gaps mem off] by (intro sorted_wrt_snoc) (auto simp: placed_before_def)
  moreover have "sorted_wrt (\<lambda>a b. a + 2 \<le> b) (placements @ [gaps ! i])"
    if bound: "\<forall>g \<in> set gaps. g + 2 < 2 ^ 64"
  proof (rule sorted_wrt_snoc)
    show "sorted_wrt (\<lambda>a b. a + 2 \<le> b) placements" using inv bound unfolding placed_before_def by blast
    show "last placements + 2 \<le> gaps ! i" if "placements \<noteq> []"
      using lo [OF that] bound in_set_takeD [OF mem [OF that]]
      by (auto simp: usize_add_def DEFAULT_SPACING_def)
  qed (simp add: transp_def)
  moreover have "gaps ! i \<in> set (take (Suc i) gaps)" using off(2) by (simp add: nth_in_take)
  ultimately show ?thesis using sub unfolding placed_before_def by simp
qed

lemma assign_loop_placed:
  assumes "sorted_wrt (<) gaps" and "placed_before gaps n placements"
  shows "\<exists>m. placed_before gaps m (assign_loop gaps sp fi k placements n pid)"
  using assms(2)
proof (induction k arbitrary: placements n pid)
  case (Suc k)
  let ?t = "next_target sp fi placements pid"
  show ?case
  proof (cases "length gaps \<le> n \<or> find_best_gap (drop n gaps) (fst ?t) (snd ?t) = None")
    case True
    with Suc.prems show ?thesis by (auto simp: split_def Let_def)
  next
    case False
    then obtain off g where r: "find_best_gap (drop n gaps) (fst ?t) (snd ?t) = Some (off, g)" by auto
    have sd: "sorted_wrt (<) (drop n gaps)" using assms(1) by (rule sorted_wrt_drop)
    note f = find_best_gap_Some [OF r] and ge = find_best_gap_ge [OF r sd]
    have g: "g = gaps ! (n + off)" "n + off < length gaps" using f by auto
    have "placed_before gaps (Suc (n + off)) (placements @ [gaps ! (n + off)])"
      using ge g by (intro placed_before_snoc [OF assms(1) Suc.prems]) (auto simp: next_target_def)
    from Suc.IH [OF this] r g False show ?thesis by (auto simp: split_def Let_def)
  qed
qed auto

lemma length_assign_loop:
  "length (assign_loop gaps sp fi k placements n pid) \<le> length placements + k"
proof (induction k arbitrary: placements n pid)
  case (Suc k)
  then show ?case
    by (auto simp: split_def Let_def le_SucI split: option.split) (metis Suc.IH add_Suc_right length_append_singleton add_Suc)
qed simp

lemma sorted_find_safe_gaps: "sorted_wrt (<) (find_safe_gaps posts)"
  unfolding find_safe_gaps_def Let_def by (rule sorted_wrt_filter) simp

lemma find_safe_gaps_mem:
  "g \<in> set (find_safe_gaps posts) \<longleftrightarrow>
   1 \<le> g \<and> g < length posts \<and> \<not> has_avoid (posts ! (g - 1)) \<and> \<not> has_avoid (posts ! g)"
  by (auto simp: find_safe_gaps_def Let_def)

section \<open>Interleaving\<close>

lemma interleave_returns: "length pl \<le> length ads \<Longrightarrow> interleave i posts ads pl \<noteq> None"
proof (induction i posts ads pl rule: interleave.induct)
  case (2 i p posts ads pl)
  show ?case
  proof (cases "pl \<noteq> [] \<and> hd pl = i")
    case True
    with 2 obtain a ads' where ads: "ads = a # ads'" by (cases ads; cases pl) auto
    with 2(3) True have "length (tl pl) \<le> length ads'" by (cases pl) auto
    with 2(1) [OF True ads] True ads show ?thesis by auto
  next
    case False
    with 2 show ?thesis by auto
  qed
qed simp

lemma interleave_content:
  "interleave i posts ads pl = Some items \<Longrightarrow>
   posts_of items = posts \<and> (\<exists>n. ads_of items = take n ads) \<and> only_posts_and_ads items"
proof (induction i posts ads pl arbitrary: items rule: interleave.induct)
  case (1 i ads pl)
  then show ?case by (auto intro: exI [of _ 0])
next
  case (2 i p posts ads pl)
  show ?case
  proof (cases "pl \<noteq> [] \<and> hd pl = i")
    case True
    with 2(3) obtain a ads' rest where ads: "ads = a # ads'"
      and rest: "interleave (Suc i) posts ads' (tl pl) = Some rest" "items = ad_item a # post_item p # rest"
      by (auto split: list.splits)
    from 2(1) [OF True ads rest(1)] obtain n where "posts_of rest = posts" "ads_of rest = take n ads'"
      "only_posts_and_ads rest" by blast
    with rest(2) ads show ?thesis by (auto intro: exI [of _ "Suc n"])
  next
    case False
    with 2(3) obtain rest where "interleave (Suc i) posts ads pl = Some rest" "items = post_item p # rest"
      by auto
    with 2(2) [OF False] show ?thesis by auto
  qed
qed

definition post_before :: "scored_post option \<Rightarrow> scored_post list \<Rightarrow> nat \<Rightarrow> scored_post option" where
  "post_before prev posts k = (if k = 0 then prev else Some (posts ! (k - 1)))"

lemma post_before_Cons: "post_before prev (p # posts) (Suc k) = post_before (Some p) posts k"
  by (cases k) (simp_all add: post_before_def)

lemma interleave_neighbours:
  assumes "interleave i posts ads pl = Some items" and "sorted_wrt (<) pl"
    and "\<forall>g \<in> set pl. i \<le> g \<and> g < i + length posts \<and>
           (\<exists>x. post_before prev posts (g - i) = Some x \<and> good x (posts ! (g - i)))"
  shows "ad_neighbours (\<lambda>a. good) prev (map item items)"
  using assms
proof (induction i posts ads pl arbitrary: items prev rule: interleave.induct)
  case (2 i p posts ads pl)
  have next_ok: "\<forall>g \<in> set pl'. Suc i \<le> g \<and> g < Suc i + length posts \<and>
      (\<exists>x. post_before (Some p) posts (g - Suc i) = Some x \<and> good x (posts ! (g - Suc i)))"
    if "set pl' \<subseteq> set pl" "i \<notin> set pl'" for pl'
  proof
    fix g assume g: "g \<in> set pl'"
    then have "i < g" using that 2(5) by (metis le_neq_implies_less subsetD)
    then obtain k where k: "g = i + Suc k" using less_imp_Suc_add by fastforce
    have "g < i + length (p # posts)" "\<exists>x. post_before prev (p # posts) (g - i) = Some x \<and> good x ((p # posts) ! (g - i))"
      using g that 2(5) by blast+
    then show "Suc i \<le> g \<and> g < Suc i + length posts \<and>
      (\<exists>x. post_before (Some p) posts (g - Suc i) = Some x \<and> good x (posts ! (g - Suc i)))"
      by (simp add: k post_before_Cons)
  qed
  show ?case
  proof (cases "pl \<noteq> [] \<and> hd pl = i")
    case True
    with 2(3) obtain a ads' rest where ads: "ads = a # ads'"
      and rest: "interleave (Suc i) posts ads' (tl pl) = Some rest" "items = ad_item a # post_item p # rest"
      by (auto split: list.splits)
    have tl: "sorted_wrt (<) (tl pl)" "i \<notin> set (tl pl)" "set (tl pl) \<subseteq> set pl"
      using 2(4) True by (cases pl; auto)+
    have "i \<in> set pl" using True by (metis hd_in_set)
    with 2(5) obtain x where "prev = Some x" "good x p" by (auto simp: post_before_def)
    with 2(1) [OF True ads rest(1) tl(1) next_ok [OF tl(3,2)]] rest(2) show ?thesis by simp
  next
    case False
    with 2(3) obtain rest where rest: "interleave (Suc i) posts ads pl = Some rest" "items = post_item p # rest"
      by auto
    have "i \<notin> set pl"
    proof
      assume i: "i \<in> set pl"
      then obtain a l where pl: "pl = a # l" by (cases pl) auto
      have "i \<le> a" using 2(5) pl by simp
      with i False 2(4) pl show False by auto
    qed
    with 2(2) [OF False rest(1) 2(4) next_ok] rest(2) show ?thesis by simp
  qed
qed simp

section \<open>The blender\<close>

lemma safe_gap_placements:
  "\<forall>g \<in> set (assign_ads_to_gaps (find_safe_gaps posts) k sp fi). g \<in> set (find_safe_gaps posts)"
  "sorted_wrt (<) (assign_ads_to_gaps (find_safe_gaps posts) k sp fi)"
  "length posts + 2 < 2 ^ 64 \<Longrightarrow>
     sorted_wrt (\<lambda>a b. a + 2 \<le> b) (assign_ads_to_gaps (find_safe_gaps posts) k sp fi)"
proof -
  have "placed_before (find_safe_gaps posts) 0 []" by (simp add: placed_before_def)
  then obtain m where m:
    "placed_before (find_safe_gaps posts) m (assign_ads_to_gaps (find_safe_gaps posts) k sp fi)"
    unfolding assign_ads_to_gaps_def using assign_loop_placed sorted_find_safe_gaps by blast
  then show "\<forall>g \<in> set (assign_ads_to_gaps (find_safe_gaps posts) k sp fi). g \<in> set (find_safe_gaps posts)"
    and "sorted_wrt (<) (assign_ads_to_gaps (find_safe_gaps posts) k sp fi)"
    unfolding placed_before_def by (auto dest: in_set_takeD)
  assume "length posts + 2 < 2 ^ 64"
  then have "\<forall>g \<in> set (find_safe_gaps posts). g + 2 < 2 ^ 64" by (auto simp: find_safe_gaps_mem)
  with m show "sorted_wrt (\<lambda>a b. a + 2 \<le> b) (assign_ads_to_gaps (find_safe_gaps posts) k sp fi)"
    unfolding placed_before_def by blast
qed

lemma safe_gap_blend_impl_cases:
  assumes "safe_gap_blend_impl posts ads mp n = Some items"
  shows "items = posts_to_feed_items posts \<or>
    (\<exists>raw sp fi. interleave 0 posts ads (assign_ads_to_gaps (find_safe_gaps posts) (length ads) sp fi) = Some raw \<and>
      items = renumber (fst (pop_trailing_ad (take n raw))))"
  using assms by (auto simp: safe_gap_blend_impl_def interleave_and_finalize_def Let_def split: if_splits)

lemma safe_gap_returns: "safe_gap_blend posts ads ds \<noteq> None"
proof -
  have "interleave 0 posts ads (assign_ads_to_gaps (find_safe_gaps posts) (length ads) sp fi) \<noteq> None" for sp fi
    using length_assign_loop [of "find_safe_gaps posts" sp fi "length ads" "[]" 0 fi]
    by (intro interleave_returns) (simp add: assign_ads_to_gaps_def)
  then show ?thesis
    by (auto simp: safe_gap_blend_def safe_gap_blend_impl_def interleave_and_finalize_def Let_def)
qed

lemma safe_gap_neighbours:
  assumes "interleave 0 posts ads (assign_ads_to_gaps (find_safe_gaps posts) k sp fi) = Some raw"
  shows "ads_well_placed (\<lambda>a p q. \<not> has_avoid p \<and> \<not> has_avoid q) raw"
  unfolding ads_well_placed_def
proof (rule interleave_neighbours [OF assms safe_gap_placements(2)])
  show "\<forall>g \<in> set (assign_ads_to_gaps (find_safe_gaps posts) k sp fi). 0 \<le> g \<and> g < 0 + length posts \<and>
      (\<exists>x. post_before None posts (g - 0) = Some x \<and> \<not> has_avoid x \<and> \<not> has_avoid (posts ! (g - 0)))"
    using safe_gap_placements(1) [of posts k sp fi] by (auto simp: find_safe_gaps_mem post_before_def)
qed

interpretation safe_gap: ads_blender safe_gap_blend "\<lambda>a p q. \<not> has_avoid p \<and> \<not> has_avoid q" "\<lambda>_ _. True"
proof
  fix ps ads ds items ds'
  show "safe_gap_blend ps ads ds \<noteq> None" by (rule safe_gap_returns)
  assume "safe_gap_blend ps ads ds = Some (items, ds')"
  then have "safe_gap_blend_impl ps ads MIN_POSTS_FOR_ADS RESULT_SIZE = Some items"
    by (simp add: safe_gap_blend_def)
  from safe_gap_blend_impl_cases [OF this]
  have "mset (posts_of items) \<subseteq># mset ps \<and> mset (ads_of items) \<subseteq># mset ads \<and> only_posts_and_ads items \<and>
    ads_well_placed (\<lambda>a p q. \<not> has_avoid p \<and> \<not> has_avoid q) items"
  proof (elim disjE exE conjE)
    fix raw sp fi
    assume raw: "interleave 0 ps ads (assign_ads_to_gaps (find_safe_gaps ps) (length ads) sp fi) = Some raw"
      and items: "items = renumber (fst (pop_trailing_ad (take RESULT_SIZE raw)))"
    from interleave_content [OF raw] obtain n where c: "posts_of raw = ps" "ads_of raw = take n ads"
      "only_posts_and_ads raw" by blast
    have "mset (take n ads) \<subseteq># mset ads" by (metis mset_subset_eq_add_left mset_take_drop)
    then show ?thesis
      using mset_truncate_sub [of RESULT_SIZE raw] c safe_gap_neighbours [OF raw]
      by (auto simp: items only_posts_and_ads_truncate pop_trailing_cells
          intro: subset_mset.order_trans [of _ "mset (take n ads)"])
  qed (simp add: posts_to_feed_items_def)
  then show "mset (posts_of items) \<subseteq># mset ps" "mset (ads_of items) \<subseteq># mset ads"
    "length items = length (posts_of items) + length (ads_of items)"
    "ads_well_placed (\<lambda>a p q. \<not> has_avoid p \<and> \<not> has_avoid q) items"
    using only_posts_and_ads_length by blast+
qed

section \<open>Properties\<close>

text \<open>The distance of a gap from the ideal position.\<close>

definition gap_dist :: "nat \<Rightarrow> nat \<Rightarrow> nat" where
  "gap_dist a b = (if a \<le> b then b - a else a - b)"

lemma partition_point_sorted:
  "sorted_wrt (<) xs \<Longrightarrow> i < length xs \<Longrightarrow> (xs ! i < b \<longleftrightarrow> i < partition_point (\<lambda>x. x < b) xs)" for b :: nat
proof -
  assume s: "sorted_wrt (<) xs" and i: "i < length xs"
  let ?p = "partition_point (\<lambda>x. x < b) xs"
  have "\<not> xs ! i < b" if "?p \<le> i"
  proof -
    have "xs ! ?p \<le> xs ! i" using s i that by (metis le_less order.strict_implies_order sorted_wrt_nth_less)
    moreover have "\<not> xs ! ?p < b" using partition_point_nth [of "\<lambda>x. x < b" xs] that i by simp
    ultimately show ?thesis by simp
  qed
  then show ?thesis using partition_point_before [of i "\<lambda>x. x < b" xs] by (metis not_le)
qed

lemma nearest_in_sorted:
  fixes c :: "nat list" and ideal :: nat
  assumes s: "sorted_wrt (<) c" and "c \<noteq> []" and j: "j < length c"
  defines "i \<equiv> partition_point (\<lambda>g. g < ideal) c"
  shows "gap_dist (c ! (if length c \<le> i then length c - 1 else if i = 0 then 0
      else if ideal - c ! (i - 1) \<le> c ! i - ideal then i - 1 else i)) ideal \<le> gap_dist (c ! j) ideal"
proof -
  have mono: "c ! a \<le> c ! b" if "a \<le> b" "b < length c" for a b
    using s that by (metis le_less order.strict_implies_order sorted_wrt_nth_less)
  have split: "c ! k < ideal \<longleftrightarrow> k < i" if "k < length c" for k
    unfolding i_def using partition_point_sorted [OF s that] .
  consider "length c \<le> i" | "i < length c" "i = 0" | "i < length c" "0 < i" by linarith
  then show ?thesis
  proof cases
    case 1
    then show ?thesis using split [OF j] split [of "length c - 1"] mono [of j "length c - 1"] j
      by (simp add: gap_dist_def) linarith
  next
    case 2
    then show ?thesis using split [OF j] split [of 0] mono [of 0 j] j by (simp add: gap_dist_def) linarith
  next
    case 3
    note sp = split [OF j] split [of i] split [of "i - 1"]
    show ?thesis
    proof (cases "j < i")
      case True
      then show ?thesis using 3 sp mono [of j "i - 1"] by (simp add: gap_dist_def) linarith
    next
      case False
      then show ?thesis using 3 sp mono [of i j] j by (simp add: gap_dist_def) linarith
    qed
  qed
qed

text \<open>
  \<open>find_best_gap\<close> picks, among the gaps at or after the least admissible one, a gap nearest
  to the ideal position, and it fails only when no gap is admissible.
\<close>

lemma find_best_gap_nearest:
  assumes "sorted_wrt (<) gaps"
  shows "case find_best_gap gaps ideal lo of
      None \<Rightarrow> \<forall>h \<in> set gaps. h < lo
    | Some (off, g) \<Rightarrow> off < length gaps \<and> g = gaps ! off \<and> lo \<le> g \<and>
        (\<forall>h \<in> set gaps. lo \<le> h \<longrightarrow> gap_dist g ideal \<le> gap_dist h ideal)"
proof (cases "find_best_gap gaps ideal lo")
  case None
  then have "length gaps \<le> partition_point (\<lambda>g. g < lo) gaps"
    by (auto simp: find_best_gap_def Let_def split: if_splits)
  then show ?thesis using None partition_point_sorted [OF assms] by (auto simp: in_set_conv_nth)
next
  case (Some r)
  obtain off g where r: "r = (off, g)" by (cases r)
  let ?m = "partition_point (\<lambda>g. g < lo) gaps"
  have m: "?m < length gaps" using Some by (auto simp: find_best_gap_def Let_def split: if_splits)
  have sd: "sorted_wrt (<) (drop ?m gaps)" using assms by (rule sorted_wrt_drop)
  have "gap_dist g ideal \<le> gap_dist h ideal" if h: "h \<in> set gaps" "lo \<le> h" for h
  proof -
    obtain k where k: "k < length gaps" "h = gaps ! k" using h(1) by (auto simp: in_set_conv_nth)
    with h(2) partition_point_sorted [OF assms k(1)] have "?m \<le> k" by (metis not_le)
    then have "drop ?m gaps ! (k - ?m) = h" "k - ?m < length (drop ?m gaps)" using k by auto
    then show ?thesis
      using nearest_in_sorted [OF sd, of "k - ?m" ideal] Some r m
      by (auto simp: find_best_gap_def Let_def)
  qed
  then show ?thesis
    using find_best_gap_Some [OF Some [unfolded r]] find_best_gap_ge [OF Some [unfolded r] assms] Some r by auto
qed

lemma find_best_gap_nearest_witness:
  "find_best_gap [1, 3, 6, 7] 5 2 = Some (2, 6) \<and> gap_dist 6 5 \<le> gap_dist 3 (5 :: nat)"
  using find_best_gap_nearest [where gaps = "[1, 3, 6, 7]" and ideal = 5 and lo = 2] by (simp add: find_best_gap_def partition_point_def)

text \<open>
  The safe-gap blender always returns a page; the posts keep their order and the ads theirs;
  every ad stands between two posts free of medium and high brand safety risk, and a page with
  ads has at most \<open>RESULT_SIZE\<close> items.
\<close>

lemma safe_gap_page:
  "\<exists>items. safe_gap_blend posts ads ds = Some (items, ds) \<and>
     ads_well_placed (\<lambda>a p q. \<not> has_avoid p \<and> \<not> has_avoid q) items \<and>
     (\<exists>n. posts_of items = take n posts) \<and> (\<exists>k. ads_of items = take k ads) \<and>
     (ads_of items = [] \<or> length items \<le> RESULT_SIZE)"
proof -
  obtain items where items: "safe_gap_blend posts ads ds = Some (items, ds)"
    using safe_gap_returns [of posts ads ds] by (auto simp: safe_gap_blend_def)
  then have impl: "safe_gap_blend_impl posts ads MIN_POSTS_FOR_ADS RESULT_SIZE = Some items"
    by (simp add: safe_gap_blend_def)
  have "(\<exists>n. posts_of items = take n posts) \<and> (\<exists>k. ads_of items = take k ads) \<and>
     (ads_of items = [] \<or> length items \<le> RESULT_SIZE)"
    using safe_gap_blend_impl_cases [OF impl]
  proof (elim disjE exE conjE)
    fix raw sp fi
    assume raw: "interleave 0 posts ads (assign_ads_to_gaps (find_safe_gaps posts) (length ads) sp fi) = Some raw"
      and it: "items = renumber (fst (pop_trailing_ad (take RESULT_SIZE raw)))"
    from interleave_content [OF raw] obtain n where c: "posts_of raw = posts" "ads_of raw = take n ads" by blast
    have "ads_of raw = ads_of items @ ads_of (snd (pop_trailing_ad (take RESULT_SIZE raw)) @ drop RESULT_SIZE raw)"
      using it take_split [of raw RESULT_SIZE] by (metis ads_of_simps(3) renumber_simps(2))
    then have "ads_of items = take (length (ads_of items)) (take n ads)"
      using c(2) by (metis append_eq_conv_conj)
    then have "\<exists>k. ads_of items = take k ads" by (metis take_take)
    moreover have "\<exists>n. posts_of items = take n posts"
      using posts_of_take [of RESULT_SIZE raw] c(1) it by auto
    moreover have "length items \<le> RESULT_SIZE" by (auto simp: it pop_trailing_ad_def)
    ultimately show ?thesis by simp
  next
    assume "items = posts_to_feed_items posts"
    then show ?thesis by (auto simp: posts_to_feed_items_def intro: exI [of _ "length posts"] exI [of _ 0])
  qed
  then show ?thesis using items safe_gap.well_placed by blast
qed

end
