(* ===== verification/Ad_Slots.thy ===== *)
theory Ad_Slots
  imports Ads_Util
begin

text \<open>
  The part that the partitioning blenders have in common: a pair of posts is taken out of a list
  of optional posts to stand above and below an ad (\<open>take().unwrap()\<close>), and the remaining posts
  are spread evenly behind the resulting triples. \<open>None\<close> is a failed index or \<open>unwrap\<close>.
\<close>

type_synonym ad_triple = "ad_index_info \<times> scored_post \<times> scored_post"

definition flatten :: "'a option list \<Rightarrow> 'a list" where
  "flatten xs = List.map_filter id xs"

definition take_pair :: "nat \<Rightarrow> 'a option list \<Rightarrow> ('a \<times> 'a \<times> 'a option list) option" where
  "take_pair s opts =
     (if length opts \<le> Suc s then None
      else case (opts ! s, opts ! Suc s) of
             (Some a, Some b) \<Rightarrow> Some (a, b, opts[s := None, Suc s := None])
           | _ \<Rightarrow> None)"

definition triple_items :: "ad_triple \<Rightarrow> feed_item list" where
  "triple_items t = (case t of (ad, p, q) \<Rightarrow> [post_item p, ad_item ad, post_item q])"

text \<open>The number of filler posts behind the \<open>i\<close>-th of \<open>gaps\<close> triples.\<close>

definition gap_fill :: "nat \<Rightarrow> nat \<Rightarrow> nat \<Rightarrow> nat \<Rightarrow> nat" where
  "gap_fill gaps per_gap rem i = per_gap + (if gaps - rem \<le> i then 1 else 0)"

fun spread_fill :: "nat \<Rightarrow> nat \<Rightarrow> nat \<Rightarrow> nat \<Rightarrow> ad_triple list \<Rightarrow> scored_post list \<Rightarrow> feed_item list" where
  "spread_fill gaps per_gap rem i [] filler = []"
| "spread_fill gaps per_gap rem i (t # ts) filler =
     (let n = gap_fill gaps per_gap rem i
      in triple_items t @ map post_item (take n filler) @
         spread_fill gaps per_gap rem (Suc i) ts (drop n filler))"

definition triples_page :: "ad_triple list \<Rightarrow> scored_post list \<Rightarrow> feed_item list" where
  "triples_page triples filler =
     (let gaps = length triples
      in spread_fill gaps (length filler div gaps) (length filler mod gaps) 0 triples filler)"

text \<open>
  Posts in descending order of their scores. The comparator is a total order only when no score is \<open>NaN\<close>; for others
  the library allows the sort to panic.
\<close>

definition scores_ordered :: "scored_post list \<Rightarrow> bool" where
  "scores_ordered ps \<longleftrightarrow> list_all (\<lambda>p. sp_score p \<noteq> F_NaN) ps"

definition by_score :: "scored_post list \<Rightarrow> scored_post list option" where
  "by_score ps = (if scores_ordered ps then Some (sort_by (score_desc sp_score) ps) else None)"

section \<open>Lemmas\<close>

lemma flatten_simps [simp]:
  "flatten [] = []" "flatten (None # xs) = flatten xs" "flatten (Some x # xs) = x # flatten xs"
  "flatten (xs @ ys) = flatten xs @ flatten ys" "flatten (map Some ps) = ps"
  by (simp_all add: flatten_def List.map_filter_def comp_def)

lemma flatten_remove: "i < length xs \<Longrightarrow> xs ! i = Some a \<Longrightarrow> mset (flatten xs) = add_mset a (mset (flatten (xs[i := None])))"
proof -
  assume i: "i < length xs" "xs ! i = Some a"
  then have "xs = take i xs @ Some a # drop (Suc i) xs" by (metis id_take_nth_drop)
  moreover have "xs[i := None] = take i xs @ None # drop (Suc i) xs" using i(1) by (rule upd_conv_take_nth_drop)
  ultimately show ?thesis by (metis flatten_simps(2,3,4) add_mset_add_single mset.simps(2) mset_append union_mset_add_mset_right)
qed

lemma flatten_set:
  assumes "j < length xs" "xs ! j = None"
  shows "mset (flatten (xs[j := Some a])) = add_mset a (mset (flatten xs))"
proof -
  have "xs[j := Some a, j := None] = xs" using assms(2) by (metis list_update_id list_update_overwrite)
  then show ?thesis using flatten_remove [of j "xs[j := Some a]" a] assms(1) by simp
qed

lemma take_pair_Some:
  assumes "take_pair s opts = Some (a, b, opts')"
  shows "mset (flatten opts) = {#a, b#} + mset (flatten opts')"
    and "opts' = opts[s := None, Suc s := None]" and "opts ! s = Some a" and "opts ! Suc s = Some b"
    and "Suc s < length opts"
proof -
  show r: "opts' = opts[s := None, Suc s := None]" "opts ! s = Some a" "opts ! Suc s = Some b" "Suc s < length opts"
    using assms by (auto simp: take_pair_def split: if_splits option.splits)
  then show "mset (flatten opts) = {#a, b#} + mset (flatten opts')"
    using flatten_remove [of s opts a] flatten_remove [of "Suc s" "opts[s := None]" b] by simp
qed

lemma take_pair_returns:
  "Suc s < length opts \<Longrightarrow> opts ! s = Some a \<Longrightarrow> opts ! Suc s = Some b \<Longrightarrow>
   take_pair s opts = Some (a, b, opts[s := None, Suc s := None])"
  by (simp add: take_pair_def)

definition triple_posts :: "ad_triple list \<Rightarrow> scored_post list" where
  "triple_posts ts = concat (map (\<lambda>(ad, p, q). [p, q]) ts)"

lemma triple_posts_simps [simp]:
  "triple_posts [] = []" "triple_posts ((ad, p, q) # ts) = p # q # triple_posts ts"
  "triple_posts (xs @ ys) = triple_posts xs @ triple_posts ys"
  by (simp_all add: triple_posts_def)

lemma spread_fill_ads [simp]: "ads_of (spread_fill g per rem i ts filler) = map fst ts"
  by (induction ts arbitrary: i filler) (auto simp: Let_def triple_items_def)

lemma spread_fill_only [simp]: "only_posts_and_ads (spread_fill g per rem i ts filler)"
  by (induction ts arbitrary: i filler) (auto simp: Let_def triple_items_def)

lemma spread_fill_posts:
  "g = i + length ts \<Longrightarrow> rem \<le> g \<Longrightarrow> length filler = length ts * per + min rem (length ts) \<Longrightarrow>
   mset (posts_of (spread_fill g per rem i ts filler)) = mset (triple_posts ts) + mset filler"
proof (induction ts arbitrary: i filler)
  case (Cons t ts)
  obtain ad p q where t: "t = (ad, p, q)" by (cases t)
  let ?n = "gap_fill g per rem i"
  have "length (drop ?n filler) = length ts * per + min rem (length ts)"
    using Cons.prems by (auto simp: gap_fill_def min_def)
  with Cons.prems Cons.IH [of "Suc i" "drop ?n filler"] have
    "mset (posts_of (spread_fill g per rem (Suc i) ts (drop ?n filler))) = mset (triple_posts ts) + mset (drop ?n filler)"
    by simp
  moreover have "mset filler = mset (take ?n filler) + mset (drop ?n filler)" by (simp add: mset_take_drop)
  ultimately show ?case by (simp add: t Let_def triple_items_def ac_simps)
qed simp

lemma triples_page_posts:
  "triples \<noteq> [] \<Longrightarrow> mset (posts_of (triples_page triples filler)) = mset (triple_posts triples) + mset filler"
  unfolding triples_page_def Let_def
  by (rule spread_fill_posts) (auto simp: min_def less_imp_le order.strict_implies_order)

lemma triples_page_ads [simp]: "ads_of (triples_page triples filler) = map fst triples"
  by (simp add: triples_page_def Let_def)

lemma triples_page_only [simp]: "only_posts_and_ads (triples_page triples filler)"
  by (simp add: triples_page_def Let_def)

lemma spread_fill_neighbours:
  "list_all (\<lambda>(ad, p, q). ok ad p q) ts \<Longrightarrow> ad_neighbours ok prev (map item (spread_fill g per rem i ts filler))"
proof (induction ts arbitrary: i filler prev)
  case (Cons t ts)
  obtain ad p q where t: "t = (ad, p, q)" by (cases t)
  let ?f = "map item (map post_item (take (gap_fill g per rem i) filler))"
  have "ad_neighbours ok (Some q) (?f @ map item (spread_fill g per rem (Suc i) ts (drop (gap_fill g per rem i) filler)))"
    by (rule ad_neighbours_join) (use Cons in \<open>simp_all add: comp_def\<close>)
  with Cons.prems t show ?case by (simp add: Let_def triple_items_def)
qed simp

lemma triples_page_neighbours:
  "list_all (\<lambda>(ad, p, q). ok ad p q) triples \<Longrightarrow> ads_well_placed ok (triples_page triples filler)"
  by (simp add: triples_page_def ads_well_placed_def Let_def spread_fill_neighbours)

lemma by_score_Some: "by_score ps = Some qs \<longleftrightarrow> scores_ordered ps \<and> qs = sort_by (score_desc sp_score) ps"
  by (auto simp: by_score_def)

lemma by_score_returns:
  assumes "scores_ordered ps" "mset qs \<subseteq># mset ps"
  shows "\<exists>rs. by_score qs = Some rs \<and> mset rs = mset qs"
  using assms set_mset_mono [OF assms(2)] by (auto simp: by_score_def scores_ordered_def list_all_iff)

section \<open>A pool of posts that is consumed slot by slot\<close>

text \<open>
  Slot \<open>k\<close> of a pool offers the posts \<open>k * w\<close> and \<open>k * w + 1\<close>. While slot \<open>idx\<close> is current, its
  posts and the later ones are still in the pool, and the tokens kept belong to it.
\<close>

definition pool_ok :: "post_text \<Rightarrow> scored_post list \<Rightarrow> scored_post option list \<Rightarrow> nat \<Rightarrow> nat \<Rightarrow> nat \<Rightarrow>
    slot_tokens \<Rightarrow> bool" where
  "pool_ok lib posts opts w budget idx cache \<longleftrightarrow>
     length opts = length posts \<and> 2 \<le> w \<and> budget * w \<le> length posts \<and>
     (\<forall>i < length posts. idx * w \<le> i \<longrightarrow> opts ! i = Some (posts ! i)) \<and>
     (idx < budget \<longrightarrow> slot_cache_ok lib (opts ! (idx * w)) (opts ! Suc (idx * w)) cache)"

lemma pool_slot:
  assumes "pool_ok lib posts opts w budget idx cache" and "idx < budget"
  shows "Suc (idx * w) < length opts" and "opts ! (idx * w) = Some (posts ! (idx * w))"
    and "opts ! Suc (idx * w) = Some (posts ! Suc (idx * w))"
    and "slot_cache_ok lib (Some (posts ! (idx * w))) (Some (posts ! Suc (idx * w))) cache"
    and "take_pair (idx * w) opts = Some (posts ! (idx * w), posts ! Suc (idx * w), opts[idx * w := None, Suc (idx * w) := None])"
proof -
  have "Suc (idx * w) < idx * w + w" using assms(1) by (simp add: pool_ok_def)
  also have "\<dots> = Suc idx * w" by simp
  also have "\<dots> \<le> budget * w" using assms(2) by (intro mult_le_mono1) simp
  also have "\<dots> \<le> length posts" using assms(1) by (simp add: pool_ok_def)
  finally show len: "Suc (idx * w) < length opts" using assms(1) by (simp add: pool_ok_def)
  then show p: "opts ! (idx * w) = Some (posts ! (idx * w))" "opts ! Suc (idx * w) = Some (posts ! Suc (idx * w))"
    using assms(1) by (simp_all add: pool_ok_def)
  then show "slot_cache_ok lib (Some (posts ! (idx * w))) (Some (posts ! Suc (idx * w))) cache"
    using assms by (simp add: pool_ok_def)
  show "take_pair (idx * w) opts = Some (posts ! (idx * w), posts ! Suc (idx * w), opts[idx * w := None, Suc (idx * w) := None])"
    using len p by (rule take_pair_returns)
qed

lemma pool_place:
  assumes "pool_ok lib posts opts w budget idx cache"
  shows "pool_ok lib posts (opts[idx * w := None, Suc (idx * w) := None]) w budget (Suc idx) None"
proof -
  have "opts[idx * w := None, Suc (idx * w) := None] ! i = Some (posts ! i)"
    if "i < length posts" "Suc idx * w \<le> i" for i
    using that assms by (auto simp: pool_ok_def)
  then show ?thesis using assms by (simp add: pool_ok_def)
qed

lemma pool_cache:
  assumes "pool_ok lib posts opts w budget idx cache"
    and "idx < budget \<Longrightarrow> slot_cache_ok lib (opts ! (idx * w)) (opts ! Suc (idx * w)) cache'"
  shows "pool_ok lib posts opts w budget idx cache'"
  using assms by (auto simp: pool_ok_def)

lemma pool_start:
  "2 \<le> w \<Longrightarrow> budget * w \<le> length posts \<Longrightarrow> pool_ok lib posts (map Some posts) w budget 0 None"
  by (simp add: pool_ok_def)

end
