(* ===== verification/Partition_Organic_Blender.thy ===== *)
theory Partition_Organic_Blender
  imports Ad_Slots
begin

text \<open>
  The default blender of the For You feed
  (\<open>home-mixer/ads/partition_organic_blender.rs\<close>): the posts free of risk are split into as many
  groups as there are ad slots, each slot offers the first two posts of its group to the ads in
  turn, and the remaining posts fill the page by score. Metrics are left out.
\<close>

section \<open>Definitions\<close>

text \<open>The keyword test of a slot, with the tokens of its two posts kept across ads.\<close>

definition slot_keyword_drop ::
  "post_text \<Rightarrow> ad_index_info \<Rightarrow> scored_post option \<Rightarrow> scored_post option \<Rightarrow> slot_tokens \<Rightarrow> bool \<times> slot_tokens" where
  "slot_keyword_drop lib ad p q cache =
     (case tokenize_ad_keywords lib ad of
        None \<Rightarrow> (False, cache)
      | Some kws \<Rightarrow>
          let tokens = get_or_insert_tokens lib p q cache;
              matches = is_some_and (\<lambda>t. tokens_match_any_keyword lib t kws)
          in (matches (fst tokens) \<or> matches (snd tokens), Some tokens))"

fun fill_slots :: "post_text \<Rightarrow> nat \<Rightarrow> nat \<Rightarrow> ad_index_info list \<Rightarrow> scored_post option list \<Rightarrow> ad_triple list \<Rightarrow>
    slot_tokens \<Rightarrow> nat \<Rightarrow> (scored_post option list \<times> ad_triple list) option" where
  "fill_slots lib actual group_size [] safe_opts triples cache group_idx = Some (safe_opts, triples)"
| "fill_slots lib actual group_size (ad # ads) safe_opts triples cache group_idx =
     (if actual \<le> group_idx then Some (safe_opts, triples)
      else let start = group_idx * group_size
           in if length safe_opts \<le> Suc start then None
              else let p = safe_opts ! start; q = safe_opts ! Suc start
                   in if should_drop_bsr_low ad p q \<or> should_drop_handle ad p q
                      then fill_slots lib actual group_size ads safe_opts triples cache group_idx
                      else let (blocked, cache') = slot_keyword_drop lib ad p q cache
                           in if blocked
                              then fill_slots lib actual group_size ads safe_opts triples cache' group_idx
                              else case take_pair start safe_opts of
                                     None \<Rightarrow> None
                                   | Some (a, b, safe_opts') \<Rightarrow>
                                       fill_slots lib actual group_size ads safe_opts'
                                         (triples @ [(ad, a, b)]) None (Suc group_idx))"

text \<open>The number of ads the page has room for.\<close>

definition actual_ads :: "scored_post list \<Rightarrow> ad_index_info list \<Rightarrow> nat" where
  "actual_ads posts ads =
     (let safe_count = length (filter (\<lambda>p. \<not> has_avoid p) posts)
      in min (min (length ads) ((length posts - 1) div requested (compute_spacing ads))) (safe_count div 2))"

definition finalize_page :: "nat \<Rightarrow> feed_item list \<Rightarrow> feed_item list" where
  "finalize_page n items = renumber (fst (pop_trailing_ad (take n items)))"

definition partition_blend_impl ::
  "post_text \<Rightarrow> scored_post list \<Rightarrow> ad_index_info list \<Rightarrow> nat \<Rightarrow> feed_item list option" where
  "partition_blend_impl lib posts ads min_posts =
     (if ads = [] \<or> length posts < min_posts \<or> actual_ads posts ads = 0 then Some (posts_to_feed_items posts)
      else let safe = filter (\<lambda>p. \<not> has_avoid p) posts;
               unsafe_posts = filter has_avoid posts;
               group_size = length safe div actual_ads posts ads
           in case fill_slots lib (actual_ads posts ads) group_size ads (map Some safe) [] None 0 of
                None \<Rightarrow> None
              | Some (safe_opts, triples) \<Rightarrow>
                  if triples = [] then map_option posts_to_feed_items (by_score (flatten safe_opts @ unsafe_posts))
                  else map_option (\<lambda>filler. finalize_page RESULT_SIZE (triples_page triples filler))
                         (by_score (flatten safe_opts @ unsafe_posts)))"

definition partition_blend :: "post_text \<Rightarrow> blender" where
  "partition_blend lib posts ads drops =
     map_option (\<lambda>items. (items, drops)) (partition_blend_impl lib posts ads MIN_POSTS_FOR_ADS)"

text \<open>The outcome labels of the serving metrics.\<close>

definition serving_limitation :: "nat \<Rightarrow> nat \<Rightarrow> nat \<Rightarrow> string" where
  "serving_limitation ads_supply from_spacing from_safe =
     (let budget = min (min ads_supply from_spacing) from_safe
      in if budget = ads_supply then ''ads_supply''
         else if budget = from_spacing then ''spacing'' else ''safe_posts'')"

section \<open>The acceptance rule\<close>

definition organic_neighbour :: "post_text \<Rightarrow> ad_index_info \<Rightarrow> scored_post \<Rightarrow> bool" where
  "organic_neighbour lib ad p \<longleftrightarrow>
     \<not> has_avoid p \<and> low_risk_allowed ad p \<and> handle_allowed ad p \<and>
     (tokenize lib (sp_tweet_text p) = [] \<or> keyword_allowed lib ad p)"

lemma keywords_allowed_iff:
  assumes "tokenize_ad_keywords lib ad = Some kws"
  shows "tokens_match_any_keyword lib (tokenize_tweet_text lib p) kws \<longleftrightarrow>
    \<not> (tokenize lib (sp_tweet_text p) = [] \<or> keyword_allowed lib ad p)"
proof -
  from assms obtain full where full: "ad_keywords lib ad = Some full" "kws = map snd full"
    by (auto simp: tokenize_ad_keywords_def)
  have "keyword_allowed lib ad p \<longleftrightarrow> keyword_hit lib full (Some p, Some (tokenize_tweet_text lib p)) = None"
    using keyword_hit_None [OF full(1)] by simp
  also have "\<dots> \<longleftrightarrow> \<not> list_ex (contains_keyword_sequence lib (tokenize_tweet_text lib p)) kws"
    by (auto simp: keyword_hit_def full(2) find_None_iff_set list_ex_iff)
  finally show ?thesis by (auto simp: tokens_match_any_keyword_def tokenize_tweet_text_def)
qed

lemma slot_keyword_drop_iff:
  assumes "slot_cache_ok lib (Some p) (Some q) cache"
  shows "fst (slot_keyword_drop lib ad (Some p) (Some q) cache) \<longleftrightarrow>
      \<not> ((tokenize lib (sp_tweet_text p) = [] \<or> keyword_allowed lib ad p) \<and>
         (tokenize lib (sp_tweet_text q) = [] \<or> keyword_allowed lib ad q))"
    and "slot_cache_ok lib (Some p) (Some q) (snd (slot_keyword_drop lib ad (Some p) (Some q) cache))"
proof -
  show "slot_cache_ok lib (Some p) (Some q) (snd (slot_keyword_drop lib ad (Some p) (Some q) cache))"
    using assms get_or_insert_tokens_ok [OF assms]
    by (auto simp: slot_keyword_drop_def Let_def slot_cache_ok_def split: option.split)
  show "fst (slot_keyword_drop lib ad (Some p) (Some q) cache) \<longleftrightarrow>
      \<not> ((tokenize lib (sp_tweet_text p) = [] \<or> keyword_allowed lib ad p) \<and>
         (tokenize lib (sp_tweet_text q) = [] \<or> keyword_allowed lib ad q))"
  proof (cases "tokenize_ad_keywords lib ad")
    case None
    then have "ad_keywords lib ad = None" by (simp add: tokenize_ad_keywords_def)
    from ad_keywords_None [OF this] None show ?thesis by (simp add: slot_keyword_drop_def)
  next
    case (Some kws)
    with keywords_allowed_iff [OF Some] get_or_insert_tokens_ok [OF assms] show ?thesis
      by (auto simp: slot_keyword_drop_def Let_def)
  qed
qed

section \<open>The slots\<close>

text \<open>
  The state of the loop: the posts of the current and the later groups are still there, the
  tokens kept belong to the current slot, and the triples made so far are acceptable.
\<close>

definition slots_inv :: "post_text \<Rightarrow> nat \<Rightarrow> nat \<Rightarrow> scored_post list \<Rightarrow> scored_post option list \<Rightarrow> ad_triple list \<Rightarrow>
    slot_tokens \<Rightarrow> nat \<Rightarrow> bool" where
  "slots_inv lib actual gs safe opts triples cache idx \<longleftrightarrow>
     length opts = length safe \<and> 2 \<le> gs \<and> actual * gs \<le> length safe \<and> length triples = idx \<and>
     (\<forall>i < length safe. idx * gs \<le> i \<longrightarrow> opts ! i = Some (safe ! i)) \<and>
     mset (flatten opts) + mset (triple_posts triples) = mset safe \<and>
     list_all (\<lambda>(ad, p, q). organic_neighbour lib ad p \<and> organic_neighbour lib ad q) triples \<and>
     (idx < actual \<longrightarrow> slot_cache_ok lib (opts ! (idx * gs)) (opts ! Suc (idx * gs)) cache)"

lemma slots_in_range:
  assumes "slots_inv lib actual gs safe opts triples cache idx" and "idx < actual"
  shows "Suc (idx * gs) < length safe"
proof -
  have "Suc (idx * gs) < idx * gs + gs" using assms(1) by (simp add: slots_inv_def)
  also have "\<dots> = Suc idx * gs" by simp
  also have "\<dots> \<le> actual * gs" using assms(2) by (intro mult_le_mono1) simp
  also have "\<dots> \<le> length safe" using assms(1) by (simp add: slots_inv_def)
  finally show ?thesis .
qed

lemma slots_inv_place:
  assumes inv: "slots_inv lib actual gs safe opts triples cache idx" and idx: "idx < actual"
    and pair: "take_pair (idx * gs) opts = Some (a, b, opts')"
    and ok: "organic_neighbour lib ad a" "organic_neighbour lib ad b"
  shows "slots_inv lib actual gs safe opts' (triples @ [(ad, a, b)]) None (Suc idx)"
proof -
  note tp = take_pair_Some [OF pair]
  have keep: "opts' ! i = Some (safe ! i)" if "i < length safe" "Suc idx * gs \<le> i" for i
  proof -
    have "Suc (idx * gs) < i" using that inv by (auto simp: slots_inv_def)
    then have "opts' ! i = opts ! i" using tp(2) by simp
    also have "\<dots> = Some (safe ! i)" using inv that by (auto simp: slots_inv_def)
    finally show ?thesis .
  qed
  moreover have "mset (flatten opts') + mset (triple_posts (triples @ [(ad, a, b)])) = mset safe"
    using inv tp(1) by (simp add: slots_inv_def ac_simps)
  ultimately show ?thesis
    using inv tp(2) ok by (simp add: slots_inv_def)
qed

definition slots_filled :: "post_text \<Rightarrow> nat \<Rightarrow> nat \<Rightarrow> scored_post list \<Rightarrow> ad_triple list \<Rightarrow> ad_index_info list \<Rightarrow>
    (scored_post option list \<times> ad_triple list) option \<Rightarrow> bool" where
  "slots_filled lib actual gs safe triples ads r \<longleftrightarrow>
     (\<exists>opts' new cache' idx'. r = Some (opts', triples @ new) \<and> mset (map fst new) \<subseteq># mset ads \<and>
        slots_inv lib actual gs safe opts' (triples @ new) cache' idx')"

lemma slots_filled_refl:
  "slots_inv lib actual gs safe opts triples cache idx \<Longrightarrow>
   slots_filled lib actual gs safe triples ads (Some (opts, triples))"
  unfolding slots_filled_def by (rule exI [of _ opts], rule exI [of _ "[]"]) auto

lemma slots_filled_skip:
  "slots_filled lib actual gs safe triples ads r \<Longrightarrow> slots_filled lib actual gs safe triples (ad # ads) r"
proof -
  assume "slots_filled lib actual gs safe triples ads r"
  then obtain opts' new cache' idx' where "r = Some (opts', triples @ new)" "mset (map fst new) \<subseteq># mset ads"
    "slots_inv lib actual gs safe opts' (triples @ new) cache' idx'" unfolding slots_filled_def by blast
  moreover from this(2) have "mset (map fst new) \<subseteq># mset (ad # ads)"
    by (metis mset.simps(2) subset_mset.order_trans mset_subset_eq_add_right add_mset_add_single mset_subset_eq_add_left)
  ultimately show ?thesis unfolding slots_filled_def by blast
qed

lemma slots_filled_place:
  assumes "slots_filled lib actual gs safe (triples @ [(ad, a, b)]) ads r"
  shows "slots_filled lib actual gs safe triples (ad # ads) r"
proof -
  from assms obtain opts' new cache' idx' where
    "r = Some (opts', triples @ (ad, a, b) # new)" "mset (map fst new) \<subseteq># mset ads"
    "slots_inv lib actual gs safe opts' (triples @ (ad, a, b) # new) cache' idx'"
    by (auto simp: slots_filled_def)
  then show ?thesis unfolding slots_filled_def
    by (intro exI [of _ opts'] exI [of _ "(ad, a, b) # new"] exI [of _ cache'] exI [of _ idx']) simp
qed

lemma fill_slots_filled:
  assumes "slots_inv lib actual gs safe opts triples cache idx"
    and safe: "list_all (\<lambda>p. \<not> has_avoid p) safe"
  shows "slots_filled lib actual gs safe triples ads (fill_slots lib actual gs ads opts triples cache idx)"
  using assms(1)
proof (induction ads arbitrary: opts triples cache idx)
  case Nil
  then show ?case by (simp add: slots_filled_refl)
next
  case (Cons ad ads)
  show ?case
  proof (cases "actual \<le> idx")
    case True
    with Cons.prems show ?thesis by (simp add: slots_filled_refl)
  next
    case False
    let ?s = "idx * gs"
    let ?p = "safe ! ?s" and ?q = "safe ! Suc ?s"
    have len: "Suc ?s < length safe" "length opts = length safe"
      using slots_in_range [OF Cons.prems] Cons.prems False by (simp_all add: slots_inv_def)
    then have pq: "opts ! ?s = Some ?p" "opts ! Suc ?s = Some ?q"
      using Cons.prems by (simp_all add: slots_inv_def)
    have cache: "slot_cache_ok lib (Some ?p) (Some ?q) cache"
      using Cons.prems False pq by (simp add: slots_inv_def)
    let ?k = "slot_keyword_drop lib ad (Some ?p) (Some ?q) cache"
    note kw = slot_keyword_drop_iff [OF cache, of ad]
    have keep: "slots_inv lib actual gs safe opts triples (snd ?k) idx"
      using Cons.prems kw(2) pq by (simp add: slots_inv_def)
    let ?d = "should_drop_bsr_low ad (Some ?p) (Some ?q) \<or> should_drop_handle ad (Some ?p) (Some ?q)"
    have tp: "take_pair ?s opts = Some (?p, ?q, opts[?s := None, Suc ?s := None])"
      using pq len by (intro take_pair_returns) auto
    have eq: "fill_slots lib actual gs (ad # ads) opts triples cache idx =
       (if ?d then fill_slots lib actual gs ads opts triples cache idx
        else if fst ?k then fill_slots lib actual gs ads opts triples (snd ?k) idx
        else fill_slots lib actual gs ads (opts[?s := None, Suc ?s := None]) (triples @ [(ad, ?p, ?q)]) None (Suc idx))"
      using False len pq tp by (simp add: Let_def split_def)
    show ?thesis
    proof (cases "?d \<or> fst ?k")
      case True
      then show ?thesis unfolding eq using Cons.IH [OF Cons.prems] Cons.IH [OF keep] by (auto intro: slots_filled_skip)
    next
      case place: False
      have "organic_neighbour lib ad ?p" "organic_neighbour lib ad ?q"
        using place kw(1) safe len
        by (auto simp: organic_neighbour_def should_drop_bsr_low_def should_drop_handle_def
            low_risk_block_None handle_block_None list_all_length)
      from Cons.IH [OF slots_inv_place [OF Cons.prems _ tp this]] place False
      show ?thesis unfolding eq by (auto intro: slots_filled_place)
    qed
  qed
qed

section \<open>The blender\<close>

lemma slots_inv_start:
  assumes "0 < actual" "actual \<le> length safe div 2"
  shows "slots_inv lib actual (length safe div actual) safe (map Some safe) [] None 0"
proof -
  have "2 * actual \<le> length safe" using assms(2) by linarith
  then have "2 \<le> length safe div actual" using assms(1) by (simp add: less_eq_div_iff_mult_less_eq)
  moreover have "actual * (length safe div actual) \<le> length safe" by simp
  ultimately show ?thesis by (simp add: slots_inv_def)
qed

lemma partition_cases:
  assumes "scores_ordered posts"
  shows "partition_blend_impl lib posts ads mp = Some (posts_to_feed_items posts) \<or>
   (\<exists>filler triples.
      mset (triple_posts triples) + mset filler = mset posts \<and> mset (map fst triples) \<subseteq># mset ads \<and>
      list_all (\<lambda>(ad, p, q). organic_neighbour lib ad p \<and> organic_neighbour lib ad q) triples \<and>
      partition_blend_impl lib posts ads mp =
        Some (if triples = [] then posts_to_feed_items filler
              else finalize_page RESULT_SIZE (triples_page triples filler)))"
proof (cases "ads = [] \<or> length posts < mp \<or> actual_ads posts ads = 0")
  case True
  then show ?thesis by (simp add: partition_blend_impl_def)
next
  case False
  let ?safe = "filter (\<lambda>p. \<not> has_avoid p) posts" and ?n = "actual_ads posts ads"
  let ?gs = "length ?safe div ?n"
  have "slots_inv lib ?n ?gs ?safe (map Some ?safe) [] None 0"
    using False by (intro slots_inv_start) (auto simp: actual_ads_def Let_def)
  moreover have "list_all (\<lambda>p. \<not> has_avoid p) ?safe" by (simp add: list_all_iff)
  ultimately have "slots_filled lib ?n ?gs ?safe [] ads (fill_slots lib ?n ?gs ads (map Some ?safe) [] None 0)"
    by (rule fill_slots_filled)
  then obtain opts triples cache idx where
    fs: "fill_slots lib ?n ?gs ads (map Some ?safe) [] None 0 = Some (opts, triples)"
    and tr: "mset (map fst triples) \<subseteq># mset ads" "slots_inv lib ?n ?gs ?safe opts triples cache idx"
    unfolding slots_filled_def append_Nil by blast
  have left: "mset (flatten opts) + mset (triple_posts triples) = mset ?safe"
    and ok: "list_all (\<lambda>(ad, p, q). organic_neighbour lib ad p \<and> organic_neighbour lib ad q) triples"
    using tr(2) by (simp_all add: slots_inv_def)
  have all: "mset (triple_posts triples) + mset (flatten opts @ filter has_avoid posts) = mset posts"
    using left mset_filter_split [of has_avoid posts] by (metis add.assoc add.commute mset_append)
  then have "mset (flatten opts @ filter has_avoid posts) \<subseteq># mset posts" by (metis mset_subset_eq_add_right)
  from by_score_returns [OF assms this] obtain filler where
    filler: "by_score (flatten opts @ filter has_avoid posts) = Some filler" "mset filler = mset (flatten opts @ filter has_avoid posts)"
    by blast
  have "partition_blend_impl lib posts ads mp =
      Some (if triples = [] then posts_to_feed_items filler else finalize_page RESULT_SIZE (triples_page triples filler))"
    using False fs filler(1) by (simp add: partition_blend_impl_def Let_def)
  with all filler(2) tr(1) ok show ?thesis by (intro disjI2 exI [of _ filler] exI [of _ triples]) simp
qed

lemma partition_returns: "scores_ordered posts \<Longrightarrow> partition_blend lib posts ads ds \<noteq> None"
  using partition_cases [of posts lib ads MIN_POSTS_FOR_ADS] by (auto simp: partition_blend_def)

lemma partition_page:
  assumes "scores_ordered posts" "partition_blend lib posts ads ds = Some (items, ds')"
  shows "mset (posts_of items) \<subseteq># mset posts \<and> mset (ads_of items) \<subseteq># mset ads \<and> only_posts_and_ads items \<and>
    ads_well_placed (\<lambda>ad p q. organic_neighbour lib ad p \<and> organic_neighbour lib ad q) items"
proof -
  have impl: "partition_blend_impl lib posts ads MIN_POSTS_FOR_ADS = Some items"
    using assms(2) by (auto simp: partition_blend_def)
  consider "items = posts_to_feed_items posts"
    | filler triples where "mset (triple_posts triples) + mset filler = mset posts" "mset (map fst triples) \<subseteq># mset ads"
      "list_all (\<lambda>(ad, p, q). organic_neighbour lib ad p \<and> organic_neighbour lib ad q) triples"
      "items = (if triples = [] then posts_to_feed_items filler else finalize_page RESULT_SIZE (triples_page triples filler))"
    using partition_cases [OF assms(1), of lib ads MIN_POSTS_FOR_ADS] impl by auto
  then show ?thesis
  proof cases
    case 1
    then show ?thesis by (simp add: posts_to_feed_items_def)
  next
    case 2
    let ?raw = "triples_page triples filler"
    show ?thesis
    proof (cases "triples = []")
      case True
      then show ?thesis using 2(1,4) by (simp add: posts_to_feed_items_def)
    next
      case False
      have "mset (posts_of ?raw) = mset posts" using triples_page_posts [OF False] 2(1) by simp
      then show ?thesis
        using 2 False mset_truncate_sub [of RESULT_SIZE ?raw]
        by (auto simp: finalize_page_def only_posts_and_ads_truncate pop_trailing_cells triples_page_neighbours
            intro: subset_mset.order_trans)
    qed
  qed
qed

interpretation partition_organic: ads_blender "partition_blend lib"
  "\<lambda>ad p q. organic_neighbour lib ad p \<and> organic_neighbour lib ad q" "\<lambda>ps _. scores_ordered ps" for lib
  using partition_returns partition_page only_posts_and_ads_length by unfold_locales blast+

section \<open>Properties\<close>

lemma partition_keeps_posts:
  assumes "scores_ordered posts" "partition_blend lib posts ads ds = Some (items, ds')" and "length posts + length ads \<le> RESULT_SIZE"
  shows "mset (posts_of items) = mset posts"
proof -
  have impl: "partition_blend_impl lib posts ads MIN_POSTS_FOR_ADS = Some items"
    using assms(2) by (auto simp: partition_blend_def)
  show ?thesis
  proof (cases "partition_blend_impl lib posts ads MIN_POSTS_FOR_ADS = Some (posts_to_feed_items posts)")
    case True
    with impl have "items = posts_to_feed_items posts" by simp
    then show ?thesis by (simp add: posts_to_feed_items_def)
  next
    case False
    with partition_cases [OF assms(1), of lib ads MIN_POSTS_FOR_ADS] impl obtain filler triples where
      c: "mset (triple_posts triples) + mset filler = mset posts" "mset (map fst triples) \<subseteq># mset ads"
        "items = (if triples = [] then posts_to_feed_items filler else finalize_page RESULT_SIZE (triples_page triples filler))"
      by auto
    let ?raw = "triples_page triples filler"
    show ?thesis
    proof (cases "triples = []")
      case True
      then show ?thesis using c(1,3) by (simp add: posts_to_feed_items_def)
    next
      case tr: False
      have raw: "mset (posts_of ?raw) = mset posts" using triples_page_posts [OF tr] c(1) by simp
      have "length ?raw = length posts + length triples"
        using only_posts_and_ads_length [OF triples_page_only, of triples filler] mset_eq_length [OF raw] by simp
      moreover have "length triples \<le> length ads" using size_mset_mono [OF c(2)] by simp
      ultimately have "take RESULT_SIZE ?raw = ?raw" using assms(3) by simp
      then show ?thesis using c(3) tr raw by (simp add: finalize_page_def)
    qed
  qed
qed

text \<open>
  C26. When no score is \<open>NaN\<close> the default blender returns a page made of given posts and ads, none twice; every ad
  stands between two posts that carry no medium or high risk and that the ad's own rules (low
  risk, excluded handles, excluded keywords) allow; and when posts and ads fit on the page
  together no post is lost.
\<close>

theorem partition_organic_page:
  assumes "scores_ordered posts"
  shows "\<exists>items. partition_blend lib posts ads ds = Some (items, ds) \<and>
     mset (posts_of items) \<subseteq># mset posts \<and> mset (ads_of items) \<subseteq># mset ads \<and>
     ads_well_placed (\<lambda>ad p q. organic_neighbour lib ad p \<and> organic_neighbour lib ad q) items \<and>
     (length posts + length ads \<le> RESULT_SIZE \<longrightarrow> mset (posts_of items) = mset posts)"
proof -
  obtain items where "partition_blend lib posts ads ds = Some (items, ds)"
    using partition_returns [OF assms, of lib ads ds] by (auto simp: partition_blend_def)
  then show ?thesis using partition_page [OF assms] partition_keeps_posts [OF assms] by blast
qed

definition sample_lib :: post_text where
  "sample_lib = \<lparr>tokenize = (\<lambda>s. if s = [] then [] else [s]), contains_keyword_sequence = (\<lambda>ts ks. ts = ks),
     token_matches = (=), token_hash = (\<lambda>s. of_nat (length s))\<rparr>"

definition sample_posts :: "nat \<Rightarrow> scored_post list" where
  "sample_posts n = map (\<lambda>i. default_post\<lparr>sp_tweet_id := of_nat i, sp_brand_safety_verdict := Safe\<rparr>) [1..<Suc n]"

definition sample_ad :: "nat \<Rightarrow> ad_index_info" where
  "sample_ad i = default_ad\<lparr>ad_impression_id := of_nat i, ad_insert_position := of_nat i\<rparr>"

theorem partition_organic_page_witness:
  "\<exists>items. partition_blend sample_lib (sample_posts 6) [sample_ad 3] [] = Some (items, []) \<and>
     mset (posts_of items) = mset (sample_posts 6)"
proof -
  have "scores_ordered (sample_posts 6)" by code_simp
  from partition_organic_page [OF this, of sample_lib "[sample_ad 3]" "[]"] show ?thesis
    by (auto simp: sample_posts_def RESULT_SIZE_def)
qed

end
