(* ===== verification/Multi_Risk_Blender.thy ===== *)
theory Multi_Risk_Blender
  imports Ad_Slots
begin

text \<open>
  The multi-risk blender (\<open>home-mixer/ads/multi_risk_blender.rs\<close>): posts are split by risk; ads
  that tolerate high risk may stand between two medium-risk posts, all others stand between two
  posts without risk, and every ad that is not shown is recorded with the reason. Metrics are
  left out.
\<close>

section \<open>Definitions\<close>

record mr_config =
  spacing_cap :: nat
  safe_budget :: nat
  group_size :: nat
  max_medium_slots :: nat

record mr_state =
  safe_opts :: "scored_post option list"
  medium_opts :: "scored_post option list"
  triples :: "ad_triple list"
  slot_tokens :: slot_tokens
  medium_slot_tokens :: slot_tokens
  safe_group_idx :: nat
  medium_pair_idx :: nat
  drops :: "dropped_ad list"

definition record_drop :: "dropped_ad \<Rightarrow> mr_state \<Rightarrow> mr_state" where
  "record_drop d st = st\<lparr>drops := drops st @ [d]\<rparr>"

text \<open>The rules checked in a safe slot and in a medium-risk slot; the first hit ends the check.\<close>

definition safe_slot_block ::
  "post_text \<Rightarrow> ad_index_info \<Rightarrow> scored_post option \<Rightarrow> scored_post option \<Rightarrow> slot_tokens \<Rightarrow> block option \<times> slot_tokens" where
  "safe_slot_block lib ad p q cache =
     (case or_else (low_risk_block ad p q) (handle_block ad p q) of
        Some b \<Rightarrow> (Some b, cache)
      | None \<Rightarrow> keyword_block lib ad p q cache)"

definition medium_slot_block ::
  "post_text \<Rightarrow> ad_index_info \<Rightarrow> scored_post option \<Rightarrow> scored_post option \<Rightarrow> slot_tokens \<Rightarrow> block option \<times> slot_tokens" where
  "medium_slot_block lib ad p q cache =
     (case handle_block ad p q of
        Some b \<Rightarrow> (Some b, cache)
      | None \<Rightarrow> keyword_block lib ad p q cache)"

text \<open>The part of the loop body that offers the current safe slot to the ad.\<close>

definition offer_safe_slot :: "post_text \<Rightarrow> mr_config \<Rightarrow> ad_index_info \<Rightarrow> mr_state \<Rightarrow> mr_state option" where
  "offer_safe_slot lib cfg ad st =
     (if safe_budget cfg \<le> safe_group_idx st \<or> group_size cfg = 0
      then Some (record_drop (drop_ad ad NoEligibleNeighbours) st)
      else let start = safe_group_idx st * group_size cfg
           in if length (safe_opts st) \<le> Suc start then None
              else let p = safe_opts st ! start; q = safe_opts st ! Suc start;
                       (block, cache) = safe_slot_block lib ad p q (slot_tokens st);
                       st1 = st\<lparr>slot_tokens := cache\<rparr>
                   in case block of
                        Some b \<Rightarrow> Some (record_drop (adjacency_drop ad b) st1)
                      | None \<Rightarrow> map_option (\<lambda>(a, b, opts). st1\<lparr>safe_opts := opts,
                                    triples := triples st1 @ [(ad, a, b)],
                                    safe_group_idx := Suc (safe_group_idx st1), slot_tokens := None\<rparr>)
                                  (take_pair start (safe_opts st1)))"

definition place_ad :: "post_text \<Rightarrow> mr_config \<Rightarrow> ad_index_info \<Rightarrow> mr_state \<Rightarrow> mr_state option" where
  "place_ad lib cfg ad st =
     (if spacing_cap cfg \<le> length (triples st) then Some (record_drop (drop_ad ad SpacingCap) st)
      else if is_bsr_high_ad ad \<and> medium_pair_idx st < max_medium_slots cfg
      then let start = medium_pair_idx st * 2
           in if length (medium_opts st) \<le> Suc start then None
              else let p = medium_opts st ! start; q = medium_opts st ! Suc start;
                       (block, cache) = medium_slot_block lib ad p q (medium_slot_tokens st);
                       st1 = st\<lparr>medium_slot_tokens := cache\<rparr>
                   in case block of
                        None \<Rightarrow> map_option (\<lambda>(a, b, opts). st1\<lparr>medium_opts := opts,
                                    triples := triples st1 @ [(ad, a, b)],
                                    medium_pair_idx := Suc (medium_pair_idx st1), medium_slot_tokens := None\<rparr>)
                                  (take_pair start (medium_opts st1))
                      | Some b \<Rightarrow>
                          if safe_budget cfg \<le> safe_group_idx st1 \<or> group_size cfg = 0
                          then Some (record_drop (adjacency_drop ad b) st1)
                          else offer_safe_slot lib cfg ad st1
      else offer_safe_slot lib cfg ad st)"

fun place_ads :: "post_text \<Rightarrow> mr_config \<Rightarrow> ad_index_info list \<Rightarrow> mr_state \<Rightarrow> mr_state option" where
  "place_ads lib cfg [] st = Some st"
| "place_ads lib cfg (ad # ads) st =
     (case place_ad lib cfg ad st of None \<Rightarrow> None | Some st' \<Rightarrow> place_ads lib cfg ads st')"

definition mr_configure :: "scored_post list \<Rightarrow> ad_index_info list \<Rightarrow> mr_config" where
  "mr_configure posts ads =
     (let cap = (length posts - 1) div requested (compute_spacing ads);
          safe_count = length (filter (\<lambda>p. \<not> is_medium_risk p \<and> \<not> is_high_risk p) posts);
          medium_count = length (filter is_medium_risk posts);
          budget = min (min (length ads) cap) (safe_count div 2)
      in \<lparr>spacing_cap = cap, safe_budget = budget,
          group_size = (if 0 < budget then safe_count div budget else 0),
          max_medium_slots = medium_count div 2\<rparr>)"

definition multi_risk_blend_with_drops :: "post_text \<Rightarrow> nat \<Rightarrow> blender" where
  "multi_risk_blend_with_drops lib min_posts posts ads ds =
     (if ads = [] \<or> length posts < min_posts
      then Some (posts_to_feed_items posts, ds @ map (\<lambda>ad. drop_ad ad TooFewPosts) ads)
      else let cfg = mr_configure posts ads
           in if safe_budget cfg = 0 \<and>
                 \<not> (list_ex is_bsr_high_ad ads \<and> 0 < max_medium_slots cfg \<and> 0 < spacing_cap cfg)
              then let reason = (if spacing_cap cfg = 0 then SpacingCap else NoEligibleNeighbours)
                   in Some (posts_to_feed_items posts, ds @ map (\<lambda>ad. drop_ad ad reason) ads)
              else let high = filter is_high_risk posts;
                       medium = filter (\<lambda>p. \<not> is_high_risk p \<and> is_medium_risk p) posts;
                       safe = filter (\<lambda>p. \<not> is_high_risk p \<and> \<not> is_medium_risk p) posts
                   in Option.bind
                      (place_ads lib cfg ads
                        \<lparr>safe_opts = map Some safe, medium_opts = map Some medium, triples = [],
                         slot_tokens = None, medium_slot_tokens = None, safe_group_idx = 0,
                         medium_pair_idx = 0, drops = ds\<rparr>)
                      (\<lambda>st. map_option (\<lambda>filler.
                         if triples st = [] then (posts_to_feed_items filler, drops st)
                         else let (items, ds') = truncate_recording_drops
                                    (triples_page (triples st) filler) RESULT_SIZE (drops st)
                              in (renumber items, ds'))
                         (by_score (flatten (safe_opts st) @ flatten (medium_opts st) @ high))))"

definition multi_risk_blend :: "post_text \<Rightarrow> blender" where
  "multi_risk_blend lib = multi_risk_blend_with_drops lib MIN_POSTS_FOR_ADS"

section \<open>The acceptance rule\<close>

definition multi_risk_neighbour :: "post_text \<Rightarrow> ad_index_info \<Rightarrow> scored_post \<Rightarrow> bool" where
  "multi_risk_neighbour lib ad p \<longleftrightarrow>
     \<not> is_high_risk p \<and> (is_medium_risk p \<longrightarrow> is_bsr_high_ad ad) \<and> neighbour_allowed lib ad p"

section \<open>The loop\<close>

text \<open>
  The invariant of the loop over the ads: both pools are in order, no post is lost, the triples
  are acceptable, and each ad met so far (\<open>seen\<close>) is either in a triple or recorded as dropped.
\<close>

definition mr_inv :: "post_text \<Rightarrow> mr_config \<Rightarrow> scored_post list \<Rightarrow> scored_post list \<Rightarrow> ad_index_info list \<Rightarrow>
    dropped_ad list \<Rightarrow> mr_state \<Rightarrow> bool" where
  "mr_inv lib cfg safe medium seen ds st \<longleftrightarrow>
     (group_size cfg \<noteq> 0 \<longrightarrow>
        pool_ok lib safe (safe_opts st) (group_size cfg) (safe_budget cfg) (safe_group_idx st) (slot_tokens st)) \<and>
     pool_ok lib medium (medium_opts st) 2 (max_medium_slots cfg) (medium_pair_idx st) (medium_slot_tokens st) \<and>
     mset (flatten (safe_opts st)) + mset (flatten (medium_opts st)) + mset (triple_posts (triples st)) =
       mset safe + mset medium \<and>
     list_all (\<lambda>(ad, p, q). multi_risk_neighbour lib ad p \<and> multi_risk_neighbour lib ad q) (triples st) \<and>
     mset (map fst (triples st)) \<subseteq># mset seen \<and>
     mset (map (ad_impression_id \<circ> fst) (triples st)) + mset (map da_impression_id (drops st)) =
       mset (map ad_impression_id seen) + mset (map da_impression_id ds)"

lemma mr_inv_drop:
  "mr_inv lib cfg safe medium seen ds st \<Longrightarrow> da_impression_id d = ad_impression_id ad \<Longrightarrow>
   mr_inv lib cfg safe medium (seen @ [ad]) ds (record_drop d st)"
  by (auto simp: mr_inv_def record_drop_def subseteq_add_mset)

lemma mr_inv_safe_cache:
  assumes "mr_inv lib cfg safe medium seen ds st"
    and "safe_group_idx st < safe_budget cfg \<Longrightarrow> group_size cfg \<noteq> 0 \<Longrightarrow>
      slot_cache_ok lib (safe_opts st ! (safe_group_idx st * group_size cfg))
        (safe_opts st ! Suc (safe_group_idx st * group_size cfg)) cache"
  shows "mr_inv lib cfg safe medium seen ds (st\<lparr>slot_tokens := cache\<rparr>)"
  using assms by (auto simp: mr_inv_def intro: pool_cache)

lemma mr_inv_medium_cache:
  assumes "mr_inv lib cfg safe medium seen ds st"
    and "medium_pair_idx st < max_medium_slots cfg \<Longrightarrow>
      slot_cache_ok lib (medium_opts st ! (medium_pair_idx st * 2)) (medium_opts st ! Suc (medium_pair_idx st * 2)) cache"
  shows "mr_inv lib cfg safe medium seen ds (st\<lparr>medium_slot_tokens := cache\<rparr>)"
  using assms by (auto simp: mr_inv_def intro: pool_cache)

lemma mr_inv_place_safe:
  assumes inv: "mr_inv lib cfg safe medium seen ds st" and g: "group_size cfg \<noteq> 0"
    and tp: "take_pair (safe_group_idx st * group_size cfg) (safe_opts st) = Some (a, b, opts)"
    and ok: "multi_risk_neighbour lib ad a" "multi_risk_neighbour lib ad b"
  shows "mr_inv lib cfg safe medium (seen @ [ad]) ds (st\<lparr>safe_opts := opts, triples := triples st @ [(ad, a, b)],
    safe_group_idx := Suc (safe_group_idx st), slot_tokens := None\<rparr>)"
proof -
  note t = take_pair_Some [OF tp]
  have "pool_ok lib safe opts (group_size cfg) (safe_budget cfg) (Suc (safe_group_idx st)) None"
    using inv g pool_place unfolding t(2) mr_inv_def by blast
  with inv t(1) ok show ?thesis by (auto simp: mr_inv_def ac_simps)
qed

lemma mr_inv_place_medium:
  assumes inv: "mr_inv lib cfg safe medium seen ds st"
    and tp: "take_pair (medium_pair_idx st * 2) (medium_opts st) = Some (a, b, opts)"
    and ok: "multi_risk_neighbour lib ad a" "multi_risk_neighbour lib ad b"
  shows "mr_inv lib cfg safe medium (seen @ [ad]) ds (st\<lparr>medium_opts := opts, triples := triples st @ [(ad, a, b)],
    medium_pair_idx := Suc (medium_pair_idx st), medium_slot_tokens := None\<rparr>)"
proof -
  note t = take_pair_Some [OF tp]
  have "pool_ok lib medium opts 2 (max_medium_slots cfg) (Suc (medium_pair_idx st)) None"
    using inv pool_place unfolding t(2) mr_inv_def by blast
  with inv t(1) ok show ?thesis by (auto simp: mr_inv_def ac_simps)
qed

text \<open>The three kinds of posts of the page.\<close>

definition safe_class :: "scored_post list \<Rightarrow> bool" where
  "safe_class ps \<longleftrightarrow> list_all (\<lambda>p. \<not> is_high_risk p \<and> \<not> is_medium_risk p) ps"

definition medium_class :: "scored_post list \<Rightarrow> bool" where
  "medium_class ps \<longleftrightarrow> list_all (\<lambda>p. \<not> is_high_risk p \<and> is_medium_risk p) ps"

lemma medium_low_risk_allowed: "is_medium_risk p \<Longrightarrow> low_risk_allowed ad p"
  by (simp add: is_medium_risk_def low_risk_allowed_def)

lemma offer_safe_slot_inv:
  assumes inv: "mr_inv lib cfg safe medium seen ds st" and safe: "safe_class safe"
  shows "\<exists>st'. offer_safe_slot lib cfg ad st = Some st' \<and> mr_inv lib cfg safe medium (seen @ [ad]) ds st'"
proof (cases "safe_budget cfg \<le> safe_group_idx st \<or> group_size cfg = 0")
  case True
  then show ?thesis using mr_inv_drop [OF inv] by (simp add: offer_safe_slot_def)
next
  case False
  let ?s = "safe_group_idx st * group_size cfg"
  let ?p = "safe ! ?s" and ?q = "safe ! Suc ?s"
  have pool: "pool_ok lib safe (safe_opts st) (group_size cfg) (safe_budget cfg) (safe_group_idx st) (slot_tokens st)"
    using inv False by (simp add: mr_inv_def)
  note slot = pool_slot [OF pool] 
  have idx: "safe_group_idx st < safe_budget cfg" using False by simp
  define r where "r = safe_slot_block lib ad (Some ?p) (Some ?q) (slot_tokens st)"
  have cache: "slot_cache_ok lib (Some ?p) (Some ?q) (snd r)"
    using keyword_block_cache(2) [OF slot(4) [OF idx]] slot(4) [OF idx] by (auto simp: r_def safe_slot_block_def split: option.split)
  have inv1: "mr_inv lib cfg safe medium seen ds (st\<lparr>slot_tokens := snd r\<rparr>)"
    using cache slot(2,3) [OF idx] by (intro mr_inv_safe_cache [OF inv]) simp
  have eq: "offer_safe_slot lib cfg ad st = (case fst r of
       Some b \<Rightarrow> Some (record_drop (adjacency_drop ad b) (st\<lparr>slot_tokens := snd r\<rparr>))
     | None \<Rightarrow> Some (st\<lparr>slot_tokens := None, safe_opts := (safe_opts st)[?s := None, Suc ?s := None],
         triples := triples st @ [(ad, ?p, ?q)], safe_group_idx := Suc (safe_group_idx st)\<rparr>))"
    using False slot(1,2,3,5) [OF idx] by (simp add: offer_safe_slot_def r_def Let_def split_def split: option.split)
  show ?thesis
  proof (cases "fst r")
    case (Some b)
    then show ?thesis unfolding eq using mr_inv_drop [OF inv1] by simp
  next
    case None
    then have "neighbour_allowed lib ad ?p" "neighbour_allowed lib ad ?q"
      using blocks_None_iff [OF slot(4) [OF idx], of ad]
      by (auto simp: r_def safe_slot_block_def split: option.splits)
    moreover have "\<not> is_high_risk ?p \<and> \<not> is_medium_risk ?p" "\<not> is_high_risk ?q \<and> \<not> is_medium_risk ?q"
      using safe slot(1) [OF idx] pool by (auto simp: safe_class_def list_all_length pool_ok_def)
    ultimately have "multi_risk_neighbour lib ad ?p" "multi_risk_neighbour lib ad ?q"
      by (auto simp: multi_risk_neighbour_def)
    from mr_inv_place_safe [OF inv _ slot(5) [OF idx] this] False None show ?thesis unfolding eq by (cases st) simp
  qed
qed

lemma place_ad_inv:
  assumes inv: "mr_inv lib cfg safe medium seen ds st" and safe: "safe_class safe" and medium: "medium_class medium"
  shows "\<exists>st'. place_ad lib cfg ad st = Some st' \<and> mr_inv lib cfg safe medium (seen @ [ad]) ds st'"
proof (cases "spacing_cap cfg \<le> length (triples st) \<or> \<not> (is_bsr_high_ad ad \<and> medium_pair_idx st < max_medium_slots cfg)")
  case True
  then show ?thesis using mr_inv_drop [OF inv] offer_safe_slot_inv [OF inv safe] by (auto simp: place_ad_def)
next
  case False
  let ?s = "medium_pair_idx st * 2"
  let ?p = "medium ! ?s" and ?q = "medium ! Suc ?s"
  have pool: "pool_ok lib medium (medium_opts st) 2 (max_medium_slots cfg) (medium_pair_idx st) (medium_slot_tokens st)"
    using inv by (simp add: mr_inv_def)
  have idx: "medium_pair_idx st < max_medium_slots cfg" using False by simp
  note slot = pool_slot [OF pool idx]
  define r where "r = medium_slot_block lib ad (Some ?p) (Some ?q) (medium_slot_tokens st)"
  have cache: "slot_cache_ok lib (Some ?p) (Some ?q) (snd r)"
    using keyword_block_cache(2) [OF slot(4)] slot(4) by (auto simp: r_def medium_slot_block_def split: option.split)
  let ?st1 = "st\<lparr>medium_slot_tokens := snd r\<rparr>"
  have inv1: "mr_inv lib cfg safe medium seen ds ?st1"
    using cache slot(2,3) by (intro mr_inv_medium_cache [OF inv]) simp
  have eq: "place_ad lib cfg ad st = (case fst r of
       None \<Rightarrow> Some (st\<lparr>medium_slot_tokens := None, medium_opts := (medium_opts st)[?s := None, Suc ?s := None],
         triples := triples st @ [(ad, ?p, ?q)], medium_pair_idx := Suc (medium_pair_idx st)\<rparr>)
     | Some b \<Rightarrow> if safe_budget cfg \<le> safe_group_idx st \<or> group_size cfg = 0
         then Some (record_drop (adjacency_drop ad b) ?st1) else offer_safe_slot lib cfg ad ?st1)"
    using False slot(1,2,3,5) by (simp add: place_ad_def r_def Let_def split_def split: option.split)
  show ?thesis
  proof (cases "fst r")
    case (Some b)
    then show ?thesis unfolding eq using mr_inv_drop [OF inv1] offer_safe_slot_inv [OF inv1 safe] by simp
  next
    case None
    have m: "\<not> is_high_risk ?p \<and> is_medium_risk ?p" "\<not> is_high_risk ?q \<and> is_medium_risk ?q"
      using medium slot(1) pool by (auto simp: medium_class_def list_all_length pool_ok_def)
    from None have "handle_block ad (Some ?p) (Some ?q) = None"
      "fst (keyword_block lib ad (Some ?p) (Some ?q) (medium_slot_tokens st)) = None"
      by (auto simp: r_def medium_slot_block_def split: option.splits)
    then have "multi_risk_neighbour lib ad ?p" "multi_risk_neighbour lib ad ?q"
      using keyword_block_None [OF slot(4)] m False medium_low_risk_allowed
      by (auto simp: multi_risk_neighbour_def neighbour_allowed_def handle_block_None)
    from mr_inv_place_medium [OF inv slot(5) this] None show ?thesis unfolding eq by (cases st) simp
  qed
qed

lemma place_ads_inv:
  assumes "mr_inv lib cfg safe medium seen ds st" and "safe_class safe" and "medium_class medium"
  shows "\<exists>st'. place_ads lib cfg ads st = Some st' \<and> mr_inv lib cfg safe medium (seen @ ads) ds st'"
  using assms(1)
proof (induction ads arbitrary: seen st)
  case (Cons ad ads)
  from place_ad_inv [OF Cons.prems assms(2,3)] obtain st' where
    "place_ad lib cfg ad st = Some st'" "mr_inv lib cfg safe medium (seen @ [ad]) ds st'" by blast
  with Cons.IH [of "seen @ [ad]" st'] show ?case by simp
qed simp

section \<open>The blender\<close>

lemma mr_pools:
  assumes "cfg = mr_configure posts ads"
    and "safe = filter (\<lambda>p. \<not> is_high_risk p \<and> \<not> is_medium_risk p) posts"
    and "medium = filter (\<lambda>p. \<not> is_high_risk p \<and> is_medium_risk p) posts"
  shows "group_size cfg \<noteq> 0 \<longrightarrow> pool_ok lib safe (map Some safe) (group_size cfg) (safe_budget cfg) 0 None"
    and "pool_ok lib medium (map Some medium) 2 (max_medium_slots cfg) 0 None"
proof -
  have s: "safe = filter (\<lambda>p. \<not> is_medium_risk p \<and> \<not> is_high_risk p) posts"
    unfolding assms(2) by (rule filter_cong) auto
  have m: "medium = filter is_medium_risk posts"
    unfolding assms(3) by (rule filter_cong) (auto simp: is_high_risk_def is_medium_risk_def)
  show "pool_ok lib medium (map Some medium) 2 (max_medium_slots cfg) 0 None"
    by (rule pool_start) (simp_all add: assms(1) mr_configure_def m Let_def)
  show "group_size cfg \<noteq> 0 \<longrightarrow> pool_ok lib safe (map Some safe) (group_size cfg) (safe_budget cfg) 0 None"
  proof
    assume "group_size cfg \<noteq> 0"
    then have b: "0 < safe_budget cfg" and g: "group_size cfg = length safe div safe_budget cfg"
      by (auto simp: assms(1) mr_configure_def s Let_def split: if_splits)
    have "safe_budget cfg \<le> length safe div 2" by (simp add: assms(1) mr_configure_def s Let_def)
    then have "2 * safe_budget cfg \<le> length safe" by linarith
    then have "2 \<le> group_size cfg" using b by (simp add: g less_eq_div_iff_mult_less_eq)
    moreover have "safe_budget cfg * group_size cfg \<le> length safe" by (simp add: g)
    ultimately show "pool_ok lib safe (map Some safe) (group_size cfg) (safe_budget cfg) 0 None" by (rule pool_start)
  qed
qed

lemma split_by_risk:
  "mset (filter (\<lambda>p. \<not> is_high_risk p \<and> \<not> is_medium_risk p) posts) +
   mset (filter (\<lambda>p. \<not> is_high_risk p \<and> is_medium_risk p) posts) + mset (filter is_high_risk posts) = mset posts"
  by (induction posts) auto

lemma multi_risk_recorded:
  assumes "scores_ordered posts"
  shows "\<exists>r. multi_risk_blend_with_drops lib mp posts ads ds = Some r \<and>
    recorded_page (\<lambda>ad p q. multi_risk_neighbour lib ad p \<and> multi_risk_neighbour lib ad q) posts ads ds r"
proof -
  let ?cfg = "mr_configure posts ads"
  let ?safe = "filter (\<lambda>p. \<not> is_high_risk p \<and> \<not> is_medium_risk p) posts"
  let ?medium = "filter (\<lambda>p. \<not> is_high_risk p \<and> is_medium_risk p) posts"
  let ?ok = "\<lambda>ad p q. multi_risk_neighbour lib ad p \<and> multi_risk_neighbour lib ad q"
  let ?st0 = "\<lparr>safe_opts = map Some ?safe, medium_opts = map Some ?medium, triples = [],
      slot_tokens = None, medium_slot_tokens = None, safe_group_idx = 0, medium_pair_idx = 0, drops = ds\<rparr>"
  have "mr_inv lib ?cfg ?safe ?medium [] ds ?st0"
    using mr_pools [where cfg = ?cfg and safe = ?safe and medium = ?medium and lib = lib, OF refl refl refl] by (simp add: mr_inv_def)
  from place_ads_inv [OF this, of ads] obtain st where
    st: "place_ads lib ?cfg ads ?st0 = Some st" "mr_inv lib ?cfg ?safe ?medium ads ds st"
    by (auto simp: safe_class_def medium_class_def list_all_iff)
  let ?left = "flatten (safe_opts st) @ flatten (medium_opts st) @ filter is_high_risk posts"
  have left: "mset (triple_posts (triples st)) + mset ?left = mset posts"
    using st(2) split_by_risk [of posts] by (simp add: mr_inv_def ac_simps)
  then have "mset ?left \<subseteq># mset posts" by (metis mset_subset_eq_add_right)
  from by_score_returns [OF assms this] obtain filler where filler: "by_score ?left = Some filler" "mset filler = mset ?left"
    by blast
  have posts: "mset (triple_posts (triples st)) + mset filler = mset posts" using left filler(2) by simp
  have none: "recorded_page ?ok posts ads ds (posts_to_feed_items filler, drops st)" if "triples st = []"
    using that st(2) posts by (intro recorded_page_no_ads) (auto simp: mr_inv_def)
  have some: "recorded_page ?ok posts ads ds
      (renumber (fst (truncate_recording_drops (triples_page (triples st) filler) RESULT_SIZE (drops st))),
       snd (truncate_recording_drops (triples_page (triples st) filler) RESULT_SIZE (drops st)))" if "triples st \<noteq> []"
    using triples_page_posts [OF that, of filler] posts st(2)
    by (intro recorded_page_truncate) (auto simp: mr_inv_def triples_page_neighbours comp_def)
  consider (early) "ads = [] \<or> length posts < mp" | (none) "\<not> (ads = [] \<or> length posts < mp)"
      "safe_budget ?cfg = 0 \<and> \<not> (list_ex is_bsr_high_ad ads \<and> 0 < max_medium_slots ?cfg \<and> 0 < spacing_cap ?cfg)"
    | (loop) "\<not> (ads = [] \<or> length posts < mp)"
      "\<not> (safe_budget ?cfg = 0 \<and> \<not> (list_ex is_bsr_high_ad ads \<and> 0 < max_medium_slots ?cfg \<and> 0 < spacing_cap ?cfg))"
    by blast
  then show ?thesis
  proof cases
    case early
    then show ?thesis by (auto simp: multi_risk_blend_with_drops_def comp_def intro!: recorded_page_no_ads)
  next
    case none
    then show ?thesis by (auto simp: multi_risk_blend_with_drops_def Let_def comp_def intro!: recorded_page_no_ads)
  next
    case loop
    have "multi_risk_blend_with_drops lib mp posts ads ds = Some
        (if triples st = [] then (posts_to_feed_items filler, drops st)
         else (renumber (fst (truncate_recording_drops (triples_page (triples st) filler) RESULT_SIZE (drops st))),
           snd (truncate_recording_drops (triples_page (triples st) filler) RESULT_SIZE (drops st))))"
      unfolding multi_risk_blend_with_drops_def Let_def
      by (simp only: if_not_P [OF loop(1)] if_not_P [OF loop(2)] st(1) option.map bind.bind_lunit filler(1) split_def)
    then show ?thesis using none some by (auto split: if_splits)
  qed
qed

interpretation multi_risk: recording_blender "multi_risk_blend lib"
  "\<lambda>ad p q. multi_risk_neighbour lib ad p \<and> multi_risk_neighbour lib ad q" "\<lambda>ps _. scores_ordered ps" for lib
  unfolding multi_risk_blend_def by (rule recording_blenderI) (rule multi_risk_recorded)

section \<open>Properties\<close>

text \<open>
  C27. When no score is \<open>NaN\<close> the multi-risk blender returns a page on which no ad stands next to a high-risk
  post, an ad stands next to medium-risk posts only if it tolerates high risk, and the ad's own
  rules hold; and every ad handed to it is either on the page or recorded as dropped, exactly
  once.
\<close>

theorem multi_risk_page:
  assumes "scores_ordered posts"
  shows "\<exists>items drops. multi_risk_blend lib posts ads [] = Some (items, drops) \<and>
     mset (posts_of items) \<subseteq># mset posts \<and>
     ads_well_placed (\<lambda>ad p q. multi_risk_neighbour lib ad p \<and> multi_risk_neighbour lib ad q) items \<and>
     mset (map ad_impression_id (ads_of items)) + mset (map da_impression_id drops) =
       mset (map ad_impression_id ads)"
proof -
  obtain items drops where r: "multi_risk_blend lib posts ads [] = Some (items, drops)"
    using multi_risk.returns [OF assms, of lib ads "[]"] by auto
  from multi_risk.posts_given [OF assms r] multi_risk.well_placed [OF assms r] multi_risk.drops_recorded [OF assms r] r
  show ?thesis by auto
qed

definition risk_lib :: post_text where
  "risk_lib = \<lparr>tokenize = (\<lambda>s. if s = [] then [] else [s]), contains_keyword_sequence = (\<lambda>ts ks. ts = ks),
     token_matches = (=), token_hash = (\<lambda>s. of_nat (length s))\<rparr>"

definition risk_posts :: "scored_post list" where
  "risk_posts = map (\<lambda>i. default_post\<lparr>sp_tweet_id := of_nat i, sp_brand_safety_verdict := MediumRisk\<rparr>) [1..<7]"

theorem multi_risk_page_witness:
  "\<exists>items drops. multi_risk_blend risk_lib risk_posts [default_ad\<lparr>ad_impression_id := 5\<rparr>] [] = Some (items, drops) \<and>
     mset (map ad_impression_id (ads_of items)) + mset (map da_impression_id drops) = {#5#}"
proof -
  have "scores_ordered risk_posts" by code_simp
  from multi_risk_page [OF this, of risk_lib "[default_ad\<lparr>ad_impression_id := 5\<rparr>]"] show ?thesis by auto
qed

end
