(* ===== verification/Neighbours.thy ===== *)
theory Neighbours
  imports Ad_Slots "HOL-Library.Product_Lexorder"
begin

text \<open>
  The neighbour checker of the newer blenders (\<open>home-mixer/ads/neighbours.rs\<close>): whether a post may
  stand next to an ad, with an index of the ad's keywords by their first token; the capacity of a
  page; and the assembly of a page from an order of the posts and the places of the ads. The cache
  of tokenized posts inside the checker only avoids repeated calls of the tokenizer, a function,
  and is left out.
\<close>

section \<open>The keyword index\<close>

datatype fit = Compatible | Risk | Blocked block

record keyword_index =
  ki_keywords :: "(string \<times> string list) list"
  ki_by_first_token :: "(u64 \<times> nat) list"

definition keyword_index_new :: "post_text \<Rightarrow> ad_index_info \<Rightarrow> keyword_index option" where
  "keyword_index_new lib ad =
     map_option (\<lambda>kws. \<lparr>ki_keywords = kws,
        ki_by_first_token = sort (map (\<lambda>(i, (_, tokens)). (token_hash lib (tokens ! 0), i)) (enumerate 0 kws))\<rparr>)
       (ad_keywords lib ad)"

definition matches_at :: "post_text \<Rightarrow> string list \<Rightarrow> nat \<Rightarrow> string list \<Rightarrow> bool" where
  "matches_at lib tokens offset kw \<longleftrightarrow>
     offset + length kw \<le> length tokens \<and>
     list_all (\<lambda>j. token_matches lib (tokens ! (offset + j)) (kw ! j)) [0..<length kw]"

definition strip_prefix_char :: "string \<Rightarrow> string option" where
  "strip_prefix_char t = (case t of c # cs \<Rightarrow> if c = CHR ''#'' \<or> c = CHR ''@'' then Some cs else None | [] \<Rightarrow> None)"

definition token_keys :: "string \<Rightarrow> string list" where
  "token_keys t = t # (case strip_prefix_char t of Some u \<Rightarrow> [u] | None \<Rightarrow> [])"

text \<open>The body of the inner loop of \<open>first_match\<close>: look up one key at one offset.\<close>

definition index_lookup ::
  "post_text \<Rightarrow> keyword_index \<Rightarrow> string list \<Rightarrow> nat \<times> string \<Rightarrow> nat option \<Rightarrow> nat option" where
  "index_lookup lib ki tokens ok best =
     (let (offset, key) = ok;
          hash = token_hash lib key;
          start = partition_point (\<lambda>(h, _). h < hash) (ki_by_first_token ki);
          found = List.find (\<lambda>i. matches_at lib tokens offset (snd (ki_keywords ki ! i)))
            (map snd (takeWhile (\<lambda>(h, i). h = hash \<and> is_none_or (\<lambda>b. i < b) best)
               (drop start (ki_by_first_token ki))))
      in if found \<noteq> None then found else best)"

definition first_match :: "post_text \<Rightarrow> keyword_index \<Rightarrow> string list \<Rightarrow> string option" where
  "first_match lib ki tokens =
     map_option (\<lambda>i. fst (ki_keywords ki ! i))
       (fold (index_lookup lib ki tokens)
         (concat (map (\<lambda>offset. map (\<lambda>key. (offset, key)) (token_keys (tokens ! offset))) [0..<length tokens])) None)"

section \<open>Fit and class\<close>

record ad_rules =
  ar_ad :: ad_index_info
  ar_sensitive :: bool
  ar_bsr_high :: bool

definition ad_rules_new :: "ad_index_info \<Rightarrow> ad_rules" where
  "ad_rules_new ad = \<lparr>ar_ad = ad, ar_sensitive = is_bsr_low_ad ad, ar_bsr_high = is_bsr_high_ad ad\<rparr>"

definition fit_of :: "post_text \<Rightarrow> ad_rules \<Rightarrow> scored_post \<Rightarrow> fit" where
  "fit_of lib r p =
     (if is_high_risk p \<or> (is_medium_risk p \<and> \<not> ar_bsr_high r) then Risk
      else case or_else (low_risk_block (ar_ad r) (Some p) None) (handle_block (ar_ad r) (Some p) None) of
             Some b \<Rightarrow> Blocked b
           | None \<Rightarrow>
               (case keyword_index_new lib (ar_ad r) of
                  None \<Rightarrow> Compatible
                | Some ki \<Rightarrow>
                    (case first_match lib ki (tokenize_tweet_text lib p) of
                       Some kw \<Rightarrow> Blocked \<lparr>bl_tweet_id = sp_tweet_id p, bl_reason = ExcludedKeyword kw\<rparr>
                     | None \<Rightarrow> Compatible)))"

definition compatible :: "post_text \<Rightarrow> ad_rules \<Rightarrow> scored_post \<Rightarrow> bool" where
  "compatible lib r p \<longleftrightarrow> fit_of lib r p = Compatible"

datatype post_class = ClassSafe | ClassLow | ClassMedium | ClassHigh

definition class_of :: "scored_post \<Rightarrow> post_class" where
  "class_of p =
     (case sp_brand_safety_verdict p of
        HighRisk \<Rightarrow> ClassHigh | MediumRisk \<Rightarrow> ClassMedium | LowRisk \<Rightarrow> ClassLow | _ \<Rightarrow> ClassSafe)"

record class_counts =
  cc_safe :: nat
  cc_low :: nat
  cc_medium :: nat

definition count_class :: "scored_post \<Rightarrow> class_counts \<Rightarrow> class_counts" where
  "count_class p c =
     (case class_of p of
        ClassSafe \<Rightarrow> c\<lparr>cc_safe := cc_safe c + 1\<rparr>
      | ClassLow \<Rightarrow> c\<lparr>cc_low := cc_low c + 1\<rparr>
      | ClassMedium \<Rightarrow> c\<lparr>cc_medium := cc_medium c + 1\<rparr>
      | ClassHigh \<Rightarrow> c)"

definition class_counts_of :: "scored_post list \<Rightarrow> class_counts" where
  "class_counts_of ps = fold count_class ps \<lparr>cc_safe = 0, cc_low = 0, cc_medium = 0\<rparr>"

section \<open>Page capacity and drops\<close>

text \<open>\<open>None\<close> is the division by zero when \<open>spacing + 1\<close> wraps to 0.\<close>

definition page_capacity :: "nat \<Rightarrow> nat \<Rightarrow> nat \<Rightarrow> nat option" where
  "page_capacity spacing posts result_size =
     (if posts < 2 \<or> result_size < 3 \<or> spacing = 0 then Some 0
      else if usize_add spacing 1 = 0 then None
      else Some (min ((posts - 2) div spacing + 1)
                     (usize_add (result_size - 2) spacing div usize_add spacing 1)))"

text \<open>The first block of each rank (low risk, handle, keyword) and the number of eligible posts.\<close>

definition block_rank :: "block \<Rightarrow> nat" where
  "block_rank b = (case bl_reason b of LowRiskNeighbour \<Rightarrow> 0 | ExcludedHandle _ \<Rightarrow> 1 | ExcludedKeyword _ \<Rightarrow> 2)"

definition note_fit :: "fit \<Rightarrow> nat \<times> block option list \<Rightarrow> nat \<times> block option list" where
  "note_fit f acc =
     (case acc of (eligible, first) \<Rightarrow>
        (case f of
           Risk \<Rightarrow> (eligible, first)
         | Compatible \<Rightarrow> (eligible + 1, first)
         | Blocked b \<Rightarrow> (eligible + 1, first[block_rank b := or_else (first ! block_rank b) (Some b)])))"

definition unplaceable_drop :: "ad_index_info \<Rightarrow> fit list \<Rightarrow> dropped_ad" where
  "unplaceable_drop ad fits =
     (let (eligible, first) = fold note_fit fits (0, [None, None, None])
      in case flatten first of
           b # _ \<Rightarrow> if 2 \<le> eligible then adjacency_drop ad b else drop_ad ad NoEligibleNeighbours
         | [] \<Rightarrow> drop_ad ad NoEligibleNeighbours)"

definition safe_slot_estimate :: "scored_post list \<Rightarrow> ad_index_info list \<Rightarrow> nat" where
  "safe_slot_estimate posts ads =
     (let counts = class_counts_of posts;
          normal_ads = length (filter (\<lambda>ad. \<not> is_bsr_low_ad ad) ads);
          high_ads = length (filter is_bsr_high_ad ads)
      in min ((cc_safe counts + cc_low counts) div 2) (cc_safe counts div 2 + normal_ads) +
         min high_ads (cc_medium counts div 2))"

section \<open>Assembly\<close>

text \<open>\<open>take\<close> at an index; \<open>None\<close> when the index is out of range.\<close>

definition take_at :: "nat \<Rightarrow> 'a option list \<Rightarrow> ('a option \<times> 'a option list) option" where
  "take_at i xs = (if i < length xs then Some (xs ! i, xs[i := None]) else None)"

fun place_marks :: "(nat \<times> nat) list \<Rightarrow> nat option list \<Rightarrow> ad_index_info option list \<Rightarrow> dropped_ad list \<Rightarrow>
    (nat option list \<times> ad_index_info option list \<times> dropped_ad list) option" where
  "place_marks [] ad_at ads drops = Some (ad_at, ads, drops)"
| "place_marks ((index, ad) # rest) ad_at ads drops =
     (if index < length ad_at then place_marks rest (ad_at[index := Some ad]) ads drops
      else case take_at ad ads of
             None \<Rightarrow> None
           | Some (Some a, ads') \<Rightarrow> place_marks rest ad_at ads' (drops @ [drop_ad a Truncated])
           | Some (None, ads') \<Rightarrow> place_marks rest ad_at ads' drops)"

fun emit_items :: "nat list \<Rightarrow> nat option list \<Rightarrow> scored_post option list \<Rightarrow> ad_index_info option list \<Rightarrow>
    feed_item list option" where
  "emit_items (post # order) (mark # marks) posts ads =
     (let ad_part = (case mark of None \<Rightarrow> Some (None, ads) | Some ad \<Rightarrow> take_at ad ads)
      in case (ad_part, take_at post posts) of
           (Some (a, ads'), Some (p, posts')) \<Rightarrow>
             map_option (\<lambda>items. (case a of Some ad \<Rightarrow> [ad_item ad] | None \<Rightarrow> []) @
                                 (case p of Some x \<Rightarrow> [post_item x] | None \<Rightarrow> []) @ items)
               (emit_items order marks posts' ads')
         | _ \<Rightarrow> None)"
| "emit_items order marks posts ads = Some []"

definition assemble :: "scored_post list \<Rightarrow> ad_index_info list \<Rightarrow> nat list \<Rightarrow> (nat \<times> nat) list \<Rightarrow> nat \<Rightarrow>
    dropped_ad list \<Rightarrow> (feed_item list \<times> dropped_ad list) option" where
  "assemble posts ads order ad_before result_size drops =
     (case place_marks ad_before (map (\<lambda>_. None) order) (map Some ads) drops of
        None \<Rightarrow> None
      | Some (ad_at, ads1, drops1) \<Rightarrow>
          map_option (\<lambda>items. let (items1, drops2) = truncate_recording_drops items result_size drops1
                             in (renumber items1, drops2))
            (emit_items order ad_at (map Some posts) ads1))"

section \<open>The keyword index finds the first keyword\<close>

lemma takeWhile_filter_sorted:
  "sorted_wrt R xs \<Longrightarrow> (\<And>x y. x \<in> set xs \<Longrightarrow> y \<in> set xs \<Longrightarrow> R x y \<Longrightarrow> P y \<Longrightarrow> P x) \<Longrightarrow> takeWhile P xs = filter P xs"
proof (induction xs)
  case (Cons x xs)
  show ?case
  proof (cases "P x")
    case True
    have "takeWhile P xs = filter P xs"
      by (rule Cons.IH) (use Cons.prems in \<open>auto intro: Cons.prems(2)\<close>)
    with True show ?thesis by simp
  next
    case False
    have "\<not> P y" if "y \<in> set xs" for y using Cons.prems False that by auto
    with False show ?thesis by simp
  qed
qed simp

lemma drop_partition_point_sorted:
  assumes "sorted_wrt R xs" and "\<And>x y. x \<in> set xs \<Longrightarrow> y \<in> set xs \<Longrightarrow> R x y \<Longrightarrow> P y \<Longrightarrow> P x"
  shows "drop (partition_point P xs) xs = filter (\<lambda>x. \<not> P x) xs"
proof -
  have "drop (partition_point P xs) xs = dropWhile P xs"
    by (simp add: partition_point_def dropWhile_eq_drop)
  moreover have "filter (\<lambda>x. \<not> P x) xs = filter (\<lambda>x. \<not> P x) (takeWhile P xs) @ filter (\<lambda>x. \<not> P x) (dropWhile P xs)"
    by (metis filter_append takeWhile_dropWhile_id)
  moreover have "filter (\<lambda>x. \<not> P x) (takeWhile P xs) = []" by (auto simp: filter_empty_conv dest: set_takeWhileD)
  moreover have "\<not> P y" if y: "y \<in> set (dropWhile P xs)" for y
  proof
    assume "P y"
    obtain z zs where z: "dropWhile P xs = z # zs" using y by (cases "dropWhile P xs") auto
    then have "\<not> P z" by (metis hd_dropWhile list.distinct(1) list.sel(1))
    have "sorted_wrt R (z # zs)" using assms(1) z by (metis sorted_wrt_append takeWhile_dropWhile_id)
    moreover have "z \<in> set xs" "y \<in> set xs" using y z by (metis list.set_intros(1) set_dropWhileD)+
    ultimately show False using y z \<open>P y\<close> \<open>\<not> P z\<close> assms(2) by auto
  qed
  then have "filter (\<lambda>x. \<not> P x) (dropWhile P xs) = dropWhile P xs" by simp
  ultimately show ?thesis by simp
qed

text \<open>The entries of the index: one for each keyword, in the order of hash and position.\<close>

definition index_ok :: "post_text \<Rightarrow> keyword_index \<Rightarrow> bool" where
  "index_ok lib ki \<longleftrightarrow>
     sorted_wrt (<) (ki_by_first_token ki) \<and>
     set (ki_by_first_token ki) =
       (\<lambda>i. (token_hash lib (snd (ki_keywords ki ! i) ! 0), i)) ` {0..<length (ki_keywords ki)} \<and>
     list_all (\<lambda>(_, tokens). tokens \<noteq> []) (ki_keywords ki)"

lemma keyword_index_new_ok: "keyword_index_new lib ad = Some ki \<Longrightarrow> index_ok lib ki \<and> ad_keywords lib ad = Some (ki_keywords ki)"
proof -
  assume "keyword_index_new lib ad = Some ki"
  then obtain kws where kws: "ad_keywords lib ad = Some kws" and ki: "ki_keywords ki = kws"
    "ki_by_first_token ki = sort (map (\<lambda>(i, (_, tokens)). (token_hash lib (tokens ! 0), i)) (enumerate 0 kws))"
    by (auto simp: keyword_index_new_def)
  let ?l = "map (\<lambda>(i, (_, tokens)). (token_hash lib (tokens ! 0), i)) (enumerate 0 kws)"
  have l: "?l = map (\<lambda>i. (token_hash lib (snd (kws ! i) ! 0), i)) [0..<length kws]"
    by (rule nth_equalityI) (auto simp: nth_enumerate_eq split_def)
  have "distinct ?l" unfolding l by (auto simp: distinct_map inj_on_def)
  then have "sorted_wrt (<) (ki_by_first_token ki)"
    using ki(2) by (simp add: strict_sorted_iff)
  moreover have "set (ki_by_first_token ki) = set ?l" using ki(2) by simp
  moreover have "list_all (\<lambda>(_, tokens). tokens \<noteq> []) kws"
    using kws by (auto simp: ad_keywords_def Let_def list_all_iff split: option.splits if_splits)
  ultimately show ?thesis using kws ki(1) by (auto simp: index_ok_def l)
qed

definition least_hit :: "nat \<Rightarrow> (nat \<Rightarrow> bool) \<Rightarrow> nat option \<Rightarrow> bool" where
  "least_hit n P best \<longleftrightarrow>
     (case best of None \<Rightarrow> \<forall>i < n. \<not> P i | Some i \<Rightarrow> i < n \<and> P i \<and> (\<forall>j < i. \<not> P j))"

lemma least_hit_cong: "(\<And>i. i < n \<Longrightarrow> P i = Q i) \<Longrightarrow> least_hit n P best = least_hit n Q best"
  by (cases best) (auto simp: least_hit_def)

lemma find_increasing:
  "sorted_wrt (<) xs \<Longrightarrow> List.find m xs = Some i \<Longrightarrow> i \<in> set xs \<and> m i \<and> (\<forall>j \<in> set xs. j < i \<longrightarrow> \<not> m j)" for xs :: "nat list"
  by (induction xs) (auto split: if_splits)

lemma index_segment:
  fixes hash :: u64 and best :: "nat option"
  assumes "index_ok lib ki"
  defines "seg \<equiv> map snd (takeWhile (\<lambda>(h, i). h = hash \<and> is_none_or (\<lambda>b. i < b) best)
      (drop (partition_point (\<lambda>(h, _). h < hash) (ki_by_first_token ki)) (ki_by_first_token ki)))"
  shows "sorted_wrt (<) seg"
    and "set seg = {i. i < length (ki_keywords ki) \<and> token_hash lib (snd (ki_keywords ki ! i) ! 0) = hash \<and>
      is_none_or (\<lambda>b. i < b) best}"
proof -
  let ?b = "ki_by_first_token ki"
  let ?P = "\<lambda>x. fst x = hash \<and> is_none_or (\<lambda>b. snd x < b) best"
  have s: "sorted_wrt (<) ?b" using assms(1) by (simp add: index_ok_def)
  have d: "drop (partition_point (\<lambda>(h, _). h < hash) ?b) ?b = filter (\<lambda>x. \<not> fst x < hash) ?b"
    unfolding split_def by (rule drop_partition_point_sorted [OF s]) (auto simp: less_prod_def)
  have "takeWhile (\<lambda>(h, i). h = hash \<and> is_none_or (\<lambda>b. i < b) best) (filter (\<lambda>x. \<not> fst x < hash) ?b) =
      filter ?P (filter (\<lambda>x. \<not> fst x < hash) ?b)"
    unfolding split_def
    by (rule takeWhile_filter_sorted [OF sorted_wrt_filter [OF s]])
       (cases best; auto simp: less_prod_def)
  also have "\<dots> = filter ?P ?b" by (auto intro: filter_cong)
  finally have seg: "seg = map snd (filter ?P ?b)" unfolding seg_def d by simp
  have "sorted_wrt (\<lambda>x y. snd x < snd y) (filter ?P ?b)"
    by (rule sorted_wrt_mono_rel [OF _ sorted_wrt_filter [OF s]]) (auto simp: less_prod_def)
  then show "sorted_wrt (<) seg" unfolding seg by (simp add: sorted_wrt_map)
  show "set seg = {i. i < length (ki_keywords ki) \<and> token_hash lib (snd (ki_keywords ki ! i) ! 0) = hash \<and>
      is_none_or (\<lambda>b. i < b) best}"
    using assms(1) unfolding seg by (auto simp: index_ok_def image_iff)
qed

lemma index_lookup_least:
  assumes ki: "index_ok lib ki" and best: "least_hit (length (ki_keywords ki)) P best"
  shows "least_hit (length (ki_keywords ki)) (\<lambda>i. P i \<or>
      (token_hash lib (snd (ki_keywords ki ! i) ! 0) = token_hash lib key \<and>
       matches_at lib tokens offset (snd (ki_keywords ki ! i))))
    (index_lookup lib ki tokens (offset, key) best)"
proof -
  define seg where "seg = map snd (takeWhile (\<lambda>(h, i). h = token_hash lib key \<and> is_none_or (\<lambda>b. i < b) best)
      (drop (partition_point (\<lambda>(h, _). h < token_hash lib key) (ki_by_first_token ki)) (ki_by_first_token ki)))"
  note sg = index_segment [OF ki, where hash = "token_hash lib key" and best = best, folded seg_def]
  let ?m = "\<lambda>i. matches_at lib tokens offset (snd (ki_keywords ki ! i))"
  have eq: "index_lookup lib ki tokens (offset, key) best = (if List.find ?m seg \<noteq> None then List.find ?m seg else best)"
    by (simp add: index_lookup_def Let_def seg_def)
  show ?thesis
  proof (cases "List.find ?m seg")
    case None
    then have "\<forall>i \<in> set seg. \<not> ?m i" by (simp add: find_None_iff_set)
    then show ?thesis using best None unfolding eq sg(2)
      by (cases best) (auto simp: least_hit_def)
  next
    case (Some i)
    from find_increasing [OF sg(1) Some] have
      i: "i < length (ki_keywords ki)" "token_hash lib (snd (ki_keywords ki ! i) ! 0) = token_hash lib key"
        "is_none_or (\<lambda>b. i < b) best" "?m i"
      and least: "\<forall>j \<in> set seg. j < i \<longrightarrow> \<not> ?m j" unfolding sg(2) by auto
    have "\<not> P j" if "j < i" for j
      using best i(1,3) that by (cases best) (auto simp: least_hit_def)
    moreover have "\<not> (token_hash lib (snd (ki_keywords ki ! j) ! 0) = token_hash lib key \<and> ?m j)" if "j < i" for j
      using least that i(1,3) unfolding sg(2) by (cases best) auto
    ultimately show ?thesis using Some i unfolding eq by (auto simp: least_hit_def)
  qed
qed

lemma fold_index_lookup_least:
  assumes "index_ok lib ki"
  shows "least_hit (length (ki_keywords ki)) P best \<Longrightarrow>
    least_hit (length (ki_keywords ki)) (\<lambda>i. P i \<or> (\<exists>(offset, key) \<in> set oks.
      token_hash lib (snd (ki_keywords ki ! i) ! 0) = token_hash lib key \<and>
      matches_at lib tokens offset (snd (ki_keywords ki ! i))))
     (fold (index_lookup lib ki tokens) oks best)"
proof (induction oks arbitrary: P best)
  case (Cons ok oks)
  obtain offset key where ok: "ok = (offset, key)" by (cases ok)
  from Cons.IH [OF index_lookup_least [OF assms Cons.prems, of key tokens offset]]
  show ?case by (simp add: ok disj_assoc)
qed simp

text \<open>
  What the index relies on in the text library: a token matches a keyword token only if it is
  equal to it, possibly after its first character \<open>#\<close> or \<open>@\<close> is dropped, and a text contains a
  keyword if the keyword's tokens match at some offset.
\<close>

definition tokens_by_equality :: "post_text \<Rightarrow> bool" where
  "tokens_by_equality lib \<longleftrightarrow> (\<forall>t k. token_matches lib t k \<longrightarrow> k \<in> set (token_keys t))"

definition keywords_by_offset :: "post_text \<Rightarrow> bool" where
  "keywords_by_offset lib \<longleftrightarrow>
     (\<forall>tokens kw. contains_keyword_sequence lib tokens kw = list_ex (\<lambda>off. matches_at lib tokens off kw) [0..<length tokens])"

lemma matches_at_key:
  assumes "tokens_by_equality lib" and "kw \<noteq> []" and "matches_at lib tokens off kw"
  shows "off < length tokens" and "kw ! 0 \<in> set (token_keys (tokens ! off))"
proof -
  have "off + length kw \<le> length tokens" "token_matches lib (tokens ! (off + 0)) (kw ! 0)"
    using assms(2,3) by (auto simp: matches_at_def list_all_iff dest: bspec [of _ _ 0])
  moreover have "0 < length kw" using assms(2) by simp
  ultimately show "off < length tokens" by linarith
  show "kw ! 0 \<in> set (token_keys (tokens ! off))"
    using assms(1) \<open>token_matches lib (tokens ! (off + 0)) (kw ! 0)\<close> by (simp add: tokens_by_equality_def)
qed

lemma first_match_find:
  assumes lib: "tokens_by_equality lib" and ki: "index_ok lib ki"
  shows "first_match lib ki tokens =
    map_option fst (List.find (\<lambda>(_, kw). list_ex (\<lambda>off. matches_at lib tokens off kw) [0..<length tokens]) (ki_keywords ki))"
proof -
  let ?kws = "ki_keywords ki"
  let ?oks = "concat (map (\<lambda>offset. map (\<lambda>key. (offset, key)) (token_keys (tokens ! offset))) [0..<length tokens])"
  let ?hit = "\<lambda>i. list_ex (\<lambda>off. matches_at lib tokens off (snd (?kws ! i))) [0..<length tokens]"
  define best where "best = fold (index_lookup lib ki tokens) ?oks None"
  have "least_hit (length ?kws) (\<lambda>i. False) None" by (simp add: least_hit_def)
  from fold_index_lookup_least [OF ki this, of ?oks tokens]
  have raw: "least_hit (length ?kws) (\<lambda>i. False \<or> (\<exists>(offset, key) \<in> set ?oks.
      token_hash lib (snd (?kws ! i) ! 0) = token_hash lib key \<and> matches_at lib tokens offset (snd (?kws ! i)))) best"
    by (simp only: best_def)
  have iff: "(\<exists>(offset, key) \<in> set ?oks. token_hash lib (snd (?kws ! i) ! 0) = token_hash lib key \<and>
      matches_at lib tokens offset (snd (?kws ! i))) \<longleftrightarrow> ?hit i" if "i < length ?kws" for i
  proof
    assume "?hit i"
    then obtain off where off: "off < length tokens" "matches_at lib tokens off (snd (?kws ! i))"
      by (auto simp: list_ex_iff)
    have "snd (?kws ! i) \<noteq> []" using ki that by (auto simp: index_ok_def list_all_length split_def)
    from matches_at_key(2) [OF lib this off(2)] off
    show "\<exists>(offset, key) \<in> set ?oks. token_hash lib (snd (?kws ! i) ! 0) = token_hash lib key \<and>
      matches_at lib tokens offset (snd (?kws ! i))" by (force simp: image_iff)
  qed (auto simp: list_ex_iff)
  have "least_hit (length ?kws) ?hit best"
    using raw least_hit_cong [of "length ?kws", OF iff] by (simp only: simp_thms)
  then show ?thesis
  proof (cases best)
    case None
    with \<open>least_hit (length ?kws) ?hit best\<close>
    have "List.find (\<lambda>(_, kw). list_ex (\<lambda>off. matches_at lib tokens off kw) [0..<length tokens]) ?kws = None"
      by (fastforce simp: least_hit_def find_None_iff_set in_set_conv_nth)
    with None show ?thesis by (simp add: first_match_def best_def)
  next
    case (Some i)
    with \<open>least_hit (length ?kws) ?hit best\<close>
    have "List.find (\<lambda>(_, kw). list_ex (\<lambda>off. matches_at lib tokens off kw) [0..<length tokens]) ?kws = Some (?kws ! i)"
      by (auto simp: least_hit_def find_Some_iff split_def)
    with Some show ?thesis by (simp add: first_match_def best_def)
  qed
qed

lemma keyword_hit_first_match:
  assumes "tokens_by_equality lib" "keywords_by_offset lib" and "keyword_index_new lib ad = Some ki"
  shows "fst (keyword_block lib ad (Some p) None None) =
    map_option (\<lambda>kw. \<lparr>bl_tweet_id = sp_tweet_id p, bl_reason = ExcludedKeyword kw\<rparr>)
      (first_match lib ki (tokenize_tweet_text lib p))"
proof -
  have ki: "index_ok lib ki" "ad_keywords lib ad = Some (ki_keywords ki)"
    using keyword_index_new_ok [OF assms(3)] by auto
  have "List.find (\<lambda>(_, kw). contains_keyword_sequence lib t kw) (ki_keywords ki) =
      List.find (\<lambda>(_, kw). list_ex (\<lambda>off. matches_at lib t off kw) [0..<length t]) (ki_keywords ki)" for t
    using assms(2) by (simp add: keywords_by_offset_def)
  then show ?thesis
    using ki(2) by (simp add: keyword_block_def keyword_hit_def get_or_insert_tokens_def Let_def
        first_match_find [OF assms(1) ki(1)] option.map_comp comp_def split_def split: option.split)
qed

section \<open>Who is compatible\<close>

lemma compatible_iff:
  assumes "tokens_by_equality lib" "keywords_by_offset lib"
  shows "compatible lib (ad_rules_new ad) p \<longleftrightarrow>
    \<not> is_high_risk p \<and> (is_medium_risk p \<longrightarrow> is_bsr_high_ad ad) \<and> neighbour_allowed lib ad p"
proof (cases "keyword_index_new lib ad")
  case None
  then have "keyword_allowed lib ad p" by (simp add: keyword_index_new_def ad_keywords_None)
  with None show ?thesis
    using low_risk_block_None [of ad "Some p" None] handle_block_None [of ad "Some p" None]
    by (auto simp: compatible_def fit_of_def ad_rules_new_def neighbour_allowed_def split: option.split)
next
  case (Some ki)
  have "first_match lib ki (tokenize_tweet_text lib p) = None \<longleftrightarrow> keyword_allowed lib ad p"
    using keyword_hit_first_match [OF assms Some, of p] keyword_block_None [of lib "Some p" None None ad] by auto
  with Some show ?thesis
    using low_risk_block_None [of ad "Some p" None] handle_block_None [of ad "Some p" None]
    by (auto simp: compatible_def fit_of_def ad_rules_new_def neighbour_allowed_def split: option.split)
qed

section \<open>What an assembled page holds\<close>

text \<open>The page that an order of the posts and a mark in front of each place describe.\<close>

fun laid_out :: "scored_post list \<Rightarrow> ad_index_info list \<Rightarrow> nat list \<Rightarrow> nat option list \<Rightarrow> feed_item list" where
  "laid_out posts ads (post # order) (mark # marks) =
     (case mark of Some a \<Rightarrow> [ad_item (ads ! a)] | None \<Rightarrow> []) @ [post_item (posts ! post)] @
     laid_out posts ads order marks"
| "laid_out posts ads order marks = []"

lemma emit_items_laid_out:
  assumes "length order = length marks" and "distinct order" and "distinct (flatten marks)"
    and "\<forall>i \<in> set order. i < length popts \<and> popts ! i = Some (posts ! i)"
    and "\<forall>i \<in> set (flatten marks). i < length aopts \<and> aopts ! i = Some (ads ! i)"
  shows "emit_items order marks popts aopts = Some (laid_out posts ads order marks)"
  using assms
proof (induction order marks arbitrary: popts aopts rule: list_induct2)
  case (Cons post order mark marks)
  have p: "take_at post popts = Some (Some (posts ! post), popts[post := None])"
    "\<forall>i \<in> set order. i < length (popts[post := None]) \<and> popts[post := None] ! i = Some (posts ! i)"
    using Cons.prems by (auto simp: take_at_def nth_list_update)
  show ?case
  proof (cases mark)
    case None
    with Cons.IH [of "popts[post := None]" aopts] Cons.prems p show ?thesis by simp
  next
    case (Some a)
    have a: "take_at a aopts = Some (Some (ads ! a), aopts[a := None])"
      "\<forall>i \<in> set (flatten marks). i < length (aopts[a := None]) \<and> aopts[a := None] ! i = Some (ads ! i)"
      using Cons.prems Some by (auto simp: take_at_def nth_list_update)
    from Cons.IH [of "popts[post := None]" "aopts[a := None]"] Cons.prems p a Some show ?thesis by simp
  qed
qed simp

lemma laid_out_content:
  "length order = length marks \<Longrightarrow>
   posts_of (laid_out posts ads order marks) = map (\<lambda>i. posts ! i) order \<and>
   ads_of (laid_out posts ads order marks) = map (\<lambda>i. ads ! i) (flatten marks) \<and>
   only_posts_and_ads (laid_out posts ads order marks)"
proof (induction order marks rule: list_induct2)
  case (Cons post order mark marks)
  then show ?case by (cases mark) auto
qed simp

lemma laid_out_neighbours:
  assumes "length order = length marks"
    and "\<forall>j < length marks. \<forall>a. marks ! j = Some a \<longrightarrow>
      (if j = 0 then \<exists>x. prev = Some x \<and> ok (ads ! a) x (posts ! (order ! 0))
       else ok (ads ! a) (posts ! (order ! (j - 1))) (posts ! (order ! j)))"
  shows "ad_neighbours ok prev (map item (laid_out posts ads order marks))"
  using assms
proof (induction order marks arbitrary: prev rule: list_induct2)
  case (Cons post order mark marks)
  have "ad_neighbours ok (Some (posts ! post)) (map item (laid_out posts ads order marks))"
  proof (rule Cons.IH, intro allI impI)
    fix j a assume "j < length marks" "marks ! j = Some a"
    then show "if j = 0 then \<exists>x. Some (posts ! post) = Some x \<and> ok (ads ! a) x (posts ! (order ! 0))
        else ok (ads ! a) (posts ! (order ! (j - 1))) (posts ! (order ! j))"
      using Cons.prems by (cases j) (auto dest: spec [of _ "Suc _"])
  qed
  moreover have "ad_between ok prev (Some (Ad (ads ! a))) (Some (Post (posts ! post)) # rest)"
    if "mark = Some a" for a rest
  proof -
    have "\<exists>x. prev = Some x \<and> ok (ads ! a) x (posts ! post)"
      using spec [OF Cons.prems, of 0] that by simp
    then show ?thesis by auto
  qed
  ultimately show ?case by (cases mark) auto
qed simp

text \<open>Marks at distinct places in range.\<close>

definition set_marks :: "(nat \<times> nat) list \<Rightarrow> nat option list \<Rightarrow> nat option list" where
  "set_marks ad_before marks = fold (\<lambda>(i, a) m. m[i := Some a]) ad_before marks"

lemma length_set_marks [simp]: "length (set_marks b m) = length m"
  unfolding set_marks_def by (induction b arbitrary: m) (auto simp: split_def)

lemma place_marks_in_range:
  "list_all (\<lambda>(i, _). i < length m) b \<Longrightarrow> place_marks b m ads ds = Some (set_marks b m, ads, ds)"
  unfolding set_marks_def by (induction b arbitrary: m) auto

lemma set_marks_nth:
  "distinct (map fst b) \<Longrightarrow> list_all (\<lambda>(i, _). i < length m) b \<Longrightarrow>
   set_marks b m ! j = (case map_of b j of Some a \<Rightarrow> Some a | None \<Rightarrow> m ! j)"
proof (induction b arbitrary: m)
  case (Cons x b)
  obtain i a where x: "x = (i, a)" by (cases x)
  have "set_marks (x # b) m = set_marks b (m[i := Some a])" by (simp add: set_marks_def x)
  moreover have "map_of b i = None" using Cons.prems x by (simp add: map_of_eq_None_iff)
  ultimately show ?case using Cons.IH [of "m[i := Some a]"] Cons.prems x
    by (cases "j = i") (auto split: option.split)
qed (simp add: set_marks_def)

lemma mset_flatten_set_marks:
  "distinct (map fst b) \<Longrightarrow> list_all (\<lambda>(i, _). i < length m \<and> m ! i = None) b \<Longrightarrow>
   mset (flatten (set_marks b m)) = mset (map snd b) + mset (flatten m)"
proof (induction b arbitrary: m)
  case (Cons x b)
  obtain i a where x: "x = (i, a)" by (cases x)
  have "mset (flatten (m[i := Some a])) = add_mset a (mset (flatten m))"
    using Cons.prems x by (intro flatten_set) auto
  moreover have "list_all (\<lambda>(k, _). k < length (m[i := Some a]) \<and> m[i := Some a] ! k = None) b"
    using Cons.prems x by (force simp: list_all_iff nth_list_update)
  moreover have "set_marks (x # b) m = set_marks b (m[i := Some a])" by (simp add: set_marks_def x)
  ultimately show ?case using Cons.IH [of "m[i := Some a]"] Cons.prems x by simp
qed (simp add: set_marks_def)

lemma mset_nth_subset:
  "distinct is \<Longrightarrow> \<forall>i \<in> set is. i < length xs \<Longrightarrow> mset (map (\<lambda>i. xs ! i) is) \<subseteq># mset xs"
proof -
  assume a: "distinct is" "\<forall>i \<in> set is. i < length xs"
  then have "set is \<subseteq> set [0..<length xs]" by auto
  then have "mset_set (set is) \<subseteq># mset_set (set [0..<length xs])"
    by (intro subset_imp_msubset_mset_set) auto
  then have "mset is \<subseteq># mset [0..<length xs]" using a(1) by (metis distinct_upt mset_set_set)
  then have "image_mset (\<lambda>i. xs ! i) (mset is) \<subseteq># image_mset (\<lambda>i. xs ! i) (mset [0..<length xs])"
    by (rule image_mset_subseteq_mono)
  moreover have "image_mset (\<lambda>i. xs ! i) (mset [0..<length xs]) = mset xs" by (metis map_nth mset_map)
  ultimately show ?thesis by simp
qed

lemma assemble_recorded:
  assumes order: "mset order = mset [0..<length posts]"
    and places: "distinct (map fst b)" "list_all (\<lambda>(i, a). 0 < i \<and> i < length posts \<and> a < length ads) b"
    and used: "distinct (map snd b)"
    and ok: "\<forall>(i, a) \<in> set b. ok (ads ! a) (posts ! (order ! (i - 1))) (posts ! (order ! i))"
    and drops: "mset (map (\<lambda>(i, a). ad_impression_id (ads ! a)) b) + mset (map da_impression_id ds1) =
      mset (map ad_impression_id ads) + mset (map da_impression_id ds)"
  shows "\<exists>r. assemble posts ads order b n ds1 = Some r \<and> recorded_page ok posts ads ds r"
proof -
  let ?m0 = "map (\<lambda>_. None) order" and ?marks = "set_marks b (map (\<lambda>_. None) order)"
  have len: "length order = length posts" using mset_eq_length [OF order] by simp
  have ord: "distinct order" "set order = {0..<length posts}"
    using order by (metis distinct_upt mset_eq_imp_distinct_iff, metis set_mset_mset set_upt order)
  have rng: "list_all (\<lambda>(i, _). i < length ?m0) b" "list_all (\<lambda>(i, _). i < length ?m0 \<and> ?m0 ! i = None) b"
    using places(2) len by (auto simp: list_all_iff)
  have nones: "flatten ?m0 = []" by (induction order) simp_all
  have fl: "mset (flatten ?marks) = mset (map snd b)"
    using mset_flatten_set_marks [OF places(1) rng(2)] nones by simp
  have flat: "distinct (flatten ?marks)" "set (flatten ?marks) = snd ` set b"
    using fl used by (metis mset_eq_imp_distinct_iff, metis mset_eq_setD set_map)
  have emit: "emit_items order ?marks (map Some posts) (map Some ads) = Some (laid_out posts ads order ?marks)"
  proof (rule emit_items_laid_out)
    show "\<forall>i \<in> set (flatten ?marks). i < length (map Some ads) \<and> map Some ads ! i = Some (ads ! i)"
      using places(2) unfolding flat(2) by (auto simp: list_all_iff)
  qed (use ord flat(1) in auto)
  let ?raw = "laid_out posts ads order ?marks"
  have c: "posts_of ?raw = map (\<lambda>i. posts ! i) order" "ads_of ?raw = map (\<lambda>i. ads ! i) (flatten ?marks)"
    "only_posts_and_ads ?raw"
    using laid_out_content [of order ?marks posts ads] by simp_all
  have well: "ads_well_placed ok ?raw"
    unfolding ads_well_placed_def
  proof (rule laid_out_neighbours, simp, intro allI impI)
    fix j a assume "j < length ?marks" "?marks ! j = Some a"
    then have "(j, a) \<in> set b"
      using set_marks_nth [OF places(1) rng(1), of j] by (auto split: option.splits dest: map_of_SomeD)
    then have "0 < j" "ok (ads ! a) (posts ! (order ! (j - 1))) (posts ! (order ! j))"
      using ok places(2) by (auto simp: list_all_iff)
    then show "if j = 0 then \<exists>x. None = Some x \<and> ok (ads ! a) x (posts ! (order ! 0))
      else ok (ads ! a) (posts ! (order ! (j - 1))) (posts ! (order ! j))" by simp
  qed
  have posts: "mset (posts_of ?raw) \<subseteq># mset posts"
    unfolding c(1) using ord by (intro mset_nth_subset) auto
  have ads: "mset (ads_of ?raw) \<subseteq># mset ads"
    unfolding c(2) using flat places(2) by (intro mset_nth_subset) (auto simp: list_all_iff)
  have "mset (map ad_impression_id (ads_of ?raw)) = image_mset (\<lambda>a. ad_impression_id (ads ! a)) (mset (flatten ?marks))"
    by (simp add: c(2) multiset.map_comp comp_def)
  also have "\<dots> = mset (map (\<lambda>(i, a). ad_impression_id (ads ! a)) b)"
    unfolding fl by (simp add: multiset.map_comp comp_def split_def)
  finally have "mset (map ad_impression_id (ads_of ?raw)) + mset (map da_impression_id ds1) =
      mset (map ad_impression_id ads) + mset (map da_impression_id ds)" using drops by simp
  from recorded_page_truncate [OF posts ads c(3) well this, of n] show ?thesis
    using place_marks_in_range [OF rng(1)] emit by (simp add: assemble_def split_def Let_def)
qed

section \<open>Properties\<close>

text \<open>
  C29. Whether a post fits next to an ad, computed with the index of the ad's keywords by the hash
  of their first token, is what the plain scan of the older blenders gives: a risk by the
  brand-safety verdict, else the first of the low-risk, the handle and the keyword block, where the
  keyword is the first of the ad's list that occurs in the post. Hash collisions do no harm. The
  text library is assumed to match a token with a keyword token only when they are equal up to a
  leading \<open>#\<close> or \<open>@\<close> of the post's token, and to find a keyword by trying it at each offset.
\<close>

theorem fit_of_plain_scan:
  assumes "tokens_by_equality lib" and "keywords_by_offset lib"
  shows "fit_of lib (ad_rules_new ad) p =
    (if is_high_risk p \<or> (is_medium_risk p \<and> \<not> is_bsr_high_ad ad) then Risk
     else case or_else (or_else (low_risk_block ad (Some p) None) (handle_block ad (Some p) None))
                  (fst (keyword_block lib ad (Some p) None None)) of
            Some b \<Rightarrow> Blocked b
          | None \<Rightarrow> Compatible)"
proof (cases "keyword_index_new lib ad")
  case None
  then have "fst (keyword_block lib ad (Some p) None None) = None"
    by (simp add: keyword_index_new_def keyword_block_def)
  with None show ?thesis by (simp add: fit_of_def ad_rules_new_def or_else_def split: option.split)
next
  case (Some ki)
  from keyword_hit_first_match [OF assms Some, of p] Some show ?thesis
    by (simp add: fit_of_def ad_rules_new_def or_else_def split: option.split)
qed

text \<open>A text library with one token per character, in which all tokens of a length have one hash.\<close>

definition letter_lib :: post_text where
  "letter_lib = \<lparr>tokenize = map (\<lambda>c. [c]),
     contains_keyword_sequence = (\<lambda>ts ks. list_ex (\<lambda>off. off + length ks \<le> length ts \<and>
        list_all (\<lambda>j. ts ! (off + j) = ks ! j) [0..<length ks]) [0..<length ts]),
     token_matches = (=), token_hash = (\<lambda>s. of_nat (length s))\<rparr>"

lemma letter_lib_laws: "tokens_by_equality letter_lib" "keywords_by_offset letter_lib"
  by (simp_all add: letter_lib_def tokens_by_equality_def keywords_by_offset_def matches_at_def token_keys_def)

theorem fit_of_plain_scan_witness:
  "let ad = default_ad\<lparr>ad_ad_adjacency_control := Some \<lparr>ac_brand_safety_risk = BsrNormal, ac_handles = [],
         ac_keywords = [''xy'', ''bc'', ''ab'']\<rparr>\<rparr>;
       p = default_post\<lparr>sp_tweet_id := 7, sp_tweet_text := ''abc''\<rparr>
   in fit_of letter_lib (ad_rules_new ad) p = Blocked \<lparr>bl_tweet_id = 7, bl_reason = ExcludedKeyword ''bc''\<rparr>"
  unfolding Let_def fit_of_plain_scan [OF letter_lib_laws]
  by code_simp

end
