(* ===== verification/Slot_Spread_Blender.thy ===== *)
theory Slot_Spread_Blender
  imports Neighbours
begin

text \<open>
  The slot-spread blender (\<open>home-mixer/ads/slot_spread_blender.rs\<close>): the ad slots are spread evenly
  over the page first; for each ad in turn the two posts nearest to the next free slot that are
  compatible with the ad are swapped into the places above and below the slot. \<open>None\<close> is a panic.
  The ads are \<open>admissible\<close> when their insert positions are not negative, so that their
  differences do not overflow.
\<close>

section \<open>Definitions\<close>

fun slots_from :: "nat \<Rightarrow> nat \<Rightarrow> nat \<Rightarrow> nat \<Rightarrow> nat \<Rightarrow> nat \<Rightarrow> nat \<Rightarrow> nat list" where
  "slots_from slots spacing per_gap rem k 0 index = []"
| "slots_from slots spacing per_gap rem k (Suc n) index =
     index # slots_from slots spacing per_gap rem (Suc k) n
               (index + (spacing + per_gap + (if slots - rem \<le> k then 1 else 0)))"

definition spread_slots :: "nat \<Rightarrow> nat \<Rightarrow> nat \<Rightarrow> nat list" where
  "spread_slots slots spacing shown =
     (let surplus = shown - ((slots - 1) * spacing + 2)
      in slots_from slots spacing (surplus div slots) (surplus mod slots) 0 slots 0)"

text \<open>The search of \<open>nearest\<close> at the given distances.\<close>

fun nearest_at :: "nat \<Rightarrow> nat \<Rightarrow> (nat \<Rightarrow> bool) \<Rightarrow> nat list \<Rightarrow> nat option" where
  "nearest_at index len usable [] = None"
| "nearest_at index len usable (d # ds) =
     (if index < d \<and> len \<le> index + d then None
      else if d \<le> index \<and> usable (index - d) then Some (index - d)
      else if index + d < len \<and> usable (index + d) then Some (index + d)
      else nearest_at index len usable ds)"

definition nearest :: "nat \<Rightarrow> nat \<Rightarrow> (nat \<Rightarrow> bool) \<Rightarrow> nat option" where
  "nearest index len usable =
     (if usable index then Some index else nearest_at index len usable [1..<len])"

definition usable_post :: "post_text \<Rightarrow> scored_post list \<Rightarrow> ad_rules \<Rightarrow> nat list \<Rightarrow> bool list \<Rightarrow> nat list \<Rightarrow> bool \<Rightarrow>
    nat \<Rightarrow> bool" where
  "usable_post lib posts rule organic used exclude low_only pos \<longleftrightarrow>
     \<not> used ! pos \<and> pos \<notin> set exclude \<and> (low_only \<longrightarrow> class_of (posts ! (organic ! pos)) = ClassLow) \<and>
     compatible lib rule (posts ! (organic ! pos))"

text \<open>The outer \<open>None\<close> is the failed index of \<open>used\<close> at the slot itself.\<close>

definition pick :: "post_text \<Rightarrow> scored_post list \<Rightarrow> ad_rules \<Rightarrow> nat \<Rightarrow> nat list \<Rightarrow> bool list \<Rightarrow> nat list \<Rightarrow> bool \<Rightarrow>
    nat option option" where
  "pick lib posts rule index organic used exclude prefer_low =
     (if length used \<le> index then None
      else Some (find_map (\<lambda>low_only. nearest index (length organic)
                    (usable_post lib posts rule organic used exclude low_only))
                  (if prefer_low then [True, False] else [False])))"

definition swap :: "nat \<Rightarrow> nat \<Rightarrow> 'a list \<Rightarrow> 'a list" where
  "swap i j xs = xs[i := xs ! j, j := xs ! i]"

record ss_state =
  ss_organic :: "nat list"
  ss_used :: "bool list"
  ss_placed :: "nat list"
  ss_safe_free :: nat
  ss_low_free :: nat
  ss_drops :: "dropped_ad list"

definition free_fits :: "post_text \<Rightarrow> scored_post list \<Rightarrow> ad_rules \<Rightarrow> ss_state \<Rightarrow> fit list" where
  "free_fits lib posts rule st =
     map (\<lambda>(post, _). fit_of lib rule (posts ! post))
       (filter (\<lambda>(_, taken). \<not> taken) (zip (ss_organic st) (ss_used st)))"

definition unpaired_drop :: "post_text \<Rightarrow> scored_post list \<Rightarrow> ad_rules \<Rightarrow> ss_state \<Rightarrow> dropped_ad" where
  "unpaired_drop lib posts rule st = unplaceable_drop (ar_ad rule) (free_fits lib posts rule st)"

definition low_risk_shortage_drop :: "scored_post list \<Rightarrow> ad_index_info \<Rightarrow> ss_state \<Rightarrow> dropped_ad" where
  "low_risk_shortage_drop posts ad st =
     (case List.find (\<lambda>(post, taken). \<not> taken \<and> class_of (posts ! post) = ClassLow)
             (zip (ss_organic st) (ss_used st)) of
        Some (post, _) \<Rightarrow>
          adjacency_drop ad \<lparr>bl_tweet_id = sp_tweet_id (posts ! post), bl_reason = LowRiskNeighbour\<rparr>
      | None \<Rightarrow> drop_ad ad NoEligibleNeighbours)"

definition ss_drop :: "dropped_ad \<Rightarrow> ss_state \<Rightarrow> ss_state" where
  "ss_drop d st = st\<lparr>ss_drops := ss_drops st @ [d]\<rparr>"

text \<open>The free posts of a class after a post of class \<open>c\<close> is used; \<open>None\<close> is an underflow.\<close>

definition use_class :: "post_class \<Rightarrow> ss_state \<Rightarrow> ss_state option" where
  "use_class c st =
     (case c of
        ClassSafe \<Rightarrow> if ss_safe_free st = 0 then None else Some (st\<lparr>ss_safe_free := ss_safe_free st - 1\<rparr>)
      | ClassLow \<Rightarrow> if ss_low_free st = 0 then None else Some (st\<lparr>ss_low_free := ss_low_free st - 1\<rparr>)
      | _ \<Rightarrow> Some st)"

definition take_slot :: "scored_post list \<Rightarrow> nat \<Rightarrow> nat \<Rightarrow> nat \<Rightarrow> nat \<Rightarrow> ss_state \<Rightarrow> ss_state option" where
  "take_slot posts j slot first second st =
     (let organic = swap (Suc slot) second (swap slot first (ss_organic st));
          st1 = st\<lparr>ss_organic := organic, ss_used := (ss_used st)[slot := True, Suc slot := True],
                   ss_placed := ss_placed st @ [j]\<rparr>
      in Option.bind (use_class (class_of (posts ! (organic ! slot))) st1)
           (use_class (class_of (posts ! (organic ! Suc slot)))))"

definition assign_ad :: "post_text \<Rightarrow> scored_post list \<Rightarrow> nat list \<Rightarrow> ad_drop_reason \<Rightarrow> nat \<Rightarrow> ad_index_info \<Rightarrow> nat \<Rightarrow>
    ss_state \<Rightarrow> ss_state option" where
  "assign_ad lib posts slots overflow j ad sensitive_after st =
     (let rule = ad_rules_new ad
      in if length slots \<le> length (ss_placed st) then Some (ss_drop (drop_ad ad overflow) st)
         else if \<not> ar_bsr_high rule \<and> ss_safe_free st + ss_low_free st < 2
         then Some (ss_drop (drop_ad ad NoEligibleNeighbours) st)
         else if ar_sensitive rule \<and> ss_safe_free st < 2
         then Some (ss_drop (low_risk_shortage_drop posts ad st) st)
         else let slot = slots ! length (ss_placed st);
                  slots_left = length slots - length (ss_placed st) - 1;
                  prefer_low = (\<not> ar_sensitive rule \<and> 0 < ss_low_free st \<and>
                                ss_safe_free st div 2 < min slots_left sensitive_after)
              in case pick lib posts rule slot (ss_organic st) (ss_used st) [Suc slot] prefer_low of
                   None \<Rightarrow> None
                 | Some None \<Rightarrow> Some (ss_drop (unpaired_drop lib posts rule st) st)
                 | Some (Some first) \<Rightarrow>
                     (case pick lib posts rule (Suc slot) (ss_organic st) (ss_used st) [slot, first] prefer_low of
                        None \<Rightarrow> None
                      | Some None \<Rightarrow> Some (ss_drop (unpaired_drop lib posts rule st) st)
                      | Some (Some second) \<Rightarrow> take_slot posts j slot first second st))"

text \<open>The loop over the ads; the number of sensitive ads behind the current one is counted afresh.\<close>

fun assign_ads :: "post_text \<Rightarrow> scored_post list \<Rightarrow> nat list \<Rightarrow> ad_drop_reason \<Rightarrow> nat \<Rightarrow> ad_index_info list \<Rightarrow>
    ss_state \<Rightarrow> ss_state option" where
  "assign_ads lib posts slots overflow j [] st = Some st"
| "assign_ads lib posts slots overflow j (ad # ads) st =
     (case assign_ad lib posts slots overflow j ad (length (filter is_bsr_low_ad ads)) st of
        None \<Rightarrow> None
      | Some st' \<Rightarrow> assign_ads lib posts slots overflow (Suc j) ads st')"

definition assign :: "post_text \<Rightarrow> scored_post list \<Rightarrow> ad_index_info list \<Rightarrow> nat list \<Rightarrow> ad_drop_reason \<Rightarrow>
    dropped_ad list \<Rightarrow> ss_state option" where
  "assign lib posts ads slots overflow drops =
     (let counts = class_counts_of posts
      in assign_ads lib posts slots overflow 0 ads
           \<lparr>ss_organic = [0..<length posts], ss_used = replicate (length posts) False, ss_placed = [],
            ss_safe_free = cc_safe counts, ss_low_free = cc_low counts, ss_drops = drops\<rparr>)"

definition slot_spread_blend_impl :: "post_text \<Rightarrow> nat \<Rightarrow> blender" where
  "slot_spread_blend_impl lib min_posts posts ads drops =
     (if ads = [] \<or> length posts < min_posts
      then Some (posts_to_feed_items posts, drops @ map (\<lambda>ad. drop_ad ad TooFewPosts) ads)
      else let spacing = requested (compute_spacing ads)
           in case page_capacity spacing (length posts) RESULT_SIZE of
                None \<Rightarrow> None
              | Some page_slots \<Rightarrow>
                  let capacity = min page_slots (length ads);
                      slot_count = min capacity (safe_slot_estimate posts ads)
                  in if slot_count = 0
                     then let reason = (if capacity = 0 then SpacingCap else NoEligibleNeighbours)
                          in Some (posts_to_feed_items posts, drops @ map (\<lambda>ad. drop_ad ad reason) ads)
                     else let shown = min (length posts) (RESULT_SIZE - slot_count);
                              slots = spread_slots slot_count spacing shown;
                              overflow = (if capacity \<le> slot_count then SpacingCap else NoEligibleNeighbours)
                          in case assign lib posts ads slots overflow drops of
                               None \<Rightarrow> None
                             | Some st \<Rightarrow>
                                 if ss_placed st = [] then Some (posts_to_feed_items posts, ss_drops st)
                                 else let ad_before = map (\<lambda>(k, ad). (slots ! k + 1, ad)) (enumerate 0 (ss_placed st))
                                      in assemble posts ads (ss_organic st) ad_before RESULT_SIZE (ss_drops st))"

definition slot_spread_blend :: "post_text \<Rightarrow> blender" where
  "slot_spread_blend lib = slot_spread_blend_impl lib MIN_POSTS_FOR_ADS"

definition positions_nonnegative :: "ad_index_info list \<Rightarrow> bool" where
  "positions_nonnegative ads \<longleftrightarrow> list_all (\<lambda>a. 0 \<le> sint (ad_insert_position a)) ads"

section \<open>The slots\<close>

lemma length_slots_from [simp]: "length (slots_from c sp per rem k n index) = n"
  by (induction n arbitrary: k index) auto

lemma slots_from_bound:
  "c = k + n \<Longrightarrow> rem \<le> c \<Longrightarrow> x \<in> set (slots_from c sp per rem k n index) \<Longrightarrow>
   index \<le> x \<and> x + sp \<le> index + n * (sp + per) + min rem n"
proof (induction n arbitrary: k index)
  case (Suc n)
  let ?e = "if c - rem \<le> k then 1 else 0 :: nat"
  show ?case
  proof (cases "x = index")
    case False
    then have "x \<in> set (slots_from c sp per rem (Suc k) n (index + (sp + per + ?e)))" using Suc.prems(3) by simp
    from Suc.IH [OF _ Suc.prems(2) this] Suc.prems(1)
    have "index + (sp + per + ?e) \<le> x" "x + sp \<le> index + (sp + per + ?e) + n * (sp + per) + min rem n" by simp_all
    moreover have "?e + min rem n = min rem (Suc n)" using Suc.prems(1,2) by (auto simp: min_def)
    ultimately show ?thesis by simp
  qed simp
qed simp

lemma slots_from_sorted:
  "c = k + n \<Longrightarrow> rem \<le> c \<Longrightarrow> sorted_wrt (\<lambda>a b. a + sp \<le> b) (slots_from c sp per rem k n index)"
proof (induction n arbitrary: k index)
  case (Suc n)
  let ?i = "index + (sp + per + (if c - rem \<le> k then 1 else 0))"
  have "index + sp \<le> x" if "x \<in> set (slots_from c sp per rem (Suc k) n ?i)" for x
    using slots_from_bound [OF _ Suc.prems(2) that] Suc.prems(1) by auto
  with Suc show ?case by auto
qed simp

definition slots_ok :: "nat \<Rightarrow> nat list \<Rightarrow> bool" where
  "slots_ok n slots \<longleftrightarrow>
     (\<forall>x \<in> set slots. Suc x < n) \<and> sorted_wrt (\<lambda>a b. a + 2 \<le> b) slots"

lemma spread_slots_ok:
  assumes "0 < c" and "2 \<le> sp" and "(c - 1) * sp + 2 \<le> shown" and "shown \<le> n"
  shows "slots_ok n (spread_slots c sp shown)" and "length (spread_slots c sp shown) = c"
proof -
  let ?s = "shown - ((c - 1) * sp + 2)"
  have r: "?s mod c \<le> c" using assms(1) by (simp add: less_imp_le)
  have "Suc x < n" if x: "x \<in> set (spread_slots c sp shown)" for x
  proof -
    have "x + sp \<le> 0 + c * (sp + ?s div c) + min (?s mod c) c"
      using slots_from_bound [of c 0 c "?s mod c" x sp "?s div c" 0] r x by (simp add: spread_slots_def Let_def)
    also have "\<dots> = c * sp + ?s" using r by (simp add: min_def distrib_left)
    also have "\<dots> = sp + ((c - 1) * sp + ?s)" using assms(1) by (cases c) auto
    finally have "x \<le> (c - 1) * sp + ?s" by simp
    then show ?thesis using assms(3,4) by linarith
  qed
  moreover have "sorted_wrt (\<lambda>a b. a + sp \<le> b) (spread_slots c sp shown)"
    using slots_from_sorted [of c 0 c] r by (simp add: spread_slots_def Let_def)
  then have "sorted_wrt (\<lambda>a b. a + 2 \<le> b) (spread_slots c sp shown)"
    by (rule sorted_wrt_mono_rel [rotated]) (use assms(2) in auto)
  ultimately show "slots_ok n (spread_slots c sp shown)" by (simp add: slots_ok_def)
  show "length (spread_slots c sp shown) = c" by (simp add: spread_slots_def Let_def)
qed

lemma slots_ok_nth:
  assumes "slots_ok n slots" and "k < length slots"
  shows "Suc (slots ! k) < n" and "\<And>l. l < k \<Longrightarrow> slots ! l + 2 \<le> slots ! k"
  using assms by (auto simp: slots_ok_def sorted_wrt_iff_nth_less)

section \<open>Picking a neighbour\<close>

lemma nearest_at_usable:
  "nearest_at index len usable ds = Some p \<Longrightarrow> index < len \<Longrightarrow> p < len \<and> usable p"
  by (induction ds) (auto split: if_splits)

lemma nearest_usable: "nearest index len usable = Some p \<Longrightarrow> index < len \<Longrightarrow> p < len \<and> usable p"
  by (auto simp: nearest_def dest: nearest_at_usable split: if_splits)

lemma pick_usable:
  assumes "pick lib posts rule index organic used ex pl = Some (Some p)" and "length used = length organic"
  shows "p < length organic \<and> \<not> used ! p \<and> p \<notin> set ex \<and> compatible lib rule (posts ! (organic ! p))"
proof -
  have i: "index < length organic" using assms by (simp add: pick_def split: if_splits)
  obtain low where "nearest index (length organic) (usable_post lib posts rule organic used ex low) = Some p"
    using assms(1) by (auto simp: pick_def split: if_splits option.splits)
  from nearest_usable [OF this i] show ?thesis by (auto simp: usable_post_def)
qed

lemma pick_returns: "index < length used \<Longrightarrow> pick lib posts rule index organic used ex pl \<noteq> None"
  by (simp add: pick_def)

lemma length_swap [simp]: "length (swap i j xs) = length xs"
  by (simp add: swap_def)

lemma mset_swap_eq: "i < length xs \<Longrightarrow> j < length xs \<Longrightarrow> mset (swap i j xs) = mset xs"
  unfolding swap_def by (metis mset_swap)

lemma swap_nth: "i < length xs \<Longrightarrow> j < length xs \<Longrightarrow> k < length xs \<Longrightarrow>
  swap i j xs ! k = (if k = j then xs ! i else if k = i then xs ! j else xs ! k)"
  by (simp add: swap_def nth_list_update)

section \<open>The assignment\<close>

definition ss_inv :: "post_text \<Rightarrow> scored_post list \<Rightarrow> ad_index_info list \<Rightarrow> nat list \<Rightarrow> dropped_ad list \<Rightarrow> nat \<Rightarrow>
    ss_state \<Rightarrow> bool" where
  "ss_inv lib posts ads slots ds j st \<longleftrightarrow>
     mset (ss_organic st) = mset [0..<length posts] \<and> length (ss_used st) = length posts \<and>
     length (ss_placed st) \<le> length slots \<and>
     (\<forall>i < length posts. ss_used st ! i \<longleftrightarrow>
        (\<exists>k < length (ss_placed st). i = slots ! k \<or> i = Suc (slots ! k))) \<and>
     (\<forall>k < length (ss_placed st).
        compatible lib (ad_rules_new (ads ! (ss_placed st ! k))) (posts ! (ss_organic st ! (slots ! k))) \<and>
        compatible lib (ad_rules_new (ads ! (ss_placed st ! k))) (posts ! (ss_organic st ! Suc (slots ! k)))) \<and>
     distinct (ss_placed st) \<and> (\<forall>a \<in> set (ss_placed st). a < j) \<and>
     mset (map (\<lambda>a. ad_impression_id (ads ! a)) (ss_placed st)) + mset (map da_impression_id (ss_drops st)) =
       mset (map ad_impression_id (take j ads)) + mset (map da_impression_id ds)"

lemma ss_inv_length: "ss_inv lib posts ads slots ds j st \<Longrightarrow> length (ss_organic st) = length posts"
proof -
  assume "ss_inv lib posts ads slots ds j st"
  then have "mset (ss_organic st) = mset [0..<length posts]" by (simp only: ss_inv_def)
  from mset_eq_length [OF this] show ?thesis by simp
qed

text \<open>The classes of the posts at free places; the two counters of the state count them.\<close>

definition free_places :: "ss_state \<Rightarrow> nat set" where
  "free_places st = {i. i < length (ss_used st) \<and> \<not> ss_used st ! i}"

definition free_classes :: "scored_post list \<Rightarrow> ss_state \<Rightarrow> post_class multiset" where
  "free_classes posts st = image_mset (\<lambda>i. class_of (posts ! (ss_organic st ! i))) (mset_set (free_places st))"

definition counts_of :: "post_class multiset \<Rightarrow> ss_state \<Rightarrow> bool" where
  "counts_of F st \<longleftrightarrow> ss_safe_free st = count F ClassSafe \<and> ss_low_free st = count F ClassLow"

lemma use_class_counts:
  assumes "counts_of (add_mset c F) st"
  shows "\<exists>st'. use_class c st = Some st' \<and> counts_of F st' \<and> ss_organic st' = ss_organic st \<and>
    ss_used st' = ss_used st \<and> ss_placed st' = ss_placed st \<and> ss_drops st' = ss_drops st"
  using assms by (cases c) (auto simp: use_class_def counts_of_def)

lemma image_mset_swap:
  assumes "i \<in> A" "j \<in> A" "A \<subseteq> {..<length xs}"
  shows "image_mset (\<lambda>k. f (swap i j xs ! k)) (mset_set A) = image_mset (\<lambda>k. f (xs ! k)) (mset_set A)"
proof -
  have fin: "finite A" using assms(3) finite_subset by blast
  let ?p = "\<lambda>k. if k = j then i else if k = i then j else k"
  have p: "inj_on ?p A" "?p ` A = A" using assms(1,2) by (auto simp: inj_on_def image_iff)
  have "image_mset (\<lambda>k. f (swap i j xs ! k)) (mset_set A) = image_mset (\<lambda>k. f (xs ! ?p k)) (mset_set A)"
    by (rule image_mset_cong) (use assms fin in \<open>auto simp: swap_nth subset_iff\<close>)
  also have "\<dots> = image_mset (\<lambda>k. f (xs ! k)) (image_mset ?p (mset_set A))" by (simp add: multiset.map_comp comp_def)
  also have "image_mset ?p (mset_set A) = mset_set A" unfolding image_mset_mset_set [OF p(1)] p(2) ..
  finally show ?thesis .
qed

lemma take_slot_state:
  assumes "counts_of (free_classes posts st) st" and "{slot, Suc slot, first, second} \<subseteq> free_places st"
    and "length (ss_used st) = length (ss_organic st)"
  shows "\<exists>st'. take_slot posts j slot first second st = Some st' \<and> counts_of (free_classes posts st') st' \<and>
    ss_organic st' = swap (Suc slot) second (swap slot first (ss_organic st)) \<and>
    ss_used st' = (ss_used st)[slot := True, Suc slot := True] \<and> ss_placed st' = ss_placed st @ [j] \<and>
    ss_drops st' = ss_drops st"
proof -
  define org where "org = swap (Suc slot) second (swap slot first (ss_organic st))"
  define st1 where "st1 = st\<lparr>ss_organic := org, ss_used := (ss_used st)[slot := True, Suc slot := True],
      ss_placed := ss_placed st @ [j]\<rparr>"
  let ?U = "free_places st" and ?c = "\<lambda>i. class_of (posts ! (org ! i))"
  have U: "?U \<subseteq> {..<length (ss_organic st)}" "finite ?U" using assms(3) by (auto simp: free_places_def)
  have U1: "free_places st1 = ?U - {slot, Suc slot}"
    using assms(2) by (auto simp: free_places_def st1_def nth_list_update)
  have "free_classes posts st = image_mset ?c (mset_set ?U)"
    unfolding free_classes_def org_def using assms(2) U(1)
    by (simp add: image_mset_swap [where f = "\<lambda>x. class_of (posts ! x)"])
  also have "mset_set ?U = add_mset slot (add_mset (Suc slot) (mset_set (free_places st1)))"
    unfolding U1 using assms(2) U(2) by (simp add: mset_set.remove [of ?U slot] mset_set.remove [of "?U - {slot}" "Suc slot"]
        Diff_insert2 [symmetric] insert_commute)
  finally have F: "free_classes posts st = add_mset (?c slot) (add_mset (?c (Suc slot)) (free_classes posts st1))"
    by (simp add: free_classes_def st1_def)
  have "counts_of (add_mset (?c slot) (add_mset (?c (Suc slot)) (free_classes posts st1))) st1"
    using assms(1) unfolding F by (simp add: counts_of_def st1_def)
  from use_class_counts [OF this] obtain st2 where st2: "use_class (?c slot) st1 = Some st2"
    "counts_of (add_mset (?c (Suc slot)) (free_classes posts st1)) st2" "ss_organic st2 = ss_organic st1"
    "ss_used st2 = ss_used st1" "ss_placed st2 = ss_placed st1" "ss_drops st2 = ss_drops st1" by blast
  from use_class_counts [OF st2(2)] obtain st3 where st3: "use_class (?c (Suc slot)) st2 = Some st3"
    "counts_of (free_classes posts st1) st3" "ss_organic st3 = ss_organic st2"
    "ss_used st3 = ss_used st2" "ss_placed st3 = ss_placed st2" "ss_drops st3 = ss_drops st2" by blast
  have "free_classes posts st3 = free_classes posts st1"
    using st2 st3 by (simp add: free_classes_def free_places_def)
  moreover have "take_slot posts j slot first second st = Some st3"
    using st2(1) st3(1) by (simp add: take_slot_def Let_def org_def st1_def)
  ultimately show ?thesis using st2 st3 by (simp add: st1_def org_def)
qed

lemma fold_count_class:
  "cc_safe (fold count_class ps c) = cc_safe c + count (image_mset class_of (mset ps)) ClassSafe \<and>
   cc_low (fold count_class ps c) = cc_low c + count (image_mset class_of (mset ps)) ClassLow"
  by (induction ps arbitrary: c) (simp_all add: count_class_def split: post_class.split)

lemma ss_inv_drop:
  assumes "ss_inv lib posts ads slots ds j st" and "j < length ads"
    and "da_impression_id d = ad_impression_id (ads ! j)"
  shows "ss_inv lib posts ads slots ds (Suc j) (ss_drop d st)"
  using assms by (auto simp: ss_inv_def ss_drop_def take_Suc_conv_app_nth less_Suc_eq)

lemma drops_about_ad [simp]:
  "da_impression_id (unplaceable_drop ad fits) = ad_impression_id ad"
  "da_impression_id (unpaired_drop lib posts (ad_rules_new ad) st) = ad_impression_id ad"
  "da_impression_id (low_risk_shortage_drop posts ad st) = ad_impression_id ad"
  by (simp_all add: unplaceable_drop_def unpaired_drop_def ad_rules_new_def low_risk_shortage_drop_def split_def Let_def
      split: list.split option.split prod.split)

lemma swapped_pair:
  assumes "a < length xs" "b < length xs" "a \<noteq> b" "i < length xs" "j < length xs" "i \<noteq> b" "j \<noteq> a" "j \<noteq> i"
  shows "swap b j (swap a i xs) ! a = xs ! i" and "swap b j (swap a i xs) ! b = xs ! j"
    and "k < length xs \<Longrightarrow> k \<notin> {a, b, i, j} \<Longrightarrow> swap b j (swap a i xs) ! k = xs ! k"
  using assms by (auto simp: swap_nth)

lemma ss_inv_take_slot:
  assumes inv: "ss_inv lib posts ads slots ds j st" and j: "j < length ads" and ok: "slots_ok (length posts) slots"
    and room: "length (ss_placed st) < length slots" and slot: "slot = slots ! length (ss_placed st)"
    and f: "first < length posts" "\<not> ss_used st ! first" "first \<noteq> Suc slot"
      "compatible lib (ad_rules_new (ads ! j)) (posts ! (ss_organic st ! first))"
    and s: "second < length posts" "\<not> ss_used st ! second" "second \<noteq> slot" "second \<noteq> first"
      "compatible lib (ad_rules_new (ads ! j)) (posts ! (ss_organic st ! second))"
    and sel: "ss_organic st' = swap (Suc slot) second (swap slot first (ss_organic st))"
      "ss_used st' = (ss_used st)[slot := True, Suc slot := True]" "ss_placed st' = ss_placed st @ [j]"
      "ss_drops st' = ss_drops st"
  shows "ss_inv lib posts ads slots ds (Suc j) st'"
proof -
  let ?org = "swap (Suc slot) second (swap slot first (ss_organic st))"
  note so = slots_ok_nth [OF ok]
  have len: "length (ss_organic st) = length posts" using inv by (rule ss_inv_length)
  have rng: "Suc slot < length posts" using so(1) [OF room] slot by simp
  note sw = swapped_pair [of slot "ss_organic st" "Suc slot" first second]
  have pair: "?org ! slot = ss_organic st ! first" "?org ! Suc slot = ss_organic st ! second"
    using sw(1,2) rng f s len by simp_all
  have keep: "?org ! i = ss_organic st ! i" if "i = slots ! k \<or> i = Suc (slots ! k)" "k < length (ss_placed st)" for i k
  proof -
    have "slots ! k + 2 \<le> slot" using so(2) [OF room] that(2) slot by simp
    moreover have "ss_used st ! i" "i < length posts"
      using that inv so(1) [of k] room by (auto simp: ss_inv_def)
    moreover from this f(2) s(2) have "i \<noteq> first" "i \<noteq> second" by auto
    ultimately have "i \<notin> {slot, Suc slot, first, second}" using that(1) by auto
    then show ?thesis using sw(3) [of i] rng f s len \<open>i < length posts\<close> by simp
  qed
  have perm: "mset ?org = mset [0..<length posts]"
    using inv rng f s len by (simp add: ss_inv_def mset_swap_eq)
  have used: "(ss_used st)[slot := True, Suc slot := True] ! i \<longleftrightarrow>
      (\<exists>k < Suc (length (ss_placed st)). i = slots ! k \<or> i = Suc (slots ! k))" if "i < length posts" for i
    using inv that rng slot by (auto simp: ss_inv_def nth_list_update less_Suc_eq)
  have comp: "compatible lib (ad_rules_new (ads ! ((ss_placed st @ [j]) ! k))) (posts ! (?org ! (slots ! k))) \<and>
      compatible lib (ad_rules_new (ads ! ((ss_placed st @ [j]) ! k))) (posts ! (?org ! Suc (slots ! k)))"
    if k: "k < Suc (length (ss_placed st))" for k
  proof (cases "k < length (ss_placed st)")
    case True
    then show ?thesis using inv keep [of "slots ! k" k] keep [of "Suc (slots ! k)" k]
      by (simp add: ss_inv_def nth_append)
  next
    case False
    then have "k = length (ss_placed st)" using k by simp
    then show ?thesis using pair f(4) s(5) slot by (simp add: nth_append)
  qed
  show ?thesis
    unfolding ss_inv_def sel using inv perm used comp room j
    by (auto simp: ss_inv_def take_Suc_conv_app_nth less_Suc_eq)
qed

lemma ad_rules_sel:
  "ar_ad (ad_rules_new ad) = ad" "ar_sensitive (ad_rules_new ad) = is_bsr_low_ad ad"
  "ar_bsr_high (ad_rules_new ad) = is_bsr_high_ad ad"
  by (simp_all add: ad_rules_new_def)

lemma counts_of_drop: "counts_of (free_classes posts st) st \<Longrightarrow>
  counts_of (free_classes posts (ss_drop d st)) (ss_drop d st)"
  by (simp add: counts_of_def free_classes_def free_places_def ss_drop_def)

lemma slot_free:
  assumes inv: "ss_inv lib posts ads slots ds j st" and ok: "slots_ok (length posts) slots"
    and room: "length (ss_placed st) < length slots"
  shows "\<not> ss_used st ! (slots ! length (ss_placed st))" "\<not> ss_used st ! Suc (slots ! length (ss_placed st))"
proof -
  let ?s = "slots ! length (ss_placed st)"
  have "\<not> (\<exists>k < length (ss_placed st). i = slots ! k \<or> i = Suc (slots ! k))" if "?s \<le> i" for i
    using slots_ok_nth(2) [OF ok room] that by force
  moreover have "Suc ?s < length posts" using slots_ok_nth(1) [OF ok room] .
  ultimately show "\<not> ss_used st ! ?s" "\<not> ss_used st ! Suc ?s"
    using inv by (auto simp: ss_inv_def)
qed

lemma assign_ad_inv:
  assumes inv: "ss_inv lib posts ads slots ds j st" and cnt: "counts_of (free_classes posts st) st"
    and j: "j < length ads" and ok: "slots_ok (length posts) slots"
  shows "\<exists>st'. assign_ad lib posts slots ov j (ads ! j) sa st = Some st' \<and> ss_inv lib posts ads slots ds (Suc j) st' \<and>
    counts_of (free_classes posts st') st'"
proof (cases "length slots \<le> length (ss_placed st) \<or>
    (\<not> is_bsr_high_ad (ads ! j) \<and> ss_safe_free st + ss_low_free st < 2) \<or> (is_bsr_low_ad (ads ! j) \<and> ss_safe_free st < 2)")
  case True
  then show ?thesis using ss_inv_drop [OF inv j] counts_of_drop [OF cnt]
    by (auto simp: assign_ad_def ad_rules_new_def Let_def)
next
  case False
  define slot where "slot = slots ! length (ss_placed st)"
  define pl where "pl = (\<not> is_bsr_low_ad (ads ! j) \<and> 0 < ss_low_free st \<and>
      ss_safe_free st div 2 < min (length slots - length (ss_placed st) - 1) sa)"
  let ?rule = "ad_rules_new (ads ! j)"
  let ?p1 = "pick lib posts ?rule slot (ss_organic st) (ss_used st) [Suc slot] pl"
  let ?p2 = "\<lambda>first. pick lib posts ?rule (Suc slot) (ss_organic st) (ss_used st) [slot, first] pl"
  have room: "length (ss_placed st) < length slots" using False by simp
  have len: "length (ss_used st) = length (ss_organic st)" "length (ss_organic st) = length posts"
    using ss_inv_length [OF inv] inv by (auto simp: ss_inv_def)
  have rng: "Suc slot < length (ss_used st)" using slots_ok_nth(1) [OF ok room] len by (simp add: slot_def)
  have eq: "assign_ad lib posts slots ov j (ads ! j) sa st = (case ?p1 of None \<Rightarrow> None
     | Some None \<Rightarrow> Some (ss_drop (unpaired_drop lib posts ?rule st) st)
     | Some (Some first) \<Rightarrow> (case ?p2 first of None \<Rightarrow> None
        | Some None \<Rightarrow> Some (ss_drop (unpaired_drop lib posts ?rule st) st)
        | Some (Some second) \<Rightarrow> take_slot posts j slot first second st))"
    unfolding assign_ad_def Let_def slot_def pl_def ad_rules_sel
    using False by (simp only: de_Morgan_disj if_False simp_thms)
  have "?p1 \<noteq> None" using rng by (intro pick_returns) simp
  then consider "?p1 = Some None" | first where "?p1 = Some (Some first)" by (metis option.exhaust)
  then show ?thesis
  proof cases
    case 1
    then show ?thesis unfolding eq using ss_inv_drop [OF inv j] counts_of_drop [OF cnt] by simp
  next
    case (2 first)
    have "?p2 first \<noteq> None" using rng by (intro pick_returns) simp
    then consider "?p2 first = Some None" | second where "?p2 first = Some (Some second)" by (metis option.exhaust)
    then show ?thesis
    proof cases
      case 1
      with 2 show ?thesis unfolding eq using ss_inv_drop [OF inv j] counts_of_drop [OF cnt] by simp
    next
      case (2 second)
      note u = pick_usable [OF \<open>?p1 = Some (Some first)\<close> len(1)] pick_usable [OF 2 len(1)]
      have free: "{slot, Suc slot, first, second} \<subseteq> free_places st"
        using u rng slot_free [OF inv ok room] len by (auto simp: free_places_def slot_def)
      from take_slot_state [OF cnt this len(1)] obtain st' where
        st': "take_slot posts j slot first second st = Some st'" "counts_of (free_classes posts st') st'"
          "ss_organic st' = swap (Suc slot) second (swap slot first (ss_organic st))"
          "ss_used st' = (ss_used st)[slot := True, Suc slot := True]" "ss_placed st' = ss_placed st @ [j]"
          "ss_drops st' = ss_drops st" by blast
      have "ss_inv lib posts ads slots ds (Suc j) st'"
        using u len st' by (intro ss_inv_take_slot [OF inv j ok room slot_def, where first = first and second = second]) auto
      with st'(1,2) 2 \<open>?p1 = Some (Some first)\<close> show ?thesis unfolding eq by simp
    qed
  qed
qed

lemma assign_ads_inv:
  assumes "slots_ok (length posts) slots"
  shows "ss_inv lib posts (pre @ ads) slots ds (length pre) st \<Longrightarrow> counts_of (free_classes posts st) st \<Longrightarrow>
    \<exists>st'. assign_ads lib posts slots ov (length pre) ads st = Some st' \<and>
      ss_inv lib posts (pre @ ads) slots ds (length (pre @ ads)) st'"
proof (induction ads arbitrary: pre st)
  case (Cons ad ads)
  from assign_ad_inv [OF Cons.prems(1,2) _ assms, of ov "length (filter is_bsr_low_ad ads)"] obtain st' where
    "assign_ad lib posts slots ov (length pre) ad (length (filter is_bsr_low_ad ads)) st = Some st'"
    "ss_inv lib posts (pre @ ad # ads) slots ds (Suc (length pre)) st'" "counts_of (free_classes posts st') st'" by auto
  with Cons.IH [of "pre @ [ad]" st'] show ?case by simp
qed simp

section \<open>Spacing of admissible ads\<close>

lemma windows2_sorted:
  "(a, b) \<in> set (windows2 (sort_key f xs)) \<Longrightarrow> f a \<le> f b \<and> a \<in> set xs \<and> b \<in> set xs"
proof -
  assume "(a, b) \<in> set (windows2 (sort_key f xs))"
  then obtain i where i: "Suc i < length xs" "a = sort_key f xs ! i" "b = sort_key f xs ! Suc i"
    by (force simp: windows2_def in_set_zip nth_tl)
  have "sorted (map f (sort_key f xs))" by (rule sorted_sort_key)
  from sorted_nth_mono [OF this, of i "Suc i"] i have "f a \<le> f b" by simp
  moreover have "a \<in> set (sort_key f xs)" "b \<in> set (sort_key f xs)"
    unfolding i(2,3) by (rule nth_mem, use i(1) in simp)+
  ultimately show ?thesis by simp
qed

lemma i32_diff_bound:
  fixes a b :: i32
  assumes "0 \<le> sint a" "sint a \<le> sint b"
  shows "i32_as_usize (b - a) < 2 ^ 31"
proof -
  have lt: "sint b < 2 ^ 31" using sint_lt [of b] by simp
  have "sint (b - a) = signed_take_bit 31 (sint b - sint a)" using sint_word_ariths(2) [of b a] by simp
  also have "\<dots> = sint b - sint a" by (rule signed_take_bit_int_eq_self) (use assms lt in linarith)+
  finally have r: "0 \<le> sint (b - a)" "sint (b - a) < 2 ^ 31" using assms lt by linarith+
  have "(scast (b - a) :: 64 word) = word_of_int (sint (b - a))" by (rule scast_eq)
  then have "uint (scast (b - a) :: 64 word) = take_bit 64 (sint (b - a))" by (simp only: uint_word_of_int_eq len_of_numeral_defs) simp
  also have "\<dots> = sint (b - a)"
    by (rule take_bit_int_eq_self [OF r(1)]) (rule less_trans [OF r(2)], simp)
  finally have "unat (scast (b - a) :: 64 word) = nat (sint (b - a))" by (simp only: unat_eq_nat_uint)
  then show ?thesis using r by (simp add: i32_as_usize_def)
qed

lemma iter_min_mem: "iter_min xs = Some m \<Longrightarrow> m \<in> set xs"
proof (cases xs)
  case (Cons x ys)
  have "fold min ys x \<in> insert x (set ys)" for ys :: "nat list" and x
    by (induction ys arbitrary: x) (auto simp: min_def)
  then show "iter_min xs = Some m \<Longrightarrow> m \<in> set xs" using Cons by auto
qed simp

lemma spacing_bounds:
  assumes "positions_nonnegative ads"
  shows "3 \<le> requested (compute_spacing ads)" and "requested (compute_spacing ads) < 2 ^ 31"
proof -
  show "3 \<le> requested (compute_spacing ads)"
    by (simp add: compute_spacing_def DEFAULT_SPACING_def MIN_REQUESTED_GAP_def split: option.split)
  have "r < 2 ^ 31" if r: "min_position_diff ads = Some r" for r
  proof -
    obtain a b where ab: "(a, b) \<in> set (windows2 (sort_key sint (map ad_insert_position (take 4 ads))))"
      "r = i32_as_usize (b - a)"
      using iter_min_mem r by (fastforce simp: min_position_diff_def Let_def)
    from windows2_sorted [OF ab(1)] have "sint a \<le> sint b" "a \<in> ad_insert_position ` set (take 4 ads)" by auto
    moreover have "0 \<le> sint a"
      using calculation(2) assms by (auto simp: positions_nonnegative_def list_all_iff dest!: in_set_takeD)
    ultimately show ?thesis using i32_diff_bound ab(2) by blast
  qed
  then show "requested (compute_spacing ads) < 2 ^ 31"
    by (auto simp: compute_spacing_def DEFAULT_SPACING_def split: option.split)
qed

lemma page_capacity_room:
  assumes "3 \<le> sp" "sp < 2 ^ 31" "5 \<le> n"
  shows "\<exists>cap. page_capacity sp n RESULT_SIZE = Some cap \<and>
    (\<forall>c. 0 < c \<and> c \<le> cap \<longrightarrow> (c - 1) * sp + 2 \<le> min n (RESULT_SIZE - c))"
proof -
  have w: "usize_add sp 1 = Suc sp" "usize_add 33 sp = 33 + sp" using assms(2) by (simp_all add: usize_add_def)
  then have cap: "page_capacity sp n RESULT_SIZE = Some (min ((n - 2) div sp + 1) ((33 + sp) div Suc sp))"
    using assms by (simp add: page_capacity_def RESULT_SIZE_def)
  have "(c - 1) * sp + 2 \<le> min n (RESULT_SIZE - c)"
    if c: "0 < c" "c \<le> (n - 2) div sp + 1" "c \<le> (33 + sp) div Suc sp" for c
  proof -
    have "(c - 1) * sp \<le> (n - 2) div sp * sp" using c(1,2) by (intro mult_le_mono1) simp
    also have "\<dots> \<le> n - 2" by simp
    finally have n: "(c - 1) * sp + 2 \<le> n" using assms(3) by linarith
    have "c * Suc sp \<le> (33 + sp) div Suc sp * Suc sp" using c(3) by (intro mult_le_mono1)
    also have "\<dots> \<le> 33 + sp" by (rule div_times_less_eq_dividend)
    finally have "c * Suc sp \<le> 33 + sp" .
    moreover have "c * Suc sp = (c - 1) * sp + sp + c" using c(1) by (cases c) auto
    ultimately have "(c - 1) * sp + c \<le> 33" by linarith
    with n show ?thesis by (simp add: RESULT_SIZE_def)
  qed
  with cap show ?thesis by auto
qed

section \<open>The page\<close>

lemma enumerate_marks_nth:
  "k < length xs \<Longrightarrow> map (\<lambda>(k, a). (f k, a)) (enumerate 0 xs) ! k = (f k, xs ! k)"
  by (simp add: nth_enumerate_eq)

lemma map_snd_marks: "map snd (map (\<lambda>(k, a). (f k, a)) (enumerate 0 xs)) = xs"
  by (rule nth_equalityI) (simp_all add: nth_enumerate_eq)

lemma assign_page:
  assumes inv: "ss_inv lib posts ads slots ds (length ads) st" and ok: "slots_ok (length posts) slots"
  shows "\<exists>r. assemble posts ads (ss_organic st) (map (\<lambda>(k, ad). (slots ! k + 1, ad)) (enumerate 0 (ss_placed st))) n
      (ss_drops st) = Some r \<and>
    recorded_page (\<lambda>ad p q. compatible lib (ad_rules_new ad) p \<and> compatible lib (ad_rules_new ad) q) posts ads ds r"
proof (rule assemble_recorded)
  let ?b = "map (\<lambda>(k, ad). (slots ! k + 1, ad)) (enumerate 0 (ss_placed st))"
  have le: "length (ss_placed st) \<le> length slots" using inv by (simp only: ss_inv_def)
  note so = slots_ok_nth [OF ok]
  show "mset (ss_organic st) = mset [0..<length posts]" using inv by (simp only: ss_inv_def)
  show "distinct (map fst ?b)"
    unfolding distinct_conv_nth
  proof (intro allI impI)
    fix i j assume ij: "i < length (map fst ?b)" "j < length (map fst ?b)" "i \<noteq> j"
    then have "slots ! i \<noteq> slots ! j" using so(2) [of i j] so(2) [of j i] le by (cases i j rule: linorder_cases) auto
    then show "map fst ?b ! i \<noteq> map fst ?b ! j" using ij by (simp add: nth_enumerate_eq)
  qed
  show "list_all (\<lambda>(i, a). 0 < i \<and> i < length posts \<and> a < length ads) ?b"
    using inv so(1) le by (auto simp: list_all_length nth_enumerate_eq ss_inv_def)
  show "distinct (map snd ?b)" unfolding map_snd_marks using inv by (simp only: ss_inv_def)
  show "\<forall>(i, a) \<in> set ?b. compatible lib (ad_rules_new (ads ! a)) (posts ! (ss_organic st ! (i - 1))) \<and>
      compatible lib (ad_rules_new (ads ! a)) (posts ! (ss_organic st ! i))"
    using inv by (auto simp: set_conv_nth nth_enumerate_eq ss_inv_def)
  have "map (\<lambda>(i, a). ad_impression_id (ads ! a)) ?b = map (\<lambda>a. ad_impression_id (ads ! a)) (map snd ?b)"
    unfolding map_map by (rule map_cong) auto
  then show "mset (map (\<lambda>(i, a). ad_impression_id (ads ! a)) ?b) + mset (map da_impression_id (ss_drops st)) =
      mset (map ad_impression_id ads) + mset (map da_impression_id ds)"
    unfolding map_snd_marks using inv by (simp add: ss_inv_def)
qed

lemma ss_inv_start:
  "ss_inv lib posts ads slots ds 0
     \<lparr>ss_organic = [0..<length posts], ss_used = replicate (length posts) False, ss_placed = [],
      ss_safe_free = sf, ss_low_free = lf, ss_drops = ds\<rparr>"
  by (simp add: ss_inv_def)

lemma counts_of_start:
  fixes posts :: "scored_post list" and ds :: "dropped_ad list"
  defines "st \<equiv> \<lparr>ss_organic = [0..<length posts], ss_used = replicate (length posts) False, ss_placed = [],
      ss_safe_free = cc_safe (class_counts_of posts), ss_low_free = cc_low (class_counts_of posts), ss_drops = ds\<rparr>"
  shows "counts_of (free_classes posts st) st"
proof -
  have "free_places st = set [0..<length posts]" by (auto simp: free_places_def st_def)
  then have "free_classes posts st = image_mset (\<lambda>i. class_of (posts ! ([0..<length posts] ! i))) (mset [0..<length posts])"
    unfolding free_classes_def by (simp only: mset_set_set [OF distinct_upt]) (simp add: st_def)
  also have "\<dots> = image_mset (\<lambda>i. class_of (posts ! i)) (mset [0..<length posts])"
    by (rule image_mset_cong) simp
  also have "\<dots> = mset (map class_of (map (\<lambda>i. posts ! i) [0..<length posts]))" by (simp add: comp_def)
  also have "\<dots> = image_mset class_of (mset posts)" by (simp add: map_nth)
  finally show ?thesis
    using fold_count_class [of posts "\<lparr>cc_safe = 0, cc_low = 0, cc_medium = 0\<rparr>"]
    by (simp add: counts_of_def st_def class_counts_of_def)
qed

lemma slot_spread_recorded:
  assumes "positions_nonnegative ads"
  shows "\<exists>r. slot_spread_blend lib posts ads ds = Some r \<and>
    recorded_page (\<lambda>ad p q. compatible lib (ad_rules_new ad) p \<and> compatible lib (ad_rules_new ad) q) posts ads ds r"
proof -
  define sp where "sp = requested (compute_spacing ads)"
  define est where "est = safe_slot_estimate posts ads"
  show ?thesis
  proof (cases "ads = [] \<or> length posts < MIN_POSTS_FOR_ADS")
    case True
    then show ?thesis
      by (auto simp: slot_spread_blend_def slot_spread_blend_impl_def comp_def intro!: recorded_page_no_ads)
  next
    case False
    then have "5 \<le> length posts" by (simp add: MIN_POSTS_FOR_ADS_def)
    with page_capacity_room [of sp "length posts"] spacing_bounds [OF assms] obtain cap where
      cap: "page_capacity sp (length posts) RESULT_SIZE = Some cap"
        "\<And>c. 0 < c \<Longrightarrow> c \<le> cap \<Longrightarrow> (c - 1) * sp + 2 \<le> min (length posts) (RESULT_SIZE - c)"
      unfolding sp_def by blast
    define c where "c = min (min cap (length ads)) est"
    show ?thesis
    proof (cases "c = 0")
      case True
      with False cap(1) show ?thesis unfolding sp_def c_def est_def
        by (auto simp: slot_spread_blend_def slot_spread_blend_impl_def comp_def Let_def intro!: recorded_page_no_ads)
    next
      case pos: False
      define slots where "slots = spread_slots c sp (min (length posts) (RESULT_SIZE - c))"
      define ov where "ov = (if min cap (length ads) \<le> c then SpacingCap else NoEligibleNeighbours)"
      have ok: "slots_ok (length posts) slots"
        unfolding slots_def using pos cap(2) [of c] spacing_bounds(1) [OF assms]
        by (intro spread_slots_ok) (auto simp: c_def sp_def)
      from assign_ads_inv [OF ok, where pre = "[]", simplified, OF ss_inv_start counts_of_start] obtain st where
        st: "assign lib posts ads slots ov ds = Some st" "ss_inv lib posts ads slots ds (length ads) st"
        unfolding assign_def Let_def by blast
      have eq: "slot_spread_blend lib posts ads ds =
        (if ss_placed st = [] then Some (posts_to_feed_items posts, ss_drops st)
         else assemble posts ads (ss_organic st) (map (\<lambda>(k, ad). (slots ! k + 1, ad)) (enumerate 0 (ss_placed st)))
           RESULT_SIZE (ss_drops st))"
        unfolding slot_spread_blend_def slot_spread_blend_impl_def Let_def
        by (simp only: sp_def [symmetric] est_def [symmetric] cap(1) option.case c_def [symmetric] slots_def [symmetric]
            ov_def [symmetric] st(1) False pos if_False)
      show ?thesis
      proof (cases "ss_placed st = []")
        case True
        then show ?thesis unfolding eq using st(2) by (auto simp: ss_inv_def intro!: recorded_page_no_ads)
      next
        case False
        with assign_page [OF st(2) ok] show ?thesis unfolding eq by simp
      qed
    qed
  qed
qed

interpretation slot_spread: recording_blender "slot_spread_blend lib"
  "\<lambda>ad p q. compatible lib (ad_rules_new ad) p \<and> compatible lib (ad_rules_new ad) q" "\<lambda>_. positions_nonnegative" for lib
  by (rule recording_blenderI) (rule slot_spread_recorded)

section \<open>Properties\<close>

text \<open>
  C28. When no insert position is negative the slot-spread blender returns a page made of given
  posts and ads, none twice, on which each ad stands between two posts that are compatible with it,
  and every ad that is not on the page is recorded as dropped exactly once.
\<close>

theorem slot_spread_page:
  assumes "positions_nonnegative ads"
  shows "\<exists>items ds'. slot_spread_blend lib posts ads ds = Some (items, ds') \<and>
    mset (posts_of items) \<subseteq># mset posts \<and> mset (ads_of items) \<subseteq># mset ads \<and>
    ads_well_placed (\<lambda>ad p q. compatible lib (ad_rules_new ad) p \<and> compatible lib (ad_rules_new ad) q) items \<and>
    mset (map ad_impression_id (ads_of items)) + mset (map da_impression_id ds') =
      mset (map ad_impression_id ads) + mset (map da_impression_id ds)"
proof -
  obtain items ds' where r: "slot_spread_blend lib posts ads ds = Some (items, ds')"
    using slot_spread.returns [OF assms, of lib posts ds] by auto
  show ?thesis
    using r slot_spread.posts_given [OF assms r] slot_spread.ads_given [OF assms r]
      slot_spread.well_placed [OF assms r] slot_spread.drops_recorded [OF assms r] by blast
qed

definition spread_posts :: "scored_post list" where
  "spread_posts = map (\<lambda>i. default_post\<lparr>sp_tweet_id := of_nat i, sp_brand_safety_verdict := Safe\<rparr>) [1..<7]"

definition spread_ads :: "ad_index_info list" where
  "spread_ads = map (\<lambda>i. default_ad\<lparr>ad_impression_id := of_nat i, ad_insert_position := of_nat i\<rparr>) [1, 4]"

theorem slot_spread_page_witness:
  "\<exists>items ds'. slot_spread_blend letter_lib spread_posts spread_ads [] = Some (items, ds') \<and>
     mset (posts_of items) \<subseteq># mset spread_posts \<and>
     mset (map ad_impression_id (ads_of items)) + mset (map da_impression_id ds') = {#1, 4#}"
proof -
  have "positions_nonnegative spread_ads" by code_simp
  from slot_spread_page [OF this, of letter_lib spread_posts "[]"] show ?thesis
    by (auto simp: spread_ads_def default_ad_def)
qed

end
