(* ===== verification/Following_Ad_Blender.thy ===== *)
theory Following_Ad_Blender
  imports Ad_Slots
begin

text \<open>
  The ad blender of the Following feed (\<open>home-mixer/ads/following_ad_blender.rs\<close>): posts of one
  conversation form a unit that no ad splits, ads go behind a unit once enough units have passed,
  and an ad must fit every post of the unit above and of the unit below.
\<close>

section \<open>Definitions\<close>

definition FOLLOWING_DEFAULT_SPACING :: nat where "FOLLOWING_DEFAULT_SPACING = 3"
definition FOLLOWING_MIN_REQUESTED_GAP :: nat where "FOLLOWING_MIN_REQUESTED_GAP = 3"
definition FOLLOWING_MAX_RESULT_SIZE :: nat where "FOLLOWING_MAX_RESULT_SIZE = 110"

text \<open>\<open>SPACING_PROBE_ADS\<close> is 4, the number of ads \<open>min_position_diff\<close> looks at.\<close>

definition following_compute_spacing :: "ad_index_info list \<Rightarrow> nat" where
  "following_compute_spacing ads =
     (if length ads < 2 then FOLLOWING_DEFAULT_SPACING
      else case min_position_diff ads of
             Some r \<Rightarrow> if FOLLOWING_MIN_REQUESTED_GAP \<le> r then r else FOLLOWING_DEFAULT_SPACING
           | None \<Rightarrow> FOLLOWING_DEFAULT_SPACING)"

definition compute_first_position :: "ad_index_info list \<Rightarrow> nat \<Rightarrow> nat" where
  "compute_first_position ads spacing =
     (let first = (case ads of [] \<Rightarrow> 1 | a # _ \<Rightarrow> i32_max0 (ad_insert_position a))
      in max 1 (min first spacing))"

definition same_conversation_unit :: "scored_post \<Rightarrow> scored_post \<Rightarrow> bool" where
  "same_conversation_unit a b \<longleftrightarrow>
     sp_tweet_id b \<in> set (sp_ancestors a) \<or> sp_tweet_id a \<in> set (sp_ancestors b) \<or>
     list_ex (\<lambda>i. i \<in> set (sp_ancestors b)) (sp_ancestors a)"

definition extend_units :: "scored_post list \<Rightarrow> nat \<Rightarrow> (nat \<times> nat) list \<times> nat \<Rightarrow> (nat \<times> nat) list \<times> nat" where
  "extend_units posts i acc =
     (case acc of (units, start) \<Rightarrow>
        if \<not> same_conversation_unit (posts ! (i - 1)) (posts ! i) then (units @ [(start, i)], i)
        else (units, start))"

definition blend_units :: "scored_post list \<Rightarrow> (nat \<times> nat) list" where
  "blend_units posts =
     (if posts = [] then []
      else let (units, start) = fold (extend_units posts) [1..<length posts] ([], 0)
           in units @ [(start, length posts)])"

definition following_medium_risk :: "scored_post \<Rightarrow> bool" where
  "following_medium_risk p \<longleftrightarrow>
     \<not> (sp_brand_safety_verdict p = Safe \<or> sp_brand_safety_verdict p = LowRisk)"

definition unit_medium_risk :: "scored_post list \<Rightarrow> bool" where
  "unit_medium_risk ps \<longleftrightarrow> list_ex following_medium_risk ps"

definition group_block :: "post_text \<Rightarrow> ad_index_info \<Rightarrow> scored_post list \<Rightarrow> scored_post list \<Rightarrow> block option" where
  "group_block lib ad ps qs =
     or_else (or_else (find_map (\<lambda>p. handle_block ad (Some p) None) (ps @ qs))
                      (find_map (\<lambda>p. fst (keyword_block lib ad (Some p) None None)) (ps @ qs)))
             (find_map (\<lambda>p. low_risk_block ad (Some p) None) (ps @ qs))"

definition posts_slice :: "'a list \<Rightarrow> nat \<times> nat \<Rightarrow> 'a list" where
  "posts_slice xs r = drop (fst r) (take (snd r) xs)"

text \<open>
  The scan of the pool: each ad that the rules keep out remembers the block, the first one they
  admit is the answer.
\<close>

fun scan_pool :: "post_text \<Rightarrow> scored_post list \<Rightarrow> scored_post list \<Rightarrow> (ad_index_info \<times> block option) list \<Rightarrow>
    (ad_index_info \<times> block option) list \<times> nat option" where
  "scan_pool lib ps qs [] = ([], None)"
| "scan_pool lib ps qs ((ad, last_block) # pool) =
     (case group_block lib ad ps qs of
        Some b \<Rightarrow> let (pool', i) = scan_pool lib ps qs pool in ((ad, Some b) # pool', map_option Suc i)
      | None \<Rightarrow> ((ad, last_block) # pool, Some 0))"

record fb_state =
  fb_pool :: "(ad_index_info \<times> block option) list"
  fb_ad_after :: "ad_index_info option list"
  fb_gap :: nat
  fb_medium_risk_openings :: nat

text \<open>The body of the loop over the units; \<open>below\<close> is the next unit, \<open>None\<close> at the last one.\<close>

definition visit_unit :: "post_text \<Rightarrow> scored_post list \<Rightarrow> nat \<Rightarrow> nat \<times> nat \<Rightarrow> (nat \<times> nat) option \<Rightarrow> fb_state \<Rightarrow> fb_state" where
  "visit_unit lib posts spacing u next_unit st0 =
     (let st = st0\<lparr>fb_gap := Suc (fb_gap st0)\<rparr>
      in case next_unit of
           Some v \<Rightarrow>
             if spacing \<le> fb_gap st \<and> fb_pool st \<noteq> []
             then let ps = posts_slice posts u; qs = posts_slice posts v
                  in if unit_medium_risk ps \<or> unit_medium_risk qs
                     then st\<lparr>fb_medium_risk_openings := Suc (fb_medium_risk_openings st)\<rparr>
                     else let (pool, placed) = scan_pool lib ps qs (fb_pool st)
                          in case placed of
                               Some i \<Rightarrow> st\<lparr>fb_pool := remove_at i pool,
                                 fb_ad_after := (fb_ad_after st)[snd u - 1 := Some (fst (pool ! i))],
                                 fb_gap := 0\<rparr>
                             | None \<Rightarrow> st\<lparr>fb_pool := pool\<rparr>
             else st
         | None \<Rightarrow> st)"

fun visit_units :: "post_text \<Rightarrow> scored_post list \<Rightarrow> nat \<Rightarrow> (nat \<times> nat) list \<Rightarrow> fb_state \<Rightarrow> fb_state" where
  "visit_units lib posts spacing [] st = st"
| "visit_units lib posts spacing (u # us) st =
     visit_units lib posts spacing us
       (visit_unit lib posts spacing u (case us of [] \<Rightarrow> None | v # _ \<Rightarrow> Some v) st)"

fun following_items :: "scored_post list \<Rightarrow> ad_index_info option list \<Rightarrow> feed_item list" where
  "following_items (p # ps) (Some a # ads) = post_item p # ad_item a # following_items ps ads"
| "following_items (p # ps) (None # ads) = post_item p # following_items ps ads"
| "following_items ps ads = []"

text \<open>What is recorded of an ad left in the pool.\<close>

definition pool_drop :: "ad_drop_reason \<Rightarrow> ad_index_info \<times> block option \<Rightarrow> dropped_ad" where
  "pool_drop no_room x =
     (case snd x of Some b \<Rightarrow> adjacency_drop (fst x) b | None \<Rightarrow> drop_ad (fst x) no_room)"

definition following_blend_with_spacing :: "post_text \<Rightarrow> nat \<Rightarrow> nat \<Rightarrow> nat \<Rightarrow> scored_post list \<Rightarrow> ad_index_info list \<Rightarrow>
    dropped_ad list \<Rightarrow> feed_item list \<times> dropped_ad list" where
  "following_blend_with_spacing lib min_posts result_size spacing posts ads ds =
     (let units = blend_units posts
      in if ads = [] \<or> length units < min_posts \<or> spacing < 1
         then (posts_to_feed_items posts, ds @ map (\<lambda>ad. drop_ad ad TooFewPosts) ads)
         else let st = visit_units lib posts spacing units
                    \<lparr>fb_pool = map (\<lambda>ad. (ad, None)) ads,
                     fb_ad_after = map (\<lambda>_. None) posts,
                     fb_gap = spacing - compute_first_position ads spacing,
                     fb_medium_risk_openings = 0\<rparr>;
                  no_room = (if 0 < fb_medium_risk_openings st then NoEligibleNeighbours else SpacingCap);
                  ds1 = ds @ map (pool_drop no_room) (fb_pool st);
                  (items, ds2) = truncate_recording_drops (following_items posts (fb_ad_after st)) result_size ds1
              in (renumber items, ds2))"

definition following_blend :: "post_text \<Rightarrow> blender" where
  "following_blend lib posts ads ds =
     Some (following_blend_with_spacing lib MIN_POSTS_FOR_ADS FOLLOWING_MAX_RESULT_SIZE
             (following_compute_spacing ads) posts ads ds)"

section \<open>Units\<close>

text \<open>The units are consecutive, non-empty and cover the posts from \<open>a\<close> to \<open>n\<close>.\<close>

fun chained :: "nat \<Rightarrow> nat \<Rightarrow> (nat \<times> nat) list \<Rightarrow> bool" where
  "chained a n [] \<longleftrightarrow> a = n"
| "chained a n ((s, e) # us) \<longleftrightarrow> s = a \<and> a < e \<and> e \<le> n \<and> chained e n us"

lemma chained_snoc: "chained a s us \<Longrightarrow> s < e \<Longrightarrow> chained a e (us @ [(s, e)])"
proof (induction us arbitrary: a)
  case (Cons u us)
  then show ?case by (cases u) auto
qed simp

text \<open>A unit starts at the top of the page or where the conversation changes.\<close>

definition unit_start :: "scored_post list \<Rightarrow> nat \<Rightarrow> bool" where
  "unit_start posts s \<longleftrightarrow> s = 0 \<or> \<not> same_conversation_unit (posts ! (s - 1)) (posts ! s)"

lemma fold_extend_units:
  "chained 0 start units \<Longrightarrow> start < k \<Longrightarrow> k \<le> n \<Longrightarrow>
   list_all (\<lambda>u. unit_start posts (fst u)) units \<Longrightarrow> unit_start posts start \<Longrightarrow>
   (case fold (extend_units posts) [k..<n] (units, start) of (units', start') \<Rightarrow>
      chained 0 start' units' \<and> start' < n \<and> list_all (\<lambda>u. unit_start posts (fst u)) units' \<and> unit_start posts start')"
proof (induction "n - k" arbitrary: k units start)
  case 0
  then show ?case by simp
next
  case (Suc d)
  let ?r = "extend_units posts k (units, start)"
  from Suc have "[k..<n] = k # [Suc k..<n]" by (simp add: upt_conv_Cons)
  moreover have "chained 0 (snd ?r) (fst ?r)" "snd ?r < Suc k" "list_all (\<lambda>u. unit_start posts (fst u)) (fst ?r)"
    "unit_start posts (snd ?r)"
    using Suc.prems by (auto simp: extend_units_def chained_snoc unit_start_def)
  ultimately show ?case
    using Suc.hyps(1) [of "Suc k" "snd ?r" "fst ?r"] Suc.hyps(2) Suc.prems by simp
qed

lemma blend_units_chained:
  "chained 0 (length posts) (blend_units posts) \<and> list_all (\<lambda>u. unit_start posts (fst u)) (blend_units posts)"
proof (cases "posts = []")
  case False
  then have "case fold (extend_units posts) [1..<length posts] ([], 0) of (units', start') \<Rightarrow>
      chained 0 start' units' \<and> start' < length posts \<and> list_all (\<lambda>u. unit_start posts (fst u)) units' \<and>
      unit_start posts start'"
    by (intro fold_extend_units) (auto simp: unit_start_def Suc_le_eq)
  then show ?thesis using False by (auto simp: blend_units_def split: prod.splits intro: chained_snoc)
qed (simp add: blend_units_def)

section \<open>Items\<close>

lemma following_items_content:
  "length ps = length ads \<Longrightarrow> posts_of (following_items ps ads) = ps \<and> ads_of (following_items ps ads) = flatten ads \<and>
   only_posts_and_ads (following_items ps ads)"
proof (induction ps ads rule: list_induct2)
  case (Cons p ps a ads)
  then show ?case by (cases a) auto
qed simp

lemma following_items_neighbours:
  assumes "length ps = length ads"
    and "\<forall>j < length ps. \<forall>ad. ads ! j = Some ad \<longrightarrow> Suc j < length ps \<and> ok ad (ps ! j) (ps ! Suc j)"
  shows "ad_neighbours ok prev (map item (following_items ps ads))"
  using assms
proof (induction ps ads arbitrary: prev rule: list_induct2)
  case (Cons p ps a ads)
  have tail: "\<forall>j < length ps. \<forall>ad. ads ! j = Some ad \<longrightarrow> Suc j < length ps \<and> ok ad (ps ! j) (ps ! Suc j)"
    using Cons.prems by (auto dest: spec [of _ "Suc _"])
  show ?case
  proof (cases a)
    case None
    then show ?thesis using Cons.IH [OF tail] by simp
  next
    case (Some ad)
    then have "0 < length ps" "ok ad p (ps ! 0)" using Cons.prems by (auto dest: spec [of _ 0])
    then obtain q qs where "ps = q # qs" "ok ad p q" by (cases ps) auto
    moreover from this Cons.hyps obtain b bs where "ads = b # bs" by (cases ads) auto
    ultimately show ?thesis using Cons.IH [OF tail, of None] Some by (cases b) auto
  qed
qed simp

section \<open>The loop over the units\<close>

definition following_neighbour :: "post_text \<Rightarrow> ad_index_info \<Rightarrow> scored_post \<Rightarrow> bool" where
  "following_neighbour lib ad p \<longleftrightarrow> \<not> following_medium_risk p \<and> neighbour_allowed lib ad p"

definition following_ok :: "post_text \<Rightarrow> ad_index_info \<Rightarrow> scored_post \<Rightarrow> scored_post \<Rightarrow> bool" where
  "following_ok lib ad p q \<longleftrightarrow>
     following_neighbour lib ad p \<and> following_neighbour lib ad q \<and> \<not> same_conversation_unit p q"

lemma group_block_None:
  assumes "group_block lib ad ps qs = None" and "p \<in> set (ps @ qs)"
  shows "neighbour_allowed lib ad p"
proof -
  have "handle_block ad (Some p) None = None" "fst (keyword_block lib ad (Some p) None None) = None"
    "low_risk_block ad (Some p) None = None"
    using assms by (auto simp: group_block_def)
  then show ?thesis
    using keyword_block_None [of lib "Some p" None None ad]
    by (simp add: neighbour_allowed_def handle_block_None low_risk_block_None)
qed

lemma map_fst_scan_pool [simp]: "map fst (fst (scan_pool lib ps qs pool)) = map fst pool"
  by (induction lib ps qs pool rule: scan_pool.induct) (auto simp: split_def Let_def split: option.split)

lemma scan_pool_Some:
  "snd (scan_pool lib ps qs pool) = Some i \<Longrightarrow>
   i < length pool \<and> group_block lib (fst (pool ! i)) ps qs = None"
proof (induction lib ps qs pool arbitrary: i rule: scan_pool.induct)
  case (2 lib ps qs ad lb pool)
  then show ?case by (cases "group_block lib ad ps qs") (auto simp: split_def Let_def)
qed simp

lemma length_scan_pool [simp]: "length (fst (scan_pool lib ps qs pool)) = length pool"
  by (metis length_map map_fst_scan_pool)

definition fb_inv :: "post_text \<Rightarrow> scored_post list \<Rightarrow> ad_index_info list \<Rightarrow> nat \<Rightarrow> fb_state \<Rightarrow> bool" where
  "fb_inv lib posts ads s st \<longleftrightarrow>
     length (fb_ad_after st) = length posts \<and>
     (\<forall>j < length posts. s \<le> j \<longrightarrow> fb_ad_after st ! j = None) \<and>
     mset (flatten (fb_ad_after st)) + mset (map fst (fb_pool st)) = mset ads \<and>
     (\<forall>j < length posts. \<forall>ad. fb_ad_after st ! j = Some ad \<longrightarrow> Suc j < length posts \<and>
        following_ok lib ad (posts ! j) (posts ! Suc j))"

lemma fb_inv_mono:
  "fb_inv lib posts ads s st \<Longrightarrow> s \<le> s' \<Longrightarrow> map fst (fb_pool st') = map fst (fb_pool st) \<Longrightarrow>
   fb_ad_after st' = fb_ad_after st \<Longrightarrow> fb_inv lib posts ads s' st'"
  by (simp add: fb_inv_def)

lemma map_fst_remove_at: "i < length xs \<Longrightarrow>
  add_mset (fst (xs ! i)) (mset (map fst (remove_at i xs))) = mset (map fst xs)"
proof -
  assume "i < length xs"
  from mset_remove_at [OF this] have "image_mset fst (mset xs) = image_mset fst (add_mset (xs ! i) (mset (remove_at i xs)))"
    by simp
  then show ?thesis by simp
qed

lemma slice_neighbours:
  assumes "s < e" "e < e'" "e' \<le> length posts"
  shows "posts ! (e - 1) \<in> set (posts_slice posts (s, e))" and "posts ! e \<in> set (posts_slice posts (e, e'))"
proof -
  have "posts_slice posts (s, e) ! (e - 1 - s) = posts ! (e - 1)" "e - 1 - s < length (posts_slice posts (s, e))"
    using assms by (auto simp: posts_slice_def)
  then show "posts ! (e - 1) \<in> set (posts_slice posts (s, e))" by (metis nth_mem)
  have "posts_slice posts (e, e') ! 0 = posts ! e" "0 < length (posts_slice posts (e, e'))"
    using assms by (auto simp: posts_slice_def)
  then show "posts ! e \<in> set (posts_slice posts (e, e'))" by (metis nth_mem)
qed

lemma fb_inv_place:
  assumes inv: "fb_inv lib posts ads s st" and e: "s < e" "e < length posts"
    and pool: "map fst pool = map fst (fb_pool st)" "i < length pool"
    and ok: "following_ok lib (fst (pool ! i)) (posts ! (e - 1)) (posts ! e)"
  shows "fb_inv lib posts ads e (st\<lparr>fb_pool := remove_at i pool,
      fb_ad_after := (fb_ad_after st)[e - 1 := Some (fst (pool ! i))], fb_gap := g\<rparr>)"
proof -
  let ?a = "fst (pool ! i)"
  have len: "length (fb_ad_after st) = length posts" using inv by (simp add: fb_inv_def)
  have "fb_ad_after st ! (e - 1) = None" using inv e by (simp add: fb_inv_def)
  then have "mset (flatten ((fb_ad_after st)[e - 1 := Some ?a])) = add_mset ?a (mset (flatten (fb_ad_after st)))"
    using e len by (intro flatten_set) auto
  moreover have "add_mset ?a (mset (map fst (remove_at i pool))) = mset (map fst (fb_pool st))"
    using map_fst_remove_at [OF pool(2)] pool(1) by simp
  moreover have "mset (flatten (fb_ad_after st)) + mset (map fst (fb_pool st)) = mset ads"
    using inv by (simp add: fb_inv_def)
  ultimately have "mset (flatten ((fb_ad_after st)[e - 1 := Some ?a])) + mset (map fst (remove_at i pool)) = mset ads"
    by (metis union_mset_add_mset_left union_mset_add_mset_right)
  moreover have "Suc (e - 1) = e" using e by simp
  ultimately show ?thesis
    using inv e ok len by (auto simp: fb_inv_def nth_list_update)
qed

lemma visit_unit_inv:
  assumes inv: "fb_inv lib posts ads s st" and c: "chained s (length posts) ((s, e) # us)"
    and b: "list_all (\<lambda>u. unit_start posts (fst u)) us"
  shows "fb_inv lib posts ads e (visit_unit lib posts sp (s, e) (case us of [] \<Rightarrow> None | v # _ \<Rightarrow> Some v) st)"
proof (cases us)
  case Nil
  then show ?thesis using inv c by (auto simp: visit_unit_def intro: fb_inv_mono)
next
  case (Cons v vs)
  obtain e' where v: "v = (e, e')" and e: "s < e" "e < e'" "e' \<le> length posts"
    using c Cons by (cases v) auto
  let ?ps = "posts_slice posts (s, e)" and ?qs = "posts_slice posts (e, e')"
  let ?st = "st\<lparr>fb_gap := Suc (fb_gap st)\<rparr>"
  define r where "r = scan_pool lib ?ps ?qs (fb_pool st)"
  have inv': "fb_inv lib posts ads s ?st" using inv by (rule fb_inv_mono) simp_all
  have eq: "visit_unit lib posts sp (s, e) (case us of [] \<Rightarrow> None | v # _ \<Rightarrow> Some v) st =
     (if sp \<le> fb_gap ?st \<and> fb_pool st \<noteq> []
      then if unit_medium_risk ?ps \<or> unit_medium_risk ?qs
           then ?st\<lparr>fb_medium_risk_openings := Suc (fb_medium_risk_openings st)\<rparr>
           else case snd r of Some i \<Rightarrow> ?st\<lparr>fb_pool := remove_at i (fst r),
                  fb_ad_after := (fb_ad_after st)[e - 1 := Some (fst (fst r ! i))], fb_gap := 0\<rparr>
                | None \<Rightarrow> ?st\<lparr>fb_pool := fst r\<rparr>
      else ?st)"
    using Cons v by (simp add: visit_unit_def Let_def r_def split_def split: option.split)
  show ?thesis
  proof (cases "(sp \<le> fb_gap ?st \<and> fb_pool st \<noteq> []) \<and> \<not> (unit_medium_risk ?ps \<or> unit_medium_risk ?qs) \<and> snd r \<noteq> None")
    case True
    then obtain i where i: "snd r = Some i" by auto
    have pool: "map fst (fst r) = map fst (fb_pool ?st)" "i < length (fst r)"
      using scan_pool_Some i by (auto simp: r_def)
    have "fst (fst r ! i) = fst (fb_pool st ! i)"
      using pool by (metis fb_state.select_convs(1) fb_state.surjective fb_state.update_convs(3) length_map nth_map)
    then have gb: "group_block lib (fst (fst r ! i)) ?ps ?qs = None"
      using scan_pool_Some [of lib ?ps ?qs "fb_pool st" i] i by (simp add: r_def)
    have "following_neighbour lib (fst (fst r ! i)) (posts ! (e - 1))" "following_neighbour lib (fst (fst r ! i)) (posts ! e)"
      using group_block_None [OF gb] slice_neighbours [OF e] True
      by (auto simp: following_neighbour_def unit_medium_risk_def list_ex_iff)
    moreover have "\<not> same_conversation_unit (posts ! (e - 1)) (posts ! e)"
      using b Cons v e by (simp add: unit_start_def)
    ultimately have "following_ok lib (fst (fst r ! i)) (posts ! (e - 1)) (posts ! e)"
      by (simp add: following_ok_def)
    from fb_inv_place [OF inv' e(1) _ pool this] e True i show ?thesis unfolding eq by (simp add: less_le_trans)
  next
    case False
    then show ?thesis unfolding eq using inv' e(1)
      by (auto simp: r_def intro: fb_inv_mono split: option.split)
  qed
qed

lemma visit_units_inv:
  "fb_inv lib posts ads s st \<Longrightarrow> chained s (length posts) us \<Longrightarrow> list_all (\<lambda>u. unit_start posts (fst u)) us \<Longrightarrow>
   fb_inv lib posts ads (length posts) (visit_units lib posts sp us st)"
proof (induction us arbitrary: s st)
  case (Cons u us)
  obtain e where u: "u = (s, e)" "chained e (length posts) us" using Cons.prems(2) by (cases u) auto
  have "list_all (\<lambda>u. unit_start posts (fst u)) us" using Cons.prems(3) by simp
  from visit_unit_inv [OF Cons.prems(1) Cons.prems(2) [unfolded u(1)] this, of sp] Cons.IH u this
  show ?case by simp
qed simp

section \<open>The blender\<close>

lemma pool_drop_impression [simp]: "da_impression_id (pool_drop r x) = ad_impression_id (fst x)"
  by (simp add: pool_drop_def split: option.split)

lemma following_recorded:
  "recorded_page (following_ok lib) posts ads ds (following_blend_with_spacing lib mp n sp posts ads ds)"
proof (cases "ads = [] \<or> length (blend_units posts) < mp \<or> sp < 1")
  case True
  then show ?thesis
    by (auto simp: following_blend_with_spacing_def Let_def comp_def intro!: recorded_page_no_ads)
next
  case False
  define st where "st = visit_units lib posts sp (blend_units posts)
     \<lparr>fb_pool = map (\<lambda>ad. (ad, None)) ads, fb_ad_after = map (\<lambda>_. None) posts,
      fb_gap = sp - compute_first_position ads sp, fb_medium_risk_openings = 0\<rparr>"
  define ds1 where "ds1 = ds @ map (pool_drop (if 0 < fb_medium_risk_openings st
      then NoEligibleNeighbours else SpacingCap)) (fb_pool st)"
  have nones: "flatten (map (\<lambda>_. None) posts) = []" by (induction posts) simp_all
  have "fb_inv lib posts ads 0 \<lparr>fb_pool = map (\<lambda>ad. (ad, None)) ads, fb_ad_after = map (\<lambda>_. None) posts,
      fb_gap = sp - compute_first_position ads sp, fb_medium_risk_openings = 0\<rparr>"
    by (simp add: fb_inv_def nones comp_def)
  from visit_units_inv [OF this, of "blend_units posts" sp] blend_units_chained [of posts]
  have inv: "fb_inv lib posts ads (length posts) st" by (simp add: st_def)
  let ?raw = "following_items posts (fb_ad_after st)"
  have len: "length posts = length (fb_ad_after st)" using inv by (simp add: fb_inv_def)
  have well: "ads_well_placed (following_ok lib) ?raw"
    unfolding ads_well_placed_def using inv by (intro following_items_neighbours [OF len]) (simp add: fb_inv_def)
  have total: "mset (ads_of ?raw) + mset (map fst (fb_pool st)) = mset ads"
    using following_items_content [OF len] inv by (simp add: fb_inv_def)
  have "recorded_page (following_ok lib) posts ads ds
      (renumber (fst (truncate_recording_drops ?raw n ds1)), snd (truncate_recording_drops ?raw n ds1))"
  proof (rule recorded_page_truncate)
    show "mset (ads_of ?raw) \<subseteq># mset ads" using total by (metis mset_subset_eq_add_left)
    show "mset (map ad_impression_id (ads_of ?raw)) + mset (map da_impression_id ds1) =
        mset (map ad_impression_id ads) + mset (map da_impression_id ds)"
      using arg_cong [OF total, of "image_mset ad_impression_id"] by (simp add: ds1_def comp_def multiset.map_comp)
  qed (use following_items_content [OF len] well in \<open>simp_all\<close>)
  then show ?thesis
    using False by (simp add: following_blend_with_spacing_def Let_def st_def [symmetric] ds1_def [symmetric] split_def)
qed

interpretation following: recording_blender "following_blend lib" "following_ok lib" "\<lambda>_ _. True" for lib
  by (rule recording_blenderI) (simp add: following_blend_def following_recorded)

section \<open>Properties\<close>

text \<open>
  On a page of the Following feed every ad stands between two posts of different
  conversations, both classified safe or low risk and both allowed by the ad's own rules; the
  posts keep their order; and every ad is either on the page or recorded as dropped, exactly once.
\<close>

lemma following_page:
  "\<exists>items drops. following_blend lib posts ads [] = Some (items, drops) \<and>
     ads_well_placed (following_ok lib) items \<and> (\<exists>n. posts_of items = take n posts) \<and>
     mset (map ad_impression_id (ads_of items)) + mset (map da_impression_id drops) =
       mset (map ad_impression_id ads)"
proof -
  obtain items drops where r: "following_blend lib posts ads [] = Some (items, drops)"
    using following.returns [OF TrueI, of lib posts ads "[]"] by auto
  have "\<exists>n. posts_of items = take n posts"
  proof (cases "items = posts_to_feed_items posts")
    case True
    then show ?thesis by (auto simp: posts_to_feed_items_def intro: exI [of _ "length posts"])
  next
    case False
    define st where "st = visit_units lib posts (following_compute_spacing ads) (blend_units posts)
      \<lparr>fb_pool = map (\<lambda>ad. (ad, None)) ads, fb_ad_after = map (\<lambda>_. None) posts,
       fb_gap = following_compute_spacing ads - compute_first_position ads (following_compute_spacing ads),
       fb_medium_risk_openings = 0\<rparr>"
    let ?raw = "following_items posts (fb_ad_after st)"
    have items: "items = renumber (fst (pop_trailing_ad (take FOLLOWING_MAX_RESULT_SIZE ?raw)))"
      using r False by (auto simp: following_blend_def following_blend_with_spacing_def Let_def split_def
          truncate_parts st_def [symmetric] split: if_splits)
    have nones: "flatten (map (\<lambda>_. None) posts) = []" by (induction posts) simp_all
    have "fb_inv lib posts ads (length posts) st"
      unfolding st_def using blend_units_chained [of posts]
      by (intro visit_units_inv [of _ _ _ 0]) (simp_all add: fb_inv_def nones comp_def)
    then have "posts_of ?raw = posts" by (simp add: fb_inv_def following_items_content)
    then show ?thesis using posts_of_take [of FOLLOWING_MAX_RESULT_SIZE ?raw] items by auto
  qed
  with following.well_placed [OF TrueI r] following.drops_recorded [OF TrueI r] r show ?thesis by auto
qed

end
