(* ===== verification/Blender_Selector.thy ===== *)
theory Blender_Selector
  imports Candidate_Pipeline Frames Safe_Gap_Blender Partition_Organic_Blender Multi_Risk_Blender
    Slot_Spread_Blender Following_Ad_Blender
begin

text \<open>
  The selectors that make the page of the For You feed and of the Following feed
  (\<open>home-mixer/selectors\<close>): the items of the request are sorted by kind, posts and ads go through
  an ad blender, the modules are inserted at their positions, and what is not on the page is
  reported as not selected. The ad blenders of the struct \<open>BlenderSelector\<close> are the fields of the
  record \<open>blenders\<close>; two of them are not modelled and stay parameters. A feature switch that the
  code reads is a field of \<open>select_query\<close>. \<open>None\<close> is a panic of the blender.
\<close>

section \<open>The items of a request\<close>

record partitioned_feed_items =
  pf_posts :: "scored_post list"
  pf_ads :: "ad_index_info list"
  pf_wtf_modules :: "feed_module list"
  pf_prompts :: "feed_module list"
  pf_push_to_home :: "feed_module option"
  pf_frames :: "frame list"
  pf_feed_survey :: "feed_module option"
  pf_video_carousel :: "feed_module option"

definition partition_item :: "feed_item \<Rightarrow> partitioned_feed_items \<Rightarrow> partitioned_feed_items" where
  "partition_item it p =
     (case item it of
        None \<Rightarrow> p
      | Some (Post x) \<Rightarrow> p\<lparr>pf_posts := pf_posts p @ [x]\<rparr>
      | Some (Ad x) \<Rightarrow> p\<lparr>pf_ads := pf_ads p @ [x]\<rparr>
      | Some (WhoToFollow x) \<Rightarrow> p\<lparr>pf_wtf_modules := pf_wtf_modules p @ [x]\<rparr>
      | Some (Prompt x) \<Rightarrow> p\<lparr>pf_prompts := pf_prompts p @ [x]\<rparr>
      | Some (PushToHome x) \<Rightarrow> p\<lparr>pf_push_to_home := Some x\<rparr>
      | Some (Frame x) \<Rightarrow> p\<lparr>pf_frames := pf_frames p @ [x]\<rparr>
      | Some (FeedSurvey x) \<Rightarrow> p\<lparr>pf_feed_survey := Some x\<rparr>
      | Some (VideoCarousel x) \<Rightarrow> p\<lparr>pf_video_carousel := Some x\<rparr>)"

definition partition_feed_items :: "feed_item list \<Rightarrow> partitioned_feed_items" where
  "partition_feed_items items = fold partition_item items
     \<lparr>pf_posts = [], pf_ads = [], pf_wtf_modules = [], pf_prompts = [], pf_push_to_home = None,
      pf_frames = [], pf_feed_survey = None, pf_video_carousel = None\<rparr>"

section \<open>Inserting the modules\<close>

definition WHO_TO_FOLLOW_POSITION :: nat where "WHO_TO_FOLLOW_POSITION = 6"
definition FOLLOWING_WHO_TO_FOLLOW_MIN_POSTS :: nat where "FOLLOWING_WHO_TO_FOLLOW_MIN_POSTS = 10"
definition PROMPTS_POSITION :: i32 where "PROMPTS_POSITION = 0"
definition FEED_SURVEY_POSITION :: nat where "FEED_SURVEY_POSITION = 12"

definition insert_prompts :: "feed_item list \<Rightarrow> feed_module list \<Rightarrow> feed_item list" where
  "insert_prompts blended prompts =
     fold (\<lambda>(i, p). insert_at i \<lparr>position = PROMPTS_POSITION, item = Some (Prompt p)\<rparr>)
       (enumerate 0 prompts) blended"

definition insert_who_to_follow :: "feed_item list \<Rightarrow> feed_module list \<Rightarrow> feed_item list" where
  "insert_who_to_follow blended wtf_modules =
     (case wtf_modules of
        [] \<Rightarrow> blended
      | wtf # _ \<Rightarrow> insert_at (min (WHO_TO_FOLLOW_POSITION - 1) (length blended))
                    \<lparr>position = of_nat WHO_TO_FOLLOW_POSITION, item = Some (WhoToFollow wtf)\<rparr> blended)"

definition insert_video_carousel :: "feed_item list \<Rightarrow> feed_module option \<Rightarrow> nat \<Rightarrow> feed_item list" where
  "insert_video_carousel blended video_carousel pos =
     (case video_carousel of
        None \<Rightarrow> blended
      | Some carousel \<Rightarrow> insert_at (min (pos - 1) (length blended))
                          \<lparr>position = of_nat pos, item = Some (VideoCarousel carousel)\<rparr> blended)"

definition drop_carousel_if_who_to_follow_present :: "feed_module option \<Rightarrow> feed_module list \<Rightarrow> feed_module option" where
  "drop_carousel_if_who_to_follow_present video_carousel wtf_modules =
     (if wtf_modules = [] then video_carousel else None)"

definition pin_push_to_home :: "feed_item list \<Rightarrow> feed_module option \<Rightarrow> feed_item list" where
  "pin_push_to_home blended push_to_home =
     (case push_to_home of
        None \<Rightarrow> blended
      | Some pth \<Rightarrow> insert_at 0 \<lparr>position = 0, item = Some (PushToHome pth)\<rparr> blended)"

fun insert_planned :: "nat \<Rightarrow> nat \<Rightarrow> (nat \<times> frame) list \<Rightarrow> feed_item list \<Rightarrow> feed_item list" where
  "insert_planned already_inserted next_index [] blended = blended"
| "insert_planned already_inserted next_index ((slot, f) # planned) blended =
     (let insert_idx = min (max (slot + already_inserted) next_index) (length blended)
      in insert_planned (Suc already_inserted) (Suc insert_idx) planned
           (insert_at insert_idx \<lparr>position = of_nat insert_idx, item = Some (Frame f)\<rparr> blended))"

definition insert_planned_frames :: "feed_item list \<Rightarrow> (nat \<times> frame) list \<Rightarrow> feed_item list" where
  "insert_planned_frames blended planned = insert_planned 0 0 planned blended"

definition insert_frames :: "feed_item list \<Rightarrow> frame list \<Rightarrow> feed_item list" where
  "insert_frames blended frames =
     (if frames = [] then blended else insert_planned_frames blended (plan frames (length blended)))"

definition insert_feed_survey :: "feed_item list \<Rightarrow> feed_module option \<Rightarrow> feed_item list" where
  "insert_feed_survey blended feed_survey =
     (case feed_survey of
        None \<Rightarrow> blended
      | Some survey \<Rightarrow> insert_at (min (FEED_SURVEY_POSITION - 1) (length blended))
                        \<lparr>position = of_nat FEED_SURVEY_POSITION, item = Some (FeedSurvey survey)\<rparr> blended)"

section \<open>What is not selected\<close>

definition forget_ad :: "feed_item \<Rightarrow> ad_index_info list \<Rightarrow> ad_index_info list" where
  "forget_ad it dropped_ads =
     (case as_ad it of
        None \<Rightarrow> dropped_ads
      | Some ad \<Rightarrow>
          (case Prelude.position (\<lambda>dropped. ad_impression_id dropped = ad_impression_id ad) dropped_ads of
             None \<Rightarrow> dropped_ads
           | Some index \<Rightarrow> remove_at index dropped_ads))"

definition build_non_selected :: "nat \<Rightarrow> ad_index_info list \<Rightarrow> feed_item list \<Rightarrow> feed_item list" where
  "build_non_selected dropped_posts dropped_ads page =
     replicate dropped_posts (post_item default_post) @ map ad_item (fold forget_ad page dropped_ads)"

section \<open>The For You selector\<close>

record time_gap_config =
  t_sec :: f64
  clamp_lo :: f64
  clamp_hi :: f64
  min_organic_gap :: nat

record blenders =
  safe_gap_blender :: blender
  partition_organic_blender :: blender
  multi_risk_blender :: blender
  slot_spread_blender :: blender
  least_movement_blender :: blender
  time_gap_blender :: "time_gap_config \<Rightarrow> blender"

text \<open>\<open>BlenderSelector::new\<close>, for the blenders that are not modelled.\<close>

definition blender_selector_new :: "post_text \<Rightarrow> blender \<Rightarrow> (time_gap_config \<Rightarrow> blender) \<Rightarrow> blenders" where
  "blender_selector_new lib least_movement time_gap =
     \<lparr>safe_gap_blender = safe_gap_blend, partition_organic_blender = partition_blend lib,
      multi_risk_blender = multi_risk_blend lib, slot_spread_blender = slot_spread_blend lib,
      least_movement_blender = least_movement, time_gap_blender = time_gap\<rparr>"

record select_query =
  ads_blender_type :: string
  ads_time_gap :: time_gap_config
  video_carousel_position :: nat

definition choose_blender :: "blenders \<Rightarrow> select_query \<Rightarrow> blender" where
  "choose_blender bs q =
     (let name = ads_blender_type q
      in if name = ''partition_organic_low_risk'' then partition_organic_blender bs
         else if name = ''safe_gap'' then safe_gap_blender bs
         else if name = ''multi_risk'' then multi_risk_blender bs
         else if name = ''slot_spread'' then slot_spread_blender bs
         else if name = ''least_movement'' then least_movement_blender bs
         else if name = ''time_gap'' then time_gap_blender bs (ads_time_gap q)
         else partition_organic_blender bs)"

text \<open>The modules of the For You page, inserted in the order of the code.\<close>

definition insert_modules :: "select_query \<Rightarrow> partitioned_feed_items \<Rightarrow> feed_item list \<Rightarrow> feed_item list" where
  "insert_modules q p blended =
     (let carousel = drop_carousel_if_who_to_follow_present (pf_video_carousel p) (pf_wtf_modules p);
          b1 = insert_prompts blended (pf_prompts p);
          b2 = insert_who_to_follow b1 (pf_wtf_modules p);
          b3 = insert_video_carousel b2 carousel (video_carousel_position q);
          b4 = pin_push_to_home b3 (pf_push_to_home p);
          b5 = insert_frames b4 (pf_frames p)
      in insert_feed_survey b5 (pf_feed_survey p))"

definition select_result_of :: "partitioned_feed_items \<Rightarrow> feed_item list \<Rightarrow> feed_item select_result" where
  "select_result_of p page =
     (let output_post_count = length (filter (\<lambda>i. as_post i \<noteq> None) page);
          dropped_posts = length (pf_posts p) - output_post_count
      in \<lparr>selected = page, non_selected = build_non_selected dropped_posts (pf_ads p) page\<rparr>)"

definition blender_select :: "blenders \<Rightarrow> select_query \<Rightarrow> feed_item list \<Rightarrow> dropped_ad list \<Rightarrow>
    (feed_item select_result \<times> dropped_ad list) option" where
  "blender_select bs q candidates ad_drops =
     (let p = partition_feed_items candidates
      in map_option (\<lambda>(blended, drops). (select_result_of p (insert_modules q p blended), ad_drops @ drops))
           (choose_blender bs q (pf_posts p) (pf_ads p) []))"

section \<open>The Following selector\<close>

text \<open>Its own \<open>partition_feed_items\<close> keeps posts, ads, who-to-follow modules and prompts; the other fields are not read.\<close>

definition following_insert_modules :: "partitioned_feed_items \<Rightarrow> feed_item list \<Rightarrow> feed_item list" where
  "following_insert_modules p blended =
     (let b1 = insert_prompts blended (pf_prompts p)
      in if FOLLOWING_WHO_TO_FOLLOW_MIN_POSTS < length (pf_posts p)
         then insert_who_to_follow b1 (pf_wtf_modules p) else b1)"

definition following_blender_select :: "post_text \<Rightarrow> feed_item list \<Rightarrow> dropped_ad list \<Rightarrow>
    (feed_item select_result \<times> dropped_ad list) option" where
  "following_blender_select lib candidates ad_drops =
     (let p = partition_feed_items candidates
      in map_option (\<lambda>(blended, drops). (select_result_of p (following_insert_modules p blended), ad_drops @ drops))
           (following_blend lib (pf_posts p) (pf_ads p) []))"

section \<open>Modules do not disturb posts and ads\<close>

definition is_module :: "feed_item \<Rightarrow> bool" where
  "is_module i \<longleftrightarrow> as_post i = None \<and> as_ad i = None"

lemma as_module [simp]:
  "as_post \<lparr>position = n, item = Some (Prompt x)\<rparr> = None" "as_ad \<lparr>position = n, item = Some (Prompt x)\<rparr> = None"
  "as_post \<lparr>position = n, item = Some (WhoToFollow x)\<rparr> = None" "as_ad \<lparr>position = n, item = Some (WhoToFollow x)\<rparr> = None"
  "as_post \<lparr>position = n, item = Some (VideoCarousel x)\<rparr> = None" "as_ad \<lparr>position = n, item = Some (VideoCarousel x)\<rparr> = None"
  "as_post \<lparr>position = n, item = Some (PushToHome x)\<rparr> = None" "as_ad \<lparr>position = n, item = Some (PushToHome x)\<rparr> = None"
  "as_post \<lparr>position = n, item = Some (Frame y)\<rparr> = None" "as_ad \<lparr>position = n, item = Some (Frame y)\<rparr> = None"
  "as_post \<lparr>position = n, item = Some (FeedSurvey x)\<rparr> = None" "as_ad \<lparr>position = n, item = Some (FeedSurvey x)\<rparr> = None"
  by (simp_all add: as_post_def as_ad_def)

definition organic :: "feed_item list \<Rightarrow> feed_item list" where
  "organic items = filter (\<lambda>i. \<not> is_module i) items"

definition modules :: "feed_item list \<Rightarrow> item option multiset" where
  "modules items = image_mset item (mset (filter is_module items))"

lemma insert_module:
  "is_module i \<Longrightarrow> organic (insert_at n i xs) = organic xs"
  "is_module i \<Longrightarrow> modules (insert_at n i xs) = add_mset (item i) (modules xs)"
  by (simp_all add: organic_def modules_def)

lemma insert_prompts_content:
  "organic (insert_prompts xs ps) = organic xs"
  "modules (insert_prompts xs ps) = modules xs + mset (map (\<lambda>p. Some (Prompt p)) ps)"
proof -
  have "organic (fold (\<lambda>(i, p). insert_at i \<lparr>position = PROMPTS_POSITION, item = Some (Prompt p)\<rparr>) (enumerate n ps) xs) =
      organic xs \<and>
    modules (fold (\<lambda>(i, p). insert_at i \<lparr>position = PROMPTS_POSITION, item = Some (Prompt p)\<rparr>) (enumerate n ps) xs) =
      modules xs + mset (map (\<lambda>p. Some (Prompt p)) ps)" for n
    by (induction ps arbitrary: n xs) (simp_all add: insert_module is_module_def)
  then show "organic (insert_prompts xs ps) = organic xs"
    "modules (insert_prompts xs ps) = modules xs + mset (map (\<lambda>p. Some (Prompt p)) ps)"
    unfolding insert_prompts_def by blast+
qed

lemma insert_planned_content:
  "organic (insert_planned a n planned xs) = organic xs"
  "modules (insert_planned a n planned xs) = modules xs + mset (map (\<lambda>(_, f). Some (Frame f)) planned)"
  by (induction a n planned xs rule: insert_planned.induct)
     (simp_all add: insert_module is_module_def Let_def)

text \<open>The modules that a page of the For You feed shows.\<close>

definition shown_modules :: "partitioned_feed_items \<Rightarrow> frame list \<Rightarrow> item option multiset" where
  "shown_modules p frames =
     mset (map (\<lambda>x. Some (Prompt x)) (pf_prompts p)) +
     mset (map (\<lambda>x. Some (WhoToFollow x)) (take 1 (pf_wtf_modules p))) +
     (case pf_video_carousel p of
        Some c \<Rightarrow> if pf_wtf_modules p = [] then {#Some (VideoCarousel c)#} else {#}
      | None \<Rightarrow> {#}) +
     (case pf_push_to_home p of Some x \<Rightarrow> {#Some (PushToHome x)#} | None \<Rightarrow> {#}) +
     mset (map (\<lambda>f. Some (Frame f)) frames) +
     (case pf_feed_survey p of Some x \<Rightarrow> {#Some (FeedSurvey x)#} | None \<Rightarrow> {#})"

lemma insert_wtf_content:
  "organic (insert_who_to_follow xs ms) = organic xs"
  "modules (insert_who_to_follow xs ms) = modules xs + mset (map (\<lambda>x. Some (WhoToFollow x)) (take 1 ms))"
  by (simp_all add: insert_who_to_follow_def insert_module is_module_def split: list.split)

lemma insert_carousel_content:
  "organic (insert_video_carousel xs c n) = organic xs"
  "modules (insert_video_carousel xs c n) =
     modules xs + (case c of Some x \<Rightarrow> {#Some (VideoCarousel x)#} | None \<Rightarrow> {#})"
  by (simp_all add: insert_video_carousel_def insert_module is_module_def split: option.split)

lemma pin_push_content:
  "organic (pin_push_to_home xs c) = organic xs"
  "modules (pin_push_to_home xs c) = modules xs + (case c of Some x \<Rightarrow> {#Some (PushToHome x)#} | None \<Rightarrow> {#})"
  by (simp_all add: pin_push_to_home_def insert_module is_module_def split: option.split)

lemma insert_survey_content:
  "organic (insert_feed_survey xs c) = organic xs"
  "modules (insert_feed_survey xs c) = modules xs + (case c of Some x \<Rightarrow> {#Some (FeedSurvey x)#} | None \<Rightarrow> {#})"
  by (simp_all add: insert_feed_survey_def insert_module is_module_def split: option.split)

text \<open>The frames that are planned for a page of \<open>n\<close> items.\<close>

definition planned_frames :: "frame list \<Rightarrow> nat \<Rightarrow> frame list" where
  "planned_frames frames n = (if frames = [] then [] else map snd (plan frames n))"

lemma insert_frames_content:
  "organic (insert_frames xs fs) = organic xs"
  "modules (insert_frames xs fs) = modules xs + mset (map (\<lambda>f. Some (Frame f)) (planned_frames fs (length xs)))"
  by (simp_all add: insert_frames_def insert_planned_frames_def insert_planned_content planned_frames_def
      split_def multiset.map_comp comp_def)

lemmas insert_contents = insert_prompts_content insert_wtf_content insert_carousel_content pin_push_content
  insert_frames_content insert_survey_content

lemma insert_modules_content:
  "organic (insert_modules q p xs) = organic xs"
  "\<exists>n. modules (insert_modules q p xs) = modules xs + shown_modules p (planned_frames (pf_frames p) n)"
proof -
  show "organic (insert_modules q p xs) = organic xs"
    by (simp add: insert_modules_def Let_def insert_contents)
  let ?n = "length (pin_push_to_home (insert_video_carousel (insert_who_to_follow (insert_prompts xs (pf_prompts p))
     (pf_wtf_modules p)) (drop_carousel_if_who_to_follow_present (pf_video_carousel p) (pf_wtf_modules p))
     (video_carousel_position q)) (pf_push_to_home p))"
  have "modules (insert_modules q p xs) = modules xs + shown_modules p (planned_frames (pf_frames p) ?n)"
    unfolding insert_modules_def Let_def insert_contents shown_modules_def drop_carousel_if_who_to_follow_present_def
    by (simp add: add.assoc split: option.split)
  then show "\<exists>n. modules (insert_modules q p xs) = modules xs + shown_modules p (planned_frames (pf_frames p) n)" ..
qed

section \<open>Where the frames land\<close>

lemma insert_at_nth:
  "n \<le> length xs \<Longrightarrow> insert_at n x xs ! i = (if i < n then xs ! i else if i = n then x else xs ! (i - 1))"
  by (simp add: insert_at_def nth_append nth_Cons')

lemma insert_planned_below:
  "i < n \<Longrightarrow> n \<le> length ys \<Longrightarrow> insert_planned a n pl ys ! i = ys ! i"
proof (induction a n pl ys rule: insert_planned.induct)
  case (2 a n s f pl ys)
  let ?j = "min (max (s + a) n) (length ys)"
  have "i < Suc ?j" "Suc ?j \<le> length (insert_at ?j \<lparr>position = of_nat ?j, item = Some (Frame f)\<rparr> ys)"
    using 2(2,3) by (simp_all add: length_insert_at)
  from 2(1) [OF refl this] 2(2,3) show ?case by (simp add: Let_def insert_at_nth)
qed simp

lemma insert_planned_nth:
  assumes "sorted (map fst pl)" "\<forall>sf \<in> set pl. fst sf \<le> m \<and> n \<le> fst sf + a" "length ys = m + a" "n \<le> length ys"
    and "k < length pl"
  shows "item (insert_planned a n pl ys ! (fst (pl ! k) + a + k)) = Some (Frame (snd (pl ! k)))"
  using assms
proof (induction pl arbitrary: a n ys k)
  case (Cons sf pl)
  obtain s f where sf: "sf = (s, f)" by (cases sf)
  let ?ys = "insert_at (s + a) \<lparr>position = of_nat (s + a), item = Some (Frame f)\<rparr> ys"
  have idx: "min (max (s + a) n) (length ys) = s + a" using Cons.prems(2,3) sf by simp
  have step: "insert_planned a n (sf # pl) ys = insert_planned (Suc a) (Suc (s + a)) pl ?ys"
    using idx by (simp add: sf Let_def)
  have le: "s + a \<le> length ys" "Suc (s + a) \<le> length ?ys" using Cons.prems(2,3) sf by simp_all
  show ?case
  proof (cases k)
    case 0
    have "insert_planned (Suc a) (Suc (s + a)) pl ?ys ! (s + a) = ?ys ! (s + a)"
      by (rule insert_planned_below) (use le in simp_all)
    then show ?thesis using 0 sf step le(1) by (simp add: insert_at_nth)
  next
    case (Suc j)
    have "\<forall>x \<in> set pl. fst x \<le> m \<and> Suc (s + a) \<le> fst x + Suc a" using Cons.prems(1,2) sf by auto
    moreover have "length ?ys = m + Suc a" using Cons.prems(3) by simp
    ultimately have "item (insert_planned (Suc a) (Suc (s + a)) pl ?ys ! (fst (pl ! j) + Suc a + j)) = Some (Frame (snd (pl ! j)))"
      using Cons.prems(1,5) Suc le by (intro Cons.IH) auto
    then show ?thesis using Suc step by simp
  qed
qed simp

section \<open>What is not selected\<close>

lemma forget_ad_ids:
  "mset (map ad_impression_id (forget_ad it ads)) =
     mset (map ad_impression_id ads) - mset (map ad_impression_id (ads_of [it]))"
proof (cases "as_ad it")
  case (Some ad)
  let ?P = "\<lambda>dropped. ad_impression_id dropped = ad_impression_id ad"
  show ?thesis
  proof (cases "Prelude.position ?P ads")
    case None
    then have "ad_impression_id ad \<notin> ad_impression_id ` set ads" by (auto simp del: split_paired_All)
    moreover have "forget_ad it ads = ads" unfolding forget_ad_def Some option.case None ..
    ultimately show ?thesis using Some by simp
  next
    case (Some i)
    note i = position_Some [OF Some]
    then have "mset ads = add_mset (ads ! i) (mset (remove_at i ads))" using mset_remove_at [of i ads] by simp
    with i Some \<open>as_ad it = Some ad\<close> show ?thesis
      by (simp add: forget_ad_def)
  qed
qed (simp add: forget_ad_def)

lemma forget_ads_ids:
  "mset (map ad_impression_id (fold forget_ad page ads)) =
     mset (map ad_impression_id ads) - mset (map ad_impression_id (ads_of page))"
proof (induction page arbitrary: ads)
  case (Cons it page)
  have "mset (map ad_impression_id (ads_of (it # page))) =
      mset (map ad_impression_id (ads_of [it])) + mset (map ad_impression_id (ads_of page))"
    by (simp split: option.split)
  then show ?case using Cons.IH [of "forget_ad it ads"] forget_ad_ids [of it ads] by simp
qed simp

lemma posts_ads_of_organic: "posts_of (organic xs) = posts_of xs" "ads_of (organic xs) = ads_of xs"
  by (induction xs) (auto simp: organic_def is_module_def split: option.split)

lemma length_posts_of: "length (filter (\<lambda>i. as_post i \<noteq> None) xs) = length (posts_of xs)"
  by (induction xs) (auto split: option.split)

lemma non_selected_content:
  "posts_of (build_non_selected n ads page) = replicate n default_post"
  "mset (map ad_impression_id (ads_of (build_non_selected n ads page))) =
     mset (map ad_impression_id ads) - mset (map ad_impression_id (ads_of page))"
proof -
  have r: "posts_of (replicate n (post_item default_post)) = replicate n default_post"
    "ads_of (replicate n (post_item default_post)) = []" by (induction n) simp_all
  have a: "posts_of (map ad_item xs) = []" "ads_of (map ad_item xs) = xs" for xs by (induction xs) simp_all
  show "posts_of (build_non_selected n ads page) = replicate n default_post"
    by (simp add: build_non_selected_def r a)
  show "mset (map ad_impression_id (ads_of (build_non_selected n ads page))) =
     mset (map ad_impression_id ads) - mset (map ad_impression_id (ads_of page))"
    using forget_ads_ids [of page ads] by (simp add: build_non_selected_def r a)
qed

lemma partition_feed_items_content:
  "pf_posts (partition_feed_items items) = posts_of items" "pf_ads (partition_feed_items items) = ads_of items"
proof -
  have "pf_posts (fold partition_item items p) = pf_posts p @ posts_of items \<and>
    pf_ads (fold partition_item items p) = pf_ads p @ ads_of items" for p
    by (induction items arbitrary: p)
       (auto simp: partition_item_def as_post_def as_ad_def split: option.split item.split)
  then show "pf_posts (partition_feed_items items) = posts_of items" "pf_ads (partition_feed_items items) = ads_of items"
    by (simp_all add: partition_feed_items_def)
qed

lemma no_modules:
  "length xs = length (posts_of xs) + length (ads_of xs) \<Longrightarrow> organic xs = xs \<and> modules xs = {#}"
proof -
  assume "length xs = length (posts_of xs) + length (ads_of xs)"
  moreover have "length (organic xs) = length (posts_of xs) + length (ads_of xs)"
    by (induction xs) (auto simp: organic_def is_module_def as_post_def as_ad_def split: option.splits item.splits)
  ultimately have "length (organic xs) = length xs" by simp
  then have "organic xs = xs" unfolding organic_def by (simp add: filter_id_conv) (metis filter_True length_filter_less less_irrefl)
  then show ?thesis by (auto simp: modules_def organic_def filter_id_conv filter_empty_conv)
qed

section \<open>The selectors over the contract of a blender\<close>

text \<open>A selection accounts for everything it was given when no post and no ad gets lost uncounted.\<close>

definition accounts_for :: "feed_item list \<Rightarrow> feed_item select_result \<Rightarrow> bool" where
  "accounts_for cs r \<longleftrightarrow>
     mset (posts_of (selected r)) \<subseteq># mset (posts_of cs) \<and> mset (ads_of (selected r)) \<subseteq># mset (ads_of cs) \<and>
     length (posts_of (selected r)) + length (posts_of (non_selected r)) = length (posts_of cs) \<and>
     mset (map ad_impression_id (ads_of (selected r))) + mset (map ad_impression_id (ads_of (non_selected r))) =
       mset (map ad_impression_id (ads_of cs))"

locale brand_safe_blender = ads_blender +
  assumes ok_low_risk: "ok ad p q \<Longrightarrow> \<not> is_high_risk p \<and> \<not> is_high_risk q"
begin

lemma page_accounts:
  assumes "admissible (posts_of cs) (ads_of cs)" and "blend (posts_of cs) (ads_of cs) [] = Some (blended, ds1)"
    and "organic page = organic blended"
  shows "organic page = blended" and "modules blended = {#}"
    and "accounts_for cs (select_result_of (partition_feed_items cs) page)"
proof -
  have "organic blended = blended \<and> modules blended = {#}"
    using nothing_else [OF assms(1,2)] by (rule no_modules)
  then show org: "organic page = blended" and "modules blended = {#}" using assms(3) by simp_all
  let ?r = "select_result_of (partition_feed_items cs) page"
  let ?n = "length (posts_of cs) - length (posts_of blended)"
  have parts: "posts_of page = posts_of blended" "ads_of page = ads_of blended"
    using posts_ads_of_organic [of page] org by simp_all
  have r: "selected ?r = page" "non_selected ?r = build_non_selected ?n (ads_of cs) page"
    unfolding select_result_of_def Let_def length_posts_of by (simp_all add: partition_feed_items_content parts)
  have sub: "mset (posts_of blended) \<subseteq># mset (posts_of cs)" "mset (ads_of blended) \<subseteq># mset (ads_of cs)"
    using posts_given [OF assms(1,2)] ads_given [OF assms(1,2)] by simp_all
  have "length (posts_of blended) \<le> length (posts_of cs)" using size_mset_mono [OF sub(1)] by simp
  moreover have "mset (map ad_impression_id (ads_of blended)) \<subseteq># mset (map ad_impression_id (ads_of cs))"
    using image_mset_subseteq_mono [OF sub(2)] by simp
  ultimately show "accounts_for cs ?r"
    unfolding accounts_for_def r non_selected_content parts using sub by simp
qed

lemma no_ad_at_risk:
  assumes "admissible (posts_of cs) (ads_of cs)" and "blend (posts_of cs) (ads_of cs) [] = Some (blended, ds1)"
  shows "ads_well_placed (\<lambda>ad p q. \<not> is_high_risk p \<and> \<not> is_high_risk q) blended"
  using well_placed [OF assms] ok_low_risk unfolding ads_well_placed_def by (rule ad_neighbours_mono)

end

lemma has_avoid_high: "is_high_risk p \<Longrightarrow> has_avoid p"
  by (simp add: is_high_risk_def has_avoid_def)

interpretation safe_gap_bs: brand_safe_blender safe_gap_blend "\<lambda>a p q. \<not> has_avoid p \<and> \<not> has_avoid q" "\<lambda>_ _. True"
  by unfold_locales (use has_avoid_high in blast)

interpretation partition_bs: brand_safe_blender "partition_blend lib"
  "\<lambda>ad p q. organic_neighbour lib ad p \<and> organic_neighbour lib ad q" "\<lambda>ps _. scores_ordered ps" for lib
  by unfold_locales (use has_avoid_high in \<open>auto simp: organic_neighbour_def\<close>)

interpretation multi_risk_bs: brand_safe_blender "multi_risk_blend lib"
  "\<lambda>ad p q. multi_risk_neighbour lib ad p \<and> multi_risk_neighbour lib ad q" "\<lambda>ps _. scores_ordered ps" for lib
  by unfold_locales (simp add: multi_risk_neighbour_def)

interpretation slot_spread_bs: brand_safe_blender "slot_spread_blend lib"
  "\<lambda>ad p q. compatible lib (ad_rules_new ad) p \<and> compatible lib (ad_rules_new ad) q" "\<lambda>_. positions_nonnegative" for lib
  by unfold_locales (auto simp: compatible_def fit_of_def split: if_splits)

interpretation following_bs: brand_safe_blender "following_blend lib" "following_ok lib" "\<lambda>_ _. True" for lib
  by unfold_locales (auto simp: following_ok_def following_neighbour_def following_medium_risk_def is_high_risk_def)

text \<open>
  The requests for which the selected blender is one of the four modelled ones and its posts and ads are admissible: no
  negative positions for \<open>slot_spread\<close>, no score that is \<open>NaN\<close> for the two blenders that sort.
\<close>

definition served_by_model :: "select_query \<Rightarrow> scored_post list \<Rightarrow> ad_index_info list \<Rightarrow> bool" where
  "served_by_model q ps ads \<longleftrightarrow>
     ads_blender_type q \<notin> {''least_movement'', ''time_gap''} \<and>
     (ads_blender_type q = ''slot_spread'' \<longrightarrow> positions_nonnegative ads) \<and>
     (ads_blender_type q \<notin> {''safe_gap'', ''slot_spread''} \<longrightarrow> scores_ordered ps)"

lemma chosen_blender_contract:
  assumes "served_by_model q ps ads"
  shows "\<exists>ok admissible. brand_safe_blender (choose_blender (blender_selector_new lib lm tg) q) ok admissible \<and> admissible ps ads"
proof -
  let ?c = "choose_blender (blender_selector_new lib lm tg) q"
  consider "ads_blender_type q = ''safe_gap''" | "ads_blender_type q = ''multi_risk''" | "ads_blender_type q = ''slot_spread''"
    | "ads_blender_type q \<notin> {''safe_gap'', ''multi_risk'', ''slot_spread'', ''least_movement'', ''time_gap''}"
    using assms unfolding served_by_model_def by blast
  then show ?thesis
  proof cases
    case 1
    then have "?c = safe_gap_blend" by (simp add: choose_blender_def blender_selector_new_def Let_def)
    show ?thesis
      unfolding \<open>?c = _\<close> by (rule exI, rule exI, rule conjI, rule safe_gap_bs.brand_safe_blender_axioms, rule TrueI)
  next
    case 2
    then have "?c = multi_risk_blend lib" by (simp add: choose_blender_def blender_selector_new_def Let_def)
    have "scores_ordered ps" using assms 2 by (simp add: served_by_model_def)
    then show ?thesis
      unfolding \<open>?c = _\<close> by (intro exI conjI) (rule multi_risk_bs.brand_safe_blender_axioms)
  next
    case 3
    then have "?c = slot_spread_blend lib" by (simp add: choose_blender_def blender_selector_new_def Let_def)
    have "positions_nonnegative ads" using assms 3 by (simp add: served_by_model_def)
    then show ?thesis
      unfolding \<open>?c = _\<close> by (intro exI conjI) (rule slot_spread_bs.brand_safe_blender_axioms)
  next
    case 4
    then have "?c = partition_blend lib" by (simp add: choose_blender_def blender_selector_new_def Let_def)
    have "scores_ordered ps" using assms 4 by (simp add: served_by_model_def)
    then show ?thesis
      unfolding \<open>?c = _\<close> by (intro exI conjI) (rule partition_bs.brand_safe_blender_axioms)
  qed
qed

lemma blender_select_served:
  assumes "served_by_model q (posts_of cs) (ads_of cs)"
  shows "\<exists>blended ds1 n r. choose_blender (blender_selector_new lib lm tg) q (posts_of cs) (ads_of cs) [] = Some (blended, ds1) \<and>
    blender_select (blender_selector_new lib lm tg) q cs ds = Some (r, ds @ ds1) \<and>
    organic (selected r) = blended \<and>
    modules (selected r) = shown_modules (partition_feed_items cs) (planned_frames (pf_frames (partition_feed_items cs)) n) \<and>
    accounts_for cs r \<and> ads_well_placed (\<lambda>ad p q. \<not> is_high_risk p \<and> \<not> is_high_risk q) blended"
proof -
  let ?bs = "blender_selector_new lib lm tg" and ?p = "partition_feed_items cs"
  obtain ok adm where c: "brand_safe_blender (choose_blender ?bs q) ok adm" and adm: "adm (posts_of cs) (ads_of cs)"
    using chosen_blender_contract [OF assms] by blast
  have "ads_blender (choose_blender ?bs q) ok adm" using c by (simp add: brand_safe_blender_def)
  from ads_blender.returns [OF this adm] have "choose_blender ?bs q (posts_of cs) (ads_of cs) [] \<noteq> None" .
  then obtain blended ds1 where b: "choose_blender ?bs q (posts_of cs) (ads_of cs) [] = Some (blended, ds1)" by auto
  let ?page = "insert_modules q ?p blended"
  obtain n where n: "modules ?page = modules blended + shown_modules ?p (planned_frames (pf_frames ?p) n)"
    using insert_modules_content(2) by blast
  note pa = brand_safe_blender.page_accounts [OF c adm b insert_modules_content(1) [of q ?p blended]]
  have sel: "blender_select ?bs q cs ds = Some (select_result_of ?p ?page, ds @ ds1)"
    using b by (simp add: blender_select_def Let_def partition_feed_items_content)
  have "selected (select_result_of ?p ?page) = ?page" by (simp add: select_result_of_def Let_def)
  then show ?thesis
    using b sel n pa brand_safe_blender.no_ad_at_risk [OF c adm b] by (intro exI [of _ blended] exI [of _ ds1] exI [of _ n]) auto
qed

section \<open>Properties\<close>

text \<open>
  Every frame that is planned for the page ends at its slot counted among the other items: the
  \<open>k\<close>-th planned frame stands at index \<open>slot + k\<close> of the page, so that exactly \<open>slot\<close> other items
  come before it.
\<close>

lemma insert_frames_at_slots:
  "list_all (\<lambda>k. item (insert_frames blended (f # fs) ! (fst (plan (f # fs) (length blended) ! k) + k)) =
       Some (Frame (snd (plan (f # fs) (length blended) ! k))))
     [0..<length (plan (f # fs) (length blended))]"
proof -
  let ?P = "plan (f # fs) (length blended)"
  have "item (insert_planned 0 0 ?P blended ! (fst (?P ! k) + 0 + k)) = Some (Frame (snd (?P ! k)))" if "k < length ?P" for k
    using that plan_sorted plan_slot_le by (intro insert_planned_nth [where m = "length blended"]) auto
  then show ?thesis by (simp add: list_all_iff insert_frames_def insert_planned_frames_def)
qed

text \<open>
  C13. Let the request select one of the four modelled blenders (\<open>safe_gap\<close>, \<open>multi_risk\<close>, \<open>slot_spread\<close>, the default
  \<open>partition_organic\<close>), with non-negative insert positions for \<open>slot_spread\<close> and with no score \<open>NaN\<close> for the two that sort.
  Then the For You selector returns; the posts and ads of its page, in order, are exactly the page of the blender, and none
  of the ads is next to a high-risk post among them; the other items are the modules of the request (all prompts, the
  first who-to-follow module, the carousel only without such a module, the pinned post, the survey, the planned frames); and
  every post and every ad of the request is either on the page or counted as not selected.
\<close>

theorem for_you_page_accounts:
  assumes "served_by_model q (posts_of cs) (ads_of cs)"
  shows "\<exists>blended ds1 n r. choose_blender (blender_selector_new lib lm tg) q (posts_of cs) (ads_of cs) [] = Some (blended, ds1) \<and>
    blender_select (blender_selector_new lib lm tg) q cs ds = Some (r, ds @ ds1) \<and> organic (selected r) = blended \<and>
    modules (selected r) = shown_modules (partition_feed_items cs) (planned_frames (pf_frames (partition_feed_items cs)) n) \<and>
    accounts_for cs r \<and> ads_well_placed (\<lambda>ad p q. \<not> is_high_risk p \<and> \<not> is_high_risk q) (organic (selected r))"
  using blender_select_served [OF assms, of lib lm tg ds] by metis

definition sample_query :: select_query where
  "sample_query = \<lparr>ads_blender_type = ''multi_risk'',
     ads_time_gap = \<lparr>t_sec = F_Fin 0, clamp_lo = F_Fin 0, clamp_hi = F_Fin 0, min_organic_gap = 0\<rparr>,
     video_carousel_position = 6\<rparr>"

definition sample_candidates :: "feed_item list" where
  "sample_candidates = map post_item spread_posts @ map ad_item spread_ads @
     [\<lparr>position = 0, item = Some (WhoToFollow \<lparr>md_id = 1\<rparr>)\<rparr>, \<lparr>position = 0, item = Some (VideoCarousel \<lparr>md_id = 2\<rparr>)\<rparr>]"

lemma sample_served: "served_by_model sample_query (posts_of sample_candidates) ads"
proof -
  have "scores_ordered (posts_of sample_candidates)" by code_simp
  then show ?thesis by (simp add: served_by_model_def sample_query_def)
qed

lemma sample_candidates_parts:
  "posts_of sample_candidates = spread_posts" "ads_of sample_candidates = spread_ads"
  "pf_frames (partition_feed_items sample_candidates) = []"
proof -
  have a: "posts_of (map ad_item xs) = []" "ads_of (map ad_item xs) = xs" for xs by (induction xs) simp_all
  show "posts_of sample_candidates = spread_posts" "ads_of sample_candidates = spread_ads"
    by (simp_all add: sample_candidates_def a)
  show "pf_frames (partition_feed_items sample_candidates) = []"
    by (simp add: partition_feed_items_def sample_candidates_def spread_posts_def spread_ads_def partition_item_def
        upt_rec)
qed

theorem for_you_page_accounts_witness:
  "\<exists>r ds. blender_select (blender_selector_new letter_lib (\<lambda>_ _ _. None) (\<lambda>_ _ _ _. None)) sample_query sample_candidates [] =
      Some (r, ds) \<and> accounts_for sample_candidates r \<and>
      ads_well_placed (\<lambda>ad p q. \<not> is_high_risk p \<and> \<not> is_high_risk q) (organic (selected r))"
  using for_you_page_accounts [OF sample_served, where lib = letter_lib and lm = "\<lambda>_ _ _. None" and
    tg = "\<lambda>_ _ _ _. None" and ds = "[]"]
  by (metis append_Nil)

text \<open>
  The Following selector always returns; the posts and ads of its page are exactly the page of
  the following blender, it accounts for every post and ad of the request, no ad is next to a
  high-risk post, and it shows the prompts and at most one who-to-follow module, and that only on
  a page made from more than ten posts.
\<close>

lemma following_page_accounts:
  "\<exists>blended ds1 r. following_blend lib (posts_of cs) (ads_of cs) [] = Some (blended, ds1) \<and>
    following_blender_select lib cs ds = Some (r, ds @ ds1) \<and> organic (selected r) = blended \<and>
    modules (selected r) = mset (map (\<lambda>x. Some (Prompt x)) (pf_prompts (partition_feed_items cs))) +
      (if FOLLOWING_WHO_TO_FOLLOW_MIN_POSTS < length (posts_of cs)
       then mset (map (\<lambda>x. Some (WhoToFollow x)) (take 1 (pf_wtf_modules (partition_feed_items cs)))) else {#}) \<and>
    accounts_for cs r \<and> ads_well_placed (\<lambda>ad p q. \<not> is_high_risk p \<and> \<not> is_high_risk q) (organic (selected r))"
proof -
  let ?p = "partition_feed_items cs"
  obtain blended ds1 where b: "following_blend lib (posts_of cs) (ads_of cs) [] = Some (blended, ds1)"
    using following.returns [OF TrueI, of lib "posts_of cs" "ads_of cs" "[]"] by auto
  let ?page = "following_insert_modules ?p blended"
  have org: "organic ?page = organic blended"
    by (simp add: following_insert_modules_def Let_def insert_contents)
  have mods: "modules ?page = modules blended + mset (map (\<lambda>x. Some (Prompt x)) (pf_prompts ?p)) +
      (if FOLLOWING_WHO_TO_FOLLOW_MIN_POSTS < length (posts_of cs)
       then mset (map (\<lambda>x. Some (WhoToFollow x)) (take 1 (pf_wtf_modules ?p))) else {#})"
    by (simp add: following_insert_modules_def Let_def insert_contents partition_feed_items_content)
  note pa = following_bs.page_accounts [OF TrueI b org]
  have sel: "following_blender_select lib cs ds = Some (select_result_of ?p ?page, ds @ ds1)"
    using b by (simp add: following_blender_select_def Let_def partition_feed_items_content)
  have "selected (select_result_of ?p ?page) = ?page" by (simp add: select_result_of_def Let_def)
  then show ?thesis
    using b sel pa mods following_bs.no_ad_at_risk [OF TrueI b] by (intro exI [of _ blended] exI [of _ ds1]) simp
qed

end
