(* ===== verification/Ad_Adjacent_Served.thy ===== *)
theory Ad_Adjacent_Served
  imports Candidate_Pipeline Ads_Util
begin

text \<open>
  The post-selection filter of the For You page that keeps ads away from posts the viewer was
  already served (\<open>home-mixer/filters/ad_adjacent_served_filter.rs\<close>). A loop looks for the first
  ad next to a served post; it moves a suitable unserved post in between or, if there is none,
  removes the ad. The set of served ids is a list; the metrics, with the classification of a
  failed search that only they use, are left out.
\<close>

section \<open>Definitions\<close>

datatype side = Above | Below

definition post_tweet_id :: "feed_item \<Rightarrow> u64 option" where
  "post_tweet_id i = map_option sp_tweet_id (as_post i)"

definition served_item :: "u64 list \<Rightarrow> feed_item \<Rightarrow> bool" where
  "served_item served i = is_some_and (\<lambda>id. id \<in> set served) (post_tweet_id i)"

definition served_side :: "feed_item list \<Rightarrow> u64 list \<Rightarrow> nat \<Rightarrow> (nat \<times> side) option" where
  "served_side items served i =
     (if \<not> is_ad (items ! i) then None
      else if 0 < i \<and> served_item served (items ! (i - 1)) then Some (i, Above)
      else if i + 1 < length items \<and> served_item served (items ! (i + 1)) then Some (i, Below)
      else None)"

definition first_served_adjacency :: "feed_item list \<Rightarrow> u64 list \<Rightarrow> (nat \<times> side) option" where
  "first_served_adjacency items served = find_map (served_side items served) [0..<length items]"

definition is_eligible_neighbour :: "post_text \<Rightarrow> ad_index_info \<Rightarrow> scored_post \<Rightarrow> u64 list \<Rightarrow> bool" where
  "is_eligible_neighbour lib ad post served \<longleftrightarrow>
     sp_tweet_id post \<notin> set served \<and> \<not> has_avoid post \<and> \<not> should_drop_bsr_low ad (Some post) None \<and>
     \<not> should_drop_handle ad (Some post) None \<and> \<not> should_drop_keyword lib ad (Some post) None"

definition is_ad_neighbour :: "feed_item list \<Rightarrow> nat \<Rightarrow> bool" where
  "is_ad_neighbour items idx \<longleftrightarrow>
     (0 < idx \<and> is_ad (items ! (idx - 1))) \<or> (idx + 1 < length items \<and> is_ad (items ! (idx + 1)))"

definition find_swap_in_candidate :: "post_text \<Rightarrow> feed_item list \<Rightarrow> nat \<Rightarrow> side \<Rightarrow> u64 list \<Rightarrow> nat option" where
  "find_swap_in_candidate lib items ad_idx sd served =
     (case as_ad (items ! ad_idx) of
        None \<Rightarrow> None
      | Some ad \<Rightarrow>
          let left = (if 2 \<le> ad_idx then rev [0..<ad_idx - 1] else []);
              right = [ad_idx + 2..<length items];
              order = (case sd of Above \<Rightarrow> left @ right | Below \<Rightarrow> right @ left)
          in List.find (\<lambda>c. \<not> is_ad_neighbour items c \<and>
               is_some_and (\<lambda>p. is_eligible_neighbour lib ad p served) (as_post (items ! c))) order)"

definition insert_eligible_neighbour :: "feed_item list \<Rightarrow> nat \<Rightarrow> side \<Rightarrow> nat \<Rightarrow> feed_item list" where
  "insert_eligible_neighbour items ad_idx sd c_idx =
     (let cand = items ! c_idx;
          pos = (case (c_idx < ad_idx, sd) of
                   (True, Above) \<Rightarrow> ad_idx - 1
                 | (True, Below) \<Rightarrow> ad_idx
                 | (False, Above) \<Rightarrow> ad_idx
                 | (False, Below) \<Rightarrow> ad_idx + 1)
      in insert_at pos cand (remove_at c_idx items))"

record served_state =
  ss_items :: "feed_item list"
  ss_removed :: "feed_item list"
  ss_dropped :: "dropped_ad list"
  insert_count :: nat
  drop_count :: nat

definition neighbour_drop :: "feed_item list \<Rightarrow> nat \<Rightarrow> side \<Rightarrow> dropped_ad list" where
  "neighbour_drop items ad_idx sd =
     (let neighbour_idx = (case sd of Above \<Rightarrow> ad_idx - 1 | Below \<Rightarrow> ad_idx + 1)
      in case (as_ad (items ! ad_idx), as_post (items ! neighbour_idx)) of
           (Some ad, Some post) \<Rightarrow> [blocked_ad ad ServedNeighbour (sp_tweet_id post)]
         | _ \<Rightarrow> [])"

text \<open>The body of the loop; \<open>None\<close> when no ad is next to a served post.\<close>

definition served_step :: "post_text \<Rightarrow> u64 list \<Rightarrow> served_state \<Rightarrow> served_state option" where
  "served_step lib served st =
     (case first_served_adjacency (ss_items st) served of
        None \<Rightarrow> None
      | Some (ad_idx, sd) \<Rightarrow>
          (case find_swap_in_candidate lib (ss_items st) ad_idx sd served of
             Some c_idx \<Rightarrow>
               Some (st\<lparr>ss_items := insert_eligible_neighbour (ss_items st) ad_idx sd c_idx,
                        insert_count := insert_count st + 1\<rparr>)
           | None \<Rightarrow>
               Some (st\<lparr>ss_items := remove_at ad_idx (ss_items st),
                        ss_removed := ss_removed st @ [ss_items st ! ad_idx],
                        ss_dropped := ss_dropped st @ neighbour_drop (ss_items st) ad_idx sd,
                        drop_count := drop_count st + 1\<rparr>)))"

section \<open>Pairs with an ad\<close>

text \<open>The pairs of neighbours of a list in which one is an ad.\<close>

definition ad_pairs :: "feed_item list \<Rightarrow> (feed_item \<times> feed_item) multiset" where
  "ad_pairs xs = filter_mset (\<lambda>(x, y). is_ad x \<or> is_ad y) (mset (zip xs (tl xs)))"

definition junction :: "feed_item list \<Rightarrow> feed_item list \<Rightarrow> (feed_item \<times> feed_item) multiset" where
  "junction xs ys =
     (if xs \<noteq> [] \<and> ys \<noteq> [] \<and> (is_ad (last xs) \<or> is_ad (hd ys)) then {#(last xs, hd ys)#} else {#})"

lemma ad_pairs_Nil [simp]: "ad_pairs [] = {#}" "ad_pairs [x] = {#}"
  by (simp_all add: ad_pairs_def)

lemma ad_pairs_Cons2 [simp]:
  "ad_pairs (x # y # ys) = ad_pairs (y # ys) + (if is_ad x \<or> is_ad y then {#(x, y)#} else {#})"
  by (simp add: ad_pairs_def)

lemma ad_pairs_append: "ad_pairs (xs @ ys) = ad_pairs xs + ad_pairs ys + junction xs ys"
proof (induction xs)
  case Nil
  then show ?case by (simp add: junction_def)
next
  case (Cons x xs)
  show ?case
  proof (cases xs)
    case Nil
    then show ?thesis by (cases ys) (auto simp: junction_def)
  next
    case (Cons z zs)
    have "junction (x # xs) ys = junction xs ys" using Cons by (simp add: junction_def)
    then show ?thesis using Cons.IH Cons by (simp add: ac_simps)
  qed
qed

lemma junction_simps [simp]:
  "junction [] ys = {#}" "junction xs [] = {#}"
  "xs \<noteq> [] \<Longrightarrow> junction xs (y # ys) = (if is_ad (last xs) \<or> is_ad y then {#(last xs, y)#} else {#})"
  "junction (zs @ [x]) (y # ys) = (if is_ad x \<or> is_ad y then {#(x, y)#} else {#})"
  by (simp_all add: junction_def)

lemma ad_pairs_Cons: "ad_pairs (x # ys) = ad_pairs ys + junction [x] ys"
  using ad_pairs_append [of "[x]" ys] by simp

definition served_pair :: "u64 list \<Rightarrow> feed_item \<times> feed_item \<Rightarrow> bool" where
  "served_pair served xy \<longleftrightarrow> (is_ad (fst xy) \<and> served_item served (snd xy)) \<or> (is_ad (snd xy) \<and> served_item served (fst xy))"

definition served_pairs :: "u64 list \<Rightarrow> feed_item list \<Rightarrow> nat" where
  "served_pairs served xs = size (filter_mset (served_pair served) (ad_pairs xs))"

lemma in_ad_pairs:
  "xy \<in># ad_pairs xs \<longleftrightarrow> (\<exists>k. Suc k < length xs \<and> xy = (xs ! k, xs ! Suc k) \<and> (is_ad (xs ! k) \<or> is_ad (xs ! Suc k)))"
  by (force simp: ad_pairs_def in_set_zip nth_tl)

lemma first_served_Some:
  assumes "first_served_adjacency items served = Some (i, sd)"
  shows "i < length items" and "is_ad (items ! i)"
    and "sd = Above \<Longrightarrow> 0 < i \<and> served_item served (items ! (i - 1))"
    and "sd = Below \<Longrightarrow> Suc i < length items \<and> served_item served (items ! Suc i)"
  using find_map_SomeD [OF assms [unfolded first_served_adjacency_def]]
  by (auto simp: served_side_def split: if_splits)

lemma first_served_None:
  assumes "first_served_adjacency items served = None" and "xy \<in># ad_pairs items"
  shows "\<not> served_pair served xy"
proof
  assume sp: "served_pair served xy"
  obtain k where k: "Suc k < length items" "xy = (items ! k, items ! Suc k)" using assms(2) by (auto simp: in_ad_pairs)
  have none: "served_side items served i = None" if "i < length items" for i
    using assms(1) that by (simp add: first_served_adjacency_def)
  show False
    using sp none [of k] none [of "Suc k"] k by (auto simp: served_pair_def served_side_def split: if_splits)
qed

lemma served_not_ad: "served_item served x \<Longrightarrow> \<not> is_ad x"
  by (auto simp: served_item_def post_tweet_id_def is_some_and_iff as_post_not_ad)

section \<open>One step of the loop\<close>

lemma find_swap_Some:
  assumes "find_swap_in_candidate lib items i sd served = Some c" and "i < length items"
  shows "c < length items" and "Suc c < i \<or> Suc i < c" and "\<not> is_ad_neighbour items c"
    and "\<exists>ad p. as_ad (items ! i) = Some ad \<and> as_post (items ! c) = Some p \<and> is_eligible_neighbour lib ad p served"
proof -
  obtain ad where ad: "as_ad (items ! i) = Some ad"
    using assms(1) by (auto simp: find_swap_in_candidate_def split: option.splits)
  define order where "order = (case sd of Above \<Rightarrow> (if 2 \<le> i then rev [0..<i - 1] else []) @ [i + 2..<length items]
     | Below \<Rightarrow> [i + 2..<length items] @ (if 2 \<le> i then rev [0..<i - 1] else []))"
  have "List.find (\<lambda>c. \<not> is_ad_neighbour items c \<and>
      is_some_and (\<lambda>p. is_eligible_neighbour lib ad p served) (as_post (items ! c))) order = Some c"
    using assms(1) ad by (cases sd) (simp_all add: find_swap_in_candidate_def order_def Let_def)
  from find_SomeD [OF this] have c: "c \<in> set order" "\<not> is_ad_neighbour items c"
    "is_some_and (\<lambda>p. is_eligible_neighbour lib ad p served) (as_post (items ! c))" by auto
  have "c < length items \<and> (Suc c < i \<or> Suc i < c)"
    using c(1) assms(2) by (auto simp: order_def split: side.splits if_splits)
  then show "c < length items" "Suc c < i \<or> Suc i < c" by blast+
  show "\<not> is_ad_neighbour items c" by (rule c)
  show "\<exists>ad p. as_ad (items ! i) = Some ad \<and> as_post (items ! c) = Some p \<and> is_eligible_neighbour lib ad p served"
    using c(3) ad by (auto simp: is_some_and_iff)
qed

lemma two_cuts:
  assumes "i < j" "j < length xs"
  obtains A B D where "xs = A @ xs ! i # B @ xs ! j # D" "length A = i" "length A + Suc (length B) = j"
proof -
  have "xs = take i xs @ xs ! i # drop (Suc i) xs" using assms by (simp add: id_take_nth_drop)
  moreover have "drop (Suc i) xs = take (j - Suc i) (drop (Suc i) xs) @ xs ! j # drop (Suc j) xs"
    using assms id_take_nth_drop [of "j - Suc i" "drop (Suc i) xs"] by simp
  ultimately have "xs = take i xs @ xs ! i # take (j - Suc i) (drop (Suc i) xs) @ xs ! j # drop (Suc j) xs" by simp
  then show thesis by (rule that) (use assms in auto)
qed

lemma insert_at_append [simp]: "insert_at (length A) x (A @ B) = A @ x # B"
  by (simp add: insert_at_def)

lemma remove_at_append [simp]: "remove_at (length A) (A @ x # B) = A @ B"
  by (simp add: remove_at_def)

lemma not_ad_neighbour_cut:
  assumes "\<not> is_ad_neighbour (A @ c # B) (length A)"
  shows "A \<noteq> [] \<Longrightarrow> \<not> is_ad (last A)" and "B \<noteq> [] \<Longrightarrow> \<not> is_ad (hd B)"
  using assms by (auto simp: is_ad_neighbour_def nth_append last_conv_nth hd_conv_nth)

lemma nth_before: "xs \<noteq> [] \<Longrightarrow> (xs @ ys) ! (length xs - 1) = last xs"
  by (simp add: nth_append last_conv_nth)

lemma nth_after: "ys \<noteq> [] \<Longrightarrow> (xs @ ys) ! length xs = hd ys"
  by (simp add: hd_conv_nth nth_append)

text \<open>
  Moving a post \<open>x\<close> that is not next to an ad to the ad \<open>a\<close> changes the pairs with an ad at its new
  place only: the pair of the ad and the served post gives way to the pair of the ad and \<open>x\<close>.
\<close>

lemma moved_pairs_before:
  assumes "is_ad a" "\<not> is_ad x" "A \<noteq> [] \<Longrightarrow> \<not> is_ad (last A)" "B \<noteq> []" "\<not> is_ad (hd B)"
  shows "\<not> is_ad (last B) \<Longrightarrow>
      ad_pairs (A @ B @ x # a # D) + {#(last B, a)#} = ad_pairs (A @ x # B @ a # D) + {#(x, a)#}"
    and "D \<noteq> [] \<Longrightarrow> \<not> is_ad (hd D) \<Longrightarrow>
      ad_pairs (A @ B @ a # x # D) + {#(a, hd D)#} = ad_pairs (A @ x # B @ a # D) + {#(a, x)#}"
  using assms by (auto simp: ad_pairs_append ad_pairs_Cons junction_def)

lemma moved_pairs_after:
  assumes "is_ad a" "\<not> is_ad x" "D \<noteq> [] \<Longrightarrow> \<not> is_ad (hd D)" "B \<noteq> []" "\<not> is_ad (last B)"
  shows "A \<noteq> [] \<Longrightarrow> \<not> is_ad (last A) \<Longrightarrow>
      ad_pairs (A @ x # a # B @ D) + {#(last A, a)#} = ad_pairs (A @ a # B @ x # D) + {#(x, a)#}"
    and "\<not> is_ad (hd B) \<Longrightarrow>
      ad_pairs (A @ a # x # B @ D) + {#(a, hd B)#} = ad_pairs (A @ a # B @ x # D) + {#(a, x)#}"
  using assms by (auto simp: ad_pairs_append ad_pairs_Cons junction_def)

lemma moved_pairs:
  assumes i: "i < length items" "is_ad (items ! i)"
    and up: "sd = Above \<Longrightarrow> 0 < i \<and> served_item served (items ! (i - 1))"
    and down: "sd = Below \<Longrightarrow> Suc i < length items \<and> served_item served (items ! Suc i)"
    and c: "c < length items" "Suc c < i \<or> Suc i < c" "\<not> is_ad_neighbour items c" "\<not> is_ad (items ! c)"
  shows "ad_pairs (insert_eligible_neighbour items i sd c) +
      {#(case sd of Above \<Rightarrow> (items ! (i - 1), items ! i) | Below \<Rightarrow> (items ! i, items ! Suc i))#} =
    ad_pairs items + {#(case sd of Above \<Rightarrow> (items ! c, items ! i) | Below \<Rightarrow> (items ! i, items ! c))#}"
proof -
  define x a where "x = items ! c" and "a = items ! i"
  have ad: "is_ad a" "\<not> is_ad x" using i(2) c(4) by (simp_all add: x_def a_def)
  have eqs: "items ! c = x" "items ! i = a" by (simp_all add: x_def a_def)
  note ins = insert_eligible_neighbour_def Let_def x_def [symmetric]
  show ?thesis
  proof (cases "c < i")
    case True
    obtain A B D where it: "items = A @ x # B @ a # D" and len: "length A = c" "length A + Suc (length B) = i"
      using two_cuts [OF True i(1)] unfolding x_def a_def .
    have B: "B \<noteq> []" using c(2) True len by auto
    have nb: "A \<noteq> [] \<Longrightarrow> \<not> is_ad (last A)" "\<not> is_ad (hd B)"
      using not_ad_neighbour_cut [of A x "B @ a # D"] c(3) len(1) it B by auto
    have rm: "remove_at c items = A @ B @ a # D" using it len(1) remove_at_append [of A x "B @ a # D"] by simp
    show ?thesis
    proof (cases sd)
      case Above
      have prev: "items ! (i - 1) = last B"
        using nth_before [of "A @ x # B" "a # D"] it B by (simp add: len(2) [symmetric])
      have "insert_eligible_neighbour items i sd c = A @ B @ x # a # D"
        using Above True rm len(1) insert_at_append [of "A @ B" x "a # D"] by (simp add: ins len(2) [symmetric])
      moreover have "\<not> is_ad (last B)" using up Above prev served_not_ad by auto
      ultimately show ?thesis
        using moved_pairs_before(1) [OF ad nb(1) B nb(2), of D] Above prev arg_cong [OF it, of ad_pairs] eqs by simp
    next
      case Below
      have D: "D \<noteq> []" using down Below len it by auto
      then have nxt: "items ! Suc i = hd D"
        using nth_after [of D "A @ x # B @ [a]"] it len by (simp add: add.commute)
      have "insert_eligible_neighbour items i sd c = A @ B @ a # x # D"
        using Below True rm len insert_at_append [of "A @ B @ [a]" x D] by (simp add: ins)
      moreover have "\<not> is_ad (hd D)" using down Below nxt served_not_ad by auto
      ultimately show ?thesis
        using moved_pairs_before(2) [OF ad nb(1) B nb(2) D] Below nxt arg_cong [OF it, of ad_pairs] eqs by simp
    qed
  next
    case False
    then have ic: "i < c" using c(2) by auto
    obtain A B D where it: "items = A @ a # B @ x # D" and len: "length A = i" "length A + Suc (length B) = c"
      using two_cuts [OF ic c(1)] unfolding x_def a_def .
    have B: "B \<noteq> []" using c(2) False len by auto
    have nb: "\<not> is_ad (last B)" "D \<noteq> [] \<Longrightarrow> \<not> is_ad (hd D)"
      using not_ad_neighbour_cut [of "A @ a # B" x D] c(3) len it B by (auto simp: add.commute)
    have rm: "remove_at c items = A @ a # B @ D"
      using it len remove_at_append [of "A @ a # B" x D] by (simp add: add.commute)
    show ?thesis
    proof (cases sd)
      case Above
      have A: "A \<noteq> []" using up Above len by auto
      then have prev: "items ! (i - 1) = last A" using nth_before [of A "a # B @ x # D"] it len by simp
      have "insert_eligible_neighbour items i sd c = A @ x # a # B @ D"
        using Above False rm len insert_at_append [of A x "a # B @ D"] by (simp add: ins)
      moreover have "\<not> is_ad (last A)" using up Above prev served_not_ad by auto
      ultimately show ?thesis
        using moved_pairs_after(1) [OF ad nb(2) B nb(1) A] Above prev arg_cong [OF it, of ad_pairs] eqs by simp
    next
      case Below
      have nxt: "items ! Suc i = hd B" using nth_after [of "B @ x # D" "A @ [a]"] it len B by simp
      have "insert_eligible_neighbour items i sd c = A @ a # x # B @ D"
        using Below False rm len insert_at_append [of "A @ [a]" x "B @ D"] by (simp add: ins)
      moreover have "\<not> is_ad (hd B)" using down Below nxt served_not_ad by auto
      ultimately show ?thesis
        using moved_pairs_after(2) [OF ad nb(2) B nb(1), of A] Below nxt arg_cong [OF it, of ad_pairs] eqs by simp
    qed
  qed
qed

lemma mset_insert_eligible:
  assumes "c < length items"
  shows "mset (insert_eligible_neighbour items i sd c) = mset items"
  using mset_remove_at [OF assms] by (simp add: insert_eligible_neighbour_def Let_def)

lemma removed_pairs:
  assumes "i < length items"
  obtains A D where "items = A @ items ! i # D" "length A = i" "remove_at i items = A @ D"
proof -
  have "items = take i items @ items ! i # drop (Suc i) items" using assms by (rule id_take_nth_drop)
  then show thesis by (rule that) (use assms in \<open>simp_all add: remove_at_def\<close>)
qed

definition ad_count :: "feed_item list \<Rightarrow> nat" where
  "ad_count items = length (filter is_ad items)"

lemma ad_count_mset: "mset xs = mset ys \<Longrightarrow> ad_count xs = ad_count ys"
  unfolding ad_count_def by (metis mset_filter size_mset)

text \<open>What a step of the loop does: it moves a post to the ad, or it takes the ad out.\<close>

lemma served_step_cases:
  assumes "served_step lib served st = Some st'"
  obtains (moved) i sd c ad p where "i < length (ss_items st)" "as_ad (ss_items st ! i) = Some ad"
      "as_post (ss_items st ! c) = Some p" "is_eligible_neighbour lib ad p served"
      "mset (ss_items st') = mset (ss_items st)"
      "ad_pairs (ss_items st') + {#(case sd of Above \<Rightarrow> (ss_items st ! (i - 1), ss_items st ! i)
          | Below \<Rightarrow> (ss_items st ! i, ss_items st ! Suc i))#} =
        ad_pairs (ss_items st) + {#(case sd of Above \<Rightarrow> (ss_items st ! c, ss_items st ! i) | Below \<Rightarrow> (ss_items st ! i, ss_items st ! c))#}"
      "served_pair served (case sd of Above \<Rightarrow> (ss_items st ! (i - 1), ss_items st ! i) | Below \<Rightarrow> (ss_items st ! i, ss_items st ! Suc i))"
      "st' = st\<lparr>ss_items := ss_items st', insert_count := insert_count st + 1\<rparr>"
    | (dropped) A D it ad d where "ss_items st = A @ it # D" "as_ad it = Some ad"
      "da_impression_id d = ad_impression_id ad"
      "st' = st\<lparr>ss_items := A @ D, ss_removed := ss_removed st @ [it], ss_dropped := ss_dropped st @ [d],
         drop_count := drop_count st + 1\<rparr>"
proof -
  let ?xs = "ss_items st"
  obtain i sd where f: "first_served_adjacency ?xs served = Some (i, sd)"
    using assms by (auto simp: served_step_def split: option.splits)
  note fs = first_served_Some [OF f]
  obtain ad where ad: "as_ad (?xs ! i) = Some ad" using fs(2) by (auto simp: as_ad_is_ad)
  show thesis
  proof (cases "find_swap_in_candidate lib ?xs i sd served")
    case (Some c)
    note c = find_swap_Some [OF Some fs(1)]
    obtain p where p: "as_post (?xs ! c) = Some p" "is_eligible_neighbour lib ad p served" using c(4) ad by auto
    have st': "st' = st\<lparr>ss_items := insert_eligible_neighbour ?xs i sd c, insert_count := insert_count st + 1\<rparr>"
      using assms f Some by (simp add: served_step_def)
    have "served_pair served (case sd of Above \<Rightarrow> (?xs ! (i - 1), ?xs ! i) | Below \<Rightarrow> (?xs ! i, ?xs ! Suc i))"
      using fs by (cases sd) (auto simp: served_pair_def)
    moreover note moved_pairs [OF fs(1,2) fs(3,4) c(1,2,3) as_post_not_ad [OF p(1)]]
    ultimately show thesis using fs(1) ad p mset_insert_eligible [OF c(1), of i sd] st'
      by (intro moved [of i ad c p sd]) auto
  next
    case None
    obtain A D where cut: "?xs = A @ ?xs ! i # D" "length A = i" "remove_at i ?xs = A @ D"
      using removed_pairs [OF fs(1)] .
    have "\<exists>p. as_post (?xs ! (case sd of Above \<Rightarrow> i - 1 | Below \<Rightarrow> i + 1)) = Some p"
      using fs(3,4) by (cases sd) (auto simp: served_item_def post_tweet_id_def is_some_and_iff)
    then obtain p where p: "as_post (?xs ! (case sd of Above \<Rightarrow> i - 1 | Below \<Rightarrow> i + 1)) = Some p" ..
    have "neighbour_drop ?xs i sd = [blocked_ad ad ServedNeighbour (sp_tweet_id p)]"
      using p ad by (simp add: neighbour_drop_def Let_def)
    then show thesis
      using assms f None cut by (intro dropped [OF cut(1) ad, of "blocked_ad ad ServedNeighbour (sp_tweet_id p)"]) (simp_all add: served_step_def)
  qed
qed

lemma served_step_decreases:
  assumes "served_step lib served st = Some st'"
  shows "ad_count (ss_items st') < ad_count (ss_items st) \<or>
    ad_count (ss_items st') = ad_count (ss_items st) \<and>
    served_pairs served (ss_items st') < served_pairs served (ss_items st)"
  using assms
proof (cases rule: served_step_cases)
  case (moved i sd c ad p)
  let ?new = "case sd of Above \<Rightarrow> (ss_items st ! c, ss_items st ! i) | Below \<Rightarrow> (ss_items st ! i, ss_items st ! c)"
  have x: "\<not> served_item served (ss_items st ! c)" "\<not> is_ad (ss_items st ! c)" "\<not> served_item served (ss_items st ! i)"
    using moved(2,3,4) as_post_not_ad served_not_ad as_ad_is_ad
    by (auto simp: served_item_def post_tweet_id_def is_eligible_neighbour_def as_ad_is_ad dest: served_not_ad)
  then have "\<not> served_pair served ?new" by (cases sd) (auto simp: served_pair_def)
  with arg_cong [OF moved(6), of "\<lambda>M. size (filter_mset (served_pair served) M)"] moved(7)
  have "Suc (served_pairs served (ss_items st')) = served_pairs served (ss_items st)"
    by (simp add: served_pairs_def)
  then show ?thesis using ad_count_mset [OF moved(5)] by simp
next
  case (dropped A D it ad d)
  then show ?thesis by (simp add: ad_count_def as_ad_is_ad)
qed

section \<open>The loop and the filter\<close>

function run_served :: "post_text \<Rightarrow> u64 list \<Rightarrow> served_state \<Rightarrow> served_state" where
  "run_served lib served st =
     (case served_step lib served st of None \<Rightarrow> st | Some st' \<Rightarrow> run_served lib served st')"
  by pat_completeness auto

termination
  by (relation "measures [\<lambda>(lib, served, st). ad_count (ss_items st), \<lambda>(lib, served, st). served_pairs served (ss_items st)]")
     (auto dest: served_step_decreases)

declare run_served.simps [simp del]

text \<open>Ads at the ends of the page are taken off, the last one first.\<close>

definition trim_ads :: "served_state \<Rightarrow> served_state" where
  "trim_ads st =
     (let trailing = takeWhile is_ad (rev (ss_items st));
          items1 = rev (dropWhile is_ad (rev (ss_items st)))
      in st\<lparr>ss_items := dropWhile is_ad items1,
            ss_removed := ss_removed st @ trailing @ takeWhile is_ad items1\<rparr>)"

definition served_filter :: "post_text \<Rightarrow> u64 list \<Rightarrow> feed_item list \<Rightarrow> dropped_ad list \<Rightarrow>
    feed_item filter_result \<times> dropped_ad list" where
  "served_filter lib served candidates ad_drops =
     (if candidates = [] \<or> served = [] then (\<lparr>kept = candidates, removed = []\<rparr>, ad_drops)
      else let st = run_served lib served
                 \<lparr>ss_items = candidates, ss_removed = [], ss_dropped = [], insert_count = 0, drop_count = 0\<rparr>;
               st1 = (if 0 < drop_count st then trim_ads st else st);
               ad_drops1 = (if 0 < drop_count st
                  then ad_drops @ ss_dropped st @
                    map (\<lambda>ad. drop_ad ad Truncated) (ads_of (drop (drop_count st) (ss_removed st1)))
                  else ad_drops);
               items = (if 0 < insert_count st \<or> ss_removed st1 \<noteq> [] then renumber (ss_items st1) else ss_items st1)
           in (\<lparr>kept = items, removed = ss_removed st1\<rparr>, ad_drops1))"

text \<open>When the filter runs; \<open>ctx\<close> is the parsed context of the request.\<close>

definition served_filter_enable :: "bool \<Rightarrow> bool \<Rightarrow> request_context \<Rightarrow> bool" where
  "served_filter_enable enable_param is_bottom ctx \<longleftrightarrow>
     enable_param \<and> \<not> is_bottom \<and> ctx \<notin> {PullToRefresh, Launch, Signup, ForegroundTruncate, Gap}"

section \<open>What the loop keeps\<close>

lemma run_served_invariant:
  assumes step: "\<And>st st'. served_step lib served st = Some st' \<Longrightarrow> I st \<Longrightarrow> I st'" and "I st"
  shows "I (run_served lib served st) \<and> served_step lib served (run_served lib served st) = None"
  using assms
proof (induction lib served st rule: run_served.induct)
  case (1 lib served st)
  show ?case
  proof (cases "served_step lib served st")
    case None
    then show ?thesis using "1.prems"(2) by (simp add: run_served.simps [of lib served st])
  next
    case (Some st')
    from "1.IH" [OF Some "1.prems"(1)] "1.prems"(1) [OF Some "1.prems"(2)] Some
    show ?thesis by (simp add: run_served.simps [of lib served st])
  qed
qed

lemma served_step_None: "served_step lib served st = None \<Longrightarrow> first_served_adjacency (ss_items st) served = None"
  by (auto simp: served_step_def split: option.splits)

lemma no_served_pairs:
  "first_served_adjacency items served = None \<Longrightarrow> filter_mset (served_pair served) (ad_pairs items) = {#}"
  using first_served_None by (metis filter_mset_False filter_mset_cong)

text \<open>The books of the loop: items are moved to \<open>ss_removed\<close>, with a drop record each.\<close>

definition served_books :: "feed_item list \<Rightarrow> served_state \<Rightarrow> bool" where
  "served_books cs st \<longleftrightarrow>
     mset (ss_items st) + mset (ss_removed st) = mset cs \<and> list_all is_ad (ss_removed st) \<and>
     length (ss_removed st) = drop_count st \<and>
     map da_impression_id (ss_dropped st) = map ad_impression_id (ads_of (ss_removed st))"

lemma served_books_step:
  assumes "served_step lib served st = Some st'" and "served_books cs st"
  shows "served_books cs st'"
  using assms(1)
proof (cases rule: served_step_cases)
  case (moved i sd c ad p)
  have "ss_removed st' = ss_removed st" "drop_count st' = drop_count st" "ss_dropped st' = ss_dropped st"
    by (subst moved(8), simp)+
  then show ?thesis using assms(2) moved(5) by (simp add: served_books_def)
next
  case (dropped A D it ad d)
  have "is_ad it" using dropped(2) by (auto simp: as_ad_is_ad)
  then show ?thesis using assms(2) dropped by (simp add: served_books_def)
qed

lemma trim_ads_infix:
  "\<exists>pre post. ss_items st = pre @ ss_items (trim_ads st) @ post \<and>
     ss_removed (trim_ads st) = ss_removed st @ rev post @ pre \<and> list_all is_ad (rev post @ pre)"
proof -
  define its where "its = ss_items st"
  define i1 where "i1 = rev (dropWhile is_ad (rev its))"
  have a: "its = i1 @ rev (takeWhile is_ad (rev its))"
    unfolding i1_def by (metis rev_append rev_rev_ident takeWhile_dropWhile_id)
  have b: "i1 = takeWhile is_ad i1 @ dropWhile is_ad i1" by simp
  have "its = takeWhile is_ad i1 @ dropWhile is_ad i1 @ rev (takeWhile is_ad (rev its))"
    using a by (metis append_assoc b)
  moreover have "ss_items (trim_ads st) = dropWhile is_ad i1"
    "ss_removed (trim_ads st) = ss_removed st @ takeWhile is_ad (rev its) @ takeWhile is_ad i1"
    by (simp_all add: trim_ads_def Let_def i1_def its_def)
  moreover have "list_all is_ad (takeWhile is_ad (rev its) @ takeWhile is_ad i1)"
    by (auto simp: list_all_iff dest: set_takeWhileD)
  ultimately show ?thesis
    by (intro exI [of _ "takeWhile is_ad i1"] exI [of _ "rev (takeWhile is_ad (rev its))"]) (simp add: its_def)
qed

lemma ad_pairs_infix: "ad_pairs xs \<subseteq># ad_pairs (pre @ xs @ post)"
  by (simp add: ad_pairs_append subset_mset.add_increasing subset_mset.add_increasing2)

text \<open>Predicates on pairs that read the content of the items only survive the renumbering.\<close>

definition on_content :: "(feed_item \<times> feed_item \<Rightarrow> bool) \<Rightarrow> bool" where
  "on_content P \<longleftrightarrow> (\<forall>x y m n. P (x\<lparr>position := m\<rparr>, y\<lparr>position := n\<rparr>) = P (x, y))"

lemma nth_renumber: "k < length xs \<Longrightarrow> renumber xs ! k = (xs ! k)\<lparr>position := of_nat k\<rparr>"
  by (simp add: renumber_def nth_enumerate_eq)

lemma renumber_pairs:
  assumes "on_content P" and "\<And>xy. xy \<in># ad_pairs xs \<Longrightarrow> P xy" and "xy \<in># ad_pairs (renumber xs)"
  shows "P xy"
proof -
  obtain k where k: "Suc k < length xs" "xy = (renumber xs ! k, renumber xs ! Suc k)"
      "is_ad (renumber xs ! k) \<or> is_ad (renumber xs ! Suc k)"
    using assms(3) by (auto simp: in_ad_pairs renumber_def)
  then have "(xs ! k, xs ! Suc k) \<in># ad_pairs xs" by (auto simp: in_ad_pairs nth_renumber is_ad.simps)
  then have "P (xs ! k, xs ! Suc k)" by (rule assms(2))
  then show ?thesis using assms(1) k by (simp add: on_content_def nth_renumber)
qed

lemma filter_pairs_renumber:
  assumes "on_content P" and "\<And>xy. xy \<in># ad_pairs xs \<Longrightarrow> P xy"
  shows "\<forall>xy \<in># ad_pairs (renumber xs). P xy"
  using renumber_pairs [OF assms] by blast

text \<open>The result of the filter in terms of the state at the end of the loop.\<close>

lemma served_filter_cases:
  assumes step: "\<And>st st'. served_step lib served st = Some st' \<Longrightarrow> I st \<Longrightarrow> I st'"
    and init: "I \<lparr>ss_items = cs, ss_removed = [], ss_dropped = [], insert_count = 0, drop_count = 0\<rparr>"
  obtains (skipped) "cs = [] \<or> served = []" "served_filter lib served cs ds = (\<lparr>kept = cs, removed = []\<rparr>, ds)"
  | (ran) st pre its post r where "I st" "served_books cs st" "first_served_adjacency (ss_items st) served = None"
      "ss_items st = pre @ its @ post" "list_all is_ad (rev post @ pre)"
      "kept (fst r) = its \<or> kept (fst r) = renumber its"
      "removed (fst r) = ss_removed st @ rev post @ pre"
      "snd r = ds @ ss_dropped st @ map (\<lambda>ad. drop_ad ad Truncated) (ads_of (rev post @ pre))"
      "served_filter lib served cs ds = r"
proof (cases "cs = [] \<or> served = []")
  case True
  then show thesis by (intro skipped) (auto simp: served_filter_def)
next
  case False
  define st where "st = run_served lib served
    \<lparr>ss_items = cs, ss_removed = [], ss_dropped = [], insert_count = 0, drop_count = 0\<rparr>"
  have "(\<lambda>st. I st \<and> served_books cs st) st \<and> served_step lib served st = None"
    unfolding st_def
  proof (rule run_served_invariant)
    show "I st' \<and> served_books cs st'" if "served_step lib served st = Some st'" "I st \<and> served_books cs st" for st st'
      using step served_books_step that by blast
  qed (simp add: init served_books_def)
  then have st: "I st" "served_books cs st" "first_served_adjacency (ss_items st) served = None"
    by (auto simp: served_step_None)
  obtain pre post where tr: "ss_items st = pre @ ss_items (trim_ads st) @ post"
    "ss_removed (trim_ads st) = ss_removed st @ rev post @ pre" "list_all is_ad (rev post @ pre)"
    using trim_ads_infix by blast
  have len: "drop (drop_count st) (ss_removed (trim_ads st)) = rev post @ pre"
    using st(2) tr(2) by (simp add: served_books_def)
  let ?r = "served_filter lib served cs ds"
  show thesis
  proof (cases "0 < drop_count st")
    case True
    have "served_filter lib served cs ds =
      (\<lparr>kept = (if 0 < insert_count st \<or> ss_removed (trim_ads st) \<noteq> [] then renumber (ss_items (trim_ads st)) else ss_items (trim_ads st)),
        removed = ss_removed (trim_ads st)\<rparr>,
       ds @ ss_dropped st @ map (\<lambda>ad. drop_ad ad Truncated) (ads_of (rev post @ pre)))"
      using False True unfolding len [symmetric] by (simp add: served_filter_def st_def [symmetric] Let_def)
    then show thesis using tr(2) by (intro ran [OF st tr(1,3), of ?r]) auto
  next
    case none: False
    have "ss_removed st = []" "ss_dropped st = []" using none st(2) by (auto simp: served_books_def)
    moreover from none have "served_filter lib served cs ds =
      (\<lparr>kept = (if 0 < insert_count st \<or> ss_removed st \<noteq> [] then renumber (ss_items st) else ss_items st),
        removed = ss_removed st\<rparr>, ds)"
      using False by (simp add: served_filter_def st_def [symmetric] Let_def)
    ultimately show thesis by (intro ran [OF st, of "[]" "ss_items st" "[]" ?r]) auto
  qed
qed

lemma on_content_served: "on_content (\<lambda>xy. \<not> served_pair served xy)"
  by (simp add: on_content_def served_pair_def served_item_def post_tweet_id_def)

lemma kept_pairs:
  assumes "on_content P" "\<And>xy. xy \<in># ad_pairs (pre @ its @ post) \<Longrightarrow> P xy" "k = its \<or> k = renumber its"
    and "xy \<in># ad_pairs k"
  shows "P xy"
proof -
  have "P ab" if "ab \<in># ad_pairs its" for ab
    using assms(2) mset_subset_eqD [OF ad_pairs_infix that] .
  then show ?thesis using assms(1,3,4) renumber_pairs by blast
qed

text \<open>
  C21. For every page, set of served ids and tokenizer, after the filter no ad of the page is next
  to a served post; the kept and the removed items are together the items of the page, the removed
  ones are ads, and each of these, and nothing else, has a record appended to the dropped ads.
\<close>

theorem served_filter_separates:
  "filter_mset (served_pair served) (ad_pairs (kept (fst (served_filter lib served cs ds)))) = {#} \<and>
   mset (map item (kept (fst (served_filter lib served cs ds)))) +
     mset (map item (removed (fst (served_filter lib served cs ds)))) = mset (map item cs) \<and>
   list_all is_ad (removed (fst (served_filter lib served cs ds))) \<and>
   (\<exists>new. snd (served_filter lib served cs ds) = ds @ new \<and>
      map da_impression_id new = map ad_impression_id (ads_of (removed (fst (served_filter lib served cs ds)))))"
proof (cases rule: served_filter_cases [of lib served "\<lambda>_. True" cs ds, case_names trivial trivial' skipped ran])
  case skipped
  have "\<not> served_pair [] xy" for xy by (simp add: served_pair_def served_item_def is_some_and_iff)
  then show ?thesis using skipped by auto
next
  case (ran st pre its post r)
  have "\<not> served_pair served xy" if "xy \<in># ad_pairs (kept (fst r))" for xy
    using first_served_None [OF ran(3)] unfolding ran(4) by (rule kept_pairs [OF on_content_served _ ran(6) that])
  then have "filter_mset (served_pair served) (ad_pairs (kept (fst r))) = {#}" 
    using filter_mset_cong [of "ad_pairs (kept (fst r))" "ad_pairs (kept (fst r))" "served_pair served" "\<lambda>_. False"] by simp
  moreover have "mset (map item (kept (fst r))) = image_mset item (mset its)"
    using ran(6) map_item_renumber [of its] by (metis mset_map)
  then have "mset (map item (kept (fst r))) + mset (map item (removed (fst r))) = image_mset item (mset cs)"
    using ran(2) [unfolded served_books_def, THEN conjunct1, symmetric] ran(4,7) by (simp add: ac_simps)
  moreover have "list_all is_ad (removed (fst r))" using ran(2,5,7) by (simp add: served_books_def)
  ultimately show ?thesis using ran(2,7,8,9) by (simp add: served_books_def)
qed simp_all

text \<open>What the page assembly guarantees of every ad and its neighbour.\<close>

definition pair_allowed :: "post_text \<Rightarrow> feed_item \<times> feed_item \<Rightarrow> bool" where
  "pair_allowed lib xy \<longleftrightarrow>
     \<not> (is_ad (fst xy) \<and> is_ad (snd xy)) \<and>
     (case (as_ad (fst xy), as_post (snd xy)) of
        (Some ad, Some p) \<Rightarrow> \<not> has_avoid p \<and> neighbour_allowed lib ad p | _ \<Rightarrow> True) \<and>
     (case (as_ad (snd xy), as_post (fst xy)) of
        (Some ad, Some p) \<Rightarrow> \<not> has_avoid p \<and> neighbour_allowed lib ad p | _ \<Rightarrow> True)"

lemma on_content_allowed: "on_content (pair_allowed lib)"
  by (simp add: on_content_def pair_allowed_def)

lemma eligible_neighbour_allowed:
  "is_eligible_neighbour lib ad p served \<Longrightarrow> \<not> has_avoid p \<and> neighbour_allowed lib ad p"
  by (simp add: is_eligible_neighbour_def neighbour_allowed_def should_drop_bsr_low_def should_drop_handle_def
      should_drop_keyword_def low_risk_block_None handle_block_None keyword_block_None)

lemma pair_allowed_step:
  assumes "served_step lib served st = Some st'" and "\<forall>xy \<in># ad_pairs (ss_items st). pair_allowed lib xy"
  shows "\<forall>xy \<in># ad_pairs (ss_items st'). pair_allowed lib xy"
  using assms(1)
proof (cases rule: served_step_cases)
  case (moved i sd c ad p)
  let ?new = "case sd of Above \<Rightarrow> (ss_items st ! c, ss_items st ! i) | Below \<Rightarrow> (ss_items st ! i, ss_items st ! c)"
  have "as_ad (ss_items st ! c) = None" "as_post (ss_items st ! i) = None" "\<not> is_ad (ss_items st ! c)"
    using moved(2) moved(3) [unfolded as_post_Some] moved(2) [unfolded as_ad_Some]
    by (simp_all add: as_ad_def as_post_def is_ad.simps)
  then have "pair_allowed lib ?new"
    using eligible_neighbour_allowed [OF moved(4)] moved(2,3) by (cases sd) (simp_all add: pair_allowed_def)
  moreover have "ad_pairs (ss_items st') \<subseteq># ad_pairs (ss_items st) + {#?new#}"
    using moved(6) by (metis mset_subset_eq_add_left)
  then have "set_mset (ad_pairs (ss_items st')) \<subseteq> insert ?new (set_mset (ad_pairs (ss_items st)))"
    using set_mset_mono by fastforce
  ultimately show ?thesis using assms(2) by blast
next
  case (dropped A D it ad d)
  have "is_ad it" using dropped(2) by (auto simp: as_ad_is_ad)
  then have "A \<noteq> [] \<Longrightarrow> (last A, it) \<in># ad_pairs (ss_items st)" "D \<noteq> [] \<Longrightarrow> (it, hd D) \<in># ad_pairs (ss_items st)"
    using dropped(1) by (auto simp: ad_pairs_append ad_pairs_Cons junction_def)
  then have "A \<noteq> [] \<Longrightarrow> pair_allowed lib (last A, it)" "D \<noteq> [] \<Longrightarrow> pair_allowed lib (it, hd D)"
    using assms(2) by blast+
  then have "junction A D = {#}" using \<open>is_ad it\<close> by (auto simp: junction_def pair_allowed_def)
  then have "ad_pairs (A @ D) \<subseteq># ad_pairs (ss_items st)"
    using dropped(1) by (simp add: ad_pairs_append ad_pairs_Cons subset_mset.add_increasing2)
  then show ?thesis using assms(2) dropped(4) by (auto dest: mset_subset_eqD)
qed

text \<open>
  If on the given page no two ads are next to each other and every ad is allowed next to the
  posts around it (no risk to avoid, no post of a low risk, handle or keyword that the ad excludes),
  the filter keeps it so, although it moves posts next to ads and takes ads out.
\<close>

lemma served_filter_keeps_adjacency:
  assumes "\<forall>xy \<in># ad_pairs cs. pair_allowed lib xy"
  shows "\<forall>xy \<in># ad_pairs (kept (fst (served_filter lib served cs ds))). pair_allowed lib xy"
proof (cases rule: served_filter_cases [of lib served "\<lambda>st. \<forall>xy \<in># ad_pairs (ss_items st). pair_allowed lib xy" cs ds,
    case_names step init skipped ran])
  case (step st st')
  then show ?case using pair_allowed_step by blast
next
  case init
  then show ?case using assms by simp
next
  case skipped
  then show ?thesis using assms by simp
next
  case (ran st pre its post r)
  have "pair_allowed lib xy" if "xy \<in># ad_pairs (kept (fst r))" for xy
    using ran(1) unfolding ran(4) by (intro kept_pairs [OF on_content_allowed _ ran(6) that]) auto
  then show ?thesis unfolding ran(9) by blast
qed

definition served_demo_lib :: post_text where
  "served_demo_lib = \<lparr>tokenize = (\<lambda>s. [s]), contains_keyword_sequence = (\<lambda>text kw. set kw \<subseteq> set text),
     token_matches = (=), token_hash = (\<lambda>_. 0)\<rparr>"

definition served_demo :: "feed_item list" where
  "served_demo = [post_item (default_post\<lparr>sp_tweet_id := 1\<rparr>), post_item (default_post\<lparr>sp_tweet_id := 2\<rparr>),
     ad_item default_ad, post_item (default_post\<lparr>sp_tweet_id := 3\<rparr>)]"

lemma served_demo_ok: "\<forall>xy \<in># ad_pairs served_demo. pair_allowed served_demo_lib xy"
  by (simp add: served_demo_def pair_allowed_def has_avoid_def neighbour_allowed_def low_risk_allowed_def is_bsr_low_ad_def
      handle_allowed_def keyword_allowed_def default_post_def default_ad_def list_all_iff)

lemma served_filter_keeps_adjacency_witness:
  "ad_count served_demo = 1 \<and> served_pairs [2] served_demo = 1 \<and>
   filter_mset (\<lambda>xy. \<not> pair_allowed served_demo_lib xy)
     (ad_pairs (kept (fst (served_filter served_demo_lib [2] served_demo [])))) = {#}"
proof -
  have "ad_count served_demo = 1" "served_pairs [2] served_demo = 1"
    by (simp_all add: ad_count_def served_pairs_def served_pair_def served_item_def post_tweet_id_def served_demo_def)
  moreover note filter_mset_cong [OF refl, of "ad_pairs (kept (fst (served_filter served_demo_lib [2] served_demo [])))"
      "\<lambda>xy. \<not> pair_allowed served_demo_lib xy" "\<lambda>_. False"]
  ultimately show ?thesis
    using served_filter_keeps_adjacency [OF served_demo_ok, of "[2]" "[]"] by simp
qed

text \<open>
  C40. The loop of the filter ends: there is no infinite run of its body, whatever page it starts from.
\<close>

theorem served_loop_terminates: "wf {(st', st). served_step lib served st = Some st'}"
proof (rule wf_subset)
  show "wf (measures [\<lambda>st. ad_count (ss_items st), \<lambda>st. served_pairs served (ss_items st)])" by simp
  show "{(st', st). served_step lib served st = Some st'} \<subseteq>
      measures [\<lambda>st. ad_count (ss_items st), \<lambda>st. served_pairs served (ss_items st)]"
    using served_step_decreases by fastforce
qed

end
