(* ===== verification/Conversation_Grouping.thy ===== *)
theory Conversation_Grouping
  imports Candidate_Pipeline Feed_Types "HOL-Library.AList"
begin

text \<open>
  The selection of conversation modules (\<open>home-mixer/util/conversation_grouping.rs\<close>) and the two
  filters of the For You page that read feed items
  (\<open>home-mixer/filters/invalid_conversation_module_filter.rs\<close>, \<open>push_to_home_dedup_filter.rs\<close>). A hash
  map is an association list updated in place, a hash set a list. The section on the reference states
  the selection without the loops that compute it.
\<close>

section \<open>Definitions\<close>

definition is_reply :: "scored_post \<Rightarrow> bool" where
  "is_reply p \<longleftrightarrow> sp_in_reply_to_tweet_id p \<noteq> 0 \<and> sp_ancestors p \<noteq> []"

definition conversation_root :: "scored_post \<Rightarrow> u64" where
  "conversation_root p = Min (set (sp_ancestors p))"

record conversation_index =
  focal_by_root :: "(u64 \<times> u64) list"
  reply_ancestors :: "(u64 \<times> u64 list) list"

definition index_post :: "scored_post \<Rightarrow> conversation_index \<Rightarrow> conversation_index" where
  "index_post p ix =
     (if \<not> is_reply p then ix
      else let root = conversation_root p;
               focal = (case map_of (focal_by_root ix) root of
                          None \<Rightarrow> sp_tweet_id p
                        | Some f \<Rightarrow> max f (sp_tweet_id p))
           in \<lparr>focal_by_root = AList.update root focal (focal_by_root ix),
               reply_ancestors = AList.update (sp_tweet_id p) (sp_ancestors p) (reply_ancestors ix)\<rparr>)"

definition conversation_index_of :: "scored_post list \<Rightarrow> conversation_index" where
  "conversation_index_of posts = fold index_post posts \<lparr>focal_by_root = [], reply_ancestors = []\<rparr>"

definition focals_of :: "conversation_index \<Rightarrow> u64 list" where
  "focals_of ix = map snd (focal_by_root ix)"

definition module_drop_ids :: "scored_post list \<Rightarrow> conversation_index \<Rightarrow> u64 list" where
  "module_drop_ids posts ix =
     (let focals = focals_of ix
      in map sp_tweet_id (List.filter (\<lambda>p. is_reply p \<and> sp_tweet_id p \<notin> set focals) posts) @
         concat (map (\<lambda>f. case map_of (reply_ancestors ix) f of
                            None \<Rightarrow> []
                          | Some anc \<Rightarrow> List.filter (\<lambda>a. a \<notin> set focals) anc) focals))"

definition repost_drop_ids :: "scored_post list \<Rightarrow> u64 list \<Rightarrow> u64 list" where
  "repost_drop_ids posts module_tweet_ids =
     map sp_tweet_id (List.filter
       (\<lambda>p. sp_retweeted_tweet_id p \<noteq> 0 \<and> sp_retweeted_tweet_id p \<in> set module_tweet_ids) posts)"

definition select_conversation_modules :: "feed_item list \<Rightarrow> feed_item list \<times> feed_item list" where
  "select_conversation_modules items =
     (let posts = posts_of items;
          ix = conversation_index_of posts;
          focals = focals_of ix;
          drop1 = module_drop_ids posts ix;
          drop_ids = drop1 @ repost_drop_ids posts (drop1 @ focals)
      in partition (\<lambda>i. is_none_or
           (\<lambda>p. sp_tweet_id p \<in> set focals \<or> sp_tweet_id p \<notin> set drop_ids) (as_post i)) items)"

definition conversation_module_filter :: "feed_item list \<Rightarrow> feed_item filter_result" where
  "conversation_module_filter candidates =
     (let (k, r) = select_conversation_modules candidates in \<lparr>kept = k, removed = r\<rparr>)"

definition push_to_home_dedup_filter :: "u64 option \<Rightarrow> feed_item list \<Rightarrow> feed_item filter_result" where
  "push_to_home_dedup_filter push_to_home_post_id candidates =
     (let push_to_home_id = unwrap_or (- 1) push_to_home_post_id;
          (k, r) = partition (\<lambda>i. case item i of
             Some (Post p) \<Rightarrow> sp_tweet_id p \<noteq> push_to_home_id \<and> sp_retweeted_tweet_id p \<noteq> push_to_home_id
           | _ \<Rightarrow> True) candidates
      in \<lparr>kept = k, removed = r\<rparr>)"

definition push_to_home_dedup_enable :: "u64 option \<Rightarrow> bool" where
  "push_to_home_dedup_enable push_to_home_post_id \<longleftrightarrow> push_to_home_post_id \<noteq> None"

interpretation conversation_modules: conserving_filter "\<lambda>q. conversation_module_filter" id
  by unfold_locales
    (simp add: conversation_module_filter_def select_conversation_modules_def Let_def comp_def mset_filter_split)

interpretation push_to_home: conserving_filter push_to_home_dedup_filter id
  by unfold_locales (simp add: push_to_home_dedup_filter_def Let_def comp_def mset_filter_split)

section \<open>Reference\<close>

text \<open>The newest reply of a conversation.\<close>

definition newest_reply :: "scored_post list \<Rightarrow> scored_post \<Rightarrow> bool" where
  "newest_reply posts p \<longleftrightarrow> is_reply p \<and>
     list_all (\<lambda>q. is_reply q \<and> conversation_root q = conversation_root p \<longrightarrow> sp_tweet_id q \<le> sp_tweet_id p) posts"

text \<open>
  The tweets that the conversation modules of the page show or replace: the replies and the ancestors
  of the newest ones.
\<close>

definition module_tweets :: "scored_post list \<Rightarrow> u64 set" where
  "module_tweets posts = sp_tweet_id ` set (List.filter is_reply posts) \<union>
     \<Union> ((set \<circ> sp_ancestors) ` set (List.filter (newest_reply posts) posts))"

definition keeps_post :: "scored_post list \<Rightarrow> scored_post \<Rightarrow> bool" where
  "keeps_post posts p \<longleftrightarrow> newest_reply posts p \<or>
     (sp_tweet_id p \<notin> module_tweets posts \<and>
      (sp_retweeted_tweet_id p = 0 \<or> sp_retweeted_tweet_id p \<notin> module_tweets posts))"

section \<open>The index\<close>

definition replies_under :: "scored_post list \<Rightarrow> u64 \<Rightarrow> u64 set" where
  "replies_under posts r = sp_tweet_id ` {p \<in> set posts. is_reply p \<and> conversation_root p = r}"

lemma finite_replies_under [simp]: "finite (replies_under posts r)"
  by (simp add: replies_under_def)

lemma replies_under_snoc:
  "replies_under (posts @ [p]) r =
     (if is_reply p \<and> conversation_root p = r then insert (sp_tweet_id p) (replies_under posts r) else replies_under posts r)"
  by (auto simp: replies_under_def)

lemma conversation_index_snoc:
  "conversation_index_of (posts @ [p]) = index_post p (conversation_index_of posts)"
  by (simp add: conversation_index_of_def)

lemma distinct_focal_roots: "distinct (map fst (focal_by_root (conversation_index_of posts)))"
  by (induction posts rule: rev_induct)
    (simp_all add: conversation_index_snoc index_post_def Let_def distinct_update, simp add: conversation_index_of_def)

lemma focal_by_root_iff:
  "map_of (focal_by_root (conversation_index_of posts)) r =
     (if replies_under posts r = {} then None else Some (Max (replies_under posts r)))"
proof (induction posts arbitrary: r rule: rev_induct)
  case Nil
  then show ?case by (simp add: conversation_index_of_def replies_under_def)
next
  case (snoc p posts)
  show ?case
    by (simp add: conversation_index_snoc index_post_def Let_def replies_under_snoc update_conv' snoc max.commute)
qed

lemma in_focals:
  "t \<in> set (focals_of (conversation_index_of posts)) \<longleftrightarrow>
     (\<exists>p \<in> set posts. newest_reply posts p \<and> t = sp_tweet_id p)" (is "?l \<longleftrightarrow> ?r")
proof -
  let ?m = "focal_by_root (conversation_index_of posts)"
  have "?l \<longleftrightarrow> (\<exists>r. map_of ?m r = Some t)"
    using distinct_focal_roots [of posts] by (force simp: focals_of_def)
  also have "\<dots> \<longleftrightarrow> (\<exists>r. replies_under posts r \<noteq> {} \<and> Max (replies_under posts r) = t)"
    using focal_by_root_iff [of posts] by auto
  also have "\<dots> \<longleftrightarrow> (\<exists>r. t \<in> replies_under posts r \<and> (\<forall>u \<in> replies_under posts r. u \<le> t))"
    by (metis Max_eq_iff empty_iff finite_replies_under)
  also have "\<dots> \<longleftrightarrow> ?r"
    by (auto simp: replies_under_def newest_reply_def list_all_iff)
  finally show ?thesis .
qed

lemma reply_ancestors_of:
  assumes "distinct (map sp_tweet_id posts)"
  shows "map_of (reply_ancestors (conversation_index_of posts)) t = Some anc \<longleftrightarrow>
    (\<exists>p \<in> set posts. is_reply p \<and> sp_tweet_id p = t \<and> sp_ancestors p = anc)"
  using assms
proof (induction posts rule: rev_induct)
  case Nil
  then show ?case by (simp add: conversation_index_of_def)
next
  case (snoc p posts)
  then show ?case
    by (auto simp: conversation_index_snoc index_post_def Let_def update_conv' image_iff)
qed

section \<open>The selection\<close>

lemma newest_is_reply: "newest_reply posts p \<Longrightarrow> is_reply p"
  by (simp add: newest_reply_def)

lemma in_module_drop_ids:
  assumes "distinct (map sp_tweet_id posts)"
  shows "t \<in> set (module_drop_ids posts (conversation_index_of posts)) \<longleftrightarrow>
    t \<in> module_tweets posts \<and> t \<notin> set (focals_of (conversation_index_of posts))"
proof -
  let ?ix = "conversation_index_of posts"
  have "t \<in> set (module_drop_ids posts ?ix) \<longleftrightarrow> t \<notin> set (focals_of ?ix) \<and>
      ((\<exists>p \<in> set posts. is_reply p \<and> sp_tweet_id p = t) \<or>
       (\<exists>f anc. f \<in> set (focals_of ?ix) \<and> map_of (reply_ancestors ?ix) f = Some anc \<and> t \<in> set anc))"
    by (auto simp: module_drop_ids_def Let_def split: option.splits)
  also have "(\<exists>f anc. f \<in> set (focals_of ?ix) \<and> map_of (reply_ancestors ?ix) f = Some anc \<and> t \<in> set anc) \<longleftrightarrow>
      (\<exists>p \<in> set posts. newest_reply posts p \<and> t \<in> set (sp_ancestors p))"
    unfolding in_focals reply_ancestors_of [OF assms]
    using assms newest_is_reply by (metis distinct_map inj_onD)
  finally show ?thesis by (auto simp: module_tweets_def)
qed

lemma focals_in_module:
  "t \<in> set (focals_of (conversation_index_of posts)) \<Longrightarrow> t \<in> module_tweets posts"
  by (auto simp: in_focals module_tweets_def newest_is_reply)

lemma focal_post:
  assumes "distinct (map sp_tweet_id posts)" "p \<in> set posts"
  shows "sp_tweet_id p \<in> set (focals_of (conversation_index_of posts)) \<longleftrightarrow> newest_reply posts p"
  using assms by (auto simp: in_focals distinct_map dest: inj_onD)

lemma selected_posts:
  assumes "distinct (map sp_tweet_id posts)" "p \<in> set posts"
    and "d = module_drop_ids posts (conversation_index_of posts)" "f = focals_of (conversation_index_of posts)"
  shows "sp_tweet_id p \<in> set f \<or> sp_tweet_id p \<notin> set (d @ repost_drop_ids posts (d @ f)) \<longleftrightarrow> keeps_post posts p"
proof -
  have df: "set (d @ f) = module_tweets posts"
    using assms(3,4) in_module_drop_ids [OF assms(1)] focals_in_module by auto
  have "sp_tweet_id p \<in> set (repost_drop_ids posts (d @ f)) \<longleftrightarrow>
      sp_retweeted_tweet_id p \<noteq> 0 \<and> sp_retweeted_tweet_id p \<in> module_tweets posts"
    using assms(1,2) unfolding repost_drop_ids_def df by (auto simp: distinct_map dest: inj_onD)
  then show ?thesis
    using in_module_drop_ids [OF assms(1), of "sp_tweet_id p"] focal_post [OF assms(1,2)] assms(3,4)
    by (auto simp: keeps_post_def)
qed

text \<open>
  C34. On a page whose posts have different ids, the two passes over the page and the hash maps they
  fill select exactly what the reference says: items that are not posts stay; of every conversation
  the newest reply stays, the older replies go, and with them every post that is an ancestor of a
  newest reply and every repost of such an ancestor or of a reply; the order of the page is kept.
\<close>

theorem select_conversation_modules_reference:
  assumes "distinct (map sp_tweet_id (posts_of items))"
  shows "select_conversation_modules items =
    (List.filter (\<lambda>i. is_none_or (keeps_post (posts_of items)) (as_post i)) items,
     List.filter (\<lambda>i. is_some_and (\<lambda>p. \<not> keeps_post (posts_of items) p) (as_post i)) items)"
proof -
  have mem: "p \<in> set (posts_of items)" if "i \<in> set items" "as_post i = Some p" for i p
    using that by (force simp: posts_of_def List.map_filter_def)
  define S :: "scored_post \<Rightarrow> bool" where "S = (\<lambda>p. sp_tweet_id p \<in> set (focals_of (conversation_index_of (posts_of items))) \<or>
      sp_tweet_id p \<notin> set (module_drop_ids (posts_of items) (conversation_index_of (posts_of items)) @
        repost_drop_ids (posts_of items) (module_drop_ids (posts_of items) (conversation_index_of (posts_of items)) @
          focals_of (conversation_index_of (posts_of items)))))"
  have S: "S p \<longleftrightarrow> keeps_post (posts_of items) p" if "i \<in> set items" "as_post i = Some p" for i p
    unfolding S_def by (rule selected_posts [OF assms mem [OF that] refl refl])
  have "is_none_or S (as_post i) \<longleftrightarrow> is_none_or (keeps_post (posts_of items)) (as_post i)"
    "\<not> is_none_or S (as_post i) \<longleftrightarrow> is_some_and (\<lambda>p. \<not> keeps_post (posts_of items) p) (as_post i)"
    if "i \<in> set items" for i
    using S [OF that] by (cases "as_post i"; simp)+
  moreover have "select_conversation_modules items = partition (\<lambda>i. is_none_or S (as_post i)) items"
    by (simp only: select_conversation_modules_def Let_def S_def)
  ultimately show ?thesis by (simp add: comp_def cong: filter_cong)
qed

definition conversation_demo :: "feed_item list" where
  "conversation_demo = map post_item
     [default_post\<lparr>sp_tweet_id := 1\<rparr>,
      default_post\<lparr>sp_tweet_id := 2, sp_in_reply_to_tweet_id := 1, sp_ancestors := [1]\<rparr>,
      default_post\<lparr>sp_tweet_id := 3, sp_in_reply_to_tweet_id := 2, sp_ancestors := [2, 1]\<rparr>,
      default_post\<lparr>sp_tweet_id := 4, sp_retweeted_tweet_id := 1\<rparr>,
      default_post\<lparr>sp_tweet_id := 5\<rparr>]"

theorem select_conversation_modules_reference_witness:
  "distinct (map sp_tweet_id (posts_of conversation_demo)) \<and>
   map sp_tweet_id (posts_of (fst (select_conversation_modules conversation_demo))) = [3, 5]"
proof -
  have d: "distinct (map sp_tweet_id (posts_of conversation_demo))" by (simp add: conversation_demo_def)
  moreover have "map sp_tweet_id (posts_of (fst (select_conversation_modules conversation_demo))) = [3, 5]"
    unfolding select_conversation_modules_reference [OF d]
    by (simp add: conversation_demo_def keeps_post_def newest_reply_def module_tweets_def is_reply_def
        conversation_root_def default_post_def)
  ultimately show ?thesis by (rule conjI)
qed

end
