(* ===== verification/Brand_Safety.thy ===== *)
theory Brand_Safety
  imports Feed_Types "HOL-Library.AList"
begin

text \<open>
  The brand-safety verdict on a post from its safety labels (\<open>home-mixer/models/brand_safety.rs\<close>). The
  label types are those the code names; every other one of the generated enumeration is an
  \<open>OtherLabel\<close>. A map of labels is an association list in the order in which the code iterates over it.
\<close>

section \<open>Definitions\<close>

datatype safety_label_type =
    GROK_SFA | GROK_NSFA_LIMITED | GROK_NSFA | GROK_SFA_V2 | GROK_NSFA_LIMITED_V2 | GROK_NSFA_V2
  | GROK_NSFA_EXPANDED_V2 | NSFW_HIGH_PRECISION | NSFW_HIGH_RECALL | GORE_AND_VIOLENCE_HIGH_PRECISION
  | PDNA | EGREGIOUS_NSFW | SOFT_NSFW | NSFA_HIGH_PRECISION | NSFA_KEYWORDS_HIGH_PRECISION
  | NSFW_REPORTED_HEURISTICS | GORE_AND_VIOLENCE_REPORTED_HEURISTICS | NSFW_CARD_IMAGE | DO_NOT_AMPLIFY
  | MALICIOUS_URL | NSFA_COMMUNITY_NOTE | NSFW_TEXT | NSFA_LIMITED_INVENTORY | NSFA_HIGH_RECALL
  | PTOS_REVIEWED | OtherLabel i32

datatype safety_label_source = BotMakerAction i64 | OtherSource

record safety_label =
  label_source :: "string option"
  safety_label_source :: "safety_label_source option"

type_synonym safety_label_map = "(safety_label_type \<times> safety_label) list"

definition default_safety_label :: safety_label where
  "default_safety_label = \<lparr>label_source = None, safety_label_source = None\<rparr>"

definition contains_key :: "('k \<times> 'v) list \<Rightarrow> 'k \<Rightarrow> bool" where
  "contains_key m k \<longleftrightarrow> map_of m k \<noteq> None"

definition contains_any :: "('k \<times> 'v) list \<Rightarrow> 'k list \<Rightarrow> bool" where
  "contains_any m ks \<longleftrightarrow> list_ex (contains_key m) ks"

text \<open>The labels of the author service: of its generated enumeration three are read.\<close>

datatype author_label = GrokSfa | GrokNsfaLimited | GrokNsfa | OtherAuthorLabel i32

datatype author_brand_safety_fallback = Sfa | NsfaLimited | Nsfa

fun from_proto :: "author_label \<Rightarrow> author_brand_safety_fallback option" where
  "from_proto GrokSfa = Some Sfa"
| "from_proto GrokNsfaLimited = Some NsfaLimited"
| "from_proto GrokNsfa = Some Nsfa"
| "from_proto (OtherAuthorLabel i) = None"

fun grok_label :: "author_brand_safety_fallback \<Rightarrow> safety_label_type" where
  "grok_label Sfa = GROK_SFA"
| "grok_label NsfaLimited = GROK_NSFA_LIMITED"
| "grok_label Nsfa = GROK_NSFA"

definition with_author_fallback :: "safety_label_map \<Rightarrow> author_brand_safety_fallback \<Rightarrow> safety_label_map" where
  "with_author_fallback labels fallback = AList.update (grok_label fallback) default_safety_label labels"

definition GROK_LABELS :: "safety_label_type list" where
  "GROK_LABELS = [GROK_SFA, GROK_NSFA_LIMITED, GROK_NSFA, GROK_SFA_V2, GROK_NSFA_LIMITED_V2, GROK_NSFA_V2,
     GROK_NSFA_EXPANDED_V2]"

definition has_grok_label :: "safety_label_map \<Rightarrow> bool" where
  "has_grok_label labels = contains_any labels GROK_LABELS"

definition HIGH_RISK_LABELS :: "safety_label_type list" where
  "HIGH_RISK_LABELS = [NSFW_HIGH_PRECISION, NSFW_HIGH_RECALL, GORE_AND_VIOLENCE_HIGH_PRECISION, PDNA,
     EGREGIOUS_NSFW, SOFT_NSFW]"

definition MEDIUM_RISK_LABELS :: "safety_label_type list" where
  "MEDIUM_RISK_LABELS = [NSFA_HIGH_PRECISION, NSFA_KEYWORDS_HIGH_PRECISION, NSFW_REPORTED_HEURISTICS,
     GORE_AND_VIOLENCE_REPORTED_HEURISTICS, NSFW_CARD_IMAGE, DO_NOT_AMPLIFY, MALICIOUS_URL,
     NSFA_COMMUNITY_NOTE, GROK_NSFA, NSFW_TEXT]"

definition LOW_RISK_LABELS :: "safety_label_type list" where
  "LOW_RISK_LABELS = [NSFA_LIMITED_INVENTORY, GROK_NSFA_LIMITED, NSFA_HIGH_RECALL]"

definition PTOS_CUTOFF_TWEET_ID :: u64 where
  "PTOS_CUTOFF_TWEET_ID = 2054275414225846272"

definition fails_ptos_review :: "safety_label_map \<Rightarrow> u64 \<Rightarrow> bool" where
  "fails_ptos_review labels tid \<longleftrightarrow> PTOS_CUTOFF_TWEET_ID \<le> tid \<and> \<not> contains_key labels PTOS_REVIEWED"

definition compute_verdict :: "safety_label_map \<Rightarrow> u64 \<Rightarrow> bool \<Rightarrow> brand_safety_verdict" where
  "compute_verdict labels tid require_ptos_review =
     (if contains_any labels HIGH_RISK_LABELS then HighRisk
      else if contains_any labels MEDIUM_RISK_LABELS then MediumRisk
      else let scored_by_grok = contains_key labels GROK_SFA \<or> contains_key labels GROK_NSFA_LIMITED
           in if \<not> scored_by_grok then MediumRisk
              else if require_ptos_review \<and> fails_ptos_review labels tid then MediumRisk
              else if contains_any labels LOW_RISK_LABELS then LowRisk
              else Safe)"

definition MEDIUM_RISK_LABELS_V2 :: "safety_label_type list" where
  "MEDIUM_RISK_LABELS_V2 = [NSFA_KEYWORDS_HIGH_PRECISION, NSFW_REPORTED_HEURISTICS,
     GORE_AND_VIOLENCE_REPORTED_HEURISTICS, NSFW_CARD_IMAGE, DO_NOT_AMPLIFY, MALICIOUS_URL,
     NSFA_COMMUNITY_NOTE, GROK_NSFA_V2, GROK_NSFA_EXPANDED_V2, NSFW_TEXT]"

definition LOW_RISK_LABELS_V2 :: "safety_label_type list" where
  "LOW_RISK_LABELS_V2 = [GROK_NSFA_LIMITED_V2, NSFA_HIGH_RECALL]"

definition V2_WRITTEN_LABELS :: "safety_label_type list" where
  "V2_WRITTEN_LABELS = [GROK_SFA_V2, GROK_NSFA_V2, GROK_NSFA_LIMITED_V2, GROK_NSFA_EXPANDED_V2]"

definition compute_verdict_v2 :: "safety_label_map \<Rightarrow> u64 \<Rightarrow> bool \<Rightarrow> brand_safety_verdict" where
  "compute_verdict_v2 labels tid require_ptos_review =
     (if \<not> contains_any labels V2_WRITTEN_LABELS then compute_verdict labels tid require_ptos_review
      else if contains_any labels HIGH_RISK_LABELS then HighRisk
      else if contains_any labels MEDIUM_RISK_LABELS_V2 then MediumRisk
      else let scored_by_grok = contains_key labels GROK_SFA_V2 \<or> contains_key labels GROK_NSFA_LIMITED_V2
           in if \<not> scored_by_grok then MediumRisk
              else if require_ptos_review \<and> fails_ptos_review labels tid then MediumRisk
              else if contains_any labels LOW_RISK_LABELS_V2 then LowRisk
              else Safe)"

fun verdict_code :: "brand_safety_verdict \<Rightarrow> nat" where
  "verdict_code VerdictUnspecified = 0"
| "verdict_code Safe = 1"
| "verdict_code LowRisk = 2"
| "verdict_code MediumRisk = 3"
| "verdict_code HighRisk = 4"

definition worst_verdict :: "brand_safety_verdict \<Rightarrow> brand_safety_verdict \<Rightarrow> brand_safety_verdict" where
  "worst_verdict a b = (if verdict_code b \<le> verdict_code a then a else b)"

definition botmaker_rule_id_from :: "safety_label \<Rightarrow> i64 option" where
  "botmaker_rule_id_from label =
     (case safety_label_source label of Some (BotMakerAction rule_id) \<Rightarrow> Some rule_id | _ \<Rightarrow> None)"

definition botmaker_rule_category :: "i64 \<Rightarrow> string" where
  "botmaker_rule_category rule_id =
     (let r = sint rule_id
      in if 1000 \<le> r \<and> r \<le> 1099 then ''Content''
         else if 1100 \<le> r \<and> r \<le> 1199 then ''ContentLimited''
         else if 1200 \<le> r \<and> r \<le> 1399 then ''Safety''
         else if 1400 \<le> r \<and> r \<le> 1499 then ''Grok''
         else if 1500 \<le> r \<and> r \<le> 1600 then ''Quote''
         else ''Legacy'')"

definition truncate_description :: "string \<Rightarrow> string" where
  "truncate_description s = take 250 s"

section \<open>The verdict as a level of risk\<close>

text \<open>
  The labels that forbid an ad next to the post, and when a post counts as scored. The second version
  of the rules replaces the first on the posts that it has labelled.
\<close>

definition v2_rules :: "bool \<Rightarrow> safety_label_map \<Rightarrow> bool" where
  "v2_rules v2 labels \<longleftrightarrow> v2 \<and> contains_any labels V2_WRITTEN_LABELS"

definition cleared :: "bool \<Rightarrow> bool \<Rightarrow> safety_label_map \<Rightarrow> u64 \<Rightarrow> bool" where
  "cleared v2 require_ptos labels tid \<longleftrightarrow>
     \<not> contains_any labels HIGH_RISK_LABELS \<and>
     \<not> contains_any labels (if v2_rules v2 labels then MEDIUM_RISK_LABELS_V2 else MEDIUM_RISK_LABELS) \<and>
     contains_any labels (if v2_rules v2 labels then [GROK_SFA_V2, GROK_NSFA_LIMITED_V2] else [GROK_SFA, GROK_NSFA_LIMITED]) \<and>
     (require_ptos \<and> PTOS_CUTOFF_TWEET_ID \<le> tid \<longrightarrow> contains_key labels PTOS_REVIEWED)"

definition verdict_of :: "bool \<Rightarrow> bool \<Rightarrow> safety_label_map \<Rightarrow> u64 \<Rightarrow> brand_safety_verdict" where
  "verdict_of v2 require_ptos labels tid =
     (if v2 then compute_verdict_v2 labels tid require_ptos else compute_verdict labels tid require_ptos)"

lemmas verdict_defs = verdict_of_def compute_verdict_v2_def compute_verdict_def Let_def

lemma verdict_of_low: "verdict_code (verdict_of v2 r labels tid) \<le> 2 \<longleftrightarrow> cleared v2 r labels tid"
  by (auto simp: verdict_defs cleared_def v2_rules_def fails_ptos_review_def contains_any_def)

lemma verdict_of_high: "verdict_of v2 r labels tid = HighRisk \<longleftrightarrow> contains_any labels HIGH_RISK_LABELS"
  by (simp add: verdict_defs)

lemma verdict_of_specified: "verdict_of v2 r labels tid \<noteq> VerdictUnspecified"
  by (simp add: verdict_defs)

lemma worst_verdict_code: "verdict_code (worst_verdict a b) = max (verdict_code a) (verdict_code b)"
  by (simp add: worst_verdict_def)

lemma worst_verdict_le [simp]: "verdict_code (worst_verdict a b) \<le> n \<longleftrightarrow> verdict_code a \<le> n \<and> verdict_code b \<le> n"
  by (simp add: worst_verdict_code)

lemma verdict_code_inject: "verdict_code a = verdict_code b \<longleftrightarrow> a = b"
  by (cases a; cases b) simp_all

lemma worst_verdict_high [simp]: "worst_verdict a b = HighRisk \<longleftrightarrow> a = HighRisk \<or> b = HighRisk"
  by (cases a; cases b) (simp_all add: worst_verdict_def)

lemma worst_verdict_semilattice:
  "worst_verdict (worst_verdict a b) c = worst_verdict a (worst_verdict b c)"
  "worst_verdict a b = worst_verdict b a"
  "worst_verdict a a = a"
  by (simp_all add: worst_verdict_code flip: verdict_code_inject)

end
