(* ===== verification/Doubles.thy ===== *)
theory Doubles
  imports Prelude
begin

text \<open>
  Arithmetic of doubles. The exact result of an operation on finite doubles is rounded to the nearest
  double (\<open>f64_round\<close> of the prelude); the other cases follow IEEE 754. What the ranking code relies on is
  proved here: rounding is monotone and leaves doubles as they are, so that the operations are monotone.
  The sign of a zero and of a NaN is not modelled: \<open>total_cmp\<close>, which alone reads it, takes zeros as equal
  and a NaN as the greatest value.
\<close>

section \<open>Operations\<close>

fun f64_neg :: "f64 \<Rightarrow> f64" where
  "f64_neg F_NaN = F_NaN"
| "f64_neg F_NegInf = F_PosInf"
| "f64_neg (F_Fin a) = F_Fin (- a)"
| "f64_neg F_PosInf = F_NegInf"

fun f64_add :: "f64 \<Rightarrow> f64 \<Rightarrow> f64" where
  "f64_add (F_Fin a) (F_Fin b) = f64_round (a + b)"
| "f64_add F_NaN b = F_NaN"
| "f64_add a F_NaN = F_NaN"
| "f64_add F_PosInf F_NegInf = F_NaN"
| "f64_add F_NegInf F_PosInf = F_NaN"
| "f64_add F_PosInf b = F_PosInf"
| "f64_add a F_PosInf = F_PosInf"
| "f64_add F_NegInf b = F_NegInf"
| "f64_add a F_NegInf = F_NegInf"

definition f64_sub :: "f64 \<Rightarrow> f64 \<Rightarrow> f64" where
  "f64_sub a b = f64_add a (f64_neg b)"

definition f64_inf :: "rat \<Rightarrow> f64" where
  "f64_inf s = (if s = 0 then F_NaN else if 0 < s then F_PosInf else F_NegInf)"

fun f64_mul :: "f64 \<Rightarrow> f64 \<Rightarrow> f64" where
  "f64_mul (F_Fin a) (F_Fin b) = f64_round (a * b)"
| "f64_mul F_NaN b = F_NaN"
| "f64_mul a F_NaN = F_NaN"
| "f64_mul F_PosInf (F_Fin b) = f64_inf b"
| "f64_mul (F_Fin a) F_PosInf = f64_inf a"
| "f64_mul F_NegInf (F_Fin b) = f64_inf (- b)"
| "f64_mul (F_Fin a) F_NegInf = f64_inf (- a)"
| "f64_mul F_PosInf F_PosInf = F_PosInf"
| "f64_mul F_NegInf F_NegInf = F_PosInf"
| "f64_mul F_PosInf F_NegInf = F_NegInf"
| "f64_mul F_NegInf F_PosInf = F_NegInf"

text \<open>The comparisons \<open>==\<close>, \<open><\<close> and \<open><=\<close>, false on a NaN; \<open>max\<close> and \<open>min\<close>, which ignore it.\<close>

definition f64_eq :: "f64 \<Rightarrow> f64 \<Rightarrow> bool" where
  "f64_eq a b \<longleftrightarrow> a \<noteq> F_NaN \<and> a = b"

definition f64_lt :: "f64 \<Rightarrow> f64 \<Rightarrow> bool" where
  "f64_lt a b \<longleftrightarrow> f64_gt b a"

definition f64_le :: "f64 \<Rightarrow> f64 \<Rightarrow> bool" where
  "f64_le a b \<longleftrightarrow> f64_ge b a"

definition f64_max :: "f64 \<Rightarrow> f64 \<Rightarrow> f64" where
  "f64_max a b = (if a = F_NaN then b else if b = F_NaN then a else if f64_ge a b then a else b)"

definition f64_min :: "f64 \<Rightarrow> f64 \<Rightarrow> f64" where
  "f64_min a b = (if a = F_NaN then b else if b = F_NaN then a else if f64_ge a b then b else a)"

text \<open>\<open>x.clamp(lo, hi)\<close>, for bounds in order.\<close>

definition f64_clamp :: "f64 \<Rightarrow> f64 \<Rightarrow> f64 \<Rightarrow> f64" where
  "f64_clamp lo hi x = (if f64_lt x lo then lo else if f64_gt x hi then hi else x)"

fun f64_abs :: "f64 \<Rightarrow> f64" where
  "f64_abs F_NaN = F_NaN"
| "f64_abs F_NegInf = F_PosInf"
| "f64_abs (F_Fin a) = F_Fin \<bar>a\<bar>"
| "f64_abs F_PosInf = F_PosInf"

fun is_finite :: "f64 \<Rightarrow> bool" where
  "is_finite (F_Fin a) = True"
| "is_finite v = False"

fun total_cmp :: "f64 \<Rightarrow> f64 \<Rightarrow> ordering" where
  "total_cmp F_NaN F_NaN = Equal"
| "total_cmp F_NaN b = Greater"
| "total_cmp a F_NaN = Less"
| "total_cmp a b = unwrap_or Equal (partial_cmp a b)"

text \<open>\<open>iter().sum()\<close> and \<open>x as usize\<close>, which truncates and saturates.\<close>

definition f64_sum :: "f64 list \<Rightarrow> f64" where
  "f64_sum xs = fold (\<lambda>x acc. f64_add acc x) xs (F_Fin 0)"

fun f64_as_usize :: "f64 \<Rightarrow> nat" where
  "f64_as_usize F_NaN = 0"
| "f64_as_usize F_NegInf = 0"
| "f64_as_usize F_PosInf = 2 ^ 64 - 1"
| "f64_as_usize (F_Fin a) = min (nat \<lfloor>a\<rfloor>) (2 ^ 64 - 1)"

abbreviation f64_zero :: f64 where "f64_zero \<equiv> F_Fin 0"
abbreviation f64_one :: f64 where "f64_one \<equiv> F_Fin 1"

section \<open>The exponent of a number\<close>

lemma bit_length_bounds: "0 < n \<Longrightarrow> 2 ^ nat (bit_length n - 1) \<le> n \<and> n < 2 ^ nat (bit_length n) \<and> 0 < bit_length n"
proof (induction n rule: bit_length.induct)
  case (1 n)
  show ?case
  proof (cases "n = 1")
    case False
    with 1 have IH: "2 ^ nat (bit_length (n div 2) - 1) \<le> n div 2" "n div 2 < 2 ^ nat (bit_length (n div 2))"
      "0 < bit_length (n div 2)" by simp_all
    then obtain k where k: "bit_length (n div 2) = 1 + int k" using that [of "nat (bit_length (n div 2) - 1)"] by simp
    have "bit_length n = 1 + (1 + int k)" using 1 k by (simp add: bit_length.simps [of n])
    moreover have "nat (1 + int k) = Suc k" "nat (1 + (1 + int k)) = Suc (Suc k)" by simp_all
    ultimately show ?thesis using IH k by (simp; linarith)
  qed (simp add: bit_length.simps)
qed

lemma power_int_of_nat: "0 \<le> k \<Longrightarrow> power_int (2 :: rat) k = of_int (2 ^ nat k)"
  by (simp add: power_int_def)

lemma bit_length_rat:
  assumes "0 < n"
  shows "power_int 2 (bit_length n - 1) \<le> (of_int n :: rat)" "of_int n < (power_int 2 (bit_length n) :: rat)"
proof -
  have "0 \<le> bit_length n" "0 \<le> bit_length n - 1" using bit_length_bounds [OF assms] by simp_all
  then show "power_int 2 (bit_length n - 1) \<le> (of_int n :: rat)" "of_int n < (power_int 2 (bit_length n) :: rat)"
    using bit_length_bounds [OF assms] by (simp_all only: power_int_of_nat of_int_le_iff of_int_less_iff)
qed

lemma floor_log2_bounds:
  assumes "0 < x"
  shows "power_int 2 (floor_log2 x) \<le> x" and "x < power_int 2 (floor_log2 x + 1)"
proof -
  obtain n d where q: "quotient_of x = (n, d)" by force
  have x: "x = of_int n / of_int d" and d: "0 < d"
    using quotient_of_div [OF q] quotient_of_denom_pos [OF q] by auto
  with assms have n: "0 < n" by (simp add: zero_less_divide_iff)
  let ?a = "bit_length n" and ?b = "bit_length d"
  have up: "x < power_int 2 (?a - ?b + 1)"
  proof -
    have "x < power_int 2 ?a / power_int 2 (?b - 1)"
      unfolding x by (rule frac_less) (use bit_length_rat [OF n] bit_length_rat [OF d] n in simp_all)
    then show ?thesis by (simp add: power_int_diff power_int_add)
  qed
  have low: "power_int 2 (?a - ?b - 1) \<le> x"
  proof -
    have "power_int 2 (?a - 1) / power_int 2 ?b \<le> x"
      unfolding x by (rule frac_le) (use bit_length_rat [OF n] bit_length_rat [OF d] n d in simp_all)
    then show ?thesis by (simp add: power_int_diff power_int_add)
  qed
  show "power_int 2 (floor_log2 x) \<le> x" "x < power_int 2 (floor_log2 x + 1)"
    using up low by (simp_all add: floor_log2_def q Let_def not_le)
qed

lemma power_int_less_cancel2: "power_int (2 :: rat) a < power_int 2 b \<longleftrightarrow> a < b"
  by (metis linorder_not_le one_le_numeral one_less_numeral_iff power_int_increasing power_int_strict_increasing semiring_norm(76))

lemma floor_log2_mono: "0 < x \<Longrightarrow> x \<le> y \<Longrightarrow> floor_log2 x \<le> floor_log2 y"
  using floor_log2_bounds [of x] floor_log2_bounds [of y] power_int_less_cancel2 [of "floor_log2 x" "floor_log2 y + 1"] by force

lemma floor_log2_less: "0 < x \<Longrightarrow> x < power_int 2 k \<Longrightarrow> floor_log2 x < k"
  using floor_log2_bounds [of x] power_int_less_cancel2 [of "floor_log2 x" k] by force

section \<open>Rounding\<close>

lemma round_even_le_int: "r \<le> of_int k \<Longrightarrow> round_even r \<le> k"
  by (auto simp: round_even_def Let_def) linarith+

lemma round_even_ge_int: "of_int k \<le> r \<Longrightarrow> k \<le> round_even r"
  by (auto simp: round_even_def Let_def) linarith+

lemma round_even_int [simp]: "round_even (of_int k) = k"
  by (simp add: round_even_def)

lemma round_even_mono: "r \<le> s \<Longrightarrow> round_even r \<le> round_even s"
proof (cases "\<lfloor>r\<rfloor> = \<lfloor>s\<rfloor>")
  case False
  assume "r \<le> s"
  with False have "\<lfloor>r\<rfloor> + 1 \<le> \<lfloor>s\<rfloor>" using floor_mono [of r s] by linarith
  then show ?thesis by (auto simp: round_even_def Let_def)
qed (auto simp: round_even_def Let_def)

text \<open>The distance of neighbouring doubles at a positive number, and the number rounded to it.\<close>

definition exponent :: "rat \<Rightarrow> int" where
  "exponent x = max (floor_log2 x) (-1022)"

definition unit_at :: "rat \<Rightarrow> rat" where
  "unit_at x = power_int 2 (exponent x - 52)"

definition rounded :: "rat \<Rightarrow> rat" where
  "rounded x = of_int (round_even (x / unit_at x)) * unit_at x"

lemma unit_pos [simp]: "0 < unit_at x"
  by (simp add: unit_at_def)

lemma rounded_le_multiple: "x \<le> of_int k * unit_at x \<Longrightarrow> rounded x \<le> of_int k * unit_at x"
  by (simp add: rounded_def pos_divide_le_eq round_even_le_int)

lemma rounded_ge_multiple: "of_int k * unit_at x \<le> x \<Longrightarrow> of_int k * unit_at x \<le> rounded x"
  by (simp add: rounded_def pos_le_divide_eq round_even_ge_int)

lemma rounded_multiple: "x = of_int k * unit_at x \<Longrightarrow> rounded x = x"
  using rounded_le_multiple [of x k] rounded_ge_multiple [of k x] by linarith

lemma power_as_multiple:
  assumes "exponent x - 52 \<le> e"
  shows "power_int 2 e = of_int (2 ^ nat (e - (exponent x - 52))) * unit_at x"
proof -
  have "power_int 2 e = power_int (2 :: rat) (e - (exponent x - 52)) * unit_at x"
    unfolding unit_at_def by (subst power_int_add [symmetric]) simp_all
  with assms show ?thesis by (simp add: power_int_of_nat)
qed

lemma rounded_le_power: "exponent x - 52 \<le> e \<Longrightarrow> x \<le> power_int 2 e \<Longrightarrow> rounded x \<le> power_int 2 e"
  by (metis power_as_multiple rounded_le_multiple)

lemma rounded_ge_power: "exponent x - 52 \<le> e \<Longrightarrow> power_int 2 e \<le> x \<Longrightarrow> power_int 2 e \<le> rounded x"
  by (metis power_as_multiple rounded_ge_multiple)

lemma rounded_power: "exponent (power_int 2 e) - 52 \<le> e \<Longrightarrow> rounded (power_int 2 e) = power_int 2 e"
  by (metis power_as_multiple rounded_multiple)

lemma less_power_exponent: "0 < x \<Longrightarrow> x < power_int 2 (exponent x + 1)"
  using floor_log2_bounds(2) [of x] power_int_increasing [of "floor_log2 x + 1" "exponent x + 1" "2 :: rat"]
  by (simp add: exponent_def)

lemma rounded_mono:
  assumes "0 < x" "x \<le> y"
  shows "rounded x \<le> rounded y"
proof (cases "exponent x = exponent y")
  case True
  with assms show ?thesis
    by (simp add: rounded_def unit_at_def round_even_mono divide_right_mono)
next
  case False
  with floor_log2_mono [OF assms] have less: "exponent x < exponent y" by (auto simp: exponent_def)
  then have "exponent y = floor_log2 y" by (auto simp: exponent_def max_def split: if_splits)
  then have y: "power_int 2 (exponent y) \<le> y" using floor_log2_bounds(1) [of y] assms by simp
  have "power_int 2 (exponent x + 1) \<le> (power_int 2 (exponent y) :: rat)" using less by (simp add: power_int_increasing)
  then have x: "x \<le> power_int 2 (exponent y)" using less_power_exponent [OF assms(1)] by linarith
  have "rounded x \<le> power_int 2 (exponent y)"
    using rounded_le_power less x by simp
  also have "\<dots> \<le> rounded y"
    using rounded_ge_power y by simp
  finally show ?thesis .
qed

lemma rounded_nonneg: "0 < x \<Longrightarrow> 0 \<le> rounded x"
  using rounded_ge_multiple [of 0 x] by simp

lemma rounded_idem:
  assumes "0 < x" "0 < rounded x"
  shows "rounded (rounded x) = rounded x"
proof -
  have top: "rounded x \<le> power_int 2 (exponent x + 1)"
    using rounded_le_power less_power_exponent [OF assms(1)] by simp
  show ?thesis
  proof (cases "rounded x = power_int 2 (exponent x + 1)")
    case True
    have "exponent (rounded x) \<le> exponent x + 1"
      using floor_log2_less [OF assms(2), of "exponent x + 2"] power_int_less_cancel2 [of "exponent x + 1" "exponent x + 2"]
      by (simp add: True exponent_def)
    then show ?thesis using rounded_power [of "exponent x + 1"] True by simp
  next
    case False
    with top have "floor_log2 (rounded x) < exponent x + 1" using floor_log2_less [OF assms(2), of "exponent x + 1"] by simp
    then have le: "exponent (rounded x) \<le> exponent x" by (simp add: exponent_def)
    then have "unit_at x = of_int (2 ^ nat (exponent x - exponent (rounded x))) * unit_at (rounded x)"
      using power_as_multiple [of "rounded x" "exponent x - 52"] by (simp add: unit_at_def)
    then have "rounded x = of_int (round_even (x / unit_at x) * 2 ^ nat (exponent x - exponent (rounded x))) * unit_at (rounded x)"
      by (simp add: rounded_def [of x])
    then show ?thesis by (rule rounded_multiple)
  qed
qed

text \<open>The same for every number, and the largest double.\<close>

definition nearest_double :: "rat \<Rightarrow> rat" where
  "nearest_double x = sgn x * rounded \<bar>x\<bar>"

lemma f64_round_nearest:
  "f64_round x = (if 2 ^ 1024 \<le> \<bar>nearest_double x\<bar> then (if 0 < x then F_PosInf else F_NegInf) else F_Fin (nearest_double x))"
proof (cases "x = 0")
  case False
  then have "\<bar>nearest_double x\<bar> = rounded \<bar>x\<bar>" using rounded_nonneg [of "\<bar>x\<bar>"] by (simp add: nearest_double_def abs_mult)
  with False show ?thesis
    by (simp add: f64_round_def nearest_double_def rounded_def unit_at_def exponent_def Let_def)
qed (simp add: f64_round_def nearest_double_def)

lemma nearest_simps [simp]: "nearest_double 0 = 0" "nearest_double (- x) = - nearest_double x"
  by (simp_all add: nearest_double_def sgn_minus)

lemma nearest_nonneg: "0 \<le> x \<Longrightarrow> 0 \<le> nearest_double x"
  using rounded_nonneg [of x] by (cases "x = 0") (auto simp: nearest_double_def)

lemma nearest_mono: "x \<le> y \<Longrightarrow> nearest_double x \<le> nearest_double y"
proof -
  assume le: "x \<le> y"
  have pos: "nearest_double a \<le> nearest_double b" if "0 < a" "a \<le> b" for a b
    using that rounded_mono [of a b] by (simp add: nearest_double_def)
  consider "0 < x" | "x \<le> 0" "0 \<le> y" | "y < 0" by linarith
  then show ?thesis
  proof cases
    case 2
    then show ?thesis using nearest_nonneg [of y] nearest_nonneg [of "- x"] by simp
  next
    case 3
    then show ?thesis using pos [of "- y" "- x"] le by simp
  qed (use pos le in blast)
qed

lemma nearest_idem [simp]: "nearest_double (nearest_double x) = nearest_double x"
proof (cases "rounded \<bar>x\<bar> = 0 \<or> x = 0")
  case False
  then have "0 < rounded \<bar>x\<bar>" using rounded_nonneg [of "\<bar>x\<bar>"] by simp
  then show ?thesis
    using rounded_idem [of "\<bar>x\<bar>"] False by (auto simp: nearest_double_def [of x] nearest_double_def [of "rounded _"] nearest_double_def [of "- rounded _"]
        sgn_if abs_if split: if_splits)
qed (auto simp: nearest_double_def)

section \<open>Monotonicity\<close>

text \<open>A value of the type that is a double: what rounding returns.\<close>

definition is_double :: "f64 \<Rightarrow> bool" where
  "is_double v \<longleftrightarrow> (case v of F_Fin a \<Rightarrow> f64_round a = v | _ \<Rightarrow> True)"

lemma f64_ge_simps [simp]:
  "f64_ge F_NaN v = False" "f64_ge v F_NaN = False"
  "f64_ge (F_Fin a) (F_Fin b) \<longleftrightarrow> b \<le> a"
  "f64_ge F_PosInf v \<longleftrightarrow> v \<noteq> F_NaN" "f64_ge v F_NegInf \<longleftrightarrow> v \<noteq> F_NaN"
  "f64_ge (F_Fin a) F_PosInf = False" "f64_ge F_NegInf F_PosInf = False" "f64_ge F_NegInf (F_Fin a) = False"
  by (cases v; auto simp: f64_ge_def)+

lemma f64_gt_iff: "f64_gt a b \<longleftrightarrow> f64_ge a b \<and> \<not> f64_ge b a"
  by (cases a; cases b) (auto simp: f64_gt_def f64_ge_def)

lemma f64_ge_refl [simp]: "f64_ge v v \<longleftrightarrow> v \<noteq> F_NaN"
  by (cases v) auto

lemma f64_ge_not_NaN: "f64_ge a b \<Longrightarrow> a \<noteq> F_NaN \<and> b \<noteq> F_NaN"
  by auto

lemma f64_round_simps [simp]: "f64_round x \<noteq> F_NaN" "F_NaN \<noteq> f64_round x" "f64_round 0 = F_Fin 0"
  by (simp_all add: f64_round_nearest)

lemma f64_round_double [simp]: "is_double (f64_round x)"
  by (simp add: is_double_def f64_round_nearest)

lemma f64_round_mono: "x \<le> y \<Longrightarrow> f64_ge (f64_round y) (f64_round x)"
  using nearest_mono [of x y] nearest_nonneg [of x] nearest_nonneg [of "- y"]
  by (auto simp: f64_round_nearest)

lemma f64_add_double [simp]: "is_double (f64_add a b)"
  by (cases a; cases b) (auto simp: is_double_def [of F_NaN] is_double_def [of F_PosInf] is_double_def [of F_NegInf])

lemma f64_add_mono:
  "f64_ge a b \<Longrightarrow> f64_ge c d \<Longrightarrow> f64_add a c \<noteq> F_NaN \<Longrightarrow> f64_add b d \<noteq> F_NaN \<Longrightarrow> f64_ge (f64_add a c) (f64_add b d)"
  by (cases a; cases b; cases c; cases d) (auto simp: f64_round_mono)

lemma f64_add_zero: "is_double a \<Longrightarrow> f64_add a (F_Fin 0) = a" "is_double a \<Longrightarrow> f64_add (F_Fin 0) a = a"
  by (cases a; simp add: is_double_def)+

lemma f64_mul_double [simp]: "is_double (f64_mul a b)"
  by (cases a; cases b) (auto simp: is_double_def [of F_NaN] is_double_def [of F_PosInf] is_double_def [of F_NegInf] f64_inf_def)

lemma f64_neg_double [simp]: "is_double a \<Longrightarrow> is_double (f64_neg a)"
  by (cases a) (auto simp: is_double_def f64_round_nearest split: if_splits)

lemma is_double_simps [simp]: "is_double F_NaN" "is_double F_PosInf" "is_double F_NegInf" "is_double f64_zero"
  by (simp_all add: is_double_def)

lemma f64_scale_mono:
  assumes "0 < t" "f64_ge a b"
  shows "f64_ge (f64_mul a (F_Fin t)) (f64_mul b (F_Fin t))" "f64_ge (f64_div a (F_Fin t)) (f64_div b (F_Fin t))"
  using assms by (cases a; cases b; auto simp: f64_inf_def intro!: f64_round_mono divide_right_mono)+

lemma nearest_one [simp]: "nearest_double 1 = 1"
proof -
  have "floor_log2 1 < 1" using floor_log2_less [of 1 1] by simp
  then show ?thesis using rounded_power [of 0] by (simp add: nearest_double_def exponent_def)
qed

lemma f64_one_double [simp]: "is_double f64_one" and f64_round_one [simp]: "f64_round 1 = f64_one"
  by (simp_all add: is_double_def f64_round_nearest)

lemma f64_div_le_one: "0 < t \<Longrightarrow> f64_ge (F_Fin t) a \<Longrightarrow> f64_ge f64_one (f64_div a (F_Fin t))"
  using f64_round_mono [of _ 1] by (cases a) auto

lemma f64_mul_le: "is_double (F_Fin c) \<Longrightarrow> 0 < c \<Longrightarrow> f64_ge f64_one a \<Longrightarrow> f64_ge (F_Fin c) (f64_mul a (F_Fin c))"
  using f64_round_mono [of _ c] by (cases a) (auto simp: is_double_def f64_inf_def mult_right_le_one_le)

lemma f64_neg_mono: "f64_ge a b \<Longrightarrow> f64_ge (f64_neg b) (f64_neg a)"
  by (cases a; cases b) auto

lemma f64_add_not_NaN: "f64_ge a f64_zero \<Longrightarrow> f64_ge b f64_zero \<Longrightarrow> f64_add a b \<noteq> F_NaN"
  by (cases a; cases b) auto

lemma f64_add_nonneg: "f64_ge a f64_zero \<Longrightarrow> f64_ge b f64_zero \<Longrightarrow> f64_ge (f64_add a b) f64_zero"
  using f64_add_mono [of a f64_zero b f64_zero] f64_add_not_NaN [of a b] by simp

text \<open>Numbers with at most 53 significant bits are doubles.\<close>

lemma nearest_exact:
  assumes "x = of_int n * power_int 2 e" "\<bar>n\<bar> < 2 ^ 53" "- 1074 \<le> e"
  shows "nearest_double x = x"
proof -
  have pos: "nearest_double y = y" if y: "y = of_int m * power_int 2 e" "0 < m" "m < 2 ^ 53" for y :: rat and m
  proof -
    have "of_int m < (of_int (2 ^ 53) :: rat)" using y by (simp only: of_int_less_iff)
    then have "y < 2 ^ 53 * power_int 2 e" "0 < y" using y by simp_all
    then have "y < power_int 2 (53 + e)" by (simp add: power_int_add)
    then have "exponent y - 52 \<le> e" using floor_log2_less [OF \<open>0 < y\<close>] assms(3) by (fastforce simp: exponent_def)
    then have "y = of_int (m * 2 ^ nat (e - (exponent y - 52))) * unit_at y"
      using y(1) power_as_multiple [of y e] by simp
    then have "rounded y = y" by (rule rounded_multiple)
    with \<open>0 < y\<close> show ?thesis by (simp add: nearest_double_def)
  qed
  consider "n = 0" | "0 < n" | "n < 0" by linarith
  then show ?thesis
    using pos [of x n] pos [of "- x" "- n"] assms by cases auto
qed

lemma f64_round_int: "\<bar>n\<bar> < 2 ^ 53 \<Longrightarrow> f64_round (of_int n) = F_Fin (of_int n)"
proof -
  assume n: "\<bar>n\<bar> < 2 ^ 53"
  then have "\<bar>of_int n\<bar> < (2 ^ 53 :: rat)" by (metis of_int_abs of_int_less_iff of_int_numeral of_int_power)
  also have "\<dots> \<le> 2 ^ 1024" by simp
  finally show ?thesis using nearest_exact [of "of_int n" n 0] n by (simp add: f64_round_nearest not_le)
qed

lemma f64_round_numeral [simp]:
  "(numeral k :: int) < 2 ^ 53 \<Longrightarrow> f64_round (numeral k) = F_Fin (numeral k)"
  "(numeral k :: int) < 2 ^ 53 \<Longrightarrow> f64_round (- numeral k) = F_Fin (- numeral k)"
  using f64_round_int [of "numeral k"] f64_round_int [of "- numeral k"] by simp_all

end
