(* ===== verification/Value_Model.thy ===== *)
theory Value_Model
  imports Doubles "HOL-Library.AList"
begin

text \<open>
  The value model (\<open>xai-value-model\<close>): predicted probabilities of actions on a post are fused with weights
  into one score, which is offset so that it stays positive, raised by an exploration bonus, and
  scaled by factors for authors that repeat and for posts from outside the network. A post may be lifted to
  a rank of the slate (cold start). \<open>powf\<close>, \<open>exp\<close> and \<open>md5\<close> are parameters.
\<close>

section \<open>Weights and inputs\<close>

record phoenix_scores =
  favorite_score :: "f64 option"
  reply_score :: "f64 option"
  retweet_score :: "f64 option"
  photo_expand_score :: "f64 option"
  video_open_score :: "f64 option"
  click_score :: "f64 option"
  open_link_score :: "f64 option"
  profile_click_score :: "f64 option"
  vqv_score :: "f64 option"
  share_score :: "f64 option"
  share_via_dm_score :: "f64 option"
  share_via_copy_link_score :: "f64 option"
  dwell_score :: "f64 option"
  quote_score :: "f64 option"
  quoted_click_score :: "f64 option"
  quoted_vqv_score :: "f64 option"
  follow_author_score :: "f64 option"
  not_interested_score :: "f64 option"
  block_author_score :: "f64 option"
  mute_author_score :: "f64 option"
  report_score :: "f64 option"
  not_dwelled_score :: "f64 option"
  post_unexplored_score :: "f64 option"
  post_video_score :: "f64 option"
  grok_analyze_score :: "f64 option"
  dwell_time :: "f64 option"
  click_dwell_time :: "f64 option"
  home_video_continuation_secs :: "f64 option"
  home_profile_visit_secs :: "f64 option"

definition default_phoenix_scores :: phoenix_scores where
  "default_phoenix_scores = \<lparr>favorite_score = None, reply_score = None, retweet_score = None, photo_expand_score = None,
     video_open_score = None, click_score = None, open_link_score = None, profile_click_score = None,
     vqv_score = None, share_score = None, share_via_dm_score = None, share_via_copy_link_score = None,
     dwell_score = None, quote_score = None, quoted_click_score = None, quoted_vqv_score = None,
     follow_author_score = None, not_interested_score = None, block_author_score = None, mute_author_score = None,
     report_score = None, not_dwelled_score = None, post_unexplored_score = None, post_video_score = None,
     grok_analyze_score = None, dwell_time = None, click_dwell_time = None, home_video_continuation_secs = None,
     home_profile_visit_secs = None\<rparr>"

record value_model_weights =
  w_favorite :: f64
  w_reply :: f64
  w_retweet :: f64
  w_photo_expand :: f64
  w_video_open :: f64
  w_click :: f64
  w_open_link :: f64
  w_profile_click :: f64
  w_vqv :: f64
  w_share :: f64
  w_share_via_dm :: f64
  w_share_via_copy_link :: f64
  w_dwell :: f64
  w_quote :: f64
  w_quoted_click :: f64
  w_quoted_vqv :: f64
  w_follow_author :: f64
  w_post_unexplored :: f64
  w_post_unexplored_include_out_of_network :: bool
  w_post_video :: f64
  w_grok_analyze :: f64
  w_not_interested :: f64
  w_block_author :: f64
  w_mute_author :: f64
  w_report :: f64
  w_not_dwelled :: f64
  w_cont_dwell_time :: f64
  w_cont_click_dwell_time :: f64
  w_video_continuation :: f64
  w_user_video_continuation :: f64
  w_profile_visit_secs :: f64
  w_min_video_duration_ms :: i32
  w_enable_quoted_vqv_duration_check :: bool
  w_bidirectional_follow_reply_weight_boost :: f64
  w_bidirectional_follow_dwell_weight_boost :: f64
  w_enable_author_diversity :: bool
  w_author_diversity_decay :: f64
  w_author_diversity_floor :: f64
  w_oon_rescore_in_network_replies_retweets :: bool
  w_multiplier_pre_offset :: bool

text \<open>The sums of the weights; the additions associate to the left.\<close>

definition positive_weights :: "value_model_weights \<Rightarrow> f64 list" where
  "positive_weights w = [w_favorite w, w_reply w, w_retweet w, w_photo_expand w, w_video_open w, w_click w, w_open_link w,
       w_profile_click w, w_vqv w, w_share w, w_share_via_dm w, w_share_via_copy_link w, w_dwell w, w_quote w,
       w_quoted_click w, w_quoted_vqv w, w_follow_author w, w_post_unexplored w, w_post_video w, w_grok_analyze w]"

definition negative_weights :: "value_model_weights \<Rightarrow> f64 list" where
  "negative_weights w = [w_not_interested w, w_block_author w, w_mute_author w, w_report w, w_not_dwelled w]"

definition left_sum :: "f64 list \<Rightarrow> f64" where
  "left_sum xs = fold (\<lambda>x acc. f64_add acc x) (tl xs) (hd xs)"

definition positive_sum :: "value_model_weights \<Rightarrow> f64" where
  "positive_sum w = left_sum (positive_weights w)"

definition negative_sum :: "value_model_weights \<Rightarrow> f64" where
  "negative_sum w = f64_neg (left_sum (negative_weights w))"

definition total_sum :: "value_model_weights \<Rightarrow> f64" where
  "total_sum w = f64_add (positive_sum w) (negative_sum w)"

text \<open>\<open>weights_mut\<close> with the assignment of its loop: every weight of a head changes by a function of the head.\<close>

definition map_weights :: "(string \<Rightarrow> f64 \<Rightarrow> f64) \<Rightarrow> value_model_weights \<Rightarrow> value_model_weights" where
  "map_weights f w = w\<lparr>w_favorite := f ''favorite'' (w_favorite w), w_reply := f ''reply'' (w_reply w),
     w_retweet := f ''retweet'' (w_retweet w), w_photo_expand := f ''photo_expand'' (w_photo_expand w),
     w_video_open := f ''video_open'' (w_video_open w), w_click := f ''click'' (w_click w),
     w_open_link := f ''open_link'' (w_open_link w), w_profile_click := f ''profile_click'' (w_profile_click w),
     w_vqv := f ''vqv'' (w_vqv w), w_share := f ''share'' (w_share w),
     w_share_via_dm := f ''share_via_dm'' (w_share_via_dm w),
     w_share_via_copy_link := f ''share_via_copy_link'' (w_share_via_copy_link w),
     w_dwell := f ''dwell'' (w_dwell w), w_quote := f ''quote'' (w_quote w),
     w_quoted_click := f ''quoted_click'' (w_quoted_click w), w_quoted_vqv := f ''quoted_vqv'' (w_quoted_vqv w),
     w_cont_dwell_time := f ''dwell_time'' (w_cont_dwell_time w),
     w_cont_click_dwell_time := f ''click_dwell_time'' (w_cont_click_dwell_time w),
     w_video_continuation := f ''video_continuation'' (w_video_continuation w),
     w_user_video_continuation := f ''user_video_continuation'' (w_user_video_continuation w),
     w_profile_visit_secs := f ''profile_visit_secs'' (w_profile_visit_secs w),
     w_follow_author := f ''follow_author'' (w_follow_author w),
     w_post_unexplored := f ''post_unexplored'' (w_post_unexplored w),
     w_post_video := f ''post_video'' (w_post_video w), w_grok_analyze := f ''grok_analyze'' (w_grok_analyze w),
     w_not_interested := f ''not_interested'' (w_not_interested w),
     w_block_author := f ''block_author'' (w_block_author w), w_mute_author := f ''mute_author'' (w_mute_author w),
     w_report := f ''report'' (w_report w), w_not_dwelled := f ''not_dwelled'' (w_not_dwelled w)\<rparr>"

definition perturbation_sign :: "(string \<Rightarrow> 8 word list) \<Rightarrow> string \<Rightarrow> u64 \<Rightarrow> string \<Rightarrow> f64" where
  "perturbation_sign md5 salt user_id head =
     (let digest = md5 (salt @ '':'' @ show_nat (unat user_id) @ '':'' @ head)
      in if and (digest ! 0) 1 = 1 then F_Fin 1 else F_Fin (- 1))"

definition perturbed ::
  "(f64 \<Rightarrow> f64) \<Rightarrow> (string \<Rightarrow> 8 word list) \<Rightarrow> f64 \<Rightarrow> string \<Rightarrow> u64 \<Rightarrow> value_model_weights \<Rightarrow> value_model_weights" where
  "perturbed exp_f md5 sigma salt user_id w =
     (if f64_le sigma f64_zero then w
      else map_weights (\<lambda>head v. f64_mul v (exp_f (f64_mul sigma (perturbation_sign md5 salt user_id head)))) w)"

definition applied_weights_map :: "value_model_weights \<Rightarrow> (string \<times> f64) list" where
  "applied_weights_map w =
     [(''favorite'', w_favorite w), (''reply'', w_reply w), (''retweet'', w_retweet w),
      (''photo_expand'', w_photo_expand w), (''video_open'', w_video_open w), (''click'', w_click w),
      (''open_link'', w_open_link w), (''profile_click'', w_profile_click w), (''vqv'', w_vqv w),
      (''share'', w_share w), (''share_via_dm'', w_share_via_dm w),
      (''share_via_copy_link'', w_share_via_copy_link w), (''dwell'', w_dwell w), (''quote'', w_quote w),
      (''quoted_click'', w_quoted_click w), (''quoted_vqv'', w_quoted_vqv w), (''follow_author'', w_follow_author w),
      (''post_unexplored'', w_post_unexplored w), (''pdwell'', w_post_unexplored w),
      (''post_video'', w_post_video w), (''grok_analyze'', w_grok_analyze w),
      (''not_interested'', w_not_interested w), (''block_author'', w_block_author w),
      (''mute_author'', w_mute_author w), (''report'', w_report w), (''not_dwelled'', w_not_dwelled w),
      (''dwell_time'', w_cont_dwell_time w), (''click_dwell_time'', w_cont_click_dwell_time w),
      (''boost.bidirectional_follow_reply'', w_bidirectional_follow_reply_weight_boost w),
      (''boost.bidirectional_follow_dwell'', w_bidirectional_follow_dwell_weight_boost w),
      (''gate.quoted_vqv_duration_check'', if w_enable_quoted_vqv_duration_check w then f64_one else f64_zero),
      (''gate.min_video_duration_ms'', f64_of_int (sint (w_min_video_duration_ms w)))]"

record candidate_scoring_inputs =
  si_phoenix_scores :: phoenix_scores
  si_author_id :: u64
  si_in_network :: "bool option"
  si_is_reply :: bool
  si_is_retweet :: bool
  si_is_mutual_follow_author :: bool
  si_vqv_eligible :: bool
  si_quoted_vqv_eligible :: bool
  si_cold_start_lift_to_rank :: "32 word option"
  si_weighted_score :: "f64 option"
  si_author_exploration_bonus :: f64
  si_user_video_continuation_secs :: "f64 option"

record query_scoring_context =
  effective_oon_weight :: f64

definition bidirectional_boost_eligible :: "candidate_scoring_inputs \<Rightarrow> bool" where
  "bidirectional_boost_eligible c \<longleftrightarrow> \<not> si_is_reply c \<and> \<not> si_is_retweet c \<and> si_is_mutual_follow_author c"

definition reply_weight_for :: "value_model_weights \<Rightarrow> candidate_scoring_inputs \<Rightarrow> f64" where
  "reply_weight_for w c =
     (if \<not> f64_eq (w_bidirectional_follow_reply_weight_boost w) f64_zero \<and> bidirectional_boost_eligible c
      then f64_add (w_reply w) (w_bidirectional_follow_reply_weight_boost w) else w_reply w)"

definition dwell_weight_for :: "value_model_weights \<Rightarrow> candidate_scoring_inputs \<Rightarrow> f64" where
  "dwell_weight_for w c =
     (if \<not> f64_eq (w_bidirectional_follow_dwell_weight_boost w) f64_zero \<and> bidirectional_boost_eligible c
      then f64_add (w_dwell w) (w_bidirectional_follow_dwell_weight_boost w) else w_dwell w)"

section \<open>Fusing the heads\<close>

definition NEGATIVE_SCORES_OFFSET :: f64 where
  "NEGATIVE_SCORES_OFFSET = f64_round (1 / 1000)"

definition apply_weight :: "f64 option \<Rightarrow> f64 \<Rightarrow> f64" where
  "apply_weight v weight = f64_mul (unwrap_or f64_zero v) weight"

definition product_opt :: "f64 option \<Rightarrow> f64 option \<Rightarrow> f64 option" where
  "product_opt probability conditional =
     (case (probability, conditional) of (Some p, Some v) \<Rightarrow> Some (f64_mul p v) | _ \<Rightarrow> None)"

definition weighted_terms :: "value_model_weights \<Rightarrow> candidate_scoring_inputs \<Rightarrow> (string \<times> f64) list" where
  "weighted_terms w c =
     (let s = si_phoenix_scores c;
          vqv_weight = (if si_vqv_eligible c then w_vqv w else f64_zero);
          quoted_vqv_weight = (if si_quoted_vqv_eligible c then w_quoted_vqv w else f64_zero);
          post_unexplored_weight =
            (if w_post_unexplored_include_out_of_network w \<or> si_in_network c = Some True then w_post_unexplored w else f64_zero)
      in
     [(''favorite'', apply_weight (favorite_score s) (w_favorite w)),
      (''reply'', apply_weight (reply_score s) (reply_weight_for w c)),
      (''retweet'', apply_weight (retweet_score s) (w_retweet w)),
      (''photo_expand'', apply_weight (photo_expand_score s) (w_photo_expand w)),
      (''video_open'', apply_weight (video_open_score s) (w_video_open w)),
      (''click'', apply_weight (click_score s) (w_click w)),
      (''open_link'', apply_weight (open_link_score s) (w_open_link w)),
      (''profile_click'', apply_weight (profile_click_score s) (w_profile_click w)),
      (''vqv'', apply_weight (vqv_score s) vqv_weight), (''share'', apply_weight (share_score s) (w_share w)),
      (''share_via_dm'', apply_weight (share_via_dm_score s) (w_share_via_dm w)),
      (''share_via_copy_link'', apply_weight (share_via_copy_link_score s) (w_share_via_copy_link w)),
      (''dwell'', apply_weight (dwell_score s) (dwell_weight_for w c)),
      (''quote'', apply_weight (quote_score s) (w_quote w)),
      (''quoted_click'', apply_weight (quoted_click_score s) (w_quoted_click w)),
      (''quoted_vqv'', apply_weight (quoted_vqv_score s) quoted_vqv_weight),
      (''dwell_time'', apply_weight (dwell_time s) (w_cont_dwell_time w)),
      (''click_dwell_time'', apply_weight (click_dwell_time s) (w_cont_click_dwell_time w)),
      (''video_continuation'', apply_weight (product_opt (video_open_score s) (home_video_continuation_secs s)) (w_video_continuation w)),
      (''user_video_continuation'', apply_weight (product_opt (video_open_score s) (si_user_video_continuation_secs c)) (w_user_video_continuation w)),
      (''profile_visit_secs'', apply_weight (product_opt (profile_click_score s) (home_profile_visit_secs s)) (w_profile_visit_secs w)),
      (''follow_author'', apply_weight (follow_author_score s) (w_follow_author w)),
      (''not_interested'', apply_weight (not_interested_score s) (w_not_interested w)),
      (''block_author'', apply_weight (block_author_score s) (w_block_author w)),
      (''mute_author'', apply_weight (mute_author_score s) (w_mute_author w)),
      (''report'', apply_weight (report_score s) (w_report w)),
      (''not_dwelled'', apply_weight (not_dwelled_score s) (w_not_dwelled w)),
      (''post_unexplored'', apply_weight (post_unexplored_score s) post_unexplored_weight),
      (''post_video'', apply_weight (post_video_score s) (w_post_video w)),
      (''grok_analyze'', apply_weight (grok_analyze_score s) (w_grok_analyze w))])"

definition compute_weighted_score :: "value_model_weights \<Rightarrow> candidate_scoring_inputs \<Rightarrow> f64" where
  "compute_weighted_score w c = f64_sum (map snd (weighted_terms w c))"

definition offset_score :: "f64 \<Rightarrow> value_model_weights \<Rightarrow> f64" where
  "offset_score combined_score w =
     (let total = total_sum w
      in if f64_eq total f64_zero then f64_max combined_score f64_zero
         else if f64_lt combined_score f64_zero
         then f64_mul (f64_div (f64_add combined_score (negative_sum w)) total) NEGATIVE_SCORES_OFFSET
         else f64_add combined_score NEGATIVE_SCORES_OFFSET)"

definition unoffset_score :: "f64 \<Rightarrow> value_model_weights \<Rightarrow> f64" where
  "unoffset_score weighted w =
     (let total = total_sum w
      in if f64_eq total f64_zero then weighted
         else if f64_lt weighted NEGATIVE_SCORES_OFFSET
         then f64_sub (f64_mul (f64_div weighted NEGATIVE_SCORES_OFFSET) total) (negative_sum w)
         else f64_sub weighted NEGATIVE_SCORES_OFFSET)"

definition fuse_heads :: "value_model_weights \<Rightarrow> candidate_scoring_inputs \<Rightarrow> f64" where
  "fuse_heads w c = offset_score (compute_weighted_score w c) w"

definition add_exploration_bonus :: "f64 \<Rightarrow> f64 \<Rightarrow> value_model_weights \<Rightarrow> f64" where
  "add_exploration_bonus weighted bonus w =
     (if f64_eq bonus f64_zero then weighted else offset_score (f64_add (unoffset_score weighted w) bonus) w)"

definition set_user_video_continuation :: "candidate_scoring_inputs list \<Rightarrow> candidate_scoring_inputs list" where
  "set_user_video_continuation cs =
     (let pairs = List.map_filter (\<lambda>c. case (video_open_score (si_phoenix_scores c), home_video_continuation_secs (si_phoenix_scores c)) of
                       (Some p, Some v) \<Rightarrow> Some (p, v) | _ \<Rightarrow> None) cs;
          (secs, opens) = fold (\<lambda>(p, v) (secs, opens). (f64_add secs (f64_mul p v), f64_add opens p)) pairs (f64_zero, f64_zero);
          user_secs = (if f64_gt opens f64_zero then Some (f64_div secs opens) else None)
      in map (\<lambda>c. c\<lparr>si_user_video_continuation_secs := user_secs\<rparr>) cs)"

section \<open>Factors after the fusion\<close>

text \<open>The loop of \<open>author_pool_counts\<close> over the indices in the order of the scores.\<close>

definition pool_step :: "u64 list \<Rightarrow> nat \<Rightarrow> nat list \<times> (u64 \<times> nat) list \<Rightarrow> nat list \<times> (u64 \<times> nat) list" where
  "pool_step author_ids idx st =
     (case st of (counts, seen) \<Rightarrow>
        let k = unwrap_or 0 (map_of seen (author_ids ! idx))
        in (counts[idx := k], AList.update (author_ids ! idx) (k + 1) seen))"

definition pool_order :: "f64 list \<Rightarrow> nat list" where
  "pool_order ordering_scores = map fst (sort_by (score_desc snd) (enumerate 0 ordering_scores))"

definition author_pool_counts :: "u64 list \<Rightarrow> f64 list \<Rightarrow> nat list option" where
  "author_pool_counts author_ids ordering_scores =
     (if length author_ids < length ordering_scores then None
      else Some (fst (fold (pool_step author_ids) (pool_order ordering_scores) (replicate (length author_ids) 0, []))))"

definition diversity_multiplier :: "(f64 \<Rightarrow> f64 \<Rightarrow> f64) \<Rightarrow> f64 \<Rightarrow> f64 \<Rightarrow> f64 \<Rightarrow> f64" where
  "diversity_multiplier powf decay_factor floor_value exponent_value =
     f64_add (f64_mul (f64_sub f64_one floor_value) (powf decay_factor exponent_value)) floor_value"

definition oon_applies :: "value_model_weights \<Rightarrow> candidate_scoring_inputs \<Rightarrow> bool" where
  "oon_applies w c =
     (case si_in_network c of
        Some False \<Rightarrow> True
      | Some True \<Rightarrow> w_oon_rescore_in_network_replies_retweets w \<and> (si_is_reply c \<or> si_is_retweet c)
      | None \<Rightarrow> False)"

record post_fusion_multiplier =
  pm_author_diversity :: f64
  pm_oon :: f64

definition pm_combined :: "post_fusion_multiplier \<Rightarrow> f64" where
  "pm_combined m = f64_mul (pm_author_diversity m) (pm_oon m)"

definition pm_apply :: "post_fusion_multiplier \<Rightarrow> f64 \<Rightarrow> f64" where
  "pm_apply m v = f64_mul (f64_mul v (pm_author_diversity m)) (pm_oon m)"

definition post_fusion_multipliers ::
  "(f64 \<Rightarrow> f64 \<Rightarrow> f64) \<Rightarrow> value_model_weights \<Rightarrow> query_scoring_context \<Rightarrow> candidate_scoring_inputs list \<Rightarrow> f64 list \<Rightarrow>
   post_fusion_multiplier list option" where
  "post_fusion_multipliers powf w ctx cs ordering_scores =
     map_option (\<lambda>diversity. map (\<lambda>(c, d). \<lparr>pm_author_diversity = d,
         pm_oon = (if oon_applies w c then effective_oon_weight ctx else f64_one)\<rparr>) (zip cs diversity))
       (if w_enable_author_diversity w
        then map_option (map (\<lambda>k. diversity_multiplier powf (w_author_diversity_decay w) (w_author_diversity_floor w) (f64_of_int (int k))))
               (author_pool_counts (map si_author_id cs) ordering_scores)
        else Some (replicate (length cs) f64_one))"

section \<open>The scores of a slate\<close>

text \<open>The first candidate with a rank to be lifted to; \<open>None\<close> in the result is an index out of range.\<close>

definition cold_start_lift :: "candidate_scoring_inputs list \<Rightarrow> (nat \<times> nat) option" where
  "cold_start_lift cs =
     find_map (\<lambda>(i, c). map_option (\<lambda>rank. (i, unat rank)) (si_cold_start_lift_to_rank c)) (enumerate 0 cs)"

definition apply_cold_start_decisions :: "f64 list \<Rightarrow> candidate_scoring_inputs list \<Rightarrow> f64 list option" where
  "apply_cold_start_decisions scores cs =
     (case cold_start_lift cs of
        None \<Rightarrow> Some scores
      | Some (index, rank) \<Rightarrow>
          if rank < length scores
          then let ranked = sort_by (\<lambda>a b. total_cmp b a) scores
               in if index < length scores
                  then Some (scores[index := f64_max (scores ! index) (ranked ! rank)]) else None
          else Some scores)"

record value_scores =
  vs_weighted :: "f64 list"
  vs_scores :: "f64 list"

definition base_weighted :: "value_model_weights \<Rightarrow> candidate_scoring_inputs \<Rightarrow> f64" where
  "base_weighted w c =
     (case si_weighted_score c of Some weighted \<Rightarrow> weighted | None \<Rightarrow> offset_score (compute_weighted_score w c) w)"

definition pre_offset_scaled :: "value_model_weights \<Rightarrow> f64 \<Rightarrow> candidate_scoring_inputs \<Rightarrow> post_fusion_multiplier \<Rightarrow> f64" where
  "pre_offset_scaled w weighted c m =
     (let net = f64_add (unoffset_score weighted w) (si_author_exploration_bonus c);
          scaled = (if f64_ge net f64_zero then f64_mul (pm_combined m) net else net)
      in offset_score scaled w)"

definition compute_value_scores_with_adjustment ::
  "(f64 \<Rightarrow> f64 \<Rightarrow> f64) \<Rightarrow> value_model_weights \<Rightarrow> query_scoring_context \<Rightarrow> candidate_scoring_inputs list \<Rightarrow>
   (f64 list \<Rightarrow> f64 list option) \<Rightarrow> value_scores option" where
  "compute_value_scores_with_adjustment powf w ctx cs adjust_base_scores =
     (let weighted = map (base_weighted w) cs
      in if w_multiplier_pre_offset w
         then Option.bind (post_fusion_multipliers powf w ctx cs weighted) (\<lambda>ms.
              Option.bind (adjust_base_scores (map (\<lambda>((v, c), m). pre_offset_scaled w v c m) (zip (zip weighted cs) ms))) (\<lambda>scores.
              Some \<lparr>vs_weighted = weighted, vs_scores = scores\<rparr>))
         else Option.bind (adjust_base_scores
                (map (\<lambda>(v, c). add_exploration_bonus v (si_author_exploration_bonus c) w) (zip weighted cs))) (\<lambda>adjusted.
              Option.bind (post_fusion_multipliers powf w ctx cs adjusted) (\<lambda>ms.
              Some \<lparr>vs_weighted = weighted, vs_scores = map (\<lambda>(v, m). pm_apply m v) (zip adjusted ms)\<rparr>)))"

definition compute_value_scores ::
  "(f64 \<Rightarrow> f64 \<Rightarrow> f64) \<Rightarrow> value_model_weights \<Rightarrow> query_scoring_context \<Rightarrow> candidate_scoring_inputs list \<Rightarrow> value_scores option" where
  "compute_value_scores powf w ctx cs =
     compute_value_scores_with_adjustment powf w ctx cs (\<lambda>scores. apply_cold_start_decisions scores cs)"

section \<open>The offset keeps the order\<close>

text \<open>Weights with the signs of their names and a finite sum.\<close>

definition signed_weights :: "value_model_weights \<Rightarrow> bool" where
  "signed_weights w \<longleftrightarrow> list_all (\<lambda>v. f64_ge v f64_zero) (positive_weights w) \<and>
     list_all (\<lambda>v. f64_ge f64_zero v) (negative_weights w) \<and> is_finite (total_sum w)"

lemma fold_add_nonneg: "list_all (\<lambda>v. f64_ge v f64_zero) xs \<Longrightarrow> f64_ge a f64_zero \<Longrightarrow> f64_ge (fold (\<lambda>x acc. f64_add acc x) xs a) f64_zero"
  by (induction xs arbitrary: a) (simp_all add: f64_add_nonneg)

lemma f64_add_nonpos: "f64_ge f64_zero a \<Longrightarrow> f64_ge f64_zero b \<Longrightarrow> f64_ge f64_zero (f64_add a b)"
  using f64_add_mono [of f64_zero a f64_zero b] by (cases a; cases b) auto

lemma fold_add_nonpos: "list_all (\<lambda>v. f64_ge f64_zero v) xs \<Longrightarrow> f64_ge f64_zero a \<Longrightarrow> f64_ge f64_zero (fold (\<lambda>x acc. f64_add acc x) xs a)"
  by (induction xs arbitrary: a) (simp_all add: f64_add_nonpos)

lemma negative_sum_double: "is_double (negative_sum w)"
  by (simp add: negative_sum_def negative_weights_def left_sum_def)

lemma signed_sums:
  assumes "signed_weights w"
  obtains n t where "negative_sum w = F_Fin n" "total_sum w = F_Fin t" "0 \<le> n" "n \<le> t"
proof -
  have pos: "f64_ge (positive_sum w) f64_zero"
    using assms fold_add_nonneg by (simp add: signed_weights_def positive_sum_def positive_weights_def left_sum_def f64_add_nonneg)
  have neg: "f64_ge (negative_sum w) f64_zero"
    using assms f64_neg_mono [of f64_zero "left_sum (negative_weights w)"]
    by (simp add: signed_weights_def negative_sum_def negative_weights_def left_sum_def f64_add_nonpos)
  have "f64_ge (total_sum w) (negative_sum w)"
    using f64_add_mono [of "positive_sum w" f64_zero "negative_sum w" "negative_sum w"] pos neg f64_add_not_NaN [OF pos neg]
      negative_sum_double [of w] f64_ge_not_NaN [OF neg]
    by (simp add: total_sum_def f64_add_zero)
  moreover obtain t where "total_sum w = F_Fin t" using assms by (cases "total_sum w") (auto simp: signed_weights_def)
  ultimately show thesis using that neg by (cases "negative_sum w") auto
qed

lemma offset_constant: "NEGATIVE_SCORES_OFFSET = F_Fin (1152921504606847 / 1152921504606846976)"
  by code_simp

lemma offset_cases:
  assumes "signed_weights w" "total_sum w \<noteq> f64_zero"
  shows "f64_lt x f64_zero \<Longrightarrow> f64_ge NEGATIVE_SCORES_OFFSET (offset_score x w)"
    and "f64_ge x f64_zero \<Longrightarrow> f64_ge (offset_score x w) NEGATIVE_SCORES_OFFSET"
    and "f64_lt x f64_zero \<Longrightarrow> f64_ge x y \<Longrightarrow> f64_ge (offset_score x w) (offset_score y w)"
proof -
  obtain n t where n: "negative_sum w = F_Fin n" and t: "total_sum w = F_Fin t" "0 \<le> n" "n \<le> t"
    using signed_sums [OF assms(1)] .
  with assms(2) have t0: "0 < t" by auto
  obtain c where c: "NEGATIVE_SCORES_OFFSET = F_Fin c" "0 < c" using that [OF offset_constant] by simp
  have double: "is_double (F_Fin c)" "is_double (F_Fin n)"
    using negative_sum_double [of w] by (simp_all add: n flip: c(1)) (simp add: NEGATIVE_SCORES_OFFSET_def)
  have low: "offset_score x w = f64_mul (f64_div (f64_add x (F_Fin n)) (F_Fin t)) (F_Fin c)" if "f64_lt x f64_zero" for x
    using that t t0 n c by (simp add: offset_score_def Let_def f64_eq_def)
  show "f64_ge NEGATIVE_SCORES_OFFSET (offset_score x w)" if x: "f64_lt x f64_zero"
  proof -
    have "f64_ge f64_zero x" "f64_add x (F_Fin n) \<noteq> F_NaN" using x by (cases x; simp add: f64_lt_def f64_gt_iff)+
    then have "f64_ge (F_Fin n) (f64_add x (F_Fin n))"
      using f64_add_mono [of f64_zero x "F_Fin n" "F_Fin n"] double(2) by (simp add: f64_add_zero del: f64_add.simps)
    then have "f64_ge (F_Fin t) (f64_add x (F_Fin n))" using t(3) f64_ge_trans [of "F_Fin t" "F_Fin n"] by simp
    then show ?thesis using low [OF x] f64_div_le_one [OF t0] f64_mul_le [OF double(1) c(2)] by (simp add: c(1))
  qed
  show "f64_ge (offset_score x w) NEGATIVE_SCORES_OFFSET" if x: "f64_ge x f64_zero"
  proof -
    have "\<not> f64_lt x f64_zero" using x by (simp add: f64_lt_def f64_gt_iff)
    then have "offset_score x w = f64_add x (F_Fin c)" using assms(2) by (simp add: offset_score_def Let_def f64_eq_def c(1))
    moreover have "f64_add x (F_Fin c) \<noteq> F_NaN" using x c(2) by (simp add: f64_add_not_NaN)
    ultimately show ?thesis
      using f64_add_mono [of x f64_zero "F_Fin c" "F_Fin c"] x double(1) by (simp add: c(1) f64_add_zero del: f64_add.simps)
  qed
  show "f64_ge (offset_score x w) (offset_score y w)" if x: "f64_lt x f64_zero" and ge: "f64_ge x y"
  proof -
    have y: "f64_lt y f64_zero" "f64_add x (F_Fin n) \<noteq> F_NaN" "f64_add y (F_Fin n) \<noteq> F_NaN"
      using x ge by (cases x; cases y; simp add: f64_lt_def f64_gt_iff)+
    then show ?thesis
      using low [OF x] low [OF y(1)] f64_add_mono [OF ge, of "F_Fin n" "F_Fin n"] f64_scale_mono [OF t0] f64_scale_mono [OF c(2)] by simp
  qed
qed

text \<open>
  C5. Offsetting a score keeps the order of the candidates, in the arithmetic of doubles: whenever the weights have the
  signs of their names and their sum is finite, a candidate whose combined score is at least that of
  another keeps it that way, and negative scores end at or below the offset, the others at or above it (unless the
  weights sum to 0).
\<close>

theorem offset_score_monotone:
  assumes "signed_weights w" "f64_ge x y"
  shows "f64_ge (offset_score x w) (offset_score y w) \<and>
    (total_sum w \<noteq> f64_zero \<longrightarrow>
      (f64_lt y f64_zero \<longrightarrow> f64_ge NEGATIVE_SCORES_OFFSET (offset_score y w)) \<and>
      (f64_ge x f64_zero \<longrightarrow> f64_ge (offset_score x w) NEGATIVE_SCORES_OFFSET))"
proof -
  have "f64_ge (offset_score x w) (offset_score y w)"
  proof (cases "total_sum w = f64_zero")
    case True
    then show ?thesis
      using assms(2) by (cases x; cases y) (auto simp: offset_score_def f64_eq_def f64_max_def)
  next
    case False
    note cases = offset_cases [OF assms(1) False]
    consider "f64_lt x f64_zero" | "f64_ge x f64_zero" "f64_lt y f64_zero" | "f64_ge y f64_zero" "f64_ge x f64_zero"
      using assms(2) by (cases x; cases y; force simp: f64_lt_def f64_gt_iff)
    then show ?thesis
    proof cases
      case 3
      then have "\<not> f64_lt x f64_zero" "\<not> f64_lt y f64_zero" by (simp_all add: f64_lt_def f64_gt_iff)
      moreover have "f64_add x NEGATIVE_SCORES_OFFSET \<noteq> F_NaN" "f64_add y NEGATIVE_SCORES_OFFSET \<noteq> F_NaN"
        using 3 f64_add_not_NaN [of _ NEGATIVE_SCORES_OFFSET] by (simp_all add: offset_constant)
      ultimately show ?thesis
        using False f64_add_mono [OF assms(2), of NEGATIVE_SCORES_OFFSET NEGATIVE_SCORES_OFFSET]
        by (simp add: offset_score_def f64_eq_def Let_def offset_constant)
    qed (use cases assms(2) f64_ge_trans in blast)+
  qed
  then show ?thesis using offset_cases [OF assms(1)] by blast
qed

text \<open>A small set of weights.\<close>

definition sample_weights :: value_model_weights where
  "sample_weights = \<lparr>w_favorite = F_Fin 2, w_reply = F_Fin 4, w_retweet = F_Fin 1, w_photo_expand = f64_zero,
     w_video_open = f64_zero, w_click = f64_zero, w_open_link = f64_zero, w_profile_click = f64_zero,
     w_vqv = F_Fin 3, w_share = f64_zero, w_share_via_dm = f64_zero, w_share_via_copy_link = f64_zero,
     w_dwell = F_Fin 1, w_quote = f64_zero, w_quoted_click = f64_zero, w_quoted_vqv = f64_zero,
     w_follow_author = f64_zero, w_post_unexplored = F_Fin 1, w_post_unexplored_include_out_of_network = False,
     w_post_video = F_Fin 2, w_grok_analyze = f64_zero, w_not_interested = F_Fin (- 10),
     w_block_author = f64_zero, w_mute_author = f64_zero, w_report = F_Fin (- 100), w_not_dwelled = f64_zero,
     w_cont_dwell_time = F_Fin 1, w_cont_click_dwell_time = F_Fin 1,
     w_video_continuation = f64_zero, w_user_video_continuation = f64_zero, w_profile_visit_secs = f64_zero,
     w_min_video_duration_ms = 0, w_enable_quoted_vqv_duration_check = False,
     w_bidirectional_follow_reply_weight_boost = F_Fin 1, w_bidirectional_follow_dwell_weight_boost = F_Fin 1,
     w_enable_author_diversity = True, w_author_diversity_decay = F_Fin 1,
     w_author_diversity_floor = F_Fin 1, w_oon_rescore_in_network_replies_retweets = True,
     w_multiplier_pre_offset = False\<rparr>"

theorem offset_score_monotone_witness:
  "f64_ge (offset_score (F_Fin 1) sample_weights) (offset_score (F_Fin (- 1)) sample_weights) \<and>
   f64_ge NEGATIVE_SCORES_OFFSET (offset_score (F_Fin (- 1)) sample_weights)"
proof -
  have "signed_weights sample_weights" "total_sum sample_weights \<noteq> f64_zero" "f64_lt (F_Fin (- 1)) f64_zero"
    by (simp_all add: signed_weights_def total_sum_def positive_sum_def negative_sum_def left_sum_def positive_weights_def negative_weights_def
        sample_weights_def f64_lt_def f64_gt_iff)
  then show ?thesis using offset_score_monotone [of sample_weights "F_Fin 1" "F_Fin (- 1)"] by simp
qed

section \<open>Repeated authors\<close>

text \<open>The order of the slate: by falling scores, and by index among equal scores.\<close>

definition ranks_before :: "f64 list \<Rightarrow> nat \<Rightarrow> nat \<Rightarrow> bool" where
  "ranks_before scores j i \<longleftrightarrow> f64_gt (scores ! j) (scores ! i) \<or> (scores ! j = scores ! i \<and> j < i)"

definition pair_before :: "nat \<times> f64 \<Rightarrow> nat \<times> f64 \<Rightarrow> bool" where
  "pair_before p q \<longleftrightarrow> f64_gt (snd p) (snd q) \<or> (snd p = snd q \<and> fst p < fst q)"

lemma pair_before_trans: "pair_before p q \<Longrightarrow> pair_before q r \<Longrightarrow> pair_before p r"
  by (cases "snd p"; cases "snd q"; cases "snd r") (auto simp: pair_before_def f64_gt_iff)

lemma pair_before_insert:
  assumes "sorted_wrt pair_before ps" "\<forall>q \<in> set ps. fst p < fst q \<and> snd q \<noteq> F_NaN" "snd p \<noteq> F_NaN"
  shows "sorted_wrt pair_before (insert_by (score_desc snd) p ps)"
  using assms
proof (induction ps)
  case (Cons q ps)
  show ?case
  proof (cases "score_desc snd p q = Greater")
    case True
    then have "pair_before q p" by (cases "snd p"; cases "snd q") (auto simp: score_desc_def pair_before_def f64_gt_def split: if_splits)
    with True Cons show ?thesis by auto
  next
    case False
    then have "pair_before p q" using Cons.prems
      by (cases "snd p"; cases "snd q") (auto simp: score_desc_def pair_before_def f64_gt_def split: if_splits)
    with False Cons.prems show ?thesis using pair_before_trans by auto
  qed
qed simp

lemma sort_enumerate:
  "list_all (\<lambda>v. v \<noteq> F_NaN) xs \<Longrightarrow> sorted_wrt pair_before (sort_by (score_desc snd) (enumerate k xs))"
proof (induction xs arbitrary: k)
  case (Cons x xs)
  have "\<forall>q \<in> set (enumerate (Suc k) xs). k < fst q \<and> snd q \<noteq> F_NaN"
    using Cons.prems by (fastforce simp: in_set_enumerate_eq list_all_iff)
  then show ?case
    using Cons pair_before_insert [of "sort_by (score_desc snd) (enumerate (Suc k) xs)" "(k, x)"]
    by (simp add: sort_by_def [of _ "_ # _"] flip: sort_by_def)
qed (simp add: sort_by_def)

lemma pool_order_facts:
  shows "mset (pool_order scores) = mset [0..<length scores]"
    and "list_all (\<lambda>v. v \<noteq> F_NaN) scores \<Longrightarrow> sorted_wrt (ranks_before scores) (pool_order scores)"
proof -
  have "mset (pool_order scores) = image_mset fst (mset (enumerate 0 scores))" by (simp add: pool_order_def)
  then show "mset (pool_order scores) = mset [0..<length scores]" by (metis map_fst_enumerate add_0 mset_map)
  assume "list_all (\<lambda>v. v \<noteq> F_NaN) scores"
  from sort_enumerate [OF this, of 0] show "sorted_wrt (ranks_before scores) (pool_order scores)"
    unfolding pool_order_def sorted_wrt_map
    by (rule sorted_wrt_mono_rel [rotated]) (auto simp: pair_before_def ranks_before_def in_set_enumerate_eq)
qed

lemma sorted_wrt_filter_before:
  assumes "sorted_wrt R xs" "r < length xs" "\<And>x y. R x y \<Longrightarrow> \<not> R y x"
  shows "filter (\<lambda>y. R y (xs ! r)) xs = take r xs"
proof -
  have split: "xs = take r xs @ xs ! r # drop (Suc r) xs" by (rule id_take_nth_drop [OF assms(2)])
  then have "sorted_wrt R (take r xs @ xs ! r # drop (Suc r) xs)" using assms(1) by simp
  then have "filter (\<lambda>y. R y (xs ! r)) (take r xs) = take r xs" "filter (\<lambda>y. R y (xs ! r)) (drop (Suc r) xs) = []"
    using assms(3) by (auto simp: sorted_wrt_append filter_id_conv filter_empty_conv)
  moreover have "\<not> R (xs ! r) (xs ! r)" using assms(3) by blast
  ultimately show ?thesis by (subst split) simp
qed

lemma pool_fold_length [simp]: "length (fst (fold (pool_step ids) is st)) = length (fst st)"
  by (induction "is" arbitrary: st) (simp_all add: pool_step_def Let_def split: prod.splits)

lemma pool_fold_counts:
  "unwrap_or 0 (map_of (snd (fold (pool_step ids) is st)) a) = unwrap_or 0 (map_of (snd st) a) + count_list (map ((!) ids) is) a"
proof (induction "is" arbitrary: st)
  case (Cons i "is")
  show ?case using Cons [of "pool_step ids i st"] by (cases st) (simp add: pool_step_def Let_def update_conv' unwrap_or_def split: if_splits)
qed simp

lemma pool_fold_other: "i \<notin> set is \<Longrightarrow> fst (fold (pool_step ids) is st) ! i = fst st ! i"
  by (induction "is" arbitrary: st) (simp_all add: pool_step_def Let_def split: prod.splits)

lemma pool_fold_nth:
  assumes "distinct is" "r < length is" "is ! r < length (fst st)"
  shows "fst (fold (pool_step ids) is st) ! (is ! r) =
    unwrap_or 0 (map_of (snd (fold (pool_step ids) (take r is) st)) (ids ! (is ! r)))"
proof -
  let ?pre = "fold (pool_step ids) (take r is) st"
  have split: "is = take r is @ is ! r # drop (Suc r) is" by (rule id_take_nth_drop [OF assms(2)])
  then have "is ! r \<notin> set (drop (Suc r) is)" using assms(1) by (metis distinct.simps(2) distinct_append)
  moreover have "fold (pool_step ids) is st = fold (pool_step ids) (drop (Suc r) is) (pool_step ids (is ! r) ?pre)"
    by (subst split) simp
  moreover have "is ! r < length (fst ?pre)" using assms(3) by simp
  ultimately show ?thesis by (cases ?pre) (simp add: pool_fold_other pool_step_def Let_def)
qed

text \<open>The reference: the candidates of the same author that rank before.\<close>

definition better_of_author :: "u64 list \<Rightarrow> f64 list \<Rightarrow> nat \<Rightarrow> nat" where
  "better_of_author ids scores i =
     length (filter (\<lambda>j. ids ! j = ids ! i \<and> ranks_before scores j i) [0..<length scores])"

lemma count_list_map_filter: "count_list (map f (filter p xs)) a = length (filter (\<lambda>x. f x = a \<and> p x) xs)"
  by (induction xs) auto

lemma ranks_before_asym: "ranks_before scores j i \<Longrightarrow> \<not> ranks_before scores i j"
  by (auto simp: ranks_before_def f64_gt_iff)

lemma author_pool_counts_reference:
  assumes "length ids = length scores" "list_all (\<lambda>v. v \<noteq> F_NaN) scores"
  shows "author_pool_counts ids scores = Some (map (better_of_author ids scores) [0..<length scores])"
proof -
  let ?order = "pool_order scores" and ?st = "(replicate (length ids) 0, [])"
  have perm: "mset ?order = mset [0..<length scores]" by (rule pool_order_facts)
  then have dist: "distinct ?order" "set ?order = {0..<length scores}" "length ?order = length scores"
    using mset_eq_imp_distinct_iff [OF perm] mset_eq_setD [OF perm] mset_eq_length [OF perm] by simp_all
  have "fst (fold (pool_step ids) ?order ?st) ! i = better_of_author ids scores i" if "i < length scores" for i
  proof -
    have "i \<in> set ?order" using that dist(2) by simp
    then obtain r where r: "r < length ?order" "?order ! r = i" unfolding in_set_conv_nth by blast
    have "filter (\<lambda>j. ranks_before scores j i) ?order = take r ?order"
      using sorted_wrt_filter_before [OF pool_order_facts(2) [OF assms(2)] r(1) ranks_before_asym] r(2) by simp
    then have "mset (take r ?order) = mset (filter (\<lambda>j. ranks_before scores j i) [0..<length scores])"
      by (metis mset_filter perm)
    then have "count_list (map ((!) ids) (take r ?order)) (ids ! i) =
        count_list (map ((!) ids) (filter (\<lambda>j. ranks_before scores j i) [0..<length scores])) (ids ! i)"
      by (simp flip: count_mset)
    also have "\<dots> = better_of_author ids scores i"
      by (simp add: better_of_author_def count_list_map_filter)
    finally show ?thesis
      using pool_fold_nth [OF dist(1) r(1), of ?st ids] pool_fold_counts [of ids "take r ?order" ?st "ids ! i"] r that assms(1)
      by (simp add: unwrap_or_def)
  qed
  then show ?thesis using assms(1) by (auto simp: author_pool_counts_def intro!: nth_equalityI)
qed

section \<open>Lifted candidates\<close>

lemma total_cmp_desc: "a \<noteq> F_NaN \<Longrightarrow> b \<noteq> F_NaN \<Longrightarrow> total_cmp b a \<noteq> Greater \<longleftrightarrow> f64_ge a b"
  by (cases a; cases b) auto

interpretation total_desc: comparator_on "{v. v \<noteq> F_NaN}" "\<lambda>a b. total_cmp b a"
proof unfold_locales
  fix x y :: f64
  assume "x \<in> {v. v \<noteq> F_NaN}" "y \<in> {v. v \<noteq> F_NaN}" "total_cmp y x = Greater"
  then show "total_cmp x y \<noteq> Greater" using f64_ge_linear [of x y] total_cmp_desc by auto
qed (auto simp: total_cmp_desc intro: f64_ge_trans)

lemma cold_start_lift_index: "cold_start_lift cs = Some (index, rank) \<Longrightarrow> index < length cs"
  by (auto simp: cold_start_lift_def in_set_enumerate_eq dest!: find_map_SomeD)

lemma apply_cold_start_total: "length scores = length cs \<Longrightarrow> \<exists>out. apply_cold_start_decisions scores cs = Some out \<and> length out = length scores"
  using cold_start_lift_index [of cs] by (auto simp: apply_cold_start_decisions_def Let_def split: option.split)

lemma f64_max_ge: "a \<noteq> F_NaN \<Longrightarrow> b \<noteq> F_NaN \<Longrightarrow> f64_ge (f64_max a b) a \<and> f64_ge (f64_max a b) b"
  using f64_ge_linear [of a b] by (auto simp: f64_max_def)

lemma few_above_rank:
  assumes "list_all (\<lambda>v. v \<noteq> F_NaN) scores" "rank < length scores" "f64_ge v (sort_by (\<lambda>a b. total_cmp b a) scores ! rank)"
  shows "length (filter (\<lambda>s. f64_gt s v) scores) \<le> rank"
proof -
  let ?ranked = "sort_by (\<lambda>a b. total_cmp b a) scores"
  have num: "\<forall>v \<in> set ?ranked. v \<noteq> F_NaN" using assms(1) by (simp add: list_all_iff)
  have "sorted_wrt (\<lambda>a b. total_cmp b a \<noteq> Greater) ?ranked"
    using total_desc.sorted_sort_by [of scores] assms(1) by (auto simp: list_all_iff)
  then have sorted: "sorted_wrt f64_ge ?ranked"
    using num total_cmp_desc by (auto intro: sorted_wrt_mono_rel [rotated])
  have "\<not> f64_gt s v" if s: "s \<in> set (drop rank ?ranked)" for s
  proof -
    obtain i where "i < length ?ranked - rank" "s = ?ranked ! (rank + i)" using s by (auto simp: in_set_conv_nth)
    moreover have "?ranked ! rank \<noteq> F_NaN" using num nth_mem [of rank ?ranked] assms(2) by (metis length_sort_by)
    ultimately have "f64_ge (?ranked ! rank) s"
      using sorted_wrt_nth_less [OF sorted, of rank "rank + i"] by (cases "i = 0") auto
    then show ?thesis using f64_ge_trans [OF assms(3)] by (simp add: f64_gt_iff)
  qed
  then have "filter (\<lambda>s. f64_gt s v) ?ranked = filter (\<lambda>s. f64_gt s v) (take rank ?ranked)"
    by (metis append_Nil2 append_take_drop_id filter_append filter_False)
  moreover have "length (filter (\<lambda>s. f64_gt s v) ?ranked) = length (filter (\<lambda>s. f64_gt s v) scores)"
    by (metis mset_filter mset_sort_by size_mset)
  moreover have "length (filter (\<lambda>s. f64_gt s v) (take rank ?ranked)) \<le> rank" by (metis length_filter_le length_take min.cobounded2 order_trans)
  ultimately show ?thesis by simp
qed

text \<open>What a lift does to a slate: one candidate, to its rank at least.\<close>

definition lifted_to :: "f64 list \<Rightarrow> nat \<Rightarrow> nat \<Rightarrow> f64 list \<Rightarrow> bool" where
  "lifted_to scores index rank out \<longleftrightarrow>
     length out = length scores \<and> (\<forall>i < length scores. i \<noteq> index \<longrightarrow> out ! i = scores ! i) \<and>
     f64_ge (out ! index) (scores ! index) \<and> out ! index \<in> set scores \<and>
     length (filter (\<lambda>s. f64_gt s (out ! index)) scores) \<le> rank"

lemma lifted_to_set: "lifted_to scores index rank out \<Longrightarrow> set out \<subseteq> set scores"
  by (auto simp: lifted_to_def in_set_conv_nth) (metis in_set_conv_nth)

lemma lifted_to_max:
  assumes "list_all (\<lambda>v. v \<noteq> F_NaN) scores" "rank < length scores" "index < length scores"
  shows "lifted_to scores index rank (scores[index := f64_max (scores ! index) (sort_by (\<lambda>a b. total_cmp b a) scores ! rank)])"
proof -
  let ?target = "sort_by (\<lambda>a b. total_cmp b a) scores ! rank"
  have "?target \<in> set scores" using assms(2) nth_mem [of rank "sort_by (\<lambda>a b. total_cmp b a) scores"] by simp
  moreover have "f64_max (scores ! index) ?target \<in> {scores ! index, ?target}" by (simp add: f64_max_def)
  ultimately have "f64_max (scores ! index) ?target \<in> set scores" using assms(3) by auto
  moreover have "scores ! index \<noteq> F_NaN" "?target \<noteq> F_NaN"
    using assms(1,3) \<open>?target \<in> set scores\<close> unfolding list_all_iff by (metis nth_mem)+
  ultimately show ?thesis
    using few_above_rank [OF assms(1,2)] f64_max_ge assms(3) by (simp add: lifted_to_def)
qed

section \<open>The scores of a slate explained\<close>

text \<open>The score of a candidate before the lift and the factors.\<close>

definition base_score :: "value_model_weights \<Rightarrow> candidate_scoring_inputs \<Rightarrow> f64" where
  "base_score w c = add_exploration_bonus (base_weighted w c) (si_author_exploration_bonus c) w"

definition slate_multiplier ::
  "(f64 \<Rightarrow> f64 \<Rightarrow> f64) \<Rightarrow> value_model_weights \<Rightarrow> query_scoring_context \<Rightarrow> candidate_scoring_inputs list \<Rightarrow> f64 list \<Rightarrow> nat \<Rightarrow> post_fusion_multiplier" where
  "slate_multiplier powf w ctx cs scores i =
     \<lparr>pm_author_diversity = (if w_enable_author_diversity w
        then diversity_multiplier powf (w_author_diversity_decay w) (w_author_diversity_floor w)
               (f64_of_int (int (better_of_author (map si_author_id cs) scores i)))
        else f64_one),
      pm_oon = (if oon_applies w (cs ! i) then effective_oon_weight ctx else f64_one)\<rparr>"

lemma post_fusion_multipliers_total:
  "length scores = length cs \<Longrightarrow> \<exists>ms. post_fusion_multipliers powf w ctx cs scores = Some ms \<and> length ms = length cs"
  by (simp add: post_fusion_multipliers_def author_pool_counts_def)

lemma post_fusion_multipliers_explained:
  assumes "length scores = length cs" "list_all (\<lambda>v. v \<noteq> F_NaN) scores"
  shows "post_fusion_multipliers powf w ctx cs scores = Some (map (slate_multiplier powf w ctx cs scores) [0..<length cs])"
  using author_pool_counts_reference [of "map si_author_id cs" scores] assms
  by (auto simp: post_fusion_multipliers_def slate_multiplier_def intro!: nth_equalityI)

lemma compute_value_scores_total:
  "\<exists>vs. compute_value_scores powf w ctx cs = Some vs \<and> length (vs_weighted vs) = length cs \<and> length (vs_scores vs) = length cs \<and>
     vs_weighted vs = map (base_weighted w) cs"
proof (cases "w_multiplier_pre_offset w")
  case True
  obtain ms where ms: "post_fusion_multipliers powf w ctx cs (map (base_weighted w) cs) = Some ms" "length ms = length cs"
    using post_fusion_multipliers_total [of "map (base_weighted w) cs" cs powf w ctx] by auto
  let ?scaled = "map (\<lambda>((v, c), m). pre_offset_scaled w v c m) (zip (zip (map (base_weighted w) cs) cs) ms)"
  obtain out where "apply_cold_start_decisions ?scaled cs = Some out" "length out = length cs"
    using apply_cold_start_total [of ?scaled cs] ms by auto
  with True ms show ?thesis by (simp add: compute_value_scores_def compute_value_scores_with_adjustment_def)
next
  case False
  let ?base = "map (\<lambda>(v, c). add_exploration_bonus v (si_author_exploration_bonus c) w) (zip (map (base_weighted w) cs) cs)"
  obtain out where out: "apply_cold_start_decisions ?base cs = Some out" "length out = length cs"
    using apply_cold_start_total [of ?base cs] by auto
  then obtain ms where "post_fusion_multipliers powf w ctx cs out = Some ms" "length ms = length cs"
    using post_fusion_multipliers_total [of out cs powf w ctx] by auto
  with False out show ?thesis by (simp add: compute_value_scores_def compute_value_scores_with_adjustment_def)
qed

text \<open>
  C4. The scores of a slate, when the factors are applied after the offset (the switch \<open>MultiplierPreOffset\<close> is off) and no base
  score is \<open>NaN\<close>: the computation returns; a lifted candidate has at most as many candidates above it as
  its rank says and no other candidate changes; the final score is the lifted score times
  the factor for outside posts and times a factor whose exponent is the number of candidates of the same
  author that rank before the candidate.
\<close>

theorem value_scores_explained:
  assumes "\<not> w_multiplier_pre_offset w" "list_all (\<lambda>c. base_score w c \<noteq> F_NaN) cs"
  shows "\<exists>lifted. compute_value_scores powf w ctx cs =
      Some \<lparr>vs_weighted = map (base_weighted w) cs,
            vs_scores = map (\<lambda>i. pm_apply (slate_multiplier powf w ctx cs lifted i) (lifted ! i)) [0..<length cs]\<rparr> \<and>
    (case cold_start_lift cs of
       Some (index, rank) \<Rightarrow>
         if rank < length cs then lifted_to (map (base_score w) cs) index rank lifted else lifted = map (base_score w) cs
     | None \<Rightarrow> lifted = map (base_score w) cs)"
proof -
  let ?base = "map (base_score w) cs"
  have num: "list_all (\<lambda>v. v \<noteq> F_NaN) ?base" using assms(2) by (simp add: list_all_iff)
  have base: "map (\<lambda>(v, c). add_exploration_bonus v (si_author_exploration_bonus c) w) (zip (map (base_weighted w) cs) cs) = ?base"
    by (simp add: base_score_def zip_map1 zip_same_conv_map comp_def)
  obtain lifted where lifted: "apply_cold_start_decisions ?base cs = Some lifted" "length lifted = length cs"
    using apply_cold_start_total [of ?base cs] by auto
  have ranks: "case cold_start_lift cs of
       Some (index, rank) \<Rightarrow> if rank < length cs then lifted_to ?base index rank lifted else lifted = ?base
     | None \<Rightarrow> lifted = ?base"
    using lifted(1) lifted_to_max [OF num] cold_start_lift_index [of cs]
    by (fastforce simp: apply_cold_start_decisions_def Let_def split: option.splits if_splits)
  then have "set lifted \<subseteq> set ?base" using lifted_to_set [of ?base _ _ lifted] by (auto split: option.splits if_splits)
  then have "list_all (\<lambda>v. v \<noteq> F_NaN) lifted" using num unfolding list_all_iff by blast
  then have "post_fusion_multipliers powf w ctx cs lifted = Some (map (slate_multiplier powf w ctx cs lifted) [0..<length cs])"
    using post_fusion_multipliers_explained lifted(2) by blast
  then have "compute_value_scores powf w ctx cs =
      Some \<lparr>vs_weighted = map (base_weighted w) cs,
            vs_scores = map (\<lambda>(v, m). pm_apply m v) (zip lifted (map (slate_multiplier powf w ctx cs lifted) [0..<length cs]))\<rparr>"
    using assms(1) lifted(1) by (simp add: compute_value_scores_def compute_value_scores_with_adjustment_def base)
  moreover have "map (\<lambda>(v, m). pm_apply m v) (zip lifted (map (slate_multiplier powf w ctx cs lifted) [0..<length cs])) =
      map (\<lambda>i. pm_apply (slate_multiplier powf w ctx cs lifted i) (lifted ! i)) [0..<length cs]"
    using lifted(2) by (auto intro!: nth_equalityI)
  ultimately show ?thesis using ranks by (intro exI [of _ lifted] conjI) simp_all
qed

definition sample_inputs :: "u64 \<Rightarrow> f64 \<Rightarrow> 32 word option \<Rightarrow> candidate_scoring_inputs" where
  "sample_inputs author weighted lift = \<lparr>si_phoenix_scores = default_phoenix_scores, si_author_id = author, si_in_network = Some True,
     si_is_reply = False, si_is_retweet = False, si_is_mutual_follow_author = False, si_vqv_eligible = False,
     si_quoted_vqv_eligible = False, si_cold_start_lift_to_rank = lift, si_weighted_score = Some weighted,
     si_author_exploration_bonus = f64_zero, si_user_video_continuation_secs = None\<rparr>"

lemma base_score_sample [simp]: "base_score w (sample_inputs a v l) = v"
  by (simp add: base_score_def sample_inputs_def base_weighted_def add_exploration_bonus_def f64_eq_def)

definition sample_slate :: "candidate_scoring_inputs list" where
  "sample_slate = [sample_inputs 7 (F_Fin 3) None, sample_inputs 7 (F_Fin 1) (Some 0)]"

theorem value_scores_explained_witness:
  "\<exists>lifted. compute_value_scores (\<lambda>a b. f64_one) sample_weights \<lparr>effective_oon_weight = f64_one\<rparr> sample_slate =
     Some \<lparr>vs_weighted = map (base_weighted sample_weights) sample_slate,
       vs_scores = map (\<lambda>i. pm_apply (slate_multiplier (\<lambda>a b. f64_one) sample_weights \<lparr>effective_oon_weight = f64_one\<rparr> sample_slate lifted i)
         (lifted ! i)) [0..<length sample_slate]\<rparr> \<and>
     lifted_to [F_Fin 3, F_Fin 1] 1 0 lifted"
proof -
  have "\<not> w_multiplier_pre_offset sample_weights" "list_all (\<lambda>c. base_score sample_weights c \<noteq> F_NaN) sample_slate"
    by (simp_all add: sample_weights_def sample_slate_def)
  moreover have "cold_start_lift sample_slate = Some (1, 0)"
    by (simp add: cold_start_lift_def sample_slate_def sample_inputs_def)
  moreover have "map (base_score sample_weights) sample_slate = [F_Fin 3, F_Fin 1]" "0 < length sample_slate"
    by (simp_all add: sample_slate_def)
  ultimately show ?thesis
    using value_scores_explained [of sample_weights sample_slate "\<lambda>a b. f64_one" "\<lparr>effective_oon_weight = f64_one\<rparr>"] by auto
qed

end
