(* ===== verification/Rank_Request.thy ===== *)
theory Rank_Request
  imports Value_Model
begin

text \<open>
  The request of the ranking service and how the service reads it (\<open>vm-ranker/scoring/value_model.rs\<close>,
  \<open>vm-ranker/ranking_config.rs\<close>, \<open>xai-value-model/proto.rs\<close>). The messages are generated from protocol buffers; the
  records have the fields that the code reads or writes. Feature switches are looked up by the name of
  the parameter (record \<open>fs_params\<close>).
\<close>

section \<open>Messages\<close>

record fs_params =
  fs_f64 :: "string \<Rightarrow> f64"
  fs_bool :: "string \<Rightarrow> bool"
  fs_int :: "string \<Rightarrow> int"
  fs_str :: "string \<Rightarrow> string"

record rank_candidate =
  rc_tweet_id :: u64
  rc_author_id :: u64
  rc_retweeted_tweet_id :: u64
  rc_score :: "f64 option"
  rc_in_network :: bool
  rc_is_retweet :: bool
  rc_is_reply :: bool
  rc_is_mutual_follow_author :: bool
  rc_cold_start_lift_to_rank :: "32 word option"
  rc_min_video_duration_ms :: "i32 option"
  rc_phoenix_scores :: "phoenix_scores option"
  rc_weighted_score :: "f64 option"
  rc_semantic_ids :: "i32 list"
  rc_experiment_payload :: "8 word list"

record viewer_context =
  vc_user_id :: u64
  vc_country_code :: string
  vc_language_code :: string
  vc_client_app_id :: i64
  vc_client_version :: "string option"
  vc_user_roles :: "string list"
  vc_datacenter :: string
  vc_has_phone_number :: bool
  vc_resurrection_time_ms :: "i64 option"
  vc_product :: string
  vc_now_ms :: i64
  vc_fs_overrides :: "(string \<times> string) list"

record dpp_params =
  dp_theta :: f64
  dp_max_selected_rank :: "32 word"
  dp_top_k :: "32 word"

record rank_request =
  rq_viewer_id :: u64
  rq_candidates :: "rank_candidate list"
  rq_value_model_id :: string
  rq_viewer :: "viewer_context option"
  rq_viewer_following_count :: "32 word"
  rq_compute_value_model :: bool
  rq_topic_request :: bool
  rq_include_top_heads :: bool
  rq_dpp_params :: "dpp_params option"
  rq_seed_tweet_id :: u64
  rq_experiment_payload :: "8 word list"

record head_contribution =
  hc_head :: string
  hc_contribution :: f64
  hc_share :: f64

record ranked_candidate =
  rd_tweet_id :: u64
  rd_score :: f64
  rd_weighted_score :: "f64 option"
  rd_top_heads :: "head_contribution list"

section \<open>Reading the request\<close>

text \<open>\<open>CandidateScoringInputs::from_rank_candidate\<close>.\<close>

definition from_rank_candidate :: "rank_candidate \<Rightarrow> i32 \<Rightarrow> candidate_scoring_inputs" where
  "from_rank_candidate c min_video_duration =
     \<lparr>si_phoenix_scores = unwrap_or default_phoenix_scores (rc_phoenix_scores c),
      si_author_id = rc_author_id c,
      si_in_network = Some (rc_in_network c),
      si_is_reply = rc_is_reply c,
      si_is_retweet = rc_is_retweet c,
      si_is_mutual_follow_author = rc_is_mutual_follow_author c,
      si_vqv_eligible = is_some_and (\<lambda>ms. min_video_duration <s ms) (rc_min_video_duration_ms c),
      si_quoted_vqv_eligible = True,
      si_cold_start_lift_to_rank = rc_cold_start_lift_to_rank c,
      si_weighted_score = rc_weighted_score c,
      si_author_exploration_bonus = f64_zero,
      si_user_video_continuation_secs = None\<rparr>"

definition candidate_inputs :: "rank_request \<Rightarrow> value_model_weights \<Rightarrow> candidate_scoring_inputs list" where
  "candidate_inputs req w = map (\<lambda>c. from_rank_candidate c (w_min_video_duration_ms w)) (rq_candidates req)"

text \<open>Functions of the standard library and of \<open>md5\<close> that the weights need, and the clock.\<close>

record ranker_math =
  rm_powf :: "f64 \<Rightarrow> f64 \<Rightarrow> f64"
  rm_exp :: "f64 \<Rightarrow> f64"
  rm_md5 :: "string \<Rightarrow> 8 word list"
  rm_now_ms :: int

definition weights_from_params :: "ranker_math \<Rightarrow> fs_params \<Rightarrow> u64 \<Rightarrow> value_model_weights" where
  "weights_from_params rm p viewer_id =
     perturbed (rm_exp rm) (rm_md5 rm) (fs_f64 p ''WeightPerturbationSigma'') (fs_str p ''WeightPerturbationSalt'') viewer_id
       \<lparr>w_favorite = fs_f64 p ''FavoriteWeight'', w_reply = fs_f64 p ''ReplyWeight'',
        w_retweet = fs_f64 p ''RetweetWeight'', w_photo_expand = fs_f64 p ''PhotoExpandWeight'',
        w_video_open = fs_f64 p ''VideoOpenWeight'', w_click = fs_f64 p ''ClickWeight'',
        w_open_link = fs_f64 p ''OpenLinkWeight'', w_profile_click = fs_f64 p ''ProfileClickWeight'',
        w_vqv = fs_f64 p ''VqvWeight'', w_share = fs_f64 p ''ShareWeight'',
        w_share_via_dm = fs_f64 p ''ShareViaDmWeight'', w_share_via_copy_link = fs_f64 p ''ShareViaCopyLinkWeight'',
        w_dwell = fs_f64 p ''DwellWeight'', w_quote = fs_f64 p ''QuoteWeight'',
        w_quoted_click = fs_f64 p ''QuotedClickWeight'', w_quoted_vqv = fs_f64 p ''QuotedVqvWeight'',
        w_follow_author = fs_f64 p ''FollowAuthorWeight'', w_post_unexplored = fs_f64 p ''PostUnexploredWeight'',
        w_post_unexplored_include_out_of_network = fs_bool p ''PostUnexploredIncludeOutOfNetwork'',
        w_post_video = fs_f64 p ''PostVideoWeight'', w_grok_analyze = fs_f64 p ''GrokAnalyzeWeight'',
        w_not_interested = fs_f64 p ''NotInterestedWeight'', w_block_author = fs_f64 p ''BlockAuthorWeight'',
        w_mute_author = fs_f64 p ''MuteAuthorWeight'', w_report = fs_f64 p ''ReportWeight'',
        w_not_dwelled = fs_f64 p ''NotDwelledWeight'', w_cont_dwell_time = fs_f64 p ''ContDwellTimeWeight'',
        w_cont_click_dwell_time = fs_f64 p ''ContClickDwellTimeWeight'',
        w_video_continuation = fs_f64 p ''VideoContinuationWeight'',
        w_user_video_continuation = fs_f64 p ''UserVideoContinuationWeight'',
        w_profile_visit_secs = fs_f64 p ''ProfileVisitSecsWeight'',
        w_min_video_duration_ms = word_of_int (fs_int p ''MinVideoDurationMs''),
        w_enable_quoted_vqv_duration_check = fs_bool p ''EnableQuotedVqvDurationCheck'',
        w_bidirectional_follow_reply_weight_boost = fs_f64 p ''BidirectionalFollowReplyWeightBoost'',
        w_bidirectional_follow_dwell_weight_boost = fs_f64 p ''BidirectionalFollowDwellWeightBoost'',
        w_enable_author_diversity = fs_bool p ''EnableAuthorDiversity'',
        w_author_diversity_decay = fs_f64 p ''AuthorDiversityDecay'',
        w_author_diversity_floor = fs_f64 p ''AuthorDiversityFloor'',
        w_oon_rescore_in_network_replies_retweets = fs_bool p ''EnableOonRescoreForInNetworkRepliesRetweets'',
        w_multiplier_pre_offset = fs_bool p ''MultiplierPreOffset''\<rparr>"

definition TWEPOCH_MS :: int where "TWEPOCH_MS = 1288834974657"

definition FIRST_SNOWFLAKE_ID :: u64 where "FIRST_SNOWFLAKE_ID = 362387865600000"

definition SNOWFLAKE_TIMESTAMP_SHIFT :: nat where "SNOWFLAKE_TIMESTAMP_SHIFT = 22"

definition snowflake_creation_ms :: "u64 \<Rightarrow> int option" where
  "snowflake_creation_ms i =
     (if FIRST_SNOWFLAKE_ID \<le> i then Some (uint (drop_bit SNOWFLAKE_TIMESTAMP_SHIFT i) + TWEPOCH_MS) else None)"

definition NEW_USER_MIN_FOLLOWING :: "32 word" where "NEW_USER_MIN_FOLLOWING = 5"

definition scoring_context :: "ranker_math \<Rightarrow> rank_request \<Rightarrow> fs_params \<Rightarrow> query_scoring_context" where
  "scoring_context rm req p =
     (if rq_topic_request req then \<lparr>effective_oon_weight = fs_f64 p ''TopicOonWeightFactor''\<rparr>
      else
        let now = (case rq_viewer req of None \<Rightarrow> rm_now_ms rm | Some v \<Rightarrow> sint (vc_now_ms v));
            age_secs = (case snowflake_creation_ms (rq_viewer_id req) of
                None \<Rightarrow> None
              | Some created \<Rightarrow> if 0 \<le> now - created then Some ((now - created) div 1000) else None);
            new_user = is_some_and (\<lambda>age. age < fs_int p ''NewUserAgeThresholdSecs'') age_secs \<and>
                NEW_USER_MIN_FOLLOWING \<le> rq_viewer_following_count req
        in \<lparr>effective_oon_weight = (if new_user then fs_f64 p ''NewUserOonWeightFactor'' else fs_f64 p ''OonWeightFactor'')\<rparr>)"

end
