(* ===== verification/Post_Candidate.thy ===== *)
theory Post_Candidate
  imports Candidate_Pipeline Brand_Safety Rank_Request
begin

text \<open>
  Post candidates and the query of a home timeline request (\<open>home-mixer/models/candidate.rs\<close>,
  \<open>models/query.rs\<close>, \<open>models/user_features.rs\<close>, \<open>util/candidates_util.rs\<close>), with the fields that the
  filters read or write, and the filters that are a predicate on a candidate. What a filter asks of
  other services is in the record \<open>post_env\<close>: the age of an id, the parser of the request context,
  bloom filters, the matcher of muted keywords and the rules on authors.
\<close>

section \<open>Data\<close>

datatype served_type =
    Undefined | FollowingInNetwork | ForYouInNetwork | ForYouPhoenixRetrieval | ForYouPhoenixRetrievalCold
  | ForYouPhoenixRetrievalMoe | ForYouPhoenixRetrievalZeroFav | ForYouPopularPosts | ForYouPopularTopics
  | ForYouPushToHome | ForYouSimclusters | ForYouTweetMixer | RankedFollowing

datatype vf_action = NotEvaluated | Allow | Drop | Interstitial | Downrank | Tombstone | Avoid

record retrieval_source =
  rs_served_type :: served_type
  rs_position :: "32 word option"

datatype safety_result_reason =
    Episodic | AbuseEpisodicEncourageSelfHarm | AbuseEpisodicHatefulConduct | AbuseGlorificationOfViolence
  | AbuseGratuitousGore | AbuseMobHarassment | AbuseMomentOfDeathOrDeceasedUser | AbusePrivateInformation
  | AbuseRightToPrivacy | AbuseThreatToExpose | AbuseViolentSexualConduct | AbuseViolentThreatHatefulConduct
  | AbuseViolentThreatOrBounty | OneOff | VotingMisinformation | HackedMaterials | Scams | PlatformManipulation
  | MisinfoCivic | MisinfoCovid19 | MisinfoGeneric | MisinfoMedical | MisinfoCrisis | DevelopmentOnlyPublicInterest
  | FosnrHatefulConduct | FosnrAbuse | FosnrUnspecified | FosnrViolentSpeech | FosnrCivicIntegrity
  | FosnrSyntheticAndManipulatedMedia | NsfwHighPrecision | GoreAndViolenceHighPrecision

record safety_result =
  sr_reason :: "safety_result_reason option"
  sr_action :: vf_action

datatype filtered_reason =
    ContainNsfwMedia | AuthorBlockViewer | PossiblyUndesirable | UnspecifiedReason | AuthorAccountIsInactive
  | AuthorIsProtected | AuthorIsUnsafe | ReportedTweet | TweetMatchesViewerMutedKeyword string | TweetIsBounced
  | SafetyResult safety_result | AuthorIsDeactivated | AuthorIsSuspended | ViewerMutesAuthor | TweetIsNullcast
  | ExclusiveTweet | ViewerBlocksAuthor

record safety_label_info =
  label_type :: safety_label_type
  label_description :: "string option"
  label_origin :: "string option"

record slate_context =
  sc_k :: "32 word"
  sc_pool_rank :: "32 word"
  sc_pool_rank_gap :: "32 word option"
  sc_fatigue :: f64
  sc_pre_diversity_score :: f64
  sc_sid_known :: bool
  sc_sid_k_l1 :: "32 word"
  sc_sid_k_l2 :: "32 word"
  sc_sid_k_l3 :: "32 word"
  sc_sid_gap_l1 :: "32 word option"
  sc_sid_gap_l2 :: "32 word option"
  sc_sid_gap_l3 :: "32 word option"
  sc_recon_cos_milli :: "32 word option"
  sc_recon_count_above :: "32 word option"
  sc_recon_gap_above :: "32 word option"
  sc_exact_k :: "32 word option"
  sc_exact_gap :: "32 word option"

record post_candidate =
  tweet_id :: u64
  author_id :: u64
  tweet_text :: string
  in_reply_to_tweet_id :: "u64 option"
  retweeted_tweet_id :: "u64 option"
  retweeted_user_id :: "u64 option"
  quoted_tweet_id :: "u64 option"
  quoted_user_id :: "u64 option"
  phoenix_scores_of :: phoenix_scores
  last_scored_at_ms :: "u64 option"
  weighted_score :: "f64 option"
  score :: "f64 option"
  cold_start_lift_to_rank :: "32 word option"
  slate_context_of :: "slate_context option"
  top_heads_of :: "(string \<times> f64 \<times> f64) list"
  served_slate_context :: "slate_context option"
  served_type_of :: "served_type option"
  retrieval_sources :: "retrieval_source list"
  in_network :: "bool option"
  ancestors :: "u64 list"
  tombstone_ancestor_ids :: "u64 list"
  ancestor_users :: "u64 list"
  conversation_id :: "u64 option"
  ancestor_texts :: "(u64 \<times> string) list"
  ancestor_has_video :: "bool option"
  quoted_tweet_text :: "string option"
  min_video_duration_ms :: "i32 option"
  max_video_duration_ms :: "i32 option"
  has_photo :: "bool option"
  has_video_flag :: "bool option"
  media_count :: "i32 option"
  quoted_video_duration_ms :: "i32 option"
  quoted_has_media :: "bool option"
  quoted_has_photo :: "bool option"
  quoted_has_video :: "bool option"
  quoted_media_count :: "i32 option"
  quoted_max_video_duration_ms :: "i32 option"
  author_followers_count :: "i32 option"
  visibility_action :: "vf_action option"
  visibility_reason :: "filtered_reason option"
  drop_ancillary_posts :: "bool option"
  subscription_author_id :: "u64 option"
  tweet_type_metrics :: "8 word list option"
  author_blocks_viewer :: "bool option"
  quoted_author_blocks_viewer :: "bool option"
  filtered_topic_ids :: "i64 list option"
  unfiltered_topic_ids :: "i64 list option"
  has_media :: "bool option"
  fav_count :: "i64 option"
  reply_count :: "i64 option"
  repost_count :: "i64 option"
  quote_count :: "i64 option"
  view_count :: "u64 option"
  view_count_on_home :: "u64 option"
  is_mutual_follow_author :: "bool option"
  brand_safety_verdict_of :: "brand_safety_verdict option"
  nsfw_author :: "bool option"
  nsfw_author_ads :: "bool option"
  soft_nsfw :: "bool option"
  safety_labels :: "safety_label_info list"
  semantic_ids :: "i32 list option"

definition default_candidate :: post_candidate where
  "default_candidate = \<lparr>tweet_id = 0, author_id = 0, tweet_text = [], in_reply_to_tweet_id = None,
     retweeted_tweet_id = None, retweeted_user_id = None, quoted_tweet_id = None, quoted_user_id = None,
     phoenix_scores_of = default_phoenix_scores, last_scored_at_ms = None, weighted_score = None, score = None,
     cold_start_lift_to_rank = None, slate_context_of = None, top_heads_of = [], served_slate_context = None, served_type_of = None, retrieval_sources = [], in_network = None, ancestors = [],
     tombstone_ancestor_ids = [], ancestor_users = [], conversation_id = None, ancestor_texts = [],
     ancestor_has_video = None, quoted_tweet_text = None, min_video_duration_ms = None,
     max_video_duration_ms = None, has_photo = None, has_video_flag = None, media_count = None,
     quoted_video_duration_ms = None, quoted_has_media = None, quoted_has_photo = None, quoted_has_video = None, quoted_media_count = None, quoted_max_video_duration_ms = None, author_followers_count = None, visibility_action = None,
     visibility_reason = None, drop_ancillary_posts = None, subscription_author_id = None,
     tweet_type_metrics = None, author_blocks_viewer = None, quoted_author_blocks_viewer = None,
     filtered_topic_ids = None, unfiltered_topic_ids = None, has_media = None, fav_count = None, reply_count = None,
     repost_count = None, quote_count = None, view_count = None, view_count_on_home = None,
     is_mutual_follow_author = None, brand_safety_verdict_of = None,
     nsfw_author = None, nsfw_author_ads = None, soft_nsfw = None, safety_labels = [], semantic_ids = None\<rparr>"

record user_features =
  follower_count :: "i64 option"
  muted_keywords :: "string list"
  blocked_user_ids :: "i64 list"
  muted_user_ids :: "i64 list"
  followed_user_ids :: "i64 list"
  subscribed_user_ids :: "i64 list"

datatype request_type = ForYou | RankedFollowingRequest | Following | ScoredPosts | PhoenixScores

record bloom_filter_entry =
  size_cap :: i32
  false_positive_rate :: f64
  bloom_bits :: "u64 list"

record home_params =
  EnableSimclustersSource :: bool
  EnableServedFilterAllRequests :: bool
  EnablePhoenixOonReplies :: bool
  PhoenixOonRepliesRootOnly :: bool
  ViewerZeroFavCodivertIsTreatment :: bool
  EnableNewUserSoftNsfwFilter :: bool
  NewUserSoftNsfwFilterMaxAccountAgeSecs :: u64
  NewUserSoftNsfwFilterMaxScoringSeqLength :: u64
  EnableNewUserMinEngagementFilter :: bool
  NewUserMinEngagementFilterMetric :: string
  NewUserMinEngagementFilterUseRatio :: bool
  NewUserMinEngagementThreshold :: f64
  NewUserMinEngagementFilterMaxAccountAgeSecs :: u64
  NewUserMinEngagementFilterMaxResurrectionAgeSecs :: u64
  EnableInventoryHoldout :: bool
  InventoryHoldoutOriginalsPercent :: "32 word"
  InventoryHoldoutRepliesPercent :: "32 word"
  InventoryHoldoutRetweetsPercent :: "32 word"
  EnableFavHoldout :: bool
  EnableFairShareRanking :: bool
  PhoenixScoresResultSize :: "32 word"
  EnableXaiVfClient :: bool
  EnableAdsAuthorBrandSafetyFallback :: bool
  EnableAdsBrandSafetyVerdictV2 :: bool
  scoring_params :: fs_params

text \<open>Of the sequence of user actions only the length in its metadata is read.\<close>

record user_action_sequence = uas_length :: "u64 option"

datatype cursor_type = CursorTop | CursorBottom | CursorGap | CursorOther i32

record urt_ordered_cursor =
  cursor_type_of :: "cursor_type option"
  cursor_id :: "i64 option"
  gap_boundary_id :: "i64 option"

type_synonym columnar_bytes = "8 word list"

record fs_recipient_inputs =
  fi_user_id :: u64
  fi_country_code :: string
  fi_language_code :: string
  fi_client_app_id :: i64
  fi_client_version :: "string option"
  fi_user_roles :: "string list"
  fi_datacenter :: string
  fi_has_phone_number :: bool
  fi_resurrection_time_ms :: "i64 option"
  fi_product :: string
  fi_now_ms :: i64
  fi_fs_overrides :: "(string \<times> string) list"

record scored_posts_query =
  user_id :: u64
  client_app_id :: i32
  country_code :: string
  language_code :: string
  seen_ids :: "u64 list"
  served_ids :: "u64 list"
  in_network_only :: bool
  request_type_of :: request_type
  is_bottom_request :: bool
  bloom_filter_entries :: "bloom_filter_entry list"
  scoring_sequence :: "user_action_sequence option"
  columnar_scoring_sequence :: "columnar_bytes option"
  history_topics :: "columnar_bytes option"
  features :: user_features
  params :: home_params
  decider :: "(string \<Rightarrow> bool) option"
  request_time_ms :: i64
  has_cached_posts :: bool
  topic_ids :: "i64 list"
  excluded_topic_ids :: "i64 list"
  exclude_videos :: bool
  resurrection_time_ms :: "i64 option"
  fs_recipient_inputs_of :: "fs_recipient_inputs option"
  is_under_the_hood_request :: bool
  cursor :: "urt_ordered_cursor option"
  request_context_string :: string
  impressed_post_ids :: "u64 list"

text \<open>A query with every switch off and nothing known of the viewer, for the examples.\<close>

definition sample_params :: home_params where
  "sample_params = \<lparr>EnableSimclustersSource = False, EnableServedFilterAllRequests = False,
     EnablePhoenixOonReplies = False, PhoenixOonRepliesRootOnly = False, ViewerZeroFavCodivertIsTreatment = False,
     EnableNewUserSoftNsfwFilter = False, NewUserSoftNsfwFilterMaxAccountAgeSecs = 0,
     NewUserSoftNsfwFilterMaxScoringSeqLength = 0, EnableNewUserMinEngagementFilter = False,
     NewUserMinEngagementFilterMetric = [], NewUserMinEngagementFilterUseRatio = False,
     NewUserMinEngagementThreshold = F_Fin 0, NewUserMinEngagementFilterMaxAccountAgeSecs = 0,
     NewUserMinEngagementFilterMaxResurrectionAgeSecs = 0, EnableInventoryHoldout = False,
     InventoryHoldoutOriginalsPercent = 0, InventoryHoldoutRepliesPercent = 0, InventoryHoldoutRetweetsPercent = 0,
     EnableFavHoldout = False, EnableFairShareRanking = False, PhoenixScoresResultSize = 0,
     EnableXaiVfClient = False, EnableAdsAuthorBrandSafetyFallback = False, EnableAdsBrandSafetyVerdictV2 = False,
     scoring_params = \<lparr>fs_f64 = (\<lambda>_. F_Fin 0), fs_bool = (\<lambda>_. False), fs_int = (\<lambda>_. 0), fs_str = (\<lambda>_. [])\<rparr>\<rparr>"

definition sample_query :: scored_posts_query where
  "sample_query = \<lparr>user_id = 0, client_app_id = 0, country_code = [], language_code = [], seen_ids = [], served_ids = [], in_network_only = False,
     request_type_of = ForYou, is_bottom_request = False, bloom_filter_entries = [], scoring_sequence = None,
     columnar_scoring_sequence = None, history_topics = None,
     features = \<lparr>follower_count = None, muted_keywords = [], blocked_user_ids = [], muted_user_ids = [], followed_user_ids = [], subscribed_user_ids = []\<rparr>,
     params = sample_params, decider = None, request_time_ms = 0, has_cached_posts = False, topic_ids = [],
     excluded_topic_ids = [], exclude_videos = False, resurrection_time_ms = None,
     fs_recipient_inputs_of = None, is_under_the_hood_request = False, cursor = None,
     request_context_string = [], impressed_post_ids = []\<rparr>"

definition is_topic_request :: "scored_posts_query \<Rightarrow> bool" where
  "is_topic_request q \<longleftrightarrow> topic_ids q \<noteq> []"

definition is_bulk_topic_request :: "scored_posts_query \<Rightarrow> bool" where
  "is_bulk_topic_request q \<longleftrightarrow> 6 < length (topic_ids q)"

definition has_excluded_topics :: "scored_posts_query \<Rightarrow> bool" where
  "has_excluded_topics q \<longleftrightarrow> excluded_topic_ids q \<noteq> []"

definition get_original_tweet_id :: "post_candidate \<Rightarrow> u64" where
  "get_original_tweet_id c = unwrap_or (tweet_id c) (retweeted_tweet_id c)"

definition get_original_author_id :: "post_candidate \<Rightarrow> u64" where
  "get_original_author_id c = unwrap_or (author_id c) (retweeted_user_id c)"

definition semantic_id_prefix :: "post_candidate \<Rightarrow> nat \<Rightarrow> i32 list option" where
  "semantic_id_prefix c levels =
     (case semantic_ids c of
        Some codes \<Rightarrow> if levels \<le> length codes \<and> 0 < levels then Some (take levels codes) else None
      | None \<Rightarrow> None)"

record twitter_context_viewer =
  vw_user_id :: i64
  vw_client_application_id :: i64
  vw_request_country_code :: string
  vw_request_language_code :: string

definition get_viewer :: "scored_posts_query \<Rightarrow> twitter_context_viewer option" where
  "get_viewer q = Some \<lparr>vw_user_id = user_id q, vw_client_application_id = scast (client_app_id q),
     vw_request_country_code = country_code q, vw_request_language_code = language_code q\<rparr>"

definition related_post_ids :: "post_candidate \<Rightarrow> u64 list" where
  "related_post_ids c =
     [tweet_id c] @ (case retweeted_tweet_id c of Some t \<Rightarrow> [t] | None \<Rightarrow> []) @
     (case in_reply_to_tweet_id c of Some t \<Rightarrow> [t] | None \<Rightarrow> [])"

definition MAX_FOLLOWERS_THRESHOLD :: int where "MAX_FOLLOWERS_THRESHOLD = 10000"

definition vqv_eligible :: "scored_posts_query \<Rightarrow> post_candidate \<Rightarrow> i32 \<Rightarrow> bool" where
  "vqv_eligible q c min_duration \<longleftrightarrow>
     \<not> is_some_and (\<lambda>n. MAX_FOLLOWERS_THRESHOLD \<le> sint n) (follower_count (features q)) \<and>
     is_some_and (\<lambda>ms. min_duration <s ms) (min_video_duration_ms c)"

definition quoted_vqv_eligible :: "post_candidate \<Rightarrow> i32 \<Rightarrow> bool \<Rightarrow> bool" where
  "quoted_vqv_eligible c min_duration check \<longleftrightarrow>
     \<not> check \<or> is_some_and (\<lambda>ms. min_duration <s ms) (quoted_video_duration_ms c)"

text \<open>Durations are in nanoseconds.\<close>

type_synonym duration = nat

definition from_secs :: "u64 \<Rightarrow> duration" where
  "from_secs s = unat s * 1000000000"

record post_env =
  duration_since_creation_opt :: "u64 \<Rightarrow> duration option"
  parse_request_context :: "string \<Rightarrow> request_context"
  may_contain :: "bloom_filter_entry \<Rightarrow> u64 \<Rightarrow> bool"
  tokenizer :: "string \<Rightarrow> string list"
  mutes_match :: "string list list \<Rightarrow> string list \<Rightarrow> bool"
  AuthorZeroFavCodivertIsTreatment :: "u64 \<Rightarrow> bool"
  AuthorZeroFavCodivertIsControl :: "u64 \<Rightarrow> bool"

type_synonym post_filter = "(scored_posts_query, post_candidate) filter"

text \<open>A candidate without its retrieval sources, which the removal of duplicates merges.\<close>

definition core :: "post_candidate \<Rightarrow> post_candidate" where
  "core c = c\<lparr>retrieval_sources := []\<rparr>"

section \<open>Filters by a predicate\<close>

locale predicate_filter =
  fixes flt :: post_filter and keep :: "scored_posts_query \<Rightarrow> post_candidate \<Rightarrow> bool"
  assumes filters_by: "fl_filter flt q cs = filter_partition cs (keep q)"
begin

lemma kept_keep: "c \<in> set (kept (fl_filter flt q cs)) \<Longrightarrow> keep q c"
  by (simp add: filters_by)

end

sublocale predicate_filter \<subseteq> conserving_filter "fl_filter flt" core
  by unfold_locales (simp add: filters_by mset_filter_split flip: image_mset_union)

end
