(* ===== verification/Post_Filters.thy ===== *)
theory Post_Filters
  imports Post_Candidate
begin

text \<open>
  The filters of \<open>home-mixer/filters/\<close> that decide on each candidate by itself, one definition per
  file of the source, each a value of the runner's filter type, and the lemma that each is the filter
  by its predicate. The 64-bit sums and products of the engagement filter wrap, as in a release build.
\<close>

section \<open>Definitions\<close>

definition is_within_age :: "post_env \<Rightarrow> duration \<Rightarrow> u64 \<Rightarrow> bool" where
  "is_within_age env max_age t = unwrap_or False (map_option (\<lambda>age. age \<le> max_age) (duration_since_creation_opt env t))"

definition age_filter :: "post_env \<Rightarrow> duration \<Rightarrow> post_filter" where
  "age_filter env max_age = \<lparr>fl_name = ''AgeFilter'', fl_enable = (\<lambda>q. True),
     fl_filter = (\<lambda>q cs. filter_partition cs (\<lambda>c. is_within_age env max_age (tweet_id c)))\<rparr>"

definition ancestor_video_filter :: post_filter where
  "ancestor_video_filter = \<lparr>fl_name = ''AncestorVideoFilter'', fl_enable = exclude_videos,
     fl_filter = (\<lambda>q cs. filter_partition cs (\<lambda>c. ancestor_has_video c \<noteq> Some True))\<rparr>"

definition ancillary_vf_filter :: post_filter where
  "ancillary_vf_filter = \<lparr>fl_name = ''AncillaryVFFilter'', fl_enable = (\<lambda>q. True),
     fl_filter = (\<lambda>q cs. filter_partition cs (\<lambda>c. \<not> unwrap_or False (drop_ancillary_posts c)))\<rparr>"

definition author_allowed :: "user_features \<Rightarrow> post_candidate \<Rightarrow> bool" where
  "author_allowed uf c =
     (let a = author_id c;
          muted = a \<in> set (muted_user_ids uf);
          blocked = a \<in> set (blocked_user_ids uf);
          author_blocks = unwrap_or False (author_blocks_viewer c);
          quoted_author_blocks = unwrap_or False (quoted_author_blocks_viewer c);
          blocks_quoted_author = unwrap_or False (map_option (\<lambda>u. u \<in> set (blocked_user_ids uf)) (quoted_user_id c));
          blocks_retweeted_user = unwrap_or False (map_option (\<lambda>u. u \<in> set (blocked_user_ids uf)) (retweeted_user_id c))
      in \<not> (muted \<or> blocked \<or> author_blocks \<or> quoted_author_blocks \<or> blocks_quoted_author \<or> blocks_retweeted_user))"

definition author_socialgraph_filter :: post_filter where
  "author_socialgraph_filter = \<lparr>fl_name = ''AuthorSocialgraphFilter'', fl_enable = (\<lambda>q. True),
     fl_filter = (\<lambda>q cs. filter_partition cs (author_allowed (features q)))\<rparr>"

definition core_data_hydration_filter :: post_filter where
  "core_data_hydration_filter = \<lparr>fl_name = ''CoreDataHydrationFilter'', fl_enable = (\<lambda>q. True),
     fl_filter = (\<lambda>q cs. filter_partition cs (\<lambda>c. author_id c \<noteq> 0))\<rparr>"

definition candidate_matches :: "post_env \<Rightarrow> string list list \<Rightarrow> post_candidate \<Rightarrow> bool" where
  "candidate_matches env mutes c =
     list_ex (\<lambda>text. mutes_match env mutes (tokenizer env text))
       (List.filter (\<lambda>text. text \<noteq> [])
         ([tweet_text c] @ (case quoted_tweet_text c of Some t \<Rightarrow> [t] | None \<Rightarrow> []) @ map snd (ancestor_texts c)))"

definition following_viewer_muted_keyword_filter :: "post_env \<Rightarrow> post_filter" where
  "following_viewer_muted_keyword_filter env = \<lparr>fl_name = ''FollowingViewerMutedKeywordFilter'', fl_enable = (\<lambda>q. True),
     fl_filter = (\<lambda>q cs.
       if muted_keywords (features q) = [] then \<lparr>kept = cs, removed = []\<rparr>
       else filter_partition cs (\<lambda>c. \<not> candidate_matches env (map (tokenizer env) (muted_keywords (features q))) c))\<rparr>"

definition viewer_muted_keyword_filter :: "post_env \<Rightarrow> post_filter" where
  "viewer_muted_keyword_filter env = \<lparr>fl_name = ''ViewerMutedKeywordFilter'', fl_enable = (\<lambda>q. True),
     fl_filter = (\<lambda>q cs.
       if muted_keywords (features q) = [] then \<lparr>kept = cs, removed = []\<rparr>
       else filter_partition cs (\<lambda>c.
         \<not> mutes_match env (map (tokenizer env) (muted_keywords (features q))) (tokenizer env (tweet_text c))))\<rparr>"

definition ineligible_subscription_filter :: post_filter where
  "ineligible_subscription_filter = \<lparr>fl_name = ''IneligibleSubscriptionFilter'', fl_enable = (\<lambda>q. True),
     fl_filter = (\<lambda>q cs. filter_partition cs (\<lambda>c. case subscription_author_id c of
       Some a \<Rightarrow> a \<in> set (subscribed_user_ids (features q)) | None \<Rightarrow> True))\<rparr>"

definition oon_nsfw_simclusters_filter :: post_filter where
  "oon_nsfw_simclusters_filter = \<lparr>fl_name = ''OONNsfwSimclustersFilter'',
     fl_enable = (\<lambda>q. EnableSimclustersSource (params q)),
     fl_filter = (\<lambda>q cs. filter_partition cs (\<lambda>c. \<not> (served_type_of c = Some ForYouSimclusters \<and>
       in_network c = Some False \<and> nsfw_author c = Some True)))\<rparr>"

definition is_phoenix_home_retrieval :: "post_candidate \<Rightarrow> bool" where
  "is_phoenix_home_retrieval c \<longleftrightarrow>
     served_type_of c = Some ForYouPhoenixRetrieval \<or> served_type_of c = Some ForYouPhoenixRetrievalCold"

definition oon_allowed :: "home_params \<Rightarrow> post_candidate \<Rightarrow> bool" where
  "oon_allowed prm c =
     (let is_rep = in_reply_to_tweet_id c \<noteq> None;
          is_retweet = retweeted_tweet_id c \<noteq> None;
          replies_to_root = (conversation_id c \<noteq> None \<and> in_reply_to_tweet_id c = conversation_id c);
          oon_reply_dropped = (is_rep \<and> \<not> (EnablePhoenixOonReplies prm \<and> is_phoenix_home_retrieval c \<and>
            (\<not> PhoenixOonRepliesRootOnly prm \<or> replies_to_root)))
      in \<not> ((in_network c = Some False \<and> (is_retweet \<or> oon_reply_dropped)) \<or> (is_rep \<and> ancestors c = [])))"

definition oon_retweet_reply_filter :: post_filter where
  "oon_retweet_reply_filter = \<lparr>fl_name = ''OONRetweetReplyFilter'', fl_enable = (\<lambda>q. True),
     fl_filter = (\<lambda>q cs. filter_partition cs (oon_allowed (params q)))\<rparr>"

definition previously_seen_posts_backup_filter :: post_filter where
  "previously_seen_posts_backup_filter = \<lparr>fl_name = ''PreviouslySeenPostsBackupFilter'', fl_enable = (\<lambda>q. True),
     fl_filter = (\<lambda>q cs.
       if impressed_post_ids q = [] then \<lparr>kept = cs, removed = []\<rparr>
       else filter_partition cs (\<lambda>c. \<not> list_ex (\<lambda>i. i \<in> set (impressed_post_ids q)) (related_post_ids c)))\<rparr>"

definition previously_seen_posts_filter :: "post_env \<Rightarrow> post_filter" where
  "previously_seen_posts_filter env = \<lparr>fl_name = ''PreviouslySeenPostsFilter'', fl_enable = (\<lambda>q. True),
     fl_filter = (\<lambda>q cs. filter_partition cs (\<lambda>c. \<not> list_ex (\<lambda>i. i \<in> set (seen_ids q) \<or>
       list_ex (\<lambda>e. may_contain env e i) (bloom_filter_entries q)) (related_post_ids c)))\<rparr>"

definition previously_served_posts_filter :: "post_env \<Rightarrow> post_filter" where
  "previously_served_posts_filter env = \<lparr>fl_name = ''PreviouslyServedPostsFilter'',
     fl_enable = (\<lambda>q. EnableServedFilterAllRequests (params q) \<or>
       (is_bottom_request q \<and> parse_request_context env (request_context_string q) \<noteq> ForegroundTruncate)),
     fl_filter = (\<lambda>q cs. filter_partition cs (\<lambda>c. \<not> list_ex (\<lambda>i. i \<in> set (served_ids q)) (related_post_ids c)))\<rparr>"

definition should_keep_reply :: "post_candidate \<Rightarrow> u64 list \<Rightarrow> bool" where
  "should_keep_reply c allowed_users =
     (if in_reply_to_tweet_id c = None \<or> ancestor_users c = [] \<or> author_id c = 0 then True
      else case List.find (\<lambda>u. u \<noteq> author_id c) (ancestor_users c) of
             Some effective_directed_at \<Rightarrow> effective_directed_at \<in> set allowed_users
           | None \<Rightarrow> True)"

definition self_reply_chain_filter :: post_filter where
  "self_reply_chain_filter = \<lparr>fl_name = ''SelfReplyChainFilter'', fl_enable = (\<lambda>q. True),
     fl_filter = (\<lambda>q cs. filter_partition cs (\<lambda>c.
       should_keep_reply c (user_id q # followed_user_ids (features q))))\<rparr>"

definition self_tweet_filter :: post_filter where
  "self_tweet_filter = \<lparr>fl_name = ''SelfTweetFilter'', fl_enable = (\<lambda>q. True),
     fl_filter = (\<lambda>q cs. filter_partition cs (\<lambda>c. author_id c \<noteq> user_id q))\<rparr>"

fun should_drop_action :: "vf_action \<Rightarrow> bool" where
  "should_drop_action Allow = False"
| "should_drop_action Interstitial = False"
| "should_drop_action Avoid = False"
| "should_drop_action Downrank = False"
| "should_drop_action Drop = True"
| "should_drop_action Tombstone = True"
| "should_drop_action NotEvaluated = True"

definition vf_filter :: post_filter where
  "vf_filter = \<lparr>fl_name = ''VFFilter'', fl_enable = (\<lambda>q. True),
     fl_filter = (\<lambda>q cs. filter_partition cs (\<lambda>c. \<not> is_some_and should_drop_action (visibility_action c)))\<rparr>"

definition has_video :: "post_candidate \<Rightarrow> bool" where
  "has_video c \<longleftrightarrow> min_video_duration_ms c \<noteq> None \<or> quoted_max_video_duration_ms c \<noteq> None"

definition video_filter :: post_filter where
  "video_filter = \<lparr>fl_name = ''VideoFilter'', fl_enable = exclude_videos,
     fl_filter = (\<lambda>q cs. filter_partition cs (\<lambda>c. \<not> has_video c))\<rparr>"

datatype author_bucket = Treatment | Control | Unbucketed

definition author_bucket_of :: "post_env \<Rightarrow> u64 \<Rightarrow> author_bucket" where
  "author_bucket_of env a =
     (case (AuthorZeroFavCodivertIsTreatment env a, AuthorZeroFavCodivertIsControl env a) of
        (True, _) \<Rightarrow> Treatment | (False, True) \<Rightarrow> Control | (False, False) \<Rightarrow> Unbucketed)"

definition is_zero_fav_only :: "post_candidate \<Rightarrow> bool" where
  "is_zero_fav_only c \<longleftrightarrow> served_type_of c = Some ForYouPhoenixRetrievalZeroFav \<and>
     list_all (\<lambda>s. rs_served_type s = ForYouPhoenixRetrievalZeroFav) (retrieval_sources c)"

definition zero_fav_codivert_filter :: "post_env \<Rightarrow> post_filter" where
  "zero_fav_codivert_filter env = \<lparr>fl_name = ''ZeroFavCodivertFilter'',
     fl_enable = (\<lambda>q. ViewerZeroFavCodivertIsTreatment (params q)),
     fl_filter = (\<lambda>q cs. filter_partition cs (\<lambda>c.
       if \<not> is_zero_fav_only c then True else author_bucket_of env (author_id c) = Treatment))\<rparr>"

section \<open>New users\<close>

definition scoring_sequence_length :: "scored_posts_query \<Rightarrow> u64 option" where
  "scoring_sequence_length q = Option.bind (scoring_sequence q) uas_length"

definition below_max_scoring_seq_length :: "scored_posts_query \<Rightarrow> bool" where
  "below_max_scoring_seq_length q =
     (let max_length = NewUserSoftNsfwFilterMaxScoringSeqLength (params q)
      in max_length = 0 \<or> is_none_or (\<lambda>l. l < max_length) (scoring_sequence_length q))"

definition new_user_soft_nsfw_filter_enabled :: "post_env \<Rightarrow> scored_posts_query \<Rightarrow> bool" where
  "new_user_soft_nsfw_filter_enabled env q =
     (let for_you_without_topics = (request_type_of q = ForYou \<and> \<not> is_topic_request q)
      in if \<not> for_you_without_topics \<or> \<not> EnableNewUserSoftNsfwFilter (params q) then False
         else let max_age = from_secs (NewUserSoftNsfwFilterMaxAccountAgeSecs (params q))
              in is_some_and (\<lambda>age. age < max_age) (duration_since_creation_opt env (user_id q)) \<and>
                 below_max_scoring_seq_length q)"

definition is_labeled_soft_nsfw_out_of_network :: "post_candidate \<Rightarrow> bool" where
  "is_labeled_soft_nsfw_out_of_network c \<longleftrightarrow> in_network c = Some False \<and> soft_nsfw c = Some True"

definition new_user_soft_nsfw_filter :: "post_env \<Rightarrow> post_filter" where
  "new_user_soft_nsfw_filter env = \<lparr>fl_name = ''NewUserSoftNsfwFilter'',
     fl_enable = new_user_soft_nsfw_filter_enabled env,
     fl_filter = (\<lambda>q cs. filter_partition cs (\<lambda>c. \<not> is_labeled_soft_nsfw_out_of_network c))\<rparr>"

datatype engagement_metric = Fav | Engagement | View

definition parse_metric :: "string \<Rightarrow> engagement_metric" where
  "parse_metric s = (if s = ''engagement'' then Engagement else if s = ''view'' then View else Fav)"

definition engagement_sum :: "post_candidate \<Rightarrow> i64 option" where
  "engagement_sum c =
     map_option (\<lambda>fav. fav + unwrap_or 0 (reply_count c) + unwrap_or 0 (repost_count c) + unwrap_or 0 (quote_count c))
       (fav_count c)"

definition metric_ratio :: "post_candidate \<Rightarrow> bool \<Rightarrow> i64 option \<Rightarrow> f64 option" where
  "metric_ratio c use_ratio cnt =
     (case cnt of
        None \<Rightarrow> None
      | Some n \<Rightarrow>
          let numerator = f64_of_int (sint n)
          in if use_ratio
             then (case view_count c of
                     None \<Rightarrow> None
                   | Some v \<Rightarrow> if 0 < v then Some (f64_div numerator (f64_of_int (uint v))) else None)
             else Some numerator)"

definition metric_value :: "post_candidate \<Rightarrow> engagement_metric \<Rightarrow> bool \<Rightarrow> f64 option" where
  "metric_value c metric use_ratio =
     (case metric of
        Fav \<Rightarrow> metric_ratio c use_ratio (fav_count c)
      | Engagement \<Rightarrow> metric_ratio c use_ratio (engagement_sum c)
      | View \<Rightarrow> map_option (\<lambda>v. f64_of_int (uint v)) (view_count c))"

definition should_keep_engaged :: "post_candidate \<Rightarrow> engagement_metric \<Rightarrow> bool \<Rightarrow> f64 \<Rightarrow> bool" where
  "should_keep_engaged c metric use_ratio threshold =
     (if in_network c \<noteq> Some False then True
      else case metric_value c metric use_ratio of Some v \<Rightarrow> f64_ge v threshold | None \<Rightarrow> True)"

definition within_account_age :: "post_env \<Rightarrow> scored_posts_query \<Rightarrow> bool" where
  "within_account_age env q =
     unwrap_or False (map_option (\<lambda>age. age < from_secs (NewUserMinEngagementFilterMaxAccountAgeSecs (params q)))
       (duration_since_creation_opt env (user_id q)))"

definition within_resurrection_window :: "scored_posts_query \<Rightarrow> bool" where
  "within_resurrection_window q =
     (case resurrection_time_ms q of
        Some ts_ms \<Rightarrow>
          let age_ms = request_time_ms q - ts_ms
          in 0 \<le> sint age_ms \<and>
             sint age_ms < sint (NewUserMinEngagementFilterMaxResurrectionAgeSecs (params q) * 1000)
      | None \<Rightarrow> False)"

definition new_user_min_engagement_filter :: "post_env \<Rightarrow> post_filter" where
  "new_user_min_engagement_filter env = \<lparr>fl_name = ''NewUserMinEngagementFilter'',
     fl_enable = (\<lambda>q. EnableNewUserMinEngagementFilter (params q) \<and> (within_account_age env q \<or> within_resurrection_window q)),
     fl_filter = (\<lambda>q cs.
       let metric = parse_metric (NewUserMinEngagementFilterMetric (params q));
           use_ratio = NewUserMinEngagementFilterUseRatio (params q)
       in if list_all (\<lambda>c. metric_value c metric use_ratio = None) cs then \<lparr>kept = cs, removed = []\<rparr>
          else filter_partition cs (\<lambda>c.
            should_keep_engaged c metric use_ratio (NewUserMinEngagementThreshold (params q))))\<rparr>"

section \<open>Each is the filter by its predicate\<close>

lemma filter_partition_all: "filter_partition cs (\<lambda>c. True) = \<lparr>kept = cs, removed = []\<rparr>"
  by (simp add: filter_partition_def)

lemma filter_partition_cong:
  "(\<And>c. c \<in> set cs \<Longrightarrow> p c = p' c) \<Longrightarrow> filter_partition cs p = filter_partition cs p'"
  by (simp add: filter_partition_def cong: filter_cong)

definition not_muted :: "post_env \<Rightarrow> scored_posts_query \<Rightarrow> post_candidate \<Rightarrow> bool" where
  "not_muted env q c \<longleftrightarrow> muted_keywords (features q) = [] \<or>
     \<not> mutes_match env (map (tokenizer env) (muted_keywords (features q))) (tokenizer env (tweet_text c))"

definition not_seen :: "post_env \<Rightarrow> scored_posts_query \<Rightarrow> post_candidate \<Rightarrow> bool" where
  "not_seen env q c \<longleftrightarrow> set (related_post_ids c) \<inter> set (seen_ids q) = {} \<and>
     list_all (\<lambda>i. list_all (\<lambda>e. \<not> may_contain env e i) (bloom_filter_entries q)) (related_post_ids c)"

definition engaged_enough :: "scored_posts_query \<Rightarrow> post_candidate \<Rightarrow> bool" where
  "engaged_enough q c = should_keep_engaged c (parse_metric (NewUserMinEngagementFilterMetric (params q)))
     (NewUserMinEngagementFilterUseRatio (params q)) (NewUserMinEngagementThreshold (params q))"

interpretation age: predicate_filter "age_filter env max_age" "\<lambda>q c. is_within_age env max_age (tweet_id c)" for env max_age
  by unfold_locales (simp add: age_filter_def)

interpretation ancestor_video: predicate_filter ancestor_video_filter "\<lambda>q c. ancestor_has_video c \<noteq> Some True"
  by unfold_locales (simp add: ancestor_video_filter_def)

interpretation ancillary_vf: predicate_filter ancillary_vf_filter "\<lambda>q c. drop_ancillary_posts c \<noteq> Some True"
  by unfold_locales (auto simp: ancillary_vf_filter_def unwrap_or_def split: option.splits intro!: filter_partition_cong)

interpretation author_socialgraph: predicate_filter author_socialgraph_filter "\<lambda>q. author_allowed (features q)"
  by unfold_locales (simp add: author_socialgraph_filter_def)

interpretation core_data_hydration: predicate_filter core_data_hydration_filter "\<lambda>q c. author_id c \<noteq> 0"
  by unfold_locales (simp add: core_data_hydration_filter_def)

interpretation following_muted: predicate_filter "following_viewer_muted_keyword_filter env"
    "\<lambda>q c. muted_keywords (features q) = [] \<or>
       \<not> candidate_matches env (map (tokenizer env) (muted_keywords (features q))) c" for env
  by unfold_locales (simp add: following_viewer_muted_keyword_filter_def filter_partition_all)

interpretation viewer_muted: predicate_filter "viewer_muted_keyword_filter env" "not_muted env" for env
  by unfold_locales (simp add: viewer_muted_keyword_filter_def not_muted_def [abs_def] filter_partition_all)

interpretation ineligible_subscription: predicate_filter ineligible_subscription_filter
    "\<lambda>q c. is_none_or (\<lambda>a. a \<in> set (subscribed_user_ids (features q))) (subscription_author_id c)"
  by unfold_locales (simp add: ineligible_subscription_filter_def is_none_or_def)

interpretation oon_nsfw_simclusters: predicate_filter oon_nsfw_simclusters_filter
    "\<lambda>q c. \<not> (served_type_of c = Some ForYouSimclusters \<and> in_network c = Some False \<and> nsfw_author c = Some True)"
  by unfold_locales (simp add: oon_nsfw_simclusters_filter_def)

interpretation oon_retweet_reply: predicate_filter oon_retweet_reply_filter "\<lambda>q. oon_allowed (params q)"
  by unfold_locales (simp add: oon_retweet_reply_filter_def)

interpretation seen_backup: predicate_filter previously_seen_posts_backup_filter
    "\<lambda>q c. set (related_post_ids c) \<inter> set (impressed_post_ids q) = {}"
  by unfold_locales (auto simp: previously_seen_posts_backup_filter_def filter_partition_all list_ex_iff
      intro!: filter_partition_cong)

interpretation seen: predicate_filter "previously_seen_posts_filter env" "not_seen env" for env
  by unfold_locales (auto simp: previously_seen_posts_filter_def not_seen_def list_ex_iff list_all_iff
      intro!: filter_partition_cong)

interpretation served: predicate_filter "previously_served_posts_filter env"
    "\<lambda>q c. set (related_post_ids c) \<inter> set (served_ids q) = {}" for env
  by unfold_locales (auto simp: previously_served_posts_filter_def list_ex_iff intro!: filter_partition_cong)

interpretation self_reply_chain: predicate_filter self_reply_chain_filter
    "\<lambda>q c. should_keep_reply c (user_id q # followed_user_ids (features q))"
  by unfold_locales (simp add: self_reply_chain_filter_def)

interpretation self_tweet: predicate_filter self_tweet_filter "\<lambda>q c. author_id c \<noteq> user_id q"
  by unfold_locales (simp add: self_tweet_filter_def)

interpretation vf: predicate_filter vf_filter
    "\<lambda>q c. visibility_action c \<notin> {Some Drop, Some Tombstone, Some NotEvaluated}"
proof unfold_locales
  fix q cs
  have "(\<not> is_some_and should_drop_action a) = (a \<notin> {Some Drop, Some Tombstone, Some NotEvaluated})" for a
  proof (cases a)
    case (Some x)
    then show ?thesis by (cases x) simp_all
  qed simp
  then show "fl_filter vf_filter q cs =
      filter_partition cs (\<lambda>c. visibility_action c \<notin> {Some Drop, Some Tombstone, Some NotEvaluated})"
    by (simp add: vf_filter_def)
qed

interpretation no_video: predicate_filter video_filter "\<lambda>q c. \<not> has_video c"
  by unfold_locales (simp add: video_filter_def)

interpretation zero_fav: predicate_filter "zero_fav_codivert_filter env"
    "\<lambda>q c. is_zero_fav_only c \<longrightarrow> AuthorZeroFavCodivertIsTreatment env (author_id c)" for env
  by unfold_locales (auto simp: zero_fav_codivert_filter_def author_bucket_of_def intro!: filter_partition_cong
      split: bool.splits)

interpretation soft_nsfw: predicate_filter "new_user_soft_nsfw_filter env"
    "\<lambda>q c. \<not> is_labeled_soft_nsfw_out_of_network c" for env
  by unfold_locales (simp add: new_user_soft_nsfw_filter_def)

text \<open>The early return of the engagement filter changes nothing: without a metric every candidate passes.\<close>

interpretation min_engagement: predicate_filter "new_user_min_engagement_filter env" engaged_enough for env
  by unfold_locales (auto simp: new_user_min_engagement_filter_def engaged_enough_def Let_def list_all_iff
      should_keep_engaged_def simp flip: filter_partition_all intro!: filter_partition_cong)

end
