(* ===== verification/Dedup_Filters.thy ===== *)
theory Dedup_Filters
  imports Post_Candidate "HOL-Library.AList"
begin

text \<open>
  The filters of \<open>home-mixer/filters/\<close> that compare candidates with each other: duplicates and
  reposts, conversations, authors of popular topics, and the cut to the result size. A hash map from
  an id to the index of a kept candidate is an association list.
\<close>

section \<open>Definitions\<close>

record dedup_state =
  kept_index :: "(u64 \<times> nat) list"
  dd_kept :: "post_candidate list"
  dd_removed :: "post_candidate list"

text \<open>
  The loop of the two filters that merge duplicates, which differ in the id they compare.
  \<open>append(&mut v)\<close> leaves \<open>v\<close> empty.
\<close>

definition merge_duplicate :: "(post_candidate \<Rightarrow> u64) \<Rightarrow> post_candidate \<Rightarrow> dedup_state \<Rightarrow> dedup_state" where
  "merge_duplicate key c st =
     (case map_of (kept_index st) (key c) of
        Some idx \<Rightarrow>
          let k = dd_kept st ! idx
          in st\<lparr>dd_kept := (dd_kept st)[idx := k\<lparr>retrieval_sources := retrieval_sources k @ retrieval_sources c\<rparr>],
                dd_removed := dd_removed st @ [c\<lparr>retrieval_sources := []\<rparr>]\<rparr>
      | None \<Rightarrow>
          st\<lparr>kept_index := (key c, length (dd_kept st)) # kept_index st, dd_kept := dd_kept st @ [c]\<rparr>)"

definition merge_duplicates :: "(post_candidate \<Rightarrow> u64) \<Rightarrow> post_candidate list \<Rightarrow> post_candidate filter_result" where
  "merge_duplicates key candidates =
     (let st = fold (merge_duplicate key) candidates \<lparr>kept_index = [], dd_kept = [], dd_removed = []\<rparr>
      in \<lparr>kept = dd_kept st, removed = dd_removed st\<rparr>)"

definition drop_duplicates_filter :: post_filter where
  "drop_duplicates_filter = \<lparr>fl_name = ''DropDuplicatesFilter'', fl_enable = (\<lambda>q. True),
     fl_filter = (\<lambda>q. merge_duplicates tweet_id)\<rparr>"

definition retweet_deduplication_filter :: post_filter where
  "retweet_deduplication_filter = \<lparr>fl_name = ''RetweetDeduplicationFilter'', fl_enable = (\<lambda>q. True),
     fl_filter = (\<lambda>q. merge_duplicates (\<lambda>c. unwrap_or (tweet_id c) (retweeted_tweet_id c)))\<rparr>"

definition get_conversation_id :: "post_candidate \<Rightarrow> u64" where
  "get_conversation_id c = (if ancestors c = [] then get_original_tweet_id c else Min (set (ancestors c)))"

definition candidate_score :: "post_candidate \<Rightarrow> f64" where
  "candidate_score c = unwrap_or (F_Fin 0) (score c)"

record conversation_state =
  best_per_convo :: "(u64 \<times> (nat \<times> f64)) list"
  cv_kept :: "post_candidate list"
  cv_removed :: "post_candidate list"

definition dedup_conversation_step :: "post_candidate \<Rightarrow> conversation_state \<Rightarrow> conversation_state" where
  "dedup_conversation_step c st =
     (let conv = get_conversation_id c; sc = candidate_score c
      in case map_of (best_per_convo st) conv of
           Some (kept_idx, best_score) \<Rightarrow>
             if f64_gt sc best_score
             then st\<lparr>best_per_convo := AList.update conv (kept_idx, sc) (best_per_convo st),
                     cv_kept := (cv_kept st)[kept_idx := c],
                     cv_removed := cv_removed st @ [cv_kept st ! kept_idx]\<rparr>
             else st\<lparr>cv_removed := cv_removed st @ [c]\<rparr>
         | None \<Rightarrow>
             st\<lparr>best_per_convo := AList.update conv (length (cv_kept st), sc) (best_per_convo st),
                cv_kept := cv_kept st @ [c]\<rparr>)"

definition dedup_conversations :: "post_candidate list \<Rightarrow> post_candidate filter_result" where
  "dedup_conversations candidates =
     (let st = fold dedup_conversation_step candidates \<lparr>best_per_convo = [], cv_kept = [], cv_removed = []\<rparr>
      in \<lparr>kept = cv_kept st, removed = cv_removed st\<rparr>)"

definition dedup_conversation_filter :: post_filter where
  "dedup_conversation_filter = \<lparr>fl_name = ''DedupConversationFilter'', fl_enable = (\<lambda>q. True),
     fl_filter = (\<lambda>q. dedup_conversations)\<rparr>"

text \<open>The ids of the reposts that stay: neither the repost nor its source was seen before.\<close>

definition keep_retweet :: "post_candidate \<Rightarrow> u64 list \<times> u64 list \<Rightarrow> u64 list \<times> u64 list" where
  "keep_retweet c st =
     (case retweeted_tweet_id c of
        None \<Rightarrow> st
      | Some source_id \<Rightarrow>
          let (seen_tweet_ids, kept_ids) = st; ids = [tweet_id c, source_id]
          in if list_ex (\<lambda>i. i \<in> set seen_tweet_ids) ids then st
             else (ids @ seen_tweet_ids, tweet_id c # kept_ids))"

definition following_kept_ids :: "post_candidate list \<Rightarrow> u64 list" where
  "following_kept_ids candidates =
     (let (retweets, native_tweets) = partition (\<lambda>c. retweeted_tweet_id c \<noteq> None) candidates;
          native_ids = map tweet_id native_tweets
      in snd (fold keep_retweet retweets (native_ids, native_ids)))"

definition following_retweet_deduplication_filter :: post_filter where
  "following_retweet_deduplication_filter = \<lparr>fl_name = ''FollowingRetweetDeduplicationFilter'', fl_enable = (\<lambda>q. True),
     fl_filter = (\<lambda>q cs. filter_partition cs (\<lambda>c. tweet_id c \<in> set (following_kept_ids cs)))\<rparr>"

definition popular_topics_step ::
  "post_candidate \<Rightarrow> u64 list \<times> post_candidate list \<times> post_candidate list \<Rightarrow>
   u64 list \<times> post_candidate list \<times> post_candidate list" where
  "popular_topics_step c st =
     (let (seen_authors, ks, rs) = st
      in if served_type_of c \<noteq> Some ForYouPopularTopics then (seen_authors, ks @ [c], rs)
         else if author_id c = 0 then (seen_authors, ks @ [c], rs)
         else if author_id c \<notin> set seen_authors then (author_id c # seen_authors, ks @ [c], rs)
         else (seen_authors, ks, rs @ [c]))"

definition popular_topics_author_dedup_filter :: post_filter where
  "popular_topics_author_dedup_filter = \<lparr>fl_name = ''PopularTopicsAuthorDedupFilter'', fl_enable = (\<lambda>q. True),
     fl_filter = (\<lambda>q cs. let (seen_authors, ks, rs) = fold popular_topics_step cs ([], [], [])
                         in \<lparr>kept = ks, removed = rs\<rparr>)\<rparr>"

definition result_size_filter :: post_filter where
  "result_size_filter = \<lparr>fl_name = ''ResultSizeFilter'', fl_enable = (\<lambda>q. True),
     fl_filter = (\<lambda>q cs. let limit = unat (PhoenixScoresResultSize (params q)); n = min limit (length cs)
                         in \<lparr>kept = take n cs, removed = drop n cs\<rparr>)\<rparr>"

section \<open>First occurrences\<close>

fun firsts :: "('a \<Rightarrow> 'k) \<Rightarrow> 'a list \<Rightarrow> 'a list" where
  "firsts key [] = []"
| "firsts key (x # xs) = x # List.filter (\<lambda>y. key y \<noteq> key x) (firsts key xs)"

lemma firsts_snoc:
  "firsts key (xs @ [x]) = firsts key xs @ (if key x \<in> key ` set xs then [] else [x])"
  by (induction xs) auto

lemma keys_firsts [simp]: "key ` set (firsts key xs) = key ` set xs"
  by (induction xs rule: rev_induct) (auto simp: firsts_snoc)

lemma distinct_firsts: "distinct (map key (firsts key xs))"
proof (induction xs rule: rev_induct)
  case (snoc x xs)
  have "key x \<in> key ` set xs \<longleftrightarrow> key x \<in> key ` set (firsts key xs)" by simp
  then show ?case using snoc by (auto simp: firsts_snoc simp del: keys_firsts)
qed simp

lemma set_firsts: "set (firsts key xs) \<subseteq> set xs"
  by (induction xs rule: rev_induct) (auto simp: firsts_snoc)

section \<open>Merging duplicates\<close>

text \<open>Every source of a group of duplicates, in the order of the candidates.\<close>

definition all_sources :: "(post_candidate \<Rightarrow> u64) \<Rightarrow> post_candidate list \<Rightarrow> post_candidate \<Rightarrow> retrieval_source list" where
  "all_sources key cs c = concat (map retrieval_sources (List.filter (\<lambda>d. key d = key c) cs))"

definition merged :: "(post_candidate \<Rightarrow> u64) \<Rightarrow> post_candidate list \<Rightarrow> post_candidate \<Rightarrow> post_candidate" where
  "merged key cs c = c\<lparr>retrieval_sources := all_sources key cs c\<rparr>"

definition merge_inv :: "(post_candidate \<Rightarrow> u64) \<Rightarrow> post_candidate list \<Rightarrow> dedup_state \<Rightarrow> bool" where
  "merge_inv key cs st \<longleftrightarrow>
     dd_kept st = map (merged key cs) (firsts key cs) \<and>
     (\<forall>k. map_of (kept_index st) k = Prelude.position ((=) k) (map key (firsts key cs))) \<and>
     mset (map core (dd_kept st)) + mset (map core (dd_removed st)) = mset (map core cs)"

lemma position_snoc:
  "Prelude.position p (xs @ [x]) =
     (case Prelude.position p xs of Some i \<Rightarrow> Some i | None \<Rightarrow> if p x then Some (length xs) else None)"
  by (induction xs) (simp_all del: position_None split: option.split)

lemma core_merged [simp]: "core (merged key cs c) = core c" "core (c\<lparr>retrieval_sources := rs\<rparr>) = core c"
  by (simp_all add: core_def merged_def)

lemma merged_snoc:
  "merged key (cs @ [c]) d =
     (if key d = key c then (merged key cs d)\<lparr>retrieval_sources := retrieval_sources (merged key cs d) @ retrieval_sources c\<rparr>
      else merged key cs d)"
  by (simp add: merged_def all_sources_def)

lemma map_update_same: "i < length xs \<Longrightarrow> f y = f (xs ! i) \<Longrightarrow> map f (xs[i := y]) = map f xs"
  by (metis length_map list_update_id map_update nth_map)

lemma merge_inv_step:
  assumes inv: "merge_inv key cs st"
  shows "merge_inv key (cs @ [c]) (merge_duplicate key c st)"
proof (cases "map_of (kept_index st) (key c)")
  case None
  then have new: "key c \<notin> key ` set cs"
  proof -
    have "Prelude.position ((=) (key c)) (map key (firsts key cs)) = None"
      using None inv by (simp add: merge_inv_def)
    then have "key c \<notin> set (map key (firsts key cs))" unfolding position_None by blast
    then show ?thesis by simp
  qed
  have "List.filter (\<lambda>d. key d = key c) cs = []"
    unfolding filter_empty_conv using new by (metis image_eqI)
  then have "merged key (cs @ [c]) c = c" by (simp add: merged_def all_sources_def)
  moreover have "merged key (cs @ [c]) d = merged key cs d" if "d \<in> set (firsts key cs)" for d
  proof -
    have "key d \<noteq> key c" using that new set_firsts by (metis image_eqI subsetD)
    then show ?thesis by (simp add: merged_snoc)
  qed
  ultimately have "dd_kept st @ [c] = map (merged key (cs @ [c])) (firsts key (cs @ [c]))"
    using inv new by (simp add: merge_inv_def firsts_snoc)
  moreover have "map_of ((key c, length (dd_kept st)) # kept_index st) k =
      Prelude.position ((=) k) (map key (firsts key (cs @ [c])))" for k
    using inv new None by (auto simp: merge_inv_def firsts_snoc position_snoc simp del: position_None split: option.split)
  moreover have "mset (map core (dd_kept st @ [c])) + mset (map core (dd_removed st)) = mset (map core (cs @ [c]))"
    using inv [unfolded merge_inv_def, THEN conjunct2, THEN conjunct2] by simp
  moreover have "merge_duplicate key c st =
      st\<lparr>kept_index := (key c, length (dd_kept st)) # kept_index st, dd_kept := dd_kept st @ [c]\<rparr>"
    using None by (simp add: merge_duplicate_def)
  ultimately show ?thesis by (simp add: merge_inv_def)
next
  case (Some idx)
  let ?fs = "firsts key cs"
  have old: "dd_kept st = map (merged key cs) ?fs" using inv by (simp add: merge_inv_def)
  have "Prelude.position ((=) (key c)) (map key ?fs) = Some idx" using inv Some by (simp add: merge_inv_def)
  from position_Some [OF this] have idx: "idx < length ?fs" "key (?fs ! idx) = key c" by auto
  then have dup: "key c \<in> key ` set cs" by (metis image_eqI keys_firsts nth_mem)
  have other: "key (?fs ! j) \<noteq> key c" if "j < length ?fs" "j \<noteq> idx" for j
    using distinct_firsts [of key cs] idx that by (metis distinct_conv_nth length_map nth_map)
  define k where "k = dd_kept st ! idx"
  have k: "k = merged key cs (?fs ! idx)" using old idx(1) by (simp add: k_def)
  let ?new = "(dd_kept st)[idx := k\<lparr>retrieval_sources := retrieval_sources k @ retrieval_sources c\<rparr>]"
  have step: "merge_duplicate key c st =
      st\<lparr>dd_kept := ?new, dd_removed := dd_removed st @ [c\<lparr>retrieval_sources := []\<rparr>]\<rparr>"
    using Some by (simp add: merge_duplicate_def Let_def k_def)
  have "?new = map (merged key (cs @ [c])) ?fs"
    using idx other by (intro nth_equalityI) (auto simp: old k nth_list_update merged_snoc)
  moreover have "map core ?new = map core (dd_kept st)"
    using idx(1) by (intro map_update_same) (simp_all add: old k)
  ultimately show ?thesis
    using inv [unfolded merge_inv_def, THEN conjunct2] dup
    unfolding merge_inv_def step by (simp add: firsts_snoc)
qed

lemma merge_duplicates_inv:
  "merge_inv key cs (fold (merge_duplicate key) cs \<lparr>kept_index = [], dd_kept = [], dd_removed = []\<rparr>)"
proof (induction cs rule: rev_induct)
  case (snoc c cs)
  then show ?case using merge_inv_step by simp
qed (simp add: merge_inv_def)

lemma merge_duplicates_kept: "kept (merge_duplicates key cs) = map (merged key cs) (firsts key cs)"
  using merge_duplicates_inv [of key cs] by (simp add: merge_duplicates_def Let_def merge_inv_def)

lemma merge_duplicates_conserves:
  "mset (map core (kept (merge_duplicates key cs))) +
     mset (map core (removed (merge_duplicates key cs))) = mset (map core cs)"
  using merge_duplicates_inv [of key cs, unfolded merge_inv_def, THEN conjunct2, THEN conjunct2]
  by (simp only: merge_duplicates_def Let_def filter_result.simps)

interpretation drop_duplicates: conserving_filter "fl_filter drop_duplicates_filter" core
  by unfold_locales (simp add: drop_duplicates_filter_def merge_duplicates_conserves del: mset_map)

interpretation retweet_deduplication: conserving_filter "fl_filter retweet_deduplication_filter" core
  by unfold_locales (simp add: retweet_deduplication_filter_def merge_duplicates_conserves del: mset_map)

text \<open>
  The loop with its map of indices removes the duplicates of a list exactly as the reference
  does: of the candidates with one id the first stays, at its place, with the retrieval sources of
  all of them in the order of the list; nothing but retrieval sources is lost or changed.
\<close>

lemma drop_duplicates_reference:
  "kept (fl_filter drop_duplicates_filter q cs) = map (merged tweet_id cs) (firsts tweet_id cs) \<and>
   distinct (map tweet_id (kept (fl_filter drop_duplicates_filter q cs))) \<and>
   tweet_id ` set (kept (fl_filter drop_duplicates_filter q cs)) = tweet_id ` set cs \<and>
   mset (map core (kept (fl_filter drop_duplicates_filter q cs))) +
     mset (map core (removed (fl_filter drop_duplicates_filter q cs))) = mset (map core cs)"
proof -
  have k: "kept (fl_filter drop_duplicates_filter q cs) = map (merged tweet_id cs) (firsts tweet_id cs)"
    by (simp add: drop_duplicates_filter_def merge_duplicates_kept)
  have ids: "tweet_id \<circ> merged tweet_id cs = tweet_id" by (simp add: fun_eq_iff merged_def)
  then have "map tweet_id (kept (fl_filter drop_duplicates_filter q cs)) = map tweet_id (firsts tweet_id cs)"
    by (simp add: k)
  moreover have "tweet_id ` set (kept (fl_filter drop_duplicates_filter q cs)) = tweet_id ` set cs"
    by (simp add: k image_image merged_def)
  ultimately show ?thesis using k distinct_firsts drop_duplicates.conserves by metis
qed

section \<open>Conversations\<close>

text \<open>
  The invariant: the kept candidates are one per conversation, in the order in which the conversations
  appear, none is beaten by a candidate of its conversation, and the map holds the place and the score of each.
\<close>

definition conversation_inv :: "post_candidate list \<Rightarrow> conversation_state \<Rightarrow> bool" where
  "conversation_inv cs st \<longleftrightarrow>
     map get_conversation_id (cv_kept st) = map get_conversation_id (firsts get_conversation_id cs) \<and>
     (\<forall>v. map_of (best_per_convo st) v =
        map_option (\<lambda>i. (i, candidate_score (cv_kept st ! i)))
          (Prelude.position ((=) v) (map get_conversation_id (cv_kept st)))) \<and>
     (\<forall>k \<in> set (cv_kept st). \<forall>c \<in> set cs.
        get_conversation_id c = get_conversation_id k \<longrightarrow> \<not> f64_gt (candidate_score c) (candidate_score k)) \<and>
     mset (cv_kept st) + mset (cv_removed st) = mset cs"

lemma f64_gt_trans: "f64_gt a b \<Longrightarrow> f64_gt b c \<Longrightarrow> f64_gt a c"
  by (cases a; cases b; cases c) (auto simp: f64_gt_def split: if_splits)

lemma f64_gt_irrefl [simp]: "\<not> f64_gt a a"
  by (cases a) (auto simp: f64_gt_def)

lemma conversation_inv_new:
  assumes inv: "conversation_inv cs st" and "map_of (best_per_convo st) (get_conversation_id c) = None"
  shows "conversation_inv (cs @ [c]) (dedup_conversation_step c st)"
proof -
  note fs = inv [unfolded conversation_inv_def, THEN conjunct1]
    and best = inv [unfolded conversation_inv_def, THEN conjunct2, THEN conjunct1, rule_format]
    and beat = inv [unfolded conversation_inv_def, THEN conjunct2, THEN conjunct2, THEN conjunct1, rule_format]
  have "Prelude.position ((=) (get_conversation_id c)) (map get_conversation_id (cv_kept st)) = None"
    using best [of "get_conversation_id c"] assms(2) by (simp del: position_None)
  then have fresh: "get_conversation_id c \<notin> set (map get_conversation_id (cv_kept st))"
    unfolding position_None by blast
  then have new: "get_conversation_id c \<notin> get_conversation_id ` set cs"
    unfolding fs set_map keys_firsts .
  let ?ks = "cv_kept st @ [c]"
  define st' where "st' = st\<lparr>best_per_convo := AList.update (get_conversation_id c)
      (length (cv_kept st), candidate_score c) (best_per_convo st), cv_kept := ?ks\<rparr>"
  have st': "dedup_conversation_step c st = st'"
    using assms(2) by (simp add: dedup_conversation_step_def Let_def st'_def)
  have "map_of (best_per_convo st') v = map_option (\<lambda>i. (i, candidate_score (?ks ! i)))
        (Prelude.position ((=) v) (map get_conversation_id ?ks))" for v
  proof (cases "Prelude.position ((=) v) (map get_conversation_id (cv_kept st))")
    case None
    then have "map_of (best_per_convo st) v = None" using best [of v] by (simp del: position_None)
    with None show ?thesis by (simp add: st'_def update_conv' position_snoc del: position_None)
  next
    case (Some i)
    then have "map_of (best_per_convo st) v = Some (i, candidate_score (cv_kept st ! i))" "i < length (cv_kept st)"
        "v \<noteq> get_conversation_id c"
      using best [of v] Some position_Some [OF Some] assms(2) by auto
    with Some show ?thesis by (simp add: st'_def update_conv' position_snoc nth_append)
  qed
  moreover have "\<not> f64_gt (candidate_score d) (candidate_score k)"
    if kd: "k \<in> set ?ks" "d \<in> set (cs @ [c])" "get_conversation_id d = get_conversation_id k" for k d
  proof -
    consider "k = c" "d = c" | "k = c" "d \<in> set cs" | "k \<in> set (cv_kept st)" "d = c" | "k \<in> set (cv_kept st)" "d \<in> set cs"
      using kd(1,2) by auto
    then show ?thesis
    proof cases
      case 2
      then show ?thesis using new kd(3) by (metis image_eqI)
    next
      case 3
      then show ?thesis using fresh kd(3) by (metis image_eqI set_map)
    qed (use beat kd(3) in auto)
  qed
  moreover have "mset ?ks + mset (cv_removed st) = mset (cs @ [c])"
    using inv [unfolded conversation_inv_def, THEN conjunct2, THEN conjunct2, THEN conjunct2] by simp
  ultimately show ?thesis
    using fs new unfolding st' conversation_inv_def by (simp add: firsts_snoc st'_def)
qed

lemma conversation_inv_known:
  assumes inv: "conversation_inv cs st" and "map_of (best_per_convo st) (get_conversation_id c) = Some (i, b)"
  shows "conversation_inv (cs @ [c]) (dedup_conversation_step c st)"
proof -
  let ?ks = "cv_kept st"
  have fs: "map get_conversation_id ?ks = map get_conversation_id (firsts get_conversation_id cs)"
    and best: "\<And>v. map_of (best_per_convo st) v = map_option (\<lambda>i. (i, candidate_score (?ks ! i)))
      (Prelude.position ((=) v) (map get_conversation_id ?ks))"
    and beat: "\<And>k d. k \<in> set ?ks \<Longrightarrow> d \<in> set cs \<Longrightarrow> get_conversation_id d = get_conversation_id k \<Longrightarrow>
      \<not> f64_gt (candidate_score d) (candidate_score k)"
    and books: "mset ?ks + mset (cv_removed st) = mset cs"
    using inv by (auto simp: conversation_inv_def)
  have pos: "Prelude.position ((=) (get_conversation_id c)) (map get_conversation_id ?ks) = Some i"
    and b: "b = candidate_score (?ks ! i)"
  proof -
    have "map_option (\<lambda>i. (i, candidate_score (?ks ! i)))
        (Prelude.position ((=) (get_conversation_id c)) (map get_conversation_id ?ks)) = Some (i, b)"
      using best [of "get_conversation_id c"] assms(2) by simp
    then show "Prelude.position ((=) (get_conversation_id c)) (map get_conversation_id ?ks) = Some i"
      "b = candidate_score (?ks ! i)" by (auto simp: map_option_eq_Some)
  qed
  from position_Some [OF pos] have i: "i < length ?ks" "get_conversation_id (?ks ! i) = get_conversation_id c" by auto
  have "get_conversation_id c \<in> set (map get_conversation_id ?ks)" using i by (metis length_map nth_map nth_mem)
  then have old: "get_conversation_id c \<in> get_conversation_id ` set cs"
    unfolding fs using keys_firsts [of get_conversation_id cs] by (metis image_set)
  have dist: "distinct (map get_conversation_id ?ks)" unfolding fs by (rule distinct_firsts)
  have only: "k = ?ks ! i" if "k \<in> set ?ks" "get_conversation_id k = get_conversation_id c" for k
    using dist that i by (metis distinct_conv_nth in_set_conv_nth length_map nth_map)
  show ?thesis
  proof (cases "f64_gt (candidate_score c) b")
    case False
    have "dedup_conversation_step c st = st\<lparr>cv_removed := cv_removed st @ [c]\<rparr>"
      using assms(2) False by (simp add: dedup_conversation_step_def Let_def)
    moreover have "\<not> f64_gt (candidate_score d) (candidate_score k)"
      if "k \<in> set ?ks" "d \<in> set (cs @ [c])" "get_conversation_id d = get_conversation_id k" for k d
      using beat that only False b by auto
    ultimately show ?thesis using fs best books old by (simp add: conversation_inv_def firsts_snoc)
  next
    case True
    let ?new = "?ks[i := c]"
    have step: "dedup_conversation_step c st =
        st\<lparr>best_per_convo := AList.update (get_conversation_id c) (i, candidate_score c) (best_per_convo st),
           cv_kept := ?new, cv_removed := cv_removed st @ [?ks ! i]\<rparr>"
      using assms(2) True by (simp add: dedup_conversation_step_def Let_def)
    have ids: "map get_conversation_id ?new = map get_conversation_id ?ks" using i by (intro map_update_same) auto
    have "map_of (AList.update (get_conversation_id c) (i, candidate_score c) (best_per_convo st)) v =
        map_option (\<lambda>j. (j, candidate_score (?new ! j))) (Prelude.position ((=) v) (map get_conversation_id ?new))" for v
    proof (cases "v = get_conversation_id c")
      case True
      then show ?thesis using pos i by (simp add: ids update_conv')
    next
      case other: False
      have "candidate_score (?new ! j) = candidate_score (?ks ! j)"
        if "Prelude.position ((=) v) (map get_conversation_id ?ks) = Some j" for j
        using position_Some [OF that] other i by (cases "i = j") auto
      then show ?thesis
        using best [of v] other by (cases "Prelude.position ((=) v) (map get_conversation_id ?ks)")
          (simp_all add: ids update_conv' del: position_None)
    qed
    moreover have "\<not> f64_gt (candidate_score d) (candidate_score k)"
      if kd: "k \<in> set ?new" "d \<in> set (cs @ [c])" "get_conversation_id d = get_conversation_id k" for k d
    proof (cases "get_conversation_id k = get_conversation_id c")
      case same: True
      obtain j where j: "j < length ?ks" "k = ?new ! j" using kd(1) by (auto simp: in_set_conv_nth)
      have "j = i"
      proof (rule ccontr)
        assume "j \<noteq> i"
        with j same have "k = ?ks ! j" "get_conversation_id (?ks ! j) = get_conversation_id (?ks ! i)" using i by auto
        then show False using \<open>j \<noteq> i\<close> nth_eq_iff_index_eq [OF dist, of j i] j(1) i(1) by simp
      qed
      then have "k = c" using j by simp
      moreover have "\<not> f64_gt (candidate_score d) (candidate_score c)"
      proof (cases "d = c")
        case False
        then have "\<not> f64_gt (candidate_score d) b"
          using beat [OF nth_mem [OF i(1)], of d] kd same i(2) b by simp
        then show ?thesis using f64_gt_trans [OF _ True] by blast
      qed simp
      ultimately show ?thesis by simp
    next
      case other: False
      then have "k \<in> set ?ks" using kd(1) set_update_subset_insert [of ?ks i c] by auto
      then show ?thesis using beat kd other by auto
    qed
    moreover have "mset ?new + mset (cv_removed st @ [?ks ! i]) = mset (cs @ [c])"
      using i(1) books [symmetric] by (simp add: mset_update)
    ultimately show ?thesis
      using fs old ids unfolding step by (simp add: conversation_inv_def firsts_snoc)
  qed
qed

lemma conversation_inv_fold:
  "conversation_inv cs (fold dedup_conversation_step cs \<lparr>best_per_convo = [], cv_kept = [], cv_removed = []\<rparr>)"
proof (induction cs rule: rev_induct)
  case (snoc c cs)
  let ?st = "fold dedup_conversation_step cs \<lparr>best_per_convo = [], cv_kept = [], cv_removed = []\<rparr>"
  have "conversation_inv (cs @ [c]) (dedup_conversation_step c ?st)"
    by (cases "map_of (best_per_convo ?st) (get_conversation_id c)")
      (auto intro: conversation_inv_new [OF snoc] conversation_inv_known [OF snoc])
  then show ?case by simp
qed (simp add: conversation_inv_def)

interpretation dedup_conversation: conserving_filter "\<lambda>q. fl_filter dedup_conversation_filter q" id
  using conversation_inv_fold
  by unfold_locales (simp add: dedup_conversation_filter_def dedup_conversations_def Let_def conversation_inv_def)

text \<open>
  After the filter every conversation of the candidates has one candidate, in the order in which
  the conversations first appear; it is one of those given and none of its conversation scores higher
  (a score that is not a number beats nothing); every other candidate is reported as removed.
\<close>

lemma dedup_conversation_best:
  "distinct (map get_conversation_id (kept (fl_filter dedup_conversation_filter q cs))) \<and>
   map get_conversation_id (kept (fl_filter dedup_conversation_filter q cs)) =
     map get_conversation_id (firsts get_conversation_id cs) \<and>
   list_all (\<lambda>k. list_all (\<lambda>c. \<not> f64_gt (candidate_score c) (candidate_score k))
       (List.filter (\<lambda>c. get_conversation_id c = get_conversation_id k) cs))
     (kept (fl_filter dedup_conversation_filter q cs)) \<and>
   mset (kept (fl_filter dedup_conversation_filter q cs)) +
     mset (removed (fl_filter dedup_conversation_filter q cs)) = mset cs"
  using conversation_inv_fold [of cs] distinct_firsts [of get_conversation_id cs]
  by (auto simp: dedup_conversation_filter_def dedup_conversations_def Let_def conversation_inv_def list_all_iff)

section \<open>The other filters keep what they do not remove\<close>

interpretation dedup_conversation_core: conserving_filter "fl_filter dedup_conversation_filter" core
proof unfold_locales
  fix q cs
  show "mset (map core (kept (fl_filter dedup_conversation_filter q cs))) +
      mset (map core (removed (fl_filter dedup_conversation_filter q cs))) = mset (map core cs)"
    using dedup_conversation.conserves [of q cs] by (simp flip: image_mset_union)
qed

interpretation following_retweet: conserving_filter "fl_filter following_retweet_deduplication_filter" core
  by unfold_locales (simp add: following_retweet_deduplication_filter_def mset_filter_split flip: image_mset_union)

lemma popular_topics_books:
  "mset (fst (snd (fold popular_topics_step cs st))) + mset (snd (snd (fold popular_topics_step cs st))) =
   mset (fst (snd st)) + mset (snd (snd st)) + mset cs"
  by (induction cs arbitrary: st) (auto simp: popular_topics_step_def Let_def split: prod.splits)

interpretation popular_topics: conserving_filter "fl_filter popular_topics_author_dedup_filter" core
proof unfold_locales
  fix q cs
  show "mset (map core (kept (fl_filter popular_topics_author_dedup_filter q cs))) +
      mset (map core (removed (fl_filter popular_topics_author_dedup_filter q cs))) = mset (map core cs)"
    using popular_topics_books [of cs "([], [], [])"]
    by (simp add: popular_topics_author_dedup_filter_def Let_def case_prod_unfold flip: image_mset_union)
qed

interpretation result_size: conserving_filter "fl_filter result_size_filter" core
  by unfold_locales (simp add: result_size_filter_def Let_def mset_take_drop flip: image_mset_union)

end
