(* ===== verification/Fair_Share.thy ===== *)
theory Fair_Share
  imports Dedup_Filters
begin

text \<open>
  The fair-share filter (\<open>home-mixer/filters/fair_share_ranking_filter.rs\<close>): when more candidates
  are retrieved than can be scored, the budget is divided among their served types in proportion to
  their numbers, by the method of the largest remainder.
\<close>

section \<open>Definitions\<close>

definition PHOENIX_RANKER_KILL_SWITCH_DECIDER :: string where
  "PHOENIX_RANKER_KILL_SWITCH_DECIDER = ''disable_home_mixer_phoenix_ranker''"

definition fair_served_type :: "post_candidate \<Rightarrow> served_type option" where
  "fair_served_type c = or_else (served_type_of c)
     (case retrieval_sources c of [] \<Rightarrow> None | s # ss \<Rightarrow> Some (rs_served_type s))"

definition group_step :: "post_candidate list \<Rightarrow> nat \<Rightarrow> served_type option list \<times> nat list list \<Rightarrow>
    served_type option list \<times> nat list list" where
  "group_step candidates index st =
     (let (keys, groups) = st; key = fair_served_type (candidates ! index)
      in case Prelude.position (\<lambda>seen. seen = key) keys of
           Some g \<Rightarrow> (keys, groups[g := groups ! g @ [index]])
         | None \<Rightarrow> (keys @ [key], groups @ [[index]]))"

definition group_by_served_type :: "post_candidate list \<Rightarrow> nat list list" where
  "group_by_served_type candidates = snd (fold (group_step candidates) [0..<length candidates] ([], []))"

fun give_leftover :: "nat list \<Rightarrow> (nat \<times> nat) list \<Rightarrow> nat \<Rightarrow> nat list \<Rightarrow> nat list" where
  "give_leftover counts [] leftover alloc = alloc"
| "give_leftover counts ((r, index) # remainders) leftover alloc =
     (if leftover = 0 then alloc
      else if alloc ! index < counts ! index
        then give_leftover counts remainders (leftover - 1) (alloc[index := alloc ! index + 1])
      else give_leftover counts remainders leftover alloc)"

definition remainder_order :: "nat \<times> nat \<Rightarrow> nat \<times> nat \<Rightarrow> ordering" where
  "remainder_order left right =
     (if fst right < fst left then Less else if fst left < fst right then Greater
      else if snd left < snd right then Less else if snd left = snd right then Equal else Greater)"

definition fair_share_counts :: "nat list \<Rightarrow> nat \<Rightarrow> nat list" where
  "fair_share_counts counts budget =
     (let total = sum_list counts
      in if total = 0 \<or> total \<le> budget then counts
         else let alloc = map (\<lambda>c. c * budget div total) counts;
                  remainders = map (\<lambda>(index, c). (c * budget mod total, index)) (enumerate 0 counts)
              in give_leftover counts (sort_by remainder_order remainders) (budget - sum_list alloc) alloc)"

definition mark_selected :: "nat list \<times> nat \<Rightarrow> bool list \<Rightarrow> bool list" where
  "mark_selected gc sels = fold (\<lambda>index sel. sel[index := True]) (take (snd gc) (fst gc)) sels"

definition selection_mask :: "post_candidate list \<Rightarrow> nat \<Rightarrow> bool list" where
  "selection_mask candidates budget =
     (let groups = group_by_served_type candidates;
          demands = map length groups;
          keep = fair_share_counts demands budget
      in fold mark_selected (zip groups keep) (replicate (length candidates) False))"

definition fair_share_ranking_filter :: post_filter where
  "fair_share_ranking_filter = \<lparr>fl_name = ''FairShareRankingFilter'',
     fl_enable = (\<lambda>q. if \<not> EnableFairShareRanking (params q) \<or> has_cached_posts q \<or> scoring_sequence q = None then False
       else \<not> is_some_and (\<lambda>d. d PHOENIX_RANKER_KILL_SWITCH_DECIDER) (decider q)),
     fl_filter = (\<lambda>q cs.
       let budget = unat (PhoenixScoresResultSize (params q));
           marked = zip cs (selection_mask cs budget)
       in \<lparr>kept = map fst (List.filter snd marked), removed = map fst (List.filter (\<lambda>m. \<not> snd m) marked)\<rparr>)\<rparr>"

section \<open>The division of the budget\<close>

lemma length_give_leftover [simp]: "length (give_leftover counts rs left alloc) = length alloc"
  by (induction counts rs left alloc rule: give_leftover.induct) auto

lemma sum_list_update_Suc: "i < length xs \<Longrightarrow> sum_list (xs[i := Suc (xs ! i)]) = Suc (sum_list xs)"
  by (simp add: sum_list_update)

text \<open>Every index is visited once, so a share grows by one at most and the leftover is given away
  as long as some demand is not met.\<close>

lemma give_leftover_bounds:
  assumes "distinct (map snd rs)" "j < length alloc"
  shows "alloc ! j \<le> give_leftover counts rs left alloc ! j \<and>
     give_leftover counts rs left alloc ! j \<le> (if j \<in> snd ` set rs \<and> alloc ! j < counts ! j then Suc (alloc ! j) else alloc ! j)"
  using assms
proof (induction counts rs left alloc rule: give_leftover.induct)
  case (2 counts r i rs left alloc)
  show ?case
  proof (cases "left = 0 \<or> \<not> alloc ! i < counts ! i")
    case True
    then show ?thesis using 2 by (auto split: if_splits)
  next
    case False
    then have "give_leftover counts ((r, i) # rs) left alloc = give_leftover counts rs (left - 1) (alloc[i := alloc ! i + 1])"
      by simp
    then show ?thesis
      using "2.IH"(1) "2.prems" False by (cases "i = j") (auto simp: nth_list_update split: if_splits)
  qed
qed simp

lemma give_leftover_sum:
  assumes "distinct (map snd rs)" "\<forall>i \<in> snd ` set rs. i < length alloc"
  shows "sum_list (give_leftover counts rs left alloc) =
    sum_list alloc + min left (length (List.filter (\<lambda>i. alloc ! i < counts ! i) (map snd rs)))"
  using assms
proof (induction counts rs left alloc rule: give_leftover.induct)
  case (2 counts r i rs left alloc)
  have i: "i < length alloc" "i \<notin> snd ` set rs" using "2.prems" by auto
  show ?case
  proof (cases "left = 0 \<or> \<not> alloc ! i < counts ! i")
    case True
    then show ?thesis using 2 by auto
  next
    case False
    have "List.filter (\<lambda>j. alloc[i := Suc (alloc ! i)] ! j < counts ! j) (map snd rs) =
        List.filter (\<lambda>j. alloc ! j < counts ! j) (map snd rs)"
      using i(2) by (intro filter_cong refl) (metis image_set nth_list_update_neq)
    then show ?thesis
      using "2.IH"(1) "2.prems" False i by (cases left) (simp_all add: sum_list_update_Suc)
  qed
qed simp

section \<open>The shares\<close>

text \<open>The share of a demand that the division by the total gives at least.\<close>

definition quota :: "nat list \<Rightarrow> nat \<Rightarrow> nat \<Rightarrow> nat" where
  "quota counts budget c = c * min budget (sum_list counts) div sum_list counts"

lemma length_fair_share [simp]: "length (fair_share_counts counts budget) = length counts"
  by (simp add: fair_share_counts_def Let_def)

lemma remainders_of_all:
  "mset (map snd (sort_by remainder_order (map (\<lambda>(index, c). (f c, index)) (enumerate 0 counts)))) = mset [0..<length counts]"
proof -
  have "map snd (map (\<lambda>(index, c). (f c, index)) (enumerate 0 counts)) = map fst (enumerate 0 counts)"
    by (induction counts) (simp_all add: case_prod_unfold comp_def)
  then show ?thesis
    using mset_map [of snd "sort_by remainder_order (map (\<lambda>(index, c). (f c, index)) (enumerate 0 counts))"]
      mset_map [of snd "map (\<lambda>(index, c). (f c, index)) (enumerate 0 counts)"] by (simp only: mset_sort_by map_fst_enumerate) simp
qed

lemma sum_div_mod:
  "sum_list (map (\<lambda>c. c * b div t) cs) * t + sum_list (map (\<lambda>c. c * b mod t) cs) = sum_list cs * (b::nat)"
  by (induction cs) (simp_all add: algebra_simps)

lemma sum_mod_le:
  assumes "0 < (t::nat)"
  shows "sum_list (map (\<lambda>c. c * b mod t) cs) \<le> t * length (List.filter (\<lambda>c. 0 < c) cs)"
proof (induction cs)
  case (Cons c cs)
  have "c * b mod t \<le> (if 0 < c then t else 0)" using assms by (simp add: less_imp_le)
  with Cons show ?case by (auto split: if_splits)
qed simp

lemma leftover_le:
  assumes t: "t = sum_list cs" "budget < t"
  shows "sum_list (map (\<lambda>c. c * budget div t) cs) \<le> budget \<and>
    budget - sum_list (map (\<lambda>c. c * budget div t) cs) \<le> length (List.filter (\<lambda>c. 0 < c) cs)"
proof -
  let ?a = "sum_list (map (\<lambda>c. c * budget div t) cs)"
  have pos: "0 < t" using t by simp
  have eq: "?a * t + sum_list (map (\<lambda>c. c * budget mod t) cs) = t * budget"
    using sum_div_mod [of budget t cs] t(1) by simp
  then have le: "?a \<le> budget" using pos by (metis le_add1 mult.commute mult_le_cancel1)
  have "(budget - ?a) * t = sum_list (map (\<lambda>c. c * budget mod t) cs)"
    using eq by (simp add: diff_mult_distrib mult.commute [of t budget])
  also have "\<dots> \<le> t * length (List.filter (\<lambda>c. 0 < c) cs)" using sum_mod_le [OF pos] .
  finally have "budget - ?a \<le> length (List.filter (\<lambda>c. 0 < c) cs)" using pos by (simp add: mult.commute)
  with le show ?thesis by simp
qed

lemma fair_share_counts_spec:
  "sum_list (fair_share_counts counts budget) = min (sum_list counts) budget \<and>
   (\<forall>i < length counts. fair_share_counts counts budget ! i \<le> counts ! i \<and>
      quota counts budget (counts ! i) \<le> fair_share_counts counts budget ! i \<and>
      fair_share_counts counts budget ! i \<le> Suc (quota counts budget (counts ! i)))"
proof (cases "sum_list counts = 0 \<or> sum_list counts \<le> budget")
  case small: True
  have "quota counts budget (counts ! i) = counts ! i" if "i < length counts" for i
  proof (cases "sum_list counts = 0")
    case True
    then have "counts ! i = 0" using that nth_mem by auto
    then show ?thesis by (simp add: quota_def)
  next
    case False
    then have le: "sum_list counts \<le> budget" using small by (metis)
    show ?thesis unfolding quota_def min_absorb2 [OF le] using False by (rule nonzero_mult_div_cancel_right)
  qed
  moreover have "fair_share_counts counts budget = counts" using small by (simp add: fair_share_counts_def Let_def)
  moreover have "min (sum_list counts) budget = sum_list counts" using small by (elim disjE) (simp_all only: min_absorb1 min_0L)
  ultimately show ?thesis by simp
next
  case False
  define t where "t = sum_list counts"
  have t: "budget < t" "t = sum_list counts" using False by (auto simp: t_def)
  define alloc where "alloc = map (\<lambda>c. c * budget div t) counts"
  define rs where "rs = sort_by remainder_order (map (\<lambda>(index, c). (c * budget mod t, index)) (enumerate 0 counts))"
  have fs: "fair_share_counts counts budget = give_leftover counts rs (budget - sum_list alloc) alloc"
    using False by (simp add: fair_share_counts_def Let_def alloc_def rs_def t_def del: sum_list_eq_0_iff)
  have ms: "mset (map snd rs) = mset [0..<length counts]" unfolding rs_def by (rule remainders_of_all)
  have d: "distinct (map snd rs)" "snd ` set rs = {0..<length counts}"
    using mset_eq_imp_distinct_iff [OF ms] mset_eq_setD [OF ms] by auto
  have less: "alloc ! i < counts ! i \<longleftrightarrow> 0 < counts ! i" if "i < length counts" for i
    using that t(1) by (auto simp: alloc_def div_less_iff_less_mult)
  have "length (List.filter (\<lambda>i. alloc ! i < counts ! i) (map snd rs)) =
      length (List.filter (\<lambda>i. alloc ! i < counts ! i) [0..<length counts])"
    using ms by (metis mset_filter size_mset)
  also have "\<dots> = length (List.filter (\<lambda>c. 0 < c) counts)"
  proof -
    have "List.filter (\<lambda>i. alloc ! i < counts ! i) [0..<length counts] = List.filter (\<lambda>i. 0 < counts ! i) [0..<length counts]"
      using less by (intro filter_cong) auto
    moreover have "List.filter (\<lambda>c. 0 < c) counts = map ((!) counts) (List.filter (\<lambda>i. 0 < counts ! i) [0..<length counts])"
      using filter_map [of "\<lambda>c. 0 < c" "(!) counts" "[0..<length counts]"] by (simp add: map_nth comp_def)
    ultimately show ?thesis by simp
  qed
  finally have "sum_list (fair_share_counts counts budget) = budget"
    using leftover_le [OF t(2,1)] give_leftover_sum [OF d(1), of alloc counts] d(2)
    by (simp add: fs alloc_def)
  moreover have "quota counts budget (counts ! i) = alloc ! i" if "i < length counts" for i
    using that t by (simp add: quota_def alloc_def min_absorb1 less_imp_le)
  moreover have "alloc ! i \<le> fair_share_counts counts budget ! i \<and> fair_share_counts counts budget ! i \<le> Suc (alloc ! i) \<and>
      fair_share_counts counts budget ! i \<le> counts ! i" if i: "i < length counts" for i
  proof -
    have "alloc ! i \<le> counts ! i" using less [OF i] i by (cases "counts ! i = 0") (auto simp: alloc_def)
    moreover have "i < length alloc" using i by (simp add: alloc_def)
    ultimately show ?thesis
      using give_leftover_bounds [OF d(1), of i alloc counts "budget - sum_list alloc"] by (auto simp: fs split: if_splits)
  qed
  moreover have "min (sum_list counts) budget = budget" using t by simp
  ultimately show ?thesis by simp
qed

section \<open>The groups and the selection\<close>

definition group_of :: "post_candidate list \<Rightarrow> nat \<Rightarrow> served_type option \<Rightarrow> nat list" where
  "group_of cs n key = List.filter (\<lambda>i. fair_served_type (cs ! i) = key) [0..<n]"

lemma group_of_Suc:
  "group_of cs (Suc n) key = group_of cs n key @ (if fair_served_type (cs ! n) = key then [n] else [])"
  by (simp add: group_of_def)

lemma group_inv:
  "\<exists>keys. distinct keys \<and> set keys = (\<lambda>i. fair_served_type (cs ! i)) ` {0..<n} \<and>
     fold (group_step cs) [0..<n] ([], []) = (keys, map (group_of cs n) keys)"
proof (induction n)
  case (Suc n)
  then obtain keys where k: "distinct keys" "set keys = (\<lambda>i. fair_served_type (cs ! i)) ` {0..<n}"
      "fold (group_step cs) [0..<n] ([], []) = (keys, map (group_of cs n) keys)" by blast
  let ?key = "fair_served_type (cs ! n)"
  have step: "fold (group_step cs) [0..<Suc n] ([], []) = group_step cs n (keys, map (group_of cs n) keys)"
    using k(3) by simp
  show ?case
  proof (cases "Prelude.position (\<lambda>seen. seen = ?key) keys")
    case None
    then have new: "?key \<notin> set keys" by auto
    then have "group_of cs n ?key = []"
      unfolding k(2) group_of_def filter_empty_conv by (metis imageI set_upt)
    then have "group_step cs n (keys, map (group_of cs n) keys) = (keys @ [?key], map (group_of cs (Suc n)) (keys @ [?key]))"
      using None new by (auto simp: group_step_def Let_def group_of_Suc simp del: position_None)
    then show ?thesis using k new step by (intro exI [of _ "keys @ [?key]"]) (auto simp: atLeast0_lessThan_Suc)
  next
    case (Some g)
    from position_Some [OF Some] have g: "g < length keys" "keys ! g = ?key" by auto
    have "(map (group_of cs n) keys)[g := map (group_of cs n) keys ! g @ [n]] = map (group_of cs (Suc n)) keys"
      using g k(1) by (intro nth_equalityI) (auto simp: nth_list_update group_of_Suc nth_eq_iff_index_eq)
    then have "group_step cs n (keys, map (group_of cs n) keys) = (keys, map (group_of cs (Suc n)) keys)"
      using Some by (simp add: group_step_def Let_def)
    moreover have "?key \<in> set keys" using g by (metis nth_mem)
    ultimately show ?thesis using k step by (intro exI [of _ keys]) (auto simp: atLeast0_lessThan_Suc)
  qed
qed simp

lemma groups_of_keys:
  obtains keys where "distinct keys" "set keys = fair_served_type ` set cs"
    "group_by_served_type cs = map (group_of cs (length cs)) keys"
proof -
  obtain keys where k: "distinct keys" "set keys = (\<lambda>i. fair_served_type (cs ! i)) ` {0..<length cs}"
      "fold (group_step cs) [0..<length cs] ([], []) = (keys, map (group_of cs (length cs)) keys)"
    using group_inv [of cs "length cs"] by blast
  have "set cs = (!) cs ` {0..<length cs}" by (auto simp: set_conv_nth)
  then have "set keys = fair_served_type ` set cs" unfolding k(2) by (simp add: image_image)
  then show thesis using that k by (simp add: group_by_served_type_def)
qed

lemma nth_mark:
  "j < length sels \<Longrightarrow> fold (\<lambda>index sel. sel[index := True]) idxs sels ! j = (j \<in> set idxs \<or> sels ! j)"
proof (induction idxs arbitrary: sels)
  case (Cons a idxs)
  then show ?case by (cases "a = j") auto
qed simp

lemma length_mark [simp]: "length (mark_selected gc sels) = length sels"
proof -
  have "length (fold (\<lambda>index sel. sel[index := True]) idxs sels) = length sels" for idxs
    by (induction idxs arbitrary: sels) auto
  then show ?thesis by (simp add: mark_selected_def)
qed

lemma length_fold_mark [simp]: "length (fold mark_selected gcs sels) = length sels"
  by (induction gcs arbitrary: sels) auto

lemma nth_fold_mark:
  "j < length sels \<Longrightarrow> fold mark_selected gcs sels ! j = ((\<exists>(g, c) \<in> set gcs. j \<in> set (take c g)) \<or> sels ! j)"
  by (induction gcs arbitrary: sels) (auto simp: mark_selected_def nth_mark length_mark [unfolded mark_selected_def])

lemma sum_groups:
  assumes "distinct keys" "f ` set xs \<subseteq> set keys"
  shows "sum_list (map (\<lambda>k. length (List.filter (\<lambda>x. f x = k) xs)) keys) = length xs"
  using assms(2)
proof (induction xs)
  case (Cons x xs)
  have "sum_list (map (\<lambda>k. length (List.filter (\<lambda>x. f x = k) (x # xs))) keys) =
      sum_list (map (\<lambda>k. (if f x = k then 1 else 0) + length (List.filter (\<lambda>x. f x = k) xs)) keys)"
    by (intro arg_cong [of _ _ sum_list] map_cong) auto
  also have "\<dots> = sum_list (map (\<lambda>k. if f x = k then 1 else 0) keys) + length xs"
    using Cons by (simp add: sum_list_addf)
  also have "sum_list (map (\<lambda>k. if f x = k then 1 else 0) keys) = (1::nat)"
    using assms(1) Cons.prems by (simp add: sum_list_distinct_conv_sum_set)
  finally show ?case by simp
qed (simp add: sum_list_0)

lemma length_filter_member: "S \<subseteq> {0..<n} \<Longrightarrow> length (List.filter (\<lambda>i. i \<in> S) [0..<n]) = card S"
  by (subst distinct_card [symmetric]) (auto intro!: arg_cong [of _ _ card])

lemma length_group_of: "length (group_of cs (length cs) key) = length (List.filter (\<lambda>c. fair_served_type c = key) cs)"
  using filter_map [of "\<lambda>c. fair_served_type c = key" "(!) cs" "[0..<length cs]"]
  by (simp add: group_of_def map_nth comp_def)

lemma kept_fair_share:
  "kept (fl_filter fair_share_ranking_filter q cs) =
     map ((!) cs) (List.filter ((!) (selection_mask cs (unat (PhoenixScoresResultSize (params q))))) [0..<length cs])"
proof -
  let ?m = "selection_mask cs (unat (PhoenixScoresResultSize (params q)))"
  have "length ?m = length cs" by (simp add: selection_mask_def Let_def)
  then have "zip cs ?m = map (\<lambda>i. (cs ! i, ?m ! i)) [0..<length cs]" by (intro nth_equalityI) auto
  then show ?thesis by (simp add: fair_share_ranking_filter_def Let_def filter_map comp_def)
qed

text \<open>The number of kept candidates of a served type is the share of its group.\<close>

lemma kept_of_type:
  assumes keys: "distinct keys" "set keys = fair_served_type ` set cs"
      "group_by_served_type cs = map (group_of cs (length cs)) keys"
    and p: "p < length keys" and b: "b = unat (PhoenixScoresResultSize (params q))"
  shows "length (List.filter (\<lambda>c. fair_served_type c = keys ! p) (kept (fl_filter fair_share_ranking_filter q cs))) =
    fair_share_counts (map (\<lambda>k. length (List.filter (\<lambda>c. fair_served_type c = k) cs)) keys) b ! p"
proof -
  let ?n = "length cs"
  define dem where "dem = map (\<lambda>k. length (List.filter (\<lambda>c. fair_served_type c = k) cs)) keys"
  define share where "share = fair_share_counts dem b"
  define S where "S = set (take (share ! p) (group_of cs ?n (keys ! p)))"
  have dem: "map length (group_by_served_type cs) = dem" by (simp add: keys(3) dem_def length_group_of comp_def)
  have len: "length share = length keys" by (simp add: share_def dem_def)
  have mask: "selection_mask cs b ! i = (\<exists>(g, c) \<in> set (zip (map (group_of cs ?n) keys) share). i \<in> set (take c g))"
    if "i < ?n" for i
    using that nth_fold_mark [of i "replicate ?n False"] dem
    by (simp add: selection_mask_def Let_def share_def keys(3) del: map_map)
  have S: "i \<in> S \<longleftrightarrow> selection_mask cs b ! i \<and> fair_served_type (cs ! i) = keys ! p" if i: "i < ?n" for i
  proof -
    have "selection_mask cs b ! i \<longleftrightarrow> (\<exists>r < length keys. i \<in> set (take (share ! r) (group_of cs ?n (keys ! r))))"
      unfolding mask [OF i] using len by (force simp: set_zip)
    moreover have "fair_served_type (cs ! i) = keys ! r" if "i \<in> set (take (share ! r) (group_of cs ?n (keys ! r)))" for r
      using that set_take_subset by (fastforce simp: group_of_def)
    moreover have "r = p" if "r < length keys" "keys ! r = keys ! p" for r
      using that p nth_eq_iff_index_eq [OF keys(1)] by blast
    ultimately show ?thesis unfolding S_def using p by metis
  qed
  have sub: "S \<subseteq> {0..<?n}" unfolding S_def using set_take_subset by (fastforce simp: group_of_def)
  have "length (List.filter (\<lambda>c. fair_served_type c = keys ! p) (kept (fl_filter fair_share_ranking_filter q cs))) =
      length (List.filter (\<lambda>i. selection_mask cs b ! i \<and> fair_served_type (cs ! i) = keys ! p) [0..<?n])"
    by (simp add: kept_fair_share b filter_map comp_def)
  also have "\<dots> = length (List.filter (\<lambda>i. i \<in> S) [0..<?n])"
    using S by (intro arg_cong [of _ _ length] filter_cong) auto
  also have "\<dots> = card S" by (rule length_filter_member [OF sub])
  also have "\<dots> = min (share ! p) (dem ! p)"
    using p unfolding S_def by (subst distinct_card) (simp_all add: group_of_def dem_def length_group_of [unfolded group_of_def])
  also have "\<dots> = share ! p"
    using fair_share_counts_spec [of dem b] p by (simp add: share_def dem_def)
  finally show ?thesis by (simp add: share_def dem_def)
qed

interpretation fair_share: conserving_filter "fl_filter fair_share_ranking_filter" core
proof unfold_locales
  fix q :: scored_posts_query and cs :: "post_candidate list"
  define marked where "marked = zip cs (selection_mask cs (unat (PhoenixScoresResultSize (params q))))"
  have "map fst marked = cs" by (simp add: marked_def selection_mask_def Let_def)
  then have "mset (map core cs) = mset (map (core \<circ> fst) marked)" by (metis map_map)
  then show "mset (map core (kept (fl_filter fair_share_ranking_filter q cs))) +
      mset (map core (removed (fl_filter fair_share_ranking_filter q cs))) = mset (map core cs)"
    by (simp add: fair_share_ranking_filter_def Let_def marked_def [symmetric] mset_filter_split del: mset_filter flip: image_mset_union)
qed

text \<open>
  C35. The filter keeps as many candidates as the budget allows, and all of them if it allows that;
  of every served type it keeps the proportional part of the budget, rounded down, or one more.
\<close>

theorem fair_share_proportional:
  fixes q cs key
  defines "ks \<equiv> kept (fl_filter fair_share_ranking_filter q cs)"
    and "budget \<equiv> unat (PhoenixScoresResultSize (params q))"
    and "n \<equiv> length (List.filter (\<lambda>c. fair_served_type c = key) cs)"
  shows "length ks = min (length cs) budget \<and>
    n * min budget (length cs) div length cs \<le> length (List.filter (\<lambda>c. fair_served_type c = key) ks) \<and>
    length (List.filter (\<lambda>c. fair_served_type c = key) ks) \<le> Suc (n * min budget (length cs) div length cs)"
proof -
  obtain keys where keys: "distinct keys" "set keys = fair_served_type ` set cs"
    "group_by_served_type cs = map (group_of cs (length cs)) keys" by (rule groups_of_keys)
  define dem where "dem = map (\<lambda>k. length (List.filter (\<lambda>c. fair_served_type c = k) cs)) keys"
  have total: "sum_list dem = length cs" unfolding dem_def using keys by (intro sum_groups) auto
  have of_type: "length (List.filter (\<lambda>c. fair_served_type c = keys ! p) ks) = fair_share_counts dem budget ! p"
    if "p < length keys" for p
    using kept_of_type [OF keys that budget_def [THEN meta_eq_to_obj_eq]] by (simp add: ks_def dem_def)
  have sub: "fair_served_type ` set ks \<subseteq> set keys" unfolding keys(2) ks_def kept_fair_share by auto
  have "map (\<lambda>k. length (List.filter (\<lambda>c. fair_served_type c = k) ks)) keys = fair_share_counts dem budget"
    using of_type by (intro nth_equalityI) (auto simp: dem_def)
  then have len: "length ks = min (length cs) budget"
    using sum_groups [OF keys(1) sub] fair_share_counts_spec [of dem budget] total by simp
  show ?thesis
  proof (cases "key \<in> set keys")
    case True
    then obtain p where p: "p < length keys" "key = keys ! p" by (metis in_set_conv_nth)
    have "quota dem budget n = n * min budget (length cs) div length cs" by (simp only: quota_def total)
    moreover have "dem ! p = n" using p by (simp add: n_def dem_def)
    moreover have "p < length dem" using p by (simp add: dem_def)
    ultimately show ?thesis using len of_type [OF p(1)] fair_share_counts_spec [of dem budget] p(2) by auto
  next
    case False
    then have "List.filter (\<lambda>c. fair_served_type c = key) ks = []" "n = 0"
      using sub keys(2) by (auto simp: filter_empty_conv n_def)
    then show ?thesis using len by simp
  qed
qed

end
