(* ===== verification/Holdout_Filters.thy ===== *)
theory Holdout_Filters
  imports Post_Candidate
begin

text \<open>
  The two filters that hold out a share of the posts by a hash of the post and the viewer
  (\<open>home-mixer/filters/inventory_holdout_filter.rs\<close>, \<open>fav_holdout_filter.rs\<close>). The hash is computed
  on 64-bit words, with wrapping products and sums, as in the source.
\<close>

unbundle bit_operations_syntax

section \<open>Definitions\<close>

datatype post_kind = Original | Reply | Retweet

definition post_kind_of :: "post_candidate \<Rightarrow> post_kind" where
  "post_kind_of c =
     (if retweeted_tweet_id c \<noteq> None then Retweet
      else if in_reply_to_tweet_id c \<noteq> None then Reply else Original)"

definition holdout_bucket :: "u64 \<Rightarrow> u64 \<Rightarrow> u64" where
  "holdout_bucket post_id viewer_id =
     (let z0 = post_id * 0x9E3779B97F4A7C15 + word_rotl 32 viewer_id * 0xD1B54A32D192ED03 + 0x9E3779B97F4A7C15;
          z1 = (z0 XOR drop_bit 30 z0) * 0xBF58476D1CE4E5B9;
          z2 = (z1 XOR drop_bit 27 z1) * 0x94D049BB133111EB;
          z3 = z2 XOR drop_bit 31 z2
      in z3 mod 100)"

definition is_held_out :: "u64 \<Rightarrow> u64 \<Rightarrow> 32 word \<Rightarrow> bool" where
  "is_held_out post_id viewer_id percent \<longleftrightarrow> holdout_bucket post_id viewer_id < ucast percent"

definition inventory_percent :: "home_params \<Rightarrow> post_candidate \<Rightarrow> 32 word" where
  "inventory_percent prm c =
     (case post_kind_of c of
        Original \<Rightarrow> min (InventoryHoldoutOriginalsPercent prm) 100
      | Reply \<Rightarrow> min (InventoryHoldoutRepliesPercent prm) 100
      | Retweet \<Rightarrow> min (InventoryHoldoutRetweetsPercent prm) 100)"

definition inventory_holdout_filter :: post_filter where
  "inventory_holdout_filter = \<lparr>fl_name = ''InventoryHoldoutFilter'',
     fl_enable = (\<lambda>q. EnableInventoryHoldout (params q) \<and>
       (0 < InventoryHoldoutOriginalsPercent (params q) \<or> 0 < InventoryHoldoutRepliesPercent (params q) \<or>
        0 < InventoryHoldoutRetweetsPercent (params q))),
     fl_filter = (\<lambda>q cs. filter_partition cs (\<lambda>c.
       \<not> is_held_out (get_original_tweet_id c) (user_id q) (inventory_percent (params q) c)))\<rparr>"

definition STEPS :: "(int \<times> 32 word) list" where
  "STEPS = [(10000, 15), (5000, 15), (3000, 15), (2000, 14), (1500, 13), (1000, 13), (750, 12), (500, 11),
     (300, 10), (200, 9), (150, 8), (100, 7), (75, 7), (50, 6), (30, 6), (20, 5), (15, 5), (10, 5), (7, 4),
     (5, 4), (3, 3), (2, 3), (1, 2)]"

definition holdout_percent :: "i64 option \<Rightarrow> 32 word" where
  "holdout_percent fav_cnt =
     (let favs = sint (unwrap_or 0 fav_cnt)
      in if favs \<le> 1 then 0
         else case List.find (\<lambda>(k, pct). k < favs) STEPS of Some (k, pct) \<Rightarrow> pct | None \<Rightarrow> 0)"

definition fav_holdout_filter :: post_filter where
  "fav_holdout_filter = \<lparr>fl_name = ''FavHoldoutFilter'', fl_enable = (\<lambda>q. EnableFavHoldout (params q)),
     fl_filter = (\<lambda>q cs. filter_partition cs (\<lambda>c.
       \<not> is_held_out (get_original_tweet_id c) (user_id q) (holdout_percent (fav_count c))))\<rparr>"

interpretation inventory_holdout: predicate_filter inventory_holdout_filter
    "\<lambda>q c. \<not> is_held_out (get_original_tweet_id c) (user_id q) (inventory_percent (params q) c)"
  by unfold_locales (simp add: inventory_holdout_filter_def)

interpretation fav_holdout: predicate_filter fav_holdout_filter
    "\<lambda>q c. \<not> is_held_out (get_original_tweet_id c) (user_id q) (holdout_percent (fav_count c))"
  by unfold_locales (simp add: fav_holdout_filter_def)

section \<open>Shares\<close>

lemma holdout_bucket_lt: "unat (holdout_bucket p v) < 100"
  by (simp add: holdout_bucket_def Let_def unat_mod_distrib)

lemma is_held_out_iff: "is_held_out p v percent \<longleftrightarrow> unat (holdout_bucket p v) < unat percent"
proof -
  have "unat percent < 2 ^ 64" using unsigned_less [of percent, where 'a = nat] by simp
  then have "unat (ucast percent :: u64) = unat percent" by (simp add: unsigned_ucast_eq take_bit_nat_eq_self)
  then show ?thesis by (simp add: is_held_out_def word_less_nat_alt)
qed

text \<open>The first step that a count exceeds decides, so the percentages need only fall along the table.\<close>

lemma find_step_mono:
  assumes "sorted_wrt (\<lambda>(k, p) (k', p'). unat p' \<le> unat p) steps" "a \<le> (b::int)"
    and "List.find (\<lambda>(k, pct). k < a) steps = Some (k, p)"
  shows "\<exists>k' p'. List.find (\<lambda>(k, pct). k < b) steps = Some (k', p') \<and> unat p \<le> unat (p' :: 32 word)"
  using assms
proof (induction steps)
  case (Cons s steps)
  obtain k0 p0 where s: "s = (k0, p0)" by (cases s)
  show ?case
  proof (cases "k0 < b")
    case True
    have "unat p \<le> unat p0"
      using Cons.prems s by (auto split: if_splits dest: find_SomeD)
    then show ?thesis using True s by simp
  qed (use Cons s in auto)
qed simp

lemma STEPS_falling: "sorted_wrt (\<lambda>(k, p) (k', p'). unat p' \<le> unat p) STEPS"
  by (simp add: STEPS_def)

lemma STEPS_le: "(k, p) \<in> set STEPS \<Longrightarrow> unat p \<le> 15"
  by (auto simp: STEPS_def)

lemma holdout_percent_mono:
  "sint (unwrap_or 0 a) \<le> sint (unwrap_or 0 b) \<Longrightarrow> unat (holdout_percent a) \<le> unat (holdout_percent b)"
  using find_step_mono [OF STEPS_falling, of "sint (unwrap_or 0 a)" "sint (unwrap_or 0 b)"]
  by (force simp: holdout_percent_def Let_def split: option.splits prod.splits)

lemma holdout_percent_le: "unat (holdout_percent a) \<le> 15"
  using STEPS_le by (auto simp: holdout_percent_def Let_def split: option.splits dest!: find_SomeD)

text \<open>
  The share of the posts that is held out grows with the number of likes and never exceeds
  fifteen in a hundred: a post that is held out from a viewer at some number of likes is held out
  at every larger one, so the experiments are nested.
\<close>

lemma fav_holdout_nested:
  assumes "sint (unwrap_or 0 a) \<le> sint (unwrap_or 0 b)" and "is_held_out post viewer (holdout_percent a)"
  shows "is_held_out post viewer (holdout_percent b) \<and> unat (holdout_bucket post viewer) < 15"
  using assms holdout_percent_mono [OF assms(1)] holdout_percent_le [of b] by (simp add: is_held_out_iff)

lemma bucket_of_post_6: "holdout_bucket 6 7 = 1"
  by code_simp

lemma fav_holdout_nested_witness:
  "is_held_out 6 7 (holdout_percent (Some 2)) \<and> is_held_out 6 7 (holdout_percent (Some 400))"
proof -
  have "is_held_out 6 7 (holdout_percent (Some 2))"
    by (simp add: is_held_out_def bucket_of_post_6 holdout_percent_def unwrap_or_def STEPS_def)
  moreover from this have "is_held_out 6 7 (holdout_percent (Some 400))"
    using fav_holdout_nested [of "Some 2" "Some 400" 6 7] by (simp add: unwrap_or_def)
  ultimately show ?thesis ..
qed

end
