(* ===== verification/Topic_Filter.thy ===== *)
theory Topic_Filter
  imports Post_Candidate
begin

text \<open>
  The topic filter (\<open>home-mixer/filters/topic_ids_filter.rs\<close>) and the tables of the topics: which topics a
  requested topic stands for (\<open>category_ids\<close>), the topics in production and the topic above a topic. A
  \<open>match\<close> on constants is an association list, a hash set of ids a list. The map of overrides in the
  same file, a setting of another component, is not modelled.
\<close>

section \<open>Topics\<close>

definition SCIENCE_TECHNOLOGY :: i64 where "SCIENCE_TECHNOLOGY = 1000000000000000001"
definition ENTERTAINMENT :: i64 where "ENTERTAINMENT = 1000000000000000002"
definition BUSINESS_FINANCE :: i64 where "BUSINESS_FINANCE = 1000000000000000003"
definition SPORTS :: i64 where "SPORTS = 1000000000000000004"
definition XAI_POLITICS :: i64 where "XAI_POLITICS = 1925952771733262336"
definition XAI_AI :: i64 where "XAI_AI = 1925953013547450368"
definition XAI_GAMING :: i64 where "XAI_GAMING = 1925949766673797120"
definition XAI_CRYPTOCURRENCY :: i64 where "XAI_CRYPTOCURRENCY = 1925949693290295298"
definition XAI_US_IRAN_WAR :: i64 where "XAI_US_IRAN_WAR = 2000000000000000001"
definition XAI_STOCKS_ECONOMY :: i64 where "XAI_STOCKS_ECONOMY = 2000000000000000002"
definition XAI_NEWS :: i64 where "XAI_NEWS = 1925949634972626944"
definition XAI_NATURAL_DISASTERS :: i64 where "XAI_NATURAL_DISASTERS = 1925952795854745601"
definition XAI_MOVIES_TV :: i64 where "XAI_MOVIES_TV = 1925949788068909057"
definition XAI_STREAMING :: i64 where "XAI_STREAMING = 1925950455806369792"
definition XAI_MUSIC :: i64 where "XAI_MUSIC = 1925949604224196608"
definition XAI_DANCE :: i64 where "XAI_DANCE = 1925950383899267072"
definition XAI_CELEBRITY :: i64 where "XAI_CELEBRITY = 1925949555071176704"
definition XAI_ANIME :: i64 where "XAI_ANIME = 1925949503837798401"
definition XAI_SOCCER :: i64 where "XAI_SOCCER = 1925950498420469760"
definition XAI_BUNDESLIGA :: i64 where "XAI_BUNDESLIGA = 1925951257107206144"
definition XAI_LA_LIGA :: i64 where "XAI_LA_LIGA = 1925951079100928001"
definition XAI_LIGUE1 :: i64 where "XAI_LIGUE1 = 1925951305895272448"
definition XAI_UEFA_CL :: i64 where "XAI_UEFA_CL = 1925951334777233408"
definition XAI_UEFA_EL :: i64 where "XAI_UEFA_EL = 1925951366175813632"
definition XAI_UEFA_ECL :: i64 where "XAI_UEFA_ECL = 1925951417010753536"
definition XAI_BASKETBALL :: i64 where "XAI_BASKETBALL = 1925950530842464256"
definition XAI_NBA :: i64 where "XAI_NBA = 1925951454121967616"
definition XAI_WNBA :: i64 where "XAI_WNBA = 1925951561211023361"
definition XAI_AMERICAN_FOOTBALL :: i64 where "XAI_AMERICAN_FOOTBALL = 1925950554133446656"
definition XAI_NCAA_FOOTBALL :: i64 where "XAI_NCAA_FOOTBALL = 1925951645872975873"
definition XAI_NFL :: i64 where "XAI_NFL = 1925951614067650560"
definition XAI_BASEBALL :: i64 where "XAI_BASEBALL = 1925950576740675584"
definition XAI_MLB :: i64 where "XAI_MLB = 1925951672561319936"
definition XAI_TENNIS :: i64 where "XAI_TENNIS = 1925950625835008001"
definition XAI_CRICKET :: i64 where "XAI_CRICKET = 1925950653035151360"
definition XAI_IPL :: i64 where "XAI_IPL = 1925951866464006145"
definition XAI_MMA :: i64 where "XAI_MMA = 1925950600140718080"
definition XAI_WWE :: i64 where "XAI_WWE = 1925950864117702656"
definition XAI_BOXING :: i64 where "XAI_BOXING = 1925950713982537888"
definition XAI_GOLF :: i64 where "XAI_GOLF = 1925950690574180352"
definition XAI_RACING :: i64 where "XAI_RACING = 1943810034309246976"
definition XAI_FORMULA1 :: i64 where "XAI_FORMULA1 = 1925950746756800513"
definition XAI_NASCAR :: i64 where "XAI_NASCAR = 1925951703007858688"
definition XAI_ICE_HOCKEY :: i64 where "XAI_ICE_HOCKEY = 1925950813043662848"
definition XAI_NHL :: i64 where "XAI_NHL = 1925951775544061952"
definition XAI_OLYMPICS :: i64 where "XAI_OLYMPICS = 1943811470724153345"
definition XAI_RUGBY :: i64 where "XAI_RUGBY = 1925950895595876352"
definition XAI_CYCLING :: i64 where "XAI_CYCLING = 1925950926910582786"
definition XAI_SKIING :: i64 where "XAI_SKIING = 1925950954962096130"
definition XAI_SNOWBOARDING :: i64 where "XAI_SNOWBOARDING = 1925950982346682368"
definition XAI_HEALTH_FITNESS :: i64 where "XAI_HEALTH_FITNESS = 1925949856834588672"
definition XAI_NUTRITION :: i64 where "XAI_NUTRITION = 1925953366091350017"
definition XAI_WORKOUTS :: i64 where "XAI_WORKOUTS = 1925953337020555264"
definition XAI_TRAVEL :: i64 where "XAI_TRAVEL = 1925949812844769280"
definition XAI_AVIATION :: i64 where "XAI_AVIATION = 1925950031476957184"
definition XAI_FOOD :: i64 where "XAI_FOOD = 1925949835649126400"
definition XAI_COOKING :: i64 where "XAI_COOKING = 1925953199694819328"
definition XAI_BAKING :: i64 where "XAI_BAKING = 1925953282146451456"
definition XAI_RESTAURANTS :: i64 where "XAI_RESTAURANTS = 1925953243223339009"
definition XAI_DRINKS :: i64 where "XAI_DRINKS = 1925953310894252033"
definition XAI_MEMES :: i64 where "XAI_MEMES = 1925949876694556672"
definition XAI_BEAUTY :: i64 where "XAI_BEAUTY = 1925950199861538818"
definition XAI_FASHION :: i64 where "XAI_FASHION = 1925949932181082112"
definition XAI_NATURE_OUTDOORS :: i64 where "XAI_NATURE_OUTDOORS = 1925950228047216640"
definition XAI_PETS :: i64 where "XAI_PETS = 1925950249245282304"
definition XAI_CATS :: i64 where "XAI_CATS = 1925953794732433408"
definition XAI_DOGS :: i64 where "XAI_DOGS = 1925953826281902080"
definition XAI_HOME_GARDEN :: i64 where "XAI_HOME_GARDEN = 1925950341452845057"
definition XAI_ART :: i64 where "XAI_ART = 1925949898106540032"
definition XAI_RELIGION :: i64 where "XAI_RELIGION = 1925949956008878080"
definition XAI_SHOPPING :: i64 where "XAI_SHOPPING = 1925949979966701568"
definition XAI_EDUCATION :: i64 where "XAI_EDUCATION = 1925950405709631490"
definition XAI_CAREER :: i64 where "XAI_CAREER = 1925950361245786112"
definition XAI_CARS :: i64 where "XAI_CARS = 1925950007624028160"
definition XAI_MOTORCYCLES :: i64 where "XAI_MOTORCYCLES = 1925950100397793280"
definition XAI_RELATIONSHIPS :: i64 where "XAI_RELATIONSHIPS = 1925950276835454977"
definition XAI_FAMILY :: i64 where "XAI_FAMILY = 1925954059338493952"
definition XAI_MARRIAGE :: i64 where "XAI_MARRIAGE = 1925953930002907137"
definition XAI_PARENTING :: i64 where "XAI_PARENTING = 1925954095342338048"
definition XAI_PODCASTS :: i64 where "XAI_PODCASTS = 1925950433807175680"
definition XAI_POP :: i64 where "XAI_POP = 1925952179791151105"
definition XAI_K_POP :: i64 where "XAI_K_POP = 1925952056088530944"
definition XAI_COUNTRY_MUSIC :: i64 where "XAI_COUNTRY_MUSIC = 1925952353485602816"
definition XAI_ELECTRONIC :: i64 where "XAI_ELECTRONIC = 1925952257893257217"
definition XAI_J_POP :: i64 where "XAI_J_POP = 1925952123960709120"
definition XAI_ROCK :: i64 where "XAI_ROCK = 1925952228818354177"
definition XAI_PHOTOGRAPHY :: i64 where "XAI_PHOTOGRAPHY = 1925954143472017408"
definition XAI_DESIGN :: i64 where "XAI_DESIGN = 1925954681496322048"
definition XAI_SOFTWARE_DEVELOPMENT :: i64 where "XAI_SOFTWARE_DEVELOPMENT = 1925953040130953216"
definition XAI_ROBOTICS :: i64 where "XAI_ROBOTICS = 1925953169307189248"
definition XAI_SPACE :: i64 where "XAI_SPACE = 1925953141452718081"
definition XAI_BIOTECH :: i64 where "XAI_BIOTECH = 1925953107038519296"
definition XAI_ELECTRONICS :: i64 where "XAI_ELECTRONICS = 1925953073983139840"
definition XAI_STOCKS :: i64 where "XAI_STOCKS = 1925952876284727296"
definition XAI_ENTREPRENEURSHIP :: i64 where "XAI_ENTREPRENEURSHIP = 1925952916411564032"
definition XAI_REAL_ESTATE :: i64 where "XAI_REAL_ESTATE = 1925952947197784064"
definition XAI_PERSONAL_FINANCE :: i64 where "XAI_PERSONAL_FINANCE = 1925952988486447104"
definition XAI_CRIME :: i64 where "XAI_CRIME = 1925952744239620096"
definition XAI_DATING :: i64 where "XAI_DATING = 1925953884108824576"
definition XAI_ELECTIONS :: i64 where "XAI_ELECTIONS = 1925952820714332161"
definition XAI_ESPORTS :: i64 where "XAI_ESPORTS = 1925950783448576000"
definition XAI_HIP_HOP :: i64 where "XAI_HIP_HOP = 1925952203962896384"
definition XAI_JAZZ :: i64 where "XAI_JAZZ = 1925952300213768192"
definition XAI_CONCERTS :: i64 where "XAI_CONCERTS = 1925952145615974400"
definition XAI_MENTAL_HEALTH :: i64 where "XAI_MENTAL_HEALTH = 1925953421338726400"
definition XAI_MOTO_GP :: i64 where "XAI_MOTO_GP = 1925951732204335105"
definition XAI_PREMIER_LEAGUE :: i64 where "XAI_PREMIER_LEAGUE = 1925951020036751361"
definition XAI_SERIE_A :: i64 where "XAI_SERIE_A = 1925951109660577792"
definition XAI_CHRISTIANITY :: i64 where "XAI_CHRISTIANITY = 1925953452644978688"
definition XAI_BUDDHISM :: i64 where "XAI_BUDDHISM = 1925953574929842176"
definition XAI_HINDUISM :: i64 where "XAI_HINDUISM = 1925953483758338048"
definition XAI_ISLAM :: i64 where "XAI_ISLAM = 1925953516834590721"
definition XAI_JUDAISM :: i64 where "XAI_JUDAISM = 1925953757117865984"
definition XAI_DIGITAL_ART :: i64 where "XAI_DIGITAL_ART = 1925954197326831616"
definition XAI_SCIENCE :: i64 where "XAI_SCIENCE = 1925949744683114496"
definition XAI_TECHNOLOGY :: i64 where "XAI_TECHNOLOGY = 1925949722688126976"
definition XAI_BUSINESS_FINANCE_REAL :: i64 where "XAI_BUSINESS_FINANCE_REAL = 1925949659857530880"
definition XAI_SPORTS_REAL :: i64 where "XAI_SPORTS_REAL = 1925949452197478400"
definition XAI_ATHLETICS :: i64 where "XAI_ATHLETICS = 1925950838414942210"

section \<open>Definitions\<close>

definition category_table :: "(i64 \<times> i64 list) list" where
  "category_table =
    [(SCIENCE_TECHNOLOGY, [XAI_SCIENCE, XAI_TECHNOLOGY, XAI_AI, XAI_SOFTWARE_DEVELOPMENT, XAI_ROBOTICS, XAI_SPACE,
        XAI_BIOTECH, XAI_ELECTRONICS]),
     (ENTERTAINMENT, [XAI_MOVIES_TV, XAI_STREAMING, XAI_MUSIC, XAI_DANCE, XAI_CELEBRITY, XAI_GAMING, XAI_ANIME]),
     (BUSINESS_FINANCE, [XAI_BUSINESS_FINANCE_REAL, XAI_CRYPTOCURRENCY, XAI_STOCKS, XAI_ENTREPRENEURSHIP, XAI_REAL_ESTATE,
        XAI_PERSONAL_FINANCE]),
     (SPORTS, [XAI_SPORTS_REAL, XAI_ATHLETICS, XAI_SOCCER, XAI_BUNDESLIGA, XAI_LA_LIGA, XAI_LIGUE1, XAI_UEFA_CL,
        XAI_UEFA_EL, XAI_UEFA_ECL, XAI_BASKETBALL, XAI_NBA, XAI_WNBA, XAI_AMERICAN_FOOTBALL,
        XAI_NCAA_FOOTBALL, XAI_NFL, XAI_BASEBALL, XAI_MLB, XAI_TENNIS, XAI_CRICKET, XAI_IPL, XAI_MMA,
        XAI_WWE, XAI_BOXING, XAI_GOLF, XAI_RACING, XAI_FORMULA1, XAI_NASCAR, XAI_ICE_HOCKEY, XAI_NHL,
        XAI_OLYMPICS, XAI_RUGBY, XAI_CYCLING, XAI_SKIING, XAI_SNOWBOARDING, XAI_ESPORTS, XAI_MOTO_GP,
        XAI_PREMIER_LEAGUE, XAI_SERIE_A]),
     (XAI_POLITICS, [XAI_POLITICS]),
     (XAI_AI, [XAI_AI]),
     (XAI_GAMING, [XAI_GAMING]),
     (XAI_CRYPTOCURRENCY, [XAI_CRYPTOCURRENCY]),
     (XAI_US_IRAN_WAR, [XAI_US_IRAN_WAR]),
     (XAI_NEWS, [XAI_NEWS, XAI_NATURAL_DISASTERS]),
     (XAI_MOVIES_TV, [XAI_MOVIES_TV, XAI_STREAMING]),
     (XAI_MUSIC, [XAI_MUSIC]),
     (XAI_DANCE, [XAI_DANCE]),
     (XAI_CELEBRITY, [XAI_CELEBRITY]),
     (XAI_ANIME, [XAI_ANIME]),
     (XAI_SOCCER, [XAI_SOCCER, XAI_BUNDESLIGA, XAI_LA_LIGA, XAI_LIGUE1, XAI_UEFA_CL, XAI_UEFA_EL, XAI_UEFA_ECL]),
     (XAI_BASKETBALL, [XAI_BASKETBALL, XAI_NBA, XAI_WNBA]),
     (XAI_AMERICAN_FOOTBALL, [XAI_AMERICAN_FOOTBALL, XAI_NCAA_FOOTBALL, XAI_NFL]),
     (XAI_BASEBALL, [XAI_BASEBALL, XAI_MLB]),
     (XAI_TENNIS, [XAI_TENNIS]),
     (XAI_CRICKET, [XAI_CRICKET, XAI_IPL]),
     (XAI_MMA, [XAI_MMA, XAI_WWE]),
     (XAI_BOXING, [XAI_BOXING]),
     (XAI_GOLF, [XAI_GOLF]),
     (XAI_RACING, [XAI_RACING, XAI_FORMULA1, XAI_NASCAR]),
     (XAI_ICE_HOCKEY, [XAI_ICE_HOCKEY, XAI_NHL]),
     (XAI_OLYMPICS, [XAI_OLYMPICS]),
     (XAI_RUGBY, [XAI_RUGBY]),
     (XAI_CYCLING, [XAI_CYCLING]),
     (XAI_SKIING, [XAI_SKIING, XAI_SNOWBOARDING]),
     (XAI_HEALTH_FITNESS, [XAI_HEALTH_FITNESS, XAI_NUTRITION, XAI_WORKOUTS]),
     (XAI_TRAVEL, [XAI_TRAVEL, XAI_AVIATION]),
     (XAI_FOOD, [XAI_FOOD, XAI_COOKING, XAI_BAKING, XAI_RESTAURANTS, XAI_DRINKS]),
     (XAI_MEMES, [XAI_MEMES]),
     (XAI_BEAUTY, [XAI_BEAUTY]),
     (XAI_FASHION, [XAI_FASHION]),
     (XAI_NATURE_OUTDOORS, [XAI_NATURE_OUTDOORS]),
     (XAI_PETS, [XAI_PETS, XAI_CATS, XAI_DOGS]),
     (XAI_HOME_GARDEN, [XAI_HOME_GARDEN]),
     (XAI_ART, [XAI_ART]),
     (XAI_RELIGION, [XAI_RELIGION]),
     (XAI_SHOPPING, [XAI_SHOPPING]),
     (XAI_EDUCATION, [XAI_EDUCATION]),
     (XAI_CAREER, [XAI_CAREER]),
     (XAI_CARS, [XAI_CARS]),
     (XAI_MOTORCYCLES, [XAI_MOTORCYCLES]),
     (XAI_RELATIONSHIPS, [XAI_RELATIONSHIPS]),
     (XAI_FAMILY, [XAI_FAMILY, XAI_MARRIAGE, XAI_PARENTING]),
     (XAI_PODCASTS, [XAI_PODCASTS]),
     (XAI_POP, [XAI_POP]),
     (XAI_K_POP, [XAI_K_POP]),
     (XAI_COUNTRY_MUSIC, [XAI_COUNTRY_MUSIC]),
     (XAI_ELECTRONIC, [XAI_ELECTRONIC]),
     (XAI_J_POP, [XAI_J_POP]),
     (XAI_ROCK, [XAI_ROCK]),
     (XAI_PHOTOGRAPHY, [XAI_PHOTOGRAPHY]),
     (XAI_DESIGN, [XAI_DESIGN]),
     (XAI_SOFTWARE_DEVELOPMENT, [XAI_SOFTWARE_DEVELOPMENT]),
     (XAI_ROBOTICS, [XAI_ROBOTICS]),
     (XAI_SPACE, [XAI_SPACE]),
     (XAI_BIOTECH, [XAI_BIOTECH]),
     (XAI_ELECTRONICS, [XAI_ELECTRONICS]),
     (XAI_STOCKS, [XAI_STOCKS]),
     (XAI_ENTREPRENEURSHIP, [XAI_ENTREPRENEURSHIP]),
     (XAI_REAL_ESTATE, [XAI_REAL_ESTATE]),
     (XAI_PERSONAL_FINANCE, [XAI_PERSONAL_FINANCE]),
     (XAI_CRIME, [XAI_CRIME]),
     (XAI_DATING, [XAI_DATING]),
     (XAI_ELECTIONS, [XAI_ELECTIONS]),
     (XAI_ESPORTS, [XAI_ESPORTS]),
     (XAI_HIP_HOP, [XAI_HIP_HOP]),
     (XAI_JAZZ, [XAI_JAZZ]),
     (XAI_CONCERTS, [XAI_CONCERTS]),
     (XAI_MENTAL_HEALTH, [XAI_MENTAL_HEALTH]),
     (XAI_MOTO_GP, [XAI_MOTO_GP]),
     (XAI_PREMIER_LEAGUE, [XAI_PREMIER_LEAGUE]),
     (XAI_SERIE_A, [XAI_SERIE_A]),
     (XAI_CHRISTIANITY, [XAI_CHRISTIANITY]),
     (XAI_BUDDHISM, [XAI_BUDDHISM]),
     (XAI_HINDUISM, [XAI_HINDUISM]),
     (XAI_ISLAM, [XAI_ISLAM]),
     (XAI_JUDAISM, [XAI_JUDAISM]),
     (XAI_DIGITAL_ART, [XAI_DIGITAL_ART]),
     (XAI_SCIENCE, [XAI_SCIENCE]),
     (XAI_TECHNOLOGY, [XAI_TECHNOLOGY]),
     (XAI_BUSINESS_FINANCE_REAL, [XAI_BUSINESS_FINANCE_REAL]),
     (XAI_SPORTS_REAL, [XAI_SPORTS_REAL]),
     (XAI_ATHLETICS, [XAI_ATHLETICS]),
     (XAI_STREAMING, [XAI_STREAMING]),
     (XAI_STOCKS_ECONOMY, [XAI_STOCKS_ECONOMY])]"

definition category_ids :: "i64 \<Rightarrow> i64 list option" where
  "category_ids topic_id = map_of category_table topic_id"

definition expand_one :: "i64 \<Rightarrow> i64 list" where
  "expand_one topic_id = (case category_ids topic_id of Some ids \<Rightarrow> ids | None \<Rightarrow> [topic_id])"

definition expand :: "i64 list \<Rightarrow> i64 list" where
  "expand ids = concat (map expand_one ids)"

definition all_client_topics :: "i64 list" where
  "all_client_topics =
    [SCIENCE_TECHNOLOGY, ENTERTAINMENT, BUSINESS_FINANCE, SPORTS, XAI_POLITICS, XAI_AI, XAI_GAMING,
     XAI_CRYPTOCURRENCY, XAI_US_IRAN_WAR, XAI_NEWS, XAI_MOVIES_TV, XAI_MUSIC, XAI_DANCE, XAI_CELEBRITY,
     XAI_ANIME, XAI_SOCCER, XAI_BASKETBALL, XAI_AMERICAN_FOOTBALL, XAI_BASEBALL, XAI_TENNIS, XAI_CRICKET,
     XAI_MMA, XAI_BOXING, XAI_GOLF, XAI_RACING, XAI_ICE_HOCKEY, XAI_OLYMPICS, XAI_RUGBY, XAI_CYCLING,
     XAI_SKIING, XAI_HEALTH_FITNESS, XAI_TRAVEL, XAI_FOOD, XAI_MEMES, XAI_BEAUTY, XAI_FASHION,
     XAI_NATURE_OUTDOORS, XAI_PETS, XAI_HOME_GARDEN, XAI_ART, XAI_RELIGION, XAI_SHOPPING, XAI_EDUCATION,
     XAI_CAREER, XAI_CARS, XAI_MOTORCYCLES, XAI_RELATIONSHIPS, XAI_FAMILY, XAI_PODCASTS, XAI_POP,
     XAI_K_POP, XAI_COUNTRY_MUSIC, XAI_ELECTRONIC, XAI_J_POP, XAI_ROCK, XAI_PHOTOGRAPHY, XAI_DESIGN,
     XAI_SOFTWARE_DEVELOPMENT, XAI_ROBOTICS, XAI_SPACE, XAI_BIOTECH, XAI_ELECTRONICS, XAI_STOCKS,
     XAI_ENTREPRENEURSHIP, XAI_REAL_ESTATE, XAI_PERSONAL_FINANCE, XAI_CRIME, XAI_DATING, XAI_ELECTIONS,
     XAI_ESPORTS, XAI_HIP_HOP, XAI_JAZZ, XAI_CONCERTS, XAI_MENTAL_HEALTH, XAI_MOTO_GP, XAI_PREMIER_LEAGUE,
     XAI_SERIE_A, XAI_CHRISTIANITY, XAI_BUDDHISM, XAI_HINDUISM, XAI_ISLAM, XAI_JUDAISM, XAI_DIGITAL_ART,
     XAI_STOCKS_ECONOMY]"

definition all_production_topic_ids :: "i64 list" where
  "all_production_topic_ids = expand all_client_topics"

definition supertopic_table :: "(i64 list \<times> i64) list" where
  "supertopic_table =
    [([XAI_POP, XAI_K_POP, XAI_COUNTRY_MUSIC, XAI_ELECTRONIC, XAI_J_POP, XAI_ROCK, XAI_HIP_HOP, XAI_JAZZ,
      XAI_CONCERTS], XAI_MUSIC),
     ([XAI_DESIGN, XAI_DIGITAL_ART, XAI_PHOTOGRAPHY], XAI_ART),
     ([XAI_NATURAL_DISASTERS, XAI_CRIME], XAI_NEWS),
     ([XAI_COOKING, XAI_BAKING, XAI_RESTAURANTS, XAI_DRINKS], XAI_FOOD),
     ([XAI_AVIATION], XAI_TRAVEL),
     ([XAI_CATS, XAI_DOGS], XAI_PETS),
     ([XAI_CHRISTIANITY, XAI_BUDDHISM, XAI_HINDUISM, XAI_ISLAM, XAI_JUDAISM], XAI_RELIGION),
     ([XAI_NUTRITION, XAI_WORKOUTS, XAI_MENTAL_HEALTH], XAI_HEALTH_FITNESS),
     ([XAI_DATING, XAI_MARRIAGE], XAI_RELATIONSHIPS),
     ([XAI_PARENTING], XAI_FAMILY),
     ([XAI_ELECTIONS], XAI_POLITICS),
     ([XAI_CRYPTOCURRENCY, XAI_STOCKS, XAI_ENTREPRENEURSHIP, XAI_REAL_ESTATE, XAI_PERSONAL_FINANCE], XAI_BUSINESS_FINANCE_REAL),
     ([XAI_AI, XAI_SOFTWARE_DEVELOPMENT, XAI_ROBOTICS, XAI_ELECTRONICS], XAI_TECHNOLOGY),
     ([XAI_BIOTECH, XAI_SPACE], XAI_SCIENCE),
     ([XAI_BUNDESLIGA, XAI_LA_LIGA, XAI_LIGUE1, XAI_UEFA_CL, XAI_UEFA_EL, XAI_UEFA_ECL, XAI_PREMIER_LEAGUE,
      XAI_SERIE_A], XAI_SOCCER),
     ([XAI_NBA, XAI_WNBA], XAI_BASKETBALL),
     ([XAI_NCAA_FOOTBALL, XAI_NFL], XAI_AMERICAN_FOOTBALL),
     ([XAI_MLB], XAI_BASEBALL),
     ([XAI_IPL], XAI_CRICKET),
     ([XAI_NHL], XAI_ICE_HOCKEY),
     ([XAI_FORMULA1, XAI_NASCAR, XAI_MOTO_GP], XAI_RACING),
     ([XAI_ESPORTS], XAI_GAMING),
     ([XAI_MOTORCYCLES], XAI_CARS),
     ([XAI_STREAMING], XAI_MOVIES_TV),
     ([XAI_AMERICAN_FOOTBALL, XAI_ATHLETICS, XAI_BASEBALL, XAI_BASKETBALL, XAI_BOXING, XAI_CRICKET,
      XAI_CYCLING, XAI_GOLF, XAI_ICE_HOCKEY, XAI_MMA, XAI_OLYMPICS, XAI_RACING, XAI_RUGBY, XAI_SKIING,
      XAI_SNOWBOARDING, XAI_SOCCER, XAI_TENNIS, XAI_WWE], XAI_SPORTS_REAL)]"

definition supertopic :: "i64 \<Rightarrow> i64" where
  "supertopic topic_id =
     (case List.find (\<lambda>(ids, above_topic). topic_id \<in> set ids) supertopic_table of
        Some (ids, above_topic) \<Rightarrow> above_topic | None \<Rightarrow> topic_id)"

definition expand_supertopic :: "i64 \<Rightarrow> i64 list" where
  "expand_supertopic topic_id = expand_one (supertopic topic_id)"

definition bulk_topic_match :: "scored_posts_query \<Rightarrow> post_candidate \<Rightarrow> bool" where
  "bulk_topic_match q c =
     (let expanded = expand (topic_ids q);
          excluded = List.filter (\<lambda>t. t \<notin> set expanded) all_production_topic_ids
      in case filtered_topic_ids c of
           Some candidate_topics \<Rightarrow>
             candidate_topics \<noteq> [] \<longrightarrow> \<not> list_all (\<lambda>t. t \<in> set excluded) candidate_topics
         | None \<Rightarrow> True)"

definition topic_match :: "scored_posts_query \<Rightarrow> post_candidate \<Rightarrow> bool" where
  "topic_match q c =
     (let exp_topics = unwrap_or [] (filtered_topic_ids c);
          unf_topics = unwrap_or [] (unfiltered_topic_ids c)
      in list_ex (\<lambda>tid.
           let tid_expanded = expand_one tid;
               path1 = list_ex (\<lambda>et. et \<in> set tid_expanded) exp_topics
           in if path1 then True
              else list_ex (\<lambda>ut. ut \<in> set tid_expanded) unf_topics \<and>
                   list_ex (\<lambda>et. et \<in> set (expand_supertopic tid)) exp_topics) (topic_ids q))"

definition not_excluded :: "scored_posts_query \<Rightarrow> post_candidate \<Rightarrow> bool" where
  "not_excluded q c =
     (let excluded_expanded = expand (excluded_topic_ids q) @ excluded_topic_ids q
      in case filtered_topic_ids c of
           Some candidate_topics \<Rightarrow>
             candidate_topics \<noteq> [] \<and> \<not> list_ex (\<lambda>t. t \<in> set excluded_expanded) candidate_topics
         | None \<Rightarrow> False)"

definition topic_ids_filter :: post_filter where
  "topic_ids_filter = \<lparr>fl_name = ''TopicIdsFilter'',
     fl_enable = (\<lambda>q. is_topic_request q \<or> has_excluded_topics q),
     fl_filter = (\<lambda>q cs.
       let r1 = (if is_topic_request q
                 then (if is_bulk_topic_request q then filter_partition cs (bulk_topic_match q)
                       else filter_partition cs (topic_match q))
                 else \<lparr>kept = cs, removed = []\<rparr>)
       in if has_excluded_topics q
          then let r2 = filter_partition (kept r1) (not_excluded q)
               in \<lparr>kept = kept r2, removed = removed r1 @ removed r2\<rparr>
          else r1)\<rparr>"

lemmas topic_ids = SCIENCE_TECHNOLOGY_def ENTERTAINMENT_def BUSINESS_FINANCE_def SPORTS_def XAI_POLITICS_def
  XAI_AI_def XAI_GAMING_def XAI_CRYPTOCURRENCY_def XAI_US_IRAN_WAR_def XAI_STOCKS_ECONOMY_def
  XAI_NEWS_def XAI_NATURAL_DISASTERS_def XAI_MOVIES_TV_def XAI_STREAMING_def XAI_MUSIC_def
  XAI_DANCE_def XAI_CELEBRITY_def XAI_ANIME_def XAI_SOCCER_def XAI_BUNDESLIGA_def XAI_LA_LIGA_def
  XAI_LIGUE1_def XAI_UEFA_CL_def XAI_UEFA_EL_def XAI_UEFA_ECL_def XAI_BASKETBALL_def XAI_NBA_def
  XAI_WNBA_def XAI_AMERICAN_FOOTBALL_def XAI_NCAA_FOOTBALL_def XAI_NFL_def XAI_BASEBALL_def
  XAI_MLB_def XAI_TENNIS_def XAI_CRICKET_def XAI_IPL_def XAI_MMA_def XAI_WWE_def XAI_BOXING_def
  XAI_GOLF_def XAI_RACING_def XAI_FORMULA1_def XAI_NASCAR_def XAI_ICE_HOCKEY_def XAI_NHL_def
  XAI_OLYMPICS_def XAI_RUGBY_def XAI_CYCLING_def XAI_SKIING_def XAI_SNOWBOARDING_def
  XAI_HEALTH_FITNESS_def XAI_NUTRITION_def XAI_WORKOUTS_def XAI_TRAVEL_def XAI_AVIATION_def
  XAI_FOOD_def XAI_COOKING_def XAI_BAKING_def XAI_RESTAURANTS_def XAI_DRINKS_def XAI_MEMES_def
  XAI_BEAUTY_def XAI_FASHION_def XAI_NATURE_OUTDOORS_def XAI_PETS_def XAI_CATS_def XAI_DOGS_def
  XAI_HOME_GARDEN_def XAI_ART_def XAI_RELIGION_def XAI_SHOPPING_def XAI_EDUCATION_def XAI_CAREER_def
  XAI_CARS_def XAI_MOTORCYCLES_def XAI_RELATIONSHIPS_def XAI_FAMILY_def XAI_MARRIAGE_def
  XAI_PARENTING_def XAI_PODCASTS_def XAI_POP_def XAI_K_POP_def XAI_COUNTRY_MUSIC_def
  XAI_ELECTRONIC_def XAI_J_POP_def XAI_ROCK_def XAI_PHOTOGRAPHY_def XAI_DESIGN_def
  XAI_SOFTWARE_DEVELOPMENT_def XAI_ROBOTICS_def XAI_SPACE_def XAI_BIOTECH_def XAI_ELECTRONICS_def
  XAI_STOCKS_def XAI_ENTREPRENEURSHIP_def XAI_REAL_ESTATE_def XAI_PERSONAL_FINANCE_def XAI_CRIME_def
  XAI_DATING_def XAI_ELECTIONS_def XAI_ESPORTS_def XAI_HIP_HOP_def XAI_JAZZ_def XAI_CONCERTS_def
  XAI_MENTAL_HEALTH_def XAI_MOTO_GP_def XAI_PREMIER_LEAGUE_def XAI_SERIE_A_def XAI_CHRISTIANITY_def
  XAI_BUDDHISM_def XAI_HINDUISM_def XAI_ISLAM_def XAI_JUDAISM_def XAI_DIGITAL_ART_def XAI_SCIENCE_def
  XAI_TECHNOLOGY_def XAI_BUSINESS_FINANCE_REAL_def XAI_SPORTS_REAL_def XAI_ATHLETICS_def

section \<open>The tables\<close>

lemma topic_uints:
  "uint SCIENCE_TECHNOLOGY = 1000000000000000001"
  "uint ENTERTAINMENT = 1000000000000000002"
  "uint BUSINESS_FINANCE = 1000000000000000003"
  "uint SPORTS = 1000000000000000004"
  "uint XAI_POLITICS = 1925952771733262336"
  "uint XAI_AI = 1925953013547450368"
  "uint XAI_GAMING = 1925949766673797120"
  "uint XAI_CRYPTOCURRENCY = 1925949693290295298"
  "uint XAI_US_IRAN_WAR = 2000000000000000001"
  "uint XAI_STOCKS_ECONOMY = 2000000000000000002"
  "uint XAI_NEWS = 1925949634972626944"
  "uint XAI_NATURAL_DISASTERS = 1925952795854745601"
  "uint XAI_MOVIES_TV = 1925949788068909057"
  "uint XAI_STREAMING = 1925950455806369792"
  "uint XAI_MUSIC = 1925949604224196608"
  "uint XAI_DANCE = 1925950383899267072"
  "uint XAI_CELEBRITY = 1925949555071176704"
  "uint XAI_ANIME = 1925949503837798401"
  "uint XAI_SOCCER = 1925950498420469760"
  "uint XAI_BUNDESLIGA = 1925951257107206144"
  "uint XAI_LA_LIGA = 1925951079100928001"
  "uint XAI_LIGUE1 = 1925951305895272448"
  "uint XAI_UEFA_CL = 1925951334777233408"
  "uint XAI_UEFA_EL = 1925951366175813632"
  "uint XAI_UEFA_ECL = 1925951417010753536"
  "uint XAI_BASKETBALL = 1925950530842464256"
  "uint XAI_NBA = 1925951454121967616"
  "uint XAI_WNBA = 1925951561211023361"
  "uint XAI_AMERICAN_FOOTBALL = 1925950554133446656"
  "uint XAI_NCAA_FOOTBALL = 1925951645872975873"
  "uint XAI_NFL = 1925951614067650560"
  "uint XAI_BASEBALL = 1925950576740675584"
  "uint XAI_MLB = 1925951672561319936"
  "uint XAI_TENNIS = 1925950625835008001"
  "uint XAI_CRICKET = 1925950653035151360"
  "uint XAI_IPL = 1925951866464006145"
  "uint XAI_MMA = 1925950600140718080"
  "uint XAI_WWE = 1925950864117702656"
  "uint XAI_BOXING = 1925950713982537888"
  "uint XAI_GOLF = 1925950690574180352"
  "uint XAI_RACING = 1943810034309246976"
  "uint XAI_FORMULA1 = 1925950746756800513"
  "uint XAI_NASCAR = 1925951703007858688"
  "uint XAI_ICE_HOCKEY = 1925950813043662848"
  "uint XAI_NHL = 1925951775544061952"
  "uint XAI_OLYMPICS = 1943811470724153345"
  "uint XAI_RUGBY = 1925950895595876352"
  "uint XAI_CYCLING = 1925950926910582786"
  "uint XAI_SKIING = 1925950954962096130"
  "uint XAI_SNOWBOARDING = 1925950982346682368"
  "uint XAI_HEALTH_FITNESS = 1925949856834588672"
  "uint XAI_NUTRITION = 1925953366091350017"
  "uint XAI_WORKOUTS = 1925953337020555264"
  "uint XAI_TRAVEL = 1925949812844769280"
  "uint XAI_AVIATION = 1925950031476957184"
  "uint XAI_FOOD = 1925949835649126400"
  "uint XAI_COOKING = 1925953199694819328"
  "uint XAI_BAKING = 1925953282146451456"
  "uint XAI_RESTAURANTS = 1925953243223339009"
  "uint XAI_DRINKS = 1925953310894252033"
  "uint XAI_MEMES = 1925949876694556672"
  "uint XAI_BEAUTY = 1925950199861538818"
  "uint XAI_FASHION = 1925949932181082112"
  "uint XAI_NATURE_OUTDOORS = 1925950228047216640"
  "uint XAI_PETS = 1925950249245282304"
  "uint XAI_CATS = 1925953794732433408"
  "uint XAI_DOGS = 1925953826281902080"
  "uint XAI_HOME_GARDEN = 1925950341452845057"
  "uint XAI_ART = 1925949898106540032"
  "uint XAI_RELIGION = 1925949956008878080"
  "uint XAI_SHOPPING = 1925949979966701568"
  "uint XAI_EDUCATION = 1925950405709631490"
  "uint XAI_CAREER = 1925950361245786112"
  "uint XAI_CARS = 1925950007624028160"
  "uint XAI_MOTORCYCLES = 1925950100397793280"
  "uint XAI_RELATIONSHIPS = 1925950276835454977"
  "uint XAI_FAMILY = 1925954059338493952"
  "uint XAI_MARRIAGE = 1925953930002907137"
  "uint XAI_PARENTING = 1925954095342338048"
  "uint XAI_PODCASTS = 1925950433807175680"
  "uint XAI_POP = 1925952179791151105"
  "uint XAI_K_POP = 1925952056088530944"
  "uint XAI_COUNTRY_MUSIC = 1925952353485602816"
  "uint XAI_ELECTRONIC = 1925952257893257217"
  "uint XAI_J_POP = 1925952123960709120"
  "uint XAI_ROCK = 1925952228818354177"
  "uint XAI_PHOTOGRAPHY = 1925954143472017408"
  "uint XAI_DESIGN = 1925954681496322048"
  "uint XAI_SOFTWARE_DEVELOPMENT = 1925953040130953216"
  "uint XAI_ROBOTICS = 1925953169307189248"
  "uint XAI_SPACE = 1925953141452718081"
  "uint XAI_BIOTECH = 1925953107038519296"
  "uint XAI_ELECTRONICS = 1925953073983139840"
  "uint XAI_STOCKS = 1925952876284727296"
  "uint XAI_ENTREPRENEURSHIP = 1925952916411564032"
  "uint XAI_REAL_ESTATE = 1925952947197784064"
  "uint XAI_PERSONAL_FINANCE = 1925952988486447104"
  "uint XAI_CRIME = 1925952744239620096"
  "uint XAI_DATING = 1925953884108824576"
  "uint XAI_ELECTIONS = 1925952820714332161"
  "uint XAI_ESPORTS = 1925950783448576000"
  "uint XAI_HIP_HOP = 1925952203962896384"
  "uint XAI_JAZZ = 1925952300213768192"
  "uint XAI_CONCERTS = 1925952145615974400"
  "uint XAI_MENTAL_HEALTH = 1925953421338726400"
  "uint XAI_MOTO_GP = 1925951732204335105"
  "uint XAI_PREMIER_LEAGUE = 1925951020036751361"
  "uint XAI_SERIE_A = 1925951109660577792"
  "uint XAI_CHRISTIANITY = 1925953452644978688"
  "uint XAI_BUDDHISM = 1925953574929842176"
  "uint XAI_HINDUISM = 1925953483758338048"
  "uint XAI_ISLAM = 1925953516834590721"
  "uint XAI_JUDAISM = 1925953757117865984"
  "uint XAI_DIGITAL_ART = 1925954197326831616"
  "uint XAI_SCIENCE = 1925949744683114496"
  "uint XAI_TECHNOLOGY = 1925949722688126976"
  "uint XAI_BUSINESS_FINANCE_REAL = 1925949659857530880"
  "uint XAI_SPORTS_REAL = 1925949452197478400"
  "uint XAI_ATHLETICS = 1925950838414942210"
  by (simp_all add: topic_ids)

lemma distinct_topics: "distinct (map fst category_table)"
proof -
  have "distinct (map uint (map fst category_table))" by (simp add: category_table_def topic_uints)
  then show ?thesis by (simp only: distinct_map)
qed

text \<open>
  A topic in the row of another belongs to its own row, and its row is part of the other one. Rows with
  one topic need no computation.
\<close>

lemma wide_rows_closed:
  "list_all (\<lambda>(t, ids). list_all (\<lambda>(k, js). uint k \<in> set (map uint ids) \<longrightarrow>
       uint k \<in> set (map uint js) \<and> set (map uint js) \<subseteq> set (map uint ids)) category_table)
     (List.filter (\<lambda>(t, ids). tl ids \<noteq> []) category_table)"
  by (simp add: category_table_def topic_uints)

lemma narrow_rows: "list_all (\<lambda>(t, ids). tl ids = [] \<longrightarrow> ids = [t]) category_table"
  by (simp add: category_table_def)

lemma uint_in_image [simp]: "uint k \<in> uint ` set ids \<longleftrightarrow> k \<in> set ids"
  by (rule inj_image_mem_iff) (simp add: inj_on_def word_uint_eq_iff)

lemma rows_closed:
  assumes "(t, ids) \<in> set category_table" "(k, js) \<in> set category_table" "k \<in> set ids"
  shows "k \<in> set js" "set js \<subseteq> set ids"
proof -
  have "k \<in> set js \<and> set js \<subseteq> set ids"
  proof (cases "tl ids = []")
    case True
    then have "ids = [t]" using narrow_rows assms(1) unfolding list_all_iff by blast
    moreover from this have "k = t" using assms(3) by simp
    ultimately have "js = [t]" using assms(1,2) eq_key_imp_eq_value [OF distinct_topics, of t js ids] by simp
    then show ?thesis using \<open>k = t\<close> \<open>ids = [t]\<close> by simp
  next
    case False
    then have "uint k \<in> set (map uint js) \<and> set (map uint js) \<subseteq> set (map uint ids)"
    proof -
      have "(t, ids) \<in> set (List.filter (\<lambda>(t, ids). tl ids \<noteq> []) category_table)" using False assms(1) by simp
      then have "list_all (\<lambda>(k, js). uint k \<in> set (map uint ids) \<longrightarrow> uint k \<in> set (map uint js) \<and>
          set (map uint js) \<subseteq> set (map uint ids)) category_table"
        using wide_rows_closed unfolding list_all_iff by blast
      moreover have "uint k \<in> set (map uint ids)" using assms(3) by simp
      ultimately show ?thesis using assms(2) unfolding list_all_iff by blast
    qed
    then show ?thesis using inj_image_subset_iff [of uint "set js" "set ids"]
      by (simp add: inj_on_def word_uint_eq_iff)
  qed
  then show "k \<in> set js" "set js \<subseteq> set ids" by blast+
qed

lemma expand_one_closed:
  assumes "i \<in> set (expand_one t)"
  shows "set (expand_one i) \<subseteq> set (expand_one t)" and "i \<in> set (expand_one i)"
proof -
  have "set (expand_one i) \<subseteq> set (expand_one t) \<and> i \<in> set (expand_one i)"
  proof (cases "category_ids t")
    case None
    then show ?thesis using assms by (simp add: expand_one_def)
  next
    case (Some ids)
    show ?thesis
    proof (cases "category_ids i")
      case (Some js)
      then show ?thesis
        using rows_closed [of t ids i js] assms \<open>category_ids t = Some ids\<close>
        by (auto simp: expand_one_def category_ids_def dest: map_of_SomeD)
    qed (use assms Some in \<open>simp add: expand_one_def\<close>)
  qed
  then show "set (expand_one i) \<subseteq> set (expand_one t)" "i \<in> set (expand_one i)" by blast+
qed

lemma expand_idem: "set (expand (expand ids)) = set (expand ids)"
  using expand_one_closed by (fastforce simp: expand_def)

section \<open>What the filter keeps\<close>

text \<open>The reference, on sets of topics.\<close>

definition topic_tags :: "post_candidate \<Rightarrow> i64 set" where
  "topic_tags c = set (unwrap_or [] (filtered_topic_ids c))"

definition loose_tags :: "post_candidate \<Rightarrow> i64 set" where
  "loose_tags c = set (unwrap_or [] (unfiltered_topic_ids c))"

definition banned_topics :: "scored_posts_query \<Rightarrow> i64 set" where
  "banned_topics q = set (expand (excluded_topic_ids q)) \<union> set (excluded_topic_ids q)"

definition topic_asked :: "scored_posts_query \<Rightarrow> post_candidate \<Rightarrow> bool" where
  "topic_asked q c =
     (if topic_ids q = [] then True
      else if 6 < length (topic_ids q)
        then topic_tags c = {} \<or> \<not> topic_tags c \<subseteq> set all_production_topic_ids - set (expand (topic_ids q))
      else list_ex (\<lambda>t. topic_tags c \<inter> set (expand_one t) \<noteq> {} \<or>
             (loose_tags c \<inter> set (expand_one t) \<noteq> {} \<and> topic_tags c \<inter> set (expand_supertopic t) \<noteq> {})) (topic_ids q))"

definition topic_allowed :: "scored_posts_query \<Rightarrow> post_candidate \<Rightarrow> bool" where
  "topic_allowed q c = (if excluded_topic_ids q = [] then True
     else topic_tags c \<noteq> {} \<and> topic_tags c \<inter> banned_topics q = {})"

lemma topic_match_iff: "topic_match q c =
    list_ex (\<lambda>t. topic_tags c \<inter> set (expand_one t) \<noteq> {} \<or>
      (loose_tags c \<inter> set (expand_one t) \<noteq> {} \<and> topic_tags c \<inter> set (expand_supertopic t) \<noteq> {})) (topic_ids q)"
proof -
  have "list_ex (\<lambda>x. x \<in> S) xs \<longleftrightarrow> set xs \<inter> S \<noteq> {}" for S and xs :: "i64 list" by (auto simp: list_ex_iff)
  then show ?thesis by (simp add: topic_match_def Let_def topic_tags_def loose_tags_def)
qed

lemma bulk_topic_match_iff: "bulk_topic_match q c \<longleftrightarrow>
    topic_tags c = {} \<or> \<not> topic_tags c \<subseteq> set all_production_topic_ids - set (expand (topic_ids q))"
  by (auto simp: bulk_topic_match_def Let_def topic_tags_def unwrap_or_def list_all_iff split: option.split)

lemma not_excluded_iff: "not_excluded q c \<longleftrightarrow> topic_tags c \<noteq> {} \<and> topic_tags c \<inter> banned_topics q = {}"
  by (auto simp: not_excluded_def Let_def topic_tags_def banned_topics_def unwrap_or_def list_ex_iff split: option.split)
    (metis list.set_intros(1) neq_Nil_conv)

lemmas topic_reference = topic_match_iff [abs_def] bulk_topic_match_iff [abs_def] not_excluded_iff [abs_def]

lemma topic_filter_kept:
  "kept (fl_filter topic_ids_filter q cs) = List.filter (\<lambda>c. topic_asked q c \<and> topic_allowed q c) cs"
  by (simp add: topic_ids_filter_def Let_def is_topic_request_def is_bulk_topic_request_def has_excluded_topics_def
      topic_asked_def topic_allowed_def topic_reference conj_commute)

interpretation topic_filter: conserving_filter "fl_filter topic_ids_filter" core
  by unfold_locales
    (auto simp: topic_ids_filter_def Let_def mset_filter_split ac_simps simp flip: image_mset_union simp del: mset_filter)

text \<open>
  C36. The topic filter keeps, in their order, exactly the candidates that the reference on sets of
  topics keeps: asked for by one of the requested topics, and tagged with topics none of which is
  excluded; and to exclude a topic excludes everything it stands for, however often it is expanded.
\<close>

theorem topic_filter_reference:
  "kept (fl_filter topic_ids_filter q cs) = List.filter (\<lambda>c. topic_asked q c \<and> topic_allowed q c) cs \<and>
   mset (map core (kept (fl_filter topic_ids_filter q cs))) +
     mset (map core (removed (fl_filter topic_ids_filter q cs))) = mset (map core cs) \<and>
   banned_topics (q\<lparr>excluded_topic_ids := expand (excluded_topic_ids q)\<rparr>) \<union> set (excluded_topic_ids q) = banned_topics q"
  using topic_filter_kept topic_filter.conserves expand_idem [of "excluded_topic_ids q"]
  by (simp add: banned_topics_def del: mset_map)

end
