(* ===== verification/Cached_Hydrator.thy ===== *)
theory Cached_Hydrator
  imports Candidate_Pipeline "HOL-Library.AList"
begin

text \<open>
  The hydrator with a cache (\<open>candidate-pipeline/hydrator.rs\<close>, trait \<open>CachedHydrator\<close> and the hydrator
  it provides). The store is an association list that a call reads and returns updated. As in the
  source the vector of results stays empty until the first candidate is found in the store.
\<close>

section \<open>Definitions\<close>

record ('q, 'c, 'k, 'v) cached_hydrator =
  ch_name :: string
  ch_enable :: "'q \<Rightarrow> bool"
  cache_key_for :: "'q \<Rightarrow> 'c \<Rightarrow> 'k"
  cache_value :: "'c \<Rightarrow> 'v"
  hydrate_from_cache :: "'v \<Rightarrow> 'c"
  hydrate_from_client :: "'q \<Rightarrow> 'c list \<Rightarrow> 'c result list"
  already_hydrated :: "'c \<Rightarrow> bool"
  ch_update :: "'c \<Rightarrow> 'c \<Rightarrow> 'c"

type_synonym ('c, 'k) lookup_state = "'c result option list \<times> ('k \<times> nat) list"

definition found :: "nat \<Rightarrow> nat \<Rightarrow> 'c \<Rightarrow> ('c, 'k) lookup_state \<Rightarrow> ('c, 'k) lookup_state" where
  "found n index hydrated st =
     (let results = (if fst st = [] then replicate n None else fst st)
      in (results[index := Some (Ok hydrated)], snd st))"

definition look_up :: "('q, 'c, 'k, 'v) cached_hydrator \<Rightarrow> 'q \<Rightarrow> nat \<Rightarrow> ('k \<times> 'v) list \<Rightarrow> nat \<times> 'c \<Rightarrow>
    ('c, 'k) lookup_state \<Rightarrow> ('c, 'k) lookup_state" where
  "look_up h q n store ic st =
     (let (index, c) = ic
      in if already_hydrated h c then found n index (hydrate_from_cache h (cache_value h c)) st
         else let key = cache_key_for h q c
              in case map_of store key of
                   Some v \<Rightarrow> found n index (hydrate_from_cache h v) st
                 | None \<Rightarrow> (fst st, snd st @ [(key, index)]))"

definition store_result :: "('q, 'c, 'k, 'v) cached_hydrator \<Rightarrow> 'k \<times> 'c result \<Rightarrow> ('k \<times> 'v) list \<Rightarrow> ('k \<times> 'v) list" where
  "store_result h kr store = (case kr of (key, Inr hydrated) \<Rightarrow> AList.update key (cache_value h hydrated) store | _ \<Rightarrow> store)"

definition fill_in :: "((('k \<times> nat) \<times> 'c result)) list \<Rightarrow> 'c result option list \<Rightarrow> 'c result option list" where
  "fill_in filled results = fold (\<lambda>((key, index), hydrated) rs. rs[index := Some hydrated]) filled results"

definition cached_hydrate :: "('q, 'c, 'k, 'v) cached_hydrator \<Rightarrow> 'q \<Rightarrow> 'c list \<Rightarrow> ('k \<times> 'v) list \<Rightarrow>
    'c result list \<times> ('k \<times> 'v) list" where
  "cached_hydrate h q candidates store =
     (let (results, missing) = fold (look_up h q (length candidates) store) (enumerate 0 candidates) ([], []);
          finish = map (\<lambda>r. case r of Some x \<Rightarrow> x | None \<Rightarrow> Err ''Missing hydration result for candidate'')
      in if missing = [] then (finish results, store)
         else let missing_candidates = (if results = [] then candidates else map (\<lambda>(key, index). candidates ! index) missing);
                  hydrated_missing = hydrate_from_client h q missing_candidates
              in if length hydrated_missing \<noteq> length missing
                 then (replicate (length candidates)
                         (Err (length_mismatch ''CachedHydrator'' (length missing) (length hydrated_missing))), store)
                 else let store' = fold (store_result h) (zip (map fst missing) hydrated_missing) store
                      in if results = [] then (hydrated_missing, store')
                         else (finish (fill_in (zip missing hydrated_missing) results), store'))"

text \<open>A cached hydrator as a hydrator of the runner, at a given content of the store.\<close>

definition hydrator_of :: "('q, 'c, 'k, 'v) cached_hydrator \<Rightarrow> ('k \<times> 'v) list \<Rightarrow> ('q, 'c) hydrator" where
  "hydrator_of h store = \<lparr>hy_name = ch_name h, hy_enable = ch_enable h,
     hy_hydrate_for_stage = (\<lambda>q cs stage. fst (cached_hydrate h q cs store)), hy_update = ch_update h\<rparr>"

section \<open>The lookup\<close>

text \<open>What the first loop knows of a candidate: a hydrated value, or nothing.\<close>

definition known :: "('q, 'c, 'k, 'v) cached_hydrator \<Rightarrow> 'q \<Rightarrow> ('k \<times> 'v) list \<Rightarrow> 'c \<Rightarrow> 'c option" where
  "known h q store c =
     (if already_hydrated h c then Some (hydrate_from_cache h (cache_value h c))
      else map_option (hydrate_from_cache h) (map_of store (cache_key_for h q c)))"

definition missing_of :: "('q, 'c, 'k, 'v) cached_hydrator \<Rightarrow> 'q \<Rightarrow> ('k \<times> 'v) list \<Rightarrow> 'c list \<Rightarrow> nat \<Rightarrow> nat list" where
  "missing_of h q store cs n = List.filter (\<lambda>i. known h q store (cs ! i) = None) [0..<n]"

lemma look_up_known:
  "look_up h q n store (i, c) st =
     (case known h q store c of Some w \<Rightarrow> found n i w st | None \<Rightarrow> (fst st, snd st @ [(cache_key_for h q c, i)]))"
  by (simp add: look_up_def known_def Let_def split: option.split)

lemma enumerate_upt: "enumerate 0 cs = map (\<lambda>i. (i, cs ! i)) [0..<length cs]"
  by (rule nth_equalityI) (simp_all add: nth_enumerate_eq)

lemma look_up_fold:
  assumes "n \<le> length cs"
  shows "fold (look_up h q (length cs) store) (map (\<lambda>i. (i, cs ! i)) [0..<n]) ([], []) =
    (if missing_of h q store cs n = [0..<n] then []
       else map (\<lambda>i. if i < n then map_option Ok (known h q store (cs ! i)) else None) [0..<length cs],
     map (\<lambda>i. (cache_key_for h q (cs ! i), i)) (missing_of h q store cs n))"
  using assms
proof (induction n)
  case 0
  then show ?case by (simp add: missing_of_def)
next
  case (Suc n)
  have len: "length (missing_of h q store cs n) \<le> n" by (simp add: missing_of_def order_trans [OF length_filter_le])
  have snoc: "missing_of h q store cs (Suc n) = missing_of h q store cs n @ (if known h q store (cs ! n) = None then [n] else [])"
    by (simp add: missing_of_def)
  show ?case
  proof (cases "known h q store (cs ! n)")
    case None
    have "map (\<lambda>i. if i < Suc n then map_option Ok (known h q store (cs ! i)) else None) [0..<length cs] =
        map (\<lambda>i. if i < n then map_option Ok (known h q store (cs ! i)) else None) [0..<length cs]"
      using None by (auto simp: less_Suc_eq)
    then show ?thesis using Suc None by (simp add: look_up_known snoc)
  next
    case (Some w)
    have ne: "missing_of h q store cs (Suc n) \<noteq> [0..<Suc n]"
    proof
      assume "missing_of h q store cs (Suc n) = [0..<Suc n]"
      then have "length (missing_of h q store cs n) = Suc n" using Some snoc by (metis append_Nil2 diff_zero length_upt option.discI)
      then show False using len by simp
    qed
    let ?rs = "\<lambda>n. map (\<lambda>i. if i < n then map_option Ok (known h q store (cs ! i)) else None) [0..<length cs]"
    have "(?rs n)[n := Some (Ok w)] = ?rs (Suc n)"
      using Some Suc.prems by (intro nth_equalityI) (auto simp: nth_list_update less_Suc_eq)
    moreover have "replicate (length cs) None = ?rs n" if "missing_of h q store cs n = [0..<n]"
    proof (rule nth_equalityI)
      fix i assume i: "i < length (replicate (length cs) None)"
      have "known h q store (cs ! i) = None" if "i < n"
      proof -
        have "i \<in> set (missing_of h q store cs n)" using \<open>missing_of h q store cs n = [0..<n]\<close> that by simp
        then show ?thesis by (simp add: missing_of_def)
      qed
      then show "replicate (length cs) None ! i = ?rs n ! i" using i by simp
    qed simp
    moreover have "?rs n \<noteq> []" using Suc.prems by auto
    ultimately show ?thesis using Suc ne Some by (simp add: look_up_known snoc found_def Let_def)
  qed
qed

section \<open>The result\<close>

text \<open>The candidates that go to the client.\<close>

definition unknown :: "('q, 'c, 'k, 'v) cached_hydrator \<Rightarrow> 'q \<Rightarrow> ('k \<times> 'v) list \<Rightarrow> 'c list \<Rightarrow> 'c list" where
  "unknown h q store cs = List.filter (\<lambda>c. known h q store c = None) cs"

lemma unknown_missing: "unknown h q store cs = map ((!) cs) (missing_of h q store cs (length cs))"
  using filter_map [of "\<lambda>c. known h q store c = None" "(!) cs" "[0..<length cs]"]
  by (simp add: unknown_def missing_of_def map_nth comp_def)

lemma length_fill_in [simp]: "length (fill_in filled rs) = length rs"
  by (induction filled arbitrary: rs) (auto simp: fill_in_def)

lemma nth_fill_in:
  "j < length rs \<Longrightarrow> fill_in (map (\<lambda>i. ((k i, i), g i)) ms) rs ! j = (if j \<in> set ms then Some (g j) else rs ! j)"
proof (induction ms arbitrary: rs)
  case (Cons i ms)
  have "fill_in (map (\<lambda>i. ((k i, i), g i)) (i # ms)) rs = fill_in (map (\<lambda>i. ((k i, i), g i)) ms) (rs[i := Some (g i)])"
    by (simp add: fill_in_def)
  then show ?case using Cons by (auto simp: nth_list_update)
qed (simp add: fill_in_def)

lemma zip_maps: "zip (map f xs) (map g xs) = map (\<lambda>x. (f x, g x)) xs"
  by (induction xs) simp_all

lemma cached_hydrate_pointwise:
  assumes client: "hydrate_from_client h q (unknown h q store cs) = map f (unknown h q store cs)"
  shows "cached_hydrate h q cs store =
    (map (\<lambda>c. case known h q store c of Some w \<Rightarrow> Ok w | None \<Rightarrow> f c) cs,
     fold (store_result h) (map (\<lambda>c. (cache_key_for h q c, f c)) (unknown h q store cs)) store)"
proof -
  let ?n = "length cs" and ?kn = "\<lambda>i. known h q store (cs ! i)" and ?key = "\<lambda>i. cache_key_for h q (cs ! i)"
  define ms where "ms = missing_of h q store cs ?n"
  define rs where "rs = (if ms = [0..<?n] then [] else map (\<lambda>i. map_option Ok (?kn i)) [0..<?n])"
  have fold_eq: "fold (look_up h q ?n store) (enumerate 0 cs) ([], []) = (rs, map (\<lambda>i. (?key i, i)) ms)"
  proof -
    have "map (\<lambda>i. if i < ?n then map_option Ok (?kn i) else None) [0..<?n] = map (\<lambda>i. map_option Ok (?kn i)) [0..<?n]"
      by (rule map_cong) auto
    then show ?thesis using look_up_fold [of ?n cs h q store] by (simp add: enumerate_upt rs_def ms_def)
  qed
  have un: "unknown h q store cs = map ((!) cs) ms" by (simp add: unknown_missing ms_def)
  have in_ms: "i \<in> set ms \<longleftrightarrow> i < ?n \<and> ?kn i = None" for i by (auto simp: ms_def missing_of_def)
  have all: "map (\<lambda>c. case known h q store c of Some w \<Rightarrow> Ok w | None \<Rightarrow> f c) cs =
      map (\<lambda>i. case ?kn i of Some w \<Rightarrow> Ok w | None \<Rightarrow> f (cs ! i)) [0..<?n]"
    using map_map [of "\<lambda>c. case known h q store c of Some w \<Rightarrow> Ok w | None \<Rightarrow> f c" "(!) cs" "[0..<?n]"]
    by (simp add: map_nth comp_def)
  have mc: "(if rs = [] then cs else map (\<lambda>(key, index). cs ! index) (map (\<lambda>i. (?key i, i)) ms)) = map ((!) cs) ms"
    by (auto simp: rs_def comp_def map_nth ms_def missing_of_def)
  have hyd: "hydrate_from_client h q (map ((!) cs) ms) = map (\<lambda>i. f (cs ! i)) ms" using client un by (simp add: comp_def)
  have keys: "map (\<lambda>c. (cache_key_for h q c, f c)) (unknown h q store cs) = zip (map fst (map (\<lambda>i. (?key i, i)) ms)) (map (\<lambda>i. f (cs ! i)) ms)"
    by (simp add: un zip_maps comp_def)
  show ?thesis
  proof (cases "ms = [0..<?n]")
    case True
    have none: "?kn i = None" if "i \<in> set ms" for i using in_ms that by blast
    have "map (\<lambda>i. f (cs ! i)) ms = map (\<lambda>i. case ?kn i of Some w \<Rightarrow> Ok w | None \<Rightarrow> f (cs ! i)) ms"
      by (rule map_cong [OF refl]) (simp add: none)
    then have "map (\<lambda>i. f (cs ! i)) ms = map (\<lambda>i. case ?kn i of Some w \<Rightarrow> Ok w | None \<Rightarrow> f (cs ! i)) [0..<?n]"
      using True by simp
    then show ?thesis using True mc hyd by (simp add: cached_hydrate_def fold_eq Let_def all keys rs_def)
  next
    case False
    let ?fin = "map (\<lambda>r. case r of Some x \<Rightarrow> x | None \<Rightarrow> Err ''Missing hydration result for candidate'')"
    have "?fin (fill_in (map (\<lambda>i. ((?key i, i), f (cs ! i))) ms) rs) =
        map (\<lambda>i. case ?kn i of Some w \<Rightarrow> Ok w | None \<Rightarrow> f (cs ! i)) [0..<?n]"
    proof (rule nth_equalityI)
      fix i assume "i < length (?fin (fill_in (map (\<lambda>i. ((?key i, i), f (cs ! i))) ms) rs))"
      then have i: "i < ?n" "i < length rs" using False by (simp_all add: rs_def)
      then show "?fin (fill_in (map (\<lambda>i. ((?key i, i), f (cs ! i))) ms) rs) ! i =
          map (\<lambda>i. case ?kn i of Some w \<Rightarrow> Ok w | None \<Rightarrow> f (cs ! i)) [0..<?n] ! i"
        using nth_fill_in [OF i(2), of ?key "\<lambda>i. f (cs ! i)" ms] in_ms [of i] False
        by (auto simp: rs_def split: option.splits)
    qed (simp add: rs_def False)
    moreover have "cs \<noteq> []" using False by (auto simp: ms_def missing_of_def)
    moreover have "rs \<noteq> []" using False \<open>cs \<noteq> []\<close> by (simp add: rs_def)
    ultimately show ?thesis
      using mc hyd by (cases "ms = []") (simp_all add: cached_hydrate_def fold_eq Let_def all keys zip_maps comp_def fill_in_def)
  qed
qed

section \<open>Coherence\<close>

text \<open>
  A store is valid when every entry is what the client would say now of each candidate with that key
  (among the candidates \<open>ok\<close> that occur).
\<close>

definition valid_store :: "('q, 'c, 'k, 'v) cached_hydrator \<Rightarrow> ('q \<Rightarrow> 'c \<Rightarrow> 'c result) \<Rightarrow> ('c \<Rightarrow> bool) \<Rightarrow> ('k \<times> 'v) list \<Rightarrow> bool" where
  "valid_store h f ok store \<longleftrightarrow>
     (\<forall>q c v. ok c \<and> map_of store (cache_key_for h q c) = Some v \<longrightarrow> f q c = Ok (hydrate_from_cache h v))"

text \<open>What a hydrator without a store answers.\<close>

definition uncached :: "('q, 'c, 'k, 'v) cached_hydrator \<Rightarrow> ('q \<Rightarrow> 'c \<Rightarrow> 'c result) \<Rightarrow> 'q \<Rightarrow> 'c \<Rightarrow> 'c result" where
  "uncached h f q c = (if already_hydrated h c then Ok (hydrate_from_cache h (cache_value h c)) else f q c)"

text \<open>
  A sequence of calls that share the store. The store is bounded and forgets entries between two
  calls: each request carries the keys that are still there after it.
\<close>

fun serve_requests :: "('q, 'c, 'k, 'v) cached_hydrator \<Rightarrow> ('q \<times> 'c list \<times> ('k \<Rightarrow> bool)) list \<Rightarrow> ('k \<times> 'v) list \<Rightarrow>
    'c result list list" where
  "serve_requests h [] store = []"
| "serve_requests h ((q, cs, remains) # reqs) store =
     (let (results, store') = cached_hydrate h q cs store
      in results # serve_requests h reqs (List.filter (\<lambda>(k, v). remains k) store'))"

text \<open>
  What the hydrator relies on: the client answers for each candidate by itself, the answer is determined
  by the key of the candidate, and a value survives its way through the store.
\<close>

locale coherent_hydrator =
  fixes h :: "('q, 'c, 'k, 'v) cached_hydrator" and f :: "'q \<Rightarrow> 'c \<Rightarrow> 'c result" and ok :: "'c \<Rightarrow> bool"
  assumes client: "list_all ok cs \<Longrightarrow> hydrate_from_client h q cs = map (f q) cs"
    and by_key: "ok c \<Longrightarrow> ok d \<Longrightarrow> cache_key_for h q c = cache_key_for h q' d \<Longrightarrow> f q c = f q' d"
    and survives: "ok c \<Longrightarrow> f q c = Ok w \<Longrightarrow> hydrate_from_cache h (cache_value h w) = w"
begin

lemma stored_valid:
  assumes "valid_store h f ok store" "ok c"
  shows "valid_store h f ok (store_result h (cache_key_for h q c, f q c) store)"
proof (cases "f q c")
  case (Inr w)
  have new: "store_result h (cache_key_for h q c, f q c) store = AList.update (cache_key_for h q c) (cache_value h w) store"
    using Inr by (simp add: store_result_def)
  show ?thesis
    unfolding valid_store_def new
  proof (intro allI impI, elim conjE)
    fix q' d v
    assume d: "ok d" and v: "map_of (AList.update (cache_key_for h q c) (cache_value h w) store) (cache_key_for h q' d) = Some v"
    show "f q' d = Ok (hydrate_from_cache h v)"
    proof (cases "cache_key_for h q' d = cache_key_for h q c")
      case True
      then show ?thesis using v by_key [OF d assms(2) True] Inr survives [OF assms(2) Inr] by (simp add: update_conv')
    next
      case False
      then show ?thesis using v d assms(1) unfolding valid_store_def by (simp add: update_conv')
    qed
  qed
qed (use assms in \<open>simp add: store_result_def\<close>)

lemma all_stored_valid:
  "valid_store h f ok store \<Longrightarrow> list_all ok cs \<Longrightarrow>
   valid_store h f ok (fold (store_result h) (map (\<lambda>c. (cache_key_for h q c, f q c)) cs) store)"
  by (induction cs arbitrary: store) (auto intro: stored_valid)

lemma cached_hydrate_valid:
  assumes "valid_store h f ok store" "list_all ok cs"
  shows "fst (cached_hydrate h q cs store) = map (uncached h f q) cs"
    and "valid_store h f ok (snd (cached_hydrate h q cs store))"
proof -
  have un: "list_all ok (unknown h q store cs)" using assms(2) by (auto simp: unknown_def list_all_iff)
  note eq = cached_hydrate_pointwise [OF client [OF un]]
  have "(case known h q store c of Some w \<Rightarrow> Ok w | None \<Rightarrow> f q c) = uncached h f q c" if "c \<in> set cs" for c
    using assms that by (auto simp: known_def valid_store_def uncached_def list_all_iff split: option.split)
  then show "fst (cached_hydrate h q cs store) = map (uncached h f q) cs"
    unfolding eq by simp
  show "valid_store h f ok (snd (cached_hydrate h q cs store))"
    unfolding eq snd_conv by (rule all_stored_valid [OF assms(1) un])
qed

lemma forgotten_valid: "valid_store h f ok store \<Longrightarrow> valid_store h f ok (List.filter (\<lambda>(k, v). remains k) store)"
proof -
  have "map_of (List.filter (\<lambda>(k, v). remains k) store) k = (if remains k then map_of store k else None)" for k
    by (induction store) auto
  then show "valid_store h f ok store \<Longrightarrow> valid_store h f ok (List.filter (\<lambda>(k, v). remains k) store)"
    by (auto simp: valid_store_def split: if_splits)
qed

lemma serve_requests_valid:
  "valid_store h f ok store \<Longrightarrow> list_all (\<lambda>(q, cs, remains). list_all ok cs) reqs \<Longrightarrow>
   serve_requests h reqs store = map (\<lambda>(q, cs, remains). map (uncached h f q) cs) reqs"
proof (induction reqs arbitrary: store)
  case (Cons req reqs)
  obtain q cs remains where req: "req = (q, cs, remains)" by (cases req)
  have ok: "list_all ok cs" using Cons.prems(2) req by simp
  note step = cached_hydrate_valid [OF Cons.prems(1) ok, of q]
  show ?case
    using Cons.IH [OF forgotten_valid [OF step(2)], of remains] Cons.prems(2) req step(1) by (simp add: split_beta)
qed simp

lemma empty_valid: "valid_store h f ok []"
  by (simp add: valid_store_def)

end

end
