(* ===== verification/Candidate_Hydrators.thy ===== *)
theory Candidate_Hydrators
  imports Cached_Hydrator Post_Filters
begin

text \<open>
  Hydrators of post candidates (\<open>home-mixer/candidate_hydrators/\<close>): core data and subscriptions through a
  cache, the viewer's network, blocks, ancestors of replies, quoted text, video ancestors, the label of
  soft NSFW posts and the visibility of a post and of the posts shown with it. The services they ask
  are the record \<open>hydration_env\<close>; a list of ids collected through a set is the list without repetitions.
\<close>

section \<open>The services\<close>

record core_data =
  cd_author_id :: u64
  cd_text :: string
  cd_source_tweet_id :: "u64 option"
  cd_source_user_id :: "u64 option"
  cd_in_reply_to_tweet_id :: "u64 option"
  cd_in_reply_to_user_id :: "u64 option"
  cd_conversation_id :: "u64 option"

type_synonym core_datas = "u64 \<rightharpoonup> core_data option result"

datatype safety_level = TimelineHome | TimelineHomeRecommendations

record tweet_visibility =
  vis_action :: vf_action
  vis_reason :: "filtered_reason option"

definition to_visibility_reason :: "tweet_visibility \<Rightarrow> filtered_reason option" where
  "to_visibility_reason v =
     (case vis_reason v of
        Some (SafetyResult r) \<Rightarrow> vis_reason v
      | _ \<Rightarrow> (case vis_action v of
                Allow \<Rightarrow> None
              | Interstitial \<Rightarrow> Some (SafetyResult \<lparr>sr_reason = None, sr_action = Interstitial\<rparr>)
              | _ \<Rightarrow> Some (unwrap_or UnspecifiedReason (vis_reason v))))"

type_synonym vf_client = "u64 list \<Rightarrow> safety_level \<Rightarrow> u64 \<Rightarrow> twitter_context_viewer option \<Rightarrow>
  (u64 \<rightharpoonup> tweet_visibility result)"

record safety_labels_batch =
  batch_labels :: "u64 \<rightharpoonup> safety_label_map"
  batch_failures :: "u64 list"

record hydration_env =
  get_tweet_core_datas :: "u64 list \<Rightarrow> core_datas"
  get_subscription_author_ids :: "u64 list \<Rightarrow> (u64 \<rightharpoonup> u64 option result)"
  check_blocked_by :: "u64 \<Rightarrow> u64 list \<Rightarrow> u64 list result"
  multi_get_video_durations_ms :: "u64 list \<Rightarrow> (u64 \<times> i32 list option result) list"
  get_safety_labels :: "u64 list \<Rightarrow> safety_labels_batch result"
  strato_vf_client :: vf_client
  xai_vf_client :: vf_client

type_synonym post_hydrator = "(scored_posts_query, post_candidate) hydrator"

text \<open>\<open>Option::into_iter\<close>.\<close>

definition option_list :: "'a option \<Rightarrow> 'a list" where
  "option_list v = (case v of Some x \<Rightarrow> [x] | None \<Rightarrow> [])"

text \<open>A hydrator that does not depend on the stage it runs in (\<open>Hydrator::hydrate_for_stage\<close>).\<close>

definition plain_hydrator :: "string \<Rightarrow> (scored_posts_query \<Rightarrow> bool) \<Rightarrow>
    (scored_posts_query \<Rightarrow> post_candidate list \<Rightarrow> post_candidate result list) \<Rightarrow>
    (post_candidate \<Rightarrow> post_candidate \<Rightarrow> post_candidate) \<Rightarrow> post_hydrator" where
  "plain_hydrator name enable hyd upd =
     \<lparr>hy_name = name, hy_enable = enable, hy_hydrate_for_stage = (\<lambda>q cs stage. hyd q cs), hy_update = upd\<rparr>"

section \<open>Core data\<close>

record core_data_cached =
  cv_author_id :: u64
  cv_retweeted_user_id :: "u64 option"
  cv_retweeted_tweet_id :: "u64 option"
  cv_in_reply_to_tweet_id :: "u64 option"
  cv_ancestor_users :: "u64 list"
  cv_tweet_text :: string

definition core_data_fetch_ids :: "post_candidate list \<Rightarrow> u64 list" where
  "core_data_fetch_ids cs =
     map tweet_id cs @ map (\<lambda>c. ancestors c ! 1) (List.filter (\<lambda>c. length (ancestors c) = 2) cs)"

definition build_ancestor_users :: "post_candidate \<Rightarrow> core_data \<Rightarrow> core_datas \<Rightarrow> u64 list" where
  "build_ancestor_users c cd datas =
     (if ancestors c \<noteq> [] then (case cd_in_reply_to_user_id cd of Some parent_author \<Rightarrow> [parent_author] | None \<Rightarrow> []) else []) @
     (if length (ancestors c) = 2
      then (case datas (ancestors c ! 1) of Some (Inr (Some conversation_root)) \<Rightarrow> [cd_author_id conversation_root] | _ \<Rightarrow> []) else [])"

definition core_data_source_id :: "core_datas \<Rightarrow> post_candidate \<Rightarrow> u64 option" where
  "core_data_source_id datas c =
     (case datas (tweet_id c) of Some (Inr (Some cd)) \<Rightarrow> cd_source_tweet_id cd | _ \<Rightarrow> None)"

definition core_data_for :: "core_datas \<Rightarrow> core_datas \<Rightarrow> post_candidate \<Rightarrow> post_candidate result" where
  "core_data_for post_features source_features c =
     (case post_features (tweet_id c) of
        Some (Inr (Some cd)) \<Rightarrow>
          let source_text = (case cd_source_tweet_id cd of
                Some sid \<Rightarrow> (case source_features sid of Some (Inr (Some source)) \<Rightarrow> Some (cd_text source) | _ \<Rightarrow> None)
              | None \<Rightarrow> None)
          in Ok (default_candidate\<lparr>author_id := cd_author_id cd, retweeted_user_id := cd_source_user_id cd,
               retweeted_tweet_id := cd_source_tweet_id cd, in_reply_to_tweet_id := cd_in_reply_to_tweet_id cd,
               ancestor_users := build_ancestor_users c cd post_features,
               tweet_text := unwrap_or (cd_text cd) source_text\<rparr>)
      | Some (Inr None) \<Rightarrow> Ok default_candidate
      | None \<Rightarrow> Ok default_candidate
      | Some (Inl err) \<Rightarrow> Err err)"

definition core_data_from_client :: "hydration_env \<Rightarrow> scored_posts_query \<Rightarrow> post_candidate list \<Rightarrow> post_candidate result list" where
  "core_data_from_client env q cs =
     (let post_features = get_tweet_core_datas env (core_data_fetch_ids cs);
          source_ids = remdups (List.map_filter (core_data_source_id post_features) cs);
          source_features = (if source_ids = [] then Map.empty else get_tweet_core_datas env source_ids)
      in map (core_data_for post_features source_features) cs)"

definition core_data_cache_value :: "post_candidate \<Rightarrow> core_data_cached" where
  "core_data_cache_value c = \<lparr>cv_author_id = author_id c, cv_retweeted_user_id = retweeted_user_id c,
     cv_retweeted_tweet_id = retweeted_tweet_id c, cv_in_reply_to_tweet_id = in_reply_to_tweet_id c,
     cv_ancestor_users = ancestor_users c, cv_tweet_text = tweet_text c\<rparr>"

definition core_data_from_cache :: "core_data_cached \<Rightarrow> post_candidate" where
  "core_data_from_cache v = default_candidate\<lparr>author_id := cv_author_id v, retweeted_user_id := cv_retweeted_user_id v,
     retweeted_tweet_id := cv_retweeted_tweet_id v, in_reply_to_tweet_id := cv_in_reply_to_tweet_id v,
     ancestor_users := cv_ancestor_users v, tweet_text := cv_tweet_text v\<rparr>"

definition core_data_update :: "post_candidate \<Rightarrow> post_candidate \<Rightarrow> post_candidate" where
  "core_data_update c hydrated =
     (let c' = (if author_id c = 0 \<and> author_id hydrated \<noteq> 0 then c\<lparr>author_id := author_id hydrated\<rparr> else c)
      in c'\<lparr>retweeted_user_id := retweeted_user_id hydrated, retweeted_tweet_id := retweeted_tweet_id hydrated,
            in_reply_to_tweet_id := in_reply_to_tweet_id hydrated, ancestor_users := ancestor_users hydrated,
            tweet_text := tweet_text hydrated\<rparr>)"

definition core_data_hydrator ::
  "hydration_env \<Rightarrow> (scored_posts_query, post_candidate, u64, core_data_cached) cached_hydrator" where
  "core_data_hydrator env = \<lparr>ch_name = ''CoreDataCandidateHydrator'', ch_enable = (\<lambda>q. \<not> has_cached_posts q),
     cache_key_for = (\<lambda>q. tweet_id), cache_value = core_data_cache_value, hydrate_from_cache = core_data_from_cache,
     hydrate_from_client = core_data_from_client env,
     already_hydrated = (\<lambda>c. author_id c \<noteq> 0 \<and> tweet_text c \<noteq> []), ch_update = core_data_update\<rparr>"

section \<open>Subscriptions\<close>

definition subscription_for :: "(u64 \<rightharpoonup> u64 option result) \<Rightarrow> u64 \<Rightarrow> post_candidate result" where
  "subscription_for post_features tid =
     (case post_features tid of
        Some (Inr v) \<Rightarrow> Ok (default_candidate\<lparr>subscription_author_id := v\<rparr>)
      | None \<Rightarrow> Err (''Missing subscription author id for tweet_id='' @ show_nat (unat tid))
      | Some (Inl err) \<Rightarrow> Err err)"

definition subscription_hydrator ::
  "hydration_env \<Rightarrow> (scored_posts_query, post_candidate, u64, u64 option) cached_hydrator" where
  "subscription_hydrator env = \<lparr>ch_name = ''SubscriptionHydrator'', ch_enable = (\<lambda>q. \<not> has_cached_posts q),
     cache_key_for = (\<lambda>q. tweet_id), cache_value = subscription_author_id,
     hydrate_from_cache = (\<lambda>v. default_candidate\<lparr>subscription_author_id := v\<rparr>),
     hydrate_from_client = (\<lambda>q cs. let tweet_ids = map tweet_id cs; post_features = get_subscription_author_ids env tweet_ids
                                   in map (subscription_for post_features) tweet_ids),
     already_hydrated = (\<lambda>c. False),
     ch_update = (\<lambda>c hydrated. c\<lparr>subscription_author_id := subscription_author_id hydrated\<rparr>)\<rparr>"

section \<open>Network and blocks\<close>

definition in_network_candidate_hydrator :: post_hydrator where
  "in_network_candidate_hydrator = plain_hydrator ''InNetworkCandidateHydrator'' (\<lambda>q. \<not> has_cached_posts q)
     (\<lambda>q. map (\<lambda>c. Ok (default_candidate\<lparr>in_network :=
        Some (author_id c = user_id q \<or> author_id c \<in> set (followed_user_ids (features q)))\<rparr>)))
     (\<lambda>c hydrated. c\<lparr>in_network := in_network hydrated\<rparr>)"

definition blocked_by_hydrator :: "hydration_env \<Rightarrow> post_hydrator" where
  "blocked_by_hydrator env = plain_hydrator ''BlockedByHydrator'' (\<lambda>q. \<not> has_cached_posts q)
     (\<lambda>q cs. case check_blocked_by env (user_id q) (map author_id cs) of
        Inl e \<Rightarrow> map (\<lambda>_. Err e) cs
      | Inr blocked \<Rightarrow> map (\<lambda>c. Ok (default_candidate\<lparr>author_blocks_viewer := Some (author_id c \<in> set blocked)\<rparr>)) cs)
     (\<lambda>c hydrated. c\<lparr>author_blocks_viewer := author_blocks_viewer hydrated\<rparr>)"

definition following_blocked_by_hydrator :: "hydration_env \<Rightarrow> post_hydrator" where
  "following_blocked_by_hydrator env = plain_hydrator ''FollowingBlockedByHydrator'' (\<lambda>q. True)
     (\<lambda>q cs. case check_blocked_by env (user_id q)
          (concat (map (\<lambda>c. option_list (quoted_user_id c) @ option_list (retweeted_user_id c)) cs)) of
        Inl e \<Rightarrow> map (\<lambda>_. Err e) cs
      | Inr blocked \<Rightarrow> map (\<lambda>c. Ok (default_candidate\<lparr>
           author_blocks_viewer := Some (case retweeted_user_id c of Some uid \<Rightarrow> uid \<in> set blocked | None \<Rightarrow> False),
           quoted_author_blocks_viewer := map_option (\<lambda>uid. uid \<in> set blocked) (quoted_user_id c)\<rparr>)) cs)
     (\<lambda>c hydrated.
        let c' = c\<lparr>author_blocks_viewer := author_blocks_viewer hydrated\<rparr>
        in if quoted_author_blocks_viewer hydrated \<noteq> None
           then c'\<lparr>quoted_author_blocks_viewer := quoted_author_blocks_viewer hydrated\<rparr> else c')"

section \<open>Ancestors and quotes\<close>

definition expand_ancestors_for_gap :: "u64 list \<Rightarrow> core_datas \<Rightarrow> u64 list result" where
  "expand_ancestors_for_gap as datas =
     (case as of
        [parent, conversation_root] \<Rightarrow>
          (case datas parent of
             Some (Inl err) \<Rightarrow> Err err
           | Some (Inr (Some cd)) \<Rightarrow>
               Ok (case cd_in_reply_to_tweet_id cd of
                     Some grandparent \<Rightarrow>
                       if grandparent \<noteq> conversation_root \<and> grandparent \<noteq> parent
                       then [parent, grandparent, conversation_root] else as
                   | None \<Rightarrow> as)
           | Some (Inr None) \<Rightarrow> Ok as
           | None \<Rightarrow> Ok as)
      | _ \<Rightarrow> Ok as)"

definition tombstone_ancestors :: "u64 list \<Rightarrow> core_datas \<Rightarrow> u64 list" where
  "tombstone_ancestors as datas = List.filter (\<lambda>a. datas a = Some (Inr None)) as"

definition nonempty_text :: "core_datas \<Rightarrow> u64 \<Rightarrow> string option" where
  "nonempty_text datas a =
     (case datas a of Some (Inr (Some cd)) \<Rightarrow> if cd_text cd \<noteq> [] then Some (cd_text cd) else None | _ \<Rightarrow> None)"

definition ancestor_text_map :: "u64 list \<Rightarrow> core_datas \<Rightarrow> (u64 \<times> string) list" where
  "ancestor_text_map as datas =
     fold (\<lambda>a m. case nonempty_text datas a of Some t \<Rightarrow> AList.update a t m | None \<Rightarrow> m) as []"

definition conversation_gap_ancestor_hydrator :: "hydration_env \<Rightarrow> post_hydrator" where
  "conversation_gap_ancestor_hydrator env = plain_hydrator ''ConversationGapAncestorHydrator'' (\<lambda>q. True)
     (\<lambda>q cs.
        let ancestor_ids = remdups (concat (map ancestors cs));
            datas = (if ancestor_ids = [] then Map.empty else get_tweet_core_datas env ancestor_ids)
        in map (\<lambda>c. let as = (case expand_ancestors_for_gap (ancestors c) datas of Inr as \<Rightarrow> as | Inl _ \<Rightarrow> ancestors c)
                    in Ok (default_candidate\<lparr>tombstone_ancestor_ids := tombstone_ancestors as datas,
                         ancestor_texts := ancestor_text_map (ancestors c) datas, ancestors := as\<rparr>)) cs)
     (\<lambda>c hydrated. c\<lparr>ancestors := ancestors hydrated, tombstone_ancestor_ids := tombstone_ancestor_ids hydrated,
        ancestor_texts := ancestor_texts hydrated\<rparr>)"

definition quoted_post_text_hydrator :: "hydration_env \<Rightarrow> post_hydrator" where
  "quoted_post_text_hydrator env = plain_hydrator ''QuotedPostTextHydrator'' (\<lambda>q. True)
     (\<lambda>q cs.
        let quoted_ids = remdups (List.map_filter quoted_tweet_id cs);
            datas = (if quoted_ids = [] then Map.empty else get_tweet_core_datas env quoted_ids)
        in map (\<lambda>c. Ok (default_candidate\<lparr>quoted_tweet_text := Option.bind (quoted_tweet_id c) (nonempty_text datas)\<rparr>)) cs)
     (\<lambda>c hydrated. c\<lparr>quoted_tweet_text := quoted_tweet_text hydrated\<rparr>)"

definition needs_ancestors :: "post_candidate \<Rightarrow> bool" where
  "needs_ancestors c \<longleftrightarrow> is_phoenix_home_retrieval c \<and> ancestors c = []"

text \<open>The root of the conversation, when it is not the parent.\<close>

definition distant_root :: "core_data \<Rightarrow> u64 option" where
  "distant_root cd =
     (case cd_in_reply_to_tweet_id cd of
        Some parent \<Rightarrow> Option.bind (cd_conversation_id cd) (\<lambda>r. if r \<noteq> parent then Some r else None)
      | None \<Rightarrow> None)"

definition reply_ancestors_for :: "core_datas \<Rightarrow> core_datas \<Rightarrow> post_candidate \<Rightarrow> post_candidate" where
  "reply_ancestors_for datas root_datas c =
     (if \<not> needs_ancestors c then default_candidate
      else case datas (tweet_id c) of
        Some (Inr (Some cd)) \<Rightarrow>
          (case cd_in_reply_to_tweet_id cd of
             None \<Rightarrow> default_candidate
           | Some parent \<Rightarrow> default_candidate\<lparr>
               ancestors := parent # option_list (distant_root cd),
               ancestor_users := option_list (cd_in_reply_to_user_id cd) @
                 (case distant_root cd of
                    Some r \<Rightarrow> (case root_datas r of Some (Inr (Some root_core)) \<Rightarrow> [cd_author_id root_core] | _ \<Rightarrow> [])
                  | None \<Rightarrow> []),
               conversation_id := cd_conversation_id cd\<rparr>)
      | _ \<Rightarrow> default_candidate)"

text \<open>The roots are collected from the answers for the ids asked for.\<close>

definition phoenix_reply_ancestors_hydrator :: "hydration_env \<Rightarrow> post_hydrator" where
  "phoenix_reply_ancestors_hydrator env = plain_hydrator ''PhoenixReplyAncestorsHydrator''
     (\<lambda>q. \<not> has_cached_posts q \<and> EnablePhoenixOonReplies (params q))
     (\<lambda>q cs.
        let ids = remdups (map tweet_id (List.filter needs_ancestors cs))
        in if ids = [] then map (\<lambda>_. Ok default_candidate) cs
           else let datas = get_tweet_core_datas env ids;
                    root_ids = remdups (List.map_filter (\<lambda>a. case datas a of Some (Inr (Some cd)) \<Rightarrow> distant_root cd | _ \<Rightarrow> None) ids);
                    root_datas = (if root_ids = [] then Map.empty else get_tweet_core_datas env root_ids)
                in map (\<lambda>c. Ok (reply_ancestors_for datas root_datas c)) cs)
     (\<lambda>c hydrated. if ancestors hydrated \<noteq> []
        then c\<lparr>ancestors := ancestors hydrated, ancestor_users := ancestor_users hydrated, conversation_id := conversation_id hydrated\<rparr>
        else c)"

definition displayed_ancestors :: "post_candidate \<Rightarrow> u64 list" where
  "displayed_ancestors c = List.filter (\<lambda>a. a \<notin> set (tombstone_ancestor_ids c)) (ancestors c)"

definition ancestor_video_hydrator :: "hydration_env \<Rightarrow> post_hydrator" where
  "ancestor_video_hydrator env = plain_hydrator ''AncestorVideoHydrator'' exclude_videos
     (\<lambda>q cs.
        let ancestor_ids = remdups (concat (map displayed_ancestors cs))
        in if ancestor_ids = [] then map (\<lambda>_. Ok default_candidate) cs
           else let video_ancestors = List.map_filter (\<lambda>(a, r). case r of Inr (Some ds) \<Rightarrow> if ds \<noteq> [] then Some a else None | _ \<Rightarrow> None)
                      (multi_get_video_durations_ms env ancestor_ids)
                in map (\<lambda>c. Ok (default_candidate\<lparr>ancestor_has_video :=
                     Some (list_ex (\<lambda>a. a \<in> set video_ancestors) (displayed_ancestors c))\<rparr>)) cs)
     (\<lambda>c hydrated. c\<lparr>ancestor_has_video := ancestor_has_video hydrated\<rparr>)"

section \<open>Labels and visibility\<close>

definition keep_existing_label :: "post_candidate \<Rightarrow> post_candidate result" where
  "keep_existing_label c = Ok (default_candidate\<lparr>soft_nsfw := soft_nsfw c\<rparr>)"

definition needs_label :: "scored_posts_query \<Rightarrow> post_candidate \<Rightarrow> bool" where
  "needs_label q c \<longleftrightarrow> soft_nsfw c = None \<and> author_id c \<notin> set (followed_user_ids (features q)) \<and> author_id c \<noteq> user_id q"

definition new_user_soft_nsfw_label_hydrator :: "post_env \<Rightarrow> hydration_env \<Rightarrow> post_hydrator" where
  "new_user_soft_nsfw_label_hydrator penv env = plain_hydrator ''NewUserSoftNsfwLabelHydrator'' (new_user_soft_nsfw_filter_enabled penv)
     (\<lambda>q cs.
        let tweet_ids = remdups (map tweet_id (List.filter (needs_label q) cs))
        in if tweet_ids = [] then map keep_existing_label cs
           else case get_safety_labels env tweet_ids of
             Inl e \<Rightarrow> map (\<lambda>_. Err (''new user SoftNsfw label lookup failed: '' @ e)) cs
           | Inr batch \<Rightarrow> map (\<lambda>c.
               if \<not> needs_label q c then keep_existing_label c
               else if tweet_id c \<in> set (batch_failures batch)
               then Err (''new user SoftNsfw label missing for tweet '' @ show_nat (unat (tweet_id c)))
               else Ok (default_candidate\<lparr>soft_nsfw := Some (case batch_labels batch (tweet_id c) of
                      Some labels \<Rightarrow> contains_key labels SOFT_NSFW | None \<Rightarrow> False)\<rparr>)) cs)
     (\<lambda>c hydrated. c\<lparr>soft_nsfw := soft_nsfw hydrated\<rparr>)"

definition dropped_by :: "(u64 \<rightharpoonup> tweet_visibility result) \<Rightarrow> u64 \<Rightarrow> bool" where
  "dropped_by vf_results a =
     (case vf_results a of Some (Inr visibility) \<Rightarrow> should_drop_action (vis_action visibility) | _ \<Rightarrow> False)"

definition should_drop_ancillary :: "post_candidate \<Rightarrow> (u64 \<rightharpoonup> tweet_visibility result) \<Rightarrow> bool" where
  "should_drop_ancillary c vf_results =
     (if list_ex (\<lambda>a. a \<notin> set (tombstone_ancestor_ids c) \<and> dropped_by vf_results a) (ancestors c) then True
      else if (case quoted_tweet_id c of Some a \<Rightarrow> dropped_by vf_results a | None \<Rightarrow> False) then True
      else (case retweeted_tweet_id c of Some a \<Rightarrow> dropped_by vf_results a | None \<Rightarrow> False))"

fun visibility_fields :: "tweet_visibility result option \<Rightarrow> vf_action option \<times> filtered_reason option" where
  "visibility_fields (Some (Inr visibility)) = (Some (vis_action visibility), to_visibility_reason visibility)"
| "visibility_fields (Some (Inl e)) = (None, None)"
| "visibility_fields None = (None, None)"

definition visibility_for :: "(u64 \<rightharpoonup> tweet_visibility result) \<Rightarrow> post_candidate \<Rightarrow> post_candidate result" where
  "visibility_for all_results c =
     (let primary_result = all_results (tweet_id c);
          (action, reason) = visibility_fields primary_result;
          drop_ancillary = should_drop_ancillary c all_results
      in case primary_result of
           Some (Inl err) \<Rightarrow> Err err
         | _ \<Rightarrow> Ok (default_candidate\<lparr>visibility_action := action, visibility_reason := reason,
                  drop_ancillary_posts := Some drop_ancillary\<rparr>))"

definition visibility_update :: "post_candidate \<Rightarrow> post_candidate \<Rightarrow> post_candidate" where
  "visibility_update c hydrated = c\<lparr>visibility_action := visibility_action hydrated,
     visibility_reason := visibility_reason hydrated, drop_ancillary_posts := drop_ancillary_posts hydrated\<rparr>"

definition vf_client_for :: "hydration_env \<Rightarrow> scored_posts_query \<Rightarrow> vf_client" where
  "vf_client_for env q = (if EnableXaiVfClient (params q) then xai_vf_client env else strato_vf_client env)"

definition fetch_vf_results :: "vf_client \<Rightarrow> u64 list \<Rightarrow> safety_level \<Rightarrow> u64 \<Rightarrow> twitter_context_viewer option \<Rightarrow>
    (u64 \<rightharpoonup> tweet_visibility result)" where
  "fetch_vf_results client ids level uid context = (if ids = [] then Map.empty else client ids level uid context)"

definition sorted_ids :: "u64 list \<Rightarrow> u64 list" where
  "sorted_ids ids = remdups_adj (sort ids)"

definition vf_in_network_ids :: "post_candidate \<Rightarrow> u64 list" where
  "vf_in_network_ids c = (if in_network c = Some True then [tweet_id c] else []) @ option_list (retweeted_tweet_id c)"

definition vf_oon_ids :: "post_candidate \<Rightarrow> u64 list" where
  "vf_oon_ids c = (if in_network c = Some True then [] else [tweet_id c]) @ ancestors c @ option_list (quoted_tweet_id c)"

definition vf_candidate_hydrator :: "hydration_env \<Rightarrow> post_hydrator" where
  "vf_candidate_hydrator env = plain_hydrator ''VFCandidateHydrator'' (\<lambda>q. True)
     (\<lambda>q cs.
        let client = vf_client_for env q;
            in_network_result = fetch_vf_results client (sorted_ids (concat (map vf_in_network_ids cs))) TimelineHome (user_id q) (get_viewer q);
            oon_result = fetch_vf_results client (sorted_ids (concat (map vf_oon_ids cs))) TimelineHomeRecommendations (user_id q) (get_viewer q)
        in map (visibility_for (oon_result ++ in_network_result)) cs)
     visibility_update"

definition vf_following_ids :: "post_candidate \<Rightarrow> u64 list" where
  "vf_following_ids c = tweet_id c # ancestors c @ option_list (quoted_tweet_id c) @ option_list (retweeted_tweet_id c)"

definition vf_following_candidate_hydrator :: "hydration_env \<Rightarrow> post_hydrator" where
  "vf_following_candidate_hydrator env = plain_hydrator ''VFFollowingCandidateHydrator'' (\<lambda>q. True)
     (\<lambda>q cs. map (visibility_for (fetch_vf_results (vf_client_for env q) (sorted_ids (concat (map vf_following_ids cs)))
                  TimelineHome (user_id q) (get_viewer q))) cs)
     visibility_update"

section \<open>What the hydrators keep\<close>

text \<open>No hydrator touches the id of a candidate or its score.\<close>

definition rank_key :: "post_candidate \<Rightarrow> u64 \<times> f64 option" where
  "rank_key c = (tweet_id c, score c)"

lemmas hydrator_defs = plain_hydrator_def rank_key_def Let_def

lemma hy_update_hydrator_of [simp]: "hy_update (hydrator_of h store) = ch_update h"
  by (simp add: hydrator_of_def)

interpretation core_data_upd: identity_update core_data_update rank_key
  by unfold_locales (simp add: core_data_update_def hydrator_defs)

interpretation subscription_upd: identity_update "ch_update (subscription_hydrator env)" rank_key for env
  by unfold_locales (simp add: subscription_hydrator_def hydrator_defs)

interpretation in_network_upd: identity_update "hy_update in_network_candidate_hydrator" rank_key
  by unfold_locales (simp add: in_network_candidate_hydrator_def hydrator_defs)

interpretation blocked_by_upd: identity_update "hy_update (blocked_by_hydrator env)" rank_key for env
  by unfold_locales (simp add: blocked_by_hydrator_def hydrator_defs)

interpretation following_blocked_by_upd: identity_update "hy_update (following_blocked_by_hydrator env)" rank_key for env
  by unfold_locales (simp add: following_blocked_by_hydrator_def hydrator_defs)

interpretation conversation_gap_upd: identity_update "hy_update (conversation_gap_ancestor_hydrator env)" rank_key for env
  by unfold_locales (simp add: conversation_gap_ancestor_hydrator_def hydrator_defs)

interpretation quoted_text_upd: identity_update "hy_update (quoted_post_text_hydrator env)" rank_key for env
  by unfold_locales (simp add: quoted_post_text_hydrator_def hydrator_defs)

interpretation reply_ancestors_upd: identity_update "hy_update (phoenix_reply_ancestors_hydrator env)" rank_key for env
  by unfold_locales (simp add: phoenix_reply_ancestors_hydrator_def hydrator_defs)

interpretation ancestor_video_upd: identity_update "hy_update (ancestor_video_hydrator env)" rank_key for env
  by unfold_locales (simp add: ancestor_video_hydrator_def hydrator_defs)

interpretation soft_nsfw_upd: identity_update "hy_update (new_user_soft_nsfw_label_hydrator penv env)" rank_key for penv env
  by unfold_locales (simp add: new_user_soft_nsfw_label_hydrator_def hydrator_defs)

interpretation visibility_upd: identity_update visibility_update rank_key
  by unfold_locales (simp add: visibility_update_def hydrator_defs)

lemma expand_ancestors_for_gap_cases:
  "expand_ancestors_for_gap as datas = Ok bs \<Longrightarrow>
   bs = as \<or> (\<exists>parent grandparent r. as = [parent, r] \<and> bs = [parent, grandparent, r] \<and> grandparent \<notin> {parent, r})"
  by (auto simp: expand_ancestors_for_gap_def split: list.splits option.splits sum.splits if_splits)

section \<open>Coherence of the caches\<close>

lemma core_data_already_identity:
  "core_data_update c (core_data_from_cache (core_data_cache_value c)) = c"
  by (simp add: core_data_update_def core_data_from_cache_def core_data_cache_value_def)

lemma core_data_survives: "core_data_for d s c = Ok w \<Longrightarrow> core_data_from_cache (core_data_cache_value w) = w"
  by (auto simp: core_data_for_def core_data_from_cache_def core_data_cache_value_def default_candidate_def Let_def
      split: option.splits sum.splits)

lemma core_data_for_cong:
  assumes own: "pf (tweet_id c) = pf' (tweet_id d)"
    and users: "\<And>cd. build_ancestor_users c cd pf = build_ancestor_users d cd pf'"
    and src: "\<And>cd a. pf' (tweet_id d) = Some (Inr (Some cd)) \<Longrightarrow> cd_source_tweet_id cd = Some a \<Longrightarrow> sf a = sf' a"
  shows "core_data_for pf sf c = core_data_for pf' sf' d"
proof (cases "pf' (tweet_id d)")
  case (Some r)
  show ?thesis
  proof (cases r)
    case (Inr v)
    then show ?thesis
      using Some own users src by (cases v; cases "cd_source_tweet_id (the v)") (simp_all add: core_data_for_def)
  qed (use Some own in \<open>simp add: core_data_for_def\<close>)
qed (use own in \<open>simp add: core_data_for_def\<close>)

lemma core_data_from_client_pointwise:
  assumes tes: "\<And>ids. get_tweet_core_datas env ids = db |` set ids"
  shows "core_data_from_client env q cs = map (core_data_for db db) cs"
proof -
  define pf where "pf = get_tweet_core_datas env (core_data_fetch_ids cs)"
  define sids where "sids = remdups (List.map_filter (core_data_source_id pf) cs)"
  define sf where "sf = (if sids = [] then Map.empty else get_tweet_core_datas env sids)"
  have sf: "sf = db |` set sids" by (simp add: sf_def tes)
  have "core_data_for pf sf c = core_data_for db db c" if c: "c \<in> set cs" for c
  proof -
    have own: "pf (tweet_id c) = db (tweet_id c)"
      using c by (simp add: pf_def tes core_data_fetch_ids_def)
    have users: "build_ancestor_users c cd pf = build_ancestor_users c cd db" for cd
      using c by (auto simp: build_ancestor_users_def pf_def tes core_data_fetch_ids_def restrict_map_def)
    have src: "sf a = db a" if "db (tweet_id c) = Some (Inr (Some cd))" "cd_source_tweet_id cd = Some a" for cd a
    proof -
      have "core_data_source_id pf c = Some a" using that own by (simp add: core_data_source_id_def)
      then have "a \<in> set sids" using c by (force simp: sids_def map_filter_def)
      then show ?thesis by (simp add: sf)
    qed
    show ?thesis by (rule core_data_for_cong) (use own users src in simp_all)
  qed
  moreover have "core_data_from_client env q cs = map (core_data_for pf sf) cs"
    unfolding core_data_from_client_def Let_def pf_def sids_def sf_def by (rule refl)
  ultimately show ?thesis by simp
qed

lemma core_data_for_by_id:
  "tweet_id c = tweet_id d \<Longrightarrow> ancestors c = ancestors d \<Longrightarrow> core_data_for db db c = core_data_for db db d"
  by (rule core_data_for_cong) (simp_all add: build_ancestor_users_def)

interpretation core_data_cache: coherent_hydrator
    "core_data_hydrator (env\<lparr>get_tweet_core_datas := \<lambda>ids. db |` set ids\<rparr>)" "\<lambda>q. core_data_for db db"
    "\<lambda>c. ancestors c = anc (tweet_id c)" for env db anc
proof unfold_locales
  fix cs q
  show "hydrate_from_client (core_data_hydrator (env\<lparr>get_tweet_core_datas := \<lambda>ids. db |` set ids\<rparr>)) q cs = map (core_data_for db db) cs"
    by (simp add: core_data_hydrator_def core_data_from_client_pointwise)
qed (auto simp: core_data_hydrator_def core_data_survives intro: core_data_for_by_id)

interpretation subscription_cache: coherent_hydrator
    "subscription_hydrator (env\<lparr>get_subscription_author_ids := \<lambda>ids. db |` set ids\<rparr>)" "\<lambda>q c. subscription_for db (tweet_id c)"
    "\<lambda>c. True" for env db
proof unfold_locales
  fix c q w
  assume "subscription_for db (tweet_id c) = Ok w"
  then show "hydrate_from_cache (subscription_hydrator (env\<lparr>get_subscription_author_ids := \<lambda>ids. db |` set ids\<rparr>))
      (cache_value (subscription_hydrator (env\<lparr>get_subscription_author_ids := \<lambda>ids. db |` set ids\<rparr>)) w) = w"
    by (auto simp: subscription_hydrator_def subscription_for_def default_candidate_def split: option.splits sum.splits)
qed (auto simp: subscription_hydrator_def subscription_for_def Let_def restrict_map_def)

lemma answers_by_id: "\<forall>ids. get_tweet_core_datas env ids = db |` set ids \<Longrightarrow> env\<lparr>get_tweet_core_datas := \<lambda>ids. db |` set ids\<rparr> = env"
  by (cases env) (simp add: fun_eq_iff)

text \<open>
  C30. The cache of core data is transparent. If the tweet service answers for each id by itself and
  all candidates with one id have the same ancestors, then in every sequence of requests that share
  the cache, whatever entries the cache forgets in between, each request gets exactly the
  results that the service would give without a cache.
\<close>

theorem core_data_cache_transparent:
  assumes tes: "\<forall>ids. get_tweet_core_datas env ids = db |` set ids"
    and anc: "list_all (\<lambda>(q, cs, remains). list_all (\<lambda>c. ancestors c = anc (tweet_id c)) cs) reqs"
  shows "serve_requests (core_data_hydrator env) reqs [] =
    map (\<lambda>(q, cs, remains). map (uncached (core_data_hydrator env) (\<lambda>q. core_data_for db db) q) cs) reqs"
  using core_data_cache.serve_requests_valid [OF core_data_cache.empty_valid anc, where env = env and db = db]
  by (simp only: answers_by_id [OF tes])

definition sample_core_data :: core_data where
  "sample_core_data = \<lparr>cd_author_id = 7, cd_text = ''hi'', cd_source_tweet_id = None, cd_source_user_id = None,
     cd_in_reply_to_tweet_id = Some 2, cd_in_reply_to_user_id = Some 9, cd_conversation_id = Some 2\<rparr>"

definition sample_db :: core_datas where
  "sample_db = [1 \<mapsto> Ok (Some sample_core_data)]"

definition sample_env :: hydration_env where
  "sample_env = \<lparr>get_tweet_core_datas = (\<lambda>ids. sample_db |` set ids), get_subscription_author_ids = (\<lambda>ids. Map.empty),
     check_blocked_by = (\<lambda>uid ids. Ok []), multi_get_video_durations_ms = (\<lambda>ids. []),
     get_safety_labels = (\<lambda>ids. Err ''down''), strato_vf_client = (\<lambda>ids level uid context. Map.empty),
     xai_vf_client = (\<lambda>ids level uid context. Map.empty)\<rparr>"

definition sample_post :: "u64 list \<Rightarrow> post_candidate" where
  "sample_post as = default_candidate\<lparr>tweet_id := 1, ancestors := as\<rparr>"

definition sample_hydrated :: "u64 list \<Rightarrow> post_candidate" where
  "sample_hydrated users = default_candidate\<lparr>author_id := 7, in_reply_to_tweet_id := Some 2, ancestor_users := users,
     tweet_text := ''hi''\<rparr>"

lemmas sample_defs = sample_core_data_def sample_db_def sample_env_def sample_post_def sample_hydrated_def

lemma sample_client:
  "core_data_for sample_db sample_db (sample_post []) = Ok (sample_hydrated [])"
  "core_data_for sample_db sample_db (sample_post [2]) = Ok (sample_hydrated [9])"
  by (simp_all add: sample_defs core_data_for_def build_ancestor_users_def default_candidate_def unwrap_or_def)

lemma sample_unhydrated: "uncached (core_data_hydrator env) f q (sample_post as) = f q (sample_post as)"
  by (simp add: uncached_def core_data_hydrator_def sample_post_def default_candidate_def)

theorem core_data_cache_transparent_witness:
  "serve_requests (core_data_hydrator sample_env)
     [(sample_query, [sample_post [2]], \<lambda>k. True), (sample_query, [sample_post [2], sample_post [2]], \<lambda>k. False)] [] =
   [[Ok (sample_hydrated [9])], [Ok (sample_hydrated [9]), Ok (sample_hydrated [9])]]"
proof -
  let ?reqs = "[(sample_query, [sample_post [2]], \<lambda>k. True), (sample_query, [sample_post [2], sample_post [2]], \<lambda>k. False)]
    :: (scored_posts_query \<times> post_candidate list \<times> (u64 \<Rightarrow> bool)) list"
  have "\<forall>ids. get_tweet_core_datas sample_env ids = sample_db |` set ids" by (simp add: sample_env_def)
  moreover have "list_all (\<lambda>(q, cs, remains). list_all (\<lambda>c. ancestors c = [2]) cs) ?reqs" by (simp add: sample_post_def)
  ultimately show ?thesis
    using core_data_cache_transparent [of sample_env sample_db "\<lambda>i. [2]" ?reqs] by (simp add: sample_unhydrated sample_client)
qed

text \<open>
  The premise on the ancestors is needed. The key of the cache is the id of the post, while the users
  of the ancestors are computed from the ancestors of the candidate that is hydrated first: a post that
  first occurs without ancestors leaves an entry that a later occurrence with ancestors is given, and
  its author of the parent is lost.
\<close>

lemma core_data_cache_ignores_ancestors:
  "serve_requests (core_data_hydrator sample_env)
     [(sample_query, [sample_post []], \<lambda>k. True), (sample_query, [sample_post [2]], \<lambda>k. True)] [] =
     [[Ok (sample_hydrated [])], [Ok (sample_hydrated [])]] \<and>
   core_data_from_client sample_env sample_query [sample_post [2]] = [Ok (sample_hydrated [9])]"
proof -
  have by_id: "\<And>ids. get_tweet_core_datas sample_env ids = sample_db |` set ids" by (simp add: sample_env_def)
  then have client: "hydrate_from_client (core_data_hydrator sample_env) q cs = map (core_data_for sample_db sample_db) cs" for q cs
    by (simp add: core_data_hydrator_def core_data_from_client_pointwise)
  have new: "\<not> already_hydrated (core_data_hydrator sample_env) (sample_post as)" for as
    by (simp add: core_data_hydrator_def sample_post_def default_candidate_def)
  have key: "cache_key_for (core_data_hydrator sample_env) q (sample_post as) = 1" for q as
    by (simp add: core_data_hydrator_def sample_post_def default_candidate_def)
  have trip: "hydrate_from_cache (core_data_hydrator sample_env) (cache_value (core_data_hydrator sample_env) (sample_hydrated [])) = sample_hydrated []"
    using core_data_survives [OF sample_client(1)] by (simp add: core_data_hydrator_def)
  show ?thesis
    by (simp add: cached_hydrate_pointwise [OF client] unknown_def known_def new key sample_client store_result_def trip
        core_data_from_client_pointwise [OF by_id])
qed

end
