(* ===== verification/Ads_Brand_Safety.thy ===== *)
theory Ads_Brand_Safety
  imports Candidate_Hydrators
begin

text \<open>
  The hydrator of the brand-safety verdict on a candidate
  (\<open>home-mixer/candidate_hydrators/ads_brand_safety_vf_hydrator.rs\<close>): the worst verdict on the post
  itself, the post it quotes and its ancestors, with the author's rating in place of a missing rating of the
  post. The numbers of the label types (\<open>i32::from\<close>) are the parameter \<open>label_code\<close>. Of the orders that the
  unstable sort of the labels allows, the model has the stable one. The counters are not modelled.
\<close>

section \<open>Definitions\<close>

type_synonym author_fallback_map = "u64 \<rightharpoonup> author_brand_safety_fallback option"

type_synonym author_brand_safety_client = "u64 list \<Rightarrow> author_fallback_map result"

definition labels_of :: "safety_labels_batch \<Rightarrow> u64 \<Rightarrow> safety_label_map" where
  "labels_of batch a = unwrap_or [] (batch_labels batch a)"

definition author_fallbacks :: "author_brand_safety_client option \<Rightarrow> scored_posts_query \<Rightarrow> post_candidate list \<Rightarrow>
    (u64 \<rightharpoonup> safety_label_map) \<Rightarrow> u64 list \<Rightarrow> author_fallback_map option" where
  "author_fallbacks author_client q cs label_map failed_ids =
     (case author_client of
        None \<Rightarrow> None
      | Some fetch \<Rightarrow>
          if \<not> EnableAdsAuthorBrandSafetyFallback (params q) then None
          else let authors = remdups (map get_original_author_id (List.filter (\<lambda>c.
                     let a = unwrap_or (tweet_id c) (retweeted_tweet_id c)
                     in a \<notin> set failed_ids \<and> (case label_map a of None \<Rightarrow> True | Some l \<Rightarrow> \<not> has_grok_label l)) cs))
               in if authors = [] then Some Map.empty
                  else Some (case fetch authors of Inr m \<Rightarrow> m | Inl e \<Rightarrow> Map.empty))"

definition author_fallback_for :: "author_fallback_map \<Rightarrow> u64 \<Rightarrow> author_brand_safety_fallback option \<times> string" where
  "author_fallback_for fetched author =
     (case fetched author of
        Some (Some fallback) \<Rightarrow> (Some fallback, ''row'')
      | Some None \<Rightarrow> (Some Nsfa, ''no_row'')
      | None \<Rightarrow> (Some Nsfa, ''fetch_failed''))"

definition to_safety_label_infos :: "safety_label_map \<Rightarrow> safety_label_info list" where
  "to_safety_label_infos labels =
     map (\<lambda>(k, v). \<lparr>label_type = k, label_description = map_option truncate_description (label_source v),
       label_origin = map_option botmaker_rule_category (botmaker_rule_id_from v)\<rparr>) labels"

text \<open>\<open>Vec::dedup_by\<close> on a key: of a run of equal keys the first element stays.\<close>

fun dedup_by_key :: "('a \<Rightarrow> 'k) \<Rightarrow> 'a list \<Rightarrow> 'a list" where
  "dedup_by_key key [] = []"
| "dedup_by_key key [x] = [x]"
| "dedup_by_key key (x # y # ys) = (if key y = key x then dedup_by_key key (x # ys) else x # dedup_by_key key (y # ys))"

definition primary_id :: "post_candidate \<Rightarrow> u64" where
  "primary_id c = unwrap_or (tweet_id c) (retweeted_tweet_id c)"

definition primary_verdict :: "bool \<Rightarrow> author_fallback_map option \<Rightarrow> safety_labels_batch \<Rightarrow> post_candidate \<Rightarrow> brand_safety_verdict" where
  "primary_verdict v2 fallbacks batch c =
     (let compute = verdict_of v2 (fallbacks = None);
          primary_labels = labels_of batch (primary_id c);
          unscored = \<not> has_grok_label primary_labels;
          author_fallback = (case fallbacks of
              Some fetched \<Rightarrow> if unscored then fst (author_fallback_for fetched (get_original_author_id c)) else None
            | None \<Rightarrow> None)
      in case author_fallback of
           Some fallback \<Rightarrow> if unscored then compute (with_author_fallback primary_labels fallback) (primary_id c)
                            else compute primary_labels (primary_id c)
         | None \<Rightarrow> compute primary_labels (primary_id c))"

definition add_part :: "bool \<Rightarrow> author_fallback_map option \<Rightarrow> safety_labels_batch \<Rightarrow> u64 \<Rightarrow>
    brand_safety_verdict \<times> safety_label_info list \<Rightarrow> brand_safety_verdict \<times> safety_label_info list" where
  "add_part v2 fallbacks batch a st =
     (let (verdict, infos) = st
      in if a \<in> set (batch_failures batch) then (worst_verdict verdict MediumRisk, infos)
         else (worst_verdict verdict (verdict_of v2 (fallbacks = None) (labels_of batch a) a),
               infos @ to_safety_label_infos (labels_of batch a)))"

definition brand_safety_for :: "(safety_label_type \<Rightarrow> i32) \<Rightarrow> bool \<Rightarrow> author_fallback_map option \<Rightarrow> safety_labels_batch \<Rightarrow>
    post_candidate \<Rightarrow> post_candidate result" where
  "brand_safety_for label_code v2 fallbacks batch c =
     (if primary_id c \<in> set (batch_failures batch)
      then Err (''VF lookup failed for tweet '' @ show_nat (unat (primary_id c)))
      else let st0 = (primary_verdict v2 fallbacks batch c, to_safety_label_infos (labels_of batch (primary_id c)));
               st1 = (case quoted_tweet_id c of Some a \<Rightarrow> add_part v2 fallbacks batch a st0 | None \<Rightarrow> st0);
               (verdict, infos) = fold (add_part v2 fallbacks batch) (ancestors c) st1;
               verdict' = (if nsfw_author_ads c = Some True then worst_verdict verdict HighRisk else verdict);
               sorted_infos = sort_key (\<lambda>l. sint (label_code (label_type l))) infos
           in Ok (default_candidate\<lparr>brand_safety_verdict_of := Some verdict',
                safety_labels := dedup_by_key label_type sorted_infos\<rparr>))"

definition brand_safety_ids :: "post_candidate \<Rightarrow> u64 list" where
  "brand_safety_ids c = primary_id c # option_list (quoted_tweet_id c) @ ancestors c"

definition ads_brand_safety_hydrate :: "(safety_label_type \<Rightarrow> i32) \<Rightarrow> hydration_env \<Rightarrow> author_brand_safety_client option \<Rightarrow>
    scored_posts_query \<Rightarrow> post_candidate list \<Rightarrow> post_candidate result list" where
  "ads_brand_safety_hydrate label_code env author_client q cs =
     (case get_safety_labels env (remdups (concat (map brand_safety_ids cs))) of
        Inl e \<Rightarrow> map (\<lambda>_. Err (''VF get_safety_labels failed: '' @ e)) cs
      | Inr batch \<Rightarrow>
          let fallbacks = author_fallbacks author_client q cs (batch_labels batch) (batch_failures batch)
          in map (brand_safety_for label_code (EnableAdsBrandSafetyVerdictV2 (params q)) fallbacks batch) cs)"

definition ads_brand_safety_vf_hydrator ::
  "(safety_label_type \<Rightarrow> i32) \<Rightarrow> hydration_env \<Rightarrow> author_brand_safety_client option \<Rightarrow> post_hydrator" where
  "ads_brand_safety_vf_hydrator label_code env author_client = plain_hydrator ''AdsBrandSafetyVfHydrator'' (\<lambda>q. True)
     (ads_brand_safety_hydrate label_code env author_client)
     (\<lambda>c hydrated. c\<lparr>brand_safety_verdict_of := brand_safety_verdict_of hydrated, safety_labels := safety_labels hydrated\<rparr>)"

interpretation ads_brand_safety_upd: identity_update "hy_update (ads_brand_safety_vf_hydrator label_code env author_client)" rank_key
  for label_code env author_client
  by unfold_locales (simp add: ads_brand_safety_vf_hydrator_def hydrator_defs)

section \<open>The parts of a candidate\<close>

text \<open>The posts shown with a candidate.\<close>

definition ancillary_ids :: "post_candidate \<Rightarrow> u64 list" where
  "ancillary_ids c = option_list (quoted_tweet_id c) @ ancestors c"

text \<open>When the post itself allows an ad: by its own labels, or by a good rating of its author if it has none.\<close>

definition primary_cleared :: "bool \<Rightarrow> author_fallback_map option \<Rightarrow> safety_labels_batch \<Rightarrow> post_candidate \<Rightarrow> bool" where
  "primary_cleared v2 fallbacks batch c =
     (let labels = labels_of batch (primary_id c)
      in case fallbacks of
           None \<Rightarrow> cleared v2 True labels (primary_id c)
         | Some fetched \<Rightarrow>
             if has_grok_label labels then cleared v2 False labels (primary_id c)
             else fetched (get_original_author_id c) \<in> {Some (Some Sfa), Some (Some NsfaLimited)} \<and>
                  \<not> contains_any labels HIGH_RISK_LABELS \<and> \<not> contains_any labels MEDIUM_RISK_LABELS)"

definition part_cleared :: "bool \<Rightarrow> author_fallback_map option \<Rightarrow> safety_labels_batch \<Rightarrow> u64 \<Rightarrow> bool" where
  "part_cleared v2 fallbacks batch a \<longleftrightarrow>
     a \<notin> set (batch_failures batch) \<and> cleared v2 (fallbacks = None) (labels_of batch a) a"

definition part_high :: "safety_labels_batch \<Rightarrow> u64 \<Rightarrow> bool" where
  "part_high batch a \<longleftrightarrow> a \<notin> set (batch_failures batch) \<and> contains_any (labels_of batch a) HIGH_RISK_LABELS"

lemma contains_any_fallback:
  "contains_any (with_author_fallback labels f) ks \<longleftrightarrow> grok_label f \<in> set ks \<or> contains_any labels ks"
  by (auto simp: contains_any_def contains_key_def with_author_fallback_def update_conv' list_ex_iff)

lemma unscored_labels:
  assumes "\<not> has_grok_label labels"
  shows "\<not> contains_any labels V2_WRITTEN_LABELS" "\<not> contains_any labels [GROK_SFA, GROK_NSFA_LIMITED]"
  using assms by (auto simp: has_grok_label_def contains_any_def GROK_LABELS_def V2_WRITTEN_LABELS_def)

lemma cleared_with_fallback:
  assumes "\<not> has_grok_label labels"
  shows "cleared v2 False (with_author_fallback labels f) a \<longleftrightarrow>
    f \<noteq> Nsfa \<and> \<not> contains_any labels HIGH_RISK_LABELS \<and> \<not> contains_any labels MEDIUM_RISK_LABELS"
  using unscored_labels [OF assms]
  by (cases f) (simp_all add: cleared_def v2_rules_def contains_any_fallback,
      simp_all add: HIGH_RISK_LABELS_def MEDIUM_RISK_LABELS_def V2_WRITTEN_LABELS_def)

lemma primary_verdict_cases:
  "primary_verdict v2 fallbacks batch c =
    (let labels = labels_of batch (primary_id c)
     in case fallbacks of
          None \<Rightarrow> verdict_of v2 True labels (primary_id c)
        | Some fetched \<Rightarrow>
            if has_grok_label labels then verdict_of v2 False labels (primary_id c)
            else verdict_of v2 False (with_author_fallback labels
                   (case fetched (get_original_author_id c) of Some (Some f) \<Rightarrow> f | _ \<Rightarrow> Nsfa)) (primary_id c))"
  by (auto simp: primary_verdict_def author_fallback_for_def Let_def split: option.split)

lemma primary_verdict_low: "verdict_code (primary_verdict v2 fallbacks batch c) \<le> 2 \<longleftrightarrow> primary_cleared v2 fallbacks batch c"
  by (auto simp: primary_verdict_cases primary_cleared_def Let_def verdict_of_low cleared_with_fallback
      split: option.splits author_brand_safety_fallback.splits intro: author_brand_safety_fallback.exhaust)

lemma primary_verdict_high:
  "primary_verdict v2 fallbacks batch c = HighRisk \<longleftrightarrow> contains_any (labels_of batch (primary_id c)) HIGH_RISK_LABELS"
proof -
  have "grok_label f \<notin> set HIGH_RISK_LABELS" for f by (cases f) (simp_all add: HIGH_RISK_LABELS_def)
  then show ?thesis by (auto simp: primary_verdict_cases Let_def verdict_of_high contains_any_fallback split: option.split)
qed

lemma add_part_verdict:
  "verdict_code (fst (add_part v2 fallbacks batch a st)) \<le> 2 \<longleftrightarrow> verdict_code (fst st) \<le> 2 \<and> part_cleared v2 fallbacks batch a"
  "fst (add_part v2 fallbacks batch a st) = HighRisk \<longleftrightarrow> fst st = HighRisk \<or> part_high batch a"
  by (auto simp: add_part_def split_beta Let_def part_cleared_def part_high_def verdict_of_low verdict_of_high)

lemma label_types_infos [simp]: "label_type ` set (to_safety_label_infos labels) = fst ` set labels"
  by (force simp: to_safety_label_infos_def)

lemma add_part_labels:
  "label_type ` set (snd (add_part v2 fallbacks batch a st)) =
   label_type ` set (snd st) \<union> (if a \<in> set (batch_failures batch) then {} else fst ` set (labels_of batch a))"
  by (simp add: add_part_def split_beta Let_def image_Un)

lemma add_parts_verdict:
  "verdict_code (fst (fold (add_part v2 fallbacks batch) as st)) \<le> 2 \<longleftrightarrow>
     verdict_code (fst st) \<le> 2 \<and> list_all (part_cleared v2 fallbacks batch) as"
  "fst (fold (add_part v2 fallbacks batch) as st) = HighRisk \<longleftrightarrow> fst st = HighRisk \<or> list_ex (part_high batch) as"
  by (induction as arbitrary: st) (auto simp: add_part_verdict)

lemma add_parts_labels:
  "label_type ` set (snd (fold (add_part v2 fallbacks batch) as st)) =
   label_type ` set (snd st) \<union> (\<Union>a \<in> set as - set (batch_failures batch). fst ` set (labels_of batch a))"
  by (induction as arbitrary: st) (auto simp: add_part_labels)

lemma keys_dedup_by_key: "key ` set (dedup_by_key key xs) = key ` set xs"
  by (induction key xs rule: dedup_by_key.induct) auto

lemma brand_safety_for_parts:
  "brand_safety_for label_code v2 fallbacks batch c =
     (if primary_id c \<in> set (batch_failures batch)
      then Err (''VF lookup failed for tweet '' @ show_nat (unat (primary_id c)))
      else let st = fold (add_part v2 fallbacks batch) (ancillary_ids c)
                 (primary_verdict v2 fallbacks batch c, to_safety_label_infos (labels_of batch (primary_id c)))
           in Ok (default_candidate\<lparr>
                brand_safety_verdict_of := Some (if nsfw_author_ads c = Some True then worst_verdict (fst st) HighRisk else fst st),
                safety_labels := dedup_by_key label_type (sort_key (\<lambda>l. sint (label_code (label_type l))) (snd st))\<rparr>))"
  by (auto simp: brand_safety_for_def ancillary_ids_def option_list_def split_beta Let_def split: option.split)

text \<open>What the verdict on a candidate says of the posts that are shown with it.\<close>

definition verdict_explained :: "bool \<Rightarrow> author_fallback_map option \<Rightarrow> safety_labels_batch \<Rightarrow> post_candidate \<Rightarrow> post_candidate result \<Rightarrow> bool" where
  "verdict_explained v2 fallbacks batch c r =
     (case r of
        Inl e \<Rightarrow> primary_id c \<in> set (batch_failures batch)
      | Inr w \<Rightarrow>
          (case brand_safety_verdict_of w of
             None \<Rightarrow> False
           | Some v \<Rightarrow>
               primary_id c \<notin> set (batch_failures batch) \<and>
               (verdict_code v \<le> 2 \<longleftrightarrow>
                  nsfw_author_ads c \<noteq> Some True \<and> primary_cleared v2 fallbacks batch c \<and>
                  list_all (part_cleared v2 fallbacks batch) (ancillary_ids c)) \<and>
               (v = HighRisk \<longleftrightarrow> nsfw_author_ads c = Some True \<or> list_ex (part_high batch) (primary_id c # ancillary_ids c)) \<and>
               label_type ` set (safety_labels w) =
                 (\<Union>a \<in> set (primary_id c # ancillary_ids c) - set (batch_failures batch). fst ` set (labels_of batch a))))"

lemma brand_safety_for_explained: "verdict_explained v2 fallbacks batch c (brand_safety_for label_code v2 fallbacks batch c)"
proof (cases "primary_id c \<in> set (batch_failures batch)")
  case False
  let ?st = "fold (add_part v2 fallbacks batch) (ancillary_ids c)
    (primary_verdict v2 fallbacks batch c, to_safety_label_infos (labels_of batch (primary_id c)))"
  let ?v = "if nsfw_author_ads c = Some True then worst_verdict (fst ?st) HighRisk else fst ?st"
  have "verdict_code ?v \<le> 2 \<longleftrightarrow> nsfw_author_ads c \<noteq> Some True \<and> primary_cleared v2 fallbacks batch c \<and>
      list_all (part_cleared v2 fallbacks batch) (ancillary_ids c)"
    by (simp add: add_parts_verdict primary_verdict_low)
  moreover have "?v = HighRisk \<longleftrightarrow> nsfw_author_ads c = Some True \<or> list_ex (part_high batch) (primary_id c # ancillary_ids c)"
    using False by (auto simp: add_parts_verdict primary_verdict_high part_high_def)
  moreover have "label_type ` set (dedup_by_key label_type (sort_key (\<lambda>l. sint (label_code (label_type l))) (snd ?st))) =
      (\<Union>a \<in> set (primary_id c # ancillary_ids c) - set (batch_failures batch). fst ` set (labels_of batch a))"
    using False by (auto simp: keys_dedup_by_key add_parts_labels)
  ultimately show ?thesis
    using False by (simp add: verdict_explained_def brand_safety_for_parts Let_def)
qed (simp add: verdict_explained_def brand_safety_for_parts)

text \<open>
  C20. The brand-safety verdict on a candidate is sound and complete for its parts. When the labels
  arrive, each candidate whose own lookup did not fail gets a verdict: it is at most \<open>LowRisk\<close>, so that
  an ad may stand beside the candidate, exactly if the author is not marked NSFW and the post, the quoted post and every
  ancestor are cleared (no label of high or medium risk, rated, reviewed where required, lookup not
  failed; a post without rating only by a good rating of its author); it is \<open>HighRisk\<close> exactly if one of
  them carries a label of high risk or the author is marked; and the labels reported are those
  of these posts. When the lookup fails as a whole, every candidate gets an error.
\<close>

theorem ads_brand_safety_explained:
  "case get_safety_labels env (remdups (concat (map brand_safety_ids cs))) of
     Inl e \<Rightarrow> ads_brand_safety_hydrate label_code env author_client q cs = replicate (length cs) (Err (''VF get_safety_labels failed: '' @ e))
   | Inr batch \<Rightarrow>
       list_all2 (verdict_explained (EnableAdsBrandSafetyVerdictV2 (params q))
           (author_fallbacks author_client q cs (batch_labels batch) (batch_failures batch)) batch)
         cs (ads_brand_safety_hydrate label_code env author_client q cs)"
  by (auto simp: ads_brand_safety_hydrate_def map_replicate_const Let_def list_all2_conv_all_nth brand_safety_for_explained
      split: sum.split)

end
