(* ===== verification/Tweet_Type_Metrics.thy ===== *)
theory Tweet_Type_Metrics
  imports Candidate_Hydrators
begin

text \<open>
  The bit set of tweet types on a candidate (\<open>home-mixer/candidate_hydrators/tweet_type_metrics_hydrator.rs\<close>
  and \<open>util/tweet_type_metrics.rs\<close>). A set of bit numbers is the list of its insertions. The composition
  of a slate and the reader of the viewer's history are the record \<open>metrics_env\<close>.
\<close>

unbundle bit_operations_syntax

section \<open>Definitions\<close>

record composition =
  comp_size :: nat
  comp_unique :: nat
  unique_ratio :: f64
  max_share :: f64

record metrics_env =
  composition_from_keys :: "u64 list \<Rightarrow> composition"
  positively_engaged_author_ids :: "columnar_bytes \<Rightarrow> u64 list option"

definition bit_if :: "bool \<Rightarrow> nat \<Rightarrow> nat list" where
  "bit_if b i = (if b then [i] else [])"

definition follower_bits :: "i32 \<Rightarrow> nat list" where
  "follower_bits followers =
     (let f = unat followers
      in bit_if (f < 100) 309 @ bit_if (100 \<le> f \<and> f < 1000) 310 @ bit_if (1000 \<le> f \<and> f < 10000) 311 @
         bit_if (10000 \<le> f \<and> f < 100000) 312 @ bit_if (100000 \<le> f \<and> f < 1000000) 313 @ bit_if (1000000 \<le> f) 314)"

definition video_bits :: "i32 \<Rightarrow> nat list" where
  "video_bits duration =
     (let d = unat duration
      in bit_if (d \<le> 10000) 151 @ bit_if (10000 < d \<and> d \<le> 60000) 152 @ bit_if (60000 < d) 153)"

definition age_bits :: "duration \<Rightarrow> nat list" where
  "age_bits age =
     (let age_ms = of_nat (age div 1000000) :: u64
      in bit_if (age_ms \<le> 30 * 60 * 1000) 154 @ bit_if (age_ms \<le> 60 * 60 * 1000) 155 @
         bit_if (age_ms \<le> 6 * 60 * 60 * 1000) 156 @ bit_if (age_ms \<le> 12 * 60 * 60 * 1000) 157 @
         bit_if (24 * 60 * 60 * 1000 \<le> age_ms) 158)"

definition served_size_bits :: "nat \<Rightarrow> nat list" where
  "served_size_bits n = bit_if (n = 0) 32 @ bit_if (n < 3) 23 @ bit_if (n < 20) 39 @ bit_if (n < 10) 40 @ bit_if (n < 5) 41"

definition create_tweet_type_bitset :: "post_env \<Rightarrow> post_candidate \<Rightarrow> scored_posts_query \<Rightarrow> nat list" where
  "create_tweet_type_bitset penv c q =
     [0] @
     bit_if (retweeted_tweet_id c \<noteq> None) 1 @
     bit_if (in_reply_to_tweet_id c \<noteq> None) 2 @
     bit_if (subscription_author_id c \<noteq> None) 10 @
     (case score c of Some s \<Rightarrow> bit_if (s \<noteq> F_Fin 0) 38 | None \<Rightarrow> []) @
     bit_if (ancestors c \<noteq> []) 37 @
     bit_if (unwrap_or True (in_network c)) 80 @
     (case author_followers_count c of Some followers \<Rightarrow> follower_bits followers | None \<Rightarrow> []) @
     bit_if (min_video_duration_ms c \<noteq> None) 5 @
     (case min_video_duration_ms c of Some duration_ms \<Rightarrow> video_bits duration_ms | None \<Rightarrow> []) @
     (case duration_since_creation_opt penv (tweet_id c) of Some age \<Rightarrow> age_bits age | None \<Rightarrow> []) @
     served_size_bits (length (served_ids q))"

definition author_diversity_bits :: "composition \<Rightarrow> nat list" where
  "author_diversity_bits authors =
     (if comp_size authors = 0 then []
      else bit_if (f64_ge (F_Fin (1 / 2)) (unique_ratio authors)) 239 @
           bit_if (comp_unique authors \<le> 5) 240 @ bit_if (comp_unique authors \<le> 10) 241 @ bit_if (comp_unique authors \<le> 15) 242 @
           bit_if (f64_ge (max_share authors) (F_Fin (1 / 4))) 243 @
           bit_if (f64_ge (max_share authors) (F_Fin (1 / 2))) 244)"

text \<open>The state of the loop over the slate: appearances of authors, prefixes seen, bits by position.\<close>

record slate_state =
  author_counts :: "(u64 \<times> nat) list"
  seen_sid_l1 :: "i32 list list"
  seen_sid_l2 :: "i32 list list"
  slate_bits :: "nat list list"

definition slate_post_bits :: "u64 list \<Rightarrow> u64 list option \<Rightarrow> post_candidate \<Rightarrow> slate_state \<Rightarrow> nat list" where
  "slate_post_bits followed engaged_authors c st =
     (let prior = unwrap_or 0 (map_of (author_counts st) (author_id c))
      in bit_if (1 \<le> prior) 315 @ bit_if (2 \<le> prior) 316 @
         (case engaged_authors of
            Some engaged \<Rightarrow> bit_if (author_id c \<notin> set followed \<and> author_id c \<notin> set engaged) 317
          | None \<Rightarrow> []) @
         (case semantic_id_prefix c 1 of Some l1 \<Rightarrow> [318] @ bit_if (l1 \<in> set (seen_sid_l1 st)) 319 | None \<Rightarrow> []) @
         (case semantic_id_prefix c 2 of Some l2 \<Rightarrow> bit_if (l2 \<in> set (seen_sid_l2 st)) 320 | None \<Rightarrow> []))"

definition slate_step :: "u64 list \<Rightarrow> u64 list option \<Rightarrow> post_candidate list \<Rightarrow> nat \<Rightarrow> slate_state \<Rightarrow> slate_state" where
  "slate_step followed engaged_authors cs idx st =
     (let c = cs ! idx
      in st\<lparr>author_counts := AList.update (author_id c) (unwrap_or 0 (map_of (author_counts st) (author_id c)) + 1) (author_counts st),
            seen_sid_l1 := option_list (semantic_id_prefix c 1) @ seen_sid_l1 st,
            seen_sid_l2 := option_list (semantic_id_prefix c 2) @ seen_sid_l2 st,
            slate_bits := (slate_bits st)[idx := slate_post_bits followed engaged_authors c st]\<rparr>)"

definition score_order :: "post_candidate list \<Rightarrow> nat list" where
  "score_order cs = sort_by (score_desc (\<lambda>i. unwrap_or F_NegInf (score (cs ! i)))) [0..<length cs]"

definition slate_position_bits :: "metrics_env \<Rightarrow> scored_posts_query \<Rightarrow> post_candidate list \<Rightarrow> nat list list" where
  "slate_position_bits menv q cs =
     (let engaged_authors = Option.bind (columnar_scoring_sequence q) (positively_engaged_author_ids menv)
      in slate_bits (fold (slate_step (followed_user_ids (features q)) engaged_authors cs) (score_order cs)
           \<lparr>author_counts = [], seen_sid_l1 = [], seen_sid_l2 = [], slate_bits = replicate (length cs) []\<rparr>))"

definition set_bit_in :: "nat \<Rightarrow> 8 word list \<Rightarrow> 8 word list" where
  "set_bit_in i bytes = bytes[i div 8 := (bytes ! (i div 8)) OR push_bit (i mod 8) 1]"

definition bitset_to_bytes :: "nat list \<Rightarrow> 8 word list" where
  "bitset_to_bytes bits =
     (if bits = [] then []
      else fold set_bit_in bits (replicate (Max (set bits) div 8 + 1) 0))"

definition bitset_get :: "8 word list \<Rightarrow> nat \<Rightarrow> bool" where
  "bitset_get bytes i =
     (let byte_index = i div 8; bit_offset = i mod 8
      in byte_index < length bytes \<and> (bytes ! byte_index) AND push_bit bit_offset 1 \<noteq> 0)"

definition tweet_type_metrics_hydrate :: "post_env \<Rightarrow> metrics_env \<Rightarrow> scored_posts_query \<Rightarrow> post_candidate list \<Rightarrow> post_candidate result list" where
  "tweet_type_metrics_hydrate penv menv q cs =
     (let diversity = author_diversity_bits (composition_from_keys menv (map author_id cs));
          slate = slate_position_bits menv q cs
      in map (\<lambda>(c, position_bits). Ok (default_candidate\<lparr>tweet_type_metrics :=
           Some (bitset_to_bytes (create_tweet_type_bitset penv c q @ diversity @ position_bits))\<rparr>)) (zip cs slate))"

definition tweet_type_metrics_hydrator :: "post_env \<Rightarrow> metrics_env \<Rightarrow> post_hydrator" where
  "tweet_type_metrics_hydrator penv menv = plain_hydrator ''TweetTypeMetricsHydrator'' (\<lambda>q. True)
     (tweet_type_metrics_hydrate penv menv)
     (\<lambda>c hydrated. c\<lparr>tweet_type_metrics := tweet_type_metrics hydrated\<rparr>)"

interpretation tweet_type_upd: identity_update "hy_update (tweet_type_metrics_hydrator penv menv)" rank_key for penv menv
  by unfold_locales (simp add: tweet_type_metrics_hydrator_def hydrator_defs)

section \<open>The bytes of a set\<close>

lemma bitset_get_bit: "bitset_get bytes j \<longleftrightarrow> j div 8 < length bytes \<and> bit (bytes ! (j div 8)) (j mod 8)"
  by (simp add: bitset_get_def Let_def and_exp_eq_0_iff_not_bit)

lemma bitset_get_set_bit:
  assumes "i div 8 < length bytes"
  shows "bitset_get (set_bit_in i bytes) j \<longleftrightarrow> j = i \<or> bitset_get bytes j"
proof -
  have "bit ((bytes ! (i div 8)) OR push_bit (i mod 8) 1) (j mod 8) \<longleftrightarrow> i mod 8 = j mod 8 \<or> bit (bytes ! (i div 8)) (j mod 8)"
    by (auto simp: bit_or_iff bit_exp_iff possible_bit_def)
  moreover have "i = j \<longleftrightarrow> i div 8 = j div 8 \<and> i mod 8 = j mod 8" by (metis div_mult_mod_eq)
  ultimately show ?thesis
    using assms by (auto simp: bitset_get_bit set_bit_in_def nth_list_update simp del: push_bit_of_1)
qed

lemma bitset_get_fold:
  "list_all (\<lambda>i. i div 8 < length bytes) bits \<Longrightarrow>
   bitset_get (fold set_bit_in bits bytes) j \<longleftrightarrow> j \<in> set bits \<or> bitset_get bytes j"
proof (induction bits arbitrary: bytes)
  case (Cons i bits)
  have "length (set_bit_in i bytes) = length bytes" by (simp add: set_bit_in_def)
  then show ?case using Cons bitset_get_set_bit [of i bytes j] by auto
qed simp

lemma bitset_get_to_bytes: "bitset_get (bitset_to_bytes bits) j \<longleftrightarrow> j \<in> set bits"
proof (cases "bits = []")
  case False
  have "i div 8 < Max (set bits) div 8 + 1" if "i \<in> set bits" for i
    using div_le_mono [OF Max_ge [OF finite_set that], of 8] by simp
  then have "bitset_get (bitset_to_bytes bits) j \<longleftrightarrow> j \<in> set bits \<or> bitset_get (replicate (Max (set bits) div 8 + 1) 0) j"
    using False bitset_get_fold [of "replicate (Max (set bits) div 8 + 1) 0" bits j] by (simp add: bitset_to_bytes_def list_all_iff)
  then show ?thesis by (auto simp: bitset_get_bit nth_Cons split: nat.splits)
qed (simp add: bitset_to_bytes_def bitset_get_bit)

section \<open>The place in the slate\<close>

lemma slate_step_simps [simp]:
  "length (slate_bits (slate_step f e cs i st)) = length (slate_bits st)"
  "j \<noteq> i \<Longrightarrow> slate_bits (slate_step f e cs i st) ! j = slate_bits st ! j"
  "i < length (slate_bits st) \<Longrightarrow> slate_bits (slate_step f e cs i st) ! i = slate_post_bits f e (cs ! i) st"
  by (simp_all add: slate_step_def Let_def)

lemma length_slate_fold [simp]: "length (slate_bits (fold (slate_step f e cs) is st)) = length (slate_bits st)"
  by (induction "is" arbitrary: st) simp_all

lemma slate_fold_other: "i \<notin> set is \<Longrightarrow> slate_bits (fold (slate_step f e cs) is st) ! i = slate_bits st ! i"
  by (induction "is" arbitrary: st) simp_all

lemma slate_fold_nth:
  assumes "distinct is" "r < length is" "is ! r < length (slate_bits st)"
  shows "slate_bits (fold (slate_step f e cs) is st) ! (is ! r) =
    slate_post_bits f e (cs ! (is ! r)) (fold (slate_step f e cs) (take r is) st)"
proof -
  let ?pre = "fold (slate_step f e cs) (take r is) st"
  have split: "is = take r is @ is ! r # drop (Suc r) is" by (rule id_take_nth_drop [OF assms(2)])
  then have "is ! r \<notin> set (drop (Suc r) is)" using assms(1) by (metis distinct.simps(2) distinct_append)
  moreover have "fold (slate_step f e cs) is st = fold (slate_step f e cs) (drop (Suc r) is) (slate_step f e cs (is ! r) ?pre)"
    by (subst split) simp
  ultimately show ?thesis using assms(3) by (simp add: slate_fold_other)
qed

lemma slate_fold_counts:
  "unwrap_or 0 (map_of (author_counts (fold (slate_step f e cs) is st)) a) =
   unwrap_or 0 (map_of (author_counts st) a) + count_list (map (\<lambda>i. author_id (cs ! i)) is) a"
proof (induction "is" arbitrary: st)
  case (Cons i "is")
  show ?case
    using Cons [of "slate_step f e cs i st"] by (simp add: slate_step_def Let_def update_conv' unwrap_or_def split: if_splits)
qed simp

lemma slate_fold_seen:
  "set (seen_sid_l1 (fold (slate_step f e cs) is st)) = {l. Some l \<in> (\<lambda>i. semantic_id_prefix (cs ! i) 1) ` set is} \<union> set (seen_sid_l1 st)"
  "set (seen_sid_l2 (fold (slate_step f e cs) is st)) = {l. Some l \<in> (\<lambda>i. semantic_id_prefix (cs ! i) 2) ` set is} \<union> set (seen_sid_l2 st)"
  by (induction "is" arbitrary: st) (auto simp: slate_step_def Let_def option_list_def split: option.splits)

lemma in_bit_if [simp]: "j \<in> set (bit_if b i) \<longleftrightarrow> b \<and> j = i"
  by (auto simp: bit_if_def)

lemma bit_if_subset [simp]: "i \<in> A \<Longrightarrow> set (bit_if b i) \<subseteq> A"
  by (cases b) (simp_all add: bit_if_def)

lemma field_bits:
  "set (follower_bits f) \<subseteq> {..158} \<union> {309..314}" "set (video_bits d) \<subseteq> {..158} \<union> {309..314}"
  "set (age_bits a) \<subseteq> {..158} \<union> {309..314}" "set (served_size_bits n) \<subseteq> {..158} \<union> {309..314}"
  by (simp_all add: follower_bits_def video_bits_def age_bits_def served_size_bits_def Let_def)

lemma other_bits:
  "set (create_tweet_type_bitset penv c q) \<subseteq> {..158} \<union> {309..314}"
  "set (author_diversity_bits authors) \<subseteq> {239..244}"
  "set (slate_post_bits f e c st) \<subseteq> {315..320}"
proof -
  show "set (create_tweet_type_bitset penv c q) \<subseteq> {..158} \<union> {309..314}"
    by (simp add: create_tweet_type_bitset_def field_bits split: option.split) (auto dest!: field_bits [THEN subsetD])
  show "set (author_diversity_bits authors) \<subseteq> {239..244}" by (simp add: author_diversity_bits_def)
  show "set (slate_post_bits f e c st) \<subseteq> {315..320}"
    by (auto simp: slate_post_bits_def Let_def split: option.splits)
qed

lemma score_order_perm: "mset (score_order cs) = mset [0..<length cs]"
  by (simp add: score_order_def)

text \<open>The candidate at a rank, those before it, and what its bytes say.\<close>

definition metrics_explained :: "post_env \<Rightarrow> scored_posts_query \<Rightarrow> post_candidate list \<Rightarrow> nat \<Rightarrow> 8 word list \<Rightarrow> bool" where
  "metrics_explained penv q cs r bytes =
     (let c = cs ! (score_order cs ! r); earlier = map ((!) cs) (take r (score_order cs));
          appearances = count_list (map author_id earlier) (author_id c);
          repeated = (\<lambda>n. semantic_id_prefix c n \<noteq> None \<and> semantic_id_prefix c n \<in> (\<lambda>d. semantic_id_prefix d n) ` set earlier)
      in (bitset_get bytes 315 \<longleftrightarrow> 1 \<le> appearances) \<and> (bitset_get bytes 316 \<longleftrightarrow> 2 \<le> appearances) \<and>
         (bitset_get bytes 319 \<longleftrightarrow> repeated 1) \<and> (bitset_get bytes 320 \<longleftrightarrow> repeated 2) \<and>
         list_all (\<lambda>b. bitset_get bytes b \<longleftrightarrow> b \<in> set (create_tweet_type_bitset penv c q)) [0..<239])"

lemma score_order_facts:
  "distinct (score_order cs)" "set (score_order cs) = {0..<length cs}" "length (score_order cs) = length cs"
  by (simp_all add: score_order_def) (metis distinct_upt mset_eq_imp_distinct_iff mset_sort_by)

lemma slate_position_nth:
  fixes q menv cs
  defines "f \<equiv> followed_user_ids (features q)"
    and "e \<equiv> Option.bind (columnar_scoring_sequence q) (positively_engaged_author_ids menv)"
    and "st0 \<equiv> \<lparr>author_counts = [], seen_sid_l1 = [], seen_sid_l2 = [], slate_bits = replicate (length cs) []\<rparr>"
  assumes r: "r < length cs" and i: "i = score_order cs ! r"
  shows "slate_position_bits menv q cs ! i = slate_post_bits f e (cs ! i) (fold (slate_step f e cs) (take r (score_order cs)) st0)"
    and "i < length cs" "length (slate_position_bits menv q cs) = length cs"
proof -
  show lt: "i < length cs" using r i score_order_facts [of cs] by (metis atLeastLessThan_iff nth_mem)
  then show "slate_position_bits menv q cs ! i = slate_post_bits f e (cs ! i) (fold (slate_step f e cs) (take r (score_order cs)) st0)"
    using slate_fold_nth [OF score_order_facts(1), of r cs st0 f e cs] score_order_facts(3) [of cs] r i
    by (simp add: slate_position_bits_def Let_def st0_def e_def f_def)
qed (simp add: slate_position_bits_def Let_def)

lemma bytes_explained:
  assumes r: "r < length cs" and i: "i = score_order cs ! r"
    and bits: "\<And>b. bitset_get bytes b \<longleftrightarrow> b \<in> set (create_tweet_type_bitset penv (cs ! i) q @ author_diversity_bits authors @ slate_position_bits menv q cs ! i)"
  shows "metrics_explained penv q cs r bytes"
proof -
  let ?c = "cs ! i" and ?pre = "take r (score_order cs)"
  let ?f = "followed_user_ids (features q)" and ?e = "Option.bind (columnar_scoring_sequence q) (positively_engaged_author_ids menv)"
  define st where "st = fold (slate_step ?f ?e cs) ?pre \<lparr>author_counts = [], seen_sid_l1 = [], seen_sid_l2 = [], slate_bits = replicate (length cs) []\<rparr>"
  have count: "unwrap_or 0 (map_of (author_counts st) (author_id ?c)) = count_list (map (\<lambda>i. author_id (cs ! i)) ?pre) (author_id ?c)"
    unfolding st_def by (subst slate_fold_counts) (simp add: unwrap_or_def)
  have slate: "b \<in> set (slate_position_bits menv q cs ! i) \<longleftrightarrow> b \<in> set (slate_post_bits ?f ?e ?c st)" for b
    using slate_position_nth(1) [OF r i, of menv q] by (simp add: st_def)
  have low: "bitset_get bytes b \<longleftrightarrow> b \<in> set (create_tweet_type_bitset penv ?c q)" if "b < 239" for b
    using that other_bits(2) [of authors] other_bits(3) [of ?f ?e ?c st] unfolding bits by (force simp: slate)
  have high: "bitset_get bytes b \<longleftrightarrow> b \<in> set (slate_post_bits ?f ?e ?c st)" if "315 \<le> b" for b
    using that other_bits(1) [of penv ?c q] other_bits(2) [of authors] unfolding bits by (force simp: slate)
  have seen: "l \<in> set (seen_sid_l1 st) \<longleftrightarrow> Some l \<in> (\<lambda>i. semantic_id_prefix (cs ! i) 1) ` set ?pre"
    "l \<in> set (seen_sid_l2 st) \<longleftrightarrow> Some l \<in> (\<lambda>i. semantic_id_prefix (cs ! i) 2) ` set ?pre" for l
    unfolding st_def slate_fold_seen by simp_all
  show ?thesis
    using low
    by (cases "semantic_id_prefix ?c 1"; cases "semantic_id_prefix ?c 2"; cases ?e)
      (simp_all add: metrics_explained_def Let_def high slate_post_bits_def count seen i [symmetric] comp_def list_all_iff image_image
        del: One_nat_def)
qed

text \<open>
  The bytes of the tweet types can be read back and mean what they say: with the candidates in the
  order of their scores, the bits of repetition are set exactly when one or two earlier candidates
  have the same author, or an earlier one the same first or first two semantic ids; the bits below 239 are
  exactly those of the candidate's own fields.
\<close>

lemma tweet_type_metrics_read_back:
  "list_all (\<lambda>r. case tweet_type_metrics_hydrate penv menv q cs ! (score_order cs ! r) of
       Inl e \<Rightarrow> False
     | Inr w \<Rightarrow> (case tweet_type_metrics w of None \<Rightarrow> False | Some bytes \<Rightarrow> metrics_explained penv q cs r bytes))
   [0..<length cs]"
proof -
  have "metrics_explained penv q cs r (bitset_to_bytes (create_tweet_type_bitset penv (cs ! i) q @
      author_diversity_bits authors @ slate_position_bits menv q cs ! i))"
    if "r < length cs" "i = score_order cs ! r" for r i authors
    by (rule bytes_explained [OF that]) (simp only: bitset_get_to_bytes)
  then show ?thesis
    using slate_position_nth(2) [where cs = cs] slate_position_nth(3) [where menv = menv and q = q and cs = cs]
    by (auto simp: list_all_iff tweet_type_metrics_hydrate_def Let_def)
qed

end
