(* ===== verification/Following_Pipeline.thy ===== *)
theory Following_Pipeline
  imports Ads_Brand_Safety Tweet_Type_Metrics Dedup_Filters "HOL-Library.Sublist"
begin

text \<open>
  The pipeline of the Following feed (\<open>home-mixer/candidate_pipeline/reverse_chron_posts_pipeline.rs\<close>,
  \<open>sources/following_night_owl_source.rs\<close>, \<open>selectors/passthrough_selector.rs\<close>): the source that asks
  the search service for posts of the followed users, and the pipeline assembled from the hydrators
  and filters of the other theories. The search service, the time of an id and the debug print of a
  cursor are the record \<open>night_owl_env\<close>.
\<close>

section \<open>The source\<close>

datatype pagination = FromSize "32 word" "32 word" | FreshSince "32 word" string | SearchAfter "32 word" string

datatype search_target = Realtime

datatype search_ranking = Recency string

record search_collector =
  co_timeout_ms :: "32 word"
  co_track_total_hits :: bool
  co_explain :: bool
  co_profile :: bool

record search_request =
  nq_old_query :: string
  nq_target :: search_target
  nq_pagination :: "pagination option"
  nq_ranking :: "search_ranking option"
  nq_collector :: "search_collector option"
  nq_return_full_source :: bool
  nq_include_debug :: bool
  nq_enable_archive :: bool
  nq_from_user_ids :: "i64 list"
  nq_reply_to_user_ids :: "i64 list"

record search_doc =
  doc_author_id :: "i64 option"
  doc_in_reply_to_status_id :: "i64 option"
  doc_retweet_of_status_id :: "i64 option"
  doc_retweeted_user_id :: "i64 option"
  doc_quoted_tweet_id :: "i64 option"
  doc_quoted_user_id :: "i64 option"
  doc_conversation_id :: "i64 option"
  doc_text :: "string option"

record search_hit =
  hit_doc_id :: u64
  hit_doc :: "search_doc option"

record night_owl_env =
  night_owl_search :: "search_request \<Rightarrow> search_hit list result"
  time_from_id_ms :: "u64 \<Rightarrow> u64"
  debug_cursor :: "urt_ordered_cursor \<Rightarrow> string"

definition FOLLOWING_POST_FETCH_SIZE :: nat where
  "FOLLOWING_POST_FETCH_SIZE = 110 - 9"

definition MAX_RESULTS :: "32 word" where
  "MAX_RESULTS = of_nat FOLLOWING_POST_FETCH_SIZE"

definition BASE_FILTERS :: string where
  "BASE_FILTERS = ''filter:follows include:retweets include:protected include:spam''"

definition RECALL_MAX_AGE_SECS :: int where
  "RECALL_MAX_AGE_SECS = 365 * 24 * 60 * 60"

text \<open>The division of signed integers rounds towards zero.\<close>

definition base_query :: "i64 \<Rightarrow> string" where
  "base_query request_time =
     (let t = sint request_time; now_secs = (if 0 \<le> t then t div 1000 else - (- t div 1000))
      in if now_secs \<le> 0 then BASE_FILTERS
         else BASE_FILTERS @ '' since_time:'' @ show_nat (nat (max (now_secs - RECALL_MAX_AGE_SECS) 0)))"

definition pagination_cursor_bytes :: "night_owl_env \<Rightarrow> u64 \<Rightarrow> string" where
  "pagination_cursor_bytes nenv tid =
     ''['' @ show_nat (unat (time_from_id_ms nenv tid)) @ '','' @ [CHR 0x22] @ show_nat (unat tid) @ [CHR 0x22] @ '']''"

definition from_size_pagination :: pagination where
  "from_size_pagination = FromSize 0 MAX_RESULTS"

definition fresh_since_pagination :: "night_owl_env \<Rightarrow> u64 \<Rightarrow> pagination" where
  "fresh_since_pagination nenv since_id = FreshSince MAX_RESULTS (pagination_cursor_bytes nenv since_id)"

definition search_after_pagination :: "night_owl_env \<Rightarrow> u64 \<Rightarrow> pagination" where
  "search_after_pagination nenv max_id = SearchAfter MAX_RESULTS (pagination_cursor_bytes nenv max_id)"

definition positive_id :: "i64 option \<Rightarrow> u64 option" where
  "positive_id i = (case i of Some v \<Rightarrow> if 0 < sint v then Some v else None | None \<Rightarrow> None)"

definition pagination_for_cursor :: "night_owl_env \<Rightarrow> scored_posts_query \<Rightarrow> (string \<times> pagination) result" where
  "pagination_for_cursor nenv q =
     (let base = base_query (request_time_ms q)
      in case cursor q of
           None \<Rightarrow> Ok (base, from_size_pagination)
         | Some cur \<Rightarrow>
             (case (cursor_type_of cur, positive_id (cursor_id cur)) of
                (Some CursorTop, Some since_id) \<Rightarrow> Ok (base, fresh_since_pagination nenv since_id)
              | (Some CursorBottom, Some max_id) \<Rightarrow> Ok (base, search_after_pagination nenv max_id)
              | (Some CursorGap, Some max_id) \<Rightarrow>
                  (case positive_id (gap_boundary_id cur) of
                     None \<Rightarrow> Err (''FollowingNightOwlSource: invalid gap cursor (missing gap_boundary_id): '' @ debug_cursor nenv cur)
                   | Some since_id \<Rightarrow>
                       Ok (base @ '' max_id:'' @ show_nat (unat max_id - 1), fresh_since_pagination nenv since_id))
              | (Some CursorGap, None) \<Rightarrow> Err (''FollowingNightOwlSource: invalid gap cursor (missing id): '' @ debug_cursor nenv cur)
              | _ \<Rightarrow> Ok (base, from_size_pagination)))"

definition build_request :: "night_owl_env \<Rightarrow> scored_posts_query \<Rightarrow> search_request result" where
  "build_request nenv q =
     (let from_user_ids = user_id q # followed_user_ids (features q)
      in case pagination_for_cursor nenv q of
           Inl e \<Rightarrow> Err e
         | Inr (old_query, pag) \<Rightarrow> Ok \<lparr>nq_old_query = old_query, nq_target = Realtime, nq_pagination = Some pag,
             nq_ranking = Some (Recency []),
             nq_collector = Some \<lparr>co_timeout_ms = 300, co_track_total_hits = False, co_explain = False, co_profile = False\<rparr>,
             nq_return_full_source = True, nq_include_debug = False, nq_enable_archive = True,
             nq_from_user_ids = from_user_ids, nq_reply_to_user_ids = from_user_ids\<rparr>)"

text \<open>\<open>u64::try_from(id).ok()\<close>, and \<open>(id != 0).then_some(id)\<close> of its value or 0.\<close>

definition u64_try_from :: "i64 \<Rightarrow> u64 option" where
  "u64_try_from v = (if 0 \<le> sint v then Some v else None)"

definition doc_id_field :: "search_doc option \<Rightarrow> (search_doc \<Rightarrow> i64 option) \<Rightarrow> u64" where
  "doc_id_field doc field = unwrap_or 0 (Option.bind (Option.bind doc field) u64_try_from)"

definition some_if_nonzero :: "u64 \<Rightarrow> u64 option" where
  "some_if_nonzero v = (if v \<noteq> 0 then Some v else None)"

definition hit_to_post_candidate :: "search_hit \<Rightarrow> post_candidate" where
  "hit_to_post_candidate hit =
     (let doc = hit_doc hit;
          in_reply_to = doc_id_field doc doc_in_reply_to_status_id;
          conv = Option.bind (Option.bind doc doc_conversation_id) u64_try_from;
          ancs = (if in_reply_to \<noteq> 0
                  then in_reply_to # (case conv of Some r \<Rightarrow> if r \<noteq> in_reply_to then [r] else [] | None \<Rightarrow> []) else [])
      in default_candidate\<lparr>tweet_id := hit_doc_id hit, author_id := doc_id_field doc doc_author_id,
           retweeted_tweet_id := some_if_nonzero (doc_id_field doc doc_retweet_of_status_id),
           retweeted_user_id := some_if_nonzero (doc_id_field doc doc_retweeted_user_id),
           in_reply_to_tweet_id := some_if_nonzero in_reply_to,
           quoted_tweet_id := some_if_nonzero (doc_id_field doc doc_quoted_tweet_id),
           quoted_user_id := some_if_nonzero (doc_id_field doc doc_quoted_user_id),
           score := Some (F_Fin 0), in_network := Some True, ancestors := ancs,
           tweet_text := unwrap_or [] (Option.bind doc doc_text),
           served_type_of := Some FollowingInNetwork,
           retrieval_sources := [\<lparr>rs_served_type = FollowingInNetwork, rs_position = None\<rparr>]\<rparr>)"

definition following_search :: "night_owl_env \<Rightarrow> scored_posts_query \<Rightarrow> post_candidate list result" where
  "following_search nenv q =
     (case build_request nenv q of
        Inl e \<Rightarrow> Err e
      | Inr request \<Rightarrow>
          (case night_owl_search nenv request of
             Inl e \<Rightarrow> Err (''FollowingNightOwlSource: '' @ e)
           | Inr hits \<Rightarrow> Ok (sort_key (\<lambda>c. - uint (tweet_id c)) (map hit_to_post_candidate hits))))"

definition following_night_owl_source :: "night_owl_env \<Rightarrow> (scored_posts_query, post_candidate) source" where
  "following_night_owl_source nenv = \<lparr>so_name = ''FollowingNightOwlSource'',
     so_enable = (\<lambda>q. followed_user_ids (features q) \<noteq> []), so_source = following_search nenv\<rparr>"

section \<open>The pipeline\<close>

definition passthrough_selector :: "(scored_posts_query, post_candidate) selector" where
  "passthrough_selector = \<lparr>se_name = ''PassthroughSelector'', se_enable = (\<lambda>q. True),
     se_select = (\<lambda>q. selector_select (\<lambda>c. unwrap_or F_NegInf (score c)) None)\<rparr>"

record following_env =
  fe_search :: night_owl_env
  fe_hydration :: hydration_env
  fe_posts :: post_env
  fe_metrics :: metrics_env
  fe_author_client :: "author_brand_safety_client option"
  fe_label_code :: "safety_label_type \<Rightarrow> i32"
  fe_core_data_store :: "(u64 \<times> core_data_cached) list"

definition reverse_chron_pipeline :: "following_env \<Rightarrow> (scored_posts_query, post_candidate) candidate_pipeline" where
  "reverse_chron_pipeline fe =
     \<lparr>query_hydrators = [], dependent_query_hydrators = [],
      sources = [following_night_owl_source (fe_search fe)],
      hydrators = [hydrator_of (core_data_hydrator (fe_hydration fe)) (fe_core_data_store fe),
        conversation_gap_ancestor_hydrator (fe_hydration fe), quoted_post_text_hydrator (fe_hydration fe)],
      filters = [following_retweet_deduplication_filter, following_viewer_muted_keyword_filter (fe_posts fe), self_reply_chain_filter],
      scorers = [], the_selector = passthrough_selector,
      post_selection_hydrators = [following_blocked_by_hydrator (fe_hydration fe), vf_following_candidate_hydrator (fe_hydration fe),
        ads_brand_safety_vf_hydrator (fe_label_code fe) (fe_hydration fe) (fe_author_client fe),
        tweet_type_metrics_hydrator (fe_posts fe) (fe_metrics fe)],
      post_selection_filters = [author_socialgraph_filter, vf_filter, ancillary_vf_filter],
      side_effects = [], result_size_for = (\<lambda>q. FOLLOWING_POST_FETCH_SIZE), finalize = (\<lambda>q cs. cs)\<rparr>"

section \<open>Filters that keep the order\<close>

locale ordered_filter =
  fixes flt :: "'q \<Rightarrow> 'c list \<Rightarrow> 'c filter_result"
  assumes keeps_order: "subseq (kept (flt q cs)) cs"

sublocale predicate_filter \<subseteq> ordered_filter "fl_filter flt"
  by unfold_locales (simp add: filters_by)

interpretation following_retweet_order: ordered_filter "fl_filter following_retweet_deduplication_filter"
  by unfold_locales (simp add: following_retweet_deduplication_filter_def)

lemma subseq_set: "subseq xs ys \<Longrightarrow> set xs \<subseteq> set ys"
  by (auto dest: list_emb_set)

lemma run_filters_subseq:
  "(\<And>f. f \<in> set fs \<Longrightarrow> ordered_filter (fl_filter f)) \<Longrightarrow> subseq (fst (run_filters q cs fs)) cs"
proof (induction fs arbitrary: cs)
  case (Cons f fs)
  have "subseq (kept (fl_filter f q cs)) cs" using ordered_filter.keeps_order [OF Cons.prems] by simp
  moreover have "subseq (fst (run_filters q cs' fs)) cs'" for cs' using Cons by simp
  ultimately show ?case by (auto simp: run_filters_Cons Let_def intro: subseq_order.order_trans)
qed simp

lemma run_filters_established:
  assumes "f \<in> set fs" "fl_enable f q" "\<And>g. g \<in> set fs \<Longrightarrow> ordered_filter (fl_filter g)"
    and "\<And>cs c. c \<in> set (kept (fl_filter f q cs)) \<Longrightarrow> P c"
  shows "c \<in> set (fst (run_filters q cs fs)) \<Longrightarrow> P c"
  using assms
proof (induction fs arbitrary: cs)
  case (Cons g fs)
  have sub: "set (fst (run_filters q cs' fs)) \<subseteq> set cs'" for cs'
    using run_filters_subseq [of fs q cs'] Cons.prems(4) by (auto dest: subseq_set)
  show ?case
  proof (cases "f = g")
    case True
    then have "c \<in> set (kept (fl_filter f q cs))"
      using Cons.prems(1,3) by (auto simp: run_filters_Cons Let_def intro: subsetD [OF sub])
    then show ?thesis by (rule Cons.prems(5))
  next
    case False
    then show ?thesis using Cons by (auto simp: run_filters_Cons Let_def split: if_splits)
  qed
qed simp

section \<open>The run\<close>

lemma rank_key_core: "rank_key c = rank_key (core c)"
  by (simp add: rank_key_def core_def)

lemma conserving_rank_key: "conserving_filter flt core \<Longrightarrow> conserving_filter flt rank_key"
  by (rule conserving_coarser [where cid = core and g = rank_key]) (simp_all flip: rank_key_core)

lemmas following_filter_laws =
  following_retweet.conserving_filter_axioms following_muted.conserving_filter_axioms self_reply_chain.conserving_filter_axioms
  author_socialgraph.conserving_filter_axioms vf.conserving_filter_axioms ancillary_vf.conserving_filter_axioms

lemmas following_order_laws =
  following_retweet_order.ordered_filter_axioms following_muted.ordered_filter_axioms self_reply_chain.ordered_filter_axioms
  author_socialgraph.ordered_filter_axioms vf.ordered_filter_axioms ancillary_vf.ordered_filter_axioms

interpretation following_run: lawful_pipeline "reverse_chron_pipeline fe" rank_key for fe
proof (rule lawful_pipeline.intro)
  fix f assume "f \<in> set (filters (reverse_chron_pipeline fe)) \<union> set (post_selection_filters (reverse_chron_pipeline fe))"
  then show "conserving_filter (fl_filter f) rank_key"
    by (auto simp: reverse_chron_pipeline_def intro: conserving_rank_key following_filter_laws)
next
  show "conserving_selector (se_select (the_selector (reverse_chron_pipeline fe))) rank_key"
    by (rule conserving_selector.intro)
      (simp add: reverse_chron_pipeline_def passthrough_selector_def selector_select_def selector_sort_def Let_def)
next
  fix h assume "h \<in> set (hydrators (reverse_chron_pipeline fe)) \<union> set (post_selection_hydrators (reverse_chron_pipeline fe))"
  then show "identity_update (hy_update h) rank_key"
    using core_data_upd.identity_update_axioms visibility_upd.identity_update_axioms
    by (auto simp: reverse_chron_pipeline_def core_data_hydrator_def vf_following_candidate_hydrator_def plain_hydrator_def
        intro: conversation_gap_upd.identity_update_axioms quoted_text_upd.identity_update_axioms
          following_blocked_by_upd.identity_update_axioms ads_brand_safety_upd.identity_update_axioms tweet_type_upd.identity_update_axioms)
qed (simp_all add: reverse_chron_pipeline_def)

lemma passthrough_identity:
  assumes "\<And>c. c \<in> set cs \<Longrightarrow> score c = Some (F_Fin 0)"
  shows "selected (pipeline_select (reverse_chron_pipeline fe) q cs) = cs"
proof -
  have "sorted_wrt (\<lambda>a b. score_desc (\<lambda>c. unwrap_or F_NegInf (score c)) a b \<noteq> Greater) cs"
    using assms by (auto simp: sorted_wrt_iff_nth_less score_desc_def unwrap_or_def)
  then have "sort_by (score_desc (\<lambda>c. unwrap_or F_NegInf (score c))) cs = cs"
    by (rule sd.sort_by_id)
  then show ?thesis
    by (simp add: pipeline_select_def reverse_chron_pipeline_def passthrough_selector_def selector_select_def selector_sort_def)
qed

text \<open>What the hydrators after the selection leave alone.\<close>

definition content :: "post_candidate \<Rightarrow> post_candidate" where
  "content c = c\<lparr>author_blocks_viewer := None, quoted_author_blocks_viewer := None, visibility_action := None,
     visibility_reason := None, drop_ancillary_posts := None, brand_safety_verdict_of := None, safety_labels := [],
     tweet_type_metrics := None\<rparr>"

lemma post_selection_content:
  "h \<in> set (post_selection_hydrators (reverse_chron_pipeline fe)) \<Longrightarrow> identity_update (hy_update h) content"
  by (auto simp: reverse_chron_pipeline_def following_blocked_by_hydrator_def vf_following_candidate_hydrator_def
      ads_brand_safety_vf_hydrator_def tweet_type_metrics_hydrator_def visibility_update_def plain_hydrator_def
      content_def Let_def intro!: identity_update.intro)

text \<open>The run, stage by stage.\<close>

lemma following_stages:
  fixes fe q
  defines "p \<equiv> reverse_chron_pipeline fe"
  obtains hyd filt post final where
    "map rank_key hyd = map rank_key (fetch_candidates p q)" "hyd = hydrate p q (fetch_candidates p q)"
    "filt = fst (run_filters q hyd (filters p))" "subseq filt hyd"
    "map rank_key post = map rank_key filt" "map content post = map content filt"
    "final = fst (run_filters q post (post_selection_filters p))" "subseq final post"
    "selected_candidates (execute p q) = take FOLLOWING_POST_FETCH_SIZE final"
proof -
  define hyd where "hyd = hydrate p q (fetch_candidates p q)"
  define filt where "filt = fst (run_filters q hyd (filters p))"
  define post where "post = hydrate_post_selection p q (selected (pipeline_select p q filt))"
  define final where "final = fst (run_filters q post (post_selection_filters p))"
  have hyd: "map rank_key hyd = map rank_key (fetch_candidates p q)"
    unfolding hyd_def hydrate_def p_def by (rule following_run.run_hydrators_ids [where fe = fe]) simp
  have ordered: "ordered_filter (fl_filter f)" if "f \<in> set (filters p) \<union> set (post_selection_filters p)" for f
    using that by (auto simp: p_def reverse_chron_pipeline_def intro: following_order_laws)
  have sub: "subseq filt hyd" unfolding filt_def by (rule run_filters_subseq) (simp add: ordered)
  have zero: "score c = Some (F_Fin 0)" if c: "c \<in> set filt" for c
  proof -
    have "rank_key c \<in> rank_key ` set (fetch_candidates p q)"
      using c subseq_set [OF sub] hyd by (metis image_eqI image_set subsetD)
    then show ?thesis
      by (auto simp: rank_key_def fetch_candidates_def p_def reverse_chron_pipeline_def following_night_owl_source_def
          source_run_def following_search_def hit_to_post_candidate_def Let_def split: sum.splits if_splits)
  qed
  have sel: "selected (pipeline_select p q filt) = filt"
    unfolding p_def by (rule passthrough_identity) (rule zero)
  have post: "post = run_hydrators q filt (post_selection_hydrators p) PostSelectionHydrator"
    by (simp only: post_def sel hydrate_post_selection_def)
  have "map rank_key post = map rank_key filt"
    unfolding post p_def by (rule following_run.run_hydrators_ids [where fe = fe]) simp
  moreover have "map content post = map content filt"
    unfolding post p_def by (rule run_hydrators_keep) (rule post_selection_content)
  moreover have "subseq final post" unfolding final_def by (rule run_filters_subseq) (simp add: ordered)
  moreover have "selected_candidates (execute p q) = take FOLLOWING_POST_FETCH_SIZE final"
  proof -
    have "hydrate_dependent_query p (hydrate_query p q) = q"
      by (simp add: p_def hydrate_query_def hydrate_dependent_query_def reverse_chron_pipeline_def apply_query_results_def)
    moreover have "pipeline_score p q cs = cs" for cs by (simp add: p_def pipeline_score_def reverse_chron_pipeline_def)
    moreover have "result_size_for p q = FOLLOWING_POST_FETCH_SIZE" "finalize p q cs = cs" for cs
      by (simp_all add: p_def reverse_chron_pipeline_def)
    ultimately show ?thesis
      by (simp add: execute_def execute_stages_def Let_def split_beta pipeline_filter_def filter_post_selection_def
          hyd_def filt_def post_def final_def min_def)
  qed
  ultimately show ?thesis using that [OF hyd hyd_def filt_def sub _ _ final_def] by blast
qed

lemma fetched_descending:
  "sorted_wrt (\<lambda>a b. tweet_id b \<le> tweet_id a) (fetch_candidates (reverse_chron_pipeline fe) q)"
proof -
  have "sorted_wrt (\<lambda>a b. tweet_id b \<le> tweet_id a) (sort_key (\<lambda>c. - uint (tweet_id c)) cs)" for cs :: "post_candidate list"
    using sorted_sort_key [of "\<lambda>c. - uint (tweet_id c)" cs] by (simp add: sorted_wrt_map word_le_def)
  then show ?thesis
    by (simp add: fetch_candidates_def reverse_chron_pipeline_def following_night_owl_source_def source_run_def
        following_search_def split: sum.split)
qed

lemma sorted_wrt_subseq: "subseq xs ys \<Longrightarrow> sorted_wrt R ys \<Longrightarrow> sorted_wrt R xs"
  by (induction rule: list_emb.induct) (auto dest: subseq_set)

text \<open>The search result on which a run works: nothing when the viewer follows nobody or the search fails.\<close>

definition following_hits :: "night_owl_env \<Rightarrow> scored_posts_query \<Rightarrow> search_hit list" where
  "following_hits nenv q =
     (if followed_user_ids (features q) = [] then []
      else case build_request nenv q of
             Inl e \<Rightarrow> []
           | Inr request \<Rightarrow> (case night_owl_search nenv request of Inl e \<Rightarrow> [] | Inr hits \<Rightarrow> hits))"

lemma set_fetched: "set (fetch_candidates (reverse_chron_pipeline fe) q) = hit_to_post_candidate ` set (following_hits (fe_search fe) q)"
  by (simp add: fetch_candidates_def reverse_chron_pipeline_def following_night_owl_source_def source_run_def
      following_search_def following_hits_def split: sum.split)

text \<open>What each post of a Following page satisfies.\<close>

definition following_post_ok :: "following_env \<Rightarrow> scored_posts_query \<Rightarrow> post_candidate \<Rightarrow> bool" where
  "following_post_ok fe q c \<longleftrightarrow>
     tweet_id c \<in> hit_doc_id ` set (following_hits (fe_search fe) q) \<and>
     (muted_keywords (features q) = [] \<or>
        \<not> candidate_matches (fe_posts fe) (map (tokenizer (fe_posts fe)) (muted_keywords (features q))) c) \<and>
     should_keep_reply c (user_id q # followed_user_ids (features q)) \<and>
     author_allowed (features q) c \<and>
     visibility_action c \<notin> {Some Drop, Some Tombstone, Some NotEvaluated} \<and>
     drop_ancillary_posts c \<noteq> Some True"

lemma content_predicates:
  assumes "content c = content d"
  shows "candidate_matches env mutes c = candidate_matches env mutes d" "should_keep_reply c us = should_keep_reply d us"
proof -
  have "tweet_text (content c) = tweet_text (content d)" "quoted_tweet_text (content c) = quoted_tweet_text (content d)"
    "ancestor_texts (content c) = ancestor_texts (content d)" "in_reply_to_tweet_id (content c) = in_reply_to_tweet_id (content d)"
    "ancestor_users (content c) = ancestor_users (content d)" "author_id (content c) = author_id (content d)"
    using assms by simp_all
  then show "candidate_matches env mutes c = candidate_matches env mutes d" "should_keep_reply c us = should_keep_reply d us"
    by (simp_all add: content_def candidate_matches_def should_keep_reply_def)
qed

lemma following_filtered:
  assumes "c \<in> set (fst (run_filters q cs (filters (reverse_chron_pipeline fe))))"
  shows "muted_keywords (features q) = [] \<or>
      \<not> candidate_matches (fe_posts fe) (map (tokenizer (fe_posts fe)) (muted_keywords (features q))) c"
    and "should_keep_reply c (user_id q # followed_user_ids (features q))"
  using assms
  by (auto simp: reverse_chron_pipeline_def run_filters_Cons Let_def following_muted.filters_by self_reply_chain.filters_by
      following_viewer_muted_keyword_filter_def self_reply_chain_filter_def following_retweet_deduplication_filter_def split: if_splits)

lemma following_post_filtered:
  assumes "c \<in> set (fst (run_filters q cs (post_selection_filters (reverse_chron_pipeline fe))))"
  shows "author_allowed (features q) c" "visibility_action c \<notin> {Some Drop, Some Tombstone, Some NotEvaluated}"
    "drop_ancillary_posts c \<noteq> Some True"
proof -
  have "fl_enable author_socialgraph_filter q" "fl_enable vf_filter q" "fl_enable ancillary_vf_filter q"
    by (simp_all add: author_socialgraph_filter_def vf_filter_def ancillary_vf_filter_def)
  then show "author_allowed (features q) c" "visibility_action c \<notin> {Some Drop, Some Tombstone, Some NotEvaluated}"
    "drop_ancillary_posts c \<noteq> Some True"
    using assms
    by (auto simp: reverse_chron_pipeline_def run_filters_Cons Let_def author_socialgraph.filters_by vf.filters_by ancillary_vf.filters_by)
qed

text \<open>
  C2. The Following feed: whatever the services answer and whatever the cache holds, a run returns at
  most 101 posts in falling order of their ids, and each is a hit of the search, matches no muted
  keyword, passes the rule on replies, is by an author whom the viewer neither mutes nor blocks and who does not block
  the viewer, and neither the post nor one shown with it is to be dropped.
\<close>

theorem following_feed_reverse_chronological:
  "let cs = selected_candidates (execute (reverse_chron_pipeline fe) q)
   in sorted_wrt (\<lambda>a b. tweet_id b \<le> tweet_id a) cs \<and> length cs \<le> 101 \<and> list_all (following_post_ok fe q) cs"
proof -
  let ?p = "reverse_chron_pipeline fe"
  obtain hyd filt post final where stages:
    "map rank_key hyd = map rank_key (fetch_candidates ?p q)" "hyd = hydrate ?p q (fetch_candidates ?p q)"
    "filt = fst (run_filters q hyd (filters ?p))" "subseq filt hyd"
    "map rank_key post = map rank_key filt" "map content post = map content filt"
    "final = fst (run_filters q post (post_selection_filters ?p))" "subseq final post"
    "selected_candidates (execute ?p q) = take FOLLOWING_POST_FETCH_SIZE final"
    by (rule following_stages)
  have keys: "subseq (map rank_key final) (map rank_key (fetch_candidates ?p q))"
    using subseq_map [OF stages(8), of rank_key] subseq_map [OF stages(4), of rank_key] stages(1,5) by simp
  have "sorted_wrt (\<lambda>a b. fst b \<le> fst a) (map rank_key (fetch_candidates ?p q))"
    using fetched_descending [of fe q] by (simp add: sorted_wrt_map rank_key_def)
  then have "sorted_wrt (\<lambda>a b. fst b \<le> fst a) (map rank_key final)" by (rule sorted_wrt_subseq [OF keys])
  then have sorted: "sorted_wrt (\<lambda>a b. tweet_id b \<le> tweet_id a) final" by (simp add: sorted_wrt_map rank_key_def)
  have ok: "following_post_ok fe q c" if c: "c \<in> set final" for c
  proof -
    have "fst (rank_key c) \<in> fst ` rank_key ` set (fetch_candidates ?p q)" using c subseq_set [OF keys] by auto
    then have "tweet_id c \<in> hit_doc_id ` set (following_hits (fe_search fe) q)"
      by (auto simp: set_fetched rank_key_def hit_to_post_candidate_def Let_def)
    moreover have "content c \<in> content ` set filt" using c subseq_set [OF stages(8)] stages(6) by (metis image_eqI image_set subsetD)
    then obtain d where d: "d \<in> set filt" "content c = content d" by blast
    ultimately show ?thesis
      using following_filtered [of d q hyd fe] following_post_filtered [of c q post fe] content_predicates [OF d(2)] c d(1) stages(3,7)
      by (simp add: following_post_ok_def)
  qed
  show ?thesis
    using sorted ok sorted_wrt_take [of _ final FOLLOWING_POST_FETCH_SIZE] set_take_subset [of FOLLOWING_POST_FETCH_SIZE final]
    by (auto simp: stages(9) Let_def list_all_iff FOLLOWING_POST_FETCH_SIZE_def)
qed

section \<open>The rule on replies\<close>

lemma update_all_map: "update_all u cs (map (\<lambda>c. Ok (g c)) cs) = map (\<lambda>c. u c (g c)) cs"
  by (induction cs) simp_all

lemma core_data_leaves_hydrated:
  assumes "list_all (already_hydrated (core_data_hydrator env)) cs"
  shows "update_all core_data_update cs (hydrator_run (hydrator_of (core_data_hydrator env) store) q cs stage) = cs"
proof -
  let ?h = "core_data_hydrator env"
  have known: "known ?h q store c = Some (core_data_from_cache (core_data_cache_value c))" if "c \<in> set cs" for c
    using assms that by (simp add: known_def list_all_iff core_data_hydrator_def)
  then have none: "unknown ?h q store cs = []" by (simp add: unknown_def filter_empty_conv)
  have "hydrate_from_client ?h q [] = []" by (simp add: core_data_hydrator_def core_data_from_client_def)
  then have "fst (cached_hydrate ?h q cs store) = map (\<lambda>c. Ok (core_data_from_cache (core_data_cache_value c))) cs"
    using cached_hydrate_pointwise [of ?h q store cs "\<lambda>c. Err []"] known by (simp add: none)
  then show ?thesis
    by (simp add: hydrator_run_def hydrator_of_def Let_def update_all_map core_data_already_identity)
qed

definition complete_hit :: "search_hit \<Rightarrow> bool" where
  "complete_hit h \<longleftrightarrow> doc_id_field (hit_doc h) doc_author_id \<noteq> 0 \<and> unwrap_or [] (Option.bind (hit_doc h) doc_text) \<noteq> []"

lemma hydrated_without_ancestor_users:
  assumes "list_all complete_hit (following_hits (fe_search fe) q)"
  shows "list_all (\<lambda>c. ancestor_users c = [])
    (hydrate (reverse_chron_pipeline fe) q (fetch_candidates (reverse_chron_pipeline fe) q))"
proof -
  let ?env = "fe_hydration fe" and ?cs = "fetch_candidates (reverse_chron_pipeline fe) q"
  let ?gap = "conversation_gap_ancestor_hydrator ?env" and ?quoted = "quoted_post_text_hydrator ?env"
  have ready: "list_all (already_hydrated (core_data_hydrator ?env)) ?cs" and none: "list_all (\<lambda>c. ancestor_users c = []) ?cs"
    using assms by (auto simp: list_all_iff set_fetched complete_hit_def hit_to_post_candidate_def core_data_hydrator_def
        default_candidate_def Let_def)
  have enabled: "hy_enable ?gap q" "hy_enable ?quoted q"
    by (simp_all add: conversation_gap_ancestor_hydrator_def quoted_post_text_hydrator_def plain_hydrator_def)
  have "hydrate (reverse_chron_pipeline fe) q ?cs =
      update_all (hy_update ?quoted) (update_all (hy_update ?gap) ?cs (hydrator_run ?gap q ?cs Hydrator)) (hydrator_run ?quoted q ?cs Hydrator)"
    using core_data_leaves_hydrated [OF ready, of "fe_core_data_store fe" q Hydrator] enabled
    by (simp add: hydrate_def reverse_chron_pipeline_def run_hydrators_def Let_def core_data_hydrator_def)
  moreover have "map ancestor_users (update_all (hy_update ?gap) xs rs) = map ancestor_users xs" for xs rs
    by (rule map_update_all) (simp add: conversation_gap_ancestor_hydrator_def plain_hydrator_def)
  moreover have "map ancestor_users (update_all (hy_update ?quoted) xs rs) = map ancestor_users xs" for xs rs
    by (rule map_update_all) (simp add: quoted_post_text_hydrator_def plain_hydrator_def)
  ultimately have "map ancestor_users (hydrate (reverse_chron_pipeline fe) q ?cs) = map ancestor_users ?cs" by simp
  moreover have "list_all (\<lambda>us. us = []) (map ancestor_users ?cs)" using none by (simp add: list.pred_map comp_def)
  ultimately have "list_all (\<lambda>us. us = []) (map ancestor_users (hydrate (reverse_chron_pipeline fe) q ?cs))" by (simp only:)
  then show ?thesis by (simp add: list.pred_map comp_def)
qed

text \<open>
  C39. The rule on replies of the Following feed has no effect on complete search results. If every hit
  comes with its author and its text, the core-data hydrator regards the candidates as hydrated and never fetches
  the users of their ancestors, no other hydrator does, and the filter of replies to users whom the viewer does not
  follow keeps every candidate that lacks them: the filter stage has the result it would have without it.
\<close>

theorem following_reply_rule_inert:
  assumes "list_all complete_hit (following_hits (fe_search fe) q)"
  shows "let p = reverse_chron_pipeline fe; hyd = hydrate p q (fetch_candidates p q)
    in run_filters q hyd (filters p) =
       run_filters q hyd [following_retweet_deduplication_filter, following_viewer_muted_keyword_filter (fe_posts fe)]"
proof -
  let ?p = "reverse_chron_pipeline fe" and ?fs = "[following_retweet_deduplication_filter, following_viewer_muted_keyword_filter (fe_posts fe)]"
  let ?hyd = "hydrate ?p q (fetch_candidates ?p q)"
  let ?st = "run_filters q ?hyd ?fs"
  have "subseq (fst ?st) ?hyd"
    by (rule run_filters_subseq) (auto intro: following_order_laws)
  then have "\<forall>c \<in> set (fst ?st). ancestor_users c = []"
    using hydrated_without_ancestor_users [OF assms] subseq_set by (fastforce simp: list_all_iff)
  then have "fl_filter self_reply_chain_filter q (fst ?st) = \<lparr>kept = fst ?st, removed = []\<rparr>"
    by (simp add: self_reply_chain.filters_by filter_partition_def should_keep_reply_def)
  then have "run_filters q (fst ?st) [self_reply_chain_filter] = (fst ?st, [])"
    by (simp add: run_filters_Cons [of _ _ self_reply_chain_filter])
  then have "run_filters q ?hyd (?fs @ [self_reply_chain_filter]) = ?st"
    unfolding run_filters_append Let_def by simp
  moreover have "filters ?p = ?fs @ [self_reply_chain_filter]" by (simp add: reverse_chron_pipeline_def)
  ultimately show ?thesis unfolding Let_def by (simp only:)
qed

definition sample_hit :: search_hit where
  "sample_hit = \<lparr>hit_doc_id = 5, hit_doc = Some \<lparr>doc_author_id = Some 10, doc_in_reply_to_status_id = Some 4,
     doc_retweet_of_status_id = None, doc_retweeted_user_id = None, doc_quoted_tweet_id = None, doc_quoted_user_id = None,
     doc_conversation_id = Some 4, doc_text = Some ''hi''\<rparr>\<rparr>"

definition sample_following_env :: following_env where
  "sample_following_env =
     \<lparr>fe_search = \<lparr>night_owl_search = (\<lambda>request. Ok [sample_hit]), time_from_id_ms = (\<lambda>i. 0), debug_cursor = (\<lambda>cur. [])\<rparr>,
      fe_hydration = sample_env,
      fe_posts = \<lparr>duration_since_creation_opt = (\<lambda>i. None), parse_request_context = (\<lambda>s. ForegroundTruncate),
        may_contain = (\<lambda>e i. False), tokenizer = (\<lambda>t. [t]), mutes_match = (\<lambda>ms t. False),
        AuthorZeroFavCodivertIsTreatment = (\<lambda>a. False), AuthorZeroFavCodivertIsControl = (\<lambda>a. False)\<rparr>,
      fe_metrics = \<lparr>composition_from_keys = (\<lambda>ks. \<lparr>comp_size = 0, comp_unique = 0, unique_ratio = F_Fin 0, max_share = F_Fin 0\<rparr>),
        positively_engaged_author_ids = (\<lambda>bytes. None)\<rparr>,
      fe_author_client = None, fe_label_code = (\<lambda>l. 0), fe_core_data_store = []\<rparr>"

definition sample_follower_query :: scored_posts_query where
  "sample_follower_query = sample_query\<lparr>features := (features sample_query)\<lparr>followed_user_ids := [10]\<rparr>\<rparr>"

lemma sample_follower_hits: "following_hits (fe_search sample_following_env) sample_follower_query = [sample_hit]"
  by (simp add: following_hits_def sample_following_env_def sample_follower_query_def sample_query_def build_request_def
      pagination_for_cursor_def Let_def)

theorem following_reply_rule_inert_witness:
  "complete_hit sample_hit \<and>
   (let p = reverse_chron_pipeline sample_following_env;
        hyd = hydrate p sample_follower_query (fetch_candidates p sample_follower_query)
    in run_filters sample_follower_query hyd (filters p) =
       run_filters sample_follower_query hyd
         [following_retweet_deduplication_filter, following_viewer_muted_keyword_filter (fe_posts sample_following_env)])"
proof -
  have hit: "complete_hit sample_hit"
    by (simp add: complete_hit_def sample_hit_def doc_id_field_def u64_try_from_def unwrap_or_def)
  then show ?thesis
    using following_reply_rule_inert [of sample_following_env sample_follower_query] by (simp add: sample_follower_hits)
qed

end
