(* ===== verification/Phoenix_Filters.thy ===== *)
theory Phoenix_Filters
  imports Post_Filters Topic_Filter Holdout_Filters Fair_Share Dedup_Filters
begin

text \<open>
  The filter stage of the For You pipeline (\<open>home-mixer/candidate_pipeline/phoenix_candidate_pipeline.rs\<close>):
  the filters of the other theories in the order in which the pipeline applies them, and what a
  candidate that passes all of them satisfies.
\<close>

section \<open>Definitions\<close>

definition MAX_POST_AGE :: u64 where
  "MAX_POST_AGE = 48 * 60 * 60"

definition phoenix_filters :: "post_env \<Rightarrow> post_filter list" where
  "phoenix_filters env =
     [drop_duplicates_filter, zero_fav_codivert_filter env, core_data_hydration_filter, new_user_soft_nsfw_filter env,
      age_filter env (from_secs MAX_POST_AGE), self_tweet_filter, oon_retweet_reply_filter, oon_nsfw_simclusters_filter,
      retweet_deduplication_filter, ineligible_subscription_filter, previously_seen_posts_filter env,
      previously_seen_posts_backup_filter, previously_served_posts_filter env, viewer_muted_keyword_filter env,
      author_socialgraph_filter, video_filter, topic_ids_filter, new_user_min_engagement_filter env,
      inventory_holdout_filter, fav_holdout_filter, fair_share_ranking_filter]"

section \<open>What passes\<close>

lemma phoenix_filters_conserve: "f \<in> set (phoenix_filters env) \<Longrightarrow> conserving_filter (fl_filter f) core"
  unfolding phoenix_filters_def
  by (auto intro: drop_duplicates.conserving_filter_axioms zero_fav.conserving_filter_axioms core_data_hydration.conserving_filter_axioms
      soft_nsfw.conserving_filter_axioms age.conserving_filter_axioms self_tweet.conserving_filter_axioms
      oon_retweet_reply.conserving_filter_axioms oon_nsfw_simclusters.conserving_filter_axioms
      retweet_deduplication.conserving_filter_axioms ineligible_subscription.conserving_filter_axioms
      seen.conserving_filter_axioms seen_backup.conserving_filter_axioms served.conserving_filter_axioms
      viewer_muted.conserving_filter_axioms author_socialgraph.conserving_filter_axioms no_video.conserving_filter_axioms
      topic_filter.conserving_filter_axioms min_engagement.conserving_filter_axioms inventory_holdout.conserving_filter_axioms
      fav_holdout.conserving_filter_axioms fair_share.conserving_filter_axioms)

text \<open>The rules that do not read the retrieval sources of a candidate.\<close>

definition phoenix_post_ok :: "post_env \<Rightarrow> scored_posts_query \<Rightarrow> post_candidate \<Rightarrow> bool" where
  "phoenix_post_ok env q c \<longleftrightarrow>
     author_id c \<noteq> 0 \<and> author_id c \<noteq> user_id q \<and>
     is_within_age env (from_secs MAX_POST_AGE) (tweet_id c) \<and>
     oon_allowed (params q) c \<and>
     is_none_or (\<lambda>a. a \<in> set (subscribed_user_ids (features q))) (subscription_author_id c) \<and>
     not_seen env q c \<and> set (related_post_ids c) \<inter> set (impressed_post_ids q) = {} \<and>
     not_muted env q c \<and> author_allowed (features q) c \<and>
     (EnableServedFilterAllRequests (params q) \<longrightarrow> set (related_post_ids c) \<inter> set (served_ids q) = {}) \<and>
     (exclude_videos q \<longrightarrow> \<not> has_video c)"

lemma core_simps [simp]:
  "author_id (core c) = author_id c" "tweet_id (core c) = tweet_id c" "oon_allowed prm (core c) = oon_allowed prm c"
  "subscription_author_id (core c) = subscription_author_id c" "not_seen env q (core c) = not_seen env q c"
  "related_post_ids (core c) = related_post_ids c" "not_muted env q (core c) = not_muted env q c"
  "author_allowed uf (core c) = author_allowed uf c" "has_video (core c) = has_video c"
  "get_original_tweet_id (core c) = get_original_tweet_id c"
  by (simp_all add: core_def oon_allowed_def is_phoenix_home_retrieval_def not_seen_def related_post_ids_def not_muted_def
      author_allowed_def has_video_def get_original_tweet_id_def Let_def)

lemma phoenix_predicate:
  assumes "f \<in> set (phoenix_filters env)" "fl_enable f q" "predicate_filter f keep" "\<And>c. keep q (core c) = keep q c"
  shows "list_all (keep q) (fst (run_filters q cs (phoenix_filters env)))"
proof -
  have "list_all (keep q) (map core (fst (run_filters q cs (phoenix_filters env))))"
    by (rule run_filters_establish [OF assms(1,2) phoenix_filters_conserve])
      (auto simp: list_all_iff assms(4) predicate_filter.kept_keep [OF assms(3)])
  then show ?thesis by (simp add: list.pred_map comp_def assms(4))
qed

lemma phoenix_distinct:
  assumes "f \<in> set (phoenix_filters env)" "fl_enable f q" "\<And>c. key (core c) = key c"
    and "\<And>cs. distinct (map key (kept (fl_filter f q cs)))"
  shows "distinct (map key (fst (run_filters q cs (phoenix_filters env))))"
  by (rule run_filters_distinct [OF assms(1,2)])
    (auto intro: conserving_coarser [OF phoenix_filters_conserve, where g = key] simp: assms(3,4))

lemma phoenix_members:
  "drop_duplicates_filter \<in> set (phoenix_filters env)" "core_data_hydration_filter \<in> set (phoenix_filters env)"
  "age_filter env (from_secs MAX_POST_AGE) \<in> set (phoenix_filters env)" "self_tweet_filter \<in> set (phoenix_filters env)"
  "oon_retweet_reply_filter \<in> set (phoenix_filters env)" "retweet_deduplication_filter \<in> set (phoenix_filters env)"
  "ineligible_subscription_filter \<in> set (phoenix_filters env)" "previously_seen_posts_filter env \<in> set (phoenix_filters env)"
  "previously_seen_posts_backup_filter \<in> set (phoenix_filters env)" "previously_served_posts_filter env \<in> set (phoenix_filters env)"
  "viewer_muted_keyword_filter env \<in> set (phoenix_filters env)" "author_socialgraph_filter \<in> set (phoenix_filters env)"
  "video_filter \<in> set (phoenix_filters env)"
  by (simp_all add: phoenix_filters_def)

lemma phoenix_enabled:
  "fl_enable drop_duplicates_filter q" "fl_enable core_data_hydration_filter q" "fl_enable (age_filter env d) q"
  "fl_enable self_tweet_filter q" "fl_enable oon_retweet_reply_filter q" "fl_enable retweet_deduplication_filter q"
  "fl_enable ineligible_subscription_filter q" "fl_enable (previously_seen_posts_filter env) q"
  "fl_enable previously_seen_posts_backup_filter q" "fl_enable (viewer_muted_keyword_filter env) q"
  "fl_enable author_socialgraph_filter q" "fl_enable video_filter q \<longleftrightarrow> exclude_videos q"
  "EnableServedFilterAllRequests (params q) \<Longrightarrow> fl_enable (previously_served_posts_filter env) q"
  by (simp_all add: drop_duplicates_filter_def core_data_hydration_filter_def age_filter_def self_tweet_filter_def
      oon_retweet_reply_filter_def retweet_deduplication_filter_def ineligible_subscription_filter_def
      previously_seen_posts_filter_def previously_seen_posts_backup_filter_def previously_served_posts_filter_def
      viewer_muted_keyword_filter_def author_socialgraph_filter_def video_filter_def)

lemma distinct_merged: "distinct (map key (kept (merge_duplicates key cs)))" if "\<And>c. key (core c) = key c"
proof -
  have "key (merged key cs c) = key c" for c using that [of "merged key cs c"] that [of c] by simp
  then show ?thesis by (simp add: merge_duplicates_kept comp_def distinct_firsts)
qed

lemma phoenix_passed_ok: "list_all (phoenix_post_ok env q) (fst (run_filters q cs (phoenix_filters env)))"
proof -
  let ?k = "fst (run_filters q cs (phoenix_filters env))"
  note facts = phoenix_members phoenix_enabled
  have "list_all (\<lambda>c. author_id c \<noteq> 0) ?k"
    by (rule phoenix_predicate [OF _ _ core_data_hydration.predicate_filter_axioms]) (simp_all add: facts)
  moreover have "list_all (\<lambda>c. author_id c \<noteq> user_id q) ?k"
    by (rule phoenix_predicate [OF _ _ self_tweet.predicate_filter_axioms]) (simp_all add: facts)
  moreover have "list_all (\<lambda>c. is_within_age env (from_secs MAX_POST_AGE) (tweet_id c)) ?k"
    by (rule phoenix_predicate [OF _ _ age.predicate_filter_axioms [where env = env]]) (simp_all add: facts)
  moreover have "list_all (oon_allowed (params q)) ?k"
    by (rule phoenix_predicate [OF _ _ oon_retweet_reply.predicate_filter_axioms]) (simp_all add: facts)
  moreover have "list_all (\<lambda>c. is_none_or (\<lambda>a. a \<in> set (subscribed_user_ids (features q))) (subscription_author_id c)) ?k"
    by (rule phoenix_predicate [OF _ _ ineligible_subscription.predicate_filter_axioms]) (simp_all add: facts)
  moreover have "list_all (not_seen env q) ?k"
    by (rule phoenix_predicate [OF _ _ seen.predicate_filter_axioms [where env = env]]) (simp_all add: facts)
  moreover have "list_all (\<lambda>c. set (related_post_ids c) \<inter> set (impressed_post_ids q) = {}) ?k"
    by (rule phoenix_predicate [OF _ _ seen_backup.predicate_filter_axioms]) (simp_all add: facts)
  moreover have "list_all (not_muted env q) ?k"
    by (rule phoenix_predicate [OF _ _ viewer_muted.predicate_filter_axioms [where env = env]]) (simp_all add: facts)
  moreover have "list_all (author_allowed (features q)) ?k"
    by (rule phoenix_predicate [OF _ _ author_socialgraph.predicate_filter_axioms]) (simp_all add: facts)
  moreover have "list_all (\<lambda>c. set (related_post_ids c) \<inter> set (served_ids q) = {}) ?k" if "EnableServedFilterAllRequests (params q)"
    by (rule phoenix_predicate [OF _ _ served.predicate_filter_axioms [where env = env]]) (simp_all add: facts that)
  moreover have "list_all (\<lambda>c. \<not> has_video c) ?k" if "exclude_videos q"
    by (rule phoenix_predicate [OF _ _ no_video.predicate_filter_axioms]) (simp_all add: facts that)
  ultimately show ?thesis unfolding list_all_iff phoenix_post_ok_def by blast
qed

text \<open>
  C9. The filter stage of the For You pipeline: no candidate is lost or changed but for its
  retrieval sources, the ids of the candidates that pass are distinct and so are the ids of
  the posts they show, and each is by a known author other than the viewer, young enough, allowed outside of
  the network, readable with the viewer's subscriptions, not seen, not muted, by an author the viewer and the authors have
  not blocked, and, where the request asks for it, not served before and without video.
\<close>

theorem phoenix_filter_stage:
  "let (passed, dropped) = run_filters q cs (phoenix_filters env)
   in mset (map core passed) + mset (map core dropped) = mset (map core cs) \<and>
      distinct (map tweet_id passed) \<and> distinct (map get_original_tweet_id passed) \<and> list_all (phoenix_post_ok env q) passed"
proof -
  let ?k = "fst (run_filters q cs (phoenix_filters env))"
  have "distinct (map tweet_id ?k)"
    by (rule phoenix_distinct [OF phoenix_members(1) phoenix_enabled(1)])
      (simp_all add: drop_duplicates_filter_def distinct_merged)
  moreover have "distinct (map get_original_tweet_id ?k)"
    by (rule phoenix_distinct [OF phoenix_members(6) phoenix_enabled(6)])
      (simp_all add: retweet_deduplication_filter_def distinct_merged flip: get_original_tweet_id_def [abs_def])
  ultimately show ?thesis
    using run_filters_conserve_all [where fs = "phoenix_filters env" and cid = core and q = q and cs = cs, OF phoenix_filters_conserve [of _ env]] phoenix_passed_ok [of env q cs]
    by (simp add: split_beta Let_def)
qed

end
