(* ===== verification/User_Debias.thy ===== *)
theory User_Debias
  imports Rank_Request
begin

text \<open>
  The correction of predicted probabilities for the habits of a viewer (\<open>vm-ranker/scoring/debias.rs\<close>): the
  configuration is parsed and checked, a model outside the sources predicts the viewer's and the global logits, and
  the probabilities of the configured heads are recentred. The model, the decoder of the payload and
  of the viewer's sequence are the record \<open>debias_env\<close>.
\<close>

section \<open>Configuration\<close>

definition PROB_FLOOR :: f64 where "PROB_FLOOR = f64_round (1 / 10000000)"

definition PROB_CEIL :: f64 where "PROB_CEIL = f64_sub f64_one PROB_FLOOR"

definition HOME_SURFACE :: i32 where "HOME_SURFACE = 1"

definition DEFAULT_HEADS :: "string list" where
  "DEFAULT_HEADS = [''fav'', ''reply'', ''quote'', ''retweet'', ''dwelled'', ''not_dwelled'', ''vqv'', ''photo_expand'',
     ''click'', ''profile_click'', ''bookmark'', ''share'', ''open_link'', ''video_open'']"

datatype skip = ModelNotLoaded | InvalidParams | StaleArtifact | NoSequence | SequenceError | FeatureMismatch

record strength =
  st_alpha :: f64
  st_clip :: f64

record debias_config =
  dc_alpha :: f64
  dc_clip :: f64
  dc_heads :: "string list"
  dc_head_alpha :: "(string \<times> f64) list"
  dc_head_clip :: "(string \<times> f64) list"
  dc_max_artifact_age_secs :: f64

text \<open>\<open>str::split\<close> at a character and \<open>str::trim\<close> for the white space of ASCII.\<close>

fun split_at_char :: "char \<Rightarrow> string \<Rightarrow> string list" where
  "split_at_char d [] = [[]]"
| "split_at_char d (x # xs) =
     (if x = d then [] # split_at_char d xs
      else case split_at_char d xs of [] \<Rightarrow> [[x]] | part # parts \<Rightarrow> (x # part) # parts)"

definition is_space :: "char \<Rightarrow> bool" where
  "is_space x \<longleftrightarrow> (let n = of_char x :: nat in n = 32 \<or> (9 \<le> n \<and> n \<le> 13))"

definition trim :: "string \<Rightarrow> string" where
  "trim s = rev (dropWhile is_space (rev (dropWhile is_space s)))"

definition csv_list :: "string \<Rightarrow> string list" where
  "csv_list spec = filter (\<lambda>h. h \<noteq> []) (map trim (split_at_char (CHR '','') spec))"

definition split_once :: "char \<Rightarrow> string \<Rightarrow> (string \<times> string) option" where
  "split_once d s = (if d \<in> set s then Some (takeWhile (\<lambda>x. x \<noteq> d) s, tl (dropWhile (\<lambda>x. x \<noteq> d) s)) else None)"

text \<open>The entries \<open>head:value\<close>; of entries for one head the last counts.\<close>

fun head_entries :: "(string \<Rightarrow> f64 option) \<Rightarrow> string list \<Rightarrow> skip + (string \<times> f64) list" where
  "head_entries parse [] = Inr []"
| "head_entries parse (entry # entries) =
     (case split_once (CHR '':'') entry of
        None \<Rightarrow> Inl InvalidParams
      | Some (head, value) \<Rightarrow>
          (case parse (trim value) of
             None \<Rightarrow> Inl InvalidParams
           | Some v \<Rightarrow> (case head_entries parse entries of Inl e \<Rightarrow> Inl e | Inr rest \<Rightarrow> Inr ((trim head, v) # rest))))"

definition head_values :: "(string \<Rightarrow> f64 option) \<Rightarrow> string \<Rightarrow> skip + (string \<times> f64) list" where
  "head_values parse spec = map_sum id rev (head_entries parse (csv_list spec))"

definition default_strength :: "debias_config \<Rightarrow> strength" where
  "default_strength cfg = \<lparr>st_alpha = dc_alpha cfg, st_clip = dc_clip cfg\<rparr>"

definition strength_of :: "debias_config \<Rightarrow> string \<Rightarrow> strength" where
  "strength_of cfg head = \<lparr>st_alpha = unwrap_or (dc_alpha cfg) (map_of (dc_head_alpha cfg) head),
     st_clip = unwrap_or (dc_clip cfg) (map_of (dc_head_clip cfg) head)\<rparr>"

definition heads_of :: "debias_config \<Rightarrow> string list" where
  "heads_of cfg = (if dc_heads cfg = [] then DEFAULT_HEADS else dc_heads cfg)"

definition valid_strength :: "strength \<Rightarrow> bool" where
  "valid_strength s \<longleftrightarrow> is_finite (st_alpha s) \<and> is_finite (st_clip s) \<and> \<not> f64_lt (st_clip s) f64_zero"

definition debias_config_from :: "(string \<Rightarrow> f64 option) \<Rightarrow> fs_params \<Rightarrow> skip + debias_config" where
  "debias_config_from parse p =
     (case head_values parse (fs_str p ''UserDebiasHeadAlpha'') of
        Inl e \<Rightarrow> Inl e
      | Inr head_alpha \<Rightarrow>
          (case head_values parse (fs_str p ''UserDebiasHeadClipLogit'') of
             Inl e \<Rightarrow> Inl e
           | Inr head_clip \<Rightarrow>
               let cfg = \<lparr>dc_alpha = fs_f64 p ''UserDebiasAlpha'', dc_clip = fs_f64 p ''UserDebiasClipLogit'',
                     dc_heads = csv_list (fs_str p ''UserDebiasHeads''), dc_head_alpha = head_alpha, dc_head_clip = head_clip,
                     dc_max_artifact_age_secs = fs_f64 p ''UserDebiasMaxArtifactAgeSecs''\<rparr>;
                   strengths = default_strength cfg # map (strength_of cfg) (map fst head_alpha @ map fst head_clip)
               in if list_all valid_strength strengths then Inr cfg else Inl InvalidParams))"

section \<open>Recentring\<close>

record request_payload =
  rp_user_sequence :: "8 word list"
  rp_engine_time_hint_ms :: "int option"
  rp_product_surface :: i32
  rp_client_app_id :: i64

definition default_payload :: request_payload where
  "default_payload = \<lparr>rp_user_sequence = [], rp_engine_time_hint_ms = None, rp_product_surface = 0, rp_client_app_id = 0\<rparr>"

record prediction =
  user_logit :: "nat \<Rightarrow> f64"
  global_logit :: "nat \<Rightarrow> f64"

record 'rows debias_model =
  dm_trained_at_ms :: int
  dm_feature_dim :: nat
  dm_head_names :: "string list"
  dm_predict :: "f64 list \<Rightarrow> int \<times> int \<times> i64 \<times> i32 \<Rightarrow> prediction"
  dm_parse_sequence :: "8 word list \<Rightarrow> 'rows option"
  dm_retain_until :: "int \<Rightarrow> 'rows \<Rightarrow> 'rows"
  dm_rows_empty :: "'rows \<Rightarrow> bool"
  dm_last_tz :: "'rows \<Rightarrow> int option"
  dm_featurize :: "'rows \<Rightarrow> int \<Rightarrow> f64 list"

record debias_env =
  parse_f64 :: "string \<Rightarrow> f64 option"
  decode_payload :: "8 word list \<Rightarrow> request_payload option"
  debiased_probability :: "f64 \<Rightarrow> f64 \<Rightarrow> f64 \<Rightarrow> f64 \<Rightarrow> f64"

type_synonym score_field = "(phoenix_scores \<Rightarrow> f64 option) \<times> (f64 option \<Rightarrow> phoenix_scores \<Rightarrow> phoenix_scores)"

definition head_fields :: "(string \<times> score_field) list" where
  "head_fields =
    [(''fav'', favorite_score, (\<lambda>v s. s\<lparr>favorite_score := v\<rparr>)),
     (''reply'', reply_score, (\<lambda>v s. s\<lparr>reply_score := v\<rparr>)),
     (''quote'', quote_score, (\<lambda>v s. s\<lparr>quote_score := v\<rparr>)),
     (''retweet'', retweet_score, (\<lambda>v s. s\<lparr>retweet_score := v\<rparr>)),
     (''dwelled'', dwell_score, (\<lambda>v s. s\<lparr>dwell_score := v\<rparr>)),
     (''not_dwelled'', not_dwelled_score, (\<lambda>v s. s\<lparr>not_dwelled_score := v\<rparr>)),
     (''vqv'', vqv_score, (\<lambda>v s. s\<lparr>vqv_score := v\<rparr>)),
     (''photo_expand'', photo_expand_score, (\<lambda>v s. s\<lparr>photo_expand_score := v\<rparr>)),
     (''report'', report_score, (\<lambda>v s. s\<lparr>report_score := v\<rparr>)),
     (''not_interested'', not_interested_score, (\<lambda>v s. s\<lparr>not_interested_score := v\<rparr>)),
     (''follow_author'', follow_author_score, (\<lambda>v s. s\<lparr>follow_author_score := v\<rparr>)),
     (''block'', block_author_score, (\<lambda>v s. s\<lparr>block_author_score := v\<rparr>)),
     (''mute'', mute_author_score, (\<lambda>v s. s\<lparr>mute_author_score := v\<rparr>)),
     (''click'', click_score, (\<lambda>v s. s\<lparr>click_score := v\<rparr>)),
     (''profile_click'', profile_click_score, (\<lambda>v s. s\<lparr>profile_click_score := v\<rparr>)),
     (''share'', share_score, (\<lambda>v s. s\<lparr>share_score := v\<rparr>)),
     (''share_copylink'', share_via_copy_link_score, (\<lambda>v s. s\<lparr>share_via_copy_link_score := v\<rparr>)),
     (''share_dm'', share_via_dm_score, (\<lambda>v s. s\<lparr>share_via_dm_score := v\<rparr>)),
     (''open_link'', open_link_score, (\<lambda>v s. s\<lparr>open_link_score := v\<rparr>)),
     (''video_open'', video_open_score, (\<lambda>v s. s\<lparr>video_open_score := v\<rparr>)),
     (''post_unexplored'', post_unexplored_score, (\<lambda>v s. s\<lparr>post_unexplored_score := v\<rparr>)),
     (''quoted_click'', quoted_click_score, (\<lambda>v s. s\<lparr>quoted_click_score := v\<rparr>)),
     (''quoted_vqv'', quoted_vqv_score, (\<lambda>v s. s\<lparr>quoted_vqv_score := v\<rparr>))]"

definition head_field :: "string \<Rightarrow> score_field option" where
  "head_field head = map_of head_fields head"

record recentering =
  rec_heads :: "(score_field \<times> nat \<times> strength) list"
  rec_prediction :: prediction

text \<open>\<open>Recentering::for_request\<close>. The model is applied to the sequence up to the time of the cached scores, if there is a hint.\<close>

definition debias_rows :: "'rows debias_model \<Rightarrow> rank_request \<Rightarrow> int \<Rightarrow> request_payload \<Rightarrow> 'rows \<Rightarrow> int \<times> 'rows" where
  "debias_rows model req now payload rows =
     (let request_ms = (case rq_viewer req of None \<Rightarrow> now | Some v \<Rightarrow> sint (vc_now_ms v))
      in case rp_engine_time_hint_ms payload of
           None \<Rightarrow> (request_ms, rows)
         | Some scored_at \<Rightarrow> (scored_at, if scored_at < request_ms then dm_retain_until model scored_at rows else rows))"

definition recentering_for :: "debias_env \<Rightarrow> int \<Rightarrow> rank_request \<Rightarrow> fs_params \<Rightarrow> 'rows debias_model option \<Rightarrow> skip + recentering" where
  "recentering_for env now req p model_opt =
     (case model_opt of
        None \<Rightarrow> Inl ModelNotLoaded
      | Some model \<Rightarrow>
     (case debias_config_from (parse_f64 env) p of
        Inl e \<Rightarrow> Inl e
      | Inr cfg \<Rightarrow>
        if f64_gt (dc_max_artifact_age_secs cfg) f64_zero \<and>
           f64_gt (f64_of_int (now - dm_trained_at_ms model)) (f64_mul (dc_max_artifact_age_secs cfg) (F_Fin 1000))
        then Inl StaleArtifact
        else
          let payload = unwrap_or default_payload (decode_payload env (rq_experiment_payload req))
          in if rp_user_sequence payload = [] then Inl NoSequence
             else case dm_parse_sequence model (rp_user_sequence payload) of
                    None \<Rightarrow> Inl SequenceError
                  | Some parsed \<Rightarrow>
                      let (req_ms, rows) = debias_rows model req now payload parsed
                      in if dm_rows_empty model rows then Inl NoSequence
                         else let features = dm_featurize model rows req_ms
                              in if length features \<noteq> dm_feature_dim model then Inl FeatureMismatch
                                 else let surface = (if rp_product_surface payload = 0 then HOME_SURFACE else rp_product_surface payload);
                                          tz = unwrap_or 0 (dm_last_tz model rows);
                                          heads = List.map_filter (\<lambda>name. case (head_field name, Prelude.position (\<lambda>h. h = name) (dm_head_names model)) of
                                              (Some field, Some i) \<Rightarrow> Some (field, i, strength_of cfg name) | _ \<Rightarrow> None) (heads_of cfg)
                                      in Inr \<lparr>rec_heads = heads,
                                           rec_prediction = dm_predict model features (req_ms, tz, rp_client_app_id payload, surface)\<rparr>))"

definition recenter_probability :: "debias_env \<Rightarrow> prediction \<Rightarrow> f64 \<Rightarrow> nat \<Rightarrow> strength \<Rightarrow> f64" where
  "recenter_probability env pr p head_idx s =
     (if \<not> (f64_ge p PROB_FLOOR \<and> f64_ge PROB_CEIL p) then p
      else let debiased = debiased_probability env p (user_logit pr head_idx) (global_logit pr head_idx) (st_clip s)
           in if \<not> is_finite debiased then p
              else f64_clamp PROB_FLOOR PROB_CEIL
                     (f64_add (f64_mul (f64_sub f64_one (st_alpha s)) p) (f64_mul (st_alpha s) debiased)))"

definition recenter_head :: "debias_env \<Rightarrow> prediction \<Rightarrow> score_field \<times> nat \<times> strength \<Rightarrow> phoenix_scores \<Rightarrow> phoenix_scores" where
  "recenter_head env pr h s =
     (case h of ((get, put), idx, strength) \<Rightarrow>
        (case get s of None \<Rightarrow> s | Some p \<Rightarrow> put (Some (recenter_probability env pr p idx strength)) s))"

definition recentering_apply :: "debias_env \<Rightarrow> recentering \<Rightarrow> candidate_scoring_inputs \<Rightarrow> candidate_scoring_inputs" where
  "recentering_apply env r c =
     c\<lparr>si_phoenix_scores := fold (recenter_head env (rec_prediction r)) (rec_heads r) (si_phoenix_scores c)\<rparr>"

definition recenter ::
  "debias_env \<Rightarrow> int \<Rightarrow> rank_request \<Rightarrow> fs_params \<Rightarrow> 'rows debias_model option \<Rightarrow> candidate_scoring_inputs list \<Rightarrow> candidate_scoring_inputs list option" where
  "recenter env now req p model inputs =
     (if \<not> fs_bool p ''UserDebiasEnabled'' then None
      else case recentering_for env now req p model of
             Inr r \<Rightarrow> Some (map (recentering_apply env r) inputs)
           | Inl _ \<Rightarrow> None)"

end
