(* ===== verification/Dpp.thy ===== *)
theory Dpp
  imports Doubles "HOL-Library.AList"
begin

text \<open>
  The diversification of a slate by a determinantal point process (\<open>vm-ranker/dpp.rs\<close>,
  \<open>vm-ranker/helpers.rs\<close>, \<open>vm-ranker/scoring/dpp_model.rs\<close>): of the candidates with the best scores a greedy
  maximisation of the volume that their embeddings span selects some; the others get the score 0.

  A matrix is a list of rows (the code has rows one after the other in one vector). An \<open>f16\<close> is a value
  of the type \<open>f64\<close>; the product of two of them is exact in single and in double precision. Exponential,
  logarithm, square root, the vector instructions, the store of embeddings and the random embeddings are
  fields of the record \<open>dpp_env\<close>. \<open>sort_unstable_by\<close> is the stable sort: nothing below depends on the order of
  equal scores.
\<close>

section \<open>Data\<close>

record dpp_config =
  top_k :: nat
  theta :: f64
  max_selected_rank :: nat
  debug_viewer_id :: u64

record dpp_input =
  in_id :: u64
  in_score :: f64
  in_embedding :: "f64 list"
  in_norm :: f64
  in_embedding_missing :: bool

record dpp_result =
  dr_id :: u64
  dr_score :: f64

record dpp_env =
  f64_exp :: "f64 \<Rightarrow> f64"
  f64_ln :: "f64 \<Rightarrow> f64"
  f64_sqrt :: "f64 \<Rightarrow> f64"
  f32_sqrt :: "f64 \<Rightarrow> f64"
  simd_dot :: "(f64 list \<Rightarrow> f64 list \<Rightarrow> f64) option"
  store_get :: "u64 \<Rightarrow> f64 list option"
  random_unit :: "nat \<Rightarrow> f64 list"

definition EPSILON :: f64 where
  "EPSILON = f64_round (1 / 1000000)"

section \<open>Embeddings\<close>

definition dot_product_scalar :: "f64 list \<Rightarrow> f64 list \<Rightarrow> f64" where
  "dot_product_scalar a b = fold (\<lambda>(x, y) dot. f64_add dot (f64_mul x y)) (zip a b) f64_zero"

text \<open>The vector instructions are used when the processor has them.\<close>

definition dot_product :: "dpp_env \<Rightarrow> f64 list \<Rightarrow> f64 list \<Rightarrow> f64" where
  "dot_product env a b = (case simd_dot env of Some dot \<Rightarrow> dot a b | None \<Rightarrow> dot_product_scalar a b)"

text \<open>Single precision: 24 significant bits, least exponent -149.\<close>

definition f32_round :: "rat \<Rightarrow> f64" where
  "f32_round x =
     (if x = 0 then F_Fin 0
      else let e = max (floor_log2 \<bar>x\<bar>) (-126);
               unit = power_int 2 (e - 23);
               v = of_int (round_even (\<bar>x\<bar> / unit)) * unit
           in if 2 ^ 128 \<le> v then (if 0 < x then F_PosInf else F_NegInf) else F_Fin (sgn x * v))"

fun f32_add :: "f64 \<Rightarrow> f64 \<Rightarrow> f64" where
  "f32_add (F_Fin a) (F_Fin b) = f32_round (a + b)"
| "f32_add a b = f64_add a b"

definition l2_norm :: "dpp_env \<Rightarrow> f64 list \<Rightarrow> f64" where
  "l2_norm env v = f32_sqrt env (fold (\<lambda>x acc. f32_add acc (f64_mul x x)) v f64_zero)"

text \<open>\<open>EmbeddingMemo::resolve\<close>: an id without embedding gets one random embedding per request.\<close>

type_synonym embedding_memo = "(u64 \<times> f64 list \<times> bool) list"

definition memo_resolve :: "dpp_env \<Rightarrow> u64 \<Rightarrow> embedding_memo \<Rightarrow> (f64 list \<times> bool) \<times> embedding_memo" where
  "memo_resolve env i memo =
     (case map_of memo i of
        Some entry \<Rightarrow> (entry, memo)
      | None \<Rightarrow> let entry = (case store_get env i of Some e \<Rightarrow> (e, False) | None \<Rightarrow> (random_unit env (length memo), True))
                in (entry, (i, entry) # memo))"

section \<open>Greedy selection\<close>

record greedy_dpp_result =
  g_selected :: "(nat \<times> f64) list"
  g_terminal_cv :: f64
  g_rank_exhausted :: bool

text \<open>The search for the largest value: the first index whose value is above all before it.\<close>

definition best_step :: "(nat \<Rightarrow> f64) \<Rightarrow> nat \<Rightarrow> nat \<times> f64 \<Rightarrow> nat \<times> f64" where
  "best_step value_at i best = (if f64_gt (value_at i) (snd best) then (i, value_at i) else best)"

definition best_of :: "(nat \<Rightarrow> f64) \<Rightarrow> nat list \<Rightarrow> nat \<times> f64" where
  "best_of value_at is = fold (best_step value_at) is (0, F_NegInf)"

text \<open>The conditional variance of an item, and the row of the Cholesky factor for the next item.\<close>

definition conditional_variance :: "f64 list list \<Rightarrow> f64 list list \<Rightarrow> nat \<Rightarrow> f64" where
  "conditional_variance lmat rows i = fold (\<lambda>row cv. f64_sub cv (f64_mul (row ! i) (row ! i))) rows (lmat ! i ! i)"

definition next_row :: "dpp_env \<Rightarrow> f64 list list \<Rightarrow> nat \<Rightarrow> f64 list list \<Rightarrow> nat \<Rightarrow> f64 \<Rightarrow> f64 list" where
  "next_row env lmat n rows best_idx best_vol =
     (let sqrt_bv = f64_sqrt env best_vol
      in map (\<lambda>i. f64_div (fold (\<lambda>row acc. f64_sub acc (f64_mul (row ! best_idx) (row ! i))) rows (lmat ! best_idx ! i)) sqrt_bv) [0..<n])"

record greedy_state =
  gs_selected :: "(nat \<times> f64) list"
  gs_available :: "bool list"
  gs_rows :: "f64 list list"
  gs_log_det :: f64
  gs_terminal_cv :: f64
  gs_exhausted :: bool

text \<open>The selection of an item with its conditional variance.\<close>

definition greedy_select :: "dpp_env \<Rightarrow> f64 list list \<Rightarrow> nat \<Rightarrow> nat \<Rightarrow> f64 \<Rightarrow> greedy_state \<Rightarrow> greedy_state" where
  "greedy_select env lmat n best_idx best_vol st =
     (let log_det = f64_add (gs_log_det st) (f64_ln env best_vol)
      in \<lparr>gs_selected = gs_selected st @ [(best_idx, log_det)],
          gs_available = (gs_available st)[best_idx := False],
          gs_rows = gs_rows st @ [next_row env lmat n (gs_rows st) best_idx best_vol],
          gs_log_det = log_det, gs_terminal_cv = best_vol, gs_exhausted = gs_exhausted st\<rparr>)"

text \<open>The loop, for as many rounds as items may still be selected; \<open>break\<close> ends it.\<close>

fun greedy_loop :: "dpp_env \<Rightarrow> f64 list list \<Rightarrow> nat \<Rightarrow> nat \<Rightarrow> greedy_state \<Rightarrow> greedy_state" where
  "greedy_loop env lmat n 0 st = st"
| "greedy_loop env lmat n (Suc rounds) st =
     (let (best_idx, best_vol) =
            best_of (conditional_variance lmat (gs_rows st)) (filter (\<lambda>i. gs_available st ! i) [0..<n])
      in if f64_le best_vol EPSILON
         then st\<lparr>gs_terminal_cv := best_vol, gs_exhausted := True\<rparr>
         else greedy_loop env lmat n rounds (greedy_select env lmat n best_idx best_vol st))"

text \<open>A pinned item counts only if its own entry is above the threshold.\<close>

definition pinned_item :: "f64 list list \<Rightarrow> nat option \<Rightarrow> nat option" where
  "pinned_item lmat pinned_first =
     (case pinned_first of Some p \<Rightarrow> if f64_gt (lmat ! p ! p) EPSILON then Some p else None | None \<Rightarrow> None)"

definition greedy_dpp :: "dpp_env \<Rightarrow> f64 list list \<Rightarrow> nat \<Rightarrow> nat \<Rightarrow> nat option \<Rightarrow> greedy_dpp_result" where
  "greedy_dpp env lmat n k pinned_first =
     (if n = 0 \<or> k = 0 then \<lparr>g_selected = [], g_terminal_cv = f64_zero, g_rank_exhausted = True\<rparr>
      else
        let pinned = pinned_item lmat pinned_first;
            max_items = (case pinned of Some _ \<Rightarrow> min (k + 1) n | None \<Rightarrow> min k n);
            (first, first_val) = (case pinned of Some p \<Rightarrow> (p, lmat ! p ! p) | None \<Rightarrow> best_of (\<lambda>i. lmat ! i ! i) [0..<n]);
            log_det = f64_ln env first_val;
            sqrt_first = f64_sqrt env first_val;
            row = (if f64_gt sqrt_first EPSILON then map (\<lambda>j. f64_div (lmat ! first ! j) sqrt_first) [0..<n]
                   else replicate n f64_zero);
            st = greedy_loop env lmat n (max_items - 1)
                   \<lparr>gs_selected = [(first, log_det)], gs_available = (replicate n True)[first := False], gs_rows = [row],
                    gs_log_det = log_det, gs_terminal_cv = first_val, gs_exhausted = False\<rparr>
        in \<lparr>g_selected = gs_selected st, g_terminal_cv = gs_terminal_cv st, g_rank_exhausted = gs_exhausted st\<rparr>)"

section \<open>Rescoring\<close>

definition quality_factor :: "dpp_env \<Rightarrow> f64 \<Rightarrow> f64 \<Rightarrow> dpp_input \<Rightarrow> f64" where
  "quality_factor env alpha max_score item = f64_exp env (f64_mul alpha (f64_div (in_score item) max_score))"

definition kernel_entry :: "dpp_env \<Rightarrow> (dpp_input \<times> f64) list \<Rightarrow> nat \<Rightarrow> nat \<Rightarrow> f64" where
  "kernel_entry env items i j =
     (let (a, qa) = items ! min i j; (b, qb) = items ! max i j
      in if i = j then f64_mul qa qa
         else let denom = f64_mul (in_norm a) (in_norm b);
                  cosine = (if f64_gt denom EPSILON then f64_div (dot_product env (in_embedding a) (in_embedding b)) denom else f64_zero)
              in f64_mul (f64_mul qa qb) cosine)"

definition dpp_kernel :: "dpp_env \<Rightarrow> (dpp_input \<times> f64) list \<Rightarrow> f64 list list" where
  "dpp_kernel env items = map (\<lambda>i. map (kernel_entry env items i) [0..<length items]) [0..<length items]"

text \<open>
  \<open>dpp::rescore\<close>. The inputs with the best scores and the seed, if there is one, make up the kernel matrix; the seed comes
  last, is selected first and is not returned. \<open>None\<close> is the index out of range for an empty pool.
\<close>

definition rescore :: "dpp_env \<Rightarrow> dpp_input list \<Rightarrow> dpp_input option \<Rightarrow> dpp_config \<Rightarrow> dpp_result list option" where
  "rescore env inputs seed config =
     (let n = length inputs
      in if n = 0 then Some []
         else
           let pool = take (min (max_selected_rank config) n) (sort_by (score_desc in_score) inputs);
               m = length pool
           in if m = 0 then None
              else
                let max_score = f64_max (in_score (pool ! 0)) EPSILON;
                    th = f64_clamp f64_zero (f64_sub f64_one EPSILON) (theta config);
                    alpha = f64_div th (f64_mul (F_Fin 2) (f64_sub f64_one th));
                    items = map (\<lambda>item. (item, quality_factor env alpha max_score item)) pool @
                            (case seed of Some s \<Rightarrow> [(s, f64_exp env (f64_mul alpha f64_one))] | None \<Rightarrow> []);
                    result = greedy_dpp env (dpp_kernel env items) (length items) (top_k config) (map_option (\<lambda>_. m) seed);
                    chosen = map (\<lambda>ki. pool ! ki) (filter (\<lambda>ki. ki < m) (map fst (g_selected result)))
                in Some (map (\<lambda>inp. \<lparr>dr_id = in_id inp, dr_score = in_score inp\<rparr>) (sort_by (score_desc in_score) chosen)))"

section \<open>The greedy selection\<close>

lemma best_fold:
  "fold (best_step f) is b = (i, v) \<Longrightarrow> snd b \<noteq> F_NaN \<Longrightarrow>
   v \<noteq> F_NaN \<and> ((i, v) = b \<or> (i \<in> set is \<and> v = f i)) \<and> f64_ge v (snd b) \<and> (\<forall>j \<in> set is. \<not> f64_gt (f j) v)"
proof (induction "is" arbitrary: b)
  case (Cons k "is")
  let ?b = "best_step f k b"
  have b: "snd ?b \<noteq> F_NaN" "f64_ge (snd ?b) (snd b)" "\<not> f64_gt (f k) (snd ?b)" "?b = b \<or> ?b = (k, f k)"
    using Cons.prems(2) by (auto simp: best_step_def f64_gt_iff)
  have IH: "v \<noteq> F_NaN" "(i, v) = ?b \<or> (i \<in> set is \<and> v = f i)" "f64_ge v (snd ?b)" "\<forall>j \<in> set is. \<not> f64_gt (f j) v"
    using Cons.IH [of ?b] Cons.prems(1) b(1) by simp_all
  have "\<not> f64_gt (f k) v" using IH(3) b(3) f64_ge_trans by (auto simp: f64_gt_iff)
  then show ?case using IH b f64_ge_trans by auto
qed auto

lemma best_of_spec:
  assumes "best_of f is = (i, v)"
  shows "f64_gt v EPSILON \<Longrightarrow> i \<in> set is \<and> v = f i" "v \<noteq> F_NaN" "\<And>j. j \<in> set is \<Longrightarrow> \<not> f64_gt (f j) v"
    "set is \<subseteq> {..<n} \<Longrightarrow> 0 < n \<Longrightarrow> i < n"
  using best_fold [of f "is" "(0, F_NegInf)" i v] assms by (auto simp: best_of_def f64_gt_iff)

text \<open>The items selected so far are distinct, in range and no longer available.\<close>

definition greedy_inv :: "nat \<Rightarrow> greedy_state \<Rightarrow> bool" where
  "greedy_inv n st \<longleftrightarrow> length (gs_available st) = n \<and> distinct (map fst (gs_selected st)) \<and> set (map fst (gs_selected st)) \<subseteq> {..<n} \<and>
     (\<forall>i < n. gs_available st ! i \<longleftrightarrow> i \<notin> set (map fst (gs_selected st)))"

lemma greedy_select_inv:
  "greedy_inv n st \<Longrightarrow> i < n \<Longrightarrow> gs_available st ! i \<Longrightarrow> greedy_inv n (greedy_select env lmat n i v st)"
  by (auto simp: greedy_inv_def greedy_select_def Let_def nth_list_update)

text \<open>
  The specification of the selection as steps: an available item is selected whose conditional variance is above
  the threshold and not below that of any other available item.
\<close>

inductive dpp_step :: "dpp_env \<Rightarrow> f64 list list \<Rightarrow> nat \<Rightarrow> greedy_state \<Rightarrow> greedy_state \<Rightarrow> bool" for env lmat n where
  select: "i < n \<Longrightarrow> gs_available st ! i \<Longrightarrow> v = conditional_variance lmat (gs_rows st) i \<Longrightarrow> f64_gt v EPSILON \<Longrightarrow>
     (\<And>j. j < n \<Longrightarrow> gs_available st ! j \<Longrightarrow> \<not> f64_gt (conditional_variance lmat (gs_rows st) j) v) \<Longrightarrow>
     dpp_step env lmat n st (greedy_select env lmat n i v st)"

inductive_cases dpp_stepE: "dpp_step env lmat n st st'"

definition dpp_done :: "f64 list list \<Rightarrow> nat \<Rightarrow> greedy_state \<Rightarrow> bool" where
  "dpp_done lmat n st \<longleftrightarrow> (\<forall>j < n. gs_available st ! j \<longrightarrow> \<not> f64_gt (conditional_variance lmat (gs_rows st) j) EPSILON)"

lemma EPSILON_num: "EPSILON \<noteq> F_NaN"
  by (simp add: EPSILON_def)

lemma greedy_loop_refines:
  "\<exists>m st'. m \<le> rounds \<and> (dpp_step env lmat n ^^ m) st st' \<and> gs_selected (greedy_loop env lmat n rounds st) = gs_selected st' \<and>
     (m = rounds \<or> dpp_done lmat n st')"
proof (induction rounds arbitrary: st)
  case (Suc rounds)
  obtain i v where best: "best_of (conditional_variance lmat (gs_rows st)) (filter (\<lambda>i. gs_available st ! i) [0..<n]) = (i, v)" by force
  note spec = best_of_spec [OF best]
  show ?case
  proof (cases "f64_le v EPSILON")
    case True
    then have "dpp_done lmat n st"
      using spec(3) f64_ge_trans by (fastforce simp: dpp_done_def f64_le_def f64_gt_iff)
    then show ?thesis using True best by (intro exI [of _ 0] exI [of _ st]) simp
  next
    case False
    then have "f64_gt v EPSILON" using f64_ge_linear [OF spec(2) EPSILON_num] by (auto simp: f64_le_def f64_gt_iff)
    then have step: "dpp_step env lmat n st (greedy_select env lmat n i v st)"
      using spec(1,3) by (intro dpp_step.select) auto
    obtain m st' where m: "m \<le> rounds" "(dpp_step env lmat n ^^ m) (greedy_select env lmat n i v st) st'"
      "gs_selected (greedy_loop env lmat n rounds (greedy_select env lmat n i v st)) = gs_selected st'" "m = rounds \<or> dpp_done lmat n st'"
      using Suc.IH by blast
    then have "(dpp_step env lmat n ^^ Suc m) st st'" using step by (blast intro: relpowp_Suc_I2)
    then show ?thesis using m False best by (intro exI [of _ "Suc m"] exI [of _ st']) (auto simp del: relpowp.simps)
  qed
qed auto

lemma dpp_steps_inv:
  "(dpp_step env lmat n ^^ m) st st' \<Longrightarrow> greedy_inv n st \<Longrightarrow>
     greedy_inv n st' \<and> length (gs_selected st') = length (gs_selected st) + m \<and> (\<exists>more. gs_selected st' = gs_selected st @ more)"
proof (induction m arbitrary: st')
  case (Suc m)
  then obtain s where s: "(dpp_step env lmat n ^^ m) st s" "dpp_step env lmat n s st'" by auto
  then obtain i v where i: "st' = greedy_select env lmat n i v s" "i < n" "gs_available s ! i" by (auto elim!: dpp_stepE)
  then have "greedy_inv n st'" using Suc.IH [OF s(1) Suc.prems(2)] greedy_select_inv by blast
  then show ?case using Suc.IH [OF s(1) Suc.prems(2)] i(1) by (auto simp: greedy_select_def Let_def)
qed auto

text \<open>The state before the loop, and the number of rounds.\<close>

definition greedy_start :: "dpp_env \<Rightarrow> f64 list list \<Rightarrow> nat \<Rightarrow> nat option \<Rightarrow> greedy_state" where
  "greedy_start env lmat n pinned =
     (let (first, first_val) = (case pinned of Some p \<Rightarrow> (p, lmat ! p ! p) | None \<Rightarrow> best_of (\<lambda>i. lmat ! i ! i) [0..<n]);
          log_det = f64_ln env first_val;
          sqrt_first = f64_sqrt env first_val
      in \<lparr>gs_selected = [(first, log_det)], gs_available = (replicate n True)[first := False],
          gs_rows = [if f64_gt sqrt_first EPSILON then map (\<lambda>j. f64_div (lmat ! first ! j) sqrt_first) [0..<n] else replicate n f64_zero],
          gs_log_det = log_det, gs_terminal_cv = first_val, gs_exhausted = False\<rparr>)"

lemma greedy_start_inv:
  assumes "0 < n" "case pinned of Some p \<Rightarrow> p < n | None \<Rightarrow> True"
  shows "greedy_inv n (greedy_start env lmat n pinned)" "length (gs_selected (greedy_start env lmat n pinned)) = 1"
proof -
  obtain i v where best: "best_of (\<lambda>i. lmat ! i ! i) [0..<n] = (i, v)" by force
  then have "i < n" using best_of_spec(4) [OF best, of n] assms(1) by (simp add: atLeast0LessThan)
  with best assms(2) show "greedy_inv n (greedy_start env lmat n pinned)"
    by (cases pinned) (auto simp: greedy_start_def greedy_inv_def Let_def nth_list_update)
  show "length (gs_selected (greedy_start env lmat n pinned)) = 1" using best by (cases pinned) (simp_all add: greedy_start_def Let_def)
qed

lemma greedy_dpp_start:
  assumes "0 < n" "0 < k"
  shows "g_selected (greedy_dpp env lmat n k pinned_first) =
    gs_selected (greedy_loop env lmat n
      ((case pinned_item lmat pinned_first of Some _ \<Rightarrow> min (k + 1) n | None \<Rightarrow> min k n) - 1)
      (greedy_start env lmat n (pinned_item lmat pinned_first)))"
  using assms by (simp add: greedy_dpp_def greedy_start_def Let_def split: prod.split)

text \<open>
  The selection implements the specification: it is a run of greedy steps from the first item that stops when
  enough items are selected or when no available item has a variance above the threshold.
\<close>

lemma greedy_dpp_refines:
  assumes "0 < n" "0 < k"
  shows "\<exists>m st'. (dpp_step env lmat n ^^ m) (greedy_start env lmat n (pinned_item lmat pinned_first)) st' \<and>
    g_selected (greedy_dpp env lmat n k pinned_first) = gs_selected st' \<and>
    m + 1 \<le> (case pinned_item lmat pinned_first of Some _ \<Rightarrow> min (k + 1) n | None \<Rightarrow> min k n) \<and>
    (m + 1 = (case pinned_item lmat pinned_first of Some _ \<Rightarrow> min (k + 1) n | None \<Rightarrow> min k n) \<or> dpp_done lmat n st')"
proof -
  let ?max = "case pinned_item lmat pinned_first of Some _ \<Rightarrow> min (k + 1) n | None \<Rightarrow> min k n"
  have "0 < ?max" using assms by (simp split: option.split)
  then show ?thesis
    using greedy_loop_refines [of "?max - 1" env lmat n "greedy_start env lmat n (pinned_item lmat pinned_first)"]
      greedy_dpp_start [OF assms, of env lmat pinned_first] by fastforce
qed

lemma greedy_dpp_sound:
  assumes pin: "case pinned_first of Some p \<Rightarrow> p < n | None \<Rightarrow> True" and sel: "sel = map fst (g_selected (greedy_dpp env lmat n k pinned_first))"
  shows "distinct sel \<and> set sel \<subseteq> {..<n} \<and> length sel \<le> (if pinned_item lmat pinned_first = None then k else k + 1) \<and>
    (0 < k \<longrightarrow> (case pinned_item lmat pinned_first of Some p \<Rightarrow> p \<in> set sel | None \<Rightarrow> True))"
proof (cases "0 < n \<and> 0 < k")
  case True
  let ?start = "greedy_start env lmat n (pinned_item lmat pinned_first)"
  have inv: "greedy_inv n ?start" "length (gs_selected ?start) = 1"
    using greedy_start_inv [of n "pinned_item lmat pinned_first"] pin True by (auto simp: pinned_item_def split: option.splits)
  obtain m st' where m: "(dpp_step env lmat n ^^ m) ?start st'" "sel = map fst (gs_selected st')"
    "m + 1 \<le> (case pinned_item lmat pinned_first of Some _ \<Rightarrow> min (k + 1) n | None \<Rightarrow> min k n)"
    using greedy_dpp_refines [of n k env lmat pinned_first] True sel by auto
  have "pinned_item lmat pinned_first = Some p \<Longrightarrow> p \<in> set (map fst (gs_selected ?start))" for p by (simp add: greedy_start_def Let_def)
  then show ?thesis
    using dpp_steps_inv [OF m(1) inv(1)] m inv(2) by (auto simp: greedy_inv_def split: option.splits)
next
  case False
  then show ?thesis using sel pin by (auto simp: greedy_dpp_def pinned_item_def split: option.splits if_splits)
qed

section \<open>The results of the rescoring\<close>

definition dpp_pool :: "dpp_config \<Rightarrow> dpp_input list \<Rightarrow> dpp_input list" where
  "dpp_pool config inputs = take (min (max_selected_rank config) (length inputs)) (sort_by (score_desc in_score) inputs)"

definition result_of :: "dpp_input \<Rightarrow> dpp_result" where
  "result_of inp = \<lparr>dr_id = in_id inp, dr_score = in_score inp\<rparr>"

lemma map_nth_sub_mset: "distinct is \<Longrightarrow> set is \<subseteq> {..<length xs} \<Longrightarrow> mset (map ((!) xs) is) \<subseteq># mset xs"
proof -
  assume "distinct is" "set is \<subseteq> {..<length xs}"
  then have "mset_set (set is) \<subseteq># mset_set (set [0..<length xs])"
    by (intro subset_imp_msubset_mset_set) (auto simp: atLeast0LessThan)
  then have "mset is \<subseteq># mset [0..<length xs]" using \<open>distinct is\<close> by (simp only: mset_set_set distinct_upt)
  then have "image_mset ((!) xs) (mset is) \<subseteq># image_mset ((!) xs) (mset [0..<length xs])" by (rule image_mset_subseteq_mono)
  then show ?thesis by (metis map_nth mset_map)
qed

lemma rescore_sound:
  assumes "0 < max_selected_rank config \<or> inputs = []"
  shows "\<exists>results. rescore env inputs seed config = Some results \<and> length results \<le> top_k config \<and>
    mset results \<subseteq># image_mset result_of (mset (dpp_pool config inputs))"
proof (cases "inputs = []")
  case False
  let ?pool = "dpp_pool config inputs" and ?m = "length (dpp_pool config inputs)"
  have m: "0 < ?m" using assms False by (simp add: dpp_pool_def)
  define items where "items = (let max_score = f64_max (in_score (?pool ! 0)) EPSILON;
      th = f64_clamp f64_zero (f64_sub f64_one EPSILON) (theta config); alpha = f64_div th (f64_mul (F_Fin 2) (f64_sub f64_one th))
    in map (\<lambda>item. (item, quality_factor env alpha max_score item)) ?pool @
       (case seed of Some s \<Rightarrow> [(s, f64_exp env (f64_mul alpha f64_one))] | None \<Rightarrow> []))"
  define sel where "sel = map fst (g_selected (greedy_dpp env (dpp_kernel env items) (length items) (top_k config) (map_option (\<lambda>_. ?m) seed)))"
  define picked where "picked = filter (\<lambda>ki. ki < ?m) sel"
  have len: "length items = ?m + (if seed = None then 0 else 1)" by (simp add: items_def Let_def split: option.split)
  have sound: "distinct sel" "set sel \<subseteq> {..<length items}"
    "length sel \<le> (if pinned_item (dpp_kernel env items) (map_option (\<lambda>_. ?m) seed) = None then top_k config else top_k config + 1)"
    "0 < top_k config \<longrightarrow> (case pinned_item (dpp_kernel env items) (map_option (\<lambda>_. ?m) seed) of Some p \<Rightarrow> p \<in> set sel | None \<Rightarrow> True)"
    using greedy_dpp_sound [where pinned_first = "map_option (\<lambda>_. ?m) seed" and n = "length items" and sel = sel and k = "top_k config"
      and env = env and lmat = "dpp_kernel env items"] len
    by (auto simp: sel_def split: option.splits)
  have "length picked \<le> top_k config"
  proof (cases "pinned_item (dpp_kernel env items) (map_option (\<lambda>_. ?m) seed)")
    case None
    then show ?thesis using sound(3) by (simp add: picked_def) (metis length_filter_le order_trans)
  next
    case (Some p)
    then have "p = ?m" by (auto simp: pinned_item_def split: option.splits if_splits)
    show ?thesis
    proof (cases "0 < top_k config")
      case True
      then have "?m \<in> set sel" using sound(4) Some \<open>p = ?m\<close> by simp
      then have "length picked < length sel" unfolding picked_def by (rule length_filter_less) simp
      then show ?thesis using sound(3) Some by simp
    next
      case False
      then show ?thesis by (simp add: picked_def sel_def greedy_dpp_def)
    qed
  qed
  moreover have "mset (map ((!) ?pool) picked) \<subseteq># mset ?pool"
    using sound(1) by (intro map_nth_sub_mset) (auto simp: picked_def)
  then have "mset (map result_of (sort_by (score_desc in_score) (map ((!) ?pool) picked))) \<subseteq># image_mset result_of (mset ?pool)"
    by (simp add: image_mset_subseteq_mono)
  moreover have "rescore env inputs seed config = Some (map result_of (sort_by (score_desc in_score) (map ((!) ?pool) picked)))"
    using False m by (simp add: rescore_def Let_def result_of_def picked_def sel_def items_def flip: dpp_pool_def)
  ultimately show ?thesis by simp
qed (simp add: rescore_def)

text \<open>
  C8. The diversification is a greedy maximisation: from its first item on, the selection is a run of steps
  that each select an available item with the largest conditional variance, if that is above the threshold; it
  stops when the number of items is reached or no available item is above the threshold; the items are distinct and in range.
\<close>

theorem dpp_selection_refines:
  assumes "0 < n" "0 < k" "case pinned_first of Some p \<Rightarrow> p < n | None \<Rightarrow> True"
  shows "\<exists>m st'. (dpp_step env lmat n ^^ m) (greedy_start env lmat n (pinned_item lmat pinned_first)) st' \<and>
    g_selected (greedy_dpp env lmat n k pinned_first) = gs_selected st' \<and>
    m + 1 \<le> (case pinned_item lmat pinned_first of Some _ \<Rightarrow> min (k + 1) n | None \<Rightarrow> min k n) \<and>
    (m + 1 = (case pinned_item lmat pinned_first of Some _ \<Rightarrow> min (k + 1) n | None \<Rightarrow> min k n) \<or> dpp_done lmat n st') \<and>
    distinct (map fst (gs_selected st')) \<and> set (map fst (gs_selected st')) \<subseteq> {..<n}"
proof -
  obtain m st' where st': "(dpp_step env lmat n ^^ m) (greedy_start env lmat n (pinned_item lmat pinned_first)) st'"
    "g_selected (greedy_dpp env lmat n k pinned_first) = gs_selected st'"
    "m + 1 \<le> (case pinned_item lmat pinned_first of Some _ \<Rightarrow> min (k + 1) n | None \<Rightarrow> min k n)"
    "m + 1 = (case pinned_item lmat pinned_first of Some _ \<Rightarrow> min (k + 1) n | None \<Rightarrow> min k n) \<or> dpp_done lmat n st'"
    using greedy_dpp_refines [OF assms(1,2)] by blast
  then show ?thesis using greedy_dpp_sound [where k = k and env = env and lmat = lmat, OF assms(3) refl] by (intro exI [of _ m] exI [of _ st'] conjI) simp_all
qed

definition sample_dpp_env :: dpp_env where
  "sample_dpp_env = \<lparr>f64_exp = (\<lambda>x. f64_one), f64_ln = (\<lambda>x. f64_zero), f64_sqrt = (\<lambda>x. x), f32_sqrt = (\<lambda>x. x), simd_dot = None,
     store_get = (\<lambda>i. Some [f64_one]), random_unit = (\<lambda>i. [])\<rparr>"

theorem dpp_selection_refines_witness:
  "\<exists>m st'. (dpp_step sample_dpp_env [[f64_one, f64_zero], [f64_zero, f64_one]] 2 ^^ m)
      (greedy_start sample_dpp_env [[f64_one, f64_zero], [f64_zero, f64_one]] 2
        (pinned_item [[f64_one, f64_zero], [f64_zero, f64_one]] (Some 1))) st' \<and>
    g_selected (greedy_dpp sample_dpp_env [[f64_one, f64_zero], [f64_zero, f64_one]] 2 1 (Some 1)) = gs_selected st'"
  using dpp_selection_refines [of 2 1 "Some 1" sample_dpp_env "[[f64_one, f64_zero], [f64_zero, f64_one]]"] by auto

end
