(* ===== verification/Vm_Ranker.thy ===== *)
theory Vm_Ranker
  imports User_Debias Dpp
begin

text \<open>
  The ranking service (\<open>vm-ranker/scoring/mod.rs\<close>, \<open>value_model.rs\<close>, \<open>dpp_model.rs\<close> and the handler of
  \<open>ranker_service.rs\<close>): the value model computes the scores of a slate, falls back to the scores of the
  caller when there is no configuration, and the diversification sets the scores of candidates it
  does not select to 0.
\<close>

section \<open>The value model of a request\<close>

record value_model_output =
  vo_weighted :: "f64 list"
  vo_scores :: "f64 list"
  vo_debiased :: bool
  vo_top_heads :: "head_contribution list list option"

definition TOP_HEADS :: nat where "TOP_HEADS = 3"

definition MIN_HEAD_SHARE :: f64 where "MIN_HEAD_SHARE = f64_round (1 / 10)"

definition top_heads :: "value_model_weights \<Rightarrow> candidate_scoring_inputs \<Rightarrow> head_contribution list" where
  "top_heads w c =
     (let terms = weighted_terms w c;
          total = f64_sum (map (\<lambda>(_, v). f64_abs v) terms);
          ranked = sort_by (\<lambda>a b. total_cmp (f64_abs (snd b)) (f64_abs (snd a))) terms
      in takeWhile (\<lambda>h. f64_ge (hc_share h) MIN_HEAD_SHARE)
           (map (\<lambda>(head, v). \<lparr>hc_head = head, hc_contribution = v, hc_share = f64_div (f64_abs v) total\<rparr>) (take TOP_HEADS ranked)))"

text \<open>The rules on authors are asked once per author; a bonus that is not finite counts as 0.\<close>

fun exploration_bonuses :: "(u64 \<Rightarrow> f64) \<Rightarrow> (u64 \<times> f64) list \<Rightarrow> candidate_scoring_inputs list \<Rightarrow> candidate_scoring_inputs list" where
  "exploration_bonuses rules by_author [] = []"
| "exploration_bonuses rules by_author (c # cs) =
     (let (bonus, by_author') = (case map_of by_author (si_author_id c) of
              Some b \<Rightarrow> (b, by_author)
            | None \<Rightarrow> (rules (si_author_id c), (si_author_id c, rules (si_author_id c)) # by_author))
      in c\<lparr>si_author_exploration_bonus := (if is_finite bonus then bonus else f64_zero)\<rparr> # exploration_bonuses rules by_author' cs)"

definition set_author_exploration_bonuses :: "(u64 \<Rightarrow> f64) \<Rightarrow> candidate_scoring_inputs list \<Rightarrow> candidate_scoring_inputs list" where
  "set_author_exploration_bonuses rules cs = exploration_bonuses rules [] cs"

definition scored_inputs :: "ranker_math \<Rightarrow> rank_request \<Rightarrow> fs_params \<Rightarrow> (u64 \<Rightarrow> f64) option \<Rightarrow> candidate_scoring_inputs list" where
  "scored_inputs rm req p author_rules =
     (let w = weights_from_params rm p (rq_viewer_id req);
          inputs = candidate_inputs req w;
          inputs' = (if \<not> f64_eq (w_user_video_continuation w) f64_zero then set_user_video_continuation inputs else inputs)
      in case author_rules of Some rules \<Rightarrow> set_author_exploration_bonuses rules inputs' | None \<Rightarrow> inputs')"

text \<open>\<open>compute_or_fallback\<close>: \<open>Inl\<close> is the fallback; \<open>None\<close> a panic.\<close>

definition compute_or_fallback ::
  "ranker_math \<Rightarrow> debias_env \<Rightarrow> rank_request \<Rightarrow> fs_params option \<Rightarrow> (u64 \<Rightarrow> f64) option \<Rightarrow> 'rows debias_model option \<Rightarrow>
   (string + value_model_output) option" where
  "compute_or_fallback rm denv req params author_rules model =
     (case params of
        None \<Rightarrow> Some (Inl ''no_config'')
      | Some p \<Rightarrow>
          let w = weights_from_params rm p (rq_viewer_id req);
              ctx = scoring_context rm req p;
              inputs = scored_inputs rm req p author_rules
          in Option.bind (compute_value_scores (rm_powf rm) w ctx inputs) (\<lambda>raw.
             let cached_weighted = inputs \<noteq> [] \<and> list_all (\<lambda>c. si_weighted_score c \<noteq> None) inputs
             in if cached_weighted \<and> \<not> rq_include_top_heads req
                then Some (Inr \<lparr>vo_weighted = vs_weighted raw, vo_scores = vs_scores raw, vo_debiased = False, vo_top_heads = None\<rparr>)
                else
                  let recentered = recenter denv (rm_now_ms rm) req p model inputs;
                      scored = unwrap_or inputs recentered;
                      heads = (if rq_include_top_heads req then Some (map (top_heads w) scored) else None)
                  in if cached_weighted \<or> recentered = None
                     then Some (Inr \<lparr>vo_weighted = vs_weighted raw, vo_scores = vs_scores raw, vo_debiased = False, vo_top_heads = heads\<rparr>)
                     else map_option (\<lambda>debiased. Inr \<lparr>vo_weighted = vs_weighted debiased, vo_scores = vs_scores debiased,
                            vo_debiased = True, vo_top_heads = heads\<rparr>) (compute_value_scores (rm_powf rm) w ctx scored)))"

definition value_model_compute ::
  "ranker_math \<Rightarrow> debias_env \<Rightarrow> rank_request \<Rightarrow> fs_params option \<Rightarrow> (u64 \<Rightarrow> f64) option \<Rightarrow> bool \<Rightarrow> 'rows debias_model option \<Rightarrow>
   value_model_output option option" where
  "value_model_compute rm denv req params author_rules compute_value_model model =
     (if \<not> compute_value_model then Some None
      else map_option (\<lambda>r. case r of Inr out \<Rightarrow> Some out | Inl _ \<Rightarrow> None) (compute_or_fallback rm denv req params author_rules model))"

section \<open>Diversification of a request\<close>

definition dpp_order :: "nat \<times> rank_candidate \<times> f64 \<Rightarrow> nat \<times> rank_candidate \<times> f64 \<Rightarrow> ordering" where
  "dpp_order a b =
     (case score_desc (\<lambda>x. snd (snd x)) a b of
        Equal \<Rightarrow> (if fst a < fst b then Less else if fst b < fst a then Greater else Equal)
      | other \<Rightarrow> other)"

definition embedding_id :: "rank_candidate \<Rightarrow> u64" where
  "embedding_id c = (if rc_retweeted_tweet_id c \<noteq> 0 then rc_retweeted_tweet_id c else rc_tweet_id c)"

definition dpp_scored :: "rank_request \<Rightarrow> f64 option list \<Rightarrow> (nat \<times> rank_candidate \<times> f64) list" where
  "dpp_scored req scores =
     List.map_filter (\<lambda>(i, c, s). map_option (\<lambda>v. (i, c, v)) s) (enumerate 0 (zip (rq_candidates req) scores))"

fun dpp_inputs_loop :: "dpp_env \<Rightarrow> (nat \<times> rank_candidate \<times> f64) list \<Rightarrow> embedding_memo \<Rightarrow> dpp_input list \<times> embedding_memo" where
  "dpp_inputs_loop env [] memo = ([], memo)"
| "dpp_inputs_loop env ((i, c, v) # rest) memo =
     (let ((embedding, missing), memo') = memo_resolve env (embedding_id c) memo;
          norm = (if missing then f64_one else l2_norm env embedding);
          (inputs, memo'') = dpp_inputs_loop env rest memo'
      in (\<lparr>in_id = rc_tweet_id c, in_score = v, in_embedding = embedding, in_norm = norm, in_embedding_missing = missing\<rparr> # inputs, memo''))"

definition build_dpp_inputs :: "dpp_env \<Rightarrow> rank_request \<Rightarrow> f64 option list \<Rightarrow> dpp_config \<Rightarrow> embedding_memo \<Rightarrow> dpp_input list \<times> embedding_memo" where
  "build_dpp_inputs env req scores config memo =
     dpp_inputs_loop env (take (max_selected_rank config) (sort_by dpp_order (dpp_scored req scores))) memo"

definition build_seed_input :: "dpp_env \<Rightarrow> rank_request \<Rightarrow> dpp_input option" where
  "build_seed_input env req =
     (if rq_seed_tweet_id req = 0 then None
      else map_option (\<lambda>embedding. \<lparr>in_id = rq_seed_tweet_id req, in_score = f64_zero, in_embedding = embedding,
             in_norm = l2_norm env embedding, in_embedding_missing = False\<rparr>) (store_get env (rq_seed_tweet_id req)))"

definition rank_with_memo :: "dpp_env \<Rightarrow> rank_request \<Rightarrow> f64 option list \<Rightarrow> dpp_config \<Rightarrow> embedding_memo \<Rightarrow> f64 list option" where
  "rank_with_memo env req scores config memo =
     (let (inputs, _) = build_dpp_inputs env req scores config memo;
          seed = build_seed_input env req
      in map_option (\<lambda>results.
           map (\<lambda>(c, s). if rc_tweet_id c \<in> dr_id ` set results then unwrap_or f64_zero s else f64_zero)
             (zip (rq_candidates req) scores))
         (rescore env inputs seed config))"

section \<open>The service\<close>

record ranking_config =
  cfg_resolve :: "viewer_context \<Rightarrow> fs_params"
  cfg_resolve_anonymous :: fs_params
  cfg_author_bonus :: "u64 \<Rightarrow> f64"

record 'rows rank_context =
  cx_dpp :: "(dpp_env \<times> dpp_config) option"
  cx_debias_model :: "'rows debias_model option"
  cx_config :: "ranking_config option"

definition resolve_params :: "rank_request \<Rightarrow> ranking_config option \<Rightarrow> fs_params option" where
  "resolve_params req config =
     map_option (\<lambda>cfg. case rq_viewer req of Some viewer \<Rightarrow> cfg_resolve cfg viewer | None \<Rightarrow> cfg_resolve_anonymous cfg) config"

definition dpp_enabled :: "rank_request \<Rightarrow> fs_params option \<Rightarrow> bool" where
  "dpp_enabled req params =
     is_none_or (\<lambda>p. fs_bool p ''DppEnabled'' \<and> (\<not> rq_topic_request req \<or> fs_bool p ''TopicDppEnabled'')) params"

definition apply_dpp_overrides :: "dpp_config \<Rightarrow> dpp_params \<Rightarrow> dpp_config" where
  "apply_dpp_overrides config overrides =
     config\<lparr>theta := (if \<not> f64_eq (dp_theta overrides) f64_zero then dp_theta overrides else theta config),
       max_selected_rank := (if dp_max_selected_rank overrides \<noteq> 0 then unat (dp_max_selected_rank overrides) else max_selected_rank config),
       top_k := (if dp_top_k overrides \<noteq> 0 then unat (dp_top_k overrides) else top_k config)\<rparr>"

definition request_dpp_config :: "rank_request \<Rightarrow> fs_params option \<Rightarrow> dpp_config \<Rightarrow> dpp_config" where
  "request_dpp_config req params config =
     (case (params, rq_dpp_params req) of
        (Some p, _) \<Rightarrow> config\<lparr>theta := fs_f64 p ''DppTheta'', max_selected_rank := nat (fs_int p ''DppMaxSelectedRank'')\<rparr>
      | (None, Some overrides) \<Rightarrow> apply_dpp_overrides config overrides
      | (None, None) \<Rightarrow> config)"

definition served_pre_dpp_scores :: "rank_request \<Rightarrow> value_model_output option \<Rightarrow> f64 option list" where
  "served_pre_dpp_scores req value_model =
     (case value_model of Some vm \<Rightarrow> map Some (vo_scores vm) | None \<Rightarrow> map rc_score (rq_candidates req))"

text \<open>\<open>None\<close> is the index out of range in the output of the value model.\<close>

definition ranked_candidates :: "rank_request \<Rightarrow> f64 list \<Rightarrow> value_model_output option \<Rightarrow> ranked_candidate list option" where
  "ranked_candidates req final_scores value_model =
     (let rows = enumerate 0 (zip (rq_candidates req) final_scores);
          in_range = (case value_model of
              None \<Rightarrow> True
            | Some vm \<Rightarrow> length rows \<le> length (vo_weighted vm) \<and> is_none_or (\<lambda>heads. length rows \<le> length heads) (vo_top_heads vm))
      in if in_range
         then Some (map (\<lambda>(i, c, v). \<lparr>rd_tweet_id = rc_tweet_id c, rd_score = v,
                rd_weighted_score = map_option (\<lambda>vm. vo_weighted vm ! i) value_model,
                rd_top_heads = unwrap_or [] (map_option (\<lambda>heads. heads ! i) (Option.bind value_model vo_top_heads))\<rparr>) rows)
         else None)"

text \<open>
  \<open>scoring::rank\<close>. With diversification the work runs in a task of its own, whose panic is an error of the request;
  otherwise a panic (\<open>None\<close>) is one of the handler.
\<close>

definition rank :: "ranker_math \<Rightarrow> debias_env \<Rightarrow> 'rows rank_context \<Rightarrow> rank_request \<Rightarrow> ranked_candidate list result option" where
  "rank rm denv ctx req =
     (let params = resolve_params req (cx_config ctx);
          compute_value_model = (rq_compute_value_model req \<or> is_some_and (\<lambda>p. fs_bool p ''ComputeValueModel'') params);
          vm_opt = value_model_compute rm denv req params (map_option cfg_author_bonus (cx_config ctx)) compute_value_model (cx_debias_model ctx)
      in case (cx_dpp ctx, dpp_enabled req params) of
           (Some (env, config), True) \<Rightarrow>
             (case Option.bind vm_opt (\<lambda>vm.
                Option.bind (rank_with_memo env req (served_pre_dpp_scores req vm) (request_dpp_config req params config) []) (\<lambda>served.
                ranked_candidates req served vm)) of
                Some out \<Rightarrow> Some (Ok out)
              | None \<Rightarrow> Some (Err ''DPP spawn_blocking failed''))
         | _ \<Rightarrow>
             Option.bind vm_opt (\<lambda>vm.
               map_option Ok (ranked_candidates req (map (unwrap_or f64_zero) (served_pre_dpp_scores req vm)) vm)))"

datatype rank_status = ResourceExhausted string | Internal string

text \<open>The handler: \<open>permit\<close> tells whether the semaphore has a permit left.\<close>

definition rank_handler ::
  "ranker_math \<Rightarrow> debias_env \<Rightarrow> 'rows rank_context \<Rightarrow> bool \<Rightarrow> rank_request \<Rightarrow> (rank_status + ranked_candidate list) option" where
  "rank_handler rm denv ctx permit req =
     (if \<not> permit then Some (Inl (ResourceExhausted ''Server at capacity, please retry''))
      else map_option (map_sum Internal id) (rank rm denv ctx req))"

section \<open>What the service answers\<close>

lemma length_exploration_bonuses [simp]: "length (exploration_bonuses rules memo cs) = length cs"
  by (induction rules memo cs rule: exploration_bonuses.induct) (simp_all add: Let_def split: option.split)

lemma length_scored_inputs [simp]: "length (scored_inputs rm req p rules) = length (rq_candidates req)"
  by (simp add: scored_inputs_def candidate_inputs_def set_author_exploration_bonuses_def set_user_video_continuation_def Let_def
      split: option.split prod.split)

lemma recenter_length: "recenter env now req p model inputs = Some out \<Longrightarrow> length out = length inputs"
  by (auto simp: recenter_def split: if_splits sum.splits)

text \<open>The output of the value model has one entry per candidate.\<close>

definition output_fits :: "rank_request \<Rightarrow> value_model_output \<Rightarrow> bool" where
  "output_fits req out \<longleftrightarrow> length (vo_weighted out) = length (rq_candidates req) \<and> length (vo_scores out) = length (rq_candidates req) \<and>
     is_none_or (\<lambda>heads. length heads = length (rq_candidates req)) (vo_top_heads out)"

lemma compute_total:
  obtains vs where "compute_value_scores powf w ctx cs = Some vs" "length (vs_weighted vs) = length cs" "length (vs_scores vs) = length cs"
  using compute_value_scores_total [of powf w ctx cs] by blast

lemma compute_or_fallback_total:
  "\<exists>out. compute_or_fallback rm denv req (Some p) rules model = Some (Inr out) \<and> output_fits req out"
proof -
  let ?w = "weights_from_params rm p (rq_viewer_id req)" and ?ctx = "scoring_context rm req p"
  let ?inputs = "scored_inputs rm req p rules"
  obtain raw where raw: "compute_value_scores (rm_powf rm) ?w ?ctx ?inputs = Some raw"
    "length (vs_weighted raw) = length (rq_candidates req)" "length (vs_scores raw) = length (rq_candidates req)"
    using compute_total [of "rm_powf rm" ?w ?ctx ?inputs] by auto
  show ?thesis
  proof (cases "recenter denv (rm_now_ms rm) req p model ?inputs")
    case None
    with raw show ?thesis by (auto simp: compute_or_fallback_def Let_def output_fits_def)
  next
    case (Some re)
    then have "length re = length (rq_candidates req)" using recenter_length by fastforce
    moreover obtain vs where "compute_value_scores (rm_powf rm) ?w ?ctx re = Some vs" "length (vs_weighted vs) = length re" "length (vs_scores vs) = length re"
      using compute_total .
    ultimately show ?thesis using raw Some by (auto simp: compute_or_fallback_def Let_def output_fits_def)
  qed
qed

lemma value_model_compute_total:
  "\<exists>vm. value_model_compute rm denv req params rules compute model = Some vm \<and>
     (vm = None \<longleftrightarrow> \<not> compute \<or> params = None) \<and> is_none_or (output_fits req) vm"
  using compute_or_fallback_total [of rm denv req _ rules model]
  by (cases params) (force simp: value_model_compute_def compute_or_fallback_def)+

lemma length_served_pre: "is_none_or (output_fits req) vm \<Longrightarrow> length (served_pre_dpp_scores req vm) = length (rq_candidates req)"
  by (cases vm) (simp_all add: served_pre_dpp_scores_def output_fits_def)

lemma ranked_candidates_total:
  assumes "is_none_or (output_fits req) vm" "length final = length (rq_candidates req)"
  shows "\<exists>out. ranked_candidates req final vm = Some out \<and> map rd_tweet_id out = map rc_tweet_id (rq_candidates req) \<and> map rd_score out = final"
proof -
  have "map (\<lambda>x. rc_tweet_id (fst (snd x))) (enumerate 0 (zip (rq_candidates req) final)) = map rc_tweet_id (rq_candidates req)"
    "map (\<lambda>x. snd (snd x)) (enumerate 0 (zip (rq_candidates req) final)) = final"
    using assms(2) by (auto intro!: nth_equalityI simp: nth_enumerate_eq)
  then show ?thesis
    using assms by (cases vm; cases "Option.bind vm vo_top_heads")
      (auto simp: ranked_candidates_def Let_def output_fits_def comp_def case_prod_beta)
qed

text \<open>The candidates that the diversification looks at: the best by score.\<close>

definition dpp_best :: "rank_request \<Rightarrow> f64 option list \<Rightarrow> dpp_config \<Rightarrow> rank_candidate list" where
  "dpp_best req scores config = map (\<lambda>(i, c, v). c) (take (max_selected_rank config) (sort_by dpp_order (dpp_scored req scores)))"

lemma dpp_inputs_ids: "map in_id (fst (dpp_inputs_loop env xs memo)) = map (\<lambda>(i, c, v). rc_tweet_id c) xs"
proof (induction xs arbitrary: memo)
  case (Cons x xs)
  obtain i c v where x: "x = (i, c, v)" by (metis prod_cases3)
  obtain e m memo' where "memo_resolve env (embedding_id c) memo = ((e, m), memo')" by (metis prod.exhaust)
  then show ?case using Cons [of memo'] x by (simp add: Let_def case_prod_beta)
qed simp

lemma rank_with_memo_sound:
  "\<exists>ids. rank_with_memo env req scores config memo =
      Some (map (\<lambda>(c, s). if rc_tweet_id c \<in> set ids then unwrap_or f64_zero s else f64_zero) (zip (rq_candidates req) scores)) \<and>
    length ids \<le> top_k config \<and> set ids \<subseteq> rc_tweet_id ` set (dpp_best req scores config)"
proof -
  obtain inputs memo' where inputs: "build_dpp_inputs env req scores config memo = (inputs, memo')" by force
  have ids: "map in_id inputs = map rc_tweet_id (dpp_best req scores config)"
    using dpp_inputs_ids [of env "take (max_selected_rank config) (sort_by dpp_order (dpp_scored req scores))" memo] inputs
    by (simp add: build_dpp_inputs_def dpp_best_def comp_def case_prod_beta)
  then have "length inputs = length (dpp_best req scores config)" by (metis length_map)
  then have "0 < max_selected_rank config \<or> inputs = []" by (cases "max_selected_rank config") (auto simp: dpp_best_def)
  then obtain results where results: "rescore env inputs (build_seed_input env req) config = Some results" "length results \<le> top_k config"
    "mset results \<subseteq># image_mset result_of (mset (dpp_pool config inputs))"
    using rescore_sound by blast
  have "set results \<subseteq> result_of ` set (dpp_pool config inputs)" using set_mset_mono [OF results(3)] by simp
  also have "\<dots> \<subseteq> result_of ` set inputs"
    unfolding dpp_pool_def by (metis image_mono set_sort_by set_take_subset)
  finally have "dr_id ` set results \<subseteq> in_id ` set inputs" by (auto simp: result_of_def)
  also have "\<dots> = rc_tweet_id ` set (dpp_best req scores config)" using ids by (metis list.set_map)
  finally show ?thesis
    using results inputs by (intro exI [of _ "map dr_id results"]) (simp add: rank_with_memo_def)
qed

text \<open>The answer of \<open>scoring::rank\<close>, in every configuration.\<close>

lemma rank_explained:
  "\<exists>vm out. rank rm denv ctx req = Some (Ok out) \<and> map rd_tweet_id out = map rc_tweet_id (rq_candidates req) \<and>
     value_model_compute rm denv req (resolve_params req (cx_config ctx)) (map_option cfg_author_bonus (cx_config ctx))
       (rq_compute_value_model req \<or> is_some_and (\<lambda>p. fs_bool p ''ComputeValueModel'') (resolve_params req (cx_config ctx)))
       (cx_debias_model ctx) = Some vm \<and>
     (vm \<noteq> None \<longleftrightarrow> (rq_compute_value_model req \<or> is_some_and (\<lambda>p. fs_bool p ''ComputeValueModel'') (resolve_params req (cx_config ctx)))
        \<and> cx_config ctx \<noteq> None) \<and>
     length (served_pre_dpp_scores req vm) = length (rq_candidates req) \<and>
     (case (cx_dpp ctx, dpp_enabled req (resolve_params req (cx_config ctx))) of
        (Some (env, config), True) \<Rightarrow>
          (\<exists>ids. map rd_score out = map (\<lambda>(c, s). if rc_tweet_id c \<in> set ids then unwrap_or f64_zero s else f64_zero)
               (zip (rq_candidates req) (served_pre_dpp_scores req vm)) \<and>
             length ids \<le> top_k (request_dpp_config req (resolve_params req (cx_config ctx)) config) \<and>
             set ids \<subseteq> rc_tweet_id ` set (dpp_best req (served_pre_dpp_scores req vm)
               (request_dpp_config req (resolve_params req (cx_config ctx)) config)))
      | _ \<Rightarrow> map rd_score out = map (unwrap_or f64_zero) (served_pre_dpp_scores req vm))"
proof -
  let ?params = "resolve_params req (cx_config ctx)"
  have params: "?params = None \<longleftrightarrow> cx_config ctx = None" by (simp add: resolve_params_def)
  obtain vm where vm: "value_model_compute rm denv req ?params (map_option cfg_author_bonus (cx_config ctx))
      (rq_compute_value_model req \<or> is_some_and (\<lambda>p. fs_bool p ''ComputeValueModel'') ?params) (cx_debias_model ctx) = Some vm"
    "vm = None \<longleftrightarrow> \<not> (rq_compute_value_model req \<or> is_some_and (\<lambda>p. fs_bool p ''ComputeValueModel'') ?params) \<or> ?params = None"
    "is_none_or (output_fits req) vm"
    using value_model_compute_total [of rm denv req ?params "map_option cfg_author_bonus (cx_config ctx)"
      "rq_compute_value_model req \<or> is_some_and (\<lambda>p. fs_bool p ''ComputeValueModel'') ?params" "cx_debias_model ctx"]
    by (elim exE conjE) (rule that)
  note len = length_served_pre [OF vm(3)]
  show ?thesis
  proof (cases "cx_dpp ctx \<noteq> None \<and> dpp_enabled req ?params")
    case True
    then obtain env config where dpp: "cx_dpp ctx = Some (env, config)" by auto
    let ?cfg = "request_dpp_config req ?params config" and ?pre = "served_pre_dpp_scores req vm"
    obtain ids where ids: "rank_with_memo env req ?pre ?cfg [] =
        Some (map (\<lambda>(c, s). if rc_tweet_id c \<in> set ids then unwrap_or f64_zero s else f64_zero) (zip (rq_candidates req) ?pre))"
      "length ids \<le> top_k ?cfg" "set ids \<subseteq> rc_tweet_id ` set (dpp_best req ?pre ?cfg)"
      using rank_with_memo_sound by blast
    let ?final = "map (\<lambda>(c, s). if rc_tweet_id c \<in> set ids then unwrap_or f64_zero s else f64_zero) (zip (rq_candidates req) ?pre)"
    have final: "length ?final = length (rq_candidates req)" using len by simp
    obtain out where "ranked_candidates req ?final vm = Some out"
      and out: "map rd_tweet_id out = map rc_tweet_id (rq_candidates req)" "map rd_score out = ?final"
      using ranked_candidates_total [OF vm(3) final] by (elim exE conjE) (rule that)
    then have "rank rm denv ctx req = Some (Ok out)" using vm(1) dpp True ids(1) by (simp add: rank_def Let_def)
    then show ?thesis
      using out vm(1,2) ids(2,3) dpp True len params by (intro exI [of _ vm] exI [of _ out] conjI) auto
  next
    case False
    obtain out where "ranked_candidates req (map (unwrap_or f64_zero) (served_pre_dpp_scores req vm)) vm = Some out"
      and out: "map rd_tweet_id out = map rc_tweet_id (rq_candidates req)" "map rd_score out = map (unwrap_or f64_zero) (served_pre_dpp_scores req vm)"
      using ranked_candidates_total [OF vm(3), of "map (unwrap_or f64_zero) (served_pre_dpp_scores req vm)"] len by auto
    then have "rank rm denv ctx req = Some (Ok out)" using vm(1) False by (auto simp: rank_def Let_def split: option.split bool.split)
    then show ?thesis
      using out vm(1,2) False len params by (intro exI [of _ vm] exI [of _ out] conjI) (auto split: option.split)
  qed
qed

text \<open>
  The scores that are served before diversification can be sorted: none is \<open>NaN\<close>. The comparators of the service
  (\<open>partial_cmp\<close> with \<open>Equal\<close> for an undefined comparison) are no total orders on \<open>NaN\<close>, for which the sorts of the library may panic.
\<close>

definition sortable_scores :: "ranker_math \<Rightarrow> debias_env \<Rightarrow> 'rows rank_context \<Rightarrow> rank_request \<Rightarrow> bool" where
  "sortable_scores rm denv ctx req \<longleftrightarrow>
     (case value_model_compute rm denv req (resolve_params req (cx_config ctx)) (map_option cfg_author_bonus (cx_config ctx))
        (rq_compute_value_model req \<or> is_some_and (\<lambda>p. fs_bool p ''ComputeValueModel'') (resolve_params req (cx_config ctx)))
        (cx_debias_model ctx) of
        Some vm \<Rightarrow> list_all (\<lambda>s. s \<noteq> Some F_NaN) (served_pre_dpp_scores req vm)
      | None \<Rightarrow> False)"

text \<open>
  C3. What the ranking service answers. A request without a permit is refused. A request with a permit and with sortable scores
  gets one entry per candidate, in the order of the request. The scores before diversification are those of the value model, or those of
  the caller exactly when the value model is off or has no configuration; none of them is \<open>NaN\<close>. Diversification sets scores to 0
  and changes nothing else; it keeps at most \<open>top_k\<close> ids, all of candidates among the best \<open>max_selected_rank\<close>. The store of embeddings
  and the model of habits are parameters: that an embedding has a dimension and that every head has its logits is assumed of them.
\<close>

theorem rank_answers:
  assumes "sortable_scores rm denv ctx req"
  shows "rank_handler rm denv ctx False req = Some (Inl (ResourceExhausted ''Server at capacity, please retry'')) \<and>
   (\<exists>vm out. rank_handler rm denv ctx True req = Some (Inr out) \<and> map rd_tweet_id out = map rc_tweet_id (rq_candidates req) \<and>
     value_model_compute rm denv req (resolve_params req (cx_config ctx)) (map_option cfg_author_bonus (cx_config ctx))
       (rq_compute_value_model req \<or> is_some_and (\<lambda>p. fs_bool p ''ComputeValueModel'') (resolve_params req (cx_config ctx)))
       (cx_debias_model ctx) = Some vm \<and>
     (vm \<noteq> None \<longleftrightarrow> (rq_compute_value_model req \<or> is_some_and (\<lambda>p. fs_bool p ''ComputeValueModel'') (resolve_params req (cx_config ctx)))
        \<and> cx_config ctx \<noteq> None) \<and>
     length (served_pre_dpp_scores req vm) = length (rq_candidates req) \<and>
     list_all (\<lambda>s. s \<noteq> Some F_NaN) (served_pre_dpp_scores req vm) \<and>
     (case (cx_dpp ctx, dpp_enabled req (resolve_params req (cx_config ctx))) of
        (Some (env, config), True) \<Rightarrow>
          (\<exists>ids. map rd_score out = map (\<lambda>(c, s). if rc_tweet_id c \<in> set ids then unwrap_or f64_zero s else f64_zero)
               (zip (rq_candidates req) (served_pre_dpp_scores req vm)) \<and>
             length ids \<le> top_k (request_dpp_config req (resolve_params req (cx_config ctx)) config) \<and>
             set ids \<subseteq> rc_tweet_id ` set (dpp_best req (served_pre_dpp_scores req vm)
               (request_dpp_config req (resolve_params req (cx_config ctx)) config)))
      | _ \<Rightarrow> map rd_score out = map (unwrap_or f64_zero) (served_pre_dpp_scores req vm)))"
proof -
  have refused: "rank_handler rm denv ctx False req = Some (Inl (ResourceExhausted ''Server at capacity, please retry''))"
    by (simp add: rank_handler_def)
  have answered: "rank rm denv ctx req = Some (Ok out) \<Longrightarrow> rank_handler rm denv ctx True req = Some (Inr out)" for out
    by (simp add: rank_handler_def)
  have sortable: "value_model_compute rm denv req (resolve_params req (cx_config ctx)) (map_option cfg_author_bonus (cx_config ctx))
      (rq_compute_value_model req \<or> is_some_and (\<lambda>p. fs_bool p ''ComputeValueModel'') (resolve_params req (cx_config ctx)))
      (cx_debias_model ctx) = Some vm \<Longrightarrow> list_all (\<lambda>s. s \<noteq> Some F_NaN) (served_pre_dpp_scores req vm)" for vm
    using assms by (simp add: sortable_scores_def)
  show ?thesis
    using rank_explained [of rm denv ctx req]
    by (elim exE conjE) (intro conjI [OF refused] exI conjI, rule answered, assumption+, rule sortable, assumption+)
qed

text \<open>A request with two scored candidates, diversification to one and no configuration of a value model.\<close>

definition ranked_one :: "u64 \<Rightarrow> f64 \<Rightarrow> rank_candidate" where
  "ranked_one i v =
     \<lparr>rc_tweet_id = i, rc_author_id = 5, rc_retweeted_tweet_id = 0, rc_score = Some v, rc_in_network = True, rc_is_retweet = False,
      rc_is_reply = False, rc_is_mutual_follow_author = False, rc_cold_start_lift_to_rank = None, rc_min_video_duration_ms = None,
      rc_phoenix_scores = None, rc_weighted_score = None, rc_semantic_ids = [], rc_experiment_payload = []\<rparr>"

definition ranked_request :: rank_request where
  "ranked_request =
     \<lparr>rq_viewer_id = 7, rq_candidates = [ranked_one 1 f64_one, ranked_one 2 (F_Fin 2)], rq_value_model_id = ''default'', rq_viewer = None,
      rq_viewer_following_count = 9, rq_compute_value_model = False, rq_topic_request = False, rq_include_top_heads = False,
      rq_dpp_params = None, rq_seed_tweet_id = 0, rq_experiment_payload = []\<rparr>"

definition ranked_context :: "unit rank_context" where
  "ranked_context =
     \<lparr>cx_dpp = Some (sample_dpp_env, \<lparr>top_k = 1, theta = f64_zero, max_selected_rank = 2, debug_viewer_id = 0\<rparr>), cx_debias_model = None, cx_config = None\<rparr>"

lemma ranked_sample:
  "rq_candidates ranked_request = [ranked_one 1 f64_one, ranked_one 2 (F_Fin 2)]" "cx_config ranked_context = None"
  "rq_compute_value_model ranked_request = False" "dpp_enabled ranked_request None" "rq_dpp_params ranked_request = None"
  "rc_tweet_id (ranked_one i v) = i" "rc_score (ranked_one i v) = Some v"
  "cx_dpp ranked_context = Some (sample_dpp_env, \<lparr>top_k = 1, theta = f64_zero, max_selected_rank = 2, debug_viewer_id = 0\<rparr>)"
  by (simp_all add: ranked_request_def ranked_context_def ranked_one_def dpp_enabled_def)

theorem rank_answers_witness:
  "\<forall>rm denv. \<exists>out (ids :: u64 list). rank_handler rm denv ranked_context True ranked_request = Some (Inr out) \<and>
     map rd_tweet_id out = [1, 2] \<and> length ids \<le> 1 \<and>
     map rd_score out = [if 1 \<in> set ids then f64_one else f64_zero, if 2 \<in> set ids then F_Fin 2 else f64_zero]"
proof (intro allI)
  fix rm denv
  have "sortable_scores rm denv ranked_context ranked_request"
    by (simp add: sortable_scores_def ranked_sample resolve_params_def value_model_compute_def served_pre_dpp_scores_def)
  note answer = rank_answers [OF this, unfolded ranked_sample resolve_params_def value_model_compute_def, simplified,
      unfolded served_pre_dpp_scores_def request_dpp_config_def ranked_sample, simplified]
  then obtain out and ids :: "u64 list" where "rank_handler rm denv ranked_context True ranked_request = Some (Inr out)"
      "map rd_tweet_id out = [1, 2]" "length ids \<le> Suc 0"
      "map rd_score out = [if 1 \<in> set ids then f64_one else f64_zero, if 2 \<in> set ids then F_Fin 2 else f64_zero]"
    by (elim conjE exE) (simp add: ranked_sample cong: if_cong, elim exE conjE, rule that, assumption+)
  then show "\<exists>out (ids :: u64 list). rank_handler rm denv ranked_context True ranked_request = Some (Inr out) \<and>
     map rd_tweet_id out = [1, 2] \<and> length ids \<le> 1 \<and>
     map rd_score out = [if 1 \<in> set ids then f64_one else f64_zero, if 2 \<in> set ids then F_Fin 2 else f64_zero]"
    by (intro exI [of _ out] exI [of _ ids]) simp
qed

section \<open>A switch without effect\<close>

text \<open>A configuration in which one switch has a fixed value.\<close>

definition quoted_check :: "bool \<Rightarrow> fs_params \<Rightarrow> fs_params" where
  "quoted_check b p = p\<lparr>fs_bool := (fs_bool p)(''EnableQuotedVqvDurationCheck'' := b)\<rparr>"

definition with_quoted_check :: "bool \<Rightarrow> 'rows rank_context \<Rightarrow> 'rows rank_context" where
  "with_quoted_check b ctx = ctx\<lparr>cx_config := map_option (\<lambda>cfg. cfg\<lparr>cfg_resolve := quoted_check b \<circ> cfg_resolve cfg,
     cfg_resolve_anonymous := quoted_check b (cfg_resolve_anonymous cfg)\<rparr>) (cx_config ctx)\<rparr>"

lemma quoted_check_reads [simp]:
  "fs_f64 (quoted_check b p) = fs_f64 p" "fs_int (quoted_check b p) = fs_int p" "fs_str (quoted_check b p) = fs_str p"
  "fs_bool (quoted_check b p) n = (if n = ''EnableQuotedVqvDurationCheck'' then b else fs_bool p n)"
  by (simp_all add: quoted_check_def)

lemma map_weights_quoted_check:
  "map_weights f (w\<lparr>w_enable_quoted_vqv_duration_check := b\<rparr>) = (map_weights f w)\<lparr>w_enable_quoted_vqv_duration_check := b\<rparr>"
  by (cases w) (simp add: map_weights_def)

lemma perturbed_quoted_check:
  "perturbed expf md5 sigma salt user (w\<lparr>w_enable_quoted_vqv_duration_check := b\<rparr>) =
   (perturbed expf md5 sigma salt user w)\<lparr>w_enable_quoted_vqv_duration_check := b\<rparr>"
  by (simp add: perturbed_def map_weights_quoted_check)

lemma weights_quoted_check:
  "weights_from_params rm (quoted_check b p) viewer = (weights_from_params rm p viewer)\<lparr>w_enable_quoted_vqv_duration_check := b\<rparr>"
  unfolding weights_from_params_def perturbed_quoted_check [symmetric] by simp

lemma quoted_check_sums [simp]:
  "positive_sum (w\<lparr>w_enable_quoted_vqv_duration_check := b\<rparr>) = positive_sum w"
  "negative_sum (w\<lparr>w_enable_quoted_vqv_duration_check := b\<rparr>) = negative_sum w"
  by (simp_all add: positive_sum_def negative_sum_def positive_weights_def negative_weights_def)

lemma quoted_check_terms [simp]: "weighted_terms (w\<lparr>w_enable_quoted_vqv_duration_check := b\<rparr>) = weighted_terms w"
  by (rule ext) (simp add: weighted_terms_def reply_weight_for_def dwell_weight_for_def)

lemmas value_model_reads = total_sum_def offset_score_def unoffset_score_def compute_weighted_score_def fuse_heads_def add_exploration_bonus_def
  oon_applies_def base_weighted_def pre_offset_scaled_def

lemma quoted_check_scores [simp]:
  "compute_value_scores powf (w\<lparr>w_enable_quoted_vqv_duration_check := b\<rparr>) ctx cs = compute_value_scores powf w ctx cs"
proof -
  let ?w = "w\<lparr>w_enable_quoted_vqv_duration_check := b\<rparr>"
  have "offset_score v ?w = offset_score v w" "unoffset_score v ?w = unoffset_score v w" "compute_weighted_score ?w c = compute_weighted_score w c"
    "oon_applies ?w c = oon_applies w c" for v c
    by (simp_all add: total_sum_def offset_score_def unoffset_score_def compute_weighted_score_def oon_applies_def Let_def
        cong: if_cong option.case_cong bool.case_cong)
  note reads = this
  have "base_weighted ?w = base_weighted w" "pre_offset_scaled ?w = pre_offset_scaled w" "add_exploration_bonus v e ?w = add_exploration_bonus v e w"
    "post_fusion_multipliers powf ?w ctx cs = post_fusion_multipliers powf w ctx cs" for v e
    by (auto simp: base_weighted_def pre_offset_scaled_def add_exploration_bonus_def post_fusion_multipliers_def reads fun_eq_iff split: option.split)
  then show ?thesis by (simp add: compute_value_scores_def compute_value_scores_with_adjustment_def Let_def cong: if_cong)
qed

lemma quoted_check_compute:
  "compute_or_fallback rm denv req (Some (quoted_check b p)) rules model = compute_or_fallback rm denv req (Some p) rules model"
proof -
  have inputs: "scored_inputs rm req (quoted_check b p) rules = scored_inputs rm req p rules"
    by (simp add: scored_inputs_def candidate_inputs_def weights_quoted_check Let_def cong: if_cong option.case_cong)
  have ctx: "scoring_context rm req (quoted_check b p) = scoring_context rm req p" by (simp add: scoring_context_def Let_def cong: if_cong)
  have debias: "recenter denv now req (quoted_check b p) model cs = recenter denv now req p model cs" for now cs
    by (simp add: recenter_def recentering_for_def debias_config_from_def cong: if_cong sum.case_cong option.case_cong)
  have "top_heads (w\<lparr>w_enable_quoted_vqv_duration_check := b\<rparr>) = top_heads w" for w by (rule ext) (simp add: top_heads_def)
  then show ?thesis by (simp add: compute_or_fallback_def inputs ctx debias weights_quoted_check Let_def cong: if_cong)
qed

lemma rank_quoted_check: "rank rm denv (with_quoted_check b ctx) req = rank rm denv ctx req"
proof -
  have resolved: "resolve_params req (cx_config (with_quoted_check b ctx)) = map_option (quoted_check b) (resolve_params req (cx_config ctx))"
    by (cases "cx_config ctx"; cases "rq_viewer req") (simp_all add: resolve_params_def with_quoted_check_def)
  have computed: "value_model_compute rm denv req (map_option (quoted_check b) params) rules compute model = value_model_compute rm denv req params rules compute model"
    for params rules compute model
    by (cases params) (simp_all add: value_model_compute_def quoted_check_compute)
  have switches: "dpp_enabled req (map_option (quoted_check b) params) = dpp_enabled req params"
    "is_some_and (\<lambda>p. fs_bool p ''ComputeValueModel'') (map_option (quoted_check b) params) = is_some_and (\<lambda>p. fs_bool p ''ComputeValueModel'') params"
    "request_dpp_config req (map_option (quoted_check b) params) config = request_dpp_config req params config" for params config
    by (cases params; simp add: dpp_enabled_def request_dpp_config_def)+
  have rest: "cx_dpp (with_quoted_check b ctx) = cx_dpp ctx" "cx_debias_model (with_quoted_check b ctx) = cx_debias_model ctx"
    "map_option cfg_author_bonus (cx_config (with_quoted_check b ctx)) = map_option cfg_author_bonus (cx_config ctx)"
    by (cases "cx_config ctx"; simp add: with_quoted_check_def)+
  show ?thesis unfolding rank_def Let_def resolved computed switches rest by (rule refl)
qed

end
