(* ===== verification/Author_Cold_Start.thy ===== *)
theory Author_Cold_Start
  imports Post_Candidate
begin

text \<open>
  The cold start of new posts (\<open>home-mixer/scorers/author_cold_start.rs\<close>): one fresh post of a small author that has
  been shown little may be lifted to a rank of the slate that is drawn at random. The random draws and the
  rules on authors are the record \<open>cold_start_env\<close>. Counters are left out.
\<close>

section \<open>Parameters\<close>

datatype viewer_arm = ArmHoldout | ArmControl | ArmTreatment

datatype author_corpus = NotBucketed | CorpusControl | CorpusTreatment

record cold_start_env =
  AuthorIsTreatment :: "u64 \<Rightarrow> bool"
  AuthorIsControl :: "u64 \<Rightarrow> bool"
  random_range :: "nat \<Rightarrow> nat \<Rightarrow> nat"
  beta_sample :: "f64 \<Rightarrow> f64 \<Rightarrow> nat \<Rightarrow> f64 option"

record cold_start_params =
  cp_enabled :: bool
  cp_arm :: viewer_arm
  cp_follower_cap :: int
  cp_impression_threshold :: nat
  cp_max_post_age :: duration
  cp_max_position_ratio :: f64
  cp_slot_min :: nat
  cp_slot_max :: nat
  cp_use_thompson_sampling :: bool
  cp_beta_alpha0 :: f64
  cp_beta_beta0 :: f64
  cp_impression_scale :: f64
  cp_ts_top_k :: nat

definition viewer_arm_of :: "fs_params \<Rightarrow> viewer_arm" where
  "viewer_arm_of p =
     (if fs_bool p ''PhoenixMoeCodivertViewerIsTreatment'' then ArmTreatment
      else if fs_bool p ''PhoenixMoeCodivertViewerIsControl'' then ArmControl else ArmHoldout)"

definition read_cold_start_params :: "fs_params \<Rightarrow> cold_start_params" where
  "read_cold_start_params p = \<lparr>cp_enabled = fs_bool p ''EnableViewerColdStart'', cp_arm = viewer_arm_of p,
     cp_follower_cap = fs_int p ''ColdStartFollowerCap'', cp_impression_threshold = nat (fs_int p ''ColdStartImpressionThreshold''),
     cp_max_post_age = nat (fs_int p ''ColdStartMaxPostAgeSecs'') * 1000000000,
     cp_max_position_ratio = fs_f64 p ''LowImpressionsMaxPositionRatio'',
     cp_slot_min = nat (fs_int p ''ColdStartSlotMin''), cp_slot_max = nat (fs_int p ''ColdStartSlotMax''),
     cp_use_thompson_sampling = fs_bool p ''EnableColdStartThompsonSampling'',
     cp_beta_alpha0 = fs_f64 p ''ColdStartBetaAlpha0'', cp_beta_beta0 = fs_f64 p ''ColdStartBetaBeta0'',
     cp_impression_scale = fs_f64 p ''ColdStartImpressionScale'', cp_ts_top_k = nat (fs_int p ''ColdStartTsTopK'')\<rparr>"

section \<open>Eligible posts\<close>

text \<open>The position of a candidate among those with a score other than 0, by falling score; \<open>usize::MAX\<close> for the rest.\<close>

definition index_order :: "f64 list \<Rightarrow> nat \<Rightarrow> nat \<Rightarrow> ordering" where
  "index_order scores a b =
     (case total_cmp (scores ! b) (scores ! a) of
        Equal \<Rightarrow> (if a < b then Less else if b < a then Greater else Equal)
      | other \<Rightarrow> other)"

definition positions_among_nonzero :: "f64 list \<Rightarrow> nat list \<times> nat" where
  "positions_among_nonzero scores =
     (let order = sort_by (index_order scores) (filter (\<lambda>i. \<not> f64_eq (scores ! i) f64_zero) [0..<length scores])
      in (fold (\<lambda>(position, i) positions. positions[i := position]) (enumerate 0 order) (replicate (length scores) (2 ^ 64 - 1)),
          length order))"

definition cold_start_base_eligible :: "post_candidate \<Rightarrow> int \<Rightarrow> bool" where
  "cold_start_base_eligible c follower_cap \<longleftrightarrow>
     in_reply_to_tweet_id c = None \<and> retweeted_tweet_id c = None \<and>
     is_some_and (\<lambda>followers. sint followers \<le> follower_cap) (author_followers_count c)"

text \<open>The table by author only avoids that the rules are asked twice.\<close>

definition corpus_of :: "cold_start_env \<Rightarrow> u64 \<Rightarrow> author_corpus" where
  "corpus_of env a = (if AuthorIsTreatment env a then CorpusTreatment else if AuthorIsControl env a then CorpusControl else NotBucketed)"

definition author_corpus_of :: "cold_start_env \<Rightarrow> post_candidate list \<Rightarrow> author_corpus list" where
  "author_corpus_of env cs = map (\<lambda>c. corpus_of env (author_id c)) cs"

definition cold_start_corpus_eligible :: "viewer_arm \<Rightarrow> author_corpus \<Rightarrow> bool" where
  "cold_start_corpus_eligible arm corpus =
     (case arm of ArmHoldout \<Rightarrow> True | ArmControl \<Rightarrow> corpus = CorpusControl | ArmTreatment \<Rightarrow> corpus = CorpusTreatment)"

definition cold_start_eligible ::
  "post_env \<Rightarrow> cold_start_params \<Rightarrow> post_candidate list \<Rightarrow> f64 list \<Rightarrow> author_corpus list \<Rightarrow> nat \<Rightarrow> bool" where
  "cold_start_eligible penv cp cs scores corpus i \<longleftrightarrow>
     (let (positions, nonzero) = positions_among_nonzero scores;
          max_slot = f64_as_usize (f64_mul (cp_max_position_ratio cp) (f64_of_int (int nonzero)));
          c = cs ! i
      in cold_start_base_eligible c (cp_follower_cap cp) \<and>
         cold_start_corpus_eligible (cp_arm cp) (corpus ! i) \<and>
         is_some_and (\<lambda>age. age \<le> cp_max_post_age cp) (duration_since_creation_opt penv (tweet_id c)) \<and>
         positions ! i < max_slot \<and>
         is_some_and (\<lambda>imp. unat imp < cp_impression_threshold cp) (view_count_on_home c))"

section \<open>The choice\<close>

text \<open>\<open>Iterator::max_by\<close>: the last of the greatest elements.\<close>

definition max_by :: "('a \<Rightarrow> 'a \<Rightarrow> ordering) \<Rightarrow> 'a list \<Rightarrow> 'a option" where
  "max_by cmp xs = (case xs of [] \<Rightarrow> None | x # rest \<Rightarrow> Some (fold (\<lambda>y m. if cmp m y = Greater then m else y) rest x))"

definition score_index_cmp :: "f64 list \<Rightarrow> nat \<Rightarrow> nat \<Rightarrow> ordering" where
  "score_index_cmp scores i j =
     (case total_cmp (scores ! i) (scores ! j) of
        Equal \<Rightarrow> (if i < j then Less else if j < i then Greater else Equal)
      | other \<Rightarrow> other)"

definition pick_by_score :: "nat list \<Rightarrow> f64 list \<Rightarrow> nat option" where
  "pick_by_score eligible scores = max_by (score_index_cmp scores) eligible"

definition sample_reward :: "cold_start_env \<Rightarrow> cold_start_params \<Rightarrow> post_candidate \<Rightarrow> nat \<Rightarrow> f64" where
  "sample_reward env cp c draw =
     (let n = f64_mul (cp_impression_scale cp) (f64_of_int (int (unat (unwrap_or 0 (view_count_on_home c)))));
          x = f64_min (f64_of_int (max 0 (sint (unwrap_or 0 (fav_count c))))) n;
          alpha = f64_add (cp_beta_alpha0 cp) x;
          beta = f64_add (cp_beta_beta0 cp) (f64_max (f64_sub n x) f64_zero)
      in unwrap_or (F_Fin (1 / 2)) (beta_sample env alpha beta draw))"

definition reward_order :: "nat \<times> f64 \<Rightarrow> nat \<times> f64 \<Rightarrow> ordering" where
  "reward_order a b =
     (case total_cmp (snd b) (snd a) of
        Equal \<Rightarrow> (if fst a < fst b then Less else if fst b < fst a then Greater else Equal)
      | other \<Rightarrow> other)"

definition pick_thompson :: "cold_start_env \<Rightarrow> cold_start_params \<Rightarrow> nat list \<Rightarrow> post_candidate list \<Rightarrow> f64 list \<Rightarrow> nat option" where
  "pick_thompson env cp eligible cs scores =
     (if eligible = [] then None
      else if cp_ts_top_k cp = 0 \<or> f64_le (cp_beta_alpha0 cp) f64_zero \<or> f64_le (cp_beta_beta0 cp) f64_zero then pick_by_score eligible scores
      else let sampled = sort_by reward_order (map (\<lambda>(draw, i). (i, sample_reward env cp (cs ! i) draw)) (enumerate 0 eligible))
           in max_by (score_index_cmp scores) (map fst (take (cp_ts_top_k cp) sampled)))"

definition cold_start_target :: "cold_start_env \<Rightarrow> cold_start_params \<Rightarrow> f64 list \<Rightarrow> (nat \<times> f64) option" where
  "cold_start_target env cp scores =
     (let ranked = sort_by (\<lambda>a b. total_cmp b a) scores;
          hi = min (cp_slot_max cp) (length ranked);
          lo = min (cp_slot_min cp) hi
      in if hi \<le> lo then None else let rank = random_range env lo hi in Some (rank, ranked ! rank))"

definition apply_cold_start ::
  "post_env \<Rightarrow> cold_start_env \<Rightarrow> cold_start_params \<Rightarrow> post_candidate list \<Rightarrow> f64 list \<Rightarrow> author_corpus list \<Rightarrow> f64 \<Rightarrow> f64 list \<times> nat option" where
  "apply_cold_start penv env cp cs scores corpus target =
     (let eligible = filter (cold_start_eligible penv cp cs scores corpus) [0..<length cs];
          best = (if cp_use_thompson_sampling cp then pick_thompson env cp eligible cs scores else pick_by_score eligible scores)
      in case best of
           None \<Rightarrow> (scores, None)
         | Some i \<Rightarrow> (scores[i := f64_max (scores ! i) target], Some i))"

record cold_start_outcome =
  co_scores :: "f64 list"
  co_lift :: "(nat \<times> nat) option"

definition lift_to_rank :: "cold_start_outcome \<Rightarrow> nat \<Rightarrow> 32 word option" where
  "lift_to_rank outcome i = (case co_lift outcome of Some (j, rank) \<Rightarrow> if j = i then Some (of_nat rank) else None | None \<Rightarrow> None)"

definition cold_start_decide ::
  "post_env \<Rightarrow> cold_start_env \<Rightarrow> scored_posts_query \<Rightarrow> post_candidate list \<Rightarrow> f64 list \<Rightarrow> cold_start_outcome" where
  "cold_start_decide penv env q cs scores =
     (let cp = read_cold_start_params (scoring_params (params q));
          corpus = (case cp_arm cp of ArmHoldout \<Rightarrow> replicate (length cs) NotBucketed | _ \<Rightarrow> author_corpus_of env cs)
      in if \<not> cp_enabled cp then \<lparr>co_scores = scores, co_lift = None\<rparr>
         else case cold_start_target env cp scores of
                Some (rank, target) \<Rightarrow>
                  let (lifted, i) = apply_cold_start penv env cp cs scores corpus target
                  in \<lparr>co_scores = lifted, co_lift = map_option (\<lambda>i. (i, rank)) i\<rparr>
              | None \<Rightarrow> \<lparr>co_scores = scores, co_lift = None\<rparr>)"

definition apply_with_decisions ::
  "post_env \<Rightarrow> cold_start_env \<Rightarrow> scored_posts_query \<Rightarrow> post_candidate list \<Rightarrow> f64 list \<Rightarrow> cold_start_outcome" where
  "apply_with_decisions penv env q cs scores =
     (if is_topic_request q then \<lparr>co_scores = scores, co_lift = None\<rparr> else cold_start_decide penv env q cs scores)"

section \<open>What is lifted\<close>

lemma max_by_mem: "max_by cmp xs = Some x \<Longrightarrow> x \<in> set xs"
proof -
  have "fold (\<lambda>y m. if cmp m y = Greater then m else y) ys z \<in> insert z (set ys)" for ys z
  proof (induction ys arbitrary: z)
    case (Cons y ys)
    show ?case using Cons [of z] Cons [of y] by auto
  qed simp
  then show "max_by cmp xs = Some x \<Longrightarrow> x \<in> set xs" by (fastforce simp: max_by_def split: list.splits)
qed

lemma pick_mem: "pick_by_score eligible scores = Some i \<Longrightarrow> i \<in> set eligible"
  "pick_thompson env cp eligible cs scores = Some i \<Longrightarrow> i \<in> set eligible"
proof -
  show *: "pick_by_score eligible scores = Some i \<Longrightarrow> i \<in> set eligible" for i by (simp add: pick_by_score_def max_by_mem)
  let ?sampled = "map (\<lambda>(draw, i). (i, sample_reward env cp (cs ! i) draw)) (enumerate 0 eligible)"
  have "fst ` set (take k (sort_by reward_order ?sampled)) \<subseteq> fst ` set ?sampled" for k
    using set_take_subset [of k "sort_by reward_order ?sampled", unfolded set_sort_by] by (rule image_mono)
  also have "fst ` set ?sampled \<subseteq> set eligible" by (auto simp: in_set_enumerate_eq)
  finally have sub: "set (map fst (take k (sort_by reward_order ?sampled))) \<subseteq> set eligible" for k by simp
  show "pick_thompson env cp eligible cs scores = Some i \<Longrightarrow> i \<in> set eligible"
    using * [of i] max_by_mem [of "score_index_cmp scores" "map fst (take (cp_ts_top_k cp) (sort_by reward_order ?sampled))" i]
      subsetD [OF sub [of "cp_ts_top_k cp"], of i]
    unfolding pick_thompson_def Let_def by (simp only: split: if_splits) blast+
qed

text \<open>The rules a lifted post meets, in terms of the query.\<close>

definition fresh_small_post :: "post_env \<Rightarrow> cold_start_env \<Rightarrow> cold_start_params \<Rightarrow> post_candidate \<Rightarrow> bool" where
  "fresh_small_post penv env cp c \<longleftrightarrow>
     in_reply_to_tweet_id c = None \<and> retweeted_tweet_id c = None \<and>
     is_some_and (\<lambda>followers. sint followers \<le> cp_follower_cap cp) (author_followers_count c) \<and>
     is_some_and (\<lambda>age. age \<le> cp_max_post_age cp) (duration_since_creation_opt penv (tweet_id c)) \<and>
     is_some_and (\<lambda>imp. unat imp < cp_impression_threshold cp) (view_count_on_home c) \<and>
     (case cp_arm cp of ArmHoldout \<Rightarrow> True | ArmControl \<Rightarrow> corpus_of env (author_id c) = CorpusControl
      | ArmTreatment \<Rightarrow> corpus_of env (author_id c) = CorpusTreatment)"

lemma cold_start_eligible_fresh:
  assumes "cold_start_eligible penv cp cs scores (case cp_arm cp of ArmHoldout \<Rightarrow> replicate (length cs) NotBucketed | _ \<Rightarrow> author_corpus_of env cs) i"
    "i < length cs"
  shows "fresh_small_post penv env cp (cs ! i)"
  using assms by (auto simp: cold_start_eligible_def Let_def fresh_small_post_def cold_start_base_eligible_def cold_start_corpus_eligible_def
      author_corpus_of_def split: viewer_arm.splits prod.splits)

lemma apply_cold_start_SomeD:
  assumes "apply_cold_start penv env cp cs scores corpus target = (lifted, Some i)"
  shows "i < length cs" "cold_start_eligible penv cp cs scores corpus i" "lifted = scores[i := f64_max (scores ! i) target]"
proof -
  let ?eligible = "filter (cold_start_eligible penv cp cs scores corpus) [0..<length cs]"
  have "i \<in> set ?eligible" "lifted = scores[i := f64_max (scores ! i) target]"
    using assms pick_mem(1) [of ?eligible scores i] pick_mem(2) [of env cp ?eligible cs scores i]
    unfolding apply_cold_start_def Let_def by (auto simp del: set_filter split: option.splits if_splits)
  then show "i < length cs" "cold_start_eligible penv cp cs scores corpus i" "lifted = scores[i := f64_max (scores ! i) target]" by auto
qed

lemma cold_start_target_SomeD:
  assumes "cold_start_target env cp scores = Some (rank, target)"
    and "\<And>lo hi. lo < hi \<Longrightarrow> lo \<le> random_range env lo hi \<and> random_range env lo hi < hi"
  shows "cp_slot_min cp \<le> rank" "rank < cp_slot_max cp" "rank < length scores" "target = sort_by (\<lambda>a b. total_cmp b a) scores ! rank"
  using assms(1) assms(2) [of "min (cp_slot_min cp) (min (cp_slot_max cp) (length scores))" "min (cp_slot_max cp) (length scores)"]
  by (auto simp: cold_start_target_def Let_def min_def split: if_splits)

text \<open>
  C7. A lift is what it is meant to be: without one the scores do not change; with one, the request is not for a
  topic, the post is a fresh original post of a small author with few impressions that the experiment
  allows, the rank is within the configured slots, no other score changes and at most that many scores stay above.
\<close>

theorem cold_start_lifts_eligible:
  assumes "\<And>lo hi. lo < hi \<Longrightarrow> lo \<le> random_range env lo hi \<and> random_range env lo hi < hi"
    and "length scores = length cs" "list_all (\<lambda>v. v \<noteq> F_NaN) scores"
  shows "case co_lift (apply_with_decisions penv env q cs scores) of
      None \<Rightarrow> co_scores (apply_with_decisions penv env q cs scores) = scores
    | Some (i, rank) \<Rightarrow>
        \<not> is_topic_request q \<and> i < length cs \<and>
        fresh_small_post penv env (read_cold_start_params (scoring_params (params q))) (cs ! i) \<and>
        cp_slot_min (read_cold_start_params (scoring_params (params q))) \<le> rank \<and>
        rank < cp_slot_max (read_cold_start_params (scoring_params (params q))) \<and>
        lifted_to scores i rank (co_scores (apply_with_decisions penv env q cs scores))"
proof (cases "is_topic_request q \<or> \<not> cp_enabled (read_cold_start_params (scoring_params (params q)))")
  case False
  define cp where "cp = read_cold_start_params (scoring_params (params q))"
  let ?corpus = "case cp_arm cp of ArmHoldout \<Rightarrow> replicate (length cs) NotBucketed | _ \<Rightarrow> author_corpus_of env cs"
  have run: "apply_with_decisions penv env q cs scores = (case cold_start_target env cp scores of
      Some (rank, target) \<Rightarrow> let (lifted, i) = apply_cold_start penv env cp cs scores ?corpus target
        in \<lparr>co_scores = lifted, co_lift = map_option (\<lambda>i. (i, rank)) i\<rparr>
    | None \<Rightarrow> \<lparr>co_scores = scores, co_lift = None\<rparr>)"
    unfolding cp_def using False by (simp add: apply_with_decisions_def cold_start_decide_def Let_def)
  show ?thesis
  proof (cases "cold_start_target env cp scores")
    case (Some t)
    then obtain rank target where t: "cold_start_target env cp scores = Some (rank, target)" by (cases t) auto
    note target = cold_start_target_SomeD [OF t assms(1)]
    obtain lifted best where best: "apply_cold_start penv env cp cs scores ?corpus target = (lifted, best)" by force
    show ?thesis
    proof (cases best)
      case None
      with best show ?thesis by (auto simp: run t apply_cold_start_def Let_def split: option.splits if_splits)
    next
      case (Some i)
      note apply_cold_start_SomeD [OF best [unfolded Some]]
      then show ?thesis
        using cold_start_eligible_fresh [of penv cp cs scores env i] lifted_to_max [OF assms(3), of rank i] assms(2) target False Some best
        by (simp add: run t flip: cp_def)
    qed
  qed (simp add: run)
qed (auto simp: apply_with_decisions_def cold_start_decide_def Let_def)

text \<open>Draws at the lower end of the range, no rule on authors, a first slot only.\<close>

definition sample_cold_start :: cold_start_env where
  "sample_cold_start = \<lparr>AuthorIsTreatment = (\<lambda>_. False), AuthorIsControl = (\<lambda>_. False), random_range = (\<lambda>lo hi. lo), beta_sample = (\<lambda>a b i. None)\<rparr>"

definition sample_cold_start_query :: scored_posts_query where
  "sample_cold_start_query = sample_query\<lparr>params := sample_params\<lparr>scoring_params :=
     \<lparr>fs_f64 = (\<lambda>_. F_Fin 1), fs_bool = (\<lambda>n. n = ''EnableViewerColdStart''),
      fs_int = (\<lambda>n. if n = ''ColdStartSlotMin'' then 0 else 100), fs_str = (\<lambda>_. [])\<rparr>\<rparr>\<rparr>"

definition sample_post_env :: post_env where
  "sample_post_env = \<lparr>duration_since_creation_opt = (\<lambda>i. Some 5), parse_request_context = (\<lambda>s. ForegroundTruncate), may_contain = (\<lambda>e i. False),
     tokenizer = (\<lambda>s. []), mutes_match = (\<lambda>ks ts. False), AuthorZeroFavCodivertIsTreatment = (\<lambda>a. False),
     AuthorZeroFavCodivertIsControl = (\<lambda>a. False)\<rparr>"

definition sample_fresh_post :: post_candidate where
  "sample_fresh_post = default_candidate\<lparr>author_followers_count := Some 1, view_count_on_home := Some 3\<rparr>"

lemma sample_is_lifted:
  "co_lift (apply_with_decisions sample_post_env sample_cold_start sample_cold_start_query [sample_fresh_post] [F_Fin 1]) = Some (0, 0)"
proof -
  have "sort_by cmp [x] = [x]" for cmp and x :: 'x by (simp add: sort_by_def)
  moreover have "positions_among_nonzero [F_Fin 1] = ([0], 1)"
    by (simp add: positions_among_nonzero_def sort_by_def f64_eq_def)
  ultimately show ?thesis
    by (simp add: apply_with_decisions_def cold_start_decide_def is_topic_request_def sample_cold_start_query_def sample_query_def sample_params_def
        read_cold_start_params_def viewer_arm_of_def cold_start_target_def apply_cold_start_def cold_start_eligible_def cold_start_base_eligible_def
        cold_start_corpus_eligible_def sample_post_env_def sample_fresh_post_def default_candidate_def sample_cold_start_def pick_by_score_def max_by_def
        f64_of_int_def f64_as_usize.simps)
qed

theorem cold_start_lifts_eligible_witness:
  "fresh_small_post sample_post_env sample_cold_start (read_cold_start_params (scoring_params (params sample_cold_start_query))) sample_fresh_post \<and>
   lifted_to [F_Fin 1] 0 0 (co_scores (apply_with_decisions sample_post_env sample_cold_start sample_cold_start_query [sample_fresh_post] [F_Fin 1]))"
proof -
  have "lo < hi \<Longrightarrow> lo \<le> random_range sample_cold_start lo hi \<and> random_range sample_cold_start lo hi < hi" for lo hi
    by (simp add: sample_cold_start_def)
  from cold_start_lifts_eligible [OF this, of "[F_Fin 1]" "[sample_fresh_post]" sample_post_env sample_cold_start_query]
  show ?thesis by (simp add: sample_is_lifted)
qed

end
