(* ===== verification/Content_Features.thy ===== *)
theory Content_Features
  imports Post_Candidate "HOL-Library.Sublist"
begin

text \<open>
  The content features of a post (\<open>home-mixer/models/content_features.rs\<close>). \<open>TextMetrics::of\<close> reads the bytes of a text once and keeps
  the weighted length and the number of links; a text is the list of its UTF-8 bytes. The one pass is proved equal to the
  reference that splits the text at white space, the one that the tests of the module use.
\<close>

section \<open>Texts\<close>

type_synonym u32 = "32 word"

definition cont_byte :: "nat \<Rightarrow> char" where
  "cont_byte n = char_of (128 + n mod 64)"

definition utf8_char :: "nat \<Rightarrow> string" where
  "utf8_char cp =
     (if cp < 128 then [char_of cp]
      else if cp < 2048 then [char_of (192 + cp div 64), cont_byte cp]
      else if cp < 65536 then [char_of (224 + cp div 4096), cont_byte (cp div 64), cont_byte cp]
      else [char_of (240 + cp div 262144), cont_byte (cp div 4096), cont_byte (cp div 64), cont_byte cp])"

definition utf8 :: "nat list \<Rightarrow> string" where
  "utf8 cps = concat (map utf8_char cps)"

definition is_code_point :: "nat \<Rightarrow> bool" where
  "is_code_point cp \<longleftrightarrow> cp < 55296 \<or> 57343 < cp \<and> cp < 1114112"

text \<open>\<open>text[i..].chars().next()\<close> with \<open>len_utf8\<close>: the first character, 0 for an empty text.\<close>

fun first_char :: "string \<Rightarrow> nat \<times> nat" where
  "first_char [] = (0, 1)"
| "first_char (b0 # rest) =
     (let n = (of_char b0 :: nat);
          c = (\<lambda>i. if i < length rest then (of_char (rest ! i) :: nat) mod 64 else 0)
      in if n < 128 then (n, 1)
         else if n < 224 then ((n mod 32) * 64 + c 0, 2)
         else if n < 240 then ((n mod 16) * 4096 + c 0 * 64 + c 1, 3)
         else ((n mod 8) * 262144 + c 0 * 4096 + c 1 * 64 + c 2, 4))"

definition is_ascii :: "char \<Rightarrow> bool" where
  "is_ascii b \<longleftrightarrow> (of_char b :: nat) < 128"

text \<open>\<open>char::is_whitespace\<close>: the property \<open>White_Space\<close>.\<close>

definition is_whitespace :: "nat \<Rightarrow> bool" where
  "is_whitespace cp \<longleftrightarrow> 9 \<le> cp \<and> cp \<le> 13 \<or> cp \<in> {0x20, 0x85, 0xA0, 0x1680, 0x2028, 0x2029, 0x202F, 0x205F, 0x3000} \<or>
     0x2000 \<le> cp \<and> cp \<le> 0x200A"

section \<open>Text metrics\<close>

definition URL_WEIGHTED_LEN :: u32 where "URL_WEIGHTED_LEN = 23"

definition SINGLE_WEIGHT_CODEPOINT_RANGES :: "(nat \<times> nat) list" where
  "SINGLE_WEIGHT_CODEPOINT_RANGES = [(0, 4351), (8192, 8205), (8208, 8223), (8242, 8247)]"

definition char_weight :: "nat \<Rightarrow> u32" where
  "char_weight cp =
     (if cp \<le> snd (SINGLE_WEIGHT_CODEPOINT_RANGES ! 0) then 1
      else if cp = 0xFE0E \<or> cp = 0xFE0F \<or> 0x1F3FB \<le> cp \<and> cp \<le> 0x1F3FF \<or> 0xE0020 \<le> cp \<and> cp \<le> 0xE007F then 0
      else if list_ex (\<lambda>(lo, hi). lo \<le> cp \<and> cp \<le> hi) SINGLE_WEIGHT_CODEPOINT_RANGES then 1
      else 2)"

definition is_url :: "string \<Rightarrow> bool" where
  "is_url token \<longleftrightarrow> prefix ''https://'' token \<or> prefix ''http://'' token"

record text_metrics =
  weighted_len :: u32
  external_urls :: u32

fun metrics_loop :: "string \<Rightarrow> bool \<Rightarrow> bool \<Rightarrow> u32 \<Rightarrow> u32 \<Rightarrow> u32 \<times> u32" where
  "metrics_loop [] in_token in_url weighted urls = (weighted, urls)"
| "metrics_loop (b # bytes) in_token in_url weighted urls =
     (let (weight, white, len) =
            (if is_ascii b then (1, 9 \<le> (of_char b :: nat) \<and> (of_char b :: nat) \<le> 13 \<or> (of_char b :: nat) = 32, 1)
             else let (ch, n) = first_char (b # bytes) in (char_weight ch, is_whitespace ch, n))
      in if white then metrics_loop (drop (len - 1) bytes) False in_url (weighted + weight) urls
         else
           let in_url' = (if in_token then in_url else is_url (b # bytes));
               urls' = (if in_token then urls else urls + (if in_url' then 1 else 0));
               weighted' = (if in_url' then weighted else weighted + weight)
           in metrics_loop (drop (len - 1) bytes) True in_url' weighted' urls')"

definition saturating_sub :: "u32 \<Rightarrow> u32 \<Rightarrow> u32" where
  "saturating_sub a b = (if b \<le> a then a - b else 0)"

definition text_metrics_of :: "string \<Rightarrow> u32 \<Rightarrow> text_metrics" where
  "text_metrics_of txt attachment_urls =
     (let (weighted, urls) = metrics_loop txt False False 0 0;
          ext = saturating_sub urls attachment_urls
      in \<lparr>weighted_len = weighted + URL_WEIGHTED_LEN * ext, external_urls = ext\<rparr>)"

section \<open>Content features\<close>

record content_features =
  cf_has_video :: bool
  cf_max_video_duration_ms :: u32
  cf_has_photo :: bool
  cf_media_count :: u32
  cf_weighted_text_len :: u32
  cf_newline_count :: u32
  cf_has_url :: bool

definition non_negative :: "i32 option \<Rightarrow> u32" where
  "non_negative v = (let n = unwrap_or 0 v in if 0 \<le> sint n then n else 0)"

definition newlines :: "string \<Rightarrow> u32" where
  "newlines txt = of_nat (length (filter (\<lambda>b. (of_char b :: nat) = 10) txt))"

definition build_content_features :: "post_candidate \<Rightarrow> content_features" where
  "build_content_features c =
     (let t = text_metrics_of (tweet_text c) (if unwrap_or False (has_media c) then 1 else 0)
      in \<lparr>cf_has_video = unwrap_or False (has_video_flag c), cf_max_video_duration_ms = non_negative (max_video_duration_ms c),
          cf_has_photo = unwrap_or False (has_photo c), cf_media_count = non_negative (media_count c),
          cf_weighted_text_len = weighted_len t, cf_newline_count = newlines (tweet_text c), cf_has_url = external_urls t > 0\<rparr>)"

definition build_quoted_content_features :: "post_candidate \<Rightarrow> content_features option" where
  "build_quoted_content_features c =
     map_option (\<lambda>_. let quoted_text = unwrap_or [] (quoted_tweet_text c);
          t = text_metrics_of quoted_text (if unwrap_or False (quoted_has_media c) then 1 else 0)
      in \<lparr>cf_has_video = unwrap_or False (quoted_has_video c), cf_max_video_duration_ms = non_negative (quoted_max_video_duration_ms c),
          cf_has_photo = unwrap_or False (quoted_has_photo c), cf_media_count = non_negative (quoted_media_count c),
          cf_weighted_text_len = weighted_len t, cf_newline_count = newlines quoted_text, cf_has_url = external_urls t > 0\<rparr>)
       (quoted_tweet_id c)"

section \<open>The reference\<close>

text \<open>The words of a text: \<open>split_whitespace\<close> over characters.\<close>

function split_whitespace :: "nat list \<Rightarrow> nat list list" where
  "split_whitespace [] = []"
| "split_whitespace (c # cs) =
     (if is_whitespace c then split_whitespace cs
      else (c # takeWhile (\<lambda>d. \<not> is_whitespace d) cs) # split_whitespace (dropWhile (\<lambda>d. \<not> is_whitespace d) cs))"
  by pat_completeness auto
termination by (relation "measure length") (auto simp: le_imp_less_Suc length_dropWhile_le)

definition text_weight :: "nat list \<Rightarrow> u32" where
  "text_weight cs = sum_list (map char_weight cs)"

definition reference_metrics :: "nat list \<Rightarrow> u32 \<Rightarrow> text_metrics" where
  "reference_metrics cs attachment_urls =
     (let tokens = split_whitespace cs;
          words = filter (\<lambda>t. \<not> is_url (utf8 t)) tokens;
          ext = saturating_sub (of_nat (length (filter (\<lambda>t. is_url (utf8 t)) tokens))) attachment_urls
      in \<lparr>weighted_len = text_weight (filter is_whitespace cs) + sum_list (map text_weight words) + URL_WEIGHTED_LEN * ext, external_urls = ext\<rparr>)"

section \<open>The pass over bytes is one over characters\<close>

lemma utf8_simps [simp]: "utf8 [] = []" "utf8 (c # cs) = utf8_char c @ utf8 cs" "utf8 (cs @ ds) = utf8 cs @ utf8 ds"
  by (simp_all add: utf8_def)

lemma div_bounds:
  fixes cp :: nat
  shows "cp < 2048 \<Longrightarrow> cp div 64 < 32" "cp < 65536 \<Longrightarrow> cp div 4096 < 16" "cp < 1114112 \<Longrightarrow> cp div 262144 < 8"
  by (simp_all add: less_mult_imp_div_less)

lemma digits3: "(cp div 4096) * 4096 + (cp div 64 mod 64) * 64 + cp mod 64 = (cp :: nat)"
proof -
  have "cp div 4096 = cp div 64 div 64" by (simp add: div_mult2_eq [symmetric])
  then have "(cp div 4096) * 64 + cp div 64 mod 64 = cp div 64" by simp
  then have "((cp div 4096) * 64 + cp div 64 mod 64) * 64 + cp mod 64 = cp" by simp
  then show ?thesis by (simp add: algebra_simps)
qed

lemma digits4: "(cp div 262144) * 262144 + (cp div 4096 mod 64) * 4096 + (cp div 64 mod 64) * 64 + cp mod 64 = (cp :: nat)"
proof -
  have "cp div 262144 = cp div 4096 div 64" by (simp add: div_mult2_eq [symmetric])
  then have "(cp div 262144) * 64 + cp div 4096 mod 64 = cp div 4096" by simp
  then have "((cp div 262144) * 64 + cp div 4096 mod 64) * 4096 + (cp div 64 mod 64) * 64 + cp mod 64 = cp"
    using digits3 [of cp] by simp
  then show ?thesis by (simp add: algebra_simps)
qed

lemma lead_mod:
  fixes x :: nat
  shows "x < 32 \<Longrightarrow> (192 + x) mod 32 = x" "x < 16 \<Longrightarrow> (224 + x) mod 16 = x" "x < 8 \<Longrightarrow> (240 + x) mod 8 = x" "(128 + x mod 64) mod 64 = x mod 64"
  using mod_add_left_eq [of 192 32 x] mod_add_left_eq [of 224 16 x] mod_add_left_eq [of 240 8 x] mod_add_left_eq [of 128 64 "x mod 64"] by simp_all

lemma first_char_utf8:
  assumes "cp < 1114112"
  shows "first_char (utf8_char cp @ rest) = (cp, length (utf8_char cp))"
proof -
  have cont: "(of_char (cont_byte n) :: nat) = 128 + n mod 64" for n
    by (simp add: cont_byte_def)
  consider "cp < 128" | "128 \<le> cp" "cp < 2048" | "2048 \<le> cp" "cp < 65536" | "65536 \<le> cp" by linarith
  then show ?thesis
  proof cases
    case 1
    then show ?thesis by (simp add: utf8_char_def)
  next
    case 2
    with div_bounds(1) [of cp] show ?thesis by (simp add: utf8_char_def cont lead_mod Let_def)
  next
    case 3
    with div_bounds(2) [of cp] show ?thesis using digits3 [of cp] by (simp add: utf8_char_def cont lead_mod Let_def)
  next
    case 4
    with div_bounds(3) [of cp] assms show ?thesis using digits4 [of cp] by (simp add: utf8_char_def cont lead_mod Let_def)
  qed
qed

lemma utf8_char_Cons:
  assumes "cp < 1114112"
  shows "\<exists>b bs. utf8_char cp = b # bs \<and> (is_ascii b \<longleftrightarrow> cp < 128) \<and> (cp < 128 \<longrightarrow> of_char b = cp \<and> bs = [])"
  using assms div_bounds [of cp] by (auto simp: utf8_char_def is_ascii_def)

fun char_loop :: "nat list \<Rightarrow> bool \<Rightarrow> bool \<Rightarrow> u32 \<Rightarrow> u32 \<Rightarrow> u32 \<times> u32" where
  "char_loop [] in_token in_url weighted urls = (weighted, urls)"
| "char_loop (c # cs) in_token in_url weighted urls =
     (if is_whitespace c then char_loop cs False in_url (weighted + char_weight c) urls
      else
        let in_url' = (if in_token then in_url else is_url (utf8 (c # cs)))
        in char_loop cs True in_url' (if in_url' then weighted else weighted + char_weight c)
             (if in_token then urls else urls + (if in_url' then 1 else 0)))"

lemma metrics_loop_utf8:
  "list_all is_code_point cs \<Longrightarrow> metrics_loop (utf8 cs) in_token in_url weighted urls = char_loop cs in_token in_url weighted urls"
proof (induction cs arbitrary: in_token in_url weighted urls)
  case (Cons c cs)
  then have c: "c < 1114112" by (auto simp: is_code_point_def)
  obtain b bs where b: "utf8_char c = b # bs" "is_ascii b \<longleftrightarrow> c < 128" "c < 128 \<Longrightarrow> of_char b = c \<and> bs = []"
    using utf8_char_Cons [OF c] by (elim exE conjE) (rule that, auto)
  have first: "first_char (b # bs @ utf8 cs) = (c, Suc (length bs))" using first_char_utf8 [OF c, of "utf8 cs"] b(1) by simp
  have "c < 128 \<Longrightarrow> char_weight c = 1 \<and> (is_whitespace c \<longleftrightarrow> 9 \<le> c \<and> c \<le> 13 \<or> c = 32)"
    by (auto simp: char_weight_def SINGLE_WEIGHT_CODEPOINT_RANGES_def is_whitespace_def)
  then show ?case
    using Cons b by (cases "c < 128") (auto simp: first Let_def simp del: first_char.simps)
qed simp

section \<open>The pass agrees with the reference\<close>

lemma text_weight_Cons [simp]: "text_weight [] = 0" "text_weight (c # cs) = char_weight c + text_weight cs"
  by (simp_all add: text_weight_def)

lemma char_loop_word:
  "list_all (\<lambda>c. \<not> is_whitespace c) t \<Longrightarrow>
   char_loop (t @ r) True in_url weighted urls = char_loop r True in_url (if in_url then weighted else weighted + text_weight t) urls"
  by (induction t arbitrary: weighted) (simp_all add: add.assoc)

lemma char_loop_boundary:
  "r = [] \<or> is_whitespace (hd r) \<Longrightarrow> char_loop r True in_url weighted urls = char_loop r False in_url weighted urls"
  by (cases r) auto

lemma whitespace_not_in_url:
  assumes "is_whitespace c"
  shows "hd (utf8_char c) \<notin> set ''https://'' \<and> utf8_char c \<noteq> []"
proof (cases "c < 128")
  case True
  then have "of_char (hd (utf8_char c)) = c" by (simp add: utf8_char_def)
  then show ?thesis using assms by (auto simp: is_whitespace_def utf8_char_def)
next
  case False
  moreover have "c < 1114112" using assms by (auto simp: is_whitespace_def)
  ultimately obtain b bs where "utf8_char c = b # bs" "\<not> is_ascii b" using utf8_char_Cons by metis
  then show ?thesis by (auto simp: is_ascii_def)
qed

lemma prefix_before_boundary:
  assumes "set p \<subseteq> set ''https://''" "r = [] \<or> is_whitespace (hd r)"
  shows "prefix p (utf8 t @ utf8 r) \<longleftrightarrow> prefix p (utf8 t)"
proof
  assume "prefix p (utf8 t @ utf8 r)"
  then consider "prefix p (utf8 t)" | p' where "p = utf8 t @ p'" "prefix p' (utf8 r)" "p' \<noteq> []"
    by (metis append_Nil2 prefix_append prefix_order.refl)
  then show "prefix p (utf8 t)"
  proof cases
    case 2
    then obtain w r' where r: "r = w # r'" "is_whitespace w" using assms(2) by (cases r) auto
    note w = whitespace_not_in_url [OF r(2)]
    then have "hd p' = hd (utf8_char w)" using 2 r by (cases p'; cases "utf8_char w") (auto simp: prefix_Cons)
    then have "hd (utf8_char w) \<in> set p" using 2 by (metis Un_iff hd_in_set set_append)
    with w assms(1) show ?thesis by blast
  qed simp
qed simp

lemma is_url_word: "r = [] \<or> is_whitespace (hd r) \<Longrightarrow> is_url (utf8 t @ utf8 r) \<longleftrightarrow> is_url (utf8 t)"
  using prefix_before_boundary [of "''https://''" r t] prefix_before_boundary [of "''http://''" r t] by (simp add: is_url_def)

lemma char_loop_reference:
  "char_loop cs False in_url weighted urls =
     (weighted + text_weight (filter is_whitespace cs) + sum_list (map text_weight (filter (\<lambda>t. \<not> is_url (utf8 t)) (split_whitespace cs))),
      urls + of_nat (length (filter (\<lambda>t. is_url (utf8 t)) (split_whitespace cs))))"
proof (induction cs arbitrary: in_url weighted urls rule: split_whitespace.induct)
  case (2 c cs)
  let ?t = "takeWhile (\<lambda>d. \<not> is_whitespace d) cs" and ?r = "dropWhile (\<lambda>d. \<not> is_whitespace d) cs"
  show ?case
  proof (cases "is_whitespace c")
    case True
    with 2 show ?thesis by (simp add: algebra_simps)
  next
    case False
    have r: "?r = [] \<or> is_whitespace (hd ?r)" using hd_dropWhile [of "\<lambda>d. \<not> is_whitespace d" cs] by auto
    have t: "list_all (\<lambda>c. \<not> is_whitespace c) ?t" by (auto simp: list_all_iff dest: set_takeWhileD)
    have split: "cs = ?t @ ?r" by simp
    have url: "is_url (utf8 (c # cs)) \<longleftrightarrow> is_url (utf8 (c # ?t))" using is_url_word [OF r, of "c # ?t"] by (metis append_Cons split utf8_simps(3))
    have white: "filter is_whitespace (c # cs) = filter is_whitespace ?r"
      using False t by (subst split) (simp add: list_all_iff filter_empty_conv del: takeWhile_dropWhile_id)
    have "char_loop (c # cs) False in_url weighted urls =
        char_loop (?t @ ?r) True (is_url (utf8 (c # ?t))) (if is_url (utf8 (c # ?t)) then weighted else weighted + char_weight c)
          (urls + (if is_url (utf8 (c # ?t)) then 1 else 0))"
      using False by (simp add: Let_def url del: utf8_simps)
    then show ?thesis
      using False unfolding char_loop_word [OF t] char_loop_boundary [OF r] 2(2) [OF False] white
      by (simp add: algebra_simps)
  qed
qed simp

text \<open>
  C37. The one pass over the bytes of a text computes what the reference of the module's tests computes from its characters: the weight of the
  white space and of the words that are no links, 23 for every link beyond those of attached media, and
  the number of these links, in 32-bit arithmetic.
\<close>

theorem text_metrics_reference:
  assumes "list_all is_code_point cs"
  shows "text_metrics_of (utf8 cs) attachment_urls = reference_metrics cs attachment_urls"
  by (simp add: text_metrics_of_def metrics_loop_utf8 [OF assms] char_loop_reference reference_metrics_def Let_def)

text \<open>A word, a link and U+3000 as a separator, which is white space of weight 2.\<close>

theorem text_metrics_reference_witness:
  "list_all is_code_point (map of_char ''see http://x'' @ [0x3000, 0x65E5]) \<and>
   text_metrics_of (utf8 (map of_char ''see http://x'' @ [0x3000, 0x65E5])) 0 = \<lparr>weighted_len = 31, external_urls = 1\<rparr>"
proof -
  let ?cs = "map of_char ''see http://x'' @ [0x3000, 0x65E5]"
  have ok: "list_all is_code_point ?cs" by (simp add: is_code_point_def)
  have "reference_metrics ?cs 0 = \<lparr>weighted_len = 31, external_urls = 1\<rparr>"
    by (simp add: reference_metrics_def is_whitespace_def is_url_def utf8_def utf8_char_def cont_byte_def char_weight_def char_of_def bit_0
        SINGLE_WEIGHT_CODEPOINT_RANGES_def saturating_sub_def URL_WEIGHTED_LEN_def)
  then show ?thesis using ok text_metrics_reference [OF ok, of 0] by simp
qed

end
