(* ===== verification/Vm_Ranker_Scorer.thy ===== *)
theory Vm_Ranker_Scorer
  imports Vm_Ranker Author_Cold_Start Content_Features
begin

text \<open>
  The scorer of the For You pipeline that ranks candidates (\<open>home-mixer/scorers/vm_ranker.rs\<close>, \<open>vm_ranker_request.rs\<close>,
  \<open>vm_ranker_debias_payload.rs\<close>, \<open>value_model.rs\<close>): it computes weighted scores and the cold start itself, asks the ranking
  service, and takes the scores of the answer; without an answer its own scores stay. The scorer is composed
  here with the model of the service. The encoders of the payloads and the route gate are the record
  \<open>scorer_env\<close>.
\<close>

section \<open>Local scores\<close>

definition weights_for :: "scored_posts_query \<Rightarrow> value_model_weights" where
  "weights_for q =
     (let p = scoring_params (params q) in
       \<lparr>w_favorite = fs_f64 p ''FavoriteWeight'', w_reply = fs_f64 p ''ReplyWeight'',
        w_retweet = fs_f64 p ''RetweetWeight'', w_photo_expand = fs_f64 p ''PhotoExpandWeight'',
        w_video_open = fs_f64 p ''VideoOpenWeight'', w_click = fs_f64 p ''ClickWeight'',
        w_open_link = fs_f64 p ''OpenLinkWeight'', w_profile_click = fs_f64 p ''ProfileClickWeight'',
        w_vqv = fs_f64 p ''VqvWeight'', w_share = fs_f64 p ''ShareWeight'',
        w_share_via_dm = fs_f64 p ''ShareViaDmWeight'', w_share_via_copy_link = fs_f64 p ''ShareViaCopyLinkWeight'',
        w_dwell = fs_f64 p ''DwellWeight'', w_quote = fs_f64 p ''QuoteWeight'',
        w_quoted_click = fs_f64 p ''QuotedClickWeight'', w_quoted_vqv = fs_f64 p ''QuotedVqvWeight'',
        w_follow_author = fs_f64 p ''FollowAuthorWeight'', w_post_unexplored = fs_f64 p ''PostUnexploredWeight'',
        w_post_unexplored_include_out_of_network = False, w_post_video = fs_f64 p ''PostVideoWeight'',
        w_grok_analyze = fs_f64 p ''GrokAnalyzeWeight'', w_not_interested = fs_f64 p ''NotInterestedWeight'',
        w_block_author = fs_f64 p ''BlockAuthorWeight'', w_mute_author = fs_f64 p ''MuteAuthorWeight'',
        w_report = fs_f64 p ''ReportWeight'', w_not_dwelled = fs_f64 p ''NotDwelledWeight'',
        w_cont_dwell_time = fs_f64 p ''ContDwellTimeWeight'',
        w_cont_click_dwell_time = fs_f64 p ''ContClickDwellTimeWeight'', w_video_continuation = f64_zero,
        w_user_video_continuation = f64_zero, w_profile_visit_secs = f64_zero,
        w_min_video_duration_ms = word_of_int (fs_int p ''MinVideoDurationMs''),
        w_enable_quoted_vqv_duration_check = fs_bool p ''EnableQuotedVqvDurationCheck'',
        w_bidirectional_follow_reply_weight_boost = fs_f64 p ''BidirectionalFollowReplyWeightBoost'',
        w_bidirectional_follow_dwell_weight_boost = fs_f64 p ''BidirectionalFollowDwellWeightBoost'',
        w_enable_author_diversity = False, w_author_diversity_decay = f64_one, w_author_diversity_floor = f64_one,
        w_oon_rescore_in_network_replies_retweets = False, w_multiplier_pre_offset = False\<rparr>)"

definition scoring_inputs :: "scored_posts_query \<Rightarrow> value_model_weights \<Rightarrow> post_candidate \<Rightarrow> candidate_scoring_inputs" where
  "scoring_inputs q w c =
     \<lparr>si_phoenix_scores = phoenix_scores_of c, si_author_id = author_id c, si_in_network = in_network c,
      si_is_reply = in_reply_to_tweet_id c \<noteq> None, si_is_retweet = retweeted_tweet_id c \<noteq> None,
      si_is_mutual_follow_author = (is_mutual_follow_author c = Some True),
      si_vqv_eligible = vqv_eligible q c (w_min_video_duration_ms w),
      si_quoted_vqv_eligible = quoted_vqv_eligible c (w_min_video_duration_ms w) (w_enable_quoted_vqv_duration_check w),
      si_cold_start_lift_to_rank = cold_start_lift_to_rank c, si_weighted_score = None,
      si_author_exploration_bonus = f64_zero, si_user_video_continuation_secs = None\<rparr>"

definition local_weighted_score :: "scored_posts_query \<Rightarrow> value_model_weights \<Rightarrow> post_candidate \<Rightarrow> f64" where
  "local_weighted_score q w c = fuse_heads w (scoring_inputs q w c)"

definition phoenix_scores_ranking_scorer :: "(scored_posts_query, post_candidate) scorer" where
  "phoenix_scores_ranking_scorer = \<lparr>sc_name = ''PhoenixScoresRankingScorer'', sc_enable = (\<lambda>_. True),
     sc_score = (\<lambda>q cs. map (\<lambda>c. let v = local_weighted_score q (weights_for q) c
        in Ok (default_candidate\<lparr>weighted_score := Some v, score := Some v\<rparr>)) cs),
     sc_update = (\<lambda>c scored. c\<lparr>weighted_score := weighted_score scored, score := score scored\<rparr>)\<rparr>"

record local_scores =
  ls_weighted :: "f64 list"
  ls_cold_start :: cold_start_outcome

definition compute_local_scores :: "post_env \<Rightarrow> cold_start_env \<Rightarrow> scored_posts_query \<Rightarrow> post_candidate list \<Rightarrow> local_scores" where
  "compute_local_scores penv cenv q cs =
     (let weighted = map (\<lambda>c. case weighted_score c of Some cached \<Rightarrow> cached | None \<Rightarrow> local_weighted_score q (weights_for q) c) cs
      in \<lparr>ls_weighted = weighted, ls_cold_start = apply_with_decisions penv cenv q cs weighted\<rparr>)"

section \<open>The request\<close>

record request_shape =
  rs_debias :: bool
  rs_pacing :: bool
  rs_history_topics :: bool

text \<open>The payload of a candidate; \<open>u64::try_from\<close> refuses a negative count.\<close>

record candidate_payload =
  pl_content_features :: "content_features option"
  pl_quoted_content_features :: "content_features option"
  pl_quoted_tweet_id :: u64
  pl_view_count :: "u64 option"
  pl_author_followers_count :: "u64 option"

definition candidate_payload_of :: "post_candidate \<Rightarrow> bool \<Rightarrow> bool \<Rightarrow> candidate_payload" where
  "candidate_payload_of c debias pacing =
     \<lparr>pl_content_features = (if debias then Some (build_content_features c) else None),
      pl_quoted_content_features = (if debias then build_quoted_content_features c else None),
      pl_quoted_tweet_id = (if debias then unwrap_or 0 (quoted_tweet_id c) else 0),
      pl_view_count = (if pacing then view_count c else None),
      pl_author_followers_count = (if pacing
        then Option.bind (author_followers_count c) (\<lambda>n. if 0 \<le> sint n then Some (scast n) else None) else None)\<rparr>"

record scorer_env =
  surface_ranked_following :: i32
  surface_ranking :: i32
  encode_request_payload :: "request_payload \<Rightarrow> columnar_bytes option \<Rightarrow> 8 word list"
  encode_candidate_payload :: "candidate_payload \<Rightarrow> 8 word list"
  xds_gate :: "scored_posts_query \<Rightarrow> string \<Rightarrow> bool"

definition request_shape_of :: "scored_posts_query \<Rightarrow> request_shape" where
  "request_shape_of q =
     (let p = scoring_params (params q)
      in \<lparr>rs_debias = ((\<not> has_cached_posts q \<or> is_under_the_hood_request q) \<and> fs_bool p ''VMRankerSendDebiasInputs''),
          rs_pacing = fs_bool p ''VMRankerSendPacingInputs'',
          rs_history_topics = (fs_bool p ''VMRankerSendHistoryTopics'' \<and> history_topics q \<noteq> None)\<rparr>)"

definition phoenix_scored_at_ms :: "post_candidate list \<Rightarrow> int option" where
  "phoenix_scored_at_ms cs =
     (case List.map_filter last_scored_at_ms cs of
        [] \<Rightarrow> None
      | t # ts \<Rightarrow> Some (sint (fold (\<lambda>u m. if m \<le> u then u else m) ts t)))"

definition scorer_request_payload :: "scorer_env \<Rightarrow> scored_posts_query \<Rightarrow> post_candidate list \<Rightarrow> bool \<Rightarrow> bool \<Rightarrow> 8 word list" where
  "scorer_request_payload env q cs debias topics =
     encode_request_payload env
       (if debias
        then \<lparr>rp_user_sequence = unwrap_or [] (columnar_scoring_sequence q),
              rp_engine_time_hint_ms = phoenix_scored_at_ms cs,
              rp_product_surface = (if in_network_only q then surface_ranked_following env else surface_ranking env),
              rp_client_app_id = scast (client_app_id q)\<rparr>
        else default_payload)
       (if topics then history_topics q else None)"

definition rank_candidate_of :: "scorer_env \<Rightarrow> request_shape \<Rightarrow> post_candidate \<Rightarrow> post_candidate \<Rightarrow> rank_candidate" where
  "rank_candidate_of env shape c loc =
     \<lparr>rc_tweet_id = tweet_id c, rc_author_id = author_id c, rc_retweeted_tweet_id = unwrap_or 0 (retweeted_tweet_id c),
      rc_score = score loc, rc_in_network = unwrap_or False (in_network c),
      rc_is_retweet = retweeted_tweet_id c \<noteq> None, rc_is_reply = in_reply_to_tweet_id c \<noteq> None,
      rc_is_mutual_follow_author = (is_mutual_follow_author c = Some True),
      rc_cold_start_lift_to_rank = cold_start_lift_to_rank loc, rc_min_video_duration_ms = min_video_duration_ms c,
      rc_phoenix_scores = Some (phoenix_scores_of c), rc_weighted_score = weighted_score c,
      rc_semantic_ids = unwrap_or [] (semantic_ids c),
      rc_experiment_payload = (if rs_debias shape \<or> rs_pacing shape
        then encode_candidate_payload env (candidate_payload_of c (rs_debias shape) (rs_pacing shape)) else [])\<rparr>"

definition viewer_context_proto :: "fs_recipient_inputs \<Rightarrow> viewer_context" where
  "viewer_context_proto i =
     \<lparr>vc_user_id = fi_user_id i, vc_country_code = fi_country_code i, vc_language_code = fi_language_code i,
      vc_client_app_id = fi_client_app_id i, vc_client_version = fi_client_version i, vc_user_roles = fi_user_roles i,
      vc_datacenter = fi_datacenter i, vc_has_phone_number = fi_has_phone_number i,
      vc_resurrection_time_ms = fi_resurrection_time_ms i, vc_product = fi_product i, vc_now_ms = fi_now_ms i,
      vc_fs_overrides = fi_fs_overrides i\<rparr>"

definition build_rank_request :: "scorer_env \<Rightarrow> request_shape \<Rightarrow> scored_posts_query \<Rightarrow> post_candidate list \<Rightarrow> post_candidate list \<Rightarrow> rank_request" where
  "build_rank_request env shape q cs locs =
     \<lparr>rq_viewer_id = user_id q, rq_candidates = map (\<lambda>(c, loc). rank_candidate_of env shape c loc) (zip cs locs),
      rq_value_model_id = ''dpp'', rq_viewer = map_option viewer_context_proto (fs_recipient_inputs_of q),
      rq_viewer_following_count = 0, rq_compute_value_model = True, rq_topic_request = is_topic_request q,
      rq_include_top_heads = is_under_the_hood_request q, rq_dpp_params = None, rq_seed_tweet_id = 0,
      rq_experiment_payload = (if rs_debias shape \<or> rs_history_topics shape
        then scorer_request_payload env q cs (rs_debias shape) (rs_history_topics shape) else [])\<rparr>"

section \<open>The scorer\<close>

datatype vm_ranker_cluster = Experiment1 | Experiment2 | Experiment3 | Experiment4 | Experiment5 | Experiment6

definition cluster_names :: "(string \<times> vm_ranker_cluster) list" where
  "cluster_names = [(''Experiment1'', Experiment1), (''Experiment2'', Experiment2), (''Experiment3'', Experiment3),
     (''Experiment4'', Experiment4), (''Experiment5'', Experiment5), (''Experiment6'', Experiment6)]"

definition parse_cluster :: "string \<Rightarrow> vm_ranker_cluster" where
  "parse_cluster s = unwrap_or Experiment1 (map_of cluster_names s)"

definition gate_name :: "vm_ranker_cluster \<Rightarrow> string" where
  "gate_name cluster = fst (hd (filter (\<lambda>(_, k). k = cluster) cluster_names))"

type_synonym vm_ranker_client = "vm_ranker_cluster \<Rightarrow> rank_request \<Rightarrow> string + ranked_candidate list"

definition vm_ranker_rank ::
  "scorer_env \<Rightarrow> vm_ranker_client \<Rightarrow> vm_ranker_client option \<Rightarrow> scored_posts_query \<Rightarrow> vm_ranker_cluster \<Rightarrow> rank_request \<Rightarrow> ranked_candidate list result" where
  "vm_ranker_rank env client xds_client q cluster req =
     (let direct = map_sum (\<lambda>e. ''VMRanker gRPC call failed: '' @ e) id (client cluster req)
      in case xds_client of
           None \<Rightarrow> direct
         | Some xds \<Rightarrow>
             if \<not> xds_gate env q (gate_name cluster) then direct
             else case xds cluster req of
                    Inr resp \<Rightarrow> Ok resp
                  | Inl e \<Rightarrow> if fs_bool (scoring_params (params q)) ''VMRankerEnableFallback'' then direct
                             else Err (''VMRanker xDS gRPC call failed (fallback disabled): '' @ e))"

text \<open>\<open>collect\<close> into an \<open>Option\<close>.\<close>

definition all_some :: "'a option list \<Rightarrow> 'a list option" where
  "all_some xs = (if list_all (\<lambda>x. x \<noteq> None) xs then Some (map the xs) else None)"

definition slate_contexts :: "scored_posts_query \<Rightarrow> post_candidate list \<Rightarrow> slate_context list option" where
  "slate_contexts q cs =
     or_else (all_some (map served_slate_context cs)) (if has_cached_posts q then all_some (map slate_context_of cs) else None)"

definition locally_scored :: "local_scores \<Rightarrow> slate_context list option \<Rightarrow> nat \<Rightarrow> post_candidate" where
  "locally_scored loc contexts i =
     default_candidate\<lparr>weighted_score := Some (ls_weighted loc ! i), score := Some (co_scores (ls_cold_start loc) ! i),
       cold_start_lift_to_rank := lift_to_rank (ls_cold_start loc) i, slate_context_of := map_option (\<lambda>s. s ! i) contexts\<rparr>"

text \<open>The answer as a table by id, of which an entry is used once.\<close>

fun take_returned :: "(post_candidate \<times> post_candidate) list \<Rightarrow> (u64 \<times> ranked_candidate) list \<Rightarrow> post_candidate list" where
  "take_returned [] table = []"
| "take_returned ((c, out) # rest) table =
     (case map_of table (tweet_id c) of
        Some sc \<Rightarrow>
          out\<lparr>score := Some (rd_score sc), weighted_score := or_else (rd_weighted_score sc) (weighted_score out),
             top_heads_of := map (\<lambda>h. (hc_head h, hc_contribution h, hc_share h)) (rd_top_heads sc)\<rparr>
          # take_returned rest (filter (\<lambda>(i, _). i \<noteq> tweet_id c) table)
      | None \<Rightarrow> out # take_returned rest table)"

definition vm_ranker_score ::
  "post_env \<Rightarrow> cold_start_env \<Rightarrow> scorer_env \<Rightarrow> vm_ranker_client \<Rightarrow> vm_ranker_client option \<Rightarrow> scored_posts_query \<Rightarrow> post_candidate list \<Rightarrow>
   post_candidate result list" where
  "vm_ranker_score penv cenv env client xds_client q cs =
     (let loc = compute_local_scores penv cenv q cs;
          scored = map (locally_scored loc (slate_contexts q cs)) [0..<length cs];
          cluster = parse_cluster (fs_str (scoring_params (params q)) ''VMRankerClusterId'');
          req = build_rank_request env (request_shape_of q) q cs scored
      in case vm_ranker_rank env client xds_client q cluster req of
           Inl _ \<Rightarrow> map Ok scored
         | Inr resp \<Rightarrow> map Ok (take_returned (zip cs scored) (rev (map (\<lambda>sc. (rd_tweet_id sc, sc)) resp))))"

definition vm_ranker_scorer ::
  "post_env \<Rightarrow> cold_start_env \<Rightarrow> scorer_env \<Rightarrow> vm_ranker_client \<Rightarrow> vm_ranker_client option \<Rightarrow> (scored_posts_query, post_candidate) scorer" where
  "vm_ranker_scorer penv cenv env client xds_client =
     \<lparr>sc_name = ''VMRanker'', sc_enable = (\<lambda>q. fs_bool (scoring_params (params q)) ''EnableRanking''),
      sc_score = vm_ranker_score penv cenv env client xds_client,
      sc_update = (\<lambda>c scored. c\<lparr>weighted_score := weighted_score scored, score := score scored,
         cold_start_lift_to_rank := cold_start_lift_to_rank scored, slate_context_of := slate_context_of scored,
         top_heads_of := top_heads_of scored\<rparr>)\<rparr>"

section \<open>What the scorer serves\<close>

interpretation vm_ranker_upd: identity_update "sc_update (vm_ranker_scorer penv cenv env client xds_client)" tweet_id for penv cenv env client xds_client
  by unfold_locales (simp add: vm_ranker_scorer_def)

interpretation phoenix_scores_upd: identity_update "sc_update phoenix_scores_ranking_scorer" tweet_id
  by unfold_locales (simp add: phoenix_scores_ranking_scorer_def)

lemma map_of_remove: "map_of (filter (\<lambda>(i, _). i \<noteq> k) table) j = (if j = k then None else map_of table j)"
  by (induction table) auto

text \<open>An entry of the answer goes to the first candidate with its id; the other candidates keep what they have.\<close>

definition returned_update :: "post_candidate \<Rightarrow> ranked_candidate \<Rightarrow> post_candidate" where
  "returned_update out sc =
     out\<lparr>score := Some (rd_score sc), weighted_score := or_else (rd_weighted_score sc) (weighted_score out),
        top_heads_of := map (\<lambda>h. (hc_head h, hc_contribution h, hc_share h)) (rd_top_heads sc)\<rparr>"

lemma length_take_returned [simp]: "length (take_returned ps table) = length ps"
  by (induction ps table rule: take_returned.induct) (auto split: option.split)

lemma take_returned_nth:
  "i < length ps \<Longrightarrow> take_returned ps table ! i =
     (if tweet_id (fst (ps ! i)) \<in> set (map (\<lambda>p. tweet_id (fst p)) (take i ps)) then snd (ps ! i)
      else case map_of table (tweet_id (fst (ps ! i))) of None \<Rightarrow> snd (ps ! i) | Some sc \<Rightarrow> returned_update (snd (ps ! i)) sc)"
proof (induction ps table arbitrary: i rule: take_returned.induct)
  case (2 c out rest table)
  show ?case
  proof (cases i)
    case 0
    then show ?thesis by (auto simp: returned_update_def split: option.split)
  next
    case (Suc j)
    then show ?thesis
      using 2 by (cases "map_of table (tweet_id c)") (auto simp: map_of_remove split: option.split)
  qed
qed simp

text \<open>The service behind the client: a status other than success is an error of the call.\<close>

definition status_message :: "rank_status \<Rightarrow> string" where
  "status_message st = (case st of ResourceExhausted msg \<Rightarrow> msg | Internal msg \<Rightarrow> msg)"

definition service_client :: "ranker_math \<Rightarrow> debias_env \<Rightarrow> 'rows rank_context \<Rightarrow> bool \<Rightarrow> vm_ranker_client" where
  "service_client rm denv ctx permit cluster req =
     (case rank_handler rm denv ctx permit req of Some answer \<Rightarrow> map_sum status_message id answer | None \<Rightarrow> Inl ''connection closed'')"

definition local_candidates :: "post_env \<Rightarrow> cold_start_env \<Rightarrow> scored_posts_query \<Rightarrow> post_candidate list \<Rightarrow> post_candidate list" where
  "local_candidates penv cenv q cs = map (locally_scored (compute_local_scores penv cenv q cs) (slate_contexts q cs)) [0..<length cs]"

lemma length_local_candidates [simp]: "length (local_candidates penv cenv q cs) = length cs"
  by (simp add: local_candidates_def)

lemma vm_ranker_score_ok:
  assumes "client (parse_cluster (fs_str (scoring_params (params q)) ''VMRankerClusterId''))
    (build_rank_request env (request_shape_of q) q cs (local_candidates penv cenv q cs)) = Inr resp"
  shows "vm_ranker_score penv cenv env client None q cs =
    map Ok (take_returned (zip cs (local_candidates penv cenv q cs)) (rev (map (\<lambda>sc. (rd_tweet_id sc, sc)) resp)))"
  using assms by (simp add: vm_ranker_score_def vm_ranker_rank_def Let_def local_candidates_def)

lemma vm_ranker_score_err:
  assumes "client (parse_cluster (fs_str (scoring_params (params q)) ''VMRankerClusterId''))
    (build_rank_request env (request_shape_of q) q cs (local_candidates penv cenv q cs)) = Inl e"
  shows "vm_ranker_score penv cenv env client None q cs = map Ok (local_candidates penv cenv q cs)"
  using assms by (simp add: vm_ranker_score_def vm_ranker_rank_def Let_def local_candidates_def)

lemma map_of_returned:
  "map rd_tweet_id answer = ids \<Longrightarrow>
   map_option rd_score (map_of (rev (map (\<lambda>sc. (rd_tweet_id sc, sc)) answer)) k) = map_of (rev (zip ids (map rd_score answer))) k"
  by (induction answer arbitrary: ids rule: rev_induct) (auto simp: zip_append)

text \<open>
  C6. The scorer composed with the ranking service. When the service has no permit left the candidates keep the scores computed locally,
  cold start included. Otherwise the service answers the request built from the candidates, one entry per candidate: the first
  candidate with an id takes the score of the last entry with that id, a repeated id keeps its local score, and
  the lift of the cold start and the slate context stay as computed locally.
\<close>

theorem vm_ranker_scores:
  "vm_ranker_score penv cenv env (service_client rm denv ctx False) None q cs = map Ok (local_candidates penv cenv q cs) \<and>
   (\<exists>answer served.
     rank_handler rm denv ctx True (build_rank_request env (request_shape_of q) q cs (local_candidates penv cenv q cs)) = Some (Inr answer) \<and>
     map rd_tweet_id answer = map tweet_id cs \<and>
     vm_ranker_score penv cenv env (service_client rm denv ctx True) None q cs = map Ok served \<and>
     map score served = map (\<lambda>i. if tweet_id (cs ! i) \<in> set (take i (map tweet_id cs)) then score (local_candidates penv cenv q cs ! i)
         else map_of (rev (zip (map tweet_id cs) (map rd_score answer))) (tweet_id (cs ! i))) [0..<length cs] \<and>
     map cold_start_lift_to_rank served = map cold_start_lift_to_rank (local_candidates penv cenv q cs) \<and>
     map slate_context_of served = map slate_context_of (local_candidates penv cenv q cs))"
proof -
  let ?loc = "local_candidates penv cenv q cs"
  let ?req = "build_rank_request env (request_shape_of q) q cs ?loc"
  have refused: "vm_ranker_score penv cenv env (service_client rm denv ctx False) None q cs = map Ok ?loc"
    by (rule vm_ranker_score_err) (simp add: service_client_def rank_handler_def)
  have ids: "map rc_tweet_id (rq_candidates ?req) = map tweet_id cs"
    by (rule nth_equalityI) (simp_all add: build_rank_request_def rank_candidate_of_def)
  obtain answer where "rank rm denv ctx ?req = Some (Ok answer)" and answer: "map rd_tweet_id answer = map tweet_id cs"
    using rank_explained [of rm denv ctx ?req] unfolding ids by (elim exE conjE) (rule that)
  then have handled: "rank_handler rm denv ctx True ?req = Some (Inr answer)" by (simp add: rank_handler_def)
  define table where "table = rev (map (\<lambda>sc. (rd_tweet_id sc, sc)) answer)"
  define served where "served = take_returned (zip cs ?loc) table"
  have run: "vm_ranker_score penv cenv env (service_client rm denv ctx True) None q cs = map Ok served"
    unfolding served_def table_def by (rule vm_ranker_score_ok) (simp add: service_client_def handled)
  have found: "map_option rd_score (map_of table k) = map_of (rev (zip (map tweet_id cs) (map rd_score answer))) k" for k
    unfolding table_def by (rule map_of_returned [OF answer])
  have "fst ` set table = set (map tweet_id cs)" unfolding table_def by (simp add: image_image flip: answer)
  then have entry: "map_of table (tweet_id (cs ! i)) \<noteq> None" if "i < length cs" for i
    using that by (simp add: map_of_eq_None_iff)
  have seen: "map (\<lambda>p. tweet_id (fst p)) (take i (zip cs ?loc)) = take i (map tweet_id cs)" for i
    by (simp add: take_map [symmetric] map_fst_zip comp_def flip: map_map [of tweet_id fst, unfolded comp_def])
  have at: "served ! i = (if tweet_id (cs ! i) \<in> set (take i (map tweet_id cs)) then ?loc ! i
      else returned_update (?loc ! i) (the (map_of table (tweet_id (cs ! i)))))" if "i < length cs" for i
    using that entry [OF that] take_returned_nth [of i "zip cs ?loc" table] unfolding seen served_def by auto
  have given: "Some (rd_score (the (map_of table (tweet_id (cs ! i))))) = map_option rd_score (map_of table (tweet_id (cs ! i)))" if "i < length cs" for i
    using entry [OF that] by (cases "map_of table (tweet_id (cs ! i))") simp_all
  have len: "length served = length cs" by (simp add: served_def)
  show ?thesis
    by (intro conjI exI, rule refused, rule handled, rule answer, rule run; rule nth_equalityI)
      (simp_all add: len at given returned_update_def flip: found)
qed

text \<open>
  C38. The switch \<open>EnableQuotedVqvDurationCheck\<close> limits the quoted-video head of the scores computed locally to quoted videos longer than
  the minimum. The ranking service reads the same switch and its answers do not depend on it: every candidate of a
  request counts as eligible.
\<close>

theorem ranker_ignores_quoted_check:
  "rank_handler rm denv (with_quoted_check b ctx) permit req = rank_handler rm denv ctx permit req \<and>
   list_all si_quoted_vqv_eligible (candidate_inputs req w) \<and>
   si_quoted_vqv_eligible (scoring_inputs q (weights_for q) c) =
     (if fs_bool (scoring_params (params q)) ''EnableQuotedVqvDurationCheck''
      then is_some_and (\<lambda>ms. word_of_int (fs_int (scoring_params (params q)) ''MinVideoDurationMs'') <s ms) (quoted_video_duration_ms c)
      else True)"
  by (simp add: rank_handler_def rank_quoted_check candidate_inputs_def from_rank_candidate_def list_all_iff scoring_inputs_def weights_for_def
      quoted_vqv_eligible_def Let_def)

end
