(* ===== verification/Sliding_Window.thy ===== *)
theory Sliding_Window
  imports Prelude
begin

text \<open>
  The sliding-window limiter of the enforcement service (\<open>abuse-enforcement-service/service-lib/src/sliding_window.rs\<close>): a shared counter
  is read on every attempt, its values are written to a store as snapshots, and a background task computes from the snapshots what the
  windows have used. The answers of the counter and of the store, and the clock, are arguments of the operations. An operation that waits for the store
  has two parts, before and after the answer, and \<open>sw_step\<close> interleaves the parts with all other operations. Strings are lists of characters
  below 256; counts are integers, which stay far inside 64 bits.
\<close>

section \<open>Strings\<close>

fun str_le :: "string \<Rightarrow> string \<Rightarrow> bool" where
  "str_le [] t = True"
| "str_le (a # s) [] = False"
| "str_le (a # s) (b # t) = ((of_char a :: nat) < of_char b \<or> a = b \<and> str_le s t)"

definition pad20 :: "nat \<Rightarrow> string" where
  "pad20 n = replicate (20 - length (show_nat n)) (CHR ''0'') @ show_nat n"

definition show_int :: "int \<Rightarrow> string" where
  "show_int n = (if n < 0 then CHR ''-'' # show_nat (nat (- n)) else show_nat (nat n))"

definition is_digit :: "char \<Rightarrow> bool" where
  "is_digit c \<longleftrightarrow> 48 \<le> (of_char c :: nat) \<and> (of_char c :: nat) \<le> 57"

definition digits_value :: "string \<Rightarrow> nat" where
  "digits_value s = foldl (\<lambda>n c. 10 * n + (of_char c - 48)) 0 s"

definition str_trim :: "string \<Rightarrow> string" where
  "str_trim s =
     (let white = (\<lambda>c. (of_char c :: nat) \<in> {9, 10, 11, 12, 13, 32, 133, 160})
      in rev (dropWhile white (rev (dropWhile white s))))"

definition parse_digits :: "string \<Rightarrow> nat option" where
  "parse_digits s = (if s \<noteq> [] \<and> list_all is_digit s then Some (digits_value s) else None)"

definition parse_i64 :: "string \<Rightarrow> int option" where
  "parse_i64 s =
     Option.bind (case s of
         c # t \<Rightarrow> if c = CHR ''-'' then map_option (\<lambda>n. - int n) (parse_digits t)
                  else if c = CHR ''+'' then map_option int (parse_digits t) else map_option int (parse_digits s)
       | [] \<Rightarrow> None)
     (\<lambda>n. if - (2 ^ 63) \<le> n \<and> n < 2 ^ 63 then Some n else None)"

section \<open>Windows\<close>

record window_spec =
  windows_secs :: "nat list"
  snapshot_interval_secs :: nat

definition WINDOW_SECS :: nat where "WINDOW_SECS = 86400"

definition SNAPSHOT_INTERVAL_SECS :: nat where "SNAPSHOT_INTERVAL_SECS = 60"

definition DAILY_CAP :: window_spec where
  "DAILY_CAP = \<lparr>windows_secs = [WINDOW_SECS], snapshot_interval_secs = SNAPSHOT_INTERVAL_SECS\<rparr>"

definition longest_secs :: "window_spec \<Rightarrow> nat" where
  "longest_secs spec = fold max (windows_secs spec) 0"

definition snapshot_ttl_secs :: "window_spec \<Rightarrow> nat" where
  "snapshot_ttl_secs spec = longest_secs spec + 3600"

definition snapshot_lkey :: "nat \<Rightarrow> nat \<Rightarrow> string" where
  "snapshot_lkey ts interval = pad20 (ts div interval * interval)"

definition window_usage :: "int list \<Rightarrow> (int \<times> int) option" where
  "window_usage counts =
     (case counts of
        [] \<Rightarrow> None
      | first # rest \<Rightarrow> let base = fold max rest first in Some (base - first, base))"

definition remaining :: "int \<Rightarrow> int \<Rightarrow> int" where
  "remaining cap used = max (cap - used) 0"

record cached =
  rolling_tail :: int
  baseline :: int
  present :: bool

definition default_cached :: cached where
  "default_cached = \<lparr>rolling_tail = 0, baseline = 0, present = False\<rparr>"

definition rolling :: "cached \<Rightarrow> int \<Rightarrow> int" where
  "rolling c c_now = rolling_tail c + max (c_now - baseline c) 0"

text \<open>The counts of a window: of the last row at or before its start, and of the rows after it.\<close>

definition window_counts :: "(string \<times> int) list \<Rightarrow> string \<Rightarrow> int list" where
  "window_counts rows start =
     (case find (\<lambda>(l, _). str_le l start) (rev rows) of Some (_, c) \<Rightarrow> [c] | None \<Rightarrow> [])
     @ map snd (filter (\<lambda>(l, _). \<not> str_le l start) rows)"

definition window_cache :: "(string \<times> int) list \<Rightarrow> nat \<Rightarrow> nat \<Rightarrow> nat \<Rightarrow> nat \<Rightarrow> int \<Rightarrow> cached" where
  "window_cache rows now window floor_secs interval lastc =
     (let start = snapshot_lkey (max floor_secs (now - window)) interval
      in case window_usage (window_counts rows start) of
           Some (tail, base) \<Rightarrow> \<lparr>rolling_tail = tail, baseline = base, present = True\<rparr>
         | None \<Rightarrow> \<lparr>rolling_tail = 0, baseline = lastc, present = False\<rparr>)"

section \<open>The limiter\<close>

record sw_state =
  last_count :: int
  cached_of :: "cached list"
  seeded :: bool
  dirty :: bool
  floor_ms :: nat

definition sw_new :: "window_spec \<Rightarrow> sw_state" where
  "sw_new spec = \<lparr>last_count = 0, cached_of = replicate (length (windows_secs spec)) default_cached, seeded = False, dirty = False, floor_ms = 0\<rparr>"

definition increment_and_rolling :: "sw_state \<Rightarrow> int option \<Rightarrow> sw_state \<times> int list option" where
  "increment_and_rolling st answer =
     (case answer of
        None \<Rightarrow> (st, None)
      | Some c_now \<Rightarrow>
          let st' = st\<lparr>last_count := c_now, dirty := True\<rparr>
          in if list_all present (cached_of st') then (st', Some (map (\<lambda>c. rolling c c_now) (cached_of st')))
             else let updated = map (\<lambda>c. if present c then c else c\<lparr>baseline := c_now\<rparr>) (cached_of st')
                  in (st'\<lparr>cached_of := updated\<rparr>, Some (map (\<lambda>c. rolling c c_now) updated)))"

definition try_record :: "bool \<Rightarrow> int \<Rightarrow> sw_state \<Rightarrow> int option \<Rightarrow> sw_state \<times> bool" where
  "try_record fail_open cap st answer =
     (let (st', r) = increment_and_rolling st answer
      in case r of
           Some usage \<Rightarrow> (st', if \<not> seeded st' then True else usage ! 0 < cap)
         | None \<Rightarrow> (st', fail_open))"

record sw_report =
  rep_allowed :: bool
  rep_used :: int
  rep_cap :: int
  rep_remaining :: int

definition record_report :: "int \<Rightarrow> sw_state \<Rightarrow> int option \<Rightarrow> sw_state \<times> sw_report option" where
  "record_report cap st answer =
     (let (st', r) = increment_and_rolling st answer
      in (st', map_option (\<lambda>usage. \<lparr>rep_allowed = (\<not> seeded st' \<or> usage ! 0 < cap), rep_used = usage ! 0, rep_cap = cap,
                rep_remaining = remaining cap (usage ! 0)\<rparr>) r))"

definition rolling_cached :: "sw_state \<Rightarrow> int list" where
  "rolling_cached st = map (\<lambda>c. rolling c (last_count st)) (cached_of st)"

definition sw_stats :: "sw_state \<Rightarrow> int \<Rightarrow> 32 word \<times> 32 word \<times> 32 word" where
  "sw_stats st cap =
     (let used = rolling_cached st ! 0
      in (word_of_int (max used 0), word_of_int (max cap 0), word_of_int (remaining cap used)))"

definition set_floor :: "sw_state \<Rightarrow> nat \<Rightarrow> sw_state \<times> bool" where
  "set_floor st new_floor =
     (if new_floor \<le> floor_ms st then (st, False)
      else (st\<lparr>floor_ms := new_floor,
              cached_of := map (\<lambda>_. \<lparr>rolling_tail = 0, baseline = last_count st, present = False\<rparr>) (cached_of st)\<rparr>, True))"

text \<open>After the scan (\<open>None\<close>: it failed) and one deletion per row, each with its result.\<close>

definition sw_reset :: "sw_state \<Rightarrow> (string \<times> string) list option \<Rightarrow> (string \<Rightarrow> bool) \<Rightarrow> sw_state \<times> nat option" where
  "sw_reset st scanned delete_ok =
     (case scanned of
        None \<Rightarrow> (st, None)
      | Some items \<Rightarrow>
          (st\<lparr>cached_of := map (\<lambda>c. c\<lparr>rolling_tail := 0, baseline := last_count st\<rparr>) (cached_of st), seeded := True\<rparr>,
           Some (length (filter (\<lambda>(l, _). delete_ok l) items))))"

text \<open>\<open>write_snapshot\<close>: the row to be written, and the end after the answer of the store.\<close>

definition write_begin :: "window_spec \<Rightarrow> nat \<Rightarrow> sw_state \<Rightarrow> (string \<times> int) option" where
  "write_begin spec now st =
     (if dirty st then Some (snapshot_lkey now (snapshot_interval_secs spec), last_count st) else None)"

definition write_end :: "int \<Rightarrow> bool \<Rightarrow> sw_state \<Rightarrow> sw_state" where
  "write_end c ok st = (if ok then st\<lparr>dirty := (last_count st \<noteq> c)\<rparr> else st)"

text \<open>\<open>refresh\<close>: the range to be scanned, and the end with the floor that was read before the scan.\<close>

definition refresh_range :: "window_spec \<Rightarrow> nat \<Rightarrow> string \<times> string" where
  "refresh_range spec now =
     (snapshot_lkey (now - longest_secs spec) (snapshot_interval_secs spec), snapshot_lkey now (snapshot_interval_secs spec))"

definition parse_rows :: "(string \<times> string) list \<Rightarrow> (string \<times> int) list" where
  "parse_rows items = List.map_filter (\<lambda>(l, v). map_option (Pair l) (parse_i64 (str_trim v))) items"

definition fresh_windows :: "window_spec \<Rightarrow> nat \<Rightarrow> nat \<Rightarrow> (string \<times> int) list \<Rightarrow> int \<Rightarrow> bool \<Rightarrow> cached list" where
  "fresh_windows spec now fl rows lastc persisted =
     map (\<lambda>w. let c = window_cache rows now w (fl div 1000) (snapshot_interval_secs spec) lastc
              in if persisted then c\<lparr>baseline := max (baseline c) lastc\<rparr> else c) (windows_secs spec)"

definition refresh_end :: "window_spec \<Rightarrow> nat \<Rightarrow> nat \<Rightarrow> (string \<times> string) list option \<Rightarrow> sw_state \<Rightarrow> sw_state" where
  "refresh_end spec now fl scanned st =
     (case scanned of
        None \<Rightarrow> st
      | Some items \<Rightarrow>
          if floor_ms st \<noteq> fl then st
          else st\<lparr>cached_of := fresh_windows spec now fl (parse_rows items) (last_count st) (\<not> dirty st), seeded := True\<rparr>)"

section \<open>Interleavings\<close>

text \<open>The state with the calls in flight: rows being written, refreshes that wait for their scan with the clock and floor they read.\<close>

record sw_world =
  sw :: sw_state
  writing :: "int list"
  refreshing :: "(nat \<times> nat) list"

inductive sw_step :: "window_spec \<Rightarrow> sw_world \<Rightarrow> sw_world \<Rightarrow> bool" for spec where
  sw_recorded: "sw_step spec g (g\<lparr>sw := fst (increment_and_rolling (sw g) answer)\<rparr>)"
| sw_floored: "sw_step spec g (g\<lparr>sw := fst (set_floor (sw g) f)\<rparr>)"
| sw_was_reset: "sw_step spec g (g\<lparr>sw := fst (sw_reset (sw g) scanned delete_ok)\<rparr>)"
| sw_write_began: "write_begin spec now (sw g) = Some (l, c) \<Longrightarrow> sw_step spec g (g\<lparr>writing := c # writing g\<rparr>)"
| sw_write_ended: "c \<in> set (writing g) \<Longrightarrow> sw_step spec g (g\<lparr>sw := write_end c ok (sw g), writing := remove1 c (writing g)\<rparr>)"
| sw_refresh_began: "sw_step spec g (g\<lparr>refreshing := (now, floor_ms (sw g)) # refreshing g\<rparr>)"
| sw_refresh_ended: "(now, f) \<in> set (refreshing g) \<Longrightarrow>
    sw_step spec g (g\<lparr>sw := refresh_end spec now f scanned (sw g), refreshing := remove1 (now, f) (refreshing g)\<rparr>)"

inductive sw_reachable :: "window_spec \<Rightarrow> sw_world \<Rightarrow> bool" for spec where
  sw_start: "sw_reachable spec \<lparr>sw = sw_new spec, writing = [], refreshing = []\<rparr>"
| sw_next: "sw_reachable spec g \<Longrightarrow> sw_step spec g g' \<Longrightarrow> sw_reachable spec g'"

inductive_cases sw_step_cases: "sw_step spec g g'"

section \<open>Keys are ordered as times\<close>

lemma digits_value_simps [simp]: "digits_value [] = 0" "digits_value (s @ [c]) = 10 * digits_value s + (of_char c - 48)"
  by (simp_all add: digits_value_def)

lemma digits_value_Cons: "digits_value (c # s) = (of_char c - 48) * 10 ^ length s + digits_value s"
proof (induction s rule: rev_induct)
  case (snoc d s)
  have "digits_value (c # s @ [d]) = 10 * digits_value (c # s) + (of_char d - 48)"
    using digits_value_simps(2) [of "c # s" d] by simp
  then show ?case using snoc by (simp add: algebra_simps)
qed (simp add: digits_value_def)

lemma show_nat_digits: "list_all is_digit (show_nat n) \<and> digits_value (show_nat n) = n \<and> show_nat n \<noteq> []"
proof (induction n rule: show_nat.induct)
  case (1 n)
  have small: "(of_char (char_of (48 + n mod 10)) :: nat) = 48 + n mod 10" by (simp add: less_imp_le [OF mod_less_divisor] mod_less)
  show ?case
  proof (cases "n < 10")
    case True
    then show ?thesis using small by (simp add: show_nat.simps [of n] is_digit_def digits_value_def)
  next
    case False
    have "10 * (n div 10) + n mod 10 = n" by simp
    then show ?thesis using 1 [OF False] small False
      by (simp add: show_nat.simps [of n] is_digit_def)
  qed
qed

lemma digits_value_less: "list_all is_digit s \<Longrightarrow> digits_value s < 10 ^ length s"
proof (induction s)
  case (Cons c s)
  then have "digits_value s < 10 ^ length s" "of_char c - 48 \<le> (9::nat)" by (auto simp: is_digit_def)
  then have "(of_char c - 48) * 10 ^ length s + digits_value s < 9 * 10 ^ length s + 10 ^ length s"
    by (meson add_le_less_mono mult_le_mono1)
  then show ?case by (simp add: digits_value_Cons)
qed simp

lemma str_le_digits:
  "length s = length t \<Longrightarrow> list_all is_digit s \<Longrightarrow> list_all is_digit t \<Longrightarrow> str_le s t \<longleftrightarrow> digits_value s \<le> digits_value t"
proof (induction s t rule: str_le.induct)
  case (3 a s b t)
  let ?p = "10 ^ length s"
  obtain x y where digits: "(of_char a :: nat) = 48 + x" "(of_char b :: nat) = 48 + y"
    using 3 by (auto simp: is_digit_def dest!: le_Suc_ex)
  have bounds: "digits_value s < ?p" "digits_value t < ?p" using 3 digits_value_less [of s] digits_value_less [of t] by simp_all
  have val: "digits_value (a # s) = x * ?p + digits_value s" "digits_value (b # t) = y * ?p + digits_value t"
    using 3 digits by (simp_all add: digits_value_Cons)
  consider "x < y" | "y < x" | "x = y" by linarith
  then show ?case
  proof cases
    case 1
    then have "Suc x * ?p \<le> y * ?p" by (intro mult_le_mono1) simp
    then show ?thesis using 1 val bounds digits by simp
  next
    case 2
    then have "Suc y * ?p \<le> x * ?p" by (intro mult_le_mono1) simp
    moreover have "a \<noteq> b" using 2 digits by auto
    ultimately show ?thesis using 2 val bounds digits by simp
  next
    case eq: 3
    then have "a = b" using digits by (metis of_char_eq_iff)
    then show ?thesis using 3 eq val by auto
  qed
qed auto

lemma length_show_nat: "n < 10 ^ Suc k \<Longrightarrow> length (show_nat n) \<le> Suc k"
proof (induction k arbitrary: n)
  case 0
  then show ?case by (simp add: show_nat.simps [of n])
next
  case (Suc k)
  then have "n div 10 < 10 ^ Suc k" by (simp add: less_mult_imp_div_less)
  with Suc.IH show ?case by (simp add: show_nat.simps [of n])
qed

lemma pad20_digits:
  assumes "n < 10 ^ 20"
  shows "length (pad20 n) = 20" "list_all is_digit (pad20 n)" "digits_value (pad20 n) = n"
proof -
  have zeros: "digits_value (replicate k (CHR ''0'') @ s) = digits_value s" for k s
    by (induction k) (simp_all add: digits_value_Cons)
  show "length (pad20 n) = 20" using length_show_nat [of n 19] assms by (simp add: pad20_def)
  show "list_all is_digit (pad20 n)" "digits_value (pad20 n) = n"
    using show_nat_digits [of n] by (auto simp: pad20_def zeros list_all_iff is_digit_def split: if_splits)
qed

lemma snapshot_lkey_order:
  assumes "a < 10 ^ 20" "b < 10 ^ 20"
  shows "str_le (snapshot_lkey a k) (snapshot_lkey b k) \<longleftrightarrow> a div k * k \<le> b div k * k"
proof -
  have "a div k * k < 10 ^ 20" "b div k * k < 10 ^ 20" using assms by (meson div_times_less_eq_dividend le_less_trans)+
  then show ?thesis by (simp add: snapshot_lkey_def str_le_digits pad20_digits)
qed

section \<open>A written count is read back\<close>

lemma str_trim_id:
  assumes "s \<noteq> []" "(of_char (hd s) :: nat) \<in> {33..126}" "(of_char (List.last s) :: nat) \<in> {33..126}"
  shows "str_trim s = s"
proof -
  have drop: "dropWhile (\<lambda>c. (of_char c :: nat) \<in> {9, 10, 11, 12, 13, 32, 133, 160}) t = t" if "t \<noteq> []" "(of_char (hd t) :: nat) \<in> {33..126}" for t
    using that by (cases t) auto
  have tail_kept: "dropWhile (\<lambda>c. (of_char c :: nat) \<in> {9, 10, 11, 12, 13, 32, 133, 160}) (rev s) = rev s"
    by (rule drop) (use assms in \<open>simp_all add: hd_rev\<close>)
  show ?thesis unfolding str_trim_def Let_def drop [OF assms(1,2)] tail_kept by simp
qed

lemma parse_show_int:
  assumes "- (2 ^ 63) \<le> n" "n < 2 ^ 63"
  shows "parse_i64 (str_trim (show_int n)) = Some n"
proof -
  have digit: "is_digit c \<Longrightarrow> (of_char c :: nat) \<in> {33..126} \<and> c \<noteq> CHR ''-'' \<and> c \<noteq> CHR ''+''" for c by (auto simp: is_digit_def)
  note show_nat_digits [of "nat n"] show_nat_digits [of "nat (- n)"]
  note ds = this
  have ends: "is_digit (hd s) \<and> is_digit (List.last s)" if "list_all is_digit s" "s \<noteq> []" for s
    using that by (simp add: list_all_iff)
  have trim: "str_trim (show_int n) = show_int n"
    using ds ends [of "show_nat (nat n)"] ends [of "show_nat (nat (- n))"] digit
    by (intro str_trim_id) (auto simp: show_int_def)
  show ?thesis
  proof (cases "n < 0")
    case True
    then show ?thesis using ds assms trim by (simp add: show_int_def parse_i64_def parse_digits_def)
  next
    case False
    obtain c t where ct: "show_nat (nat n) = c # t" using ds by (cases "show_nat (nat n)") auto
    then have "is_digit c" using ds by simp
    then show ?thesis using False ds assms trim digit [of c] ct by (auto simp: show_int_def parse_i64_def parse_digits_def)
  qed
qed

section \<open>What a window has used\<close>

text \<open>The sum of the steps up, which \<open>window_usage\<close> replaces: it agrees on a counter that only grows and is never below.\<close>

fun steps_up :: "int list \<Rightarrow> int" where
  "steps_up (a # b # cs) = max (b - a) 0 + steps_up (b # cs)"
| "steps_up _ = 0"

lemma fold_max_eq: "fold max cs c = Max (set (c # cs))" for c :: int
  by (rule Max.set_eq_fold [symmetric])

lemma steps_up_nonneg: "0 \<le> steps_up cs"
  by (induction cs rule: steps_up.induct) simp_all

lemma window_usage_undercounts: "fold max cs c - c \<le> steps_up (c # cs)"
proof (induction cs arbitrary: c)
  case (Cons b cs)
  have "fold max (b # cs) c = max c (fold max cs b)" unfolding fold_max_eq by simp
  then show ?case using Cons [of b] steps_up_nonneg [of "b # cs"] by simp
qed simp

lemma window_usage_sorted: "sorted (c # cs) \<Longrightarrow> window_usage (c # cs) = Some (steps_up (c # cs), List.last (c # cs))"
proof (induction cs arbitrary: c)
  case (Cons b cs)
  then have "c \<le> b" "sorted (b # cs)" by simp_all
  then show ?case using Cons.IH [of b] by (simp add: window_usage_def Let_def max_absorb2)
qed (simp add: window_usage_def)

text \<open>The count at the start of a window: of the last row at or before the start, else of the first row.\<close>

definition start_count :: "(string \<times> int) list \<Rightarrow> string \<Rightarrow> int" where
  "start_count rows start = (case find (\<lambda>(l, _). str_le l start) (rev rows) of Some (_, c) \<Rightarrow> c | None \<Rightarrow> snd (hd rows))"

lemma find_mem: "find p xs = Some x \<Longrightarrow> x \<in> set xs"
  by (auto simp: find_Some_iff)

lemma window_counts_usage:
  assumes "rows \<noteq> []" "sorted (map snd rows)"
  shows "window_usage (window_counts rows start) = Some (snd (List.last rows) - start_count rows start, snd (List.last rows))"
proof -
  have le: "snd r \<le> snd (List.last rows)" if "r \<in> set rows" for r
    using assms that by (cases rows rule: rev_cases) (auto simp: sorted_append)
  have found: "(l, c) \<in> set rows" if "find (\<lambda>(l, _). str_le l start) (rev rows) = Some (l, c)" for l c
    using find_mem [OF that] by simp
  have sub: "set (window_counts rows start) \<subseteq> snd ` set rows"
    by (auto simp: window_counts_def split: option.split) (drule found [OF sym], force)
  obtain ys l c where rows: "rows = ys @ [(l, c)]" using assms(1) by (metis prod.exhaust rev_exhaust)
  have last_in: "c \<in> set (window_counts rows start)" by (simp add: rows window_counts_def)
  have first: "\<exists>rest. window_counts rows start = start_count rows start # rest"
  proof (cases "find (\<lambda>(l, _). str_le l start) (rev rows)")
    case None
    then have "filter (\<lambda>(l, _). \<not> str_le l start) rows = rows" by (auto simp: find_None_iff filter_id_conv)
    with None assms(1) show ?thesis by (cases rows) (auto simp: window_counts_def start_count_def)
  qed (auto simp: window_counts_def start_count_def)
  then obtain rest where rest: "window_counts rows start = start_count rows start # rest" by blast
  have "fold max rest (start_count rows start) = Max (set (window_counts rows start))" unfolding rest by (rule fold_max_eq)
  also have "\<dots> = c"
  proof (rule Max_eqI)
    fix y
    assume "y \<in> set (window_counts rows start)"
    then obtain r where "r \<in> set rows" "y = snd r" using sub by blast
    with le [of r] show "y \<le> c" by (simp add: rows)
  qed (use last_in in simp_all)
  finally have "fold max rest (start_count rows start) = c" .
  moreover have "snd (List.last rows) = c" by (simp add: rows)
  ultimately show ?thesis by (simp add: rest window_usage_def)
qed

text \<open>
  C19. Usage is exact while the shared counter only grows. After a refresh over the scanned rows, an attempt that reads the count c finds in every window
  c less the count at the start of the window, which is the later of the floor and the window's length ago; the
  pod's own count must be in the rows or not yet be written.
\<close>

theorem refreshed_usage_exact:
  assumes "parse_rows items = rows" "rows \<noteq> []" "sorted (map snd rows)" "snd (List.last rows) \<le> c"
    and "dirty st \<or> last_count st \<le> snd (List.last rows)"
  shows "snd (increment_and_rolling (refresh_end spec now (floor_ms st) (Some items) st) (Some c)) =
    Some (map (\<lambda>w. c - start_count rows (snapshot_lkey (max (floor_ms st div 1000) (now - w)) (snapshot_interval_secs spec))) (windows_secs spec))"
proof -
  have "fresh_windows spec now (floor_ms st) rows (last_count st) (\<not> dirty st) =
    map (\<lambda>w. \<lparr>rolling_tail = snd (List.last rows) - start_count rows (snapshot_lkey (max (floor_ms st div 1000) (now - w)) (snapshot_interval_secs spec)),
      baseline = snd (List.last rows), present = True\<rparr>) (windows_secs spec)"
    using assms(5) by (auto simp: fresh_windows_def window_cache_def window_counts_usage [OF assms(2,3)] Let_def)
  then show ?thesis
    using assms(1,4) by (simp add: refresh_end_def increment_and_rolling_def list_all_iff rolling_def Let_def)
qed

text \<open>Two rows an hour and ten minutes old, in windows of an hour and a day.\<close>

definition hour_and_day :: window_spec where
  "hour_and_day = \<lparr>windows_secs = [3600, 86400], snapshot_interval_secs = 60\<rparr>"

definition sample_items :: "(string \<times> string) list" where
  "sample_items = [(snapshot_lkey 993000 60, show_int 10), (snapshot_lkey 999000 60, show_int 20)]"

lemma sample_rows: "parse_rows sample_items = [(snapshot_lkey 993000 60, 10), (snapshot_lkey 999000 60, 20)]"
  by (simp add: sample_items_def parse_rows_def parse_show_int map_filter_simps)

theorem refreshed_usage_exact_witness:
  "snd (increment_and_rolling (refresh_end hour_and_day 1000000 0 (Some sample_items) (sw_new hour_and_day\<lparr>dirty := True\<rparr>)) (Some 21)) = Some [11, 11]"
proof -
  let ?st = "sw_new hour_and_day\<lparr>dirty := True\<rparr>"
  let ?rows = "[(snapshot_lkey 993000 60, 10), (snapshot_lkey 999000 60, 20)] :: (string \<times> int) list"
  have "start_count ?rows (snapshot_lkey 996400 60) = 10" "start_count ?rows (snapshot_lkey 913600 60) = 10"
    using snapshot_lkey_order [of 993000 996400 60] snapshot_lkey_order [of 999000 996400 60]
      snapshot_lkey_order [of 993000 913600 60] snapshot_lkey_order [of 999000 913600 60]
    by (simp_all add: start_count_def)
  then show ?thesis
    using refreshed_usage_exact [OF sample_rows, of 21 ?st hour_and_day 1000000]
    by (simp add: sw_new_def hour_and_day_def)
qed

section \<open>The cap\<close>

fun run_records :: "bool \<Rightarrow> int \<Rightarrow> sw_state \<Rightarrow> int list \<Rightarrow> sw_state \<times> nat" where
  "run_records fail_open cap st [] = (st, 0)"
| "run_records fail_open cap st (c # cs) =
     (let (st', ok) = try_record fail_open cap st (Some c); (st'', n) = run_records fail_open cap st' cs
      in (st'', (if ok then Suc n else n)))"

text \<open>
  Between two refreshes the attempts of all pods get different counts. Of the attempts that a limiter answers which is seeded, whose windows all have
  rows and whose base is not ahead of its count, so many are admitted that the usage with them stays below the cap: at most one less than the cap per window, and none once the usage
  has reached it. (A limiter that is not seeded admits every attempt.)
\<close>

lemma cap_is_kept:
  assumes "seeded st" "list_all present (cached_of st)" "cached_of st \<noteq> []" "baseline (hd (cached_of st)) \<le> last_count st"
    and "sorted_wrt (<) (last_count st # cs)"
  shows "rolling_cached st ! 0 + int (snd (run_records fail_open cap st cs)) \<le> max (rolling_cached st ! 0) (cap - 1)"
  using assms
proof (induction cs arbitrary: st)
  case (Cons c cs)
  let ?st = "st\<lparr>last_count := c, dirty := True\<rparr>"
  have used: "rolling_cached ?st ! 0 = rolling_cached st ! 0 + (c - last_count st)"
    using Cons.prems by (cases "cached_of st") (auto simp: rolling_cached_def rolling_def)
  have step: "try_record fail_open cap st (Some c) = (?st, rolling_cached ?st ! 0 < cap)"
    using Cons.prems by (simp add: try_record_def increment_and_rolling_def rolling_cached_def)
  have "rolling_cached ?st ! 0 + int (snd (run_records fail_open cap ?st cs)) \<le> max (rolling_cached ?st ! 0) (cap - 1)"
    using Cons.prems by (intro Cons.IH) simp_all
  then show ?case
    using used step Cons.prems(5) by (auto simp: case_prod_beta max_def split: if_splits)
qed simp

lemma cap_is_kept_witness:
  "snd (run_records True 3 (sw_new DAILY_CAP\<lparr>seeded := True, cached_of := [default_cached\<lparr>present := True\<rparr>]\<rparr>) [1, 2, 3, 4]) \<le> 2"
  using cap_is_kept [of "sw_new DAILY_CAP\<lparr>seeded := True, cached_of := [default_cached\<lparr>present := True\<rparr>]\<rparr>" "[1, 2, 3, 4]" True 3]
  by (simp add: sw_new_def default_cached_def rolling_cached_def rolling_def)

section \<open>Every interleaving\<close>

text \<open>
  Runs in which no refresh ends that began under the floor in force at its end. Attempts, further floors, resets, snapshot writes,
  the begin of refreshes and the end of refreshes that began under another floor are all admitted, in any order.
\<close>

inductive floor_run :: "window_spec \<Rightarrow> sw_world \<Rightarrow> sw_world \<Rightarrow> bool" for spec g where
  floor_refl: "floor_run spec g g"
| floor_next: "floor_run spec g h \<Longrightarrow> sw_step spec h k \<Longrightarrow>
    (\<And>now. (now, floor_ms (sw h)) \<in> set (refreshing h) \<Longrightarrow> refreshing k \<noteq> remove1 (now, floor_ms (sw h)) (refreshing h)) \<Longrightarrow>
    floor_run spec g k"

text \<open>A limiter of n windows that has forgotten their usage.\<close>

definition forgotten :: "nat \<Rightarrow> sw_state \<Rightarrow> bool" where
  "forgotten n st \<longleftrightarrow> length (cached_of st) = n \<and> list_all (\<lambda>c. rolling_tail c = 0 \<and> \<not> present c) (cached_of st)"

lemma forgotten_mapI:
  "forgotten n st \<Longrightarrow> cached_of st' = map f (cached_of st) \<Longrightarrow>
   (\<And>c. rolling_tail c = 0 \<and> \<not> present c \<Longrightarrow> rolling_tail (f c) = 0 \<and> \<not> present (f c)) \<Longrightarrow> forgotten n st'"
  by (auto simp: forgotten_def list_all_iff)

lemma forgotten_set_floor: "floor_ms st < f \<Longrightarrow> forgotten (length (cached_of st)) (fst (set_floor st f))"
  by (auto simp: forgotten_def set_floor_def list_all_iff)

lemma forgotten_ops:
  assumes "forgotten n st"
  shows "forgotten n (fst (increment_and_rolling st answer))" "forgotten n (fst (set_floor st f))"
    "forgotten n (fst (sw_reset st scanned ok))" "forgotten n (write_end c w st)"
    "fl \<noteq> floor_ms st \<Longrightarrow> forgotten n (refresh_end spec now fl items st)"
proof -
  show "forgotten n (fst (increment_and_rolling st answer))"
    by (rule forgotten_mapI [OF assms, where f = "\<lambda>c. if present c \<or> answer = None \<or> list_all present (cached_of st) then c else c\<lparr>baseline := the answer\<rparr>"])
      (auto simp: increment_and_rolling_def Let_def split: option.split)
  show "forgotten n (fst (set_floor st f))" using assms by (auto simp: set_floor_def forgotten_def list_all_iff)
  show "forgotten n (fst (sw_reset st scanned ok))"
    using assms by (auto simp: sw_reset_def forgotten_def list_all_iff split: option.split)
  show "forgotten n (write_end c w st)" using assms by (simp add: write_end_def forgotten_def)
  show "forgotten n (refresh_end spec now fl items st)" if "fl \<noteq> floor_ms st"
    using assms that by (auto simp: refresh_end_def split: option.split)
qed

lemma forgotten_usage: "forgotten n st \<Longrightarrow> snd (increment_and_rolling st (Some c)) = Some (replicate n 0)"
proof -
  assume st: "forgotten n st"
  then have "map (\<lambda>d. rolling d c) (map (\<lambda>d. if present d then d else d\<lparr>baseline := c\<rparr>) (cached_of st)) = replicate n 0"
    by (auto simp: forgotten_def list_all_length rolling_def intro!: nth_equalityI)
  moreover have "cached_of st = []" if "list_all present (cached_of st)" using st that by (cases "cached_of st") (auto simp: forgotten_def)
  ultimately show ?thesis using st by (auto simp: increment_and_rolling_def Let_def forgotten_def)
qed

lemma floor_grows: "sw_step spec g g' \<Longrightarrow> floor_ms (sw g) \<le> floor_ms (sw g')"
  by (erule sw_step_cases)
    (auto simp: increment_and_rolling_def set_floor_def sw_reset_def write_end_def refresh_end_def Let_def split: option.splits)

text \<open>In the states a limiter can reach, the refreshes in flight began under the floor in force or an older one.\<close>

lemma reachable_floors:
  assumes "sw_reachable spec g"
  shows "list_all (\<lambda>(_, f). f \<le> floor_ms (sw g)) (refreshing g)"
  using assms
proof (induction rule: sw_reachable.induct)
  case (sw_next g g')
  have older: "list_all (\<lambda>(_, f). f \<le> floor_ms (sw g')) (refreshing g)"
    using sw_next floor_grows [OF sw_next(2)] by (auto simp: list_all_iff)
  from sw_next(2) show ?case
    using older by cases (auto simp: list_all_iff dest: notin_set_remove1)
qed simp

lemma floor_run_forgotten:
  assumes "floor_run spec g g'" "forgotten n (sw g)"
  shows "forgotten n (sw g') \<and> floor_ms (sw g) \<le> floor_ms (sw g')"
  using assms
proof (induction rule: floor_run.induct)
  case (floor_next h k)
  then have IH: "forgotten n (sw h)" "floor_ms (sw g) \<le> floor_ms (sw h)" by simp_all
  from floor_next(2) have "forgotten n (sw k)"
  proof cases
    case (sw_refresh_ended now f scanned)
    then have "f \<noteq> floor_ms (sw h)" using floor_next(3) [of now] by auto
    with IH show ?thesis using sw_refresh_ended by (simp add: forgotten_ops)
  qed (use IH in \<open>simp_all add: forgotten_ops\<close>)
  then show ?case using IH(2) floor_grows [OF floor_next(2)] by simp
qed simp

text \<open>
  C17. A raised floor forgets the usage before it, and no late refresh brings it back. After a floor was raised, attempts,
  further floors, resets, snapshot writes, new refreshes and the ends of refreshes that began under an older floor
  may follow in any order, with any answers of the store: until a refresh ends that began under the floor in force,
  every attempt finds the usage 0 in every window, and the floor stays at least the raised one.
\<close>

theorem floor_forgets_usage:
  assumes "floor_ms (sw g) < f" and "floor_run spec (g\<lparr>sw := fst (set_floor (sw g) f)\<rparr>) g'"
  shows "snd (increment_and_rolling (sw g') (Some c)) = Some (replicate (length (cached_of (sw g))) 0) \<and> f \<le> floor_ms (sw g')"
  using floor_run_forgotten [OF assms(2)] forgotten_set_floor [OF assms(1)] forgotten_usage assms(1)
  by (auto simp: set_floor_def)

text \<open>A limiter with usage 12, and a refresh in flight that read a row of this usage before the floor was raised.\<close>

definition used_world :: sw_world where
  "used_world =
     \<lparr>sw = \<lparr>last_count = 20, cached_of = [\<lparr>rolling_tail = 12, baseline = 20, present = True\<rparr>], seeded = True, dirty = False, floor_ms = 0\<rparr>,
      writing = [], refreshing = [(1000, 0)]\<rparr>"

theorem floor_forgets_usage_witness:
  "snd (increment_and_rolling (sw used_world) (Some 21)) = Some [13] \<and>
   snd (increment_and_rolling (refresh_end DAILY_CAP 1000 0 (Some sample_items) (fst (set_floor (sw used_world) 5000))) (Some 21)) = Some [0]"
proof -
  let ?g = "used_world\<lparr>sw := fst (set_floor (sw used_world) 5000)\<rparr>"
  have "floor_run DAILY_CAP ?g (?g\<lparr>sw := refresh_end DAILY_CAP 1000 0 (Some sample_items) (sw ?g), refreshing := remove1 (1000, 0) (refreshing ?g)\<rparr>)"
    by (rule floor_next [OF floor_refl sw_refresh_ended]) (simp_all add: used_world_def set_floor_def)
  from floor_forgets_usage [OF _ this, of 21] show ?thesis
    by (simp add: used_world_def increment_and_rolling_def rolling_def Let_def)
qed

end
