(* ===== verification/Dedup_Cache.thy ===== *)
theory Dedup_Cache
  imports Sliding_Window "HOL-Library.Countable"
begin

text \<open>
  The deduplication slots of the enforcement service (\<open>abuse-enforcement-service/service-lib/src/dedup_cache.rs\<close>, \<open>manhattan.rs\<close>, and
  \<open>write_dedup_outcome\<close> of \<open>lib.rs\<close>). A slot per entity holds the outcome of the last enforcement or the claim of one that is running; a claim
  over a weaker outcome carries the outcome, and gives it back when the enforcement does not act. The codec of entries is the record
  \<open>entry_codec\<close>; every operation of the store has a flag that tells whether it succeeds. Times are seconds.
\<close>

section \<open>Entries\<close>

definition CLASS_NONE :: nat where "CLASS_NONE = 0"
definition CLASS_LABEL :: nat where "CLASS_LABEL = 1"
definition CLASS_CHALLENGE :: nat where "CLASS_CHALLENGE = 2"
definition CLASS_SUSPEND :: nat where "CLASS_SUSPEND = 3"
definition CLASS_SUSPEND_PERMANENT :: nat where "CLASS_SUSPEND_PERMANENT = 4"

type_synonym bytes = "8 word list"

datatype json_value = JString string | JNumber nat | JOther

instance json_value :: countable by countable_datatype

text \<open>An entry: the fields of the object; a value that is no object has none.\<close>

type_synonym entry_json = "(string \<times> json_value) list"

record entry_codec =
  entry_of :: "bytes \<Rightarrow> entry_json option"
  entry_bytes :: "entry_json \<Rightarrow> bytes"

definition as_u64 :: "json_value \<Rightarrow> nat option" where
  "as_u64 v = (case v of JNumber n \<Rightarrow> Some n | _ \<Rightarrow> None)"

definition as_str :: "json_value \<Rightarrow> string option" where
  "as_str v = (case v of JString s \<Rightarrow> Some s | _ \<Rightarrow> None)"

definition hex_digit :: "nat \<Rightarrow> char" where
  "hex_digit n = (if n < 10 then char_of (48 + n) else char_of (87 + n))"

definition hex_encode :: "bytes \<Rightarrow> string" where
  "hex_encode bs = concat (map (\<lambda>b. [hex_digit (unat b div 16), hex_digit (unat b mod 16)]) bs)"

definition hex_value :: "char \<Rightarrow> nat option" where
  "hex_value c =
     (let n = (of_char c :: nat)
      in if 48 \<le> n \<and> n \<le> 57 then Some (n - 48)
         else if 97 \<le> n \<and> n \<le> 102 then Some (n - 87)
         else if 65 \<le> n \<and> n \<le> 70 then Some (n - 55) else None)"

text \<open>\<open>u8::from_str_radix(.., 16)\<close> on two characters, of which the first may be a sign.\<close>

definition parse_hex_byte :: "char \<Rightarrow> char \<Rightarrow> 8 word option" where
  "parse_hex_byte a b =
     (if a = CHR ''+'' then map_option of_nat (hex_value b)
      else Option.bind (hex_value a) (\<lambda>x. map_option (\<lambda>y. of_nat (16 * x + y)) (hex_value b)))"

fun hex_decode :: "string \<Rightarrow> bytes option" where
  "hex_decode [] = Some []"
| "hex_decode [a] = None"
| "hex_decode (a # b # s) =
     (case (parse_hex_byte a b, hex_decode s) of (Some x, Some xs) \<Rightarrow> Some (x # xs) | _ \<Rightarrow> None)"

datatype held_kind = Placeholder | Outcome

record held_meta =
  held_class :: nat
  kind :: held_kind
  nonce :: "nat option"
  displaced :: "(bytes \<times> nat) option"

definition held_entry_meta :: "entry_codec \<Rightarrow> bytes \<Rightarrow> held_meta" where
  "held_entry_meta cd raw =
     (case entry_of cd raw of
        None \<Rightarrow> \<lparr>held_class = CLASS_SUSPEND_PERMANENT, kind = Outcome, nonce = None, displaced = None\<rparr>
      | Some v \<Rightarrow>
          \<lparr>held_class = (case Option.bind (map_of v ''acted_class'') as_u64 of
               Some c \<Rightarrow> min c CLASS_SUSPEND_PERMANENT
             | None \<Rightarrow> (case Option.bind (map_of v ''status'') as_str of
                 Some st \<Rightarrow> if st = ''success'' then CLASS_SUSPEND_PERMANENT else CLASS_NONE
               | None \<Rightarrow> CLASS_SUSPEND_PERMANENT)),
           kind = (if map_of v ''status'' \<noteq> None then Outcome else Placeholder),
           nonce = Option.bind (map_of v ''nonce'') as_u64,
           displaced = (case (Option.bind (map_of v ''displaced'') as_str, Option.bind (map_of v ''displaced_exp'') as_u64) of
               (Some hex, Some e) \<Rightarrow> map_option (\<lambda>bs. (bs, e)) (hex_decode hex)
             | _ \<Rightarrow> None)\<rparr>)"

definition is_duplicate :: "nat \<Rightarrow> held_meta \<Rightarrow> bool" where
  "is_duplicate incoming_class held \<longleftrightarrow> incoming_class \<le> held_class held"

definition displaced_remaining_secs :: "(bytes \<times> nat) option \<Rightarrow> nat \<Rightarrow> nat option" where
  "displaced_remaining_secs d now = (case d of Some (_, e) \<Rightarrow> if now < e then Some (e - now) else None | None \<Rightarrow> None)"

definition carried_class :: "entry_codec \<Rightarrow> held_meta \<Rightarrow> nat \<Rightarrow> nat" where
  "carried_class cd m now =
     (if kind m \<noteq> Placeholder then CLASS_NONE
      else case (displaced_remaining_secs (displaced m) now, displaced m) of
             (Some _, Some (bs, _)) \<Rightarrow> held_class (held_entry_meta cd bs)
           | _ \<Rightarrow> CLASS_NONE)"

definition fences_write :: "entry_codec \<Rightarrow> held_meta \<Rightarrow> nat \<Rightarrow> nat option \<Rightarrow> nat \<Rightarrow> bool" where
  "fences_write cd m writer_class writer_nonce now \<longleftrightarrow>
     (case kind m of
        Outcome \<Rightarrow> writer_class < held_class m
      | Placeholder \<Rightarrow> (writer_nonce = None \<or> nonce m \<noteq> writer_nonce) \<and> writer_class < carried_class cd m now)"

definition fencing_class :: "entry_codec \<Rightarrow> held_meta \<Rightarrow> nat \<Rightarrow> nat" where
  "fencing_class cd m now = (case kind m of Outcome \<Rightarrow> held_class m | Placeholder \<Rightarrow> carried_class cd m now)"

section \<open>The store\<close>

text \<open>An entry with the second at which it expires; the lifetime is passed in nanoseconds since the epoch.\<close>

record stored_entry =
  entry_raw :: bytes
  expires_at :: "int option"

type_synonym dedup_store = "string \<Rightarrow> stored_entry option"

text \<open>The sum is saturated as a \<open>u64\<close>, read as an \<open>i64\<close> (a sum of \<open>2 ^ 63\<close> or more is negative), and the product is saturated.\<close>

definition ttl_nanos_from_secs_at :: "nat \<Rightarrow> nat \<Rightarrow> int" where
  "ttl_nanos_from_secs_at now ttl =
     (let secs = sint (word_of_nat (min (now + ttl) (2 ^ 64 - 1)) :: 64 word)
      in max (- (2 ^ 63)) (min (secs * 1000000000) (2 ^ 63 - 1)))"

definition remaining_ttl_secs_at :: "nat option \<Rightarrow> nat \<Rightarrow> int" where
  "remaining_ttl_secs_at expires_at_nanos now =
     (case expires_at_nanos of Some nanos \<Rightarrow> max (int (nanos div 1000000000) - int now) 0 | None \<Rightarrow> - 1)"

definition store_put :: "dedup_store \<Rightarrow> string \<Rightarrow> bytes \<Rightarrow> int \<Rightarrow> dedup_store" where
  "store_put st k v ttl_nanos = st(k := Some \<lparr>entry_raw = v, expires_at = Some (ttl_nanos div 1000000000)\<rparr>)"

record faults =
  get_ok :: bool
  put_ok :: bool
  verify_ok :: bool
  delete_ok :: bool

record dedup_cache =
  codec :: entry_codec
  ttl_secs :: nat
  skip_ttl_secs :: nat

datatype entity_type = EUser | EPost

definition entity_name :: "entity_type \<Rightarrow> string" where
  "entity_name t = (case t of EUser \<Rightarrow> ''user'' | EPost \<Rightarrow> ''post'')"

definition dedup_pkey :: "entity_type \<Rightarrow> int \<Rightarrow> string" where
  "dedup_pkey t i = (case t of EUser \<Rightarrow> show_int i | EPost \<Rightarrow> entity_name t @ '':'' @ show_int i)"

section \<open>Operations\<close>

datatype dedup_check =
    New (new_nonce: "nat option")
  | ClassBypass (bypassed_class: nat) (bypass_nonce: "nat option")
  | Duplicate

definition claim_entry :: "nat \<Rightarrow> nat \<Rightarrow> nat \<Rightarrow> (bytes \<times> nat) option \<Rightarrow> entry_json" where
  "claim_entry now acted_class n d =
     [(''ts'', JNumber now), (''acted_class'', JNumber acted_class), (''nonce'', JNumber n)] @
     (case d of Some (bs, e) \<Rightarrow> [(''displaced'', JString (hex_encode bs)), (''displaced_exp'', JNumber e)] | None \<Rightarrow> [])"

definition claim :: "dedup_cache \<Rightarrow> faults \<Rightarrow> nat \<Rightarrow> nat \<Rightarrow> string \<Rightarrow> nat \<Rightarrow> (bytes \<times> nat) option \<Rightarrow> dedup_store \<Rightarrow> dedup_store \<times> nat option" where
  "claim dc f now n k acted_class d st =
     (if put_ok f
      then (store_put st k (entry_bytes (codec dc) (claim_entry now acted_class n d)) (ttl_nanos_from_secs_at now (ttl_secs dc)), Some n)
      else (st, None))"

definition verify_claim :: "dedup_cache \<Rightarrow> faults \<Rightarrow> string \<Rightarrow> nat \<Rightarrow> dedup_store \<Rightarrow> bool" where
  "verify_claim dc f k n st =
     (if verify_ok f
      then (case st k of Some e \<Rightarrow> nonce (held_entry_meta (codec dc) (entry_raw e)) = Some n | None \<Rightarrow> False)
      else True)"

text \<open>What a claim over an entry has to carry.\<close>

definition displaced_by_claim :: "dedup_cache \<Rightarrow> nat \<Rightarrow> stored_entry \<Rightarrow> (bytes \<times> nat) option" where
  "displaced_by_claim dc now e =
     (let m = held_entry_meta (codec dc) (entry_raw e);
          held_exp_secs = Option.bind (expires_at e) (\<lambda>t. if 0 \<le> t then Some (nat t) else None)
      in case kind m of
           Outcome \<Rightarrow> if CLASS_NONE < held_class m then Some (entry_raw e, unwrap_or (now + ttl_secs dc) held_exp_secs) else None
         | Placeholder \<Rightarrow> displaced m)"

text \<open>\<open>others\<close> is what other writers do to the store between the claim and its verification.\<close>

definition try_insert ::
  "dedup_cache \<Rightarrow> faults \<Rightarrow> nat \<Rightarrow> nat \<Rightarrow> (dedup_store \<Rightarrow> dedup_store) \<Rightarrow> entity_type \<Rightarrow> int \<Rightarrow> nat \<Rightarrow> dedup_store \<Rightarrow> dedup_store \<times> dedup_check" where
  "try_insert dc f now n others t i incoming_class st =
     (let k = dedup_pkey t i
      in if \<not> get_ok f then (st, New None)
         else case st k of
                None \<Rightarrow> (let (st', c) = claim dc f now n k incoming_class None st in (st', New c))
              | Some e \<Rightarrow>
                  let m = held_entry_meta (codec dc) (entry_raw e)
                  in if is_duplicate incoming_class m then (st, Duplicate)
                     else let (st', c) = claim dc f now n k incoming_class (displaced_by_claim dc now e) st
                          in case c of
                               None \<Rightarrow> (st', ClassBypass (held_class m) None)
                             | Some n' \<Rightarrow>
                                 let st'' = others st'
                                 in if verify_claim dc f k n' st'' then (st'', ClassBypass (held_class m) (Some n')) else (st'', Duplicate))"

datatype slot_view = Held held_meta | Empty | Unknown

definition slot_view_of :: "dedup_cache \<Rightarrow> faults \<Rightarrow> string \<Rightarrow> dedup_store \<Rightarrow> slot_view" where
  "slot_view_of dc f k st =
     (if \<not> get_ok f then Unknown
      else case st k of Some e \<Rightarrow> Held (held_entry_meta (codec dc) (entry_raw e)) | None \<Rightarrow> Empty)"

definition update_with_ttl :: "faults \<Rightarrow> nat \<Rightarrow> string \<Rightarrow> bytes \<Rightarrow> nat \<Rightarrow> dedup_store \<Rightarrow> dedup_store \<times> bool" where
  "update_with_ttl f now k v ttl st = (if put_ok f then (store_put st k v (ttl_nanos_from_secs_at now ttl), True) else (st, False))"

text \<open>\<open>None\<close>: nothing to restore.\<close>

definition restore_displaced :: "faults \<Rightarrow> nat \<Rightarrow> string \<Rightarrow> held_meta \<Rightarrow> nat option \<Rightarrow> dedup_store \<Rightarrow> dedup_store option" where
  "restore_displaced f now k m writer_nonce st =
     (if kind m \<noteq> Placeholder \<or> writer_nonce = None \<or> nonce m \<noteq> writer_nonce then None
      else map_option (\<lambda>rest. fst (update_with_ttl f now k (fst (the (displaced m))) rest st)) (displaced_remaining_secs (displaced m) now))"

definition dedup_update ::
  "dedup_cache \<Rightarrow> faults \<Rightarrow> nat \<Rightarrow> entity_type \<Rightarrow> int \<Rightarrow> bytes \<Rightarrow> nat \<Rightarrow> nat option \<Rightarrow> dedup_store \<Rightarrow> dedup_store" where
  "dedup_update dc f now t i v acted_class claim_nonce st =
     (let k = dedup_pkey t i; write = fst (update_with_ttl f now k v (ttl_secs dc) st)
      in if acted_class < CLASS_SUSPEND_PERMANENT
         then (case slot_view_of dc f k st of
                 Held m \<Rightarrow> if fences_write (codec dc) m acted_class claim_nonce now then st else write
               | Empty \<Rightarrow> write
               | Unknown \<Rightarrow> st)
         else write)"

definition dedup_update_skip ::
  "dedup_cache \<Rightarrow> faults \<Rightarrow> nat \<Rightarrow> entity_type \<Rightarrow> int \<Rightarrow> bytes \<Rightarrow> nat \<Rightarrow> nat option \<Rightarrow> dedup_store \<Rightarrow> dedup_store" where
  "dedup_update_skip dc f now t i v acted_class claim_nonce st =
     (let k = dedup_pkey t i; write = fst (update_with_ttl f now k v (skip_ttl_secs dc) st)
      in case slot_view_of dc f k st of
           Held m \<Rightarrow> if fences_write (codec dc) m acted_class claim_nonce now then st
                     else unwrap_or write (restore_displaced f now k m claim_nonce st)
         | Empty \<Rightarrow> write
         | Unknown \<Rightarrow> st)"

definition dedup_invalidate :: "dedup_cache \<Rightarrow> faults \<Rightarrow> nat \<Rightarrow> entity_type \<Rightarrow> int \<Rightarrow> nat option \<Rightarrow> dedup_store \<Rightarrow> dedup_store" where
  "dedup_invalidate dc f now t i claim_nonce st =
     (let k = dedup_pkey t i; erase = (if delete_ok f then st(k := None) else st)
      in case slot_view_of dc f k st of
           Held m \<Rightarrow> if kind m = Outcome then st
                     else if claim_nonce = None \<or> nonce m \<noteq> claim_nonce then st
                     else unwrap_or erase (restore_displaced f now k m claim_nonce st)
         | Empty \<Rightarrow> erase
         | Unknown \<Rightarrow> st)"

definition dedup_peek :: "dedup_cache \<Rightarrow> faults \<Rightarrow> entity_type \<Rightarrow> int \<Rightarrow> nat \<Rightarrow> dedup_store \<Rightarrow> nat option" where
  "dedup_peek dc f t i incoming_class st =
     (if \<not> get_ok f then None
      else Option.bind (st (dedup_pkey t i)) (\<lambda>e.
        let c = held_class (held_entry_meta (codec dc) (entry_raw e)) in if incoming_class \<le> c then Some c else None))"

definition get_with_ttl :: "faults \<Rightarrow> nat \<Rightarrow> entity_type \<Rightarrow> int \<Rightarrow> dedup_store \<Rightarrow> (bytes \<times> int) option" where
  "get_with_ttl f now t i st =
     (if \<not> get_ok f then None
      else map_option (\<lambda>e. (entry_raw e, remaining_ttl_secs_at (map_option (\<lambda>s. nat s * 1000000000) (expires_at e)) now)) (st (dedup_pkey t i)))"

section \<open>The outcome of an enforcement\<close>

datatype dedup_retention = Full | SkipRetention | Release

definition STATUS_HOLD_LOOKUP_FAILED :: string where "STATUS_HOLD_LOOKUP_FAILED = ''hold_lookup_failed''"

definition FORCED_RECORDING_KEY :: string where "FORCED_RECORDING_KEY = ''action_control_forced_recording''"

definition dedup_retention_for :: "string \<Rightarrow> dedup_retention" where
  "dedup_retention_for status =
     (if status = ''success'' then Full else if status = STATUS_HOLD_LOOKUP_FAILED then Release else SkipRetention)"

record decision_outcome =
  oc_status :: string
  oc_dry_run :: bool
  oc_info :: "(string \<times> string) list"

text \<open>\<open>parse::<u8>\<close>: an optional plus sign and digits, below 256.\<close>

definition parse_u8 :: "string \<Rightarrow> nat option" where
  "parse_u8 s =
     Option.bind (case s of c # t \<Rightarrow> if c = CHR ''+'' then parse_digits t else parse_digits s | [] \<Rightarrow> None) (\<lambda>n. if n < 256 then Some n else None)"

definition acted_class_of :: "decision_outcome \<Rightarrow> nat" where
  "acted_class_of oc = unwrap_or CLASS_NONE (Option.bind (map_of (oc_info oc) ''acted_class'') parse_u8)"

text \<open>The fields of an entry that the slots read; the others are values of the codec.\<close>

definition outcome_entry :: "decision_outcome \<Rightarrow> string \<Rightarrow> entry_json" where
  "outcome_entry oc topic =
     [(''status'', JString (oc_status oc)), (''acted_class'', JNumber (acted_class_of oc)), (''topic'', JString topic), (''dry_run'', JOther),
      (''additional_info_map'', JOther), (''score_result'', JOther)]"

definition write_dedup_outcome ::
  "dedup_cache \<Rightarrow> faults \<Rightarrow> nat \<Rightarrow> entity_type \<Rightarrow> int \<Rightarrow> string \<Rightarrow> decision_outcome \<Rightarrow> nat option \<Rightarrow> dedup_store \<Rightarrow> dedup_store" where
  "write_dedup_outcome dc f now t i topic oc claim_nonce st =
     (let retention = dedup_retention_for (oc_status oc);
          forced_recording = map_of (oc_info oc) FORCED_RECORDING_KEY \<noteq> None;
          v = entry_bytes (codec dc) (outcome_entry oc topic)
      in if retention = Release \<or> forced_recording then dedup_invalidate dc f now t i claim_nonce st
         else if retention = Full then dedup_update dc f now t i v (acted_class_of oc) claim_nonce st
         else dedup_update_skip dc f now t i v (acted_class_of oc) claim_nonce st)"

section \<open>Claims read back\<close>

text \<open>What the slots rely on: an entry that is printed is parsed as itself.\<close>

definition codec_ok :: "entry_codec \<Rightarrow> bool" where
  "codec_ok cd \<longleftrightarrow> (\<forall>e. entry_of cd (entry_bytes cd e) = Some e)"

lemma hex_value_digit:
  assumes "n < 16"
  shows "hex_value (hex_digit n) = Some n \<and> hex_digit n \<noteq> CHR ''+''"
proof -
  have code: "(of_char (hex_digit n) :: nat) = (if n < 10 then 48 + n else 87 + n)" using assms by (simp add: hex_digit_def)
  then have "hex_digit n \<noteq> CHR ''+''" by (auto split: if_splits)
  with code assms show ?thesis by (simp add: hex_value_def Let_def)
qed

lemma byte_less: "unat b < 256" for b :: "8 word"
proof -
  have "unat b < 2 ^ LENGTH(8)" by (rule unsigned_less)
  then show ?thesis by simp
qed

lemma hex_roundtrip: "hex_decode (hex_encode bs) = Some bs"
proof (induction bs)
  case (Cons b bs)
  have "unat b div 16 < 16" "unat b mod 16 < 16" using byte_less [of b] by (simp_all add: less_mult_imp_div_less)
  moreover have "(of_nat (16 * (unat b div 16) + unat b mod 16) :: 8 word) = b" by (simp only: mult_div_mod_eq unat_of_nat of_nat_unat ucast_id)
  ultimately have "parse_hex_byte (hex_digit (unat b div 16)) (hex_digit (unat b mod 16)) = Some b"
    unfolding parse_hex_byte_def by (simp only: hex_value_digit if_False bind.bind_lunit option.map)
  with Cons show ?case by (simp add: hex_encode_def)
qed (simp add: hex_encode_def)

lemma claim_meta:
  assumes "codec_ok cd" "c \<le> CLASS_SUSPEND_PERMANENT"
  shows "held_entry_meta cd (entry_bytes cd (claim_entry now c n d)) = \<lparr>held_class = c, kind = Placeholder, nonce = Some n, displaced = d\<rparr>"
  using assms by (cases d) (auto simp: codec_ok_def held_entry_meta_def claim_entry_def as_u64_def as_str_def hex_roundtrip)

lemma held_class_le: "held_class (held_entry_meta cd raw) \<le> CLASS_SUSPEND_PERMANENT"
  by (auto simp: held_entry_meta_def CLASS_NONE_def CLASS_SUSPEND_PERMANENT_def split: option.split)

lemma fencing_class_le: "fencing_class cd (held_entry_meta cd raw) now \<le> CLASS_SUSPEND_PERMANENT"
  using held_class_le by (auto simp: fencing_class_def carried_class_def CLASS_NONE_def split: held_kind.split option.split)

section \<open>Stronger holds stay\<close>

lemma fenced_iff:
  "fences_write cd m w n now \<longleftrightarrow> w < fencing_class cd m now \<and> (kind m = Outcome \<or> n = None \<or> nonce m \<noteq> n)"
  by (cases "kind m") (auto simp: fences_write_def fencing_class_def)

text \<open>
  C16. An outcome in force is not weakened. A writer of a weaker class that does not own the claim on the slot, in particular any writer while the slot holds a
  stronger outcome, changes nothing in the store, whether the store fails or not: not by recording an action, a skip or a release of its
  claim, and not by claiming a slot with such an outcome. That claim is answered as a duplicate if the slot can be read; if the read
  fails, the claim is let through as new (the service fails open), still without a change of the slot.
\<close>

theorem stronger_hold_is_kept:
  assumes held: "st (dedup_pkey t i) = Some e" and m: "m = held_entry_meta (codec dc) (entry_raw e)"
    and weaker: "acted_class_of oc < fencing_class (codec dc) m now" and foreign: "kind m = Outcome \<or> n = None \<or> nonce m \<noteq> n"
  shows "dedup_update dc f now t i v (acted_class_of oc) n st = st \<and> dedup_update_skip dc f now t i v (acted_class_of oc) n st = st \<and>
    dedup_invalidate dc f now t i n st = st \<and> write_dedup_outcome dc f now t i topic oc n st = st \<and>
    (if kind m = Outcome
     then try_insert dc f now n' others t i (acted_class_of oc) st = (st, if get_ok f then Duplicate else New None) else True)"
proof -
  have fenced: "fences_write (codec dc) m (acted_class_of oc) n now" using weaker foreign by (simp add: fenced_iff)
  have "acted_class_of oc < CLASS_SUSPEND_PERMANENT"
    using weaker fencing_class_le [of "codec dc" "entry_raw e" now] m by simp
  then have update: "dedup_update dc f now t i v (acted_class_of oc) n st = st" for v
    using fenced held m by (simp add: dedup_update_def slot_view_of_def Let_def)
  have skip: "dedup_update_skip dc f now t i v (acted_class_of oc) n st = st" for v
    using fenced held m by (simp add: dedup_update_skip_def slot_view_of_def Let_def)
  have release: "dedup_invalidate dc f now t i n st = st"
    using foreign held m by (auto simp: dedup_invalidate_def slot_view_of_def Let_def)
  have "try_insert dc f now n' others t i (acted_class_of oc) st = (st, if get_ok f then Duplicate else New None)" if "kind m = Outcome"
    using that weaker held m by (simp add: try_insert_def is_duplicate_def fencing_class_def Let_def)
  then show ?thesis using update skip release by (simp add: write_dedup_outcome_def Let_def)
qed

text \<open>A codec, and a slot that holds an outcome of class 1 until second 500.\<close>

definition sample_codec :: entry_codec where
  "sample_codec = \<lparr>entry_of = (\<lambda>b. Some (from_nat (length b))), entry_bytes = (\<lambda>e. replicate (to_nat e) 0)\<rparr>"

lemma sample_codec_ok: "codec_ok sample_codec"
  by (simp add: codec_ok_def sample_codec_def)

lemma outcome_meta:
  "codec_ok cd \<Longrightarrow> held_entry_meta cd (entry_bytes cd (outcome_entry oc topic)) =
     \<lparr>held_class = min (acted_class_of oc) CLASS_SUSPEND_PERMANENT, kind = Outcome, nonce = None, displaced = None\<rparr>"
  by (simp add: codec_ok_def held_entry_meta_def outcome_entry_def as_u64_def)

definition labelled :: decision_outcome where
  "labelled = \<lparr>oc_status = ''success'', oc_dry_run = False, oc_info = [(''acted_class'', ''1'')]\<rparr>"

definition skipped :: decision_outcome where
  "skipped = \<lparr>oc_status = ''dry_run'', oc_dry_run = True, oc_info = []\<rparr>"

definition sample_cache :: dedup_cache where
  "sample_cache = \<lparr>codec = sample_codec, ttl_secs = 100, skip_ttl_secs = 10\<rparr>"

definition sample_slots :: dedup_store where
  "sample_slots = (\<lambda>_. None)(dedup_pkey EUser 7 := Some \<lparr>entry_raw = entry_bytes sample_codec (outcome_entry labelled ''t''), expires_at = Some (int 500)\<rparr>)"

definition no_faults :: faults where
  "no_faults = \<lparr>get_ok = True, put_ok = True, verify_ok = True, delete_ok = True\<rparr>"

lemma sample_classes: "acted_class_of labelled = 1" "acted_class_of skipped = 0"
  by (simp_all add: acted_class_of_def labelled_def skipped_def parse_u8_def parse_digits_def is_digit_def digits_value_def CLASS_NONE_def unwrap_or_def)

lemmas sample_meta = outcome_meta [OF sample_codec_ok, of labelled "''t''"]

theorem stronger_hold_is_kept_witness:
  "dedup_invalidate sample_cache no_faults 200 EUser 7 (Some 5) sample_slots = sample_slots \<and>
   write_dedup_outcome sample_cache no_faults 200 EUser 7 ''u'' skipped (Some 5) sample_slots = sample_slots"
  using stronger_hold_is_kept [of sample_slots EUser 7 _ _ sample_cache skipped 200 "Some 5" no_faults "[]" "''u''", OF _ refl]
  by (simp add: sample_slots_def sample_cache_def sample_meta sample_classes fencing_class_def CLASS_SUSPEND_PERMANENT_def)

section \<open>A claim gives back what it displaced\<close>

lemma restored_expiry:
  assumes "now < e" "e < 9223372036"
  shows "ttl_nanos_from_secs_at now (e - now) div 1000000000 = int e"
proof -
  have "now + (e - now) = e" using assms by simp
  moreover have "int e * 1000000000 \<le> 2 ^ 63 - 1" "min e (2 ^ 64 - 1) = e" using assms by simp_all
  moreover have "sint (word_of_nat e :: 64 word) = int e"
    using assms by (simp add: sint_uint unsigned_of_nat take_bit_nat_eq_self signed_take_bit_int_eq_self)
  ultimately show ?thesis by (simp add: ttl_nanos_from_secs_at_def Let_def)
qed

text \<open>
  C18. A claim over a weaker outcome loses nothing. While the claim stands the slot fences with the class of the displaced outcome until that expires, and when
  the enforcement does not act (a skip or a release by the claim's owner) the slot holds the same bytes again with the
  same expiry.
\<close>

theorem bypass_gives_back:
  assumes codec: "codec_ok (codec dc)" and held: "st (dedup_pkey t i) = Some \<lparr>entry_raw = raw, expires_at = Some (int e)\<rparr>"
    and m: "kind (held_entry_meta (codec dc) raw) = Outcome" "CLASS_NONE < held_class (held_entry_meta (codec dc) raw)"
    and ranks: "held_class (held_entry_meta (codec dc) raw) < c" "c \<le> CLASS_SUSPEND_PERMANENT"
    and ok: "get_ok f" "put_ok f" and time: "later < e" "e < 9223372036"
  shows "\<exists>st' claimed. try_insert dc f now n id t i c st = (st', ClassBypass (held_class (held_entry_meta (codec dc) raw)) (Some n)) \<and>
    st' (dedup_pkey t i) = Some claimed \<and>
    fencing_class (codec dc) (held_entry_meta (codec dc) (entry_raw claimed)) later = held_class (held_entry_meta (codec dc) raw) \<and>
    dedup_update_skip dc f later t i v w (Some n) st' = st \<and> dedup_invalidate dc f later t i (Some n) st' = st"
proof -
  let ?k = "dedup_pkey t i" and ?cl = "claim_entry now c n (Some (raw, e))"
  let ?claimed = "\<lparr>entry_raw = entry_bytes (codec dc) ?cl, expires_at = Some (ttl_nanos_from_secs_at now (ttl_secs dc) div 1000000000)\<rparr>"
  let ?st = "st(?k := Some ?claimed)"
  note meta = claim_meta [OF codec ranks(2), of now n "Some (raw, e)"]
  have "displaced_by_claim dc now \<lparr>entry_raw = raw, expires_at = Some (int e)\<rparr> = Some (raw, e)"
    using m by (simp add: displaced_by_claim_def Let_def unwrap_or_def)
  then have run: "try_insert dc f now n id t i c st = (?st, ClassBypass (held_class (held_entry_meta (codec dc) raw)) (Some n))"
    using held ranks(1) ok meta by (simp add: try_insert_def is_duplicate_def claim_def store_put_def verify_claim_def Let_def)
  have remains: "displaced_remaining_secs (Some (raw, e)) later = Some (e - later)" using time by (simp add: displaced_remaining_secs_def)
  have fencing: "fencing_class (codec dc) (held_entry_meta (codec dc) (entry_raw ?claimed)) later = held_class (held_entry_meta (codec dc) raw)"
    by (simp add: meta fencing_class_def carried_class_def remains)
  have restored: "fst (update_with_ttl f later ?k raw (e - later) ?st) = st"
    using ok held restored_expiry [OF time] by (auto simp: update_with_ttl_def store_put_def fun_eq_iff)
  then have "dedup_update_skip dc f later t i v w (Some n) ?st = st" "dedup_invalidate dc f later t i (Some n) ?st = st"
    using ok by (simp_all add: dedup_update_skip_def dedup_invalidate_def slot_view_of_def Let_def meta fenced_iff restore_displaced_def remains
        unwrap_or_def)
  with run fencing show ?thesis by (intro exI [of _ ?st] exI [of _ ?claimed]) simp
qed

theorem bypass_gives_back_witness:
  "\<exists>st'. try_insert sample_cache no_faults 200 9 id EUser 7 3 sample_slots = (st', ClassBypass 1 (Some 9)) \<and>
     dedup_invalidate sample_cache no_faults 300 EUser 7 (Some 9) st' = sample_slots"
proof -
  have slot: "sample_slots (dedup_pkey EUser 7) = Some \<lparr>entry_raw = entry_bytes sample_codec (outcome_entry labelled ''t''), expires_at = Some (int 500)\<rparr>"
    by (simp add: sample_slots_def)
  have cache: "codec sample_cache = sample_codec" by (simp add: sample_cache_def)
  show ?thesis
    using bypass_gives_back [of sample_cache sample_slots EUser 7 _ 500 3 no_faults 300 200 9 "[]" 0, OF _ slot]
    by (auto simp: cache sample_codec_ok sample_meta sample_classes no_faults_def CLASS_NONE_def CLASS_SUSPEND_PERMANENT_def)
qed

end
