(* ===== verification/Off_Switch.thy ===== *)
theory Off_Switch
  imports Sliding_Window "HOL-Library.AList"
begin

text \<open>
  The off switch of the enforcement service (\<open>abuse-enforcement-service/service-lib/src/off_switch.rs\<close>, \<open>types/src/off_switch.rs\<close>):
  operators switch enforcement off for a head or for a head and classifier; every pod reads the switches from a store into a snapshot. The answers of the store, parsed or
  not, and the clocks are arguments: \<open>now\<close> is the monotonic clock and \<open>now_ms\<close> the time of day, both in milliseconds. The maps
  are association lists with distinct keys.
\<close>

section \<open>Records\<close>

definition OFF_SWITCH_RECORD_VERSION :: nat where "OFF_SWITCH_RECORD_VERSION = 1"
definition MAX_NAME_LEN :: nat where "MAX_NAME_LEN = 256"
definition MAX_REASON_LEN :: nat where "MAX_REASON_LEN = 1000"
definition SEEN_QUEUE :: nat where "SEEN_QUEUE = 256"
definition SEEN_GUARD_MAX :: nat where "SEEN_GUARD_MAX = 10000"
definition SEEN_WRITE_EVERY :: nat where "SEEN_WRITE_EVERY = 600 * 1000"
definition LOCAL_WRITE_GRACE :: nat where "LOCAL_WRITE_GRACE = 30 * 1000"
definition SCAN_PAGE :: nat where "SCAN_PAGE = 1000"
definition SCAN_MAX_ROWS :: nat where "SCAN_MAX_ROWS = 100000"

record previous_off =
  po_reason :: string
  po_updated_by :: string
  po_updated_at_ms :: int

record off_switch_record =
  os_v :: nat
  os_head :: string
  os_classifier :: "string option"
  os_off :: bool
  os_reason :: string
  os_updated_by :: string
  os_key_id :: string
  os_updated_at_ms :: int
  os_auto_on_at_ms :: "int option"
  os_previous_off :: "previous_off option"

definition os_scope :: "off_switch_record \<Rightarrow> string" where
  "os_scope r = (if os_classifier r \<noteq> None then ''pair'' else ''head'')"

definition is_active :: "off_switch_record \<Rightarrow> int \<Rightarrow> bool" where
  "is_active r now_ms \<longleftrightarrow> os_off r \<and> is_none_or (\<lambda>t. now_ms < t) (os_auto_on_at_ms r)"

record off_switch_put_request =
  rq_head :: string
  rq_classifier :: "string option"
  rq_off :: bool
  rq_reason :: string
  rq_auto_on_at_ms :: "int option"
  rq_updated_by :: "string option"

record off_switch_view =
  vw_record :: off_switch_record
  vw_scope :: string
  vw_active :: bool

record off_switch_seen =
  sn_head :: string
  sn_classifier :: string
  sn_last_seen_ms :: int

definition lkey_for :: "string \<Rightarrow> string option \<Rightarrow> string" where
  "lkey_for head classifier = (case classifier of None \<Rightarrow> ''h/'' @ head | Some c \<Rightarrow> ''p/'' @ head @ ''/'' @ c)"

definition seen_lkey :: "string \<Rightarrow> string \<Rightarrow> string" where
  "seen_lkey head classifier = head @ ''/'' @ classifier"

definition valid_name :: "string \<Rightarrow> bool" where
  "valid_name s \<longleftrightarrow> s \<noteq> [] \<and> length s \<le> MAX_NAME_LEN \<and>
     list_all (\<lambda>b. let n = (of_char b :: nat) in
       48 \<le> n \<and> n \<le> 57 \<or> 65 \<le> n \<and> n \<le> 90 \<or> 97 \<le> n \<and> n \<le> 122 \<or> b \<in> set ''_.:@-'') s"

section \<open>Reading a partition\<close>

text \<open>
  \<open>scan_pages\<close>. The store may answer differently every time, so that \<open>fetch\<close> has the number of the call as an argument. A round that
  goes on has read a row, and more than \<open>max_rows\<close> rows end the loop, for every store.
\<close>


function scan_loop ::
  "(nat \<Rightarrow> 'k option \<Rightarrow> nat \<Rightarrow> string + ('k \<times> 'v) list) \<Rightarrow> nat \<Rightarrow> nat \<Rightarrow> nat \<Rightarrow> 'k option \<Rightarrow> ('k \<times> 'v) list \<Rightarrow> ('k \<times> 'v) list result" where
  "scan_loop fetch page max_rows call from_key rows =
     (case fetch call from_key page of
        Inl e \<Rightarrow> Err e
      | Inr batch \<Rightarrow>
          let rows' = rows @ filter (\<lambda>(k, _). from_key \<noteq> Some k) batch
          in if max_rows < length rows' then Err (''partition has more than '' @ show_nat max_rows @ '' rows; not using a partial read'')
             else if length batch < page then Ok rows'
             else if length rows' = length rows then Err ''scan made no progress past a full page''
             else scan_loop fetch page max_rows (Suc call) (Some (fst (last rows'))) rows')"
  by pat_completeness auto
termination
  by (relation "measure (\<lambda>(fetch, page, max_rows, call, from_key, rows). Suc max_rows - length rows)")
    (auto simp: Let_def simp flip: length_greater_0_conv intro!: diff_less_mono2)

declare scan_loop.simps [simp del]

definition scan_pages :: "(nat \<Rightarrow> 'k option \<Rightarrow> nat \<Rightarrow> string + ('k \<times> 'v) list) \<Rightarrow> nat \<Rightarrow> nat \<Rightarrow> ('k \<times> 'v) list result" where
  "scan_pages fetch page max_rows = scan_loop fetch page max_rows 0 None []"

section \<open>The switch of a pod\<close>

record off_switch =
  entries :: "(string \<times> off_switch_record) list"
  loaded_at :: "nat option"
  local_writes :: "(string \<times> off_switch_record \<times> nat) list"
  seen_guard :: "(string \<times> nat) list"
  seen_queue :: "off_switch_seen list"

definition off_switch_new :: off_switch where
  "off_switch_new = \<lparr>entries = [], loaded_at = None, local_writes = [], seen_guard = [], seen_queue = []\<rparr>"

datatype scope = HeadScope | PairScope

record off_switch_hit =
  hit_scope :: scope
  hit_record :: off_switch_record

definition off_switch_lookup :: "off_switch \<Rightarrow> string \<Rightarrow> string \<Rightarrow> int \<Rightarrow> off_switch_hit option" where
  "off_switch_lookup st head classifier now_ms =
     (if head = [] \<or> entries st = [] then None
      else case map_of (entries st) (lkey_for head None) of
             Some r \<Rightarrow> if is_active r now_ms then Some \<lparr>hit_scope = HeadScope, hit_record = r\<rparr> else
               (if classifier = [] then None
                else Option.bind (map_of (entries st) (lkey_for head (Some classifier))) (\<lambda>r.
                  if is_active r now_ms then Some \<lparr>hit_scope = PairScope, hit_record = r\<rparr> else None))
           | None \<Rightarrow>
               (if classifier = [] then None
                else Option.bind (map_of (entries st) (lkey_for head (Some classifier))) (\<lambda>r.
                  if is_active r now_ms then Some \<lparr>hit_scope = PairScope, hit_record = r\<rparr> else None)))"

text \<open>
  One row of a scan: its key and what its value parses to. A valid record goes under the key of its own scope; for any other row the
  previous copy under the row's key stays.
\<close>

definition refresh_row ::
  "(string \<times> off_switch_record) list \<Rightarrow> string \<times> off_switch_record option \<Rightarrow> (string \<times> off_switch_record) list \<Rightarrow> (string \<times> off_switch_record) list" where
  "refresh_row prev row es =
     (case row of (k, parsed) \<Rightarrow>
        (case parsed of
           Some r \<Rightarrow>
             if valid_name (os_head r) \<and> is_none_or valid_name (os_classifier r)
             then AList.update (lkey_for (os_head r) (os_classifier r)) r es
             else (case map_of prev k of Some old \<Rightarrow> AList.update k old es | None \<Rightarrow> es)
         | None \<Rightarrow> (case map_of prev k of Some old \<Rightarrow> AList.update k old es | None \<Rightarrow> es)))"

text \<open>A write of this pod stands over an older stored record.\<close>

definition keep_local :: "string \<times> off_switch_record \<times> nat \<Rightarrow> (string \<times> off_switch_record) list \<Rightarrow> (string \<times> off_switch_record) list" where
  "keep_local w es =
     (case w of (k, r, _) \<Rightarrow>
        if is_none_or (\<lambda>stored. os_updated_at_ms stored < os_updated_at_ms r) (map_of es k) then AList.update k r es else es)"

definition publish :: "(string \<times> off_switch_record) list \<Rightarrow> nat option \<Rightarrow> off_switch \<Rightarrow> off_switch" where
  "publish es loaded_now st = st\<lparr>entries := es, loaded_at := or_else loaded_now (loaded_at st)\<rparr>"

text \<open>\<open>Inl\<close> is the error of a scan that fails or times out.\<close>

definition off_switch_refresh :: "nat \<Rightarrow> string + (string \<times> off_switch_record option) list \<Rightarrow> off_switch \<Rightarrow> off_switch \<times> nat result" where
  "off_switch_refresh now scanned st =
     (case scanned of
        Inl e \<Rightarrow> (st, Err e)
      | Inr rows \<Rightarrow>
          let es = fold (refresh_row (entries st)) rows [];
              kept = filter (\<lambda>(_, _, t). now - t < LOCAL_WRITE_GRACE) (local_writes st)
          in (publish (fold keep_local kept es) (Some now) (st\<lparr>local_writes := kept\<rparr>), Ok (length rows)))"

definition first_load_done :: "off_switch \<Rightarrow> bool" where
  "first_load_done st \<longleftrightarrow> loaded_at st \<noteq> None"

definition off_switch_ready :: "bool \<Rightarrow> off_switch \<Rightarrow> bool" where
  "off_switch_ready enabled st \<longleftrightarrow> \<not> enabled \<or> first_load_done st"

definition active_lkeys :: "off_switch \<Rightarrow> int \<Rightarrow> string list" where
  "active_lkeys st now_ms =
     sort_by (\<lambda>a b. if a = b then Equal else if str_le a b then Less else Greater) (map fst (filter (\<lambda>(_, r). is_active r now_ms) (entries st)))"

definition validate_put :: "off_switch_put_request \<Rightarrow> int \<Rightarrow> unit result" where
  "validate_put req now_ms =
     (if \<not> valid_name (rq_head req) then Err (''head must be 1-'' @ show_nat MAX_NAME_LEN @ '' characters of [A-Za-z0-9_.:@-]'')
      else if is_some_and (\<lambda>c. \<not> valid_name c) (rq_classifier req)
      then Err (''classifier must be null or 1-'' @ show_nat MAX_NAME_LEN @ '' characters of [A-Za-z0-9_.:@-]'')
      else if rq_off req \<and> str_trim (rq_reason req) = [] then Err ''reason is required when turning enforcement off''
      else if MAX_REASON_LEN < length (rq_reason req) then Err (''reason is longer than '' @ show_nat MAX_REASON_LEN @ '' bytes'')
      else if is_some_and (\<lambda>u. MAX_NAME_LEN < length u) (rq_updated_by req) then Err (''updated_by is longer than '' @ show_nat MAX_NAME_LEN @ '' bytes'')
      else case rq_auto_on_at_ms req of
             Some t \<Rightarrow> if \<not> rq_off req then Err ''auto_on_at_ms only applies when off is true''
                       else if t \<le> now_ms then Err ''auto_on_at_ms must be in the future'' else Ok ()
           | None \<Rightarrow> Ok ())"

definition put_updated_by :: "off_switch_put_request \<Rightarrow> string \<Rightarrow> string" where
  "put_updated_by req key_id =
     (case rq_updated_by req of Some u \<Rightarrow> if str_trim u \<noteq> [] then str_trim u else key_id | None \<Rightarrow> key_id)"

definition put_record :: "off_switch \<Rightarrow> off_switch_put_request \<Rightarrow> string \<Rightarrow> int \<Rightarrow> off_switch_record" where
  "put_record st req key_id now_ms =
     \<lparr>os_v = OFF_SWITCH_RECORD_VERSION, os_head = rq_head req, os_classifier = rq_classifier req, os_off = rq_off req,
      os_reason = str_trim (rq_reason req), os_updated_by = put_updated_by req key_id, os_key_id = key_id, os_updated_at_ms = now_ms,
      os_auto_on_at_ms = rq_auto_on_at_ms req,
      os_previous_off = (if rq_off req then None
        else Option.bind (map_of (entries st) (lkey_for (rq_head req) (rq_classifier req))) (\<lambda>r.
          if os_off r then Some \<lparr>po_reason = os_reason r, po_updated_by = os_updated_by r, po_updated_at_ms = os_updated_at_ms r\<rparr> else None))\<rparr>"

definition apply_local :: "nat \<Rightarrow> string \<Rightarrow> off_switch_record \<Rightarrow> off_switch \<Rightarrow> off_switch \<times> off_switch_record option" where
  "apply_local now k r st =
     (publish (AList.update k r (entries st)) None (st\<lparr>local_writes := AList.update k (r, now) (local_writes st)\<rparr>), map_of (entries st) k)"

definition switch_view :: "off_switch_record \<Rightarrow> int \<Rightarrow> off_switch_view" where
  "switch_view r now_ms = \<lparr>vw_record = r, vw_scope = os_scope r, vw_active = is_active r now_ms\<rparr>"

datatype set_error = InvalidPut string | StoreError string

text \<open>\<open>stored\<close> is the answer of the store to the write.\<close>

definition off_switch_set ::
  "nat \<Rightarrow> int \<Rightarrow> off_switch_put_request \<Rightarrow> string \<Rightarrow> unit result \<Rightarrow> off_switch \<Rightarrow> off_switch \<times> (set_error + off_switch_view \<times> off_switch_record option)" where
  "off_switch_set now now_ms req key_id stored st =
     (case validate_put req now_ms of
        Inl e \<Rightarrow> (st, Inl (InvalidPut e))
      | Inr _ \<Rightarrow>
          let r = put_record st req key_id now_ms
          in case stored of
               Inl e \<Rightarrow> (st, Inl (StoreError e))
             | Inr _ \<Rightarrow> (let (st', before) = apply_local now (lkey_for (rq_head req) (rq_classifier req)) r st
                         in (st', Inr (switch_view r now_ms, before))))"

section \<open>Pairs that were seen\<close>

datatype seen_outcome = Queued | Recent | Dropped | InvalidSeen

definition forget_seen :: "string \<Rightarrow> nat option \<Rightarrow> off_switch \<Rightarrow> off_switch" where
  "forget_seen k since st =
     (if is_none_or (\<lambda>t. map_of (seen_guard st) k = Some t) since then st\<lparr>seen_guard := AList.delete k (seen_guard st)\<rparr> else st)"

definition record_seen_at :: "nat \<Rightarrow> int \<Rightarrow> string \<Rightarrow> string \<Rightarrow> off_switch \<Rightarrow> off_switch \<times> seen_outcome" where
  "record_seen_at now now_ms head classifier st =
     (if \<not> valid_name head \<or> \<not> valid_name classifier then (st, InvalidSeen)
      else
        let k = seen_lkey head classifier
        in if is_some_and (\<lambda>t. now - t < SEEN_WRITE_EVERY) (map_of (seen_guard st) k) then (st, Recent)
           else
             let full = SEEN_GUARD_MAX \<le> length (seen_guard st) \<and> map_of (seen_guard st) k = None;
                 guard = (if full then filter (\<lambda>(_, t). now - t < SEEN_WRITE_EVERY) (seen_guard st) else seen_guard st)
             in if full \<and> SEEN_GUARD_MAX \<le> length guard then (st\<lparr>seen_guard := guard\<rparr>, Dropped)
                else
                  let st' = st\<lparr>seen_guard := AList.update k now guard\<rparr>
                  in if length (seen_queue st') < SEEN_QUEUE
                     then (st'\<lparr>seen_queue := seen_queue st' @ [\<lparr>sn_head = head, sn_classifier = classifier, sn_last_seen_ms = now_ms\<rparr>]\<rparr>, Queued)
                     else (forget_seen k (Some now) st', Dropped))"

text \<open>The writer takes one pair from the queue; a failed write lets the next decision queue the pair again.\<close>

definition write_seen :: "bool \<Rightarrow> off_switch \<Rightarrow> off_switch" where
  "write_seen ok st =
     (case seen_queue st of
        [] \<Rightarrow> st
      | s # rest \<Rightarrow>
          let st' = st\<lparr>seen_queue := rest\<rparr>
          in if ok then st' else forget_seen (seen_lkey (sn_head s) (sn_classifier s)) None st')"

section \<open>A scan reads everything\<close>

text \<open>What the store promises while it does not change: the rows from a key on, in order, up to the limit.\<close>

definition pages_of :: "('k::linorder \<times> 'v) list \<Rightarrow> 'k option \<Rightarrow> nat \<Rightarrow> ('k \<times> 'v) list" where
  "pages_of table from_key page = take page (dropWhile (\<lambda>(k, _). is_some_and (\<lambda>f. k < f) from_key) table)"

lemma dropWhile_sorted_nth:
  fixes table :: "('k::linorder \<times> 'v) list"
  assumes "sorted_wrt (<) (map fst table)" "j < length table"
  shows "dropWhile (\<lambda>(k, _). k < fst (table ! j)) table = drop j table"
  using assms
proof (induction table arbitrary: j)
  case (Cons a table)
  show ?case
  proof (cases j)
    case (Suc i)
    then have "fst a < fst (table ! i)" using Cons.prems by simp
    with Cons Suc show ?thesis by (auto simp: case_prod_beta)
  qed (simp add: case_prod_beta)
qed simp

lemma later_rows:
  fixes table :: "('k::linorder \<times> 'v) list"
  assumes "sorted_wrt (<) (map fst table)" "j < length table"
  shows "filter (\<lambda>(k, _). Some (fst (table ! j)) \<noteq> Some k) (take page (drop j table)) = take (page - 1) (drop (Suc j) table)"
proof (cases page)
  case (Suc p)
  have "drop j table = table ! j # drop (Suc j) table" using assms(2) by (simp add: Cons_nth_drop_Suc)
  moreover have "fst (table ! j) \<noteq> fst r" if r: "r \<in> set (take p (drop (Suc j) table))" for r
  proof -
    obtain i where i: "i < length table" "j < i" "r = table ! i"
      using in_set_takeD [OF r] by (auto simp: in_set_conv_nth) (metis add_Suc_right add_lessD1 less_add_Suc1 less_diff_conv add.commute)
    then have "fst (table ! j) < fst r" using assms sorted_wrt_nth_less [OF assms(1), of j i] by simp
    then show ?thesis by simp
  qed
  ultimately show ?thesis using Suc by (auto simp: filter_id_conv case_prod_beta)
qed simp

lemma scan_loop_step:
  assumes "fetch call from_key page = Ok batch" "rows @ filter (\<lambda>(k, _). from_key \<noteq> Some k) batch = rows'" "length rows' \<le> max_rows"
  shows "length batch < page \<Longrightarrow> scan_loop fetch page max_rows call from_key rows = Ok rows'"
    "page \<le> length batch \<Longrightarrow> length rows < length rows' \<Longrightarrow>
     scan_loop fetch page max_rows call from_key rows = scan_loop fetch page max_rows (Suc call) (Some (fst (last rows'))) rows'"
  using assms by (simp_all add: scan_loop.simps [of fetch page max_rows call from_key rows] Let_def not_less)

lemma scan_from:
  assumes store: "\<And>call from_key n. fetch call from_key n = Ok (pages_of table from_key n)"
    and sorted: "sorted_wrt (<) (map fst table)" and page: "2 \<le> page" and fits: "length table \<le> max_rows"
  shows "j < length table \<Longrightarrow> scan_loop fetch page max_rows call (Some (fst (table ! j))) (take (Suc j) table) = Ok table"
proof (induction "length table - j" arbitrary: j call rule: less_induct)
  case less
  have batch: "fetch call (Some (fst (table ! j))) page = Ok (take page (drop j table))"
    using dropWhile_sorted_nth [OF sorted less.prems] by (simp add: store pages_of_def)
  have "take (Suc j) table @ take (page - 1) (drop (Suc j) table) = take (j + page) table"
    using page less.prems by (simp add: take_add [symmetric])
  then have rows: "take (Suc j) table @ filter (\<lambda>(k, _). Some (fst (table ! j)) \<noteq> Some k) (take page (drop j table)) = take (j + page) table"
    by (simp only: later_rows [OF sorted less.prems])
  note step = scan_loop_step [of fetch call "Some (fst (table ! j))" page _ "take (Suc j) table", OF batch rows]
  show ?case
  proof (cases "page \<le> length table - j")
    case False
    then show ?thesis using step(1) fits by simp
  next
    case True
    let ?j = "j + page - 1"
    have next_j: "?j < length table" "Suc ?j = j + page" "length table - ?j < length table - j" using True page less.prems by simp_all
    have "last (take (j + page) table) = table ! ?j" using next_j by (metis last_snoc take_Suc_conv_app_nth)
    then show ?thesis using step(2) less.hyps [OF next_j(3,1), of "Suc call"] True fits page next_j by simp
  qed
qed

text \<open>
  Reading a partition in pages. On a store that does not change, with pages of two rows or more and at most the allowed number of rows, the answer is
  the whole partition: no row is lost or repeated where pages meet.
\<close>

lemma scan_pages_complete:
  assumes store: "\<And>call from_key n. fetch call from_key n = Ok (pages_of table from_key n)"
    and sorted: "sorted_wrt (<) (map fst table)" and page: "2 \<le> page" and fits: "length table \<le> max_rows"
  shows "scan_pages fetch page max_rows = Ok table"
proof (cases "page \<le> length table")
  case False
  then show ?thesis
    using fits by (simp add: scan_pages_def scan_loop_step(1) [of fetch 0 None page table "[]" table] store pages_of_def is_some_and_def)
next
  case True
  have next_j: "page - 1 < length table" "Suc (page - 1) = page" using True page by simp_all
  have "last (take page table) = table ! (page - 1)" using next_j by (metis last_snoc take_Suc_conv_app_nth)
  then have "scan_pages fetch page max_rows = scan_loop fetch page max_rows 1 (Some (fst (table ! (page - 1)))) (take (Suc (page - 1)) table)"
    using True fits page next_j
    by (simp add: scan_pages_def scan_loop_step(2) [of fetch 0 None page "take page table" "[]" "take page table"] store pages_of_def is_some_and_def)
  then show ?thesis using scan_from [OF assms next_j(1)] by simp
qed

lemma scan_pages_complete_witness:
  "scan_pages (\<lambda>call from_key n. Ok (pages_of [(1::nat, ''a''), (2, ''b''), (5, ''c'')] from_key n)) 2 100 = Ok [(1, ''a''), (2, ''b''), (5, ''c'')]"
  by (rule scan_pages_complete) simp_all

section \<open>Keys of scopes\<close>

lemma valid_name_no_slash: "valid_name s \<Longrightarrow> CHR ''/'' \<notin> set s"
proof
  assume "valid_name s" "CHR ''/'' \<in> set s"
  then show False unfolding valid_name_def list_all_iff by (elim conjE) (drule (1) bspec, simp)
qed

lemma split_at_slash: "CHR ''/'' \<notin> set a \<Longrightarrow> CHR ''/'' \<notin> set b \<Longrightarrow> a @ CHR ''/'' # s = b @ CHR ''/'' # t \<Longrightarrow> a = b \<and> s = t"
proof (induction a arbitrary: b)
  case Nil
  then show ?case by (cases b) auto
next
  case (Cons x a)
  then show ?case by (cases b) auto
qed

lemma lkey_for_inject:
  assumes "valid_name h" "valid_name h'" "lkey_for h c = lkey_for h' c'"
  shows "h = h' \<and> c = c'"
proof -
  note slash = valid_name_no_slash [OF assms(1)] valid_name_no_slash [OF assms(2)]
  show ?thesis
    using assms(3) split_at_slash [OF slash] by (cases c; cases c') (simp_all add: lkey_for_def)
qed

section \<open>A switch that was set stays set\<close>

text \<open>Events at a pod: a refresh with the answer of the scan, and a write.\<close>

datatype os_event =
    OsRefresh nat "string + (string \<times> off_switch_record option) list"
  | OsSet nat int off_switch_put_request string "unit result"

definition os_step :: "os_event \<Rightarrow> off_switch \<Rightarrow> off_switch" where
  "os_step e st =
     (case e of
        OsRefresh now scanned \<Rightarrow> fst (off_switch_refresh now scanned st)
      | OsSet now now_ms req key_id stored \<Rightarrow> fst (off_switch_set now now_ms req key_id stored st))"

text \<open>
  An event that may happen without undoing a write of record r under key k at time t: a refresh within the grace whose rows for k are
  older, the record itself or unreadable, or a write under another key.
\<close>

definition respects_write :: "string \<Rightarrow> off_switch_record \<Rightarrow> nat \<Rightarrow> os_event \<Rightarrow> bool" where
  "respects_write k r t e =
     (case e of
        OsRefresh now scanned \<Rightarrow> now - t < LOCAL_WRITE_GRACE \<and>
          (case scanned of Inl _ \<Rightarrow> True
           | Inr rows \<Rightarrow> list_all (\<lambda>(_, p). is_none_or (\<lambda>r'. lkey_for (os_head r') (os_classifier r') \<noteq> k \<or> r' = r \<or>
               os_updated_at_ms r' < os_updated_at_ms r) p) rows)
      | OsSet _ _ req _ _ \<Rightarrow> lkey_for (rq_head req) (rq_classifier req) \<noteq> k)"

definition written :: "string \<Rightarrow> off_switch_record \<Rightarrow> nat \<Rightarrow> off_switch \<Rightarrow> bool" where
  "written k r t st \<longleftrightarrow> map_of (entries st) k = Some r \<and> map_of (local_writes st) k = Some (r, t) \<and> distinct (map fst (local_writes st))"

lemma map_of_keep_local:
  "map_of (keep_local (k', r', t') es) k =
     (if k = k' \<and> is_none_or (\<lambda>s. os_updated_at_ms s < os_updated_at_ms r') (map_of es k) then Some r' else map_of es k)"
  by (auto simp: keep_local_def AList.update_conv')

lemma keep_local_other: "k \<notin> fst ` set ws \<Longrightarrow> map_of (fold keep_local ws es) k = map_of es k"
proof (induction ws arbitrary: es)
  case (Cons w ws)
  then show ?case by (cases w) (simp add: map_of_keep_local)
qed simp

lemma keep_local_written:
  "distinct (map fst ws) \<Longrightarrow> (k, r, t) \<in> set ws \<Longrightarrow> is_none_or (\<lambda>s. s = r \<or> os_updated_at_ms s < os_updated_at_ms r) (map_of es k) \<Longrightarrow>
   map_of (fold keep_local ws es) k = Some r"
proof (induction ws arbitrary: es)
  case (Cons w ws)
  obtain k' r' t' where w: "w = (k', r', t')" by (metis prod_cases3)
  show ?case
  proof (cases "k' = k")
    case True
    then have "w = (k, r, t)" "k \<notin> fst ` set ws" using Cons.prems(1,2) w by force+
    then show ?thesis
      using Cons.prems(3) by (cases "map_of es k") (auto simp: keep_local_other map_of_keep_local is_none_or_def)
  next
    case False
    then show ?thesis using Cons w by (simp add: map_of_keep_local)
  qed
qed simp

lemma refresh_rows_older:
  assumes "map_of prev k = Some r"
    and "list_all (\<lambda>(_, p). is_none_or (\<lambda>r'. lkey_for (os_head r') (os_classifier r') \<noteq> k \<or> r' = r \<or> os_updated_at_ms r' < os_updated_at_ms r) p) rows"
    and "is_none_or (\<lambda>s. s = r \<or> os_updated_at_ms s < os_updated_at_ms r) (map_of es k)"
  shows "is_none_or (\<lambda>s. s = r \<or> os_updated_at_ms s < os_updated_at_ms r) (map_of (fold (refresh_row prev) rows es) k)"
  using assms(2,3)
proof (induction rows arbitrary: es)
  case (Cons row rows)
  obtain l p where row: "row = (l, p)" by (cases row)
  have "is_none_or (\<lambda>s. s = r \<or> os_updated_at_ms s < os_updated_at_ms r) (map_of (refresh_row prev row es) k)"
    using Cons.prems assms(1) row
    by (cases p; cases "map_of prev l") (auto simp: refresh_row_def AList.update_conv' is_none_or_def split: if_splits)
  then show ?case using Cons by simp
qed simp

lemma written_step:
  assumes "written k r t st" "respects_write k r t e"
  shows "written k r t (os_step e st)"
proof (cases e)
  case (OsSet now now_ms req key_id stored)
  then show ?thesis
    using assms by (auto simp: os_step_def respects_write_def off_switch_set_def apply_local_def publish_def written_def Let_def AList.update_conv'
        distinct_update simp del: map_of_eq_Some_iff split: sum.split)
next
  case (OsRefresh now scanned)
  show ?thesis
  proof (cases scanned)
    case (Inr rows)
    let ?kept = "filter (\<lambda>(_, _, t). now - t < LOCAL_WRITE_GRACE) (local_writes st)"
    have kept: "distinct (map fst ?kept)" "(k, r, t) \<in> set ?kept"
      using assms OsRefresh by (auto simp: written_def respects_write_def distinct_map_filter dest!: map_of_SomeD)
    have "map_of ?kept k = Some (r, t)" by (rule map_of_is_SomeI [OF kept])
    moreover have "is_none_or (\<lambda>s. s = r \<or> os_updated_at_ms s < os_updated_at_ms r) (map_of (fold (refresh_row (entries st)) rows []) k)"
      using assms OsRefresh Inr by (intro refresh_rows_older) (auto simp: written_def respects_write_def is_none_or_def [of _ None])
    ultimately show ?thesis
      using OsRefresh Inr kept keep_local_written [OF kept]
      by (simp add: os_step_def off_switch_refresh_def publish_def written_def Let_def)
  qed (use assms OsRefresh in \<open>simp add: os_step_def off_switch_refresh_def\<close>)
qed

lemma entry_hits:
  assumes "map_of (entries st) (lkey_for h c) = Some r" "is_active r later" "h \<noteq> []" "is_none_or (\<lambda>c. c \<noteq> []) c"
  shows "off_switch_lookup st h (unwrap_or c' c) later \<noteq> None"
  using assms by (cases c; cases "entries st") (auto simp: off_switch_lookup_def unwrap_or_def is_none_or_def split: option.split)

lemma valid_put_names: "validate_put req now_ms = Ok () \<Longrightarrow> rq_head req \<noteq> [] \<and> is_none_or (\<lambda>c. c \<noteq> []) (rq_classifier req)"
  by (auto simp: validate_put_def valid_name_def is_some_and_def is_none_or_def split: if_splits option.splits)

text \<open>
  C15. A switch that an operator has turned off stays off on the pod that wrote it, from the answer to the request on, whatever the pod's refreshes read
  within the grace: rows that do not have the write yet, older or unreadable rows, or errors. The switch ends at its
  time or with a later write.
\<close>

theorem switch_off_sticks:
  assumes "validate_put req now_ms = Ok ()" "rq_off req" "distinct (map fst (local_writes st))"
    and "r = put_record st req key_id now_ms" "k = lkey_for (rq_head req) (rq_classifier req)"
    and "list_all (respects_write k r now) es" "is_none_or (\<lambda>t. later < t) (rq_auto_on_at_ms req)"
  shows "off_switch_lookup (fold os_step es (fst (off_switch_set now now_ms req key_id (Ok ()) st))) (rq_head req)
    (unwrap_or c (rq_classifier req)) later \<noteq> None"
proof -
  let ?st = "fold os_step es (fst (off_switch_set now now_ms req key_id (Ok ()) st))"
  have "written k r now (fst (off_switch_set now now_ms req key_id (Ok ()) st))"
    using assms(1,3-5) by (simp add: off_switch_set_def apply_local_def publish_def written_def Let_def AList.update_conv' distinct_update)
  then have "written k r now ?st"
    using assms(6) by (induction es rule: rev_induct) (auto intro: written_step)
  then have "map_of (entries ?st) (lkey_for (rq_head req) (rq_classifier req)) = Some r" using assms(5) by (simp add: written_def)
  moreover have "is_active r later" using assms(2,4,7) by (simp add: is_active_def put_record_def)
  ultimately show ?thesis using valid_put_names [OF assms(1)] by (intro entry_hits) simp_all
qed

definition sample_put :: off_switch_put_request where
  "sample_put = \<lparr>rq_head = ''spam'', rq_classifier = None, rq_off = True, rq_reason = ''incident'', rq_auto_on_at_ms = None, rq_updated_by = None\<rparr>"

text \<open>Refreshes that fail and that read an empty partition.\<close>

theorem switch_off_sticks_witness:
  "off_switch_lookup (fold os_step [OsRefresh 1000 (Inl ''timeout''), OsRefresh 2000 (Inr [])]
     (fst (off_switch_set 0 77 sample_put ''key'' (Ok ()) off_switch_new))) ''spam'' ''model'' 100 \<noteq> None"
proof -
  have "validate_put sample_put 77 = Ok ()"
    by (simp add: validate_put_def sample_put_def valid_name_def MAX_NAME_LEN_def MAX_REASON_LEN_def is_some_and_def str_trim_def Let_def)
  from switch_off_sticks [OF this, of off_switch_new _ "''key''" _ 0 "[OsRefresh 1000 (Inl ''timeout''), OsRefresh 2000 (Inr [])]" 100 "''model''", OF _ _ refl refl]
  show ?thesis by (simp add: sample_put_def off_switch_new_def respects_write_def LOCAL_WRITE_GRACE_def is_none_or_def unwrap_or_def)
qed

section \<open>The record of seen pairs is bounded\<close>

definition seen_ok :: "off_switch \<Rightarrow> bool" where
  "seen_ok st \<longleftrightarrow> distinct (map fst (seen_guard st)) \<and> length (seen_guard st) \<le> SEEN_GUARD_MAX \<and> length (seen_queue st) \<le> SEEN_QUEUE"

lemma seen_ok_forget: "seen_ok st \<Longrightarrow> seen_ok (forget_seen k since st)"
  using length_delete_le [of k "seen_guard st"] by (auto simp: seen_ok_def forget_seen_def distinct_delete)

lemma seen_ok_write: "seen_ok st \<Longrightarrow> seen_ok (write_seen ok st)"
  by (auto simp: write_seen_def Let_def seen_ok_def split: list.split intro!: seen_ok_forget [unfolded seen_ok_def])

lemma length_alist_update: "length (AList.update k v al) = (if k \<in> fst ` set al then length al else Suc (length al))"
  by (induction al) auto

lemma seen_ok_insert:
  assumes "distinct (map fst guard)" "length guard \<le> SEEN_GUARD_MAX" "k \<in> fst ` set guard \<or> length guard < SEEN_GUARD_MAX"
    "length (seen_queue st) \<le> SEEN_QUEUE"
  shows "seen_ok (st\<lparr>seen_guard := AList.update k now guard\<rparr>)"
  using assms by (auto simp: seen_ok_def length_alist_update distinct_update)

lemma seen_ok_record: "seen_ok st \<Longrightarrow> seen_ok (fst (record_seen_at now now_ms head classifier st))"
proof (cases "\<not> valid_name head \<or> \<not> valid_name classifier \<or>
    is_some_and (\<lambda>t. now - t < SEEN_WRITE_EVERY) (map_of (seen_guard st) (seen_lkey head classifier))")
  case False
  assume ok: "seen_ok st"
  define k where "k = seen_lkey head classifier"
  define full where "full \<longleftrightarrow> SEEN_GUARD_MAX \<le> length (seen_guard st) \<and> map_of (seen_guard st) k = None"
  define guard where "guard = (if full then filter (\<lambda>(_, t). now - t < SEEN_WRITE_EVERY) (seen_guard st) else seen_guard st)"
  have guard: "distinct (map fst guard)" "length guard \<le> SEEN_GUARD_MAX"
    using ok by (auto simp: guard_def seen_ok_def distinct_map_filter intro: order_trans [OF length_filter_le])
  let ?st = "st\<lparr>seen_guard := AList.update k now guard\<rparr>"
  have run: "record_seen_at now now_ms head classifier st =
      (if full \<and> SEEN_GUARD_MAX \<le> length guard then (st\<lparr>seen_guard := guard\<rparr>, Dropped)
       else if length (seen_queue st) < SEEN_QUEUE
       then (?st\<lparr>seen_queue := seen_queue st @ [\<lparr>sn_head = head, sn_classifier = classifier, sn_last_seen_ms = now_ms\<rparr>]\<rparr>, Queued)
       else (forget_seen k (Some now) ?st, Dropped))"
    using False by (auto simp: record_seen_at_def Let_def k_def full_def guard_def)
  have "seen_ok ?st" if "\<not> (full \<and> SEEN_GUARD_MAX \<le> length guard)"
    using that guard ok by (intro seen_ok_insert) (auto simp: seen_ok_def full_def guard_def map_of_eq_None_iff not_le)
  then show ?thesis
    using guard ok seen_ok_forget [of ?st k "Some now"] by (auto simp: run seen_ok_def)
qed (auto simp: record_seen_at_def Let_def)

end
