(* ===== verification/Head_Guard.thy ===== *)
theory Head_Guard
  imports Off_Switch
begin

text \<open>
  The guard of heads (\<open>abuse-enforcement-service/service-lib/src/head_guard.rs\<close>, \<open>types/src/head_guard.rs\<close>): a head, or a head and classifier,
  may have ceilings on its actions in an hour and in a day. A guarded scope has a sliding-window counter of its own; when a count
  reaches a ceiling the guard turns the off switch of the scope off. The model composes those of the counter and of the switch. The answers of
  the stores and counters during a call and the clocks are the record \<open>guard_env\<close>.
\<close>

section \<open>Records\<close>

definition HEAD_GUARD_RECORD_VERSION :: nat where "HEAD_GUARD_RECORD_VERSION = 1"
definition MAX_OVERTURN_WINDOW_HOURS :: nat where "MAX_OVERTURN_WINDOW_HOURS = 168"
definition MAX_LIMIT :: nat where "MAX_LIMIT = 10000000"
definition MAX_MIN_DECIDED_APPEALS :: nat where "MAX_MIN_DECIDED_APPEALS = 100000"
definition TRIP_RETRY_AFTER :: nat where "TRIP_RETRY_AFTER = 5 * 1000"
definition GUARD_SCAN_LIMIT :: nat where "GUARD_SCAN_LIMIT = 10000"
definition GUARD_UPDATED_BY :: string where "GUARD_UPDATED_BY = ''head-guard''"

definition GUARD_WINDOWS :: window_spec where
  "GUARD_WINDOWS = \<lparr>windows_secs = [3600, 86400], snapshot_interval_secs = 60\<rparr>"

record overturn_guard =
  max_overturn_rate :: f64
  min_decided_appeals :: nat
  window_hours :: nat

record head_guard_record =
  hr_v :: nat
  hr_head :: string
  hr_classifier :: "string option"
  hr_max_actions_per_hour :: "nat option"
  hr_max_actions_per_day :: "nat option"
  hr_overturn :: "overturn_guard option"
  hr_reason :: string
  hr_updated_by :: string
  hr_key_id :: string
  hr_updated_at_ms :: int
  hr_version :: nat
  hr_write_nonce :: nat

definition guard_scope :: "string option \<Rightarrow> string" where
  "guard_scope classifier = (if classifier \<noteq> None then ''pair'' else ''head'')"

definition guard_is_active :: "head_guard_record \<Rightarrow> bool" where
  "guard_is_active r \<longleftrightarrow> hr_max_actions_per_hour r \<noteq> None \<or> hr_max_actions_per_day r \<noteq> None \<or> hr_overturn r \<noteq> None"

text \<open>\<open>bucket_id\<close>: FNV-1a over the bytes of the key, in 64-bit words.\<close>

definition bucket_id :: "string \<Rightarrow> int" where
  "bucket_id k =
     (let h = fold (\<lambda>b h. xor h (of_nat (of_char b)) * 0x100000001b3) k (0xcbf29ce484222325 :: 64 word)
      in 1000 + int (unat h mod (2 ^ 63 - 1 - 1000)))"

definition counting_floor_ms :: "off_switch_record option \<Rightarrow> int \<Rightarrow> int option" where
  "counting_floor_ms switch now_ms =
     (case switch of
        None \<Rightarrow> Some 0
      | Some s \<Rightarrow> if \<not> os_off s then Some (os_updated_at_ms s)
                  else (case os_auto_on_at_ms s of Some t \<Rightarrow> if t \<le> now_ms then Some t else None | None \<Rightarrow> None))"

definition ceilings :: "head_guard_record \<Rightarrow> (string \<times> nat option) list" where
  "ceilings r = [(''1h'', hr_max_actions_per_hour r), (''24h'', hr_max_actions_per_day r)]"

definition check_fields ::
  "string \<Rightarrow> string option \<Rightarrow> nat option \<Rightarrow> nat option \<Rightarrow> overturn_guard option \<Rightarrow> (string \<times> string) + unit" where
  "check_fields head classifier per_hour per_day overturn =
     (let bad = (\<lambda>limit. is_some_and (\<lambda>n. \<not> (1 \<le> n \<and> n \<le> MAX_LIMIT)) limit)
      in if \<not> valid_name head then Inl (''invalid_head'', ''head must be 1-256 characters of [A-Za-z0-9_.:@-]'')
         else if is_some_and (\<lambda>c. \<not> valid_name c) classifier
         then Inl (''invalid_classifier'', ''classifier must be null or 1-256 characters of [A-Za-z0-9_.:@-]'')
         else if bad per_hour then Inl (''invalid_limit'', ''max_actions_per_hour must be 1-'' @ show_nat MAX_LIMIT)
         else if bad per_day then Inl (''invalid_limit'', ''max_actions_per_day must be 1-'' @ show_nat MAX_LIMIT)
         else if (case (per_hour, per_day) of (Some h, Some d) \<Rightarrow> d < h | _ \<Rightarrow> False)
         then Inl (''invalid_limit'', ''max_actions_per_hour is more than max_actions_per_day'')
         else case overturn of
                None \<Rightarrow> Inr ()
              | Some g \<Rightarrow>
                  if \<not> (f64_gt (max_overturn_rate g) (F_Fin 0) \<and> f64_gt (F_Fin 1) (max_overturn_rate g))
                  then Inl (''invalid_overturn'', ''overturn.max_overturn_rate must be strictly between 0 and 1'')
                  else if \<not> (1 \<le> min_decided_appeals g \<and> min_decided_appeals g \<le> MAX_MIN_DECIDED_APPEALS)
                  then Inl (''invalid_overturn'', ''overturn.min_decided_appeals must be 1-'' @ show_nat MAX_MIN_DECIDED_APPEALS)
                  else if \<not> (1 \<le> window_hours g \<and> window_hours g \<le> MAX_OVERTURN_WINDOW_HOURS)
                  then Inl (''invalid_overturn'', ''overturn.window_hours must be 1-'' @ show_nat MAX_OVERTURN_WINDOW_HOURS)
                  else Inr ())"

text \<open>A row of the store: what \<open>serde_json\<close> reads in it, and its version as a number in the raw value.\<close>

record guard_row =
  gr_parsed :: "string + head_guard_record"
  gr_raw_version :: nat

definition parse_guard :: "string \<Rightarrow> guard_row \<Rightarrow> head_guard_record result" where
  "parse_guard k row =
     (case gr_parsed row of
        Inl e \<Rightarrow> Err e
      | Inr r \<Rightarrow>
          if HEAD_GUARD_RECORD_VERSION < hr_v r then Err (''record version '' @ show_nat (hr_v r) @ '' is newer than this pod'')
          else case check_fields (hr_head r) (hr_classifier r) (hr_max_actions_per_hour r) (hr_max_actions_per_day r) (hr_overturn r) of
                 Inl (_, detail) \<Rightarrow> Err detail
               | Inr _ \<Rightarrow> let own = lkey_for (hr_head r) (hr_classifier r)
                          in if own \<noteq> k then Err (''the record names '' @ own @ '', not its lkey'') else Ok r)"

section \<open>Ceilings\<close>

record reached =
  re_head :: string
  re_classifier :: "string option"
  re_window :: string
  re_limit :: nat
  re_count :: int
  re_version :: nat

definition ceiling_step :: "head_guard_record \<Rightarrow> (string \<times> nat option) \<times> int \<Rightarrow> reached option \<Rightarrow> reached option" where
  "ceiling_step rec w acc =
     (case w of ((window, limit), n) \<Rightarrow>
        (case limit of
           None \<Rightarrow> acc
         | Some l \<Rightarrow>
             let over = n - int l
             in if 0 \<le> over \<and> is_none_or (\<lambda>o'. re_count o' - int (re_limit o') < over) acc
                then Some \<lparr>re_head = hr_head rec, re_classifier = hr_classifier rec, re_window = window, re_limit = l, re_count = n, re_version = hr_version rec\<rparr>
                else acc))"

definition at_ceiling :: "head_guard_record \<Rightarrow> int list \<Rightarrow> reached option" where
  "at_ceiling rec counts = fold (ceiling_step rec) (zip (ceilings rec) counts) None"

definition trip_reason :: "reached \<Rightarrow> string" where
  "trip_reason r = ''action ceiling: '' @ show_nat (re_limit r) @ '' in '' @ re_window r @ '' (guard v'' @ show_nat (re_version r) @ '')''"

section \<open>The guard of a pod\<close>

record head_guard =
  guards :: "(string \<times> head_guard_record) list"
  unreadable :: "(string \<times> string \<times> nat) list"
  guard_loaded_at :: "nat option"
  guard_local_writes :: "(string \<times> head_guard_record \<times> nat) list"
  counters :: "(string \<times> sw_state) list"
  trips :: "(string \<times> nat \<times> nat option) list"

record guard_env =
  ge_now :: nat
  ge_now_ms :: int
  ge_now_secs :: nat
  ge_count :: "string \<Rightarrow> int option"
  ge_floor_scan :: "string \<Rightarrow> (string \<times> string) list option"
  ge_switch_scan :: "string \<Rightarrow> string + (string \<times> off_switch_record option) list"
  ge_snapshot_ok :: "string \<Rightarrow> bool"
  ge_switch_put :: "string \<Rightarrow> unit result"

text \<open>The keys of the scopes of a decision that have a guard and a counter.\<close>

definition guard_keys :: "head_guard \<Rightarrow> string \<Rightarrow> string \<Rightarrow> string list" where
  "guard_keys g head classifier =
     (if \<not> valid_name head then []
      else filter (\<lambda>k. map_of (guards g) k \<noteq> None \<and> map_of (counters g) k \<noteq> None)
             (lkey_for head None # (if valid_name classifier then [lkey_for head (Some classifier)] else [])))"

text \<open>The floor of a scope's counter follows its switch; a raised floor is followed by a refresh.\<close>

definition follow_switch :: "guard_env \<Rightarrow> off_switch \<Rightarrow> string \<Rightarrow> head_guard \<Rightarrow> head_guard" where
  "follow_switch env os k g =
     (case (map_of (counters g) k, counting_floor_ms (map_of (entries os) k) (ge_now_ms env)) of
        (Some c, Some ms) \<Rightarrow>
          (let (c', raised) = set_floor c (nat (max ms 0))
           in if raised then g\<lparr>counters := AList.update k (refresh_end GUARD_WINDOWS (ge_now_secs env) (floor_ms c') (ge_floor_scan env k) c') (counters g)\<rparr>
              else g)
      | _ \<Rightarrow> g)"

definition guard_scopes :: "guard_env \<Rightarrow> off_switch \<Rightarrow> string \<Rightarrow> string \<Rightarrow> head_guard \<Rightarrow> head_guard \<times> string list" where
  "guard_scopes env os head classifier g =
     (let ks = guard_keys g head classifier in (fold (follow_switch env os) ks g, ks))"

definition trip_request :: "reached \<Rightarrow> off_switch_put_request" where
  "trip_request r = \<lparr>rq_head = re_head r, rq_classifier = re_classifier r, rq_off = True, rq_reason = trip_reason r, rq_auto_on_at_ms = None,
     rq_updated_by = Some GUARD_UPDATED_BY\<rparr>"

text \<open>\<open>write_snapshot\<close> of the scope's counter during a trip.\<close>

definition snapshot_counter :: "guard_env \<Rightarrow> string \<Rightarrow> head_guard \<Rightarrow> head_guard" where
  "snapshot_counter env k g =
     (case map_of (counters g) k of
        None \<Rightarrow> g
      | Some c \<Rightarrow>
          (case write_begin GUARD_WINDOWS (ge_now_secs env) c of
             None \<Rightarrow> g
           | Some (_, n) \<Rightarrow> g\<lparr>counters := AList.update k (write_end n (ge_snapshot_ok env k) c) (counters g)\<rparr>))"

datatype trip_result = Tripped | TripSkipped | TripError

definition trip_once :: "guard_env \<Rightarrow> string \<Rightarrow> reached \<Rightarrow> off_switch \<Rightarrow> head_guard \<Rightarrow> off_switch \<times> head_guard \<times> trip_result" where
  "trip_once env k r os g =
     (let floor_of = (case map_of (counters g) k of Some c \<Rightarrow> floor_ms c | None \<Rightarrow> 0);
          held = (case map_of (trips g) k of Some (f, retry_at) \<Rightarrow> f = floor_of \<and> is_none_or (\<lambda>t. ge_now env < t) retry_at | None \<Rightarrow> False)
      in if held then (os, g, TripSkipped)
         else
           let g1 = g\<lparr>trips := AList.update k (floor_of, None) (trips g)\<rparr>;
               (os1, refreshed) = off_switch_refresh (ge_now env) (ge_switch_scan env k) os;
               moved = (case refreshed of
                   Inr _ \<Rightarrow> is_none_or (\<lambda>ms. nat (max ms 0) \<noteq> floor_of) (counting_floor_ms (map_of (entries os1) k) (ge_now_ms env))
                 | Inl _ \<Rightarrow> False)
           in if moved then (os1, g1, TripSkipped)
              else
                let g2 = snapshot_counter env k g1;
                    (os2, done) = off_switch_set (ge_now env) (ge_now_ms env) (trip_request r) GUARD_UPDATED_BY (ge_switch_put env k) os1
                in case done of
                     Inr _ \<Rightarrow> (os2, g2, Tripped)
                   | Inl _ \<Rightarrow> (os2, g2\<lparr>trips := AList.update k (floor_of, Some (ge_now env + TRIP_RETRY_AFTER)) (trips g2)\<rparr>, TripError))"

text \<open>\<open>check\<close> reads the counters, \<open>count\<close> also counts the action.\<close>

fun check_scopes :: "guard_env \<Rightarrow> string list \<Rightarrow> off_switch \<Rightarrow> head_guard \<Rightarrow> off_switch \<times> head_guard \<times> reached option" where
  "check_scopes env [] os g = (os, g, None)"
| "check_scopes env (k # ks) os g =
     (case (map_of (guards g) k, map_of (counters g) k) of
        (Some rec, Some c) \<Rightarrow>
          (case at_ceiling rec (rolling_cached c) of
             None \<Rightarrow> check_scopes env ks os g
           | Some r \<Rightarrow> (let (os', g', _) = trip_once env k r os g in (os', g', Some r)))
      | _ \<Rightarrow> check_scopes env ks os g)"

definition guard_check :: "guard_env \<Rightarrow> string \<Rightarrow> string \<Rightarrow> off_switch \<Rightarrow> head_guard \<Rightarrow> off_switch \<times> head_guard \<times> reached option" where
  "guard_check env head classifier os g = (let (g', ks) = guard_scopes env os head classifier g in check_scopes env ks os g')"

fun count_scopes :: "guard_env \<Rightarrow> string list \<Rightarrow> off_switch \<Rightarrow> head_guard \<Rightarrow> off_switch \<times> head_guard \<times> reached option" where
  "count_scopes env [] os g = (os, g, None)"
| "count_scopes env (k # ks) os g =
     (case (map_of (guards g) k, map_of (counters g) k) of
        (Some rec, Some c) \<Rightarrow>
          (let (c', answer) = increment_and_rolling c (ge_count env k);
               g' = g\<lparr>counters := AList.update k c' (counters g)\<rparr>
           in case answer of
                None \<Rightarrow> count_scopes env ks os g'
              | Some counts \<Rightarrow>
                  (case at_ceiling rec counts of
                     None \<Rightarrow> count_scopes env ks os g'
                   | Some r \<Rightarrow>
                       (let (os', g'', _) = trip_once env k r os g'
                        in if int (re_limit r) < re_count r then (os', g'', Some r) else count_scopes env ks os' g'')))
      | _ \<Rightarrow> count_scopes env ks os g)"

definition guard_count :: "guard_env \<Rightarrow> string \<Rightarrow> string \<Rightarrow> off_switch \<Rightarrow> head_guard \<Rightarrow> off_switch \<times> head_guard \<times> reached option" where
  "guard_count env head classifier os g = (let (g', ks) = guard_scopes env os head classifier g in count_scopes env ks os g')"

section \<open>Reading and writing guards\<close>

definition sync_counters :: "bool \<Rightarrow> string list \<Rightarrow> head_guard \<Rightarrow> head_guard" where
  "sync_counters has_factory with_ceiling g =
     (if \<not> has_factory then g
      else let kept = filter (\<lambda>(k, _). k \<in> set with_ceiling) (counters g)
           in g\<lparr>counters := fold (\<lambda>k cs. if map_of cs k = None then AList.update k (sw_new GUARD_WINDOWS) cs else cs) with_ceiling kept\<rparr>)"

definition publish_guards ::
  "bool \<Rightarrow> (string \<times> head_guard_record) list \<Rightarrow> (string \<times> string \<times> nat) list \<Rightarrow> nat option \<Rightarrow> head_guard \<Rightarrow> head_guard" where
  "publish_guards has_factory gs un loaded_now g =
     (let with_ceiling = map fst (filter (\<lambda>(_, r). list_ex (\<lambda>(_, limit). limit \<noteq> None) (ceilings r)) gs)
      in sync_counters has_factory with_ceiling
           (g\<lparr>guards := gs, unreadable := un, guard_loaded_at := or_else loaded_now (guard_loaded_at g)\<rparr>))"

definition guard_row_step ::
  "(string \<times> head_guard_record) list \<Rightarrow> string \<times> guard_row \<Rightarrow> (string \<times> head_guard_record) list \<times> (string \<times> string \<times> nat) list \<Rightarrow>
   (string \<times> head_guard_record) list \<times> (string \<times> string \<times> nat) list" where
  "guard_row_step prev row acc =
     (case (row, acc) of ((k, v), (gs, un)) \<Rightarrow>
        (case parse_guard k v of
           Inr r \<Rightarrow> (AList.update k r gs, un)
         | Inl e \<Rightarrow> (case map_of prev k of Some old \<Rightarrow> (AList.update k old gs, un) | None \<Rightarrow> (gs, AList.update k (e, gr_raw_version v) un))))"

definition keep_guard ::
  "string \<times> head_guard_record \<times> nat \<Rightarrow> (string \<times> head_guard_record) list \<times> (string \<times> string \<times> nat) list \<Rightarrow>
   (string \<times> head_guard_record) list \<times> (string \<times> string \<times> nat) list" where
  "keep_guard w acc =
     (case (w, acc) of ((k, r, _), (gs, un)) \<Rightarrow>
        if is_none_or (\<lambda>s. hr_version s < hr_version r) (map_of gs k) then (AList.update k r gs, AList.delete k un) else (gs, un))"

definition guard_refresh :: "bool \<Rightarrow> nat \<Rightarrow> string + (string \<times> guard_row) list \<Rightarrow> head_guard \<Rightarrow> head_guard \<times> nat result" where
  "guard_refresh has_factory now scanned g =
     (case scanned of
        Inl e \<Rightarrow> (g, Err e)
      | Inr rows \<Rightarrow>
          if GUARD_SCAN_LIMIT \<le> length rows
          then (g, Err (''head-guard scan returned '' @ show_nat (length rows) @ '' rows, its limit; the list may be incomplete''))
          else
            let kept = filter (\<lambda>(_, _, t). now - t < LOCAL_WRITE_GRACE) (guard_local_writes g);
                (gs, un) = fold keep_guard kept (fold (guard_row_step (guards g)) rows ([], []))
            in (publish_guards has_factory gs un (Some now) (g\<lparr>guard_local_writes := kept\<rparr>), Ok (length rows)))"

definition guard_ready :: "bool \<Rightarrow> head_guard \<Rightarrow> bool" where
  "guard_ready enabled g \<longleftrightarrow> \<not> enabled \<or> guard_loaded_at g \<noteq> None"

record head_guard_put_request =
  hp_head :: string
  hp_classifier :: "string option"
  hp_max_actions_per_hour :: "nat option"
  hp_max_actions_per_day :: "nat option"
  hp_overturn :: "overturn_guard option"
  hp_reason :: string
  hp_expected_version :: "nat option"

datatype guard_set_error =
    GuardInvalid string string
  | GuardConflict "head_guard_record option" "nat option"
  | GuardLostRace "head_guard_record option"
  | GuardStore string

definition validate_guard :: "head_guard_put_request \<Rightarrow> string \<Rightarrow> guard_set_error + unit" where
  "validate_guard req who =
     (case check_fields (hp_head req) (hp_classifier req) (hp_max_actions_per_hour req) (hp_max_actions_per_day req) (hp_overturn req) of
        Inl (code, detail) \<Rightarrow> Inl (GuardInvalid code detail)
      | Inr _ \<Rightarrow>
          if str_trim (hp_reason req) = [] then Inl (GuardInvalid ''invalid_reason'' ''reason is required'')
          else if MAX_REASON_LEN < length (hp_reason req)
          then Inl (GuardInvalid ''invalid_reason'' (''reason is longer than '' @ show_nat MAX_REASON_LEN @ '' bytes''))
          else if MAX_NAME_LEN < length who then Inl (GuardInvalid ''invalid_updated_by'' (''who is longer than '' @ show_nat MAX_NAME_LEN @ '' bytes''))
          else Inr ())"

definition apply_local_guard :: "bool \<Rightarrow> nat \<Rightarrow> string \<Rightarrow> head_guard_record \<Rightarrow> head_guard \<Rightarrow> head_guard" where
  "apply_local_guard has_factory now k r g =
     publish_guards has_factory (AList.update k r (guards g)) (AList.delete k (unreadable g)) None
       (g\<lparr>guard_local_writes := AList.update k (r, now) (guard_local_writes g)\<rparr>)"

text \<open>
  A write with an expected version. The three answers of the store are arguments: the row before, the write, and the row read back, which shows whether another
  writer came in between.
\<close>

definition guard_set ::
  "bool \<Rightarrow> nat \<Rightarrow> int \<Rightarrow> head_guard_put_request \<Rightarrow> string \<Rightarrow> string \<Rightarrow> nat \<Rightarrow> string + guard_row option \<Rightarrow> unit result \<Rightarrow> string + guard_row option \<Rightarrow>
   head_guard \<Rightarrow> head_guard \<times> (guard_set_error + head_guard_record \<times> head_guard_record option)" where
  "guard_set has_factory now now_ms req who key_id n stored_answer put_answer readback_answer g =
     (case validate_guard req who of
        Inl e \<Rightarrow> (g, Inl e)
      | Inr _ \<Rightarrow>
          let k = lkey_for (hp_head req) (hp_classifier req)
          in case stored_answer of
               Inl e \<Rightarrow> (g, Inl (GuardStore e))
             | Inr stored \<Rightarrow>
                 let stored_version = map_option gr_raw_version stored;
                     before = Option.bind stored (\<lambda>row. case parse_guard k row of Inr r \<Rightarrow> Some r | Inl _ \<Rightarrow> None)
                 in if stored_version \<noteq> hp_expected_version req then (g, Inl (GuardConflict before stored_version))
                    else
                      let r = \<lparr>hr_v = HEAD_GUARD_RECORD_VERSION, hr_head = hp_head req, hr_classifier = hp_classifier req,
                            hr_max_actions_per_hour = hp_max_actions_per_hour req, hr_max_actions_per_day = hp_max_actions_per_day req,
                            hr_overturn = hp_overturn req, hr_reason = str_trim (hp_reason req), hr_updated_by = who, hr_key_id = key_id,
                            hr_updated_at_ms = now_ms, hr_version = unwrap_or 0 stored_version + 1, hr_write_nonce = n\<rparr>
                      in case put_answer of
                           Inl e \<Rightarrow> (g, Inl (GuardStore e))
                         | Inr _ \<Rightarrow>
                             (case (case readback_answer of
                                      Inr (Some row) \<Rightarrow> (case parse_guard k row of Inr s \<Rightarrow> Some s | Inl _ \<Rightarrow> None)
                                    | _ \<Rightarrow> None) of
                                Some s \<Rightarrow> if hr_write_nonce s = n then (apply_local_guard has_factory now k r g, Inr (r, before))
                                          else (g, Inl (GuardLostRace (Some s)))
                              | None \<Rightarrow> (g, Inl (GuardStore ''the write landed but reading it back failed; pods pick up whatever the store holds within 5 s, so reload to see it''))))"

section \<open>A ceiling that is reached\<close>

definition ceiling_reached :: "head_guard_record \<Rightarrow> int \<Rightarrow> int \<Rightarrow> bool" where
  "ceiling_reached rec h d \<longleftrightarrow> is_some_and (\<lambda>l. int l \<le> h) (hr_max_actions_per_hour rec) \<or> is_some_and (\<lambda>l. int l \<le> d) (hr_max_actions_per_day rec)"

definition ceiling_exceeded :: "head_guard_record \<Rightarrow> int \<Rightarrow> int \<Rightarrow> bool" where
  "ceiling_exceeded rec h d \<longleftrightarrow> is_some_and (\<lambda>l. int l < h) (hr_max_actions_per_hour rec) \<or> is_some_and (\<lambda>l. int l < d) (hr_max_actions_per_day rec)"

lemma at_ceiling_None: "at_ceiling rec [h, d] = None \<longleftrightarrow> \<not> ceiling_reached rec h d"
  by (cases "hr_max_actions_per_hour rec"; cases "hr_max_actions_per_day rec")
    (auto simp: at_ceiling_def ceilings_def ceiling_step_def ceiling_reached_def is_none_or_def is_some_and_def Let_def)

lemma at_ceiling_Some:
  assumes "at_ceiling rec [h, d] = Some r"
  shows "re_head r = hr_head rec \<and> re_classifier r = hr_classifier rec \<and> (int (re_limit r) < re_count r \<longleftrightarrow> ceiling_exceeded rec h d)"
  using assms
  by (cases "hr_max_actions_per_hour rec"; cases "hr_max_actions_per_day rec")
    (auto simp: at_ceiling_def ceilings_def ceiling_step_def ceiling_exceeded_def is_none_or_def is_some_and_def Let_def split: if_splits)

lemma at_ceiling_fields:
  assumes "at_ceiling rec [h, d] = Some r"
  shows "re_window r \<in> {''1h'', ''24h''} \<and> re_version r = hr_version rec \<and>
    (hr_max_actions_per_hour rec = Some (re_limit r) \<or> hr_max_actions_per_day rec = Some (re_limit r))"
  using assms
  by (cases "hr_max_actions_per_hour rec"; cases "hr_max_actions_per_day rec")
    (auto simp: at_ceiling_def ceilings_def ceiling_step_def is_none_or_def Let_def split: if_splits)

text \<open>A guard as the store accepts it.\<close>

definition guard_ok :: "head_guard_record \<Rightarrow> bool" where
  "guard_ok rec \<longleftrightarrow> check_fields (hr_head rec) (hr_classifier rec) (hr_max_actions_per_hour rec) (hr_max_actions_per_day rec) (hr_overturn rec) = Inr () \<and>
     hr_version rec < 2 ^ 64"

lemma trip_reason_valid:
  assumes "re_limit r < 10 ^ 20" "re_version r < 10 ^ 20" "re_window r \<in> {''1h'', ''24h''}"
  shows "str_trim (trip_reason r) = trip_reason r \<and> trip_reason r \<noteq> [] \<and> length (trip_reason r) \<le> MAX_REASON_LEN"
proof -
  have "length (show_nat (re_limit r)) \<le> 20" "length (show_nat (re_version r)) \<le> 20"
    using length_show_nat [of _ 19] assms by simp_all
  then have "length (trip_reason r) \<le> MAX_REASON_LEN" using assms(3) by (auto simp: trip_reason_def MAX_REASON_LEN_def)
  moreover have "str_trim (trip_reason r) = trip_reason r" by (rule str_trim_id) (simp_all add: trip_reason_def)
  ultimately show ?thesis by (simp add: trip_reason_def)
qed

lemma trip_request_valid:
  assumes "guard_ok rec" "at_ceiling rec [h, d] = Some r"
  shows "validate_put (trip_request r) now_ms = Ok ()"
proof -
  note fields = at_ceiling_fields [OF assms(2)]
  have names: "valid_name (re_head r)" "\<not> is_some_and (\<lambda>c. \<not> valid_name c) (re_classifier r)"
    using assms at_ceiling_Some [OF assms(2)] by (auto simp: guard_ok_def check_fields_def Let_def split: if_splits)
  have "re_limit r \<le> MAX_LIMIT"
    using assms(1) fields by (auto simp: guard_ok_def check_fields_def is_some_and_def Let_def split: if_splits option.splits)
  then have "re_limit r < 10 ^ 20" "re_version r < 10 ^ 20"
    using assms(1) fields by (simp_all add: MAX_LIMIT_def guard_ok_def)
  from trip_reason_valid [OF this] fields names show ?thesis
    by (auto simp: validate_put_def trip_request_def is_some_and_def GUARD_UPDATED_BY_def MAX_NAME_LEN_def)
qed

text \<open>Nothing stands in the way of a trip: none is on record for the scope, and the switch has not moved, as far as the store answers.\<close>

definition may_trip :: "guard_env \<Rightarrow> string \<Rightarrow> nat \<Rightarrow> off_switch \<Rightarrow> head_guard \<Rightarrow> bool" where
  "may_trip env k fl os g \<longleftrightarrow> map_of (trips g) k = None \<and>
     (case off_switch_refresh (ge_now env) (ge_switch_scan env k) os of
        (os1, Inr _) \<Rightarrow> (case counting_floor_ms (map_of (entries os1) k) (ge_now_ms env) of Some ms \<Rightarrow> nat (max ms 0) = fl | None \<Rightarrow> False)
      | (_, Inl _) \<Rightarrow> True)"

lemma trip_turns_off:
  assumes "map_of (counters g) k = Some c" "may_trip env k (floor_ms c) os g" "ge_switch_put env k = Ok ()"
    and "validate_put (trip_request r) (ge_now_ms env) = Ok ()" "k = lkey_for (re_head r) (re_classifier r)"
  shows "\<exists>os' g'. trip_once env k r os g = (os', g', Tripped) \<and> off_switch_lookup os' (re_head r) (unwrap_or cl (re_classifier r)) later \<noteq> None"
proof -
  obtain os1 refreshed where refresh: "off_switch_refresh (ge_now env) (ge_switch_scan env k) os = (os1, refreshed)" by force
  have moved: "\<not> (case refreshed of Inr _ \<Rightarrow> is_none_or (\<lambda>ms. nat (max ms 0) \<noteq> floor_ms c) (counting_floor_ms (map_of (entries os1) k) (ge_now_ms env))
      | Inl _ \<Rightarrow> False)"
    using assms(2) refresh by (auto simp: may_trip_def is_none_or_def split: sum.splits option.splits)
  let ?rec = "put_record os1 (trip_request r) GUARD_UPDATED_BY (ge_now_ms env)"
  let ?os = "fst (apply_local (ge_now env) k ?rec os1)"
  have set: "off_switch_set (ge_now env) (ge_now_ms env) (trip_request r) GUARD_UPDATED_BY (ge_switch_put env k) os1 =
      (?os, Inr (switch_view ?rec (ge_now_ms env), map_of (entries os1) k))"
    using assms(3-5) by (simp add: off_switch_set_def apply_local_def Let_def trip_request_def)
  have "\<exists>g'. trip_once env k r os g = (?os, g', Tripped)"
    unfolding trip_once_def using assms(1,2) moved by (simp add: refresh set may_trip_def Let_def)
  moreover have "map_of (entries ?os) (lkey_for (re_head r) (re_classifier r)) = Some ?rec"
    using assms(5) by (simp add: apply_local_def publish_def AList.update_conv')
  moreover have "is_active ?rec later" by (simp add: is_active_def put_record_def trip_request_def is_none_or_def)
  moreover have "re_head r \<noteq> [] \<and> is_none_or (\<lambda>c. c \<noteq> []) (re_classifier r)"
    using valid_put_names [OF assms(4)] by (simp add: trip_request_def)
  ultimately show ?thesis using entry_hits by blast
qed

text \<open>
  C14. The guard acts exactly at the ceiling. Let an action be counted for one scope that has a valid guard and a counter, let the counter
  answer, let no trip of the scope be on record and the switch, as far as the store can be read, still give the floor of the counter
  (\<open>may_trip\<close>), and let the store take the write of the switch. When the count brings the hour or the day to its ceiling, the off switch of the
  scope is set, and every lookup in the state after the count finds it off, at any later time; the action itself is refused exactly when a ceiling is
  exceeded. Below the ceilings the switch is left as it is and the action goes on.
\<close>

theorem guard_acts_at_ceiling:
  assumes guard: "map_of (guards g) k = Some rec" "k = lkey_for (hr_head rec) (hr_classifier rec)" "guard_ok rec"
    and counter: "map_of (counters g) k = Some c" "increment_and_rolling c (ge_count env k) = (c', Some [h, d])"
    and trip: "may_trip env k (floor_ms c') os (g\<lparr>counters := AList.update k c' (counters g)\<rparr>)" "ge_switch_put env k = Ok ()"
  shows "\<exists>os' g' r. count_scopes env [k] os g = (os', g', r) \<and> (r \<noteq> None \<longleftrightarrow> ceiling_exceeded rec h d) \<and>
    (if ceiling_reached rec h d then off_switch_lookup os' (hr_head rec) (unwrap_or cl (hr_classifier rec)) later \<noteq> None else os' = os)"
proof (cases "at_ceiling rec [h, d]")
  case None
  then have "\<not> ceiling_reached rec h d" by (simp add: at_ceiling_None)
  moreover then have "\<not> ceiling_exceeded rec h d"
    by (auto simp: ceiling_reached_def ceiling_exceeded_def is_some_and_def split: option.splits)
  ultimately show ?thesis using guard(1) counter None by simp
next
  case (Some r)
  let ?g = "g\<lparr>counters := AList.update k c' (counters g)\<rparr>"
  note r = at_ceiling_Some [OF Some]
  have "map_of (counters ?g) k = Some c'" by (simp add: AList.update_conv')
  from trip_turns_off [OF this trip trip_request_valid [OF guard(3) Some]]
  obtain os' g' where "trip_once env k r os ?g = (os', g', Tripped)" "off_switch_lookup os' (hr_head rec) (unwrap_or cl (hr_classifier rec)) later \<noteq> None"
    using guard(2) r by fastforce
  moreover have "ceiling_reached rec h d" using Some at_ceiling_None [of rec h d] by simp
  ultimately show ?thesis using guard(1) counter Some r by simp
qed

text \<open>A guard of two actions in an hour, whose second action is counted.\<close>

definition sample_guard :: head_guard_record where
  "sample_guard = \<lparr>hr_v = 1, hr_head = ''spam'', hr_classifier = None, hr_max_actions_per_hour = Some 2, hr_max_actions_per_day = None,
     hr_overturn = None, hr_reason = ''r'', hr_updated_by = ''u'', hr_key_id = ''k'', hr_updated_at_ms = 0, hr_version = 1, hr_write_nonce = 0\<rparr>"

definition sample_counter :: sw_state where
  "sample_counter = (sw_new GUARD_WINDOWS)\<lparr>seeded := True, cached_of := replicate 2 (default_cached\<lparr>present := True\<rparr>)\<rparr>"

definition sample_head_guard :: head_guard where
  "sample_head_guard = \<lparr>guards = [(''h/spam'', sample_guard)], unreadable = [], guard_loaded_at = Some 0, guard_local_writes = [],
     counters = [(''h/spam'', sample_counter)], trips = []\<rparr>"

definition sample_guard_env :: guard_env where
  "sample_guard_env = \<lparr>ge_now = 0, ge_now_ms = 5, ge_now_secs = 0, ge_count = (\<lambda>_. Some 2), ge_floor_scan = (\<lambda>_. None),
     ge_switch_scan = (\<lambda>_. Inr []), ge_snapshot_ok = (\<lambda>_. True), ge_switch_put = (\<lambda>_. Ok ())\<rparr>"

theorem guard_acts_at_ceiling_witness:
  "\<exists>os' g'. count_scopes sample_guard_env [''h/spam''] off_switch_new sample_head_guard = (os', g', None) \<and>
     off_switch_lookup os' ''spam'' ''model'' 100 \<noteq> None"
proof -
  have ok: "guard_ok sample_guard"
    by (simp add: guard_ok_def sample_guard_def check_fields_def valid_name_def MAX_NAME_LEN_def MAX_LIMIT_def is_some_and_def Let_def)
  have key: "''h/spam'' = lkey_for (hr_head sample_guard) (hr_classifier sample_guard)" by (simp add: lkey_for_def sample_guard_def)
  let ?c = "sample_counter\<lparr>last_count := 2, dirty := True\<rparr>"
  have counted: "increment_and_rolling sample_counter (ge_count sample_guard_env ''h/spam'') = (?c, Some [2, 2])"
    by (simp add: sample_guard_env_def increment_and_rolling_def sample_counter_def default_cached_def rolling_def numeral_2_eq_2)
  have trip: "may_trip sample_guard_env ''h/spam'' (floor_ms ?c) off_switch_new
      (sample_head_guard\<lparr>counters := AList.update ''h/spam'' ?c (counters sample_head_guard)\<rparr>)"
    by (simp add: may_trip_def sample_head_guard_def sample_guard_env_def off_switch_refresh_def off_switch_new_def publish_def counting_floor_ms_def
        sample_counter_def sw_new_def)
  have "map_of (guards sample_head_guard) ''h/spam'' = Some sample_guard" "map_of (counters sample_head_guard) ''h/spam'' = Some sample_counter"
    "ge_switch_put sample_guard_env ''h/spam'' = Ok ()"
    by (simp_all add: sample_head_guard_def sample_guard_env_def)
  from guard_acts_at_ceiling [OF this(1) key ok this(2) counted trip this(3), of "''model''" 100]
  show ?thesis
    by (auto simp: ceiling_exceeded_def ceiling_reached_def sample_guard_def is_some_and_def unwrap_or_def)
qed

end
