(* ===== verification/Vf_Hydrators.thy ===== *)
theory Vf_Hydrators
  imports Prelude
begin

text \<open>
  The inputs of the visibility service (\<open>visibility-filtering/hydration\<close>): the hydration nodes,
  sets of nodes as the 64-bit masks of \<open>hydration/hydrator.rs\<close>, the stake each node declares and
  what an answer of its backend means under that stake (\<open>hydration/inventory.rs\<close>). The lemmas
  read the masks as sets: a node belongs to a union, an intersection or a difference exactly when
  the sets say so, and the must-have part of a mask is empty exactly when no must-have node is in
  it.
\<close>

unbundle bit_operations_syntax

named_theorems hyd_simps \<open>masks of hydration nodes read bit by bit\<close>

section \<open>Nodes and masks\<close>

datatype vf_hydrator =
    H_PureCore | H_Tweet | H_ConversationControl | H_TweetSafetyLabels | H_ViewerProfile |
    H_ViewerLabels | H_AuthorSafety | H_AuthorLabels | H_Follows | H_Blocks | H_Mutes |
    H_MuteRetweets | H_BlockedByAuthor | H_BlockedByReplyRoot | H_SuperFollowsExclusive |
    H_RootFollowsViewer | H_RootFollowsViewerSecondDegree | H_SuperFollowsRoot |
    H_ViewerFollowsRoot | H_BlockedByConversationRoot | H_ConversationRootPost |
    H_BlockedByConversationRootPost | H_ViewerCountry | H_CommunityModeration |
    H_CommunityModerator | H_CommunityViewerRemoved | H_ArticleLifecycle | H_ArticleMediaEntities |
    H_ArticleCoverMedia | H_TrustedFriends | H_OutsideNarrowcastPlace | H_QuotedTweet |
    H_AuthorBlocksOuterAuthor | H_OuterAuthorFollowsAuthor | H_ReactedToPostSafetyLabels |
    H_ReactedToAuthorSafety | H_ViewerNotificationFilters | H_AuthorProfile |
    H_AuthorFollowsViewer | H_AuthorConfirmedEmail | H_AuthorVerifiedPhone | H_TweetState

fun hydrator_as_u8 :: "vf_hydrator \<Rightarrow> nat" where
  "hydrator_as_u8 H_PureCore = 0"
| "hydrator_as_u8 H_Tweet = 1"
| "hydrator_as_u8 H_ConversationControl = 2"
| "hydrator_as_u8 H_TweetSafetyLabels = 3"
| "hydrator_as_u8 H_ViewerProfile = 4"
| "hydrator_as_u8 H_ViewerLabels = 5"
| "hydrator_as_u8 H_AuthorSafety = 6"
| "hydrator_as_u8 H_AuthorLabels = 7"
| "hydrator_as_u8 H_Follows = 8"
| "hydrator_as_u8 H_Blocks = 9"
| "hydrator_as_u8 H_Mutes = 10"
| "hydrator_as_u8 H_MuteRetweets = 11"
| "hydrator_as_u8 H_BlockedByAuthor = 12"
| "hydrator_as_u8 H_BlockedByReplyRoot = 13"
| "hydrator_as_u8 H_SuperFollowsExclusive = 14"
| "hydrator_as_u8 H_RootFollowsViewer = 15"
| "hydrator_as_u8 H_RootFollowsViewerSecondDegree = 16"
| "hydrator_as_u8 H_SuperFollowsRoot = 17"
| "hydrator_as_u8 H_ViewerFollowsRoot = 18"
| "hydrator_as_u8 H_BlockedByConversationRoot = 19"
| "hydrator_as_u8 H_ConversationRootPost = 20"
| "hydrator_as_u8 H_BlockedByConversationRootPost = 21"
| "hydrator_as_u8 H_ViewerCountry = 22"
| "hydrator_as_u8 H_CommunityModeration = 23"
| "hydrator_as_u8 H_CommunityModerator = 24"
| "hydrator_as_u8 H_CommunityViewerRemoved = 25"
| "hydrator_as_u8 H_ArticleLifecycle = 26"
| "hydrator_as_u8 H_ArticleMediaEntities = 27"
| "hydrator_as_u8 H_ArticleCoverMedia = 28"
| "hydrator_as_u8 H_TrustedFriends = 29"
| "hydrator_as_u8 H_OutsideNarrowcastPlace = 30"
| "hydrator_as_u8 H_QuotedTweet = 31"
| "hydrator_as_u8 H_AuthorBlocksOuterAuthor = 32"
| "hydrator_as_u8 H_OuterAuthorFollowsAuthor = 33"
| "hydrator_as_u8 H_ReactedToPostSafetyLabels = 34"
| "hydrator_as_u8 H_ReactedToAuthorSafety = 35"
| "hydrator_as_u8 H_ViewerNotificationFilters = 36"
| "hydrator_as_u8 H_AuthorProfile = 37"
| "hydrator_as_u8 H_AuthorFollowsViewer = 38"
| "hydrator_as_u8 H_AuthorConfirmedEmail = 39"
| "hydrator_as_u8 H_AuthorVerifiedPhone = 40"
| "hydrator_as_u8 H_TweetState = 41"

definition hydrator_variants :: "vf_hydrator list" where
  "hydrator_variants =
     [H_PureCore, H_Tweet, H_ConversationControl, H_TweetSafetyLabels, H_ViewerProfile,
     H_ViewerLabels, H_AuthorSafety, H_AuthorLabels, H_Follows, H_Blocks, H_Mutes, H_MuteRetweets,
     H_BlockedByAuthor, H_BlockedByReplyRoot, H_SuperFollowsExclusive, H_RootFollowsViewer,
     H_RootFollowsViewerSecondDegree, H_SuperFollowsRoot, H_ViewerFollowsRoot,
     H_BlockedByConversationRoot, H_ConversationRootPost, H_BlockedByConversationRootPost,
     H_ViewerCountry, H_CommunityModeration, H_CommunityModerator, H_CommunityViewerRemoved,
     H_ArticleLifecycle, H_ArticleMediaEntities, H_ArticleCoverMedia, H_TrustedFriends,
     H_OutsideNarrowcastPlace, H_QuotedTweet, H_AuthorBlocksOuterAuthor,
     H_OuterAuthorFollowsAuthor, H_ReactedToPostSafetyLabels, H_ReactedToAuthorSafety,
     H_ViewerNotificationFilters, H_AuthorProfile, H_AuthorFollowsViewer, H_AuthorConfirmedEmail,
     H_AuthorVerifiedPhone, H_TweetState]"

type_synonym hydrators = u64

definition hyd_empty :: hydrators where
  "hyd_empty = 0"

definition hyd_of :: "vf_hydrator \<Rightarrow> hydrators" where
  "hyd_of h = push_bit (hydrator_as_u8 h) 1"

definition hyd_union :: "hydrators \<Rightarrow> hydrators \<Rightarrow> hydrators" where
  "hyd_union a b = a OR b"

definition hyd_with :: "hydrators \<Rightarrow> vf_hydrator \<Rightarrow> hydrators" where
  "hyd_with s h = hyd_union s (hyd_of h)"

definition hyd_contains :: "hydrators \<Rightarrow> vf_hydrator \<Rightarrow> bool" where
  "hyd_contains s h \<longleftrightarrow> s AND hyd_of h \<noteq> 0"

definition hyd_difference :: "hydrators \<Rightarrow> hydrators \<Rightarrow> hydrators" where
  "hyd_difference a b = a AND NOT b"

definition hyd_intersection :: "hydrators \<Rightarrow> hydrators \<Rightarrow> hydrators" where
  "hyd_intersection a b = a AND b"

definition hyd_is_empty :: "hydrators \<Rightarrow> bool" where
  "hyd_is_empty s \<longleftrightarrow> s = 0"

definition hyd_iter :: "hydrators \<Rightarrow> vf_hydrator list" where
  "hyd_iter s = filter (hyd_contains s) hydrator_variants"

section \<open>Stakes\<close>

datatype tier = Tier_MustHave | Tier_BestEffort

datatype stake = Stake_Exists | Stake_MustHave | Stake_BestEffort | Stake_Absent tier

fun stake_tier :: "stake \<Rightarrow> tier" where
  "stake_tier Stake_Exists = Tier_MustHave"
| "stake_tier Stake_MustHave = Tier_MustHave"
| "stake_tier Stake_BestEffort = Tier_BestEffort"
| "stake_tier (Stake_Absent t) = t"

text \<open>
  The stake column of \<open>Hydrator::spec\<close>; the two nodes of the reacted-to expansion take the stake
  the expansion declares for its failures.
\<close>

fun hydrator_declared :: "vf_hydrator \<Rightarrow> stake" where
  "hydrator_declared H_PureCore = Stake_MustHave"
| "hydrator_declared H_Tweet = Stake_MustHave"
| "hydrator_declared H_ConversationControl = Stake_BestEffort"
| "hydrator_declared H_TweetSafetyLabels = Stake_MustHave"
| "hydrator_declared H_ViewerProfile = Stake_MustHave"
| "hydrator_declared H_ViewerLabels = Stake_MustHave"
| "hydrator_declared H_AuthorSafety = Stake_MustHave"
| "hydrator_declared H_AuthorLabels = Stake_MustHave"
| "hydrator_declared H_Follows = Stake_BestEffort"
| "hydrator_declared H_Blocks = Stake_MustHave"
| "hydrator_declared H_Mutes = Stake_MustHave"
| "hydrator_declared H_MuteRetweets = Stake_MustHave"
| "hydrator_declared H_BlockedByAuthor = Stake_BestEffort"
| "hydrator_declared H_BlockedByReplyRoot = Stake_BestEffort"
| "hydrator_declared H_SuperFollowsExclusive = Stake_MustHave"
| "hydrator_declared H_RootFollowsViewer = Stake_BestEffort"
| "hydrator_declared H_RootFollowsViewerSecondDegree = Stake_Absent Tier_BestEffort"
| "hydrator_declared H_SuperFollowsRoot = Stake_BestEffort"
| "hydrator_declared H_ViewerFollowsRoot = Stake_BestEffort"
| "hydrator_declared H_BlockedByConversationRoot = Stake_BestEffort"
| "hydrator_declared H_ConversationRootPost = Stake_BestEffort"
| "hydrator_declared H_BlockedByConversationRootPost = Stake_BestEffort"
| "hydrator_declared H_ViewerCountry = Stake_BestEffort"
| "hydrator_declared H_CommunityModeration = Stake_MustHave"
| "hydrator_declared H_CommunityModerator = Stake_MustHave"
| "hydrator_declared H_CommunityViewerRemoved = Stake_BestEffort"
| "hydrator_declared H_ArticleLifecycle = Stake_MustHave"
| "hydrator_declared H_ArticleMediaEntities = Stake_Absent Tier_MustHave"
| "hydrator_declared H_ArticleCoverMedia = Stake_Absent Tier_MustHave"
| "hydrator_declared H_TrustedFriends = Stake_Absent Tier_MustHave"
| "hydrator_declared H_OutsideNarrowcastPlace = Stake_BestEffort"
| "hydrator_declared H_QuotedTweet = Stake_BestEffort"
| "hydrator_declared H_AuthorBlocksOuterAuthor = Stake_MustHave"
| "hydrator_declared H_OuterAuthorFollowsAuthor = Stake_BestEffort"
| "hydrator_declared H_ReactedToPostSafetyLabels = Stake_BestEffort"
| "hydrator_declared H_ReactedToAuthorSafety = Stake_BestEffort"
| "hydrator_declared H_ViewerNotificationFilters = Stake_MustHave"
| "hydrator_declared H_AuthorProfile = Stake_MustHave"
| "hydrator_declared H_AuthorFollowsViewer = Stake_MustHave"
| "hydrator_declared H_AuthorConfirmedEmail = Stake_MustHave"
| "hydrator_declared H_AuthorVerifiedPhone = Stake_MustHave"
| "hydrator_declared H_TweetState = Stake_Absent Tier_BestEffort"

definition hydrator_is_best_effort :: "vf_hydrator \<Rightarrow> bool" where
  "hydrator_is_best_effort h \<longleftrightarrow> stake_tier (hydrator_declared h) = Tier_BestEffort"

definition must_have_mask :: hydrators where
  "must_have_mask =
     fold (\<lambda>h acc. if hydrator_is_best_effort h then acc else hyd_with acc h) hydrator_variants hyd_empty"

definition hyd_must_have :: "hydrators \<Rightarrow> hydrators" where
  "hyd_must_have s = hyd_intersection s must_have_mask"

definition hyd_has_must_have :: "hydrators \<Rightarrow> bool" where
  "hyd_has_must_have s \<longleftrightarrow> \<not> hyd_is_empty (hyd_must_have s)"

text \<open>What one answer of a backend does to the node it was asked for.\<close>

datatype vf_cause = Cause_NotFound | Cause_Failed

datatype vf_answer =
    Answer_Found | Answer_Partial | Answer_NotFound | Answer_Failed | Answer_Unanswered | Answer_Unclaimed

datatype node_effect = Node_Value | Node_Absent | Node_Fails | Node_Unresolves vf_cause

fun fails_node :: "node_effect \<Rightarrow> bool" where
  "fails_node Node_Fails = True"
| "fails_node (Node_Unresolves Cause_Failed) = True"
| "fails_node _ = False"

fun vf_classify :: "stake \<Rightarrow> vf_answer \<Rightarrow> node_effect" where
  "vf_classify _ Answer_Found = Node_Value"
| "vf_classify (Stake_Absent _) Answer_Partial = Node_Value"
| "vf_classify Stake_Exists Answer_NotFound = Node_Unresolves Cause_NotFound"
| "vf_classify Stake_Exists Answer_Failed = Node_Unresolves Cause_Failed"
| "vf_classify Stake_Exists Answer_Unanswered = Node_Unresolves Cause_Failed"
| "vf_classify Stake_Exists Answer_Unclaimed = Node_Unresolves Cause_Failed"
| "vf_classify _ Answer_NotFound = Node_Absent"
| "vf_classify (Stake_Absent _) Answer_Failed = Node_Absent"
| "vf_classify (Stake_Absent _) Answer_Unanswered = Node_Absent"
| "vf_classify _ Answer_Partial = Node_Fails"
| "vf_classify _ Answer_Failed = Node_Fails"
| "vf_classify _ Answer_Unanswered = Node_Fails"
| "vf_classify _ Answer_Unclaimed = Node_Fails"

definition claimed_answer_fails :: "stake \<Rightarrow> vf_answer \<Rightarrow> bool" where
  "claimed_answer_fails s a \<longleftrightarrow> a \<noteq> Answer_Unclaimed \<and> fails_node (vf_classify s a)"

section \<open>Masks as sets\<close>

lemma hydrator_as_u8_less: "hydrator_as_u8 h < 42"
  by (cases h) simp_all

lemma hydrator_as_u8_nth: "hydrator_variants ! hydrator_as_u8 h = h"
  by (cases h) (simp_all add: hydrator_variants_def)

lemma hydrator_as_u8_inj [simp]: "hydrator_as_u8 h = hydrator_as_u8 k \<longleftrightarrow> h = k"
  using hydrator_as_u8_nth by metis

lemma hydrator_variants_all [simp]: "h \<in> set hydrator_variants"
  by (cases h) (simp_all add: hydrator_variants_def)

lemma bit_hyd_of: "bit (hyd_of h) n \<longleftrightarrow> n = hydrator_as_u8 h"
  using hydrator_as_u8_less [of h] by (auto simp: hyd_of_def bit_simps)

lemma hyd_contains_bit: "hyd_contains s h \<longleftrightarrow> bit s (hydrator_as_u8 h)"
proof -
  have "s AND hyd_of h = (if bit s (hydrator_as_u8 h) then hyd_of h else 0)"
    by (rule bit_word_eqI) (auto simp: bit_and_iff bit_hyd_of)
  moreover have "hyd_of h \<noteq> 0" using bit_hyd_of [of h "hydrator_as_u8 h"] by (metis bit_0_eq bot_apply bot_bool_def)
  ultimately show ?thesis by (simp add: hyd_contains_def)
qed

lemma hyd_contains_simps [hyd_simps]:
  "hyd_contains (hyd_union a b) h \<longleftrightarrow> hyd_contains a h \<or> hyd_contains b h"
  "hyd_contains (hyd_intersection a b) h \<longleftrightarrow> hyd_contains a h \<and> hyd_contains b h"
  "hyd_contains (hyd_difference a b) h \<longleftrightarrow> hyd_contains a h \<and> \<not> hyd_contains b h"
  "hyd_contains (hyd_of k) h \<longleftrightarrow> h = k"
  "hyd_contains (hyd_with a k) h \<longleftrightarrow> hyd_contains a h \<or> h = k"
  "\<not> hyd_contains hyd_empty h"
  using hydrator_as_u8_less [of h]
  by (auto simp: hyd_contains_bit hyd_union_def hyd_intersection_def hyd_difference_def hyd_with_def
      hyd_empty_def bit_or_iff bit_and_iff bit_not_iff bit_hyd_of)

lemma hyd_algebra [simp]:
  "hyd_union hyd_empty a = a" "hyd_union a hyd_empty = a" "hyd_union a a = a"
  "hyd_intersection hyd_empty a = hyd_empty" "hyd_intersection a hyd_empty = hyd_empty" "hyd_intersection a a = a"
  "hyd_is_empty hyd_empty" "\<not> hyd_is_empty (hyd_of h)"
  using bit_hyd_of [of h "hydrator_as_u8 h"]
  by (auto simp: hyd_union_def hyd_intersection_def hyd_empty_def hyd_is_empty_def)

lemma hyd_union_assoc: "hyd_union (hyd_union a b) c = hyd_union a (hyd_union b c)"
  by (simp add: hyd_union_def or.assoc)

lemma hyd_union_commute: "hyd_union a b = hyd_union b a"
  by (simp add: hyd_union_def or.commute)

lemma hyd_is_empty_iff: "hyd_is_empty a \<longleftrightarrow> a = hyd_empty"
  by (simp add: hyd_is_empty_def hyd_empty_def)

lemma hyd_union_is_empty [simp]: "hyd_is_empty (hyd_union a b) \<longleftrightarrow> hyd_is_empty a \<and> hyd_is_empty b"
  by (simp add: hyd_is_empty_def hyd_union_def or_eq_0_iff)

lemma bit_u64_less: "bit (w :: u64) n \<Longrightarrow> n < 64"
  using bit_imp_le_length [of w n] by simp

text \<open>Inclusion of masks.\<close>

definition hyd_sub :: "hydrators \<Rightarrow> hydrators \<Rightarrow> bool" where
  "hyd_sub a b \<longleftrightarrow> hyd_intersection a b = a"

lemma hyd_sub_bits: "hyd_sub a b \<longleftrightarrow> (\<forall>n. bit a n \<longrightarrow> bit b n)"
  by (auto simp: hyd_sub_def hyd_intersection_def bit_eq_iff bit_and_iff dest: bit_u64_less)

lemma hyd_sub_simps [simp, intro]:
  "hyd_sub a a" "hyd_sub hyd_empty a" "hyd_sub (hyd_intersection a b) a" "hyd_sub (hyd_intersection a b) b"
  "hyd_sub a (hyd_union a b)" "hyd_sub b (hyd_union a b)"
  by (auto simp: hyd_sub_bits hyd_intersection_def hyd_union_def hyd_empty_def bit_and_iff bit_or_iff)

lemma hyd_sub_trans: "hyd_sub a b \<Longrightarrow> hyd_sub b c \<Longrightarrow> hyd_sub a c"
  by (auto simp: hyd_sub_bits)

lemma hyd_sub_union [simp]: "hyd_sub (hyd_union a b) c \<longleftrightarrow> hyd_sub a c \<and> hyd_sub b c"
  by (auto simp: hyd_sub_bits hyd_union_def bit_or_iff)

lemma hyd_sub_intersection [simp]: "hyd_sub c (hyd_intersection a b) \<longleftrightarrow> hyd_sub c a \<and> hyd_sub c b"
  by (auto simp: hyd_sub_bits hyd_intersection_def bit_and_iff)

lemma hyd_sub_inter_right: "hyd_sub a b \<Longrightarrow> hyd_sub (hyd_intersection f a) b"
  by (auto simp: hyd_sub_bits hyd_intersection_def bit_and_iff)

lemma hyd_sub_empty [simp]: "hyd_sub a hyd_empty \<longleftrightarrow> a = hyd_empty"
  by (auto simp: hyd_sub_bits hyd_empty_def bit_eq_iff dest: bit_u64_less)

lemma hyd_disjoint_mono:
  "hyd_is_empty (hyd_intersection a b) \<Longrightarrow> hyd_sub c b \<Longrightarrow> hyd_is_empty (hyd_intersection a c)"
  by (auto simp: hyd_sub_bits hyd_is_empty_def hyd_intersection_def bit_eq_iff bit_and_iff)

lemma hyd_disjoint_union:
  "hyd_is_empty (hyd_intersection a (hyd_union b c)) \<longleftrightarrow>
   hyd_is_empty (hyd_intersection a b) \<and> hyd_is_empty (hyd_intersection a c)"
  by (auto simp: hyd_is_empty_def hyd_intersection_def hyd_union_def bit_eq_iff bit_and_iff bit_or_iff)

lemma must_have_mono: "hyd_sub a b \<Longrightarrow> hyd_has_must_have a \<Longrightarrow> hyd_has_must_have b"
  by (auto simp: hyd_sub_bits hyd_has_must_have_def hyd_must_have_def hyd_is_empty_def hyd_intersection_def
      bit_eq_iff bit_and_iff)

lemma fold_mask:
  "hyd_contains (fold (\<lambda>h acc. if p h then acc else hyd_with acc h) hs acc) k \<longleftrightarrow>
   hyd_contains acc k \<or> k \<in> set hs \<and> \<not> p k"
  by (induction hs arbitrary: acc) (auto simp: hyd_simps)

lemma must_have_mask: "hyd_contains must_have_mask h \<longleftrightarrow> \<not> hydrator_is_best_effort h"
  by (simp add: must_have_mask_def fold_mask hyd_simps)

end
