(* ===== verification/Vf_Features.thy ===== *)
theory Vf_Features
  imports Vf_Hydrators
begin

text \<open>
  What a visibility rule can read (\<open>visibility-filtering/models\<close> and
  \<open>visibility-filtering/rules/rule_spec/features\<close>): the entities a request hydrates, the leaves
  of the rules over them, the nodes each leaf requires and the three-valued answer of a leaf when
  one of those nodes failed. Leaves that read the post are kept apart from those that also read a
  user row, as the two engines of the rules keep them apart by type. Country codes and label
  sources are strings of bytes. The variants of \<open>SafetyLabelType\<close>, a Thrift enumeration, are the
  ones the rules name, and one constructor for all others; conversation controls and takedown
  reasons have the fields and variants the code reads.
\<close>

unbundle bit_operations_syntax

section \<open>Text\<close>

definition to_ascii_lower :: "char \<Rightarrow> char" where
  "to_ascii_lower c = (let n = of_char c :: nat in if 65 \<le> n \<and> n \<le> 90 then char_of (n + 32) else c)"

definition to_ascii_upper :: "char \<Rightarrow> char" where
  "to_ascii_upper c = (let n = of_char c :: nat in if 97 \<le> n \<and> n \<le> 122 then char_of (n - 32) else c)"

definition eq_ignore_ascii_case :: "string \<Rightarrow> string \<Rightarrow> bool" where
  "eq_ignore_ascii_case a b \<longleftrightarrow> map to_ascii_lower a = map to_ascii_lower b"

section \<open>Authors\<close>

record author_features =
  au_suspended :: bool
  au_deactivated :: bool
  au_protected :: bool
  au_nsfw_user :: bool
  au_nsfw_admin :: bool
  au_erased :: bool
  au_offboarded :: bool

record vf_author_profile =
  ap_has_default_profile_image :: bool
  ap_is_new_account :: bool

datatype vf_author_label =
    AL_NsfwHighRecall | AL_NsfwHighPrecision | AL_NsfwNearPerfect | AL_NsfwAvatarImage |
    AL_NsfwBannerImage | AL_SpamHighRecall | AL_AbusiveHighRecall | AL_Compromised | AL_ReadOnly |
    AL_ImpersonationHighPrecision | AL_DoNotAmplify | AL_NotGraduated | AL_AgathaSpamTopUser |
    AL_EngagementSpammer | AL_BlinkWorst | AL_DownrankSpamReply

fun author_label_as_u8 :: "vf_author_label \<Rightarrow> nat" where
  "author_label_as_u8 AL_NsfwHighRecall = 0"
| "author_label_as_u8 AL_NsfwHighPrecision = 1"
| "author_label_as_u8 AL_NsfwNearPerfect = 2"
| "author_label_as_u8 AL_NsfwAvatarImage = 3"
| "author_label_as_u8 AL_NsfwBannerImage = 4"
| "author_label_as_u8 AL_SpamHighRecall = 5"
| "author_label_as_u8 AL_AbusiveHighRecall = 6"
| "author_label_as_u8 AL_Compromised = 7"
| "author_label_as_u8 AL_ReadOnly = 8"
| "author_label_as_u8 AL_ImpersonationHighPrecision = 9"
| "author_label_as_u8 AL_DoNotAmplify = 10"
| "author_label_as_u8 AL_NotGraduated = 11"
| "author_label_as_u8 AL_AgathaSpamTopUser = 12"
| "author_label_as_u8 AL_EngagementSpammer = 13"
| "author_label_as_u8 AL_BlinkWorst = 14"
| "author_label_as_u8 AL_DownrankSpamReply = 15"

type_synonym author_label_set = u64

definition author_has_label :: "author_label_set \<Rightarrow> vf_author_label \<Rightarrow> bool" where
  "author_has_label s l \<longleftrightarrow> s AND push_bit (author_label_as_u8 l) 1 \<noteq> 0"

record user_entity =
  ue_id :: u64
  ue_features :: author_features
  ue_labels :: author_label_set
  ue_profile :: vf_author_profile
  ue_lacks_confirmed_email :: bool
  ue_lacks_verified_phone :: bool

type_synonym edge_set = hydrators

record quote_link =
  ql_outer :: u64
  ql_quoting_author :: u64

record vf_quote =
  q_link :: quote_link
  q_pair_edges :: edge_set

section \<open>Posts\<close>

datatype vf_label =
    L_ABUSIVE | L_BOUNCE | L_BRAZIL_ELECTION_LEGAL | L_DOWNRANK_SPAM_REPLY | L_DO_NOT_AMPLIFY |
    L_DUPLICATE_CONTENT | L_DUPLICATE_MENTION | L_DYNAMIC_PRODUCT_AD | L_FOR_EMERGENCY_USE_ONLY |
    L_FOSNR_ABUSE | L_FOSNR_ABUSE_INSULTS | L_FOSNR_APPEAL_SUBMITTED | L_FOSNR_CIVIC_INTEGRITY |
    L_FOSNR_HATEFUL_CONDUCT | L_FOSNR_VIOLENT_SPEECH | L_GORE_AND_VIOLENCE_HIGH_PRECISION |
    L_IPI_DEVELOPMENT_ONLY | L_LOW_QUALITY | L_MALICIOUS_URL | L_MISINFO_CIVIC | L_MISINFO_CRISIS |
    L_MISINFO_GENERIC | L_MISINFO_MEDICAL | L_NSFW_CARD_IMAGE | L_NSFW_HIGH_PRECISION |
    L_NSFW_HIGH_RECALL | L_NSFW_TEXT | L_NSFW_TEXT_HIGH_PRECISION | L_NSFW_VIDEO | L_PDNA |
    L_RISKY_HIGH_VIZ_REPLY | L_SMYTE_SPAM_TWEET | L_SOFT_NSFW | L_SPAM | L_SPAM_HIGH_RECALL |
    L_UNTRUSTED_URL | L_Other int

record vf_label_map =
  sl_types :: "vf_label set"
  sl_by_agent :: "vf_label set"
  sl_sources :: "(vf_label \<times> string) list"

definition has_label :: "vf_label_map \<Rightarrow> vf_label \<Rightarrow> bool" where
  "has_label m l \<longleftrightarrow> l \<in> sl_types m"

definition is_by_agent :: "vf_label_map \<Rightarrow> vf_label \<Rightarrow> bool" where
  "is_by_agent m l \<longleftrightarrow> l \<in> sl_by_agent m"

definition label_source :: "vf_label_map \<Rightarrow> vf_label \<Rightarrow> string option" where
  "label_source m l = map_option snd (List.find (\<lambda>(held, _). held = l) (sl_sources m))"

record media_feature =
  mf_has_media :: bool
  mf_has_uploaded_media :: bool
  mf_has_dmca_media :: bool
  mf_geo_allow_list :: "string list"
  mf_geo_deny_list :: "string list"

datatype takedown_reason =
    TR_LegalRequest string | TR_UnspecifiedReason string | TR_BystanderReport string
  | TR_Dmca | TR_HatefulImagery | TR_SensitiveImagery | TR_Unknown

record tweet_features =
  tf_media :: media_feature
  tf_takedown_reasons :: "takedown_reason list"
  tf_nsfw_user :: bool
  tf_nsfw_admin :: bool
  tf_is_nullcast :: bool
  tf_community_id :: "u64 option"
  tf_trusted_friends_list_id :: "u64 option"
  tf_latest_edit_tweet_id :: "u64 option"
  tf_exclusive_conversation_author_id :: "u64 option"
  tf_article_id :: "u64 option"
  tf_narrowcast_place_id :: "u64 option"

abbreviation worldwide_country_code :: string where
  "worldwide_country_code \<equiv> ''xx''"

abbreviation worldwide_copyright_country_code :: string where
  "worldwide_copyright_country_code \<equiv> ''xy''"

definition is_worldwide_code :: "string \<Rightarrow> bool" where
  "is_worldwide_code c \<longleftrightarrow>
     eq_ignore_ascii_case c worldwide_country_code \<or> eq_ignore_ascii_case c worldwide_copyright_country_code"

fun legal_takedown_country :: "takedown_reason \<Rightarrow> string option" where
  "legal_takedown_country (TR_LegalRequest c) =
     (if eq_ignore_ascii_case c worldwide_copyright_country_code then None else Some c)"
| "legal_takedown_country (TR_UnspecifiedReason c) = Some c"
| "legal_takedown_country TR_Dmca = Some worldwide_copyright_country_code"
| "legal_takedown_country _ = None"

fun local_laws_takedown_country :: "takedown_reason \<Rightarrow> string option" where
  "local_laws_takedown_country (TR_BystanderReport c) = (if \<not> is_worldwide_code c then Some c else None)"
| "local_laws_takedown_country _ = None"

definition takedown_in :: "(takedown_reason \<Rightarrow> string option) \<Rightarrow> tweet_features \<Rightarrow> string option \<Rightarrow> bool" where
  "takedown_in extractor t request_country \<longleftrightarrow>
     list_ex (\<lambda>c. is_worldwide_code c \<or> is_some_and (eq_ignore_ascii_case c) request_country)
       (List.map_filter extractor (tf_takedown_reasons t))"

definition media_restricted_in :: "tweet_features \<Rightarrow> string option \<Rightarrow> bool" where
  "media_restricted_in t request_country \<longleftrightarrow>
     (let country = unwrap_or worldwide_country_code request_country;
          allow = mf_geo_allow_list (tf_media t); deny = mf_geo_deny_list (tf_media t)
      in (allow \<noteq> [] \<and> \<not> list_ex (\<lambda>c. eq_ignore_ascii_case c country) allow) \<or>
         list_ex (\<lambda>c. eq_ignore_ascii_case c country) deny)"

definition is_superseded_edit :: "tweet_features \<Rightarrow> u64 \<Rightarrow> bool" where
  "is_superseded_edit t tweet_id \<longleftrightarrow> is_some_and (\<lambda>latest. latest \<noteq> tweet_id) (tf_latest_edit_tweet_id t)"

datatype control_arm =
    Arm_ByInvitation | Arm_Community | Arm_Followers | Arm_Subscribers | Arm_Verified | Arm_MyNetwork
  | Arm_Co | Arm_Local | Arm_Other

record conversation_control =
  cc_arm :: control_arm
  cc_conversation_tweet_author_id :: u64
  cc_invited_user_ids :: "u64 list"
  cc_allowed_country_codes :: "string list"

record conversation_control_features =
  ccf_control :: conversation_control
  ccf_viewer_country :: "string option"

record community_moderation =
  cm_is_hidden :: bool
  cm_is_author_removed :: bool

datatype article_lifecycle = Published | SoftDeleted | Draft_Article

record post_entity =
  pe_tweet_id :: u64
  pe_source_tweet_id :: "u64 option"
  pe_tweet_features :: tweet_features
  pe_safety_labels :: vf_label_map
  pe_conversation_control :: "conversation_control_features option"
  pe_community_moderation :: community_moderation
  pe_viewer_is_community_moderator :: "bool option"
  pe_viewer_is_removed_from_community :: bool
  pe_article_lifecycle :: "article_lifecycle option"
  pe_article_has_media_entities :: bool
  pe_article_has_cover_media :: bool
  pe_reacted_to_post_safety_labels :: vf_label_map
  pe_reacted_to_author_is_protected :: bool
  pe_conversation_root_author_blocks_viewer :: bool

definition tweet_timestamp_ms :: "u64 \<Rightarrow> u64" where
  "tweet_timestamp_ms tweet_id = drop_bit 22 tweet_id + 1288834974657"

text \<open>Allowed country codes of a reply control, with the regions they may name.\<close>

definition regions :: "(string \<times> string list) list" where
  "regions =
     [(''AFR'',
        [''AO'', ''BF'', ''BI'', ''BJ'', ''BW'', ''CD'', ''CF'', ''CG'', ''CI'', ''CM'', ''CV'', ''DJ'',
        ''DZ'', ''EG'', ''EH'', ''ER'', ''ET'', ''GA'', ''GH'', ''GM'', ''GN'', ''GQ'', ''GW'', ''IO'',
        ''KE'', ''KM'', ''LR'', ''LS'', ''LY'', ''MA'', ''MG'', ''ML'', ''MR'', ''MU'', ''MW'', ''MZ'',
        ''NA'', ''NE'', ''NG'', ''RE'', ''RW'', ''SC'', ''SD'', ''SH'', ''SL'', ''SN'', ''SO'', ''SS'',
        ''ST'', ''SZ'', ''TD'', ''TG'', ''TN'', ''TZ'', ''UG'', ''YT'', ''ZA'', ''ZM'', ''ZW'']),
      (''AUS'',
        [''AQ'', ''AS'', ''AU'', ''BV'', ''CC'', ''CK'', ''CX'', ''FJ'', ''FM'', ''GS'', ''GU'', ''HM'',
        ''KI'', ''MH'', ''MP'', ''NC'', ''NF'', ''NR'', ''NU'', ''NZ'', ''PF'', ''PG'', ''PN'', ''PW'',
        ''SB'', ''TF'', ''TK'', ''TO'', ''TV'', ''UM'', ''VU'', ''WF'', ''WS'']),
      (''CAS'',
        [''AF'', ''KG'', ''KZ'', ''TJ'', ''TM'', ''UZ'']),
      (''EAS'',
        [''CN'', ''HK'', ''JP'', ''KP'', ''KR'', ''MN'', ''MO'', ''TW'']),
      (''EUR'',
        [''AD'', ''AL'', ''AT'', ''AX'', ''BA'', ''BE'', ''BG'', ''BY'', ''CH'', ''CZ'', ''DE'', ''DK'',
        ''EE'', ''ES'', ''FI'', ''FO'', ''FR'', ''GB'', ''GG'', ''GI'', ''GL'', ''GR'', ''HR'', ''HU'',
        ''IE'', ''IM'', ''IS'', ''IT'', ''JE'', ''KV'', ''LI'', ''LT'', ''LU'', ''LV'', ''MC'', ''MD'',
        ''ME'', ''MK'', ''MT'', ''NL'', ''NO'', ''PL'', ''PT'', ''RO'', ''RS'', ''RU'', ''SE'', ''SI'',
        ''SJ'', ''SK'', ''SM'', ''UA'', ''VA'', ''XK'']),
      (''NAM'',
        [''AG'', ''AI'', ''AW'', ''BB'', ''BL'', ''BM'', ''BQ'', ''BS'', ''BZ'', ''CA'', ''CR'', ''CU'',
        ''CW'', ''DM'', ''DO'', ''GD'', ''GP'', ''GT'', ''HN'', ''HT'', ''JM'', ''KN'', ''KY'', ''LC'',
        ''MF'', ''MQ'', ''MS'', ''MX'', ''NI'', ''PA'', ''PM'', ''PR'', ''SV'', ''SX'', ''TC'', ''TT'',
        ''US'', ''VC'', ''VG'', ''VI'']),
      (''SAM'',
        [''AR'', ''BO'', ''BR'', ''CL'', ''CO'', ''EC'', ''FK'', ''GF'', ''GY'', ''PE'', ''PY'', ''SR'',
        ''UY'', ''VE'']),
      (''SAS'',
        [''BD'', ''BT'', ''IN'', ''LK'', ''MV'', ''NP'', ''PK'']),
      (''SEA'',
        [''BN'', ''ID'', ''KH'', ''LA'', ''MM'', ''MY'', ''PH'', ''SG'', ''TH'', ''TL'', ''VN'']),
      (''WES'',
        [''AE'', ''AM'', ''AZ'', ''BH'', ''CY'', ''GE'', ''IL'', ''IQ'', ''IR'', ''JO'', ''KW'', ''LB'',
        ''OM'', ''PS'', ''QA'', ''SA'', ''SY'', ''TR'', ''YE''])]"

definition allows_country :: "string list \<Rightarrow> string \<Rightarrow> bool" where
  "allows_country allowed_codes country \<longleftrightarrow>
     list_ex (\<lambda>code.
       case List.find (\<lambda>(region, _). eq_ignore_ascii_case region code) regions of
         Some (_, countries) \<Rightarrow> list_ex (\<lambda>c. eq_ignore_ascii_case c country) countries
       | None \<Rightarrow> eq_ignore_ascii_case code country) allowed_codes"

section \<open>Viewers and requests\<close>

datatype viewer_age = Age_Known i32 | Age_NotStated | Age_Unknown

record notification_filters =
  nf_no_confirmed_email :: bool
  nf_no_confirmed_phone :: bool
  nf_default_profile_image :: bool
  nf_new_users :: bool
  nf_not_followed_by :: bool

record viewer_profile =
  vp_allows_sensitive_media :: bool
  vp_viewer_age :: viewer_age
  vp_has_verified_badge :: bool
  vp_has_idv_premium :: bool
  vp_is_read_only :: bool
  vp_account_country_code :: "string option"
  vp_is_new_account :: bool
  vp_is_suspended :: bool
  vp_is_deactivated :: bool
  vp_has_uqf_enabled :: bool
  vp_mention_filter_is_following :: bool
  vp_has_blink_label :: bool
  vp_notification_filters :: notification_filters

definition is_underage :: "viewer_profile \<Rightarrow> bool" where
  "is_underage p \<longleftrightarrow> (case vp_viewer_age p of Age_Known age \<Rightarrow> sint age < 18 | _ \<Rightarrow> False)"

definition has_no_stated_age :: "viewer_profile \<Rightarrow> bool" where
  "has_no_stated_age p \<longleftrightarrow> vp_viewer_age p = Age_NotStated"

datatype vf_viewer =
    LoggedIn (lv_id: u64) (lv_profile: viewer_profile) (lv_has_age_verified_18_label: bool)
  | LoggedOut

fun vf_user_id :: "vf_viewer \<Rightarrow> u64 option" where
  "vf_user_id (LoggedIn i _ _) = Some i"
| "vf_user_id LoggedOut = None"

datatype verify_blur_support = Blur_Unsupported | Blur_IosNeedsUpdate | Blur_AndroidNeedsUpdate | Blur_Supported

datatype client_switch =
    ModernBlur | StaleTweetLimits | CommunityViewerRemovedLimits | GoreBlurIgnoresSettings | FosnrRules
  | FosnrFallbackDrops

fun client_switch_as_u8 :: "client_switch \<Rightarrow> nat" where
  "client_switch_as_u8 ModernBlur = 0"
| "client_switch_as_u8 StaleTweetLimits = 1"
| "client_switch_as_u8 CommunityViewerRemovedLimits = 2"
| "client_switch_as_u8 GoreBlurIgnoresSettings = 3"
| "client_switch_as_u8 FosnrRules = 4"
| "client_switch_as_u8 FosnrFallbackDrops = 5"

definition client_switch_bit :: "client_switch \<Rightarrow> 32 word" where
  "client_switch_bit s = push_bit (client_switch_as_u8 s) 1"

record client_capability =
  cl_verify_blur_support :: "verify_blur_support option"
  cl_switches_on :: "32 word"

definition client_has :: "client_capability \<Rightarrow> client_switch \<Rightarrow> bool" where
  "client_has c s \<longleftrightarrow> cl_switches_on c AND client_switch_bit s \<noteq> 0"

definition client_with :: "client_capability \<Rightarrow> client_switch \<Rightarrow> client_capability" where
  "client_with c s = c\<lparr>cl_switches_on := cl_switches_on c OR client_switch_bit s\<rparr>"

fun switch_default_on :: "client_switch \<Rightarrow> bool" where
  "switch_default_on StaleTweetLimits = True"
| "switch_default_on FosnrRules = True"
| "switch_default_on _ = False"

definition default_switches :: "32 word" where
  "default_switches =
     fold (\<lambda>s acc. if switch_default_on s then acc OR client_switch_bit s else acc)
       [ModernBlur, StaleTweetLimits, CommunityViewerRemovedLimits, GoreBlurIgnoresSettings, FosnrRules,
        FosnrFallbackDrops] 0"

definition default_client :: client_capability where
  "default_client = \<lparr>cl_verify_blur_support = Some Blur_Unsupported, cl_switches_on = default_switches\<rparr>"

text \<open>The viewer of a request: ids that are not positive as signed numbers and empty codes are dropped.\<close>

record request_viewer =
  rv_id :: "u64 option"
  rv_country_code :: "string option"

definition request_viewer_new :: "u64 option \<Rightarrow> string option \<Rightarrow> request_viewer" where
  "request_viewer_new raw_id country_code =
     \<lparr>rv_id = (case raw_id of Some i \<Rightarrow> if 0 < sint i then Some i else None | None \<Rightarrow> None),
      rv_country_code = (case country_code of Some c \<Rightarrow> if c \<noteq> [] then Some c else None | None \<Rightarrow> None)\<rparr>"

record request_facts =
  rf_viewer :: request_viewer
  rf_request_country :: "string option"
  rf_client_capability :: client_capability
  rf_soft_nsfw_new_user_drop :: bool

definition request_facts_new :: "request_viewer \<Rightarrow> client_capability \<Rightarrow> request_facts" where
  "request_facts_new viewer client =
     \<lparr>rf_viewer = viewer, rf_request_country = map_option (map to_ascii_lower) (rv_country_code viewer),
      rf_client_capability = client, rf_soft_nsfw_new_user_drop = False\<rparr>"

record viewer_features =
  vf_viewer :: vf_viewer
  vf_facts :: request_facts

datatype country_list = NsfwGating | AgeVerification | Tombstone_Countries | LocalRegulations

type_synonym country_lists = "country_list \<Rightarrow> string list"

definition in_country_list :: "country_lists \<Rightarrow> country_list \<Rightarrow> string \<Rightarrow> bool" where
  "in_country_list codes l country_code \<longleftrightarrow> list_ex (\<lambda>c. c = country_code) (codes l)"

definition age_verification_codes :: "string list" where
  "age_verification_codes =
     [''at'', ''au'', ''be'', ''bg'', ''br'', ''cy'', ''cz'', ''de'', ''dk'', ''ee'', ''es'', ''fi'', ''fr'', ''gb'',
      ''gr'', ''hr'', ''hu'', ''ie'', ''it'', ''lt'', ''lu'', ''lv'', ''mt'', ''nl'', ''pl'', ''pt'', ''ro'', ''se'',
      ''si'', ''sk'']"

fun default_codes :: "country_list \<Rightarrow> string list" where
  "default_codes NsfwGating =
     [''ar'', ''au'', ''br'', ''ca'', ''de'', ''es'', ''fr'', ''gb'', ''id'', ''it'', ''kr'', ''mx'', ''nl'', ''ph'',
      ''pt'', ''th'']"
| "default_codes AgeVerification = age_verification_codes"
| "default_codes Tombstone_Countries = age_verification_codes"
| "default_codes LocalRegulations = [''in'']"

datatype vf_placement = Standalone | InnerQuoted u64 | RetweetSource

section \<open>Candidates and contexts\<close>

record post_row =
  pr_author :: user_entity
  pr_edges :: edge_set
  pr_post :: post_entity
  pr_failed :: hydrators

record user_row =
  ur_user :: user_entity
  ur_edges :: edge_set
  ur_quote :: "vf_quote option"
  ur_failed :: hydrators

record core_facts =
  cf_viewer_id :: "u64 option"
  cf_request_facts :: request_facts
  cf_placement :: vf_placement
  cf_country_lists :: country_lists

definition core_facts_new :: "viewer_features \<Rightarrow> vf_placement \<Rightarrow> country_lists \<Rightarrow> core_facts" where
  "core_facts_new viewer placement codes =
     \<lparr>cf_viewer_id = vf_user_id (vf_viewer viewer), cf_request_facts = vf_facts viewer,
      cf_placement = placement, cf_country_lists = codes\<rparr>"

abbreviation request_country :: "core_facts \<Rightarrow> string option" where
  "request_country f \<equiv> rf_request_country (cf_request_facts f)"

section \<open>Leaves that read a viewer and an author\<close>

datatype request_leaf =
    ViewerLoggedOut | IsQuotedInnerTweet | IsSourceTweet | RequestCountryIn country_list
  | RequestCountryIs string | ClientVerifyBlurSupportIs verify_blur_support | ClientHas client_switch
  | RequestHasSoftNsfwNewUserDrop

fun request_leaf_meaning :: "core_facts \<Rightarrow> request_leaf \<Rightarrow> bool" where
  "request_leaf_meaning f ViewerLoggedOut = (cf_viewer_id f = None)"
| "request_leaf_meaning f IsQuotedInnerTweet = (case cf_placement f of InnerQuoted _ \<Rightarrow> True | _ \<Rightarrow> False)"
| "request_leaf_meaning f IsSourceTweet = (cf_placement f = RetweetSource)"
| "request_leaf_meaning f (RequestCountryIn l) =
     is_some_and (in_country_list (cf_country_lists f) l) (request_country f)"
| "request_leaf_meaning f (RequestCountryIs c) = (request_country f = Some c)"
| "request_leaf_meaning f (ClientVerifyBlurSupportIs s) =
     (cl_verify_blur_support (rf_client_capability (cf_request_facts f)) = Some s)"
| "request_leaf_meaning f (ClientHas s) = client_has (rf_client_capability (cf_request_facts f)) s"
| "request_leaf_meaning f RequestHasSoftNsfwNewUserDrop = rf_soft_nsfw_new_user_drop (cf_request_facts f)"

datatype author_facts_leaf = ViewerIsAuthor | IsSelfQuote

fun author_facts_leaf_meaning :: "core_facts \<Rightarrow> u64 \<Rightarrow> quote_link option \<Rightarrow> author_facts_leaf \<Rightarrow> bool" where
  "author_facts_leaf_meaning f author link ViewerIsAuthor = (cf_viewer_id f = Some author)"
| "author_facts_leaf_meaning f author link IsSelfQuote = is_some_and (\<lambda>l. ql_quoting_author l = author) link"

datatype author_safety_leaf =
    AuthorIsSuspended | AuthorIsDeactivated | AuthorIsErased | AuthorIsOffboarded | AuthorIsProtected
  | AuthorIsNsfwUser | AuthorIsNsfwAdmin

fun author_safety_leaf_meaning :: "author_features \<Rightarrow> author_safety_leaf \<Rightarrow> bool" where
  "author_safety_leaf_meaning a AuthorIsSuspended = au_suspended a"
| "author_safety_leaf_meaning a AuthorIsDeactivated = au_deactivated a"
| "author_safety_leaf_meaning a AuthorIsErased = au_erased a"
| "author_safety_leaf_meaning a AuthorIsOffboarded = au_offboarded a"
| "author_safety_leaf_meaning a AuthorIsProtected = au_protected a"
| "author_safety_leaf_meaning a AuthorIsNsfwUser = au_nsfw_user a"
| "author_safety_leaf_meaning a AuthorIsNsfwAdmin = au_nsfw_admin a"

datatype author_profile_leaf = AuthorHasDefaultProfileImage | AuthorIsNewAccount

fun author_profile_leaf_meaning :: "vf_author_profile \<Rightarrow> author_profile_leaf \<Rightarrow> bool" where
  "author_profile_leaf_meaning p AuthorHasDefaultProfileImage = ap_has_default_profile_image p"
| "author_profile_leaf_meaning p AuthorIsNewAccount = ap_is_new_account p"

datatype viewer_account_leaf =
    ViewerUnderage | ViewerNoStatedAge | ViewerAllowsSensitiveMedia
  | ViewerAccountOrRequestCountryIn country_list | ViewerHasVerifiedBadge | ViewerReadOnly
  | ViewerIsNewAccount | ViewerIsSuspended | ViewerIsDeactivated | ViewerHasUqfEnabled
  | ViewerMentionFilterIsFollowing

fun viewer_account :: "vf_viewer \<Rightarrow> viewer_profile option" where
  "viewer_account (LoggedIn _ p _) = Some p"
| "viewer_account LoggedOut = None"

definition account_or_request_country_in ::
  "viewer_profile option \<Rightarrow> string option \<Rightarrow> (string \<Rightarrow> bool) \<Rightarrow> bool" where
  "account_or_request_country_in profile country in_list \<longleftrightarrow>
     is_some_and in_list (or_else (Option.bind profile vp_account_country_code) country)"

fun viewer_account_leaf_meaning :: "core_facts \<Rightarrow> viewer_profile option \<Rightarrow> viewer_account_leaf \<Rightarrow> bool" where
  "viewer_account_leaf_meaning f p ViewerUnderage = is_some_and is_underage p"
| "viewer_account_leaf_meaning f p ViewerNoStatedAge = is_some_and has_no_stated_age p"
| "viewer_account_leaf_meaning f p ViewerAllowsSensitiveMedia = is_some_and vp_allows_sensitive_media p"
| "viewer_account_leaf_meaning f p (ViewerAccountOrRequestCountryIn l) =
     account_or_request_country_in p (request_country f) (in_country_list (cf_country_lists f) l)"
| "viewer_account_leaf_meaning f p ViewerHasVerifiedBadge = is_some_and vp_has_verified_badge p"
| "viewer_account_leaf_meaning f p ViewerReadOnly = is_some_and vp_is_read_only p"
| "viewer_account_leaf_meaning f p ViewerIsNewAccount = is_some_and vp_is_new_account p"
| "viewer_account_leaf_meaning f p ViewerIsSuspended = is_some_and vp_is_suspended p"
| "viewer_account_leaf_meaning f p ViewerIsDeactivated = is_some_and vp_is_deactivated p"
| "viewer_account_leaf_meaning f p ViewerHasUqfEnabled = is_some_and vp_has_uqf_enabled p"
| "viewer_account_leaf_meaning f p ViewerMentionFilterIsFollowing =
     is_some_and vp_mention_filter_is_following p"

datatype notification_filter_leaf =
    ViewerFiltersNoConfirmedEmail | ViewerFiltersNoConfirmedPhone | ViewerFiltersDefaultProfileImage
  | ViewerFiltersNewUsers | ViewerFiltersNotFollowedBy

definition no_notification_filters :: notification_filters where
  "no_notification_filters =
     \<lparr>nf_no_confirmed_email = False, nf_no_confirmed_phone = False, nf_default_profile_image = False,
      nf_new_users = False, nf_not_followed_by = False\<rparr>"

fun viewer_notification_filters :: "vf_viewer \<Rightarrow> notification_filters" where
  "viewer_notification_filters (LoggedIn _ p _) = vp_notification_filters p"
| "viewer_notification_filters LoggedOut = no_notification_filters"

fun notification_filter_leaf_meaning :: "notification_filters \<Rightarrow> notification_filter_leaf \<Rightarrow> bool" where
  "notification_filter_leaf_meaning n ViewerFiltersNoConfirmedEmail = nf_no_confirmed_email n"
| "notification_filter_leaf_meaning n ViewerFiltersNoConfirmedPhone = nf_no_confirmed_phone n"
| "notification_filter_leaf_meaning n ViewerFiltersDefaultProfileImage = nf_default_profile_image n"
| "notification_filter_leaf_meaning n ViewerFiltersNewUsers = nf_new_users n"
| "notification_filter_leaf_meaning n ViewerFiltersNotFollowedBy = nf_not_followed_by n"

fun viewer_blink_label :: "vf_viewer \<Rightarrow> bool" where
  "viewer_blink_label (LoggedIn _ p _) = vp_has_blink_label p"
| "viewer_blink_label LoggedOut = False"

fun viewer_age_verified_label :: "vf_viewer \<Rightarrow> bool" where
  "viewer_age_verified_label (LoggedIn _ _ verified) = verified"
| "viewer_age_verified_label LoggedOut = False"

datatype relationship_leaf =
    ViewerFollowsAuthor | ViewerBlocksAuthor | ViewerMutesAuthor | ViewerIsBlockedByAuthor
  | AuthorFollowsViewer

fun relationship_node :: "relationship_leaf \<Rightarrow> vf_hydrator" where
  "relationship_node ViewerFollowsAuthor = H_Follows"
| "relationship_node ViewerBlocksAuthor = H_Blocks"
| "relationship_node ViewerMutesAuthor = H_Mutes"
| "relationship_node ViewerIsBlockedByAuthor = H_BlockedByAuthor"
| "relationship_node AuthorFollowsViewer = H_AuthorFollowsViewer"

datatype pair_edge_leaf = AuthorBlocksOuterAuthor | OuterAuthorFollowsAuthor

fun pair_edge_node :: "pair_edge_leaf \<Rightarrow> vf_hydrator" where
  "pair_edge_node AuthorBlocksOuterAuthor = H_AuthorBlocksOuterAuthor"
| "pair_edge_node OuterAuthorFollowsAuthor = H_OuterAuthorFollowsAuthor"

text \<open>The predicates of the engine of user rules, and what they read and require.\<close>

datatype user_predicate =
    P_Request request_leaf | P_ViewerAccount viewer_account_leaf | P_ViewerHasBlinkLabel
  | P_NotificationFilter notification_filter_leaf | P_AuthorFacts author_facts_leaf
  | P_AuthorSafety author_safety_leaf | P_AuthorHasLabel vf_author_label | P_AuthorProfile author_profile_leaf
  | P_AuthorHasConfirmedEmail | P_AuthorHasVerifiedPhone | P_Relationship relationship_leaf
  | P_PairEdge pair_edge_leaf

fun user_requires :: "user_predicate \<Rightarrow> hydrators" where
  "user_requires (P_Request _) = hyd_empty"
| "user_requires (P_ViewerAccount _) = hyd_of H_ViewerProfile"
| "user_requires P_ViewerHasBlinkLabel = hyd_of H_ViewerLabels"
| "user_requires (P_NotificationFilter _) = hyd_of H_ViewerNotificationFilters"
| "user_requires (P_AuthorFacts _) = hyd_empty"
| "user_requires (P_AuthorSafety _) = hyd_of H_AuthorSafety"
| "user_requires (P_AuthorHasLabel _) = hyd_of H_AuthorLabels"
| "user_requires (P_AuthorProfile _) = hyd_of H_AuthorProfile"
| "user_requires P_AuthorHasConfirmedEmail = hyd_of H_AuthorConfirmedEmail"
| "user_requires P_AuthorHasVerifiedPhone = hyd_of H_AuthorVerifiedPhone"
| "user_requires (P_Relationship l) = hyd_of (relationship_node l)"
| "user_requires (P_PairEdge l) = hyd_of (pair_edge_node l)"

fun user_holds ::
  "core_facts \<Rightarrow> vf_viewer \<Rightarrow> user_entity \<Rightarrow> edge_set \<Rightarrow> vf_quote option \<Rightarrow> user_predicate \<Rightarrow> bool" where
  "user_holds f v a es q (P_Request l) = request_leaf_meaning f l"
| "user_holds f v a es q (P_ViewerAccount l) = viewer_account_leaf_meaning f (viewer_account v) l"
| "user_holds f v a es q P_ViewerHasBlinkLabel = viewer_blink_label v"
| "user_holds f v a es q (P_NotificationFilter l) =
     notification_filter_leaf_meaning (viewer_notification_filters v) l"
| "user_holds f v a es q (P_AuthorFacts l) =
     author_facts_leaf_meaning f (ue_id a) (map_option q_link q) l"
| "user_holds f v a es q (P_AuthorSafety l) = author_safety_leaf_meaning (ue_features a) l"
| "user_holds f v a es q (P_AuthorHasLabel l) = author_has_label (ue_labels a) l"
| "user_holds f v a es q (P_AuthorProfile l) = author_profile_leaf_meaning (ue_profile a) l"
| "user_holds f v a es q P_AuthorHasConfirmedEmail = (\<not> ue_lacks_confirmed_email a)"
| "user_holds f v a es q P_AuthorHasVerifiedPhone = (\<not> ue_lacks_verified_phone a)"
| "user_holds f v a es q (P_Relationship l) = hyd_contains es (relationship_node l)"
| "user_holds f v a es q (P_PairEdge l) = is_some_and (\<lambda>q. hyd_contains (q_pair_edges q) (pair_edge_node l)) q"

section \<open>Leaves that read a post\<close>

datatype tweet_leaf =
    TweetNsfwUserFlag | TweetNsfwAdminFlag | TweetHasDmcaMedia | TweetLegalTakedownInRequestCountry
  | TweetLocalLawsTakedownInRequestCountry | TweetMediaGeoRestrictedInRequestCountry | TweetIsNullcast
  | TweetIsCommunityTweet | TweetHasExclusiveContent | TweetIsTrustedFriendsTweet | TweetHasArticle
  | TweetHasNarrowcastPlace | ViewerIsConversationAuthor

fun tweet_leaf_meaning :: "core_facts \<Rightarrow> tweet_features \<Rightarrow> tweet_leaf \<Rightarrow> bool" where
  "tweet_leaf_meaning f t TweetNsfwUserFlag = tf_nsfw_user t"
| "tweet_leaf_meaning f t TweetNsfwAdminFlag = tf_nsfw_admin t"
| "tweet_leaf_meaning f t TweetHasDmcaMedia = mf_has_dmca_media (tf_media t)"
| "tweet_leaf_meaning f t TweetLegalTakedownInRequestCountry =
     takedown_in legal_takedown_country t (request_country f)"
| "tweet_leaf_meaning f t TweetLocalLawsTakedownInRequestCountry =
     takedown_in local_laws_takedown_country t (request_country f)"
| "tweet_leaf_meaning f t TweetMediaGeoRestrictedInRequestCountry = media_restricted_in t (request_country f)"
| "tweet_leaf_meaning f t TweetIsNullcast = tf_is_nullcast t"
| "tweet_leaf_meaning f t TweetIsCommunityTweet = (tf_community_id t \<noteq> None)"
| "tweet_leaf_meaning f t TweetHasExclusiveContent = (tf_exclusive_conversation_author_id t \<noteq> None)"
| "tweet_leaf_meaning f t TweetIsTrustedFriendsTweet = (tf_trusted_friends_list_id t \<noteq> None)"
| "tweet_leaf_meaning f t TweetHasArticle = (tf_article_id t \<noteq> None)"
| "tweet_leaf_meaning f t TweetHasNarrowcastPlace = (tf_narrowcast_place_id t \<noteq> None)"
| "tweet_leaf_meaning f t ViewerIsConversationAuthor =
     is_some_and (\<lambda>author. cf_viewer_id f = Some author) (tf_exclusive_conversation_author_id t)"

datatype reply_control_leaf =
    TweetHasConversationControl control_arm | ViewerIsConversationRootAuthor | ViewerIsInvitedToConversation

definition zip_some_and :: "('a \<Rightarrow> 'b \<Rightarrow> bool) \<Rightarrow> 'a option \<Rightarrow> 'b option \<Rightarrow> bool" where
  "zip_some_and p a b \<longleftrightarrow> is_some_and (\<lambda>x. is_some_and (p x) b) a"

fun reply_control_leaf_meaning :: "core_facts \<Rightarrow> conversation_control option \<Rightarrow> reply_control_leaf \<Rightarrow> bool" where
  "reply_control_leaf_meaning f c (TweetHasConversationControl arm) = is_some_and (\<lambda>c. cc_arm c = arm) c"
| "reply_control_leaf_meaning f c ViewerIsConversationRootAuthor =
     zip_some_and (\<lambda>c v. v = cc_conversation_tweet_author_id c) c (cf_viewer_id f)"
| "reply_control_leaf_meaning f c ViewerIsInvitedToConversation =
     zip_some_and (\<lambda>c v. v \<in> set (cc_invited_user_ids c)) c (cf_viewer_id f)"

datatype post_moderation_leaf = TweetCommunityTweetIsHidden | TweetCommunityTweetAuthorIsRemoved

fun post_moderation_leaf_meaning :: "community_moderation \<Rightarrow> post_moderation_leaf \<Rightarrow> bool" where
  "post_moderation_leaf_meaning m TweetCommunityTweetIsHidden = cm_is_hidden m"
| "post_moderation_leaf_meaning m TweetCommunityTweetAuthorIsRemoved = cm_is_author_removed m"

datatype edge_leaf =
    ViewerMutesRetweetsFromAuthor | ViewerIsFollowedByConversationRootAuthor
  | ViewerFollowsConversationRootAuthor | ViewerSuperFollowsConversationRootAuthor
  | ViewerIsTrustedFriendsListMemberOrOwner | ViewerIsOutsideNarrowcastPlace

fun edge_node :: "edge_leaf \<Rightarrow> vf_hydrator" where
  "edge_node ViewerMutesRetweetsFromAuthor = H_MuteRetweets"
| "edge_node ViewerIsFollowedByConversationRootAuthor = H_RootFollowsViewer"
| "edge_node ViewerFollowsConversationRootAuthor = H_ViewerFollowsRoot"
| "edge_node ViewerSuperFollowsConversationRootAuthor = H_SuperFollowsRoot"
| "edge_node ViewerIsTrustedFriendsListMemberOrOwner = H_TrustedFriends"
| "edge_node ViewerIsOutsideNarrowcastPlace = H_OutsideNarrowcastPlace"

datatype compound_leaf =
    TweetHasMedia | TweetIsSupersededEdit | ViewerAgeVerified | ViewerSuperFollowsAuthor
  | ViewerIsInConversationRootAuthorNetwork | ViewerIsBlockedByConversationRootAuthor
  | ViewerIsInAllowedCountry

fun compound_requires :: "compound_leaf \<Rightarrow> hydrators" where
  "compound_requires TweetHasMedia =
     hyd_union (hyd_union (hyd_of H_Tweet) (hyd_of H_ArticleMediaEntities)) (hyd_of H_ArticleCoverMedia)"
| "compound_requires TweetIsSupersededEdit = hyd_union hyd_empty (hyd_of H_Tweet)"
| "compound_requires ViewerAgeVerified = hyd_union (hyd_of H_ViewerProfile) (hyd_of H_ViewerLabels)"
| "compound_requires ViewerSuperFollowsAuthor = hyd_union (hyd_of H_Tweet) (hyd_of H_SuperFollowsExclusive)"
| "compound_requires ViewerIsInConversationRootAuthorNetwork =
     hyd_union (hyd_of H_RootFollowsViewer) (hyd_of H_RootFollowsViewerSecondDegree)"
| "compound_requires ViewerIsBlockedByConversationRootAuthor =
     hyd_with (hyd_with (hyd_of H_BlockedByReplyRoot) H_BlockedByConversationRoot) H_BlockedByConversationRootPost"
| "compound_requires ViewerIsInAllowedCountry = hyd_union (hyd_of H_ConversationControl) (hyd_of H_ViewerCountry)"

abbreviation reply_control :: "post_entity \<Rightarrow> conversation_control option" where
  "reply_control p \<equiv> map_option ccf_control (pe_conversation_control p)"

fun compound_holds :: "vf_viewer \<Rightarrow> edge_set \<Rightarrow> post_entity \<Rightarrow> compound_leaf \<Rightarrow> bool" where
  "compound_holds v es p TweetHasMedia =
     (mf_has_media (tf_media (pe_tweet_features p)) \<or> pe_article_has_media_entities p \<or> pe_article_has_cover_media p)"
| "compound_holds v es p TweetIsSupersededEdit = is_superseded_edit (pe_tweet_features p) (pe_tweet_id p)"
| "compound_holds v es p ViewerAgeVerified =
     (viewer_age_verified_label v \<or> is_some_and vp_has_idv_premium (viewer_account v))"
| "compound_holds v es p ViewerSuperFollowsAuthor =
     (tf_exclusive_conversation_author_id (pe_tweet_features p) \<noteq> None \<and> hyd_contains es H_SuperFollowsExclusive)"
| "compound_holds v es p ViewerIsInConversationRootAuthorNetwork =
     (hyd_contains es H_RootFollowsViewer \<or> hyd_contains es H_RootFollowsViewerSecondDegree)"
| "compound_holds v es p ViewerIsBlockedByConversationRootAuthor = pe_conversation_root_author_blocks_viewer p"
| "compound_holds v es p ViewerIsInAllowedCountry =
     zip_some_and (\<lambda>c country. allows_country (cc_allowed_country_codes c) country) (reply_control p)
       (Option.bind (pe_conversation_control p) ccf_viewer_country)"

text \<open>The predicates of the engine of post rules: those of the user rules and the ones on the post.\<close>

datatype predicate =
    P_User user_predicate
  | P_TweetCreatedAfter u64 | P_TweetIsRetweet | P_Tweet tweet_leaf | P_TweetHasLabel vf_label
  | P_ReplyControl reply_control_leaf | P_PostModeration post_moderation_leaf | P_TweetArticleIsPublished
  | P_ViewerIsCommunityModerator | P_ViewerIsRemovedFromCommunity | P_ReactedToPostHasLabel vf_label
  | P_ReactedToAuthorIsProtected | P_Edge edge_leaf | P_Compound compound_leaf

fun post_requires :: "predicate \<Rightarrow> hydrators" where
  "post_requires (P_User l) = user_requires l"
| "post_requires (P_TweetCreatedAfter _) = hyd_empty"
| "post_requires P_TweetIsRetweet = hyd_of H_PureCore"
| "post_requires (P_Tweet _) = hyd_of H_Tweet"
| "post_requires (P_TweetHasLabel _) = hyd_of H_TweetSafetyLabels"
| "post_requires (P_ReplyControl _) = hyd_of H_ConversationControl"
| "post_requires (P_PostModeration _) = hyd_of H_CommunityModeration"
| "post_requires P_TweetArticleIsPublished = hyd_of H_ArticleLifecycle"
| "post_requires P_ViewerIsCommunityModerator = hyd_of H_CommunityModerator"
| "post_requires P_ViewerIsRemovedFromCommunity = hyd_of H_CommunityViewerRemoved"
| "post_requires (P_ReactedToPostHasLabel _) = hyd_of H_ReactedToPostSafetyLabels"
| "post_requires P_ReactedToAuthorIsProtected = hyd_of H_ReactedToAuthorSafety"
| "post_requires (P_Edge l) = hyd_of (edge_node l)"
| "post_requires (P_Compound l) = compound_requires l"

fun post_holds ::
  "core_facts \<Rightarrow> vf_viewer \<Rightarrow> user_entity \<Rightarrow> edge_set \<Rightarrow> post_entity \<Rightarrow> predicate \<Rightarrow> bool" where
  "post_holds f v a es p (P_User l) = user_holds f v a es None l"
| "post_holds f v a es p (P_TweetCreatedAfter unix_ms) = (unix_ms < tweet_timestamp_ms (pe_tweet_id p))"
| "post_holds f v a es p P_TweetIsRetweet = (pe_source_tweet_id p \<noteq> None)"
| "post_holds f v a es p (P_Tweet l) = tweet_leaf_meaning f (pe_tweet_features p) l"
| "post_holds f v a es p (P_TweetHasLabel l) = has_label (pe_safety_labels p) l"
| "post_holds f v a es p (P_ReplyControl l) = reply_control_leaf_meaning f (reply_control p) l"
| "post_holds f v a es p (P_PostModeration l) = post_moderation_leaf_meaning (pe_community_moderation p) l"
| "post_holds f v a es p P_TweetArticleIsPublished = (pe_article_lifecycle p = Some Published)"
| "post_holds f v a es p P_ViewerIsCommunityModerator =
     (cf_viewer_id f \<noteq> None \<and> unwrap_or True (pe_viewer_is_community_moderator p))"
| "post_holds f v a es p P_ViewerIsRemovedFromCommunity = pe_viewer_is_removed_from_community p"
| "post_holds f v a es p (P_ReactedToPostHasLabel l) = has_label (pe_reacted_to_post_safety_labels p) l"
| "post_holds f v a es p P_ReactedToAuthorIsProtected = pe_reacted_to_author_is_protected p"
| "post_holds f v a es p (P_Edge l) = hyd_contains es (edge_node l)"
| "post_holds f v a es p (P_Compound l) = compound_holds v es p l"

section \<open>Three-valued answers\<close>

datatype truth = Truth_True | Truth_False | Unknown (unknown_default: bool) (unknown_failed: hydrators)

text \<open>The answer of a leaf from its value and the failed nodes among those it requires.\<close>

definition truth_from :: "bool \<Rightarrow> hydrators \<Rightarrow> truth" where
  "truth_from value failed =
     (if \<not> hyd_is_empty failed then Unknown value failed else if value then Truth_True else Truth_False)"

definition user_truth_of :: "core_facts \<Rightarrow> vf_viewer \<Rightarrow> user_row \<Rightarrow> user_predicate \<Rightarrow> truth" where
  "user_truth_of f v c p =
     truth_from (user_holds f v (ur_user c) (ur_edges c) (ur_quote c) p)
       (hyd_intersection (ur_failed c) (user_requires p))"

definition post_truth_of :: "core_facts \<Rightarrow> vf_viewer \<Rightarrow> post_row \<Rightarrow> predicate \<Rightarrow> truth" where
  "post_truth_of f v c p =
     truth_from (post_holds f v (pr_author c) (pr_edges c) (pr_post c) p)
       (hyd_intersection (pr_failed c) (post_requires p))"

end
