(* ===== verification/Vf_Conditions.thy ===== *)
theory Vf_Conditions
  imports Vf_Features
begin

text \<open>
  Conditions of visibility rules and their evaluation
  (\<open>rule_spec.rs\<close>, \<open>rule_spec/rule.rs\<close> and \<open>rule_spec/observed.rs\<close> under
  \<open>visibility-filtering/rules\<close>). A condition is a tree of leaves; it is evaluated in the three
  values of \<open>Truth\<close>, once by the plain evaluator, which stops a group at its first absorbing
  child and records nothing, and once by the evaluator behind the policy trace, which visits every
  node and records for each its truth, what skipped it and which children decided it. Conditions
  are generic in the leaf, as the code is generic in the engine. The code guards against
  descriptions that refer to themselves through statics; a description here is a finite tree.

  The lemmas: the group evaluator is the conjunction or disjunction of the children, the traced
  evaluation answers what the plain one answers, an unknown answer resolves to the Boolean reading
  of the condition, names only failed nodes the condition requires, and a known answer does not
  change when failed leaves get any answer at all.
\<close>

section \<open>Truth\<close>

fun resolves_true :: "truth \<Rightarrow> bool" where
  "resolves_true Truth_True = True"
| "resolves_true Truth_False = False"
| "resolves_true (Unknown d _) = d"

fun truth_and :: "truth \<Rightarrow> truth \<Rightarrow> truth" where
  "truth_and Truth_False _ = Truth_False"
| "truth_and _ Truth_False = Truth_False"
| "truth_and Truth_True other = other"
| "truth_and other Truth_True = other"
| "truth_and (Unknown a x) (Unknown b y) = Unknown (a \<and> b) (hyd_union x y)"

fun truth_or :: "truth \<Rightarrow> truth \<Rightarrow> truth" where
  "truth_or Truth_True _ = Truth_True"
| "truth_or _ Truth_True = Truth_True"
| "truth_or Truth_False other = other"
| "truth_or other Truth_False = other"
| "truth_or (Unknown a x) (Unknown b y) = Unknown (a \<or> b) (hyd_union x y)"

fun truth_not :: "truth \<Rightarrow> truth" where
  "truth_not Truth_True = Truth_False"
| "truth_not Truth_False = Truth_True"
| "truth_not (Unknown d failed) = Unknown (\<not> d) failed"

section \<open>Conditions\<close>

datatype (set_cond: 'p) rule_cond =
    C_Leaf 'p
  | C_All "'p rule_cond list"
  | C_Any "'p rule_cond list"
  | C_Not "'p rule_cond"
  | C_Named string "'p rule_cond"

fun cond_leaves :: "'p rule_cond \<Rightarrow> 'p list" where
  "cond_leaves (C_Leaf p) = [p]"
| "cond_leaves (C_All cs) = concat (map cond_leaves cs)"
| "cond_leaves (C_Any cs) = concat (map cond_leaves cs)"
| "cond_leaves (C_Not c) = cond_leaves c"
| "cond_leaves (C_Named _ c) = cond_leaves c"

fun cond_requirements :: "('p \<Rightarrow> hydrators) \<Rightarrow> 'p rule_cond \<Rightarrow> hydrators" where
  "cond_requirements req (C_Leaf p) = req p"
| "cond_requirements req (C_All cs) = fold (\<lambda>c acc. hyd_union acc (cond_requirements req c)) cs hyd_empty"
| "cond_requirements req (C_Any cs) = fold (\<lambda>c acc. hyd_union acc (cond_requirements req c)) cs hyd_empty"
| "cond_requirements req (C_Not c) = cond_requirements req c"
| "cond_requirements req (C_Named _ c) = cond_requirements req c"

text \<open>The named conditions of a condition, in the order a walk meets them.\<close>

fun cond_definitions :: "'p rule_cond \<Rightarrow> (string \<times> 'p rule_cond) list" where
  "cond_definitions (C_Leaf p) = []"
| "cond_definitions (C_All cs) = concat (map cond_definitions cs)"
| "cond_definitions (C_Any cs) = concat (map cond_definitions cs)"
| "cond_definitions (C_Not c) = cond_definitions c"
| "cond_definitions (C_Named n c) = (n, c) # cond_definitions c"

section \<open>Plain evaluation\<close>

fun evaluate_cond :: "('p \<Rightarrow> truth) \<Rightarrow> 'p rule_cond \<Rightarrow> truth"
and cond_group :: "('p \<Rightarrow> truth) \<Rightarrow> truth \<Rightarrow> (truth \<Rightarrow> truth \<Rightarrow> truth) \<Rightarrow> truth \<Rightarrow> 'p rule_cond list \<Rightarrow> truth"
where
  "evaluate_cond tr (C_Leaf p) = tr p"
| "evaluate_cond tr (C_All cs) = cond_group tr Truth_False truth_and Truth_True cs"
| "evaluate_cond tr (C_Any cs) = cond_group tr Truth_True truth_or Truth_False cs"
| "evaluate_cond tr (C_Not c) = truth_not (evaluate_cond tr c)"
| "evaluate_cond tr (C_Named _ c) = evaluate_cond tr c"
| "cond_group tr absorbing combine truth [] = truth"
| "cond_group tr absorbing combine truth (c # cs) =
     (let answer = evaluate_cond tr c
      in if answer = absorbing then answer else cond_group tr absorbing combine (combine truth answer) cs)"

section \<open>Traced evaluation\<close>

datatype trace_skip = FalseConjunct nat | TrueDisjunct nat | Terminal_Skip nat

datatype node_kind = K_Rule | K_Leaf predicate | K_All | K_Any | K_Not | K_Named string

record trace_witness =
  w_node :: nat
  w_truth :: truth
  w_negated :: bool

record node_trace =
  nt_node :: nat
  nt_parent :: "nat option"
  nt_kind :: node_kind
  nt_truth :: truth
  nt_skip :: "trace_skip option"
  nt_witnesses :: "trace_witness list"
  nt_default_witnesses :: "trace_witness list"

fun cond_kind :: "('p \<Rightarrow> predicate) \<Rightarrow> 'p rule_cond \<Rightarrow> node_kind" where
  "cond_kind lift (C_Leaf p) = K_Leaf (lift p)"
| "cond_kind lift (C_All _) = K_All"
| "cond_kind lift (C_Any _) = K_Any"
| "cond_kind lift (C_Not _) = K_Not"
| "cond_kind lift (C_Named n _) = K_Named n"

definition total_enter ::
  "node_kind \<Rightarrow> nat option \<Rightarrow> trace_skip option \<Rightarrow> node_trace list \<Rightarrow> nat \<times> node_trace list" where
  "total_enter kind parent skip nodes =
     (length nodes,
      nodes @ [\<lparr>nt_node = length nodes, nt_parent = parent, nt_kind = kind, nt_truth = Truth_False,
                nt_skip = skip, nt_witnesses = [], nt_default_witnesses = []\<rparr>])"

fun witness_decides :: "node_kind \<Rightarrow> truth \<Rightarrow> truth \<Rightarrow> bool" where
  "witness_decides kind truth child =
     (case kind of
        K_Leaf _ \<Rightarrow> False
      | K_Not \<Rightarrow> True
      | K_Named _ \<Rightarrow> True
      | _ \<Rightarrow>
          (let conjunction = (kind = K_All \<or> kind = K_Rule)
           in case truth of
                Unknown _ _ \<Rightarrow> (case child of Unknown _ _ \<Rightarrow> True | _ \<Rightarrow> False)
              | Truth_False \<Rightarrow> if conjunction then child = Truth_False else True
              | Truth_True \<Rightarrow> if \<not> conjunction then child = Truth_True else True))"

fun default_witness_decides :: "node_kind \<Rightarrow> bool \<Rightarrow> truth \<Rightarrow> bool" where
  "default_witness_decides kind d child =
     (case kind of
        K_Leaf _ \<Rightarrow> False
      | K_Not \<Rightarrow> True
      | K_Named _ \<Rightarrow> True
      | _ \<Rightarrow> resolves_true child = d)"

definition total_finish :: "nat \<Rightarrow> truth \<Rightarrow> node_trace list \<Rightarrow> node_trace list" where
  "total_finish handle truth nodes =
     (let kind = nt_kind (nodes ! handle);
          children = map (\<lambda>c. (nt_node c, nt_truth c)) (filter (\<lambda>c. nt_parent c = Some handle) nodes);
          negated = (kind = K_Not);
          witnesses = map (\<lambda>(n, t). \<lparr>w_node = n, w_truth = t, w_negated = negated\<rparr>)
                        (filter (\<lambda>(_, t). witness_decides kind truth t) children);
          default_witnesses =
            (case truth of
               Unknown d _ \<Rightarrow>
                 map (\<lambda>(n, t). \<lparr>w_node = n, w_truth = (if resolves_true t then Truth_True else Truth_False),
                                w_negated = negated\<rparr>)
                   (filter (\<lambda>(_, t). default_witness_decides kind d t) children)
             | _ \<Rightarrow> [])
      in nodes[handle := (nodes ! handle)\<lparr>nt_truth := truth, nt_witnesses := witnesses,
                                          nt_default_witnesses := default_witnesses\<rparr>])"

fun trace_cond :: "('p \<Rightarrow> predicate) \<Rightarrow> ('p \<Rightarrow> truth) \<Rightarrow> 'p rule_cond \<Rightarrow> nat option \<Rightarrow> trace_skip option \<Rightarrow>
    node_trace list \<Rightarrow> truth \<times> nat \<times> node_trace list"
and trace_group :: "('p \<Rightarrow> predicate) \<Rightarrow> ('p \<Rightarrow> truth) \<Rightarrow> nat \<Rightarrow> trace_skip option \<Rightarrow> truth \<Rightarrow>
    (truth \<Rightarrow> truth \<Rightarrow> truth) \<Rightarrow> (nat \<Rightarrow> trace_skip) \<Rightarrow> truth \<Rightarrow> nat option \<Rightarrow> 'p rule_cond list \<Rightarrow>
    node_trace list \<Rightarrow> truth \<times> node_trace list"
where
  "trace_cond lift tr (C_Leaf p) parent skip nodes =
     (let (handle, nodes) = total_enter (K_Leaf (lift p)) parent skip nodes
      in (tr p, handle, total_finish handle (tr p) nodes))"
| "trace_cond lift tr (C_All cs) parent skip nodes =
     (let (handle, nodes) = total_enter K_All parent skip nodes;
          (truth, nodes) =
            trace_group lift tr handle skip Truth_False truth_and FalseConjunct Truth_True None cs nodes
      in (truth, handle, total_finish handle truth nodes))"
| "trace_cond lift tr (C_Any cs) parent skip nodes =
     (let (handle, nodes) = total_enter K_Any parent skip nodes;
          (truth, nodes) =
            trace_group lift tr handle skip Truth_True truth_or TrueDisjunct Truth_False None cs nodes
      in (truth, handle, total_finish handle truth nodes))"
| "trace_cond lift tr (C_Not c) parent skip nodes =
     (let (handle, nodes) = total_enter K_Not parent skip nodes;
          (answer, _, nodes) = trace_cond lift tr c (Some handle) skip nodes
      in (truth_not answer, handle, total_finish handle (truth_not answer) nodes))"
| "trace_cond lift tr (C_Named n c) parent skip nodes =
     (let (handle, nodes) = total_enter (K_Named n) parent skip nodes;
          (answer, _, nodes) = trace_cond lift tr c (Some handle) skip nodes
      in (answer, handle, total_finish handle answer nodes))"
| "trace_group lift tr handle skip absorbing combine after truth decided [] nodes = (truth, nodes)"
| "trace_group lift tr handle skip absorbing combine after truth decided (c # cs) nodes =
     (let (answer, child, nodes) =
            trace_cond lift tr c (Some handle) (or_else skip (map_option after decided)) nodes;
          decided = (if decided = None \<and> answer = absorbing then Some child else decided)
      in trace_group lift tr handle skip absorbing combine after (combine truth answer) decided cs nodes)"

section \<open>Laws of the three values\<close>

lemma truth_absorb [simp]:
  "truth_and t Truth_False = Truth_False" "truth_or t Truth_True = Truth_True"
  "truth_and Truth_True t = t" "truth_and t Truth_True = t"
  "truth_or Truth_False t = t" "truth_or t Truth_False = t"
  by (cases t; simp)+

lemma truth_and_assoc: "truth_and (truth_and a b) c = truth_and a (truth_and b c)"
  by (cases a; cases b; cases c) (simp_all add: hyd_union_assoc)

lemma truth_or_assoc: "truth_or (truth_or a b) c = truth_or a (truth_or b c)"
  by (cases a; cases b; cases c) (simp_all add: hyd_union_assoc)

lemma truth_not_not [simp]: "truth_not (truth_not t) = t"
  by (cases t) simp_all

lemma resolves_true_ops [simp]:
  "resolves_true (truth_and a b) \<longleftrightarrow> resolves_true a \<and> resolves_true b"
  "resolves_true (truth_or a b) \<longleftrightarrow> resolves_true a \<or> resolves_true b"
  "resolves_true (truth_not a) \<longleftrightarrow> \<not> resolves_true a"
  by (cases a; cases b; auto)+

section \<open>The group evaluator is a fold\<close>

lemma foldl_absorbed [simp]:
  "foldl truth_and Truth_False ts = Truth_False" "foldl truth_or Truth_True ts = Truth_True"
  by (induction ts) simp_all

lemma cond_group_fold:
  "cond_group tr Truth_False truth_and acc cs = foldl truth_and acc (map (evaluate_cond tr) cs)"
  "cond_group tr Truth_True truth_or acc cs = foldl truth_or acc (map (evaluate_cond tr) cs)"
  by (induction cs arbitrary: acc) (simp_all add: Let_def)

lemma evaluate_cond_groups [simp]:
  "evaluate_cond tr (C_All cs) = foldl truth_and Truth_True (map (evaluate_cond tr) cs)"
  "evaluate_cond tr (C_Any cs) = foldl truth_or Truth_False (map (evaluate_cond tr) cs)"
  by (simp_all add: cond_group_fold)

declare evaluate_cond.simps(2,3) [simp del]

lemma trace_group_fold:
  assumes "\<And>c parent skip nodes. c \<in> set cs \<Longrightarrow> fst (trace_cond lift tr c parent skip nodes) = evaluate_cond tr c"
  shows "fst (trace_group lift tr handle skip absorbing combine after acc decided cs nodes) =
         foldl combine acc (map (evaluate_cond tr) cs)"
  using assms
proof (induction cs arbitrary: acc decided nodes)
  case (Cons c cs)
  obtain answer child nodes' where
    step: "trace_cond lift tr c (Some handle) (or_else skip (map_option after decided)) nodes = (answer, child, nodes')"
    by (cases "trace_cond lift tr c (Some handle) (or_else skip (map_option after decided)) nodes") auto
  then have "answer = evaluate_cond tr c" using Cons.prems [of c] by (metis fst_conv list.set_intros(1))
  with Cons step show ?case by (simp add: Let_def)
qed simp

lemma trace_cond_truth: "fst (trace_cond lift tr c parent skip nodes) = evaluate_cond tr c"
proof (induction c arbitrary: parent skip nodes)
  case (C_All cs)
  then show ?case by (simp add: trace_group_fold total_enter_def Let_def split: prod.split)
      (metis C_All fst_conv trace_group_fold)
next
  case (C_Any cs)
  then show ?case by (simp add: trace_group_fold total_enter_def Let_def split: prod.split)
      (metis C_Any fst_conv trace_group_fold)
next
  case (C_Not c)
  then show ?case by (simp add: total_enter_def Let_def split: prod.split) (metis C_Not fst_conv)
next
  case (C_Named n c)
  then show ?case by (simp add: total_enter_def Let_def split: prod.split) (metis C_Named fst_conv)
qed (simp add: total_enter_def Let_def)

section \<open>Resolution, provenance and stability\<close>

text \<open>The Boolean reading of a condition.\<close>

fun cond_holds :: "('p \<Rightarrow> bool) \<Rightarrow> 'p rule_cond \<Rightarrow> bool" where
  "cond_holds h (C_Leaf p) = h p"
| "cond_holds h (C_All cs) = list_all (cond_holds h) cs"
| "cond_holds h (C_Any cs) = list_ex (cond_holds h) cs"
| "cond_holds h (C_Not c) = (\<not> cond_holds h c)"
| "cond_holds h (C_Named _ c) = cond_holds h c"

lemma resolves_foldl:
  "resolves_true (foldl truth_and acc ts) \<longleftrightarrow> resolves_true acc \<and> list_all resolves_true ts"
  "resolves_true (foldl truth_or acc ts) \<longleftrightarrow> resolves_true acc \<or> list_ex resolves_true ts"
  by (induction ts arbitrary: acc) auto

lemma cond_holds_cong: "(\<And>p. p \<in> set_cond c \<Longrightarrow> h p = k p) \<Longrightarrow> cond_holds h c = cond_holds k c"
  by (induction c) (auto simp: list_all_iff list_ex_iff)

lemma resolves_evaluate:
  "resolves_true (evaluate_cond tr c) \<longleftrightarrow> cond_holds (\<lambda>p. resolves_true (tr p)) c"
  by (induction c) (auto simp: resolves_foldl list_all_iff list_ex_iff)

lemma resolves_truth_from [simp]: "resolves_true (truth_from b f) \<longleftrightarrow> b"
  by (simp add: truth_from_def)

text \<open>An unknown answer names failed nodes, some, and only ones the condition requires.\<close>

definition blames :: "hydrators \<Rightarrow> truth \<Rightarrow> bool" where
  "blames bound t \<longleftrightarrow> (case t of Unknown _ f \<Rightarrow> \<not> hyd_is_empty f \<and> hyd_sub f bound | _ \<Rightarrow> True)"

lemma blames_simps [simp]:
  "blames b Truth_True" "blames b Truth_False"
  "blames b (Unknown d f) \<longleftrightarrow> \<not> hyd_is_empty f \<and> hyd_sub f b"
  by (simp_all add: blames_def)

lemma blames_ops:
  "blames b s \<Longrightarrow> blames b t \<Longrightarrow> blames b (truth_and s t)"
  "blames b s \<Longrightarrow> blames b t \<Longrightarrow> blames b (truth_or s t)"
  "blames b t \<Longrightarrow> blames b (truth_not t)"
  by (cases s; cases t; simp)+

lemma blames_foldl:
  "blames b acc \<Longrightarrow> list_all (blames b) ts \<Longrightarrow> blames b (foldl truth_and acc ts)"
  "blames b acc \<Longrightarrow> list_all (blames b) ts \<Longrightarrow> blames b (foldl truth_or acc ts)"
  by (induction ts arbitrary: acc) (simp_all add: blames_ops)

lemma blames_mono: "blames b t \<Longrightarrow> hyd_sub b b' \<Longrightarrow> blames b' t"
  by (cases t) (auto intro: hyd_sub_trans)

lemma requirements_bound:
  "hyd_sub acc (fold (\<lambda>c acc. hyd_union acc (cond_requirements req c)) cs acc)"
  "c \<in> set cs \<Longrightarrow> hyd_sub (cond_requirements req c) (fold (\<lambda>c acc. hyd_union acc (cond_requirements req c)) cs acc)"
proof (induction cs arbitrary: acc)
  case (Cons x xs)
  { case 1
    show ?case using Cons.IH(1) [of "hyd_union acc (cond_requirements req x)"] by simp
  next
    case 2
    then show ?case
      using Cons.IH(1) [of "hyd_union acc (cond_requirements req x)"]
        Cons.IH(2) [of "hyd_union acc (cond_requirements req x)"]
      by (auto intro: hyd_sub_trans) }
qed simp_all

lemma evaluate_blames:
  assumes "\<And>p. p \<in> set_cond c \<Longrightarrow> blames (hyd_intersection failed (req p)) (tr p)"
  shows "blames (hyd_intersection failed (cond_requirements req c)) (evaluate_cond tr c)"
  using assms
proof (induction c)
  case (C_All cs)
  have "blames (hyd_intersection failed (cond_requirements req (C_All cs))) (evaluate_cond tr c)" if "c \<in> set cs" for c
    using C_All that requirements_bound(2) [OF that, of req hyd_empty]
    by (auto intro!: blames_mono [OF C_All.IH] intro: hyd_sub_inter_right)
  then show ?case by (auto simp: list_all_iff intro!: blames_foldl)
next
  case (C_Any cs)
  have "blames (hyd_intersection failed (cond_requirements req (C_Any cs))) (evaluate_cond tr c)" if "c \<in> set cs" for c
    using C_Any that requirements_bound(2) [OF that, of req hyd_empty]
    by (auto intro!: blames_mono [OF C_Any.IH] intro: hyd_sub_inter_right)
  then show ?case by (auto simp: list_all_iff intro!: blames_foldl)
qed (simp_all add: blames_ops)

lemma truth_from_blames: "blames f (truth_from b f)"
  by (simp add: truth_from_def)

text \<open>A known answer is kept when leaves that were unknown get any answer.\<close>

definition truth_le :: "truth \<Rightarrow> truth \<Rightarrow> bool" where
  "truth_le a b \<longleftrightarrow> (case a of Unknown _ _ \<Rightarrow> True | _ \<Rightarrow> b = a)"

lemma truth_le_simps [simp]:
  "truth_le a a" "truth_le (Unknown d f) b" "truth_le Truth_True b \<longleftrightarrow> b = Truth_True"
  "truth_le Truth_False b \<longleftrightarrow> b = Truth_False"
  by (simp_all add: truth_le_def split: truth.split)

lemma truth_le_ops:
  "truth_le a b \<Longrightarrow> truth_le c d \<Longrightarrow> truth_le (truth_and a c) (truth_and b d)"
  "truth_le a b \<Longrightarrow> truth_le c d \<Longrightarrow> truth_le (truth_or a c) (truth_or b d)"
  "truth_le a b \<Longrightarrow> truth_le (truth_not a) (truth_not b)"
  by (cases a; cases c; simp)+

lemma truth_le_foldl:
  "truth_le a b \<Longrightarrow> list_all2 truth_le ts us \<Longrightarrow> truth_le (foldl truth_and a ts) (foldl truth_and b us)"
  "truth_le a b \<Longrightarrow> list_all2 truth_le ts us \<Longrightarrow> truth_le (foldl truth_or a ts) (foldl truth_or b us)"
  by (induction ts arbitrary: a b us) (auto simp: list_all2_Cons1 truth_le_ops)

lemma evaluate_stable:
  "(\<And>p. p \<in> set_cond c \<Longrightarrow> truth_le (tr p) (tr' p)) \<Longrightarrow> truth_le (evaluate_cond tr c) (evaluate_cond tr' c)"
proof (induction c)
  case (C_All cs)
  then have "list_all2 truth_le (map (evaluate_cond tr) cs) (map (evaluate_cond tr') cs)"
    by (auto simp: list_all2_map1 list_all2_map2 list_all2_same)
  then show ?case by (simp add: truth_le_foldl)
next
  case (C_Any cs)
  then have "list_all2 truth_le (map (evaluate_cond tr) cs) (map (evaluate_cond tr') cs)"
    by (auto simp: list_all2_map1 list_all2_map2 list_all2_same)
  then show ?case by (simp add: truth_le_foldl)
qed (simp_all add: truth_le_ops)

end
