(* ===== verification/Vf_Policy.thy ===== *)
theory Vf_Policy
  imports Vf_Conditions
begin

text \<open>
  Actions, verdicts and the policy fold of the visibility service
  (\<open>models/verdict.rs\<close>, \<open>rules/action_kind.rs\<close>, \<open>rules/defaults.rs\<close>, the action half of
  \<open>rules/rule_spec.rs\<close> and the fold of \<open>rules/engine.rs\<close>). A policy is a list of rules ordered by
  the severity of their actions. The fold judges a candidate with them: the first withholding or
  notice ends it, interstitials, media restrictions and engagement limits fill the slots of a
  shown verdict, and answers that rest on failed reads are collected in buckets from which the
  defaults the verdict relies on are read. As for conditions there are two folds, the plain one
  and the one behind the trace.

  Identifiers of rules are represented by the name the code prints for them; the enumerations of
  the Thrift library (\<open>InterstitialReason\<close>, \<open>InterstitialAction\<close>, \<open>AppealablePolicy\<close>,
  \<open>SafetyResultReason\<close>) by the members the rules name and one constructor for the others.
\<close>

section \<open>Verdicts\<close>

datatype rule_id = RuleId string

datatype vf_filtered_reason =
    FR_ContainNsfwMedia | FR_AuthorBlockViewer | FR_PossiblyUndesirable | FR_UnspecifiedReason
  | FR_AuthorAccountIsInactive | FR_AuthorIsProtected | FR_AuthorIsUnsafe | FR_ReportedTweet
  | FR_TweetMatchesViewerMutedKeyword string | FR_TweetIsBounced | FR_SafetyResult "string option" string
  | FR_AuthorIsDeactivated | FR_AuthorIsSuspended | FR_ViewerMutesAuthor | FR_TweetIsNullcast
  | FR_ExclusiveTweet | FR_ViewerBlocksAuthor

datatype nsfw_viewer_drop_reason = NV_IsUnderage | NV_HasNoStatedAge | NV_LoggedOut

datatype vf_drop_reason = Legacy vf_filtered_reason | NsfwViewer nsfw_viewer_drop_reason

fun drop_reason_legacy :: "vf_drop_reason \<Rightarrow> vf_filtered_reason" where
  "drop_reason_legacy (Legacy r) = r"
| "drop_reason_legacy (NsfwViewer _) = FR_ContainNsfwMedia"

datatype tombstone_reason =
    TS_Bounced | TS_SensitiveViewerAgeVerification | TS_UpdateAppIos | TS_UpdateAppAndroid | TS_LocalRegulations

datatype withholding = W_Drop vf_drop_reason | W_Tombstone tombstone_reason

datatype interstitial_reason =
    IR_Nudity bool | IR_Sensitive bool | IR_SensitiveUser bool | IR_Violence bool | IR_ContainsNsfwMedia bool
  | IR_PossiblyUndesirable bool | IR_Other string

datatype interstitial_action = AgeVerificationPrompt | IA_Other int

datatype media_restriction =
    MR_MediaInterstitial vf_filtered_reason interstitial_reason "interstitial_action option"
  | MR_NsfwInterstitial

datatype limited_engagement_reason =
    NonCompliant | ConversationControl | ReadonlyViewer | BlockedViewer | RootAuthorBlockedViewer | StaleTweet
  | CommunityTweetHidden | CommunityTweetMemberRemoved | CommunityTweetCommunityNotFound
  | CommunityTweetCommunityDeleted | CommunityTweetCommunitySuspended | CommunityTweetViewerRemoved
  | DynamicProductAd | LocalTweet

record limited_engagement =
  le_first :: limited_engagement_reason
  le_rest :: "limited_engagement_reason list"

definition limited_engagement_new :: "limited_engagement_reason \<Rightarrow> limited_engagement" where
  "limited_engagement_new reason = \<lparr>le_first = reason, le_rest = []\<rparr>"

definition le_reasons :: "limited_engagement \<Rightarrow> limited_engagement_reason list" where
  "le_reasons l = le_first l # le_rest l"

definition le_add :: "limited_engagement \<Rightarrow> limited_engagement_reason \<Rightarrow> limited_engagement \<times> bool" where
  "le_add l reason =
     (let added = (\<not> list_ex (\<lambda>held. held = reason) (le_reasons l))
      in (if added then l\<lparr>le_rest := le_rest l @ [reason]\<rparr> else l, added))"

datatype appealable_policy =
    AP_ABUSE | AP_CIVIC_INTEGRITY | AP_HATEFUL_CONDUCT | AP_VIOLENT_SPEECH | AP_Other int

record fosnr_reason =
  fo_policy :: appealable_policy
  fo_level :: int
  fo_proactive :: bool
  fo_appeal_submitted :: bool

datatype limited_action_type =
    LA_Reply | LA_Retweet | LA_QuoteTweet | LA_Like | LA_React | LA_SendViaDm | LA_AddToBookmarks | LA_AddToMoment
  | LA_PinToProfile | LA_ViewTweetActivity | LA_ShareTweetVia | LA_Follow | LA_ListsAddRemove | LA_MuteConversation
  | LA_Embed | LA_ViewHiddenReplies | LA_HideCommunityTweet | LA_CopyLink | LA_VoteOnPoll | LA_RemoveFromCommunity
  | LA_ShowRetweetActionMenu | LA_ReplyDownVote | LA_Autoplay | LA_EditTweet | LA_Highlight | LA_ViewPostEngagements

datatype vf_notice = N_SoftIntervention fosnr_reason | N_Appealable fosnr_reason "limited_action_type list"

datatype label_interstitial =
    PublicInterest string "limited_engagement_reason option"
  | EmergencyDynamic string "string option"

fun li_limited_engagement_reason :: "label_interstitial \<Rightarrow> limited_engagement_reason" where
  "li_limited_engagement_reason (PublicInterest _ limit) = unwrap_or NonCompliant limit"
| "li_limited_engagement_reason (EmergencyDynamic _ _) = NonCompliant"

record 'a decided =
  dec_value :: 'a
  dec_id :: rule_id
  dec_by :: string

datatype verdict =
    Withheld "withholding decided"
  | Fosnr "vf_notice decided"
  | Shown (shown_label: "label_interstitial decided option") (shown_media: "media_restriction decided option")
      (shown_engagement: "limited_engagement decided option")

datatype evaluation =
    Complete (ev_verdict: verdict) (ev_defaults: hydrators)
  | Partial (ev_verdict: verdict) (ev_defaults: hydrators)

section \<open>Kinds of action\<close>

datatype action_kind =
    AK_Appealable | AK_Drop | AK_Tombstone | AK_LabelInterstitial | AK_MediaRestriction | AK_SoftIntervention
  | AK_LimitedEngagement

datatype vf_slot = Slot_LabelInterstitial | Slot_Media | Slot_Engagement

datatype vf_lands = Lands_Withheld | Lands_Fosnr | Lands_Slot vf_slot

datatype rule_effect =
    DidNotApply | Decided | AfterTerminal | FilledMedia | KeptEarlierMedia | KeptEarlierMediaInsteadOfFosnr
  | FilledLabelInterstitial | KeptEarlierLabelInterstitial | FilledEngagement | AddedEngagementReason
  | DuplicateEngagementReason

datatype bucket = B_Withholding | B_Media | B_Engagement

record filled =
  fi_label_interstitial :: bool
  fi_media :: bool
  fi_engagement :: bool

fun filled_has :: "filled \<Rightarrow> vf_slot \<Rightarrow> bool" where
  "filled_has f Slot_LabelInterstitial = fi_label_interstitial f"
| "filled_has f Slot_Media = fi_media f"
| "filled_has f Slot_Engagement = fi_engagement f"

text \<open>The rows of the table of kinds: severity, where the action lands, what keeps it out, its bucket.\<close>

fun severity :: "action_kind \<Rightarrow> nat" where
  "severity AK_Appealable = 18"
| "severity AK_Drop = 17"
| "severity AK_Tombstone = 16"
| "severity AK_LabelInterstitial = 11"
| "severity AK_MediaRestriction = 10"
| "severity AK_SoftIntervention = 8"
| "severity AK_LimitedEngagement = 6"

fun kind_lands :: "action_kind \<Rightarrow> vf_lands" where
  "kind_lands AK_Appealable = Lands_Fosnr"
| "kind_lands AK_Drop = Lands_Withheld"
| "kind_lands AK_Tombstone = Lands_Withheld"
| "kind_lands AK_LabelInterstitial = Lands_Slot Slot_LabelInterstitial"
| "kind_lands AK_MediaRestriction = Lands_Slot Slot_Media"
| "kind_lands AK_SoftIntervention = Lands_Fosnr"
| "kind_lands AK_LimitedEngagement = Lands_Slot Slot_Engagement"

fun kept_by_row :: "action_kind \<Rightarrow> (vf_slot \<times> rule_effect) list" where
  "kept_by_row AK_LabelInterstitial = [(Slot_LabelInterstitial, KeptEarlierLabelInterstitial)]"
| "kept_by_row AK_MediaRestriction = [(Slot_Media, KeptEarlierMedia)]"
| "kept_by_row AK_SoftIntervention =
     [(Slot_LabelInterstitial, KeptEarlierLabelInterstitial), (Slot_Media, KeptEarlierMediaInsteadOfFosnr)]"
| "kept_by_row _ = []"

fun kind_bucket :: "action_kind \<Rightarrow> bucket" where
  "kind_bucket AK_Appealable = B_Withholding"
| "kind_bucket AK_Drop = B_Withholding"
| "kind_bucket AK_Tombstone = B_Withholding"
| "kind_bucket AK_LabelInterstitial = B_Media"
| "kind_bucket AK_MediaRestriction = B_Media"
| "kind_bucket AK_SoftIntervention = B_Media"
| "kind_bucket AK_LimitedEngagement = B_Engagement"

definition kept_by :: "action_kind \<Rightarrow> filled \<Rightarrow> rule_effect option" where
  "kept_by k f = map_option snd (List.find (\<lambda>(slot, _). filled_has f slot) (kept_by_row k))"

definition admits_defaults :: "action_kind \<Rightarrow> filled \<Rightarrow> bool" where
  "admits_defaults k f \<longleftrightarrow>
     (let own_slot_filled = (case kind_lands k of Lands_Slot slot \<Rightarrow> filled_has f slot | _ \<Rightarrow> False)
      in \<not> own_slot_filled \<and> kept_by k f = None)"

definition kind_withholds :: "action_kind \<Rightarrow> bool" where
  "kind_withholds k \<longleftrightarrow> kind_lands k = Lands_Withheld"

fun withholding_kind :: "withholding \<Rightarrow> action_kind" where
  "withholding_kind (W_Drop _) = AK_Drop"
| "withholding_kind (W_Tombstone _) = AK_Tombstone"

fun notice_kind :: "vf_notice \<Rightarrow> action_kind" where
  "notice_kind (N_SoftIntervention _) = AK_SoftIntervention"
| "notice_kind (N_Appealable _ _) = AK_Appealable"

section \<open>Defaults\<close>

fun bucket_rank :: "bucket \<Rightarrow> nat" where
  "bucket_rank B_Withholding = 0"
| "bucket_rank B_Media = 1"
| "bucket_rank B_Engagement = 2"

fun bucket_relied_on_by :: "bucket \<Rightarrow> verdict \<Rightarrow> bool" where
  "bucket_relied_on_by b (Withheld d) = (bucket_rank b \<le> bucket_rank (kind_bucket (withholding_kind (dec_value d))))"
| "bucket_relied_on_by b (Fosnr d) = (bucket_rank b \<le> bucket_rank (kind_bucket (notice_kind (dec_value d))))"
| "bucket_relied_on_by b (Shown _ _ _) = True"

record defaults =
  df_withholding :: hydrators
  df_media :: hydrators
  df_engagement :: hydrators

definition no_defaults :: defaults where
  "no_defaults = \<lparr>df_withholding = hyd_empty, df_media = hyd_empty, df_engagement = hyd_empty\<rparr>"

fun defaults_get :: "defaults \<Rightarrow> bucket \<Rightarrow> hydrators" where
  "defaults_get d B_Withholding = df_withholding d"
| "defaults_get d B_Media = df_media d"
| "defaults_get d B_Engagement = df_engagement d"

fun defaults_admit :: "defaults \<Rightarrow> bucket \<Rightarrow> hydrators \<Rightarrow> defaults" where
  "defaults_admit d B_Withholding reads = d\<lparr>df_withholding := hyd_union (df_withholding d) reads\<rparr>"
| "defaults_admit d B_Media reads = d\<lparr>df_media := hyd_union (df_media d) reads\<rparr>"
| "defaults_admit d B_Engagement reads = d\<lparr>df_engagement := hyd_union (df_engagement d) reads\<rparr>"

definition defaults_relied_on_by :: "defaults \<Rightarrow> verdict \<Rightarrow> defaults" where
  "defaults_relied_on_by d v =
     (let relied = (\<lambda>b. if bucket_relied_on_by b v then defaults_get d b else hyd_empty)
      in \<lparr>df_withholding = relied B_Withholding, df_media = relied B_Media, df_engagement = relied B_Engagement\<rparr>)"

definition defaults_all :: "defaults \<Rightarrow> hydrators" where
  "defaults_all d = hyd_union (hyd_union (df_withholding d) (df_media d)) (df_engagement d)"

section \<open>Rules\<close>

datatype vf_audience = Everyone | NonAuthors | NonFollowers | OnlyAuthor

record ('p, 'a) vf_rule =
  ru_id :: rule_id
  ru_audience :: vf_audience
  ru_when :: "'p rule_cond"
  ru_action :: 'a

datatype contribution =
    Con_Withholding withholding | Con_Media media_restriction | Con_Engagement limited_engagement_reason
  | Con_Notice vf_notice | Con_LabelInterstitial label_interstitial

text \<open>What the fold uses of an engine, and of a context: the answers to leaves and actions.\<close>

record ('p, 'a) vf_engine =
  en_non_authors :: "'p rule_cond"
  en_non_followers :: "'p rule_cond"
  en_only_author :: "'p rule_cond"
  en_requires :: "'p \<Rightarrow> hydrators"
  en_lift :: "'p \<Rightarrow> predicate"
  en_kind :: "'a \<Rightarrow> action_kind"
  en_action_requires :: "'a \<Rightarrow> hydrators"

record ('p, 'a) rule_context =
  rc_truth_of :: "'p \<Rightarrow> truth"
  rc_interpret :: "'a \<Rightarrow> contribution option \<times> hydrators"
  rc_failed :: hydrators

fun audience_condition :: "('p, 'a) vf_engine \<Rightarrow> vf_audience \<Rightarrow> 'p rule_cond" where
  "audience_condition en Everyone = C_All []"
| "audience_condition en NonAuthors = en_non_authors en"
| "audience_condition en NonFollowers = en_non_followers en"
| "audience_condition en OnlyAuthor = en_only_author en"

definition rule_requirements :: "('p, 'a) vf_engine \<Rightarrow> ('p, 'a) vf_rule \<Rightarrow> hydrators" where
  "rule_requirements en r =
     hyd_union (hyd_union (cond_requirements (en_requires en) (audience_condition en (ru_audience r)))
       (cond_requirements (en_requires en) (ru_when r))) (en_action_requires en (ru_action r))"

definition rule_leaves :: "('p, 'a) vf_engine \<Rightarrow> ('p, 'a) vf_rule \<Rightarrow> predicate list" where
  "rule_leaves en r =
     map (en_lift en) (cond_leaves (audience_condition en (ru_audience r)) @ cond_leaves (ru_when r))"

definition evaluate_rule :: "('p, 'a) vf_engine \<Rightarrow> ('p \<Rightarrow> truth) \<Rightarrow> ('p, 'a) vf_rule \<Rightarrow> truth" where
  "evaluate_rule en tr r =
     (let audience =
            (case audience_condition en (ru_audience r) of
               C_All [] \<Rightarrow> Truth_True
             | C_Leaf l \<Rightarrow> tr l
             | C_Not (C_Leaf l) \<Rightarrow> truth_not (tr l)
             | c \<Rightarrow> evaluate_cond tr c)
      in if audience = Truth_False then audience else truth_and audience (evaluate_cond tr (ru_when r)))"

definition trace_rule ::
  "('p, 'a) vf_engine \<Rightarrow> ('p \<Rightarrow> truth) \<Rightarrow> ('p, 'a) vf_rule \<Rightarrow> nat option \<Rightarrow> node_trace list \<Rightarrow>
     truth \<times> nat \<times> node_trace list" where
  "trace_rule en tr r terminal nodes =
     (let skip = map_option Terminal_Skip terminal;
          (root_node, nodes) = total_enter K_Rule None skip nodes;
          (audience, handle, nodes) =
            trace_cond (en_lift en) tr (audience_condition en (ru_audience r)) (Some root_node) skip nodes;
          skip = or_else skip (if audience = Truth_False then Some (FalseConjunct handle) else None);
          (answer, _, nodes) = trace_cond (en_lift en) tr (ru_when r) (Some root_node) skip nodes;
          truth = truth_and audience answer
      in (truth, root_node, total_finish root_node truth nodes))"

section \<open>The fold\<close>

record decision =
  de_label_interstitial :: "label_interstitial decided option"
  de_media :: "media_restriction decided option"
  de_engagement :: "limited_engagement decided option"
  de_defaults :: defaults

definition decision_default :: decision where
  "decision_default =
     \<lparr>de_label_interstitial = None, de_media = None, de_engagement = None, de_defaults = no_defaults\<rparr>"

definition decision_filled :: "decision \<Rightarrow> filled" where
  "decision_filled d =
     \<lparr>fi_label_interstitial = (de_label_interstitial d \<noteq> None), fi_media = (de_media d \<noteq> None),
      fi_engagement = (de_engagement d \<noteq> None)\<rparr>"

definition decide :: "'a \<Rightarrow> rule_id \<Rightarrow> string \<Rightarrow> 'a decided" where
  "decide value i by_name = \<lparr>dec_value = value, dec_id = i, dec_by = by_name\<rparr>"

text \<open>The defaults one rule admits before its effect is known.\<close>

definition step_reads :: "decision \<Rightarrow> action_kind \<Rightarrow> truth \<Rightarrow> hydrators" where
  "step_reads d k t =
     (case t of Unknown _ failed \<Rightarrow> if admits_defaults k (decision_filled d) then failed else hyd_empty
      | _ \<Rightarrow> hyd_empty)"

fun land :: "decision \<Rightarrow> rule_id \<Rightarrow> string \<Rightarrow> contribution option \<Rightarrow> decision \<times> verdict option \<times> rule_effect" where
  "land d i by_name None = (d, None, DidNotApply)"
| "land d i by_name (Some (Con_Withholding v)) = (d, Some (Withheld (decide v i by_name)), Decided)"
| "land d i by_name (Some (Con_Notice v)) = (d, Some (Fosnr (decide v i by_name)), Decided)"
| "land d i by_name (Some (Con_LabelInterstitial v)) =
     (d\<lparr>de_label_interstitial := Some (decide v i by_name)\<rparr>, None, FilledLabelInterstitial)"
| "land d i by_name (Some (Con_Media v)) = (d\<lparr>de_media := Some (decide v i by_name)\<rparr>, None, FilledMedia)"
| "land d i by_name (Some (Con_Engagement reason)) =
     (case de_engagement d of
        None \<Rightarrow>
          (d\<lparr>de_engagement := Some (decide (limited_engagement_new reason) i by_name)\<rparr>, None, FilledEngagement)
      | Some limit \<Rightarrow>
          (let (value, added) = le_add (dec_value limit) reason
           in (d\<lparr>de_engagement := Some (limit\<lparr>dec_value := value\<rparr>)\<rparr>, None,
               if added then AddedEngagementReason else DuplicateEngagementReason)))"

definition decision_step ::
  "decision \<Rightarrow> rule_id \<Rightarrow> string \<Rightarrow> action_kind \<Rightarrow> truth \<Rightarrow> contribution option \<Rightarrow>
     decision \<times> verdict option \<times> rule_effect \<times> bucket \<times> hydrators" where
  "decision_step d i by_name k t con =
     (let fil = decision_filled d;
          reads = step_reads d k t;
          d = d\<lparr>de_defaults := defaults_admit (de_defaults d) (kind_bucket k) reads\<rparr>
      in if \<not> resolves_true t then (d, None, DidNotApply, kind_bucket k, reads)
         else case kept_by k fil of
                Some effect \<Rightarrow> (d, None, effect, kind_bucket k, reads)
              | None \<Rightarrow>
                  (let (d, terminal, effect) = land d i by_name con
                   in (d, terminal, effect, kind_bucket k, reads)))"

definition decision_finish :: "decision \<Rightarrow> verdict" where
  "decision_finish d = Shown (de_label_interstitial d) (de_media d) (de_engagement d)"

type_synonym folded = "decision \<times> (nat \<times> verdict) option"

fun fold_from ::
  "('p, 'a) vf_engine \<Rightarrow> ('p, 'a) rule_context \<Rightarrow> (string \<times> ('p, 'a) vf_rule) list \<Rightarrow> nat \<Rightarrow> folded \<Rightarrow> folded" where
  "fold_from en cx [] occurrence folded = folded"
| "fold_from en cx ((by_name, r) # rules) occurrence (decision, terminal) =
     (if terminal \<noteq> None then (decision, terminal)
      else let truth = evaluate_rule en (rc_truth_of cx) r
           in if truth = Truth_False then fold_from en cx rules (Suc occurrence) (decision, terminal)
              else let k = en_kind en (ru_action r);
                       completed = (if resolves_true truth \<and> kept_by k (decision_filled decision) = None
                                    then Some (rc_interpret cx (ru_action r)) else None);
                       (decision, selected, _, _) =
                         decision_step decision (ru_id r) by_name k truth (Option.bind completed fst)
                   in fold_from en cx rules (Suc occurrence)
                        (decision, map_option (Pair occurrence) selected))"

record row_trace =
  rt_by :: string
  rt_root :: nat
  rt_truth :: truth
  rt_effect :: rule_effect
  rt_defaults_admitted :: hydrators
  rt_defaults_retained :: hydrators
  rt_completed :: "(contribution option \<times> hydrators) option"

type_synonym total = "node_trace list \<times> (bucket \<times> row_trace) list"

definition total_row ::
  "string \<Rightarrow> nat \<Rightarrow> truth \<Rightarrow> rule_effect \<Rightarrow> bucket \<times> hydrators \<Rightarrow> (contribution option \<times> hydrators) option \<Rightarrow>
     bucket \<times> row_trace" where
  "total_row by_name root_node truth effect admitted completed =
     (fst admitted,
      \<lparr>rt_by = by_name, rt_root = root_node, rt_truth = truth, rt_effect = effect, rt_defaults_admitted = snd admitted,
       rt_defaults_retained = hyd_empty, rt_completed = completed\<rparr>)"

fun trace_from ::
  "('p, 'a) vf_engine \<Rightarrow> ('p, 'a) rule_context \<Rightarrow> (string \<times> ('p, 'a) vf_rule) list \<Rightarrow> nat \<Rightarrow> folded \<Rightarrow> total \<Rightarrow>
     folded \<times> total" where
  "trace_from en cx [] occurrence folded tot = (folded, tot)"
| "trace_from en cx ((by_name, r) # rules) occurrence (decision, terminal) (nodes, rows) =
     (let after = map_option fst terminal;
          (truth, root_node, nodes) = trace_rule en (rc_truth_of cx) r after nodes;
          k = en_kind en (ru_action r);
          completed = (if resolves_true truth then Some (rc_interpret cx (ru_action r)) else None);
          (decision, terminal, effect, admitted) =
            (if after \<noteq> None then (decision, terminal, AfterTerminal, B_Withholding, hyd_empty)
             else let (decision, selected, effect, admitted) =
                        decision_step decision (ru_id r) by_name k truth (Option.bind completed fst)
                  in (decision, map_option (Pair occurrence) selected, effect, admitted))
      in trace_from en cx rules (Suc occurrence) (decision, terminal)
           (nodes, rows @ [total_row by_name root_node truth effect admitted completed]))"

definition folded_default :: folded where
  "folded_default = (decision_default, None)"

definition folded_verdict :: "folded \<Rightarrow> verdict" where
  "folded_verdict fo = (case snd fo of Some (_, v) \<Rightarrow> v | None \<Rightarrow> decision_finish (fst fo))"

definition relied_defaults :: "folded \<Rightarrow> defaults" where
  "relied_defaults fo = defaults_relied_on_by (de_defaults (fst fo)) (folded_verdict fo)"

definition fold_finish :: "folded \<Rightarrow> hydrators \<Rightarrow> evaluation" where
  "fold_finish fo failed =
     (let v = folded_verdict fo; fail_open_defaults = defaults_all (relied_defaults fo)
      in if hyd_has_must_have failed then Partial v fail_open_defaults else Complete v fail_open_defaults)"

definition total_retained :: "defaults \<Rightarrow> (bucket \<times> row_trace) list \<Rightarrow> (bucket \<times> row_trace) list" where
  "total_retained d rows =
     map (\<lambda>(b, row). (b, row\<lparr>rt_defaults_retained := hyd_intersection (rt_defaults_admitted row) (defaults_get d b)\<rparr>))
       rows"

end
