(* ===== verification/Vf_Fold.thy ===== *)
theory Vf_Fold
  imports Vf_Policy
begin

text \<open>
  Laws of the policy fold. The interface between the fold and the two engines is the locale
  \<open>rule_interpretation\<close>: unknown leaves blame failed nodes they require, and an action
  contributes its own kind. Under it, the traced fold decides what the plain fold decides, the
  defaults collected are failed nodes, a candidate is shown only when no withholding rule applies,
  and a verdict that relies on no default does not depend on what the failed reads would have
  answered (but for further reasons of an engagement limit that stands already).
\<close>

text \<open>The kind of action a contribution comes from, and the one a final verdict comes from.\<close>

fun contribution_kind :: "contribution \<Rightarrow> action_kind" where
  "contribution_kind (Con_Withholding w) = withholding_kind w"
| "contribution_kind (Con_Notice n) = notice_kind n"
| "contribution_kind (Con_Media _) = AK_MediaRestriction"
| "contribution_kind (Con_Engagement _) = AK_LimitedEngagement"
| "contribution_kind (Con_LabelInterstitial _) = AK_LabelInterstitial"

fun decided_as :: "verdict \<Rightarrow> (action_kind \<times> rule_id \<times> string) option" where
  "decided_as (Withheld d) = Some (withholding_kind (dec_value d), dec_id d, dec_by d)"
| "decided_as (Fosnr d) = Some (notice_kind (dec_value d), dec_id d, dec_by d)"
| "decided_as (Shown _ _ _) = None"

section \<open>One rule\<close>

lemma evaluate_rule_and:
  "evaluate_rule en tr r =
   truth_and (evaluate_cond tr (audience_condition en (ru_audience r))) (evaluate_cond tr (ru_when r))"
proof -
  have "(case c of C_All [] \<Rightarrow> Truth_True | C_Leaf l \<Rightarrow> tr l | C_Not (C_Leaf l) \<Rightarrow> truth_not (tr l)
         | c \<Rightarrow> evaluate_cond tr c) = evaluate_cond tr c" for c
    by (auto split: rule_cond.split list.split)
  then show ?thesis by (simp add: evaluate_rule_def Let_def)
qed

lemma trace_condD: "trace_cond lift tr c parent skip nodes = (t, handle, nodes') \<Longrightarrow> t = evaluate_cond tr c"
  using trace_cond_truth [of lift tr c parent skip nodes] by simp

lemma trace_rule_truth: "fst (trace_rule en tr r terminal nodes) = evaluate_rule en tr r"
  unfolding trace_rule_def evaluate_rule_and
  by (auto simp: Let_def dest!: trace_condD split: prod.splits)

lemma decision_step_false [simp]:
  "decision_step d i n k Truth_False con = (d, None, DidNotApply, kind_bucket k, hyd_empty)"
  by (cases k) (simp_all add: decision_step_def step_reads_def)

lemma decision_step_kept:
  "kept_by k (decision_filled d) \<noteq> None \<Longrightarrow> decision_step d i n k t con = decision_step d i n k t con'"
  by (auto simp: decision_step_def Let_def)

lemma decision_step_unresolved:
  "\<not> resolves_true t \<Longrightarrow> decision_step d i n k t con = decision_step d i n k t con'"
  by (auto simp: decision_step_def Let_def)

text \<open>The plain fold without its shortcuts: a false rule and a finished fold change nothing.\<close>

lemma fold_from_stopped [simp]: "fold_from en cx rules n (d, Some t) = (d, Some t)"
  by (cases rules) auto

definition rule_step ::
  "('p, 'a) vf_engine \<Rightarrow> ('p, 'a) rule_context \<Rightarrow> decision \<Rightarrow> string \<Rightarrow> ('p, 'a) vf_rule \<Rightarrow>
     decision \<times> verdict option \<times> rule_effect \<times> bucket \<times> hydrators" where
  "rule_step en cx d by_name r =
     decision_step d (ru_id r) by_name (en_kind en (ru_action r)) (evaluate_rule en (rc_truth_of cx) r)
       (fst (rc_interpret cx (ru_action r)))"

lemma fold_from_Cons:
  "fold_from en cx ((by_name, r) # rules) n (d, None) =
   (let (d', selected, _, _) = rule_step en cx d by_name r
    in fold_from en cx rules (Suc n) (d', map_option (Pair n) selected))"
proof (cases "evaluate_rule en (rc_truth_of cx) r = Truth_False")
  case False
  let ?k = "en_kind en (ru_action r)" and ?t = "evaluate_rule en (rc_truth_of cx) r"
  let ?con = "Option.bind (if resolves_true ?t \<and> kept_by ?k (decision_filled d) = None
                           then Some (rc_interpret cx (ru_action r)) else None) fst"
  have "decision_step d (ru_id r) by_name ?k ?t ?con = rule_step en cx d by_name r"
    unfolding rule_step_def
    using decision_step_kept [of ?k d "ru_id r" by_name ?t ?con]
      decision_step_unresolved [of ?t d "ru_id r" by_name ?k ?con] by (auto split: if_splits)
  with False show ?thesis by (simp add: Let_def)
qed (simp add: rule_step_def)

lemma trace_from_folded: "fst (trace_from en cx rules n fo tot) = fold_from en cx rules n fo"
proof (induction rules arbitrary: n fo tot)
  case (Cons x rules)
  obtain by_name r where x: "x = (by_name, r)" by (cases x)
  obtain d t where fo: "fo = (d, t)" by (cases fo)
  obtain nodes rows where tot: "tot = (nodes, rows)" by (cases tot)
  obtain top nodes' where tr:
    "trace_rule en (rc_truth_of cx) r (map_option fst t) nodes = (evaluate_rule en (rc_truth_of cx) r, top, nodes')"
    using trace_rule_truth [of en "rc_truth_of cx" r "map_option fst t" nodes]
    by (cases "trace_rule en (rc_truth_of cx) r (map_option fst t) nodes") auto
  show ?case
  proof (cases t)
    case None
    let ?t = "evaluate_rule en (rc_truth_of cx) r"
    have "decision_step d (ru_id r) by_name (en_kind en (ru_action r)) ?t
            (Option.bind (if resolves_true ?t then Some (rc_interpret cx (ru_action r)) else None) fst) =
          rule_step en cx d by_name r"
      unfolding rule_step_def
      using decision_step_unresolved [of ?t d "ru_id r" by_name "en_kind en (ru_action r)"] by auto
    with None Cons.IH tr show ?thesis
      by (simp add: x fo tot fold_from_Cons Let_def del: fold_from.simps split: prod.split)
  next
    case (Some s)
    with Cons.IH tr show ?thesis by (simp add: x fo tot Let_def del: fold_from.simps)
  qed
qed simp

section \<open>What a step can do\<close>

lemma kept_by_cases:
  "kept_by AK_Appealable f = None" "kept_by AK_Drop f = None" "kept_by AK_Tombstone f = None"
  "kept_by AK_LimitedEngagement f = None"
  "kept_by AK_LabelInterstitial f = None \<longleftrightarrow> \<not> fi_label_interstitial f"
  "kept_by AK_MediaRestriction f = None \<longleftrightarrow> \<not> fi_media f"
  "kept_by AK_SoftIntervention f = None \<longleftrightarrow> \<not> fi_label_interstitial f \<and> \<not> fi_media f"
  by (auto simp: kept_by_def)

lemma admits_defaults_cases:
  "admits_defaults AK_Appealable f" "admits_defaults AK_Drop f" "admits_defaults AK_Tombstone f"
  "admits_defaults AK_LimitedEngagement f \<longleftrightarrow> \<not> fi_engagement f"
  "admits_defaults AK_LabelInterstitial f \<longleftrightarrow> \<not> fi_label_interstitial f"
  "admits_defaults AK_MediaRestriction f \<longleftrightarrow> \<not> fi_media f"
  "admits_defaults AK_SoftIntervention f \<longleftrightarrow> \<not> fi_label_interstitial f \<and> \<not> fi_media f"
  by (simp_all add: admits_defaults_def kept_by_cases)

lemma decision_filled_simps [simp]:
  "fi_label_interstitial (decision_filled d) \<longleftrightarrow> de_label_interstitial d \<noteq> None"
  "fi_media (decision_filled d) \<longleftrightarrow> de_media d \<noteq> None"
  "fi_engagement (decision_filled d) \<longleftrightarrow> de_engagement d \<noteq> None"
  by (simp_all add: decision_filled_def)

lemma land_keeps_defaults [simp]: "de_defaults (fst (land d i n con)) = de_defaults d"
  by (cases "(d, i, n, con)" rule: land.cases) (auto simp: Let_def split: option.split prod.split)

lemma land_defaultsD: "land d i n con = (e, v, x) \<Longrightarrow> de_defaults e = de_defaults d"
  using land_keeps_defaults [of d i n con] by simp

lemma defaults_get_admit [simp]:
  "defaults_get (defaults_admit d b reads) c = (if c = b then hyd_union (defaults_get d b) reads else defaults_get d c)"
  by (cases b; cases c) simp_all

lemma step_defaults:
  "de_defaults (fst (decision_step d i n k t con)) = defaults_admit (de_defaults d) (kind_bucket k) (step_reads d k t)"
  by (auto simp: decision_step_def Let_def dest!: land_defaultsD split: option.split prod.split)

text \<open>Which verdict a step can select.\<close>

lemma step_selects:
  assumes "fst (snd (decision_step d i n k t con)) = Some v"
  obtains w where "con = Some (Con_Withholding w)" "v = Withheld (decide w i n)" "resolves_true t"
  | m where "con = Some (Con_Notice m)" "v = Fosnr (decide m i n)" "resolves_true t"
proof -
  define e where "e = d\<lparr>de_defaults := defaults_admit (de_defaults d) (kind_bucket k) (step_reads d k t)\<rparr>"
  have t: "resolves_true t" and s: "fst (snd (land e i n con)) = Some v"
    using assms by (auto simp: decision_step_def Let_def e_def split: if_splits option.splits prod.splits)
  show thesis
    using s by (cases "(e, i, n, con)" rule: land.cases) (auto simp: Let_def t intro: that split: option.splits prod.splits)
qed

section \<open>Laws of an engine and a context\<close>

text \<open>A rule applies when its condition resolves true and its action has something to contribute.\<close>

definition rule_applies :: "('p, 'a) vf_engine \<Rightarrow> ('p, 'a) rule_context \<Rightarrow> ('p, 'a) vf_rule \<Rightarrow> bool" where
  "rule_applies en cx r \<longleftrightarrow>
     resolves_true (evaluate_rule en (rc_truth_of cx) r) \<and> fst (rc_interpret cx (ru_action r)) \<noteq> None"

locale rule_interpretation =
  fixes en :: "('p, 'a) vf_engine" and cx :: "('p, 'a) rule_context"
  assumes leaf_blames: "blames (hyd_intersection (rc_failed cx) (en_requires en p)) (rc_truth_of cx p)"
    and contributes: "fst (rc_interpret cx a) = Some c \<Longrightarrow> contribution_kind c = en_kind en a"
begin

lemma rule_blames: "blames (rc_failed cx) (evaluate_rule en (rc_truth_of cx) r)"
proof -
  have "blames (rc_failed cx) (evaluate_cond (rc_truth_of cx) c)" for c
    using evaluate_blames [of c "rc_failed cx" "en_requires en" "rc_truth_of cx"] leaf_blames
    by (auto intro: blames_mono)
  then show ?thesis by (simp add: evaluate_rule_and blames_ops)
qed

lemma reads_failed: "hyd_sub (step_reads d k (evaluate_rule en (rc_truth_of cx) r)) (rc_failed cx)"
  using rule_blames [of r] by (auto simp: step_reads_def split: truth.split)

lemma fold_defaults_mono:
  "hyd_sub (defaults_get (de_defaults d) b) (defaults_get (de_defaults (fst (fold_from en cx rules n (d, t)))) b)"
proof (induction rules arbitrary: n d t)
  case (Cons x rules)
  obtain by_name r where x: "x = (by_name, r)" by (cases x)
  show ?case
  proof (cases t)
    case None
    obtain d' s e where st: "rule_step en cx d by_name r = (d', s, e)" by (cases "rule_step en cx d by_name r")
    then have "de_defaults d' = de_defaults (fst (rule_step en cx d by_name r))" by simp
    then have "hyd_sub (defaults_get (de_defaults d) b) (defaults_get (de_defaults d') b)"
      by (simp add: rule_step_def step_defaults)
    then show ?thesis
      using Cons.IH [of d' "Suc n" "map_option (Pair n) s"] st None
      by (simp add: x fold_from_Cons Let_def del: fold_from.simps split: prod.split) (metis hyd_sub_trans)
  qed (simp add: x del: fold_from.simps)
qed simp

lemma fold_defaults_failed:
  "\<forall>b. hyd_sub (defaults_get (de_defaults d) b) F \<Longrightarrow> hyd_sub (rc_failed cx) F \<Longrightarrow>
   hyd_sub (defaults_get (de_defaults (fst (fold_from en cx rules n (d, t)))) b) F"
proof (induction rules arbitrary: n d t)
  case (Cons x rules)
  obtain by_name r where x: "x = (by_name, r)" by (cases x)
  show ?case
  proof (cases t)
    case None
    obtain d' s e where st: "rule_step en cx d by_name r = (d', s, e)" by (cases "rule_step en cx d by_name r")
    then have "de_defaults d' = de_defaults (fst (rule_step en cx d by_name r))" by simp
    then have "\<forall>b. hyd_sub (defaults_get (de_defaults d') b) F"
      using Cons.prems reads_failed [of d _ r] by (auto simp: rule_step_def step_defaults intro: hyd_sub_trans)
    then show ?thesis
      using Cons.IH [of d' "Suc n" "map_option (Pair n) s"] Cons.prems(2) st None
      by (simp add: x fold_from_Cons Let_def del: fold_from.simps split: prod.split)
  qed (use Cons.prems in \<open>simp add: x del: fold_from.simps\<close>)
qed simp

text \<open>The rule that ends a fold, and the withholding rules before it.\<close>

lemma step_terminal:
  assumes "rule_step en cx d by_name r = (d', Some v, e)"
  shows "decided_as v = Some (en_kind en (ru_action r), ru_id r, by_name)" "rule_applies en cx r"
proof -
  have "fst (snd (rule_step en cx d by_name r)) = Some v" using assms by simp
  then have "decided_as v = Some (en_kind en (ru_action r), ru_id r, by_name) \<and> rule_applies en cx r"
    unfolding rule_step_def by (elim step_selects) (auto simp: rule_applies_def decide_def dest: contributes)
  then show "decided_as v = Some (en_kind en (ru_action r), ru_id r, by_name)" "rule_applies en cx r" by auto
qed

lemma step_withholds:
  assumes "rule_step en cx d by_name r = (d', None, e)" "kind_withholds (en_kind en (ru_action r))"
  shows "\<not> rule_applies en cx r"
proof
  assume a: "rule_applies en cx r"
  then obtain c where c: "fst (rc_interpret cx (ru_action r)) = Some c" "resolves_true (evaluate_rule en (rc_truth_of cx) r)"
    by (auto simp: rule_applies_def)
  have k: "en_kind en (ru_action r) = AK_Drop \<or> en_kind en (ru_action r) = AK_Tombstone"
    using assms(2) by (cases "en_kind en (ru_action r)") (auto simp: kind_withholds_def)
  with contributes [OF c(1)] obtain w where "c = Con_Withholding w"
    by (cases c rule: contribution_kind.cases) (auto elim: notice_kind.elims)
  with assms(1) c k show False
    by (auto simp: rule_step_def decision_step_def Let_def kept_by_cases)
qed

lemma fold_open:
  "snd (fold_from en cx rules n (d, None)) = None \<Longrightarrow> (by_name, r) \<in> set rules \<Longrightarrow>
   kind_withholds (en_kind en (ru_action r)) \<Longrightarrow> \<not> rule_applies en cx r"
proof (induction rules arbitrary: n d)
  case (Cons x rules)
  obtain nm s where x: "x = (nm, s)" by (cases x)
  obtain d' sel e where st: "rule_step en cx d nm s = (d', sel, e)" by (cases "rule_step en cx d nm s")
  from Cons.prems(1) st have "sel = None" "snd (fold_from en cx rules (Suc n) (d', None)) = None"
    by (cases sel; simp add: x fold_from_Cons Let_def del: fold_from.simps)+
  with Cons st x step_withholds [of d nm s] show ?case by auto
qed simp

lemma fold_decided:
  "snd (fold_from en cx rules n (d, None)) = Some (m, v) \<Longrightarrow>
   n \<le> m \<and> m < n + length rules \<and>
   decided_as v = Some (en_kind en (ru_action (snd (rules ! (m - n)))), ru_id (snd (rules ! (m - n))), fst (rules ! (m - n))) \<and>
   rule_applies en cx (snd (rules ! (m - n))) \<and>
   (\<forall>i < m - n. kind_withholds (en_kind en (ru_action (snd (rules ! i)))) \<longrightarrow> \<not> rule_applies en cx (snd (rules ! i)))"
proof (induction rules arbitrary: n d)
  case (Cons x rules)
  obtain nm s where x: "x = (nm, s)" by (cases x)
  obtain d' sel e where st: "rule_step en cx d nm s = (d', sel, e)" by (cases "rule_step en cx d nm s")
  show ?case
  proof (cases sel)
    case None
    with Cons.prems st have "snd (fold_from en cx rules (Suc n) (d', None)) = Some (m, v)"
      by (simp add: x fold_from_Cons Let_def del: fold_from.simps)
    note ih = Cons.IH [OF this]
    then have "rules ! (m - Suc n) = (x # rules) ! (m - n)" by (simp add: nth_Cons' Suc_diff_Suc)
    moreover have "\<not> (kind_withholds (en_kind en (ru_action s)) \<and> rule_applies en cx s)"
      using step_withholds [of d nm s d' e] st None by auto
    ultimately show ?thesis using ih by (auto simp: x less_Suc_eq_0_disj nth_Cons' Suc_diff_Suc)
  next
    case (Some w)
    with Cons.prems st have "m = n" "w = v" by (auto simp: x fold_from_Cons Let_def simp del: fold_from.simps)
    with step_terminal [of d nm s d' v e] st Some show ?thesis by (simp add: x)
  qed
qed simp

end

section \<open>Verdicts that rely on no default\<close>

fun verdict_reach :: "verdict \<Rightarrow> nat" where
  "verdict_reach (Withheld d) = bucket_rank (kind_bucket (withholding_kind (dec_value d)))"
| "verdict_reach (Fosnr d) = bucket_rank (kind_bucket (notice_kind (dec_value d)))"
| "verdict_reach (Shown _ _ _) = 2"

lemma relied_on_reach: "bucket_relied_on_by b v \<longleftrightarrow> bucket_rank b \<le> verdict_reach v"
  by (cases v; cases b) simp_all

definition same_limit :: "limited_engagement decided \<Rightarrow> limited_engagement decided \<Rightarrow> bool" where
  "same_limit a b \<longleftrightarrow> dec_id a = dec_id b \<and> dec_by a = dec_by b \<and> le_first (dec_value a) = le_first (dec_value b)"

text \<open>Two verdicts that differ at most in the further reasons of an engagement limit.\<close>

fun same_verdict :: "verdict \<Rightarrow> verdict \<Rightarrow> bool" where
  "same_verdict (Shown l m e) v =
     (case v of Shown l' m' e' \<Rightarrow> l = l' \<and> m = m' \<and> rel_option same_limit e e' | _ \<Rightarrow> False)"
| "same_verdict u v = (u = v)"

text \<open>Two decisions that agree on the slots of the buckets up to a rank.\<close>

definition agree :: "nat \<Rightarrow> decision \<Rightarrow> decision \<Rightarrow> bool" where
  "agree B d d' \<longleftrightarrow>
     (1 \<le> B \<longrightarrow> de_label_interstitial d = de_label_interstitial d' \<and> de_media d = de_media d') \<and>
     (2 \<le> B \<longrightarrow> rel_option same_limit (de_engagement d) (de_engagement d'))"

lemma same_limit_refl [simp]: "same_limit a a"
  by (simp add: same_limit_def)

lemma le_add_first [simp]: "le_first (fst (le_add l r)) = le_first l"
  by (simp add: le_add_def Let_def)

lemma same_limit_add [simp]:
  "same_limit (a\<lparr>dec_value := fst (le_add (dec_value a) r)\<rparr>) b \<longleftrightarrow> same_limit a b"
  "same_limit a (b\<lparr>dec_value := fst (le_add (dec_value b) r)\<rparr>) \<longleftrightarrow> same_limit a b"
  by (simp_all add: same_limit_def)

text \<open>A step seen slot by slot: it acts only where its rule resolves true and no earlier slot keeps it out.\<close>

definition acting :: "decision \<Rightarrow> action_kind \<Rightarrow> truth \<Rightarrow> contribution option \<Rightarrow> contribution option" where
  "acting d k t con = (if resolves_true t \<and> kept_by k (decision_filled d) = None then con else None)"

lemma land_slots:
  "de_label_interstitial (fst (land d i n con)) =
     (case con of Some (Con_LabelInterstitial v) \<Rightarrow> Some (decide v i n) | _ \<Rightarrow> de_label_interstitial d)"
  "de_media (fst (land d i n con)) = (case con of Some (Con_Media v) \<Rightarrow> Some (decide v i n) | _ \<Rightarrow> de_media d)"
  "de_engagement (fst (land d i n con)) =
     (case con of
        Some (Con_Engagement r) \<Rightarrow>
          (case de_engagement d of
             None \<Rightarrow> Some (decide (limited_engagement_new r) i n)
           | Some l \<Rightarrow> Some (l\<lparr>dec_value := fst (le_add (dec_value l) r)\<rparr>))
      | _ \<Rightarrow> de_engagement d)"
  "fst (snd (land d i n con)) =
     (case con of
        Some (Con_Withholding w) \<Rightarrow> Some (Withheld (decide w i n))
      | Some (Con_Notice m) \<Rightarrow> Some (Fosnr (decide m i n))
      | _ \<Rightarrow> None)"
  by (cases "(d, i, n, con)" rule: land.cases; simp add: Let_def split: option.split prod.split)+

lemma step_is_land:
  "fst (decision_step d i n k t con) =
     fst (land (d\<lparr>de_defaults := defaults_admit (de_defaults d) (kind_bucket k) (step_reads d k t)\<rparr>) i n (acting d k t con))"
  "fst (snd (decision_step d i n k t con)) =
     fst (snd (land (d\<lparr>de_defaults := defaults_admit (de_defaults d) (kind_bucket k) (step_reads d k t)\<rparr>) i n
       (acting d k t con)))"
  by (auto simp: decision_step_def acting_def Let_def split: option.split prod.split)

lemmas step_slots = step_is_land land_slots

lemma acting_kind:
  "acting d k t con = Some c \<Longrightarrow> con = Some c \<and> resolves_true t \<and> kept_by k (decision_filled d) = None"
  by (auto simp: acting_def split: if_splits)

text \<open>An unknown rule whose bucket stays empty was kept out, or met a slot that is its own.\<close>

lemma unknown_not_admitted:
  assumes "t = Unknown b f" "\<not> hyd_is_empty f" "step_reads d k t = hyd_empty"
  shows "\<not> admits_defaults k (decision_filled d)"
  using assms by (auto simp: step_reads_def hyd_is_empty_iff split: if_splits)

lemma step_selects_none:
  assumes "\<And>c. con = Some c \<Longrightarrow> contribution_kind c = k" "\<forall>w. k \<noteq> withholding_kind w" "\<forall>m. k \<noteq> notice_kind m"
  shows "fst (snd (decision_step d i n k t con)) = None"
  using assms by (auto simp: step_slots acting_def simp del: land.simps split: option.split contribution.split)

lemma step_other_slots:
  assumes "\<And>c. con = Some c \<Longrightarrow> contribution_kind c = k"
  shows "k \<noteq> AK_LabelInterstitial \<Longrightarrow>
           de_label_interstitial (fst (decision_step d i n k t con)) = de_label_interstitial d"
    and "k \<noteq> AK_MediaRestriction \<Longrightarrow> de_media (fst (decision_step d i n k t con)) = de_media d"
    and "k \<noteq> AK_LimitedEngagement \<Longrightarrow> de_engagement (fst (decision_step d i n k t con)) = de_engagement d"
  using assms by (auto simp: step_slots acting_def simp del: land.simps split: option.split contribution.split)

lemma step_kept_out:
  assumes "kept_by k (decision_filled d) \<noteq> None"
  shows "de_label_interstitial (fst (decision_step d i n k t con)) = de_label_interstitial d"
    "de_media (fst (decision_step d i n k t con)) = de_media d"
    "de_engagement (fst (decision_step d i n k t con)) = de_engagement d"
    "fst (snd (decision_step d i n k t con)) = None"
  using assms by (auto simp: step_slots acting_def simp del: land.simps)

lemma step_standing_limit:
  assumes "de_engagement d = Some l"
  shows "\<exists>l'. de_engagement (fst (decision_step d i n k t con)) = Some l' \<and> (\<forall>m. same_limit l' m = same_limit l m) \<and>
           (\<forall>m. same_limit m l' = same_limit m l)"
  using assms by (auto simp: step_slots acting_def simp del: land.simps split: option.split contribution.split)

lemma kinds_by_bucket:
  "kind_bucket k = B_Withholding \<Longrightarrow> admits_defaults k f"
  "kind_bucket k = B_Media \<Longrightarrow> \<not> admits_defaults k f \<Longrightarrow> kept_by k f \<noteq> None"
  "kind_bucket k = B_Engagement \<Longrightarrow> k = AK_LimitedEngagement"
  by (cases k; simp add: admits_defaults_cases kept_by_cases)+

lemma kept_by_agrees:
  "kind_bucket k = B_Media \<Longrightarrow> 1 \<le> B \<Longrightarrow> agree B d d' \<Longrightarrow>
   kept_by k (decision_filled d) = None \<longleftrightarrow> kept_by k (decision_filled d') = None"
  by (cases k) (auto simp: agree_def kept_by_cases)

lemma slot_kinds:
  "k = AK_LabelInterstitial \<or> k = AK_MediaRestriction \<or> k = AK_LimitedEngagement \<Longrightarrow>
   (\<forall>w. k \<noteq> withholding_kind w) \<and> (\<forall>m. k \<noteq> notice_kind m)"
  by (auto elim: withholding_kind.elims notice_kind.elims) (metis action_kind.distinct withholding_kind.elims notice_kind.elims)+

lemma step_agrees:
  assumes le: "truth_le t t'" and bl: "blames F t"
    and con: "\<And>c. con = Some c \<Longrightarrow> contribution_kind c = k" and con': "\<And>c. con' = Some c \<Longrightarrow> contribution_kind c = k"
    and same: "t = Truth_True \<Longrightarrow> con = con'"
    and ag: "agree B d d'"
    and reads: "bucket_rank (kind_bucket k) \<le> B \<Longrightarrow> step_reads d k t = hyd_empty"
    and soft: "k = AK_SoftIntervention \<Longrightarrow> 1 \<le> B"
  shows "agree B (fst (decision_step d i n k t con)) (fst (decision_step d' i n k t' con')) \<and>
         fst (snd (decision_step d i n k t con)) = fst (snd (decision_step d' i n k t' con'))"
proof (cases t)
  case Truth_False
  with le ag show ?thesis by simp
next
  case Truth_True
  with le same have [simp]: "t' = Truth_True" "con' = con" by auto
  show ?thesis
    using ag soft con Truth_True
    by (cases con; cases "the con"; cases k)
      (auto simp: step_slots acting_def agree_def kept_by_cases simp del: land.simps split: option.split
        elim: withholding_kind.elims notice_kind.elims)
next
  case (Unknown b f)
  with bl have f: "\<not> hyd_is_empty f" by simp
  note na = unknown_not_admitted [OF Unknown f]
  note other = step_other_slots [OF con] step_other_slots [OF con']
  show ?thesis
  proof (cases "kind_bucket k")
    case B_Withholding
    with na [of d k] reads kinds_by_bucket(1) [of k "decision_filled d"] show ?thesis by simp
  next
    case B_Media
    show ?thesis
    proof (cases "1 \<le> B")
      case True
      then have "kept_by k (decision_filled d) \<noteq> None" using B_Media na reads kinds_by_bucket(2) by auto
      moreover then have "kept_by k (decision_filled d') \<noteq> None" using kept_by_agrees [OF B_Media True ag] by simp
      ultimately show ?thesis using ag by (auto simp: agree_def step_kept_out)
    next
      case False
      with soft B_Media have "k = AK_LabelInterstitial \<or> k = AK_MediaRestriction" by (cases k) auto
      with False con con' slot_kinds [of k] step_selects_none [of con k] step_selects_none [of con' k]
      show ?thesis by (auto simp: agree_def)
    qed
  next
    case B_Engagement
    then have k: "k = AK_LimitedEngagement" by (rule kinds_by_bucket)
    have "rel_option same_limit (de_engagement (fst (decision_step d i n k t con)))
            (de_engagement (fst (decision_step d' i n k t' con')))" if B: "2 \<le> B"
    proof -
      have "de_engagement d \<noteq> None" using na [of d k] reads B k by (simp add: admits_defaults_cases)
      moreover have "rel_option same_limit (de_engagement d) (de_engagement d')" using ag B by (simp add: agree_def)
      ultimately obtain l l' where "de_engagement d = Some l" "de_engagement d' = Some l'" "same_limit l l'"
        by (auto simp: option_rel_Some1)
      with step_standing_limit [of d l i n k t con] step_standing_limit [of d' l' i n k t' con'] show ?thesis by auto
    qed
    moreover have none: "\<forall>w. k \<noteq> withholding_kind w" "\<forall>m. k \<noteq> notice_kind m" using slot_kinds [of k] k by auto
    moreover have "fst (snd (decision_step d i n k t con)) = None" by (rule step_selects_none [OF con none])
    moreover have "fst (snd (decision_step d' i n k t' con')) = None" by (rule step_selects_none [OF con' none])
    ultimately show ?thesis using ag k other by (auto simp: agree_def)
  qed
qed

lemma late_soft:
  assumes I: "rule_interpretation en cx"
    and fold: "snd (fold_from en cx ((by_name, r) # rules) n (d, None)) = Some (m, v)" and "verdict_reach v = 0"
    and sorted: "sorted_wrt (\<lambda>(_, r) (_, s). severity (en_kind en (ru_action s)) \<le> severity (en_kind en (ru_action r)))
                   ((by_name, r) # rules)"
  shows "en_kind en (ru_action r) \<noteq> AK_SoftIntervention"
proof
  assume k: "en_kind en (ru_action r) = AK_SoftIntervention"
  let ?s = "((by_name, r) # rules) ! (m - n)"
  have m: "m - n < length ((by_name, r) # rules)" and s: "\<exists>i b. decided_as v = Some (en_kind en (ru_action (snd ?s)), i, b)"
    using rule_interpretation.fold_decided [OF I fold] by auto
  have "?s = (by_name, r) \<or> ?s \<in> set rules" using m by (cases "m - n") auto
  then have "severity (en_kind en (ru_action (snd ?s))) \<le> severity AK_SoftIntervention"
    using sorted k by (auto simp: case_prod_unfold)
  moreover from s obtain i b where "decided_as v = Some (en_kind en (ru_action (snd ?s)), i, b)" by blast
  then have "bucket_rank (kind_bucket (en_kind en (ru_action (snd ?s)))) = 0"
    using \<open>verdict_reach v = 0\<close> by (cases v) auto
  ultimately show False by (cases "en_kind en (ru_action (snd ?s))") auto
qed

text \<open>The leaves a rule reads.\<close>

definition rule_reads :: "('p, 'a) vf_engine \<Rightarrow> ('p, 'a) vf_rule \<Rightarrow> 'p set" where
  "rule_reads en r = set_cond (audience_condition en (ru_audience r)) \<union> set_cond (ru_when r)"

lemma rule_stable:
  "(\<And>p. p \<in> rule_reads en r \<Longrightarrow> truth_le (tr p) (tr' p)) \<Longrightarrow> truth_le (evaluate_rule en tr r) (evaluate_rule en tr' r)"
  unfolding evaluate_rule_and by (auto simp: rule_reads_def intro!: truth_le_ops evaluate_stable)

lemma fold_agrees:
  assumes I: "rule_interpretation en cx" "rule_interpretation en cx'"
    and le: "\<And>by_name r p. (by_name, r) \<in> set rules \<Longrightarrow> p \<in> rule_reads en r \<Longrightarrow>
               truth_le (rc_truth_of cx p) (rc_truth_of cx' p)"
    and act: "\<And>by_name r. (by_name, r) \<in> set rules \<Longrightarrow> evaluate_rule en (rc_truth_of cx) r = Truth_True \<Longrightarrow>
               fst (rc_interpret cx (ru_action r)) = fst (rc_interpret cx' (ru_action r))"
    and res: "fold_from en cx rules n (d, None) = (df, t)"
    and reach: "\<And>m v. t = Some (m, v) \<Longrightarrow> verdict_reach v = B"
    and empty: "\<And>b. bucket_rank b \<le> B \<Longrightarrow> defaults_get (de_defaults df) b = hyd_empty"
    and soft: "(\<forall>(by_name, r) \<in> set rules. en_kind en (ru_action r) \<noteq> AK_SoftIntervention) \<or>
               (B = 0 \<longrightarrow> t \<noteq> None) \<and>
               sorted_wrt (\<lambda>(_, r) (_, s). severity (en_kind en (ru_action s)) \<le> severity (en_kind en (ru_action r))) rules"
    and ag: "agree B d d'"
  shows "\<exists>df'. fold_from en cx' rules n (d', None) = (df', t) \<and> (t = None \<longrightarrow> agree B df df')"
  using le act res soft ag
proof (induction rules arbitrary: n d d')
  case (Cons x rules)
  obtain by_name r where x: "x = (by_name, r)" by (cases x)
  let ?k = "en_kind en (ru_action r)"
  obtain d1 s e where st: "rule_step en cx d by_name r = (d1, s, e)" by (cases "rule_step en cx d by_name r")
  obtain d1' s' e' where st': "rule_step en cx' d' by_name r = (d1', s', e')" by (cases "rule_step en cx' d' by_name r")
  have rest: "fold_from en cx rules (Suc n) (d1, map_option (Pair n) s) = (df, t)"
    using Cons.prems(3) st by (simp add: x fold_from_Cons Let_def del: fold_from.simps)
  have reads: "step_reads d ?k (evaluate_rule en (rc_truth_of cx) r) = hyd_empty" if "bucket_rank (kind_bucket ?k) \<le> B"
  proof -
    have "hyd_sub (defaults_get (de_defaults d1) (kind_bucket ?k)) hyd_empty"
      using rule_interpretation.fold_defaults_mono [OF I(1), of d1 "kind_bucket ?k" rules "Suc n" "map_option (Pair n) s"]
        rest empty [OF that] by simp
    moreover have "de_defaults d1 = de_defaults (fst (rule_step en cx d by_name r))" using st by simp
    ultimately show ?thesis by (simp add: rule_step_def step_defaults flip: hyd_is_empty_iff)
  qed
  have "?k \<noteq> AK_SoftIntervention \<or> 1 \<le> B"
  proof (rule ccontr)
    assume "\<not> ?thesis"
    then have k: "?k = AK_SoftIntervention" "B = 0" by auto
    with Cons.prems(4) obtain m v where t: "t = Some (m, v)" by (cases t) (auto simp: x)
    with k Cons.prems(4) late_soft [OF I(1), of by_name r rules n d m v] Cons.prems(3) reach [OF t] show False
      by (auto simp: x simp del: fold_from.simps)
  qed
  moreover have "truth_le (evaluate_rule en (rc_truth_of cx) r) (evaluate_rule en (rc_truth_of cx') r)"
    using Cons.prems(1) [of by_name r] by (intro rule_stable) (simp add: x)
  ultimately have "agree B d1 d1' \<and> s = s'"
    using step_agrees [of "evaluate_rule en (rc_truth_of cx) r" "evaluate_rule en (rc_truth_of cx') r" "rc_failed cx"
        "fst (rc_interpret cx (ru_action r))" ?k "fst (rc_interpret cx' (ru_action r))" B d d' "ru_id r" by_name]
      rule_interpretation.rule_blames [OF I(1)] rule_interpretation.contributes [OF I(1)]
      rule_interpretation.contributes [OF I(2)] Cons.prems(2) [of by_name r] Cons.prems(5) reads st st'
    by (auto simp: rule_step_def x)
  then show ?case
  proof (cases s)
    case None
    have "\<exists>df'. fold_from en cx' rules (Suc n) (d1', None) = (df', t) \<and> (t = None \<longrightarrow> agree B df df')"
proof (rule Cons.IH)
      show "truth_le (rc_truth_of cx p) (rc_truth_of cx' p)" if "(b, q) \<in> set rules" "p \<in> rule_reads en q" for b q p
        using Cons.prems(1) [of b q p] that by (simp add: x)
      show "fst (rc_interpret cx (ru_action q)) = fst (rc_interpret cx' (ru_action q))"
        if "(b, q) \<in> set rules" "evaluate_rule en (rc_truth_of cx) q = Truth_True" for b q
        using Cons.prems(2) [of b q] that by (simp add: x)
      show "fold_from en cx rules (Suc n) (d1, None) = (df, t)" using rest None by simp
    qed (use Cons.prems(4) \<open>agree B d1 d1' \<and> s = s'\<close> in \<open>auto simp: x\<close>)
    with None st' \<open>agree B d1 d1' \<and> s = s'\<close> show ?thesis
      by (simp add: x fold_from_Cons Let_def del: fold_from.simps)
  next
    case (Some v)
    with rest st' \<open>agree B d1 d1' \<and> s = s'\<close> show ?thesis
      by (auto simp: x fold_from_Cons Let_def simp del: fold_from.simps)
  qed
qed (use ag in auto)

end
