(* ===== verification/Vf_Actions.thy ===== *)
theory Vf_Actions
  imports Vf_Fold
begin

text \<open>
  The actions of visibility rules and the two engines (\<open>rules/rule_spec.rs\<close>,
  \<open>rules/rule_spec/engine.rs\<close>, \<open>rules/context.rs\<close>): what an action contributes in a context, the
  nodes that takes, the name a rule derives from its identity and its action, and the contexts in
  which rules on users and rules on posts are evaluated. A context of either engine satisfies the
  laws the policy fold relies on.

  The numbers Thrift gives to the members of \<open>AppealablePolicy\<close> are a parameter of the names.
\<close>

section \<open>Actions\<close>

record fosnr_violation =
  fv_label :: vf_label
  fv_policy :: appealable_policy
  fv_level :: int
  fv_limited_actions :: "limited_action_type list"

record fosnr_notice =
  fn_label :: vf_label
  fn_policy :: appealable_policy
  fn_level :: int

datatype label_interstitial_spec = LIS_PublicInterest | LIS_EmergencyDynamic

datatype user_action =
    A_Drop vf_drop_reason | A_Tombstone tombstone_reason | A_MediaRestriction media_restriction
  | A_LimitedEngagement limited_engagement_reason

text \<open>Rules on posts may also act through the safety labels of the post.\<close>

datatype post_action =
    A_User user_action | A_SoftIntervention fosnr_notice | A_Appealable "fosnr_violation list"
  | A_LabelInterstitial label_interstitial_spec

fun user_action_kind :: "user_action \<Rightarrow> action_kind" where
  "user_action_kind (A_Drop _) = AK_Drop"
| "user_action_kind (A_Tombstone _) = AK_Tombstone"
| "user_action_kind (A_MediaRestriction _) = AK_MediaRestriction"
| "user_action_kind (A_LimitedEngagement _) = AK_LimitedEngagement"

fun post_action_kind :: "post_action \<Rightarrow> action_kind" where
  "post_action_kind (A_User a) = user_action_kind a"
| "post_action_kind (A_SoftIntervention _) = AK_SoftIntervention"
| "post_action_kind (A_Appealable _) = AK_Appealable"
| "post_action_kind (A_LabelInterstitial _) = AK_LabelInterstitial"

fun user_action_requires :: "user_action \<Rightarrow> hydrators" where
  "user_action_requires _ = hyd_empty"

fun post_action_requires :: "post_action \<Rightarrow> hydrators" where
  "post_action_requires (A_User a) = user_action_requires a"
| "post_action_requires (A_SoftIntervention _) = hyd_of H_TweetSafetyLabels"
| "post_action_requires (A_Appealable _) = hyd_of H_TweetSafetyLabels"
| "post_action_requires (A_LabelInterstitial _) = hyd_of H_TweetSafetyLabels"

datatype drop_as =
    DA_UnspecifiedReason | DA_PossiblyUndesirable | DA_ContainNsfwMedia | DA_AuthorAccountIsInactive
  | DA_AuthorIsSuspended | DA_AuthorIsDeactivated | DA_AuthorIsProtected | DA_AuthorBlockViewer
  | DA_ViewerBlocksAuthor | DA_ViewerMutesAuthor | DA_TweetIsBounced | DA_TweetIsNullcast | DA_ExclusiveTweet
  | DA_NsfwHighPrecisionSafetyResult | DA_NsfwViewerLoggedOut | DA_NsfwViewerIsUnderage
  | DA_NsfwViewerHasNoStatedAge

fun drop_as_reason :: "drop_as \<Rightarrow> vf_drop_reason" where
  "drop_as_reason DA_UnspecifiedReason = Legacy FR_UnspecifiedReason"
| "drop_as_reason DA_PossiblyUndesirable = Legacy FR_PossiblyUndesirable"
| "drop_as_reason DA_ContainNsfwMedia = Legacy FR_ContainNsfwMedia"
| "drop_as_reason DA_AuthorAccountIsInactive = Legacy FR_AuthorAccountIsInactive"
| "drop_as_reason DA_AuthorIsSuspended = Legacy FR_AuthorIsSuspended"
| "drop_as_reason DA_AuthorIsDeactivated = Legacy FR_AuthorIsDeactivated"
| "drop_as_reason DA_AuthorIsProtected = Legacy FR_AuthorIsProtected"
| "drop_as_reason DA_AuthorBlockViewer = Legacy FR_AuthorBlockViewer"
| "drop_as_reason DA_ViewerBlocksAuthor = Legacy FR_ViewerBlocksAuthor"
| "drop_as_reason DA_ViewerMutesAuthor = Legacy FR_ViewerMutesAuthor"
| "drop_as_reason DA_TweetIsBounced = Legacy FR_TweetIsBounced"
| "drop_as_reason DA_TweetIsNullcast = Legacy FR_TweetIsNullcast"
| "drop_as_reason DA_ExclusiveTweet = Legacy FR_ExclusiveTweet"
| "drop_as_reason DA_NsfwHighPrecisionSafetyResult = Legacy (FR_SafetyResult (Some ''NsfwHighPrecision'') ''Drop'')"
| "drop_as_reason DA_NsfwViewerLoggedOut = NsfwViewer NV_LoggedOut"
| "drop_as_reason DA_NsfwViewerIsUnderage = NsfwViewer NV_IsUnderage"
| "drop_as_reason DA_NsfwViewerHasNoStatedAge = NsfwViewer NV_HasNoStatedAge"

definition drop_post :: "drop_as \<Rightarrow> user_action" where
  "drop_post reason = A_Drop (drop_as_reason reason)"

definition media_interstitial :: "interstitial_reason \<Rightarrow> interstitial_action option \<Rightarrow> user_action" where
  "media_interstitial reason prompt = A_MediaRestriction (MR_MediaInterstitial FR_ContainNsfwMedia reason prompt)"

definition blur :: "interstitial_reason \<Rightarrow> user_action" where
  "blur reason = media_interstitial reason None"

definition blur_with_age_prompt :: "interstitial_reason \<Rightarrow> user_action" where
  "blur_with_age_prompt reason = media_interstitial reason (Some AgeVerificationPrompt)"

definition legacy_nsfw_interstitial :: user_action where
  "legacy_nsfw_interstitial = A_MediaRestriction MR_NsfwInterstitial"

definition soft_intervention :: "vf_label \<Rightarrow> appealable_policy \<Rightarrow> int \<Rightarrow> post_action" where
  "soft_intervention l policy level = A_SoftIntervention \<lparr>fn_label = l, fn_policy = policy, fn_level = level\<rparr>"

section \<open>Contributions\<close>

definition fosnr_reason_of :: "vf_label \<Rightarrow> appealable_policy \<Rightarrow> int \<Rightarrow> vf_label_map \<Rightarrow> fosnr_reason" where
  "fosnr_reason_of l policy level labels =
     \<lparr>fo_policy = policy, fo_level = level, fo_proactive = (\<not> is_by_agent labels l),
      fo_appeal_submitted = has_label labels L_FOSNR_APPEAL_SUBMITTED\<rparr>"

definition appeal :: "fosnr_violation list \<Rightarrow> vf_label_map \<Rightarrow> vf_notice option" where
  "appeal violations labels =
     map_option (\<lambda>v. N_Appealable (fosnr_reason_of (fv_label v) (fv_policy v) (fv_level v) labels) (fv_limited_actions v))
       (List.find (\<lambda>v. has_label labels (fv_label v)) violations)"

definition public_interest_labels :: "vf_label list" where
  "public_interest_labels =
     [L_LOW_QUALITY, L_MISINFO_CIVIC, L_MISINFO_GENERIC, L_MISINFO_MEDICAL, L_MISINFO_CRISIS, L_IPI_DEVELOPMENT_ONLY]"

definition public_interest_reasons :: "string list" where
  "public_interest_reasons =
     [''EPISODIC'', ''ABUSE_EPISODIC_ENCOURAGE_SELF_HARM'', ''ABUSE_EPISODIC_HATEFUL_CONDUCT'',
      ''ABUSE_GLORIFICATION_OF_VIOLENCE'', ''ABUSE_GRATUITOUS_GORE'', ''ABUSE_MOB_HARASSMENT'',
      ''ABUSE_MOMENT_OF_DEATH_OR_DECEASED_USER'', ''ABUSE_PRIVATE_INFORMATION'',
      ''ABUSE_RIGHT_TO_PRIVACY'', ''ABUSE_THREAT_TO_EXPOSE'', ''ABUSE_VIOLENT_SEXUAL_CONDUCT'',
      ''ABUSE_VIOLENT_THREAT_HATEFUL_CONDUCT'', ''ABUSE_VIOLENT_THREAT_OR_BOUNTY'', ''ONE_OFF'',
      ''VOTING_MISINFORMATION'', ''HACKED_MATERIALS'', ''SCAMS'', ''PLATFORM_MANIPULATION'',
      ''MISINFO_CIVIC'', ''MISINFO_CRISIS'', ''MISINFO_GENERIC'', ''MISINFO_MEDICAL'',
      ''DEVELOPMENT_ONLY_PUBLIC_INTEREST'', ''NSFW_HIGH_PRECISION'', ''GORE_AND_VIOLENCE_HIGH_PRECISION'',
      ''FOSNR_SYNTHETIC_AND_MANIPULATED_MEDIA'', ''FOSNR_CIVIC_INTEGRITY'', ''FOSNR_ABUSE'',
      ''FOSNR_HATEFUL_CONDUCT'', ''FOSNR_VIOLENT_SPEECH'']"

definition spells :: "string \<Rightarrow> string \<Rightarrow> bool" where
  "spells source ident \<longleftrightarrow> map to_ascii_upper source = filter (\<lambda>c. c \<noteq> CHR ''_'') ident"

fun limited_actions_string :: "limited_engagement_reason \<Rightarrow> string" where
  "limited_actions_string NonCompliant = ''non_compliant''"
| "limited_actions_string ConversationControl = ''limited_replies''"
| "limited_actions_string ReadonlyViewer = ''readonly_viewer''"
| "limited_actions_string BlockedViewer = ''blocked_viewer''"
| "limited_actions_string RootAuthorBlockedViewer = ''root_author_blocked_viewer''"
| "limited_actions_string StaleTweet = ''stale_tweet''"
| "limited_actions_string CommunityTweetHidden = ''community_tweet_hidden''"
| "limited_actions_string CommunityTweetMemberRemoved = ''community_tweet_member_removed''"
| "limited_actions_string CommunityTweetCommunityNotFound = ''community_tweet_community_not_found''"
| "limited_actions_string CommunityTweetCommunityDeleted = ''community_tweet_community_deleted''"
| "limited_actions_string CommunityTweetCommunitySuspended = ''community_tweet_community_suspended''"
| "limited_actions_string CommunityTweetViewerRemoved = ''community_tweet_viewer_removed''"
| "limited_actions_string DynamicProductAd = ''dynamic_product_ad''"
| "limited_actions_string LocalTweet = ''local_tweet''"

definition from_misinfo_source :: "string \<Rightarrow> limited_engagement_reason option" where
  "from_misinfo_source source =
     List.find (\<lambda>r. limited_actions_string r = source)
       [NonCompliant, ConversationControl, CommunityTweetHidden, CommunityTweetMemberRemoved,
        CommunityTweetViewerRemoved, StaleTweet, LocalTweet, ReadonlyViewer, BlockedViewer, RootAuthorBlockedViewer]"

definition public_interest :: "vf_label_map \<Rightarrow> label_interstitial option" where
  "public_interest labels =
     (case List.find (has_label labels) public_interest_labels of
        None \<Rightarrow> None
      | Some l \<Rightarrow>
          (let source = label_source labels l;
               misinfo = (\<lambda>reason. PublicInterest reason (Option.bind source from_misinfo_source))
           in Some (if l = L_LOW_QUALITY
                    then PublicInterest
                           (unwrap_or ''ONE_OFF''
                              (Option.bind source (\<lambda>source. List.find (spells source) public_interest_reasons)))
                           (Some NonCompliant)
                    else if l = L_MISINFO_CIVIC then misinfo ''MISINFO_CIVIC''
                    else if l = L_MISINFO_GENERIC then misinfo ''MISINFO_GENERIC''
                    else if l = L_MISINFO_MEDICAL then misinfo ''MISINFO_MEDICAL''
                    else if l = L_MISINFO_CRISIS then misinfo ''MISINFO_CRISIS''
                    else PublicInterest ''DEVELOPMENT_ONLY_PUBLIC_INTEREST'' (Some NonCompliant))))"

definition starts_with :: "string \<Rightarrow> string \<Rightarrow> bool" where
  "starts_with s prefix \<longleftrightarrow> take (length prefix) s = prefix"

definition vf_split_once :: "char \<Rightarrow> string \<Rightarrow> (string \<times> string) option" where
  "vf_split_once c s =
     (if c \<in> set s then Some (takeWhile (\<lambda>x. x \<noteq> c) s, tl (dropWhile (\<lambda>x. x \<noteq> c) s)) else None)"

definition names_a_system :: "string \<Rightarrow> bool" where
  "names_a_system source \<longleftrightarrow>
     list_ex (starts_with source) [''bot_id_'', ''Abuse'', ''hse''] \<or>
     source \<in> set [''A'', ''B'', ''AB'', ''OneOff'', ''VotingMisinformation'', ''HackedMaterials'', ''Scams'',
                   ''PlatformManipulation'']"

definition emergency_dynamic :: "vf_label_map \<Rightarrow> label_interstitial option" where
  "emergency_dynamic labels =
     (case label_source labels L_FOR_EMERGENCY_USE_ONLY of
        None \<Rightarrow> None
      | Some source \<Rightarrow>
          if names_a_system source then None
          else (case vf_split_once (CHR ''|'') source of
                  None \<Rightarrow> Some (EmergencyDynamic source None)
                | Some (copy, link) \<Rightarrow> Some (EmergencyDynamic copy (if link \<noteq> [] then Some link else None))))"

fun user_action_value :: "user_action \<Rightarrow> contribution option" where
  "user_action_value (A_Drop reason) = Some (Con_Withholding (W_Drop reason))"
| "user_action_value (A_Tombstone reason) = Some (Con_Withholding (W_Tombstone reason))"
| "user_action_value (A_MediaRestriction restriction) = Some (Con_Media restriction)"
| "user_action_value (A_LimitedEngagement reason) = Some (Con_Engagement reason)"

fun post_action_value :: "vf_label_map \<Rightarrow> post_action \<Rightarrow> contribution option" where
  "post_action_value labels (A_User a) = user_action_value a"
| "post_action_value labels (A_SoftIntervention n) =
     Some (Con_Notice (N_SoftIntervention (fosnr_reason_of (fn_label n) (fn_policy n) (fn_level n) labels)))"
| "post_action_value labels (A_Appealable violations) = map_option Con_Notice (appeal violations labels)"
| "post_action_value labels (A_LabelInterstitial LIS_PublicInterest) =
     map_option Con_LabelInterstitial (public_interest labels)"
| "post_action_value labels (A_LabelInterstitial LIS_EmergencyDynamic) =
     map_option Con_LabelInterstitial (emergency_dynamic labels)"

section \<open>Engines and contexts\<close>

definition user_engine :: "(user_predicate, user_action) vf_engine" where
  "user_engine =
     \<lparr>en_non_authors = C_Not (C_Leaf (P_AuthorFacts ViewerIsAuthor)),
      en_non_followers =
        C_All [C_Not (C_Leaf (P_AuthorFacts ViewerIsAuthor)), C_Not (C_Leaf (P_Relationship ViewerFollowsAuthor))],
      en_only_author = C_Leaf (P_AuthorFacts ViewerIsAuthor),
      en_requires = user_requires, en_lift = P_User, en_kind = user_action_kind,
      en_action_requires = user_action_requires\<rparr>"

definition post_engine :: "(predicate, post_action) vf_engine" where
  "post_engine =
     \<lparr>en_non_authors = C_Not (C_Leaf (P_User (P_AuthorFacts ViewerIsAuthor))),
      en_non_followers =
        C_All [C_Not (C_Leaf (P_User (P_AuthorFacts ViewerIsAuthor))),
               C_Not (C_Leaf (P_User (P_Relationship ViewerFollowsAuthor)))],
      en_only_author = C_Leaf (P_User (P_AuthorFacts ViewerIsAuthor)),
      en_requires = post_requires, en_lift = id, en_kind = post_action_kind,
      en_action_requires = post_action_requires\<rparr>"

definition user_context ::
  "viewer_features \<Rightarrow> vf_placement \<Rightarrow> country_lists \<Rightarrow> user_row \<Rightarrow> (user_predicate, user_action) rule_context" where
  "user_context viewer placement codes c =
     \<lparr>rc_truth_of = user_truth_of (core_facts_new viewer placement codes) (vf_viewer viewer) c,
      rc_interpret = (\<lambda>a. (user_action_value a, hyd_intersection (ur_failed c) (user_action_requires a))),
      rc_failed = ur_failed c\<rparr>"

definition post_context ::
  "viewer_features \<Rightarrow> vf_placement \<Rightarrow> country_lists \<Rightarrow> post_row \<Rightarrow> (predicate, post_action) rule_context" where
  "post_context viewer placement codes c =
     \<lparr>rc_truth_of = post_truth_of (core_facts_new viewer placement codes) (vf_viewer viewer) c,
      rc_interpret = (\<lambda>a. (post_action_value (pe_safety_labels (pr_post c)) a,
                           hyd_intersection (pr_failed c) (post_action_requires a))),
      rc_failed = pr_failed c\<rparr>"

lemma user_action_value_kind: "user_action_value a = Some c \<Longrightarrow> contribution_kind c = user_action_kind a"
  by (cases a) auto

lemma post_action_value_kind: "post_action_value labels a = Some c \<Longrightarrow> contribution_kind c = post_action_kind a"
  by (cases "(labels, a)" rule: post_action_value.cases) (auto simp: user_action_value_kind appeal_def)

interpretation user_rules: rule_interpretation user_engine "user_context viewer placement codes c"
  for viewer placement codes c
  by unfold_locales
    (simp_all add: user_engine_def user_context_def user_truth_of_def truth_from_blames user_action_value_kind)

interpretation post_rules: rule_interpretation post_engine "post_context viewer placement codes c"
  for viewer placement codes c
  by unfold_locales
    (simp_all add: post_engine_def post_context_def post_truth_of_def truth_from_blames post_action_value_kind)

section \<open>Names\<close>

definition snake_case :: "string \<Rightarrow> string" where
  "snake_case variant =
     concat (map (\<lambda>(i, c). (if 65 \<le> (of_char c :: nat) \<and> (of_char c :: nat) \<le> 90 \<and> i > 0 then ''_'' else '''') @
                           [to_ascii_lower c]) (enumerate 0 variant))"

fun filtered_reason_debug :: "vf_filtered_reason \<Rightarrow> string" where
  "filtered_reason_debug FR_ContainNsfwMedia = ''ContainNsfwMedia''"
| "filtered_reason_debug FR_AuthorBlockViewer = ''AuthorBlockViewer''"
| "filtered_reason_debug FR_PossiblyUndesirable = ''PossiblyUndesirable''"
| "filtered_reason_debug FR_UnspecifiedReason = ''UnspecifiedReason''"
| "filtered_reason_debug FR_AuthorAccountIsInactive = ''AuthorAccountIsInactive''"
| "filtered_reason_debug FR_AuthorIsProtected = ''AuthorIsProtected''"
| "filtered_reason_debug FR_AuthorIsUnsafe = ''AuthorIsUnsafe''"
| "filtered_reason_debug FR_ReportedTweet = ''ReportedTweet''"
| "filtered_reason_debug (FR_TweetMatchesViewerMutedKeyword _) = ''TweetMatchesViewerMutedKeyword''"
| "filtered_reason_debug FR_TweetIsBounced = ''TweetIsBounced''"
| "filtered_reason_debug (FR_SafetyResult _ _) = ''SafetyResult''"
| "filtered_reason_debug FR_AuthorIsDeactivated = ''AuthorIsDeactivated''"
| "filtered_reason_debug FR_AuthorIsSuspended = ''AuthorIsSuspended''"
| "filtered_reason_debug FR_ViewerMutesAuthor = ''ViewerMutesAuthor''"
| "filtered_reason_debug FR_TweetIsNullcast = ''TweetIsNullcast''"
| "filtered_reason_debug FR_ExclusiveTweet = ''ExclusiveTweet''"
| "filtered_reason_debug FR_ViewerBlocksAuthor = ''ViewerBlocksAuthor''"

definition filtered_reason_name :: "vf_filtered_reason \<Rightarrow> string" where
  "filtered_reason_name r =
     (case r of
        FR_UnspecifiedReason \<Rightarrow> ''unspecified''
      | FR_PossiblyUndesirable \<Rightarrow> ''undesirable''
      | FR_ContainNsfwMedia \<Rightarrow> ''nsfw_media''
      | FR_AuthorAccountIsInactive \<Rightarrow> ''inactive''
      | _ \<Rightarrow> snake_case (filtered_reason_debug r))"

fun nsfw_viewer_name :: "nsfw_viewer_drop_reason \<Rightarrow> string" where
  "nsfw_viewer_name NV_IsUnderage = ''is_underage''"
| "nsfw_viewer_name NV_HasNoStatedAge = ''has_no_stated_age''"
| "nsfw_viewer_name NV_LoggedOut = ''logged_out''"

fun tombstone_name :: "tombstone_reason \<Rightarrow> string" where
  "tombstone_name TS_Bounced = ''bounced''"
| "tombstone_name TS_SensitiveViewerAgeVerification = ''age_verification''"
| "tombstone_name TS_UpdateAppIos = ''update_app_ios''"
| "tombstone_name TS_UpdateAppAndroid = ''update_app_android''"
| "tombstone_name TS_LocalRegulations = ''local_regulations''"

fun engagement_name :: "limited_engagement_reason \<Rightarrow> string" where
  "engagement_name NonCompliant = ''non_compliant''"
| "engagement_name ConversationControl = ''conversation_control''"
| "engagement_name ReadonlyViewer = ''readonly_viewer''"
| "engagement_name BlockedViewer = ''blocked_viewer''"
| "engagement_name RootAuthorBlockedViewer = ''root_author_blocked_viewer''"
| "engagement_name StaleTweet = ''stale_tweet''"
| "engagement_name CommunityTweetHidden = ''community_tweet_hidden''"
| "engagement_name CommunityTweetMemberRemoved = ''community_tweet_member_removed''"
| "engagement_name CommunityTweetCommunityNotFound = ''community_tweet_community_not_found''"
| "engagement_name CommunityTweetCommunityDeleted = ''community_tweet_community_deleted''"
| "engagement_name CommunityTweetCommunitySuspended = ''community_tweet_community_suspended''"
| "engagement_name CommunityTweetViewerRemoved = ''community_tweet_viewer_removed''"
| "engagement_name DynamicProductAd = ''dynamic_product_ad''"
| "engagement_name LocalTweet = ''local_tweet''"

fun interstitial_name :: "interstitial_reason \<Rightarrow> string" where
  "interstitial_name (IR_PossiblyUndesirable _) = ''undesirable''"
| "interstitial_name (IR_Nudity _) = snake_case ''Nudity''"
| "interstitial_name (IR_Sensitive _) = snake_case ''Sensitive''"
| "interstitial_name (IR_SensitiveUser _) = snake_case ''SensitiveUser''"
| "interstitial_name (IR_Violence _) = snake_case ''Violence''"
| "interstitial_name (IR_ContainsNsfwMedia _) = snake_case ''ContainsNsfwMedia''"
| "interstitial_name (IR_Other variant) = snake_case variant"

definition show_number :: "int \<Rightarrow> string" where
  "show_number n = (if n < 0 then CHR ''-'' # show_nat (nat (- n)) else show_nat (nat n))"

fun prompt_name :: "interstitial_action \<Rightarrow> string" where
  "prompt_name AgeVerificationPrompt = ''age_prompt''"
| "prompt_name (IA_Other n) = show_number n"

text \<open>The kind, the reason and the prompt an action puts in a name.\<close>

fun action_name_parts :: "(appealable_policy \<Rightarrow> int) \<Rightarrow> post_action \<Rightarrow> string \<times> string option \<times> string option" where
  "action_name_parts number (A_User (A_Drop (Legacy reason))) = (''drop'', Some (filtered_reason_name reason), None)"
| "action_name_parts number (A_User (A_Drop (NsfwViewer reason))) = (''drop'', Some (nsfw_viewer_name reason), None)"
| "action_name_parts number (A_User (A_Tombstone reason)) = (''tombstone'', Some (tombstone_name reason), None)"
| "action_name_parts number (A_User (A_MediaRestriction (MR_MediaInterstitial _ reason prompt))) =
     (''blur'', Some (interstitial_name reason), map_option prompt_name prompt)"
| "action_name_parts number (A_User (A_MediaRestriction MR_NsfwInterstitial)) = (''legacy_interstitial'', None, None)"
| "action_name_parts number (A_User (A_LimitedEngagement reason)) =
     (''limited_engagement'', Some (engagement_name reason), None)"
| "action_name_parts number (A_SoftIntervention n) =
     (''soft_intervention'', Some (if fn_policy n = AP_ABUSE then ''abuse'' else show_number (number (fn_policy n))), None)"
| "action_name_parts number (A_Appealable _) = (''appealable'', None, None)"
| "action_name_parts number (A_LabelInterstitial _) = (''label_interstitial'', None, None)"

fun strip_prefix :: "string \<Rightarrow> string \<Rightarrow> string option" where
  "strip_prefix [] s = Some s"
| "strip_prefix (p # ps) [] = None"
| "strip_prefix (p # ps) (c # cs) = (if p = c then strip_prefix ps cs else None)"

fun str_contains :: "string \<Rightarrow> string \<Rightarrow> bool" where
  "str_contains s part =
     (strip_prefix part s \<noteq> None \<or> (case s of [] \<Rightarrow> False | _ # rest \<Rightarrow> str_contains rest part))"

declare str_contains.simps [simp del]

definition squashed :: "string \<Rightarrow> string" where
  "squashed name = filter (\<lambda>c. c \<noteq> CHR ''_'') name"

definition short_reason :: "string \<Rightarrow> string" where
  "short_reason reason =
     unwrap_or reason (find_map (\<lambda>prefix. strip_prefix prefix reason) [''author_is_'', ''tweet_is_'', ''is_'', ''has_''])"

fun rule_name :: "(appealable_policy \<Rightarrow> int) \<Rightarrow> rule_id \<Rightarrow> post_action \<Rightarrow> string" where
  "rule_name number (RuleId i) action =
     (let (kind, reason, prompt) = action_name_parts number action;
          keeps_reason = (case action of A_SoftIntervention _ \<Rightarrow> True | _ \<Rightarrow> False);
          reason = (case map_option short_reason reason of
                      Some r \<Rightarrow> if keeps_reason \<or> \<not> str_contains (squashed i) (squashed r) then Some r else None
                    | None \<Rightarrow> None);
          part = (\<lambda>p. case p of Some s \<Rightarrow> ''/'' @ s | None \<Rightarrow> '''')
      in i @ ''/'' @ kind @ part reason @ part prompt)"

end
