(* ===== verification/Vf_Catalog.thy ===== *)
theory Vf_Catalog
  imports Vf_Actions
begin

text \<open>
  The rules of the visibility service and the levels that wire them: the named conditions
  (\<open>rule_spec/conditions.rs\<close>), the rules on authors and viewers (\<open>author_rules.rs\<close>), the rules on
  posts (\<open>tweet_rules.rs\<close>), the families and levels of \<open>levels.rs\<close>, the placement of an
  expansion's rules (\<open>expansion.rs\<close>), and the rules of each safety level and notification kind
  (\<open>safety_level.rs\<close>, \<open>notification_kind.rs\<close>). Every rule is a definition under the name of its
  constant, so that a theorem about a level names the rules it is about.
\<close>

type_synonym user_rule = "(user_predicate, user_action) vf_rule"
type_synonym post_rule = "(predicate, post_action) vf_rule"

section \<open>Named conditions\<close>

definition has_nsfw_media_label :: "predicate rule_cond" where
  "has_nsfw_media_label =
     C_Named ''has_nsfw_media_label'' (C_Any [C_Leaf (P_TweetHasLabel L_NSFW_HIGH_PRECISION),
     C_Leaf (P_TweetHasLabel L_NSFW_HIGH_RECALL), C_Leaf (P_TweetHasLabel L_GORE_AND_VIOLENCE_HIGH_PRECISION)])"

definition is_nsfw_flagged :: "predicate rule_cond" where
  "is_nsfw_flagged =
     C_Named ''is_nsfw_flagged'' (C_Any [C_Leaf (P_User (P_AuthorSafety AuthorIsNsfwUser)),
     C_Leaf (P_User (P_AuthorSafety AuthorIsNsfwAdmin)), C_Leaf (P_Tweet TweetNsfwUserFlag),
     C_Leaf (P_Tweet TweetNsfwAdminFlag)])"

definition has_nsfw_text_or_card_label :: "predicate rule_cond" where
  "has_nsfw_text_or_card_label =
     C_Named ''has_nsfw_text_or_card_label'' (C_Any [C_Leaf (P_TweetHasLabel L_NSFW_TEXT),
     C_Leaf (P_TweetHasLabel L_NSFW_CARD_IMAGE)])"

definition is_nsfw_admin :: "predicate rule_cond" where
  "is_nsfw_admin =
     C_Named ''is_nsfw_admin'' (C_Any [C_Leaf (P_User (P_AuthorSafety AuthorIsNsfwAdmin)),
     C_Leaf (P_Tweet TweetNsfwAdminFlag)])"

definition is_nsfw_user :: "predicate rule_cond" where
  "is_nsfw_user =
     C_Named ''is_nsfw_user'' (C_Any [C_Leaf (P_User (P_AuthorSafety AuthorIsNsfwUser)),
     C_Leaf (P_Tweet TweetNsfwUserFlag)])"

definition tweet_is_nsfw_flagged :: "predicate rule_cond" where
  "tweet_is_nsfw_flagged =
     C_Named ''tweet_is_nsfw_flagged'' (C_Any [C_Leaf (P_Tweet TweetNsfwAdminFlag),
     C_Leaf (P_Tweet TweetNsfwUserFlag)])"

definition is_nsfw_sensitive_tweet :: "predicate rule_cond" where
  "is_nsfw_sensitive_tweet =
     C_Named ''is_nsfw_sensitive_tweet'' (C_Any [C_Leaf (P_TweetHasLabel L_NSFW_HIGH_PRECISION),
     C_Leaf (P_TweetHasLabel L_NSFW_HIGH_RECALL), C_Leaf (P_TweetHasLabel L_NSFW_TEXT),
     C_Leaf (P_TweetHasLabel L_NSFW_TEXT_HIGH_PRECISION), C_Leaf (P_TweetHasLabel L_NSFW_VIDEO),
     C_Leaf (P_Tweet TweetNsfwAdminFlag), C_Leaf (P_Tweet TweetNsfwUserFlag)])"

definition is_nsfw_sensitive_author :: "user_predicate rule_cond" where
  "is_nsfw_sensitive_author =
     C_Named ''is_nsfw_sensitive_author'' (C_Any [C_Leaf (P_AuthorHasLabel AL_NsfwAvatarImage),
     C_Leaf (P_AuthorHasLabel AL_NsfwBannerImage), C_Leaf (P_AuthorHasLabel AL_NsfwHighPrecision),
     C_Leaf (P_AuthorHasLabel AL_NsfwHighRecall), C_Leaf (P_AuthorHasLabel AL_NsfwNearPerfect),
     C_Leaf (P_AuthorSafety AuthorIsNsfwAdmin), C_Leaf (P_AuthorSafety AuthorIsNsfwUser)])"

definition has_fosnr_label :: "predicate rule_cond" where
  "has_fosnr_label =
     C_Named ''has_fosnr_label'' (C_Any [C_Leaf (P_TweetHasLabel L_FOSNR_HATEFUL_CONDUCT),
     C_Leaf (P_TweetHasLabel L_FOSNR_VIOLENT_SPEECH), C_Leaf (P_TweetHasLabel L_FOSNR_ABUSE),
     C_Leaf (P_TweetHasLabel L_FOSNR_CIVIC_INTEGRITY), C_Leaf (P_TweetHasLabel L_FOSNR_ABUSE_INSULTS)])"

definition viewer_is_not_age_verified_in_age_verification_countries :: "predicate rule_cond" where
  "viewer_is_not_age_verified_in_age_verification_countries =
     C_Named ''viewer_is_not_age_verified_in_age_verification_countries'' (C_All [C_Leaf (P_User (P_Request (RequestCountryIn AgeVerification))),
     C_Not (C_Leaf (P_Compound ViewerAgeVerified))])"

definition viewer_is_not_age_verified_in_tombstone_countries :: "predicate rule_cond" where
  "viewer_is_not_age_verified_in_tombstone_countries =
     C_Named ''viewer_is_not_age_verified_in_tombstone_countries'' (C_All [C_Leaf (P_User (P_Request (RequestCountryIn Tombstone_Countries))),
     C_Not (C_Leaf (P_Compound ViewerAgeVerified))])"

definition viewer_is_neither_root_author_nor_invited :: "predicate rule_cond" where
  "viewer_is_neither_root_author_nor_invited =
     C_Named ''viewer_is_neither_root_author_nor_invited'' (C_Not (C_Any [C_Leaf (P_ReplyControl ViewerIsConversationRootAuthor),
     C_Leaf (P_ReplyControl ViewerIsInvitedToConversation)]))"

section \<open>Rules on authors and viewers\<close>

definition suspended_author_drop :: user_rule where
  "suspended_author_drop =
     \<lparr>ru_id = RuleId ''suspended_author'', ru_audience = NonAuthors,
      ru_when = C_All [C_Leaf (P_AuthorSafety AuthorIsSuspended)],
      ru_action = drop_post DA_AuthorIsSuspended\<rparr>"

definition deactivated_author_drop :: user_rule where
  "deactivated_author_drop =
     \<lparr>ru_id = RuleId ''deactivated_author'', ru_audience = NonAuthors,
      ru_when = C_All [C_Leaf (P_AuthorSafety AuthorIsDeactivated)],
      ru_action = drop_post DA_AuthorIsDeactivated\<rparr>"

definition erased_author_drop_inactive :: user_rule where
  "erased_author_drop_inactive =
     \<lparr>ru_id = RuleId ''erased_author'', ru_audience = NonAuthors,
      ru_when = C_All [C_Leaf (P_AuthorSafety AuthorIsErased)],
      ru_action = drop_post DA_AuthorAccountIsInactive\<rparr>"

definition offboarded_author_drop_inactive :: user_rule where
  "offboarded_author_drop_inactive =
     \<lparr>ru_id = RuleId ''offboarded_author'', ru_audience = NonAuthors,
      ru_when = C_All [C_Leaf (P_AuthorSafety AuthorIsOffboarded)],
      ru_action = drop_post DA_AuthorAccountIsInactive\<rparr>"

definition protected_author_drop :: user_rule where
  "protected_author_drop =
     \<lparr>ru_id = RuleId ''protected_author'', ru_audience = NonFollowers,
      ru_when = C_All [C_Leaf (P_AuthorSafety AuthorIsProtected)],
      ru_action = drop_post DA_AuthorIsProtected\<rparr>"

definition viewer_blocks_author_drop :: user_rule where
  "viewer_blocks_author_drop =
     \<lparr>ru_id = RuleId ''viewer_blocks_author'', ru_audience = Everyone,
      ru_when = C_All [C_Not (C_Leaf (P_Request ViewerLoggedOut)), C_Leaf (P_Relationship ViewerBlocksAuthor)],
      ru_action = drop_post DA_ViewerBlocksAuthor\<rparr>"

definition viewer_mutes_author_drop :: user_rule where
  "viewer_mutes_author_drop =
     \<lparr>ru_id = RuleId ''viewer_mutes_author'', ru_audience = Everyone,
      ru_when = C_All [C_Not (C_Leaf (P_Request ViewerLoggedOut)), C_Leaf (P_Relationship ViewerMutesAuthor)],
      ru_action = drop_post DA_ViewerMutesAuthor\<rparr>"

definition viewer_mutes_retweets_drop_unspecified :: post_rule where
  "viewer_mutes_retweets_drop_unspecified =
     \<lparr>ru_id = RuleId ''viewer_mutes_retweets'', ru_audience = Everyone,
      ru_when = C_All [C_Not (C_Leaf (P_User (P_Request ViewerLoggedOut))), C_Leaf P_TweetIsRetweet,
      C_Leaf (P_Edge ViewerMutesRetweetsFromAuthor)],
      ru_action = A_User (drop_post DA_UnspecifiedReason)\<rparr>"

definition quoted_viewer_mutes_author_not_following_drop :: user_rule where
  "quoted_viewer_mutes_author_not_following_drop =
     \<lparr>ru_id = RuleId ''quoted_viewer_mutes_author_not_following'', ru_audience = NonAuthors,
      ru_when = C_All [C_Not (C_Leaf (P_Request ViewerLoggedOut)), C_Leaf (P_Relationship ViewerMutesAuthor),
      C_Not (C_Leaf (P_Relationship ViewerFollowsAuthor))],
      ru_action = drop_post DA_ViewerMutesAuthor\<rparr>"

definition quoted_author_blocks_quoting_author_drop_author_block_viewer :: user_rule where
  "quoted_author_blocks_quoting_author_drop_author_block_viewer =
     \<lparr>ru_id = RuleId ''quoted_author_blocks_quoting_author'', ru_audience = Everyone,
      ru_when = C_All [C_Not (C_Leaf (P_AuthorFacts IsSelfQuote)), C_Leaf (P_PairEdge AuthorBlocksOuterAuthor)],
      ru_action = drop_post DA_AuthorBlockViewer\<rparr>"

definition protected_quoted_author_drop :: user_rule where
  "protected_quoted_author_drop =
     \<lparr>ru_id = RuleId ''protected_quoted_author'', ru_audience = Everyone,
      ru_when = C_All [C_Not (C_Leaf (P_AuthorFacts IsSelfQuote)),
      C_Not (C_Leaf (P_PairEdge OuterAuthorFollowsAuthor)), C_Leaf (P_AuthorSafety AuthorIsProtected)],
      ru_action = drop_post DA_AuthorIsProtected\<rparr>"

definition deactivated_viewer_drop_unspecified :: user_rule where
  "deactivated_viewer_drop_unspecified =
     \<lparr>ru_id = RuleId ''deactivated_viewer'', ru_audience = NonAuthors,
      ru_when = C_All [C_Leaf (P_ViewerAccount ViewerIsDeactivated)],
      ru_action = drop_post DA_UnspecifiedReason\<rparr>"

definition suspended_viewer_drop_unspecified :: user_rule where
  "suspended_viewer_drop_unspecified =
     \<lparr>ru_id = RuleId ''suspended_viewer'', ru_audience = NonAuthors,
      ru_when = C_All [C_Leaf (P_ViewerAccount ViewerIsSuspended)],
      ru_action = drop_post DA_UnspecifiedReason\<rparr>"

definition viewer_mutes_and_does_not_follow_author_drop_viewer_mutes_author :: user_rule where
  "viewer_mutes_and_does_not_follow_author_drop_viewer_mutes_author =
     \<lparr>ru_id = RuleId ''viewer_mutes_and_does_not_follow_author'', ru_audience = NonAuthors,
      ru_when = C_All [C_Not (C_Leaf (P_Request ViewerLoggedOut)), C_Leaf (P_Relationship ViewerMutesAuthor),
      C_Not (C_Leaf (P_Relationship ViewerFollowsAuthor))],
      ru_action = drop_post DA_ViewerMutesAuthor\<rparr>"

definition no_confirmed_email_drop_unspecified :: user_rule where
  "no_confirmed_email_drop_unspecified =
     \<lparr>ru_id = RuleId ''no_confirmed_email'', ru_audience = NonFollowers,
      ru_when = C_All [C_Leaf (P_NotificationFilter ViewerFiltersNoConfirmedEmail),
      C_Not (C_Leaf P_AuthorHasConfirmedEmail)],
      ru_action = drop_post DA_UnspecifiedReason\<rparr>"

definition no_confirmed_phone_drop_unspecified :: user_rule where
  "no_confirmed_phone_drop_unspecified =
     \<lparr>ru_id = RuleId ''no_confirmed_phone'', ru_audience = NonFollowers,
      ru_when = C_All [C_Leaf (P_NotificationFilter ViewerFiltersNoConfirmedPhone),
      C_Not (C_Leaf P_AuthorHasVerifiedPhone)],
      ru_action = drop_post DA_UnspecifiedReason\<rparr>"

definition no_default_profile_image_drop_unspecified :: user_rule where
  "no_default_profile_image_drop_unspecified =
     \<lparr>ru_id = RuleId ''no_default_profile_image'', ru_audience = NonFollowers,
      ru_when = C_All [C_Leaf (P_NotificationFilter ViewerFiltersDefaultProfileImage),
      C_Leaf (P_AuthorProfile AuthorHasDefaultProfileImage)],
      ru_action = drop_post DA_UnspecifiedReason\<rparr>"

definition no_new_users_drop_unspecified :: user_rule where
  "no_new_users_drop_unspecified =
     \<lparr>ru_id = RuleId ''no_new_users'', ru_audience = NonFollowers,
      ru_when = C_All [C_Leaf (P_NotificationFilter ViewerFiltersNewUsers),
      C_Leaf (P_AuthorProfile AuthorIsNewAccount)],
      ru_action = drop_post DA_UnspecifiedReason\<rparr>"

definition no_not_followed_by_drop_unspecified :: user_rule where
  "no_not_followed_by_drop_unspecified =
     \<lparr>ru_id = RuleId ''no_not_followed_by'', ru_audience = NonFollowers,
      ru_when = C_All [C_Leaf (P_NotificationFilter ViewerFiltersNotFollowedBy),
      C_Not (C_Leaf (P_Relationship AuthorFollowsViewer))],
      ru_action = drop_post DA_UnspecifiedReason\<rparr>"

definition only_people_i_follow_drop_unspecified :: user_rule where
  "only_people_i_follow_drop_unspecified =
     \<lparr>ru_id = RuleId ''only_people_i_follow'', ru_audience = NonFollowers,
      ru_when = C_All [C_Leaf (P_ViewerAccount ViewerMentionFilterIsFollowing)],
      ru_action = drop_post DA_UnspecifiedReason\<rparr>"

definition nsfw_user_author_drop_nsfw_media :: user_rule where
  "nsfw_user_author_drop_nsfw_media =
     \<lparr>ru_id = RuleId ''nsfw_user_author'', ru_audience = NonAuthors,
      ru_when = C_All [C_Leaf (P_AuthorSafety AuthorIsNsfwUser)],
      ru_action = drop_post DA_ContainNsfwMedia\<rparr>"

definition nsfw_admin_author_drop_nsfw_media :: user_rule where
  "nsfw_admin_author_drop_nsfw_media =
     \<lparr>ru_id = RuleId ''nsfw_admin_author'', ru_audience = NonAuthors,
      ru_when = C_All [C_Leaf (P_AuthorSafety AuthorIsNsfwAdmin)],
      ru_action = drop_post DA_ContainNsfwMedia\<rparr>"

definition nsfw_high_recall_user_label_drop_unspecified :: user_rule where
  "nsfw_high_recall_user_label_drop_unspecified =
     \<lparr>ru_id = RuleId ''nsfw_high_recall_user_label'', ru_audience = NonAuthors,
      ru_when = C_All [C_Leaf (P_AuthorHasLabel AL_NsfwHighRecall)],
      ru_action = drop_post DA_UnspecifiedReason\<rparr>"

definition nsfw_high_precision_user_label_drop_unspecified :: user_rule where
  "nsfw_high_precision_user_label_drop_unspecified =
     \<lparr>ru_id = RuleId ''nsfw_high_precision_user_label'', ru_audience = NonAuthors,
      ru_when = C_All [C_Leaf (P_AuthorHasLabel AL_NsfwHighPrecision)],
      ru_action = drop_post DA_UnspecifiedReason\<rparr>"

definition nsfw_avatar_image_user_label_drop_unspecified :: user_rule where
  "nsfw_avatar_image_user_label_drop_unspecified =
     \<lparr>ru_id = RuleId ''nsfw_avatar_image_user_label'', ru_audience = NonAuthors,
      ru_when = C_All [C_Leaf (P_AuthorHasLabel AL_NsfwAvatarImage)],
      ru_action = drop_post DA_UnspecifiedReason\<rparr>"

definition nsfw_banner_image_user_label_drop_unspecified :: user_rule where
  "nsfw_banner_image_user_label_drop_unspecified =
     \<lparr>ru_id = RuleId ''nsfw_banner_image_user_label'', ru_audience = NonAuthors,
      ru_when = C_All [C_Leaf (P_AuthorHasLabel AL_NsfwBannerImage)],
      ru_action = drop_post DA_UnspecifiedReason\<rparr>"

definition nsfw_near_perfect_user_label_drop_unspecified :: user_rule where
  "nsfw_near_perfect_user_label_drop_unspecified =
     \<lparr>ru_id = RuleId ''nsfw_near_perfect_user_label'', ru_audience = NonAuthors,
      ru_when = C_All [C_Leaf (P_AuthorHasLabel AL_NsfwNearPerfect)],
      ru_action = drop_post DA_UnspecifiedReason\<rparr>"

definition spam_high_recall_user_label_drop_unspecified :: user_rule where
  "spam_high_recall_user_label_drop_unspecified =
     \<lparr>ru_id = RuleId ''spam_high_recall_user_label'', ru_audience = NonAuthors,
      ru_when = C_All [C_Leaf (P_AuthorHasLabel AL_SpamHighRecall)],
      ru_action = drop_post DA_UnspecifiedReason\<rparr>"

definition compromised_user_label_drop_unspecified :: user_rule where
  "compromised_user_label_drop_unspecified =
     \<lparr>ru_id = RuleId ''compromised_user_label'', ru_audience = NonAuthors,
      ru_when = C_All [C_Leaf (P_AuthorHasLabel AL_Compromised)],
      ru_action = drop_post DA_UnspecifiedReason\<rparr>"

definition read_only_user_label_drop_unspecified :: user_rule where
  "read_only_user_label_drop_unspecified =
     \<lparr>ru_id = RuleId ''read_only_user_label'', ru_audience = NonAuthors,
      ru_when = C_All [C_Leaf (P_AuthorHasLabel AL_ReadOnly)],
      ru_action = drop_post DA_UnspecifiedReason\<rparr>"

definition impersonation_high_precision_user_label_drop_unspecified :: user_rule where
  "impersonation_high_precision_user_label_drop_unspecified =
     \<lparr>ru_id = RuleId ''impersonation_high_precision_user_label'', ru_audience = NonAuthors,
      ru_when = C_All [C_Leaf (P_AuthorHasLabel AL_ImpersonationHighPrecision)],
      ru_action = drop_post DA_UnspecifiedReason\<rparr>"

definition abusive_high_recall_user_label_drop_unspecified :: user_rule where
  "abusive_high_recall_user_label_drop_unspecified =
     \<lparr>ru_id = RuleId ''abusive_high_recall_user_label'', ru_audience = NonFollowers,
      ru_when = C_All [C_Leaf (P_AuthorHasLabel AL_AbusiveHighRecall)],
      ru_action = drop_post DA_UnspecifiedReason\<rparr>"

definition do_not_amplify_user_label_drop_unspecified :: user_rule where
  "do_not_amplify_user_label_drop_unspecified =
     \<lparr>ru_id = RuleId ''do_not_amplify_user_label'', ru_audience = NonFollowers,
      ru_when = C_All [C_Leaf (P_AuthorHasLabel AL_DoNotAmplify)],
      ru_action = drop_post DA_UnspecifiedReason\<rparr>"

definition not_graduated_user_label_drop_unspecified :: user_rule where
  "not_graduated_user_label_drop_unspecified =
     \<lparr>ru_id = RuleId ''not_graduated_user_label'', ru_audience = NonFollowers,
      ru_when = C_All [C_Leaf (P_AuthorHasLabel AL_NotGraduated)],
      ru_action = drop_post DA_UnspecifiedReason\<rparr>"

definition agatha_spam_top_user_user_label_drop_unspecified :: user_rule where
  "agatha_spam_top_user_user_label_drop_unspecified =
     \<lparr>ru_id = RuleId ''agatha_spam_top_user_user_label'', ru_audience = NonFollowers,
      ru_when = C_All [C_Leaf (P_AuthorHasLabel AL_AgathaSpamTopUser)],
      ru_action = drop_post DA_UnspecifiedReason\<rparr>"

definition engagement_spammer_user_label_drop_unspecified :: user_rule where
  "engagement_spammer_user_label_drop_unspecified =
     \<lparr>ru_id = RuleId ''engagement_spammer_user_label'', ru_audience = NonFollowers,
      ru_when = C_All [C_Leaf (P_AuthorHasLabel AL_EngagementSpammer)],
      ru_action = drop_post DA_UnspecifiedReason\<rparr>"

definition blink_worst_user_label_drop_unspecified :: user_rule where
  "blink_worst_user_label_drop_unspecified =
     \<lparr>ru_id = RuleId ''blink_worst_user_label'', ru_audience = NonFollowers,
      ru_when = C_All [C_Leaf (P_AuthorHasLabel AL_BlinkWorst), C_Leaf (P_ViewerAccount ViewerHasUqfEnabled),
      C_Not (C_Leaf P_ViewerHasBlinkLabel)],
      ru_action = drop_post DA_UnspecifiedReason\<rparr>"

definition downrank_spam_reply_user_label_drop_unspecified :: user_rule where
  "downrank_spam_reply_user_label_drop_unspecified =
     \<lparr>ru_id = RuleId ''downrank_spam_reply_user_label'', ru_audience = NonFollowers,
      ru_when = C_All [C_Leaf (P_AuthorHasLabel AL_DownrankSpamReply)],
      ru_action = drop_post DA_UnspecifiedReason\<rparr>"

section \<open>Rules on posts\<close>

definition author_level_3_limited_actions :: "limited_action_type list" where
  "author_level_3_limited_actions =
     [LA_Like, LA_Reply, LA_Retweet, LA_QuoteTweet, LA_ShareTweetVia, LA_AddToBookmarks, LA_PinToProfile,
     LA_CopyLink, LA_SendViaDm, LA_EditTweet, LA_Highlight, LA_Embed, LA_ListsAddRemove]"

definition fosnr_author_violations :: "fosnr_violation list" where
  "fosnr_author_violations =
     [\<lparr>fv_label = L_FOSNR_ABUSE, fv_policy = AP_ABUSE, fv_level = 3,
       fv_limited_actions = author_level_3_limited_actions\<rparr>,
      \<lparr>fv_label = L_FOSNR_CIVIC_INTEGRITY, fv_policy = AP_CIVIC_INTEGRITY, fv_level = 3,
       fv_limited_actions = author_level_3_limited_actions\<rparr>,
      \<lparr>fv_label = L_FOSNR_HATEFUL_CONDUCT, fv_policy = AP_HATEFUL_CONDUCT, fv_level = 3,
       fv_limited_actions = author_level_3_limited_actions\<rparr>,
      \<lparr>fv_label = L_FOSNR_VIOLENT_SPEECH, fv_policy = AP_VIOLENT_SPEECH, fv_level = 3,
       fv_limited_actions = author_level_3_limited_actions\<rparr>,
      \<lparr>fv_label = L_FOSNR_ABUSE_INSULTS, fv_policy = AP_ABUSE, fv_level = 1,
       fv_limited_actions = [LA_EditTweet]\<rparr>]"

definition public_interest_labels_start :: u64 where
  "public_interest_labels_start = 1554076800000"

definition nsfw_high_precision_changed_at :: u64 where
  "nsfw_high_precision_changed_at = 1705536000000"

definition filter_all_drop_unspecified :: post_rule where
  "filter_all_drop_unspecified =
     \<lparr>ru_id = RuleId ''filter_all'', ru_audience = Everyone,
      ru_when = C_All [],
      ru_action = A_User (drop_post DA_UnspecifiedReason)\<rparr>"

definition only_people_i_follow_outside_community_drop_unspecified :: post_rule where
  "only_people_i_follow_outside_community_drop_unspecified =
     \<lparr>ru_id = RuleId ''only_people_i_follow_outside_community'', ru_audience = NonFollowers,
      ru_when = C_All [C_Leaf (P_User (P_ViewerAccount ViewerMentionFilterIsFollowing)),
      C_Not (C_Leaf (P_Tweet TweetIsCommunityTweet))],
      ru_action = A_User (drop_post DA_UnspecifiedReason)\<rparr>"

definition pdna_drop_safety_result :: post_rule where
  "pdna_drop_safety_result =
     \<lparr>ru_id = RuleId ''pdna'', ru_audience = NonAuthors,
      ru_when = C_All [C_Leaf (P_TweetHasLabel L_PDNA)],
      ru_action = A_User (drop_post DA_NsfwHighPrecisionSafetyResult)\<rparr>"

definition bounce_drop_bounced :: post_rule where
  "bounce_drop_bounced =
     \<lparr>ru_id = RuleId ''bounce'', ru_audience = NonAuthors,
      ru_when = C_All [C_Leaf (P_TweetHasLabel L_BOUNCE)],
      ru_action = A_User (drop_post DA_TweetIsBounced)\<rparr>"

definition bounce_quoted_tombstone_bounced :: post_rule where
  "bounce_quoted_tombstone_bounced =
     \<lparr>ru_id = RuleId ''bounce_quoted'', ru_audience = Everyone,
      ru_when = C_All [C_Leaf (P_User (P_Request IsQuotedInnerTweet)), C_Leaf (P_TweetHasLabel L_BOUNCE)],
      ru_action = A_User (A_Tombstone TS_Bounced)\<rparr>"

definition spam_drop_undesirable :: post_rule where
  "spam_drop_undesirable =
     \<lparr>ru_id = RuleId ''spam'', ru_audience = NonAuthors,
      ru_when = C_All [C_Leaf (P_TweetHasLabel L_SPAM)],
      ru_action = A_User (drop_post DA_PossiblyUndesirable)\<rparr>"

definition for_emergency_use_only_drop_unspecified :: post_rule where
  "for_emergency_use_only_drop_unspecified =
     \<lparr>ru_id = RuleId ''for_emergency_use_only'', ru_audience = Everyone,
      ru_when = C_All [C_Leaf (P_TweetHasLabel L_FOR_EMERGENCY_USE_ONLY)],
      ru_action = A_User (drop_post DA_UnspecifiedReason)\<rparr>"

definition for_emergency_use_only_label_interstitial :: post_rule where
  "for_emergency_use_only_label_interstitial =
     \<lparr>ru_id = RuleId ''for_emergency_use_only'', ru_audience = Everyone,
      ru_when = C_All [C_Leaf (P_TweetHasLabel L_FOR_EMERGENCY_USE_ONLY)],
      ru_action = A_LabelInterstitial LIS_EmergencyDynamic\<rparr>"

definition public_interest_label_interstitial :: post_rule where
  "public_interest_label_interstitial =
     \<lparr>ru_id = RuleId ''public_interest'', ru_audience = Everyone,
      ru_when = C_All [C_Leaf (P_TweetCreatedAfter public_interest_labels_start),
      C_Any [C_Leaf (P_TweetHasLabel L_LOW_QUALITY), C_Leaf (P_TweetHasLabel L_MISINFO_CIVIC),
      C_Leaf (P_TweetHasLabel L_MISINFO_GENERIC), C_Leaf (P_TweetHasLabel L_MISINFO_MEDICAL),
      C_Leaf (P_TweetHasLabel L_MISINFO_CRISIS), C_Leaf (P_TweetHasLabel L_IPI_DEVELOPMENT_ONLY)]],
      ru_action = A_LabelInterstitial LIS_PublicInterest\<rparr>"

definition fosnr_hateful_conduct_drop_undesirable :: post_rule where
  "fosnr_hateful_conduct_drop_undesirable =
     \<lparr>ru_id = RuleId ''fosnr_hateful_conduct'', ru_audience = NonAuthors,
      ru_when = C_All [C_Leaf (P_TweetHasLabel L_FOSNR_HATEFUL_CONDUCT)],
      ru_action = A_User (drop_post DA_PossiblyUndesirable)\<rparr>"

definition fosnr_violent_speech_drop_undesirable :: post_rule where
  "fosnr_violent_speech_drop_undesirable =
     \<lparr>ru_id = RuleId ''fosnr_violent_speech'', ru_audience = NonAuthors,
      ru_when = C_All [C_Leaf (P_TweetHasLabel L_FOSNR_VIOLENT_SPEECH)],
      ru_action = A_User (drop_post DA_PossiblyUndesirable)\<rparr>"

definition fosnr_abuse_drop_undesirable :: post_rule where
  "fosnr_abuse_drop_undesirable =
     \<lparr>ru_id = RuleId ''fosnr_abuse'', ru_audience = NonAuthors,
      ru_when = C_All [C_Leaf (P_TweetHasLabel L_FOSNR_ABUSE)],
      ru_action = A_User (drop_post DA_PossiblyUndesirable)\<rparr>"

definition fosnr_civic_integrity_drop_undesirable :: post_rule where
  "fosnr_civic_integrity_drop_undesirable =
     \<lparr>ru_id = RuleId ''fosnr_civic_integrity'', ru_audience = NonAuthors,
      ru_when = C_All [C_Leaf (P_TweetHasLabel L_FOSNR_CIVIC_INTEGRITY)],
      ru_action = A_User (drop_post DA_PossiblyUndesirable)\<rparr>"

definition fosnr_abuse_insults_drop_undesirable :: post_rule where
  "fosnr_abuse_insults_drop_undesirable =
     \<lparr>ru_id = RuleId ''fosnr_abuse_insults'', ru_audience = NonAuthors,
      ru_when = C_All [C_Leaf (P_TweetHasLabel L_FOSNR_ABUSE_INSULTS)],
      ru_action = A_User (drop_post DA_PossiblyUndesirable)\<rparr>"

definition fosnr_abuse_insults_non_follower_drop_undesirable :: post_rule where
  "fosnr_abuse_insults_non_follower_drop_undesirable =
     \<lparr>ru_id = RuleId ''fosnr_abuse_insults_non_follower'', ru_audience = NonFollowers,
      ru_when = C_All [C_Leaf (P_TweetHasLabel L_FOSNR_ABUSE_INSULTS),
      C_Leaf (P_User (P_Request (ClientHas FosnrRules)))],
      ru_action = A_User (drop_post DA_PossiblyUndesirable)\<rparr>"

definition fosnr_abuse_insults_follower_soft_intervention_abuse :: post_rule where
  "fosnr_abuse_insults_follower_soft_intervention_abuse =
     \<lparr>ru_id = RuleId ''fosnr_abuse_insults_follower'', ru_audience = NonAuthors,
      ru_when = C_All [C_Leaf (P_TweetHasLabel L_FOSNR_ABUSE_INSULTS),
      C_Leaf (P_User (P_Relationship ViewerFollowsAuthor)), C_Leaf (P_User (P_Request (ClientHas FosnrRules)))],
      ru_action = soft_intervention L_FOSNR_ABUSE_INSULTS AP_ABUSE 1\<rparr>"

definition fosnr_author_appealable :: post_rule where
  "fosnr_author_appealable =
     \<lparr>ru_id = RuleId ''fosnr_author'', ru_audience = OnlyAuthor,
      ru_when = C_All [C_Leaf (P_User (P_Request (ClientHas FosnrRules))), has_fosnr_label],
      ru_action = A_Appealable fosnr_author_violations\<rparr>"

definition fosnr_fallback_drop_undesirable :: post_rule where
  "fosnr_fallback_drop_undesirable =
     \<lparr>ru_id = RuleId ''fosnr_fallback'', ru_audience = Everyone,
      ru_when = C_All [C_Leaf (P_User (P_Request (ClientHas FosnrFallbackDrops))), has_fosnr_label],
      ru_action = A_User (drop_post DA_PossiblyUndesirable)\<rparr>"

definition nullcasted_tweet_drop :: post_rule where
  "nullcasted_tweet_drop =
     \<lparr>ru_id = RuleId ''nullcasted_tweet'', ru_audience = Everyone,
      ru_when = C_All [C_Leaf (P_Tweet TweetIsNullcast), C_Not (C_Leaf P_TweetIsRetweet),
      C_Not (C_Leaf (P_Tweet TweetIsCommunityTweet))],
      ru_action = A_User (drop_post DA_TweetIsNullcast)\<rparr>"

definition stale_tweet_drop_unspecified :: post_rule where
  "stale_tweet_drop_unspecified =
     \<lparr>ru_id = RuleId ''stale_tweet'', ru_audience = Everyone,
      ru_when = C_All [C_Leaf (P_Compound TweetIsSupersededEdit),
      C_Not (C_Leaf (P_User (P_Request IsQuotedInnerTweet))), C_Not (C_Leaf P_TweetIsRetweet),
      C_Not (C_Leaf (P_User (P_Request IsSourceTweet)))],
      ru_action = A_User (drop_post DA_UnspecifiedReason)\<rparr>"

definition stale_tweet_limited_engagement :: post_rule where
  "stale_tweet_limited_engagement =
     \<lparr>ru_id = RuleId ''stale_tweet'', ru_audience = Everyone,
      ru_when = C_All [C_Leaf (P_Compound TweetIsSupersededEdit),
      C_Leaf (P_User (P_Request (ClientHas StaleTweetLimits)))],
      ru_action = A_User (A_LimitedEngagement StaleTweet)\<rparr>"

definition legal_takedown_drop_unspecified :: post_rule where
  "legal_takedown_drop_unspecified =
     \<lparr>ru_id = RuleId ''legal_takedown'', ru_audience = NonAuthors,
      ru_when = C_All [C_Leaf (P_Tweet TweetLegalTakedownInRequestCountry)],
      ru_action = A_User (drop_post DA_UnspecifiedReason)\<rparr>"

definition local_laws_takedown_drop_unspecified :: post_rule where
  "local_laws_takedown_drop_unspecified =
     \<lparr>ru_id = RuleId ''local_laws_takedown'', ru_audience = NonAuthors,
      ru_when = C_All [C_Leaf (P_Tweet TweetLocalLawsTakedownInRequestCountry)],
      ru_action = A_User (drop_post DA_UnspecifiedReason)\<rparr>"

definition article_tweet_content_drop_unspecified :: post_rule where
  "article_tweet_content_drop_unspecified =
     \<lparr>ru_id = RuleId ''article_tweet_content'', ru_audience = Everyone,
      ru_when = C_All [C_Leaf (P_Tweet TweetHasArticle), C_Not (C_Leaf P_TweetArticleIsPublished)],
      ru_action = A_User (drop_post DA_UnspecifiedReason)\<rparr>"

definition protected_community_tweet_drop_unspecified :: post_rule where
  "protected_community_tweet_drop_unspecified =
     \<lparr>ru_id = RuleId ''protected_community_tweet'', ru_audience = NonAuthors,
      ru_when = C_All [C_Leaf (P_Tweet TweetIsCommunityTweet),
      C_Leaf (P_User (P_AuthorSafety AuthorIsProtected))],
      ru_action = A_User (drop_post DA_UnspecifiedReason)\<rparr>"

definition hidden_community_tweet_drop_unspecified :: post_rule where
  "hidden_community_tweet_drop_unspecified =
     \<lparr>ru_id = RuleId ''hidden_community_tweet'', ru_audience = NonAuthors,
      ru_when = C_All [C_Leaf (P_Tweet TweetIsCommunityTweet),
      C_Leaf (P_PostModeration TweetCommunityTweetIsHidden), C_Not (C_Leaf P_ViewerIsCommunityModerator)],
      ru_action = A_User (drop_post DA_UnspecifiedReason)\<rparr>"

definition author_removed_community_tweet_drop_unspecified :: post_rule where
  "author_removed_community_tweet_drop_unspecified =
     \<lparr>ru_id = RuleId ''author_removed_community_tweet'', ru_audience = NonAuthors,
      ru_when = C_All [C_Leaf (P_Tweet TweetIsCommunityTweet),
      C_Leaf (P_PostModeration TweetCommunityTweetAuthorIsRemoved),
      C_Not (C_Leaf P_ViewerIsCommunityModerator)],
      ru_action = A_User (drop_post DA_UnspecifiedReason)\<rparr>"

definition sensitive_viewer_logged_out_drop_media_label :: post_rule where
  "sensitive_viewer_logged_out_drop_media_label =
     \<lparr>ru_id = RuleId ''sensitive_viewer_logged_out'', ru_audience = NonAuthors,
      ru_when = C_All [C_Leaf (P_User (P_Request ViewerLoggedOut)), C_Leaf (P_Compound TweetHasMedia),
      has_nsfw_media_label],
      ru_action = A_User (drop_post DA_NsfwViewerLoggedOut)\<rparr>"

definition sensitive_viewer_logged_out_drop_nsfw_flag :: post_rule where
  "sensitive_viewer_logged_out_drop_nsfw_flag =
     \<lparr>ru_id = RuleId ''sensitive_viewer_logged_out'', ru_audience = NonAuthors,
      ru_when = C_All [C_Leaf (P_User (P_Request ViewerLoggedOut)), C_Leaf (P_Compound TweetHasMedia),
      C_Not (C_Leaf P_TweetIsRetweet), is_nsfw_flagged],
      ru_action = A_User (drop_post DA_NsfwViewerLoggedOut)\<rparr>"

definition sensitive_viewer_logged_out_drop_text_or_card_label :: post_rule where
  "sensitive_viewer_logged_out_drop_text_or_card_label =
     \<lparr>ru_id = RuleId ''sensitive_viewer_logged_out'', ru_audience = NonAuthors,
      ru_when = C_All [C_Leaf (P_User (P_Request ViewerLoggedOut)), has_nsfw_text_or_card_label],
      ru_action = A_User (drop_post DA_NsfwViewerLoggedOut)\<rparr>"

definition sensitive_viewer_underage_drop_media_label :: post_rule where
  "sensitive_viewer_underage_drop_media_label =
     \<lparr>ru_id = RuleId ''sensitive_viewer_underage'', ru_audience = NonAuthors,
      ru_when = C_All [C_Leaf (P_User (P_ViewerAccount ViewerUnderage)), C_Leaf (P_Compound TweetHasMedia),
      has_nsfw_media_label],
      ru_action = A_User (drop_post DA_NsfwViewerIsUnderage)\<rparr>"

definition sensitive_viewer_underage_drop_nsfw_flag :: post_rule where
  "sensitive_viewer_underage_drop_nsfw_flag =
     \<lparr>ru_id = RuleId ''sensitive_viewer_underage'', ru_audience = NonAuthors,
      ru_when = C_All [C_Leaf (P_User (P_ViewerAccount ViewerUnderage)), C_Leaf (P_Compound TweetHasMedia),
      C_Not (C_Leaf P_TweetIsRetweet), is_nsfw_flagged],
      ru_action = A_User (drop_post DA_NsfwViewerIsUnderage)\<rparr>"

definition sensitive_viewer_underage_drop_text_or_card_label :: post_rule where
  "sensitive_viewer_underage_drop_text_or_card_label =
     \<lparr>ru_id = RuleId ''sensitive_viewer_underage'', ru_audience = NonAuthors,
      ru_when = C_All [C_Leaf (P_User (P_ViewerAccount ViewerUnderage)), has_nsfw_text_or_card_label],
      ru_action = A_User (drop_post DA_NsfwViewerIsUnderage)\<rparr>"

definition sensitive_viewer_no_stated_age_drop_media_label :: post_rule where
  "sensitive_viewer_no_stated_age_drop_media_label =
     \<lparr>ru_id = RuleId ''sensitive_viewer_no_stated_age'', ru_audience = NonAuthors,
      ru_when = C_All [C_Leaf (P_User (P_ViewerAccount ViewerNoStatedAge)),
      C_Leaf (P_User (P_ViewerAccount (ViewerAccountOrRequestCountryIn NsfwGating))),
      C_Leaf (P_Compound TweetHasMedia), has_nsfw_media_label],
      ru_action = A_User (drop_post DA_NsfwViewerHasNoStatedAge)\<rparr>"

definition sensitive_viewer_no_stated_age_drop_nsfw_flag :: post_rule where
  "sensitive_viewer_no_stated_age_drop_nsfw_flag =
     \<lparr>ru_id = RuleId ''sensitive_viewer_no_stated_age'', ru_audience = NonAuthors,
      ru_when = C_All [C_Leaf (P_User (P_ViewerAccount ViewerNoStatedAge)),
      C_Leaf (P_User (P_ViewerAccount (ViewerAccountOrRequestCountryIn NsfwGating))),
      C_Leaf (P_Compound TweetHasMedia), C_Not (C_Leaf P_TweetIsRetweet), is_nsfw_flagged],
      ru_action = A_User (drop_post DA_NsfwViewerHasNoStatedAge)\<rparr>"

definition sensitive_viewer_no_stated_age_drop_text_or_card_label :: post_rule where
  "sensitive_viewer_no_stated_age_drop_text_or_card_label =
     \<lparr>ru_id = RuleId ''sensitive_viewer_no_stated_age'', ru_audience = NonAuthors,
      ru_when = C_All [C_Leaf (P_User (P_ViewerAccount ViewerNoStatedAge)),
      C_Leaf (P_User (P_ViewerAccount (ViewerAccountOrRequestCountryIn NsfwGating))),
      has_nsfw_text_or_card_label],
      ru_action = A_User (drop_post DA_NsfwViewerHasNoStatedAge)\<rparr>"

definition nsfw_sensitive_viewer_tweet_drop_nsfw_media :: post_rule where
  "nsfw_sensitive_viewer_tweet_drop_nsfw_media =
     \<lparr>ru_id = RuleId ''nsfw_sensitive_viewer_tweet'', ru_audience = NonAuthors,
      ru_when = C_All [C_Not (C_Leaf (P_User (P_ViewerAccount ViewerAllowsSensitiveMedia))),
      is_nsfw_sensitive_tweet],
      ru_action = A_User (drop_post DA_ContainNsfwMedia)\<rparr>"

definition nsfw_sensitive_viewer_user_drop_nsfw_media :: user_rule where
  "nsfw_sensitive_viewer_user_drop_nsfw_media =
     \<lparr>ru_id = RuleId ''nsfw_sensitive_viewer_user'', ru_audience = NonAuthors,
      ru_when = C_All [C_Not (C_Leaf (P_ViewerAccount ViewerAllowsSensitiveMedia)), is_nsfw_sensitive_author],
      ru_action = drop_post DA_ContainNsfwMedia\<rparr>"

definition exclusive_tweet_drop_logged_out :: post_rule where
  "exclusive_tweet_drop_logged_out =
     \<lparr>ru_id = RuleId ''exclusive_tweet'', ru_audience = Everyone,
      ru_when = C_All [C_Leaf (P_Tweet TweetHasExclusiveContent), C_Leaf (P_User (P_Request ViewerLoggedOut))],
      ru_action = A_User (drop_post DA_ExclusiveTweet)\<rparr>"

definition exclusive_tweet_drop_retweet :: post_rule where
  "exclusive_tweet_drop_retweet =
     \<lparr>ru_id = RuleId ''exclusive_tweet'', ru_audience = Everyone,
      ru_when = C_All [C_Leaf (P_Tweet TweetHasExclusiveContent),
      C_Not (C_Leaf (P_Tweet ViewerIsConversationAuthor)), C_Not (C_Leaf (P_Compound ViewerSuperFollowsAuthor)),
      C_Leaf P_TweetIsRetweet],
      ru_action = A_User (drop_post DA_ExclusiveTweet)\<rparr>"

definition exclusive_tweet_drop_non_super_follower :: post_rule where
  "exclusive_tweet_drop_non_super_follower =
     \<lparr>ru_id = RuleId ''exclusive_tweet'', ru_audience = NonAuthors,
      ru_when = C_All [C_Leaf (P_Tweet TweetHasExclusiveContent),
      C_Not (C_Leaf (P_Tweet ViewerIsConversationAuthor)),
      C_Not (C_Leaf (P_Compound ViewerSuperFollowsAuthor))],
      ru_action = A_User (drop_post DA_ExclusiveTweet)\<rparr>"

definition author_blocks_viewer_exclusive_content_drop_unspecified :: post_rule where
  "author_blocks_viewer_exclusive_content_drop_unspecified =
     \<lparr>ru_id = RuleId ''author_blocks_viewer_exclusive_content'', ru_audience = NonAuthors,
      ru_when = C_All [C_Leaf (P_User (P_Relationship ViewerIsBlockedByAuthor)),
      C_Leaf (P_Tweet TweetHasExclusiveContent)],
      ru_action = A_User (drop_post DA_UnspecifiedReason)\<rparr>"

definition creator_tweet_nsfw_drop_nsfw_media :: post_rule where
  "creator_tweet_nsfw_drop_nsfw_media =
     \<lparr>ru_id = RuleId ''creator_tweet_nsfw'', ru_audience = NonAuthors,
      ru_when = C_All [C_Leaf (P_Compound TweetHasMedia), C_Leaf (P_TweetHasLabel L_NSFW_HIGH_PRECISION),
      C_Leaf (P_Tweet TweetHasExclusiveContent)],
      ru_action = A_User (drop_post DA_ContainNsfwMedia)\<rparr>"

definition trusted_friends_tweet_drop_unspecified :: post_rule where
  "trusted_friends_tweet_drop_unspecified =
     \<lparr>ru_id = RuleId ''trusted_friends_tweet'', ru_audience = NonAuthors,
      ru_when = C_All [C_Leaf (P_Tweet TweetIsTrustedFriendsTweet),
      C_Not (C_Leaf (P_Edge ViewerIsTrustedFriendsListMemberOrOwner))],
      ru_action = A_User (drop_post DA_UnspecifiedReason)\<rparr>"

definition nsfw_high_precision_blur_nudity :: post_rule where
  "nsfw_high_precision_blur_nudity =
     \<lparr>ru_id = RuleId ''nsfw_high_precision'', ru_audience = NonAuthors,
      ru_when = C_All [C_Leaf (P_TweetHasLabel L_NSFW_HIGH_PRECISION),
      C_Leaf (P_TweetCreatedAfter nsfw_high_precision_changed_at),
      C_Not (C_Leaf (P_User (P_ViewerAccount ViewerAllowsSensitiveMedia)))],
      ru_action = A_User (blur (IR_Nudity True))\<rparr>"

definition nsfw_high_precision_blur_sensitive :: post_rule where
  "nsfw_high_precision_blur_sensitive =
     \<lparr>ru_id = RuleId ''nsfw_high_precision'', ru_audience = NonAuthors,
      ru_when = C_All [C_Leaf (P_TweetHasLabel L_NSFW_HIGH_PRECISION),
      C_Not (C_Leaf (P_TweetCreatedAfter nsfw_high_precision_changed_at)),
      C_Not (C_Leaf (P_User (P_ViewerAccount ViewerAllowsSensitiveMedia)))],
      ru_action = A_User (blur (IR_Sensitive True))\<rparr>"

definition nsfw_high_precision_drop_nsfw_media :: post_rule where
  "nsfw_high_precision_drop_nsfw_media =
     \<lparr>ru_id = RuleId ''nsfw_high_precision'', ru_audience = NonAuthors,
      ru_when = C_All [C_Leaf (P_TweetHasLabel L_NSFW_HIGH_PRECISION)],
      ru_action = A_User (drop_post DA_ContainNsfwMedia)\<rparr>"

definition nsfw_high_precision_tombstone_local_regulations :: post_rule where
  "nsfw_high_precision_tombstone_local_regulations =
     \<lparr>ru_id = RuleId ''nsfw_high_precision'', ru_audience = NonAuthors,
      ru_when = C_All [C_Leaf (P_TweetHasLabel L_NSFW_HIGH_PRECISION),
      C_Leaf (P_User (P_Request (RequestCountryIn LocalRegulations)))],
      ru_action = A_User (A_Tombstone TS_LocalRegulations)\<rparr>"

definition nsfw_high_precision_tombstone_age_verification :: post_rule where
  "nsfw_high_precision_tombstone_age_verification =
     \<lparr>ru_id = RuleId ''nsfw_high_precision'', ru_audience = NonAuthors,
      ru_when = C_All [C_Leaf (P_TweetHasLabel L_NSFW_HIGH_PRECISION),
      C_Leaf (P_User (P_Request (ClientVerifyBlurSupportIs Blur_Unsupported))),
      viewer_is_not_age_verified_in_tombstone_countries],
      ru_action = A_User (A_Tombstone TS_SensitiveViewerAgeVerification)\<rparr>"

definition nsfw_high_precision_tombstone_update_app_ios :: post_rule where
  "nsfw_high_precision_tombstone_update_app_ios =
     \<lparr>ru_id = RuleId ''nsfw_high_precision'', ru_audience = NonAuthors,
      ru_when = C_All [C_Leaf (P_TweetHasLabel L_NSFW_HIGH_PRECISION),
      C_Leaf (P_User (P_Request (ClientVerifyBlurSupportIs Blur_IosNeedsUpdate))),
      viewer_is_not_age_verified_in_tombstone_countries],
      ru_action = A_User (A_Tombstone TS_UpdateAppIos)\<rparr>"

definition nsfw_high_precision_tombstone_update_app_android :: post_rule where
  "nsfw_high_precision_tombstone_update_app_android =
     \<lparr>ru_id = RuleId ''nsfw_high_precision'', ru_audience = NonAuthors,
      ru_when = C_All [C_Leaf (P_TweetHasLabel L_NSFW_HIGH_PRECISION),
      C_Leaf (P_User (P_Request (ClientVerifyBlurSupportIs Blur_AndroidNeedsUpdate))),
      viewer_is_not_age_verified_in_tombstone_countries],
      ru_action = A_User (A_Tombstone TS_UpdateAppAndroid)\<rparr>"

definition nsfw_high_precision_blur_sensitive_age_prompt :: post_rule where
  "nsfw_high_precision_blur_sensitive_age_prompt =
     \<lparr>ru_id = RuleId ''nsfw_high_precision'', ru_audience = NonAuthors,
      ru_when = C_All [C_Leaf (P_TweetHasLabel L_NSFW_HIGH_PRECISION),
      C_Not (C_Leaf (P_TweetCreatedAfter nsfw_high_precision_changed_at)),
      C_Leaf (P_User (P_Request (ClientVerifyBlurSupportIs Blur_Supported))),
      viewer_is_not_age_verified_in_age_verification_countries],
      ru_action = A_User (blur_with_age_prompt (IR_Sensitive True))\<rparr>"

definition nsfw_high_precision_blur_sensitive_all_users :: post_rule where
  "nsfw_high_precision_blur_sensitive_all_users =
     \<lparr>ru_id = RuleId ''nsfw_high_precision'', ru_audience = Everyone,
      ru_when = C_All [C_Leaf (P_TweetHasLabel L_NSFW_HIGH_PRECISION),
      C_Not (C_Leaf (P_TweetCreatedAfter nsfw_high_precision_changed_at)),
      C_Not (C_Leaf (P_User (P_ViewerAccount ViewerAllowsSensitiveMedia))),
      C_Leaf (P_User (P_Request (ClientHas ModernBlur)))],
      ru_action = A_User (blur (IR_Sensitive True))\<rparr>"

definition nsfw_high_precision_blur_nudity_age_prompt :: post_rule where
  "nsfw_high_precision_blur_nudity_age_prompt =
     \<lparr>ru_id = RuleId ''nsfw_high_precision'', ru_audience = NonAuthors,
      ru_when = C_All [C_Leaf (P_TweetHasLabel L_NSFW_HIGH_PRECISION),
      C_Leaf (P_TweetCreatedAfter nsfw_high_precision_changed_at),
      C_Leaf (P_User (P_Request (ClientVerifyBlurSupportIs Blur_Supported))),
      viewer_is_not_age_verified_in_age_verification_countries],
      ru_action = A_User (blur_with_age_prompt (IR_Nudity True))\<rparr>"

definition nsfw_high_precision_blur_nudity_all_users :: post_rule where
  "nsfw_high_precision_blur_nudity_all_users =
     \<lparr>ru_id = RuleId ''nsfw_high_precision'', ru_audience = Everyone,
      ru_when = C_All [C_Leaf (P_TweetHasLabel L_NSFW_HIGH_PRECISION),
      C_Leaf (P_TweetCreatedAfter nsfw_high_precision_changed_at),
      C_Not (C_Leaf (P_User (P_ViewerAccount ViewerAllowsSensitiveMedia))),
      C_Leaf (P_User (P_Request (ClientHas ModernBlur)))],
      ru_action = A_User (blur (IR_Nudity True))\<rparr>"

definition nsfw_high_precision_legacy_interstitial :: post_rule where
  "nsfw_high_precision_legacy_interstitial =
     \<lparr>ru_id = RuleId ''nsfw_high_precision'', ru_audience = Everyone,
      ru_when = C_All [C_Leaf (P_TweetHasLabel L_NSFW_HIGH_PRECISION),
      C_Not (C_Leaf (P_User (P_Request (ClientHas ModernBlur))))],
      ru_action = A_User legacy_nsfw_interstitial\<rparr>"

definition gore_and_violence_high_precision_blur :: post_rule where
  "gore_and_violence_high_precision_blur =
     \<lparr>ru_id = RuleId ''gore_and_violence_high_precision'', ru_audience = NonAuthors,
      ru_when = C_All [C_Leaf (P_TweetHasLabel L_GORE_AND_VIOLENCE_HIGH_PRECISION),
      C_Not (C_Leaf (P_User (P_ViewerAccount ViewerAllowsSensitiveMedia)))],
      ru_action = A_User (blur (IR_Violence True))\<rparr>"

definition gore_and_violence_high_precision_drop_nsfw_media :: post_rule where
  "gore_and_violence_high_precision_drop_nsfw_media =
     \<lparr>ru_id = RuleId ''gore_and_violence_high_precision'', ru_audience = NonAuthors,
      ru_when = C_All [C_Leaf (P_TweetHasLabel L_GORE_AND_VIOLENCE_HIGH_PRECISION)],
      ru_action = A_User (drop_post DA_ContainNsfwMedia)\<rparr>"

definition gore_and_violence_high_precision_tombstone_update_app_ios :: post_rule where
  "gore_and_violence_high_precision_tombstone_update_app_ios =
     \<lparr>ru_id = RuleId ''gore_and_violence_high_precision'', ru_audience = NonAuthors,
      ru_when = C_All [C_Leaf (P_TweetHasLabel L_GORE_AND_VIOLENCE_HIGH_PRECISION),
      C_Leaf (P_User (P_Request (ClientVerifyBlurSupportIs Blur_IosNeedsUpdate))),
      viewer_is_not_age_verified_in_tombstone_countries],
      ru_action = A_User (A_Tombstone TS_UpdateAppIos)\<rparr>"

definition gore_and_violence_high_precision_tombstone_update_app_android :: post_rule where
  "gore_and_violence_high_precision_tombstone_update_app_android =
     \<lparr>ru_id = RuleId ''gore_and_violence_high_precision'', ru_audience = NonAuthors,
      ru_when = C_All [C_Leaf (P_TweetHasLabel L_GORE_AND_VIOLENCE_HIGH_PRECISION),
      C_Leaf (P_User (P_Request (ClientVerifyBlurSupportIs Blur_AndroidNeedsUpdate))),
      viewer_is_not_age_verified_in_tombstone_countries],
      ru_action = A_User (A_Tombstone TS_UpdateAppAndroid)\<rparr>"

definition gore_and_violence_high_precision_blur_all_users :: post_rule where
  "gore_and_violence_high_precision_blur_all_users =
     \<lparr>ru_id = RuleId ''gore_and_violence_high_precision'', ru_audience = Everyone,
      ru_when = C_All [C_Leaf (P_TweetHasLabel L_GORE_AND_VIOLENCE_HIGH_PRECISION),
      C_Not (C_Leaf (P_User (P_ViewerAccount ViewerAllowsSensitiveMedia))),
      C_Leaf (P_User (P_Request (ClientHas ModernBlur)))],
      ru_action = A_User (blur (IR_Violence True))\<rparr>"

definition gore_and_violence_high_precision_legacy_interstitial :: post_rule where
  "gore_and_violence_high_precision_legacy_interstitial =
     \<lparr>ru_id = RuleId ''gore_and_violence_high_precision'', ru_audience = Everyone,
      ru_when = C_All [C_Leaf (P_TweetHasLabel L_GORE_AND_VIOLENCE_HIGH_PRECISION),
      C_Not (C_Leaf (P_User (P_Request (ClientHas ModernBlur))))],
      ru_action = A_User legacy_nsfw_interstitial\<rparr>"

definition gore_and_violence_high_precision_blur_age_prompt :: post_rule where
  "gore_and_violence_high_precision_blur_age_prompt =
     \<lparr>ru_id = RuleId ''gore_and_violence_high_precision'', ru_audience = NonAuthors,
      ru_when = C_All [C_Leaf (P_TweetHasLabel L_GORE_AND_VIOLENCE_HIGH_PRECISION),
      C_Leaf (P_User (P_Request (ClientVerifyBlurSupportIs Blur_Supported))),
      viewer_is_not_age_verified_in_age_verification_countries],
      ru_action = A_User (blur_with_age_prompt (IR_Violence True))\<rparr>"

definition gore_and_violence_ignoring_settings_blur :: post_rule where
  "gore_and_violence_ignoring_settings_blur =
     \<lparr>ru_id = RuleId ''gore_and_violence_ignoring_settings'', ru_audience = NonAuthors,
      ru_when = C_All [C_Leaf (P_TweetHasLabel L_GORE_AND_VIOLENCE_HIGH_PRECISION),
      C_Leaf (P_User (P_Request (ClientHas GoreBlurIgnoresSettings)))],
      ru_action = A_User (blur (IR_Violence True))\<rparr>"

definition nsfw_card_image_blur_sensitive :: post_rule where
  "nsfw_card_image_blur_sensitive =
     \<lparr>ru_id = RuleId ''nsfw_card_image'', ru_audience = NonAuthors,
      ru_when = C_All [C_Leaf (P_TweetHasLabel L_NSFW_CARD_IMAGE),
      C_Not (C_Leaf (P_User (P_ViewerAccount ViewerAllowsSensitiveMedia)))],
      ru_action = A_User (blur (IR_Sensitive True))\<rparr>"

definition nsfw_card_image_drop_nsfw_media :: post_rule where
  "nsfw_card_image_drop_nsfw_media =
     \<lparr>ru_id = RuleId ''nsfw_card_image'', ru_audience = NonAuthors,
      ru_when = C_All [C_Leaf (P_TweetHasLabel L_NSFW_CARD_IMAGE)],
      ru_action = A_User (drop_post DA_ContainNsfwMedia)\<rparr>"

definition nsfw_card_image_tombstone_age_verification :: post_rule where
  "nsfw_card_image_tombstone_age_verification =
     \<lparr>ru_id = RuleId ''nsfw_card_image'', ru_audience = NonAuthors,
      ru_when = C_All [C_Leaf (P_TweetHasLabel L_NSFW_CARD_IMAGE),
      C_Leaf (P_User (P_Request (ClientVerifyBlurSupportIs Blur_Unsupported))),
      viewer_is_not_age_verified_in_age_verification_countries],
      ru_action = A_User (A_Tombstone TS_SensitiveViewerAgeVerification)\<rparr>"

definition nsfw_card_image_tombstone_update_app_ios :: post_rule where
  "nsfw_card_image_tombstone_update_app_ios =
     \<lparr>ru_id = RuleId ''nsfw_card_image'', ru_audience = NonAuthors,
      ru_when = C_All [C_Leaf (P_TweetHasLabel L_NSFW_CARD_IMAGE),
      C_Leaf (P_User (P_Request (ClientVerifyBlurSupportIs Blur_IosNeedsUpdate))),
      viewer_is_not_age_verified_in_age_verification_countries],
      ru_action = A_User (A_Tombstone TS_UpdateAppIos)\<rparr>"

definition nsfw_card_image_tombstone_update_app_android :: post_rule where
  "nsfw_card_image_tombstone_update_app_android =
     \<lparr>ru_id = RuleId ''nsfw_card_image'', ru_audience = NonAuthors,
      ru_when = C_All [C_Leaf (P_TweetHasLabel L_NSFW_CARD_IMAGE),
      C_Leaf (P_User (P_Request (ClientVerifyBlurSupportIs Blur_AndroidNeedsUpdate))),
      viewer_is_not_age_verified_in_age_verification_countries],
      ru_action = A_User (A_Tombstone TS_UpdateAppAndroid)\<rparr>"

definition nsfw_card_image_blur_sensitive_age_prompt :: post_rule where
  "nsfw_card_image_blur_sensitive_age_prompt =
     \<lparr>ru_id = RuleId ''nsfw_card_image'', ru_audience = NonAuthors,
      ru_when = C_All [C_Leaf (P_TweetHasLabel L_NSFW_CARD_IMAGE),
      C_Leaf (P_User (P_Request (ClientVerifyBlurSupportIs Blur_Supported))),
      viewer_is_not_age_verified_in_age_verification_countries],
      ru_action = A_User (blur_with_age_prompt (IR_Sensitive True))\<rparr>"

definition nsfw_card_image_blur_sensitive_all_users :: post_rule where
  "nsfw_card_image_blur_sensitive_all_users =
     \<lparr>ru_id = RuleId ''nsfw_card_image'', ru_audience = Everyone,
      ru_when = C_All [C_Leaf (P_TweetHasLabel L_NSFW_CARD_IMAGE),
      C_Not (C_Leaf (P_User (P_ViewerAccount ViewerAllowsSensitiveMedia))),
      C_Leaf (P_User (P_Request (ClientHas ModernBlur)))],
      ru_action = A_User (blur (IR_Sensitive True))\<rparr>"

definition nsfw_card_image_legacy_interstitial :: post_rule where
  "nsfw_card_image_legacy_interstitial =
     \<lparr>ru_id = RuleId ''nsfw_card_image'', ru_audience = Everyone,
      ru_when = C_All [C_Leaf (P_TweetHasLabel L_NSFW_CARD_IMAGE),
      C_Not (C_Leaf (P_User (P_Request (ClientHas ModernBlur))))],
      ru_action = A_User legacy_nsfw_interstitial\<rparr>"

definition nsfw_admin_blur_sensitive :: post_rule where
  "nsfw_admin_blur_sensitive =
     \<lparr>ru_id = RuleId ''nsfw_admin'', ru_audience = NonAuthors,
      ru_when = C_All [is_nsfw_admin, C_Leaf (P_Compound TweetHasMedia),
      C_Not (C_Leaf (P_User (P_ViewerAccount ViewerAllowsSensitiveMedia)))],
      ru_action = A_User (blur (IR_Sensitive True))\<rparr>"

definition nsfw_admin_blur_sensitive_age_prompt :: post_rule where
  "nsfw_admin_blur_sensitive_age_prompt =
     \<lparr>ru_id = RuleId ''nsfw_admin'', ru_audience = NonAuthors,
      ru_when = C_All [C_Leaf (P_Tweet TweetNsfwAdminFlag), C_Leaf (P_Compound TweetHasMedia),
      C_Leaf (P_User (P_Request (ClientVerifyBlurSupportIs Blur_Supported))),
      viewer_is_not_age_verified_in_age_verification_countries],
      ru_action = A_User (blur_with_age_prompt (IR_Sensitive True))\<rparr>"

definition nsfw_admin_blur_sensitive_all_users :: post_rule where
  "nsfw_admin_blur_sensitive_all_users =
     \<lparr>ru_id = RuleId ''nsfw_admin'', ru_audience = Everyone,
      ru_when = C_All [C_Leaf (P_Tweet TweetNsfwAdminFlag), C_Leaf (P_Compound TweetHasMedia),
      C_Not (C_Leaf (P_User (P_ViewerAccount ViewerAllowsSensitiveMedia))),
      C_Leaf (P_User (P_Request (ClientHas ModernBlur)))],
      ru_action = A_User (blur (IR_Sensitive True))\<rparr>"

definition nsfw_user_blur_sensitive_user :: post_rule where
  "nsfw_user_blur_sensitive_user =
     \<lparr>ru_id = RuleId ''nsfw_user'', ru_audience = NonAuthors,
      ru_when = C_All [is_nsfw_user, C_Leaf (P_Compound TweetHasMedia),
      C_Not (C_Leaf (P_User (P_ViewerAccount ViewerAllowsSensitiveMedia)))],
      ru_action = A_User (blur (IR_SensitiveUser True))\<rparr>"

definition nsfw_user_blur_sensitive_user_age_prompt :: post_rule where
  "nsfw_user_blur_sensitive_user_age_prompt =
     \<lparr>ru_id = RuleId ''nsfw_user'', ru_audience = NonAuthors,
      ru_when = C_All [C_Leaf (P_Tweet TweetNsfwUserFlag), C_Leaf (P_Compound TweetHasMedia),
      C_Leaf (P_User (P_Request (ClientVerifyBlurSupportIs Blur_Supported))),
      viewer_is_not_age_verified_in_age_verification_countries],
      ru_action = A_User (blur_with_age_prompt (IR_SensitiveUser True))\<rparr>"

definition nsfw_user_blur_sensitive_user_all_users :: post_rule where
  "nsfw_user_blur_sensitive_user_all_users =
     \<lparr>ru_id = RuleId ''nsfw_user'', ru_audience = Everyone,
      ru_when = C_All [C_Leaf (P_Tweet TweetNsfwUserFlag), C_Leaf (P_Compound TweetHasMedia),
      C_Not (C_Leaf (P_User (P_ViewerAccount ViewerAllowsSensitiveMedia))),
      C_Leaf (P_User (P_Request (ClientHas ModernBlur)))],
      ru_action = A_User (blur (IR_SensitiveUser True))\<rparr>"

definition nsfw_account_tombstone_age_verification :: post_rule where
  "nsfw_account_tombstone_age_verification =
     \<lparr>ru_id = RuleId ''nsfw_account'', ru_audience = NonAuthors,
      ru_when = C_All [tweet_is_nsfw_flagged, C_Leaf (P_Compound TweetHasMedia),
      C_Leaf (P_User (P_Request (ClientVerifyBlurSupportIs Blur_Unsupported))),
      viewer_is_not_age_verified_in_age_verification_countries],
      ru_action = A_User (A_Tombstone TS_SensitiveViewerAgeVerification)\<rparr>"

definition nsfw_account_tombstone_update_app_ios :: post_rule where
  "nsfw_account_tombstone_update_app_ios =
     \<lparr>ru_id = RuleId ''nsfw_account'', ru_audience = NonAuthors,
      ru_when = C_All [tweet_is_nsfw_flagged, C_Leaf (P_Compound TweetHasMedia),
      C_Leaf (P_User (P_Request (ClientVerifyBlurSupportIs Blur_IosNeedsUpdate))),
      viewer_is_not_age_verified_in_age_verification_countries],
      ru_action = A_User (A_Tombstone TS_UpdateAppIos)\<rparr>"

definition nsfw_account_tombstone_update_app_android :: post_rule where
  "nsfw_account_tombstone_update_app_android =
     \<lparr>ru_id = RuleId ''nsfw_account'', ru_audience = NonAuthors,
      ru_when = C_All [tweet_is_nsfw_flagged, C_Leaf (P_Compound TweetHasMedia),
      C_Leaf (P_User (P_Request (ClientVerifyBlurSupportIs Blur_AndroidNeedsUpdate))),
      viewer_is_not_age_verified_in_age_verification_countries],
      ru_action = A_User (A_Tombstone TS_UpdateAppAndroid)\<rparr>"

definition nsfw_account_legacy_interstitial :: post_rule where
  "nsfw_account_legacy_interstitial =
     \<lparr>ru_id = RuleId ''nsfw_account'', ru_audience = Everyone,
      ru_when = C_All [tweet_is_nsfw_flagged, C_Leaf (P_Compound TweetHasMedia),
      C_Not (C_Leaf (P_User (P_ViewerAccount ViewerAllowsSensitiveMedia))),
      C_Not (C_Leaf (P_User (P_Request (ClientHas ModernBlur))))],
      ru_action = A_User legacy_nsfw_interstitial\<rparr>"

definition original_tweet_adult_media_propagation_blur_sensitive :: post_rule where
  "original_tweet_adult_media_propagation_blur_sensitive =
     \<lparr>ru_id = RuleId ''original_tweet_adult_media_propagation'', ru_audience = Everyone,
      ru_when = C_All [C_Leaf (P_ReactedToPostHasLabel L_NSFW_HIGH_PRECISION)],
      ru_action = A_User (blur (IR_Sensitive True))\<rparr>"

definition original_tweet_gore_media_propagation_blur_violence :: post_rule where
  "original_tweet_gore_media_propagation_blur_violence =
     \<lparr>ru_id = RuleId ''original_tweet_gore_media_propagation'', ru_audience = Everyone,
      ru_when = C_All [C_Leaf (P_ReactedToPostHasLabel L_GORE_AND_VIOLENCE_HIGH_PRECISION)],
      ru_action = A_User (blur (IR_Violence True))\<rparr>"

definition protected_original_author_drop :: post_rule where
  "protected_original_author_drop =
     \<lparr>ru_id = RuleId ''protected_original_author'', ru_audience = Everyone,
      ru_when = C_All [C_Leaf P_ReactedToAuthorIsProtected],
      ru_action = A_User (drop_post DA_AuthorIsProtected)\<rparr>"

definition dmca_media_drop_unspecified :: post_rule where
  "dmca_media_drop_unspecified =
     \<lparr>ru_id = RuleId ''dmca_media'', ru_audience = Everyone,
      ru_when = C_All [C_Leaf (P_Tweet TweetHasDmcaMedia)],
      ru_action = A_User (drop_post DA_UnspecifiedReason)\<rparr>"

definition geo_restricted_media_drop_unspecified :: post_rule where
  "geo_restricted_media_drop_unspecified =
     \<lparr>ru_id = RuleId ''geo_restricted_media'', ru_audience = NonAuthors,
      ru_when = C_All [C_Leaf (P_Tweet TweetMediaGeoRestrictedInRequestCountry)],
      ru_action = A_User (drop_post DA_UnspecifiedReason)\<rparr>"

definition nsfw_user_tweet_flag_drop_nsfw_media :: post_rule where
  "nsfw_user_tweet_flag_drop_nsfw_media =
     \<lparr>ru_id = RuleId ''nsfw_user_tweet_flag'', ru_audience = Everyone,
      ru_when = C_All [C_Leaf (P_Tweet TweetNsfwUserFlag)],
      ru_action = A_User (drop_post DA_ContainNsfwMedia)\<rparr>"

definition nsfw_admin_tweet_flag_drop_nsfw_media :: post_rule where
  "nsfw_admin_tweet_flag_drop_nsfw_media =
     \<lparr>ru_id = RuleId ''nsfw_admin_tweet_flag'', ru_audience = Everyone,
      ru_when = C_All [C_Leaf (P_Tweet TweetNsfwAdminFlag)],
      ru_action = A_User (drop_post DA_ContainNsfwMedia)\<rparr>"

definition nsfw_high_recall_drop_nsfw_media :: post_rule where
  "nsfw_high_recall_drop_nsfw_media =
     \<lparr>ru_id = RuleId ''nsfw_high_recall'', ru_audience = NonAuthors,
      ru_when = C_All [C_Leaf (P_TweetHasLabel L_NSFW_HIGH_RECALL)],
      ru_action = A_User (drop_post DA_ContainNsfwMedia)\<rparr>"

definition soft_nsfw_new_user_drop_unspecified :: post_rule where
  "soft_nsfw_new_user_drop_unspecified =
     \<lparr>ru_id = RuleId ''soft_nsfw_new_user'', ru_audience = NonAuthors,
      ru_when = C_All [C_Leaf (P_User (P_Request RequestHasSoftNsfwNewUserDrop)),
      C_Leaf (P_User (P_ViewerAccount ViewerIsNewAccount)), C_Leaf (P_TweetHasLabel L_SOFT_NSFW)],
      ru_action = A_User (drop_post DA_UnspecifiedReason)\<rparr>"

definition do_not_amplify_drop_undesirable :: post_rule where
  "do_not_amplify_drop_undesirable =
     \<lparr>ru_id = RuleId ''do_not_amplify'', ru_audience = NonAuthors,
      ru_when = C_All [C_Leaf (P_TweetHasLabel L_DO_NOT_AMPLIFY)],
      ru_action = A_User (drop_post DA_PossiblyUndesirable)\<rparr>"

definition malicious_url_drop_undesirable :: post_rule where
  "malicious_url_drop_undesirable =
     \<lparr>ru_id = RuleId ''malicious_url'', ru_audience = NonAuthors,
      ru_when = C_All [C_Leaf (P_TweetHasLabel L_MALICIOUS_URL)],
      ru_action = A_User (drop_post DA_PossiblyUndesirable)\<rparr>"

definition spam_high_recall_drop_undesirable :: post_rule where
  "spam_high_recall_drop_undesirable =
     \<lparr>ru_id = RuleId ''spam_high_recall'', ru_audience = NonAuthors,
      ru_when = C_All [C_Leaf (P_TweetHasLabel L_SPAM_HIGH_RECALL)],
      ru_action = A_User (drop_post DA_PossiblyUndesirable)\<rparr>"

definition brazil_election_legal_drop_undesirable :: post_rule where
  "brazil_election_legal_drop_undesirable =
     \<lparr>ru_id = RuleId ''brazil_election_legal'', ru_audience = NonAuthors,
      ru_when = C_All [C_Leaf (P_TweetHasLabel L_BRAZIL_ELECTION_LEGAL),
      C_Leaf (P_User (P_Request (RequestCountryIs ''br'')))],
      ru_action = A_User (drop_post DA_PossiblyUndesirable)\<rparr>"

definition low_quality_drop_unspecified :: post_rule where
  "low_quality_drop_unspecified =
     \<lparr>ru_id = RuleId ''low_quality'', ru_audience = NonAuthors,
      ru_when = C_All [C_Leaf (P_TweetHasLabel L_LOW_QUALITY),
      C_Not (C_Leaf (P_TweetCreatedAfter public_interest_labels_start))],
      ru_action = A_User (drop_post DA_UnspecifiedReason)\<rparr>"

definition duplicate_content_drop_unspecified :: post_rule where
  "duplicate_content_drop_unspecified =
     \<lparr>ru_id = RuleId ''duplicate_content'', ru_audience = NonAuthors,
      ru_when = C_All [C_Leaf (P_TweetHasLabel L_DUPLICATE_CONTENT)],
      ru_action = A_User (drop_post DA_UnspecifiedReason)\<rparr>"

definition smyte_spam_tweet_drop_unspecified :: post_rule where
  "smyte_spam_tweet_drop_unspecified =
     \<lparr>ru_id = RuleId ''smyte_spam_tweet'', ru_audience = NonAuthors,
      ru_when = C_All [C_Leaf (P_TweetHasLabel L_SMYTE_SPAM_TWEET)],
      ru_action = A_User (drop_post DA_UnspecifiedReason)\<rparr>"

definition duplicate_mention_uqf_drop_unspecified :: post_rule where
  "duplicate_mention_uqf_drop_unspecified =
     \<lparr>ru_id = RuleId ''duplicate_mention_uqf'', ru_audience = NonFollowers,
      ru_when = C_All [C_Leaf (P_TweetHasLabel L_DUPLICATE_MENTION),
      C_Leaf (P_User (P_ViewerAccount ViewerHasUqfEnabled))],
      ru_action = A_User (drop_post DA_UnspecifiedReason)\<rparr>"

definition abusive_uqf_drop_unspecified :: post_rule where
  "abusive_uqf_drop_unspecified =
     \<lparr>ru_id = RuleId ''abusive_uqf'', ru_audience = NonFollowers,
      ru_when = C_All [C_Leaf (P_TweetHasLabel L_ABUSIVE),
      C_Leaf (P_User (P_ViewerAccount ViewerHasUqfEnabled))],
      ru_action = A_User (drop_post DA_UnspecifiedReason)\<rparr>"

definition untrusted_url_uqf_drop_unspecified :: post_rule where
  "untrusted_url_uqf_drop_unspecified =
     \<lparr>ru_id = RuleId ''untrusted_url_uqf'', ru_audience = NonFollowers,
      ru_when = C_All [C_Leaf (P_TweetHasLabel L_UNTRUSTED_URL),
      C_Leaf (P_User (P_ViewerAccount ViewerHasUqfEnabled))],
      ru_action = A_User (drop_post DA_UnspecifiedReason)\<rparr>"

definition downrank_spam_reply_uqf_drop_unspecified :: post_rule where
  "downrank_spam_reply_uqf_drop_unspecified =
     \<lparr>ru_id = RuleId ''downrank_spam_reply_uqf'', ru_audience = NonFollowers,
      ru_when = C_All [C_Leaf (P_TweetHasLabel L_DOWNRANK_SPAM_REPLY),
      C_Leaf (P_User (P_ViewerAccount ViewerHasUqfEnabled))],
      ru_action = A_User (drop_post DA_UnspecifiedReason)\<rparr>"

definition risky_high_viz_reply_oon_drop_unspecified :: post_rule where
  "risky_high_viz_reply_oon_drop_unspecified =
     \<lparr>ru_id = RuleId ''risky_high_viz_reply_oon'', ru_audience = NonFollowers,
      ru_when = C_All [C_Leaf (P_TweetHasLabel L_RISKY_HIGH_VIZ_REPLY)],
      ru_action = A_User (drop_post DA_UnspecifiedReason)\<rparr>"

definition blocked_viewer_limited_engagement :: user_rule where
  "blocked_viewer_limited_engagement =
     \<lparr>ru_id = RuleId ''blocked_viewer'', ru_audience = NonAuthors,
      ru_when = C_All [C_Leaf (P_Relationship ViewerIsBlockedByAuthor)],
      ru_action = A_LimitedEngagement BlockedViewer\<rparr>"

definition blocked_viewer_limited_engagement_root_author_blocked_viewer :: post_rule where
  "blocked_viewer_limited_engagement_root_author_blocked_viewer =
     \<lparr>ru_id = RuleId ''blocked_viewer'', ru_audience = Everyone,
      ru_when = C_All [C_Leaf (P_Compound ViewerIsBlockedByConversationRootAuthor)],
      ru_action = A_User (A_LimitedEngagement RootAuthorBlockedViewer)\<rparr>"

definition limit_replies_by_invitation_limited_engagement_conversation_control :: post_rule where
  "limit_replies_by_invitation_limited_engagement_conversation_control =
     \<lparr>ru_id = RuleId ''limit_replies_by_invitation'', ru_audience = Everyone,
      ru_when = C_All [C_Leaf (P_ReplyControl (TweetHasConversationControl Arm_ByInvitation)),
      C_Not (C_Leaf (P_User (P_Request ViewerLoggedOut))), C_Not (C_Leaf P_TweetIsRetweet),
      viewer_is_neither_root_author_nor_invited],
      ru_action = A_User (A_LimitedEngagement ConversationControl)\<rparr>"

definition limit_replies_community_limited_engagement_conversation_control :: post_rule where
  "limit_replies_community_limited_engagement_conversation_control =
     \<lparr>ru_id = RuleId ''limit_replies_community'', ru_audience = Everyone,
      ru_when = C_All [C_Leaf (P_ReplyControl (TweetHasConversationControl Arm_Community)),
      C_Not (C_Leaf (P_User (P_Request ViewerLoggedOut))), C_Not (C_Leaf P_TweetIsRetweet),
      viewer_is_neither_root_author_nor_invited,
      C_Not (C_Leaf (P_Edge ViewerIsFollowedByConversationRootAuthor))],
      ru_action = A_User (A_LimitedEngagement ConversationControl)\<rparr>"

definition limit_replies_followers_limited_engagement_conversation_control :: post_rule where
  "limit_replies_followers_limited_engagement_conversation_control =
     \<lparr>ru_id = RuleId ''limit_replies_followers'', ru_audience = Everyone,
      ru_when = C_All [C_Leaf (P_ReplyControl (TweetHasConversationControl Arm_Followers)),
      C_Not (C_Leaf (P_User (P_Request ViewerLoggedOut))), C_Not (C_Leaf P_TweetIsRetweet),
      viewer_is_neither_root_author_nor_invited, C_Not (C_Leaf (P_Edge ViewerFollowsConversationRootAuthor))],
      ru_action = A_User (A_LimitedEngagement ConversationControl)\<rparr>"

definition limit_replies_subscribers_limited_engagement_conversation_control :: post_rule where
  "limit_replies_subscribers_limited_engagement_conversation_control =
     \<lparr>ru_id = RuleId ''limit_replies_subscribers'', ru_audience = Everyone,
      ru_when = C_All [C_Leaf (P_ReplyControl (TweetHasConversationControl Arm_Subscribers)),
      C_Not (C_Leaf (P_User (P_Request ViewerLoggedOut))), C_Not (C_Leaf P_TweetIsRetweet),
      viewer_is_neither_root_author_nor_invited,
      C_Not (C_Leaf (P_Edge ViewerSuperFollowsConversationRootAuthor))],
      ru_action = A_User (A_LimitedEngagement ConversationControl)\<rparr>"

definition limit_replies_verified_limited_engagement_conversation_control :: post_rule where
  "limit_replies_verified_limited_engagement_conversation_control =
     \<lparr>ru_id = RuleId ''limit_replies_verified'', ru_audience = Everyone,
      ru_when = C_All [C_Leaf (P_ReplyControl (TweetHasConversationControl Arm_Verified)),
      C_Not (C_Leaf (P_User (P_Request ViewerLoggedOut))), C_Not (C_Leaf P_TweetIsRetweet),
      viewer_is_neither_root_author_nor_invited,
      C_Not (C_Leaf (P_User (P_ViewerAccount ViewerHasVerifiedBadge)))],
      ru_action = A_User (A_LimitedEngagement ConversationControl)\<rparr>"

definition limit_replies_my_network_limited_engagement_conversation_control :: post_rule where
  "limit_replies_my_network_limited_engagement_conversation_control =
     \<lparr>ru_id = RuleId ''limit_replies_my_network'', ru_audience = Everyone,
      ru_when = C_All [C_Leaf (P_ReplyControl (TweetHasConversationControl Arm_MyNetwork)),
      C_Not (C_Leaf (P_User (P_Request ViewerLoggedOut))), C_Not (C_Leaf P_TweetIsRetweet),
      viewer_is_neither_root_author_nor_invited,
      C_Not (C_Leaf (P_Compound ViewerIsInConversationRootAuthorNetwork))],
      ru_action = A_User (A_LimitedEngagement ConversationControl)\<rparr>"

definition limit_replies_co_limited_engagement_conversation_control :: post_rule where
  "limit_replies_co_limited_engagement_conversation_control =
     \<lparr>ru_id = RuleId ''limit_replies_co'', ru_audience = Everyone,
      ru_when = C_All [C_Leaf (P_ReplyControl (TweetHasConversationControl Arm_Co)),
      C_Not (C_Leaf (P_User (P_Request ViewerLoggedOut))), C_Not (C_Leaf P_TweetIsRetweet),
      viewer_is_neither_root_author_nor_invited, C_Not (C_Leaf (P_Compound ViewerIsInAllowedCountry))],
      ru_action = A_User (A_LimitedEngagement ConversationControl)\<rparr>"

definition community_tweet_viewer_removed_limited_engagement :: post_rule where
  "community_tweet_viewer_removed_limited_engagement =
     \<lparr>ru_id = RuleId ''community_tweet_viewer_removed'', ru_audience = Everyone,
      ru_when = C_All [C_Leaf (P_Tweet TweetIsCommunityTweet), C_Leaf P_ViewerIsRemovedFromCommunity,
      C_Leaf (P_User (P_Request (ClientHas CommunityViewerRemovedLimits)))],
      ru_action = A_User (A_LimitedEngagement CommunityTweetViewerRemoved)\<rparr>"

definition dynamic_product_ad_limited_engagement :: post_rule where
  "dynamic_product_ad_limited_engagement =
     \<lparr>ru_id = RuleId ''dynamic_product_ad'', ru_audience = Everyone,
      ru_when = C_All [C_Leaf (P_TweetHasLabel L_DYNAMIC_PRODUCT_AD)],
      ru_action = A_User (A_LimitedEngagement DynamicProductAd)\<rparr>"

definition local_tweet_limited_engagement :: post_rule where
  "local_tweet_limited_engagement =
     \<lparr>ru_id = RuleId ''local_tweet'', ru_audience = Everyone,
      ru_when = C_All [C_Leaf (P_Tweet TweetHasNarrowcastPlace),
      C_Not (C_Leaf (P_User (P_Request ViewerLoggedOut))), viewer_is_neither_root_author_nor_invited,
      C_Leaf (P_Edge ViewerIsOutsideNarrowcastPlace)],
      ru_action = A_User (A_LimitedEngagement LocalTweet)\<rparr>"

definition read_only_viewer_limited_engagement :: post_rule where
  "read_only_viewer_limited_engagement =
     \<lparr>ru_id = RuleId ''read_only_viewer'', ru_audience = Everyone,
      ru_when = C_All [C_Leaf (P_User (P_ViewerAccount ViewerReadOnly))],
      ru_action = A_User (A_LimitedEngagement ReadonlyViewer)\<rparr>"

section \<open>Families\<close>

definition author_state_drops :: "user_rule list" where
  "author_state_drops =
     [suspended_author_drop, deactivated_author_drop, erased_author_drop_inactive,
     offboarded_author_drop_inactive, protected_author_drop]"

definition viewer_blocks_or_mutes_author_drops :: "user_rule list" where
  "viewer_blocks_or_mutes_author_drops =
     [viewer_blocks_author_drop, viewer_mutes_author_drop]"

definition oon_author_label_drops :: "user_rule list" where
  "oon_author_label_drops =
     [spam_high_recall_user_label_drop_unspecified, compromised_user_label_drop_unspecified,
     read_only_user_label_drop_unspecified, impersonation_high_precision_user_label_drop_unspecified,
     abusive_high_recall_user_label_drop_unspecified, do_not_amplify_user_label_drop_unspecified]"

definition notification_viewer_drops :: "user_rule list" where
  "notification_viewer_drops =
     [deactivated_viewer_drop_unspecified, suspended_viewer_drop_unspecified, viewer_blocks_author_drop,
     viewer_mutes_and_does_not_follow_author_drop_viewer_mutes_author]"

definition advanced_filter_drops :: "user_rule list" where
  "advanced_filter_drops =
     [no_confirmed_email_drop_unspecified, no_confirmed_phone_drop_unspecified,
     no_default_profile_image_drop_unspecified, no_new_users_drop_unspecified,
     no_not_followed_by_drop_unspecified]"

definition notification_author_label_drops :: "user_rule list" where
  "notification_author_label_drops =
     [read_only_user_label_drop_unspecified, compromised_user_label_drop_unspecified,
     spam_high_recall_user_label_drop_unspecified, impersonation_high_precision_user_label_drop_unspecified,
     abusive_high_recall_user_label_drop_unspecified, not_graduated_user_label_drop_unspecified,
     agatha_spam_top_user_user_label_drop_unspecified, engagement_spammer_user_label_drop_unspecified,
     blink_worst_user_label_drop_unspecified, downrank_spam_reply_user_label_drop_unspecified]"

definition fosnr_drops :: "post_rule list" where
  "fosnr_drops =
     [fosnr_hateful_conduct_drop_undesirable, fosnr_violent_speech_drop_undesirable,
     fosnr_abuse_drop_undesirable, fosnr_civic_integrity_drop_undesirable]"

definition takedown_drops :: "post_rule list" where
  "takedown_drops =
     [legal_takedown_drop_unspecified, local_laws_takedown_drop_unspecified]"

definition age_gating_drops :: "post_rule list" where
  "age_gating_drops =
     [sensitive_viewer_logged_out_drop_media_label, sensitive_viewer_logged_out_drop_nsfw_flag,
     sensitive_viewer_logged_out_drop_text_or_card_label, sensitive_viewer_underage_drop_media_label,
     sensitive_viewer_underage_drop_nsfw_flag, sensitive_viewer_underage_drop_text_or_card_label,
     sensitive_viewer_no_stated_age_drop_media_label, sensitive_viewer_no_stated_age_drop_nsfw_flag,
     sensitive_viewer_no_stated_age_drop_text_or_card_label]"

definition exclusive_content_drops :: "post_rule list" where
  "exclusive_content_drops =
     [exclusive_tweet_drop_logged_out, exclusive_tweet_drop_retweet, exclusive_tweet_drop_non_super_follower,
     trusted_friends_tweet_drop_unspecified]"

definition home_blurs :: "post_rule list" where
  "home_blurs =
     [nsfw_high_precision_blur_nudity, nsfw_high_precision_blur_sensitive, gore_and_violence_high_precision_blur,
     nsfw_card_image_blur_sensitive, nsfw_admin_blur_sensitive, nsfw_user_blur_sensitive_user]"

definition media_takedown_drops :: "post_rule list" where
  "media_takedown_drops =
     [dmca_media_drop_unspecified, geo_restricted_media_drop_unspecified]"

definition oon_post_drops :: "post_rule list" where
  "oon_post_drops =
     [do_not_amplify_drop_undesirable, malicious_url_drop_undesirable, spam_high_recall_drop_undesirable,
     brazil_election_legal_drop_undesirable]"

definition reacted_to_rules :: "post_rule list" where
  "reacted_to_rules =
     [protected_original_author_drop, original_tweet_adult_media_propagation_blur_sensitive,
     original_tweet_gore_media_propagation_blur_violence]"

section \<open>Levels\<close>

record post_rules =
  pl_user :: "user_rule list list"
  pl_post :: "post_rule list list"

datatype level_rules = UserOnly "user_rule list list" | UserThenPost post_rules

fun level_lists :: "level_rules \<Rightarrow> user_rule list \<times> post_rule list" where
  "level_lists (UserOnly user) = (concat user, [])"
| "level_lists (UserThenPost rules) = (concat (pl_user rules), concat (pl_post rules))"

text \<open>
  The rules of an expansion that withhold go after the rules of the level, the others before them;
  within a severity the earlier rule wins.
\<close>

definition expansion_placed :: "post_rule list \<Rightarrow> post_rule list list \<Rightarrow> post_rule list" where
  "expansion_placed rules parent =
     filter (\<lambda>r. \<not> kind_withholds (post_action_kind (ru_action r))) rules @ concat parent @
     filter (\<lambda>r. kind_withholds (post_action_kind (ru_action r))) rules"

definition timeline_home_hydration_own :: "post_rule list list" where
  "timeline_home_hydration_own =
     [fosnr_drops,
      [fosnr_abuse_insults_non_follower_drop_undesirable, fosnr_abuse_insults_follower_soft_intervention_abuse,
      fosnr_author_appealable, fosnr_fallback_drop_undesirable, creator_tweet_nsfw_drop_nsfw_media,
      protected_community_tweet_drop_unspecified, hidden_community_tweet_drop_unspecified,
      author_removed_community_tweet_drop_unspecified, spam_drop_undesirable, pdna_drop_safety_result,
      bounce_drop_bounced, bounce_quoted_tombstone_bounced, public_interest_label_interstitial,
      for_emergency_use_only_label_interstitial],
      exclusive_content_drops,
      takedown_drops,
      [article_tweet_content_drop_unspecified, author_blocks_viewer_exclusive_content_drop_unspecified],
      age_gating_drops,
      [nsfw_high_precision_blur_sensitive_age_prompt, nsfw_high_precision_blur_sensitive_all_users,
      nsfw_high_precision_blur_nudity_age_prompt, nsfw_high_precision_blur_nudity_all_users,
      nsfw_high_precision_tombstone_local_regulations, nsfw_high_precision_legacy_interstitial,
      nsfw_high_precision_tombstone_age_verification, nsfw_high_precision_tombstone_update_app_ios,
      nsfw_high_precision_tombstone_update_app_android, nsfw_admin_blur_sensitive_age_prompt,
      nsfw_admin_blur_sensitive_all_users, nsfw_user_blur_sensitive_user_age_prompt,
      nsfw_user_blur_sensitive_user_all_users, nsfw_account_legacy_interstitial,
      nsfw_account_tombstone_age_verification, nsfw_account_tombstone_update_app_ios,
      nsfw_account_tombstone_update_app_android, gore_and_violence_high_precision_blur_all_users,
      gore_and_violence_ignoring_settings_blur, gore_and_violence_high_precision_legacy_interstitial,
      nsfw_card_image_blur_sensitive_age_prompt, nsfw_card_image_blur_sensitive_all_users,
      nsfw_card_image_legacy_interstitial, nsfw_card_image_tombstone_age_verification,
      nsfw_card_image_tombstone_update_app_ios, nsfw_card_image_tombstone_update_app_android,
      gore_and_violence_high_precision_blur_age_prompt,
      gore_and_violence_high_precision_tombstone_update_app_ios,
      gore_and_violence_high_precision_tombstone_update_app_android,
      blocked_viewer_limited_engagement_root_author_blocked_viewer, stale_tweet_limited_engagement,
      limit_replies_by_invitation_limited_engagement_conversation_control,
      limit_replies_community_limited_engagement_conversation_control,
      limit_replies_followers_limited_engagement_conversation_control,
      limit_replies_subscribers_limited_engagement_conversation_control,
      limit_replies_verified_limited_engagement_conversation_control,
      limit_replies_my_network_limited_engagement_conversation_control,
      limit_replies_co_limited_engagement_conversation_control,
      community_tweet_viewer_removed_limited_engagement, dynamic_product_ad_limited_engagement,
      local_tweet_limited_engagement, read_only_viewer_limited_engagement]]"

definition timeline_home_hydration_post :: "post_rule list" where
  "timeline_home_hydration_post = expansion_placed reacted_to_rules timeline_home_hydration_own"

definition level_quoted_tweet_rules :: "user_rule list list" where
  "level_quoted_tweet_rules =
     [[deactivated_author_drop, erased_author_drop_inactive, offboarded_author_drop_inactive,
      suspended_author_drop, quoted_author_blocks_quoting_author_drop_author_block_viewer,
      viewer_blocks_author_drop, quoted_viewer_mutes_author_not_following_drop, protected_quoted_author_drop]]"

definition level_notifications_writer_v2 :: "user_rule list list" where
  "level_notifications_writer_v2 =
     [[deactivated_author_drop, erased_author_drop_inactive, protected_author_drop, suspended_author_drop],
      notification_viewer_drops,
      advanced_filter_drops,
      [only_people_i_follow_drop_unspecified],
      notification_author_label_drops]"

definition level_notifications_writer_v2_mention :: post_rules where
  "level_notifications_writer_v2_mention =
     \<lparr>pl_user =
        [[deactivated_author_drop, erased_author_drop_inactive, protected_author_drop, suspended_author_drop],
         notification_viewer_drops,
         advanced_filter_drops,
         notification_author_label_drops],
      pl_post =
        [[only_people_i_follow_outside_community_drop_unspecified, stale_tweet_drop_unspecified,
         protected_community_tweet_drop_unspecified, hidden_community_tweet_drop_unspecified,
         author_removed_community_tweet_drop_unspecified, spam_drop_undesirable, pdna_drop_safety_result,
         bounce_drop_bounced],
         exclusive_content_drops,
         takedown_drops,
         [article_tweet_content_drop_unspecified, author_blocks_viewer_exclusive_content_drop_unspecified],
         age_gating_drops,
         [low_quality_drop_unspecified, spam_high_recall_drop_undesirable, duplicate_content_drop_unspecified,
         duplicate_mention_uqf_drop_unspecified, smyte_spam_tweet_drop_unspecified, abusive_uqf_drop_unspecified,
         untrusted_url_uqf_drop_unspecified, downrank_spam_reply_uqf_drop_unspecified,
         risky_high_viz_reply_oon_drop_unspecified]]\<rparr>"

definition level_notifications_writer_v2_reply :: post_rules where
  "level_notifications_writer_v2_reply =
     \<lparr>pl_user =
        [[deactivated_author_drop, erased_author_drop_inactive, protected_author_drop, suspended_author_drop],
         notification_viewer_drops,
         advanced_filter_drops,
         notification_author_label_drops],
      pl_post =
        [[only_people_i_follow_outside_community_drop_unspecified, stale_tweet_drop_unspecified,
         protected_community_tweet_drop_unspecified, hidden_community_tweet_drop_unspecified,
         author_removed_community_tweet_drop_unspecified, spam_drop_undesirable, pdna_drop_safety_result,
         bounce_drop_bounced],
         exclusive_content_drops,
         takedown_drops,
         [article_tweet_content_drop_unspecified, author_blocks_viewer_exclusive_content_drop_unspecified],
         age_gating_drops,
         [low_quality_drop_unspecified, spam_high_recall_drop_undesirable, duplicate_content_drop_unspecified,
         duplicate_mention_uqf_drop_unspecified, smyte_spam_tweet_drop_unspecified, abusive_uqf_drop_unspecified,
         untrusted_url_uqf_drop_unspecified, downrank_spam_reply_uqf_drop_unspecified,
         risky_high_viz_reply_oon_drop_unspecified]]\<rparr>"

definition level_notifications_writer_v2_media_tagged :: post_rules where
  "level_notifications_writer_v2_media_tagged =
     \<lparr>pl_user =
        [[deactivated_author_drop, erased_author_drop_inactive, protected_author_drop, suspended_author_drop],
         notification_viewer_drops,
         advanced_filter_drops,
         notification_author_label_drops],
      pl_post =
        [[only_people_i_follow_outside_community_drop_unspecified]]\<rparr>"

definition level_notifications_follow :: "user_rule list list" where
  "level_notifications_follow =
     [[deactivated_author_drop, erased_author_drop_inactive, suspended_author_drop],
      notification_viewer_drops,
      advanced_filter_drops,
      [only_people_i_follow_drop_unspecified],
      notification_author_label_drops]"

definition level_filter_all :: post_rules where
  "level_filter_all =
     \<lparr>pl_user =
        [],
      pl_post =
        [[filter_all_drop_unspecified]]\<rparr>"

definition level_timeline_home :: post_rules where
  "level_timeline_home =
     \<lparr>pl_user =
        [author_state_drops,
         viewer_blocks_or_mutes_author_drops],
      pl_post =
        [[viewer_mutes_retweets_drop_unspecified, pdna_drop_safety_result, bounce_drop_bounced,
         spam_drop_undesirable, for_emergency_use_only_drop_unspecified],
         fosnr_drops,
         [nullcasted_tweet_drop, stale_tweet_drop_unspecified],
         takedown_drops,
         age_gating_drops,
         exclusive_content_drops,
         [geo_restricted_media_drop_unspecified],
         home_blurs]\<rparr>"

definition level_timeline_home_recommendations :: post_rules where
  "level_timeline_home_recommendations =
     \<lparr>pl_user =
        [author_state_drops,
         viewer_blocks_or_mutes_author_drops,
         [nsfw_user_author_drop_nsfw_media, nsfw_admin_author_drop_nsfw_media,
         nsfw_high_recall_user_label_drop_unspecified, nsfw_high_precision_user_label_drop_unspecified,
         nsfw_avatar_image_user_label_drop_unspecified, nsfw_banner_image_user_label_drop_unspecified,
         nsfw_near_perfect_user_label_drop_unspecified],
         oon_author_label_drops],
      pl_post =
        [[viewer_mutes_retweets_drop_unspecified, pdna_drop_safety_result, bounce_drop_bounced,
         spam_drop_undesirable, for_emergency_use_only_drop_unspecified],
         fosnr_drops,
         [nullcasted_tweet_drop, stale_tweet_drop_unspecified],
         takedown_drops,
         age_gating_drops,
         exclusive_content_drops,
         [geo_restricted_media_drop_unspecified],
         home_blurs,
         [dmca_media_drop_unspecified],
         [nsfw_user_tweet_flag_drop_nsfw_media, nsfw_admin_tweet_flag_drop_nsfw_media,
         gore_and_violence_high_precision_drop_nsfw_media, nsfw_high_recall_drop_nsfw_media,
         nsfw_high_precision_drop_nsfw_media, nsfw_card_image_drop_nsfw_media,
         soft_nsfw_new_user_drop_unspecified],
         oon_post_drops,
         [fosnr_abuse_insults_drop_undesirable]]\<rparr>"

definition level_timeline_home_hydration :: post_rules where
  "level_timeline_home_hydration =
     \<lparr>pl_user =
        [[erased_author_drop_inactive, deactivated_author_drop, suspended_author_drop,
         offboarded_author_drop_inactive, protected_author_drop, blocked_viewer_limited_engagement]],
      pl_post =
        [timeline_home_hydration_post]\<rparr>"

definition level_timeline_home_promoted_hydration :: post_rules where
  "level_timeline_home_promoted_hydration =
     \<lparr>pl_user =
        [[blocked_viewer_limited_engagement]],
      pl_post =
        timeline_home_hydration_own\<rparr>"

definition level_immersive_expanded_recommendations :: post_rules where
  "level_immersive_expanded_recommendations =
     \<lparr>pl_user =
        [author_state_drops,
         viewer_blocks_or_mutes_author_drops,
         oon_author_label_drops,
         [nsfw_sensitive_viewer_user_drop_nsfw_media]],
      pl_post =
        [[viewer_mutes_retweets_drop_unspecified, pdna_drop_safety_result, bounce_drop_bounced,
         spam_drop_undesirable, for_emergency_use_only_drop_unspecified],
         fosnr_drops,
         [stale_tweet_drop_unspecified],
         takedown_drops,
         age_gating_drops,
         exclusive_content_drops,
         media_takedown_drops,
         [gore_and_violence_high_precision_drop_nsfw_media],
         oon_post_drops,
         [nsfw_sensitive_viewer_tweet_drop_nsfw_media]]\<rparr>"

datatype vf_safety_level =
    FilterAll | TimelineHome | TimelineHomeRecommendations | TimelineHomeHydration
  | TimelineHomePromotedHydration | ImmersiveExpandedRecommendations | QuotedTweetRules
  | NotificationsFollow | NotificationsWriterV2

definition safety_level_variants :: "vf_safety_level list" where
  "safety_level_variants =
     [FilterAll, TimelineHome, TimelineHomeRecommendations, TimelineHomeHydration, TimelineHomePromotedHydration,
      ImmersiveExpandedRecommendations, QuotedTweetRules, NotificationsFollow, NotificationsWriterV2]"

fun safety_level_rules :: "vf_safety_level \<Rightarrow> level_rules" where
  "safety_level_rules FilterAll = UserThenPost level_filter_all"
| "safety_level_rules TimelineHome = UserThenPost level_timeline_home"
| "safety_level_rules TimelineHomeRecommendations = UserThenPost level_timeline_home_recommendations"
| "safety_level_rules TimelineHomeHydration = UserThenPost level_timeline_home_hydration"
| "safety_level_rules TimelineHomePromotedHydration = UserThenPost level_timeline_home_promoted_hydration"
| "safety_level_rules ImmersiveExpandedRecommendations = UserThenPost level_immersive_expanded_recommendations"
| "safety_level_rules QuotedTweetRules = UserOnly level_quoted_tweet_rules"
| "safety_level_rules NotificationsFollow = UserOnly level_notifications_follow"
| "safety_level_rules NotificationsWriterV2 = UserOnly level_notifications_writer_v2"

datatype notification_kind =
    NK_Follow | NK_FollowRequestAccepted | NK_Mention | NK_Reply | NK_MediaTagged | NK_Like | NK_Repost

datatype judged = Judged_Actor | Judged_ActorOnRecipientPost | Judged_ActorPost post_rules

fun notification_judged :: "notification_kind \<Rightarrow> judged" where
  "notification_judged NK_Follow = Judged_Actor"
| "notification_judged NK_FollowRequestAccepted = Judged_Actor"
| "notification_judged NK_Like = Judged_ActorOnRecipientPost"
| "notification_judged NK_Repost = Judged_ActorOnRecipientPost"
| "notification_judged NK_Mention = Judged_ActorPost level_notifications_writer_v2_mention"
| "notification_judged NK_Reply = Judged_ActorPost level_notifications_writer_v2_reply"
| "notification_judged NK_MediaTagged = Judged_ActorPost level_notifications_writer_v2_media_tagged"

end
