(* ===== verification/Vf_Engine.thy ===== *)
theory Vf_Engine
  imports Vf_Catalog
begin

text \<open>
  The rule engine of the visibility service (\<open>rules/engine.rs\<close>): the construction of a policy,
  with the checks that stop the service at startup, the policy of a level (user rules, then post
  rules), the judgement of a hydrated post under it, plain and traced, and what that judgement
  promises. The hydration of a candidate is an input; \<open>author_row\<close> is the one step of it that the
  engine asks for.
\<close>

section \<open>Policies\<close>

datatype vf_panic = InvalidRules string | WiredTwice string | WiredInBoth string

record ('p, 'a) vf_policy =
  po_rules :: "(string \<times> ('p, 'a) vf_rule) list"
  po_hydrators :: hydrators

fun conflicting_name :: "(string \<times> 'p rule_cond) list \<Rightarrow> (string \<times> 'p rule_cond) list \<Rightarrow> string option" where
  "conflicting_name seen [] = None"
| "conflicting_name seen ((n, c) # ds) =
     (if list_ex (\<lambda>(m, e). m = n \<and> e \<noteq> c) seen then Some n else conflicting_name (seen @ [(n, c)]) ds)"

definition rules_definitions :: "('p, 'a) vf_engine \<Rightarrow> ('p, 'a) vf_rule list \<Rightarrow> (string \<times> 'p rule_cond) list" where
  "rules_definitions en rules =
     concat (map (\<lambda>r. cond_definitions (audience_condition en (ru_audience r)) @ cond_definitions (ru_when r)) rules)"

definition validate_rules :: "('p, 'a) vf_engine \<Rightarrow> ('p, 'a) vf_rule list \<Rightarrow> string option" where
  "validate_rules en rules = conflicting_name [] (rules_definitions en rules)"

fun wired_twice :: "string list \<Rightarrow> 'r list \<Rightarrow> (string \<times> 'r) list \<Rightarrow> string option" where
  "wired_twice runs run [] = None"
| "wired_twice runs run ((name, r) # rest) =
     (let same = (runs \<noteq> [] \<and> List.last runs = name)
      in if \<not> same \<and> name \<in> set runs then Some name
         else let runs = (if same then runs else runs @ [name]); run = (if same then run else [])
              in if r \<in> set run then Some name else wired_twice runs (run @ [r]) rest)"

definition by_severity :: "('p, 'a) vf_engine \<Rightarrow> (string \<times> ('p, 'a) vf_rule) list \<Rightarrow> (string \<times> ('p, 'a) vf_rule) list" where
  "by_severity en rules = sort_key (\<lambda>(_, r). - int (severity (en_kind en (ru_action r)))) rules"

definition policy_new ::
  "('p, 'a) vf_engine \<Rightarrow> (string \<times> ('p, 'a) vf_rule) list \<Rightarrow> vf_panic + ('p, 'a) vf_policy" where
  "policy_new en rules =
     (case validate_rules en (map snd rules) of
        Some n \<Rightarrow> Inl (InvalidRules n)
      | None \<Rightarrow>
          (let rules = by_severity en rules
           in case wired_twice [] [] rules of
                Some n \<Rightarrow> Inl (WiredTwice n)
              | None \<Rightarrow>
                  Inr \<lparr>po_rules = rules,
                       po_hydrators = fold (\<lambda>(_, r) hs. hyd_union hs (rule_requirements en r)) rules hyd_empty\<rparr>))"

definition policy_reads :: "('p, 'a) vf_engine \<Rightarrow> ('p, 'a) vf_policy \<Rightarrow> predicate \<Rightarrow> bool" where
  "policy_reads en pol leaf \<longleftrightarrow> leaf \<in> set (concat (map (\<lambda>(_, r). rule_leaves en r) (po_rules pol)))"

record post_policy =
  pp_user :: "(user_predicate, user_action) vf_policy"
  pp_post :: "(predicate, post_action) vf_policy"
  pp_hydrators :: hydrators

definition validate_across :: "user_rule list \<Rightarrow> post_rule list \<Rightarrow> string option" where
  "validate_across user post =
     (case validate_rules post_engine post of
        Some n \<Rightarrow> Some n
      | None \<Rightarrow>
          (case validate_rules user_engine user of
             Some n \<Rightarrow> Some n
           | None \<Rightarrow>
               map_option fst
                 (List.find (\<lambda>(n, c). list_ex (\<lambda>(m, e). m = n \<and> map_rule_cond P_User c \<noteq> e)
                                       (rules_definitions post_engine post))
                   (rules_definitions user_engine user))))"

definition post_policy_new ::
  "(string \<times> user_rule) list \<Rightarrow> (string \<times> post_rule) list \<Rightarrow> vf_panic + post_policy" where
  "post_policy_new user post =
     (case List.find (\<lambda>(n, _). list_ex (\<lambda>(m, _). m = n) post) user of
        Some (n, _) \<Rightarrow> Inl (WiredInBoth n)
      | None \<Rightarrow>
          (case validate_across (map snd user) (map snd post) of
             Some n \<Rightarrow> Inl (InvalidRules n)
           | None \<Rightarrow>
               (case policy_new user_engine user of
                  Inl e \<Rightarrow> Inl e
                | Inr u \<Rightarrow>
                    (case policy_new post_engine post of
                       Inl e \<Rightarrow> Inl e
                     | Inr p \<Rightarrow>
                         Inr \<lparr>pp_user = u, pp_post = p, pp_hydrators = hyd_union (po_hydrators u) (po_hydrators p)\<rparr>))))"

text \<open>
  The policy of a level. A rule is wired under the name its identity and action derive; the table
  of names the engine keeps returns that name for every use of the same identity and action.
\<close>

definition named_rules ::
  "(appealable_policy \<Rightarrow> int) \<Rightarrow> ('a \<Rightarrow> post_action) \<Rightarrow> ('p, 'a) vf_rule list \<Rightarrow> (string \<times> ('p, 'a) vf_rule) list" where
  "named_rules number lift rules = map (\<lambda>r. (rule_name number (ru_id r) (lift (ru_action r)), r)) rules"

definition lists_policy ::
  "(appealable_policy \<Rightarrow> int) \<Rightarrow> user_rule list \<times> post_rule list \<Rightarrow> vf_panic + post_policy" where
  "lists_policy number rules = post_policy_new (named_rules number A_User (fst rules)) (named_rules number id (snd rules))"

definition level_policy :: "(appealable_policy \<Rightarrow> int) \<Rightarrow> vf_safety_level \<Rightarrow> vf_panic + post_policy" where
  "level_policy number level = lists_policy number (level_lists (safety_level_rules level))"

section \<open>Judging a post\<close>

text \<open>The row of a post's author, with what the quote that shows the post adds to it.\<close>

definition author_row :: "post_row \<Rightarrow> vf_placement \<Rightarrow> vf_quote option \<times> hydrators \<Rightarrow> hydrators \<Rightarrow> user_row" where
  "author_row c placement quoted reads =
     (let quoted = (case placement of InnerQuoted _ \<Rightarrow> quoted | _ \<Rightarrow> (None, hyd_empty))
      in \<lparr>ur_user = pr_author c, ur_edges = pr_edges c, ur_quote = fst quoted,
          ur_failed = hyd_union (hyd_intersection (pr_failed c) reads) (snd quoted)\<rparr>)"

definition fold_user :: "post_policy \<Rightarrow> viewer_features \<Rightarrow> vf_placement \<Rightarrow> country_lists \<Rightarrow> user_row \<Rightarrow> folded" where
  "fold_user pol viewer placement codes u =
     fold_from user_engine (user_context viewer placement codes u) (po_rules (pp_user pol)) 0 folded_default"

definition fold_gate ::
  "post_policy \<Rightarrow> viewer_features \<Rightarrow> vf_placement \<Rightarrow> country_lists \<Rightarrow> folded \<Rightarrow> post_row \<Rightarrow> folded" where
  "fold_gate pol viewer placement codes user c =
     (if snd user \<noteq> None then user
      else fold_from post_engine (post_context viewer placement codes c) (po_rules (pp_post pol))
             (length (po_rules (pp_user pol))) user)"

definition fold_post ::
  "post_policy \<Rightarrow> viewer_features \<Rightarrow> vf_placement \<Rightarrow> country_lists \<Rightarrow> vf_quote option \<times> hydrators \<Rightarrow> post_row \<Rightarrow> folded" where
  "fold_post pol viewer placement codes quoted c =
     fold_gate pol viewer placement codes
       (fold_user pol viewer placement codes (author_row c placement quoted (po_hydrators (pp_user pol)))) c"

definition evaluate_post ::
  "post_policy \<Rightarrow> viewer_features \<Rightarrow> vf_placement \<Rightarrow> country_lists \<Rightarrow> vf_quote option \<times> hydrators \<Rightarrow> post_row \<Rightarrow> evaluation" where
  "evaluate_post pol viewer placement codes quoted c =
     fold_finish (fold_post pol viewer placement codes quoted c) (pr_failed c)"

definition evaluate_user ::
  "post_policy \<Rightarrow> viewer_features \<Rightarrow> vf_placement \<Rightarrow> country_lists \<Rightarrow> user_row \<Rightarrow> evaluation" where
  "evaluate_user pol viewer placement codes u =
     fold_finish (fold_user pol viewer placement codes u) (ur_failed u)"

record policy_trace =
  tr_evaluation :: evaluation
  tr_nodes :: "node_trace list"
  tr_rows :: "row_trace list"

definition trace_post ::
  "post_policy \<Rightarrow> viewer_features \<Rightarrow> vf_placement \<Rightarrow> country_lists \<Rightarrow> vf_quote option \<times> hydrators \<Rightarrow> post_row \<Rightarrow> policy_trace" where
  "trace_post pol viewer placement codes quoted c =
     (let u = author_row c placement quoted (po_hydrators (pp_user pol));
          (user, tot) = trace_from user_engine (user_context viewer placement codes u) (po_rules (pp_user pol)) 0
                          folded_default ([], []);
          (folded, tot) = trace_from post_engine (post_context viewer placement codes c) (po_rules (pp_post pol))
                            (length (po_rules (pp_user pol))) user tot
      in \<lparr>tr_evaluation = fold_finish folded (pr_failed c), tr_nodes = fst tot,
          tr_rows = map snd (total_retained (relied_defaults folded) (snd tot))\<rparr>)"

section \<open>Construction\<close>

lemma policy_new_rules:
  assumes "policy_new en rules = Inr pol"
  shows "po_rules pol = by_severity en rules"
  using assms by (auto simp: policy_new_def Let_def split: option.splits)

lemma set_by_severity [simp]: "set (by_severity en rules) = set rules"
  by (simp add: by_severity_def)

lemma by_severity_sorted:
  "sorted_wrt (\<lambda>(_, r) (_, s). severity (en_kind en (ru_action s)) \<le> severity (en_kind en (ru_action r))) (by_severity en rules)"
proof -
  have "sorted (map (\<lambda>(_, r). - int (severity (en_kind en (ru_action r)))) (by_severity en rules))"
    by (simp add: by_severity_def)
  then show ?thesis by (simp add: sorted_map case_prod_unfold)
qed

lemma lists_policy_rules:
  assumes "lists_policy number (us, ps) = Inr pol"
  shows "po_rules (pp_user pol) = by_severity user_engine (named_rules number A_User us)"
    "po_rules (pp_post pol) = by_severity post_engine (named_rules number id ps)"
  using assms by (auto simp: lists_policy_def post_policy_new_def policy_new_rules split: option.splits sum.splits)

lemma fold_map_union_sub:
  "hyd_sub acc (fold (\<lambda>(_, r) hs. hyd_union hs (f r)) rs acc)"
  "(n, r) \<in> set rs \<Longrightarrow> hyd_sub (f r) (fold (\<lambda>(_, r) hs. hyd_union hs (f r)) rs acc)"
proof (induction rs arbitrary: acc)
  case (Cons x rs)
  { case 1
    show ?case using Cons.IH(1) [of "hyd_union acc (f (snd x))"] by (simp add: case_prod_unfold)
  next
    case 2
    then show ?case
      using Cons.IH(1) [of "hyd_union acc (f (snd x))"] Cons.IH(2) [of "hyd_union acc (f (snd x))"]
      by (auto simp: case_prod_unfold) }
qed simp_all

section \<open>The trace tells the judgement\<close>

lemma fold_gate_from:
  "fold_gate pol viewer placement codes user c =
   fold_from post_engine (post_context viewer placement codes c) (po_rules (pp_post pol)) (length (po_rules (pp_user pol))) user"
  by (cases user; cases "snd user") (auto simp: fold_gate_def)

lemma trace_post_folded: "tr_evaluation (trace_post pol viewer placement codes quoted c) = evaluate_post pol viewer placement codes quoted c"
proof -
  define u where "u = author_row c placement quoted (po_hydrators (pp_user pol))"
  obtain user tot where ut: "trace_from user_engine (user_context viewer placement codes u) (po_rules (pp_user pol)) 0 folded_default ([], []) = (user, tot)"
    by (metis prod.exhaust)
  then have user: "user = fold_user pol viewer placement codes u"
    using trace_from_folded [of user_engine "user_context viewer placement codes u" "po_rules (pp_user pol)" 0 folded_default "([], [])"]
    by (simp add: fold_user_def)
  obtain fo tot' where ft: "trace_from post_engine (post_context viewer placement codes c) (po_rules (pp_post pol))
      (length (po_rules (pp_user pol))) user tot = (fo, tot')"
    by (metis prod.exhaust)
  then have "fo = fold_gate pol viewer placement codes user c"
    using trace_from_folded [of post_engine "post_context viewer placement codes c" "po_rules (pp_post pol)"
        "length (po_rules (pp_user pol))" user tot] by (simp add: fold_gate_from)
  with ut ft user show ?thesis by (simp add: trace_post_def evaluate_post_def fold_post_def u_def Let_def)
qed

section \<open>The Boolean reading of rules\<close>

lemma resolves_evaluate_rule:
  "resolves_true (evaluate_rule en tr r) \<longleftrightarrow>
   cond_holds (\<lambda>p. resolves_true (tr p)) (audience_condition en (ru_audience r)) \<and>
   cond_holds (\<lambda>p. resolves_true (tr p)) (ru_when r)"
  by (simp add: evaluate_rule_and resolves_evaluate)

definition user_rule_holds ::
  "viewer_features \<Rightarrow> vf_placement \<Rightarrow> country_lists \<Rightarrow> user_row \<Rightarrow> user_rule \<Rightarrow> bool" where
  "user_rule_holds viewer placement codes u r \<longleftrightarrow>
     (let h = user_holds (core_facts_new viewer placement codes) (vf_viewer viewer) (ur_user u) (ur_edges u) (ur_quote u)
      in cond_holds h (audience_condition user_engine (ru_audience r)) \<and> cond_holds h (ru_when r))"

definition post_rule_holds ::
  "viewer_features \<Rightarrow> vf_placement \<Rightarrow> country_lists \<Rightarrow> post_row \<Rightarrow> post_rule \<Rightarrow> bool" where
  "post_rule_holds viewer placement codes c r \<longleftrightarrow>
     (let h = post_holds (core_facts_new viewer placement codes) (vf_viewer viewer) (pr_author c) (pr_edges c) (pr_post c)
      in cond_holds h (audience_condition post_engine (ru_audience r)) \<and> cond_holds h (ru_when r))"

lemma user_applies:
  "kind_withholds (user_action_kind (ru_action r)) \<Longrightarrow>
   rule_applies user_engine (user_context viewer placement codes u) r \<longleftrightarrow> user_rule_holds viewer placement codes u r"
  by (cases "ru_action r")
    (simp_all add: rule_applies_def resolves_evaluate_rule user_rule_holds_def user_context_def user_truth_of_def
      kind_withholds_def Let_def)

lemma post_applies:
  "kind_withholds (post_action_kind (ru_action r)) \<Longrightarrow>
   rule_applies post_engine (post_context viewer placement codes c) r \<longleftrightarrow> post_rule_holds viewer placement codes c r"
  by (cases "ru_action r" rule: post_action_kind.cases; cases "case ru_action r of A_User a \<Rightarrow> a")
    (simp_all add: rule_applies_def resolves_evaluate_rule post_rule_holds_def post_context_def post_truth_of_def
      kind_withholds_def Let_def)

lemma post_applies_holds:
  "rule_applies post_engine (post_context viewer placement codes c) r \<Longrightarrow> post_rule_holds viewer placement codes c r"
  by (simp add: rule_applies_def resolves_evaluate_rule post_rule_holds_def post_context_def post_truth_of_def Let_def)

lemma engine_kinds [simp]:
  "en_kind user_engine = user_action_kind" "en_kind post_engine = post_action_kind"
  by (simp_all add: user_engine_def post_engine_def)

lemma in_named_rules: "r \<in> set rs \<Longrightarrow> \<exists>n. (n, r) \<in> set (named_rules number lift rs)"
  by (auto simp: named_rules_def)

lemma named_rulesD: "(n, r) \<in> set (named_rules number lift rs) \<Longrightarrow> r \<in> set rs"
  by (auto simp: named_rules_def)

section \<open>A withholding rule that holds withholds the post\<close>

lemma user_terminal:
  assumes "snd (fold_user pol viewer placement codes u) = Some (m, v)"
  shows "\<exists>d. v = Withheld d"
proof -
  have "decided_as v \<noteq> None"
    and k: "\<exists>a. map_option fst (decided_as v) = Some (user_action_kind a)"
    using user_rules.fold_decided [of viewer placement codes u "po_rules (pp_user pol)" 0 decision_default m v] assms
    by (auto simp: fold_user_def folded_default_def)
  then obtain a where "map_option fst (decided_as v) = Some (user_action_kind a)" by blast
  then show ?thesis by (cases v; cases a) (auto elim: notice_kind.elims)
qed

lemma user_rule_withholds:
  assumes pol: "lists_policy number (us, ps) = Inr pol" and r: "r \<in> set us" "kind_withholds (user_action_kind (ru_action r))"
    and holds: "user_rule_holds viewer placement codes (author_row c placement quoted (po_hydrators (pp_user pol))) r"
  shows "\<exists>d. folded_verdict (fold_post pol viewer placement codes quoted c) = Withheld d"
proof -
  let ?u = "author_row c placement quoted (po_hydrators (pp_user pol))"
  obtain n where "(n, r) \<in> set (po_rules (pp_user pol))"
    using in_named_rules [OF r(1)] by (auto simp: lists_policy_rules [OF pol])
  then have "snd (fold_user pol viewer placement codes ?u) \<noteq> None"
    using user_rules.fold_open [of viewer placement codes ?u "po_rules (pp_user pol)" 0 decision_default n r] r(2) holds
    by (auto simp: fold_user_def folded_default_def user_applies simp del: not_None_eq)
  then obtain m v where t: "snd (fold_user pol viewer placement codes ?u) = Some (m, v)" by auto
  then show ?thesis using user_terminal [OF t] by (auto simp: fold_post_def fold_gate_def folded_verdict_def)
qed

lemma decider_before:
  assumes sorted: "sorted_wrt (\<lambda>(_, r) (_, s). severity (kd s) \<le> severity (kd r)) rules"
    and "m < length rules" "(n, r) \<in> set rules" "\<forall>i < m. w (snd (rules ! i)) \<longrightarrow> \<not> a (snd (rules ! i))" "w r" "a r"
  shows "severity (kd r) \<le> severity (kd (snd (rules ! m)))"
proof -
  obtain i where i: "i < length rules" "rules ! i = (n, r)" using assms(3) by (auto simp: in_set_conv_nth)
  then have "\<not> i < m" using assms(4-6) by force
  then show ?thesis
    using sorted_wrt_nth_less [OF sorted, of m i] i by (cases "i = m") (auto simp: case_prod_unfold)
qed

lemma post_rule_withholds:
  assumes pol: "lists_policy number (us, ps) = Inr pol" and r: "r \<in> set ps" "kind_withholds (post_action_kind (ru_action r))"
    and holds: "post_rule_holds viewer placement codes c r"
    and appeals: "\<And>s. s \<in> set ps \<Longrightarrow> post_action_kind (ru_action s) = AK_Appealable \<Longrightarrow>
                   \<not> post_rule_holds viewer placement codes c s"
  shows "\<exists>d. folded_verdict (fold_post pol viewer placement codes quoted c) = Withheld d"
proof -
  let ?user = "fold_user pol viewer placement codes (author_row c placement quoted (po_hydrators (pp_user pol)))"
  let ?rules = "po_rules (pp_post pol)" and ?n = "length (po_rules (pp_user pol))"
  let ?cx = "post_context viewer placement codes c"
  show ?thesis
  proof (cases "snd ?user")
    case (Some mv)
    then show ?thesis
      using user_terminal by (cases mv) (fastforce simp: fold_post_def fold_gate_def folded_verdict_def)
  next
    case None
    then obtain d where d: "?user = (d, None)" by (cases ?user) auto
    have rules: "?rules = by_severity post_engine (named_rules number id ps)" by (rule lists_policy_rules [OF pol])
    obtain n where n: "(n, r) \<in> set ?rules" using in_named_rules [OF r(1)] by (auto simp: rules)
    have app: "rule_applies post_engine ?cx r" using post_applies [OF r(2)] holds by simp
    obtain m v where t: "snd (fold_from post_engine ?cx ?rules ?n (d, None)) = Some (m, v)"
      using post_rules.fold_open [of viewer placement codes c ?rules ?n d n r] n r(2) app by fastforce
    note dec = post_rules.fold_decided [OF t]
    let ?s = "?rules ! (m - ?n)"
    have ml: "m - ?n < length ?rules" using dec by linarith
    then have "?s \<in> set (named_rules number id ps)" using nth_mem [OF ml] by (simp add: rules)
    then have s: "snd ?s \<in> set ps" using named_rulesD by (metis prod.collapse)
    have "severity (post_action_kind (ru_action r)) \<le> severity (post_action_kind (ru_action (snd ?s)))"
      using dec ml n app r(2) by_severity_sorted [of post_engine "named_rules number id ps"]
      by (intro decider_before [of "\<lambda>r. post_action_kind (ru_action r)" ?rules "m - ?n" n r
            "\<lambda>r. kind_withholds (post_action_kind (ru_action r))" "rule_applies post_engine ?cx"]) (auto simp: rules)
    moreover have "post_action_kind (ru_action (snd ?s)) \<noteq> AK_Appealable"
      using appeals [OF s] dec post_applies_holds by auto
    moreover have "severity (post_action_kind (ru_action r)) \<ge> 16"
      using r(2) by (cases "post_action_kind (ru_action r)") (auto simp: kind_withholds_def)
    ultimately have "post_action_kind (ru_action (snd ?s)) = AK_Drop \<or> post_action_kind (ru_action (snd ?s)) = AK_Tombstone"
      by (cases "post_action_kind (ru_action (snd ?s))") auto
    then have "\<exists>w. v = Withheld w" using dec by (cases v) (auto elim: notice_kind.elims)
    then show ?thesis using d t by (auto simp: fold_post_def fold_gate_from folded_verdict_def)
  qed
qed

end
