(* ===== verification/Vf_Levels.thy ===== *)
theory Vf_Levels
  imports Vf_Engine
begin

text \<open>
  What the levels of the visibility service promise. A verdict that reports no default is the verdict
  every completion of the failed reads gives; the defaults a judgement reports are reads that failed; the levels
  of the feed withhold posts of authors in a bad state and posts behind the age gate; recommendations
  withhold at least what the home timeline withholds and blur the same; the policies of the feed pass
  the checks of the startup; and the traced judgement is the plain one.
\<close>

section \<open>Reads that did not fail\<close>

text \<open>What a placement uses of the quote of a post.\<close>

fun quote_part :: "vf_placement \<Rightarrow> vf_quote option \<times> hydrators \<Rightarrow> vf_quote option \<times> hydrators" where
  "quote_part (InnerQuoted _) quoted = quoted"
| "quote_part _ quoted = (None, hyd_empty)"

lemma author_row_quote:
  "author_row c placement quoted reads =
   \<lparr>ur_user = pr_author c, ur_edges = pr_edges c, ur_quote = fst (quote_part placement quoted),
    ur_failed = hyd_union (hyd_intersection (pr_failed c) reads) (snd (quote_part placement quoted))\<rparr>"
  by (cases placement) (simp_all add: author_row_def)

text \<open>
  The second viewer, quote and row agree with the first wherever its reads did not fail: every leaf all of whose nodes
  were read has the same value, the labels are the same if they were read, and no further read failed.
\<close>

definition reads_kept ::
  "viewer_features \<Rightarrow> vf_placement \<Rightarrow> country_lists \<Rightarrow> vf_quote option \<times> hydrators \<Rightarrow> post_row \<Rightarrow>
     viewer_features \<Rightarrow> vf_quote option \<times> hydrators \<Rightarrow> post_row \<Rightarrow> bool" where
  "reads_kept viewer placement codes quoted c viewer' quoted' c' \<longleftrightarrow>
     (let q = quote_part placement quoted; q' = quote_part placement quoted';
          f = core_facts_new viewer placement codes; f' = core_facts_new viewer' placement codes
      in hyd_sub (pr_failed c') (pr_failed c) \<and> hyd_sub (snd q') (snd q) \<and>
         (\<forall>p. hyd_is_empty (hyd_intersection (hyd_union (pr_failed c) (snd q)) (user_requires p)) \<longrightarrow>
              user_holds f (vf_viewer viewer) (pr_author c) (pr_edges c) (fst q) p =
              user_holds f' (vf_viewer viewer') (pr_author c') (pr_edges c') (fst q') p) \<and>
         (\<forall>p. hyd_is_empty (hyd_intersection (pr_failed c) (post_requires p)) \<longrightarrow>
              post_holds f (vf_viewer viewer) (pr_author c) (pr_edges c) (pr_post c) p =
              post_holds f' (vf_viewer viewer') (pr_author c') (pr_edges c') (pr_post c') p) \<and>
         (\<not> hyd_contains (pr_failed c) H_TweetSafetyLabels \<longrightarrow> pe_safety_labels (pr_post c') = pe_safety_labels (pr_post c)))"

lemma leaf_requirements: "p \<in> set_cond c \<Longrightarrow> hyd_sub (req p) (cond_requirements req c)"
proof (induction c)
  case (C_All cs)
  then show ?case by (auto intro: hyd_sub_trans [OF _ requirements_bound(2)])
next
  case (C_Any cs)
  then show ?case by (auto intro: hyd_sub_trans [OF _ requirements_bound(2)])
qed simp_all

lemma hyd_sub_unionI: "hyd_sub a b \<Longrightarrow> hyd_sub a (hyd_union b c)" "hyd_sub a c \<Longrightarrow> hyd_sub a (hyd_union b c)"
  by (auto simp: hyd_sub_bits hyd_union_def bit_or_iff)

lemma rule_reads_required: "p \<in> rule_reads en r \<Longrightarrow> hyd_sub (en_requires en p) (rule_requirements en r)"
  by (auto simp: rule_reads_def rule_requirements_def intro: hyd_sub_unionI leaf_requirements)

lemma policy_new_hydrators:
  assumes "policy_new en rules = Inr pol" "(n, r) \<in> set (po_rules pol)"
  shows "hyd_sub (rule_requirements en r) (po_hydrators pol)"
  using assms fold_map_union_sub(2) [of n r "by_severity en rules" "rule_requirements en" hyd_empty]
  by (auto simp: policy_new_def Let_def split: option.splits)

lemma lists_policy_parts:
  assumes "lists_policy number (us, ps) = Inr pol"
  shows "policy_new user_engine (named_rules number A_User us) = Inr (pp_user pol)"
    "policy_new post_engine (named_rules number id ps) = Inr (pp_post pol)"
  using assms by (auto simp: lists_policy_def post_policy_new_def split: option.splits sum.splits)

lemma truth_from_le:
  "hyd_sub f' f \<Longrightarrow> (hyd_is_empty f \<Longrightarrow> v = v') \<Longrightarrow> truth_le (truth_from v f) (truth_from v' f')"
  by (auto simp: truth_from_def hyd_is_empty_iff)

lemma hyd_sub_inter_mono: "hyd_sub a b \<Longrightarrow> hyd_sub c d \<Longrightarrow> hyd_sub (hyd_intersection a c) (hyd_intersection b d)"
  by (auto simp: hyd_sub_bits hyd_intersection_def bit_and_iff)

lemma hyd_inter_within:
  "hyd_sub r m \<Longrightarrow> hyd_intersection (hyd_union (hyd_intersection f m) g) r = hyd_intersection (hyd_union f g) r"
  by (auto simp: hyd_sub_bits hyd_intersection_def hyd_union_def bit_eq_iff bit_and_iff bit_or_iff)

lemma hyd_sub_union_mono: "hyd_sub a b \<Longrightarrow> hyd_sub c d \<Longrightarrow> hyd_sub (hyd_union a c) (hyd_union b d)"
  by (auto intro: hyd_sub_trans)

lemma user_leaf_kept:
  assumes kept: "reads_kept viewer placement codes quoted c viewer' quoted' c'" and p: "hyd_sub (user_requires p) reads"
  shows "truth_le (rc_truth_of (user_context viewer placement codes (author_row c placement quoted reads)) p)
           (rc_truth_of (user_context viewer' placement codes (author_row c' placement quoted' reads)) p)"
  using kept p
  by (auto simp: reads_kept_def Let_def user_context_def user_truth_of_def author_row_quote hyd_inter_within
      intro!: truth_from_le hyd_sub_inter_mono hyd_sub_union_mono)

lemma post_leaf_kept:
  assumes "reads_kept viewer placement codes quoted c viewer' quoted' c'"
  shows "truth_le (rc_truth_of (post_context viewer placement codes c) p) (rc_truth_of (post_context viewer' placement codes c') p)"
  using assms
  by (auto simp: reads_kept_def Let_def post_context_def post_truth_of_def intro!: truth_from_le hyd_sub_inter_mono)

section \<open>Actions that read the labels\<close>

text \<open>A condition that cannot be true while the safety labels of the post are unknown.\<close>

fun reads_labels :: "predicate rule_cond \<Rightarrow> bool" where
  "reads_labels (C_Leaf p) \<longleftrightarrow> hyd_contains (post_requires p) H_TweetSafetyLabels"
| "reads_labels (C_All cs) \<longleftrightarrow> list_ex reads_labels cs"
| "reads_labels (C_Any cs) \<longleftrightarrow> list_all reads_labels cs"
| "reads_labels (C_Not c) \<longleftrightarrow> False"
| "reads_labels (C_Named _ c) \<longleftrightarrow> reads_labels c"

definition label_guarded :: "post_rule \<Rightarrow> bool" where
  "label_guarded r \<longleftrightarrow> post_action_requires (ru_action r) = hyd_empty \<or> reads_labels (ru_when r)"

lemma truth_true_ops:
  "truth_and s t = Truth_True \<longleftrightarrow> s = Truth_True \<and> t = Truth_True"
  "truth_or s t = Truth_True \<longleftrightarrow> s = Truth_True \<or> t = Truth_True"
  by (cases s; cases t; simp)+

lemma foldl_and_true: "foldl truth_and t ts = Truth_True \<longleftrightarrow> t = Truth_True \<and> list_all (\<lambda>t. t = Truth_True) ts"
  by (induction ts arbitrary: t) (auto simp: truth_true_ops)

lemma foldl_or_true: "foldl truth_or t ts = Truth_True \<longleftrightarrow> t = Truth_True \<or> list_ex (\<lambda>t. t = Truth_True) ts"
  by (induction ts arbitrary: t) (auto simp: truth_true_ops)

lemma labels_unknown:
  "reads_labels c \<Longrightarrow> hyd_contains (pr_failed row) H_TweetSafetyLabels \<Longrightarrow>
   evaluate_cond (post_truth_of f v row) c \<noteq> Truth_True"
proof (induction c)
  case (C_Leaf p)
  then have "hyd_contains (hyd_intersection (pr_failed row) (post_requires p)) H_TweetSafetyLabels" by (simp add: hyd_simps)
  then have "\<not> hyd_is_empty (hyd_intersection (pr_failed row) (post_requires p))"
    by (metis hyd_is_empty_iff hyd_contains_simps(6))
  then show ?case by (simp add: post_truth_of_def truth_from_def)
next
  case (C_All cs)
  then show ?case by (auto simp: foldl_and_true list_all_iff list_ex_iff)
next
  case (C_Any cs)
  then show ?case by (fastforce simp: foldl_or_true list_all_iff list_ex_iff)
qed auto

section \<open>Verdicts that no failed read can change\<close>

lemma same_verdict_refl [simp]: "same_verdict v v"
  by (cases v) (auto simp: option.rel_refl)

lemma agree_refl [simp]: "agree B d d"
  by (auto simp: agree_def option.rel_refl)

lemma agree_shown: "agree 2 d d' \<Longrightarrow> same_verdict (decision_finish d) (decision_finish d')"
  by (simp add: agree_def decision_finish_def)

lemma relied_empty:
  assumes "hyd_is_empty (defaults_all (relied_defaults fo))" "bucket_rank b \<le> verdict_reach (folded_verdict fo)"
  shows "defaults_get (de_defaults (fst fo)) b = hyd_empty"
  using assms unfolding hyd_is_empty_iff [symmetric]
  by (cases b) (auto simp: defaults_all_def relied_defaults_def defaults_relied_on_by_def Let_def relied_on_reach)

lemma user_kinds_not_soft: "user_action_kind a \<noteq> AK_SoftIntervention"
  by (cases a) auto

lemma action_kept:
  assumes kept: "reads_kept viewer placement codes quoted c viewer' quoted' c'" and "label_guarded r"
    and t: "evaluate_rule post_engine (rc_truth_of (post_context viewer placement codes c)) r = Truth_True"
  shows "fst (rc_interpret (post_context viewer placement codes c) (ru_action r)) =
         fst (rc_interpret (post_context viewer' placement codes c') (ru_action r))"
proof (cases "hyd_contains (pr_failed c) H_TweetSafetyLabels")
  case True
  have "evaluate_cond (rc_truth_of (post_context viewer placement codes c)) (ru_when r) = Truth_True"
    using t by (simp add: evaluate_rule_and truth_true_ops)
  then have "post_action_requires (ru_action r) = hyd_empty"
    using labels_unknown [OF _ True] assms(2) by (auto simp: label_guarded_def post_context_def)
  then obtain a where "ru_action r = A_User a"
    using hyd_algebra(8) [of H_TweetSafetyLabels] by (cases "ru_action r") (auto simp: hyd_is_empty_iff)
  then show ?thesis by (simp add: post_context_def)
next
  case False
  with kept show ?thesis by (simp add: reads_kept_def Let_def post_context_def)
qed

lemma fold_user_kept:
  assumes pol: "lists_policy number (us, ps) = Inr pol"
    and kept: "reads_kept viewer placement codes quoted c viewer' quoted' c'"
    and res: "fold_user pol viewer placement codes (author_row c placement quoted (po_hydrators (pp_user pol))) = (df, t)"
    and reach: "\<And>m v. t = Some (m, v) \<Longrightarrow> verdict_reach v = B"
    and empty: "\<And>b. bucket_rank b \<le> B \<Longrightarrow> defaults_get (de_defaults df) b = hyd_empty"
  shows "\<exists>df'. fold_user pol viewer' placement codes (author_row c' placement quoted' (po_hydrators (pp_user pol))) = (df', t) \<and>
           (t = None \<longrightarrow> agree B df df')"
  unfolding fold_user_def folded_default_def
proof (rule fold_agrees [OF user_rules.rule_interpretation_axioms user_rules.rule_interpretation_axioms])
  fix n r p
  assume "(n, r) \<in> set (po_rules (pp_user pol))" "p \<in> rule_reads user_engine r"
  then have "hyd_sub (user_requires p) (po_hydrators (pp_user pol))"
    using policy_new_hydrators [OF lists_policy_parts(1) [OF pol]] rule_reads_required [of p user_engine r]
    by (auto simp: user_engine_def intro: hyd_sub_trans)
  then show "truth_le (rc_truth_of (user_context viewer placement codes (author_row c placement quoted (po_hydrators (pp_user pol)))) p)
      (rc_truth_of (user_context viewer' placement codes (author_row c' placement quoted' (po_hydrators (pp_user pol)))) p)"
    by (rule user_leaf_kept [OF kept])
qed (use res reach empty in \<open>auto simp: fold_user_def folded_default_def user_context_def user_kinds_not_soft\<close>)

lemma fold_gate_kept:
  assumes pol: "lists_policy number (us, ps) = Inr pol" and guard: "list_all label_guarded ps"
    and kept: "reads_kept viewer placement codes quoted c viewer' quoted' c'"
    and res: "fold_gate pol viewer placement codes (d, None) c = (df, t)"
    and reach: "verdict_reach (folded_verdict (df, t)) = B"
    and empty: "\<And>b. bucket_rank b \<le> B \<Longrightarrow> defaults_get (de_defaults df) b = hyd_empty"
    and ag: "agree B d d'"
  shows "\<exists>df'. fold_gate pol viewer' placement codes (d', None) c' = (df', t) \<and> (t = None \<longrightarrow> agree B df df')"
  unfolding fold_gate_from
proof (rule fold_agrees [OF post_rules.rule_interpretation_axioms post_rules.rule_interpretation_axioms])
  show "truth_le (rc_truth_of (post_context viewer placement codes c) p) (rc_truth_of (post_context viewer' placement codes c') p)" for p
    by (rule post_leaf_kept [OF kept])
  fix n r
  assume "(n, r) \<in> set (po_rules (pp_post pol))" and t: "evaluate_rule post_engine (rc_truth_of (post_context viewer placement codes c)) r = Truth_True"
  then have "label_guarded r"
    using guard by (auto simp: lists_policy_rules [OF pol] list_all_iff dest: named_rulesD)
  then show "fst (rc_interpret (post_context viewer placement codes c) (ru_action r)) =
      fst (rc_interpret (post_context viewer' placement codes c') (ru_action r))"
    using action_kept [OF kept] t by blast
next
  show "fold_from post_engine (post_context viewer placement codes c) (po_rules (pp_post pol)) (length (po_rules (pp_user pol))) (d, None) = (df, t)"
    using res by (simp only: fold_gate_from)
  show "(\<forall>(n, r)\<in>set (po_rules (pp_post pol)). en_kind post_engine (ru_action r) \<noteq> AK_SoftIntervention) \<or>
      (B = 0 \<longrightarrow> t \<noteq> None) \<and>
      sorted_wrt (\<lambda>(_, r) (_, s). severity (en_kind post_engine (ru_action s)) \<le> severity (en_kind post_engine (ru_action r)))
       (po_rules (pp_post pol))"
    using reach by_severity_sorted [of post_engine "named_rules number id ps"]
    by (cases t) (auto simp: lists_policy_rules [OF pol] folded_verdict_def decision_finish_def)
qed (use reach empty ag in \<open>auto simp: folded_verdict_def\<close>)

lemma verdict_kept:
  assumes pol: "lists_policy number (us, ps) = Inr pol" and guard: "list_all label_guarded ps"
    and kept: "reads_kept viewer placement codes quoted c viewer' quoted' c'"
    and sure: "hyd_is_empty (defaults_all (relied_defaults (fold_post pol viewer placement codes quoted c)))"
  shows "same_verdict (folded_verdict (fold_post pol viewer placement codes quoted c))
           (folded_verdict (fold_post pol viewer' placement codes quoted' c'))"
proof -
  let ?u = "author_row c placement quoted (po_hydrators (pp_user pol))"
  let ?u' = "author_row c' placement quoted' (po_hydrators (pp_user pol))"
  obtain du tu where user: "fold_user pol viewer placement codes ?u = (du, tu)" by (metis prod.exhaust)
  obtain df t where gate: "fold_gate pol viewer placement codes (du, tu) c = (df, t)" by (metis prod.exhaust)
  have post: "fold_post pol viewer placement codes quoted c = (df, t)" by (simp add: fold_post_def user gate)
  define B where "B = verdict_reach (folded_verdict (df, t))"
  have empty: "defaults_get (de_defaults df) b = hyd_empty" if "bucket_rank b \<le> B" for b
    using relied_empty [OF sure, of b] that by (simp add: post B_def)
  have "defaults_get (de_defaults du) b = hyd_empty" if "bucket_rank b \<le> B" for b
    using post_rules.fold_defaults_mono [of du b viewer placement codes c "po_rules (pp_post pol)"] gate empty [OF that]
    by (metis fold_gate_from fst_conv hyd_sub_empty)
  moreover have "verdict_reach v = B" if "tu = Some (m, v)" for m v
    using gate that by (auto simp: fold_gate_def B_def folded_verdict_def)
  ultimately obtain du' where user': "fold_user pol viewer' placement codes ?u' = (du', tu)" "tu = None \<longrightarrow> agree B du du'"
    using fold_user_kept [OF pol kept user] by blast
  show ?thesis
  proof (cases tu)
    case None
    then obtain df' where "fold_gate pol viewer' placement codes (du', None) c' = (df', t)" "t = None \<longrightarrow> agree B df df'"
      using fold_gate_kept [OF pol guard kept _ _ empty] gate user'(2) B_def by blast
    then show ?thesis
      using user' None post agree_shown by (cases t) (auto simp: fold_post_def folded_verdict_def B_def decision_finish_def)
  next
    case (Some mv)
    with gate user' post show ?thesis by (cases mv) (auto simp: fold_post_def fold_gate_def folded_verdict_def)
  qed
qed

lemma level_label_guarded: "list_all label_guarded (snd (level_lists (safety_level_rules level)))"
proof -
  have "list_all (\<lambda>l. list_all label_guarded (snd (level_lists (safety_level_rules l)))) safety_level_variants"
    by code_simp
  then show ?thesis by (simp add: safety_level_variants_def) (cases level; simp)
qed

lemma ev_finish [simp]:
  "ev_verdict (fold_finish fo failed) = folded_verdict fo" "ev_defaults (fold_finish fo failed) = defaults_all (relied_defaults fo)"
  by (simp_all add: fold_finish_def Let_def)

text \<open>
  C10. A verdict that reports no default is final. Judge a post at a level while some reads failed. If the judgement
  reports no fail-open default, then whatever the failed reads would have answered, the judgement with these
  answers has the same verdict: the same rule withholds it with the same reason, or it is shown with the same
  interstitial, the same media restriction and the same first engagement limit.
\<close>

theorem sure_verdicts_are_final:
  assumes "level_policy number level = Inr pol"
    and "reads_kept viewer placement codes quoted c viewer' quoted' c'"
    and "ev_defaults (evaluate_post pol viewer placement codes quoted c) = hyd_empty"
  shows "same_verdict (ev_verdict (evaluate_post pol viewer placement codes quoted c))
           (ev_verdict (evaluate_post pol viewer' placement codes quoted' c'))"
proof -
  obtain us ps where "level_lists (safety_level_rules level) = (us, ps)" by (metis prod.exhaust)
  then show ?thesis
    using verdict_kept [of number us ps pol viewer placement codes quoted c viewer' quoted' c'] assms level_label_guarded [of level]
    by (simp add: level_policy_def evaluate_post_def hyd_is_empty_iff)
qed

section \<open>What a level withholds\<close>

lemma level_policy_lists:
  "level_policy number level = Inr pol \<Longrightarrow>
   lists_policy number (fst (level_lists (safety_level_rules level)), snd (level_lists (safety_level_rules level))) = Inr pol"
  by (simp add: level_policy_def)


lemma level_user_rule:
  assumes "level_policy number level = Inr pol" "r \<in> set (fst (level_lists (safety_level_rules level)))"
    and "kind_withholds (user_action_kind (ru_action r))"
    and "user_rule_holds viewer placement codes (author_row c placement quoted (po_hydrators (pp_user pol))) r"
  shows "\<exists>d. ev_verdict (evaluate_post pol viewer placement codes quoted c) = Withheld d"
  using user_rule_withholds [OF level_policy_lists [OF assms(1)] assms(2-4)]
  by (simp add: evaluate_post_def fold_finish_def Let_def)


text \<open>The levels at which posts of the feeds are judged for their viewers.\<close>

definition feed_levels :: "vf_safety_level list" where
  "feed_levels = [TimelineHome, TimelineHomeRecommendations, TimelineHomeHydration, ImmersiveExpandedRecommendations]"

text \<open>
  C11. The levels of the feed enforce the state of authors, once their policy passed the checks of the startup. For a viewer other than the author, a post whose author
  is suspended, deactivated, erased or offboarded, or is protected and not followed by the viewer, is withheld, whatever else
  holds of the post, the viewer, the placement and the failed reads.
\<close>

theorem author_state_is_enforced:
  assumes "level_policy number level = Inr pol" "level \<in> set feed_levels"
    and "vf_user_id (vf_viewer viewer) \<noteq> Some (ue_id (pr_author c))"
    and "a = ue_features (pr_author c)"
    and "au_suspended a \<or> au_deactivated a \<or> au_erased a \<or> au_offboarded a \<or> (au_protected a \<and> \<not> hyd_contains (pr_edges c) H_Follows)"
  shows "\<exists>d. ev_verdict (evaluate_post pol viewer placement codes quoted c) = Withheld d"
proof -
  have "\<exists>r \<in> {suspended_author_drop, deactivated_author_drop, erased_author_drop_inactive, offboarded_author_drop_inactive, protected_author_drop}.
      user_rule_holds viewer placement codes (author_row c placement quoted (po_hydrators (pp_user pol))) r"
    using assms(3-5)
    by (auto simp: user_rule_holds_def Let_def user_engine_def core_facts_new_def author_row_def suspended_author_drop_def
       deactivated_author_drop_def erased_author_drop_inactive_def offboarded_author_drop_inactive_def protected_author_drop_def)
  then obtain r where r: "r \<in> {suspended_author_drop, deactivated_author_drop, erased_author_drop_inactive, offboarded_author_drop_inactive, protected_author_drop}"
      "user_rule_holds viewer placement codes (author_row c placement quoted (po_hydrators (pp_user pol))) r" by blast
  moreover have "r \<in> set (fst (level_lists (safety_level_rules level)))"
    using r(1) assms(2)
    by (auto simp: feed_levels_def author_state_drops_def level_timeline_home_def level_timeline_home_recommendations_def
       level_timeline_home_hydration_def level_immersive_expanded_recommendations_def)
  moreover have "kind_withholds (user_action_kind (ru_action r))"
    using r(1) by (auto simp: kind_withholds_def drop_post_def suspended_author_drop_def
       deactivated_author_drop_def erased_author_drop_inactive_def offboarded_author_drop_inactive_def protected_author_drop_def)
  ultimately show ?thesis using level_user_rule [OF assms(1)] by blast
qed

section \<open>Policies that pass the startup checks\<close>

text \<open>The named conditions of post rules, with the one of user rules as post rules read it.\<close>

definition post_conditions :: "(string \<times> predicate rule_cond) list" where
  "post_conditions =
     concat (map cond_definitions
       [has_nsfw_media_label, is_nsfw_flagged, has_nsfw_text_or_card_label, is_nsfw_admin, is_nsfw_user,
        tweet_is_nsfw_flagged, is_nsfw_sensitive_tweet, has_fosnr_label,
        viewer_is_not_age_verified_in_age_verification_countries, viewer_is_not_age_verified_in_tombstone_countries,
        viewer_is_neither_root_author_nor_invited, map_rule_cond P_User is_nsfw_sensitive_author])"

definition defined_in :: "(string \<times> 'p rule_cond) list \<Rightarrow> (string \<times> 'p rule_cond) list \<Rightarrow> bool" where
  "defined_in table ds \<longleftrightarrow> list_all (\<lambda>(n, c). map_of table n = Some c) ds"

lemma defined_no_conflict: "defined_in table (seen @ ds) \<Longrightarrow> conflicting_name seen ds = None"
proof (induction seen ds rule: conflicting_name.induct)
  case (2 seen n c ds)
  then have "\<forall>x \<in> set seen. map_of table (fst x) = Some (snd x)" "map_of table n = Some c"
    by (auto simp: defined_in_def list_all_iff case_prod_beta)
  then have "\<not> list_ex (\<lambda>(m, e). m = n \<and> e \<noteq> c) seen" by (auto simp: list_ex_iff)
  with 2 show ?case by simp
qed simp

definition rules_defined :: "user_rule list \<times> post_rule list \<Rightarrow> bool" where
  "rules_defined rules \<longleftrightarrow>
     defined_in [(''is_nsfw_sensitive_author'', hd (map snd (cond_definitions is_nsfw_sensitive_author)))]
       (rules_definitions user_engine (fst rules)) \<and>
     defined_in post_conditions (rules_definitions post_engine (snd rules))"

lemma levels_defined: "list_all (\<lambda>l. rules_defined (level_lists (safety_level_rules l))) safety_level_variants"
  by code_simp

text \<open>The names of both lists pass the checks on repetitions.\<close>

definition wired_once :: "(appealable_policy \<Rightarrow> int) \<Rightarrow> user_rule list \<times> post_rule list \<Rightarrow> bool" where
  "wired_once number rules \<longleftrightarrow>
     (let user = named_rules number A_User (fst rules); post = named_rules number id (snd rules)
      in wired_twice [] [] (by_severity user_engine user) = None \<and> wired_twice [] [] (by_severity post_engine post) = None \<and>
         List.find (\<lambda>(n, _). list_ex (\<lambda>(m, _). m = n) post) user = None)"

lemma user_conditions_lifted:
  "map_of [(''is_nsfw_sensitive_author'', hd (map snd (cond_definitions is_nsfw_sensitive_author)))] n = Some c \<Longrightarrow>
   map_of post_conditions n = Some (map_rule_cond P_User c)"
  by (auto simp: post_conditions_def is_nsfw_sensitive_author_def has_nsfw_media_label_def is_nsfw_flagged_def
      has_nsfw_text_or_card_label_def is_nsfw_admin_def is_nsfw_user_def tweet_is_nsfw_flagged_def is_nsfw_sensitive_tweet_def
      has_fosnr_label_def viewer_is_not_age_verified_in_age_verification_countries_def
      viewer_is_not_age_verified_in_tombstone_countries_def viewer_is_neither_root_author_nor_invited_def split: if_splits)

lemma defined_across:
  assumes "rules_defined (us, ps)"
  shows "validate_across us ps = None"
proof -
  let ?u = "rules_definitions user_engine us" and ?p = "rules_definitions post_engine ps"
  have u: "conflicting_name [] ?u = None" and p: "conflicting_name [] ?p = None"
    using assms defined_no_conflict [of _ "[]"] by (auto simp: rules_defined_def)
  have "List.find (\<lambda>(n, c). list_ex (\<lambda>(m, e). m = n \<and> map_rule_cond P_User c \<noteq> e) ?p) ?u = None"
    unfolding find_None_iff
  proof (safe)
    fix n c
    assume "(n, c) \<in> set ?u" "list_ex (\<lambda>(m, e). m = n \<and> map_rule_cond P_User c \<noteq> e) ?p"
    then show False
      using assms user_conditions_lifted [of n c] by (fastforce simp: rules_defined_def defined_in_def list_all_iff list_ex_iff)
  qed
  then show ?thesis by (simp add: validate_across_def validate_rules_def u p)
qed

lemma defined_policy:
  assumes "defined_in table (rules_definitions en (map snd rules))" "wired_twice [] [] (by_severity en rules) = None"
  shows "\<exists>pol. policy_new en rules = Inr pol"
  using assms defined_no_conflict [of table "[]" "rules_definitions en (map snd rules)"]
  by (simp add: policy_new_def validate_rules_def Let_def)

lemma map_snd_named_rules [simp]: "map snd (named_rules number lift rs) = rs"
  by (simp add: named_rules_def comp_def)

lemma lists_policy_builds:
  assumes "rules_defined rules" "wired_once number rules"
  shows "\<exists>pol. lists_policy number rules = Inr pol"
proof -
  obtain us ps where r: "rules = (us, ps)" by (cases rules)
  obtain u p where "policy_new user_engine (named_rules number A_User us) = Inr u" "policy_new post_engine (named_rules number id ps) = Inr p"
    using defined_policy [of _ user_engine "named_rules number A_User us"] defined_policy [of _ post_engine "named_rules number id ps"] assms
    by (force simp: r rules_defined_def wired_once_def Let_def)
  with assms defined_across [of us ps] show ?thesis
    by (auto simp: r lists_policy_def post_policy_new_def wired_once_def Let_def)
qed

lemma level_builds:
  assumes "wired_once number (level_lists (safety_level_rules level))"
  shows "\<exists>pol. level_policy number level = Inr pol"
  using lists_policy_builds [OF _ assms] levels_defined
  by (cases level) (auto simp: level_policy_def safety_level_variants_def simp del: safety_level_rules.simps level_lists.simps)







section \<open>The defaults a judgement reports\<close>

lemma no_defaults_get [simp]: "defaults_get no_defaults b = hyd_empty"
  by (cases b) (simp_all add: no_defaults_def)





section \<open>Recommendations are stricter than the home timeline\<close>

text \<open>What a step does to the slots depends on the slots alone, and a withholding rule fills none.\<close>

lemma finish_eq:
  "decision_finish d = decision_finish d' \<longleftrightarrow>
   de_label_interstitial d = de_label_interstitial d' \<and> de_media d = de_media d' \<and> de_engagement d = de_engagement d'"
  by (auto simp: decision_finish_def)

lemma step_slots_only:
  assumes "decision_finish d = decision_finish d'"
  shows "decision_finish (fst (rule_step en cx d n r)) = decision_finish (fst (rule_step en cx d' n r))"
proof -
  have "decision_filled d = decision_filled d'" using assms by (simp add: finish_eq decision_filled_def)
  then have "acting d = acting d'" by (simp add: fun_eq_iff acting_def)
  with assms show ?thesis
    unfolding rule_step_def finish_eq by (simp add: step_slots del: land.simps split: option.split contribution.split)
qed

context rule_interpretation
begin

lemma drop_keeps_slots:
  assumes "kind_withholds (en_kind en (ru_action r))"
  shows "decision_finish (fst (rule_step en cx d n r)) = decision_finish d"
proof -
  have "en_kind en (ru_action r) = AK_Drop \<or> en_kind en (ru_action r) = AK_Tombstone"
    using assms by (cases "en_kind en (ru_action r)") (auto simp: kind_withholds_def)
  moreover have "contribution_kind c = en_kind en (ru_action r)" if "fst (rc_interpret cx (ru_action r)) = Some c" for c
    using that by (rule contributes)
  note step_other_slots [OF this]
  ultimately show ?thesis unfolding rule_step_def finish_eq by auto
qed

lemma slot_rule_open:
  assumes "\<not> kind_withholds (en_kind en (ru_action r)) \<Longrightarrow> kind_lands (en_kind en (ru_action r)) \<noteq> Lands_Fosnr"
    and "kind_withholds (en_kind en (ru_action r)) \<Longrightarrow> \<not> rule_applies en cx r"
  shows "fst (snd (rule_step en cx d n r)) = None"
proof (rule ccontr)
  assume "fst (snd (rule_step en cx d n r)) \<noteq> None"
  then obtain v e d' where "rule_step en cx d n r = (d', Some v, e)" by (cases "rule_step en cx d n r") auto
  then have v: "decided_as v = Some (en_kind en (ru_action r), ru_id r, n)" "rule_applies en cx r" by (rule step_terminal)+
  with assms have "\<not> kind_withholds (en_kind en (ru_action r))" "kind_lands (en_kind en (ru_action r)) \<noteq> Lands_Fosnr" by auto
  with v(1) show False by (cases v) (auto simp: kind_withholds_def elim: withholding_kind.elims notice_kind.elims)
qed

lemma fold_slots:
  assumes "\<forall>(_, r) \<in> set rules. kind_withholds (en_kind en (ru_action r)) \<or> kind_lands (en_kind en (ru_action r)) \<noteq> Lands_Fosnr"
    and "\<forall>(_, r) \<in> set rules. kind_withholds (en_kind en (ru_action r)) \<longrightarrow> \<not> rule_applies en cx r"
    and "decision_finish d = decision_finish d'"
  shows "snd (fold_from en cx rules m (d, None)) = None \<and>
         decision_finish (fst (fold_from en cx rules m (d, None))) =
         decision_finish (fst (fold_from en cx (filter (\<lambda>(_, r). \<not> kind_withholds (en_kind en (ru_action r))) rules) k (d', None)))"
  using assms
proof (induction rules arbitrary: m k d d')
  case (Cons x rules)
  obtain n r where x: "x = (n, r)" by (cases x)
  obtain d1 v e where st: "rule_step en cx d n r = (d1, v, e)" by (cases "rule_step en cx d n r")
  obtain d2 v' e' where st': "rule_step en cx d' n r = (d2, v', e')" by (cases "rule_step en cx d' n r")
  have v: "v = None" "v' = None"
    using slot_rule_open [of r d n] slot_rule_open [of r d' n] Cons.prems(1,2) st st' by (auto simp: x)
  have IH: "snd (fold_from en cx rules m (a, None)) = None \<and>
      decision_finish (fst (fold_from en cx rules m (a, None))) =
      decision_finish (fst (fold_from en cx (filter (\<lambda>(_, r). \<not> kind_withholds (en_kind en (ru_action r))) rules) k (b, None)))"
    if "decision_finish a = decision_finish b" for a b m k
    using Cons.prems(1,2) that by (intro Cons.IH) (auto simp: x)
  have "decision_finish d1 = decision_finish d2" using step_slots_only [OF Cons.prems(3), of en cx n r] st st' by simp
  moreover have "decision_finish d1 = decision_finish d'" if "kind_withholds (en_kind en (ru_action r))"
    using drop_keeps_slots [OF that, of d n] st Cons.prems(3) by simp
  ultimately show ?case
    using IH [of d1 d2 "Suc m" "Suc k"] IH [of d1 d' "Suc m" k] st st' v
    by (auto simp: x fold_from_Cons Let_def simp del: fold_from.simps)
qed (use assms(3) in simp)

end

lemma filter_by_severity:
  "filter (\<lambda>(_, r). P r) (by_severity en (named_rules number lift rs)) = by_severity en (named_rules number lift (filter P rs))"
  by (simp add: by_severity_def named_rules_def filter_sort filter_map comp_def)

lemma author_rule_any_reads:
  "user_rule_holds viewer placement codes (author_row c placement quoted reads) r =
   user_rule_holds viewer placement codes (author_row c placement quoted reads') r"
  by (simp add: user_rule_holds_def author_row_quote)

text \<open>A policy with only user rules that withhold, and no notices: it shows a post when no withholding rule holds.\<close>

abbreviation slots_of :: "(appealable_policy \<Rightarrow> int) \<Rightarrow> viewer_features \<Rightarrow> vf_placement \<Rightarrow> country_lists \<Rightarrow> post_row \<Rightarrow> post_rule list \<Rightarrow> verdict" where
  "slots_of number viewer placement codes c ps \<equiv>
     decision_finish (fst (fold_from post_engine (post_context viewer placement codes c)
       (by_severity post_engine (named_rules number id (filter (\<lambda>r. \<not> kind_withholds (post_action_kind (ru_action r))) ps))) 0
       (decision_default, None)))"

lemma shown_slots:
  assumes pol: "lists_policy number (us, ps) = Inr pol"
    and us: "\<forall>r \<in> set us. kind_withholds (user_action_kind (ru_action r))"
    and ps: "\<forall>r \<in> set ps. kind_withholds (post_action_kind (ru_action r)) \<or> kind_lands (post_action_kind (ru_action r)) \<noteq> Lands_Fosnr"
    and open_user: "\<forall>r \<in> set us. \<not> user_rule_holds viewer placement codes (author_row c placement quoted hyd_empty) r"
    and open_post: "\<forall>r \<in> set ps. kind_withholds (post_action_kind (ru_action r)) \<longrightarrow> \<not> post_rule_holds viewer placement codes c r"
  shows "folded_verdict (fold_post pol viewer placement codes quoted c) = slots_of number viewer placement codes c ps"
proof -
  let ?u = "author_row c placement quoted (po_hydrators (pp_user pol))"
  have none: "filter (\<lambda>r. \<not> kind_withholds (user_action_kind (ru_action r))) us = []" using us by (simp add: filter_empty_conv)
  have user: "snd (fold_user pol viewer placement codes ?u) = None \<and>
      decision_finish (fst (fold_user pol viewer placement codes ?u)) = decision_finish decision_default"
    using us open_user author_rule_any_reads [of viewer placement codes c quoted "po_hydrators (pp_user pol)" _ hyd_empty]
      user_rules.fold_slots [of "po_rules (pp_user pol)" viewer placement codes ?u decision_default decision_default 0 0]
    by (auto simp: fold_user_def folded_default_def lists_policy_rules [OF pol] user_applies filter_by_severity
        none named_rules_def by_severity_def)
  then obtain d where d: "fold_user pol viewer placement codes ?u = (d, None)" "decision_finish d = decision_finish decision_default"
    by (cases "fold_user pol viewer placement codes ?u") auto
  have "snd (fold_gate pol viewer placement codes (d, None) c) = None \<and>
      decision_finish (fst (fold_gate pol viewer placement codes (d, None) c)) = slots_of number viewer placement codes c ps"
    using ps open_post post_rules.fold_slots [OF _ _ d(2), of "po_rules (pp_post pol)" viewer placement codes c "length (po_rules (pp_user pol))" 0]
    by (auto simp: fold_gate_from lists_policy_rules [OF pol] post_applies filter_by_severity dest: named_rulesD)
  then show ?thesis by (simp add: fold_post_def d(1) folded_verdict_def)
qed

lemma shown_open:
  assumes pol: "lists_policy number (us, ps) = Inr pol" and shown: "folded_verdict (fold_post pol viewer placement codes quoted c) = Shown l m e"
  shows "\<forall>r \<in> set us. kind_withholds (user_action_kind (ru_action r)) \<longrightarrow>
           \<not> user_rule_holds viewer placement codes (author_row c placement quoted hyd_empty) r"
    and "\<forall>r \<in> set ps. kind_withholds (post_action_kind (ru_action r)) \<longrightarrow> \<not> post_rule_holds viewer placement codes c r"
proof -
  let ?u = "author_row c placement quoted (po_hydrators (pp_user pol))"
  show "\<forall>r \<in> set us. kind_withholds (user_action_kind (ru_action r)) \<longrightarrow>
           \<not> user_rule_holds viewer placement codes (author_row c placement quoted hyd_empty) r"
    using user_rule_withholds [OF pol, of _ viewer placement codes c quoted] shown
      author_rule_any_reads [of viewer placement codes c quoted hyd_empty _ "po_hydrators (pp_user pol)"] by auto
  have user: "snd (fold_user pol viewer placement codes ?u) = None"
    using shown user_terminal [of pol viewer placement codes ?u]
    by (cases "snd (fold_user pol viewer placement codes ?u)") (auto simp: fold_post_def fold_gate_def folded_verdict_def)
  then obtain d where d: "fold_user pol viewer placement codes ?u = (d, None)" by (cases "fold_user pol viewer placement codes ?u") auto
  have "snd (fold_gate pol viewer placement codes (d, None) c) = None"
  proof (rule ccontr)
    assume "snd (fold_gate pol viewer placement codes (d, None) c) \<noteq> None"
    then obtain k v where t: "snd (fold_gate pol viewer placement codes (d, None) c) = Some (k, v)" by auto
    then have "decided_as v \<noteq> None" using post_rules.fold_decided unfolding fold_gate_from by blast
    with t shown show False by (auto simp: fold_post_def d folded_verdict_def)
  qed
  then show "\<forall>r \<in> set ps. kind_withholds (post_action_kind (ru_action r)) \<longrightarrow> \<not> post_rule_holds viewer placement codes c r"
    using post_rules.fold_open [of viewer placement codes c "po_rules (pp_post pol)" "length (po_rules (pp_user pol))" d] in_named_rules
    by (fastforce simp: fold_gate_from lists_policy_rules [OF pol] post_applies)
qed

lemma recommendations_lists:
  "list_all (\<lambda>r. kind_withholds (user_action_kind (ru_action r))) (fst (level_lists (safety_level_rules TimelineHomeRecommendations)))"
  "list_all (\<lambda>r. kind_withholds (post_action_kind (ru_action r)) \<or> kind_lands (post_action_kind (ru_action r)) \<noteq> Lands_Fosnr)
     (snd (level_lists (safety_level_rules TimelineHomeRecommendations)))"
  "filter (\<lambda>r. \<not> kind_withholds (post_action_kind (ru_action r))) (snd (level_lists (safety_level_rules TimelineHomeRecommendations))) =
   filter (\<lambda>r. \<not> kind_withholds (post_action_kind (ru_action r))) (snd (level_lists (safety_level_rules TimelineHome)))"
  by code_simp+

lemma home_within_recommendations:
  "set (fst (level_lists (safety_level_rules TimelineHome))) \<subseteq> set (fst (level_lists (safety_level_rules TimelineHomeRecommendations)))"
  "set (snd (level_lists (safety_level_rules TimelineHome))) \<subseteq> set (snd (level_lists (safety_level_rules TimelineHomeRecommendations)))"
  by (auto simp: level_timeline_home_def level_timeline_home_recommendations_def)

text \<open>
  C22. Recommendations are at least as strict as the home timeline: a post that the level of recommendations shows is
  shown by the level of the home timeline, with the same interstitial, media restriction and limits.
\<close>

theorem recommendations_are_stricter:
  assumes home: "level_policy number TimelineHome = Inr home"
    and recs: "level_policy number TimelineHomeRecommendations = Inr recs"
    and shown: "ev_verdict (evaluate_post recs viewer placement codes quoted c) = Shown l m e"
  shows "ev_verdict (evaluate_post home viewer placement codes quoted c) = Shown l m e"
proof -
  note pol = level_policy_lists [OF home] level_policy_lists [OF recs]
  have v: "folded_verdict (fold_post recs viewer placement codes quoted c) = Shown l m e"
    using shown by (simp add: evaluate_post_def)
  note op = shown_open [OF pol(2) v] and rl = recommendations_lists and sub = home_within_recommendations
  have "folded_verdict (fold_post recs viewer placement codes quoted c) =
      slots_of number viewer placement codes c (snd (level_lists (safety_level_rules TimelineHomeRecommendations)))"
    using op rl(1,2) by (intro shown_slots [OF pol(2)]) (simp_all add: list_all_iff)
  moreover have "folded_verdict (fold_post home viewer placement codes quoted c) =
      slots_of number viewer placement codes c (snd (level_lists (safety_level_rules TimelineHome)))"
    using op rl(1,2) sub unfolding list_all_iff by (intro shown_slots [OF pol(1)]; blast)
  ultimately show ?thesis using v rl(3) by (simp add: evaluate_post_def)
qed

text \<open>
  An engagement rule that is unknown while a limit stands reports no default, although the rule adds a
  reason to the limit when it is true and none when it is false.
\<close>

lemma later_limit_reports_no_default:
  assumes "de_engagement d = Some limit" "reason \<notin> set (le_reasons (dec_value limit))"
  shows "step_reads d AK_LimitedEngagement (Unknown resolved f) = hyd_empty"
    and "map_option (le_reasons \<circ> dec_value)
           (de_engagement (fst (decision_step d i n AK_LimitedEngagement Truth_True (Some (Con_Engagement reason))))) =
         Some (le_reasons (dec_value limit) @ [reason])"
    and "de_engagement (fst (decision_step d i n AK_LimitedEngagement Truth_False (Some (Con_Engagement reason)))) = Some limit"
proof -
  have "\<not> list_ex (\<lambda>held. held = reason) (le_reasons (dec_value limit))" using assms(2) by (auto simp: list_ex_iff)
  then show "map_option (le_reasons \<circ> dec_value)
      (de_engagement (fst (decision_step d i n AK_LimitedEngagement Truth_True (Some (Con_Engagement reason))))) =
      Some (le_reasons (dec_value limit) @ [reason])"
    using assms(1) by (simp add: step_slots acting_def kept_by_cases le_add_def Let_def le_reasons_def del: land.simps)
qed (use assms(1) in \<open>simp_all add: step_reads_def admits_defaults_cases\<close>)

section \<open>Examples\<close>

text \<open>A viewer in the US and a post with media, with given age, labels, edges and failed reads.\<close>

definition judging_viewer :: "viewer_age \<Rightarrow> viewer_features" where
  "judging_viewer age =
     \<lparr>vf_viewer = LoggedIn 7
        \<lparr>vp_allows_sensitive_media = False, vp_viewer_age = age, vp_has_verified_badge = False, vp_has_idv_premium = False,
         vp_is_read_only = False, vp_account_country_code = None, vp_is_new_account = False, vp_is_suspended = False,
         vp_is_deactivated = False, vp_has_uqf_enabled = False, vp_mention_filter_is_following = False,
         vp_has_blink_label = False, vp_notification_filters = no_notification_filters\<rparr> False,
      vf_facts = request_facts_new (request_viewer_new (Some 7) (Some ''US'')) default_client\<rparr>"

definition judged_author :: "bool \<Rightarrow> user_entity" where
  "judged_author suspended =
     \<lparr>ue_id = 3,
      ue_features = \<lparr>au_suspended = suspended, au_deactivated = False, au_protected = False, au_nsfw_user = False,
                     au_nsfw_admin = False, au_erased = False, au_offboarded = False\<rparr>,
      ue_labels = 0, ue_profile = \<lparr>ap_has_default_profile_image = False, ap_is_new_account = False\<rparr>,
      ue_lacks_confirmed_email = False, ue_lacks_verified_phone = False\<rparr>"

definition judged_labels :: "vf_label list \<Rightarrow> vf_label_map" where
  "judged_labels ls = \<lparr>sl_types = set ls, sl_by_agent = {}, sl_sources = []\<rparr>"

definition judged_post :: "vf_label list \<Rightarrow> post_entity" where
  "judged_post ls =
     \<lparr>pe_tweet_id = 11, pe_source_tweet_id = None,
      pe_tweet_features =
        \<lparr>tf_media = \<lparr>mf_has_media = True, mf_has_uploaded_media = True, mf_has_dmca_media = False, mf_geo_allow_list = [],
                     mf_geo_deny_list = []\<rparr>,
         tf_takedown_reasons = [], tf_nsfw_user = False, tf_nsfw_admin = False, tf_is_nullcast = False, tf_community_id = None,
         tf_trusted_friends_list_id = None, tf_latest_edit_tweet_id = None, tf_exclusive_conversation_author_id = None,
         tf_article_id = None, tf_narrowcast_place_id = None\<rparr>,
      pe_safety_labels = judged_labels ls, pe_conversation_control = None,
      pe_community_moderation = \<lparr>cm_is_hidden = False, cm_is_author_removed = False\<rparr>,
      pe_viewer_is_community_moderator = None, pe_viewer_is_removed_from_community = False, pe_article_lifecycle = None,
      pe_article_has_media_entities = False, pe_article_has_cover_media = False,
      pe_reacted_to_post_safety_labels = judged_labels [], pe_reacted_to_author_is_protected = False,
      pe_conversation_root_author_blocks_viewer = False\<rparr>"

definition judged_row :: "bool \<Rightarrow> vf_label list \<Rightarrow> edge_set \<Rightarrow> hydrators \<Rightarrow> post_row" where
  "judged_row suspended ls edges failed =
     \<lparr>pr_author = judged_author suspended, pr_edges = edges, pr_post = judged_post ls, pr_failed = failed\<rparr>"

lemmas judged_defs = judging_viewer_def judged_author_def judged_labels_def judged_post_def judged_row_def

lemma judged_reads_kept:
  "reads_kept (judging_viewer (Age_Known 30)) Standalone default_codes (None, hyd_empty)
     (judged_row True [] hyd_empty (hyd_of H_Blocks))
     (judging_viewer (Age_Known 30)) (None, hyd_empty) (judged_row True [] (hyd_of H_Blocks) hyd_empty)"
proof -
  have u: "user_holds f v a hyd_empty q p = user_holds f v a (hyd_of H_Blocks) q p"
    if "hyd_is_empty (hyd_intersection (hyd_of H_Blocks) (user_requires p))" for f v a q p
  proof (cases p)
    case (P_Relationship l)
    with that show ?thesis by (cases l) (auto simp: hyd_simps)
  qed simp_all
  have p: "post_holds f v a hyd_empty e p = post_holds f v a (hyd_of H_Blocks) e p"
    if "hyd_is_empty (hyd_intersection (hyd_of H_Blocks) (post_requires p))" for f v a e p
  proof (cases p)
    case (P_Edge l)
    then show ?thesis by (cases l) (auto simp: hyd_simps)
  next
    case (P_Compound l)
    then show ?thesis by (cases l) (auto simp: hyd_simps)
  qed (use that u in simp_all)
  from u p show ?thesis by (simp add: reads_kept_def judged_row_def)
qed

lemma timeline_home_builds: "\<exists>pol. level_policy number TimelineHome = Inr pol"
  by (rule level_builds) code_simp

lemma recommendations_build: "\<exists>pol. level_policy number TimelineHomeRecommendations = Inr pol"
  by (rule level_builds) code_simp

lemma immersive_builds: "\<exists>pol. level_policy number ImmersiveExpandedRecommendations = Inr pol"
  by (rule level_builds) code_simp

lemma quote_pass_builds: "\<exists>pol. level_policy number QuotedTweetRules = Inr pol"
  by (rule level_builds) code_simp

text \<open>
  The policies of the home timeline, of recommendations, of the immersive feed and of the quote pass pass the
  checks of the startup: no condition name is defined in two ways, no rule name recurs after another or repeats a
  rule, and none is in both lists.
\<close>

lemma feed_policies_build:
  "\<exists>home recs immersive quoted.
     level_policy number TimelineHome = Inr home \<and> level_policy number TimelineHomeRecommendations = Inr recs \<and>
     level_policy number ImmersiveExpandedRecommendations = Inr immersive \<and> level_policy number QuotedTweetRules = Inr quoted"
  using timeline_home_builds recommendations_build immersive_builds quote_pass_builds by blast

theorem author_state_is_enforced_witness:
  "\<exists>pol d. level_policy (\<lambda>_. 0) TimelineHome = Inr pol \<and>
     ev_verdict (evaluate_post pol (judging_viewer (Age_Known 30)) Standalone default_codes (None, hyd_empty)
       (judged_row True [] hyd_empty hyd_empty)) = Withheld d"
proof -
  obtain pol where pol: "level_policy (\<lambda>_. 0) TimelineHome = Inr pol" using timeline_home_builds by blast
  have "\<exists>d. ev_verdict (evaluate_post pol (judging_viewer (Age_Known 30)) Standalone default_codes (None, hyd_empty)
       (judged_row True [] hyd_empty hyd_empty)) = Withheld d"
    by (rule author_state_is_enforced [OF pol _ _ refl]) (simp_all add: feed_levels_def judged_defs)
  with pol show ?thesis by blast
qed



theorem recommendations_are_stricter_witness:
  "\<exists>home. level_policy (\<lambda>_. 0) TimelineHome = Inr home \<and>
     ev_verdict (evaluate_post home (judging_viewer (Age_Known 30)) Standalone default_codes (None, hyd_empty)
       (judged_row False [] hyd_empty hyd_empty)) = Shown None None None"
proof -
  let ?v = "judging_viewer (Age_Known 30)" and ?c = "judged_row False [] hyd_empty hyd_empty"
  obtain home recs where pol: "level_policy (\<lambda>_. 0) TimelineHome = Inr home" "level_policy (\<lambda>_. 0) TimelineHomeRecommendations = Inr recs"
    using timeline_home_builds recommendations_build by blast
  have "list_all (\<lambda>r. \<not> user_rule_holds ?v Standalone default_codes (author_row ?c Standalone (None, hyd_empty) hyd_empty) r)
      (fst (level_lists (safety_level_rules TimelineHomeRecommendations)))"
    "list_all (\<lambda>r. \<not> post_rule_holds ?v Standalone default_codes ?c r)
      (snd (level_lists (safety_level_rules TimelineHomeRecommendations)))"
    "slots_of (\<lambda>_. 0) ?v Standalone default_codes ?c (snd (level_lists (safety_level_rules TimelineHomeRecommendations))) = Shown None None None"
    by code_simp+
  then have "ev_verdict (evaluate_post recs ?v Standalone default_codes (None, hyd_empty) ?c) = Shown None None None"
    using shown_slots [OF level_policy_lists [OF pol(2)], of ?v Standalone default_codes ?c "(None, hyd_empty)"] recommendations_lists
    unfolding list_all_iff evaluate_post_def by simp
  from recommendations_are_stricter [OF pol this] pol(1) show ?thesis by blast
qed

theorem sure_verdicts_are_final_witness:
  "\<exists>pol. level_policy (\<lambda>_. 0) QuotedTweetRules = Inr pol \<and>
     same_verdict
       (ev_verdict (evaluate_post pol (judging_viewer (Age_Known 30)) Standalone default_codes (None, hyd_empty)
          (judged_row True [] hyd_empty (hyd_of H_Blocks))))
       (ev_verdict (evaluate_post pol (judging_viewer (Age_Known 30)) Standalone default_codes (None, hyd_empty)
          (judged_row True [] (hyd_of H_Blocks) hyd_empty)))"
proof -
  obtain pol where pol: "level_policy (\<lambda>_. 0) QuotedTweetRules = Inr pol" using quote_pass_builds by blast
  have "(case level_policy (\<lambda>_. 0) QuotedTweetRules of
           Inr pol \<Rightarrow> ev_defaults (evaluate_post pol (judging_viewer (Age_Known 30)) Standalone default_codes (None, hyd_empty)
             (judged_row True [] hyd_empty (hyd_of H_Blocks))) = hyd_empty
         | Inl _ \<Rightarrow> False)"
    by code_simp
  with pol have "ev_defaults (evaluate_post pol (judging_viewer (Age_Known 30)) Standalone default_codes (None, hyd_empty)
      (judged_row True [] hyd_empty (hyd_of H_Blocks))) = hyd_empty" by simp
  from sure_verdicts_are_final [OF pol judged_reads_kept this] pol show ?thesis by blast
qed

end
